(* ===== verification/Prelude.thy ===== *)
theory Prelude
  imports Main "HOL-Library.Word" "HOL-Library.Product_Lexorder"
begin

text \<open>
  Shared vocabulary of the development: identifiers, instants and durations,
  the error values of the API, string helpers of the Rust standard library,
  tables of rows and the key-value store, with the lemmas the components use
  about them.

  \<^item> a \<open>Uuid\<close> is a natural number, compared as the 128-bit number it is;
  \<^item> a \<open>DateTime<Utc>\<close> is the number of nanoseconds since the epoch (chrono's
    resolution), a \<open>chrono::Duration\<close> a number of nanoseconds;
  \<^item> a Rust \<open>String\<close> is its UTF-8 bytes, one \<open>char\<close> per byte, so that
    \<open>length\<close> is \<open>str::len\<close>;
  \<^item> a database table is the list of its rows; an \<open>UPDATE \<dots> WHERE\<close> statement maps
    over it;
  \<^item> the key-value store (Valkey) is a map from keys to a value and its deadline.
\<close>

named_theorems kv_simps \<open>laws of the key-value store commands\<close>
named_theorems table_simps \<open>laws of table updates\<close>

section \<open>Identifiers and time\<close>

type_synonym uuid = nat
type_synonym instant = int
type_synonym duration = int

definition nanos_per_sec :: int where
  "nanos_per_sec = 1000000000"

definition dur_secs :: "int \<Rightarrow> duration" where
  "dur_secs n = n * nanos_per_sec"

definition dur_millis :: "int \<Rightarrow> duration" where
  "dur_millis n = n * 1000000"

text \<open>\<open>chrono::Duration::num_seconds\<close> and \<open>num_milliseconds\<close> truncate towards zero.\<close>

definition trunc_div :: "int \<Rightarrow> int \<Rightarrow> int" where
  "trunc_div a b = (if 0 \<le> a then a div b else - ((- a) div b))"

definition num_seconds :: "duration \<Rightarrow> int" where
  "num_seconds d = trunc_div d nanos_per_sec"

definition num_milliseconds :: "duration \<Rightarrow> int" where
  "num_milliseconds d = trunc_div d 1000000"

text \<open>\<open>DateTime::timestamp\<close>: whole seconds since the epoch, rounded down.\<close>

definition timestamp :: "instant \<Rightarrow> int" where
  "timestamp t = t div nanos_per_sec"

lemma num_seconds_dur_secs [simp]: "num_seconds (dur_secs n) = n"
proof (cases "0 \<le> n")
  case True
  then show ?thesis
    by (simp add: num_seconds_def dur_secs_def trunc_div_def nanos_per_sec_def)
next
  case False
  have "- (n * 1000000000) div 1000000000 = - n"
    by (metis minus_mult_left nonzero_mult_div_cancel_right zero_neq_numeral)
  with False show ?thesis
    by (simp add: num_seconds_def dur_secs_def trunc_div_def nanos_per_sec_def)
qed

lemma num_seconds_less_iff:
  assumes "0 < n"
  shows "num_seconds d < n \<longleftrightarrow> d < dur_secs n"
  using assms
  by (auto simp: num_seconds_def dur_secs_def trunc_div_def nanos_per_sec_def
      div_less_iff_less_mult pos_imp_zdiv_nonneg_iff)

lemma num_seconds_ge_iff:
  assumes "0 < n"
  shows "n \<le> num_seconds d \<longleftrightarrow> dur_secs n \<le> d"
  using num_seconds_less_iff [OF assms, of d] by linarith

lemma num_milliseconds_pos:
  assumes "0 < num_milliseconds d"
  shows "num_milliseconds d * 1000000 \<le> d"
proof -
  have "0 \<le> d"
    using assms by (auto simp: num_milliseconds_def trunc_div_def pos_imp_zdiv_nonneg_iff
        split: if_splits)
  then show ?thesis by (simp add: num_milliseconds_def trunc_div_def)
qed

lemma num_milliseconds_second:
  assumes "dur_secs 1 \<le> d"
  shows "0 < num_milliseconds d"
  using assms by (simp add: num_milliseconds_def trunc_div_def dur_secs_def nanos_per_sec_def
      pos_imp_zdiv_pos_iff)

lemma dur_secs_mono [simp]: "dur_secs a \<le> dur_secs b \<longleftrightarrow> a \<le> b"
  by (simp add: dur_secs_def nanos_per_sec_def)

lemma dur_secs_strict_mono [simp]: "dur_secs a < dur_secs b \<longleftrightarrow> a < b"
  by (simp add: dur_secs_def nanos_per_sec_def)

lemma dur_secs_nonneg [simp]: "0 \<le> dur_secs a \<longleftrightarrow> 0 \<le> a"
  by (simp add: dur_secs_def nanos_per_sec_def zero_le_mult_iff)

lemma dur_secs_pos [simp]: "0 < dur_secs a \<longleftrightarrow> 0 < a"
  by (simp add: dur_secs_def nanos_per_sec_def zero_less_mult_iff)

section \<open>Strings\<close>

definition starts_with :: "string \<Rightarrow> string \<Rightarrow> bool" where
  "starts_with s p = (take (length p) s = p)"

lemma starts_with_append [simp]: "starts_with (p @ s) p"
  by (simp add: starts_with_def)

lemma starts_with_iff: "starts_with s p \<longleftrightarrow> (\<exists>r. s = p @ r)"
  by (metis append_take_drop_id starts_with_def append_eq_conv_conj)

text \<open>ASCII classes of \<open>char\<close>, as \<open>is_ascii_alphanumeric\<close> and its kin.\<close>

definition ascii_digit :: "char \<Rightarrow> bool" where
  "ascii_digit c = (of_char c \<in> {48..57 :: nat})"

definition ascii_upper :: "char \<Rightarrow> bool" where
  "ascii_upper c = (of_char c \<in> {65..90 :: nat})"

definition ascii_lower :: "char \<Rightarrow> bool" where
  "ascii_lower c = (of_char c \<in> {97..122 :: nat})"

definition ascii_alpha :: "char \<Rightarrow> bool" where
  "ascii_alpha c = (ascii_upper c \<or> ascii_lower c)"

definition ascii_alnum :: "char \<Rightarrow> bool" where
  "ascii_alnum c = (ascii_alpha c \<or> ascii_digit c)"

definition to_ascii_uppercase :: "char \<Rightarrow> char" where
  "to_ascii_uppercase c = (if ascii_lower c then char_of (of_char c - 32 :: nat) else c)"

definition to_ascii_lowercase :: "char \<Rightarrow> char" where
  "to_ascii_lowercase c = (if ascii_upper c then char_of (of_char c + 32 :: nat) else c)"

lemmas ascii_defs = ascii_digit_def ascii_upper_def ascii_lower_def ascii_alpha_def ascii_alnum_def

lemma of_char_upper:
  "ascii_lower c \<Longrightarrow> of_char (to_ascii_uppercase c) = (of_char c - 32 :: nat)"
  by (auto simp: to_ascii_uppercase_def ascii_lower_def of_char_of)

lemma to_ascii_uppercase_idem [simp]:
  "to_ascii_uppercase (to_ascii_uppercase c) = to_ascii_uppercase c"
proof (cases "ascii_lower c")
  case True
  then have "\<not> ascii_lower (to_ascii_uppercase c)"
    using of_char_upper [OF True] by (auto simp: ascii_lower_def)
  then show ?thesis by (simp add: to_ascii_uppercase_def [of "to_ascii_uppercase c"])
next
  case False
  then show ?thesis by (simp add: to_ascii_uppercase_def)
qed

section \<open>Numbers\<close>

text \<open>\<open>u64 as i64\<close> keeps the bits and reads them as two's complement.\<close>

definition as_i64 :: "nat \<Rightarrow> int" where
  "as_i64 n = (let m = n mod 2 ^ 64 in if m < 2 ^ 63 then int m else int m - 2 ^ 64)"

lemma as_i64_small: "n < 2 ^ 63 \<Longrightarrow> as_i64 n = int n"
  by (simp add: as_i64_def Let_def)

text \<open>The decimal rendering of an unsigned number.\<close>

fun show_nat :: "nat \<Rightarrow> string" where
  "show_nat n = (if n < 10 then [char_of (48 + n)]
     else show_nat (n div 10) @ [char_of (48 + n mod 10)])"

declare show_nat.simps [simp del]

fun read_digits :: "nat \<Rightarrow> string \<Rightarrow> nat" where
  "read_digits acc [] = acc"
| "read_digits acc (c # cs) = read_digits (acc * 10 + (of_char c - 48)) cs"

lemma read_digits_append:
  "read_digits acc (xs @ ys) = read_digits (read_digits acc xs) ys"
  by (induction xs arbitrary: acc) auto

lemma read_show_nat: "read_digits 0 (show_nat n) = n"
proof (induction n rule: show_nat.induct)
  case (1 n)
  show ?case
  proof (cases "n < 10")
    case True
    then show ?thesis by (subst show_nat.simps) (simp add: of_char_of)
  next
    case False
    then show ?thesis using 1
      by (subst show_nat.simps) (simp add: read_digits_append of_char_of)
  qed
qed

lemma show_nat_digits: "list_all ascii_digit (show_nat u)"
proof (induction u rule: show_nat.induct)
  case (1 n)
  have digit: "ascii_digit (char_of (48 + d))" if "d < 10" for d :: nat
    using that by (auto simp: ascii_digit_def of_char_of)
  show ?case using 1 digit [of n] digit [of "n mod 10"] by (subst show_nat.simps) simp
qed

lemma show_nat_inject [simp]: "show_nat m = show_nat n \<longleftrightarrow> m = n"
  by (metis read_show_nat)

section \<open>Transition systems\<close>

text \<open>
  A step relation and a predicate that every step keeps: the predicate holds in every
  state a run reaches. The components interpret it for their own steps.
\<close>

locale kept_by_steps =
  fixes step :: "'s \<Rightarrow> 's \<Rightarrow> bool"
    and inv :: "'s \<Rightarrow> bool"
  assumes step_keeps: "step s s' \<Longrightarrow> inv s \<Longrightarrow> inv s'"
begin

lemma run_keeps: "step\<^sup>*\<^sup>* s s' \<Longrightarrow> inv s \<Longrightarrow> inv s'"
  by (induction rule: rtranclp_induct) (auto intro: step_keeps)

end

section \<open>Tables\<close>

text \<open>
  \<open>UPDATE table SET \<dots> WHERE p\<close>: the rows that satisfy the condition are replaced;
  \<open>rows_affected\<close> counts them.
\<close>

definition update_where :: "('r \<Rightarrow> bool) \<Rightarrow> ('r \<Rightarrow> 'r) \<Rightarrow> 'r list \<Rightarrow> 'r list" where
  "update_where p f rows = map (\<lambda>r. if p r then f r else r) rows"

definition rows_affected :: "('r \<Rightarrow> bool) \<Rightarrow> 'r list \<Rightarrow> nat" where
  "rows_affected p rows = length (filter p rows)"

lemma update_where_Nil [simp]: "update_where p f [] = []"
  by (simp add: update_where_def)

lemma update_where_Cons [simp]:
  "update_where p f (r # rs) = (if p r then f r else r) # update_where p f rs"
  by (simp add: update_where_def)

lemma length_update_where [simp]: "length (update_where p f rows) = length rows"
  by (simp add: update_where_def)

lemma set_update_where:
  "set (update_where p f rows) = f ` {r \<in> set rows. p r} \<union> {r \<in> set rows. \<not> p r}"
  by (auto simp: update_where_def)

lemma in_update_whereE:
  assumes "r' \<in> set (update_where p f rows)"
  obtains r where "r \<in> set rows" "r' = (if p r then f r else r)"
  using assms by (auto simp: update_where_def)

lemma in_update_whereI:
  "r \<in> set rows \<Longrightarrow> (if p r then f r else r) \<in> set (update_where p f rows)"
  by (auto simp: update_where_def)

lemma map_update_where [table_simps]:
  assumes "\<And>r. p r \<Longrightarrow> k (f r) = k r"
  shows "map k (update_where p f rows) = map k rows"
  using assms by (simp add: update_where_def)

lemma image_update_where:
  assumes "\<And>r. p r \<Longrightarrow> k (f r) = k r"
  shows "k ` set (update_where p f rows) = k ` set rows"
  using map_update_where [of p k f rows] assms by (metis list.set_map)

lemma filter_update_where_other [table_simps]:
  assumes "\<And>r. p r \<Longrightarrow> \<not> q r" and "\<And>r. p r \<Longrightarrow> \<not> q (f r)"
  shows "filter q (update_where p f rows) = filter q rows"
  using assms by (induction rows) auto

lemma find_update_where:
  assumes "\<And>r. p r \<Longrightarrow> q (f r) = q r"
  shows "find q (update_where p f rows)
    = map_option (\<lambda>r. if p r then f r else r) (find q rows)"
  using assms by (induction rows) auto

lemma find_update_where_other:
  assumes "\<And>r. p r \<Longrightarrow> \<not> q r" and "\<And>r. p r \<Longrightarrow> \<not> q (f r)"
  shows "find q (update_where p f rows) = find q rows"
  using assms by (induction rows) auto

lemma find_map_same:
  assumes "\<And>x. q (f x) = q x"
  shows "find q (map f xs) = map_option f (find q xs)"
  using assms by (induction xs) auto

lemma find_SomeD: "find p xs = Some x \<Longrightarrow> x \<in> set xs \<and> p x"
  by (induction xs) (auto split: if_splits)

lemma find_append:
  "find p (xs @ ys) = (case find p xs of None \<Rightarrow> find p ys | Some x \<Rightarrow> Some x)"
  by (induction xs) auto

text \<open>Rows that sort after all others stay at the end.\<close>

lemma insort_key_append:
  fixes f :: "'a \<Rightarrow> 'b :: linorder"
  shows "\<forall>y\<in>set ys. f x < f y \<Longrightarrow> insort_key f x (zs @ ys) = insort_key f x zs @ ys"
  by (induction zs) (cases ys, auto)

lemma sort_key_append:
  fixes f :: "'a \<Rightarrow> 'b :: linorder"
  assumes "sorted (map f ys)" "\<forall>x\<in>set xs. \<forall>y\<in>set ys. f x < f y"
  shows "sort_key f (xs @ ys) = sort_key f xs @ ys"
  using assms(2) by (induction xs) (simp_all add: insort_key_append sort_key_id_if_sorted [OF assms(1)])

section \<open>The key-value store\<close>

text \<open>
  Valkey as the code uses it: a map from keys to a value with an optional deadline.
  A key whose deadline has passed is not there. \<open>SET k v KEEPTTL\<close> on a key that is
  there keeps its deadline; on a key that is not there it writes one without a
  deadline.
\<close>

type_synonym ('k, 'v) kv = "'k \<Rightarrow> ('v \<times> instant option) option"

definition kv_entry :: "instant \<Rightarrow> 'k \<Rightarrow> ('k, 'v) kv \<Rightarrow> ('v \<times> instant option) option" where
  "kv_entry now k m = (case m k of
      None \<Rightarrow> None
    | Some (v, None) \<Rightarrow> Some (v, None)
    | Some (v, Some t) \<Rightarrow> if t \<le> now then None else Some (v, Some t))"

definition kv_get :: "instant \<Rightarrow> 'k \<Rightarrow> ('k, 'v) kv \<Rightarrow> 'v option" where
  "kv_get now k m = map_option fst (kv_entry now k m)"

definition kv_set_until :: "instant option \<Rightarrow> 'k \<Rightarrow> 'v \<Rightarrow> ('k, 'v) kv \<Rightarrow> ('k, 'v) kv" where
  "kv_set_until t k v m = m(k \<mapsto> (v, t))"

definition kv_set_ex :: "instant \<Rightarrow> nat \<Rightarrow> 'k \<Rightarrow> 'v \<Rightarrow> ('k, 'v) kv \<Rightarrow> ('k, 'v) kv" where
  "kv_set_ex now secs k v m = kv_set_until (Some (now + dur_secs (int secs))) k v m"

definition kv_set_keepttl :: "instant \<Rightarrow> 'k \<Rightarrow> 'v \<Rightarrow> ('k, 'v) kv \<Rightarrow> ('k, 'v) kv" where
  "kv_set_keepttl now k v m = kv_set_until (Option.bind (kv_entry now k m) snd) k v m"

definition kv_del :: "'k \<Rightarrow> ('k, 'v) kv \<Rightarrow> ('k, 'v) kv" where
  "kv_del k m = m(k := None)"

text \<open>\<open>SET k v NX EX secs\<close>: written only when the key is not there.\<close>

definition kv_set_nx_ex ::
  "instant \<Rightarrow> nat \<Rightarrow> 'k \<Rightarrow> 'v \<Rightarrow> ('k, 'v) kv \<Rightarrow> bool \<times> ('k, 'v) kv" where
  "kv_set_nx_ex now secs k v m =
     (if kv_get now k m = None then (True, kv_set_ex now secs k v m) else (False, m))"

text \<open>\<open>GETDEL k\<close>: read and removed at once.\<close>

definition kv_getdel :: "instant \<Rightarrow> 'k \<Rightarrow> ('k, 'v) kv \<Rightarrow> 'v option \<times> ('k, 'v) kv" where
  "kv_getdel now k m = (kv_get now k m, kv_del k m)"

lemma kv_get_empty [simp]: "kv_get now k Map.empty = None"
  by (simp add: kv_get_def kv_entry_def)

lemma kv_get_set_until [kv_simps]:
  "kv_get now k (kv_set_until t k' v m)
    = (if k = k' then (case t of None \<Rightarrow> Some v | Some d \<Rightarrow> if d \<le> now then None else Some v)
       else kv_get now k m)"
  by (auto simp: kv_get_def kv_set_until_def kv_entry_def split: option.splits)

lemma kv_get_del [kv_simps]:
  "kv_get now k (kv_del k' m) = (if k = k' then None else kv_get now k m)"
  by (simp add: kv_get_def kv_del_def kv_entry_def)

lemma kv_get_set_ex_other [kv_simps]:
  "k \<noteq> k' \<Longrightarrow> kv_get now k (kv_set_ex t secs k' v m) = kv_get now k m"
  by (simp add: kv_set_ex_def kv_get_set_until)

lemma kv_get_keepttl_other [kv_simps]:
  "k \<noteq> k' \<Longrightarrow> kv_get now k (kv_set_keepttl t k' v m) = kv_get now k m"
  by (simp add: kv_set_keepttl_def kv_get_set_until)

lemma kv_get_keepttl_same [kv_simps]:
  assumes "kv_get now k m \<noteq> None"
  shows "kv_get now k (kv_set_keepttl now k v m) = Some v"
  using assms
  by (auto simp: kv_set_keepttl_def kv_get_def kv_entry_def kv_set_until_def
      split: option.splits if_splits)

text \<open>A key only ever disappears with time.\<close>

lemma kv_get_mono_time:
  "kv_get later k m = Some v \<Longrightarrow> now \<le> later \<Longrightarrow> kv_get now k m = Some v"
  by (auto simp: kv_get_def kv_entry_def split: option.splits if_splits)

lemma kv_get_at_set_ex [kv_simps]:
  "kv_get now k (kv_set_ex t secs k v m)
    = (if t + dur_secs (int secs) \<le> now then None else Some v)"
  by (simp add: kv_set_ex_def kv_get_set_until)

section \<open>Results\<close>

text \<open>The \<open>?\<close> operator: an error ends the function.\<close>

definition andThen :: "'e + 'a \<Rightarrow> ('a \<Rightarrow> 'e + 'b) \<Rightarrow> 'e + 'b" where
  "andThen r f = (case r of Inl e \<Rightarrow> Inl e | Inr a \<Rightarrow> f a)"

lemma andThen_simps [simp]:
  "andThen (Inl e) f = Inl e" "andThen (Inr a) f = f a"
  by (simp_all add: andThen_def)

lemma andThen_Inr: "andThen r f = Inr b \<longleftrightarrow> (\<exists>a. r = Inr a \<and> f a = Inr b)"
  by (cases r) auto

definition ensure :: "bool \<Rightarrow> 'e \<Rightarrow> 'e + unit" where
  "ensure ok e = (if ok then Inr () else Inl e)"

lemma ensure_simps [simp]: "ensure True e = Inr ()" "ensure False e = Inl e"
  by (simp_all add: ensure_def)

lemma ensure_Inr [simp]: "ensure b e = Inr u \<longleftrightarrow> b"
  by (simp add: ensure_def)

definition or_error :: "'a option \<Rightarrow> 'e \<Rightarrow> 'e + 'a" where
  "or_error x e = (case x of None \<Rightarrow> Inl e | Some a \<Rightarrow> Inr a)"

lemma or_error_simps [simp]:
  "or_error None e = Inl e" "or_error (Some a) e = Inr a" "or_error x e = Inr a \<longleftrightarrow> x = Some a"
  by (auto simp: or_error_def split: option.splits)

text \<open>The same over a state: an operation that fails keeps what it has written.\<close>

definition andThenS :: "('e + 'a) \<times> 's \<Rightarrow> ('a \<Rightarrow> 's \<Rightarrow> ('e + 'b) \<times> 's) \<Rightarrow> ('e + 'b) \<times> 's" where
  "andThenS m f = (case m of (Inl e, s) \<Rightarrow> (Inl e, s) | (Inr a, s) \<Rightarrow> f a s)"

lemma andThenS_simps [simp]: "andThenS (Inl e, s) f = (Inl e, s)" "andThenS (Inr a, s) f = f a s"
  by (simp_all add: andThenS_def)

lemma andThenS_Inr: "andThenS m f = (Inr b, s') \<longleftrightarrow> (\<exists>a s. m = (Inr a, s) \<and> f a s = (Inr b, s'))"
  by (cases m; cases "fst m") (auto simp: andThenS_def)

end
