(* ===== verification/Errors.thy ===== *)
theory Errors
  imports Prelude
begin

text \<open>
  The error values of the API (\<open>api/src/error.rs\<close>): \<open>AppError\<close> with its HTTP status,
  its problem document and its copies, the OAuth error codes and \<open>OAuthError\<close>, and
  the conversion between the two. Database and cache errors carry the text of the
  underlying error.
\<close>

record field_error =
  fe_field :: string
  fe_message :: string

datatype app_error =
    BadRequest string
  | Validation "field_error list"
  | Unauthorized
  | Forbidden string
  | ReauthenticationRequired bool
  | ImpersonationForbidden
  | NotFound string
  | Conflict string
  | RateLimited nat
  | Unavailable string
  | Database string
  | Cache string
  | Internal string

text \<open>\<open>Vec<String>::join\<close>.\<close>

fun join :: "'a list \<Rightarrow> 'a list list \<Rightarrow> 'a list" where
  "join sep [] = []"
| "join sep [x] = x"
| "join sep (x # y # ys) = x @ sep @ join sep (y # ys)"

definition format_fields :: "field_error list \<Rightarrow> string" where
  "format_fields fs = join ''; '' (map (\<lambda>f. fe_field f @ '' '' @ fe_message f) fs)"

fun app_error_to_string :: "app_error \<Rightarrow> string" where
  "app_error_to_string (BadRequest d) = d"
| "app_error_to_string (Validation fs) = ''validation failed: '' @ format_fields fs"
| "app_error_to_string Unauthorized = ''authentication required''"
| "app_error_to_string (Forbidden d) = d"
| "app_error_to_string (ReauthenticationRequired mfa) =
     ''sign in again'' @ (if mfa then '' with your second step'' else [])
       @ '' to change security settings''"
| "app_error_to_string ImpersonationForbidden =
     ''this cannot be done while impersonating a user''"
| "app_error_to_string (NotFound what) = what @ '' not found''"
| "app_error_to_string (Conflict d) = d"
| "app_error_to_string (RateLimited secs) = ''rate limit exceeded''"
| "app_error_to_string (Unavailable d) = ''service unavailable: '' @ d"
| "app_error_to_string (Database e) = ''database error''"
| "app_error_to_string (Cache d) = ''cache error''"
| "app_error_to_string (Internal d) = ''internal error: '' @ d"

definition app_error_shared :: "app_error \<Rightarrow> app_error" where
  "app_error_shared e = (case e of Database d \<Rightarrow> Internal (''database error: '' @ d) | _ \<Rightarrow> e)"

fun app_error_status :: "app_error \<Rightarrow> nat" where
  "app_error_status (BadRequest d) = 400"
| "app_error_status (Validation fs) = 400"
| "app_error_status Unauthorized = 401"
| "app_error_status (Forbidden d) = 403"
| "app_error_status (ReauthenticationRequired mfa) = 403"
| "app_error_status ImpersonationForbidden = 403"
| "app_error_status (NotFound what) = 404"
| "app_error_status (Conflict d) = 409"
| "app_error_status (RateLimited secs) = 429"
| "app_error_status (Unavailable d) = 503"
| "app_error_status (Database e) = 500"
| "app_error_status (Cache d) = 500"
| "app_error_status (Internal d) = 500"

fun problem_type :: "app_error \<Rightarrow> string" where
  "problem_type (BadRequest d) = ''urn:ridm:error:bad-request''"
| "problem_type (Validation fs) = ''urn:ridm:error:validation''"
| "problem_type Unauthorized = ''urn:ridm:error:unauthorized''"
| "problem_type (Forbidden d) = ''urn:ridm:error:forbidden''"
| "problem_type (ReauthenticationRequired mfa) = ''urn:ridm:error:reauthentication-required''"
| "problem_type ImpersonationForbidden = ''urn:ridm:error:impersonation-forbidden''"
| "problem_type (NotFound what) = ''urn:ridm:error:not-found''"
| "problem_type (Conflict d) = ''urn:ridm:error:conflict''"
| "problem_type (RateLimited secs) = ''urn:ridm:error:rate-limited''"
| "problem_type (Unavailable d) = ''urn:ridm:error:unavailable''"
| "problem_type (Database e) = ''urn:ridm:error:internal''"
| "problem_type (Cache d) = ''urn:ridm:error:internal''"
| "problem_type (Internal d) = ''urn:ridm:error:internal''"

text \<open>
  The problem document. \<open>canonical_reason\<close> of the statuses above is part of the
  \<open>http\<close> crate and stands as a parameter.
\<close>

record problem =
  pr_kind :: string
  pr_title :: string
  pr_status :: nat
  pr_detail :: "string option"
  pr_errors :: "field_error list option"

definition is_server_error :: "nat \<Rightarrow> bool" where
  "is_server_error s = (500 \<le> s \<and> s < 600)"

definition app_error_problem :: "(nat \<Rightarrow> string option) \<Rightarrow> app_error \<Rightarrow> problem" where
  "app_error_problem canonical_reason e =
     (let status = app_error_status e; internal = is_server_error status in
      \<lparr> pr_kind = problem_type e,
        pr_title = (case canonical_reason status of None \<Rightarrow> ''Error'' | Some t \<Rightarrow> t),
        pr_status = status,
        pr_detail = (if internal then None else Some (app_error_to_string e)),
        pr_errors = (case e of Validation errors \<Rightarrow> Some errors | _ \<Rightarrow> None) \<rparr>)"

section \<open>OAuth errors\<close>

datatype oauth_code =
    InvalidRequest | InvalidClient | InvalidGrant | UnauthorizedClient
  | UnsupportedGrantType | InvalidScope | AccessDenied | UnsupportedResponseType
  | ServerError | TemporarilyUnavailable | InvalidToken | InsufficientScope
  | InteractionRequired | LoginRequired | ConsentRequired | AccountSelectionRequired
  | InvalidRequestUri | InvalidRequestObject | RequestNotSupported
  | RequestUriNotSupported | RegistrationNotSupported | AuthorizationPending
  | SlowDown | ExpiredToken | InvalidRedirectUri | InvalidClientMetadata
  | InvalidDpopProof | UseDpopNonce | InvalidTarget | UnknownUserId
  | InvalidBindingMessage

fun oauth_code_as_str :: "oauth_code \<Rightarrow> string" where
  "oauth_code_as_str InvalidRequest = ''invalid_request''"
| "oauth_code_as_str InvalidClient = ''invalid_client''"
| "oauth_code_as_str InvalidGrant = ''invalid_grant''"
| "oauth_code_as_str UnauthorizedClient = ''unauthorized_client''"
| "oauth_code_as_str UnsupportedGrantType = ''unsupported_grant_type''"
| "oauth_code_as_str InvalidScope = ''invalid_scope''"
| "oauth_code_as_str AccessDenied = ''access_denied''"
| "oauth_code_as_str UnsupportedResponseType = ''unsupported_response_type''"
| "oauth_code_as_str ServerError = ''server_error''"
| "oauth_code_as_str TemporarilyUnavailable = ''temporarily_unavailable''"
| "oauth_code_as_str InvalidToken = ''invalid_token''"
| "oauth_code_as_str InsufficientScope = ''insufficient_scope''"
| "oauth_code_as_str InteractionRequired = ''interaction_required''"
| "oauth_code_as_str LoginRequired = ''login_required''"
| "oauth_code_as_str ConsentRequired = ''consent_required''"
| "oauth_code_as_str AccountSelectionRequired = ''account_selection_required''"
| "oauth_code_as_str InvalidRequestUri = ''invalid_request_uri''"
| "oauth_code_as_str InvalidRequestObject = ''invalid_request_object''"
| "oauth_code_as_str RequestNotSupported = ''request_not_supported''"
| "oauth_code_as_str RequestUriNotSupported = ''request_uri_not_supported''"
| "oauth_code_as_str RegistrationNotSupported = ''registration_not_supported''"
| "oauth_code_as_str AuthorizationPending = ''authorization_pending''"
| "oauth_code_as_str SlowDown = ''slow_down''"
| "oauth_code_as_str ExpiredToken = ''expired_token''"
| "oauth_code_as_str InvalidRedirectUri = ''invalid_redirect_uri''"
| "oauth_code_as_str InvalidClientMetadata = ''invalid_client_metadata''"
| "oauth_code_as_str InvalidDpopProof = ''invalid_dpop_proof''"
| "oauth_code_as_str UseDpopNonce = ''use_dpop_nonce''"
| "oauth_code_as_str InvalidTarget = ''invalid_target''"
| "oauth_code_as_str UnknownUserId = ''unknown_user_id''"
| "oauth_code_as_str InvalidBindingMessage = ''invalid_binding_message''"

definition oauth_code_status :: "oauth_code \<Rightarrow> nat" where
  "oauth_code_status c = (case c of
      InvalidClient \<Rightarrow> 401 | InvalidToken \<Rightarrow> 401
    | InsufficientScope \<Rightarrow> 403
    | ServerError \<Rightarrow> 500
    | TemporarilyUnavailable \<Rightarrow> 503
    | _ \<Rightarrow> 400)"

record oauth_error =
  oe_error :: oauth_code
  oe_description :: "string option"
  oe_uri :: "string option"
  oe_state :: "string option"
  oe_retry_after :: "nat option"

definition oauth_err :: "oauth_code \<Rightarrow> string \<Rightarrow> oauth_error" where
  "oauth_err c d = \<lparr> oe_error = c, oe_description = Some d, oe_uri = None, oe_state = None,
     oe_retry_after = None \<rparr>"

definition oauth_err_code :: "oauth_code \<Rightarrow> oauth_error" where
  "oauth_err_code c = \<lparr> oe_error = c, oe_description = None, oe_uri = None, oe_state = None,
     oe_retry_after = None \<rparr>"

definition oauth_rate_limited :: "nat \<Rightarrow> oauth_error" where
  "oauth_rate_limited secs =
     (oauth_err SlowDown (''too many requests; retry after '' @ show_nat secs @ '' seconds''))
       \<lparr> oe_retry_after := Some secs \<rparr>"

definition oauth_invalid_request :: "string \<Rightarrow> oauth_error" where
  "oauth_invalid_request d = oauth_err InvalidRequest d"

fun oauth_of_app_error :: "app_error \<Rightarrow> oauth_error" where
  "oauth_of_app_error (BadRequest m) = oauth_invalid_request m"
| "oauth_of_app_error (Validation fs) = oauth_invalid_request ''validation failed''"
| "oauth_of_app_error Unauthorized = oauth_err_code InvalidToken"
| "oauth_of_app_error (Forbidden m) = oauth_err AccessDenied m"
| "oauth_of_app_error (ReauthenticationRequired mfa) =
     oauth_err AccessDenied (app_error_to_string (ReauthenticationRequired mfa))"
| "oauth_of_app_error ImpersonationForbidden =
     oauth_err AccessDenied (app_error_to_string ImpersonationForbidden)"
| "oauth_of_app_error (NotFound what) = oauth_invalid_request (what @ '' not found'')"
| "oauth_of_app_error (Conflict m) = oauth_invalid_request m"
| "oauth_of_app_error (RateLimited secs) = oauth_rate_limited secs"
| "oauth_of_app_error (Unavailable d) = oauth_err_code TemporarilyUnavailable"
| "oauth_of_app_error (Database e) = oauth_err_code ServerError"
| "oauth_of_app_error (Cache d) = oauth_err_code ServerError"
| "oauth_of_app_error (Internal d) = oauth_err_code ServerError"

text \<open>The status of the HTTP response: 429 whenever a wait is named.\<close>

definition oauth_response_status :: "oauth_error \<Rightarrow> nat" where
  "oauth_response_status e =
     (case oe_retry_after e of Some s \<Rightarrow> 429 | None \<Rightarrow> oauth_code_status (oe_error e))"

lemma oe_error_oauth_err [simp]: "oe_error (oauth_err c d) = c"
  by (simp add: oauth_err_def)

lemma oe_error_oauth_err_code [simp]: "oe_error (oauth_err_code c) = c"
  by (simp add: oauth_err_code_def)

section \<open>Properties\<close>

lemma app_error_shared_status: "app_error_status (app_error_shared e) = app_error_status e"
  by (cases e) (simp_all add: app_error_shared_def)

text \<open>
  the problem document of an error answered with a server status carries no
  detail and no field list, whatever text the error holds, and every other error
  carries its message; a shared copy of an error answers with the same status and kind.
\<close>

theorem problem_hides_internal_detail:
  "(pr_detail (app_error_problem cr e) = None \<longleftrightarrow> 500 \<le> app_error_status e) \<and>
   pr_kind (app_error_problem cr (app_error_shared e)) = pr_kind (app_error_problem cr e) \<and>
   pr_status (app_error_problem cr (app_error_shared e)) = pr_status (app_error_problem cr e)"
  by (cases e) (simp_all add: app_error_problem_def Let_def is_server_error_def app_error_shared_def)

end
