(* ===== verification/Json.thy ===== *)
theory Json
  imports Errors
begin

text \<open>
  JSON values as the code handles them (\<open>serde_json::Value\<close>), the string functions of
  the Rust standard library that work on request parameters, and the list idioms the
  services share. An object is the list of its members; reading and writing a member go
  by name, and the order of members carries no meaning. An \<open>f64\<close> is its 64 bits.
\<close>

section \<open>Values\<close>

datatype json =
    JNull
  | JBool bool
  | JInt int
  | JFloat "64 word"
  | JStr string
  | JArr "json list"
  | JObj "(string \<times> json) list"

text \<open>\<open>Map<String, Value>\<close>, e.g. the claims of a token.\<close>

type_synonym claims = "(string \<times> json) list"

text \<open>\<open>value[name]\<close> and \<open>value.get(name)\<close> on a shared reference.\<close>

fun json_get :: "json \<Rightarrow> string \<Rightarrow> json option" where
  "json_get (JObj ms) k = map_of ms k"
| "json_get _ k = None"

definition json_index :: "json \<Rightarrow> string \<Rightarrow> json" where
  "json_index v k = (case json_get v k of None \<Rightarrow> JNull | Some x \<Rightarrow> x)"

text \<open>\<open>value[name] = x\<close> on an object: the member is replaced, or added.\<close>

fun set_member :: "string \<Rightarrow> json \<Rightarrow> (string \<times> json) list \<Rightarrow> (string \<times> json) list" where
  "set_member k v [] = [(k, v)]"
| "set_member k v ((k', v') # ms) = (if k = k' then (k, v) # ms else (k', v') # set_member k v ms)"

fun json_set :: "string \<Rightarrow> json \<Rightarrow> json \<Rightarrow> json" where
  "json_set k v (JObj ms) = JObj (set_member k v ms)"
| "json_set k v j = j"

fun as_str :: "json \<Rightarrow> string option" where
  "as_str (JStr s) = Some s"
| "as_str _ = None"

fun as_int :: "json \<Rightarrow> int option" where
  "as_int (JInt i) = Some i"
| "as_int _ = None"

fun as_array :: "json \<Rightarrow> json list option" where
  "as_array (JArr xs) = Some xs"
| "as_array _ = None"

lemma map_of_set_member [simp]:
  "map_of (set_member k v ms) k' = (if k' = k then Some v else map_of ms k')"
  by (induction ms) auto

lemma json_get_set [simp]:
  "json_get (json_set k v (JObj ms)) k' = (if k' = k then Some v else json_get (JObj ms) k')"
  by simp

lemma as_str_eq_Some [simp]: "as_str v = Some s \<longleftrightarrow> v = JStr s"
  by (cases v) auto

lemma as_int_eq_Some [simp]: "as_int v = Some i \<longleftrightarrow> v = JInt i"
  by (cases v) auto

section \<open>Lists of strings\<close>

text \<open>\<open>if !out.contains(x) { out.push(x) }\<close>, in order.\<close>

definition push_new :: "'a \<Rightarrow> 'a list \<Rightarrow> 'a list" where
  "push_new x out = (if x \<in> set out then out else out @ [x])"

definition push_all_new :: "'a list \<Rightarrow> 'a list \<Rightarrow> 'a list" where
  "push_all_new xs out = fold push_new xs out"

lemma push_all_new_Nil [simp]: "push_all_new [] out = out"
  by (simp add: push_all_new_def)

lemma push_all_new_Cons [simp]: "push_all_new (x # xs) out = push_all_new xs (push_new x out)"
  by (simp add: push_all_new_def)

lemma set_push_all_new [simp]: "set (push_all_new xs out) = set out \<union> set xs"
  by (induction xs arbitrary: out) (auto simp: push_new_def)

lemma distinct_push_all_new [simp]: "distinct out \<Longrightarrow> distinct (push_all_new xs out)"
  by (induction xs arbitrary: out) (auto simp: push_new_def)

lemma push_all_new_distinct:
  "distinct (out @ xs) \<Longrightarrow> push_all_new xs out = out @ xs"
  by (induction xs arbitrary: out) (auto simp: push_new_def)

section \<open>String functions\<close>

text \<open>\<open>s.split(c)\<close>: always at least one piece.\<close>

fun split_on :: "char \<Rightarrow> string \<Rightarrow> string list" where
  "split_on c [] = [[]]"
| "split_on c (x # xs) =
     (if x = c then [] # split_on c xs
      else case split_on c xs of [] \<Rightarrow> [[x]] | p # ps \<Rightarrow> (x # p) # ps)"

lemma split_on_not_Nil [simp]: "split_on c s \<noteq> []"
  by (induction s) (auto split: list.splits)

lemma split_on_free: "c \<notin> set s \<Longrightarrow> split_on c s = [s]"
  by (induction s) auto

lemma split_on_append:
  "c \<notin> set p \<Longrightarrow> split_on c (p @ c # rest) = p # split_on c rest"
  by (induction p) auto

lemma split_join:
  assumes "\<forall>p\<in>set ps. c \<notin> set p" "ps \<noteq> []"
  shows "split_on c (join [c] ps) = ps"
  using assms
  by (induction "[c]" ps rule: join.induct) (auto simp: split_on_free split_on_append)

text \<open>
  \<open>str::trim\<close> removes the characters with the \<open>White_Space\<close> property at both ends; these
  are their UTF-8 encodings.
\<close>

definition white_space :: "string list" where
  "white_space =
     map (\<lambda>n. [char_of (n :: nat)]) ([9..<14] @ [32]) @
     map (map (char_of :: nat \<Rightarrow> char))
       ([[194, 133], [194, 160], [225, 154, 128]]
        @ map (\<lambda>n. [226, 128, n]) ([128..<139] @ [168, 169, 175])
        @ [[226, 129, 159], [227, 128, 128]])"

lemma white_space_nonempty: "w \<in> set white_space \<Longrightarrow> w \<noteq> []"
  by (auto simp: white_space_def)

definition strip_one :: "string list \<Rightarrow> string \<Rightarrow> string option" where
  "strip_one ws s = map_option (\<lambda>w. drop (length w) s) (find (\<lambda>w. w \<noteq> [] \<and> starts_with s w) ws)"

lemma strip_one_shorter: "strip_one ws s = Some r \<Longrightarrow> length r < length s"
  by (auto simp: strip_one_def starts_with_iff dest!: find_SomeD)

function strip_all :: "string list \<Rightarrow> string \<Rightarrow> string" where
  "strip_all ws s = (case strip_one ws s of None \<Rightarrow> s | Some r \<Rightarrow> strip_all ws r)"
  by pat_completeness auto
termination by (relation "measure (\<lambda>(ws, s). length s)") (auto dest: strip_one_shorter)

declare strip_all.simps [simp del]

definition trim_start :: "string \<Rightarrow> string" where
  "trim_start s = strip_all white_space s"

definition trim_end :: "string \<Rightarrow> string" where
  "trim_end s = rev (strip_all (map rev white_space) (rev s))"

definition trim :: "string \<Rightarrow> string" where
  "trim s = trim_end (trim_start s)"

text \<open>A string of visible ASCII characters has nothing to trim.\<close>

definition visible :: "char \<Rightarrow> bool" where
  "visible c = (of_char c \<in> {33..126 :: nat})"

lemma white_space_invisible: "w \<in> set white_space \<Longrightarrow> c \<in> set w \<Longrightarrow> \<not> visible c"
proof -
  have "list_all (list_all (\<lambda>c. \<not> visible c)) white_space"
    by (simp add: white_space_def visible_def of_char_of upt_conv_Cons)
  then show "w \<in> set white_space \<Longrightarrow> c \<in> set w \<Longrightarrow> \<not> visible c"
    by (auto simp: list_all_iff)
qed

lemma strip_all_visible:
  assumes "\<forall>w\<in>set ws. \<forall>c\<in>set w. \<not> visible c" "list_all visible s"
  shows "strip_all ws s = s"
proof -
  have "find (\<lambda>w. w \<noteq> [] \<and> starts_with s w) ws = None"
    using assms by (fastforce simp: find_None_iff starts_with_iff list_all_iff neq_Nil_conv)
  then show ?thesis by (subst strip_all.simps) (simp add: strip_one_def)
qed

lemma trim_visible: "list_all visible s \<Longrightarrow> trim s = s"
  using white_space_invisible
  by (auto simp: trim_def trim_start_def trim_end_def strip_all_visible list_all_iff)

end
