(* ===== verification/Session_Store.thy ===== *)
theory Session_Store
  imports Json
begin

text \<open>
  Browser sessions (\<open>api/src/services/sessions.rs\<close>, \<open>api/src/repos/sessions.rs\<close>): the
  session record, its copy in the key-value store under a deadline, the set of a user's
  session ids and the mirror rows in the database, together with the state the
  session, refresh token and logout components share.
\<close>

section \<open>Data\<close>

record session_policy =
  idle_timeout_secs :: nat
  absolute_timeout_secs :: nat
  max_concurrent :: nat
  remember_device_days :: nat
  access_token_ttl_secs :: nat
  refresh_token_ttl_secs :: nat
  id_token_ttl_secs :: nat

definition default_session_policy :: session_policy where
  "default_session_policy = \<lparr>
     idle_timeout_secs = 30 * 60,
     absolute_timeout_secs = 12 * 60 * 60,
     max_concurrent = 0,
     remember_device_days = 30,
     access_token_ttl_secs = 5 * 60,
     refresh_token_ttl_secs = 30 * 24 * 60 * 60,
     id_token_ttl_secs = 5 * 60 \<rparr>"

record impersonator =
  imp_user :: uuid
  imp_tenant :: uuid
  imp_username :: string

record sso_session =
  ss_id :: uuid
  ss_tenant :: uuid
  ss_user :: uuid
  ss_auth_time :: instant
  ss_amr :: "string list"
  ss_acr :: "string option"
  ss_ip :: "string option"
  ss_user_agent :: "string option"
  ss_device :: "uuid option"
  ss_org :: "uuid option"
  ss_impersonator :: "impersonator option"
  ss_created_at :: instant
  ss_last_seen_at :: instant
  ss_expires_at :: instant
  ss_idle_expires_at :: instant

text \<open>A row of \<open>sso_sessions\<close>: the session's columns and the end of its life.\<close>

record session_row =
  sr_session :: sso_session
  sr_reason :: "string option"
  sr_revoked_at :: "instant option"

text \<open>\<open>RefreshToken\<close> (\<open>api/src/models/refresh_token.rs\<close>); \<open>act\<close> is opaque here.\<close>

record refresh_token =
  rt_id :: uuid
  rt_tenant :: uuid
  rt_family :: uuid
  rt_client :: string
  rt_user :: "uuid option"
  rt_session :: "uuid option"
  rt_hash :: string
  rt_scopes :: "string list"
  rt_audiences :: "string list"
  rt_auth_time :: "instant option"
  rt_amr :: "string list"
  rt_acr :: "string option"
  rt_org :: "uuid option"
  rt_act :: "json option"
  rt_expires_at :: instant
  rt_dpop_jkt :: "string option"
  rt_mtls_x5t :: "string option"
  rt_consumed_at :: "instant option"
  rt_revoked_at :: "instant option"
  rt_created_at :: instant

datatype actor = ActorSystem | ActorUser uuid | ActorAdmin uuid | ActorClient uuid

text \<open>The events these components publish, with the tenant and the actor.\<close>

datatype event_kind =
    SessionCreated uuid uuid
  | SessionRevoked uuid uuid
  | ImpersonationEnded uuid uuid uuid
  | TokensRevoked "uuid option" "uuid option" nat
  | RefreshTokenReuseDetected uuid string "uuid option"

type_synonym event = "uuid \<times> actor \<times> event_kind"

record auth_state =
  rt_rows :: "refresh_token list"
  sess_kv :: "(uuid \<times> uuid, sso_session) kv"
  user_sets :: "(uuid \<times> uuid, uuid list) kv"
  sess_clients :: "(uuid \<times> uuid, string list) kv"
  sess_rows :: "session_row list"
  published :: "event list"

definition publish :: "uuid \<Rightarrow> actor \<Rightarrow> event_kind \<Rightarrow> auth_state \<Rightarrow> auth_state" where
  "publish t a k w = w\<lparr>published := published w @ [(t, a, k)]\<rparr>"

section \<open>Operations\<close>

definition is_live :: "sso_session \<Rightarrow> instant \<Rightarrow> bool" where
  "is_live s now = (now < ss_expires_at s \<and> now < ss_idle_expires_at s)"

definition tenant_cookie_name :: "bool \<Rightarrow> string \<Rightarrow> string \<Rightarrow> string" where
  "tenant_cookie_name secure base slug =
     (if secure then ''__Host-'' @ base @ ''_'' @ slug else base @ ''_'' @ slug)"

definition cookie_header :: "bool \<Rightarrow> string \<Rightarrow> string \<Rightarrow> string \<Rightarrow> string" where
  "cookie_header secure name value max_age =
     (let v = name @ ''='' @ value @ ''; Path=/; HttpOnly; SameSite=Lax; Max-Age='' @ max_age
      in if secure then v @ ''; Secure'' else v)"

definition store_session :: "instant \<Rightarrow> sso_session \<Rightarrow> auth_state \<Rightarrow> auth_state" where
  "store_session now s w =
     (let ttl_ms = num_milliseconds (min (ss_expires_at s) (ss_idle_expires_at s) - now)
      in if ttl_ms \<le> 0 then w
         else w\<lparr>sess_kv := kv_set_until (Some (now + ttl_ms * 1000000))
                  (ss_tenant s, ss_id s) s (sess_kv w)\<rparr>)"

text \<open>
  \<open>cache::commands::add_to_set_for_at_least\<close>: \<open>SADD\<close>, \<open>EXPIRE NX\<close>, \<open>EXPIRE GT\<close> in one
  pipeline. The set lives until the later of its deadline and the new one.
\<close>

definition add_to_set_for_at_least ::
  "instant \<Rightarrow> 'k \<Rightarrow> 'm \<Rightarrow> int \<Rightarrow> ('k, 'm list) kv \<Rightarrow> ('k, 'm list) kv" where
  "add_to_set_for_at_least now k x ttl m =
     (let until = now + dur_secs ttl in
      case kv_entry now k m of
        None \<Rightarrow> kv_set_until (Some until) k [x] m
      | Some (xs, d) \<Rightarrow>
          kv_set_until (Some (case d of None \<Rightarrow> until | Some d' \<Rightarrow> max d' until)) k
            (if x \<in> set xs then xs else xs @ [x]) m)"

definition set_remove :: "instant \<Rightarrow> 'k \<Rightarrow> 'm list \<Rightarrow> ('k, 'm list) kv \<Rightarrow> ('k, 'm list) kv" where
  "set_remove now k gone m =
     (case kv_entry now k m of
        None \<Rightarrow> m
      | Some (xs, d) \<Rightarrow> kv_set_until d k (filter (\<lambda>x. x \<notin> set gone) xs) m)"

definition track :: "instant \<Rightarrow> sso_session \<Rightarrow> auth_state \<Rightarrow> auth_state" where
  "track now s w =
     (let ttl = max (num_seconds (ss_expires_at s - now)) 60
      in w\<lparr>user_sets := add_to_set_for_at_least now (ss_tenant s, ss_user s) (ss_id s) ttl
             (user_sets w)\<rparr>)"

definition untrack :: "instant \<Rightarrow> uuid \<Rightarrow> uuid \<Rightarrow> uuid \<Rightarrow> auth_state \<Rightarrow> auth_state" where
  "untrack now t u sid w = w\<lparr>user_sets := set_remove now (t, u) [sid] (user_sets w)\<rparr>"

definition mirror_interval :: "session_policy \<Rightarrow> int" where
  "mirror_interval policy =
     min (max (trunc_div (as_i64 (idle_timeout_secs policy)) 4) 60) (15 * 60)"

text \<open>The statements of \<open>repos::sessions\<close> on the mirror rows.\<close>

definition row_of :: "uuid \<Rightarrow> uuid \<Rightarrow> session_row \<Rightarrow> bool" where
  "row_of t sid r = (ss_tenant (sr_session r) = t \<and> ss_id (sr_session r) = sid)"

definition repo_insert_session :: "sso_session \<Rightarrow> auth_state \<Rightarrow> auth_state" where
  "repo_insert_session s w =
     (if list_ex (\<lambda>r. ss_id (sr_session r) = ss_id s) (sess_rows w) then w
      else w\<lparr>sess_rows := sess_rows w @ [\<lparr>sr_session = s\<lparr>ss_impersonator := None\<rparr>,
               sr_reason = None, sr_revoked_at = None\<rparr>]\<rparr>)"

definition repo_touch :: "sso_session \<Rightarrow> auth_state \<Rightarrow> auth_state" where
  "repo_touch s w = w\<lparr>sess_rows := update_where (row_of (ss_tenant s) (ss_id s))
     (\<lambda>r. r\<lparr>sr_session := (sr_session r)\<lparr>ss_last_seen_at := ss_last_seen_at s,
        ss_idle_expires_at := ss_idle_expires_at s, ss_auth_time := ss_auth_time s,
        ss_amr := ss_amr s, ss_acr := ss_acr s\<rparr>\<rparr>) (sess_rows w)\<rparr>"

definition repo_set_device :: "uuid \<Rightarrow> uuid \<Rightarrow> uuid \<Rightarrow> auth_state \<Rightarrow> auth_state" where
  "repo_set_device t sid d w = w\<lparr>sess_rows := update_where (row_of t sid)
     (\<lambda>r. r\<lparr>sr_session := (sr_session r)\<lparr>ss_device := Some d\<rparr>\<rparr>) (sess_rows w)\<rparr>"

definition repo_set_impersonation ::
  "uuid \<Rightarrow> uuid \<Rightarrow> impersonator \<Rightarrow> string \<Rightarrow> auth_state \<Rightarrow> auth_state" where
  "repo_set_impersonation t sid imp reason w = w\<lparr>sess_rows := update_where (row_of t sid)
     (\<lambda>r. r\<lparr>sr_session := (sr_session r)\<lparr>ss_impersonator := Some imp\<rparr>, sr_reason := Some reason\<rparr>)
     (sess_rows w)\<rparr>"

definition repo_set_organization :: "uuid \<Rightarrow> uuid \<Rightarrow> uuid \<Rightarrow> auth_state \<Rightarrow> auth_state" where
  "repo_set_organization t sid o' w = w\<lparr>sess_rows := update_where (row_of t sid)
     (\<lambda>r. r\<lparr>sr_session := (sr_session r)\<lparr>ss_org := Some o'\<rparr>\<rparr>) (sess_rows w)\<rparr>"

definition repo_mark_revoked :: "instant \<Rightarrow> uuid \<Rightarrow> uuid \<Rightarrow> auth_state \<Rightarrow> auth_state" where
  "repo_mark_revoked dbnow t sid w = w\<lparr>sess_rows :=
     update_where (\<lambda>r. row_of t sid r \<and> sr_revoked_at r = None)
       (\<lambda>r. r\<lparr>sr_revoked_at := Some dbnow\<rparr>) (sess_rows w)\<rparr>"

definition repo_is_revoked :: "uuid \<Rightarrow> uuid \<Rightarrow> auth_state \<Rightarrow> bool" where
  "repo_is_revoked t sid w =
     (case find (row_of t sid) (sess_rows w) of
        None \<Rightarrow> False
      | Some r \<Rightarrow> sr_revoked_at r \<noteq> None)"

text \<open>
  \<open>sessions::get\<close>: a live session, with its idle window slid forward at most once a
  minute and the mirror row touched once per mirror interval.
\<close>

definition slide :: "instant \<Rightarrow> session_policy \<Rightarrow> sso_session \<Rightarrow> sso_session" where
  "slide now policy s = s\<lparr>ss_last_seen_at := now,
     ss_idle_expires_at := min (now + dur_secs (as_i64 (idle_timeout_secs policy)))
       (ss_expires_at s)\<rparr>"

definition get_session ::
  "instant \<Rightarrow> uuid \<Rightarrow> uuid \<Rightarrow> session_policy \<Rightarrow> auth_state \<Rightarrow> sso_session option \<times> auth_state"
where
  "get_session now t sid policy w =
     (case kv_get now (t, sid) (sess_kv w) of
        None \<Rightarrow> (None, w)
      | Some s \<Rightarrow>
          if \<not> is_live s now then (None, w)
          else if 60 \<le> num_seconds (now - ss_last_seen_at s) then
            (let before = ss_last_seen_at s;
                 s' = slide now policy s;
                 w' = store_session now s' w;
                 every = mirror_interval policy
             in (Some s',
                 if timestamp before div every \<noteq> timestamp now div every
                 then repo_touch s' w' else w'))
          else (Some s, w))"

definition refresh_auth ::
  "instant \<Rightarrow> sso_session \<Rightarrow> string list \<Rightarrow> string option \<Rightarrow> auth_state \<Rightarrow> sso_session \<times> auth_state"
where
  "refresh_auth now s amr acr w =
     (let s' = s\<lparr>ss_auth_time := now, ss_amr := amr, ss_acr := acr\<rparr>
      in (s', repo_touch s' (store_session now s' w)))"

definition bind_organization ::
  "instant \<Rightarrow> sso_session \<Rightarrow> uuid \<Rightarrow> auth_state \<Rightarrow> sso_session \<times> auth_state" where
  "bind_organization now s oid w =
     (if ss_org s = Some oid then (s, w)
      else (let s' = s\<lparr>ss_org := Some oid\<rparr>
            in (s', repo_set_organization (ss_tenant s) (ss_id s) oid (store_session now s' w))))"

definition bind_device ::
  "instant \<Rightarrow> sso_session \<Rightarrow> uuid \<Rightarrow> auth_state \<Rightarrow> sso_session \<times> auth_state" where
  "bind_device now s d w =
     (let s' = s\<lparr>ss_device := Some d\<rparr>
      in (s', repo_set_device (ss_tenant s) (ss_id s) d (store_session now s' w)))"

text \<open>
  \<open>sessions::list_live_for_user\<close>: the members of the user's set whose session is
  there, live and the user's own, oldest first; the others leave the set.
\<close>

definition live_of :: "instant \<Rightarrow> uuid \<Rightarrow> uuid \<Rightarrow> auth_state \<Rightarrow> uuid \<Rightarrow> sso_session option" where
  "live_of now t u w sid =
     (case kv_get now (t, sid) (sess_kv w) of
        Some s \<Rightarrow> if is_live s now \<and> ss_user s = u then Some s else None
      | None \<Rightarrow> None)"

definition oldest_first :: "sso_session list \<Rightarrow> sso_session list" where
  "oldest_first = sort_key (\<lambda>s. (ss_created_at s, ss_id s))"

definition list_live_for_user ::
  "instant \<Rightarrow> uuid \<Rightarrow> uuid \<Rightarrow> auth_state \<Rightarrow> sso_session list \<times> auth_state" where
  "list_live_for_user now t u w =
     (case kv_get now (t, u) (user_sets w) of
        None \<Rightarrow> ([], w)
      | Some ids \<Rightarrow>
          (let live = List.map_filter (live_of now t u w) ids;
               stale = filter (\<lambda>sid. live_of now t u w sid = None) ids
           in (oldest_first live,
               if stale = [] then w
               else w\<lparr>user_sets := set_remove now (t, u) stale (user_sets w)\<rparr>)))"

definition remaining :: "instant \<Rightarrow> sso_session \<Rightarrow> int" where
  "remaining now s = max (num_seconds (min (ss_expires_at s) (ss_idle_expires_at s) - now)) 0"

definition add_client :: "instant \<Rightarrow> sso_session \<Rightarrow> string \<Rightarrow> auth_state \<Rightarrow> auth_state" where
  "add_client now s cid w =
     (let k = (ss_tenant s, ss_id s);
          xs = (case kv_get now k (sess_clients w) of None \<Rightarrow> [] | Some xs \<Rightarrow> xs)
      in w\<lparr>sess_clients := kv_set_until (Some (now + dur_secs (max (remaining now s) 60))) k
             (if cid \<in> set xs then xs else xs @ [cid]) (sess_clients w)\<rparr>)"

definition clients_of :: "instant \<Rightarrow> uuid \<Rightarrow> uuid \<Rightarrow> auth_state \<Rightarrow> string list" where
  "clients_of now t sid w =
     (case kv_get now (t, sid) (sess_clients w) of None \<Rightarrow> [] | Some xs \<Rightarrow> xs)"

end
