(* ===== verification/Refresh_Tokens.thy ===== *)
theory Refresh_Tokens
  imports Session_Store
begin

text \<open>
  Refresh tokens with rotation and reuse detection (\<open>api/src/services/refresh_tokens.rs\<close>,
  \<open>api/src/repos/refresh_tokens.rs\<close>, \<open>api/src/models/refresh_token.rs\<close>).

  SHA-256 is the parameter \<open>sha\<close>; the randomness of an operation (the token, the row
  id, the family id) is an argument, and so are the clock readings: \<open>now\<close> of the
  handler, \<open>later\<close> of the session lookup and \<open>dbnow\<close> of the transaction. One handler
  runs in one database transaction that locks the presented row, so it is one step.
\<close>

section \<open>Data and statements\<close>

record sender_proof =
  sp_jkt :: "string option"
  sp_x5t :: "string option"

record issue_request =
  ir_client :: string
  ir_user :: "uuid option"
  ir_session :: "uuid option"
  ir_scopes :: "string list"
  ir_audiences :: "string list"
  ir_ttl :: duration
  ir_dpop_jkt :: "string option"
  ir_mtls_x5t :: "string option"
  ir_auth_time :: "instant option"
  ir_amr :: "string list"
  ir_acr :: "string option"
  ir_org :: "uuid option"
  ir_act :: "json option"

record issued =
  is_token :: string
  is_record :: refresh_token

text \<open>What the random sources hand one issuance: 43 base64url characters and a row id.\<close>

record fresh =
  fr_chars :: string
  fr_id :: uuid

definition is_offline :: "refresh_token \<Rightarrow> bool" where
  "is_offline t = list_ex (\<lambda>s. s = ''offline_access'') (rt_scopes t)"

definition is_usable :: "refresh_token \<Rightarrow> instant \<Rightarrow> bool" where
  "is_usable t now = (rt_consumed_at t = None \<and> rt_revoked_at t = None \<and> now < rt_expires_at t)"

definition token_prefix :: string where
  "token_prefix = ''rt_''"

definition random_token :: "fresh \<Rightarrow> string" where
  "random_token fr = token_prefix @ fr_chars fr"

text \<open>
  \<open>INSERT INTO refresh_tokens\<close>: refused by the unique constraints on the id and on the
  tenant's token hashes; the stored row's \<open>consumed_at\<close> and \<open>revoked_at\<close> are null and
  its \<open>created_at\<close> the database's clock.
\<close>

definition repo_insert ::
  "instant \<Rightarrow> refresh_token \<Rightarrow> auth_state \<Rightarrow> app_error + (refresh_token \<times> auth_state)" where
  "repo_insert dbnow t w =
     (if list_ex (\<lambda>r. rt_id r = rt_id t \<or> rt_tenant r = rt_tenant t \<and> rt_hash r = rt_hash t)
           (rt_rows w)
      then Inl (Conflict ''already exists'')
      else (let r = t\<lparr>rt_consumed_at := None, rt_revoked_at := None, rt_created_at := dbnow\<rparr>
            in Inr (r, w\<lparr>rt_rows := rt_rows w @ [r]\<rparr>)))"

definition repo_find_by_hash :: "uuid \<Rightarrow> string \<Rightarrow> auth_state \<Rightarrow> refresh_token option" where
  "repo_find_by_hash t h w = find (\<lambda>r. rt_tenant r = t \<and> rt_hash r = h) (rt_rows w)"

definition repo_mark_consumed :: "instant \<Rightarrow> uuid \<Rightarrow> uuid \<Rightarrow> auth_state \<Rightarrow> auth_state" where
  "repo_mark_consumed dbnow t i w = w\<lparr>rt_rows :=
     update_where (\<lambda>r. rt_tenant r = t \<and> rt_id r = i) (\<lambda>r. r\<lparr>rt_consumed_at := Some dbnow\<rparr>)
       (rt_rows w)\<rparr>"

text \<open>The three revocations share one statement shape: \<open>revoked_at IS NULL\<close> rows only.\<close>

definition revoke_where ::
  "instant \<Rightarrow> (refresh_token \<Rightarrow> bool) \<Rightarrow> auth_state \<Rightarrow> nat \<times> auth_state" where
  "revoke_where dbnow p w =
     (let q = (\<lambda>r. p r \<and> rt_revoked_at r = None)
      in (rows_affected q (rt_rows w),
          w\<lparr>rt_rows := update_where q (\<lambda>r. r\<lparr>rt_revoked_at := Some dbnow\<rparr>) (rt_rows w)\<rparr>))"

definition repo_revoke_family :: "instant \<Rightarrow> uuid \<Rightarrow> uuid \<Rightarrow> auth_state \<Rightarrow> nat \<times> auth_state" where
  "repo_revoke_family dbnow t f w =
     revoke_where dbnow (\<lambda>r. rt_tenant r = t \<and> rt_family r = f) w"

definition repo_revoke_for_user ::
  "instant \<Rightarrow> uuid \<Rightarrow> uuid \<Rightarrow> string option \<Rightarrow> auth_state \<Rightarrow> nat \<times> auth_state" where
  "repo_revoke_for_user dbnow t u cid w =
     revoke_where dbnow (\<lambda>r. rt_tenant r = t \<and> rt_user r = Some u
        \<and> (cid = None \<or> cid = Some (rt_client r))) w"

definition repo_revoke_for_session ::
  "instant \<Rightarrow> uuid \<Rightarrow> uuid \<Rightarrow> auth_state \<Rightarrow> nat \<times> auth_state" where
  "repo_revoke_for_session dbnow t sid w =
     revoke_where dbnow (\<lambda>r. rt_tenant r = t \<and> rt_session r = Some sid) w"

definition repo_list_live_for_user ::
  "instant \<Rightarrow> uuid \<Rightarrow> uuid \<Rightarrow> auth_state \<Rightarrow> refresh_token list" where
  "repo_list_live_for_user dbnow t u w =
     rev (sort_key rt_created_at (filter (\<lambda>r. rt_tenant r = t \<and> rt_user r = Some u
        \<and> is_usable r dbnow) (rt_rows w)))"

section \<open>Handlers\<close>

definition insert_in ::
  "(string \<Rightarrow> string) \<Rightarrow> instant \<Rightarrow> instant \<Rightarrow> fresh \<Rightarrow> uuid \<Rightarrow> uuid \<Rightarrow> issue_request \<Rightarrow> instant
     \<Rightarrow> auth_state \<Rightarrow> app_error + (issued \<times> auth_state)" where
  "insert_in sha now dbnow fr t family req expires_at w =
     (let token = random_token fr;
          row = \<lparr>rt_id = fr_id fr, rt_tenant = t, rt_family = family,
                 rt_client = ir_client req, rt_user = ir_user req, rt_session = ir_session req,
                 rt_hash = sha token, rt_scopes = ir_scopes req,
                 rt_audiences = ir_audiences req, rt_auth_time = ir_auth_time req,
                 rt_amr = ir_amr req, rt_acr = ir_acr req, rt_org = ir_org req,
                 rt_act = ir_act req, rt_expires_at = expires_at,
                 rt_dpop_jkt = ir_dpop_jkt req, rt_mtls_x5t = ir_mtls_x5t req,
                 rt_consumed_at = None, rt_revoked_at = None, rt_created_at = now\<rparr>
      in case repo_insert dbnow row w of
           Inl e \<Rightarrow> Inl e
         | Inr (r, w') \<Rightarrow> Inr (\<lparr>is_token = token, is_record = r\<rparr>, w'))"

definition issue ::
  "(string \<Rightarrow> string) \<Rightarrow> instant \<Rightarrow> instant \<Rightarrow> fresh \<Rightarrow> uuid \<Rightarrow> uuid \<Rightarrow> issue_request
     \<Rightarrow> auth_state \<Rightarrow> (app_error + issued) \<times> auth_state" where
  "issue sha now dbnow fr family t req w =
     (case insert_in sha now dbnow fr t family req (now + ir_ttl req) w of
        Inl e \<Rightarrow> (Inl e, w)
      | Inr (i, w') \<Rightarrow> (Inr i, w'))"

text \<open>
  The checks of \<open>redeem\<close> on the row and the request, in the source's order, up to the
  session lookup. \<open>Some e\<close> is the refusal; the refusal for a consumed token, which
  also revokes the family, is not among them.
\<close>

definition bound_elsewhere :: "string option \<Rightarrow> string option \<Rightarrow> bool" where
  "bound_elsewhere bound proof = (case bound of None \<Rightarrow> False | Some b \<Rightarrow> proof \<noteq> Some b)"

definition redeem_checks ::
  "instant \<Rightarrow> refresh_token \<Rightarrow> sender_proof \<Rightarrow> string list \<Rightarrow> string list option
     \<Rightarrow> oauth_error option" where
  "redeem_checks now current proof resources scopes =
     (if rt_revoked_at current \<noteq> None then
        Some (oauth_err InvalidGrant ''refresh token revoked'')
      else if rt_expires_at current \<le> now then
        Some (oauth_err InvalidGrant ''refresh token expired'')
      else if bound_elsewhere (rt_dpop_jkt current) (sp_jkt proof) then
        Some (oauth_err InvalidGrant ''refresh token is bound to another DPoP key'')
      else if bound_elsewhere (rt_mtls_x5t current) (sp_x5t proof) then
        Some (oauth_err InvalidGrant ''refresh token is bound to another client certificate'')
      else case find (\<lambda>r. r \<notin> set (rt_audiences current)) resources of
        Some extra \<Rightarrow> Some (oauth_err InvalidTarget
          (''resource `'' @ extra @ ''` was not part of the original grant''))
      | None \<Rightarrow>
          (case find (\<lambda>s. s \<notin> set (rt_scopes current))
                 (case scopes of None \<Rightarrow> [] | Some ss \<Rightarrow> ss) of
             Some extra \<Rightarrow> Some (oauth_err InvalidScope
               (''scope `'' @ extra @ ''` was not granted''))
           | None \<Rightarrow> None))"

text \<open>
  Has the session the token was issued in ended? An offline family only ends with an
  explicit sign-out; any other needs a live session, and the lookup slides it.
\<close>

definition session_ended ::
  "(uuid \<Rightarrow> session_policy option) \<Rightarrow> instant \<Rightarrow> uuid \<Rightarrow> refresh_token \<Rightarrow> auth_state
     \<Rightarrow> bool \<times> auth_state" where
  "session_ended policy_of later t current w =
     (case rt_session current of
        None \<Rightarrow> (False, w)
      | Some sid \<Rightarrow>
          if is_offline current then (repo_is_revoked t sid w, w)
          else (let policy = (case policy_of t of None \<Rightarrow> default_session_policy | Some p \<Rightarrow> p)
                in case get_session later t sid policy w of
                     (None, w') \<Rightarrow> (True, w')
                   | (Some s, w') \<Rightarrow> (False, w')))"

definition successor_request :: "string \<Rightarrow> refresh_token \<Rightarrow> issue_request" where
  "successor_request client current =
     \<lparr>ir_client = client, ir_user = rt_user current, ir_session = rt_session current,
      ir_scopes = rt_scopes current, ir_audiences = rt_audiences current, ir_ttl = 0,
      ir_dpop_jkt = rt_dpop_jkt current, ir_mtls_x5t = rt_mtls_x5t current,
      ir_auth_time = rt_auth_time current, ir_amr = rt_amr current, ir_acr = rt_acr current,
      ir_org = rt_org current, ir_act = rt_act current\<rparr>"

definition redeem ::
  "(string \<Rightarrow> string) \<Rightarrow> (uuid \<Rightarrow> session_policy option) \<Rightarrow> instant \<Rightarrow> instant \<Rightarrow> instant \<Rightarrow> fresh
     \<Rightarrow> uuid \<Rightarrow> string \<Rightarrow> string \<Rightarrow> sender_proof \<Rightarrow> string list \<Rightarrow> string list option \<Rightarrow> bool
     \<Rightarrow> auth_state \<Rightarrow> (oauth_error + issued) \<times> auth_state" where
  "redeem sha policy_of now later dbnow fr t client presented proof resources scopes rotates w =
     (if \<not> starts_with presented token_prefix \<or> 256 < length presented then
        (Inl (oauth_err InvalidGrant ''invalid refresh token''), w)
      else case repo_find_by_hash t (sha presented) w of
        None \<Rightarrow> (Inl (oauth_err InvalidGrant ''invalid refresh token''), w)
      | Some current \<Rightarrow>
          if rt_client current \<noteq> client then
            (Inl (oauth_err InvalidGrant ''refresh token was not issued to this client''), w)
          else if rt_consumed_at current \<noteq> None then
            (let (count, w') = repo_revoke_family dbnow t (rt_family current) w
             in (Inl (oauth_err InvalidGrant ''refresh token reuse detected''),
                 publish t (ActorClient 0)
                   (RefreshTokenReuseDetected (rt_family current) client (rt_user current)) w'))
          else (case redeem_checks now current proof resources scopes of
            Some e \<Rightarrow> (Inl e, w)
          | None \<Rightarrow>
              (let (ended, w1) = session_ended policy_of later t current w in
               if ended then
                 (Inl (oauth_err InvalidGrant ''the session this token was issued in has ended''),
                  snd (repo_revoke_family dbnow t (rt_family current) w1))
               else if \<not> rotates then
                 (Inr \<lparr>is_token = presented, is_record = current\<rparr>, w1)
               else
                 (let w2 = repo_mark_consumed dbnow t (rt_id current) w1 in
                  case insert_in sha now dbnow fr t (rt_family current)
                         (successor_request client current) (rt_expires_at current) w2 of
                    Inl e \<Rightarrow> (Inl (oauth_of_app_error e), w1)
                  | Inr (i, w3) \<Rightarrow> (Inr i, w3)))))"

definition rotate_token ::
  "(string \<Rightarrow> string) \<Rightarrow> (uuid \<Rightarrow> session_policy option) \<Rightarrow> instant \<Rightarrow> instant \<Rightarrow> instant \<Rightarrow> fresh
     \<Rightarrow> uuid \<Rightarrow> string \<Rightarrow> string \<Rightarrow> sender_proof \<Rightarrow> string list \<Rightarrow> string list option
     \<Rightarrow> auth_state \<Rightarrow> (oauth_error + issued) \<times> auth_state" where
  "rotate_token sha policy_of now later dbnow fr t client presented proof resources scopes w =
     redeem sha policy_of now later dbnow fr t client presented proof resources scopes True w"

definition revoke_token ::
  "(string \<Rightarrow> string) \<Rightarrow> instant \<Rightarrow> uuid \<Rightarrow> string \<Rightarrow> string \<Rightarrow> auth_state \<Rightarrow> auth_state" where
  "revoke_token sha dbnow t client presented w =
     (case repo_find_by_hash t (sha presented) w of
        Some r \<Rightarrow> if rt_client r = client
                  then snd (repo_revoke_family dbnow t (rt_family r) w) else w
      | None \<Rightarrow> w)"

definition revoke_for_user ::
  "instant \<Rightarrow> uuid \<Rightarrow> actor \<Rightarrow> uuid \<Rightarrow> string option \<Rightarrow> auth_state \<Rightarrow> nat \<times> auth_state" where
  "revoke_for_user dbnow t actor u client w =
     (let (count, w') = repo_revoke_for_user dbnow t u client w
      in (count, if 0 < count then publish t actor (TokensRevoked (Some u) None count) w' else w'))"

definition revoke_for_session ::
  "instant \<Rightarrow> uuid \<Rightarrow> actor \<Rightarrow> uuid \<Rightarrow> auth_state \<Rightarrow> nat \<times> auth_state" where
  "revoke_for_session dbnow t actor sid w =
     (let (count, w') = repo_revoke_for_session dbnow t sid w
      in (count, if 0 < count then publish t actor (TokensRevoked None (Some sid) count) w' else w'))"

definition find_token :: "(string \<Rightarrow> string) \<Rightarrow> uuid \<Rightarrow> string \<Rightarrow> auth_state \<Rightarrow> refresh_token option" where
  "find_token sha t presented w = repo_find_by_hash t (sha presented) w"

section \<open>The table invariant\<close>

text \<open>
  What the rows of one family share: everything a rotation copies. Two rows of a family
  differ only in their id, their hash, their dates of consumption and creation.
\<close>

definition same_grant :: "refresh_token \<Rightarrow> refresh_token \<Rightarrow> bool" where
  "same_grant a b = (rt_client a = rt_client b \<and> rt_user a = rt_user b
     \<and> rt_session a = rt_session b \<and> rt_scopes a = rt_scopes b
     \<and> rt_audiences a = rt_audiences b \<and> rt_auth_time a = rt_auth_time b
     \<and> rt_amr a = rt_amr b \<and> rt_acr a = rt_acr b \<and> rt_org a = rt_org b
     \<and> rt_act a = rt_act b \<and> rt_expires_at a = rt_expires_at b
     \<and> rt_dpop_jkt a = rt_dpop_jkt b \<and> rt_mtls_x5t a = rt_mtls_x5t b)"

definition same_family :: "refresh_token \<Rightarrow> refresh_token \<Rightarrow> bool" where
  "same_family a b = (rt_tenant a = rt_tenant b \<and> rt_family a = rt_family b)"

definition row_key :: "refresh_token \<Rightarrow> uuid \<times> string" where
  "row_key r = (rt_tenant r, rt_hash r)"

definition families_ok :: "refresh_token list \<Rightarrow> bool" where
  "families_ok rows = (\<forall>a\<in>set rows. \<forall>b\<in>set rows. same_family a b \<longrightarrow>
     same_grant a b \<and> (rt_revoked_at a = None \<longleftrightarrow> rt_revoked_at b = None)
     \<and> (rt_consumed_at a = None \<longrightarrow> rt_consumed_at b = None \<longrightarrow> rt_id a = rt_id b))"

definition rows_ok :: "refresh_token list \<Rightarrow> bool" where
  "rows_ok rows = (distinct (map rt_id rows) \<and> distinct (map row_key rows) \<and> families_ok rows)"

abbreviation rt_inv :: "auth_state \<Rightarrow> bool" where
  "rt_inv w \<equiv> rows_ok (rt_rows w)"

lemma same_grant_refl [simp]: "same_grant a a"
  by (simp add: same_grant_def)

lemma same_grant_sym: "same_grant a b \<Longrightarrow> same_grant b a"
  by (simp add: same_grant_def)

lemma same_grant_trans: "same_grant a b \<Longrightarrow> same_grant b c \<Longrightarrow> same_grant a c"
  by (simp add: same_grant_def)

lemma same_grant_revoked [simp]:
  "same_grant (a\<lparr>rt_revoked_at := x\<rparr>) b = same_grant a b"
  "same_grant a (b\<lparr>rt_revoked_at := x\<rparr>) = same_grant a b"
  "same_grant (a\<lparr>rt_consumed_at := x\<rparr>) b = same_grant a b"
  "same_grant a (b\<lparr>rt_consumed_at := x\<rparr>) = same_grant a b"
  by (simp_all add: same_grant_def)

lemma same_family_updates [simp]:
  "same_family (a\<lparr>rt_revoked_at := x\<rparr>) b = same_family a b"
  "same_family a (b\<lparr>rt_revoked_at := x\<rparr>) = same_family a b"
  "same_family (a\<lparr>rt_consumed_at := x\<rparr>) b = same_family a b"
  "same_family a (b\<lparr>rt_consumed_at := x\<rparr>) = same_family a b"
  by (simp_all add: same_family_def)

lemma row_key_updates [simp]:
  "row_key (a\<lparr>rt_revoked_at := x\<rparr>) = row_key a"
  "row_key (a\<lparr>rt_consumed_at := x\<rparr>) = row_key a"
  by (simp_all add: row_key_def)

lemma families_okD:
  assumes "families_ok rows" "a \<in> set rows" "b \<in> set rows" "same_family a b"
  shows "same_grant a b" "rt_revoked_at a = None \<longleftrightarrow> rt_revoked_at b = None"
    "rt_consumed_at a = None \<Longrightarrow> rt_consumed_at b = None \<Longrightarrow> rt_id a = rt_id b"
  using assms by (auto simp: families_ok_def)

lemma families_ok_map:
  assumes ok: "families_ok rows"
    and frame: "\<And>r x. same_family (f r) x = same_family r x"
      "\<And>r x. same_family x (f r) = same_family x r"
      "\<And>r x. same_grant (f r) x = same_grant r x" "\<And>r x. same_grant x (f r) = same_grant x r"
      "\<And>r. rt_id (f r) = rt_id r" "\<And>r. rt_consumed_at (f r) = None \<Longrightarrow> rt_consumed_at r = None"
    and revoked: "\<And>a b. a \<in> set rows \<Longrightarrow> b \<in> set rows \<Longrightarrow> same_family a b \<Longrightarrow>
      rt_revoked_at (f a) = None \<longleftrightarrow> rt_revoked_at (f b) = None"
  shows "families_ok (map f rows)"
  unfolding families_ok_def
proof (intro ballI impI)
  fix a' b' assume "a' \<in> set (map f rows)" "b' \<in> set (map f rows)" and sf: "same_family a' b'"
  then obtain a b where ab: "a \<in> set rows" "b \<in> set rows" "a' = f a" "b' = f b" by auto
  then have sf': "same_family a b" using sf by (simp add: frame)
  show "same_grant a' b' \<and> (rt_revoked_at a' = None \<longleftrightarrow> rt_revoked_at b' = None)
      \<and> (rt_consumed_at a' = None \<longrightarrow> rt_consumed_at b' = None \<longrightarrow> rt_id a' = rt_id b')"
    using families_okD [OF ok ab(1,2) sf'] revoked [OF ab(1,2) sf'] ab(3,4)
    by (auto simp: frame)
qed

text \<open>A revocation keeps the invariant when its condition is the same over a family.\<close>

lemma rows_ok_revoke:
  assumes ok: "rows_ok rows"
    and uniform: "\<And>a b. a \<in> set rows \<Longrightarrow> b \<in> set rows \<Longrightarrow> same_family a b \<Longrightarrow> p a = p b"
  shows "rows_ok (update_where (\<lambda>r. p r \<and> rt_revoked_at r = None)
           (\<lambda>r. r\<lparr>rt_revoked_at := Some d\<rparr>) rows)"
proof -
  have fam: "families_ok rows" using ok by (simp add: rows_ok_def)
  have "families_ok (update_where (\<lambda>r. p r \<and> rt_revoked_at r = None)
           (\<lambda>r. r\<lparr>rt_revoked_at := Some d\<rparr>) rows)"
    unfolding update_where_def
    by (rule families_ok_map [OF fam]) (use uniform families_okD(2) [OF fam] in \<open>auto split: if_splits\<close>)
  with ok show ?thesis by (simp add: rows_ok_def table_simps)
qed

lemma rows_ok_insert:
  assumes ok: "rows_ok rows"
    and new: "rt_id r \<notin> rt_id ` set rows" "row_key r \<notin> row_key ` set rows"
    and fam: "\<And>x. x \<in> set rows \<Longrightarrow> same_family x r \<Longrightarrow>
      same_grant x r \<and> rt_revoked_at x = None \<and> rt_consumed_at x \<noteq> None"
    and fresh: "rt_revoked_at r = None" "rt_consumed_at r = None"
  shows "rows_ok (rows @ [r])"
proof -
  have "\<forall>x\<in>set rows. same_family x r \<longrightarrow>
      same_grant x r \<and> rt_revoked_at x = None \<and> rt_consumed_at x \<noteq> None"
    using fam by blast
  moreover from this have "\<forall>x\<in>set rows. same_family r x \<longrightarrow>
      same_grant r x \<and> rt_revoked_at x = None \<and> rt_consumed_at x \<noteq> None"
    by (metis same_family_def same_grant_sym)
  ultimately have "families_ok (rows @ [r])"
    using ok fresh by (auto simp: families_ok_def rows_ok_def)
  with ok new show ?thesis by (auto simp: rows_ok_def)
qed

text \<open>
  A rotation: the presented row is consumed, and a row of the same grant that is
  neither consumed nor revoked joins the family.
\<close>

lemma rows_ok_rotate:
  assumes ok: "rows_ok rows" and cur: "cur \<in> set rows"
    and live: "rt_consumed_at cur = None" "rt_revoked_at cur = None"
    and new: "rt_id r \<notin> rt_id ` set rows" "row_key r \<notin> row_key ` set rows"
    and grant: "same_family cur r" "same_grant cur r"
    and fresh: "rt_revoked_at r = None" "rt_consumed_at r = None"
  shows "rows_ok (update_where (\<lambda>x. rt_tenant x = rt_tenant cur \<and> rt_id x = rt_id cur)
           (\<lambda>x. x\<lparr>rt_consumed_at := Some d\<rparr>) rows @ [r])" (is "rows_ok (?rows @ [r])")
proof (rule rows_ok_insert)
  have fam: "families_ok rows" using ok by (simp add: rows_ok_def)
  have "families_ok ?rows"
    unfolding update_where_def
    by (rule families_ok_map [OF fam]) (simp_all add: families_okD(2) [OF fam] split: if_splits)
  with ok show "rows_ok ?rows" by (simp add: rows_ok_def table_simps)
  show "rt_id r \<notin> rt_id ` set ?rows" "row_key r \<notin> row_key ` set ?rows"
    using new by (simp_all add: image_update_where)
  fix x' assume xin: "x' \<in> set ?rows" and sf: "same_family x' r"
  from xin obtain x where x: "x \<in> set rows"
    "x' = (if rt_tenant x = rt_tenant cur \<and> rt_id x = rt_id cur then x\<lparr>rt_consumed_at := Some d\<rparr> else x)"
    by (rule in_update_whereE)
  then have "same_family cur x" using sf grant(1) by (auto simp: same_family_def split: if_splits)
  note sfx = this
  have "same_grant x r"
    using families_okD(1) [OF fam cur x(1) sfx] grant(2) same_grant_sym same_grant_trans by blast
  moreover have "rt_revoked_at x = None"
    using families_okD(2) [OF fam cur x(1) sfx] live by simp
  moreover have "rt_consumed_at x = None \<Longrightarrow> rt_id x = rt_id cur"
    using families_okD(3) [OF fam cur x(1) sfx] live by simp
  ultimately show "same_grant x' r \<and> rt_revoked_at x' = None \<and> rt_consumed_at x' \<noteq> None"
    using x(2) sfx by (auto simp: same_family_def)
qed (use fresh in auto)

section \<open>What an operation does to the table\<close>

definition revoked_rows ::
  "instant \<Rightarrow> (refresh_token \<Rightarrow> bool) \<Rightarrow> refresh_token list \<Rightarrow> refresh_token list" where
  "revoked_rows dbnow p rows =
     update_where (\<lambda>r. p r \<and> rt_revoked_at r = None) (\<lambda>r. r\<lparr>rt_revoked_at := Some dbnow\<rparr>) rows"

definition consumed_rows ::
  "instant \<Rightarrow> uuid \<Rightarrow> uuid \<Rightarrow> refresh_token list \<Rightarrow> refresh_token list" where
  "consumed_rows dbnow t i rows =
     update_where (\<lambda>r. rt_tenant r = t \<and> rt_id r = i) (\<lambda>r. r\<lparr>rt_consumed_at := Some dbnow\<rparr>) rows"

abbreviation in_family :: "uuid \<Rightarrow> uuid \<Rightarrow> refresh_token \<Rightarrow> bool" where
  "in_family t f r \<equiv> rt_tenant r = t \<and> rt_family r = f"

lemma rt_rows_revoke_where [simp]:
  "rt_rows (snd (revoke_where dbnow p w)) = revoked_rows dbnow p (rt_rows w)"
  by (simp add: revoke_where_def revoked_rows_def Let_def)

lemma rt_rows_revoke_family [simp]:
  "rt_rows (snd (repo_revoke_family dbnow t f w)) = revoked_rows dbnow (in_family t f) (rt_rows w)"
  by (simp add: repo_revoke_family_def)

lemma rt_rows_frame [simp]:
  "rt_rows (publish t a k w) = rt_rows w"
  "rt_rows (store_session now s w) = rt_rows w"
  "rt_rows (repo_touch s w) = rt_rows w"
  by (simp_all add: publish_def store_session_def repo_touch_def Let_def)

lemma rt_rows_get_session [simp]: "rt_rows (snd (get_session now t sid p w)) = rt_rows w"
  by (simp add: get_session_def Let_def split: option.split)

lemma rt_rows_session_ended [simp]: "rt_rows (snd (session_ended pol later t cur w)) = rt_rows w"
proof -
  have "\<And>p sid r w'. get_session later t sid p w = (r, w') \<Longrightarrow> rt_rows w' = rt_rows w"
    by (metis rt_rows_get_session snd_conv)
  then show ?thesis
    by (auto simp: session_ended_def Let_def split: option.splits prod.splits)
qed

lemma insert_in_Inr:
  assumes "insert_in sha now dbnow fr t f req expires w = Inr (i, w')"
  shows "rt_rows w' = rt_rows w @ [is_record i]"
    and "is_token i = random_token fr"
    and "rt_id (is_record i) \<notin> rt_id ` set (rt_rows w)"
    and "row_key (is_record i) \<notin> row_key ` set (rt_rows w)"
    and "rt_tenant (is_record i) = t" "rt_family (is_record i) = f"
    and "rt_hash (is_record i) = sha (is_token i)"
    and "rt_consumed_at (is_record i) = None" "rt_revoked_at (is_record i) = None"
    and "rt_client cur = ir_client req \<Longrightarrow> rt_expires_at cur = expires \<Longrightarrow>
      req = successor_request (rt_client cur) cur \<Longrightarrow> same_grant cur (is_record i)"
  using assms
  by (auto simp: insert_in_def repo_insert_def Let_def list_ex_iff row_key_def same_grant_def
      successor_request_def split: if_splits)

text \<open>What a presented token must pass before it is exchanged or handed back.\<close>

definition redeemable ::
  "(string \<Rightarrow> string) \<Rightarrow> (uuid \<Rightarrow> session_policy option) \<Rightarrow> instant \<Rightarrow> instant \<Rightarrow> uuid \<Rightarrow> string \<Rightarrow> string
    \<Rightarrow> sender_proof \<Rightarrow> string list \<Rightarrow> string list option \<Rightarrow> auth_state \<Rightarrow> refresh_token \<Rightarrow> bool" where
  "redeemable sha pol now later t client presented proof resources scopes w cur =
     (starts_with presented token_prefix \<and> length presented \<le> 256
      \<and> repo_find_by_hash t (sha presented) w = Some cur
      \<and> rt_client cur = client \<and> is_usable cur now
      \<and> \<not> bound_elsewhere (rt_dpop_jkt cur) (sp_jkt proof)
      \<and> \<not> bound_elsewhere (rt_mtls_x5t cur) (sp_x5t proof)
      \<and> set resources \<subseteq> set (rt_audiences cur)
      \<and> set (case scopes of None \<Rightarrow> [] | Some ss \<Rightarrow> ss) \<subseteq> set (rt_scopes cur)
      \<and> \<not> fst (session_ended pol later t cur w))"

lemma redeem_checks_None_iff:
  "redeem_checks now cur proof resources scopes = None \<longleftrightarrow>
     rt_revoked_at cur = None \<and> now < rt_expires_at cur
      \<and> \<not> bound_elsewhere (rt_dpop_jkt cur) (sp_jkt proof)
      \<and> \<not> bound_elsewhere (rt_mtls_x5t cur) (sp_x5t proof)
      \<and> set resources \<subseteq> set (rt_audiences cur)
      \<and> set (case scopes of None \<Rightarrow> [] | Some ss \<Rightarrow> ss) \<subseteq> set (rt_scopes cur)"
proof -
  have "find (\<lambda>r. r \<notin> A) xs = None \<longleftrightarrow> set xs \<subseteq> A" for A :: "string set" and xs
    by (auto simp: find_None_iff)
  then show ?thesis
    by (auto simp: redeem_checks_def not_le dest!: find_SomeD split: option.splits if_splits)
qed

text \<open>A request that fails a check before the session lookup is refused or kills the family.\<close>

definition passes ::
  "(string \<Rightarrow> string) \<Rightarrow> instant \<Rightarrow> uuid \<Rightarrow> string \<Rightarrow> string \<Rightarrow> sender_proof \<Rightarrow> string list
    \<Rightarrow> string list option \<Rightarrow> auth_state \<Rightarrow> refresh_token \<Rightarrow> bool" where
  "passes sha now t client presented proof resources scopes w cur =
     (starts_with presented token_prefix \<and> length presented \<le> 256
      \<and> repo_find_by_hash t (sha presented) w = Some cur \<and> rt_client cur = client
      \<and> rt_consumed_at cur = None \<and> redeem_checks now cur proof resources scopes = None)"

lemma redeemable_iff:
  "redeemable sha pol now later t client presented proof resources scopes w cur \<longleftrightarrow>
     passes sha now t client presented proof resources scopes w cur
     \<and> \<not> fst (session_ended pol later t cur w)"
  by (auto simp: redeemable_def passes_def redeem_checks_None_iff is_usable_def)

lemma redeem_early:
  assumes run: "redeem sha pol now later dbnow fr t client presented proof resources scopes rotates w
             = (res, w')"
    and no: "\<nexists>cur. passes sha now t client presented proof resources scopes w cur"
  obtains (refused) e where "res = Inl e" "rt_rows w' = rt_rows w"
    | (reused) e cur where "res = Inl e" "oe_error e = InvalidGrant"
        "repo_find_by_hash t (sha presented) w = Some cur" "rt_client cur = client"
        "rt_rows w' = revoked_rows dbnow (in_family t (rt_family cur)) (rt_rows w)"
proof (cases "repo_find_by_hash t (sha presented) w")
  case None
  with run refused show thesis by (auto simp: redeem_def split: if_splits)
next
  case (Some cur)
  show thesis
  proof (cases "starts_with presented token_prefix \<and> length presented \<le> 256
                \<and> rt_client cur = client \<and> rt_consumed_at cur \<noteq> None")
    case True
    with Some run show thesis
      by (intro reused [of "oauth_err InvalidGrant ''refresh token reuse detected''" cur])
         (auto simp: redeem_def Let_def case_prod_beta)
  next
    case False
    with no Some run refused show thesis
      by (auto simp: redeem_def passes_def split: if_splits option.splits)
  qed
qed

lemma redeem_late:
  assumes "passes sha now t client presented proof resources scopes w cur"
  shows "redeem sha pol now later dbnow fr t client presented proof resources scopes rotates w =
    (let (ended, w1) = session_ended pol later t cur w in
     if ended then
       (Inl (oauth_err InvalidGrant ''the session this token was issued in has ended''),
        snd (repo_revoke_family dbnow t (rt_family cur) w1))
     else if \<not> rotates then (Inr \<lparr>is_token = presented, is_record = cur\<rparr>, w1)
     else case insert_in sha now dbnow fr t (rt_family cur) (successor_request client cur)
                 (rt_expires_at cur) (repo_mark_consumed dbnow t (rt_id cur) w1) of
            Inl e \<Rightarrow> (Inl (oauth_of_app_error e), w1)
          | Inr (i, w3) \<Rightarrow> (Inr i, w3))"
  using assms by (simp add: redeem_def passes_def Let_def case_prod_beta)

lemma insert_successor:
  assumes ins: "insert_in sha now dbnow fr t (rt_family cur) (successor_request (rt_client cur) cur)
      (rt_expires_at cur) (repo_mark_consumed dbnow t (rt_id cur) w1) = Inr (i, w3)"
  shows "rt_rows w3 = consumed_rows dbnow t (rt_id cur) (rt_rows w1) @ [is_record i]"
    and "rt_id (is_record i) \<notin> rt_id ` set (rt_rows w1)"
    and "row_key (is_record i) \<notin> row_key ` set (rt_rows w1)"
    and "rt_tenant (is_record i) = t" "rt_family (is_record i) = rt_family cur"
    and "rt_hash (is_record i) = sha (is_token i)" "same_grant cur (is_record i)"
    and "rt_consumed_at (is_record i) = None" "rt_revoked_at (is_record i) = None"
proof -
  have rows: "rt_rows (repo_mark_consumed dbnow t (rt_id cur) w1)
      = consumed_rows dbnow t (rt_id cur) (rt_rows w1)"
    by (simp add: repo_mark_consumed_def consumed_rows_def)
  note new = insert_in_Inr [OF ins, unfolded rows]
  show "rt_id (is_record i) \<notin> rt_id ` set (rt_rows w1)"
    and "row_key (is_record i) \<notin> row_key ` set (rt_rows w1)"
    using new(3,4) by (simp_all add: consumed_rows_def image_update_where)
  show "same_grant cur (is_record i)"
    using new(10) [of cur] by (simp add: successor_request_def)
qed (use insert_in_Inr [OF ins] in \<open>simp_all add: repo_mark_consumed_def consumed_rows_def\<close>)

lemma redeem_cases:
  assumes run: "redeem sha pol now later dbnow fr t client presented proof resources scopes rotates w
             = (res, w')"
  obtains (refused) e where "res = Inl e" "rt_rows w' = rt_rows w"
    | (killed) e cur where "res = Inl e" "oe_error e = InvalidGrant"
        "repo_find_by_hash t (sha presented) w = Some cur" "rt_client cur = client"
        "rt_rows w' = revoked_rows dbnow (in_family t (rt_family cur)) (rt_rows w)"
    | (kept) cur where "res = Inr \<lparr>is_token = presented, is_record = cur\<rparr>" "\<not> rotates"
        "redeemable sha pol now later t client presented proof resources scopes w cur"
        "rt_rows w' = rt_rows w"
    | (rotated) cur i where "res = Inr i" "rotates"
        "redeemable sha pol now later t client presented proof resources scopes w cur"
        "rt_rows w' = consumed_rows dbnow t (rt_id cur) (rt_rows w) @ [is_record i]"
        "rt_id (is_record i) \<notin> rt_id ` set (rt_rows w)"
        "row_key (is_record i) \<notin> row_key ` set (rt_rows w)"
        "rt_tenant (is_record i) = t" "rt_family (is_record i) = rt_family cur"
        "rt_hash (is_record i) = sha (is_token i)" "same_grant cur (is_record i)"
        "rt_consumed_at (is_record i) = None" "rt_revoked_at (is_record i) = None"
proof (cases "\<exists>cur. passes sha now t client presented proof resources scopes w cur")
  case False
  then show thesis by (rule redeem_early [OF run]) (use refused killed in blast)+
next
  case True
  then obtain cur where pass: "passes sha now t client presented proof resources scopes w cur" by blast
  then have found: "repo_find_by_hash t (sha presented) w = Some cur" "client = rt_client cur"
    by (simp_all add: passes_def)
  obtain ended w1 where se: "session_ended pol later t cur w = (ended, w1)" by fastforce
  have w1: "rt_rows w1 = rt_rows w" using rt_rows_session_ended [of pol later t cur w] se by simp
  have rd: "\<not> ended \<Longrightarrow> redeemable sha pol now later t client presented proof resources scopes w cur"
    using pass se by (simp add: redeemable_iff)
  note run' = run [unfolded redeem_late [OF pass] se Let_def prod.case]
  consider "ended" | "\<not> ended" "\<not> rotates"
    | i w3 where "\<not> ended" "rotates" "insert_in sha now dbnow fr t (rt_family cur)
        (successor_request client cur) (rt_expires_at cur)
        (repo_mark_consumed dbnow t (rt_id cur) w1) = Inr (i, w3)"
    | e where "\<not> ended" "rotates" "insert_in sha now dbnow fr t (rt_family cur)
        (successor_request client cur) (rt_expires_at cur)
        (repo_mark_consumed dbnow t (rt_id cur) w1) = Inl e"
    by (metis sumE surj_pair)
  then show thesis
  proof cases
    case 1
    with run' found w1 show thesis by (intro killed) auto
  next
    case 2
    with run' rd w1 show thesis by (intro kept) auto
  next
    case 3
    with run' have "res = Inr i" "w' = w3" by auto
    with 3 rd show thesis
      using insert_successor [OF 3(3) [unfolded found(2)]] w1 by (intro rotated) simp_all
  next
    case 4
    with run' w1 show thesis by (intro refused) auto
  qed
qed

section \<open>Steps\<close>

text \<open>
  Everything that can happen to the table: a grant starts a family under a new family
  id, a client redeems, a client, a user or a session revokes, and anything that leaves
  the table alone.
\<close>

inductive rt_step :: "(string \<Rightarrow> string) \<Rightarrow> auth_state \<Rightarrow> auth_state \<Rightarrow> bool" for sha where
  step_issue: "f \<notin> rt_family ` set (rt_rows w) \<Longrightarrow>
     rt_step sha w (snd (issue sha now dbnow fr f t req w))"
| step_redeem: "rt_step sha w
     (snd (redeem sha pol now later dbnow fr t client presented proof resources scopes rotates w))"
| step_revoke: "rt_step sha w (revoke_token sha dbnow t client presented w)"
| step_revoke_user: "rt_step sha w (snd (revoke_for_user dbnow t actor u client_opt w))"
| step_revoke_session: "rt_step sha w (snd (revoke_for_session dbnow t actor sid w))"
| step_other: "rt_rows w' = rt_rows w \<Longrightarrow> rt_step sha w w'"

lemma repo_find_SomeD:
  assumes "repo_find_by_hash t h w = Some r"
  shows "r \<in> set (rt_rows w)" "rt_tenant r = t" "rt_hash r = h"
  using assms by (auto simp: repo_find_by_hash_def dest: find_SomeD)

lemma rt_rows_revoke_for_user:
  "rt_rows (snd (revoke_for_user dbnow t actor u c w))
    = revoked_rows dbnow (\<lambda>r. rt_tenant r = t \<and> rt_user r = Some u \<and> (c = None \<or> c = Some (rt_client r)))
        (rt_rows w)"
  by (simp add: revoke_for_user_def repo_revoke_for_user_def Let_def case_prod_beta)

lemma rt_rows_revoke_for_session:
  "rt_rows (snd (revoke_for_session dbnow t actor sid w))
    = revoked_rows dbnow (\<lambda>r. rt_tenant r = t \<and> rt_session r = Some sid) (rt_rows w)"
  by (simp add: revoke_for_session_def repo_revoke_for_session_def Let_def case_prod_beta)

lemma rt_rows_revoke_token:
  "rt_rows (revoke_token sha dbnow t client presented w) = rt_rows w
   \<or> (\<exists>f. rt_rows (revoke_token sha dbnow t client presented w)
          = revoked_rows dbnow (in_family t f) (rt_rows w))"
  by (auto simp: revoke_token_def split: option.splits)

text \<open>
  The effect of one step on the table, in the four shapes it can have. Every property
  of the steps is proved over these.
\<close>

lemma rt_step_rows:
  assumes "rt_step sha w w'"
  obtains (same) "rt_rows w' = rt_rows w"
    | (started) r where "rt_rows w' = rt_rows w @ [r]" "rt_family r \<notin> rt_family ` set (rt_rows w)"
        "rt_id r \<notin> rt_id ` set (rt_rows w)" "row_key r \<notin> row_key ` set (rt_rows w)"
        "rt_consumed_at r = None" "rt_revoked_at r = None"
    | (revoked) dbnow p where "rt_rows w' = revoked_rows dbnow p (rt_rows w)"
        "\<And>a b. same_family a b \<Longrightarrow> same_grant a b \<Longrightarrow> p a = p b"
    | (rotated) dbnow cur r where "cur \<in> set (rt_rows w)" "rt_consumed_at cur = None"
        "rt_revoked_at cur = None"
        "rt_rows w' = consumed_rows dbnow (rt_tenant cur) (rt_id cur) (rt_rows w) @ [r]"
        "rt_id r \<notin> rt_id ` set (rt_rows w)" "row_key r \<notin> row_key ` set (rt_rows w)"
        "same_family cur r" "same_grant cur r" "rt_consumed_at r = None" "rt_revoked_at r = None"
  using assms
proof cases
  case (step_issue f now dbnow fr t req)
  show thesis
  proof (cases "insert_in sha now dbnow fr t f req (now + ir_ttl req) w")
    case (Inl e)
    with step_issue same show thesis by (simp add: issue_def)
  next
    case (Inr p)
    then obtain i w1 where ins: "insert_in sha now dbnow fr t f req (now + ir_ttl req) w = Inr (i, w1)"
      by (metis surj_pair)
    with step_issue have "w' = w1" by (simp add: issue_def)
    with insert_in_Inr [OF ins] step_issue show thesis by (intro started) simp_all
  qed
next
  case (step_redeem pol now later dbnow fr t client presented pf resources scopes rotates)
  then obtain res where "redeem sha pol now later dbnow fr t client presented pf resources
      scopes rotates w = (res, w')" by (metis prod.collapse)
  then show thesis
  proof (cases rule: redeem_cases)
    case (killed e cur)
    then show thesis
      by (intro revoked [of dbnow "in_family t (rt_family cur)"]) (auto simp: same_family_def)
  next
    case (rotated cur i)
    from rotated(3) have cur: "cur \<in> set (rt_rows w)" "rt_tenant cur = t" "is_usable cur now"
      by (auto simp: redeemable_def dest: repo_find_SomeD)
    with rotated show thesis
      by (intro that(4) [of cur dbnow "is_record i"]) (simp_all add: is_usable_def same_family_def)
  qed (use same in blast)+
next
  case (step_revoke dbnow t client presented)
  consider "rt_rows w' = rt_rows w"
    | f where "rt_rows w' = revoked_rows dbnow (in_family t f) (rt_rows w)"
    using rt_rows_revoke_token [of sha dbnow t client presented w] step_revoke by blast
  then show thesis
  proof cases
    case 2
    then show thesis by (rule revoked) (auto simp: same_family_def)
  qed (rule same)
next
  case (step_revoke_user dbnow t actor u c)
  then show thesis
    by (intro revoked, simp only: rt_rows_revoke_for_user) (auto simp: same_family_def same_grant_def)
next
  case (step_revoke_session dbnow t actor sid)
  then show thesis
    by (intro revoked, simp only: rt_rows_revoke_for_session) (auto simp: same_family_def same_grant_def)
next
  case step_other
  then show thesis by (rule same)
qed

lemma rt_step_inv: "rt_step sha w w' \<Longrightarrow> rt_inv w \<Longrightarrow> rt_inv w'"
proof (erule rt_step_rows)
  fix dbnow p assume "rt_inv w" "rt_rows w' = revoked_rows dbnow p (rt_rows w)"
    "\<And>a b. same_family a b \<Longrightarrow> same_grant a b \<Longrightarrow> p a = p b"
  then show "rt_inv w'"
    unfolding revoked_rows_def rows_ok_def
    by (metis rows_ok_revoke families_okD(1) rows_ok_def)
next
  fix r assume "rt_inv w" "rt_rows w' = rt_rows w @ [r]" "rt_family r \<notin> rt_family ` set (rt_rows w)"
    "rt_id r \<notin> rt_id ` set (rt_rows w)" "row_key r \<notin> row_key ` set (rt_rows w)"
    "rt_consumed_at r = None" "rt_revoked_at r = None"
  moreover from this have "\<And>x. x \<in> set (rt_rows w) \<Longrightarrow> \<not> same_family x r"
    by (metis image_eqI same_family_def)
  ultimately show "rt_inv w'" by (metis rows_ok_insert)
next
  fix dbnow cur r assume "rt_inv w" "cur \<in> set (rt_rows w)" "rt_consumed_at cur = None"
    "rt_revoked_at cur = None"
    "rt_rows w' = consumed_rows dbnow (rt_tenant cur) (rt_id cur) (rt_rows w) @ [r]"
    "rt_id r \<notin> rt_id ` set (rt_rows w)" "row_key r \<notin> row_key ` set (rt_rows w)"
    "same_family cur r" "same_grant cur r" "rt_consumed_at r = None" "rt_revoked_at r = None"
  then show "rt_inv w'" by (simp add: consumed_rows_def rows_ok_rotate)
qed simp

interpretation rt_inv: kept_by_steps "rt_step sha" rt_inv for sha
  by unfold_locales (rule rt_step_inv)

text \<open>A family all of whose rows are revoked, and a token that was spent, stay so.\<close>

definition family_dead :: "uuid \<Rightarrow> uuid \<Rightarrow> auth_state \<Rightarrow> bool" where
  "family_dead t f w = ((\<exists>r\<in>set (rt_rows w). in_family t f r)
     \<and> (\<forall>r\<in>set (rt_rows w). in_family t f r \<longrightarrow> rt_revoked_at r \<noteq> None))"

definition spent :: "uuid \<Rightarrow> string \<Rightarrow> auth_state \<Rightarrow> bool" where
  "spent t h w = (\<exists>r\<in>set (rt_rows w). row_key r = (t, h) \<and> rt_consumed_at r \<noteq> None)"

lemma in_revoked_rowsE:
  assumes "r' \<in> set (revoked_rows dbnow p rows)"
  obtains r where "r \<in> set rows" "row_key r' = row_key r" "rt_family r' = rt_family r"
    "rt_tenant r' = rt_tenant r" "rt_consumed_at r' = rt_consumed_at r"
    "rt_revoked_at r \<noteq> None \<Longrightarrow> rt_revoked_at r' \<noteq> None" "p r \<Longrightarrow> rt_revoked_at r' \<noteq> None"
    "same_grant r' r" "rt_id r' = rt_id r"
  using assms unfolding revoked_rows_def by (elim in_update_whereE) (auto split: if_splits)

lemma in_revoked_rowsI:
  assumes "r \<in> set rows"
  obtains r' where "r' \<in> set (revoked_rows dbnow p rows)" "row_key r' = row_key r"
    "rt_tenant r' = rt_tenant r" "rt_family r' = rt_family r" "rt_consumed_at r' = rt_consumed_at r"
proof (rule that)
  show "(if p r \<and> rt_revoked_at r = None then r\<lparr>rt_revoked_at := Some dbnow\<rparr> else r)
      \<in> set (revoked_rows dbnow p rows)"
    unfolding revoked_rows_def by (rule in_update_whereI [OF assms])
qed (auto simp: row_key_def)

lemma in_consumed_rowsE:
  assumes "r' \<in> set (consumed_rows dbnow t i rows)"
  obtains r where "r \<in> set rows" "row_key r' = row_key r" "rt_family r' = rt_family r"
    "rt_tenant r' = rt_tenant r" "rt_revoked_at r' = rt_revoked_at r"
  using assms unfolding consumed_rows_def by (elim in_update_whereE) (auto split: if_splits)

lemma in_consumed_rowsI:
  assumes "r \<in> set rows"
  obtains r' where "r' \<in> set (consumed_rows dbnow t i rows)" "row_key r' = row_key r"
    "rt_tenant r' = rt_tenant r" "rt_family r' = rt_family r"
    "rt_consumed_at r \<noteq> None \<or> rt_tenant r = t \<and> rt_id r = i \<Longrightarrow> rt_consumed_at r' \<noteq> None"
proof (rule that)
  show "(if rt_tenant r = t \<and> rt_id r = i then r\<lparr>rt_consumed_at := Some dbnow\<rparr> else r)
      \<in> set (consumed_rows dbnow t i rows)"
    unfolding consumed_rows_def by (rule in_update_whereI [OF assms])
qed (auto simp: row_key_def)

lemma family_dead_step:
  assumes "rt_step sha w w'" and dead: "family_dead t f w"
  shows "family_dead t f w'"
proof -
  from dead obtain r0 where r0: "r0 \<in> set (rt_rows w)" "in_family t f r0"
    and all: "\<And>r. r \<in> set (rt_rows w) \<Longrightarrow> in_family t f r \<Longrightarrow> rt_revoked_at r \<noteq> None"
    by (auto simp: family_dead_def)
  from assms(1) show ?thesis
  proof (cases rule: rt_step_rows)
    case (started r)
    then have "rt_family r \<noteq> f" using r0 by auto
    with dead started(1) show ?thesis by (auto simp: family_dead_def)
  next
    case (revoked d p)
    with r0 all show ?thesis unfolding family_dead_def
      by (metis in_revoked_rowsE in_revoked_rowsI)
  next
    case (rotated d cur r)
    then have "\<not> in_family t f r" using all [of cur] by (auto simp: same_family_def)
    moreover have "\<exists>x\<in>set (consumed_rows d (rt_tenant cur) (rt_id cur) (rt_rows w)). in_family t f x"
      using r0 by (metis in_consumed_rowsI)
    moreover have "\<forall>x\<in>set (consumed_rows d (rt_tenant cur) (rt_id cur) (rt_rows w)).
        in_family t f x \<longrightarrow> rt_revoked_at x \<noteq> None"
      using all by (metis in_consumed_rowsE)
    ultimately show ?thesis using rotated(4) by (auto simp: family_dead_def)
  qed (use dead in \<open>simp add: family_dead_def\<close>)
qed

lemma spent_step:
  assumes "rt_step sha w w'" and sp: "spent t h w"
  shows "spent t h w'"
proof -
  from sp obtain r0 where r0: "r0 \<in> set (rt_rows w)" "row_key r0 = (t, h)" "rt_consumed_at r0 \<noteq> None"
    by (auto simp: spent_def)
  from assms(1) show ?thesis
  proof (cases rule: rt_step_rows)
    case (started r)
    with r0 show ?thesis by (auto simp: spent_def)
  next
    case (revoked d p)
    with r0 show ?thesis unfolding spent_def by (metis in_revoked_rowsI)
  next
    case (rotated d cur r)
    then show ?thesis using in_consumed_rowsI [OF r0(1)] r0(2,3)
      unfolding spent_def by (metis Un_iff set_append)
  qed (use sp in \<open>simp add: spent_def\<close>)
qed

interpretation dead: kept_by_steps "rt_step sha" "family_dead t f" for sha t f
  by unfold_locales (rule family_dead_step)

interpretation spent: kept_by_steps "rt_step sha" "spent t h" for sha t h
  by unfold_locales (rule spent_step)

section \<open>Properties\<close>

lemma family_dead_after_revocation:
  assumes r: "r \<in> set (rt_rows w)" "in_family t f r"
    and rows: "rt_rows w' = revoked_rows dbnow p (rt_rows w)"
    and cover: "\<And>x. in_family t f x \<Longrightarrow> x \<in> set (rt_rows w) \<Longrightarrow> p x"
  shows "family_dead t f w'"
  unfolding family_dead_def rows
proof (intro conjI ballI impI)
  show "\<exists>x\<in>set (revoked_rows dbnow p (rt_rows w)). in_family t f x"
    using in_revoked_rowsI [OF r(1)] r(2) by metis
next
  fix x assume "x \<in> set (revoked_rows dbnow p (rt_rows w))" "in_family t f x"
  then show "rt_revoked_at x \<noteq> None"
    using cover by (metis in_revoked_rowsE)
qed

lemma redeem_dead_family:
  assumes "family_dead t f w"
    and run: "redeem sha pol now later dbnow fr t client presented pf resources scopes rotates w
                = (Inr i, w')"
  shows "rt_family (is_record i) \<noteq> f"
  using run
proof (cases rule: redeem_cases)
  case (kept cur)
  then have "cur \<in> set (rt_rows w)" "rt_tenant cur = t" "rt_revoked_at cur = None"
    by (auto simp: redeemable_def is_usable_def dest: repo_find_SomeD)
  with assms(1) kept show ?thesis by (auto simp: family_dead_def)
next
  case (rotated cur i')
  then have "cur \<in> set (rt_rows w)" "rt_tenant cur = t" "rt_revoked_at cur = None"
    by (auto simp: redeemable_def is_usable_def dest: repo_find_SomeD)
  with assms(1) rotated show ?thesis by (auto simp: family_dead_def)
qed simp_all

lemma redeem_spent:
  assumes "rt_inv w" "spent t (sha presented) w"
  shows "\<exists>e. fst (redeem sha pol now later dbnow fr t client presented pf resources scopes rotates w)
            = Inl e \<and> oe_error e = InvalidGrant"
proof -
  have "rt_consumed_at cur \<noteq> None" if "repo_find_by_hash t (sha presented) w = Some cur" for cur
  proof -
    from assms(2) obtain r where "r \<in> set (rt_rows w)" "row_key r = (t, sha presented)"
      "rt_consumed_at r \<noteq> None" by (auto simp: spent_def)
    moreover have "inj_on row_key (set (rt_rows w))"
      using assms(1) by (simp add: rows_ok_def distinct_map)
    ultimately show ?thesis using repo_find_SomeD [OF that]
      by (metis inj_onD row_key_def)
  qed
  then show ?thesis
    by (auto simp: redeem_def Let_def case_prod_beta split: option.splits)
qed

text \<open>
  C2. Reuse detection. When a client presents a refresh token that was already
  exchanged, it is refused with \<open>invalid_grant\<close>, the event is published, and from then
  on, whatever happens to the table, no token of the same family is ever redeemed
  again, by any client, with any proof.
\<close>

theorem reuse_revokes_family_for_good:
  assumes found: "repo_find_by_hash t (sha presented) w = Some cur"
    and shape: "starts_with presented token_prefix" "length presented \<le> 256"
    and used: "rt_client cur = client" "rt_consumed_at cur \<noteq> None"
  shows "let (res, w1) = redeem sha pol now later dbnow fr t client presented pf resources scopes
                           rotates w in
     (\<exists>e. res = Inl e \<and> oe_error e = InvalidGrant) \<and>
     (t, ActorClient 0, RefreshTokenReuseDetected (rt_family cur) client (rt_user cur))
       \<in> set (published w1) \<and>
     (\<forall>w2 pol' now' later' dbnow' fr' client' presented' pf' resources' scopes' rotates' i w3.
        (rt_step sha)\<^sup>*\<^sup>* w1 w2 \<longrightarrow>
        redeem sha pol' now' later' dbnow' fr' t client' presented' pf' resources' scopes'
          rotates' w2 = (Inr i, w3) \<longrightarrow>
        rt_family (is_record i) \<noteq> rt_family cur)"
proof -
  let ?w1 = "publish t (ActorClient 0)
     (RefreshTokenReuseDetected (rt_family cur) client (rt_user cur))
     (snd (repo_revoke_family dbnow t (rt_family cur) w))"
  have run: "redeem sha pol now later dbnow fr t client presented pf resources scopes rotates w
      = (Inl (oauth_err InvalidGrant ''refresh token reuse detected''), ?w1)"
    using assms by (simp add: redeem_def Let_def case_prod_beta)
  have "family_dead t (rt_family cur) ?w1"
    by (rule family_dead_after_revocation
          [where p = "in_family t (rt_family cur)" and dbnow = dbnow, OF repo_find_SomeD(1) [OF found]])
       (use repo_find_SomeD(2) [OF found] in simp_all)
  then have "\<And>w2. (rt_step sha)\<^sup>*\<^sup>* ?w1 w2 \<Longrightarrow> family_dead t (rt_family cur) w2"
    by (rule dead.run_keeps [rotated])
  then show ?thesis
    by (auto simp: run publish_def dest: redeem_dead_family)
qed

text \<open>
  C10. A refresh token is good for one exchange: once a rotation of it succeeded in a
  well-formed table, every later presentation of the same token is refused with
  \<open>invalid_grant\<close>, whatever happened in between.
\<close>

theorem rotation_is_single_use:
  assumes inv: "rt_inv w"
    and run: "rotate_token sha pol now later dbnow fr t client presented pf resources scopes w
                = (Inr i, w1)"
    and later: "(rt_step sha)\<^sup>*\<^sup>* w1 w2"
  shows "\<exists>e. fst (redeem sha pol' now' later' dbnow' fr' t client' presented pf' resources' scopes'
                rotates' w2) = Inl e \<and> oe_error e = InvalidGrant"
proof -
  have step: "rt_step sha w w1"
    using run rt_step.step_redeem [of sha w pol now later dbnow fr t client presented pf resources
      scopes True] by (simp add: rotate_token_def)
  have "spent t (sha presented) w1"
    using run unfolding rotate_token_def
  proof (cases rule: redeem_cases)
    case (rotated cur i')
    then have "cur \<in> set (rt_rows w)" "row_key cur = (t, sha presented)" "rt_tenant cur = t"
      by (auto simp: redeemable_def row_key_def dest: repo_find_SomeD)
    moreover from this obtain r' where
      "r' \<in> set (consumed_rows dbnow t (rt_id cur) (rt_rows w))" "row_key r' = row_key cur"
      "rt_consumed_at r' \<noteq> None" by (metis in_consumed_rowsI)
    ultimately show ?thesis using rotated(4) by (auto simp: spent_def)
  qed simp_all
  then have "spent t (sha presented) w2" by (rule spent.run_keeps [OF later])
  moreover have "rt_inv w2" using rt_inv.run_keeps [OF later] rt_step_inv [OF step inv] by blast
  ultimately show ?thesis by (rule redeem_spent [rotated])
qed

lemma redeem_success_redeemable:
  assumes "redeem sha pol now later dbnow fr t client presented pf resources scopes rotates w
             = (Inr i, w')"
  obtains cur where "redeemable sha pol now later t client presented pf resources scopes w cur"
    "rotates \<Longrightarrow> rt_rows w' = consumed_rows dbnow t (rt_id cur) (rt_rows w) @ [is_record i]"
    "rt_family (is_record i) = rt_family cur" "same_grant cur (is_record i)"
    "rt_tenant (is_record i) = t" "rt_hash (is_record i) = sha (is_token i)"
    "rt_consumed_at (is_record i) = None" "rt_revoked_at (is_record i) = None"
  using assms
proof (cases rule: redeem_cases)
  case (kept cur)
  with that [of cur] repo_find_SomeD [of t "sha presented" w cur] show thesis
    by (simp add: redeemable_def is_usable_def)
next
  case (rotated cur i')
  with that [of cur] show thesis by simp
qed simp_all


text \<open>
  A redemption is never refused for another reason: a token that passes every
  check is exchanged, provided the drawn row id and token hash are new to the table.
\<close>

theorem redeemable_is_redeemed:
  assumes ok: "redeemable sha pol now later t client presented pf resources scopes w cur"
    and fresh: "fr_id fr \<notin> rt_id ` set (rt_rows w)"
      "(t, sha (random_token fr)) \<notin> row_key ` set (rt_rows w)"
  shows "\<exists>i w'. redeem sha pol now later dbnow fr t client presented pf resources scopes rotates w
             = (Inr i, w')"
proof -
  obtain w1 where se: "session_ended pol later t cur w = (False, w1)"
    and pass: "passes sha now t client presented pf resources scopes w cur"
    using ok by (cases "session_ended pol later t cur w") (simp add: redeemable_iff)
  let ?w2 = "repo_mark_consumed dbnow t (rt_id cur) w1"
  have "rt_rows w1 = rt_rows w" using rt_rows_session_ended [of pol later t cur w] se by simp
  then have img: "rt_id ` set (rt_rows ?w2) = rt_id ` set (rt_rows w)"
    "row_key ` set (rt_rows ?w2) = row_key ` set (rt_rows w)"
    by (simp_all add: repo_mark_consumed_def image_update_where)
  have "\<not> list_ex (\<lambda>r. rt_id r = fr_id fr \<or> rt_tenant r = t \<and> rt_hash r = sha (random_token fr))
      (rt_rows ?w2)"
    unfolding list_ex_iff using fresh img by (metis image_eqI row_key_def)
  then have "\<exists>p. insert_in sha now dbnow fr t (rt_family cur) (successor_request client cur)
      (rt_expires_at cur) ?w2 = Inr p"
    by (simp add: insert_in_def repo_insert_def Let_def)
  then show ?thesis
    unfolding redeem_late [OF pass] se by (auto simp: Let_def)
qed

text \<open>
  In every state reached from an empty table, rows of one family carry the same
  grant and the same absolute expiry, are revoked together, and at most one of them is
  unspent; token hashes are unique within a tenant.
\<close>

theorem families_stay_uniform:
  assumes "rt_rows w0 = []" and "(rt_step sha)\<^sup>*\<^sup>* w0 w"
  shows "distinct (map row_key (rt_rows w)) \<and>
    (\<forall>a\<in>set (rt_rows w). \<forall>b\<in>set (rt_rows w). same_family a b \<longrightarrow>
       same_grant a b \<and> (rt_revoked_at a = None \<longleftrightarrow> rt_revoked_at b = None) \<and>
       (rt_consumed_at a = None \<longrightarrow> rt_consumed_at b = None \<longrightarrow> rt_id a = rt_id b))"
proof -
  have "rt_inv w0" using assms(1) by (simp add: rows_ok_def families_ok_def)
  then have "rt_inv w" by (rule rt_inv.run_keeps [OF assms(2)])
  then show ?thesis by (simp add: rows_ok_def families_ok_def)
qed

definition other_tenants :: "uuid \<Rightarrow> auth_state \<Rightarrow> refresh_token list" where
  "other_tenants t w = filter (\<lambda>r. rt_tenant r \<noteq> t) (rt_rows w)"

lemma filter_revoked_rows_other:
  "filter (\<lambda>r. rt_tenant r \<noteq> t) (revoked_rows d (\<lambda>r. rt_tenant r = t \<and> p r) rows)
    = filter (\<lambda>r. rt_tenant r \<noteq> t) rows"
  unfolding revoked_rows_def by (rule filter_update_where_other) auto

lemma filter_consumed_rows_other:
  "filter (\<lambda>r. rt_tenant r \<noteq> t) (consumed_rows d t i rows) = filter (\<lambda>r. rt_tenant r \<noteq> t) rows"
  unfolding consumed_rows_def by (rule filter_update_where_other) auto

lemma redeem_other_tenants:
  assumes "redeem sha pol now later dbnow fr t client presented pf resources scopes rotates w
             = (res, w')"
  shows "other_tenants t w' = other_tenants t w"
  using assms
  by (cases rule: redeem_cases)
     (simp_all add: other_tenants_def filter_revoked_rows_other filter_consumed_rows_other)

text \<open>
  Tenant isolation: redeeming or revoking in one tenant leaves every row of every
  other tenant as it is.
\<close>

theorem refresh_tokens_tenant_isolation:
  "other_tenants t (snd (redeem sha pol now later dbnow fr t client presented pf resources scopes
            rotates w)) = other_tenants t w \<and>
   other_tenants t (revoke_token sha dbnow t client presented w) = other_tenants t w \<and>
   other_tenants t (snd (revoke_for_user dbnow t actor u c w)) = other_tenants t w \<and>
   other_tenants t (snd (revoke_for_session dbnow t actor sid w)) = other_tenants t w"
proof (intro conjI)
  show "other_tenants t (snd (redeem sha pol now later dbnow fr t client presented pf resources
          scopes rotates w)) = other_tenants t w"
    by (rule redeem_other_tenants [OF prod.collapse [symmetric]])
qed (simp_all add: other_tenants_def revoke_token_def rt_rows_revoke_for_user
       rt_rows_revoke_for_session filter_revoked_rows_other split: option.split)

section \<open>Example\<close>

definition ex_sha :: "string \<Rightarrow> string" where
  "ex_sha s = CHR ''#'' # s"

definition ex_row :: refresh_token where
  "ex_row = \<lparr>rt_id = 10, rt_tenant = 1, rt_family = 7, rt_client = ''app'', rt_user = Some 3,
     rt_session = None, rt_hash = ''#rt_a'', rt_scopes = [''openid''], rt_audiences = [''api''],
     rt_auth_time = None, rt_amr = [], rt_acr = None, rt_org = None, rt_act = None,
     rt_expires_at = 100, rt_dpop_jkt = Some ''k'', rt_mtls_x5t = None, rt_consumed_at = None,
     rt_revoked_at = None, rt_created_at = 0\<rparr>"

definition ex_state :: "refresh_token list \<Rightarrow> auth_state" where
  "ex_state rows = \<lparr>rt_rows = rows, sess_kv = Map.empty, user_sets = Map.empty,
     sess_clients = Map.empty, sess_rows = [], published = []\<rparr>"

definition ex_proof :: sender_proof where
  "ex_proof = \<lparr>sp_jkt = Some ''k'', sp_x5t = None\<rparr>"

definition ex_fresh :: fresh where
  "ex_fresh = \<lparr>fr_chars = ''b'', fr_id = 11\<rparr>"

lemmas ex_defs = ex_sha_def ex_row_def ex_state_def ex_proof_def ex_fresh_def

abbreviation ex_spent_row :: refresh_token where
  "ex_spent_row \<equiv> ex_row\<lparr>rt_consumed_at := Some 4\<rparr>"

lemma ex_inv: "rt_inv (ex_state [ex_row])"
  by (simp add: ex_defs rows_ok_def families_ok_def)

theorem reuse_witness:
  "\<exists>e. fst (redeem ex_sha (\<lambda>_. None) 5 5 5 ex_fresh 1 ''app'' ''rt_a'' ex_proof [] None True
          (ex_state [ex_spent_row])) = Inl e \<and> oe_error e = InvalidGrant"
  using reuse_revokes_family_for_good [of 1 ex_sha "''rt_a''" "ex_state [ex_spent_row]"
    ex_spent_row "''app''" "\<lambda>_. None" 5 5 5 ex_fresh ex_proof "[]" None True]
  by (simp add: ex_defs repo_find_by_hash_def starts_with_def token_prefix_def case_prod_beta)

lemma ex_redeemable:
  "redeemable ex_sha (\<lambda>_. None) 5 5 1 ''app'' ''rt_a'' ex_proof [''api''] (Some [''openid''])
     (ex_state [ex_row]) ex_row"
  by (simp add: redeemable_def ex_defs repo_find_by_hash_def starts_with_def token_prefix_def
      is_usable_def bound_elsewhere_def session_ended_def)

theorem redeemable_is_redeemed_witness:
  "\<exists>i w'. redeem ex_sha (\<lambda>_. None) 5 5 5 ex_fresh 1 ''app'' ''rt_a'' ex_proof [''api'']
      (Some [''openid'']) True (ex_state [ex_row]) = (Inr i, w')"
  by (rule redeemable_is_redeemed [OF ex_redeemable])
     (simp_all add: ex_defs row_key_def random_token_def token_prefix_def)

lemma ex_rotation:
  "\<exists>i w'. redeem ex_sha (\<lambda>_. None) 5 5 5 ex_fresh 1 ''app'' ''rt_a'' ex_proof [''api'']
      (Some [''openid'']) True (ex_state [ex_row]) = (Inr i, w')"
  by (simp add: redeem_def ex_defs repo_find_by_hash_def starts_with_def token_prefix_def
      redeem_checks_def bound_elsewhere_def session_ended_def insert_in_def repo_insert_def
      random_token_def repo_mark_consumed_def Let_def)

theorem rotation_is_single_use_witness:
  "\<exists>i w1 e. redeem ex_sha (\<lambda>_. None) 5 5 5 ex_fresh 1 ''app'' ''rt_a'' ex_proof [''api'']
      (Some [''openid'']) True (ex_state [ex_row]) = (Inr i, w1) \<and>
    fst (redeem ex_sha (\<lambda>_. None) 6 6 6 ex_fresh 1 ''app'' ''rt_a'' ex_proof [] None True w1)
      = Inl e \<and> oe_error e = InvalidGrant"
proof -
  obtain i w1 where run: "redeem ex_sha (\<lambda>_. None) 5 5 5 ex_fresh 1 ''app'' ''rt_a'' ex_proof
      [''api''] (Some [''openid'']) True (ex_state [ex_row]) = (Inr i, w1)"
    using ex_rotation by blast
  from rotation_is_single_use [OF ex_inv run [folded rotate_token_def] rtranclp.rtrancl_refl] run
  show ?thesis by blast
qed


theorem families_stay_uniform_witness:
  "distinct (map row_key (rt_rows (snd (issue ex_sha 0 0 ex_fresh 7 1
     \<lparr>ir_client = ''app'', ir_user = None, ir_session = None, ir_scopes = [], ir_audiences = [],
      ir_ttl = 9, ir_dpop_jkt = None, ir_mtls_x5t = None, ir_auth_time = None, ir_amr = [],
      ir_acr = None, ir_org = None, ir_act = None\<rparr> (ex_state [])))))"
proof -
  let ?w0 = "ex_state []"
  have 0: "rt_rows ?w0 = []" by (simp add: ex_state_def)
  have "\<And>req. rt_step ex_sha ?w0 (snd (issue ex_sha 0 0 ex_fresh 7 1 req ?w0))"
    by (rule rt_step.step_issue) (simp add: 0)
  then show ?thesis using families_stay_uniform [OF 0 r_into_rtranclp] by blast
qed

end
