(* ===== verification/Logout.thy ===== *)
theory Logout
  imports Refresh_Tokens
begin

text \<open>
  The life of a session (\<open>api/src/services/sessions.rs\<close>: \<open>create\<close>, \<open>create_impersonated\<close>,
  \<open>revoke\<close>; \<open>api/src/services/logout.rs\<close>: \<open>end_session\<close>, \<open>end_sessions_for_user\<close>;
  \<open>api/src/services/impersonation.rs\<close>: \<open>announce_end\<close>). Relying parties are told after
  the state has changed; the URLs of the outcome are modelled with the client lookup
  and the URL builder as parameters, the deliveries are not. SAML participants, which
  the outcome only lists, are left out.
\<close>

section \<open>Operations\<close>

definition announce_end :: "uuid option \<Rightarrow> sso_session \<Rightarrow> auth_state \<Rightarrow> auth_state" where
  "announce_end acting s w =
     (case ss_impersonator s of
        None \<Rightarrow> w
      | Some imp \<Rightarrow>
          publish (ss_tenant s)
            (if acting = Some (imp_user imp) then ActorAdmin (imp_user imp) else ActorSystem)
            (ImpersonationEnded (ss_user s) (ss_id s) (imp_user imp)) w)"

definition revoke_session ::
  "uuid option \<Rightarrow> instant \<Rightarrow> instant \<Rightarrow> uuid \<Rightarrow> uuid \<Rightarrow> auth_state \<Rightarrow> bool \<times> auth_state" where
  "revoke_session acting now dbnow t sid w =
     (let (raw, kv') = kv_getdel now (t, sid) (sess_kv w);
          live = (raw \<noteq> None);
          w1 = repo_mark_revoked dbnow t sid (w\<lparr>sess_kv := kv'\<rparr>);
          w2 = (case raw of
                  None \<Rightarrow> w1
                | Some s \<Rightarrow>
                    publish t (ActorUser (ss_user s)) (SessionRevoked sid (ss_user s))
                      (untrack now t (ss_user s) sid (announce_end acting s w1)));
          actor = (case raw of None \<Rightarrow> ActorSystem | Some s \<Rightarrow> ActorUser (ss_user s))
      in (live, snd (revoke_for_session dbnow t actor sid w2)))"

text \<open>
  What a relying party registered for logout: the URL a browser loads and the URL the
  server posts to.
\<close>

record rp_client =
  rp_frontchannel :: "string option"
  rp_backchannel :: "string option"

record logout_outcome =
  lo_frontchannel :: "string list"
  lo_backchannel_notified :: nat
  lo_ended :: bool

definition frontchannel_uris ::
  "(string \<Rightarrow> string option) \<Rightarrow> rp_client list \<Rightarrow> string list" where
  "frontchannel_uris with_iss_sid cs =
     List.map_filter (\<lambda>c. Option.bind (rp_frontchannel c) with_iss_sid) cs"

definition end_session ::
  "uuid option \<Rightarrow> (string \<Rightarrow> rp_client option) \<Rightarrow> (string \<Rightarrow> string option) \<Rightarrow> instant \<Rightarrow> instant
     \<Rightarrow> session_policy \<Rightarrow> uuid \<Rightarrow> uuid \<Rightarrow> auth_state \<Rightarrow> logout_outcome \<times> auth_state" where
  "end_session acting find_client with_iss_sid now dbnow policy t sid w =
     (let participants = clients_of now t sid w;
          (session, w1) = get_session now t sid policy w;
          (ended, w2) = revoke_session acting now dbnow t sid w1;
          cs = List.map_filter find_client participants
      in case session of
           None \<Rightarrow> (\<lparr>lo_frontchannel = [], lo_backchannel_notified = 0, lo_ended = ended\<rparr>, w2)
         | Some s \<Rightarrow>
             (\<lparr>lo_frontchannel = frontchannel_uris with_iss_sid cs,
               lo_backchannel_notified = length (filter (\<lambda>c. rp_backchannel c \<noteq> None) cs),
               lo_ended = ended\<rparr>, w2))"

fun end_each ::
  "(uuid \<Rightarrow> auth_state \<Rightarrow> logout_outcome \<times> auth_state) \<Rightarrow> uuid list \<Rightarrow> auth_state
     \<Rightarrow> nat \<times> auth_state" where
  "end_each end_one [] w = (0, w)"
| "end_each end_one (sid # sids) w =
     (let (o1, w1) = end_one sid w; (n, w2) = end_each end_one sids w1
      in ((if lo_ended o1 then 1 else 0) + n, w2))"

definition end_sessions_for_user ::
  "uuid option \<Rightarrow> (string \<Rightarrow> rp_client option) \<Rightarrow> (string \<Rightarrow> string option) \<Rightarrow> instant \<Rightarrow> instant
     \<Rightarrow> session_policy \<Rightarrow> uuid \<Rightarrow> uuid \<Rightarrow> uuid option \<Rightarrow> auth_state \<Rightarrow> nat \<times> auth_state" where
  "end_sessions_for_user acting find_client with_iss_sid now dbnow policy t u keep w =
     (let (live, w1) = list_live_for_user now t u w
      in end_each (end_session acting find_client with_iss_sid now dbnow policy t)
           (map ss_id (filter (\<lambda>s. Some (ss_id s) \<noteq> keep) live)) w1)"

record new_session =
  ns_user :: uuid
  ns_amr :: "string list"
  ns_acr :: "string option"
  ns_ip :: "string option"
  ns_user_agent :: "string option"
  ns_device :: "uuid option"
  ns_policy :: session_policy

definition excess_of :: "nat \<Rightarrow> nat \<Rightarrow> nat" where
  "excess_of cap live = (live + 1) - cap"

definition make_room ::
  "uuid option \<Rightarrow> (string \<Rightarrow> rp_client option) \<Rightarrow> (string \<Rightarrow> string option) \<Rightarrow> instant \<Rightarrow> instant
     \<Rightarrow> session_policy \<Rightarrow> uuid \<Rightarrow> new_session \<Rightarrow> auth_state \<Rightarrow> auth_state" where
  "make_room acting find_client with_iss_sid now dbnow tenant_policy t req w =
     (let cap = max_concurrent (ns_policy req) in
      if 0 < cap then
        (let (live, w1) = list_live_for_user now t (ns_user req) w;
             excess = excess_of cap (length live)
         in snd (end_each (end_session acting find_client with_iss_sid now dbnow tenant_policy t)
                   (map ss_id (take excess live)) w1))
      else w)"

definition create_session ::
  "uuid option \<Rightarrow> (string \<Rightarrow> rp_client option) \<Rightarrow> (string \<Rightarrow> string option) \<Rightarrow> instant \<Rightarrow> instant
     \<Rightarrow> uuid \<Rightarrow> session_policy \<Rightarrow> uuid \<Rightarrow> new_session \<Rightarrow> auth_state \<Rightarrow> sso_session \<times> auth_state" where
  "create_session acting find_client with_iss_sid now dbnow new_id tenant_policy t req w =
     (let w1 = make_room acting find_client with_iss_sid now dbnow tenant_policy t req w;
          s = \<lparr>ss_id = new_id, ss_tenant = t, ss_user = ns_user req, ss_auth_time = now,
               ss_amr = ns_amr req, ss_acr = ns_acr req, ss_ip = ns_ip req,
               ss_user_agent = ns_user_agent req, ss_device = ns_device req, ss_org = None,
               ss_impersonator = None, ss_created_at = now, ss_last_seen_at = now,
               ss_expires_at = now + dur_secs (as_i64 (absolute_timeout_secs (ns_policy req))),
               ss_idle_expires_at = now + dur_secs (as_i64 (idle_timeout_secs (ns_policy req)))\<rparr>;
          w2 = track now s (store_session now s (repo_insert_session s w1))
      in (s, publish t (ActorUser (ns_user req)) (SessionCreated new_id (ns_user req)) w2))"

record new_impersonated_session =
  ni_user :: uuid
  ni_impersonator :: impersonator
  ni_reason :: string
  ni_lifetime :: duration
  ni_ip :: "string option"
  ni_user_agent :: "string option"

definition create_impersonated ::
  "instant \<Rightarrow> uuid \<Rightarrow> session_policy \<Rightarrow> uuid \<Rightarrow> new_impersonated_session \<Rightarrow> auth_state
     \<Rightarrow> sso_session \<times> auth_state" where
  "create_impersonated now new_id policy t req w =
     (let expires = now + min (ni_lifetime req) (dur_secs (as_i64 (absolute_timeout_secs policy)));
          s = \<lparr>ss_id = new_id, ss_tenant = t, ss_user = ni_user req, ss_auth_time = now,
               ss_amr = [], ss_acr = None, ss_ip = ni_ip req, ss_user_agent = ni_user_agent req,
               ss_device = None, ss_org = None, ss_impersonator = Some (ni_impersonator req),
               ss_created_at = now, ss_last_seen_at = now, ss_expires_at = expires,
               ss_idle_expires_at = min (now + dur_secs (as_i64 (idle_timeout_secs policy))) expires\<rparr>;
          w1 = repo_insert_session s w;
          w2 = repo_set_impersonation t new_id (ni_impersonator req) (ni_reason req) w1
      in (s, track now s (store_session now s w2)))"

section \<open>The store invariant\<close>

text \<open>
  Every stored session is under its own key and its deadline is no later than either
  end of its life; a user's set holds no id twice.
\<close>

definition sets_wf :: "('k, 'm list) kv \<Rightarrow> bool" where
  "sets_wf m = (\<forall>k. case m k of None \<Rightarrow> True | Some (xs, d) \<Rightarrow> distinct xs)"

definition entry_wf :: "uuid \<times> uuid \<Rightarrow> sso_session \<times> instant option \<Rightarrow> bool" where
  "entry_wf k e = (case e of (s, d) \<Rightarrow> (ss_tenant s, ss_id s) = k \<and>
     (case d of None \<Rightarrow> False | Some t \<Rightarrow> t \<le> ss_expires_at s \<and> t \<le> ss_idle_expires_at s))"

definition sess_wf :: "auth_state \<Rightarrow> bool" where
  "sess_wf w = ((\<forall>k e. sess_kv w k = Some e \<longrightarrow> entry_wf k e) \<and> sets_wf (user_sets w))"

lemma sets_wfD: "sets_wf m \<Longrightarrow> m k = Some (xs, d) \<Longrightarrow> distinct xs"
  unfolding sets_wf_def by (metis (no_types, lifting) case_prod_conv option.case(2))

lemma sets_wf_upd: "sets_wf m \<Longrightarrow> distinct xs \<Longrightarrow> sets_wf (kv_set_until d k xs m)"
  by (simp add: sets_wf_def kv_set_until_def)

lemma kv_entry_SomeD: "kv_entry now k m = Some e \<Longrightarrow> m k = Some e"
  by (auto simp: kv_entry_def split: option.splits if_splits)

lemma sets_wf_set_remove: "sets_wf m \<Longrightarrow> sets_wf (set_remove now k gone m)"
  by (auto simp: set_remove_def intro!: sets_wf_upd dest: kv_entry_SomeD sets_wfD split: option.split)

lemma sets_wf_add: "sets_wf m \<Longrightarrow> sets_wf (add_to_set_for_at_least now k x ttl m)"
  by (auto simp: add_to_set_for_at_least_def Let_def intro!: sets_wf_upd
      dest: kv_entry_SomeD sets_wfD split: option.split)

lemma sess_wf_cong:
  "sess_kv w' = sess_kv w \<Longrightarrow> user_sets w' = user_sets w \<Longrightarrow> sess_wf w' = sess_wf w"
  by (simp add: sess_wf_def)

lemma frame_sess [simp]:
  "sess_kv (publish t a k w) = sess_kv w" "user_sets (publish t a k w) = user_sets w"
  "sess_kv (announce_end acting s w) = sess_kv w" "user_sets (announce_end acting s w) = user_sets w"
  "sess_kv (repo_mark_revoked d t sid w) = sess_kv w"
  "user_sets (repo_mark_revoked d t sid w) = user_sets w"
  "sess_kv (repo_touch s w) = sess_kv w" "user_sets (repo_touch s w) = user_sets w"
  "sess_kv (repo_insert_session s w) = sess_kv w"
  "user_sets (repo_insert_session s w) = user_sets w"
  "sess_kv (repo_set_impersonation t sid imp r w) = sess_kv w"
  "user_sets (repo_set_impersonation t sid imp r w) = user_sets w"
  "sess_kv (repo_set_device t sid dv w) = sess_kv w"
  "user_sets (repo_set_device t sid dv w) = user_sets w"
  "sess_kv (repo_set_organization t sid oid w) = sess_kv w"
  "user_sets (repo_set_organization t sid oid w) = user_sets w"
  "sess_kv (untrack now t u sid w) = sess_kv w" "sess_kv (track now s w) = sess_kv w"
  "user_sets (store_session now s w) = user_sets w"
  "sess_kv (snd (revoke_for_session d t a sid w)) = sess_kv w"
  "user_sets (snd (revoke_for_session d t a sid w)) = user_sets w"
  by (simp_all add: publish_def announce_end_def repo_mark_revoked_def repo_touch_def
      repo_insert_session_def repo_set_impersonation_def repo_set_device_def
      repo_set_organization_def untrack_def track_def store_session_def revoke_for_session_def
      repo_revoke_for_session_def revoke_where_def Let_def split: option.split)

lemma sess_wf_store [simp]: "sess_wf w \<Longrightarrow> sess_wf (store_session now s w)"
  using num_milliseconds_pos [of "min (ss_expires_at s) (ss_idle_expires_at s) - now"]
  by (auto simp: sess_wf_def store_session_def entry_wf_def Let_def kv_set_until_def not_le)

lemma sess_wf_untrack [simp]: "sess_wf w \<Longrightarrow> sess_wf (untrack now t u sid w)"
  by (simp add: sess_wf_def untrack_def sets_wf_set_remove)

lemma sess_wf_track [simp]: "sess_wf w \<Longrightarrow> sess_wf (track now s w)"
  by (simp add: sess_wf_def track_def Let_def sets_wf_add)

lemma sess_wf_get_session [simp]: "sess_wf w \<Longrightarrow> sess_wf (snd (get_session now t sid p w))"
  by (auto simp: get_session_def Let_def sess_wf_cong [of "repo_touch _ _"] split: option.split)

lemma sess_wf_revoke_session [simp]:
  "sess_wf w \<Longrightarrow> sess_wf (snd (revoke_session acting now dbnow t sid w))"
proof -
  assume "sess_wf w"
  then have "sess_wf (w\<lparr>sess_kv := kv_del (t, sid) (sess_kv w)\<rparr>)"
    by (auto simp: sess_wf_def kv_del_def)
  moreover have "\<And>d w. sess_wf (repo_mark_revoked d t sid w) = sess_wf w"
    "\<And>s w. sess_wf (announce_end acting s w) = sess_wf w"
    "\<And>a k w. sess_wf (publish t a k w) = sess_wf w"
    "\<And>d a w. sess_wf (snd (revoke_for_session d t a sid w)) = sess_wf w"
    by (rule sess_wf_cong; simp)+
  ultimately show ?thesis
    by (auto simp: revoke_session_def Let_def kv_getdel_def split: option.split)
qed

lemma snd_end_session:
  "snd (end_session acting fc wi now dbnow p t sid w)
    = snd (revoke_session acting now dbnow t sid (snd (get_session now t sid p w)))"
  by (simp add: end_session_def Let_def case_prod_beta split: option.split)

lemma sess_wf_list_live [simp]: "sess_wf w \<Longrightarrow> sess_wf (snd (list_live_for_user now t u w))"
  by (auto simp: list_live_for_user_def Let_def sess_wf_def sets_wf_set_remove split: option.split)

section \<open>Live sessions\<close>

text \<open>The ids of a user's live sessions: what \<open>list_live_for_user\<close> lists.\<close>

definition live_ids :: "instant \<Rightarrow> uuid \<Rightarrow> uuid \<Rightarrow> auth_state \<Rightarrow> uuid set" where
  "live_ids now t u w =
     {sid. (\<exists>ids. kv_get now (t, u) (user_sets w) = Some ids \<and> sid \<in> set ids)
           \<and> live_of now t u w sid \<noteq> None}"

lemma set_oldest_first [simp]: "set (oldest_first xs) = set xs"
  by (simp add: oldest_first_def)

lemma length_oldest_first [simp]: "length (oldest_first xs) = length xs"
  by (simp add: oldest_first_def)

lemma live_of_SomeD:
  assumes "sess_wf w" "live_of now t u w sid = Some s"
  shows "ss_id s = sid" "ss_tenant s = t" "ss_user s = u" "is_live s now"
proof -
  obtain d where "sess_kv w (t, sid) = Some (s, d)"
    using assms(2)
    by (auto simp: live_of_def kv_get_def dest!: kv_entry_SomeD split: option.splits if_splits)
  with assms(1) show "ss_id s = sid" "ss_tenant s = t" by (auto simp: sess_wf_def entry_wf_def)
  from assms(2) show "ss_user s = u" "is_live s now"
    by (auto simp: live_of_def split: option.splits if_splits)
qed

lemma kv_get_user_set_distinct:
  "sess_wf w \<Longrightarrow> kv_get now k (user_sets w) = Some ids \<Longrightarrow> distinct ids"
  by (auto simp: sess_wf_def kv_get_def dest!: kv_entry_SomeD dest: sets_wfD)

lemma live_list_ids:
  assumes wf: "sess_wf w"
  shows "ss_id ` set (fst (list_live_for_user now t u w)) = live_ids now t u w"
    and "distinct (map ss_id (fst (list_live_for_user now t u w)))"
    and "length (fst (list_live_for_user now t u w)) = card (live_ids now t u w)"
proof -
  let ?L = "fst (list_live_for_user now t u w)"
  have ids: "ss_id ` set ?L = live_ids now t u w"
    using live_of_SomeD(1) [OF wf]
    by (force simp: list_live_for_user_def live_ids_def Let_def List.map_filter_def image_iff
        split: option.splits)
  have dist: "distinct (map ss_id ?L)"
  proof (cases "kv_get now (t, u) (user_sets w)")
    case (Some xs)
    have m: "map ss_id (List.map_filter (live_of now t u w) ys)
        = filter (\<lambda>sid. live_of now t u w sid \<noteq> None) ys" for ys
      using live_of_SomeD(1) [OF wf] by (induction ys) (auto simp: List.map_filter_simps split: option.split)
    have "distinct (map ss_id (List.map_filter (live_of now t u w) xs))"
      unfolding m using kv_get_user_set_distinct [OF wf Some] by simp
    then have "distinct (map ss_id (oldest_first (List.map_filter (live_of now t u w) xs)))"
      by (simp add: distinct_map oldest_first_def)
    then show ?thesis using Some by (simp add: list_live_for_user_def Let_def)
  qed (simp add: list_live_for_user_def)
  show "ss_id ` set ?L = live_ids now t u w" "distinct (map ss_id ?L)" by fact+
  show "length ?L = card (live_ids now t u w)"
    using distinct_card [OF dist] ids by simp
qed

definition members :: "instant \<Rightarrow> 'k \<Rightarrow> ('k, 'm list) kv \<Rightarrow> 'm set" where
  "members now k m = (case kv_get now k m of None \<Rightarrow> {} | Some xs \<Rightarrow> set xs)"

lemma live_ids_members: "live_ids now t u w = {sid \<in> members now (t, u) (user_sets w).
    live_of now t u w sid \<noteq> None}"
  by (auto simp: live_ids_def members_def split: option.splits)

lemma members_entry:
  "members now k m = (case kv_entry now k m of None \<Rightarrow> {} | Some (xs, d) \<Rightarrow> set xs)"
  by (auto simp: members_def kv_get_def split: option.split)

lemma members_set_remove: "members now k (set_remove now k' gone m) \<subseteq> members now k m"
  by (auto simp: members_entry set_remove_def kv_set_until_def kv_entry_def
      split: option.splits if_splits)

lemma members_add:
  "members now k (add_to_set_for_at_least now k' x ttl m)
    \<subseteq> (if k = k' then insert x (members now k m) else members now k m)"
  by (auto simp: members_entry add_to_set_for_at_least_def Let_def kv_set_until_def kv_entry_def
      split: option.splits if_splits)

lemma members_add_new:
  "0 < ttl \<Longrightarrow> x \<in> members now k (add_to_set_for_at_least now k x ttl m)"
  using dur_secs_pos [of ttl]
  by (auto simp: members_entry add_to_set_for_at_least_def Let_def kv_set_until_def kv_entry_def
      not_le max_def simp del: dur_secs_pos split: option.splits if_splits)

lemma members_add_keeps:
  assumes "0 < n" "n \<le> ttl"
  shows "members now k m \<subseteq> members now k (add_to_set_for_at_least now k x ttl m)"
  using assms dur_secs_pos [of ttl]
  by (auto simp: members_entry add_to_set_for_at_least_def Let_def kv_set_until_def kv_entry_def
      not_le max_def simp del: dur_secs_pos split: option.splits if_splits)

lemma live_of_cong:
  "sess_kv w' (t, sid) = sess_kv w (t, sid) \<Longrightarrow> live_of now t u w' sid = live_of now t u w sid"
  by (simp add: live_of_def kv_get_def kv_entry_def)

lemma sess_kv_store_session_other:
  "k \<noteq> (ss_tenant s, ss_id s) \<Longrightarrow> sess_kv (store_session now s w) k = sess_kv w k"
  by (simp add: store_session_def Let_def kv_set_until_def)

lemma sess_kv_get_session_other:
  assumes "sess_wf w" "k \<noteq> (t, sid)"
  shows "sess_kv (snd (get_session now t sid p w)) k = sess_kv w k"
proof (cases "kv_get now (t, sid) (sess_kv w)")
  case (Some s)
  then have "(ss_tenant s, ss_id s) = (t, sid)"
    using assms(1) by (auto simp: sess_wf_def entry_wf_def kv_get_def dest!: kv_entry_SomeD)
  then show ?thesis using assms(2) Some
    by (auto simp: get_session_def Let_def slide_def sess_kv_store_session_other)
qed (simp add: get_session_def)

lemma user_sets_get_session [simp]:
  "user_sets (snd (get_session now t sid p w)) = user_sets w"
  by (simp add: get_session_def Let_def split: option.split)

lemma sess_kv_revoke_session [simp]:
  "sess_kv (snd (revoke_session acting now dbnow t sid w)) = kv_del (t, sid) (sess_kv w)"
  by (simp add: revoke_session_def Let_def kv_getdel_def split: option.split)

lemma members_revoke_session:
  "members n k (user_sets (snd (revoke_session acting n dbnow t sid w)))
     \<subseteq> members n k (user_sets w)"
  by (auto simp: revoke_session_def Let_def kv_getdel_def untrack_def
      dest: subsetD [OF members_set_remove] split: option.splits)

lemma live_ids_end_session:
  assumes "sess_wf w"
  shows "live_ids now t u (snd (end_session acting fc wi now dbnow p t sid w))
     \<subseteq> live_ids now t u w - {sid}"
proof
  fix x assume x: "x \<in> live_ids now t u (snd (end_session acting fc wi now dbnow p t sid w))"
  let ?w1 = "snd (get_session now t sid p w)"
  from x have mem: "x \<in> members now (t, u) (user_sets w)"
    using members_revoke_session [of now "(t, u)" acting dbnow t sid ?w1]
    by (auto simp: live_ids_members snd_end_session)
  from x have lv: "live_of now t u (snd (revoke_session acting now dbnow t sid ?w1)) x \<noteq> None"
    by (simp add: live_ids_members snd_end_session)
  then have "x \<noteq> sid" by (auto simp: live_of_def kv_simps)
  moreover from this have "live_of now t u (snd (revoke_session acting now dbnow t sid ?w1)) x
      = live_of now t u w x"
    by (intro live_of_cong) (simp add: kv_del_def sess_kv_get_session_other [OF assms])
  ultimately show "x \<in> live_ids now t u w - {sid}"
    using mem lv by (simp add: live_ids_members)
qed

lemma end_each_live_ids:
  assumes "sess_wf w"
  shows "live_ids now t u (snd (end_each (end_session acting fc wi now dbnow p t) sids w))
     \<subseteq> live_ids now t u w - set sids \<and>
    sess_wf (snd (end_each (end_session acting fc wi now dbnow p t) sids w))"
  using assms
proof (induction sids arbitrary: w)
  case (Cons sid sids)
  let ?w1 = "snd (end_session acting fc wi now dbnow p t sid w)"
  have wf: "sess_wf ?w1" using Cons.prems by (simp add: snd_end_session)
  show ?case
    using Cons.IH [OF wf] live_ids_end_session [OF Cons.prems, of now t u acting fc wi dbnow p sid]
    by (auto simp: Let_def case_prod_beta)
qed simp

lemma live_ids_list_live: "live_ids now t u (snd (list_live_for_user now t u w)) \<subseteq> live_ids now t u w"
proof -
  have "live_of now t u (snd (list_live_for_user now t u w)) = live_of now t u w"
    by (rule ext, rule live_of_cong) (simp add: list_live_for_user_def Let_def split: option.split)
  moreover have "members now (t, u) (user_sets (snd (list_live_for_user now t u w)))
      \<subseteq> members now (t, u) (user_sets w)"
    by (auto simp: list_live_for_user_def Let_def dest: subsetD [OF members_set_remove]
        split: option.splits)
  ultimately show ?thesis by (auto simp: live_ids_members)
qed

lemma live_ids_open:
  assumes "ss_tenant s = t" "ss_user s = u"
  shows "live_ids now t u (track now s (store_session now s w)) \<subseteq> insert (ss_id s) (live_ids now t u w)"
proof -
  have "live_of now t u (track now s (store_session now s w)) x = live_of now t u w x"
    if "x \<noteq> ss_id s" for x
    using that by (intro live_of_cong) (simp add: sess_kv_store_session_other)
  then show ?thesis
    using members_add [of now "(t, u)" "(t, u)" "ss_id s" _ "user_sets w"] assms
    by (fastforce simp: live_ids_members track_def Let_def)
qed

lemma live_ids_open_keeps:
  assumes "ss_tenant s = t" "ss_user s = u"
  shows "live_ids now t u w - {ss_id s} \<subseteq> live_ids now t u (track now s (store_session now s w))"
proof -
  have "live_of now t u (track now s (store_session now s w)) x = live_of now t u w x"
    if "x \<noteq> ss_id s" for x
    using that by (intro live_of_cong) (simp add: sess_kv_store_session_other)
  moreover have "members now (t, u) (user_sets w)
      \<subseteq> members now (t, u) (user_sets (track now s (store_session now s w)))"
    by (simp add: track_def Let_def assms members_add_keeps [of 60])
  ultimately show ?thesis by (auto simp: live_ids_members)
qed

lemma open_is_live:
  assumes "ss_tenant s = t" "ss_user s = u"
    and life: "dur_secs 1 \<le> min (ss_expires_at s) (ss_idle_expires_at s) - now"
  shows "ss_id s \<in> live_ids now t u (track now s (store_session now s w))"
proof -
  have "0 < num_milliseconds (min (ss_expires_at s) (ss_idle_expires_at s) - now)"
    using life by (rule num_milliseconds_second)
  moreover have "is_live s now"
    using life dur_secs_pos [of 1] unfolding is_live_def by linarith
  ultimately have "live_of now t u (track now s (store_session now s w)) (ss_id s) = Some s"
    using assms by (simp add: live_of_def store_session_def Let_def kv_simps)
  moreover have "ss_id s \<in> members now (t, u) (user_sets (track now s (store_session now s w)))"
    using assms by (simp add: track_def Let_def members_add_new)
  ultimately show ?thesis by (simp add: live_ids_members)
qed

lemma finite_live_ids [simp]: "finite (live_ids now t u w)"
  by (rule finite_subset [of _ "members now (t, u) (user_sets w)"])
     (auto simp: live_ids_members members_def split: option.splits)

lemma make_room_live_ids:
  assumes wf: "sess_wf w" and cap: "0 < max_concurrent (ns_policy req)"
    and w'_def: "w' = make_room acting fc wi now dbnow tp t req w"
  shows "sess_wf w'" "card (live_ids now t (ns_user req) w') + 1 \<le> max_concurrent (ns_policy req)"
proof -
  let ?u = "ns_user req" and ?cap = "max_concurrent (ns_policy req)"
  let ?L = "fst (list_live_for_user now t ?u w)" and ?w1 = "snd (list_live_for_user now t ?u w)"
  let ?gone = "map ss_id (take (excess_of ?cap (length ?L)) ?L)"
  have w': "w' = snd (end_each (end_session acting fc wi now dbnow tp t) ?gone ?w1)"
    unfolding w'_def by (simp add: make_room_def cap Let_def case_prod_beta)
  have wf1: "sess_wf ?w1" using wf by simp
  show "sess_wf w'" unfolding w' using end_each_live_ids [OF wf1] by blast
  have "live_ids now t ?u w' \<subseteq> live_ids now t ?u w - set ?gone"
    unfolding w' using end_each_live_ids [OF wf1] live_ids_list_live by blast
  then have "card (live_ids now t ?u w') \<le> card (live_ids now t ?u w - set ?gone)"
    by (intro card_mono) auto
  also have "\<dots> = card (live_ids now t ?u w) - card (set ?gone)"
  proof (rule card_Diff_subset)
    show "set ?gone \<subseteq> live_ids now t ?u w"
      using live_list_ids(1) [OF wf, of now t ?u] by (auto dest: in_set_takeD)
  qed simp
  also have "card (set ?gone) = min (length ?L) (excess_of ?cap (length ?L))"
    using live_list_ids(2) [OF wf, of now t ?u] distinct_take
    by (subst distinct_card) (auto simp: take_map [symmetric])
  finally show "card (live_ids now t ?u w') + 1 \<le> ?cap"
    using cap by (auto simp: live_list_ids(3) [OF wf] excess_of_def min_def split: if_splits)
qed

text \<open>
  C18. The cap on concurrent sessions. When the policy caps a user's sessions at
  \<open>max_concurrent > 0\<close>, opening a session leaves at most that many sessions of the
  user live, and the new session is among them whenever the policy gives it a life of
  at least a millisecond.
\<close>

theorem create_session_respects_cap:
  assumes wf: "sess_wf w" and cap: "0 < max_concurrent (ns_policy req)"
    and life: "0 < as_i64 (absolute_timeout_secs (ns_policy req))"
      "0 < as_i64 (idle_timeout_secs (ns_policy req))"
    and run: "create_session acting fc wi now dbnow new_id tp t req w = (s, w')"
  shows "length (fst (list_live_for_user now t (ns_user req) w')) \<le> max_concurrent (ns_policy req)
    \<and> new_id \<in> ss_id ` set (fst (list_live_for_user now t (ns_user req) w'))"
proof -
  let ?u = "ns_user req" and ?cap = "max_concurrent (ns_policy req)"
  let ?w1 = "make_room acting fc wi now dbnow tp t req w"
  note room = make_room_live_ids [where acting = acting and fc = fc and wi = wi and now = now
      and dbnow = dbnow and tp = tp and t = t, OF wf cap refl]
  from run have s: "ss_tenant s = t" "ss_user s = ?u" "ss_id s = new_id"
      "dur_secs 1 \<le> min (ss_expires_at s) (ss_idle_expires_at s) - now"
    and w': "w' = publish t (ActorUser ?u) (SessionCreated new_id ?u)
        (track now s (store_session now s (repo_insert_session s ?w1)))"
    using life by (auto simp: create_session_def Let_def min_def)
  let ?w2 = "repo_insert_session s ?w1"
  have wf2: "sess_wf ?w2" using room(1) by (subst sess_wf_cong [of _ ?w1]) simp_all
  have same: "live_ids now t ?u w' = live_ids now t ?u (track now s (store_session now s ?w2))"
    "live_ids now t ?u ?w2 = live_ids now t ?u ?w1"
    unfolding w' by (auto simp: live_ids_members live_of_def)
  have wf': "sess_wf w'"
    unfolding w' using wf2 by (subst sess_wf_cong [of _ "track now s (store_session now s ?w2)"]) simp_all
  have "card (live_ids now t ?u w') \<le> card (insert new_id (live_ids now t ?u ?w1))"
    using live_ids_open [OF s(1,2), of now ?w2] s(3) by (simp add: same card_mono)
  also have "\<dots> \<le> ?cap" using room(2) by (simp add: card_insert_if)
  finally have le: "card (live_ids now t ?u w') \<le> ?cap" .
  have "new_id \<in> live_ids now t ?u w'"
    unfolding same(1) using open_is_live [OF s(1,2,4)] s(3) by simp
  with le show ?thesis using live_list_ids(1,3) [OF wf', of now t ?u] by simp
qed

text \<open>
  Looking a session up. A session is only ever found before both ends of its life;
  the lookup moves its idle end to at most the later of where it was and the absolute
  end, never the absolute end itself nor whose session it is, and keeps the store
  well formed.
\<close>

theorem get_session_stays_within_life:
  assumes wf: "sess_wf w" and run: "get_session now t sid policy w = (Some s, w')"
  shows "(\<exists>s0 d. sess_kv w (t, sid) = Some (s0, d) \<and> is_live s0 now \<and>
      ss_expires_at s = ss_expires_at s0 \<and> ss_user s = ss_user s0 \<and>
      ss_idle_expires_at s \<le> max (ss_idle_expires_at s0) (ss_expires_at s0) \<and>
      (s \<noteq> s0 \<longrightarrow> dur_secs 60 \<le> now - ss_last_seen_at s0))
    \<and> ss_id s = sid \<and> ss_tenant s = t \<and> sess_wf w'"
proof -
  from run obtain s0 d where s0: "sess_kv w (t, sid) = Some (s0, d)" "is_live s0 now"
      "s = s0 \<or> s = slide now policy s0 \<and> 60 \<le> num_seconds (now - ss_last_seen_at s0)"
    by (auto simp: get_session_def kv_get_def Let_def dest!: kv_entry_SomeD
        split: option.splits if_splits)
  moreover have "ss_tenant s0 = t" "ss_id s0 = sid"
    using wf s0(1) by (auto simp: sess_wf_def entry_wf_def)
  moreover have "sess_wf w'" using sess_wf_get_session [OF wf, of now t sid policy] run by simp
  ultimately show ?thesis
    by (auto simp: slide_def num_seconds_ge_iff)
qed

section \<open>Signing out\<close>

lemma rt_rows_untrack [simp]: "rt_rows (untrack now t u sid w) = rt_rows w"
  by (simp add: untrack_def)

lemma rt_rows_revoke_session:
  "rt_rows (snd (revoke_session acting now dbnow t sid w))
    = revoked_rows dbnow (\<lambda>r. rt_tenant r = t \<and> rt_session r = Some sid) (rt_rows w)"
  by (simp add: revoke_session_def Let_def kv_getdel_def rt_rows_revoke_for_session
      announce_end_def repo_mark_revoked_def split: option.split)

lemma sess_rows_revoke_session:
  "sess_rows (snd (revoke_session acting now dbnow t sid w))
    = update_where (\<lambda>r. row_of t sid r \<and> sr_revoked_at r = None)
        (\<lambda>r. r\<lparr>sr_revoked_at := Some dbnow\<rparr>) (sess_rows w)"
  by (simp add: revoke_session_def Let_def kv_getdel_def revoke_for_session_def
      repo_revoke_for_session_def revoke_where_def publish_def untrack_def announce_end_def
      repo_mark_revoked_def split: option.split)

lemma session_ended_after_revoke:
  assumes "find (row_of t sid) (sess_rows w) \<noteq> None" "rt_session cur = Some sid"
  shows "fst (session_ended pol later t cur (snd (revoke_session acting now dbnow t sid w)))"
proof -
  have "repo_is_revoked t sid (snd (revoke_session acting now dbnow t sid w))"
    using assms(1) find_SomeD [of "row_of t sid" "sess_rows w"]
    by (auto simp: repo_is_revoked_def sess_rows_revoke_session find_update_where row_of_def)
  moreover have "fst (get_session later t sid p (snd (revoke_session acting now dbnow t sid w))) = None"
    for p by (simp add: get_session_def kv_simps)
  ultimately show ?thesis
    using assms(2) by (auto simp: session_ended_def Let_def split: prod.splits option.splits)
      (metis fst_conv option.distinct(1))+
qed

text \<open>
  C17. Signing out ends the tokens of the session. After \<open>revoke\<close> of a session in a
  well-formed table, no token of a family issued in that session is ever redeemed
  again, offline ones included; and a token bound to the session that is presented in
  the resulting state, even one issued by a code exchanged too late, finds its session
  ended.
\<close>

theorem sign_out_ends_tokens:
  assumes inv: "rt_inv w"
    and row: "r \<in> set (rt_rows w)" "rt_tenant r = t" "rt_session r = Some sid"
    and known: "find (row_of t sid) (sess_rows w) \<noteq> None"
    and out: "revoke_session acting now dbnow t sid w = (live, w1)"
    and later: "(rt_step sha)\<^sup>*\<^sup>* w1 w2"
    and red: "redeem sha pol now' later' dbnow' fr t client presented pf resources scopes rotates w2
                = (Inr i, w3)"
  shows "rt_family (is_record i) \<noteq> rt_family r \<and>
    (\<forall>cur pol later. rt_session cur = Some sid \<longrightarrow> fst (session_ended pol later t cur w1))"
proof -
  have w1: "w1 = snd (revoke_session acting now dbnow t sid w)" using out by simp
  have "family_dead t (rt_family r) w1"
  proof (rule family_dead_after_revocation [where p = "\<lambda>r. rt_tenant r = t \<and> rt_session r = Some sid"
        and dbnow = dbnow, OF row(1)])
    show "rt_rows w1 = revoked_rows dbnow (\<lambda>r. rt_tenant r = t \<and> rt_session r = Some sid) (rt_rows w)"
      unfolding w1 by (rule rt_rows_revoke_session)
  next
    fix x assume x: "in_family t (rt_family r) x" "x \<in> set (rt_rows w)"
    have "families_ok (rt_rows w)" using inv by (simp add: rows_ok_def)
    then have "same_grant x r"
      by (rule families_okD(1) [OF _ x(2) row(1)]) (use x(1) row(2) in \<open>simp add: same_family_def\<close>)
    with x(1) row(3) show "rt_tenant x = t \<and> rt_session x = Some sid" by (simp add: same_grant_def)
  qed (use row(2) in simp)
  then have "family_dead t (rt_family r) w2" by (rule dead.run_keeps [OF later])
  from redeem_dead_family [OF this red] show ?thesis
    using session_ended_after_revoke [OF known] by (simp add: w1)
qed

section \<open>Examples\<close>

definition ex_sso :: sso_session where
  "ex_sso = \<lparr>ss_id = 50, ss_tenant = 1, ss_user = 3, ss_auth_time = 0, ss_amr = [], ss_acr = None,
     ss_ip = None, ss_user_agent = None, ss_device = None, ss_org = None, ss_impersonator = None,
     ss_created_at = 0, ss_last_seen_at = 0, ss_expires_at = 100, ss_idle_expires_at = 100\<rparr>"

definition cap_policy :: "nat \<Rightarrow> session_policy" where
  "cap_policy n = default_session_policy\<lparr>max_concurrent := n\<rparr>"

definition ex_login :: "nat \<Rightarrow> new_session" where
  "ex_login n = \<lparr>ns_user = 3, ns_amr = [''pwd''], ns_acr = None, ns_ip = None,
     ns_user_agent = None, ns_device = None, ns_policy = cap_policy n\<rparr>"

definition ex_impersonation :: new_impersonated_session where
  "ex_impersonation = \<lparr>ni_user = 3, ni_impersonator = \<lparr>imp_user = 9, imp_tenant = 1,
     imp_username = ''root''\<rparr>, ni_reason = ''help'', ni_lifetime = dur_secs 900, ni_ip = None,
     ni_user_agent = None\<rparr>"

definition ex_open :: "instant \<Rightarrow> uuid \<Rightarrow> auth_state \<Rightarrow> auth_state" where
  "ex_open now new_id w = snd (create_session None (\<lambda>_. None) (\<lambda>_. None) now now new_id (cap_policy 2) 1
     (ex_login 2) w)"

lemma ex_state_wf: "sess_wf (ex_state rows)"
  by (simp add: sess_wf_def ex_state_def sets_wf_def)

theorem get_session_stays_within_life_witness:
  "\<exists>s w'. get_session 5 1 50 default_session_policy
      ((ex_state [])\<lparr>sess_kv := [(1, 50) \<mapsto> (ex_sso, Some 100)]\<rparr>) = (Some s, w') \<and> sess_wf w'"
proof -
  let ?w = "(ex_state [])\<lparr>sess_kv := [(1, 50) \<mapsto> (ex_sso, Some 100)]\<rparr>"
  have wf: "sess_wf ?w"
    by (simp add: sess_wf_def ex_state_def sets_wf_def entry_wf_def ex_sso_def)
  have "\<exists>s w'. get_session 5 1 50 default_session_policy ?w = (Some s, w')"
    by (simp add: get_session_def kv_get_def kv_entry_def is_live_def ex_sso_def num_seconds_def
        trunc_div_def nanos_per_sec_def)
  then show ?thesis using get_session_stays_within_life [OF wf] by blast
qed

theorem create_session_respects_cap_witness:
  "length (fst (list_live_for_user 0 1 3 (ex_open 0 100 (ex_state [])))) \<le> 2"
proof -
  have life: "0 < as_i64 (absolute_timeout_secs (ns_policy (ex_login 2)))"
    "0 < as_i64 (idle_timeout_secs (ns_policy (ex_login 2)))"
    by (simp_all add: ex_login_def cap_policy_def default_session_policy_def as_i64_def)
  have cap: "0 < max_concurrent (ns_policy (ex_login 2))" by (simp add: ex_login_def cap_policy_def)
  show ?thesis
    using create_session_respects_cap [OF ex_state_wf cap life prod.collapse [symmetric]]
    unfolding ex_open_def by (simp add: ex_login_def cap_policy_def)
qed

text \<open>
  An impersonated session counts against the user's cap: it is among the live
  sessions the next sign-in counts, so that sign-in ends one session more than it
  would have, the user's oldest first.
\<close>

theorem impersonated_session_counts_against_cap:
  assumes wf: "sess_wf w"
    and life: "dur_secs 1 \<le> ni_lifetime req" "0 < as_i64 (absolute_timeout_secs policy)"
      "0 < as_i64 (idle_timeout_secs policy)"
    and new: "new_id \<notin> live_ids now t (ni_user req) w"
    and run: "create_impersonated now new_id policy t req w = (s, w')"
  shows "new_id \<in> ss_id ` set (fst (list_live_for_user now t (ni_user req) w')) \<and>
    excess_of cap (length (fst (list_live_for_user now t (ni_user req) w')))
      = excess_of cap (Suc (length (fst (list_live_for_user now t (ni_user req) w))))"
proof -
  let ?u = "ni_user req"
  from run have s: "ss_tenant s = t" "ss_user s = ?u" "ss_id s = new_id"
      "dur_secs 1 \<le> min (ss_expires_at s) (ss_idle_expires_at s) - now"
    and w': "w' = track now s (store_session now s (repo_set_impersonation t new_id
        (ni_impersonator req) (ni_reason req) (repo_insert_session s w)))"
    using life by (auto simp: create_impersonated_def Let_def min_def)
  let ?w2 = "repo_set_impersonation t new_id (ni_impersonator req) (ni_reason req)
      (repo_insert_session s w)"
  have wf2: "sess_wf ?w2" using wf by (subst sess_wf_cong [of _ w]) simp_all
  then have wf': "sess_wf w'" unfolding w' by simp
  have same: "live_ids now t ?u ?w2 = live_ids now t ?u w"
    by (auto simp: live_ids_members live_of_def)
  have in': "new_id \<in> live_ids now t ?u w'"
    unfolding w' using open_is_live [OF s(1,2,4)] s(3) by simp
  have "live_ids now t ?u w' = insert new_id (live_ids now t ?u w)"
  proof
    show "live_ids now t ?u w' \<subseteq> insert new_id (live_ids now t ?u w)"
      unfolding w' using live_ids_open [OF s(1,2), of now ?w2] s(3) same by simp
    show "insert new_id (live_ids now t ?u w) \<subseteq> live_ids now t ?u w'"
      using in' live_ids_open_keeps [OF s(1,2), of now ?w2] s(3) same new unfolding w' by auto
  qed
  with new have "card (live_ids now t ?u w') = Suc (card (live_ids now t ?u w))" by simp
  with in' show ?thesis
    using live_list_ids(1,3) [OF wf', of now t ?u] live_list_ids(3) [OF wf, of now t ?u] by simp
qed

theorem impersonated_session_counts_witness:
  "7 \<in> ss_id ` set (fst (list_live_for_user 0 1 3
     (snd (create_impersonated 0 7 default_session_policy 1 ex_impersonation (ex_state [])))))"
proof -
  have life: "dur_secs 1 \<le> ni_lifetime ex_impersonation"
    "0 < as_i64 (absolute_timeout_secs default_session_policy)"
    "0 < as_i64 (idle_timeout_secs default_session_policy)"
    by (simp_all add: ex_impersonation_def default_session_policy_def as_i64_def)
  have new: "7 \<notin> live_ids 0 1 (ni_user ex_impersonation) (ex_state [])"
    by (simp add: live_ids_members members_def ex_state_def)
  show ?thesis
    using impersonated_session_counts_against_cap [OF ex_state_wf life new prod.collapse [symmetric]]
    by (simp add: ex_impersonation_def)
qed

definition ex_signed_in :: auth_state where
  "ex_signed_in = (ex_state [ex_row, ex_row\<lparr>rt_id := 12, rt_hash := ''#rt_s'', rt_family := 8,
     rt_session := Some 50\<rparr>])\<lparr>sess_rows := [\<lparr>sr_session = ex_sso, sr_reason = None, sr_revoked_at = None\<rparr>]\<rparr>"

theorem sign_out_ends_tokens_witness:
  "\<exists>live w1 i w3. revoke_session None 5 5 1 50 ex_signed_in = (live, w1) \<and>
     redeem ex_sha (\<lambda>_. None) 6 6 6 ex_fresh 1 ''app'' ''rt_a'' ex_proof [] None True w1 = (Inr i, w3) \<and>
     rt_family (is_record i) \<noteq> 8"
proof -
  obtain live w1 where out: "revoke_session None 5 5 1 50 ex_signed_in = (live, w1)" by fastforce
  then have w1: "w1 = snd (revoke_session None 5 5 1 50 ex_signed_in)" by simp
  have rows: "rt_rows w1 = [ex_row, ex_row\<lparr>rt_id := 12, rt_hash := ''#rt_s'', rt_family := 8,
     rt_session := Some 50, rt_revoked_at := Some 5\<rparr>]"
    unfolding w1 rt_rows_revoke_session
    by (simp add: ex_signed_in_def ex_state_def revoked_rows_def ex_row_def)
  have "\<exists>i w3. redeem ex_sha (\<lambda>_. None) 6 6 6 ex_fresh 1 ''app'' ''rt_a'' ex_proof [] None True w1
      = (Inr i, w3)"
    by (simp add: redeem_def repo_find_by_hash_def rows ex_defs starts_with_def token_prefix_def
        redeem_checks_def bound_elsewhere_def session_ended_def insert_in_def repo_insert_def
        random_token_def repo_mark_consumed_def Let_def)
  then obtain i w3 where red: "redeem ex_sha (\<lambda>_. None) 6 6 6 ex_fresh 1 ''app'' ''rt_a'' ex_proof []
      None True w1 = (Inr i, w3)" by blast
  have inv: "rt_inv ex_signed_in"
    by (simp add: ex_signed_in_def ex_state_def ex_row_def rows_ok_def families_ok_def row_key_def
        same_family_def)
  have "rt_family (is_record i) \<noteq> rt_family (ex_row\<lparr>rt_id := 12, rt_hash := ''#rt_s'', rt_family := 8,
     rt_session := Some 50\<rparr>)"
    using sign_out_ends_tokens [OF inv _ _ _ _ out rtranclp.rtrancl_refl red, of
        "ex_row\<lparr>rt_id := 12, rt_hash := ''#rt_s'', rt_family := 8, rt_session := Some 50\<rparr>"]
    by (simp add: ex_signed_in_def ex_state_def ex_row_def row_of_def ex_sso_def)
  with out red show ?thesis by auto
qed

end
