(* ===== verification/Polled_Grants.thy ===== *)
theory Polled_Grants
  imports Session_Store
begin

text \<open>
  What the device grant and the backchannel grant have in common: a pending request in
  the key-value store that the user decides and that the client collects by polling.
  The interface states what one poll promises; that an approval is handed out at most
  once, and that a spent request stays spent, follows from it.
\<close>

datatype 'a grant_status = Pending | Approved 'a | Denied

datatype ('r, 'a) poll =
    PollApproved 'r 'a
  | PollPending
  | PollSlowDown
  | PollDenied
  | PollExpired

fun is_poll_approved :: "('r, 'a) poll option \<Rightarrow> bool" where
  "is_poll_approved (Some (PollApproved r a)) = True"
| "is_poll_approved _ = False"

lemma is_poll_approved_iff: "is_poll_approved p \<longleftrightarrow> (\<exists>r a. p = Some (PollApproved r a))"
  by (cases p rule: is_poll_approved.cases) auto

text \<open>The stored entry under a key, by the commands that touch it.\<close>

lemma kv_get_gone [simp]: "m k = None \<Longrightarrow> kv_get now k m = None"
  by (simp add: kv_get_def kv_entry_def)

lemma kv_other_raw [simp]:
  "k \<noteq> k' \<Longrightarrow> kv_set_keepttl now k' v m k = m k"
  "k \<noteq> k' \<Longrightarrow> kv_set_ex now n k' v m k = m k"
  "kv_del k' m k = (if k = k' then None else m k)"
  by (simp_all add: kv_set_keepttl_def kv_set_ex_def kv_set_until_def kv_del_def)

text \<open>A client polling at the given instants, with what it is told each time.\<close>

fun poll_all :: "(instant \<Rightarrow> 's \<Rightarrow> 'p \<times> 's) \<Rightarrow> instant list \<Rightarrow> 's \<Rightarrow> 'p list \<times> 's" where
  "poll_all f [] s = ([], s)"
| "poll_all f (now # ts) s =
     (let (p, s1) = f now s; (ps, s2) = poll_all f ts s1 in (p # ps, s2))"

text \<open>
  One poll of a request: what the client is told and the state it leaves. \<open>gone\<close> says
  that nothing is stored for the request.
\<close>

locale polled_grant =
  fixes poll :: "instant \<Rightarrow> 'k \<Rightarrow> 's \<Rightarrow> ('r, 'a) poll option \<times> 's"
    and gone :: "'k \<Rightarrow> 's \<Rightarrow> bool"
  assumes poll_gone: "gone k s \<Longrightarrow> poll now k s = (None, s)"
    and poll_final: "poll now k s = (Some p, s') \<Longrightarrow> p \<noteq> PollPending \<Longrightarrow> p \<noteq> PollSlowDown \<Longrightarrow> gone k s'"
    and poll_other: "k' \<noteq> k \<Longrightarrow> gone k' s \<Longrightarrow> gone k' (snd (poll now k s))"
begin

lemma poll_all_gone: "gone k s \<Longrightarrow> poll_all (\<lambda>now. poll now k) ts s = (replicate (length ts) None, s)"
  by (induction ts) (simp_all add: poll_gone)

lemma poll_keeps_gone: "gone k s \<Longrightarrow> gone k (snd (poll now k' s))"
  by (cases "k = k'") (simp_all add: poll_gone poll_other)

lemma approved_at_most_once:
  "length (filter is_poll_approved (fst (poll_all (\<lambda>now. poll now k) ts s))) \<le> 1"
proof (induction ts arbitrary: s)
  case (Cons now ts)
  obtain p s1 where p: "poll now k s = (p, s1)" by fastforce
  show ?case
  proof (cases "is_poll_approved p")
    case True
    then have "gone k s1" using p poll_final by (auto simp: is_poll_approved_iff)
    then show ?thesis using p True by (simp add: case_prod_beta poll_all_gone)
  next
    case False
    then show ?thesis using p Cons.IH [of s1] by (simp add: case_prod_beta)
  qed
qed simp

end

end
