(* ===== verification/Device_Codes.thy ===== *)
theory Device_Codes
  imports Polled_Grants
begin

text \<open>
  The device authorization grant (\<open>api/src/services/device_codes.rs\<close>,
  \<open>api/src/repos/device_codes.rs\<close>): the pending record under the hash of the device
  code, the user code that points at it, the guess counter of an address and the audit
  rows. The hash (base64url of SHA-256) is the parameter \<open>hash\<close>; random device and
  user codes are arguments.
\<close>

section \<open>Data\<close>

definition DEVICE_CODE_TTL_SECS :: nat where "DEVICE_CODE_TTL_SECS = 10 * 60"
definition INTERVAL_SECS :: nat where "INTERVAL_SECS = 5"
definition SLOW_DOWN_STEP_SECS :: nat where "SLOW_DOWN_STEP_SECS = 5"
definition USER_CODE_ALPHABET :: string where "USER_CODE_ALPHABET = ''BCDFGHJKLMNPQRSTVWXZ''"
definition USER_CODE_LEN :: nat where "USER_CODE_LEN = 8"
definition GUESS_LIMIT :: int where "GUESS_LIMIT = 10"
definition GUESS_WINDOW_SECS :: nat where "GUESS_WINDOW_SECS = 10 * 60"

record approval =
  ap_user :: uuid
  ap_session :: uuid
  ap_auth_time :: instant
  ap_amr :: "string list"
  ap_acr :: "string option"
  ap_org :: "uuid option"
  ap_acting :: "(json \<times> instant) option"
  ap_scopes :: "string list"

record device_record =
  dr_id :: uuid
  dr_tenant :: uuid
  dr_client :: uuid
  dr_client_public_id :: string
  dr_scopes :: "string list"
  dr_audiences :: "string list"
  dr_user_code :: string
  dr_interval_secs :: nat
  dr_issued_at :: instant
  dr_expires_at :: instant
  dr_status :: "approval grant_status"
  dr_last_poll_at :: "instant option"

record device_row =
  dw_id :: uuid
  dw_tenant :: uuid
  dw_client :: uuid
  dw_user_code :: string
  dw_scopes :: "string list"
  dw_status :: string
  dw_user :: "uuid option"
  dw_decided_at :: "instant option"
  dw_consumed_at :: "instant option"

record device_state =
  dev_kv :: "(uuid \<times> string, device_record) kv"
  code_kv :: "(uuid \<times> string, string) kv"
  guess_kv :: "(uuid \<times> string, int) kv"
  dev_rows :: "device_row list"

record device_client =
  dc_id :: uuid
  dc_client_id :: string

section \<open>Operations\<close>

definition dr_is_expired :: "device_record \<Rightarrow> instant \<Rightarrow> bool" where
  "dr_is_expired r now = (dr_expires_at r \<le> now)"

definition with_dash :: "string \<Rightarrow> string" where
  "with_dash letters = take 4 letters @ ''-'' @ drop 4 letters"

text \<open>The letters are drawn by index; \<open>random_below\<close> is below the alphabet's length.\<close>

definition random_user_code :: "nat list \<Rightarrow> string" where
  "random_user_code draws =
     with_dash (map (\<lambda>d. USER_CODE_ALPHABET ! (d mod length USER_CODE_ALPHABET))
       (take USER_CODE_LEN draws))"

definition normalize_user_code :: "string \<Rightarrow> string option" where
  "normalize_user_code raw =
     (let letters = map to_ascii_uppercase (filter ascii_alnum raw)
      in if length letters \<noteq> USER_CODE_LEN
            \<or> \<not> list_all (\<lambda>b. b \<in> set USER_CODE_ALPHABET) letters
         then None else Some (with_dash letters))"

definition repo_insert_device ::
  "uuid \<Rightarrow> uuid \<Rightarrow> uuid \<Rightarrow> string \<Rightarrow> string list \<Rightarrow> device_row list \<Rightarrow> device_row list" where
  "repo_insert_device t i c code scopes rows = rows @ [\<lparr>dw_id = i, dw_tenant = t, dw_client = c,
     dw_user_code = code, dw_scopes = scopes, dw_status = ''pending'', dw_user = None,
     dw_decided_at = None, dw_consumed_at = None\<rparr>]"

definition repo_decide_device ::
  "instant \<Rightarrow> uuid \<Rightarrow> uuid \<Rightarrow> string \<Rightarrow> uuid option \<Rightarrow> device_row list \<Rightarrow> device_row list" where
  "repo_decide_device dbnow t i status u rows =
     update_where (\<lambda>r. dw_tenant r = t \<and> dw_id r = i \<and> dw_status r = ''pending'')
       (\<lambda>r. r\<lparr>dw_status := status, dw_user := u, dw_decided_at := Some dbnow\<rparr>) rows"

definition repo_consume_device ::
  "instant \<Rightarrow> uuid \<Rightarrow> uuid \<Rightarrow> device_row list \<Rightarrow> device_row list" where
  "repo_consume_device dbnow t i rows =
     update_where (\<lambda>r. dw_tenant r = t \<and> dw_id r = i \<and> dw_status r = ''approved'')
       (\<lambda>r. r\<lparr>dw_status := ''consumed'', dw_consumed_at := Some dbnow\<rparr>) rows"

text \<open>
  The claim of a user code: \<open>SET NX\<close> for up to eight codes in turn; after each failure
  another code is drawn, and after the eighth the code drawn last is used as it is.
\<close>

fun claim_user_code ::
  "nat \<Rightarrow> instant \<Rightarrow> uuid \<Rightarrow> string \<Rightarrow> (nat \<Rightarrow> string) \<Rightarrow> nat \<Rightarrow> (uuid \<times> string, string) kv
     \<Rightarrow> string \<times> (uuid \<times> string, string) kv" where
  "claim_user_code 0 now t h draw i m = (draw i, m)"
| "claim_user_code (Suc tries) now t h draw i m =
     (let (claimed, m') = kv_set_nx_ex now DEVICE_CODE_TTL_SECS (t, draw i) h m
      in if claimed then (draw i, m') else claim_user_code tries now t h draw (Suc i) m')"

definition issue_device ::
  "(string \<Rightarrow> string) \<Rightarrow> instant \<Rightarrow> string \<Rightarrow> (nat \<Rightarrow> string) \<Rightarrow> uuid \<Rightarrow> uuid \<Rightarrow> device_client
     \<Rightarrow> string list \<Rightarrow> string list \<Rightarrow> device_state \<Rightarrow> (string \<times> string \<times> nat \<times> nat) \<times> device_state" where
  "issue_device hash now device_code draw row_id t client scopes audiences st =
     (let h = hash device_code;
          (user_code, codes) = claim_user_code 8 now t h draw 0 (code_kv st);
          rec = \<lparr>dr_id = row_id, dr_tenant = t, dr_client = dc_id client,
                 dr_client_public_id = dc_client_id client, dr_scopes = scopes,
                 dr_audiences = audiences, dr_user_code = user_code,
                 dr_interval_secs = INTERVAL_SECS, dr_issued_at = now,
                 dr_expires_at = now + dur_secs (int DEVICE_CODE_TTL_SECS),
                 dr_status = Pending, dr_last_poll_at = None\<rparr>
      in ((device_code, user_code, DEVICE_CODE_TTL_SECS, INTERVAL_SECS),
          st\<lparr>code_kv := codes,
             dev_kv := kv_set_ex now DEVICE_CODE_TTL_SECS (t, h) rec (dev_kv st),
             dev_rows := repo_insert_device t row_id (dc_id client) user_code scopes (dev_rows st)\<rparr>))"

definition find_by_user_code ::
  "instant \<Rightarrow> uuid \<Rightarrow> string \<Rightarrow> string option \<Rightarrow> device_state
     \<Rightarrow> (app_error + (string \<times> device_record) option) \<times> device_state" where
  "find_by_user_code now t raw ip st =
     (let k = (t, case ip of None \<Rightarrow> ''unknown'' | Some a \<Rightarrow> a);
          guesses = (case kv_get now k (guess_kv st) of None \<Rightarrow> 0 | Some n \<Rightarrow> n) + 1;
          kept = kv_set_keepttl now k guesses (guess_kv st);
          st' = st\<lparr>guess_kv := (if guesses = 1
                     then kv_set_ex now GUESS_WINDOW_SECS k guesses (guess_kv st) else kept)\<rparr>
      in if GUESS_LIMIT < guesses then (Inl (RateLimited GUESS_WINDOW_SECS), st')
         else (Inr (case normalize_user_code raw of
                 None \<Rightarrow> None
               | Some code \<Rightarrow>
                   (case kv_get now (t, code) (code_kv st) of
                      None \<Rightarrow> None
                    | Some h \<Rightarrow>
                        (case kv_get now (t, h) (dev_kv st) of
                           None \<Rightarrow> None
                         | Some r \<Rightarrow> if dr_status r = Pending \<and> \<not> dr_is_expired r now
                                     then Some (h, r) else None))), st'))"

definition approve_device ::
  "instant \<Rightarrow> instant \<Rightarrow> uuid \<Rightarrow> string \<Rightarrow> sso_session \<Rightarrow> (json \<times> instant) option \<Rightarrow> string list
     \<Rightarrow> device_state \<Rightarrow> (app_error + device_record) \<times> device_state" where
  "approve_device now dbnow t h session acting scopes st =
     (case kv_get now (t, h) (dev_kv st) of
        None \<Rightarrow> (Inl (NotFound ''device code''), st)
      | Some r \<Rightarrow>
          if dr_status r = Pending \<and> \<not> dr_is_expired r now then
            (let r' = r\<lparr>dr_status := Approved \<lparr>ap_user = ss_user session, ap_session = ss_id session,
                        ap_auth_time = ss_auth_time session, ap_amr = ss_amr session,
                        ap_acr = ss_acr session, ap_org = ss_org session, ap_acting = acting,
                        ap_scopes = scopes\<rparr>\<rparr>
             in (Inr r', st\<lparr>dev_kv := kv_set_keepttl now (t, h) r' (dev_kv st),
                   dev_rows := repo_decide_device dbnow t (dr_id r) ''approved''
                     (Some (ss_user session)) (dev_rows st)\<rparr>))
          else (Inl (NotFound ''device code''), st))"

definition deny_device ::
  "instant \<Rightarrow> instant \<Rightarrow> uuid \<Rightarrow> string \<Rightarrow> device_state \<Rightarrow> device_state" where
  "deny_device now dbnow t h st =
     (case kv_get now (t, h) (dev_kv st) of
        None \<Rightarrow> st
      | Some r \<Rightarrow>
          if dr_status r = Pending then
            st\<lparr>dev_kv := kv_set_keepttl now (t, h) (r\<lparr>dr_status := Denied\<rparr>) (dev_kv st),
               dev_rows := repo_decide_device dbnow t (dr_id r) ''denied'' None (dev_rows st)\<rparr>
          else st)"

text \<open>
  A poll loads the record and then acts on the copy it loaded; \<open>poll_loaded\<close> is what it
  does after the load, on a store that may have changed since.
\<close>

definition too_soon :: "instant \<Rightarrow> instant option \<Rightarrow> nat \<Rightarrow> bool" where
  "too_soon now prev interval =
     (case prev of None \<Rightarrow> False | Some l \<Rightarrow> num_seconds (now - l) < as_i64 interval)"

definition poll_loaded ::
  "instant \<Rightarrow> instant \<Rightarrow> uuid \<Rightarrow> string \<Rightarrow> device_record \<Rightarrow> device_state
     \<Rightarrow> (device_record, approval) poll option \<times> device_state" where
  "poll_loaded now dbnow t h r st =
     (if dr_is_expired r now then
        (Some PollExpired, st\<lparr>dev_kv := kv_del (t, h) (dev_kv st),
           code_kv := kv_del (t, dr_user_code r) (code_kv st)\<rparr>)
      else if too_soon now (dr_last_poll_at r) (dr_interval_secs r) then
        (Some PollSlowDown, st\<lparr>dev_kv := kv_set_keepttl now (t, h)
           (r\<lparr>dr_interval_secs := dr_interval_secs r + SLOW_DOWN_STEP_SECS,
              dr_last_poll_at := Some now\<rparr>) (dev_kv st)\<rparr>)
      else case dr_status r of
        Pending \<Rightarrow>
          (Some PollPending, st\<lparr>dev_kv := kv_set_keepttl now (t, h)
             (r\<lparr>dr_last_poll_at := Some now\<rparr>) (dev_kv st)\<rparr>)
      | Denied \<Rightarrow>
          (Some PollDenied, st\<lparr>dev_kv := kv_del (t, h) (dev_kv st),
             code_kv := kv_del (t, dr_user_code r) (code_kv st)\<rparr>)
      | Approved a \<Rightarrow>
          (let (taken, kv') = kv_getdel now (t, h) (dev_kv st)
           in if taken = None then (None, st\<lparr>dev_kv := kv'\<rparr>)
              else (Some (PollApproved r a), st\<lparr>dev_kv := kv',
                      code_kv := kv_del (t, dr_user_code r) (code_kv st),
                      dev_rows := repo_consume_device dbnow t (dr_id r) (dev_rows st)\<rparr>)))"

definition poll_load ::
  "(string \<Rightarrow> string) \<Rightarrow> instant \<Rightarrow> uuid \<Rightarrow> uuid \<Rightarrow> string \<Rightarrow> device_state \<Rightarrow> device_record option" where
  "poll_load hash now t client device_code st =
     (if device_code = [] \<or> 128 < length device_code then None
      else case kv_get now (t, hash device_code) (dev_kv st) of
        None \<Rightarrow> None
      | Some r \<Rightarrow> if dr_client r \<noteq> client then None else Some r)"

definition poll_device ::
  "(string \<Rightarrow> string) \<Rightarrow> instant \<Rightarrow> instant \<Rightarrow> uuid \<Rightarrow> uuid \<Rightarrow> string \<Rightarrow> device_state
     \<Rightarrow> (device_record, approval) poll option \<times> device_state" where
  "poll_device hash now dbnow t client device_code st =
     (case poll_load hash now t client device_code st of
        None \<Rightarrow> (None, st)
      | Some r \<Rightarrow> poll_loaded now dbnow t (hash device_code) r st)"

section \<open>The record under its key\<close>

abbreviation gone :: "uuid \<times> string \<Rightarrow> device_state \<Rightarrow> bool" where
  "gone k st \<equiv> dev_kv st k = None"

lemma poll_loaded_gone:
  assumes "poll_loaded now dbnow t h r st = (Some p, st')" "p \<noteq> PollPending" "p \<noteq> PollSlowDown"
  shows "gone (t, h) st'"
  using assms
  by (auto simp: poll_loaded_def kv_getdel_def Let_def split: if_splits grant_status.splits)

lemma poll_loaded_other: "k \<noteq> (t, h) \<Longrightarrow> dev_kv (snd (poll_loaded now dbnow t h r st)) k = dev_kv st k"
  by (simp add: poll_loaded_def kv_getdel_def Let_def split: grant_status.split)

lemma poll_load_Some_iff:
  "poll_load hash now t client code st = Some r \<longleftrightarrow>
   code \<noteq> [] \<and> length code \<le> 128 \<and> kv_get now (t, hash code) (dev_kv st) = Some r \<and>
   dr_client r = client"
  by (auto simp: poll_load_def split: option.splits)

lemma poll_loaded_approved_iff:
  assumes "kv_get now (t, h) (dev_kv st) = Some r0"
  shows "poll_loaded now dbnow t h r0 st = (Some (PollApproved r a), st') \<longleftrightarrow>
   r = r0 \<and> now < dr_expires_at r \<and> dr_status r = Approved a \<and>
   \<not> too_soon now (dr_last_poll_at r) (dr_interval_secs r) \<and>
   st' = st\<lparr>dev_kv := kv_del (t, h) (dev_kv st),
            code_kv := kv_del (t, dr_user_code r) (code_kv st),
            dev_rows := repo_consume_device dbnow t (dr_id r) (dev_rows st)\<rparr>"
proof (cases "dr_is_expired r0 now \<or> too_soon now (dr_last_poll_at r0) (dr_interval_secs r0)")
  case True
  then show ?thesis by (auto simp: poll_loaded_def dr_is_expired_def)
next
  case False
  then show ?thesis
    using assms
    by (cases "dr_status r0")
       (auto simp: poll_loaded_def dr_is_expired_def kv_getdel_def Let_def)
qed

text \<open>A client polling its own code; \<open>dbnow\<close> is taken from the same clock.\<close>

interpretation device: polled_grant
  "\<lambda>now code. poll_device hash now now t client code"
  "\<lambda>code. gone (t, hash code)" for hash t client
proof
  fix code st now
  show "gone (t, hash code) st \<Longrightarrow> poll_device hash now now t client code st = (None, st)"
    by (simp add: poll_device_def poll_load_def)
next
  fix code st now p st'
  show "poll_device hash now now t client code st = (Some p, st') \<Longrightarrow> p \<noteq> PollPending \<Longrightarrow>
      p \<noteq> PollSlowDown \<Longrightarrow> gone (t, hash code) st'"
    by (auto simp: poll_device_def dest: poll_loaded_gone split: option.splits)
next
  fix code code' st now
  assume "code' \<noteq> code" "gone (t, hash code') st"
  then show "gone (t, hash code') (snd (poll_device hash now now t client code st))"
    by (cases "hash code' = hash code")
       (auto simp: poll_device_def poll_load_def poll_loaded_other split: option.split)
qed

section \<open>Properties\<close>

text \<open>
  A device code is spent once: however often the client polls, it is told
  \<open>approved\<close> at most once.
\<close>

theorem device_approval_handed_out_once:
  "length (filter is_poll_approved
     (fst (poll_all (\<lambda>now. poll_device hash now now t client code) ts st))) \<le> 1"
  by (rule device.approved_at_most_once)

text \<open>
  When a poll hands out tokens, the stored request was this client's, unexpired,
  approved by the user with exactly the approval handed over, and not polled too soon;
  afterwards the code and its user code are gone and the audit row is consumed.
\<close>

theorem device_poll_approved_iff:
  "poll_device hash now dbnow t client code st = (Some (PollApproved r a), st') \<longleftrightarrow>
   code \<noteq> [] \<and> length code \<le> 128 \<and> kv_get now (t, hash code) (dev_kv st) = Some r \<and>
   dr_client r = client \<and> now < dr_expires_at r \<and> dr_status r = Approved a \<and>
   \<not> too_soon now (dr_last_poll_at r) (dr_interval_secs r) \<and>
   st' = st\<lparr>dev_kv := kv_del (t, hash code) (dev_kv st),
            code_kv := kv_del (t, dr_user_code r) (code_kv st),
            dev_rows := repo_consume_device dbnow t (dr_id r) (dev_rows st)\<rparr>"
proof (cases "poll_load hash now t client code st")
  case None
  then have "\<not> (code \<noteq> [] \<and> length code \<le> 128 \<and> kv_get now (t, hash code) (dev_kv st) = Some r \<and>
      dr_client r = client)"
    using poll_load_Some_iff [of hash now t client code st r] by simp
  then show ?thesis using None by (auto simp: poll_device_def)
next
  case (Some r0)
  then have r0: "kv_get now (t, hash code) (dev_kv st) = Some r0"
    by (simp add: poll_load_Some_iff)
  from Some have "poll_device hash now dbnow t client code st = (Some (PollApproved r a), st') \<longleftrightarrow>
      poll_loaded now dbnow t (hash code) r0 st = (Some (PollApproved r a), st')"
    by (simp add: poll_device_def)
  also have "\<dots> \<longleftrightarrow> r = r0 \<and> now < dr_expires_at r \<and> dr_status r = Approved a \<and>
      \<not> too_soon now (dr_last_poll_at r) (dr_interval_secs r) \<and>
      st' = st\<lparr>dev_kv := kv_del (t, hash code) (dev_kv st),
            code_kv := kv_del (t, dr_user_code r) (code_kv st),
            dev_rows := repo_consume_device dbnow t (dr_id r) (dev_rows st)\<rparr>"
    by (rule poll_loaded_approved_iff [OF r0])
  finally show ?thesis using Some by (auto simp: poll_load_Some_iff)
qed

text \<open>User codes: what is generated is its own normal form.\<close>

lemma alphabet_upper:
  "c \<in> set USER_CODE_ALPHABET \<Longrightarrow> ascii_alnum c \<and> to_ascii_uppercase c = c"
  by (auto simp: USER_CODE_ALPHABET_def ascii_defs to_ascii_uppercase_def)

lemma alphabet_draw: "d mod length USER_CODE_ALPHABET < length USER_CODE_ALPHABET"
  by (rule mod_less_divisor) (simp add: USER_CODE_ALPHABET_def)

lemma normalize_with_dash:
  assumes "set letters \<subseteq> set USER_CODE_ALPHABET" "length letters = USER_CODE_LEN"
  shows "normalize_user_code (with_dash letters) = Some (with_dash letters)"
proof -
  have up: "\<forall>c\<in>set letters. ascii_alnum c \<and> to_ascii_uppercase c = c"
    using assms(1) alphabet_upper by blast
  have "\<not> ascii_alnum (CHR ''-'')" by (simp add: ascii_defs)
  moreover have "filter ascii_alnum (take 4 letters) = take 4 letters"
    "filter ascii_alnum (drop 4 letters) = drop 4 letters"
    using up by (auto intro!: filter_True dest: in_set_takeD in_set_dropD)
  ultimately have "filter ascii_alnum (with_dash letters) = letters"
    unfolding with_dash_def filter_append by (simp add: append_take_drop_id)
  moreover have "map to_ascii_uppercase letters = letters" using up by (simp add: map_idI)
  ultimately show ?thesis
    using assms by (auto simp: normalize_user_code_def list_all_iff)
qed

text \<open>
  Every generated user code is accepted as typed back and normalises to itself, and
  normalising is idempotent: the user may type it in lower case, with or without the
  dash and with any other separators.
\<close>

theorem user_code_roundtrip:
  "(8 \<le> length draws \<longrightarrow> normalize_user_code (random_user_code draws) = Some (random_user_code draws)) \<and>
   (normalize_user_code raw = Some code \<longrightarrow> normalize_user_code code = Some code)"
proof (intro conjI impI)
  assume "8 \<le> length draws"
  then show "normalize_user_code (random_user_code draws) = Some (random_user_code draws)"
    unfolding random_user_code_def
    by (intro normalize_with_dash) (auto simp: USER_CODE_LEN_def intro!: nth_mem alphabet_draw)
next
  assume norm: "normalize_user_code raw = Some code"
  let ?letters = "map to_ascii_uppercase (filter ascii_alnum raw)"
  have "length ?letters = USER_CODE_LEN \<and> list_all (\<lambda>b. b \<in> set USER_CODE_ALPHABET) ?letters
      \<and> code = with_dash ?letters"
    using norm by (simp add: normalize_user_code_def Let_def split: if_splits)
  then show "normalize_user_code code = Some code"
    using normalize_with_dash [of ?letters] by (auto simp only: list_all_iff)
qed

theorem user_code_roundtrip_witness:
  "normalize_user_code (random_user_code [0,1,2,3,4,5,6,7]) = Some (random_user_code [0,1,2,3,4,5,6,7])"
  using user_code_roundtrip [of "[0,1,2,3,4,5,6,7]" "[]" "[]"] by simp

text \<open>
  The guess counter of an address: every call within the window of the first adds one.
\<close>

fun guess_all :: "uuid \<Rightarrow> string option \<Rightarrow> (instant \<times> string) list \<Rightarrow> device_state \<Rightarrow> device_state" where
  "guess_all t ip [] st = st"
| "guess_all t ip ((now, raw) # gs) st = guess_all t ip gs (snd (find_by_user_code now t raw ip st))"

abbreviation addr :: "string option \<Rightarrow> string" where
  "addr ip \<equiv> (case ip of None \<Rightarrow> ''unknown'' | Some a \<Rightarrow> a)"

lemma guess_count_step:
  assumes "guess_kv st (t, addr ip) = Some (n, Some d)" "now < d" "0 < n"
  shows "guess_kv (snd (find_by_user_code now t raw ip st)) (t, addr ip) = Some (n + 1, Some d)"
  using assms
  by (auto simp: find_by_user_code_def Let_def kv_get_def kv_entry_def kv_set_keepttl_def
      kv_set_until_def)

lemma guess_count_all:
  assumes "guess_kv st (t, addr ip) = Some (n, Some d)" "0 < n" "\<forall>(now, raw)\<in>set gs. now < d"
  shows "guess_kv (guess_all t ip gs st) (t, addr ip) = Some (n + int (length gs), Some d)"
  using assms
proof (induction gs arbitrary: n st)
  case (Cons g gs)
  obtain now raw where g: "g = (now, raw)" by fastforce
  have "guess_kv (snd (find_by_user_code now t raw ip st)) (t, addr ip) = Some (n + 1, Some d)"
    using Cons.prems g by (intro guess_count_step) auto
  from Cons.IH [OF this] Cons.prems g show ?case by (simp add: algebra_simps)
qed simp

text \<open>
  Guessing user codes: after ten calls from one address, whatever was typed, every
  further call within the window of the first is refused as rate limited and looks
  nothing up.
\<close>

theorem user_code_guesses_limited:
  assumes "kv_get t0 (t, addr ip) (guess_kv st) = None"
    and "10 \<le> length gs"
    and "\<forall>(now, raw)\<in>set (gs @ [(now', raw')]). now < t0 + dur_secs (int GUESS_WINDOW_SECS)"
  shows "fst (find_by_user_code now' t raw' ip
           (guess_all t ip gs (snd (find_by_user_code t0 t raw0 ip st))))
         = Inl (RateLimited GUESS_WINDOW_SECS)"
proof -
  let ?d = "t0 + dur_secs (int GUESS_WINDOW_SECS)"
  have "guess_kv (snd (find_by_user_code t0 t raw0 ip st)) (t, addr ip) = Some (1, Some ?d)"
    using assms(1) by (simp add: find_by_user_code_def Let_def kv_set_ex_def kv_set_until_def)
  from guess_count_all [OF this, of gs] assms(3)
  have "guess_kv (guess_all t ip gs (snd (find_by_user_code t0 t raw0 ip st))) (t, addr ip)
      = Some (1 + int (length gs), Some ?d)" by auto
  then show ?thesis
    using assms(2,3) by (simp add: find_by_user_code_def Let_def kv_get_def kv_entry_def GUESS_LIMIT_def)
qed

definition ex_device_state :: device_state where
  "ex_device_state = \<lparr>dev_kv = Map.empty, code_kv = Map.empty, guess_kv = Map.empty, dev_rows = []\<rparr>"

definition ex_device_record :: device_record where
  "ex_device_record = \<lparr>dr_id = 1, dr_tenant = 1, dr_client = 7, dr_client_public_id = ''tv'',
     dr_scopes = [''openid''], dr_audiences = [], dr_user_code = ''BCDF-GHJK'',
     dr_interval_secs = 5, dr_issued_at = 0, dr_expires_at = dur_secs 600,
     dr_status = Pending, dr_last_poll_at = None\<rparr>"

definition ex_approval :: approval where
  "ex_approval = \<lparr>ap_user = 3, ap_session = 4, ap_auth_time = 0, ap_amr = [''pwd''], ap_acr = None,
     ap_org = None, ap_acting = None, ap_scopes = [''openid'']\<rparr>"

definition ex_approved_record :: device_record where
  "ex_approved_record = ex_device_record\<lparr>dr_status := Approved ex_approval,
     dr_last_poll_at := Some 0\<rparr>"

definition ex_device_store :: "device_record \<Rightarrow> device_state" where
  "ex_device_store r = ex_device_state\<lparr>dev_kv := [(1, ''code'') \<mapsto> (r, Some (dur_secs 600))]\<rparr>"

definition ex_device_session :: sso_session where
  "ex_device_session = \<lparr>ss_id = 4, ss_tenant = 1, ss_user = 3, ss_auth_time = 0, ss_amr = [''pwd''],
     ss_acr = None, ss_ip = None, ss_user_agent = None, ss_device = None, ss_org = None,
     ss_impersonator = None, ss_created_at = 0, ss_last_seen_at = 0,
     ss_expires_at = dur_secs 3600, ss_idle_expires_at = dur_secs 3600\<rparr>"

lemmas ex_device_defs = ex_device_record_def ex_approval_def ex_approved_record_def
  ex_device_store_def ex_device_state_def

theorem user_code_guesses_limited_witness:
  "fst (find_by_user_code 11 1 ''x'' None (guess_all 1 None (map (\<lambda>i. (int i, ''x'')) [1..<11])
     (snd (find_by_user_code 0 1 ''x'' None ex_device_state)))) = Inl (RateLimited GUESS_WINDOW_SECS)"
  by (rule user_code_guesses_limited)
     (auto simp: ex_device_state_def GUESS_WINDOW_SECS_def dur_secs_def nanos_per_sec_def)

text \<open>
  A poll acts on the copy it loaded. An approval the user gives between the load and
  the write of a poll is lost: the poll writes the pending copy back, and the device is
  told to keep polling.
\<close>

theorem stale_poll_loses_approval:
  assumes load: "poll_load hash now t client code st = Some r"
    and r: "dr_status r = Pending" "\<not> dr_is_expired r now"
    and yes: "approve_device now' dbnow t (hash code) session acting scopes st = (Inr r', st1)"
    and order: "now \<le> now'"
  shows "\<exists>r2. fst (poll_loaded now dbnow' t (hash code) r st1) \<in> {Some PollPending, Some PollSlowDown} \<and>
    kv_get now (t, hash code) (dev_kv (snd (poll_loaded now dbnow' t (hash code) r st1))) = Some r2 \<and>
    dr_status r2 = Pending"
proof -
  let ?k = "(t, hash code)"
  from yes obtain r0 where "kv_get now' ?k (dev_kv st) = Some r0"
    and st1: "dev_kv st1 = kv_set_keepttl now' ?k r' (dev_kv st)"
    by (auto simp: approve_device_def Let_def split: option.splits if_splits)
  then have "kv_get now' ?k (dev_kv st1) = Some r'" by (simp add: kv_get_keepttl_same)
  then have "kv_get now ?k (dev_kv st1) \<noteq> None" using order kv_get_mono_time by fastforce
  then show ?thesis using r
    by (simp add: poll_loaded_def kv_get_keepttl_same)
qed

theorem stale_poll_loses_approval_witness:
  "\<exists>st1 r2. approve_device 2 2 1 ''code'' ex_device_session None [''openid'']
      (ex_device_store ex_device_record) = (Inr (ex_device_record\<lparr>dr_status := Approved ex_approval\<rparr>), st1) \<and>
    fst (poll_loaded 1 2 1 ''code'' ex_device_record st1) \<in> {Some PollPending, Some PollSlowDown} \<and>
    kv_get 1 (1, ''code'') (dev_kv (snd (poll_loaded 1 2 1 ''code'' ex_device_record st1))) = Some r2 \<and>
    dr_status r2 = Pending"
proof -
  let ?st = "ex_device_store ex_device_record"
  let ?r = "ex_device_record\<lparr>dr_status := Approved ex_approval\<rparr>"
  obtain st1 where yes: "approve_device 2 2 1 (id ''code'') ex_device_session None [''openid''] ?st
      = (Inr ?r, st1)"
    by (simp add: approve_device_def ex_device_defs ex_device_session_def kv_get_def kv_entry_def
        dr_is_expired_def dur_secs_def nanos_per_sec_def Let_def)
  have "poll_load id 1 1 7 ''code'' ?st = Some ex_device_record"
    by (simp add: poll_load_def ex_device_defs kv_get_def kv_entry_def dur_secs_def nanos_per_sec_def)
  from stale_poll_loses_approval [OF this _ _ yes] yes show ?thesis
    by (simp add: ex_device_defs dr_is_expired_def dur_secs_def nanos_per_sec_def)
qed

text \<open>
  And a poll that was told to slow down can bring a spent code back: if it loaded the
  approved record before another poll took it, its write restores the record, without
  a deadline in the store, and a later poll is handed the same approval again.
\<close>

theorem stale_slow_down_restores_spent_code:
  assumes loadA: "poll_load hash a t client code st = Some r"
    and r: "dr_status r = Approved ap" "too_soon a (dr_last_poll_at r) (dr_interval_secs r)"
      "\<not> dr_is_expired r a"
    and taken: "poll_device hash b dbnow t client code st = (Some (PollApproved r ap), st1)"
    and later: "c < dr_expires_at r" "\<not> too_soon c (Some a) (dr_interval_secs r + SLOW_DOWN_STEP_SECS)"
  shows "\<exists>r2. fst (poll_device hash c dbnow' t client code
            (snd (poll_loaded a dbnow'' t (hash code) r st1))) = Some (PollApproved r2 ap)"
proof -
  have code: "code \<noteq> []" "length code \<le> 128" "dr_client r = client"
    using loadA by (auto simp: poll_load_def split: if_splits option.splits)
  have "dev_kv st1 (t, hash code) = None"
    using taken by (auto simp: poll_device_def dest: poll_loaded_gone split: option.splits)
  then have "dev_kv (snd (poll_loaded a dbnow'' t (hash code) r st1)) (t, hash code)
      = Some (r\<lparr>dr_interval_secs := dr_interval_secs r + SLOW_DOWN_STEP_SECS,
                dr_last_poll_at := Some a\<rparr>, None)"
    using r by (simp add: poll_loaded_def kv_set_keepttl_def kv_entry_def kv_set_until_def)
  then show ?thesis
    using code r(1) later
    by (simp add: poll_device_def poll_load_def poll_loaded_def kv_get_def kv_entry_def
        dr_is_expired_def kv_getdel_def Let_def)
qed

theorem stale_slow_down_restores_spent_code_witness:
  "\<exists>st1 r2. poll_device id (dur_secs 5) 0 1 7 ''code'' (ex_device_store ex_approved_record)
      = (Some (PollApproved ex_approved_record ex_approval), st1) \<and>
    fst (poll_device id (dur_secs 14) 0 1 7 ''code''
      (snd (poll_loaded (dur_secs 4) 0 1 ''code'' ex_approved_record st1)))
    = Some (PollApproved r2 ex_approval)"
proof -
  let ?st = "ex_device_store ex_approved_record"
  have load: "poll_load id (dur_secs 4) 1 7 ''code'' ?st = Some ex_approved_record"
    by (simp add: poll_load_def ex_device_defs kv_get_def kv_entry_def)
  have soon: "too_soon (dur_secs 4) (dr_last_poll_at ex_approved_record)
      (dr_interval_secs ex_approved_record)" "\<not> dr_is_expired ex_approved_record (dur_secs 4)"
    "dr_status ex_approved_record = Approved ex_approval"
    by (simp_all add: too_soon_def ex_device_defs as_i64_small dr_is_expired_def)
  have later: "dur_secs 14 < dr_expires_at ex_approved_record"
    "\<not> too_soon (dur_secs 14) (Some (dur_secs 4))
       (dr_interval_secs ex_approved_record + SLOW_DOWN_STEP_SECS)"
    by (simp_all add: too_soon_def ex_device_defs as_i64_small SLOW_DOWN_STEP_SECS_def
        num_seconds_less_iff) (simp add: dur_secs_def nanos_per_sec_def)
  obtain st1 where taken: "poll_device id (dur_secs 5) 0 1 7 ''code'' ?st
      = (Some (PollApproved ex_approved_record ex_approval), st1)"
    by (simp add: poll_device_def poll_load_def poll_loaded_def ex_device_defs kv_get_def kv_entry_def
        dr_is_expired_def too_soon_def as_i64_small kv_getdel_def Let_def)
  from stale_slow_down_restores_spent_code [OF load soon(3,1,2) taken later, of 0 0] taken
  show ?thesis by auto
qed

end
