(* ===== verification/Signing_Keys.thy ===== *)
theory Signing_Keys
  imports Json
begin

text \<open>
  The tenant's signing keys (\<open>api/src/services/keys.rs\<close>, \<open>api/src/repos/signing_keys.rs\<close>,
  \<open>api/src/models/signing_key.rs\<close>): generation, the life of a key (pending, active,
  retiring, revoked), rotation, the first key of an algorithm and housekeeping. The table
  carries the partial unique index of one active key per tenant and algorithm
  (\<open>api/migrations/20260917180540\<close>). Key material comes from the crypto library and the
  encrypted private half from the key custody; both are arguments. The per-node caches
  hang off a version that every change replaces and are not modelled.
\<close>

section \<open>Data\<close>

datatype signing_alg = RS256 | RS384 | RS512 | ES256 | EdDSA

fun alg_as_str :: "signing_alg \<Rightarrow> string" where
  "alg_as_str RS256 = ''RS256''"
| "alg_as_str RS384 = ''RS384''"
| "alg_as_str RS512 = ''RS512''"
| "alg_as_str ES256 = ''ES256''"
| "alg_as_str EdDSA = ''EdDSA''"

definition all_algs :: "signing_alg list" where
  "all_algs = [RS256, RS384, RS512, ES256, EdDSA]"

fun alg_kty :: "signing_alg \<Rightarrow> string" where
  "alg_kty RS256 = ''RSA''"
| "alg_kty RS384 = ''RSA''"
| "alg_kty RS512 = ''RSA''"
| "alg_kty ES256 = ''EC''"
| "alg_kty EdDSA = ''OKP''"

definition eq_ignore_ascii_case :: "string \<Rightarrow> string \<Rightarrow> bool" where
  "eq_ignore_ascii_case a b = (map to_ascii_lowercase a = map to_ascii_lowercase b)"

definition parse_alg :: "string \<Rightarrow> signing_alg option" where
  "parse_alg s = find (\<lambda>a. eq_ignore_ascii_case (alg_as_str a) s) all_algs"

datatype key_status = KPending | KActive | KRetiring | KRevoked

fun is_published :: "key_status \<Rightarrow> bool" where
  "is_published KRevoked = False"
| "is_published _ = True"

record signing_key =
  sk_id :: uuid
  sk_tenant :: uuid
  sk_kid :: string
  sk_alg :: signing_alg
  sk_public_jwk :: json
  sk_private_enc :: string
  sk_status :: key_status
  sk_not_before :: instant
  sk_expires_at :: "instant option"
  sk_created_at :: instant

record key_policy =
  kp_default_alg :: signing_alg
  kp_rotation_interval_days :: nat
  kp_retire_overlap_hours :: nat

definition default_key_policy :: key_policy where
  "default_key_policy = \<lparr>kp_default_alg = RS256, kp_rotation_interval_days = 90,
     kp_retire_overlap_hours = 24\<rparr>"

datatype key_event =
    SigningKeyCreated uuid uuid string signing_alg
  | SigningKeyStatusChanged uuid uuid string key_status

record key_state =
  key_rows :: "signing_key list"
  key_events :: "key_event list"

section \<open>Key material\<close>

text \<open>RFC 7638: the required members in order, as text without white space.\<close>

definition thumbprint_members :: "string \<Rightarrow> string list option" where
  "thumbprint_members kty =
     (if kty = ''RSA'' then Some [''e'', ''kty'', ''n'']
      else if kty = ''EC'' then Some [''crv'', ''kty'', ''x'', ''y'']
      else if kty = ''OKP'' then Some [''crv'', ''kty'', ''x'']
      else None)"

definition quoted :: "string \<Rightarrow> string" where
  "quoted s = [CHR 0x22] @ s @ [CHR 0x22]"

fun canonical_members :: "json \<Rightarrow> string list \<Rightarrow> app_error + string list" where
  "canonical_members jwk [] = Inr []"
| "canonical_members jwk (k # ks) =
     (case as_str (json_index jwk k) of
        None \<Rightarrow> Inl (BadRequest (''jwk missing `'' @ k @ ''`''))
      | Some v \<Rightarrow>
          (case canonical_members jwk ks of
             Inl e \<Rightarrow> Inl e
           | Inr rest \<Rightarrow> Inr ((quoted k @ '':'' @ quoted v) # rest)))"

definition thumbprint :: "(string \<Rightarrow> string) \<Rightarrow> json \<Rightarrow> app_error + string" where
  "thumbprint hash jwk =
     (let kty = (case as_str (json_index jwk ''kty'') of None \<Rightarrow> [] | Some s \<Rightarrow> s)
      in case thumbprint_members kty of
           None \<Rightarrow> Inl (BadRequest (''unsupported kty `'' @ kty @ ''`''))
         | Some ks \<Rightarrow>
             (case canonical_members jwk ks of
                Inl e \<Rightarrow> Inl e
              | Inr parts \<Rightarrow> Inr (hash (''{'' @ join '','' parts @ ''}''))))"

text \<open>
  What the crypto library hands back for each key type: the encoded public numbers, or
  nothing when generation fails.
\<close>

datatype public_numbers = RsaNumbers string string | EcPoint string string | EdPoint string

fun jwk_params :: "public_numbers \<Rightarrow> json" where
  "jwk_params (RsaNumbers n e) = JObj [(''kty'', JStr ''RSA''), (''n'', JStr n), (''e'', JStr e)]"
| "jwk_params (EcPoint x y) = JObj [(''kty'', JStr ''EC''), (''crv'', JStr ''P-256''),
     (''x'', JStr x), (''y'', JStr y)]"
| "jwk_params (EdPoint x) = JObj [(''kty'', JStr ''OKP''), (''crv'', JStr ''Ed25519''), (''x'', JStr x)]"

definition generate :: "(string \<Rightarrow> string) \<Rightarrow> signing_alg \<Rightarrow> public_numbers \<Rightarrow> app_error + (string \<times> json)" where
  "generate hash alg numbers =
     (case thumbprint hash (jwk_params numbers) of
        Inl e \<Rightarrow> Inl e
      | Inr kid \<Rightarrow>
          Inr (kid, json_set ''use'' (JStr ''sig'')
                 (json_set ''alg'' (JStr (alg_as_str alg))
                    (json_set ''kid'' (JStr kid) (jwk_params numbers)))))"

section \<open>The table\<close>

definition repo_find_key :: "uuid \<Rightarrow> uuid \<Rightarrow> signing_key list \<Rightarrow> signing_key option" where
  "repo_find_key t i rows = find (\<lambda>k. sk_tenant k = t \<and> sk_id k = i) rows"

definition newest_first :: "signing_key list \<Rightarrow> signing_key list" where
  "newest_first ks = rev (sort_key (\<lambda>k. (sk_created_at k, sk_id k)) ks)"

definition repo_list_keys :: "uuid \<Rightarrow> key_status option \<Rightarrow> signing_key list \<Rightarrow> signing_key list" where
  "repo_list_keys t s rows =
     newest_first (filter (\<lambda>k. sk_tenant k = t \<and> (s = None \<or> Some (sk_status k) = s)) rows)"

definition repo_list_published :: "uuid \<Rightarrow> signing_key list \<Rightarrow> signing_key list" where
  "repo_list_published t rows =
     newest_first (filter (\<lambda>k. sk_tenant k = t \<and> sk_status k \<in> {KPending, KActive, KRetiring}) rows)"

definition repo_find_active :: "instant \<Rightarrow> uuid \<Rightarrow> signing_alg \<Rightarrow> signing_key list \<Rightarrow> signing_key option" where
  "repo_find_active dbnow t alg rows =
     (case rev (sort_key (\<lambda>k. (sk_not_before k, sk_id k))
             (filter (\<lambda>k. sk_tenant k = t \<and> sk_alg k = alg \<and> sk_status k = KActive
                \<and> sk_not_before k \<le> dbnow) rows)) of
        [] \<Rightarrow> None
      | k # _ \<Rightarrow> Some k)"

text \<open>
  The primary key and the unique indexes over \<open>(tenant, kid)\<close> and, for active keys,
  \<open>(tenant, alg)\<close>: an insert that would break one is refused.
\<close>

definition repo_insert_key :: "signing_key \<Rightarrow> signing_key list \<Rightarrow> app_error + signing_key list" where
  "repo_insert_key k rows =
     (if \<exists>r\<in>set rows. sk_id r = sk_id k
           \<or> (sk_tenant r = sk_tenant k \<and> sk_kid r = sk_kid k)
           \<or> (sk_status k = KActive \<and> sk_status r = KActive \<and> sk_tenant r = sk_tenant k
               \<and> sk_alg r = sk_alg k)
      then Inl (Conflict ''already exists'') else Inr (rows @ [k]))"

definition repo_set_status ::
  "uuid \<Rightarrow> uuid \<Rightarrow> key_status \<Rightarrow> instant option \<Rightarrow> signing_key list \<Rightarrow> signing_key list" where
  "repo_set_status t i s e rows =
     update_where (\<lambda>k. sk_tenant k = t \<and> sk_id k = i)
       (\<lambda>k. k\<lparr>sk_status := s, sk_expires_at := (case e of None \<Rightarrow> sk_expires_at k | Some x \<Rightarrow> Some x)\<rparr>) rows"

section \<open>Operations\<close>

text \<open>Fresh inputs of \<open>create\<close>: the row id, the public numbers and the encrypted private half.\<close>

record key_material =
  km_id :: uuid
  km_numbers :: public_numbers
  km_private_enc :: string

definition new_key ::
  "instant \<Rightarrow> instant \<Rightarrow> key_material \<Rightarrow> uuid \<Rightarrow> signing_alg \<Rightarrow> key_status \<Rightarrow> instant option
     \<Rightarrow> string \<Rightarrow> json \<Rightarrow> signing_key" where
  "new_key now dbnow fresh t alg status not_before kid jwk =
     \<lparr>sk_id = km_id fresh, sk_tenant = t, sk_kid = kid, sk_alg = alg, sk_public_jwk = jwk,
      sk_private_enc = km_private_enc fresh, sk_status = status,
      sk_not_before = (case not_before of None \<Rightarrow> now | Some b \<Rightarrow> b),
      sk_expires_at = None, sk_created_at = dbnow\<rparr>"

definition create_key ::
  "(string \<Rightarrow> string) \<Rightarrow> instant \<Rightarrow> instant \<Rightarrow> key_material \<Rightarrow> uuid \<Rightarrow> signing_alg \<Rightarrow> key_status
     \<Rightarrow> instant option \<Rightarrow> key_state \<Rightarrow> (app_error + signing_key) \<times> key_state" where
  "create_key hash now dbnow fresh t alg status not_before st =
     (case generate hash alg (km_numbers fresh) of
        Inl e \<Rightarrow> (Inl e, st)
      | Inr (kid, jwk) \<Rightarrow>
          (let k = new_key now dbnow fresh t alg status not_before kid jwk
           in case repo_insert_key k (key_rows st) of
                Inl e \<Rightarrow> (Inl e, st)
              | Inr rows \<Rightarrow>
                  (Inr k, st\<lparr>key_rows := rows,
                     key_events := key_events st @ [SigningKeyCreated t (sk_id k) kid alg]\<rparr>)))"

definition overlap_end :: "instant \<Rightarrow> key_policy \<Rightarrow> instant" where
  "overlap_end now policy = now + dur_secs (int (kp_retire_overlap_hours policy) * 3600)"

definition publish_status :: "uuid \<Rightarrow> key_status \<Rightarrow> signing_key \<Rightarrow> key_state \<Rightarrow> key_state" where
  "publish_status t s k st =
     st\<lparr>key_events := key_events st @ [SigningKeyStatusChanged t (sk_id k) (sk_kid k) s]\<rparr>"

fun retire_each :: "uuid \<Rightarrow> instant \<Rightarrow> signing_key list \<Rightarrow> signing_key list \<Rightarrow> signing_key list" where
  "retire_each t until [] rows = rows"
| "retire_each t until (k # ks) rows =
     retire_each t until ks (repo_set_status t (sk_id k) KRetiring (Some until) rows)"

definition activate_key ::
  "instant \<Rightarrow> uuid \<Rightarrow> key_policy \<Rightarrow> uuid \<Rightarrow> key_state \<Rightarrow> (app_error + signing_key) \<times> key_state" where
  "activate_key now t policy i st =
     (case repo_find_key t i (key_rows st) of
        None \<Rightarrow> (Inl (NotFound ''signing key''), st)
      | Some key \<Rightarrow>
          if sk_status key = KRevoked then (Inl (BadRequest ''a revoked key cannot be activated''), st)
          else
            (let retired = filter (\<lambda>k. sk_id k \<noteq> i \<and> sk_alg k = sk_alg key)
                   (repo_list_keys t (Some KActive) (key_rows st));
                 rows = repo_set_status t i KActive None
                   (retire_each t (overlap_end now policy) retired (key_rows st))
             in case repo_find_key t i rows of
                  None \<Rightarrow> (Inl (NotFound ''signing key''), st)
                | Some k \<Rightarrow>
                    (Inr k, publish_status t KActive k
                       (fold (publish_status t KRetiring) retired (st\<lparr>key_rows := rows\<rparr>)))))"

definition retire_key ::
  "instant \<Rightarrow> uuid \<Rightarrow> key_policy \<Rightarrow> uuid \<Rightarrow> key_state \<Rightarrow> (app_error + signing_key) \<times> key_state" where
  "retire_key now t policy i st =
     (case repo_find_key t i (key_rows st) of
        None \<Rightarrow> (Inl (NotFound ''signing key''), st)
      | Some key \<Rightarrow>
          if sk_status key = KRevoked then (Inl (BadRequest ''key is already revoked''), st)
          else
            (let rows = repo_set_status t i KRetiring (Some (overlap_end now policy)) (key_rows st)
             in case repo_find_key t i rows of
                  None \<Rightarrow> (Inl (NotFound ''signing key''), st)
                | Some k \<Rightarrow> (Inr k, publish_status t KRetiring k (st\<lparr>key_rows := rows\<rparr>))))"

definition revoke_key ::
  "instant \<Rightarrow> uuid \<Rightarrow> uuid \<Rightarrow> key_state \<Rightarrow> (app_error + signing_key) \<times> key_state" where
  "revoke_key now t i st =
     (let rows = repo_set_status t i KRevoked (Some now) (key_rows st)
      in case repo_find_key t i rows of
           None \<Rightarrow> (Inl (NotFound ''signing key''), st)
         | Some k \<Rightarrow> (Inr k, publish_status t KRevoked k (st\<lparr>key_rows := rows\<rparr>)))"

definition rotate_alg ::
  "(string \<Rightarrow> string) \<Rightarrow> instant \<Rightarrow> instant \<Rightarrow> key_material \<Rightarrow> uuid \<Rightarrow> key_policy \<Rightarrow> signing_alg
     \<Rightarrow> key_state \<Rightarrow> (app_error + signing_key) \<times> key_state" where
  "rotate_alg hash now dbnow fresh t policy alg st =
     (case create_key hash now dbnow fresh t alg KPending None st of
        (Inl e, st1) \<Rightarrow> (Inl e, st1)
      | (Inr k, st1) \<Rightarrow> activate_key now t policy (sk_id k) st1)"

definition rotate_keys ::
  "(string \<Rightarrow> string) \<Rightarrow> instant \<Rightarrow> instant \<Rightarrow> key_material \<Rightarrow> uuid \<Rightarrow> key_policy
     \<Rightarrow> key_state \<Rightarrow> (app_error + signing_key) \<times> key_state" where
  "rotate_keys hash now dbnow fresh t policy st =
     rotate_alg hash now dbnow fresh t policy (kp_default_alg policy) st"

definition first_key ::
  "(string \<Rightarrow> string) \<Rightarrow> instant \<Rightarrow> instant \<Rightarrow> key_material \<Rightarrow> uuid \<Rightarrow> signing_alg
     \<Rightarrow> key_state \<Rightarrow> (app_error + signing_key) \<times> key_state" where
  "first_key hash now dbnow fresh t alg st =
     (case create_key hash now dbnow fresh t alg KActive None st of
        (Inr k, st1) \<Rightarrow> (Inr k, st1)
      | (Inl (Conflict c), st1) \<Rightarrow>
          (case repo_find_active dbnow t alg (key_rows st1) of
             Some k \<Rightarrow> (Inr k, st1)
           | None \<Rightarrow> (Inl (Internal ''no active key after creation''), st1))
      | (Inl e, st1) \<Rightarrow> (Inl e, st1))"

text \<open>
  The creation lock decides who makes the first key; whoever does sees the table as it is
  then. Everybody else returns the key that was made.
\<close>

definition ensure_active_alg ::
  "(string \<Rightarrow> string) \<Rightarrow> instant \<Rightarrow> instant \<Rightarrow> key_material \<Rightarrow> uuid \<Rightarrow> signing_alg
     \<Rightarrow> key_state \<Rightarrow> (app_error + signing_key) \<times> key_state" where
  "ensure_active_alg hash now dbnow fresh t alg st =
     (case repo_find_active dbnow t alg (key_rows st) of
        Some k \<Rightarrow> (Inr k, st)
      | None \<Rightarrow> first_key hash now dbnow fresh t alg st)"

fun revoke_each :: "instant \<Rightarrow> uuid \<Rightarrow> signing_key list \<Rightarrow> key_state \<Rightarrow> (app_error + nat) \<times> key_state" where
  "revoke_each now t [] st = (Inr 0, st)"
| "revoke_each now t (k # ks) st =
     (if (case sk_expires_at k of None \<Rightarrow> False | Some e \<Rightarrow> e \<le> now) then
        (case revoke_key now t (sk_id k) st of
           (Inl e, st1) \<Rightarrow> (Inl e, st1)
         | (Inr _, st1) \<Rightarrow>
             (case revoke_each now t ks st1 of
                (Inl e, st2) \<Rightarrow> (Inl e, st2)
              | (Inr n, st2) \<Rightarrow> (Inr (Suc n), st2)))
      else revoke_each now t ks st)"

text \<open>Each rotation takes the next of the fresh keys.\<close>

fun rotate_each ::
  "(string \<Rightarrow> string) \<Rightarrow> instant \<Rightarrow> instant \<Rightarrow> (nat \<Rightarrow> key_material) \<Rightarrow> nat \<Rightarrow> uuid \<Rightarrow> key_policy
     \<Rightarrow> signing_key list \<Rightarrow> key_state \<Rightarrow> (app_error + bool) \<times> key_state" where
  "rotate_each hash now dbnow fresh n t policy [] st = (Inr False, st)"
| "rotate_each hash now dbnow fresh n t policy (k # ks) st =
     (if sk_not_before k + dur_secs (int (kp_rotation_interval_days policy) * 86400) \<le> now then
        (case rotate_alg hash now dbnow (fresh n) t policy (sk_alg k) st of
           (Inl e, st1) \<Rightarrow> (Inl e, st1)
         | (Inr _, st1) \<Rightarrow>
             (case rotate_each hash now dbnow fresh (Suc n) t policy ks st1 of
                (Inl e, st2) \<Rightarrow> (Inl e, st2)
              | (Inr _, st2) \<Rightarrow> (Inr True, st2)))
      else rotate_each hash now dbnow fresh n t policy ks st)"

definition maintain ::
  "(string \<Rightarrow> string) \<Rightarrow> instant \<Rightarrow> instant \<Rightarrow> (nat \<Rightarrow> key_material) \<Rightarrow> uuid \<Rightarrow> key_policy
     \<Rightarrow> key_state \<Rightarrow> (app_error + (nat \<times> bool)) \<times> key_state" where
  "maintain hash now dbnow fresh t policy st =
     (case revoke_each now t (repo_list_keys t (Some KRetiring) (key_rows st)) st of
        (Inl e, st1) \<Rightarrow> (Inl e, st1)
      | (Inr revoked, st1) \<Rightarrow>
          if 0 < kp_rotation_interval_days policy then
            (case rotate_each hash now dbnow fresh 0 t policy
                    (repo_list_keys t (Some KActive) (key_rows st1)) st1 of
               (Inl e, st2) \<Rightarrow> (Inl e, st2)
             | (Inr rotated, st2) \<Rightarrow> (Inr (revoked, rotated), st2))
          else (Inr (revoked, False), st1))"

definition published_jwks :: "uuid \<Rightarrow> key_state \<Rightarrow> json list" where
  "published_jwks t st = map sk_public_jwk (repo_list_published t (key_rows st))"

section \<open>Invariant\<close>

definition one_active :: "signing_key list \<Rightarrow> bool" where
  "one_active rows = (\<forall>k\<in>set rows. \<forall>k'\<in>set rows.
     sk_status k = KActive \<and> sk_status k' = KActive \<and> sk_tenant k = sk_tenant k' \<and> sk_alg k = sk_alg k'
     \<longrightarrow> sk_id k = sk_id k')"

definition jwks_named :: "signing_key list \<Rightarrow> bool" where
  "jwks_named rows = (\<forall>k\<in>set rows. json_get (sk_public_jwk k) ''kid'' = Some (JStr (sk_kid k)) \<and>
     json_get (sk_public_jwk k) ''alg'' = Some (JStr (alg_as_str (sk_alg k))))"

definition keys_wf :: "signing_key list \<Rightarrow> bool" where
  "keys_wf rows = (distinct (map sk_id rows) \<and> distinct (map (\<lambda>k. (sk_tenant k, sk_kid k)) rows)
     \<and> one_active rows \<and> jwks_named rows)"

lemma repo_find_keyD:
  "repo_find_key t i rows = Some k \<Longrightarrow> k \<in> set rows \<and> sk_tenant k = t \<and> sk_id k = i"
  by (auto simp: repo_find_key_def dest: find_SomeD)

lemma find_key_iff:
  assumes "distinct (map sk_id rows)"
  shows "repo_find_key t i rows = Some k \<longleftrightarrow> k \<in> set rows \<and> sk_tenant k = t \<and> sk_id k = i"
  using assms by (induction rows) (auto simp: repo_find_key_def image_iff)

lemma set_status_wf_ids:
  "map sk_id (repo_set_status t i s e rows) = map sk_id rows"
  "map (\<lambda>k. (sk_tenant k, sk_kid k)) (repo_set_status t i s e rows) = map (\<lambda>k. (sk_tenant k, sk_kid k)) rows"
  by (simp_all add: repo_set_status_def map_update_where)

lemma in_set_statusE:
  assumes "k' \<in> set (repo_set_status t i s e rows)"
  obtains k where "k \<in> set rows" "k' = (if sk_tenant k = t \<and> sk_id k = i
    then k\<lparr>sk_status := s, sk_expires_at := (case e of None \<Rightarrow> sk_expires_at k | Some x \<Rightarrow> Some x)\<rparr> else k)"
  using assms unfolding repo_set_status_def by (elim in_update_whereE) blast

lemma find_set_status:
  "repo_find_key t' i' (repo_set_status t i s e rows) = map_option (\<lambda>k. if sk_tenant k = t \<and> sk_id k = i
     then k\<lparr>sk_status := s, sk_expires_at := (case e of None \<Rightarrow> sk_expires_at k | Some x \<Rightarrow> Some x)\<rparr> else k)
     (repo_find_key t' i' rows)"
  unfolding repo_find_key_def repo_set_status_def by (rule find_update_where) simp

lemma retire_each_eq:
  "retire_each t until ks rows = update_where (\<lambda>k. sk_tenant k = t \<and> sk_id k \<in> sk_id ` set ks)
     (\<lambda>k. k\<lparr>sk_status := KRetiring, sk_expires_at := Some until\<rparr>) rows"
  by (induction ks arbitrary: rows) (auto simp: repo_set_status_def update_where_def)

lemma in_repo_list_keys:
  "k \<in> set (repo_list_keys t s rows) \<longleftrightarrow> k \<in> set rows \<and> sk_tenant k = t \<and> (s = None \<or> Some (sk_status k) = s)"
  by (auto simp: repo_list_keys_def newest_first_def)

text \<open>What \<open>activate\<close> leaves of each row.\<close>

definition activated :: "instant \<Rightarrow> uuid \<Rightarrow> signing_key \<Rightarrow> signing_key \<Rightarrow> signing_key" where
  "activated until t key k =
     (if sk_tenant k = t \<and> sk_id k = sk_id key then k\<lparr>sk_status := KActive\<rparr>
      else if sk_tenant k = t \<and> sk_alg k = sk_alg key \<and> sk_status k = KActive
      then k\<lparr>sk_status := KRetiring, sk_expires_at := Some until\<rparr> else k)"

lemma activate_key_ok:
  assumes ids: "distinct (map sk_id (key_rows st))"
    and key: "repo_find_key t i (key_rows st) = Some key" "sk_status key \<noteq> KRevoked"
  shows "fst (activate_key now t policy i st) = Inr (activated (overlap_end now policy) t key key)"
    and "key_rows (snd (activate_key now t policy i st))
          = map (activated (overlap_end now policy) t key) (key_rows st)"
proof -
  let ?until = "overlap_end now policy"
  let ?retired = "filter (\<lambda>k. sk_id k \<noteq> i \<and> sk_alg k = sk_alg key)
    (repo_list_keys t (Some KActive) (key_rows st))"
  let ?rows = "repo_set_status t i KActive None (retire_each t ?until ?retired (key_rows st))"
  have i: "sk_id key = i" "sk_tenant key = t" "key \<in> set (key_rows st)"
    using repo_find_keyD [OF key(1)] by auto
  have uniq: "k \<in> set (key_rows st) \<Longrightarrow> k' \<in> set (key_rows st) \<Longrightarrow> sk_id k = sk_id k' \<Longrightarrow> k = k'" for k k'
    using ids by (auto simp: distinct_map inj_on_def)
  define R where "R = sk_id ` set ?retired"
  have ret: "sk_id k \<in> R \<longleftrightarrow> sk_id k \<noteq> i \<and> sk_tenant k = t
      \<and> sk_alg k = sk_alg key \<and> sk_status k = KActive" if "k \<in> set (key_rows st)" for k
    using that uniq by (auto simp: R_def in_repo_list_keys image_iff)
  have rows: "?rows = map (activated ?until t key) (key_rows st)"
    unfolding repo_set_status_def retire_each_eq update_where_def map_map R_def [symmetric]
    by (rule map_cong [OF refl]) (use ret ret [OF i(3)] i in \<open>simp add: activated_def\<close>)
  have same: "(sk_tenant (activated ?until t key k) = t \<and> sk_id (activated ?until t key k) = i)
      = (sk_tenant k = t \<and> sk_id k = i)" for k
    by (simp add: activated_def)
  have "repo_find_key t i ?rows = map_option (activated ?until t key) (repo_find_key t i (key_rows st))"
    unfolding rows repo_find_key_def by (rule find_map_same) (rule same)
  then have found: "repo_find_key t i ?rows = Some (activated ?until t key key)" using key by simp
  have evs: "key_rows (fold (publish_status t KRetiring) ks s) = key_rows s" for ks s
    by (induction ks arbitrary: s) (simp_all add: publish_status_def)
  show "fst (activate_key now t policy i st) = Inr (activated ?until t key key)"
    using key found by (simp add: activate_key_def Let_def)
  show "key_rows (snd (activate_key now t policy i st)) = map (activated ?until t key) (key_rows st)"
    using key found rows by (simp add: activate_key_def Let_def publish_status_def [of t KActive] evs)
qed

lemma activate_key_error: "fst (activate_key now t policy i st) = Inl e \<Longrightarrow> snd (activate_key now t policy i st) = st"
  by (auto simp: activate_key_def Let_def split: option.splits if_splits)

section \<open>Every operation keeps the invariant\<close>

lemma keys_wf_D:
  assumes "keys_wf rows"
  shows "distinct (map sk_id rows)" "distinct (map (\<lambda>k. (sk_tenant k, sk_kid k)) rows)"
    "one_active rows" "jwks_named rows"
  using assms by (simp_all add: keys_wf_def)

lemma keys_wf_map:
  assumes wf: "keys_wf rows"
    and keep: "\<And>k. sk_id (f k) = sk_id k" "\<And>k. sk_tenant (f k) = sk_tenant k" "\<And>k. sk_kid (f k) = sk_kid k"
      "\<And>k. sk_public_jwk (f k) = sk_public_jwk k" "\<And>k. sk_alg (f k) = sk_alg k"
    and one: "one_active (map f rows)"
  shows "keys_wf (map f rows)"
  using wf one by (auto simp: keys_wf_def jwks_named_def keep comp_def)

lemma activated_simps [simp]:
  "sk_id (activated u t key k) = sk_id k" "sk_tenant (activated u t key k) = sk_tenant k"
  "sk_kid (activated u t key k) = sk_kid k" "sk_public_jwk (activated u t key k) = sk_public_jwk k"
  "sk_alg (activated u t key k) = sk_alg k"
  by (simp_all add: activated_def)

lemma activated_KActive:
  "sk_status (activated u t key k) = KActive \<longleftrightarrow>
     (sk_tenant k = t \<and> sk_id k = sk_id key) \<or>
     (sk_status k = KActive \<and> \<not> (sk_tenant k = t \<and> sk_alg k = sk_alg key))"
  by (auto simp: activated_def)

lemma one_activeD:
  "one_active rows \<Longrightarrow> k \<in> set rows \<Longrightarrow> k' \<in> set rows \<Longrightarrow> sk_status k = KActive \<Longrightarrow>
   sk_status k' = KActive \<Longrightarrow> sk_tenant k = sk_tenant k' \<Longrightarrow> sk_alg k = sk_alg k' \<Longrightarrow> sk_id k = sk_id k'"
  unfolding one_active_def by blast

lemma one_activeI:
  assumes "\<And>k k'. k \<in> set rows \<Longrightarrow> k' \<in> set rows \<Longrightarrow> sk_status k = KActive \<Longrightarrow>
    sk_status k' = KActive \<Longrightarrow> sk_tenant k = sk_tenant k' \<Longrightarrow> sk_alg k = sk_alg k' \<Longrightarrow> sk_id k = sk_id k'"
  shows "one_active rows"
  using assms unfolding one_active_def by blast

lemma one_active_activated:
  assumes "one_active rows" "key \<in> set rows" "sk_tenant key = t" "distinct (map sk_id rows)"
  shows "one_active (map (activated u t key) rows)"
proof -
  have key: "k = key" if "k \<in> set rows" "sk_id k = sk_id key" for k
    using assms that by (auto simp: distinct_map inj_on_def)
  show ?thesis
  proof (rule one_activeI)
    fix k1 k2
    assume "k1 \<in> set (map (activated u t key) rows)" "k2 \<in> set (map (activated u t key) rows)"
      and act: "sk_status k1 = KActive" "sk_status k2 = KActive" "sk_tenant k1 = sk_tenant k2"
        "sk_alg k1 = sk_alg k2"
    then obtain a b where ab: "a \<in> set rows" "k1 = activated u t key a" "b \<in> set rows"
      "k2 = activated u t key b" by auto
    show "sk_id k1 = sk_id k2"
    proof (cases "sk_id a = sk_id key \<or> sk_id b = sk_id key")
      case True
      then show ?thesis
        using ab act key [of a] key [of b] assms(3) by (auto simp: activated_KActive)
    next
      case False
      then show ?thesis
        using ab act one_activeD [OF assms(1), of a b] by (simp add: activated_KActive)
    qed
  qed
qed

lemma activate_wf:
  assumes "keys_wf (key_rows st)"
  shows "keys_wf (key_rows (snd (activate_key now t policy i st)))"
proof (cases "repo_find_key t i (key_rows st)")
  case None
  then show ?thesis using assms by (simp add: activate_key_def)
next
  case (Some key)
  show ?thesis
  proof (cases "sk_status key = KRevoked")
    case True
    then show ?thesis using assms Some by (simp add: activate_key_def)
  next
    case False
    from repo_find_keyD [OF Some] have "key \<in> set (key_rows st)" "sk_tenant key = t" by auto
    then show ?thesis
      unfolding activate_key_ok(2) [OF keys_wf_D(1) [OF assms] Some False]
      using assms keys_wf_D [OF assms] by (intro keys_wf_map one_active_activated) simp_all
  qed
qed

lemma one_active_set_status:
  assumes "one_active rows" "s \<noteq> KActive"
  shows "one_active (repo_set_status t i s e rows)"
  unfolding one_active_def
proof (intro ballI impI)
  fix k k'
  assume "k \<in> set (repo_set_status t i s e rows)" "k' \<in> set (repo_set_status t i s e rows)"
    and act: "sk_status k = KActive \<and> sk_status k' = KActive \<and> sk_tenant k = sk_tenant k' \<and> sk_alg k = sk_alg k'"
  then have "k \<in> set rows" "k' \<in> set rows"
    using assms(2) by (auto elim!: in_set_statusE split: if_splits)
  then show "sk_id k = sk_id k'" using assms(1) act unfolding one_active_def by blast
qed

lemma set_status_wf:
  assumes "keys_wf rows" "s \<noteq> KActive"
  shows "keys_wf (repo_set_status t i s e rows)"
proof -
  have "one_active (repo_set_status t i s e rows)"
    using assms by (simp add: keys_wf_def one_active_set_status)
  then show ?thesis
    unfolding repo_set_status_def update_where_def by (intro keys_wf_map [OF assms(1)]) simp_all
qed

lemma retire_key_rows:
  "key_rows (snd (retire_key now t policy i st)) = key_rows st \<or>
   key_rows (snd (retire_key now t policy i st))
     = repo_set_status t i KRetiring (Some (overlap_end now policy)) (key_rows st)
   \<and> (\<exists>k. repo_find_key t i (key_rows st) = Some k \<and> sk_status k \<noteq> KRevoked)"
  by (auto simp: retire_key_def Let_def publish_status_def split: option.splits)

lemma revoke_key_rows:
  "key_rows (snd (revoke_key now t i st)) = key_rows st \<or>
   key_rows (snd (revoke_key now t i st)) = repo_set_status t i KRevoked (Some now) (key_rows st)"
  by (auto simp: revoke_key_def Let_def publish_status_def split: option.splits)

lemma generate_named: "generate hash alg n = Inr (kid, jwk) \<Longrightarrow>
    json_get jwk ''kid'' = Some (JStr kid) \<and> json_get jwk ''alg'' = Some (JStr (alg_as_str alg))"
  by (cases n) (auto simp: generate_def split: sum.splits)

lemma new_key_simps:
  "sk_tenant (new_key now dbnow fresh t alg s nb kid jwk) = t"
  "sk_alg (new_key now dbnow fresh t alg s nb kid jwk) = alg"
  "sk_status (new_key now dbnow fresh t alg s nb kid jwk) = s"
  "sk_id (new_key now dbnow fresh t alg s nb kid jwk) = km_id fresh"
  "sk_kid (new_key now dbnow fresh t alg s nb kid jwk) = kid"
  "sk_public_jwk (new_key now dbnow fresh t alg s nb kid jwk) = jwk"
  "sk_expires_at (new_key now dbnow fresh t alg s nb kid jwk) = None"
  "sk_not_before (new_key now dbnow fresh t alg s nb kid jwk) = (case nb of None \<Rightarrow> now | Some b \<Rightarrow> b)"
  by (simp_all add: new_key_def)

lemma repo_insert_Inr: "repo_insert_key k rows = Inr rows' \<Longrightarrow> rows' = rows @ [k]"
  by (simp add: repo_insert_key_def split: if_splits)

lemma create_keyE:
  obtains (refused) e where "create_key hash now dbnow fresh t alg s nb st = (Inl e, st)"
  | (made) k st' where "create_key hash now dbnow fresh t alg s nb st = (Inr k, st')"
      "repo_insert_key k (key_rows st) = Inr (key_rows st @ [k])" "key_rows st' = key_rows st @ [k]"
      "sk_tenant k = t" "sk_alg k = alg" "sk_status k = s" "sk_id k = km_id fresh" "sk_expires_at k = None"
      "sk_not_before k = (case nb of None \<Rightarrow> now | Some b \<Rightarrow> b)"
      "json_get (sk_public_jwk k) ''kid'' = Some (JStr (sk_kid k))"
      "json_get (sk_public_jwk k) ''alg'' = Some (JStr (alg_as_str (sk_alg k)))"
proof (cases "generate hash alg (km_numbers fresh)")
  case (Inl e)
  then show ?thesis using refused by (simp add: create_key_def)
next
  case (Inr p)
  obtain kid jwk where p: "p = (kid, jwk)" by fastforce
  let ?k = "new_key now dbnow fresh t alg s nb kid jwk"
  show ?thesis
  proof (cases "repo_insert_key ?k (key_rows st)")
    case (Inl e)
    then show ?thesis using Inr p refused by (simp add: create_key_def)
  next
    case I: (Inr rows)
    then show ?thesis
      using Inr p repo_insert_Inr [OF I] generate_named [of hash alg "km_numbers fresh" kid jwk]
      by (intro made [of ?k "snd (create_key hash now dbnow fresh t alg s nb st)"])
         (simp_all add: create_key_def Let_def new_key_simps)
  qed
qed

lemma insert_wf:
  assumes "keys_wf rows" "repo_insert_key k rows = Inr (rows @ [k])"
    "json_get (sk_public_jwk k) ''kid'' = Some (JStr (sk_kid k))"
    "json_get (sk_public_jwk k) ''alg'' = Some (JStr (alg_as_str (sk_alg k)))"
  shows "keys_wf (rows @ [k])"
proof -
  have new: "sk_id r \<noteq> sk_id k \<and> (sk_tenant r, sk_kid r) \<noteq> (sk_tenant k, sk_kid k) \<and>
      (sk_status k = KActive \<longrightarrow> sk_status r = KActive \<longrightarrow> sk_tenant r = sk_tenant k \<longrightarrow> sk_alg r \<noteq> sk_alg k)"
    if "r \<in> set rows" for r
    using assms(2) that by (auto simp: repo_insert_key_def split: if_splits)
  have "one_active (rows @ [k])"
  proof (rule one_activeI)
    fix a b
    assume "a \<in> set (rows @ [k])" "b \<in> set (rows @ [k])" "sk_status a = KActive" "sk_status b = KActive"
      "sk_tenant a = sk_tenant b" "sk_alg a = sk_alg b"
    then show "sk_id a = sk_id b"
      using new [of a] new [of b] one_activeD [OF keys_wf_D(3) [OF assms(1)], of a b] by auto
  qed
  moreover have "sk_id k \<notin> sk_id ` set rows"
    "(sk_tenant k, sk_kid k) \<notin> (\<lambda>k. (sk_tenant k, sk_kid k)) ` set rows"
    using new by fastforce+
  ultimately show ?thesis
    using assms(1,3,4) by (simp add: keys_wf_def jwks_named_def)
qed

text \<open>The four operations that write the table; the others are sequences of these.\<close>

inductive key_step :: "(string \<Rightarrow> string) \<Rightarrow> key_state \<Rightarrow> key_state \<Rightarrow> bool" for hash where
  Create: "s = KPending \<or> s = KActive \<Longrightarrow>
     key_step hash st (snd (create_key hash now dbnow fresh t alg s nb st))"
| Activate: "key_step hash st (snd (activate_key now t policy i st))"
| Retire: "key_step hash st (snd (retire_key now t policy i st))"
| Revoke: "key_step hash st (snd (revoke_key now t i st))"

lemma key_step_wf: "key_step hash st st' \<Longrightarrow> keys_wf (key_rows st) \<Longrightarrow> keys_wf (key_rows st')"
proof (induction rule: key_step.induct)
  case (Create s st now dbnow fresh t alg nb)
  then show ?case
    by (cases rule: create_keyE [of hash now dbnow fresh t alg s nb st]) (simp_all add: insert_wf)
next
  case (Activate st now t policy i)
  then show ?case by (rule activate_wf)
next
  case (Retire st now t policy i)
  then show ?case
    using retire_key_rows [of now t policy i st] set_status_wf [of "key_rows st" KRetiring] by auto
next
  case (Revoke st now t i)
  then show ?case
    using revoke_key_rows [of now t i st] set_status_wf [of "key_rows st" KRevoked] by auto
qed

interpretation keys: kept_by_steps "key_step hash" "\<lambda>st. keys_wf (key_rows st)" for hash
  by unfold_locales (rule key_step_wf)

lemma rotate_alg_run: "(key_step hash)\<^sup>*\<^sup>* st (snd (rotate_alg hash now dbnow fresh t policy alg st))"
proof -
  let ?c = "create_key hash now dbnow fresh t alg KPending None st"
  have "key_step hash st (snd ?c)" by (rule key_step.Create) simp
  moreover have "key_step hash (snd ?c) (snd (activate_key now t policy i (snd ?c)))" for i
    by (rule key_step.Activate)
  ultimately show ?thesis
    by (cases ?c) (auto simp: rotate_alg_def split: sum.split
        intro: r_into_rtranclp rtranclp.rtrancl_into_rtrancl)
qed

lemma first_key_run: "(key_step hash)\<^sup>*\<^sup>* st (snd (first_key hash now dbnow fresh t alg st))"
proof -
  let ?c = "create_key hash now dbnow fresh t alg KActive None st"
  have "snd (first_key hash now dbnow fresh t alg st) = snd ?c"
    by (cases ?c) (auto simp: first_key_def split: sum.split app_error.split option.split)
  moreover have "key_step hash st (snd ?c)" by (rule key_step.Create) simp
  ultimately show ?thesis by (metis r_into_rtranclp)
qed

lemma ensure_active_run: "(key_step hash)\<^sup>*\<^sup>* st (snd (ensure_active_alg hash now dbnow fresh t alg st))"
  using first_key_run by (auto simp: ensure_active_alg_def split: option.split)

lemma revoke_each_run: "(key_step hash)\<^sup>*\<^sup>* st (snd (revoke_each now t ks st))"
proof (induction ks arbitrary: st)
  case (Cons k ks)
  let ?r = "revoke_key now t (sk_id k) st"
  have "key_step hash st (snd ?r)" by (rule key_step.Revoke)
  moreover note Cons.IH [of "snd ?r"]
  ultimately have "(key_step hash)\<^sup>*\<^sup>* st (snd (revoke_each now t ks (snd ?r)))"
    by (rule converse_rtranclp_into_rtranclp)
  then show ?case
    using Cons.IH [of st] \<open>key_step hash st (snd ?r)\<close>
    by (cases ?r; cases "revoke_each now t ks (snd ?r)") (auto split: sum.split)
qed simp

lemma rotate_each_run:
  "(key_step hash)\<^sup>*\<^sup>* st (snd (rotate_each hash now dbnow fresh n t policy ks st))"
proof (induction ks arbitrary: st n)
  case (Cons k ks)
  let ?r = "rotate_alg hash now dbnow (fresh n) t policy (sk_alg k) st"
  have r: "(key_step hash)\<^sup>*\<^sup>* st (snd ?r)" by (rule rotate_alg_run)
  with Cons.IH [of "snd ?r" "Suc n"]
  have "(key_step hash)\<^sup>*\<^sup>* st (snd (rotate_each hash now dbnow fresh (Suc n) t policy ks (snd ?r)))"
    by (rule rtranclp_trans [rotated])
  then show ?case
    using Cons.IH [of st n] r
    by (cases ?r; cases "rotate_each hash now dbnow fresh (Suc n) t policy ks (snd ?r)")
       (auto split: sum.split)
qed simp

lemma maintain_run: "(key_step hash)\<^sup>*\<^sup>* st (snd (maintain hash now dbnow fresh t policy st))"
proof -
  let ?r = "revoke_each now t (repo_list_keys t (Some KRetiring) (key_rows st)) st"
  let ?ro = "rotate_each hash now dbnow fresh 0 t policy
    (repo_list_keys t (Some KActive) (key_rows (snd ?r))) (snd ?r)"
  have r: "(key_step hash)\<^sup>*\<^sup>* st (snd ?r)" by (rule revoke_each_run)
  then have "(key_step hash)\<^sup>*\<^sup>* st (snd ?ro)" using rotate_each_run by (rule rtranclp_trans)
  then show ?thesis
    using r by (cases ?r; cases ?ro) (auto simp: maintain_def split: sum.split)
qed

lemmas key_runs = rotate_alg_run first_key_run ensure_active_run maintain_run

lemma parse_alg_as_str [simp]: "parse_alg (alg_as_str a) = Some a"
  by (cases a; hypsubst; code_simp)

section \<open>Revocation is final\<close>

text \<open>A key identifier of a tenant that is taken by a revoked key.\<close>

definition kid_revoked :: "uuid \<Rightarrow> string \<Rightarrow> signing_key list \<Rightarrow> bool" where
  "kid_revoked t kid rows = (\<exists>k\<in>set rows. sk_tenant k = t \<and> sk_kid k = kid \<and> sk_status k = KRevoked)"

lemma kid_revoked_map:
  assumes "kid_revoked t kid rows"
    and "\<And>k. k \<in> set rows \<Longrightarrow> sk_status k = KRevoked \<Longrightarrow> sk_status (f k) = KRevoked"
    and "\<And>k. sk_tenant (f k) = sk_tenant k" "\<And>k. sk_kid (f k) = sk_kid k"
  shows "kid_revoked t kid (map f rows)"
  using assms unfolding kid_revoked_def by auto

lemma key_step_kid_revoked:
  assumes "key_step hash st st'" "keys_wf (key_rows st)" "kid_revoked t kid (key_rows st)"
  shows "kid_revoked t kid (key_rows st')"
  using assms
proof (induction rule: key_step.induct)
  case (Create s st now dbnow fresh t' alg nb)
  then show ?case
    by (cases rule: create_keyE [of hash now dbnow fresh t' alg s nb st]) (auto simp: kid_revoked_def)
next
  case (Activate st now t' policy i)
  show ?case
  proof (cases "\<exists>key. repo_find_key t' i (key_rows st) = Some key \<and> sk_status key \<noteq> KRevoked")
    case False
    then have "snd (activate_key now t' policy i st) = st"
      by (auto simp: activate_key_def split: option.splits)
    then show ?thesis using Activate by simp
  next
    case True
    then obtain key where key: "repo_find_key t' i (key_rows st) = Some key" "sk_status key \<noteq> KRevoked" by blast
    have ids: "distinct (map sk_id (key_rows st))" using Activate by (simp add: keys_wf_def)
    have "k = key" if "k \<in> set (key_rows st)" "sk_id k = sk_id key" for k
      using ids that repo_find_keyD [OF key(1)] by (auto simp: distinct_map inj_on_def)
    then show ?thesis
      unfolding activate_key_ok(2) [OF ids key]
      using Activate key(2) by (intro kid_revoked_map) (auto simp: activated_def)
  qed
next
  case (Retire st now t' policy i)
  show ?case
  proof (cases "key_rows (snd (retire_key now t' policy i st)) = key_rows st")
    case False
    then obtain key where key: "repo_find_key t' i (key_rows st) = Some key" "sk_status key \<noteq> KRevoked"
      and rows: "key_rows (snd (retire_key now t' policy i st))
        = repo_set_status t' i KRetiring (Some (overlap_end now policy)) (key_rows st)"
      using retire_key_rows [of now t' policy i st] by blast
    have ids: "distinct (map sk_id (key_rows st))" using Retire by (simp add: keys_wf_def)
    have "k = key" if "k \<in> set (key_rows st)" "sk_id k = i" for k
      using ids that repo_find_keyD [OF key(1)] by (auto simp: distinct_map inj_on_def)
    then show ?thesis
      unfolding rows repo_set_status_def update_where_def
      using Retire key(2) by (intro kid_revoked_map) auto
  qed (use Retire in simp)
next
  case (Revoke st now t' i)
  have "kid_revoked t kid (repo_set_status t' i KRevoked (Some now) (key_rows st))"
    unfolding repo_set_status_def update_where_def
    using Revoke by (intro kid_revoked_map) auto
  then show ?case using revoke_key_rows [of now t' i st] Revoke by auto
qed

interpretation revoked: kept_by_steps "key_step hash"
  "\<lambda>st. keys_wf (key_rows st) \<and> kid_revoked t kid (key_rows st)" for hash t kid
  by unfold_locales (blast intro: key_step_wf key_step_kid_revoked)

lemma in_published_jwks:
  "jwk \<in> set (published_jwks t st) \<longleftrightarrow>
   (\<exists>k\<in>set (key_rows st). sk_tenant k = t \<and> sk_status k \<noteq> KRevoked \<and> jwk = sk_public_jwk k)"
proof -
  have "s \<in> {KPending, KActive, KRetiring} \<longleftrightarrow> s \<noteq> KRevoked" for s by (cases s) auto
  then show ?thesis by (auto simp: published_jwks_def repo_list_published_def newest_first_def)
qed

lemma revoked_not_published:
  assumes "keys_wf (key_rows st)" "kid_revoked t kid (key_rows st)" "jwk \<in> set (published_jwks t st)"
  shows "json_get jwk ''kid'' \<noteq> Some (JStr kid)"
proof
  assume named: "json_get jwk ''kid'' = Some (JStr kid)"
  from assms(3) obtain k where k: "k \<in> set (key_rows st)" "sk_tenant k = t" "sk_status k \<noteq> KRevoked"
    "jwk = sk_public_jwk k"
    by (auto simp: in_published_jwks)
  with named keys_wf_D(4) [OF assms(1)] have "sk_kid k = kid" by (auto simp: jwks_named_def)
  moreover from assms(2) obtain r where "r \<in> set (key_rows st)" "sk_tenant r = t" "sk_kid r = kid"
    "sk_status r = KRevoked" by (auto simp: kid_revoked_def)
  moreover have "inj_on (\<lambda>k. (sk_tenant k, sk_kid k)) (set (key_rows st))"
    using keys_wf_D(2) [OF assms(1)] by (simp add: distinct_map)
  ultimately have "r = k" using k by (auto simp: inj_on_def)
  with k \<open>sk_status r = KRevoked\<close> show False by simp
qed

lemma revoke_key_revokes:
  assumes "keys_wf (key_rows st)" "revoke_key now t i st = (Inr k, st')"
  shows "kid_revoked t (sk_kid k) (key_rows st')"
proof -
  let ?rows = "repo_set_status t i KRevoked (Some now) (key_rows st)"
  from assms(2) have found: "repo_find_key t i ?rows = Some k" and rows: "key_rows st' = ?rows"
    by (auto simp: revoke_key_def Let_def publish_status_def split: option.splits)
  from found obtain k0 where "repo_find_key t i (key_rows st) = Some k0"
    "k = (if sk_tenant k0 = t \<and> sk_id k0 = i then k0\<lparr>sk_status := KRevoked, sk_expires_at := Some now\<rparr> else k0)"
    unfolding find_set_status by auto
  with repo_find_keyD have "sk_status k = KRevoked" by fastforce
  with repo_find_keyD [OF found] rows show ?thesis by (auto simp: kid_revoked_def)
qed

section \<open>Rotation and housekeeping\<close>

lemma activated_retiring [simp]:
  "sk_status k \<noteq> KActive \<Longrightarrow> sk_id k \<noteq> sk_id key \<Longrightarrow> activated u t key k = k"
  by (simp add: activated_def)

lemma rotate_algE:
  assumes "keys_wf (key_rows st)"
  obtains (refused) e where "rotate_alg hash now dbnow fresh t policy alg st = (Inl e, st)"
  | (rotated) k where "fst (rotate_alg hash now dbnow fresh t policy alg st) = Inr (k\<lparr>sk_status := KActive\<rparr>)"
      "\<And>r. r \<in> set (key_rows st) \<Longrightarrow> sk_id r \<noteq> sk_id k" "sk_tenant k = t" "sk_alg k = alg"
      "sk_status k = KPending" "sk_not_before k = now"
      "key_rows (snd (rotate_alg hash now dbnow fresh t policy alg st))
        = map (activated (overlap_end now policy) t k) (key_rows st) @ [k\<lparr>sk_status := KActive\<rparr>]"
proof (cases rule: create_keyE [of hash now dbnow fresh t alg KPending None st])
  case (refused e)
  then show thesis by (intro that(1)) (simp add: rotate_alg_def)
next
  case (made k st')
  then have wf: "keys_wf (key_rows st')" using insert_wf assms by simp
  have "repo_find_key t (sk_id k) (key_rows st') = Some k"
    by (rule iffD2 [OF find_key_iff [OF keys_wf_D(1) [OF wf]]]) (use made in simp)
  note act = activate_key_ok [OF keys_wf_D(1) [OF wf] this, of now policy]
  have "activated (overlap_end now policy) t k k = k\<lparr>sk_status := KActive\<rparr>"
    using made by (simp add: activated_def)
  moreover have "sk_id r \<noteq> sk_id k" if "r \<in> set (key_rows st)" for r
    using made(2) that by (auto simp: repo_insert_key_def split: if_splits)
  ultimately show thesis
    using made act by (intro that(2) [of k]) (simp_all add: rotate_alg_def)
qed

lemma find_active_unique:
  assumes "keys_wf rows" "k \<in> set rows" "sk_tenant k = t" "sk_alg k = alg" "sk_status k = KActive"
    "sk_not_before k \<le> dbnow"
  shows "repo_find_active dbnow t alg rows = Some k"
proof -
  let ?p = "\<lambda>k. sk_tenant k = t \<and> sk_alg k = alg \<and> sk_status k = KActive \<and> sk_not_before k \<le> dbnow"
  have "r = k" if "r \<in> set (filter ?p rows)" for r
    using that assms one_activeD [OF keys_wf_D(3) [OF assms(1)], of r k] keys_wf_D(1) [OF assms(1)]
    by (auto simp: distinct_map inj_on_def)
  moreover have "k \<in> set (filter ?p rows)" using assms by simp
  moreover have "distinct (filter ?p rows)" using keys_wf_D(1) [OF assms(1)] by (simp add: distinct_map)
  ultimately have "filter ?p rows = [k]"
    by (metis (no_types, lifting) distinct.simps(2) list.exhaust list.set_cases list.set_intros(1) list.set_intros(2))
  then show ?thesis by (simp add: repo_find_active_def)
qed

lemma find_activeD:
  assumes "repo_find_active dbnow t alg rows = Some k"
  shows "k \<in> set rows \<and> sk_tenant k = t \<and> sk_alg k = alg \<and> sk_status k = KActive \<and> sk_not_before k \<le> dbnow"
proof -
  let ?l = "filter (\<lambda>k. sk_tenant k = t \<and> sk_alg k = alg \<and> sk_status k = KActive \<and> sk_not_before k \<le> dbnow) rows"
  obtain ks where "rev (sort_key (\<lambda>k. (sk_not_before k, sk_id k)) ?l) = k # ks"
    using assms by (auto simp: repo_find_active_def split: list.splits)
  then have "k \<in> set (rev (sort_key (\<lambda>k. (sk_not_before k, sk_id k)) ?l))" by simp
  then show ?thesis by simp
qed

lemma ensure_active_Inr:
  assumes wf: "keys_wf (key_rows st)"
    and ok: "ensure_active_alg hash now dbnow fresh t alg st = (Inr k, st')"
  shows "keys_wf (key_rows st') \<and> k \<in> set (key_rows st') \<and> sk_tenant k = t \<and> sk_alg k = alg
    \<and> sk_status k = KActive"
proof (cases "repo_find_active dbnow t alg (key_rows st)")
  case (Some a)
  then show ?thesis using ok wf find_activeD [OF Some] by (simp add: ensure_active_alg_def)
next
  case None
  then have "first_key hash now dbnow fresh t alg st = (Inr k, st')" using ok by (simp add: ensure_active_alg_def)
  then show ?thesis
  proof (cases rule: create_keyE [of hash now dbnow fresh t alg KActive None st])
    case (refused e)
    then show ?thesis
      using None \<open>first_key hash now dbnow fresh t alg st = (Inr k, st')\<close>
      by (cases e) (simp_all add: first_key_def)
  next
    case (made k0 st0)
    moreover have "keys_wf (key_rows st @ [k0])" by (rule insert_wf [OF wf]) (use made in simp_all)
    ultimately show ?thesis
      using \<open>first_key hash now dbnow fresh t alg st = (Inr k, st')\<close> by (auto simp: first_key_def)
  qed
qed

text \<open>A retiring key in its overlap survives both passes of the housekeeping.\<close>

lemma revoke_other:
  "k \<in> set (key_rows st) \<Longrightarrow> sk_id k \<noteq> i \<Longrightarrow> k \<in> set (key_rows (snd (revoke_key now t i st)))"
proof -
  assume "k \<in> set (key_rows st)" "sk_id k \<noteq> i"
  then have "k \<in> set (repo_set_status t i KRevoked (Some now) (key_rows st))"
    unfolding repo_set_status_def by (metis (mono_tags, lifting) in_update_whereI)
  then show ?thesis using revoke_key_rows [of now t i st] \<open>k \<in> set (key_rows st)\<close> by auto
qed

lemma revoke_each_other:
  assumes "k \<in> set (key_rows st)" "sk_expires_at k = Some e" "now < e"
    and "\<And>r. r \<in> set ks \<Longrightarrow> sk_id r = sk_id k \<Longrightarrow> sk_expires_at r = Some e"
  shows "k \<in> set (key_rows (snd (revoke_each now t ks st)))"
  using assms(1,4)
proof (induction ks arbitrary: st)
  case (Cons r ks)
  show ?case
  proof (cases "\<exists>x. sk_expires_at r = Some x \<and> x \<le> now")
    case True
    then have "sk_id r \<noteq> sk_id k" using Cons.prems(2) [of r] assms(3) by auto
    then have "k \<in> set (key_rows (snd (revoke_key now t (sk_id r) st)))"
      using Cons.prems(1) revoke_other by metis
    with Cons.IH [of "snd (revoke_key now t (sk_id r) st)"] Cons.prems(2) this True show ?thesis
      by (cases "revoke_key now t (sk_id r) st"; cases "revoke_each now t ks (snd (revoke_key now t (sk_id r) st))")
         (auto split: sum.splits)
  next
    case False
    then show ?thesis using Cons by (auto split: option.splits)
  qed
qed simp

lemma rotate_alg_retiring:
  assumes "keys_wf (key_rows st)" "k \<in> set (key_rows st)" "sk_status k \<noteq> KActive"
  shows "k \<in> set (key_rows (snd (rotate_alg hash now dbnow fresh t policy alg st)))"
proof (cases rule: rotate_algE [OF assms(1), of hash now dbnow fresh t policy alg,
      case_names refused rotated])
  case (refused e)
  then show ?thesis using assms by simp
next
  case (rotated x)
  then have "activated (overlap_end now policy) t x k = k" using assms by simp
  then show ?thesis using rotated assms(2) by force
qed

lemma rotate_each_retiring:
  assumes "keys_wf (key_rows st)" "k \<in> set (key_rows st)" "sk_status k \<noteq> KActive"
  shows "k \<in> set (key_rows (snd (rotate_each hash now dbnow fresh n t policy ks st)))"
  using assms(1,2)
proof (induction ks arbitrary: st n)
  case (Cons r ks)
  let ?r = "rotate_alg hash now dbnow (fresh n) t policy (sk_alg r) st"
  have step: "k \<in> set (key_rows (snd ?r))" "keys_wf (key_rows (snd ?r))"
    using rotate_alg_retiring Cons.prems assms(3) keys.run_keeps [OF rotate_alg_run] by blast+
  then show ?case
    using Cons.IH [OF step(2,1), of "Suc n"] Cons.IH [OF Cons.prems, of n]
    by (cases ?r; cases "rotate_each hash now dbnow fresh (Suc n) t policy ks (snd ?r)")
       (auto split: sum.splits)
qed simp

lemma maintain_retiring:
  assumes wf: "keys_wf (key_rows st)" and k: "k \<in> set (key_rows st)" "sk_status k \<noteq> KActive"
    "sk_expires_at k = Some e" "now < e"
  shows "k \<in> set (key_rows (snd (maintain hash now dbnow fresh t policy st)))"
proof -
  let ?r = "revoke_each now t (repo_list_keys t (Some KRetiring) (key_rows st)) st"
  have "sk_expires_at r = Some e" if "r \<in> set (repo_list_keys t (Some KRetiring) (key_rows st))"
    "sk_id r = sk_id k" for r
    using that k keys_wf_D(1) [OF wf] by (auto simp: in_repo_list_keys distinct_map inj_on_def)
  then have r: "k \<in> set (key_rows (snd ?r))" by (rule revoke_each_other [OF k(1,3,4)])
  have wr: "keys_wf (key_rows (snd ?r))" using keys.run_keeps [OF revoke_each_run wf] .
  let ?ro = "rotate_each hash now dbnow fresh 0 t policy
    (repo_list_keys t (Some KActive) (key_rows (snd ?r))) (snd ?r)"
  have "k \<in> set (key_rows (snd ?ro))" by (rule rotate_each_retiring [OF wr r k(2)])
  then show ?thesis using r by (cases ?r; cases ?ro) (auto simp: maintain_def split: sum.split)
qed

lemma keys_wf_Nil: "keys_wf []"
  by (simp add: keys_wf_def one_active_def jwks_named_def)

section \<open>Properties\<close>

text \<open>
  C15. However keys are created, activated, retired and revoked, a tenant has at most one
  active key per algorithm, key identifiers are not shared, and every published JWK
  carries the identifier of its row.
\<close>

theorem keys_stay_well_formed:
  assumes "(key_step hash)\<^sup>*\<^sup>* \<lparr>key_rows = [], key_events = []\<rparr> st"
  shows "keys_wf (key_rows st)"
  using keys.run_keeps [OF assms] by (simp add: keys_wf_Nil)

text \<open>
  C16. Revocation is final: once a key is revoked, no sequence of operations, rotation and
  housekeeping included, puts a JWK with its identifier back into the published set.
\<close>

theorem revoked_key_stays_unpublished:
  assumes "keys_wf (key_rows st)" "revoke_key now t i st = (Inr k, st1)" "(key_step hash)\<^sup>*\<^sup>* st1 st2"
    "jwk \<in> set (published_jwks t (snd (maintain hash now' dbnow fresh t' policy st2)))"
  shows "json_get jwk ''kid'' \<noteq> Some (JStr (sk_kid k))"
proof -
  have "key_step hash st st1" using key_step.Revoke [of hash st now t i] assms(2) by simp
  then have "keys_wf (key_rows st1)" using assms(1) by (rule key_step_wf)
  moreover have "kid_revoked t (sk_kid k) (key_rows st1)" by (rule revoke_key_revokes [OF assms(1,2)])
  moreover have "(key_step hash)\<^sup>*\<^sup>* st1 (snd (maintain hash now' dbnow fresh t' policy st2))"
    using assms(3) maintain_run by (rule rtranclp_trans)
  ultimately have "keys_wf (key_rows (snd (maintain hash now' dbnow fresh t' policy st2))) \<and>
      kid_revoked t (sk_kid k) (key_rows (snd (maintain hash now' dbnow fresh t' policy st2)))"
    using revoked.run_keeps by blast
  then show ?thesis using revoked_not_published assms(4) by blast
qed

text \<open>
  Rotation replaces the signing key without breaking what was signed: the new key
  signs from then on, every key that was published stays published, and the key it
  replaces is kept until the end of the overlap, through any housekeeping before that.
\<close>

theorem rotation_overlaps:
  assumes wf: "keys_wf (key_rows st)"
    and rot: "rotate_alg hash now dbnow fresh t policy alg st = (Inr k, st')"
  shows "(now \<le> dbnow' \<longrightarrow> ensure_active_alg hash now' dbnow' fresh' t alg st' = (Inr k, st')) \<and>
    set (published_jwks t st) \<subseteq> set (published_jwks t st') \<and>
    (old \<in> set (key_rows st) \<and> sk_tenant old = t \<and> sk_alg old = alg \<and> sk_status old = KActive \<and>
     now' < overlap_end now policy \<longrightarrow>
       sk_public_jwk old \<in> set (published_jwks t (snd (maintain hash now' dbnow' fresh2 t policy' st'))))"
proof (cases rule: rotate_algE [OF wf, of hash now dbnow fresh t policy alg, case_names refused rotated])
  case (refused e)
  then show ?thesis using rot by simp
next
  case (rotated x)
  let ?u = "overlap_end now policy"
  have rows: "key_rows st' = map (activated ?u t x) (key_rows st) @ [k]" and k: "k = x\<lparr>sk_status := KActive\<rparr>"
    using rotated rot by simp_all
  have wf': "keys_wf (key_rows st')"
    using keys.run_keeps [OF rotate_alg_run wf, of hash now dbnow fresh t policy alg] rot by simp
  have "ensure_active_alg hash now' dbnow' fresh' t alg st' = (Inr k, st')" if "now \<le> dbnow'"
    using find_active_unique [OF wf', of k t alg dbnow'] rotated k rows that
    by (simp add: ensure_active_alg_def)
  moreover have "sk_public_jwk r \<in> set (published_jwks t st')"
    if "r \<in> set (key_rows st)" "sk_tenant r = t" "sk_status r \<noteq> KRevoked" for r
  proof -
    have "activated ?u t x r \<in> set (key_rows st')" using rows that by simp
    moreover have "sk_status (activated ?u t x r) \<noteq> KRevoked" using that by (simp add: activated_def)
    ultimately show ?thesis
      unfolding in_published_jwks using that by (intro bexI [of _ "activated ?u t x r"]) simp_all
  qed
  moreover have "sk_public_jwk old \<in> set (published_jwks t (snd (maintain hash now' dbnow' fresh2 t policy' st')))"
    if old: "old \<in> set (key_rows st)" "sk_tenant old = t" "sk_alg old = alg" "sk_status old = KActive"
      "now' < ?u"
  proof -
    let ?o = "old\<lparr>sk_status := KRetiring, sk_expires_at := Some ?u\<rparr>"
    have "activated ?u t x old = ?o" using old rotated(2) [OF old(1)] rotated(4) by (simp add: activated_def)
    then have "?o \<in> set (key_rows st')" using rows old(1) by force
    from maintain_retiring [OF wf' this, of ?u now'] old(5)
    have "?o \<in> set (key_rows (snd (maintain hash now' dbnow' fresh2 t policy' st')))" by simp
    then show ?thesis
      unfolding in_published_jwks using old(2) by (intro bexI [of _ ?o]) simp_all
  qed
  moreover have "set (published_jwks t st) \<subseteq> set (published_jwks t st')"
    using calculation(2) unfolding in_published_jwks subset_iff by blast
  ultimately show ?thesis by blast
qed

lemma thumbprint_ok: "\<exists>kid. thumbprint hash (jwk_params n) = Inr kid"
  by (cases n) (auto simp: thumbprint_def thumbprint_members_def json_index_def Let_def)

text \<open>
  A key created with a start in the future and then activated takes the place of the
  signing key before it may sign: until its start, asking for the signing key of that
  algorithm fails, because the unique index refuses a new one.
\<close>

theorem activating_early_stops_signing:
  assumes wf: "keys_wf (key_rows st)"
    and made: "create_key hash now dbnow fresh t alg KPending (Some start) st = (Inr k, st1)"
    and act: "activate_key now1 t policy (sk_id k) st1 = (Inr k', st2)"
    and early: "dbnow' < start"
  shows "ensure_active_alg hash now' dbnow' fresh' t alg st2
    = (Inl (Internal ''no active key after creation''), st2)"
  using made
proof (cases rule: create_keyE [of hash now dbnow fresh t alg KPending "Some start" st])
  case (made k0 st0)
  then have k: "k0 = k" "st0 = st1" "key_rows st1 = key_rows st @ [k]" using assms(2) by auto
  have wf1: "keys_wf (key_rows st1)" using insert_wf wf made k by simp
  have "repo_find_key t (sk_id k) (key_rows st1) = Some k"
    by (rule iffD2 [OF find_key_iff [OF keys_wf_D(1) [OF wf1]]]) (use made k in simp)
  from activate_key_ok [OF keys_wf_D(1) [OF wf1] this, of now1 policy]
  have rows: "key_rows st2 = map (activated (overlap_end now1 policy) t k) (key_rows st1)"
    and k': "k' = k\<lparr>sk_status := KActive\<rparr>"
    using made k act by (auto simp: activated_def)
  have wf2: "keys_wf (key_rows st2)" using activate_wf [OF wf1, of now1 t policy "sk_id k"] act by simp
  have in2: "k' \<in> set (key_rows st2)" using rows k k' made by (auto simp: activated_def)
  have none: "repo_find_active dbnow' t alg (key_rows st2) = None"
  proof (rule ccontr)
    assume "repo_find_active dbnow' t alg (key_rows st2) \<noteq> None"
    then obtain a where "repo_find_active dbnow' t alg (key_rows st2) = Some a" by blast
    note a = find_activeD [OF this]
    then have "sk_id a = sk_id k'"
      using one_activeD [OF keys_wf_D(3) [OF wf2], of a k'] in2 k' made k by simp
    then have "a = k'" using a in2 keys_wf_D(1) [OF wf2] by (auto simp: distinct_map inj_on_def)
    then show False using a early made k k' by simp
  qed
  obtain kid where kid: "thumbprint hash (jwk_params (km_numbers fresh')) = Inr kid"
    using thumbprint_ok by blast
  have taken: "\<exists>r\<in>set (key_rows st2). sk_status r = KActive \<and> sk_tenant r = t \<and> sk_alg r = alg"
    by (rule bexI [OF _ in2]) (use k' made k in simp)
  have "create_key hash now' dbnow' fresh' t alg KActive None st2 = (Inl (Conflict ''already exists''), st2)"
    unfolding create_key_def generate_def kid Let_def repo_insert_key_def new_key_simps sum.case prod.case
    using taken by simp blast
  then show ?thesis using none by (simp add: ensure_active_alg_def first_key_def)
qed simp

section \<open>Witnesses\<close>

definition ex_material :: "nat \<Rightarrow> key_material" where
  "ex_material i = \<lparr>km_id = i, km_numbers = EdPoint (show_nat i), km_private_enc = []\<rparr>"

definition ex_keys :: key_state where
  "ex_keys = snd (create_key id 0 0 (ex_material 1) 1 EdDSA KActive None \<lparr>key_rows = [], key_events = []\<rparr>)"

definition ex_two_keys :: key_state where
  "ex_two_keys = snd (create_key id 0 0 (ex_material 2) 1 EdDSA KPending None ex_keys)"

lemma ex_keys_steps:
  "key_step id \<lparr>key_rows = [], key_events = []\<rparr> ex_keys" "key_step id ex_keys ex_two_keys"
  unfolding ex_keys_def ex_two_keys_def by (rule key_step.Create, simp)+

lemma ex_keys_wf: "keys_wf (key_rows ex_keys)" "keys_wf (key_rows ex_two_keys)"
  using key_step_wf [OF ex_keys_steps(1)] key_step_wf [OF ex_keys_steps(2)] by (simp_all add: keys_wf_Nil)

theorem keys_stay_well_formed_witness: "keys_wf (key_rows ex_two_keys)"
  by (rule keys_stay_well_formed [of id]) (meson ex_keys_steps rtranclp.simps)

lemma ex_revoked:
  "case revoke_key 5 1 1 ex_two_keys of
     (Inr k, st1) \<Rightarrow> published_jwks 1 (snd (maintain id 6 6 ex_material 2 default_key_policy st1)) \<noteq> []
   | (Inl e, st1) \<Rightarrow> False"
  by code_simp

theorem revoked_key_stays_unpublished_witness:
  "\<exists>k st1 jwk. revoke_key 5 1 1 ex_two_keys = (Inr k, st1) \<and>
     jwk \<in> set (published_jwks 1 (snd (maintain id 6 6 ex_material 2 default_key_policy st1))) \<and>
     json_get jwk ''kid'' \<noteq> Some (JStr (sk_kid k))"
proof -
  obtain k st1 jwk where "revoke_key 5 1 1 ex_two_keys = (Inr k, st1)"
    "jwk \<in> set (published_jwks 1 (snd (maintain id 6 6 ex_material 2 default_key_policy st1)))"
    using ex_revoked by (cases "revoke_key 5 1 1 ex_two_keys")
      (auto split: sum.splits simp: neq_Nil_conv intro!: that)
  with revoked_key_stays_unpublished [OF ex_keys_wf(2) this(1) rtranclp.rtrancl_refl this(2)]
  show ?thesis by blast
qed

lemma ex_rotated:
  "case rotate_alg id 10 10 (ex_material 3) 1 default_key_policy EdDSA ex_keys of
     (Inr k, st1) \<Rightarrow> True | (Inl e, st1) \<Rightarrow> False"
  "length (key_rows ex_keys) = 1 \<and> sk_tenant (hd (key_rows ex_keys)) = 1
   \<and> sk_alg (hd (key_rows ex_keys)) = EdDSA \<and> sk_status (hd (key_rows ex_keys)) = KActive"
  by code_simp+

theorem rotation_overlaps_witness:
  "\<exists>k st'. rotate_alg id 10 10 (ex_material 3) 1 default_key_policy EdDSA ex_keys = (Inr k, st') \<and>
     ensure_active_alg id 11 11 (ex_material 4) 1 EdDSA st' = (Inr k, st') \<and>
     sk_public_jwk (hd (key_rows ex_keys))
       \<in> set (published_jwks 1 (snd (maintain id 11 11 ex_material 1 default_key_policy st')))"
proof -
  obtain k st' where rot: "rotate_alg id 10 10 (ex_material 3) 1 default_key_policy EdDSA ex_keys = (Inr k, st')"
    using ex_rotated(1) by (cases "rotate_alg id 10 10 (ex_material 3) 1 default_key_policy EdDSA ex_keys")
      (auto split: sum.splits)
  have "11 < overlap_end 10 default_key_policy"
    by (simp add: overlap_end_def default_key_policy_def dur_secs_def nanos_per_sec_def)
  moreover have "hd (key_rows ex_keys) \<in> set (key_rows ex_keys)" using ex_rotated(2) by (cases "key_rows ex_keys") auto
  ultimately show ?thesis
    using rotation_overlaps [OF ex_keys_wf(1) rot, of 11 11 "ex_material 4" "hd (key_rows ex_keys)" ex_material
        default_key_policy] ex_rotated(2) rot by auto
qed

lemma ex_early:
  "case create_key id 10 10 (ex_material 3) 1 EdDSA KPending (Some 100) ex_keys of
     (Inr k, st1) \<Rightarrow> (case activate_key 10 1 default_key_policy (sk_id k) st1 of
        (Inr k', st2) \<Rightarrow> True | (Inl e, st2) \<Rightarrow> False)
   | (Inl e, st1) \<Rightarrow> False"
  by code_simp

theorem activating_early_stops_signing_witness:
  "\<exists>k st1 k' st2. create_key id 10 10 (ex_material 3) 1 EdDSA KPending (Some 100) ex_keys = (Inr k, st1) \<and>
     activate_key 10 1 default_key_policy (sk_id k) st1 = (Inr k', st2) \<and>
     ensure_active_alg id 50 50 (ex_material 4) 1 EdDSA st2
       = (Inl (Internal ''no active key after creation''), st2)"
proof -
  obtain r st1 where c: "create_key id 10 10 (ex_material 3) 1 EdDSA KPending (Some 100) ex_keys = (r, st1)"
    by fastforce
  then obtain k where k: "r = Inr k" using ex_early by (cases r) auto
  obtain r' st2 where a: "activate_key 10 1 default_key_policy (sk_id k) st1 = (r', st2)" by fastforce
  then obtain k' where "r' = Inr k'" using ex_early c k by (cases r') auto
  with c k a activating_early_stops_signing [OF ex_keys_wf(1), of id 10 10 "ex_material 3" 1 EdDSA 100 k st1
      10 default_key_policy k' st2 50 50 "ex_material 4"]
  show ?thesis by auto
qed

end
