(* ===== verification/Domain.thy ===== *)
theory Domain
  imports Signing_Keys Session_Store "HOL-Library.List_Lexorder" "HOL-Library.Char_ord"
begin

text \<open>
  The records the token service reads (\<open>api/src/models\<close>): tenants, clients, users, roles,
  groups, scopes, resource servers and claim mappers. Each has the fields the modelled
  code reads; the remaining columns (descriptions, URLs for display, timestamps of the
  admin console) carry no behaviour here. The database the service reads from is the
  record \<open>directory\<close>: what each query returns. What the program takes from libraries
  outside the repository is the record \<open>library\<close>.
\<close>

section \<open>Clients\<close>

datatype client_type = Spa | Web | Native | Machine | Device | Saml

datatype auth_method = AuthNone | ClientSecretBasic | ClientSecretPost | PrivateKeyJwt
  | TlsClientAuth | SelfSignedTlsClientAuth

datatype token_format = FormatJwt | FormatOpaque

datatype subject_type = SubjectPublic | SubjectPairwise

datatype delivery_mode = ModePoll | ModePing

datatype security_profile = ProfileNone | Fapi2

record client_secret =
  cs_hash :: string
  cs_expires_at :: "instant option"

definition secret_is_active :: "client_secret \<Rightarrow> instant \<Rightarrow> bool" where
  "secret_is_active s now = (case cs_expires_at s of None \<Rightarrow> True | Some t \<Rightarrow> now < t)"

record client =
  cl_id :: uuid
  cl_tenant :: uuid
  cl_client_id :: string
  cl_name :: string
  cl_type :: client_type
  cl_auth_method :: auth_method
  cl_redirect_uris :: "string list"
  cl_allowed_grants :: "string list"
  cl_allowed_scopes :: "string list"
  cl_allowed_audiences :: "string list"
  cl_access_token_ttl :: "int option"
  cl_refresh_token_ttl :: "int option"
  cl_id_token_ttl :: "int option"
  cl_format :: token_format
  cl_subject_type :: subject_type
  cl_sector_identifier_uri :: "string option"
  cl_id_token_scope_claims :: bool
  cl_dpop_bound :: bool
  cl_delivery_mode :: "delivery_mode option"
  cl_security_profile :: security_profile
  cl_require_par :: bool
  cl_certificate_bound :: bool
  cl_service_account :: "uuid option"
  cl_jwks :: "json option"
  cl_id_token_encryption :: "(string \<times> string) option"
  cl_require_pkce :: bool
  cl_active :: bool
  cl_secrets :: "client_secret list"
  cl_jwks_uri :: "string option"
  cl_cors_origins :: "string list"
  cl_tls_subject_dn :: "string option"
  cl_tls_san_dns :: "string option"
  cl_tls_san_uri :: "string option"
  cl_tls_san_ip :: "string option"
  cl_tls_san_email :: "string option"
  cl_require_consent :: bool

definition active_secrets :: "instant \<Rightarrow> client \<Rightarrow> client_secret list" where
  "active_secrets now c = filter (\<lambda>s. secret_is_active s now) (cl_secrets c)"

fun uses_certificate :: "auth_method \<Rightarrow> bool" where
  "uses_certificate TlsClientAuth = True"
| "uses_certificate SelfSignedTlsClientAuth = True"
| "uses_certificate _ = False"

definition is_public :: "client \<Rightarrow> bool" where
  "is_public c = (cl_auth_method c = AuthNone)"

definition allows_grant :: "client \<Rightarrow> string \<Rightarrow> bool" where
  "allows_grant c g = (g \<in> set (cl_allowed_grants c))"

definition is_fapi2 :: "client \<Rightarrow> bool" where
  "is_fapi2 c = (cl_security_profile c = Fapi2)"

definition requires_par :: "client \<Rightarrow> bool" where
  "requires_par c = (cl_require_par c \<or> is_fapi2 c)"

definition may_target :: "client \<Rightarrow> string \<Rightarrow> bool \<Rightarrow> bool" where
  "may_target c identifier built_in =
     (identifier \<in> set (cl_allowed_audiences c) \<or> (\<not> built_in \<and> cl_allowed_audiences c = []))"

definition grant_authorization_code :: string where "grant_authorization_code = ''authorization_code''"
definition grant_refresh_token :: string where "grant_refresh_token = ''refresh_token''"
definition grant_client_credentials :: string where "grant_client_credentials = ''client_credentials''"
definition grant_device_code :: string where
  "grant_device_code = ''urn:ietf:params:oauth:grant-type:device_code''"
definition grant_token_exchange :: string where
  "grant_token_exchange = ''urn:ietf:params:oauth:grant-type:token-exchange''"
definition grant_ciba :: string where "grant_ciba = ''urn:openid:params:grant-type:ciba''"

definition all_grants :: "string list" where
  "all_grants = [grant_authorization_code, grant_refresh_token, grant_client_credentials,
     grant_device_code, grant_token_exchange, grant_ciba]"

section \<open>Tenants, users, roles and groups\<close>

record rate_limit_policy =
  rl_enabled :: bool
  rl_window_secs :: nat
  rl_token_per_ip :: nat
  rl_authorize_per_ip :: nat
  rl_flows_per_ip :: nat
  rl_token_per_client :: nat
  rl_tenant_total :: nat

definition default_rate_limit_policy :: rate_limit_policy where
  "default_rate_limit_policy = \<lparr>rl_enabled = True, rl_window_secs = 60, rl_token_per_ip = 600,
     rl_authorize_per_ip = 300, rl_flows_per_ip = 600, rl_token_per_client = 1200, rl_tenant_total = 0\<rparr>"

record tenant =
  tn_id :: uuid
  tn_slug :: string
  tn_display_name :: string
  tn_custom_domain :: "string option"
  tn_pairwise_salt :: string
  tn_session_policy :: session_policy
  tn_key_policy :: key_policy
  tn_rate_limits :: rate_limit_policy

datatype user_status = UserActive | UserDisabled | UserLocked | UserPending | UserDeleted

record user =
  us_id :: uuid
  us_tenant :: uuid
  us_org :: "uuid option"
  us_username :: string
  us_email :: "string option"
  us_email_verified :: bool
  us_phone :: "string option"
  us_phone_verified :: bool
  us_status :: user_status
  us_attributes :: json
  us_locale :: "string option"
  us_locked_until :: "instant option"
  us_deleted_at :: "instant option"
  us_created_at :: instant
  us_updated_at :: instant

definition is_locked_now :: "instant \<Rightarrow> user \<Rightarrow> bool" where
  "is_locked_now now u = (us_status u = UserLocked \<or> (case us_locked_until u of None \<Rightarrow> False | Some l \<Rightarrow> now < l))"

record role =
  ro_id :: uuid
  ro_client :: "uuid option"
  ro_name :: string

record group =
  gr_id :: uuid
  gr_parent :: "uuid option"
  gr_name :: string

section \<open>Scopes, resource servers, mappers\<close>

record scope =
  sc_id :: uuid
  sc_name :: string
  sc_description :: "string option"
  sc_claims :: "string list"
  sc_resource_server :: "uuid option"
  sc_is_default :: bool

definition standard_scopes :: "string list" where
  "standard_scopes = [''openid'', ''profile'', ''email'', ''phone'', ''address'', ''offline_access'',
     ''features'']"

record resource_server =
  rs_id :: uuid
  rs_identifier :: string
  rs_token_ttl :: "int option"
  rs_signing_alg :: "string option"
  rs_allow_offline_access :: bool
  rs_built_in :: bool

datatype token_kind = KindAccess | KindId | KindUserinfo

datatype json_type = TypeString | TypeNumber | TypeBoolean | TypeJson

datatype mapper_kind =
    MapUserAttribute string string json_type
  | MapGroups string bool
  | MapRoles string "string option"
  | MapHardcoded string json
  | MapTemplate string string
  | MapAudience string

record claim_mapper =
  mp_name :: string
  mp_kind :: mapper_kind
  mp_include_in :: "token_kind list"

definition applies_to :: "claim_mapper \<Rightarrow> token_kind \<Rightarrow> bool" where
  "applies_to m k = (k \<in> set (mp_include_in m))"

fun kind_claim :: "mapper_kind \<Rightarrow> string option" where
  "kind_claim (MapUserAttribute a c t) = Some c"
| "kind_claim (MapGroups c p) = Some c"
| "kind_claim (MapRoles c i) = Some c"
| "kind_claim (MapHardcoded c v) = Some c"
| "kind_claim (MapTemplate c t) = Some c"
| "kind_claim (MapAudience a) = None"

definition claim_name :: "claim_mapper \<Rightarrow> string option" where
  "claim_name m = kind_claim (mp_kind m)"

definition PROTECTED_CLAIMS :: "string list" where
  "PROTECTED_CLAIMS = [''iss'', ''org_id'', ''features'', ''sub'', ''aud'', ''exp'', ''iat'', ''nbf'',
     ''jti'', ''azp'', ''at_hash'', ''c_hash'', ''nonce'', ''auth_time'', ''amr'', ''acr'', ''sid'',
     ''tid'', ''client_id'', ''scope'', ''typ'', ''cnf'', ''act'']"

datatype exposure = ExpIdToken | ExpUserinfo | ExpAccessToken

record attribute_def =
  at_name :: string
  at_visible_in :: "exposure list"

section \<open>What the service reads\<close>

record directory =
  dir_users :: "uuid \<Rightarrow> uuid \<Rightarrow> user option"
  dir_roles :: "uuid \<Rightarrow> uuid \<Rightarrow> uuid option \<Rightarrow> role list"
  dir_groups :: "uuid \<Rightarrow> uuid \<Rightarrow> group list"
  dir_scopes :: "uuid \<Rightarrow> scope list"
  dir_resources :: "uuid \<Rightarrow> resource_server list"
  dir_permissions :: "uuid \<Rightarrow> uuid \<Rightarrow> uuid list \<Rightarrow> string list"
  dir_mappers :: "uuid \<Rightarrow> uuid \<Rightarrow> claim_mapper list"
  dir_schema :: "uuid \<Rightarrow> attribute_def list"
  dir_features :: "uuid \<Rightarrow> uuid option \<Rightarrow> string list"

text \<open>
  What a verified JWT must satisfy, as the \<open>jsonwebtoken\<close> crate takes it: the leeway in
  seconds, whether \<open>exp\<close> and \<open>nbf\<close> are checked, the issuer and the accepted audiences
  where they are checked, and the claims that must be there.
\<close>

record validation =
  v_leeway :: nat
  v_exp :: bool
  v_nbf :: bool
  v_issuer :: "string option"
  v_audiences :: "string list option"
  v_required :: "string list"

text \<open>
  The crates outside the repository: \<open>uuid\<close>, \<open>url\<close>, \<open>serde\<close> (with its rendering of a
  user), \<open>serde_json\<close>, \<open>handlebars\<close>, the digests and base64 of the crypto crates,
  \<open>jsonwebtoken\<close>, and the RSA and AES of \<open>aws_lc_rs\<close> behind \<open>jwe::encrypt\<close> (\<open>l_jwe\<close>: the
  plaintext, the recipient's JWK, the key algorithm and the content encryption). Of a URL
  the code reads whether it has a fragment, its tuple origin, its text without query and
  fragment, and its scheme, host, path and query; \<open>l_form\<close> is \<open>form_urlencoded::parse\<close>.
\<close>

record library =
  l_show_uuid :: "uuid \<Rightarrow> string"
  l_parse_uuid :: "string \<Rightarrow> uuid option"
  l_uuid_bytes :: "uuid \<Rightarrow> string"
  l_digest :: "nat \<Rightarrow> string \<Rightarrow> string"
  l_b64 :: "string \<Rightarrow> string"
  l_url_host :: "string \<Rightarrow> string option"
  l_to_text :: "json \<Rightarrow> string"
  l_parse_map :: "string \<Rightarrow> claims option"
  l_user_json :: "user \<Rightarrow> json"
  l_parse_f64 :: "string \<Rightarrow> json option"
  l_render :: "string \<Rightarrow> json \<Rightarrow> string option"
  l_sign :: "signing_key \<Rightarrow> string \<Rightarrow> claims \<Rightarrow> string"
  l_header :: "string \<Rightarrow> (string option \<times> string option \<times> string) option"
  l_jwe :: "string \<Rightarrow> json \<Rightarrow> string \<Rightarrow> string \<Rightarrow> app_error + string"
  l_header_jwk :: "string \<Rightarrow> json option"
  l_url_fragment :: "string \<Rightarrow> bool option"
  l_url_origin :: "string \<Rightarrow> string option"
  l_url_no_query :: "string \<Rightarrow> string option"
  l_url_parts :: "string \<Rightarrow> (string \<times> string option \<times> string \<times> string option) option"
  l_form :: "string \<Rightarrow> (string \<times> string) list"
  l_b64_decode :: "string \<Rightarrow> string option"
  l_b64url_decode :: "string \<Rightarrow> string option"
  l_parse_json :: "string \<Rightarrow> json option"
  l_decode :: "json \<Rightarrow> validation \<Rightarrow> instant \<Rightarrow> string \<Rightarrow> claims option"

text \<open>\<open>URL_SAFE_NO_PAD.encode(Sha256::digest(s))\<close>, as every stored secret is hashed.\<close>

definition hash_b64 :: "library \<Rightarrow> string \<Rightarrow> string" where
  "hash_b64 lib s = l_b64 lib (l_digest lib 256 s)"

section \<open>A small tenant for the examples\<close>

definition ex_client :: client where
  "ex_client = \<lparr>cl_id = 7, cl_tenant = 1, cl_client_id = ''app'', cl_name = ''App'', cl_type = Web,
     cl_auth_method = ClientSecretBasic, cl_redirect_uris = [''https://app/cb''],
     cl_allowed_grants = all_grants, cl_allowed_scopes = [''openid'', ''orders''],
     cl_allowed_audiences = [''https://api''], cl_access_token_ttl = None, cl_refresh_token_ttl = None,
     cl_id_token_ttl = None, cl_format = FormatOpaque, cl_subject_type = SubjectPublic,
     cl_sector_identifier_uri = None, cl_id_token_scope_claims = False, cl_dpop_bound = False,
     cl_delivery_mode = Some ModePoll, cl_security_profile = ProfileNone, cl_require_par = False,
     cl_certificate_bound = False, cl_service_account = None, cl_jwks = None,
     cl_id_token_encryption = None, cl_require_pkce = True, cl_active = True,
     cl_secrets = [\<lparr>cs_hash = ''s3cret'', cs_expires_at = None\<rparr>], cl_jwks_uri = None,
     cl_cors_origins = [], cl_tls_subject_dn = None, cl_tls_san_dns = None, cl_tls_san_uri = None,
     cl_tls_san_ip = None, cl_tls_san_email = None, cl_require_consent = True\<rparr>"

definition ex_user :: user where
  "ex_user = \<lparr>us_id = 3, us_tenant = 1, us_org = None, us_username = ''ada'', us_email = None,
     us_email_verified = False, us_phone = None, us_phone_verified = False, us_status = UserActive,
     us_attributes = JObj [], us_locale = None, us_locked_until = None, us_deleted_at = None,
     us_created_at = 0, us_updated_at = 0\<rparr>"

definition ex_scope :: "string \<Rightarrow> uuid option \<Rightarrow> scope" where
  "ex_scope n rs = \<lparr>sc_id = length n, sc_name = n, sc_description = None, sc_claims = [],
     sc_resource_server = rs, sc_is_default = False\<rparr>"

definition ex_resource :: resource_server where
  "ex_resource = \<lparr>rs_id = 9, rs_identifier = ''https://api'', rs_token_ttl = None, rs_signing_alg = None,
     rs_allow_offline_access = True, rs_built_in = False\<rparr>"

definition ex_directory :: directory where
  "ex_directory = \<lparr>dir_users = (\<lambda>t u. if t = 1 \<and> u = 3 then Some ex_user else None),
     dir_roles = (\<lambda>t u org. []), dir_groups = (\<lambda>t u. []),
     dir_scopes = (\<lambda>t. [ex_scope ''openid'' None, ex_scope ''orders'' (Some 9)]),
     dir_resources = (\<lambda>t. [ex_resource]), dir_permissions = (\<lambda>t rs roles. []),
     dir_mappers = (\<lambda>t c. []), dir_schema = (\<lambda>t. []), dir_features = (\<lambda>t org. [])\<rparr>"

definition ex_library :: library where
  "ex_library = \<lparr>l_show_uuid = show_nat, l_parse_uuid = (\<lambda>s. Some (read_digits 0 s)),
     l_uuid_bytes = show_nat, l_digest = (\<lambda>n s. s), l_b64 = id,
     l_url_host = (\<lambda>u. None), l_to_text = (\<lambda>j. []), l_parse_map = (\<lambda>s. None), l_user_json = (\<lambda>u. JObj []),
     l_parse_f64 = (\<lambda>s. None), l_render = (\<lambda>t d. Some t),
     l_sign = (\<lambda>k typ c. sk_kid k), l_header = (\<lambda>t. None),
     l_jwe = (\<lambda>s k a e. Inr s), l_header_jwk = (\<lambda>t. None), l_url_fragment = (\<lambda>u. Some False),
     l_url_origin = Some, l_url_no_query = Some, l_url_parts = (\<lambda>u. None), l_form = (\<lambda>s. [(''v'', s)]),
     l_b64_decode = Some, l_b64url_decode = Some, l_parse_json = (\<lambda>s. None),
     l_decode = (\<lambda>j v now t. None)\<rparr>"

definition ex_tenant :: tenant where
  "ex_tenant = \<lparr>tn_id = 1, tn_slug = ''acme'', tn_display_name = ''Acme'', tn_custom_domain = None,
     tn_pairwise_salt = ''salt'', tn_session_policy = default_session_policy,
     tn_key_policy = default_key_policy, tn_rate_limits = default_rate_limit_policy\<rparr>"

lemmas ex_domain_defs = ex_client_def ex_user_def ex_scope_def ex_resource_def ex_directory_def

end
