(* ===== verification/Scopes.thy ===== *)
theory Scopes
  imports Domain
begin

text \<open>
  Scopes (\<open>api/src/services/scopes.rs\<close>): the grammar of names, the parsing of the
  \<open>scope\<close> parameter, what a new grant may ask for and what a token for given audiences
  may carry, and the administration of a tenant's scopes.
\<close>

section \<open>Operations\<close>

definition scope_char :: "char \<Rightarrow> bool" where
  "scope_char b = (of_char b \<in> {33..126 :: nat} \<and> b \<noteq> CHR 0x22 \<and> b \<noteq> CHR 0x5C)"

definition is_valid_scope_name :: "string \<Rightarrow> bool" where
  "is_valid_scope_name name = (name \<noteq> [] \<and> length name \<le> 128 \<and> list_all scope_char name)"

definition parse_scope_param :: "string \<Rightarrow> string list" where
  "parse_scope_param raw = push_all_new (filter (\<lambda>s. s \<noteq> []) (map trim (split_on (CHR '' '') raw))) []"

definition find_scope :: "scope list \<Rightarrow> string \<Rightarrow> scope option" where
  "find_scope defs name = find (\<lambda>d. sc_name d = name) defs"

definition resolve_scopes :: "scope list \<Rightarrow> string list \<Rightarrow> scope list \<times> string list" where
  "resolve_scopes all requested =
     (List.map_filter (find_scope all) requested, filter (\<lambda>r. find_scope all r = None) requested)"

definition filter_for_audience :: "string list \<Rightarrow> scope list \<Rightarrow> uuid list \<Rightarrow> bool \<Rightarrow> string list" where
  "filter_for_audience requested defs rs_ids offline_allowed =
     filter (\<lambda>name. case Option.bind (find_scope defs name) sc_resource_server of
                      None \<Rightarrow> True | Some rs \<Rightarrow> rs \<in> set rs_ids)
       (filter (\<lambda>name. offline_allowed \<or> name \<noteq> ''offline_access'') requested)"

definition granted_for_audience ::
  "directory \<Rightarrow> uuid \<Rightarrow> string list \<Rightarrow> uuid list \<Rightarrow> bool \<Rightarrow> string list" where
  "granted_for_audience dir t requested rs_ids offline_allowed =
     filter_for_audience requested (dir_scopes dir t) rs_ids offline_allowed"

definition defaults_for :: "scope list \<Rightarrow> string list \<Rightarrow> string list \<Rightarrow> string list" where
  "defaults_for defs allowed excluded =
     map sc_name (filter (\<lambda>d. sc_name d \<in> set allowed \<and> sc_name d \<notin> set excluded)
       (filter sc_is_default defs))"

definition requested_or_default ::
  "directory \<Rightarrow> uuid \<Rightarrow> string list \<Rightarrow> string list \<Rightarrow> string list \<Rightarrow> string list" where
  "requested_or_default dir t requested allowed excluded =
     (if requested \<noteq> [] then requested else defaults_for (dir_scopes dir t) allowed excluded)"

record requested_scopes =
  rq_scopes :: "string list"
  rq_bound_audiences :: "string list"

text \<open>The loop over the known scopes: the servers the bound ones belong to.\<close>

fun bound_audiences_of ::
  "directory \<Rightarrow> uuid \<Rightarrow> client \<Rightarrow> scope list \<Rightarrow> string list \<Rightarrow> oauth_error + string list" where
  "bound_audiences_of dir t client [] out = Inr out"
| "bound_audiences_of dir t client (s # ss) out =
     (case sc_resource_server s of
        None \<Rightarrow> bound_audiences_of dir t client ss out
      | Some rs_id' \<Rightarrow>
          (case find (\<lambda>r. rs_id r = rs_id') (dir_resources dir t) of
             None \<Rightarrow> Inl (oauth_of_app_error (NotFound ''resource server''))
           | Some rs \<Rightarrow>
               if may_target client (rs_identifier rs) (rs_built_in rs)
               then bound_audiences_of dir t client ss (push_new (rs_identifier rs) out)
               else Inl (oauth_err InvalidScope (''scope `'' @ sc_name s @ ''` belongs to resource `''
                      @ rs_identifier rs @ ''`, which this client may not target''))))"

definition validate_request ::
  "directory \<Rightarrow> uuid \<Rightarrow> client \<Rightarrow> string list \<Rightarrow> string list \<Rightarrow> bool \<Rightarrow> oauth_error + requested_scopes" where
  "validate_request dir t client requested0 excluded required =
     (let requested = requested_or_default dir t requested0 (cl_allowed_scopes client) excluded;
          (known, unknown) = resolve_scopes (dir_scopes dir t) requested;
          disallowed = filter (\<lambda>n. n \<notin> set (cl_allowed_scopes client)) (map sc_name known)
      in andThen (ensure (\<not> (requested = [] \<and> required)) (oauth_err InvalidScope ''scope is required'')) (\<lambda>_.
         andThen (ensure (unknown = [])
           (oauth_err InvalidScope (''unknown scope(s): '' @ join '' '' unknown))) (\<lambda>_.
         andThen (ensure (disallowed = [])
           (oauth_err InvalidScope (''scope(s) not allowed for this client: '' @ join '' '' disallowed))) (\<lambda>_.
         andThen (bound_audiences_of dir t client known []) (\<lambda>bound.
           Inr \<lparr>rq_scopes = requested, rq_bound_audiences = bound\<rparr>)))))"

definition with_bound_audiences :: "string list \<Rightarrow> string list \<Rightarrow> string list \<Rightarrow> string list" where
  "with_bound_audiences explicit client_default bound =
     (if bound = [] then explicit
      else push_all_new bound (if explicit = [] then client_default else explicit))"

text \<open>Administration; the table is the tenant's list of rows.\<close>

definition SCOPES_MAX :: nat where "SCOPES_MAX = 1000"

definition create_scope :: "scope \<Rightarrow> scope list \<Rightarrow> (app_error + scope) \<times> scope list" where
  "create_scope input rows =
     (if \<not> is_valid_scope_name (sc_name input) then (Inl (BadRequest ''invalid scope name''), rows)
      else if SCOPES_MAX \<le> length rows
      then (Inl (BadRequest (''a tenant can have at most '' @ show_nat SCOPES_MAX @ '' scopes'')), rows)
      else if sc_name input \<in> sc_name ` set rows then (Inl (Conflict ''scope already exists''), rows)
      else (Inr input, rows @ [input]))"

record scope_update =
  su_description :: "string option option"
  su_claims :: "string list option"
  su_is_default :: "bool option"
  su_resource_server :: "uuid option option"

definition scope_update_is_empty :: "scope_update \<Rightarrow> bool" where
  "scope_update_is_empty p = (su_description p = None \<and> su_claims p = None \<and> su_is_default p = None
     \<and> su_resource_server p = None)"

definition patched_scope :: "scope_update \<Rightarrow> scope \<Rightarrow> scope" where
  "patched_scope p s = s\<lparr>
     sc_description := (case su_description p of None \<Rightarrow> sc_description s | Some d \<Rightarrow> d),
     sc_claims := (case su_claims p of None \<Rightarrow> sc_claims s | Some c \<Rightarrow> c),
     sc_is_default := (case su_is_default p of None \<Rightarrow> sc_is_default s | Some b \<Rightarrow> b),
     sc_resource_server := (case su_resource_server p of None \<Rightarrow> sc_resource_server s | Some r \<Rightarrow> r)\<rparr>"

definition get_scope :: "uuid \<Rightarrow> scope list \<Rightarrow> app_error + scope" where
  "get_scope i rows = or_error (find (\<lambda>s. sc_id s = i) rows) (NotFound ''scope'')"

definition update_scope :: "uuid \<Rightarrow> scope_update \<Rightarrow> scope list \<Rightarrow> (app_error + scope) \<times> scope list" where
  "update_scope i p rows =
     (if scope_update_is_empty p then (get_scope i rows, rows)
      else (let rows' = update_where (\<lambda>s. sc_id s = i) (patched_scope p) rows
            in case find (\<lambda>s. sc_id s = i) rows' of
                 None \<Rightarrow> (Inl (NotFound ''scope''), rows)
               | Some s \<Rightarrow> (Inr s, rows')))"

definition delete_scope :: "uuid \<Rightarrow> scope list \<Rightarrow> (app_error + unit) \<times> scope list" where
  "delete_scope i rows =
     (if (case find (\<lambda>s. sc_id s = i) rows of None \<Rightarrow> False | Some s \<Rightarrow> sc_name s \<in> set standard_scopes)
      then (Inl (BadRequest ''standard scopes cannot be deleted''), rows)
      else if \<forall>s\<in>set rows. sc_id s \<noteq> i then (Inl (NotFound ''scope''), rows)
      else (Inr (), filter (\<lambda>s. sc_id s \<noteq> i) rows))"

section \<open>Lemmas\<close>

lemma scope_char_visible: "scope_char c \<Longrightarrow> visible c"
  by (simp add: scope_char_def visible_def)

lemma valid_scope_name_D:
  assumes "is_valid_scope_name n"
  shows "n \<noteq> []" "list_all visible n" "CHR '' '' \<notin> set n"
proof -
  show "n \<noteq> []" "list_all visible n"
    using assms scope_char_visible by (auto simp: is_valid_scope_name_def list_all_iff)
  moreover have "\<not> visible (CHR '' '')" by (simp add: visible_def)
  ultimately show "CHR '' '' \<notin> set n" by (auto simp: list_all_iff)
qed

lemma parse_scope_param_props:
  "distinct (parse_scope_param raw)" "s \<in> set (parse_scope_param raw) \<Longrightarrow> s \<noteq> []"
  by (auto simp: parse_scope_param_def)

lemma parse_join_scopes:
  assumes valid: "\<forall>n\<in>set names. is_valid_scope_name n" and "distinct names"
  shows "parse_scope_param (join '' '' names) = names"
proof (cases "names = []")
  case True
  have "trim [] = []" by (rule trim_visible) simp
  then show ?thesis using True by (simp add: parse_scope_param_def)
next
  case False
  have "split_on (CHR '' '') (join [CHR '' ''] names) = names"
    using valid valid_scope_name_D(3) False by (intro split_join) auto
  moreover have "map trim names = names"
    using valid valid_scope_name_D(2) trim_visible by (auto intro: map_idI)
  moreover have "filter (\<lambda>s. s \<noteq> []) names = names"
    using valid valid_scope_name_D(1) by (auto intro: filter_True)
  ultimately show ?thesis
    using assms(2) by (simp add: parse_scope_param_def push_all_new_distinct)
qed

lemma bound_audiences_targetable:
  assumes "bound_audiences_of dir t client ss out = Inr bound"
    and "\<forall>a\<in>set out. \<exists>rs\<in>set (dir_resources dir t). rs_identifier rs = a \<and> may_target client a (rs_built_in rs)"
  shows "\<forall>a\<in>set bound. \<exists>rs\<in>set (dir_resources dir t). rs_identifier rs = a \<and> may_target client a (rs_built_in rs)"
  using assms
proof (induction dir t client ss out rule: bound_audiences_of.induct)
  case (2 dir t client s ss out)
  show ?case
  proof (cases "sc_resource_server s")
    case None
    then show ?thesis using 2 by simp
  next
    case (Some i)
    with 2(3) obtain rs where rs: "find (\<lambda>r. rs_id r = i) (dir_resources dir t) = Some rs"
      "may_target client (rs_identifier rs) (rs_built_in rs)"
      by (auto split: option.splits if_splits)
    let ?out = "push_new (rs_identifier rs) out"
    have "bound_audiences_of dir t client ss ?out = Inr bound" using 2(3) Some rs by simp
    moreover have "\<forall>a\<in>set ?out. \<exists>rs\<in>set (dir_resources dir t). rs_identifier rs = a \<and>
        may_target client a (rs_built_in rs)"
      using 2(4) find_SomeD [OF rs(1)] rs(2) by (auto simp: push_new_def)
    ultimately show ?thesis by (rule 2(2) [OF Some rs])
  qed
qed simp

lemma resolve_known:
  assumes "resolve_scopes all requested = (known, [])"
  shows "map sc_name known = requested" "set known \<subseteq> set all"
proof -
  have all: "\<exists>d. find_scope all r = Some d \<and> sc_name d = r \<and> d \<in> set all" if "r \<in> set requested" for r
  proof -
    have "find_scope all r \<noteq> None"
      using assms that by (auto simp: resolve_scopes_def filter_empty_conv)
    then show ?thesis using find_SomeD by (fastforce simp: find_scope_def)
  qed
  have "known = List.map_filter (find_scope all) requested" using assms by (simp add: resolve_scopes_def)
  then have known: "known = map (\<lambda>r. the (find_scope all r)) requested"
    using all by (induction requested arbitrary: known) (force simp: List.map_filter_simps)+
  show "map sc_name known = requested"
    unfolding known map_map using all by (intro map_idI) force
  show "set known \<subseteq> set all" unfolding known using all by force
qed

lemma validate_request_Inr:
  assumes "validate_request dir t client requested0 excluded required = Inr r"
  obtains known where
    "rq_scopes r = requested_or_default dir t requested0 (cl_allowed_scopes client) excluded"
    "map sc_name known = rq_scopes r" "set known \<subseteq> set (dir_scopes dir t)"
    "set (rq_scopes r) \<subseteq> set (cl_allowed_scopes client)" "required \<Longrightarrow> rq_scopes r \<noteq> []"
    "bound_audiences_of dir t client known [] = Inr (rq_bound_audiences r)"
proof -
  let ?r = "requested_or_default dir t requested0 (cl_allowed_scopes client) excluded"
  obtain known unknown where res: "resolve_scopes (dir_scopes dir t) ?r = (known, unknown)" by fastforce
  with assms have u: "unknown = []"
    and dis: "filter (\<lambda>n. n \<notin> set (cl_allowed_scopes client)) (map sc_name known) = []"
    and b: "bound_audiences_of dir t client known [] = Inr (rq_bound_audiences r)"
    and s: "rq_scopes r = ?r" and "required \<Longrightarrow> ?r \<noteq> []"
    by (auto simp: validate_request_def Let_def andThen_Inr)
  with resolve_known [of "dir_scopes dir t" ?r known] res show thesis
    by (intro that [of known]) (auto simp: filter_empty_conv)
qed

section \<open>Properties\<close>

text \<open>
  The \<open>scope\<close> claim round-trips: writing distinct valid scope names separated by
  spaces and parsing the result gives the same list back. And whatever is parsed, the
  result has no duplicates and no empty names.
\<close>

theorem scope_param_roundtrip:
  "(list_all is_valid_scope_name names \<and> distinct names \<longrightarrow> parse_scope_param (join '' '' names) = names) \<and>
   distinct (parse_scope_param raw) \<and> [] \<notin> set (parse_scope_param raw)"
  using parse_join_scopes parse_scope_param_props by (auto simp: list_all_iff)

theorem scope_param_roundtrip_witness:
  "parse_scope_param (join '' '' [''openid'', ''read:users'']) = [''openid'', ''read:users'']"
proof -
  have "list_all is_valid_scope_name [''openid'', ''read:users''] \<and> distinct [''openid'', ''read:users'']"
    by (simp add: is_valid_scope_name_def scope_char_def)
  with scope_param_roundtrip [of "[''openid'', ''read:users'']" "[]"] show ?thesis by blast
qed

text \<open>
  A grant request that passes the check asks only for scopes the tenant defines and
  the client may hold, asks for at least one where one is required, and every audience a
  scope is bound to is a resource server of the tenant the client may target; a built-in
  resource server only when the client names it.
\<close>

theorem validated_scopes_are_allowed:
  assumes "validate_request dir t client requested excluded required = Inr r"
  shows "set (rq_scopes r) \<subseteq> set (cl_allowed_scopes client) \<inter> sc_name ` set (dir_scopes dir t) \<and>
    (required \<longrightarrow> rq_scopes r \<noteq> []) \<and>
    (a \<in> set (rq_bound_audiences r) \<longrightarrow>
       (\<exists>rs\<in>set (dir_resources dir t). rs_identifier rs = a \<and>
          (rs_built_in rs \<longrightarrow> a \<in> set (cl_allowed_audiences client))))"
proof (rule validate_request_Inr [OF assms])
  fix known
  assume known: "map sc_name known = rq_scopes r" "set known \<subseteq> set (dir_scopes dir t)"
    "set (rq_scopes r) \<subseteq> set (cl_allowed_scopes client)" "required \<Longrightarrow> rq_scopes r \<noteq> []"
    "bound_audiences_of dir t client known [] = Inr (rq_bound_audiences r)"
  have "set (rq_scopes r) \<subseteq> sc_name ` set (dir_scopes dir t)"
    using known(1,2) by (metis image_mono list.set_map)
  moreover have "\<forall>a\<in>set (rq_bound_audiences r). \<exists>rs\<in>set (dir_resources dir t).
      rs_identifier rs = a \<and> may_target client a (rs_built_in rs)"
    using bound_audiences_targetable [OF known(5)] by simp
  ultimately show ?thesis using known(3,4) by (fastforce simp: may_target_def)
qed

theorem validated_scopes_are_allowed_witness:
  "\<exists>r. validate_request ex_directory 1 ex_client [''openid'', ''orders''] [] True = Inr r \<and>
     set (rq_scopes r) \<subseteq> set (cl_allowed_scopes ex_client) \<inter> sc_name ` set (dir_scopes ex_directory 1) \<and>
     rq_scopes r \<noteq> [] \<and> rq_bound_audiences r = [''https://api'']"
proof -
  have "validate_request ex_directory 1 ex_client [''openid'', ''orders''] [] True
      = Inr \<lparr>rq_scopes = [''openid'', ''orders''], rq_bound_audiences = [''https://api'']\<rparr>"
    by (simp add: validate_request_def requested_or_default_def resolve_scopes_def find_scope_def
        ex_domain_defs List.map_filter_simps Let_def may_target_def push_new_def)
  with validated_scopes_are_allowed [OF this] show ?thesis by auto
qed

inductive scope_step :: "scope list \<Rightarrow> scope list \<Rightarrow> bool" where
  Create: "sc_id input \<notin> sc_id ` set rows \<Longrightarrow> scope_step rows (snd (create_scope input rows))"
| Update: "scope_step rows (snd (update_scope i p rows))"
| Delete: "scope_step rows (snd (delete_scope i rows))"

definition scopes_wf :: "scope list \<Rightarrow> bool" where
  "scopes_wf rows = (distinct (map sc_id rows) \<and> distinct (map sc_name rows) \<and>
     set standard_scopes \<subseteq> sc_name ` set rows)"

lemma update_scope_names:
  "map sc_name (snd (update_scope i p rows)) = map sc_name rows"
  "map sc_id (snd (update_scope i p rows)) = map sc_id rows"
  by (auto simp: update_scope_def Let_def update_where_def patched_scope_def split: option.split)

lemma delete_scope_wf:
  assumes "scopes_wf rows"
  shows "scopes_wf (snd (delete_scope i rows))"
proof (cases "find (\<lambda>s. sc_id s = i) rows")
  case None
  then show ?thesis using assms by (simp add: delete_scope_def find_None_iff)
next
  case (Some s)
  have s: "s \<in> set rows" "sc_id s = i" using find_SomeD [OF Some] by auto
  show ?thesis
  proof (cases "sc_name s \<in> set standard_scopes")
    case True
    then show ?thesis using assms Some by (simp add: delete_scope_def)
  next
    case False
    have "n \<in> sc_name ` set (filter (\<lambda>s. sc_id s \<noteq> i) rows)" if n: "n \<in> set standard_scopes" for n
    proof -
      obtain d where d: "d \<in> set rows" "sc_name d = n" using assms n by (auto simp: scopes_wf_def)
      have "sc_id d \<noteq> i"
        using False n d s assms by (auto simp: scopes_wf_def distinct_map inj_on_def)
      then show ?thesis using d by auto
    qed
    then show ?thesis using False Some s assms
      by (auto simp: delete_scope_def scopes_wf_def distinct_map_filter)
  qed
qed

interpretation scope_admin: kept_by_steps scope_step scopes_wf
proof
  fix rows rows'
  show "scope_step rows rows' \<Longrightarrow> scopes_wf rows \<Longrightarrow> scopes_wf rows'"
  proof (induction rule: scope_step.induct)
    case (Create input rows)
    then show ?case by (auto simp: create_scope_def scopes_wf_def)
  next
    case (Update rows i p)
    then show ?case
      unfolding scopes_wf_def update_scope_names
      using arg_cong [OF update_scope_names(1) [of i p rows], of set] by simp
  next
    case (Delete rows i)
    then show ?case by (rule delete_scope_wf)
  qed
qed

text \<open>
  Administration keeps a tenant's standard scopes: no sequence of creating, changing
  and deleting scopes removes or renames one, and names stay unique.
\<close>

theorem scope_admin_keeps_standard_scopes:
  assumes "scope_step\<^sup>*\<^sup>* rows rows'" "scopes_wf rows"
  shows "scopes_wf rows'"
  by (rule scope_admin.run_keeps [OF assms])

definition ex_scope_rows :: "scope list" where
  "ex_scope_rows = map (\<lambda>i. (ex_scope (standard_scopes ! i) None)\<lparr>sc_id := i\<rparr>) [0..<7]"

theorem scope_admin_keeps_standard_scopes_witness:
  "scopes_wf (snd (delete_scope 3 ex_scope_rows))"
proof -
  have wf: "scopes_wf ex_scope_rows"
    by (simp add: scopes_wf_def ex_scope_rows_def ex_scope_def standard_scopes_def upt_conv_Cons)
  have step: "scope_step\<^sup>*\<^sup>* ex_scope_rows (snd (delete_scope 3 ex_scope_rows))"
    by (rule r_into_rtranclp) (rule scope_step.Delete)
  from step wf show ?thesis by (rule scope_admin_keeps_standard_scopes)
qed

end
