(* ===== verification/Claims.thy ===== *)
theory Claims
  imports Scopes
begin

text \<open>
  Claim assembly (\<open>api/src/services/claims.rs\<close>, \<open>api/src/models/claim_mapper.rs\<close>): the
  claims the granted scopes release, the profile attributes exposed to a token, and the
  tenant's and client's claim mappers, with the claims the token service owns kept out of
  their reach.
\<close>

section \<open>Release of user data\<close>

definition standard_scope_claims :: "string \<Rightarrow> string list" where
  "standard_scope_claims scope =
     (if scope = ''profile'' then [''name'', ''family_name'', ''given_name'', ''middle_name'', ''nickname'',
        ''preferred_username'', ''profile'', ''picture'', ''website'', ''gender'', ''birthdate'',
        ''zoneinfo'', ''locale'', ''updated_at'']
      else if scope = ''email'' then [''email'', ''email_verified'']
      else if scope = ''phone'' then [''phone_number'', ''phone_number_verified'']
      else if scope = ''address'' then [''address'']
      else [])"

definition BUILDER_CLAIMS :: "string list" where
  "BUILDER_CLAIMS = [''roles'', ''groups'', ''permissions'']"

definition releasable :: "string \<Rightarrow> bool" where
  "releasable name = (name \<notin> set PROTECTED_CLAIMS \<and> name \<notin> set BUILDER_CLAIMS)"

definition json_uuid :: "library \<Rightarrow> uuid \<Rightarrow> json" where
  "json_uuid lib u = JStr (l_show_uuid lib u)"

definition user_field :: "library \<Rightarrow> user \<Rightarrow> string \<Rightarrow> json option" where
  "user_field lib u field =
     (if field = ''id'' then Some (json_uuid lib (us_id u))
      else if field = ''username'' then Some (JStr (us_username u))
      else if field = ''email'' then map_option JStr (us_email u)
      else if field = ''email_verified'' then Some (JBool (us_email_verified u))
      else if field = ''phone'' then map_option JStr (us_phone u)
      else if field = ''phone_verified'' then Some (JBool (us_phone_verified u))
      else if field = ''locale'' then map_option JStr (us_locale u)
      else if field = ''org_id'' then map_option (json_uuid lib) (us_org u)
      else if field = ''created_at'' then Some (JInt (timestamp (us_created_at u)))
      else if field = ''updated_at'' then Some (JInt (timestamp (us_updated_at u)))
      else None)"

definition profile_attr :: "user \<Rightarrow> string \<Rightarrow> json option" where
  "profile_attr u name =
     (case json_get (us_attributes u) name of None \<Rightarrow> None | Some JNull \<Rightarrow> None | Some v \<Rightarrow> Some v)"

definition user_attribute :: "library \<Rightarrow> user \<Rightarrow> string \<Rightarrow> json option" where
  "user_attribute lib u attribute =
     (if starts_with attribute ''attributes.'' then profile_attr u (drop 11 attribute)
      else case user_field lib u attribute of Some v \<Rightarrow> Some v | None \<Rightarrow> profile_attr u attribute)"

fun is_object :: "json \<Rightarrow> bool" where
  "is_object (JObj ms) = True"
| "is_object _ = False"

definition release_claim :: "library \<Rightarrow> user \<Rightarrow> string \<Rightarrow> json option" where
  "release_claim lib u name =
     (if \<not> releasable name then None
      else if name = ''preferred_username'' then Some (JStr (us_username u))
      else if name = ''email'' then map_option JStr (us_email u)
      else if name = ''email_verified'' then map_option (\<lambda>_. JBool (us_email_verified u)) (us_email u)
      else if name = ''phone_number'' then map_option JStr (us_phone u)
      else if name = ''phone_number_verified'' then map_option (\<lambda>_. JBool (us_phone_verified u)) (us_phone u)
      else if name = ''locale'' then map_option JStr (us_locale u)
      else if name = ''updated_at'' then Some (JInt (timestamp (us_updated_at u)))
      else if name = ''address'' then
        (case json_get (us_attributes u) ''address'' of
           None \<Rightarrow> None | Some v \<Rightarrow> if is_object v then Some v else None)
      else user_attribute lib u name)"

fun release_names :: "library \<Rightarrow> user \<Rightarrow> string list \<Rightarrow> claims \<Rightarrow> claims" where
  "release_names lib u [] out = out"
| "release_names lib u (n # ns) out =
     release_names lib u ns
       (if map_of out n \<noteq> None then out
        else case release_claim lib u n of None \<Rightarrow> out | Some v \<Rightarrow> set_member n v out)"

definition scope_claim_names :: "scope list \<Rightarrow> string \<Rightarrow> string list" where
  "scope_claim_names defs granted =
     (case find_scope defs granted of Some d \<Rightarrow> sc_claims d | None \<Rightarrow> standard_scope_claims granted)"

definition scope_claims :: "library \<Rightarrow> user \<Rightarrow> string list \<Rightarrow> scope list \<Rightarrow> claims" where
  "scope_claims lib u granted defs =
     fold (\<lambda>s. release_names lib u (scope_claim_names defs s)) granted []"

definition standard_claims :: "library \<Rightarrow> user \<Rightarrow> string list \<Rightarrow> claims" where
  "standard_claims lib u granted = scope_claims lib u granted []"

definition profile_claims :: "user \<Rightarrow> attribute_def list \<Rightarrow> exposure \<Rightarrow> claims \<Rightarrow> claims" where
  "profile_claims u schema exposure claims0 =
     fold (\<lambda>d claims.
       if \<not> releasable (at_name d) \<or> map_of claims (at_name d) \<noteq> None then claims
       else case profile_attr u (at_name d) of None \<Rightarrow> claims | Some v \<Rightarrow> set_member (at_name d) v claims)
       (filter (\<lambda>a. exposure \<in> set (at_visible_in a)) schema) claims0"

section \<open>Mappers\<close>

record claim_context =
  cx_tenant :: tenant
  cx_user :: "user option"
  cx_client_id :: string
  cx_scopes :: "string list"
  cx_roles :: "role list"
  cx_groups :: "group list"

fun owned_by_kind :: "mapper_kind \<Rightarrow> string \<Rightarrow> bool" where
  "owned_by_kind (MapRoles c i) name = (name = ''roles'')"
| "owned_by_kind (MapGroups c p) name = (name = ''groups'')"
| "owned_by_kind _ name = False"

definition mapper_claim_refusal :: "claim_mapper \<Rightarrow> string option" where
  "mapper_claim_refusal m =
     (case claim_name m of
        None \<Rightarrow> None
      | Some name \<Rightarrow>
          if name \<in> set PROTECTED_CLAIMS then Some (''claim `'' @ name @ ''` is set by the token service'')
          else if name \<in> set BUILDER_CLAIMS \<and> \<not> owned_by_kind (mp_kind m) name then
            Some (if name = ''permissions'' then ''claim `permissions` is computed from the audience's grants''
                  else ''claim `'' @ name @ ''` may only be written by a `'' @ name @ ''` mapper'')
          else None)"

fun coerce :: "library \<Rightarrow> json \<Rightarrow> json_type \<Rightarrow> json option" where
  "coerce lib v TypeJson = Some v"
| "coerce lib v TypeString =
     (case v of JStr s \<Rightarrow> Some (JStr s) | JNull \<Rightarrow> None | _ \<Rightarrow> Some (JStr (l_to_text lib v)))"
| "coerce lib v TypeNumber =
     (case v of JInt i \<Rightarrow> Some v | JFloat f \<Rightarrow> Some v | JStr s \<Rightarrow> l_parse_f64 lib s | _ \<Rightarrow> None)"
| "coerce lib v TypeBoolean =
     (case v of JBool b \<Rightarrow> Some v
      | JStr s \<Rightarrow> if s = ''true'' then Some (JBool True)
                  else if s = ''false'' then Some (JBool False) else None
      | _ \<Rightarrow> None)"

text \<open>The walk to the root of a group, at most 64 steps.\<close>

fun ancestors :: "nat \<Rightarrow> group list \<Rightarrow> uuid option \<Rightarrow> string list" where
  "ancestors 0 all parent = []"
| "ancestors (Suc n) all None = []"
| "ancestors (Suc n) all (Some pid) =
     (case find (\<lambda>x. gr_id x = pid) all of
        None \<Rightarrow> []
      | Some p \<Rightarrow> gr_name p # ancestors n all (gr_parent p))"

definition group_path :: "group \<Rightarrow> group list \<Rightarrow> string" where
  "group_path g all = join ''/'' (rev (gr_name g # ancestors 64 all (gr_parent g)))"

text \<open>A \<open>BTreeSet\<close> of names as a JSON array: sorted, without duplicates.\<close>

definition json_set_of :: "string list \<Rightarrow> json" where
  "json_set_of names = JArr (map JStr (sort (remdups names)))"

definition json_opt :: "('a \<Rightarrow> json) \<Rightarrow> 'a option \<Rightarrow> json" where
  "json_opt f x = (case x of None \<Rightarrow> JNull | Some a \<Rightarrow> f a)"

definition template_data :: "library \<Rightarrow> claim_context \<Rightarrow> json" where
  "template_data lib ctx = JObj [
     (''user'', json_opt (l_user_json lib) (cx_user ctx)),
     (''tenant'', JObj [(''slug'', JStr (tn_slug (cx_tenant ctx))), (''id'', json_uuid lib (tn_id (cx_tenant ctx))),
        (''display_name'', JStr (tn_display_name (cx_tenant ctx)))]),
     (''client'', JObj [(''client_id'', JStr (cx_client_id ctx))]),
     (''roles'', JArr (map (JStr \<circ> ro_name) (cx_roles ctx))),
     (''groups'', JArr (map (JStr \<circ> gr_name) (cx_groups ctx))),
     (''scopes'', JArr (map JStr (cx_scopes ctx)))]"

fun mapper_output :: "library \<Rightarrow> claim_context \<Rightarrow> mapper_kind \<Rightarrow> (string \<times> json) option" where
  "mapper_output lib ctx (MapUserAttribute attribute claim json_type) =
     (case cx_user ctx of
        None \<Rightarrow> None
      | Some u \<Rightarrow>
          (case user_attribute lib u attribute of
             None \<Rightarrow> None
           | Some v \<Rightarrow> map_option (\<lambda>v'. (claim, v')) (coerce lib v json_type)))"
| "mapper_output lib ctx (MapGroups claim full_path) =
     (if cx_user ctx = None then None
      else Some (claim, json_set_of
        (map (\<lambda>g. if full_path then group_path g (cx_groups ctx) else gr_name g) (cx_groups ctx))))"
| "mapper_output lib ctx (MapRoles claim client) =
     Some (claim, json_set_of (map ro_name (filter (\<lambda>r. case client of
         None \<Rightarrow> ro_client r = None
       | Some c \<Rightarrow> (case ro_client r of None \<Rightarrow> False | Some i \<Rightarrow> l_show_uuid lib i = c)) (cx_roles ctx))))"
| "mapper_output lib ctx (MapHardcoded claim v) = Some (claim, v)"
| "mapper_output lib ctx (MapTemplate claim template) =
     (case l_render lib template (template_data lib ctx) of
        None \<Rightarrow> None
      | Some rendered \<Rightarrow> if rendered = [] then None else Some (claim, JStr rendered))"
| "mapper_output lib ctx (MapAudience a) = None"

fun apply_mapper :: "library \<Rightarrow> claim_context \<Rightarrow> token_kind \<Rightarrow> claim_mapper \<Rightarrow> string list \<times> claims \<Rightarrow> string list \<times> claims" where
  "apply_mapper lib ctx kind m (audiences, claims) =
     (if mapper_claim_refusal m \<noteq> None then (audiences, claims)
      else (case mp_kind m of
          MapAudience a \<Rightarrow> (if kind = KindAccess then audiences @ [a] else audiences, claims)
        | k \<Rightarrow> (audiences, case mapper_output lib ctx k of None \<Rightarrow> claims | Some (c, v) \<Rightarrow> set_member c v claims)))"

definition apply_mappers ::
  "library \<Rightarrow> claim_mapper list \<Rightarrow> claim_context \<Rightarrow> token_kind \<Rightarrow> claims \<Rightarrow> string list \<times> claims" where
  "apply_mappers lib mappers ctx kind claims =
     fold (apply_mapper lib ctx kind) (filter (\<lambda>m. applies_to m kind) mappers) ([], claims)"

section \<open>Lemmas\<close>

lemma release_claim_releasable: "release_claim lib u n = Some v \<Longrightarrow> releasable n"
  by (rule ccontr) (simp add: release_claim_def)

lemma release_names_owned:
  assumes "\<not> releasable c" shows "map_of (release_names lib u ns out) c = map_of out c"
proof (induction ns arbitrary: out)
  case (Cons n ns)
  then show ?case
    using assms release_claim_releasable [of lib u n] by (auto split: option.split)
qed simp

lemma scope_claims_owned:
  assumes "\<not> releasable c" shows "map_of (scope_claims lib u granted defs) c = None"
proof -
  have "map_of (fold (\<lambda>s. release_names lib u (scope_claim_names defs s)) granted out) c = map_of out c" for out
    by (induction granted arbitrary: out) (simp_all add: release_names_owned [OF assms])
  then show ?thesis by (simp add: scope_claims_def)
qed

lemma profile_claims_owned:
  assumes "\<not> releasable c" shows "map_of (profile_claims u schema exposure out) c = map_of out c"
proof -
  have "map_of (fold (\<lambda>d claims.
       if \<not> releasable (at_name d) \<or> map_of claims (at_name d) \<noteq> None then claims
       else case profile_attr u (at_name d) of None \<Rightarrow> claims | Some v \<Rightarrow> set_member (at_name d) v claims) ds out) c = map_of out c" for ds
    using assms by (induction ds arbitrary: out) (auto split: option.split)
  then show ?thesis by (simp add: profile_claims_def)
qed

lemma mapper_output_claim: "mapper_output lib ctx k = Some (c, v) \<Longrightarrow> kind_claim k = Some c"
  by (cases k) (auto split: option.splits if_splits)

lemma apply_mapper_owned:
  assumes "c \<in> set PROTECTED_CLAIMS \<or> c = ''permissions''"
  shows "map_of (snd (apply_mapper lib ctx kind m (a, claims))) c = map_of claims c"
proof (cases "mapper_claim_refusal m")
  case None
  have other: "c' \<noteq> c" if "kind_claim (mp_kind m) = Some c'" for c'
  proof
    assume "c' = c"
    then have "c \<notin> set PROTECTED_CLAIMS \<and> (c \<in> set BUILDER_CLAIMS \<longrightarrow> owned_by_kind (mp_kind m) c)"
      using None that by (simp add: mapper_claim_refusal_def claim_name_def split: if_splits)
    with assms have "owned_by_kind (mp_kind m) ''permissions''" by (simp add: BUILDER_CLAIMS_def)
    then show False by (cases "mp_kind m") auto
  qed
  then show ?thesis
    using None mapper_output_claim [of lib ctx "mp_kind m"]
    by (auto split: mapper_kind.split option.split)
qed simp

lemma apply_mappers_owned:
  assumes "c \<in> set PROTECTED_CLAIMS \<or> c = ''permissions''"
  shows "map_of (snd (apply_mappers lib mappers ctx kind claims)) c = map_of claims c"
proof -
  have "map_of (snd (fold (apply_mapper lib ctx kind) ms p)) c = map_of (snd p) c" for ms p
  proof (induction ms arbitrary: p)
    case (Cons m ms)
    then show ?case by (cases p) (simp add: apply_mapper_owned [OF assms] del: apply_mapper.simps)
  qed simp
  then show ?thesis by (simp add: apply_mappers_def)
qed

section \<open>Properties\<close>

text \<open>
  The claims the token service owns are out of reach: neither the scopes of a grant,
  nor the profile attributes of a user, nor any configured claim mapper writes a
  protected claim or \<open>permissions\<close>, whatever their configuration.
\<close>

theorem owned_claims_cannot_be_mapped:
  assumes "c \<in> set PROTECTED_CLAIMS \<or> c = ''permissions''"
  shows "map_of (snd (apply_mappers lib mappers ctx kind
           (profile_claims u schema exposure (scope_claims lib u granted defs)))) c = None"
proof -
  have "\<not> releasable c" using assms by (auto simp: releasable_def BUILDER_CLAIMS_def)
  then show ?thesis
    by (simp add: apply_mappers_owned [OF assms] profile_claims_owned scope_claims_owned)
qed

definition ex_context :: claim_context where
  "ex_context = \<lparr>cx_tenant = ex_tenant, cx_user = Some ex_user, cx_client_id = ''app'', cx_scopes = [],
     cx_roles = [], cx_groups = []\<rparr>"

theorem owned_claims_cannot_be_mapped_witness:
  "map_of (snd (apply_mappers ex_library
     [\<lparr>mp_name = ''m'', mp_kind = MapHardcoded ''sub'' (JStr ''root''), mp_include_in = [KindAccess]\<rparr>]
     ex_context KindAccess (profile_claims ex_user [] ExpAccessToken
       (scope_claims ex_library ex_user [''profile''] [])))) ''sub'' = None"
  by (rule owned_claims_cannot_be_mapped) (simp add: PROTECTED_CLAIMS_def)

end
