(* ===== verification/Tokens.thy ===== *)
theory Tokens
  imports Claims Refresh_Tokens "HOL-Library.Countable"
begin

text \<open>
  Token issuance and verification (\<open>api/src/services/tokens.rs\<close>, \<open>opaque_tokens.rs\<close>,
  \<open>denylist.rs\<close>, \<open>api/src/oidc/fapi.rs\<close>): access tokens as signed JWTs or as opaque
  references to stored claims, ID tokens, the checks a presented token must pass, and
  the denylist of token ids. A request reads the clock once. An ID token is
  encrypted for a client that registered for it (\<open>services/jwe.rs\<close>), with the encryption a
  parameter.
\<close>

section \<open>State\<close>

record token_state =
  tk_keys :: key_state
  tk_opaque_tenant :: "(string, string) kv"
  tk_opaque_claims :: "(uuid \<times> string, claims) kv"
  tk_denied :: "(uuid \<times> string, unit) kv"

section \<open>Denylist\<close>

definition deny :: "instant \<Rightarrow> uuid \<Rightarrow> string \<Rightarrow> instant \<Rightarrow> token_state \<Rightarrow> token_state" where
  "deny now t jti expires_at st =
     (let ttl = num_seconds (expires_at - now)
      in if ttl \<le> 0 then st
         else st\<lparr>tk_denied := kv_set_ex now (nat ttl) (t, jti) () (tk_denied st)\<rparr>)"

definition is_denied :: "instant \<Rightarrow> uuid \<Rightarrow> string \<Rightarrow> token_state \<Rightarrow> bool" where
  "is_denied now t jti st = (kv_get now (t, jti) (tk_denied st) \<noteq> None)"

section \<open>Opaque access tokens\<close>

definition opaque_prefix :: string where "opaque_prefix = ''at_''"

definition looks_like :: "string \<Rightarrow> bool" where
  "looks_like token = (starts_with token opaque_prefix \<and> length token \<le> 128)"

definition opaque_token :: "string \<Rightarrow> string" where
  "opaque_token random = opaque_prefix @ random"

definition tenant_of :: "library \<Rightarrow> claims \<Rightarrow> uuid option" where
  "tenant_of lib c = Option.bind (Option.bind (map_of c ''tid'') as_str) (l_parse_uuid lib)"

definition opaque_issue ::
  "library \<Rightarrow> instant \<Rightarrow> string \<Rightarrow> claims \<Rightarrow> instant \<Rightarrow> token_state \<Rightarrow> (app_error + string) \<times> token_state" where
  "opaque_issue lib now random claims expires_at st =
     (case tenant_of lib claims of
        None \<Rightarrow> (Inl (Internal ''an opaque access token needs a `tid` claim''), st)
      | Some t \<Rightarrow>
          (let ttl_ms = max 1 (num_milliseconds (expires_at - now));
               until = Some (now + ttl_ms * 1000000);
               token = opaque_token random;
               h = hash_b64 lib token
           in (Inr token, st\<lparr>tk_opaque_claims := kv_set_until until (t, h) claims (tk_opaque_claims st),
                 tk_opaque_tenant := kv_set_until until h (l_show_uuid lib t) (tk_opaque_tenant st)\<rparr>)))"

text \<open>An entry that is no tenant id holds the claims themselves (the older format).\<close>

definition opaque_lookup ::
  "library \<Rightarrow> instant \<Rightarrow> string \<Rightarrow> token_state \<Rightarrow> (uuid \<times> claims) option" where
  "opaque_lookup lib now token st =
     (if \<not> looks_like token then None
      else let h = hash_b64 lib token in
        case kv_get now h (tk_opaque_tenant st) of
          None \<Rightarrow> None
        | Some entry \<Rightarrow>
            (case (case l_parse_uuid lib entry of
                     Some t \<Rightarrow> kv_get now (t, h) (tk_opaque_claims st)
                   | None \<Rightarrow> l_parse_map lib entry) of
               None \<Rightarrow> None
             | Some claims \<Rightarrow> map_option (\<lambda>t. (t, claims)) (tenant_of lib claims)))"

definition opaque_revoke :: "library \<Rightarrow> instant \<Rightarrow> string \<Rightarrow> token_state \<Rightarrow> token_state" where
  "opaque_revoke lib now token st =
     (if \<not> looks_like token then st
      else let h = hash_b64 lib token;
               st1 = (case Option.bind (kv_get now h (tk_opaque_tenant st)) (l_parse_uuid lib) of
                        None \<Rightarrow> st
                      | Some t \<Rightarrow> st\<lparr>tk_opaque_claims := kv_del (t, h) (tk_opaque_claims st)\<rparr>)
           in st1\<lparr>tk_opaque_tenant := kv_del h (tk_opaque_tenant st1)\<rparr>)"

section \<open>FAPI 2.0 algorithms\<close>

fun allows_signing :: "signing_alg \<Rightarrow> bool" where
  "allows_signing ES256 = True"
| "allows_signing EdDSA = True"
| "allows_signing _ = False"

definition fapi_signing_alg :: "tenant \<Rightarrow> signing_alg" where
  "fapi_signing_alg t =
     (let d = kp_default_alg (tn_key_policy t) in if allows_signing d then d else ES256)"

section \<open>Requests\<close>

record token_client =
  tc_client_id :: string
  tc_subject_type :: subject_type
  tc_sector_identifier :: "string option"
  tc_access_token_ttl :: nat
  tc_id_token_ttl :: nat
  tc_mappers :: "claim_mapper list"
  tc_id_token_scope_claims :: bool
  tc_format :: token_format
  tc_access_token_alg :: "signing_alg option"
  tc_id_token_alg :: "signing_alg option"
  tc_permissions :: "string list"
  tc_not_after :: "instant option"
  tc_id_token_encryption :: "(json \<times> string \<times> string) option"

definition first_some :: "'a option \<Rightarrow> 'a option \<Rightarrow> 'a option" where
  "first_some a b = (case a of None \<Rightarrow> b | Some x \<Rightarrow> Some x)"

definition ttl_or :: "int option \<Rightarrow> nat \<Rightarrow> nat" where
  "ttl_or s d = (case s of None \<Rightarrow> d | Some n \<Rightarrow> nat (max n 1))"

text \<open>The recipient key of encrypted ID tokens: the first RSA key for encryption, or the first RSA key.\<close>

definition jwe_key_algs :: "string list" where "jwe_key_algs = [''RSA-OAEP-256'', ''RSA-OAEP'']"
definition jwe_content_encs :: "string list" where "jwe_content_encs = [''A256GCM'', ''A128GCM'']"

definition rsa_key :: "json \<Rightarrow> bool" where
  "rsa_key k = (json_index k ''kty'' = JStr ''RSA'')"

definition id_token_encryption_of :: "client \<Rightarrow> (json \<times> string \<times> string) option" where
  "id_token_encryption_of c =
     (case (cl_id_token_encryption c, cl_jwks c) of
        (Some (alg, enc), Some jwks) \<Rightarrow>
          (if alg \<in> set jwe_key_algs \<and> enc \<in> set jwe_content_encs then
             (case as_array (json_index jwks ''keys'') of
                None \<Rightarrow> None
              | Some ks \<Rightarrow> map_option (\<lambda>k. (k, alg, enc))
                  (first_some (find (\<lambda>k. rsa_key k \<and> json_index k ''use'' = JStr ''enc'') ks) (find rsa_key ks)))
           else None)
      | _ \<Rightarrow> None)"

definition token_client_of :: "library \<Rightarrow> client \<Rightarrow> tenant \<Rightarrow> claim_mapper list \<Rightarrow> token_client" where
  "token_client_of lib c t mappers =
     (let fapi_alg = (if is_fapi2 c then Some (fapi_signing_alg t) else None)
      in \<lparr>tc_client_id = cl_client_id c, tc_subject_type = cl_subject_type c,
         tc_sector_identifier =
           first_some (Option.bind (cl_sector_identifier_uri c) (l_url_host lib))
             (case cl_redirect_uris c of [] \<Rightarrow> None | u # us \<Rightarrow> l_url_host lib u),
         tc_access_token_ttl = ttl_or (cl_access_token_ttl c) (access_token_ttl_secs (tn_session_policy t)),
         tc_id_token_ttl = ttl_or (cl_id_token_ttl c) (id_token_ttl_secs (tn_session_policy t)),
         tc_mappers = mappers, tc_id_token_scope_claims = cl_id_token_scope_claims c,
         tc_format = cl_format c, tc_access_token_alg = fapi_alg, tc_id_token_alg = fapi_alg,
         tc_permissions = [], tc_not_after = None, tc_id_token_encryption = id_token_encryption_of c\<rparr>)"

record access_request =
  ar_tenant :: tenant
  ar_client :: token_client
  ar_user :: "user option"
  ar_scopes :: "string list"
  ar_audiences :: "string list"
  ar_roles :: "role list"
  ar_groups :: "group list"
  ar_session :: "uuid option"
  ar_auth_time :: "instant option"
  ar_amr :: "string list"
  ar_acr :: "string option"
  ar_org :: "uuid option"
  ar_cnf_jkt :: "string option"
  ar_cnf_x5t :: "string option"
  ar_act :: "json option"

record id_request =
  iq_tenant :: tenant
  iq_client :: token_client
  iq_user :: user
  iq_scopes :: "string list"
  iq_roles :: "role list"
  iq_groups :: "group list"
  iq_session :: "uuid option"
  iq_auth_time :: instant
  iq_org :: "uuid option"
  iq_nonce :: "string option"
  iq_amr :: "string list"
  iq_acr :: "string option"
  iq_access_token :: "string option"
  iq_code :: "string option"
  iq_act :: "json option"

record issued_token =
  it_token :: string
  it_claims :: claims
  it_kid :: string
  it_expires_at :: instant

section \<open>Issuance\<close>

record config =
  cf_public_url :: string
  cf_ui_url :: string
  cf_mtls_public_url :: "string option"
  cf_rate_limits_enabled :: bool
  cf_ip_per_minute :: nat

definition trim_end_slashes :: "string \<Rightarrow> string" where
  "trim_end_slashes s = rev (dropWhile (\<lambda>c. c = CHR ''/'') (rev s))"

definition issuer :: "config \<Rightarrow> tenant \<Rightarrow> string" where
  "issuer cfg t =
     (case tn_custom_domain t of
        Some host \<Rightarrow> ''https://'' @ host
      | None \<Rightarrow> trim_end_slashes (cf_public_url cfg) @ ''/t/'' @ tn_slug t)"

definition subject_for :: "library \<Rightarrow> tenant \<Rightarrow> token_client \<Rightarrow> user \<Rightarrow> string" where
  "subject_for lib t c u =
     (case tc_subject_type c of
        SubjectPublic \<Rightarrow> l_show_uuid lib (us_id u)
      | SubjectPairwise \<Rightarrow>
          (let sector = (case tc_sector_identifier c of None \<Rightarrow> tc_client_id c | Some s \<Rightarrow> s)
           in hash_b64 lib (sector @ ''|'' @ l_uuid_bytes lib (us_id u) @ ''|'' @ tn_pairwise_salt t)))"

fun digest_bits :: "signing_alg \<Rightarrow> nat" where
  "digest_bits RS256 = 256"
| "digest_bits ES256 = 256"
| "digest_bits RS384 = 384"
| "digest_bits RS512 = 512"
| "digest_bits EdDSA = 512"

definition half_hash :: "library \<Rightarrow> signing_alg \<Rightarrow> string \<Rightarrow> string" where
  "half_hash lib alg input =
     (let d = l_digest lib (digest_bits alg) input in l_b64 lib (take (length d div 2) d))"

text \<open>\<open>chrono::Duration::from_std(secs).unwrap_or_default()\<close>.\<close>

definition from_std :: "nat \<Rightarrow> duration" where
  "from_std secs = (if secs \<le> 9223372036854775 then dur_secs (int secs) else 0)"

text \<open>\<open>Vec::dedup\<close> removes repeated neighbours.\<close>

fun dedup :: "'a list \<Rightarrow> 'a list" where
  "dedup [] = []"
| "dedup [x] = [x]"
| "dedup (x # y # ys) = (if x = y then dedup (y # ys) else x # dedup (y # ys))"

definition put_opt :: "string \<Rightarrow> json option \<Rightarrow> claims \<Rightarrow> claims" where
  "put_opt k v c = (case v of None \<Rightarrow> c | Some x \<Rightarrow> set_member k x c)"

definition strings :: "string list \<Rightarrow> json" where
  "strings xs = JArr (map JStr xs)"

definition cnf_claim :: "string option \<Rightarrow> string option \<Rightarrow> json option" where
  "cnf_claim jkt x5t =
     (let cnf = put_opt ''x5t#S256'' (map_option JStr x5t) (put_opt ''jkt'' (map_option JStr jkt) [])
      in if cnf = [] then None else Some (JObj cnf))"

text \<open>
  The part of the claims the service itself writes, over what the mappers left: the
  registered claims, roles and groups unless a mapper reshaped them, and the context of
  the sign-in.
\<close>

definition registered_claims ::
  "library \<Rightarrow> config \<Rightarrow> directory \<Rightarrow> instant \<Rightarrow> instant \<Rightarrow> uuid \<Rightarrow> access_request \<Rightarrow> string list \<Rightarrow> claims \<Rightarrow> claims" where
  "registered_claims lib cfg dir now exp jti req aud claims0 =
     (let t = ar_tenant req; c = ar_client req;
          sub = (case ar_user req of Some u \<Rightarrow> subject_for lib t c u | None \<Rightarrow> tc_client_id c);
          c1 = set_member ''iss'' (JStr (issuer cfg t)) claims0;
          c2 = set_member ''sub'' (JStr sub) c1;
          c3 = set_member ''aud'' (case aud of [a] \<Rightarrow> JStr a | _ \<Rightarrow> strings aud) c2;
          c4 = set_member ''client_id'' (JStr (tc_client_id c)) c3;
          c5 = set_member ''azp'' (JStr (tc_client_id c)) c4;
          c6 = set_member ''iat'' (JInt (timestamp now)) c5;
          c7 = set_member ''nbf'' (JInt (timestamp now)) c6;
          c8 = set_member ''exp'' (JInt (timestamp exp)) c7;
          c9 = set_member ''jti'' (json_uuid lib jti) c8;
          c10 = set_member ''tid'' (json_uuid lib (tn_id t)) c9;
          c11 = set_member ''scope'' (JStr (join '' '' (ar_scopes req))) c10;
          c12 = put_opt ''org_id'' (map_option (json_uuid lib) (ar_org req)) c11
      in put_opt ''features'' (if ''features'' \<in> set (ar_scopes req)
           then Some (strings (dir_features dir (tn_id t) (ar_org req))) else None) c12)"

definition put_absent :: "string \<Rightarrow> json \<Rightarrow> claims \<Rightarrow> claims" where
  "put_absent k v c = (if map_of c k = None then set_member k v c else c)"

definition member_claims :: "access_request \<Rightarrow> claims \<Rightarrow> claims" where
  "member_claims req c =
     (if ar_user req = None then c
      else put_absent ''groups'' (strings (map gr_name (ar_groups req)))
             (put_absent ''roles'' (strings (map ro_name (ar_roles req))) c))"

definition nonempty_strings :: "string list \<Rightarrow> json option" where
  "nonempty_strings xs = (if xs = [] then None else Some (strings xs))"

definition context_claims :: "library \<Rightarrow> access_request \<Rightarrow> claims \<Rightarrow> claims" where
  "context_claims lib req c0 =
     (let c1 = put_opt ''permissions'' (nonempty_strings (tc_permissions (ar_client req))) c0;
          c2 = put_opt ''sid'' (map_option (json_uuid lib) (ar_session req)) c1;
          c3 = put_opt ''auth_time'' (map_option (\<lambda>a. JInt (timestamp a)) (ar_auth_time req)) c2;
          c4 = put_opt ''amr'' (nonempty_strings (ar_amr req)) c3;
          c5 = put_opt ''acr'' (map_option JStr (ar_acr req)) c4;
          c6 = put_opt ''cnf'' (cnf_claim (ar_cnf_jkt req) (ar_cnf_x5t req)) c5
      in put_opt ''act'' (ar_act req) c6)"

definition access_claims ::
  "library \<Rightarrow> config \<Rightarrow> directory \<Rightarrow> instant \<Rightarrow> instant \<Rightarrow> uuid \<Rightarrow> access_request \<Rightarrow> string list \<Rightarrow> claims \<Rightarrow> claims" where
  "access_claims lib cfg dir now exp jti req aud claims0 =
     context_claims lib req (member_claims req (registered_claims lib cfg dir now exp jti req aud claims0))"

definition mapped_claims ::
  "library \<Rightarrow> directory \<Rightarrow> access_request \<Rightarrow> string list \<times> claims" where
  "mapped_claims lib dir req =
     apply_mappers lib (tc_mappers (ar_client req))
       \<lparr>cx_tenant = ar_tenant req, cx_user = ar_user req, cx_client_id = tc_client_id (ar_client req),
        cx_scopes = ar_scopes req, cx_roles = ar_roles req, cx_groups = ar_groups req\<rparr> KindAccess
       (case ar_user req of
          None \<Rightarrow> []
        | Some u \<Rightarrow> profile_claims u (dir_schema dir (tn_id (ar_tenant req))) ExpAccessToken [])"

definition access_exp :: "instant \<Rightarrow> token_client \<Rightarrow> instant" where
  "access_exp now c =
     (let exp = now + from_std (tc_access_token_ttl c)
      in case tc_not_after c of None \<Rightarrow> exp | Some limit \<Rightarrow> min exp limit)"

text \<open>Fresh inputs of an issuance: the token id, random characters and key material.\<close>

record token_fresh =
  tf_jti :: uuid
  tf_random :: string
  tf_key :: key_material
  tf_id_key :: key_material

definition signing_key_for ::
  "library \<Rightarrow> instant \<Rightarrow> instant \<Rightarrow> key_material \<Rightarrow> tenant \<Rightarrow> signing_alg option \<Rightarrow> token_state
     \<Rightarrow> (app_error + signing_key) \<times> token_state" where
  "signing_key_for lib now dbnow fresh t alg st =
     (let a = (case alg of Some x \<Rightarrow> x | None \<Rightarrow> kp_default_alg (tn_key_policy t));
          (r, keys) = ensure_active_alg (hash_b64 lib) now dbnow fresh (tn_id t) a (tk_keys st)
      in (r, st\<lparr>tk_keys := keys\<rparr>))"

definition access_token_claims ::
  "library \<Rightarrow> config \<Rightarrow> directory \<Rightarrow> instant \<Rightarrow> uuid \<Rightarrow> access_request \<Rightarrow> claims" where
  "access_token_claims lib cfg dir now jti req =
     (let (extra_aud, claims0) = mapped_claims lib dir req;
          aud = ar_audiences req @ extra_aud;
          aud' = dedup (if aud = [] then [tc_client_id (ar_client req)] else aud)
      in access_claims lib cfg dir now (access_exp now (ar_client req)) jti req aud' claims0)"

definition issue_access_token ::
  "library \<Rightarrow> config \<Rightarrow> directory \<Rightarrow> instant \<Rightarrow> instant \<Rightarrow> token_fresh \<Rightarrow> access_request \<Rightarrow> token_state
     \<Rightarrow> (app_error + issued_token) \<times> token_state" where
  "issue_access_token lib cfg dir now dbnow fresh req st =
     (let exp = access_exp now (ar_client req);
          claims = access_token_claims lib cfg dir now (tf_jti fresh) req
      in if tc_format (ar_client req) = FormatOpaque then
           (case opaque_issue lib now (tf_random fresh) claims exp st of
              (Inl e, st1) \<Rightarrow> (Inl e, st1)
            | (Inr token, st1) \<Rightarrow>
                (Inr \<lparr>it_token = token, it_claims = claims, it_kid = [], it_expires_at = exp\<rparr>, st1))
         else
           (case signing_key_for lib now dbnow (tf_key fresh) (ar_tenant req)
                   (tc_access_token_alg (ar_client req)) st of
              (Inl e, st1) \<Rightarrow> (Inl e, st1)
            | (Inr key, st1) \<Rightarrow>
                (Inr \<lparr>it_token = l_sign lib key ''at+jwt'' claims, it_claims = claims,
                     it_kid = sk_kid key, it_expires_at = exp\<rparr>, st1)))"

definition id_token_claims ::
  "library \<Rightarrow> config \<Rightarrow> directory \<Rightarrow> instant \<Rightarrow> signing_alg \<Rightarrow> id_request \<Rightarrow> claims" where
  "id_token_claims lib cfg dir now alg req =
     (let t = iq_tenant req; c = iq_client req; u = iq_user req;
          exp = now + from_std (tc_id_token_ttl c);
          base = (if tc_id_token_scope_claims c
                  then scope_claims lib u (iq_scopes req) (dir_scopes dir (tn_id t)) else []);
          (_, c0) = apply_mappers lib (tc_mappers c)
            \<lparr>cx_tenant = t, cx_user = Some u, cx_client_id = tc_client_id c, cx_scopes = iq_scopes req,
             cx_roles = iq_roles req, cx_groups = iq_groups req\<rparr> KindId
            (profile_claims u (dir_schema dir (tn_id t)) ExpIdToken base);
          c1 = set_member ''iss'' (JStr (issuer cfg t)) c0;
          c2 = set_member ''sub'' (JStr (subject_for lib t c u)) c1;
          c3 = set_member ''aud'' (JStr (tc_client_id c)) c2;
          c4 = set_member ''azp'' (JStr (tc_client_id c)) c3;
          c5 = set_member ''iat'' (JInt (timestamp now)) c4;
          c6 = set_member ''exp'' (JInt (timestamp exp)) c5;
          c7 = set_member ''auth_time'' (JInt (timestamp (iq_auth_time req))) c6;
          c8 = set_member ''tid'' (json_uuid lib (tn_id t)) c7;
          c9 = put_opt ''org_id'' (map_option (json_uuid lib) (iq_org req)) c8;
          c10 = (if ''features'' \<in> set (iq_scopes req)
                 then set_member ''features'' (strings (dir_features dir (tn_id t) (iq_org req))) c9 else c9);
          c11 = put_opt ''nonce'' (map_option JStr (iq_nonce req)) c10;
          c12 = put_opt ''sid'' (map_option (json_uuid lib) (iq_session req)) c11;
          c13 = (if iq_amr req \<noteq> [] then set_member ''amr'' (strings (iq_amr req)) c12 else c12);
          c14 = put_opt ''acr'' (map_option JStr (iq_acr req)) c13;
          c15 = put_opt ''at_hash'' (map_option (JStr \<circ> half_hash lib alg) (iq_access_token req)) c14;
          c16 = put_opt ''c_hash'' (map_option (JStr \<circ> half_hash lib alg) (iq_code req)) c15
      in put_opt ''act'' (iq_act req) c16)"

definition encrypted :: "library \<Rightarrow> (json \<times> string \<times> string) option \<Rightarrow> string \<Rightarrow> app_error + string" where
  "encrypted lib e jws = (case e of None \<Rightarrow> Inr jws | Some (jwk, alg, enc) \<Rightarrow> l_jwe lib jws jwk alg enc)"

definition issue_id_token ::
  "library \<Rightarrow> config \<Rightarrow> directory \<Rightarrow> instant \<Rightarrow> instant \<Rightarrow> token_fresh \<Rightarrow> id_request \<Rightarrow> token_state
     \<Rightarrow> (app_error + issued_token) \<times> token_state" where
  "issue_id_token lib cfg dir now dbnow fresh req st =
     (case signing_key_for lib now dbnow (tf_id_key fresh) (iq_tenant req) (tc_id_token_alg (iq_client req)) st of
        (Inl e, st1) \<Rightarrow> (Inl e, st1)
      | (Inr key, st1) \<Rightarrow>
          (let claims = id_token_claims lib cfg dir now (sk_alg key) req
           in (case encrypted lib (tc_id_token_encryption (iq_client req)) (l_sign lib key ''JWT'' claims) of
                 Inl e \<Rightarrow> (Inl e, st1)
               | Inr token \<Rightarrow>
                   (Inr \<lparr>it_token = token, it_claims = claims, it_kid = sk_kid key,
                        it_expires_at = now + from_std (tc_id_token_ttl (iq_client req))\<rparr>, st1))))"

section \<open>Verification\<close>

record verify_options =
  vo_audience :: "string option"
  vo_typ :: "string option"
  vo_leeway :: nat
  vo_allow_expired :: bool
  vo_check_denylist :: bool

definition default_verify_options :: verify_options where
  "default_verify_options = \<lparr>vo_audience = None, vo_typ = None, vo_leeway = 30,
     vo_allow_expired = False, vo_check_denylist = True\<rparr>"

definition verification_key :: "uuid \<Rightarrow> string \<Rightarrow> token_state \<Rightarrow> (signing_alg \<times> json) option" where
  "verification_key t kid st =
     (case find (\<lambda>jwk. as_str (json_index jwk ''kid'') = Some kid \<and>
                   Option.bind (as_str (json_index jwk ''alg'')) parse_alg \<noteq> None)
             (rev (published_jwks t (tk_keys st))) of
        None \<Rightarrow> None
      | Some jwk \<Rightarrow> map_option (\<lambda>a. (a, jwk)) (Option.bind (as_str (json_index jwk ''alg'')) parse_alg))"

definition jti_denied :: "instant \<Rightarrow> uuid \<Rightarrow> claims \<Rightarrow> token_state \<Rightarrow> bool" where
  "jti_denied now t claims st =
     (case Option.bind (map_of claims ''jti'') as_str of None \<Rightarrow> False | Some j \<Rightarrow> is_denied now t j st)"

definition verify_jwt ::
  "library \<Rightarrow> config \<Rightarrow> instant \<Rightarrow> tenant \<Rightarrow> string \<Rightarrow> verify_options \<Rightarrow> token_state \<Rightarrow> app_error + claims" where
  "verify_jwt lib cfg now t token opts st =
     andThen (or_error (l_header lib token) Unauthorized) (\<lambda>(kid, typ, alg).
     andThen (or_error kid Unauthorized) (\<lambda>kid.
     andThen (ensure (vo_typ opts = None \<or> typ = vo_typ opts) Unauthorized) (\<lambda>_.
     andThen (or_error (verification_key (tn_id t) kid st) Unauthorized) (\<lambda>(key_alg, jwk).
     andThen (ensure (alg_as_str key_alg = alg) Unauthorized) (\<lambda>_.
     andThen (or_error (l_decode lib jwk \<lparr>v_leeway = vo_leeway opts, v_exp = \<not> vo_allow_expired opts,
                 v_nbf = True, v_issuer = Some (issuer cfg t), v_audiences = map_option (\<lambda>a. [a]) (vo_audience opts),
                 v_required = [''exp'', ''iss'']\<rparr> now token) Unauthorized) (\<lambda>claims.
     andThen (ensure (\<not> (vo_check_denylist opts \<and> jti_denied now (tn_id t) claims st)) Unauthorized) (\<lambda>_.
       Inr claims)))))))"

definition aud_matches :: "string \<Rightarrow> json option \<Rightarrow> bool" where
  "aud_matches expected aud =
     (case aud of Some (JStr a) \<Rightarrow> a = expected | Some (JArr xs) \<Rightarrow> JStr expected \<in> set xs | _ \<Rightarrow> False)"

definition check_opaque ::
  "instant \<Rightarrow> tenant \<Rightarrow> claims \<Rightarrow> verify_options \<Rightarrow> token_state \<Rightarrow> app_error + claims" where
  "check_opaque now t claims opts st =
     (let exp = (case Option.bind (map_of claims ''exp'') as_int of None \<Rightarrow> 0 | Some e \<Rightarrow> e)
      in andThen (ensure (vo_allow_expired opts \<or> \<not> (exp + as_i64 (vo_leeway opts) \<le> timestamp now)) Unauthorized) (\<lambda>_.
         andThen (ensure (case vo_audience opts of None \<Rightarrow> True
             | Some expected \<Rightarrow> aud_matches expected (map_of claims ''aud'')) Unauthorized) (\<lambda>_.
         andThen (ensure (\<not> (vo_check_denylist opts \<and> jti_denied now (tn_id t) claims st)) Unauthorized) (\<lambda>_.
           Inr claims))))"

definition verify_access ::
  "library \<Rightarrow> config \<Rightarrow> instant \<Rightarrow> tenant \<Rightarrow> string \<Rightarrow> verify_options \<Rightarrow> token_state \<Rightarrow> app_error + claims" where
  "verify_access lib cfg now t token opts st =
     (if \<not> looks_like token then verify_jwt lib cfg now t token (opts\<lparr>vo_typ := Some ''at+jwt''\<rparr>) st
      else andThen (or_error (opaque_lookup lib now token st) Unauthorized) (\<lambda>(tid, claims).
           andThen (ensure (tid = tn_id t) Unauthorized) (\<lambda>_. check_opaque now t claims opts st)))"

definition subject_user_id ::
  "library \<Rightarrow> instant \<Rightarrow> tenant \<Rightarrow> claims \<Rightarrow> auth_state \<Rightarrow> uuid option \<times> auth_state" where
  "subject_user_id lib now t claims w =
     (case Option.bind (Option.bind (map_of claims ''sub'') as_str) (l_parse_uuid lib) of
        Some i \<Rightarrow> (Some i, w)
      | None \<Rightarrow>
          (case Option.bind (Option.bind (map_of claims ''sid'') as_str) (l_parse_uuid lib) of
             None \<Rightarrow> (None, w)
           | Some sid \<Rightarrow>
               (let (s, w') = get_session now (tn_id t) sid (tn_session_policy t) w
                in (map_option ss_user s, w'))))"

section \<open>What a token carries\<close>

lemma map_of_put_opt [simp]:
  "map_of (put_opt k v c) k' = (if k' = k \<and> v \<noteq> None then v else map_of c k')"
  by (cases v) (simp_all add: put_opt_def)

lemma map_of_member_claims:
  "k \<noteq> ''roles'' \<Longrightarrow> k \<noteq> ''groups'' \<Longrightarrow> map_of (member_claims req c) k = map_of c k"
  by (simp add: member_claims_def put_absent_def)

text \<open>Each claim of \<open>access_claims\<close>, over what was there before.\<close>

lemmas access_claims_defs = access_claims_def context_claims_def registered_claims_def Let_def

lemma access_claims_always:
  "map_of (access_claims lib cfg dir now exp jti req aud c) ''iss'' = Some (JStr (issuer cfg (ar_tenant req)))"
  "map_of (access_claims lib cfg dir now exp jti req aud c) ''sub'' = Some (JStr (case ar_user req of
     Some u \<Rightarrow> subject_for lib (ar_tenant req) (ar_client req) u | None \<Rightarrow> tc_client_id (ar_client req)))"
  "map_of (access_claims lib cfg dir now exp jti req aud c) ''client_id'' = Some (JStr (tc_client_id (ar_client req)))"
  "map_of (access_claims lib cfg dir now exp jti req aud c) ''nbf'' = Some (JInt (timestamp now))"
  "map_of (access_claims lib cfg dir now exp jti req aud c) ''exp'' = Some (JInt (timestamp exp))"
  "map_of (access_claims lib cfg dir now exp jti req aud c) ''jti'' = Some (json_uuid lib jti)"
  "map_of (access_claims lib cfg dir now exp jti req aud c) ''tid'' = Some (json_uuid lib (tn_id (ar_tenant req)))"
  "map_of (access_claims lib cfg dir now exp jti req aud c) ''scope'' = Some (JStr (join '' '' (ar_scopes req)))"
  by (simp_all add: access_claims_defs map_of_member_claims)

lemma access_claims_optional:
  "map_of (access_claims lib cfg dir now exp jti req aud c) ''act''
     = (if ar_act req \<noteq> None then ar_act req else map_of c ''act'')"
  "map_of (access_claims lib cfg dir now exp jti req aud c) ''cnf''
     = (if cnf_claim (ar_cnf_jkt req) (ar_cnf_x5t req) \<noteq> None then cnf_claim (ar_cnf_jkt req) (ar_cnf_x5t req)
        else map_of c ''cnf'')"
  "map_of (access_claims lib cfg dir now exp jti req aud c) ''sid''
     = (if ar_session req \<noteq> None then map_option (json_uuid lib) (ar_session req) else map_of c ''sid'')"
  "map_of (access_claims lib cfg dir now exp jti req aud c) ''org_id''
     = (if ar_org req \<noteq> None then map_option (json_uuid lib) (ar_org req) else map_of c ''org_id'')"
  "map_of (access_claims lib cfg dir now exp jti req aud c) ''acr''
     = (if ar_acr req \<noteq> None then map_option JStr (ar_acr req) else map_of c ''acr'')"
  "map_of (access_claims lib cfg dir now exp jti req aud c) ''amr''
     = (if ar_amr req \<noteq> [] then Some (strings (ar_amr req)) else map_of c ''amr'')"
  "map_of (access_claims lib cfg dir now exp jti req aud c) ''permissions''
     = (if tc_permissions (ar_client req) \<noteq> [] then Some (strings (tc_permissions (ar_client req)))
        else map_of c ''permissions'')"
  by (simp_all add: access_claims_defs map_of_member_claims nonempty_strings_def)

lemma mapped_claims_owned:
  assumes "c \<in> set PROTECTED_CLAIMS \<or> c = ''permissions''"
  shows "map_of (snd (mapped_claims lib dir req)) c = None"
proof -
  have "\<not> releasable c" using assms by (auto simp: releasable_def BUILDER_CLAIMS_def)
  then show ?thesis
    by (simp add: mapped_claims_def apply_mappers_owned [OF assms] profile_claims_owned split: option.split)
qed

lemma mapped_claims_protected:
  "map_of (snd (mapped_claims lib dir req)) ''act'' = None"
  "map_of (snd (mapped_claims lib dir req)) ''cnf'' = None"
  "map_of (snd (mapped_claims lib dir req)) ''sid'' = None"
  "map_of (snd (mapped_claims lib dir req)) ''org_id'' = None"
  "map_of (snd (mapped_claims lib dir req)) ''acr'' = None"
  "map_of (snd (mapped_claims lib dir req)) ''amr'' = None"
  "map_of (snd (mapped_claims lib dir req)) ''permissions'' = None"
  by (rule mapped_claims_owned, simp add: PROTECTED_CLAIMS_def)+

lemma access_token_claims_eq:
  "\<exists>aud. access_token_claims lib cfg dir now jti req
     = access_claims lib cfg dir now (access_exp now (ar_client req)) jti req aud (snd (mapped_claims lib dir req))"
  by (auto simp: access_token_claims_def Let_def split: prod.split)

lemma access_exp_le: "tc_not_after c = Some limit \<Longrightarrow> access_exp now c \<le> limit"
  by (simp add: access_exp_def Let_def)

lemma timestamp_mono: "a \<le> b \<Longrightarrow> timestamp a \<le> timestamp b"
  by (simp add: timestamp_def zdiv_mono1 nanos_per_sec_def)

section \<open>Verification\<close>

text \<open>
  What the code relies on from outside: identifiers parse back, a signed token starts
  with a base64url JOSE header that names its key, type and algorithm, and decoding it
  with the key that signed it gives its claims back while the checked claims hold.
\<close>

definition uuid_ok :: "library \<Rightarrow> bool" where
  "uuid_ok lib = (\<forall>u. l_parse_uuid lib (l_show_uuid lib u) = Some u)"

definition jwt_ok :: "library \<Rightarrow> bool" where
  "jwt_ok lib =
     ((\<forall>k typ c. l_header lib (l_sign lib k typ c) = Some (Some (sk_kid k), Some typ, alg_as_str (sk_alg k))) \<and>
      (\<forall>k typ c. starts_with (l_sign lib k typ c) ''eyJ'') \<and>
      (\<forall>k typ c v now i e n.
         v_issuer v = Some i \<and> v_required v = [''exp'', ''iss''] \<and>
         map_of c ''iss'' = Some (JStr i) \<and> v_audiences v = None \<and>
         map_of c ''exp'' = Some (JInt e) \<and> timestamp now < e \<and>
         map_of c ''nbf'' = Some (JInt n) \<and> n \<le> timestamp now \<longrightarrow>
         l_decode lib (sk_public_jwk k) v now (l_sign lib k typ c) = Some c))"

lemma jwt_okD:
  assumes "jwt_ok lib"
  shows "l_header lib (l_sign lib k typ c) = Some (Some (sk_kid k), Some typ, alg_as_str (sk_alg k))"
    "\<not> looks_like (l_sign lib k typ c)"
    "v_issuer v = Some i \<Longrightarrow> v_required v = [''exp'', ''iss''] \<Longrightarrow> map_of c ''iss'' = Some (JStr i) \<Longrightarrow> v_audiences v = None \<Longrightarrow> map_of c ''exp'' = Some (JInt e) \<Longrightarrow>
     timestamp now < e \<Longrightarrow> map_of c ''nbf'' = Some (JInt n) \<Longrightarrow> n \<le> timestamp now \<Longrightarrow>
     l_decode lib (sk_public_jwk k) v now (l_sign lib k typ c) = Some c"
proof -
  show "l_header lib (l_sign lib k typ c) = Some (Some (sk_kid k), Some typ, alg_as_str (sk_alg k))"
    using assms by (simp add: jwt_ok_def)
  have "starts_with (l_sign lib k typ c) ''eyJ''" using assms by (simp add: jwt_ok_def)
  then show "\<not> looks_like (l_sign lib k typ c)"
    by (auto simp: looks_like_def opaque_prefix_def starts_with_iff)
  show "v_issuer v = Some i \<Longrightarrow> v_required v = [''exp'', ''iss''] \<Longrightarrow> map_of c ''iss'' = Some (JStr i) \<Longrightarrow> v_audiences v = None \<Longrightarrow> map_of c ''exp'' = Some (JInt e) \<Longrightarrow>
     timestamp now < e \<Longrightarrow> map_of c ''nbf'' = Some (JInt n) \<Longrightarrow> n \<le> timestamp now \<Longrightarrow>
     l_decode lib (sk_public_jwk k) v now (l_sign lib k typ c) = Some c"
    using assms unfolding jwt_ok_def by blast
qed

lemma verification_key_published:
  assumes wf: "keys_wf (key_rows (tk_keys st))"
    and k: "k \<in> set (key_rows (tk_keys st))" "sk_tenant k = t" "sk_status k \<noteq> KRevoked"
  shows "verification_key t (sk_kid k) st = Some (sk_alg k, sk_public_jwk k)"
proof -
  let ?p = "\<lambda>jwk. as_str (json_index jwk ''kid'') = Some (sk_kid k) \<and>
    Option.bind (as_str (json_index jwk ''alg'')) parse_alg \<noteq> None"
  have named: "json_get (sk_public_jwk r) ''kid'' = Some (JStr (sk_kid r)) \<and>
      json_get (sk_public_jwk r) ''alg'' = Some (JStr (alg_as_str (sk_alg r)))"
    if "r \<in> set (key_rows (tk_keys st))" for r
    using keys_wf_D(4) [OF wf] that by (simp add: jwks_named_def)
  have only: "jwk = sk_public_jwk k" if "jwk \<in> set (published_jwks t (tk_keys st))" "?p jwk" for jwk
  proof -
    from that(1) obtain r where r: "r \<in> set (key_rows (tk_keys st))" "sk_tenant r = t" "jwk = sk_public_jwk r"
      by (auto simp: in_published_jwks)
    then have "sk_kid r = sk_kid k" using named [OF r(1)] that(2) by (simp add: json_index_def)
    then have "r = k" using keys_wf_D(2) [OF wf] r k by (auto simp: distinct_map inj_on_def)
    then show ?thesis using r by simp
  qed
  have "sk_public_jwk k \<in> set (published_jwks t (tk_keys st))" using k by (auto simp: in_published_jwks)
  moreover have "?p (sk_public_jwk k)" using named [OF k(1)] by (simp add: json_index_def)
  ultimately have "find ?p (rev (published_jwks t (tk_keys st))) \<noteq> None"
    unfolding find_None_iff by (metis set_rev)
  then obtain jwk where jwk: "find ?p (rev (published_jwks t (tk_keys st))) = Some jwk" by blast
  then have "jwk = sk_public_jwk k" using find_SomeD [OF jwk] only [of jwk] by simp
  with jwk show ?thesis using named [OF k(1)] by (simp add: verification_key_def json_index_def)
qed

lemma signing_key_for_Inr:
  assumes "keys_wf (key_rows (tk_keys st))" "signing_key_for lib now dbnow fresh t alg st = (Inr k, st')"
  shows "keys_wf (key_rows (tk_keys st'))" "k \<in> set (key_rows (tk_keys st'))" "sk_tenant k = tn_id t"
    "sk_status k = KActive" "tk_denied st' = tk_denied st"
  using assms(2) ensure_active_Inr [OF assms(1)]
  by (auto simp: signing_key_for_def Let_def split: prod.splits)

lemma access_token_claims_checked:
  "map_of (access_token_claims lib cfg dir now jti req) ''iss'' = Some (JStr (issuer cfg (ar_tenant req)))"
  "map_of (access_token_claims lib cfg dir now jti req) ''nbf'' = Some (JInt (timestamp now))"
  "map_of (access_token_claims lib cfg dir now jti req) ''exp''
     = Some (JInt (timestamp (access_exp now (ar_client req))))"
  "map_of (access_token_claims lib cfg dir now jti req) ''jti'' = Some (json_uuid lib jti)"
  "map_of (access_token_claims lib cfg dir now jti req) ''tid'' = Some (json_uuid lib (tn_id (ar_tenant req)))"
  using access_token_claims_eq [of lib cfg dir now jti req] access_claims_always by metis+

lemma verify_issued_jwt:
  assumes lib: "jwt_ok lib" and wf: "keys_wf (key_rows (tk_keys st))"
    and k: "k \<in> set (key_rows (tk_keys st))" "sk_tenant k = tn_id t" "sk_status k \<noteq> KRevoked"
    and c: "map_of c ''iss'' = Some (JStr (issuer cfg t))" "map_of c ''exp'' = Some (JInt e)" "timestamp now < e"
      "map_of c ''nbf'' = Some (JInt n)" "n \<le> timestamp now" "map_of c ''jti'' = Some (JStr j)"
    and live: "\<not> is_denied now (tn_id t) j st"
  shows "verify_access lib cfg now t (l_sign lib k ''at+jwt'' c) default_verify_options st = Inr c"
proof -
  have "l_decode lib (sk_public_jwk k) \<lparr>v_leeway = 30, v_exp = True, v_nbf = True, v_issuer = Some (issuer cfg t),
        v_audiences = None, v_required = [''exp'', ''iss'']\<rparr>
      now (l_sign lib k ''at+jwt'' c) = Some c"
    using jwt_okD(3) [OF lib, where c = c and v = "\<lparr>v_leeway = 30, v_exp = True, v_nbf = True, v_issuer = Some (issuer cfg t),
        v_audiences = None, v_required = [''exp'', ''iss'']\<rparr>"] c
    by simp
  then show ?thesis
    using jwt_okD(1,2) [OF lib, of k "''at+jwt''" c] verification_key_published [OF wf k] live c(6)
    by (simp add: verify_access_def verify_jwt_def default_verify_options_def jti_denied_def)
qed

lemma opaque_lifetime:
  assumes "now' + 1000000 \<le> e" "now \<le> now'"
  shows "now' < now + max 1 (num_milliseconds (e - now)) * 1000000"
proof -
  have "0 \<le> e - now" using assms by simp
  then have "num_milliseconds (e - now) = (e - now) div 1000000" by (simp add: num_milliseconds_def trunc_div_def)
  moreover have "e - now = (e - now) div 1000000 * 1000000 + (e - now) mod 1000000" by simp
  moreover have "(e - now) mod 1000000 < 1000000" by simp
  ultimately show ?thesis using assms by linarith
qed

lemma verify_issued_opaque:
  assumes u: "uuid_ok lib" and r: "length random \<le> 125"
    and ok: "opaque_issue lib now random c e st = (Inr token, st')"
    and c: "map_of c ''tid'' = Some (json_uuid lib (tn_id t))" "map_of c ''exp'' = Some (JInt (timestamp e))"
      "map_of c ''jti'' = Some (JStr j)"
    and time: "now \<le> now'" "now' + 1000000 \<le> e" "timestamp now' < timestamp e"
    and live: "\<not> is_denied now' (tn_id t) j st'"
  shows "verify_access lib cfg now' t token default_verify_options st' = Inr c"
proof -
  let ?until = "now + max 1 (num_milliseconds (e - now)) * 1000000"
  have tid: "tenant_of lib c = Some (tn_id t)" using c u by (simp add: tenant_of_def json_uuid_def uuid_ok_def)
  have tok: "token = opaque_token random"
    and cl: "tk_opaque_claims st' = kv_set_until (Some ?until) (tn_id t, hash_b64 lib token) c (tk_opaque_claims st)"
    and tn: "tk_opaque_tenant st' = kv_set_until (Some ?until) (hash_b64 lib token) (l_show_uuid lib (tn_id t)) (tk_opaque_tenant st)"
    using ok tid by (auto simp: opaque_issue_def Let_def)
  have looks: "looks_like token"
    using tok r by (simp add: looks_like_def opaque_token_def) (simp add: opaque_prefix_def)
  have now': "now' < ?until" by (rule opaque_lifetime [OF time(2,1)])
  have "opaque_lookup lib now' token st' = Some (tn_id t, c)"
    using looks now' tid u
    by (simp add: opaque_lookup_def Let_def cl tn kv_get_set_until uuid_ok_def not_le)
  then show ?thesis
    using looks c live time(3)
    by (simp add: verify_access_def check_opaque_def Let_def default_verify_options_def jti_denied_def as_i64_small)
qed

lemma tk_keys_deny [simp]: "tk_keys (deny now t j e st) = tk_keys st"
  by (simp add: deny_def Let_def)

lemma deny_denies:
  assumes "now \<le> now'" "now' < now + dur_secs (num_seconds (e - now))"
  shows "is_denied now' t j (deny now t j e st)"
proof -
  have pos: "0 < num_seconds (e - now)"
  proof (rule ccontr)
    assume "\<not> 0 < num_seconds (e - now)"
    then have "dur_secs (num_seconds (e - now)) \<le> 0"
      by (simp add: dur_secs_def nanos_per_sec_def mult_nonpos_nonneg)
    then show False using assms by linarith
  qed
  then show ?thesis using assms(2)
    by (simp add: is_denied_def deny_def Let_def kv_get_at_set_ex)
qed

lemma verify_access_not_denied:
  assumes "verify_access lib cfg now t token opts st = Inr c" "vo_check_denylist opts"
    "map_of c ''jti'' = Some (JStr j)"
  shows "\<not> is_denied now (tn_id t) j st"
  using assms
  by (auto simp: verify_access_def verify_jwt_def check_opaque_def Let_def andThen_Inr jti_denied_def
      split: if_splits prod.splits)

section \<open>Properties\<close>

text \<open>
  An access token says what the request says and nothing a tenant can configure:
  subject, client, tenant, actor, key binding, session, organization, authentication
  context and permissions are exactly the request's, present or absent, whatever claim
  mappers and profile attributes exist; and it expires no later than the request's limit.
\<close>

theorem access_token_claims_are_the_requests:
  "map_of (access_token_claims lib cfg dir now jti req) ''sub'' = Some (JStr (case ar_user req of
      Some u \<Rightarrow> subject_for lib (ar_tenant req) (ar_client req) u | None \<Rightarrow> tc_client_id (ar_client req))) \<and>
   map_of (access_token_claims lib cfg dir now jti req) ''iss'' = Some (JStr (issuer cfg (ar_tenant req))) \<and>
   map_of (access_token_claims lib cfg dir now jti req) ''client_id'' = Some (JStr (tc_client_id (ar_client req))) \<and>
   map_of (access_token_claims lib cfg dir now jti req) ''tid'' = Some (json_uuid lib (tn_id (ar_tenant req))) \<and>
   map_of (access_token_claims lib cfg dir now jti req) ''scope'' = Some (JStr (join '' '' (ar_scopes req))) \<and>
   map_of (access_token_claims lib cfg dir now jti req) ''act'' = ar_act req \<and>
   map_of (access_token_claims lib cfg dir now jti req) ''cnf'' = cnf_claim (ar_cnf_jkt req) (ar_cnf_x5t req) \<and>
   map_of (access_token_claims lib cfg dir now jti req) ''sid'' = map_option (json_uuid lib) (ar_session req) \<and>
   map_of (access_token_claims lib cfg dir now jti req) ''org_id'' = map_option (json_uuid lib) (ar_org req) \<and>
   map_of (access_token_claims lib cfg dir now jti req) ''acr'' = map_option JStr (ar_acr req) \<and>
   map_of (access_token_claims lib cfg dir now jti req) ''amr''
     = (if ar_amr req = [] then None else Some (strings (ar_amr req))) \<and>
   map_of (access_token_claims lib cfg dir now jti req) ''permissions''
     = (if tc_permissions (ar_client req) = [] then None else Some (strings (tc_permissions (ar_client req)))) \<and>
   map_of (access_token_claims lib cfg dir now jti req) ''exp'' = Some (JInt (timestamp (access_exp now (ar_client req)))) \<and>
   access_exp now (ar_client req)
     = (case tc_not_after (ar_client req) of
          None \<Rightarrow> now + from_std (tc_access_token_ttl (ar_client req))
        | Some limit \<Rightarrow> min limit (now + from_std (tc_access_token_ttl (ar_client req))))"
proof -
  obtain aud where eq: "access_token_claims lib cfg dir now jti req
     = access_claims lib cfg dir now (access_exp now (ar_client req)) jti req aud (snd (mapped_claims lib dir req))"
    using access_token_claims_eq by blast
  show ?thesis
    unfolding eq access_claims_always access_claims_optional mapped_claims_protected
    by (simp add: access_exp_def Let_def min.commute split: option.split)
qed

text \<open>
  C7. A token that was issued is accepted: presented to the same tenant before it expires,
  unless it was denied, an access token verifies to exactly the claims it was issued
  with, in either format; a JWT because its key is published, an opaque token because
  its stored claims outlive it (up to the millisecond the store rounds to).
\<close>

theorem issued_access_token_verifies:
  assumes lib: "jwt_ok lib" "uuid_ok lib"
    and wf: "keys_wf (key_rows (tk_keys st))"
    and ok: "issue_access_token lib cfg dir now dbnow fresh req st = (Inr it, st')"
    and random: "length (tf_random fresh) \<le> 125"
    and time: "now \<le> now'" "now' + 1000000 \<le> it_expires_at it" "timestamp now' < timestamp (it_expires_at it)"
    and live: "\<not> is_denied now' (tn_id (ar_tenant req)) (l_show_uuid lib (tf_jti fresh)) st'"
  shows "verify_access lib cfg now' (ar_tenant req) (it_token it) default_verify_options st' = Inr (it_claims it)"
proof -
  let ?c = "access_token_claims lib cfg dir now (tf_jti fresh) req"
  let ?e = "access_exp now (ar_client req)"
  have jti: "map_of ?c ''jti'' = Some (JStr (l_show_uuid lib (tf_jti fresh)))"
    by (simp add: access_token_claims_checked json_uuid_def)
  show ?thesis
  proof (cases "tc_format (ar_client req) = FormatOpaque")
    case True
    then have "opaque_issue lib now (tf_random fresh) ?c ?e st = (Inr (it_token it), st')"
      and it: "it_claims it = ?c" "it_expires_at it = ?e"
      using ok by (auto simp: issue_access_token_def Let_def split: prod.splits sum.splits)
    from verify_issued_opaque [OF lib(2) random this(1) access_token_claims_checked(5,3) jti] it time live
    show ?thesis by simp
  next
    case False
    then obtain k where k: "signing_key_for lib now dbnow (tf_key fresh) (ar_tenant req)
        (tc_access_token_alg (ar_client req)) st = (Inr k, st')"
      and it: "it_claims it = ?c" "it_expires_at it = ?e" "it_token it = l_sign lib k ''at+jwt'' ?c"
      using ok by (auto simp: issue_access_token_def Let_def split: prod.splits sum.splits)
    note key = signing_key_for_Inr [OF wf k]
    show ?thesis
      unfolding it
      by (rule verify_issued_jwt [OF lib(1) key(1-3) _ access_token_claims_checked(1,3) _
            access_token_claims_checked(2) _ jti live])
         (use key(4) time it timestamp_mono in \<open>simp_all\<close>)
  qed
qed


text \<open>
  Revoking a signing key ends the tokens it signed at once: no token that names a
  revoked key of the tenant verifies, however its claims and the library look.
\<close>

theorem revoked_key_tokens_refused:
  assumes "keys_wf (key_rows (tk_keys st))" "revoke_key now (tn_id t) i (tk_keys st) = (Inr k, keys')"
    "l_header lib token = Some (Some (sk_kid k), typ, alg)" "\<not> looks_like token"
  shows "verify_access lib cfg now' t token opts (st\<lparr>tk_keys := keys'\<rparr>) = Inl Unauthorized"
proof -
  have "key_step id (tk_keys st) keys'" using key_step.Revoke [of id "tk_keys st" now "tn_id t" i] assms(2) by simp
  then have wf: "keys_wf (key_rows keys')" using assms(1) by (rule key_step_wf)
  have "kid_revoked (tn_id t) (sk_kid k) (key_rows keys')" by (rule revoke_key_revokes [OF assms(1,2)])
  then have "jwk \<in> set (published_jwks (tn_id t) keys') \<Longrightarrow> json_get jwk ''kid'' \<noteq> Some (JStr (sk_kid k))" for jwk
    using revoked_not_published [OF wf] by blast
  then have "find (\<lambda>jwk. as_str (json_index jwk ''kid'') = Some (sk_kid k) \<and>
      Option.bind (as_str (json_index jwk ''alg'')) parse_alg \<noteq> None) (rev (published_jwks (tn_id t) keys')) = None"
    by (auto simp: find_None_iff json_index_def split: option.splits)
  then show ?thesis
    using assms(3,4) by (simp add: verify_access_def verify_jwt_def verification_key_def ensure_def)
qed

section \<open>Witnesses\<close>

text \<open>A library that satisfies what is relied on: tokens are numbered.\<close>

instance json :: countable
  by countable_datatype

definition ex_jose :: library where
  "ex_jose = ex_library\<lparr>
     l_sign := (\<lambda>k typ c. ''eyJ'' @ show_nat (to_nat (sk_kid k, typ, alg_as_str (sk_alg k), c))),
     l_header := (\<lambda>tok. case from_nat (read_digits 0 (drop 3 tok)) :: string \<times> string \<times> string \<times> claims of
        (kid, typ, alg, c) \<Rightarrow> Some (Some kid, Some typ, alg)),
     l_decode := (\<lambda>jwk v now tok. case from_nat (read_digits 0 (drop 3 tok)) :: string \<times> string \<times> string \<times> claims of
        (kid, typ, alg, c) \<Rightarrow> Some c)\<rparr>"

lemma ex_jose_ok: "jwt_ok ex_jose" "uuid_ok ex_jose"
  by (auto simp: jwt_ok_def uuid_ok_def ex_jose_def ex_library_def read_show_nat starts_with_def)

definition ex_token_client :: token_client where
  "ex_token_client = \<lparr>tc_client_id = ''app'', tc_subject_type = SubjectPublic, tc_sector_identifier = None,
     tc_access_token_ttl = 300, tc_id_token_ttl = 300, tc_mappers = [], tc_id_token_scope_claims = False,
     tc_format = FormatJwt, tc_access_token_alg = Some EdDSA, tc_id_token_alg = None, tc_permissions = [],
     tc_not_after = None, tc_id_token_encryption = None\<rparr>"

definition ex_access_request :: access_request where
  "ex_access_request = \<lparr>ar_tenant = ex_tenant, ar_client = ex_token_client, ar_user = Some ex_user,
     ar_scopes = [''openid''], ar_audiences = [], ar_roles = [], ar_groups = [], ar_session = Some 4,
     ar_auth_time = None, ar_amr = [], ar_acr = None, ar_org = None, ar_cnf_jkt = None, ar_cnf_x5t = None,
     ar_act = None\<rparr>"

definition ex_token_fresh :: token_fresh where
  "ex_token_fresh = \<lparr>tf_jti = 99, tf_random = ''r'', tf_key = ex_material 8, tf_id_key = ex_material 9\<rparr>"

definition ex_token_state :: token_state where
  "ex_token_state = \<lparr>tk_keys = ex_keys, tk_opaque_tenant = Map.empty, tk_opaque_claims = Map.empty,
     tk_denied = Map.empty\<rparr>"

definition ex_config :: config where "ex_config = \<lparr>cf_public_url = ''https://id/'', cf_ui_url = ''https://ui/'',
     cf_mtls_public_url = None, cf_rate_limits_enabled = True, cf_ip_per_minute = 600\<rparr>"

definition ex_key :: signing_key where "ex_key = hd (key_rows ex_keys)"

lemma ex_key: "ex_key \<in> set (key_rows ex_keys)" "sk_tenant ex_key = 1" "sk_alg ex_key = EdDSA"
  "sk_status ex_key = KActive" "sk_not_before ex_key \<le> 10"
proof -
  have "length (key_rows ex_keys) = 1" by code_simp
  then show "ex_key \<in> set (key_rows ex_keys)" by (cases "key_rows ex_keys") (auto simp: ex_key_def)
  show "sk_tenant ex_key = 1" "sk_alg ex_key = EdDSA" "sk_status ex_key = KActive" "sk_not_before ex_key \<le> 10"
    by code_simp+
qed

definition ex_issued :: issued_token where
  "ex_issued = (let c = access_token_claims ex_jose ex_config ex_directory 10 99 ex_access_request
     in \<lparr>it_token = l_sign ex_jose ex_key ''at+jwt'' c, it_claims = c, it_kid = sk_kid ex_key,
        it_expires_at = 10 + dur_secs 300\<rparr>)"

lemma ex_issue:
  "issue_access_token ex_jose ex_config ex_directory 10 10 ex_token_fresh ex_access_request ex_token_state
    = (Inr ex_issued, ex_token_state)"
  using find_active_unique [OF ex_keys_wf(1) ex_key]
  by (simp add: issue_access_token_def signing_key_for_def ensure_active_alg_def ex_token_state_def
      ex_access_request_def ex_token_client_def ex_tenant_def ex_token_fresh_def ex_issued_def access_exp_def
      from_std_def Let_def)

theorem issued_access_token_verifies_witness:
  "verify_access ex_jose ex_config 20 ex_tenant (it_token ex_issued) default_verify_options ex_token_state
    = Inr (it_claims ex_issued)"
proof -
  have "verify_access ex_jose ex_config 20 (ar_tenant ex_access_request) (it_token ex_issued)
      default_verify_options ex_token_state = Inr (it_claims ex_issued)"
    by (rule issued_access_token_verifies [OF ex_jose_ok _ ex_issue])
       (simp_all add: ex_token_state_def ex_keys_wf ex_token_fresh_def ex_issued_def Let_def dur_secs_def
          nanos_per_sec_def timestamp_def is_denied_def)
  then show ?thesis by (simp add: ex_access_request_def)
qed

lemma ex_verify_denied_other:
  "verify_access ex_jose ex_config 20 ex_tenant (it_token ex_issued) default_verify_options
     (deny 15 (tn_id ex_tenant) ''other'' (15 + dur_secs 60) ex_token_state) = Inr (it_claims ex_issued)"
proof -
  let ?st = "deny 15 (tn_id ex_tenant) ''other'' (15 + dur_secs 60) ex_token_state"
  let ?c = "access_token_claims ex_jose ex_config ex_directory 10 99 ex_access_request"
  have c: "map_of ?c ''iss'' = Some (JStr (issuer ex_config ex_tenant))"
    "map_of ?c ''exp'' = Some (JInt (timestamp (10 + dur_secs 300)))"
    "map_of ?c ''nbf'' = Some (JInt (timestamp 10))" "map_of ?c ''jti'' = Some (JStr (show_nat 99))"
    unfolding access_token_claims_checked
    by (simp_all add: ex_access_request_def access_exp_def ex_token_client_def from_std_def Let_def
        json_uuid_def ex_jose_def ex_library_def)
  have "show_nat 99 \<noteq> ''other''" by (simp add: show_nat.simps)
  then have "\<not> is_denied 20 (tn_id ex_tenant) (show_nat 99) ?st"
    by (simp add: is_denied_def deny_def Let_def kv_get_set_ex_other ex_token_state_def)
  then show ?thesis
    unfolding ex_issued_def Let_def issued_token.simps
    by (intro verify_issued_jwt [OF ex_jose_ok(1) _ _ _ _ c(1,2) _ c(3) _ c(4)])
       (simp_all add: ex_token_state_def ex_keys_wf ex_key ex_tenant_def timestamp_def dur_secs_def nanos_per_sec_def)
qed


theorem revoked_key_tokens_refused_witness:
  "\<exists>k keys'. revoke_key 20 1 1 ex_keys = (Inr k, keys') \<and>
     verify_access ex_jose ex_config 21 ex_tenant (l_sign ex_jose k ''at+jwt'' []) default_verify_options
       (ex_token_state\<lparr>tk_keys := keys'\<rparr>) = Inl Unauthorized"
proof -
  have "case revoke_key 20 1 1 ex_keys of (Inr k, keys') \<Rightarrow> True | (Inl e, keys') \<Rightarrow> False" by code_simp
  then obtain k keys' where r: "revoke_key 20 1 1 ex_keys = (Inr k, keys')"
    by (cases "revoke_key 20 1 1 ex_keys") (auto split: sum.splits)
  have "revoke_key 20 (tn_id ex_tenant) 1 (tk_keys ex_token_state) = (Inr k, keys')"
    using r by (simp add: ex_tenant_def ex_token_state_def)
  from revoked_key_tokens_refused [OF _ this jwt_okD(1,2) [OF ex_jose_ok(1)]] r ex_keys_wf(1)
  show ?thesis by (auto simp: ex_token_state_def)
qed

end
