(* ===== verification/Text.thy ===== *)
theory Text
  imports Json
begin

text \<open>
  Text as Rust handles it: a \<open>string\<close> is the bytes of a \<open>&str\<close>, and the characters are
  read off by decoding UTF-8. \<open>str::from_utf8\<close> is \<open>utf8_chars\<close>, which also gives the
  characters, each as its bytes; the \<open>split_once\<close> and \<open>strip_prefix\<close> methods work on
  the bytes.
\<close>

section \<open>UTF-8\<close>

definition byte :: "char \<Rightarrow> nat" where
  "byte c = of_char c"

definition in_bytes :: "nat \<Rightarrow> nat \<Rightarrow> char \<Rightarrow> bool" where
  "in_bytes lo hi c = (lo \<le> byte c \<and> byte c \<le> hi)"

definition cont :: "char \<Rightarrow> bool" where
  "cont = in_bytes 128 191"

text \<open>The second byte that may follow a lead byte of two, three or four bytes.\<close>

definition second :: "char \<Rightarrow> char \<Rightarrow> bool" where
  "second a b =
     (if byte a = 224 then in_bytes 160 191 b
      else if byte a = 237 then in_bytes 128 159 b
      else if byte a = 240 then in_bytes 144 191 b
      else if byte a = 244 then in_bytes 128 143 b
      else cont b)"

fun next_char :: "string \<Rightarrow> (string \<times> string) option" where
  "next_char [] = None"
| "next_char (a # s) =
     (if byte a < 128 then Some ([a], s)
      else if in_bytes 194 223 a then
        (case s of b # s' \<Rightarrow> if cont b then Some ([a, b], s') else None | [] \<Rightarrow> None)
      else if in_bytes 224 239 a then
        (case s of b # c # s' \<Rightarrow> if second a b \<and> cont c then Some ([a, b, c], s') else None | _ \<Rightarrow> None)
      else if in_bytes 240 244 a then
        (case s of b # c # d # s' \<Rightarrow>
           if second a b \<and> cont c \<and> cont d then Some ([a, b, c, d], s') else None | _ \<Rightarrow> None)
      else None)"

lemma next_char_Some: "next_char s = Some (c, s') \<Longrightarrow> s = c @ s' \<and> c \<noteq> []"
  by (cases s) (auto split: if_splits list.splits)

lemma next_char_shorter: "next_char s = Some (c, s') \<Longrightarrow> length s' < length s"
  by (drule next_char_Some) auto

function utf8_chars :: "string \<Rightarrow> string list option" where
  "utf8_chars s =
     (if s = [] then Some []
      else case next_char s of
        None \<Rightarrow> None
      | Some (c, s') \<Rightarrow> map_option ((#) c) (utf8_chars s'))"
  by pat_completeness auto
termination by (relation "measure length") (auto dest: next_char_shorter)

declare utf8_chars.simps [simp del]

lemma utf8_chars_Nil [simp]: "utf8_chars [] = Some []"
  by (simp add: utf8_chars.simps)

lemma utf8_chars_ascii [simp]: "byte a < 128 \<Longrightarrow> utf8_chars (a # s) = map_option ((#) [a]) (utf8_chars s)"
  by (simp add: utf8_chars.simps [of "a # s"])

lemma utf8_chars_concat: "utf8_chars s = Some cs \<Longrightarrow> concat cs = s \<and> [] \<notin> set cs"
proof (induction s arbitrary: cs rule: utf8_chars.induct)
  case (1 s)
  show ?case
  proof (cases "s = []")
    case False
    with "1.prems" obtain c s' cs' where n: "next_char s = Some (c, s')" and "utf8_chars s' = Some cs'" "cs = c # cs'"
      by (auto simp: utf8_chars.simps [of s] split: option.splits)
    then show ?thesis using "1.IH" [OF False n] next_char_Some [OF n] by auto
  qed (use "1.prems" in simp)
qed

lemma utf8_chars_all_ascii: "list_all (\<lambda>c. byte c < 128) s \<Longrightarrow> utf8_chars s = Some (map (\<lambda>c. [c]) s)"
  by (induction s) auto

text \<open>The characters of a \<open>&str\<close>, whose bytes are UTF-8 by type.\<close>

definition str_chars :: "string \<Rightarrow> string list" where
  "str_chars s = (case utf8_chars s of None \<Rightarrow> [] | Some cs \<Rightarrow> cs)"

section \<open>Pieces\<close>

definition strip_prefix :: "string \<Rightarrow> string \<Rightarrow> string option" where
  "strip_prefix p s = (if starts_with s p then Some (drop (length p) s) else None)"

lemma strip_prefix_iff: "strip_prefix p s = Some r \<longleftrightarrow> s = p @ r"
  by (auto simp: strip_prefix_def starts_with_iff)

definition split_once :: "char \<Rightarrow> string \<Rightarrow> (string \<times> string) option" where
  "split_once c s = (if c \<in> set s then Some (takeWhile (\<lambda>x. x \<noteq> c) s, tl (dropWhile (\<lambda>x. x \<noteq> c) s)) else None)"

lemma split_once_append: "c \<notin> set a \<Longrightarrow> split_once c (a @ c # b) = Some (a, b)"
  by (induction a) (auto simp: split_once_def)

lemma split_once_iff: "split_once c s = Some (a, b) \<longleftrightarrow> s = a @ c # b \<and> c \<notin> set a"
proof
  assume l: "split_once c s = Some (a, b)"
  then have "c \<in> set s" by (simp add: split_once_def split: if_splits)
  then obtain a' b' where "s = a' @ c # b'" "c \<notin> set a'" by (meson split_list_first)
  then show "s = a @ c # b \<and> c \<notin> set a" using l by (simp add: split_once_append)
qed (auto simp: split_once_append)

definition contains_str :: "string \<Rightarrow> string \<Rightarrow> bool" where
  "contains_str needle s = list_ex (\<lambda>i. starts_with (drop i s) needle) [0..<Suc (length s)]"

definition lower :: "string \<Rightarrow> string" where
  "lower = map to_ascii_lowercase"

definition upper :: "string \<Rightarrow> string" where
  "upper = map to_ascii_uppercase"

end
