(* ===== verification/Requests.thy ===== *)
theory Requests
  imports Scopes Text
begin

text \<open>
  What the OAuth endpoints read from a request: the form parameters
  (\<open>oidc/authorize.rs\<close>: \<open>RawParams\<close>), the resource indicators (\<open>oidc/token.rs\<close>:
  \<open>parse_resources\<close>, \<open>oidc/device.rs\<close>: \<open>requested_resources\<close>), headers
  (\<open>oidc/form.rs\<close>, \<open>oidc/bearer.rs\<close>), PKCE (\<open>oidc/pkce.rs\<close>) and the matching of
  redirect URIs (\<open>oidc/redirect_uri.rs\<close>).
\<close>

section \<open>Parameters\<close>

type_synonym raw_params = "(string \<times> string) list"

definition raw_params :: "library \<Rightarrow> string \<Rightarrow> raw_params" where
  "raw_params lib raw = l_form lib raw"

definition values_of :: "raw_params \<Rightarrow> string \<Rightarrow> string list" where
  "values_of ps n = map snd (filter (\<lambda>p. fst p = n) ps)"

definition nonempty :: "string \<Rightarrow> string option" where
  "nonempty s = (if s = [] then None else Some s)"

definition param_one :: "raw_params \<Rightarrow> string \<Rightarrow> string + string option" where
  "param_one ps n =
     (case values_of ps n of
        [] \<Rightarrow> Inr None
      | [v] \<Rightarrow> Inr (nonempty (trim v))
      | _ \<Rightarrow> Inl (''parameter `'' @ n @ ''` must not be repeated''))"

definition param_many :: "raw_params \<Rightarrow> string \<Rightarrow> string list" where
  "param_many ps n = values_of ps n"

text \<open>The closure \<open>one\<close> of the handlers: a repeated parameter is an \<open>invalid_request\<close>.\<close>

definition one :: "raw_params \<Rightarrow> string \<Rightarrow> oauth_error + string option" where
  "one ps n = (case param_one ps n of Inl e \<Rightarrow> Inl (oauth_invalid_request e) | Inr v \<Rightarrow> Inr v)"

definition required :: "raw_params \<Rightarrow> string \<Rightarrow> oauth_error + string" where
  "required ps n = andThen (one ps n) (\<lambda>v. or_error v (oauth_invalid_request (n @ '' is required'')))"

section \<open>Resource indicators\<close>

definition bad_resource :: "library \<Rightarrow> string \<Rightarrow> bool" where
  "bad_resource lib r = (r = [] \<or> l_url_fragment lib r \<noteq> Some False)"

definition invalid_resource :: "string \<Rightarrow> oauth_error" where
  "invalid_resource r = oauth_err InvalidTarget (''invalid resource `'' @ r @ ''`'')"

fun parse_each :: "library \<Rightarrow> string list \<Rightarrow> string list \<Rightarrow> oauth_error + string list" where
  "parse_each lib [] out = Inr out"
| "parse_each lib (r # rs) out =
     (let r' = trim r
      in if bad_resource lib r' then Inl (invalid_resource r')
         else parse_each lib rs (push_new r' out))"

definition parse_resources :: "library \<Rightarrow> raw_params \<Rightarrow> oauth_error + string list" where
  "parse_resources lib ps = parse_each lib (param_many ps ''resource'') []"

definition find_resource :: "directory \<Rightarrow> uuid \<Rightarrow> string \<Rightarrow> resource_server option" where
  "find_resource dir t identifier = find (\<lambda>rs. rs_identifier rs = identifier) (dir_resources dir t)"

fun request_each :: "library \<Rightarrow> directory \<Rightarrow> uuid \<Rightarrow> client \<Rightarrow> string list \<Rightarrow> string list \<Rightarrow> oauth_error + string list" where
  "request_each lib dir t c [] out = Inr out"
| "request_each lib dir t c (r # rs) out =
     (let r' = trim r
      in if bad_resource lib r' then Inl (invalid_resource r')
         else if find_resource dir t r' = None then
           Inl (oauth_err InvalidTarget (''unknown resource `'' @ r' @ ''`''))
         else if cl_allowed_audiences c \<noteq> [] \<and> r' \<notin> set (cl_allowed_audiences c) then
           Inl (oauth_err InvalidTarget (''resource `'' @ r' @ ''` is not allowed for this client''))
         else request_each lib dir t c rs (push_new r' out))"

definition requested_resources :: "library \<Rightarrow> directory \<Rightarrow> uuid \<Rightarrow> client \<Rightarrow> raw_params \<Rightarrow> oauth_error + string list" where
  "requested_resources lib dir t c ps = request_each lib dir t c (param_many ps ''resource'') []"

section \<open>Headers\<close>

text \<open>Header names are lower case; a value's text needs visible ASCII, spaces and tabs.\<close>

type_synonym headers = "(string \<times> string) list"

definition header_get :: "headers \<Rightarrow> string \<Rightarrow> string option" where
  "header_get hs n = map_of hs n"

definition header_text :: "string \<Rightarrow> string option" where
  "header_text v = (if list_all (\<lambda>c. in_bytes 32 126 c \<or> byte c = 9) v then Some v else None)"

definition is_form :: "headers \<Rightarrow> bool" where
  "is_form hs =
     (case Option.bind (header_get hs ''content-type'') header_text of
        None \<Rightarrow> False
      | Some ct \<Rightarrow> starts_with (lower ct) ''application/x-www-form-urlencoded'')"

datatype scheme = Bearer | Dpop

definition scheme_of :: "string \<Rightarrow> scheme option" where
  "scheme_of s =
     (if eq_ignore_ascii_case s ''bearer'' then Some Bearer
      else if eq_ignore_ascii_case s ''dpop'' then Some Dpop else None)"

definition header_token :: "headers \<Rightarrow> (scheme \<times> string) option" where
  "header_token hs =
     (case Option.bind (Option.bind (header_get hs ''authorization'') header_text) (split_once (CHR '' '')) of
        None \<Rightarrow> None
      | Some (s, rest) \<Rightarrow>
          (case scheme_of s of
             None \<Rightarrow> None
           | Some sc \<Rightarrow> map_option (Pair sc) (nonempty (trim rest))))"

definition extract_with_scheme :: "headers \<Rightarrow> string option \<Rightarrow> (scheme \<times> string) option" where
  "extract_with_scheme hs body =
     (case header_token hs of
        Some x \<Rightarrow> Some x
      | None \<Rightarrow> map_option (Pair Bearer) (Option.bind body nonempty))"

definition extract_bearer :: "headers \<Rightarrow> string option \<Rightarrow> string option" where
  "extract_bearer hs body =
     (case extract_with_scheme hs body of Some (Bearer, t) \<Rightarrow> Some t | _ \<Rightarrow> None)"

section \<open>PKCE\<close>

definition unreserved :: "char \<Rightarrow> bool" where
  "unreserved b = (ascii_alnum b \<or> b \<in> {CHR ''-'', CHR ''.'', CHR ''_'', CHR ''~''})"

definition is_valid_challenge :: "string \<Rightarrow> bool" where
  "is_valid_challenge c = (43 \<le> length c \<and> length c \<le> 128 \<and> list_all unreserved c)"

definition is_valid_verifier :: "string \<Rightarrow> bool" where
  "is_valid_verifier v = is_valid_challenge v"

definition challenge_for :: "library \<Rightarrow> string \<Rightarrow> string" where
  "challenge_for lib v = hash_b64 lib v"

definition verify_s256 :: "library \<Rightarrow> string \<Rightarrow> string \<Rightarrow> bool" where
  "verify_s256 lib v challenge = (is_valid_verifier v \<and> challenge_for lib v = challenge)"

section \<open>Redirect URIs\<close>

definition is_loopback_host :: "string option \<Rightarrow> bool" where
  "is_loopback_host h = (h \<in> {Some ''127.0.0.1'', Some ''[::1]'', Some ''::1'', Some ''localhost''})"

definition same_loopback ::
  "string \<times> string option \<times> string \<times> string option \<Rightarrow> string \<times> string option \<times> string \<times> string option \<Rightarrow> bool" where
  "same_loopback req reg =
     (case (req, reg) of ((_, h, p, q), (s', h', p', q')) \<Rightarrow>
        s' = ''http'' \<and> is_loopback_host h' \<and> h' = h \<and> p' = p \<and> q' = q)"

definition redirect_matches :: "library \<Rightarrow> string list \<Rightarrow> string \<Rightarrow> client_type \<Rightarrow> bool" where
  "redirect_matches lib registered requested ct =
     (if requested \<in> set registered then True
      else if ct \<noteq> Native then False
      else case l_url_parts lib requested of
        None \<Rightarrow> False
      | Some req \<Rightarrow>
          if fst req \<noteq> ''http'' \<or> \<not> is_loopback_host (fst (snd req)) then False
          else list_ex (\<lambda>r. case l_url_parts lib r of None \<Rightarrow> False | Some reg \<Rightarrow> same_loopback req reg) registered)"

section \<open>Lemmas\<close>

lemma required_Inr: "required ps n = Inr v \<longleftrightarrow> one ps n = Inr (Some v)"
  by (auto simp: required_def andThen_Inr)

lemma set_push_new [simp]: "set (push_new x xs) = insert x (set xs)"
  by (auto simp: push_new_def)

lemma request_each_allowed:
  assumes "request_each lib dir t c rs out = Inr res" "a \<in> set res" "a \<notin> set out"
  shows "find_resource dir t a \<noteq> None \<and> (cl_allowed_audiences c = [] \<or> a \<in> set (cl_allowed_audiences c))"
  using assms
proof (induction rs arbitrary: out)
  case (Cons r rs)
  show ?case
  proof (cases "a = trim r")
    case True then show ?thesis using Cons.prems by (auto simp: Let_def split: if_splits)
  next
    case False
    then have "a \<notin> set (push_new (trim r) out)" using Cons.prems(3) by simp
    then show ?thesis using Cons by (simp add: Let_def split: if_splits)
  qed
qed simp

lemma requested_resources_allowed:
  assumes "requested_resources lib dir t c ps = Inr res" "a \<in> set res"
  shows "find_resource dir t a \<noteq> None \<and> (cl_allowed_audiences c = [] \<or> a \<in> set (cl_allowed_audiences c))"
  using request_each_allowed [OF assms(1) [unfolded requested_resources_def] assms(2)] by simp

end
