(* ===== verification/Cache_Keys.thy ===== *)
theory Cache_Keys
  imports Domain Text
begin

text \<open>
  The names of the keys the components share one Valkey under (\<open>api/src/cache/keys.rs\<close>)
  and the tenant a key belongs to (\<open>api/src/cache/pool.rs\<close>: \<open>key_tenant\<close>). The other
  theories keep one map per kind of key; that this loses nothing is the injectivity
  proved here, which holds for every kind but one: a client may be looked up by a public
  identifier that itself contains colons.
\<close>

section \<open>Names\<close>

definition PREFIX :: string where "PREFIX = ''ridm''"

definition tenant_key :: "library \<Rightarrow> uuid \<Rightarrow> string \<Rightarrow> string" where
  "tenant_key lib t rest = PREFIX @ '':t:'' @ l_show_uuid lib t @ '':'' @ rest"

definition key_sso_session :: "library \<Rightarrow> uuid \<Rightarrow> uuid \<Rightarrow> string" where
  "key_sso_session lib t s = tenant_key lib t (''session:'' @ l_show_uuid lib s)"

definition key_session_clients :: "library \<Rightarrow> uuid \<Rightarrow> uuid \<Rightarrow> string" where
  "key_session_clients lib t s = tenant_key lib t (''session:'' @ l_show_uuid lib s @ '':clients'')"

definition key_user_sessions :: "library \<Rightarrow> uuid \<Rightarrow> uuid \<Rightarrow> string" where
  "key_user_sessions lib t u = tenant_key lib t (''user:'' @ l_show_uuid lib u @ '':sessions'')"

definition key_jti_denied :: "library \<Rightarrow> uuid \<Rightarrow> string \<Rightarrow> string" where
  "key_jti_denied lib t jti = tenant_key lib t (''jti:'' @ jti)"

definition key_opaque_access_token :: "string \<Rightarrow> string" where
  "key_opaque_access_token h = PREFIX @ '':at:'' @ h"

definition key_opaque_access_token_claims :: "library \<Rightarrow> uuid \<Rightarrow> string \<Rightarrow> string" where
  "key_opaque_access_token_claims lib t h = tenant_key lib t (''at:'' @ h)"

definition key_auth_code :: "library \<Rightarrow> uuid \<Rightarrow> string \<Rightarrow> string" where
  "key_auth_code lib t h = tenant_key lib t (''code:'' @ h)"

definition key_code_family :: "library \<Rightarrow> uuid \<Rightarrow> string \<Rightarrow> string" where
  "key_code_family lib t h = tenant_key lib t (''code_family:'' @ h)"

definition key_device_code :: "library \<Rightarrow> uuid \<Rightarrow> string \<Rightarrow> string" where
  "key_device_code lib t h = tenant_key lib t (''device:'' @ h)"

definition key_device_user_code :: "library \<Rightarrow> uuid \<Rightarrow> string \<Rightarrow> string" where
  "key_device_user_code lib t c = tenant_key lib t (''device:user:'' @ c)"

definition key_device_guesses :: "library \<Rightarrow> uuid \<Rightarrow> string \<Rightarrow> string" where
  "key_device_guesses lib t ip = tenant_key lib t (''device:guesses:'' @ ip)"

definition key_ciba_request :: "library \<Rightarrow> uuid \<Rightarrow> string \<Rightarrow> string" where
  "key_ciba_request lib t h = tenant_key lib t (''ciba:'' @ h)"

definition key_client_by_client_id :: "library \<Rightarrow> uuid \<Rightarrow> string \<Rightarrow> string" where
  "key_client_by_client_id lib t c = tenant_key lib t (''client:'' @ c)"

definition key_client_jwks :: "library \<Rightarrow> uuid \<Rightarrow> uuid \<Rightarrow> string" where
  "key_client_jwks lib t c = tenant_key lib t (''client:'' @ l_show_uuid lib c @ '':jwks'')"

definition key_client_assertion_jti :: "library \<Rightarrow> uuid \<Rightarrow> uuid \<Rightarrow> string \<Rightarrow> string" where
  "key_client_assertion_jti lib t c jti =
     tenant_key lib t (''client:'' @ l_show_uuid lib c @ '':assertion:'' @ jti)"

definition key_rate_limit :: "string \<Rightarrow> string" where
  "key_rate_limit b = PREFIX @ '':rl:'' @ b"

definition key_tenant_rate_limit :: "library \<Rightarrow> uuid \<Rightarrow> string \<Rightarrow> string" where
  "key_tenant_rate_limit lib t b = tenant_key lib t (''rl:'' @ b)"

definition key_ip_rules :: "library \<Rightarrow> uuid \<Rightarrow> string" where
  "key_ip_rules lib t = tenant_key lib t ''ip_rules''"

definition key_logout_flow :: "library \<Rightarrow> uuid \<Rightarrow> uuid \<Rightarrow> string" where
  "key_logout_flow lib t f = tenant_key lib t (''logout:'' @ l_show_uuid lib f)"

definition key_par_request :: "library \<Rightarrow> uuid \<Rightarrow> string \<Rightarrow> string" where
  "key_par_request lib t i = tenant_key lib t (''par:'' @ i)"

definition key_keys_version :: "library \<Rightarrow> uuid \<Rightarrow> string" where
  "key_keys_version lib t = tenant_key lib t ''keys:ver''"

definition key_scopes :: "library \<Rightarrow> uuid \<Rightarrow> string" where
  "key_scopes lib t = tenant_key lib t ''scopes''"

definition key_resource_server :: "library \<Rightarrow> uuid \<Rightarrow> string \<Rightarrow> string" where
  "key_resource_server lib t i = tenant_key lib t (''rs:'' @ i)"

lemmas key_defs = key_sso_session_def key_session_clients_def key_user_sessions_def key_jti_denied_def
  key_opaque_access_token_claims_def key_auth_code_def key_code_family_def key_device_code_def
  key_device_user_code_def key_device_guesses_def key_ciba_request_def key_client_by_client_id_def
  key_client_jwks_def key_client_assertion_jti_def key_tenant_rate_limit_def key_ip_rules_def
  key_logout_flow_def key_par_request_def key_keys_version_def key_scopes_def key_resource_server_def

definition key_tenant :: "library \<Rightarrow> string \<Rightarrow> uuid option" where
  "key_tenant lib k =
     (case strip_prefix (PREFIX @ '':t:'') k of
        None \<Rightarrow> None
      | Some rest \<Rightarrow>
          if length rest < 36 then None
          else if 36 < length rest \<and> rest ! 36 \<noteq> CHR '':'' then None
          else if utf8_chars (take 36 rest) = None then None
          else l_parse_uuid lib (take 36 rest))"

section \<open>What the identifiers look like\<close>

text \<open>
  A \<open>Uuid\<close> prints as 36 characters of hexadecimal digits and dashes and parses back; the
  hashes are base64url. The identifier and code a name may carry are these.
\<close>

definition uuid_text :: "library \<Rightarrow> uuid \<Rightarrow> bool" where
  "uuid_text lib u = (length (l_show_uuid lib u) = 36 \<and>
     list_all (\<lambda>c. ascii_alnum c \<or> c = CHR ''-'') (l_show_uuid lib u) \<and>
     ascii_alnum (hd (l_show_uuid lib u)) \<and> l_parse_uuid lib (l_show_uuid lib u) = Some u)"

definition plain :: "string \<Rightarrow> bool" where
  "plain s = (CHR '':'' \<notin> set s)"

lemma colon_not_alnum: "\<not> ascii_alnum (CHR '':'')"
  by (simp add: ascii_defs)

lemma uuid_text_plain: "uuid_text lib u \<Longrightarrow> plain (l_show_uuid lib u)"
  using colon_not_alnum by (auto simp: uuid_text_def plain_def list_all_iff)

lemma alnum_byte: "ascii_alnum c \<or> c = CHR ''-'' \<Longrightarrow> byte c < 128"
  by (auto simp: ascii_defs byte_def)

text \<open>
  The kinds of tenant keys, as data: what each names, and its text after the tenant.
\<close>

datatype cache_key =
    SsoSession uuid
  | SessionClients uuid
  | UserSessions uuid
  | JtiDenied string
  | OpaqueClaims string
  | AuthCode string
  | CodeFamily string
  | DeviceCode string
  | DeviceUserCode string
  | DeviceGuesses string
  | CibaRequest string
  | ClientById string
  | ClientJwks uuid
  | ClientAssertion uuid string
  | TenantRateLimit string
  | IpRules
  | LogoutFlow uuid
  | ParRequest string
  | KeysVersion
  | ScopeRows
  | ResourceServer string

fun key_text :: "library \<Rightarrow> uuid \<Rightarrow> cache_key \<Rightarrow> string" where
  "key_text lib t (SsoSession s) = key_sso_session lib t s"
| "key_text lib t (SessionClients s) = key_session_clients lib t s"
| "key_text lib t (UserSessions u) = key_user_sessions lib t u"
| "key_text lib t (JtiDenied j) = key_jti_denied lib t j"
| "key_text lib t (OpaqueClaims h) = key_opaque_access_token_claims lib t h"
| "key_text lib t (AuthCode h) = key_auth_code lib t h"
| "key_text lib t (CodeFamily h) = key_code_family lib t h"
| "key_text lib t (DeviceCode h) = key_device_code lib t h"
| "key_text lib t (DeviceUserCode c) = key_device_user_code lib t c"
| "key_text lib t (DeviceGuesses a) = key_device_guesses lib t a"
| "key_text lib t (CibaRequest h) = key_ciba_request lib t h"
| "key_text lib t (ClientById c) = key_client_by_client_id lib t c"
| "key_text lib t (ClientJwks c) = key_client_jwks lib t c"
| "key_text lib t (ClientAssertion c j) = key_client_assertion_jti lib t c j"
| "key_text lib t (TenantRateLimit b) = key_tenant_rate_limit lib t b"
| "key_text lib t IpRules = key_ip_rules lib t"
| "key_text lib t (LogoutFlow f) = key_logout_flow lib t f"
| "key_text lib t (ParRequest i) = key_par_request lib t i"
| "key_text lib t KeysVersion = key_keys_version lib t"
| "key_text lib t ScopeRows = key_scopes lib t"
| "key_text lib t (ResourceServer i) = key_resource_server lib t i"

text \<open>The identifiers a key may name; a client looked up by a public identifier without colons.\<close>

fun key_ok :: "library \<Rightarrow> cache_key \<Rightarrow> bool" where
  "key_ok lib (SsoSession s) = uuid_text lib s"
| "key_ok lib (SessionClients s) = uuid_text lib s"
| "key_ok lib (UserSessions u) = uuid_text lib u"
| "key_ok lib (LogoutFlow f) = uuid_text lib f"
| "key_ok lib (ClientJwks c) = uuid_text lib c"
| "key_ok lib (ClientAssertion c j) = uuid_text lib c"
| "key_ok lib (DeviceCode h) = plain h"
| "key_ok lib (ClientById c) = plain c"
| "key_ok lib _ = True"

section \<open>Lemmas\<close>

lemma tenant_key_tenant:
  assumes "uuid_text lib t"
  shows "key_tenant lib (tenant_key lib t rest) = Some t"
proof -
  let ?u = "l_show_uuid lib t"
  have l: "length ?u = 36" and p: "l_parse_uuid lib ?u = Some t"
    using assms by (simp_all add: uuid_text_def)
  have "list_all (\<lambda>c. byte c < 128) ?u"
    using assms alnum_byte by (auto simp: uuid_text_def list_all_iff)
  then have "utf8_chars ?u \<noteq> None" by (simp add: utf8_chars_all_ascii)
  moreover have "strip_prefix (PREFIX @ '':t:'') (tenant_key lib t rest) = Some (?u @ '':'' @ rest)"
    by (simp add: strip_prefix_iff tenant_key_def)
  ultimately show ?thesis using l p by (simp add: key_tenant_def nth_append)
qed

lemma tenant_key_inj:
  assumes "uuid_text lib t" "uuid_text lib t'" "tenant_key lib t a = tenant_key lib t' b"
  shows "t = t' \<and> a = b"
proof -
  have "t = t'" using tenant_key_tenant assms by (metis option.inject)
  then show ?thesis using assms(3) by (simp add: tenant_key_def)
qed

text \<open>A text is cut at its first colon in one way.\<close>

lemma colon_cut: "plain a \<Longrightarrow> plain b \<Longrightarrow> a @ CHR '':'' # x = b @ CHR '':'' # y \<longleftrightarrow> a = b \<and> x = y"
  unfolding plain_def by (metis split_once_append option.inject prod.inject)

lemma colon_cut_plain: "plain b \<Longrightarrow> a @ CHR '':'' # x \<noteq> b"
  by (auto simp: plain_def)

lemma show_uuid_inj:
  "uuid_text lib u \<Longrightarrow> uuid_text lib v \<Longrightarrow> l_show_uuid lib u = l_show_uuid lib v \<longleftrightarrow> u = v"
  by (metis uuid_text_def option.inject)

lemmas colon_simps = colon_cut colon_cut_plain colon_cut_plain [symmetric] uuid_text_plain show_uuid_inj

lemma key_text_rest: "\<exists>rest. key_text lib t k = tenant_key lib t rest"
  by (cases k) (simp_all add: key_defs, blast+)

section \<open>Properties\<close>

lemma key_text_inj_tenant:
  assumes "key_ok lib k" "key_ok lib k'" "key_text lib t k = key_text lib t k'"
  shows "k = k'"
  using assms
  by (cases k; cases k') (simp_all add: key_defs tenant_key_def colon_simps, auto simp: plain_def)

text \<open>
  Two tenant keys with the same text are the same key of the same tenant, and the
  tenant is read back off the text: no component can write to another's entry, or to
  another tenant's, as long as a client is looked up by an identifier without colons.
\<close>

theorem cache_keys_are_apart:
  assumes "uuid_text lib t" "uuid_text lib t'" "key_ok lib k" "key_ok lib k'"
    and "key_text lib t k = key_text lib t' k'"
  shows "t = t' \<and> k = k' \<and> key_tenant lib (key_text lib t k) = Some t"
proof -
  obtain r r' where r: "key_text lib t k = tenant_key lib t r" "key_text lib t' k' = tenant_key lib t' r'"
    using key_text_rest by metis
  have "tenant_key lib t r = tenant_key lib t' r'" using assms(5) unfolding r .
  then have t: "t = t'" using tenant_key_inj [OF assms(1,2)] by blast
  have "k = k'" by (rule key_text_inj_tenant [OF assms(3,4)]) (use assms(5) t in simp)
  moreover have "key_tenant lib (key_text lib t k) = Some t"
    unfolding r(1) by (rule tenant_key_tenant [OF assms(1)])
  ultimately show ?thesis using t by simp
qed

text \<open>Identifiers printed as 36 digits.\<close>

definition show36 :: "uuid \<Rightarrow> string" where
  "show36 u = (let s = show_nat u in replicate (36 - length s) (CHR ''0'') @ s)"

lemma read_digits_zeros: "read_digits 0 (replicate n (CHR ''0'') @ s) = read_digits 0 s"
  by (induction n) simp_all

lemma uuid_text_show36:
  assumes "l_show_uuid lib = show36" "l_parse_uuid lib = (\<lambda>s. Some (read_digits 0 s))" "length (show_nat u) \<le> 36"
  shows "uuid_text lib u"
proof -
  have d: "list_all ascii_digit (show36 u)"
    using show_nat_digits [of u] by (auto simp: show36_def Let_def list_all_iff ascii_digit_def)
  have l: "length (show36 u) = 36" using assms(3) by (simp add: show36_def Let_def)
  then have "hd (show36 u) \<in> set (show36 u)" by (metis hd_in_set list.size(3) zero_neq_numeral)
  then show ?thesis
    using d l assms(1,2) by (auto simp: uuid_text_def list_all_iff ascii_alnum_def show36_def Let_def
        read_digits_zeros read_show_nat)
qed

definition ex_uuid_library :: library where
  "ex_uuid_library = ex_library\<lparr>l_show_uuid := show36, l_parse_uuid := (\<lambda>s. Some (read_digits 0 s))\<rparr>"

lemma ex_uuid_text: "length (show_nat u) \<le> 36 \<Longrightarrow> uuid_text ex_uuid_library u"
  by (rule uuid_text_show36) (simp_all add: ex_uuid_library_def)

theorem cache_keys_are_apart_witness:
  "key_tenant ex_uuid_library (key_text ex_uuid_library 1 (ClientAssertion 7 ''a:b'')) = Some 1"
proof -
  have "uuid_text ex_uuid_library 1" "uuid_text ex_uuid_library 7"
    by (rule ex_uuid_text, simp add: show_nat.simps)+
  then show ?thesis
    using cache_keys_are_apart [of "ex_uuid_library" 1 1 "ClientAssertion 7 ''a:b''" "ClientAssertion 7 ''a:b''"]
    by simp
qed

end
