(* ===== verification/Cache.thy ===== *)
theory Cache
  imports Cache_Keys
begin

text \<open>
  The read-through cache (\<open>api/src/cache/l1.rs\<close>, \<open>api/src/cache/layer.rs\<close>): an
  in-process level in front of Valkey. A lookup that misses takes a ticket, reads the
  source and stores what it read; an invalidation evicts the key here and holds it in
  Valkey for five seconds, so that a load which read the source before the write behind
  the invalidation cannot put the old value back.

  The in-process cache is a map with deadlines; that it may also drop entries for room
  is not modelled, as a lookup then only misses. Invalidation messages to the other nodes
  are evictions there. The parser and printer of the cached type and the loader's result
  are parameters.
\<close>

section \<open>The in-process level\<close>

datatype 'v l1_value = L1Value 'v | NegativeMarker

record 'v l1_cache =
  l1_entries :: "(string, 'v l1_value) kv"
  l1_evicted :: "(string, nat) kv"
  l1_generation :: nat
  l1_cleared :: nat

record ticket =
  ti_evicted :: "nat option"
  ti_cleared :: nat

definition EVICTION_MEMORY :: nat where "EVICTION_MEMORY = 120"

definition l1_ticket :: "instant \<Rightarrow> string \<Rightarrow> 'v l1_cache \<Rightarrow> ticket" where
  "l1_ticket now k c = \<lparr>ti_evicted = kv_get now k (l1_evicted c), ti_cleared = l1_cleared c\<rparr>"

definition l1_insert :: "instant \<Rightarrow> string \<Rightarrow> 'v l1_value \<Rightarrow> duration \<Rightarrow> 'v l1_cache \<Rightarrow> 'v l1_cache" where
  "l1_insert now k v ttl c = c\<lparr>l1_entries :=
     (if ttl = 0 then kv_del k (l1_entries c) else kv_set_until (Some (now + ttl)) k v (l1_entries c))\<rparr>"

definition l1_insert_fresh ::
  "instant \<Rightarrow> string \<Rightarrow> 'v l1_value \<Rightarrow> duration \<Rightarrow> ticket \<Rightarrow> 'v l1_cache \<Rightarrow> bool \<times> 'v l1_cache" where
  "l1_insert_fresh now k v ttl t c =
     (if l1_ticket now k c \<noteq> t then (False, c) else (True, l1_insert now k v ttl c))"

definition l1_get :: "instant \<Rightarrow> string \<Rightarrow> 'v l1_cache \<Rightarrow> 'v l1_value option" where
  "l1_get now k c = kv_get now k (l1_entries c)"

definition l1_remove :: "instant \<Rightarrow> string \<Rightarrow> 'v l1_cache \<Rightarrow> 'v l1_cache" where
  "l1_remove now k c =
     (let g = l1_generation c + 1
      in c\<lparr>l1_generation := g, l1_evicted := kv_set_ex now EVICTION_MEMORY k g (l1_evicted c),
           l1_entries := kv_del k (l1_entries c)\<rparr>)"

definition l1_clear :: "'v l1_cache \<Rightarrow> 'v l1_cache" where
  "l1_clear c =
     (let g = l1_generation c + 1 in c\<lparr>l1_generation := g, l1_cleared := g, l1_entries := Map.empty\<rparr>)"

section \<open>The layer\<close>

definition NEGATIVE :: string where "NEGATIVE = CHR 0x00 # ''null''"
definition INVALIDATED :: string where "INVALIDATED = CHR 0x00 # ''invalidated''"
definition INVALIDATION_HOLD :: nat where "INVALIDATION_HOLD = 5"

record 'v cache_state =
  ca_l1 :: "'v l1_cache"
  ca_l2 :: "(string, string) kv"

definition L1_TTL :: duration where "L1_TTL = dur_secs 15"
definition NEGATIVE_TTL :: duration where "NEGATIVE_TTL = dur_secs 30"

text \<open>The spread is drawn: \<open>r\<close> milliseconds, at most twice a tenth of the lifetime.\<close>

definition jittered :: "duration \<Rightarrow> int \<Rightarrow> duration" where
  "jittered ttl r =
     (let spread = num_milliseconds ttl div 10
      in if spread = 0 then ttl else ttl - dur_millis spread + dur_millis (r mod (2 * spread + 1)))"

datatype 'v lookup = Hit 'v | Absent | Miss

definition redis_get :: "(string \<Rightarrow> 'v option) \<Rightarrow> instant \<Rightarrow> string \<Rightarrow> 'v cache_state \<Rightarrow> 'v lookup" where
  "redis_get parse now k st =
     (case kv_get now k (ca_l2 st) of
        None \<Rightarrow> Miss
      | Some s \<Rightarrow>
          if s = INVALIDATED then Miss
          else if s = NEGATIVE then Absent
          else case parse s of None \<Rightarrow> Miss | Some v \<Rightarrow> Hit v)"

definition redis_set :: "instant \<Rightarrow> string \<Rightarrow> string \<Rightarrow> duration \<Rightarrow> int \<Rightarrow> 'v cache_state \<Rightarrow> 'v cache_state" where
  "redis_set now k v ttl r st =
     (if kv_get now k (ca_l2 st) = Some INVALIDATED then st
      else st\<lparr>ca_l2 := kv_set_ex now (nat (max 1 (num_seconds (jittered ttl r)))) k v (ca_l2 st)\<rparr>)"

text \<open>
  The lookup before a load: the answer, or the ticket to store the load's result with.
\<close>

definition probe ::
  "(string \<Rightarrow> 'v option) \<Rightarrow> instant \<Rightarrow> int \<Rightarrow> string \<Rightarrow> 'v cache_state \<Rightarrow> ('v option + ticket) \<times> 'v cache_state" where
  "probe parse now r k st =
     (case l1_get now k (ca_l1 st) of
        Some (L1Value v) \<Rightarrow> (Inl (Some v), st)
      | Some NegativeMarker \<Rightarrow> (Inl None, st)
      | None \<Rightarrow>
          (let t = l1_ticket now k (ca_l1 st)
           in case redis_get parse now k st of
                Hit v \<Rightarrow> (Inl (Some v),
                  st\<lparr>ca_l1 := snd (l1_insert_fresh now k (L1Value v) (jittered L1_TTL r) t (ca_l1 st))\<rparr>)
              | Absent \<Rightarrow> (Inl None,
                  st\<lparr>ca_l1 := snd (l1_insert_fresh now k NegativeMarker L1_TTL t (ca_l1 st))\<rparr>)
              | Miss \<Rightarrow> (Inr t, st)))"

text \<open>
  What follows the wait for the key's gate: another load's result is taken from the
  in-process level, else what the loader read is stored in both levels.
\<close>

definition store_loaded ::
  "('v \<Rightarrow> string) \<Rightarrow> instant \<Rightarrow> int \<Rightarrow> string \<Rightarrow> duration \<Rightarrow> ticket \<Rightarrow> 'v option \<Rightarrow> 'v cache_state \<Rightarrow> 'v cache_state" where
  "store_loaded text now r k ttl t loaded st =
     (case loaded of
        Some v \<Rightarrow>
          (let st1 = redis_set now k (text v) ttl r st
           in st1\<lparr>ca_l1 := snd (l1_insert_fresh now k (L1Value v) (jittered L1_TTL r) t (ca_l1 st1))\<rparr>)
      | None \<Rightarrow>
          (let st1 = redis_set now k NEGATIVE NEGATIVE_TTL r st
           in st1\<lparr>ca_l1 := snd (l1_insert_fresh now k NegativeMarker L1_TTL t (ca_l1 st1))\<rparr>))"

definition load_after_wait ::
  "('v \<Rightarrow> string) \<Rightarrow> instant \<Rightarrow> int \<Rightarrow> string \<Rightarrow> duration \<Rightarrow> ticket \<Rightarrow> app_error + 'v option \<Rightarrow> 'v cache_state
     \<Rightarrow> (app_error + 'v option) \<times> 'v cache_state" where
  "load_after_wait text now r k ttl t loaded st =
     (case l1_get now k (ca_l1 st) of
        Some (L1Value v) \<Rightarrow> (Inr (Some v), st)
      | Some NegativeMarker \<Rightarrow> (Inr None, st)
      | None \<Rightarrow>
          (case loaded of
             Inl e \<Rightarrow> (Inl e, st)
           | Inr x \<Rightarrow> (Inr x, store_loaded text now r k ttl t x st)))"

definition get_or_load ::
  "(string \<Rightarrow> 'v option) \<Rightarrow> ('v \<Rightarrow> string) \<Rightarrow> instant \<Rightarrow> instant \<Rightarrow> int \<Rightarrow> string \<Rightarrow> duration \<Rightarrow> app_error + 'v option
     \<Rightarrow> 'v cache_state \<Rightarrow> (app_error + 'v option) \<times> 'v cache_state" where
  "get_or_load parse text now later r k ttl loaded st =
     (case probe parse now r k st of
        (Inl v, st1) \<Rightarrow> (Inr v, st1)
      | (Inr t, st1) \<Rightarrow> load_after_wait text later r k ttl t loaded st1)"

fun invalidate :: "instant \<Rightarrow> string list \<Rightarrow> 'v cache_state \<Rightarrow> 'v cache_state" where
  "invalidate now [] st = st"
| "invalidate now (k # ks) st =
     invalidate now ks (st\<lparr>ca_l1 := l1_remove now k (ca_l1 st),
       ca_l2 := kv_set_ex now INVALIDATION_HOLD k INVALIDATED (ca_l2 st)\<rparr>)"

section \<open>Lemmas\<close>

lemma kv_get_l1_remove [simp]:
  "k' \<noteq> k \<Longrightarrow> kv_get now k' (l1_evicted (l1_remove now' k c)) = kv_get now k' (l1_evicted c)"
  by (simp add: l1_remove_def Let_def kv_get_set_ex_other)

lemma l1_insert_evicted [simp]:
  "l1_evicted (l1_insert now k v ttl c) = l1_evicted c" "l1_cleared (l1_insert now k v ttl c) = l1_cleared c"
  "l1_generation (l1_insert now k v ttl c) = l1_generation c"
  by (simp_all add: l1_insert_def)

lemma l1_insert_fresh_evicted [simp]:
  "l1_evicted (snd (l1_insert_fresh now k v ttl t c)) = l1_evicted c"
  "l1_generation (snd (l1_insert_fresh now k v ttl t c)) = l1_generation c"
  by (simp_all add: l1_insert_fresh_def)

lemma redis_set_l1 [simp]: "ca_l1 (redis_set now k v ttl r st) = ca_l1 st"
  by (simp add: redis_set_def)

text \<open>
  A key that is held: the sentinel is in Valkey until \<open>lim\<close>, and the last eviction of the
  key is later than the generation \<open>g\<close> and remembered past \<open>lim\<close>.
\<close>

definition held_key :: "instant \<Rightarrow> nat \<Rightarrow> string \<Rightarrow> 'v cache_state \<Rightarrow> bool" where
  "held_key lim g k st =
     ((\<exists>d. ca_l2 st k = Some (INVALIDATED, Some d) \<and> lim \<le> d) \<and>
      (\<exists>e d. l1_evicted (ca_l1 st) k = Some (e, Some d) \<and> g < e \<and> lim \<le> d) \<and>
      g < l1_generation (ca_l1 st))"

lemma held_keyD:
  assumes "held_key lim g k st" "now < lim"
  shows "kv_get now k (ca_l2 st) = Some INVALIDATED" "\<exists>e>g. kv_get now k (l1_evicted (ca_l1 st)) = Some e"
  using assms by (auto simp: held_key_def kv_get_def kv_entry_def)

lemma redis_set_held:
  "held_key lim g k st \<Longrightarrow> now < lim \<Longrightarrow> redis_set now k v ttl r st = st"
  by (simp add: redis_set_def held_keyD)

lemma redis_set_other: "k \<noteq> k' \<Longrightarrow> ca_l2 (redis_set now k' v ttl r st) k = ca_l2 st k"
  by (simp add: redis_set_def kv_set_ex_def kv_set_until_def)

lemma redis_set_keeps_held:
  assumes "held_key lim g k st" "now < lim"
  shows "held_key lim g k (redis_set now k' v ttl r st)"
proof (cases "k' = k")
  case True then show ?thesis using assms redis_set_held by metis
next
  case False
  then have "ca_l2 (redis_set now k' v ttl r st) k = ca_l2 st k" by (intro redis_set_other) simp
  then show ?thesis using assms(1) by (simp add: held_key_def)
qed

lemma held_key_l1:
  assumes "held_key lim g k st" "l1_evicted c = l1_evicted (ca_l1 st)" "l1_generation c = l1_generation (ca_l1 st)"
  shows "held_key lim g k (st\<lparr>ca_l1 := c\<rparr>)"
  using assms by (simp add: held_key_def)

section \<open>Other operations on the cache\<close>

text \<open>
  What other requests do to the cache until \<open>lim\<close>, at the instants \<open>now\<close> they happen to
  do it: look a key up, store a load of their own, invalidate keys, or lose the
  connection and clear the in-process level.
\<close>

inductive cache_step :: "instant \<Rightarrow> 'v cache_state \<Rightarrow> 'v cache_state \<Rightarrow> bool" for lim where
  probe_step: "now < lim \<Longrightarrow> probe parse now r k st = (a, st') \<Longrightarrow> cache_step lim st st'"
| load_step: "now < lim \<Longrightarrow> load_after_wait text now r k ttl t loaded st = (a, st') \<Longrightarrow> cache_step lim st st'"
| evict_step: "now < lim \<Longrightarrow> lim \<le> now + dur_secs (int INVALIDATION_HOLD) \<Longrightarrow>
    cache_step lim st (invalidate now ks st)"
| clear_step: "cache_step lim st (st\<lparr>ca_l1 := l1_clear (ca_l1 st)\<rparr>)"

lemma probe_keeps_held:
  assumes "probe parse now r k' st = (a, st')" "held_key lim g k st"
  shows "held_key lim g k st'"
  using assms
  by (auto simp: probe_def Let_def intro!: held_key_l1 split: option.splits l1_value.splits lookup.splits)

lemma store_keeps_held:
  assumes "held_key lim g k st" "now < lim"
  shows "held_key lim g k (store_loaded text now r k' ttl t loaded st)"
  using redis_set_keeps_held [OF assms]
  by (cases loaded) (auto simp: store_loaded_def Let_def intro!: held_key_l1)

lemma load_keeps_held:
  assumes "load_after_wait text now r k' ttl t loaded st = (a, st')" "held_key lim g k st" "now < lim"
  shows "held_key lim g k st'"
  using assms store_keeps_held [OF assms(2,3)]
  by (auto simp: load_after_wait_def split: option.splits l1_value.splits sum.splits)

lemma hold_within_memory: "now + dur_secs (int INVALIDATION_HOLD) \<le> now + dur_secs (int EVICTION_MEMORY)"
  by (simp add: INVALIDATION_HOLD_def EVICTION_MEMORY_def)

lemma invalidate_one_holds:
  assumes "lim \<le> now + dur_secs (int INVALIDATION_HOLD)" "g \<le> l1_generation (ca_l1 st)"
  shows "held_key lim g k (st\<lparr>ca_l1 := l1_remove now k (ca_l1 st),
       ca_l2 := kv_set_ex now INVALIDATION_HOLD k INVALIDATED (ca_l2 st)\<rparr>)"
  using assms order_trans [OF assms(1) hold_within_memory]
  by (auto simp: held_key_def l1_remove_def Let_def kv_set_ex_def kv_set_until_def)

lemma invalidate_one_keeps:
  assumes "held_key lim g k st" "lim \<le> now + dur_secs (int INVALIDATION_HOLD)"
  shows "held_key lim g k (st\<lparr>ca_l1 := l1_remove now k' (ca_l1 st),
       ca_l2 := kv_set_ex now INVALIDATION_HOLD k' INVALIDATED (ca_l2 st)\<rparr>)"
proof (cases "k' = k")
  case True
  then show ?thesis using invalidate_one_holds [OF assms(2), of g st k] assms(1) by (simp add: held_key_def)
next
  case False
  then show ?thesis using assms(1)
    by (auto simp: held_key_def l1_remove_def Let_def kv_set_ex_def kv_set_until_def)
qed

lemma invalidate_keeps_held:
  assumes "held_key lim g k st" "lim \<le> now + dur_secs (int INVALIDATION_HOLD)"
  shows "held_key lim g k (invalidate now ks st)"
  using assms(1)
proof (induction ks arbitrary: st)
  case (Cons k' ks)
  show ?case unfolding invalidate.simps by (rule Cons.IH [OF invalidate_one_keeps [OF Cons.prems assms(2)]])
qed simp

lemma invalidate_holds:
  assumes "k \<in> set ks" "lim \<le> now + dur_secs (int INVALIDATION_HOLD)" "g \<le> l1_generation (ca_l1 st)"
  shows "held_key lim g k (invalidate now ks st)"
  using assms(1,3)
proof (induction ks arbitrary: st)
  case (Cons k' ks)
  show ?case
  proof (cases "k' = k")
    case True
    show ?thesis unfolding invalidate.simps True
      by (rule invalidate_keeps_held [OF invalidate_one_holds [OF assms(2) Cons.prems(2)] assms(2)])
  next
    case False
    then show ?thesis unfolding invalidate.simps using Cons.prems
      by (intro Cons.IH) (auto simp: l1_remove_def Let_def)
  qed
qed simp

lemma clear_keeps_held: "held_key lim g k st \<Longrightarrow> held_key lim g k (st\<lparr>ca_l1 := l1_clear (ca_l1 st)\<rparr>)"
  by (simp add: held_key_def l1_clear_def Let_def)

interpretation cache_hold: kept_by_steps "cache_step lim" "held_key lim g k" for lim g k
proof
  fix st st' :: "'v cache_state"
  assume "cache_step lim st st'" "held_key lim g k st"
  then show "held_key lim g k st'"
    by (cases rule: cache_step.cases)
       (auto intro: probe_keeps_held load_keeps_held invalidate_keeps_held clear_keeps_held)
qed

text \<open>Generations are never smaller than those a ticket of the same state shows.\<close>

definition generations_ok :: "'v cache_state \<Rightarrow> bool" where
  "generations_ok st = (\<forall>k e d. l1_evicted (ca_l1 st) k = Some (e, d) \<longrightarrow> e \<le> l1_generation (ca_l1 st))"

lemma ticket_generation:
  "generations_ok st \<Longrightarrow> ti_evicted (l1_ticket now k (ca_l1 st)) = Some e \<Longrightarrow> e \<le> l1_generation (ca_l1 st)"
  unfolding generations_ok_def l1_ticket_def kv_get_def kv_entry_def
  by (fastforce split: option.splits if_splits)

section \<open>Properties\<close>

text \<open>
  A load that read its source before a write cannot undo the invalidation behind that
  write: once the key is invalidated, whatever else happens to the cache, storing the
  load's result within the five seconds the key is held leaves both levels without it.
\<close>

theorem late_load_is_not_cached:
  assumes wf: "generations_ok st0"
    and miss: "probe parse t0 r0 k st0 = (Inr ticket, st1)"
    and evict: "k \<in> set ks" "now < lim" "lim = ti + dur_secs (int INVALIDATION_HOLD)"
    and later: "(cache_step lim)\<^sup>*\<^sup>* (invalidate ti ks st1) st2"
    and fin: "load_after_wait text now r k ttl ticket (Inr (Some v)) st2 = (res, st3)"
  shows "ca_l2 st3 k = ca_l2 st2 k \<and> kv_get now k (ca_l2 st3) = Some INVALIDATED \<and>
    l1_entries (ca_l1 st3) = l1_entries (ca_l1 st2)"
proof -
  let ?g = "l1_generation (ca_l1 st0)"
  have st1: "st1 = st0" and t: "ticket = l1_ticket t0 k (ca_l1 st0)"
    using miss by (auto simp: probe_def Let_def split: option.splits l1_value.splits lookup.splits)
  have "held_key lim ?g k (invalidate ti ks st1)"
    by (rule invalidate_holds [OF evict(1)]) (simp_all add: evict(3) st1)
  with later have h: "held_key lim ?g k st2" by (rule cache_hold.run_keeps)
  obtain e where e: "?g < e" "kv_get now k (l1_evicted (ca_l1 st2)) = Some e"
    using held_keyD(2) [OF h evict(2)] by blast
  have old: "l1_ticket now k (ca_l1 st2) \<noteq> ticket"
    using e ticket_generation [OF wf, of t0 k e] unfolding t by (auto simp: l1_ticket_def)
  have "redis_set now k (text v) ttl r st2 = st2" by (rule redis_set_held [OF h evict(2)])
  then have "st3 = st2"
    using fin old by (auto simp: load_after_wait_def store_loaded_def Let_def l1_insert_fresh_def
        split: option.splits l1_value.splits)
  then show ?thesis using held_keyD(1) [OF h evict(2)] by simp
qed

definition ex_cache :: "nat cache_state" where
  "ex_cache = \<lparr>ca_l1 = \<lparr>l1_entries = Map.empty, l1_evicted = Map.empty, l1_generation = 0, l1_cleared = 0\<rparr>,
     ca_l2 = Map.empty\<rparr>"

lemma ex_probe: "probe parse t r k ex_cache = (Inr \<lparr>ti_evicted = None, ti_cleared = 0\<rparr>, ex_cache)"
  by (simp add: probe_def ex_cache_def l1_get_def redis_get_def l1_ticket_def Let_def)

theorem late_load_is_not_cached_witness:
  "kv_get 20 ''k'' (ca_l2 (snd (load_after_wait show_nat 20 0 ''k'' (dur_secs 300)
       \<lparr>ti_evicted = None, ti_cleared = 0\<rparr> (Inr (Some 7)) (invalidate 10 [''k''] ex_cache)))) = Some INVALIDATED"
proof -
  obtain res st3 where l: "load_after_wait show_nat 20 0 ''k'' (dur_secs 300)
      \<lparr>ti_evicted = None, ti_cleared = 0\<rparr> (Inr (Some 7)) (invalidate 10 [''k''] ex_cache) = (res, st3)"
    by fastforce
  from late_load_is_not_cached [OF _ ex_probe _ _ refl rtranclp.rtrancl_refl l] show ?thesis
    unfolding l by (simp add: generations_ok_def ex_cache_def INVALIDATION_HOLD_def dur_secs_def nanos_per_sec_def)
qed

end
