(* ===== verification/Outbound.thy ===== *)
theory Outbound
  imports Text
begin

text \<open>
  The guard on outbound requests (\<open>api/src/util/outbound.rs\<close>): which addresses a request
  to a URL someone else chose may reach. An IPv4 address is its four octets, an IPv6
  address its eight segments, as \<open>std::net\<close> hands them out; the predicates of the
  standard library are written out. Parsers (a URL's host, an address literal), the
  resolver and the \<open>ipnet\<close> containment test are parameters.
\<close>

section \<open>Addresses\<close>

type_synonym ipv4 = "8 word \<times> 8 word \<times> 8 word \<times> 8 word"
type_synonym ipv6 = "16 word \<times> 16 word \<times> 16 word \<times> 16 word \<times> 16 word \<times> 16 word \<times> 16 word \<times> 16 word"

datatype ip_addr = V4 ipv4 | V6 ipv6

fun v4_is_private :: "ipv4 \<Rightarrow> bool" where
  "v4_is_private (a, b, c, d) = (a = 10 \<or> a = 172 \<and> 16 \<le> b \<and> b \<le> 31 \<or> a = 192 \<and> b = 168)"

fun v4_is_loopback :: "ipv4 \<Rightarrow> bool" where
  "v4_is_loopback (a, b, c, d) = (a = 127)"

fun v4_is_link_local :: "ipv4 \<Rightarrow> bool" where
  "v4_is_link_local (a, b, c, d) = (a = 169 \<and> b = 254)"

fun v4_is_documentation :: "ipv4 \<Rightarrow> bool" where
  "v4_is_documentation (a, b, c, d) =
     (a = 192 \<and> b = 0 \<and> c = 2 \<or> a = 198 \<and> b = 51 \<and> c = 100 \<or> a = 203 \<and> b = 0 \<and> c = 113)"

fun v4_is_multicast :: "ipv4 \<Rightarrow> bool" where
  "v4_is_multicast (a, b, c, d) = (224 \<le> a \<and> a \<le> 239)"

fun is_public_v4 :: "ipv4 \<Rightarrow> bool" where
  "is_public_v4 (a, b, c, d) =
     (\<not> (v4_is_private (a, b, c, d) \<or> v4_is_loopback (a, b, c, d) \<or> v4_is_link_local (a, b, c, d)
         \<or> (a, b, c, d) = (0, 0, 0, 0) \<or> (a, b, c, d) = (255, 255, 255, 255)
         \<or> v4_is_multicast (a, b, c, d) \<or> v4_is_documentation (a, b, c, d)
         \<or> a = 0
         \<or> a = 100 \<and> 64 \<le> b \<and> b < 128
         \<or> a = 192 \<and> b = 0 \<and> c = 0
         \<or> a = 198 \<and> (b = 18 \<or> b = 19)
         \<or> 240 \<le> a))"

unbundle bit_operations_syntax

fun low :: "16 word \<Rightarrow> 16 word \<Rightarrow> ipv4" where
  "low hi lo = (ucast (drop_bit 8 hi), ucast hi, ucast (drop_bit 8 lo), ucast lo)"

fun to_ipv4_mapped :: "ipv6 \<Rightarrow> ipv4 option" where
  "to_ipv4_mapped (s0, s1, s2, s3, s4, s5, s6, s7) =
     (if s0 = 0 \<and> s1 = 0 \<and> s2 = 0 \<and> s3 = 0 \<and> s4 = 0 \<and> s5 = 0xffff then Some (low s6 s7) else None)"

fun embedded_v4 :: "ipv6 \<Rightarrow> ipv4 option" where
  "embedded_v4 (s0, s1, s2, s3, s4, s5, s6, s7) =
     (case to_ipv4_mapped (s0, s1, s2, s3, s4, s5, s6, s7) of
        Some v4 \<Rightarrow> Some v4
      | None \<Rightarrow>
          if s0 = 0 \<and> s1 = 0 \<and> s2 = 0 \<and> s3 = 0 \<and> s4 = 0 \<and> s5 = 0 \<and> \<not> (s6 = 0 \<and> s7 \<le> 1) then Some (low s6 s7)
          else if s0 = 0x64 \<and> s1 = 0xff9b \<and> s2 = 0 \<and> s3 = 0 \<and> s4 = 0 \<and> s5 = 0 then Some (low s6 s7)
          else if s0 = 0x2002 then Some (low s1 s2)
          else None)"

fun v6_is_loopback :: "ipv6 \<Rightarrow> bool" where
  "v6_is_loopback (s0, s1, s2, s3, s4, s5, s6, s7) =
     (s0 = 0 \<and> s1 = 0 \<and> s2 = 0 \<and> s3 = 0 \<and> s4 = 0 \<and> s5 = 0 \<and> s6 = 0 \<and> s7 = 1)"

fun is_public_v6 :: "ipv6 \<Rightarrow> bool" where
  "is_public_v6 (s0, s1, s2, s3, s4, s5, s6, s7) =
     (case embedded_v4 (s0, s1, s2, s3, s4, s5, s6, s7) of
        Some v4 \<Rightarrow> is_public_v4 v4
      | None \<Rightarrow>
          \<not> (s0 = 0 \<and> s1 = 0 \<and> s2 = 0 \<and> s3 = 0 \<and> s4 = 0 \<and> s5 = 0 \<and> s6 = 0 \<and> s7 = 0
             \<or> v6_is_loopback (s0, s1, s2, s3, s4, s5, s6, s7)
             \<or> s0 AND 0xff00 = 0xff00
             \<or> s0 AND 0xfe00 = 0xfc00
             \<or> s0 AND 0xffc0 = 0xfe80
             \<or> s0 AND 0xffc0 = 0xfec0
             \<or> s0 = 0x2001 \<and> s1 = 0xdb8
             \<or> s0 = 0x100 \<and> s1 = 0 \<and> s2 = 0 \<and> s3 = 0))"

fun is_public :: "ip_addr \<Rightarrow> bool" where
  "is_public (V4 v4) = is_public_v4 v4"
| "is_public (V6 v6) = is_public_v6 v6"

fun is_loopback :: "ip_addr \<Rightarrow> bool" where
  "is_loopback (V4 v4) = v4_is_loopback v4"
| "is_loopback (V6 v6) = v6_is_loopback v6"

section \<open>The guard\<close>

text \<open>The opened networks are those of the first \<open>allow_networks\<close> call.\<close>

definition allow_networks :: "'net list \<Rightarrow> 'net list option \<Rightarrow> 'net list option" where
  "allow_networks ns opened = (case opened of None \<Rightarrow> Some ns | Some old \<Rightarrow> Some old)"

definition permitted_in :: "('net \<Rightarrow> ip_addr \<Rightarrow> bool) \<Rightarrow> ip_addr \<Rightarrow> 'net list \<Rightarrow> bool" where
  "permitted_in contains ip opened = (is_public ip \<or> list_ex (\<lambda>n. contains n ip) opened)"

definition is_permitted :: "('net \<Rightarrow> ip_addr \<Rightarrow> bool) \<Rightarrow> 'net list option \<Rightarrow> ip_addr \<Rightarrow> bool" where
  "is_permitted contains opened ip = permitted_in contains ip (case opened of None \<Rightarrow> [] | Some ns \<Rightarrow> ns)"

definition is_loopback_name :: "string \<Rightarrow> bool" where
  "is_loopback_name host = (lower (rev (dropWhile (\<lambda>c. c = CHR ''.'') (rev host))) = ''localhost'')"

definition allowed_addrs ::
  "('net \<Rightarrow> ip_addr \<Rightarrow> bool) \<Rightarrow> 'net list option \<Rightarrow> string \<Rightarrow> (ip_addr \<times> nat) list \<Rightarrow> (ip_addr \<times> nat) list" where
  "allowed_addrs contains opened host addrs =
     filter (\<lambda>a. is_permitted contains opened (fst a) \<or> is_loopback_name host \<and> is_loopback (fst a)) addrs"

datatype url_host = HostV4 ipv4 | HostV6 ipv6 | HostDomain string

fun host_ip :: "url_host \<Rightarrow> ip_addr option" where
  "host_ip (HostV4 a) = Some (V4 a)"
| "host_ip (HostV6 a) = Some (V6 a)"
| "host_ip (HostDomain d) = None"

text \<open>\<open>host_of\<close> is \<open>Url::parse\<close> with \<open>host()\<close>: not a URL, a URL without a host, or its host.\<close>

definition check_url ::
  "('net \<Rightarrow> ip_addr \<Rightarrow> bool) \<Rightarrow> 'net list option \<Rightarrow> (string \<Rightarrow> url_host option option) \<Rightarrow> (ip_addr \<Rightarrow> string)
     \<Rightarrow> string \<Rightarrow> string + unit" where
  "check_url contains opened host_of show_ip raw =
     (case host_of raw of
        None \<Rightarrow> Inl (''`'' @ raw @ ''` is not a valid URL'')
      | Some None \<Rightarrow> Inl (''`'' @ raw @ ''` has no host'')
      | Some (Some h) \<Rightarrow>
          (case host_ip h of
             None \<Rightarrow> Inr ()
           | Some ip \<Rightarrow>
               if is_permitted contains opened ip \<or> is_loopback ip then Inr ()
               else Inl (''`'' @ show_ip ip @ ''` is a private, link-local or reserved address'')))"

definition bare_host :: "string \<Rightarrow> string" where
  "bare_host host = rev (dropWhile (\<lambda>c. c = CHR '']'') (rev (dropWhile (\<lambda>c. c = CHR ''['') host)))"

definition check_host ::
  "('net \<Rightarrow> ip_addr \<Rightarrow> bool) \<Rightarrow> 'net list option \<Rightarrow> (string \<Rightarrow> ip_addr option) \<Rightarrow> (ip_addr \<Rightarrow> string)
     \<Rightarrow> string \<Rightarrow> string + unit" where
  "check_host contains opened parse_ip show_ip host =
     (case parse_ip (bare_host host) of
        Some ip \<Rightarrow>
          if is_permitted contains opened ip \<or> is_loopback ip then Inr ()
          else Inl (''`'' @ show_ip ip @ ''` is a private, link-local or reserved address'')
      | None \<Rightarrow> Inr ())"

text \<open>\<open>resolved\<close> is what the system resolver answers for the name and port.\<close>

definition resolve_public ::
  "('net \<Rightarrow> ip_addr \<Rightarrow> bool) \<Rightarrow> 'net list option \<Rightarrow> (string \<Rightarrow> ip_addr option) \<Rightarrow> (ip_addr \<Rightarrow> string)
     \<Rightarrow> (string \<Rightarrow> nat \<Rightarrow> string + (ip_addr \<times> nat) list) \<Rightarrow> string \<Rightarrow> nat \<Rightarrow> string + (ip_addr \<times> nat)" where
  "resolve_public contains opened parse_ip show_ip lookup_host host port =
     (let bare = bare_host host
      in case parse_ip bare of
           Some ip \<Rightarrow> andThen (check_host contains opened parse_ip show_ip bare) (\<lambda>_. Inr (ip, port))
         | None \<Rightarrow>
             (case lookup_host bare port of
                Inl e \<Rightarrow> Inl (''cannot resolve `'' @ bare @ ''`: '' @ e)
              | Inr resolved \<Rightarrow>
                  (case allowed_addrs contains opened bare resolved of
                     [] \<Rightarrow> Inl (''`'' @ bare @ ''` resolves only to private, loopback or reserved addresses'')
                   | a # as \<Rightarrow> Inr a)))"

definition public_resolver ::
  "('net \<Rightarrow> ip_addr \<Rightarrow> bool) \<Rightarrow> 'net list option \<Rightarrow> (string \<Rightarrow> nat \<Rightarrow> string + (ip_addr \<times> nat) list)
     \<Rightarrow> string \<Rightarrow> string + (ip_addr \<times> nat) list" where
  "public_resolver contains opened lookup_host host =
     andThen (lookup_host host 0) (\<lambda>resolved.
       (let kept = allowed_addrs contains opened host resolved
        in if kept = [] then Inl (''`'' @ host @ ''` resolves only to private, loopback or reserved addresses'')
           else Inr kept))"

section \<open>Address blocks\<close>

text \<open>An address as a number, and the blocks of the special-purpose registries.\<close>

fun v4_num :: "ipv4 \<Rightarrow> nat" where
  "v4_num (a, b, c, d) = unat a * 2 ^ 24 + unat b * 2 ^ 16 + unat c * 2 ^ 8 + unat d"

definition in_block :: "ipv4 \<Rightarrow> (nat \<times> nat \<times> nat \<times> nat) \<times> nat \<Rightarrow> bool" where
  "in_block ip blk = (case blk of ((a, b, c, d), len) \<Rightarrow>
     v4_num ip div 2 ^ (32 - len) = (a * 2 ^ 24 + b * 2 ^ 16 + c * 2 ^ 8 + d) div 2 ^ (32 - len))"

definition special_blocks :: "((nat \<times> nat \<times> nat \<times> nat) \<times> nat) list" where
  "special_blocks =
     [((0, 0, 0, 0), 8), ((10, 0, 0, 0), 8), ((100, 64, 0, 0), 10), ((127, 0, 0, 0), 8),
      ((169, 254, 0, 0), 16), ((172, 16, 0, 0), 12), ((192, 0, 0, 0), 24), ((192, 0, 2, 0), 24),
      ((192, 168, 0, 0), 16), ((198, 18, 0, 0), 15), ((198, 51, 100, 0), 24), ((203, 0, 113, 0), 24),
      ((224, 0, 0, 0), 4), ((240, 0, 0, 0), 4)]"

lemma unat8: "unat (x :: 8 word) < 256"
  using unsigned_less [of x] by simp

lemma word8_num: "x = y \<longleftrightarrow> unat x = unat (y :: 8 word)" "x \<le> y \<longleftrightarrow> unat x \<le> unat y" "x < y \<longleftrightarrow> unat x < unat y"
  by (simp_all add: word_unat_eq_iff word_le_nat_alt word_less_nat_alt)

lemma v4_prefix:
  assumes "A < 256" "B < 256" "C < 256" "D < (256 :: nat)"
  defines "v \<equiv> A * 2 ^ 24 + B * 2 ^ 16 + C * 2 ^ 8 + D"
  shows "v div 2 ^ 24 = A" "v div 2 ^ 16 = A * 256 + B" "v div 2 ^ 8 = A * 65536 + B * 256 + C"
    "v div 2 ^ 22 = A * 4 + B div 64" "v div 2 ^ 20 = A * 16 + B div 16" "v div 2 ^ 17 = A * 128 + B div 2"
    "v div 2 ^ 28 = A div 16"
proof -
  show c: "v div 2 ^ 8 = A * 65536 + B * 256 + C" unfolding v_def using assms by simp
  have "v div 2 ^ 16 = v div 2 ^ 8 div 2 ^ 8" by (simp add: div_mult2_eq [symmetric])
  then show b: "v div 2 ^ 16 = A * 256 + B" unfolding c using assms by simp
  have "v div 2 ^ 24 = v div 2 ^ 16 div 2 ^ 8" by (simp add: div_mult2_eq [symmetric])
  then show a: "v div 2 ^ 24 = A" unfolding b using assms by simp
  have "v div 2 ^ 22 = v div 2 ^ 16 div 2 ^ 6" by (simp add: div_mult2_eq [symmetric])
  then show "v div 2 ^ 22 = A * 4 + B div 64" unfolding b by simp
  have "v div 2 ^ 20 = v div 2 ^ 16 div 2 ^ 4" by (simp add: div_mult2_eq [symmetric])
  then show "v div 2 ^ 20 = A * 16 + B div 16" unfolding b by simp
  have "v div 2 ^ 17 = v div 2 ^ 16 div 2 ^ 1" by (simp add: div_mult2_eq [symmetric])
  then show "v div 2 ^ 17 = A * 128 + B div 2" unfolding b by simp
  have "v div 2 ^ 28 = v div 2 ^ 24 div 2 ^ 4" by (simp add: div_mult2_eq [symmetric])
  then show "v div 2 ^ 28 = A div 16" unfolding a by simp
qed

lemma block_lens: "32 - 4 = (28 :: nat)" "32 - 8 = (24 :: nat)" "32 - 10 = (22 :: nat)" "32 - 12 = (20 :: nat)" "32 - 15 = (17 :: nat)" "32 - 16 = (16 :: nat)" "32 - 24 = (8 :: nat)"
  by simp_all

lemma block_nums:
  "(0 * 2 ^ 24 + 0 * 2 ^ 16 + 0 * 2 ^ 8 + 0) div 2 ^ 24 = (0 :: nat)"
  "(10 * 2 ^ 24 + 0 * 2 ^ 16 + 0 * 2 ^ 8 + 0) div 2 ^ 24 = (10 :: nat)"
  "(100 * 2 ^ 24 + 64 * 2 ^ 16 + 0 * 2 ^ 8 + 0) div 2 ^ 22 = (401 :: nat)"
  "(127 * 2 ^ 24 + 0 * 2 ^ 16 + 0 * 2 ^ 8 + 0) div 2 ^ 24 = (127 :: nat)"
  "(169 * 2 ^ 24 + 254 * 2 ^ 16 + 0 * 2 ^ 8 + 0) div 2 ^ 16 = (43518 :: nat)"
  "(172 * 2 ^ 24 + 16 * 2 ^ 16 + 0 * 2 ^ 8 + 0) div 2 ^ 20 = (2753 :: nat)"
  "(192 * 2 ^ 24 + 0 * 2 ^ 16 + 0 * 2 ^ 8 + 0) div 2 ^ 8 = (12582912 :: nat)"
  "(192 * 2 ^ 24 + 0 * 2 ^ 16 + 2 * 2 ^ 8 + 0) div 2 ^ 8 = (12582914 :: nat)"
  "(192 * 2 ^ 24 + 168 * 2 ^ 16 + 0 * 2 ^ 8 + 0) div 2 ^ 16 = (49320 :: nat)"
  "(198 * 2 ^ 24 + 18 * 2 ^ 16 + 0 * 2 ^ 8 + 0) div 2 ^ 17 = (25353 :: nat)"
  "(198 * 2 ^ 24 + 51 * 2 ^ 16 + 100 * 2 ^ 8 + 0) div 2 ^ 8 = (12989284 :: nat)"
  "(203 * 2 ^ 24 + 0 * 2 ^ 16 + 113 * 2 ^ 8 + 0) div 2 ^ 8 = (13303921 :: nat)"
  "(224 * 2 ^ 24 + 0 * 2 ^ 16 + 0 * 2 ^ 8 + 0) div 2 ^ 28 = (14 :: nat)"
  "(240 * 2 ^ 24 + 0 * 2 ^ 16 + 0 * 2 ^ 8 + 0) div 2 ^ 28 = (15 :: nat)"
  by simp_all

lemma in_block_nums:
  assumes "A < 256" "B < 256" "C < 256" "D < (256 :: nat)"
  defines "v \<equiv> A * 2 ^ 24 + B * 2 ^ 16 + C * 2 ^ 8 + D"
  shows "(\<exists>blk\<in>set special_blocks. case blk of ((a, b, c, d), len) \<Rightarrow>
      v div 2 ^ (32 - len) = (a * 2 ^ 24 + b * 2 ^ 16 + c * 2 ^ 8 + d) div 2 ^ (32 - len)) \<longleftrightarrow>
    A = 0 \<or> A = 10 \<or> A * 4 + B div 64 = 401 \<or> A = 127 \<or> A * 256 + B = 43518 \<or> A * 16 + B div 16 = 2753 \<or>
    A * 65536 + B * 256 + C = 12582912 \<or> A * 65536 + B * 256 + C = 12582914 \<or> A * 256 + B = 49320 \<or>
    A * 128 + B div 2 = 25353 \<or> A * 65536 + B * 256 + C = 12989284 \<or> A * 65536 + B * 256 + C = 13303921 \<or>
    A div 16 = 14 \<or> A div 16 = 15"
proof -
  note p = v4_prefix [OF assms(1-4), folded v_def]
  show ?thesis
    unfolding special_blocks_def
    by (simp only: list.set Set.bex_simps prod.case block_lens block_nums p HOL.simp_thms disj_ac)
qed

lemma octet_mods:
  "10 mod 2 ^ LENGTH(8) = (10 :: nat)" "172 mod 2 ^ LENGTH(8) = (172 :: nat)" "16 mod 2 ^ LENGTH(8) = (16 :: nat)" "31 mod 2 ^ LENGTH(8) = (31 :: nat)" "192 mod 2 ^ LENGTH(8) = (192 :: nat)" "168 mod 2 ^ LENGTH(8) = (168 :: nat)" "127 mod 2 ^ LENGTH(8) = (127 :: nat)" "169 mod 2 ^ LENGTH(8) = (169 :: nat)" "254 mod 2 ^ LENGTH(8) = (254 :: nat)" "224 mod 2 ^ LENGTH(8) = (224 :: nat)" "239 mod 2 ^ LENGTH(8) = (239 :: nat)" "2 mod 2 ^ LENGTH(8) = (2 :: nat)" "198 mod 2 ^ LENGTH(8) = (198 :: nat)" "51 mod 2 ^ LENGTH(8) = (51 :: nat)" "100 mod 2 ^ LENGTH(8) = (100 :: nat)" "203 mod 2 ^ LENGTH(8) = (203 :: nat)" "113 mod 2 ^ LENGTH(8) = (113 :: nat)" "64 mod 2 ^ LENGTH(8) = (64 :: nat)" "128 mod 2 ^ LENGTH(8) = (128 :: nat)" "18 mod 2 ^ LENGTH(8) = (18 :: nat)" "19 mod 2 ^ LENGTH(8) = (19 :: nat)" "240 mod 2 ^ LENGTH(8) = (240 :: nat)"
  by simp_all

lemma absorb_ends:
  "(z \<longrightarrow> p0) \<Longrightarrow> (f \<longrightarrow> p240) \<Longrightarrow>
   (\<not> ((p10 \<or> p172 \<or> q192) \<or> p127 \<or> p169 \<or> z \<or> f \<or> p224 \<or> (r192 \<or> q198 \<or> p203) \<or> p0 \<or> p100 \<or> p192 \<or> p198 \<or> p240))
   = (\<not> (p0 \<or> p10 \<or> p100 \<or> p127 \<or> p169 \<or> p172 \<or> p192 \<or> r192 \<or> q192 \<or> p198 \<or> q198 \<or> p203 \<or> p224 \<or> p240))"
  by argo

lemma two_digits: "r < m \<Longrightarrow> q * m + r = n \<longleftrightarrow> q = n div m \<and> r = n mod (m :: nat)"
  by auto

lemma prefix_octets:
  assumes "A < 256" "B < 256" "C < (256 :: nat)"
  shows "A * 4 + B div 64 = 401 \<longleftrightarrow> A = 100 \<and> 64 \<le> B \<and> B < 128"
    "A * 256 + B = 43518 \<longleftrightarrow> A = 169 \<and> B = 254" "A * 256 + B = 49320 \<longleftrightarrow> A = 192 \<and> B = 168"
    "A * 16 + B div 16 = 2753 \<longleftrightarrow> A = 172 \<and> 16 \<le> B \<and> B \<le> 31"
    "A * 128 + B div 2 = 25353 \<longleftrightarrow> A = 198 \<and> (B = 18 \<or> B = 19)"
    "A * 65536 + B * 256 + C = 12582912 \<longleftrightarrow> A = 192 \<and> B = 0 \<and> C = 0"
    "A * 65536 + B * 256 + C = 12582914 \<longleftrightarrow> A = 192 \<and> B = 0 \<and> C = 2"
    "A * 65536 + B * 256 + C = 12989284 \<longleftrightarrow> A = 198 \<and> B = 51 \<and> C = 100"
    "A * 65536 + B * 256 + C = 13303921 \<longleftrightarrow> A = 203 \<and> B = 0 \<and> C = 113"
    "A div 16 = 14 \<longleftrightarrow> 224 \<le> A \<and> A \<le> 239" "A div 16 = 15 \<longleftrightarrow> 240 \<le> A"
proof -
  have small: "B div 64 < 4" "B div 16 < 16" "B div 2 < 128" using assms by simp_all
  show "A * 4 + B div 64 = 401 \<longleftrightarrow> A = 100 \<and> 64 \<le> B \<and> B < 128"
    unfolding two_digits [OF small(1)] by auto
  show "A * 16 + B div 16 = 2753 \<longleftrightarrow> A = 172 \<and> 16 \<le> B \<and> B \<le> 31"
    unfolding two_digits [OF small(2)] by auto
  show "A * 128 + B div 2 = 25353 \<longleftrightarrow> A = 198 \<and> (B = 18 \<or> B = 19)"
    unfolding two_digits [OF small(3)] by auto
  show "A * 256 + B = 43518 \<longleftrightarrow> A = 169 \<and> B = 254" "A * 256 + B = 49320 \<longleftrightarrow> A = 192 \<and> B = 168"
    unfolding two_digits [OF assms(2)] by simp_all
  have three: "A * 65536 + B * 256 + C = n \<longleftrightarrow> A = n div 256 div 256 \<and> B = n div 256 mod 256 \<and> C = n mod 256" for n
    using two_digits [OF assms(3), of "A * 256 + B" n] two_digits [OF assms(2), of A "n div 256"]
    by (simp add: add_mult_distrib conj_assoc mult.commute)
  show "A * 65536 + B * 256 + C = 12582912 \<longleftrightarrow> A = 192 \<and> B = 0 \<and> C = 0"
    "A * 65536 + B * 256 + C = 12582914 \<longleftrightarrow> A = 192 \<and> B = 0 \<and> C = 2"
    "A * 65536 + B * 256 + C = 12989284 \<longleftrightarrow> A = 198 \<and> B = 51 \<and> C = 100"
    "A * 65536 + B * 256 + C = 13303921 \<longleftrightarrow> A = 203 \<and> B = 0 \<and> C = 113"
    unfolding three by simp_all
  show "A div 16 = 14 \<longleftrightarrow> 224 \<le> A \<and> A \<le> 239" "A div 16 = 15 \<longleftrightarrow> 240 \<le> A" using assms by auto
qed

section \<open>Properties\<close>

text \<open>
  The test for public IPv4 addresses is exactly the complement of fourteen blocks of
  the special-purpose registries, each compared as a 32-bit prefix.
\<close>

theorem is_public_v4_blocks:
  "is_public_v4 ip \<longleftrightarrow> \<not> (\<exists>blk\<in>set special_blocks. in_block ip blk)"
proof -
  obtain a b c d where ip: "ip = (a, b, c, d)" by (cases ip)
  note nums = in_block_nums [OF unat8 [of a] unat8 [of b] unat8 [of c] unat8 [of d]]
  note octets = prefix_octets [OF unat8 [of a] unat8 [of b] unat8 [of c]]
  have "is_public_v4 ip \<longleftrightarrow> \<not> (unat a = 0 \<or> unat a = 10 \<or> unat a = 100 \<and> 64 \<le> unat b \<and> unat b < 128 \<or> unat a = 127
      \<or> unat a = 169 \<and> unat b = 254 \<or> unat a = 172 \<and> 16 \<le> unat b \<and> unat b \<le> 31
      \<or> unat a = 192 \<and> unat b = 0 \<and> unat c = 0 \<or> unat a = 192 \<and> unat b = 0 \<and> unat c = 2
      \<or> unat a = 192 \<and> unat b = 168 \<or> unat a = 198 \<and> (unat b = 18 \<or> unat b = 19)
      \<or> unat a = 198 \<and> unat b = 51 \<and> unat c = 100 \<or> unat a = 203 \<and> unat b = 0 \<and> unat c = 113
      \<or> 224 \<le> unat a \<and> unat a \<le> 239 \<or> 240 \<le> unat a)"
  proof -
    have zero: "(a, b, c, d) = (0, 0, 0, 0) \<longrightarrow> unat a = 0"
      and ones: "(a, b, c, d) = (255, 255, 255, 255) \<longrightarrow> 240 \<le> unat a" by simp_all
    have nums: "x = 0 \<longleftrightarrow> unat x = 0" "x = numeral n \<longleftrightarrow> unat x = unat (numeral n :: 8 word)"
      "numeral n \<le> x \<longleftrightarrow> unat (numeral n :: 8 word) \<le> unat x" "x \<le> numeral n \<longleftrightarrow> unat x \<le> unat (numeral n :: 8 word)"
      "x < numeral n \<longleftrightarrow> unat x < unat (numeral n :: 8 word)" for x :: "8 word" and n
      by (simp_all add: word8_num)
    show ?thesis
      unfolding ip is_public_v4.simps v4_is_private.simps v4_is_loopback.simps v4_is_link_local.simps
        v4_is_multicast.simps v4_is_documentation.simps
      by (simp only: nums unat_numeral octet_mods) (rule absorb_ends [OF zero ones])
  qed
  then show ?thesis unfolding in_block_def ip v4_num.simps nums octets by blast
qed

text \<open>The IPv6 forms of an IPv4 address.\<close>

definition segment :: "8 word \<Rightarrow> 8 word \<Rightarrow> 16 word" where
  "segment a b = push_bit 8 (ucast a) OR ucast b"

lemma low_segment: "low (segment a b) (segment c d) = (a, b, c, d)"
proof -
  have "ucast (drop_bit 8 (segment x y)) = x" "ucast (segment x y) = y" for x y
    unfolding segment_def by (rule bit_word_eqI, auto simp: bit_simps dest: bit_imp_le_length)+
  then show ?thesis by simp
qed

fun v6_mapped :: "ipv4 \<Rightarrow> ipv6" where
  "v6_mapped (a, b, c, d) = (0, 0, 0, 0, 0, 0xffff, segment a b, segment c d)"

fun v6_compatible :: "ipv4 \<Rightarrow> ipv6" where
  "v6_compatible (a, b, c, d) = (0, 0, 0, 0, 0, 0, segment a b, segment c d)"

fun v6_nat64 :: "ipv4 \<Rightarrow> ipv6" where
  "v6_nat64 (a, b, c, d) = (0x64, 0xff9b, 0, 0, 0, 0, segment a b, segment c d)"

fun v6_6to4 :: "ipv4 \<Rightarrow> 16 word \<Rightarrow> 16 word \<Rightarrow> 16 word \<Rightarrow> 16 word \<Rightarrow> 16 word \<Rightarrow> ipv6" where
  "v6_6to4 (a, b, c, d) s3 s4 s5 s6 s7 = (0x2002, segment a b, segment c d, s3, s4, s5, s6, s7)"

lemma compatible_low: "is_public_v6 (0, 0, 0, 0, 0, 0, s6, s7) = is_public_v4 (low s6 s7)"
proof (cases "s6 = 0 \<and> s7 \<le> 1")
  case True
  then have "s7 = 0 \<or> s7 = 1" by (metis word_le_less_eq word_less_1)
  with True show ?thesis by auto
qed auto

text \<open>
  An IPv6 address that stands for an IPv4 address is public exactly when that address
  is, in all four forms: no form reaches an address the guard refuses.
\<close>

theorem embedded_addresses_judged_alike:
  "is_public_v6 (v6_mapped v4) = is_public_v4 v4 \<and> is_public_v6 (v6_compatible v4) = is_public_v4 v4 \<and>
   is_public_v6 (v6_nat64 v4) = is_public_v4 v4 \<and> is_public_v6 (v6_6to4 v4 s3 s4 s5 s6 s7) = is_public_v4 v4"
proof -
  obtain a b c d where v4: "v4 = (a, b, c, d)" by (cases v4)
  have "is_public_v6 (v6_compatible v4) = is_public_v4 v4"
    unfolding v4 v6_compatible.simps compatible_low low_segment ..
  then show ?thesis unfolding v4 by (simp del: low.simps is_public_v4.simps add: low_segment)
qed

lemma dropWhile_both_ends:
  fixes P Q :: "'a \<Rightarrow> bool"
  defines "chop \<equiv> \<lambda>xs. rev (dropWhile Q (rev xs))"
  shows "dropWhile P (chop (dropWhile P xs)) = chop (dropWhile P xs)"
proof (cases "chop (dropWhile P xs)")
  case (Cons z zs)
  have "\<exists>us. dropWhile P xs = chop (dropWhile P xs) @ us"
    unfolding chop_def by (metis rev_append rev_rev_ident takeWhile_dropWhile_id)
  then obtain us where "dropWhile P xs = z # zs @ us" using Cons by auto
  then have "\<not> P z" by (metis hd_dropWhile list.sel(1) list.simps(3))
  then show ?thesis using Cons by simp
qed simp

lemma bare_host_idem: "bare_host (bare_host h) = bare_host h"
  unfolding bare_host_def dropWhile_both_ends rev_rev_ident dropWhile_idem ..

text \<open>
  Whatever the resolver answers, the address a connection is made to is public, inside
  a network the operator opened, or loopback written as such (an address literal or the
  name \<open>localhost\<close>); the same holds for every address handed to the HTTP client.
\<close>

theorem outbound_reaches_permitted_only:
  "(resolve_public contains opened parse_ip show_ip lookup_host host port = Inr (ip, p) \<longrightarrow>
      is_permitted contains opened ip \<or>
      is_loopback ip \<and> (parse_ip (bare_host host) = Some ip \<or> is_loopback_name (bare_host host))) \<and>
   (public_resolver contains opened lookup_host host = Inr addrs \<and> (ip, p) \<in> set addrs \<longrightarrow>
      is_permitted contains opened ip \<or> is_loopback ip \<and> is_loopback_name host)"
  by (auto simp: resolve_public_def public_resolver_def check_host_def allowed_addrs_def bare_host_idem Let_def andThen_Inr
        filter_eq_Cons_iff split: option.splits sum.splits list.splits if_splits)

theorem outbound_reaches_permitted_only_witness:
  "is_permitted (\<lambda>n ip. False) (None :: nat list option) (V4 (8, 8, 8, 8))"
  using outbound_reaches_permitted_only [of "\<lambda>n ip. False" None "\<lambda>s. None" "\<lambda>ip. []"
      "\<lambda>h p. Inr [(V4 (10, 0, 0, 1), p), (V4 (8, 8, 8, 8), p)]" "''mail''" 25 "V4 (8, 8, 8, 8)" 25 "[]"]
  by (simp add: resolve_public_def allowed_addrs_def is_permitted_def permitted_in_def Let_def)

end
