(* ===== verification/Ip_Rules.thy ===== *)
theory Ip_Rules
  imports Domain Text
begin

text \<open>
  Allow and deny rules by client address (\<open>api/src/services/ip_rules.rs\<close>,
  \<open>api/src/repos/ip_rules.rs\<close>, \<open>api/src/models/ip_rule.rs\<close>): the decision of one scope
  (the tenant's, or a client's), its enforcement, and the administration of a tenant's
  rules. Networks are the \<open>ipnet\<close> crate's, given by the record \<open>ipnet\<close> of what the code
  asks of one.
\<close>

section \<open>Data\<close>

record ('net, 'ip) ipnet =
  in_parse :: "string \<Rightarrow> 'net option"
  in_parse_ip :: "string \<Rightarrow> 'ip option"
  in_of_ip :: "'ip \<Rightarrow> 'net"
  in_contains :: "'net \<Rightarrow> 'ip \<Rightarrow> bool"
  in_prefix_len :: "'net \<Rightarrow> nat"
  in_trunc :: "'net \<Rightarrow> 'net"
  in_show :: "'net \<Rightarrow> string"

datatype rule_action = Allow | Deny

record ip_rule =
  ipr_id :: uuid
  ipr_tenant :: uuid
  ipr_client :: "uuid option"
  ipr_action :: rule_action
  ipr_cidr :: string
  ipr_description :: "string option"

record new_ip_rule =
  nipr_client :: "uuid option"
  nipr_action :: "rule_action option"
  nipr_cidr :: string
  nipr_description :: "string option"

record ip_rule_update =
  upr_action :: "rule_action option"
  upr_cidr :: "string option"
  upr_description :: "string option option"

section \<open>The decision\<close>

text \<open>The network of a rule, when the rule is one the address falls under.\<close>

definition rule_match :: "('net, 'ip) ipnet \<Rightarrow> 'ip option \<Rightarrow> ip_rule \<Rightarrow> nat option" where
  "rule_match nets ip r =
     (case (ip, in_parse nets (ipr_cidr r)) of
        (Some a, Some n) \<Rightarrow> if in_contains nets n a then Some (in_prefix_len nets n) else None
      | _ \<Rightarrow> None)"

fun scan :: "('net, 'ip) ipnet \<Rightarrow> 'ip option \<Rightarrow> ip_rule list \<Rightarrow> bool \<times> (nat \<times> rule_action) option \<Rightarrow> bool \<times> (nat \<times> rule_action) option" where
  "scan nets ip [] acc = acc"
| "scan nets ip (r # rs) (has_allow, best) =
     scan nets ip rs (has_allow \<or> ipr_action r = Allow,
       case rule_match nets ip r of
         None \<Rightarrow> best
       | Some len \<Rightarrow>
           (case best of
              None \<Rightarrow> Some (len, ipr_action r)
            | Some (l, a) \<Rightarrow> if l < len then Some (len, ipr_action r) else best))"

definition scope_allows :: "('net, 'ip) ipnet \<Rightarrow> ip_rule list \<Rightarrow> uuid option \<Rightarrow> 'ip option \<Rightarrow> bool" where
  "scope_allows nets rules scope ip =
     (case scan nets ip (filter (\<lambda>r. ipr_client r = scope) rules) (False, None) of
        (has_allow, Some (len, action)) \<Rightarrow> action = Allow
      | (has_allow, None) \<Rightarrow> \<not> has_allow)"

definition cached_rules :: "uuid \<Rightarrow> ip_rule list \<Rightarrow> ip_rule list" where
  "cached_rules t rows = filter (\<lambda>r. ipr_tenant r = t) rows"

definition tenant_allows :: "('net, 'ip) ipnet \<Rightarrow> uuid \<Rightarrow> 'ip option \<Rightarrow> ip_rule list \<Rightarrow> bool" where
  "tenant_allows nets t ip rows = scope_allows nets (cached_rules t rows) None ip"

definition client_allows :: "('net, 'ip) ipnet \<Rightarrow> uuid \<Rightarrow> uuid \<Rightarrow> 'ip option \<Rightarrow> ip_rule list \<Rightarrow> bool" where
  "client_allows nets t c ip rows = scope_allows nets (cached_rules t rows) (Some c) ip"

text \<open>\<open>rows\<close> is the loaded rules, or the failure to load them.\<close>

definition require_client ::
  "('net, 'ip) ipnet \<Rightarrow> uuid \<Rightarrow> uuid \<Rightarrow> 'ip option \<Rightarrow> app_error + ip_rule list \<Rightarrow> app_error + unit" where
  "require_client nets t c ip rows =
     (case rows of
        Inl e \<Rightarrow> Inl (Unavailable ''ip rules unavailable'')
      | Inr rs \<Rightarrow>
          if client_allows nets t c ip rs then Inr ()
          else Inl (Forbidden ''this address may not use this client''))"

section \<open>Administration\<close>

definition IP_RULES_MAX :: nat where "IP_RULES_MAX = 1000"

definition normalize_cidr :: "('net, 'ip) ipnet \<Rightarrow> string \<Rightarrow> app_error + string" where
  "normalize_cidr nets raw =
     (let s = trim raw
      in case in_parse nets s of
           Some n \<Rightarrow> Inr (in_show nets (in_trunc nets n))
         | None \<Rightarrow>
             (case in_parse_ip nets s of
                Some a \<Rightarrow> Inr (in_show nets (in_trunc nets (in_of_ip nets a)))
              | None \<Rightarrow> Inl (BadRequest (''cidr: `'' @ s @ ''` is not an IP address or network''))))"

definition rule_taken :: "ip_rule \<Rightarrow> ip_rule list \<Rightarrow> bool" where
  "rule_taken r rows = list_ex (\<lambda>x. ipr_id x \<noteq> ipr_id r \<and> ipr_tenant x = ipr_tenant r \<and>
     ipr_client x = ipr_client r \<and> ipr_cidr x = ipr_cidr r) rows"

definition create_rule ::
  "('net, 'ip) ipnet \<Rightarrow> (uuid \<Rightarrow> bool) \<Rightarrow> uuid \<Rightarrow> uuid \<Rightarrow> new_ip_rule \<Rightarrow> ip_rule list \<Rightarrow> (app_error + ip_rule) \<times> ip_rule list" where
  "create_rule nets client_exists t new_id input rows =
     (case normalize_cidr nets (nipr_cidr input) of
        Inl e \<Rightarrow> (Inl e, rows)
      | Inr cidr \<Rightarrow>
          if \<not> (case nipr_client input of None \<Rightarrow> True | Some c \<Rightarrow> client_exists c) then
            (Inl (BadRequest ''client_id does not exist''), rows)
          else if IP_RULES_MAX \<le> length (filter (\<lambda>r. ipr_tenant r = t) rows) then
            (Inl (BadRequest (''a tenant can have at most '' @ show_nat IP_RULES_MAX @ '' IP rules'')), rows)
          else
            (let r = \<lparr>ipr_id = new_id, ipr_tenant = t, ipr_client = nipr_client input,
                      ipr_action = (case nipr_action input of None \<Rightarrow> Deny | Some a \<Rightarrow> a),
                      ipr_cidr = cidr, ipr_description = nipr_description input\<rparr>
             in if list_ex (\<lambda>x. ipr_id x = new_id) rows \<or> rule_taken r rows then
                  (Inl (Conflict ''a rule for this network already exists''), rows)
                else (Inr r, rows @ [r])))"

definition get_rule :: "uuid \<Rightarrow> uuid \<Rightarrow> ip_rule list \<Rightarrow> ip_rule option" where
  "get_rule t i rows = find (\<lambda>r. ipr_tenant r = t \<and> ipr_id r = i) rows"

definition patched_rule :: "ip_rule_update \<Rightarrow> ip_rule \<Rightarrow> ip_rule" where
  "patched_rule p r = r\<lparr>ipr_action := (case upr_action p of None \<Rightarrow> ipr_action r | Some a \<Rightarrow> a),
     ipr_cidr := (case upr_cidr p of None \<Rightarrow> ipr_cidr r | Some c \<Rightarrow> c),
     ipr_description := (case upr_description p of None \<Rightarrow> ipr_description r | Some d \<Rightarrow> d)\<rparr>"

definition update_rule ::
  "('net, 'ip) ipnet \<Rightarrow> uuid \<Rightarrow> uuid \<Rightarrow> ip_rule_update \<Rightarrow> ip_rule list \<Rightarrow> (app_error + ip_rule) \<times> ip_rule list" where
  "update_rule nets t i patch rows =
     (case (case upr_cidr patch of
              None \<Rightarrow> Inr patch
            | Some c \<Rightarrow> andThen (normalize_cidr nets c) (\<lambda>c'. Inr (patch\<lparr>upr_cidr := Some c'\<rparr>))) of
        Inl e \<Rightarrow> (Inl e, rows)
      | Inr p \<Rightarrow>
          (case get_rule t i rows of
             None \<Rightarrow> (Inl (NotFound ''ip rule''), rows)
           | Some r \<Rightarrow>
               if rule_taken (patched_rule p r) rows then
                 (Inl (Conflict ''a rule for this network already exists''), rows)
               else (Inr (patched_rule p r),
                 update_where (\<lambda>x. ipr_tenant x = t \<and> ipr_id x = i) (patched_rule p) rows)))"

definition delete_rule :: "uuid \<Rightarrow> uuid \<Rightarrow> ip_rule list \<Rightarrow> (app_error + unit) \<times> ip_rule list" where
  "delete_rule t i rows =
     (let rows' = filter (\<lambda>r. \<not> (ipr_tenant r = t \<and> ipr_id r = i)) rows
      in if rows' = rows then (Inl (NotFound ''ip rule''), rows) else (Inr (), rows'))"

section \<open>Lemmas\<close>

lemma scan_has_allow: "fst (scan nets ip rs acc) \<longleftrightarrow> fst acc \<or> (\<exists>r\<in>set rs. ipr_action r = Allow)"
  by (induction rs arbitrary: acc) (auto split: prod.splits)

text \<open>
  The best match so far is a match of the list, or the one it started with, of the
  greatest length.
\<close>

definition best_of :: "(nat \<times> rule_action) set \<Rightarrow> (nat \<times> rule_action) option \<Rightarrow> bool" where
  "best_of M b = (case b of None \<Rightarrow> M = {} | Some m \<Rightarrow> m \<in> M \<and> (\<forall>m'\<in>M. fst m' \<le> fst m))"

definition matches :: "('net, 'ip) ipnet \<Rightarrow> 'ip option \<Rightarrow> ip_rule list \<Rightarrow> (nat \<times> rule_action) set" where
  "matches nets ip rs = {(len, ipr_action r) |len r. r \<in> set rs \<and> rule_match nets ip r = Some len}"

lemma matches_simps [simp]:
  "matches nets ip [] = {}"
  "matches nets ip (r # rs) =
     (case rule_match nets ip r of None \<Rightarrow> matches nets ip rs | Some len \<Rightarrow> insert (len, ipr_action r) (matches nets ip rs))"
  by (auto simp: matches_def split: option.splits)

lemma scan_best: "best_of M (snd acc) \<Longrightarrow> best_of (M \<union> matches nets ip rs) (snd (scan nets ip rs acc))"
proof (induction rs arbitrary: acc M)
  case (Cons r rs)
  obtain h b where acc: "acc = (h, b)" by (cases acc)
  define b' where "b' = (case rule_match nets ip r of None \<Rightarrow> b | Some len \<Rightarrow>
    (case b of None \<Rightarrow> Some (len, ipr_action r) | Some (l, a) \<Rightarrow> if l < len then Some (len, ipr_action r) else b))"
  define M' where "M' = (case rule_match nets ip r of None \<Rightarrow> M | Some len \<Rightarrow> insert (len, ipr_action r) M)"
  have "best_of M' b'"
    using Cons.prems unfolding acc b'_def M'_def
    by (cases b) (fastforce simp: best_of_def split: option.splits)+
  from Cons.IH [of M' "(h \<or> ipr_action r = Allow, b')"] this
  have "best_of (M' \<union> matches nets ip rs) (snd (scan nets ip (r # rs) acc))"
    unfolding acc scan.simps b'_def by simp
  then show ?case unfolding M'_def by (simp split: option.splits)
qed simp

section \<open>Properties\<close>

text \<open>
  The most specific network decides: an address passes a scope exactly when the scope
  holds no allow rule and the address matches none of its rules, or the longest of the
  matching networks, whose rules then agree, allows it. An address that is not known
  passes only a scope without allow rules.
\<close>

theorem most_specific_rule_decides:
  fixes rules :: "ip_rule list" and scope :: "uuid option"
  defines "rs \<equiv> filter (\<lambda>r. ipr_client r = scope) rules"
  assumes agree: "\<And>len a b. (len, a) \<in> matches nets ip rs \<Longrightarrow> (len, b) \<in> matches nets ip rs \<Longrightarrow> a = b"
  shows "scope_allows nets rules scope ip \<longleftrightarrow>
    (if matches nets ip rs = {} then \<not> (\<exists>r\<in>set rs. ipr_action r = Allow)
     else (\<exists>len. (len, Allow) \<in> matches nets ip rs \<and> (\<forall>m\<in>matches nets ip rs. fst m \<le> len)))"
proof -
  obtain h b where s: "scan nets ip rs (False, None) = (h, b)" by fastforce
  have h: "h \<longleftrightarrow> (\<exists>r\<in>set rs. ipr_action r = Allow)" using scan_has_allow [of nets ip rs "(False, None)"] s by simp
  have b: "best_of (matches nets ip rs) b"
    using scan_best [of "{}" "(False, None)" nets ip rs] s by (simp add: best_of_def)
  show ?thesis
  proof (cases b)
    case None
    then show ?thesis using b h s by (simp add: best_of_def scope_allows_def rs_def [symmetric])
  next
    case (Some m)
    obtain len a where m: "m = (len, a)" by (cases m)
    have best: "(len, a) \<in> matches nets ip rs" "\<forall>m'\<in>matches nets ip rs. fst m' \<le> len"
      using b Some m by (simp_all add: best_of_def)
    have "(\<exists>l. (l, Allow) \<in> matches nets ip rs \<and> (\<forall>m\<in>matches nets ip rs. fst m \<le> l)) \<longleftrightarrow> a = Allow"
    proof
      assume "\<exists>l. (l, Allow) \<in> matches nets ip rs \<and> (\<forall>m\<in>matches nets ip rs. fst m \<le> l)"
      then obtain l where l: "(l, Allow) \<in> matches nets ip rs" "\<forall>m\<in>matches nets ip rs. fst m \<le> l" by blast
      then have "l = len" using best by (metis antisym fst_conv)
      then show "a = Allow" using agree [OF best(1)] l(1) by simp
    qed (use best in blast)
    then show ?thesis using best(1) s Some m by (auto simp: scope_allows_def rs_def [symmetric])
  qed
qed

definition ex_nets :: "(nat \<times> nat, nat) ipnet" where
  "ex_nets = \<lparr>in_parse = (\<lambda>s. if s = ''10.0.0.0/8'' then Some (8, 10) else if s = ''10.1.0.0/16'' then Some (16, 2561) else None),
     in_parse_ip = (\<lambda>s. None), in_of_ip = (\<lambda>a. (32, a)),
     in_contains = (\<lambda>(len, p) a. a div 2 ^ (32 - len) = p), in_prefix_len = fst,
     in_trunc = id, in_show = (\<lambda>n. ''10.0.0.0/8'')\<rparr>"

definition ex_rules :: "ip_rule list" where
  "ex_rules = [
     \<lparr>ipr_id = 1, ipr_tenant = 7, ipr_client = None, ipr_action = Allow, ipr_cidr = ''10.0.0.0/8'', ipr_description = None\<rparr>,
     \<lparr>ipr_id = 2, ipr_tenant = 7, ipr_client = None, ipr_action = Deny, ipr_cidr = ''10.1.0.0/16'', ipr_description = None\<rparr>,
     \<lparr>ipr_id = 3, ipr_tenant = 7, ipr_client = Some 4, ipr_action = Deny, ipr_cidr = ''10.0.0.0/8'', ipr_description = None\<rparr>]"

text \<open>An address of the denied network inside the allowed one, and one outside it.\<close>

lemma ex_matches:
  "matches ex_nets (Some 167837698) (filter (\<lambda>r. ipr_client r = None) ex_rules) = {(8, Allow), (16, Deny)}"
  "matches ex_nets (Some 168034304) (filter (\<lambda>r. ipr_client r = None) ex_rules) = {(8, Allow)}"
  by (auto simp: ex_rules_def rule_match_def ex_nets_def)

theorem most_specific_rule_decides_witness:
  "\<not> scope_allows ex_nets ex_rules None (Some 167837698) \<and> scope_allows ex_nets ex_rules None (Some 168034304)"
proof
  show "\<not> scope_allows ex_nets ex_rules None (Some 167837698)"
    by (subst most_specific_rule_decides) (auto simp only: ex_matches, auto)
  show "scope_allows ex_nets ex_rules None (Some 168034304)"
    by (subst most_specific_rule_decides) (auto simp only: ex_matches, auto)
qed

end
