(* ===== verification/Rate_Limit.thy ===== *)
theory Rate_Limit
  imports Tokens Cache_Keys
begin

text \<open>
  Request ceilings (\<open>api/src/services/rate_limit.rs\<close>): fixed windows counted in Valkey.
  One request is counted in up to three buckets; the scripts \<open>HIT\<close> and \<open>HIT_MANY\<close> are
  \<open>hit_key\<close> and its sequence, the grouping by Valkey is \<open>count\<close>. The counters of all
  Valkeys are one store: a key lives on one of them only. An unreachable Valkey is the
  argument \<open>down\<close>.
\<close>

section \<open>Data\<close>

datatype category = CatToken | CatAuthorize | CatFlows

fun category_as_str :: "category \<Rightarrow> string" where
  "category_as_str CatToken = ''token''"
| "category_as_str CatAuthorize = ''authorize''"
| "category_as_str CatFlows = ''flows''"

fun per_ip :: "category \<Rightarrow> rate_limit_policy \<Rightarrow> nat" where
  "per_ip CatToken p = rl_token_per_ip p"
| "per_ip CatAuthorize p = rl_authorize_per_ip p"
| "per_ip CatFlows p = rl_flows_per_ip p"

record bucket =
  bk_limit :: nat
  bk_remaining :: nat
  bk_reset_secs :: nat
  bk_exceeded :: bool

record decision =
  de_tightest :: "bucket option"
  de_retry_after :: "nat option"

definition UNLIMITED :: decision where
  "UNLIMITED = \<lparr>de_tightest = None, de_retry_after = None\<rparr>"

definition allowed :: "decision \<Rightarrow> bool" where
  "allowed d = (de_retry_after d = None)"

record want =
  wa_key :: string
  wa_limit :: nat
  wa_window_ms :: nat

type_synonym counters = "(string, nat) kv"

section \<open>Counting\<close>

text \<open>
  \<open>INCR\<close> starts at one and keeps the lifetime of a live counter; \<open>PEXPIRE\<close> sets it; \<open>PTTL\<close>
  is negative for a counter without one. The answer is the count and the milliseconds left.
\<close>

definition incr :: "instant \<Rightarrow> (nat \<times> instant option) option \<Rightarrow> nat \<times> instant option" where
  "incr now e = (case e of
      Some (n, until) \<Rightarrow> if (case until of None \<Rightarrow> True | Some d \<Rightarrow> now < d) then (n + 1, until) else (1, None)
    | None \<Rightarrow> (1, None))"

definition hit_entry ::
  "instant \<Rightarrow> nat \<Rightarrow> (nat \<times> instant option) option \<Rightarrow> (nat \<times> nat) \<times> (nat \<times> instant option)" where
  "hit_entry now window_ms e =
     (let (n, until) = incr now e;
          until1 = (if n = 1 then Some (now + dur_millis (int window_ms)) else until)
      in case until1 of
           Some d \<Rightarrow> ((n, nat (num_milliseconds (d - now))), (n, Some d))
         | None \<Rightarrow> ((n, window_ms), (n, Some (now + dur_millis (int window_ms)))))"

definition hit_key :: "instant \<Rightarrow> want \<Rightarrow> counters \<Rightarrow> (nat \<times> nat) \<times> counters" where
  "hit_key now w m =
     (case hit_entry now (wa_window_ms w) (m (wa_key w)) of (r, e) \<Rightarrow> (r, m(wa_key w \<mapsto> e)))"

fun count_each :: "instant \<Rightarrow> want list \<Rightarrow> counters \<Rightarrow> (nat \<times> nat) list \<times> counters" where
  "count_each now [] m = ([], m)"
| "count_each now (w # ws) m =
     (case hit_key now w m of (r, m1) \<Rightarrow> case count_each now ws m1 of (rs, m2) \<Rightarrow> (r # rs, m2))"

fun count_group :: "instant \<Rightarrow> want list \<Rightarrow> nat list \<Rightarrow> (nat \<times> nat) list \<times> counters \<Rightarrow> (nat \<times> nat) list \<times> counters" where
  "count_group now wants [] (out, m) = (out, m)"
| "count_group now wants (i # is) (out, m) =
     (case hit_key now (wants ! i) m of (r, m1) \<Rightarrow> count_group now wants is (out[i := r], m1))"

definition groups_of :: "library \<Rightarrow> bool \<Rightarrow> want list \<Rightarrow> nat list list" where
  "groups_of lib same_backend wants =
     (if same_backend then [[0..<length wants]]
      else let (tenant, global) = partition (\<lambda>i. key_tenant lib (wa_key (wants ! i)) \<noteq> None) [0..<length wants]
           in filter (\<lambda>g. g \<noteq> []) [global, tenant])"

definition count ::
  "library \<Rightarrow> bool \<Rightarrow> bool \<Rightarrow> instant \<Rightarrow> want list \<Rightarrow> counters \<Rightarrow> (nat \<times> nat) list \<times> counters" where
  "count lib cluster same_backend now wants m =
     (if cluster then count_each now wants m
      else fold (count_group now wants) (groups_of lib same_backend wants) (replicate (length wants) (0, 0), m))"

section \<open>The decision\<close>

definition bucket_of :: "want \<Rightarrow> nat \<times> nat \<Rightarrow> bucket" where
  "bucket_of w c =
     \<lparr>bk_limit = wa_limit w, bk_remaining = min (wa_limit w - fst c) (2 ^ 32 - 1),
      bk_reset_secs = max 1 ((snd c + 999) div 1000), bk_exceeded = wa_limit w < fst c\<rparr>"

definition decide_step :: "want \<times> nat \<times> nat \<Rightarrow> decision \<Rightarrow> decision" where
  "decide_step wc d =
     (let b = bucket_of (fst wc) (snd wc)
      in \<lparr>de_tightest = (case de_tightest d of
            None \<Rightarrow> Some b
          | Some t \<Rightarrow> if bk_remaining b < bk_remaining t then Some b else Some t),
          de_retry_after =
            (if bk_exceeded b then
               Some (case de_retry_after d of None \<Rightarrow> bk_reset_secs b | Some r \<Rightarrow> max r (bk_reset_secs b))
             else de_retry_after d)\<rparr>)"

definition decide :: "want list \<Rightarrow> (nat \<times> nat) list \<Rightarrow> decision" where
  "decide wants counts = fold decide_step (zip wants counts) UNLIMITED"

definition run ::
  "library \<Rightarrow> bool \<Rightarrow> bool \<Rightarrow> bool \<Rightarrow> instant \<Rightarrow> want list \<Rightarrow> counters \<Rightarrow> decision \<times> counters" where
  "run lib down cluster same_backend now wants m =
     (if wants = [] \<or> down then (UNLIMITED, m)
      else case count lib cluster same_backend now wants m of (counts, m1) \<Rightarrow> (decide wants counts, m1))"

definition window_ms :: "rate_limit_policy \<Rightarrow> nat" where
  "window_ms p = min 3600 (max 1 (rl_window_secs p)) * 1000"

definition global_wants :: "config \<Rightarrow> string option \<Rightarrow> want list" where
  "global_wants cfg ip =
     (case ip of
        Some a \<Rightarrow> if 0 < cf_ip_per_minute cfg then
            [\<lparr>wa_key = key_rate_limit (''ip:'' @ a), wa_limit = cf_ip_per_minute cfg, wa_window_ms = 60000\<rparr>]
          else []
      | None \<Rightarrow> [])"

definition tenant_wants :: "library \<Rightarrow> tenant \<Rightarrow> category \<Rightarrow> string option \<Rightarrow> want list" where
  "tenant_wants lib tn cat ip =
     (let p = tn_rate_limits tn
      in if \<not> rl_enabled p then []
         else (case ip of
             Some a \<Rightarrow> if 0 < per_ip cat p then
                 [\<lparr>wa_key = key_tenant_rate_limit lib (tn_id tn) (category_as_str cat @ '':ip:'' @ a),
                   wa_limit = per_ip cat p, wa_window_ms = window_ms p\<rparr>]
               else []
           | None \<Rightarrow> []) @
           (if 0 < rl_tenant_total p then
              [\<lparr>wa_key = key_tenant_rate_limit lib (tn_id tn) ''all'', wa_limit = rl_tenant_total p,
                wa_window_ms = window_ms p\<rparr>]
            else []))"

definition buckets :: "library \<Rightarrow> config \<Rightarrow> tenant option \<Rightarrow> category \<Rightarrow> string option \<Rightarrow> want list" where
  "buckets lib cfg tn cat ip =
     (if \<not> cf_rate_limits_enabled cfg then []
      else global_wants cfg ip @ (case tn of None \<Rightarrow> [] | Some t \<Rightarrow> tenant_wants lib t cat ip))"

definition hit ::
  "library \<Rightarrow> config \<Rightarrow> bool \<Rightarrow> bool \<Rightarrow> bool \<Rightarrow> instant \<Rightarrow> tenant option \<Rightarrow> category \<Rightarrow> string option
     \<Rightarrow> counters \<Rightarrow> decision \<times> counters" where
  "hit lib cfg down cluster same_backend now tn cat ip m =
     run lib down cluster same_backend now (buckets lib cfg tn cat ip) m"

definition client_want :: "library \<Rightarrow> tenant \<Rightarrow> uuid \<Rightarrow> want" where
  "client_want lib tn c =
     \<lparr>wa_key = key_tenant_rate_limit lib (tn_id tn) (''client:'' @ l_show_uuid lib c),
      wa_limit = rl_token_per_client (tn_rate_limits tn), wa_window_ms = window_ms (tn_rate_limits tn)\<rparr>"

definition hit_client ::
  "library \<Rightarrow> config \<Rightarrow> bool \<Rightarrow> bool \<Rightarrow> bool \<Rightarrow> instant \<Rightarrow> tenant \<Rightarrow> uuid \<Rightarrow> counters \<Rightarrow> decision \<times> counters" where
  "hit_client lib cfg down cluster same_backend now tn c m =
     (let p = tn_rate_limits tn
      in if \<not> cf_rate_limits_enabled cfg \<or> \<not> rl_enabled p \<or> rl_token_per_client p = 0 then (UNLIMITED, m)
         else run lib down cluster same_backend now [client_want lib tn c] m)"

definition validate_policy :: "rate_limit_policy \<Rightarrow> app_error + unit" where
  "validate_policy p =
     ensure (1 \<le> rl_window_secs p \<and> rl_window_secs p \<le> 3600)
       (BadRequest ''rate_limits.window_secs must be between 1 and 3600'')"

section \<open>Counting in groups is counting one by one\<close>

definition hit_at :: "instant \<Rightarrow> want list \<Rightarrow> counters \<Rightarrow> nat \<Rightarrow> (nat \<times> nat) \<times> (nat \<times> instant option)" where
  "hit_at now wants m i = hit_entry now (wa_window_ms (wants ! i)) (m (wa_key (wants ! i)))"

text \<open>The state after the buckets \<open>I\<close> are counted, by key.\<close>

definition counted :: "instant \<Rightarrow> want list \<Rightarrow> nat set \<Rightarrow> counters \<Rightarrow> counters \<Rightarrow> bool" where
  "counted now wants I m m' =
     ((\<forall>i\<in>I. m' (wa_key (wants ! i)) = Some (snd (hit_at now wants m i))) \<and>
      (\<forall>k. k \<notin> (\<lambda>i. wa_key (wants ! i)) ` I \<longrightarrow> m' k = m k))"

lemma counted_unique: "counted now wants I m m1 \<Longrightarrow> counted now wants I m m2 \<Longrightarrow> m1 = m2"
proof (rule ext)
  fix k assume c: "counted now wants I m m1" "counted now wants I m m2"
  show "m1 k = m2 k"
  proof (cases "k \<in> (\<lambda>i. wa_key (wants ! i)) ` I")
    case True
    then obtain i where "i \<in> I" "k = wa_key (wants ! i)" by blast
    then show ?thesis using c by (simp add: counted_def)
  next
    case False
    then have "m1 k = m k" "m2 k = m k" using c unfolding counted_def by blast+
    then show ?thesis by simp
  qed
qed

abbreviation distinct_keys :: "want list \<Rightarrow> bool" where
  "distinct_keys wants \<equiv> distinct (map wa_key wants)"

lemma distinct_keys_nth:
  "distinct_keys wants \<Longrightarrow> i < length wants \<Longrightarrow> j < length wants \<Longrightarrow> wa_key (wants ! i) = wa_key (wants ! j) \<Longrightarrow> i = j"
  using nth_eq_iff_index_eq [of "map wa_key wants" i j] by simp

lemma hit_key_at: "hit_key now (wants ! i) m = (fst (hit_at now wants m i), m(wa_key (wants ! i) \<mapsto> snd (hit_at now wants m i)))"
  by (simp add: hit_key_def hit_at_def split: prod.split)

lemma count_group_counted:
  assumes "distinct is" "set is \<subseteq> {..<length wants}" "distinct_keys wants" "length out = length wants"
  shows "length (fst (count_group now wants is (out, m))) = length wants \<and>
    (\<forall>j<length wants. fst (count_group now wants is (out, m)) ! j
       = (if j \<in> set is then fst (hit_at now wants m j) else out ! j)) \<and>
    counted now wants (set is) m (snd (count_group now wants is (out, m)))"
  using assms
proof (induction "is" arbitrary: out m)
  case Nil then show ?case by (simp add: counted_def)
next
  case (Cons i "is")
  define m1 where "m1 = m(wa_key (wants ! i) \<mapsto> snd (hit_at now wants m i))"
  define o1 where "o1 = out[i := fst (hit_at now wants m i)]"
  have step: "count_group now wants (i # is) (out, m) = count_group now wants is (o1, m1)"
    by (simp add: hit_key_at m1_def o1_def)
  have same: "hit_at now wants m1 j = hit_at now wants m j" if "j \<in> set is" for j
    using that Cons.prems distinct_keys_nth [OF Cons.prems(3), of j i] by (auto simp: hit_at_def m1_def)
  have ih: "length (fst (count_group now wants is (o1, m1))) = length wants \<and>
    (\<forall>j<length wants. fst (count_group now wants is (o1, m1)) ! j
       = (if j \<in> set is then fst (hit_at now wants m1 j) else o1 ! j)) \<and>
    counted now wants (set is) m1 (snd (count_group now wants is (o1, m1)))"
    by (rule Cons.IH) (use Cons.prems in \<open>auto simp: o1_def\<close>)
  moreover have "counted now wants (set (i # is)) m (snd (count_group now wants is (o1, m1)))"
  proof -
    have "wa_key (wants ! i) \<notin> (\<lambda>i. wa_key (wants ! i)) ` set is"
      using Cons.prems distinct_keys_nth [OF Cons.prems(3), of i] by auto
    then show ?thesis using ih same by (auto simp: counted_def m1_def)
  qed
  ultimately show ?case unfolding step using same Cons.prems by (auto simp: o1_def nth_list_update)
qed

lemma count_group_append: "count_group now wants (is @ js) acc = count_group now wants js (count_group now wants is acc)"
  by (induction now wants "is" acc rule: count_group.induct) (auto split: prod.split)

lemma fold_count_group: "fold (count_group now wants) gs acc = count_group now wants (concat gs) acc"
proof (induction gs arbitrary: acc)
  case Nil then show ?case by (cases acc) simp
qed (simp add: count_group_append)

lemma groups_of_cover:
  "distinct (concat (groups_of lib b wants)) \<and> set (concat (groups_of lib b wants)) = {..<length wants}"
proof -
  have cat: "concat (filter (\<lambda>g. g \<noteq> []) gs) = concat gs" for gs :: "nat list list" by (induction gs) auto
  show ?thesis
    unfolding groups_of_def partition_filter_conv Let_def prod.case if_distrib [of concat] cat by auto
qed

lemma count_each_counted:
  assumes "distinct_keys wants"
  shows "length (fst (count_each now wants m)) = length wants \<and>
    (\<forall>j<length wants. fst (count_each now wants m) ! j = fst (hit_at now wants m j)) \<and>
    counted now wants {..<length wants} m (snd (count_each now wants m))"
  using assms
proof (induction wants arbitrary: m)
  case Nil then show ?case by (simp add: counted_def)
next
  case (Cons w ws)
  define m1 where "m1 = m(wa_key w \<mapsto> snd (hit_at now (w # ws) m 0))"
  have step: "count_each now (w # ws) m =
    (fst (hit_at now (w # ws) m 0) # fst (count_each now ws m1), snd (count_each now ws m1))"
    using hit_key_at [of now "w # ws" 0 m] by (simp add: m1_def split: prod.split)
  have fresh: "wa_key (ws ! j) \<noteq> wa_key w" if "j < length ws" for j
    using Cons.prems imageI [OF nth_mem [OF that], of wa_key] by auto
  then have fresh_w: "wa_key w \<notin> (\<lambda>i. wa_key (ws ! i)) ` {..<length ws}" by (metis imageE lessThan_iff)
  have same: "hit_at now ws m1 j = hit_at now (w # ws) m (Suc j)" if "j < length ws" for j
    using fresh [OF that] by (simp add: hit_at_def m1_def)
  have range: "{..<length (w # ws)} = insert 0 (Suc ` {..<length ws})"
    by (simp add: lessThan_Suc_eq_insert_0)
  have ih: "length (fst (count_each now ws m1)) = length ws"
      "\<forall>j<length ws. fst (count_each now ws m1) ! j = fst (hit_at now ws m1 j)"
      "counted now ws {..<length ws} m1 (snd (count_each now ws m1))"
    using Cons by auto
  have "counted now (w # ws) {..<length (w # ws)} m (snd (count_each now ws m1))"
    unfolding range counted_def
    using ih(3) same fresh fresh_w by (auto simp: counted_def m1_def image_image)
  then show ?case unfolding step using ih same by (auto simp: nth_Cons split: nat.split)
qed

lemma count_is_count_each:
  assumes "distinct_keys wants"
  shows "count lib cluster same_backend now wants m = count_each now wants m"
proof (cases cluster)
  case False
  let ?g = "count_group now wants (concat (groups_of lib same_backend wants)) (replicate (length wants) (0, 0), m)"
  note g = count_group_counted [of "concat (groups_of lib same_backend wants)" wants "replicate (length wants) (0, 0)" now m]
  note e = count_each_counted [OF assms, of now m]
  have "fst ?g = fst (count_each now wants m)"
    using g e groups_of_cover [of lib same_backend wants] assms by (intro nth_equalityI) auto
  moreover have "snd ?g = snd (count_each now wants m)"
    using g e groups_of_cover [of lib same_backend wants] assms by (intro counted_unique [of now wants "{..<length wants}" m]) auto
  ultimately show ?thesis using False by (simp add: count_def fold_count_group prod_eq_iff)
qed (simp add: count_def)

lemma buckets_distinct: "distinct_keys (buckets lib cfg tn cat ip)"
  by (cases cat)
    (auto simp: buckets_def global_wants_def tenant_wants_def Let_def key_rate_limit_def key_tenant_rate_limit_def
      tenant_key_def PREFIX_def split: option.splits)

section \<open>One bucket over time\<close>

text \<open>Which of the requests at the instants \<open>ts\<close> one counter lets through.\<close>

fun entry_hits :: "nat \<Rightarrow> nat \<Rightarrow> instant list \<Rightarrow> (nat \<times> instant option) option \<Rightarrow> bool list" where
  "entry_hits lim w [] e = []"
| "entry_hits lim w (t # ts) e =
     (case hit_entry t w e of (r, e') \<Rightarrow> (fst r \<le> lim) # entry_hits lim w ts (Some e'))"

definition passed :: "bool list \<Rightarrow> nat" where
  "passed bs = length (filter id bs)"

lemma passed_simps [simp]: "passed [] = 0" "passed (b # bs) = (if b then Suc (passed bs) else passed bs)"
  by (simp_all add: passed_def)

lemma hit_entry_live:
  "0 < n \<Longrightarrow> t < d \<Longrightarrow> hit_entry t w (Some (n, Some d)) = ((Suc n, nat (num_milliseconds (d - t))), (Suc n, Some d))"
  by (simp add: hit_entry_def incr_def)

lemma hit_entry_new:
  "e = None \<or> (\<exists>n d. e = Some (n, Some d) \<and> d \<le> t) \<Longrightarrow>
   hit_entry t w e = ((1, nat (num_milliseconds (dur_millis (int w)))), (1, Some (t + dur_millis (int w))))"
  by (auto simp: hit_entry_def incr_def)

lemma passed_live: "0 < n \<Longrightarrow> \<forall>t\<in>set ts. t < d \<Longrightarrow> passed (entry_hits lim w ts (Some (n, Some d))) \<le> lim - n"
proof (induction ts arbitrary: n)
  case (Cons t ts)
  have "passed (entry_hits lim w ts (Some (Suc n, Some d))) \<le> lim - Suc n" using Cons by simp
  then show ?case using Cons.prems by (auto simp: hit_entry_live)
qed simp

lemma passed_new:
  assumes e: "e = None \<or> (\<exists>n d. e = Some (n, Some d) \<and> d \<le> t0)"
    and ts: "\<forall>t\<in>set ts. t0 \<le> t \<and> t < t0 + dur_millis (int w)"
  shows "passed (entry_hits lim w ts e) \<le> lim"
proof (cases ts)
  case (Cons t ts')
  have "passed (entry_hits lim w ts' (Some (1, Some (t + dur_millis (int w))))) \<le> lim - 1"
    using ts Cons by (intro passed_live) auto
  moreover have "e = None \<or> (\<exists>n d. e = Some (n, Some d) \<and> d \<le> t)" using e ts Cons by fastforce
  ultimately show ?thesis using Cons hit_entry_new [of e t w] by auto
qed simp

lemma passed_window:
  assumes "sorted ts" "\<forall>t\<in>set ts. t0 \<le> t \<and> t < t0 + dur_millis (int w)" "0 < n" "d \<le> t0 + dur_millis (int w)"
  shows "passed (entry_hits lim w ts (Some (n, Some d))) \<le> (lim - n) + lim"
  using assms
proof (induction ts arbitrary: n)
  case (Cons t ts)
  show ?case
  proof (cases "t < d")
    case True
    have "passed (entry_hits lim w ts (Some (Suc n, Some d))) \<le> (lim - Suc n) + lim" using Cons by simp
    then show ?thesis using True Cons.prems(3) by (auto simp: hit_entry_live)
  next
    case False
    have "passed (entry_hits lim w (t # ts) (Some (n, Some d))) \<le> lim"
      by (rule passed_new [of _ t]) (use False Cons.prems in force)+
    then show ?thesis by simp
  qed
qed simp

lemma hit_entry_shape:
  assumes "hit_entry now w e = ((n, ttl), (n', until))"
  shows "\<exists>d. until = Some d \<and> (ttl = nat (num_milliseconds (d - now)) \<or> ttl = w \<and> d = now + dur_millis (int w))"
proof (cases "incr now e")
  case (Pair k u)
  then show ?thesis using assms by (cases "k = 1"; cases u) (auto simp: hit_entry_def)
qed

text \<open>After the time it was told to wait, a refused client is let through.\<close>

lemma hit_entry_after_reset:
  assumes h: "hit_entry now w e = ((n, ttl), (n', until))"
    and later: "now + dur_secs (int (max 1 ((ttl + 999) div 1000))) + dur_millis 1 \<le> later"
  shows "fst (fst (hit_entry later w (Some (n', until)))) = 1"
proof -
  obtain d where d: "until = Some d" and ttl: "d - now \<le> dur_millis (int ttl) + dur_millis 1"
  proof -
    have ms: "x \<le> dur_millis (int (nat (num_milliseconds x))) + dur_millis 1" for x
      by (cases "0 \<le> x") (auto simp: num_milliseconds_def trunc_div_def dur_millis_def)
    from hit_entry_shape [OF h] obtain d where d: "until = Some d"
      and t: "ttl = nat (num_milliseconds (d - now)) \<or> ttl = w \<and> d = now + dur_millis (int w)" by blast
    from t have "d - now \<le> dur_millis (int ttl) + dur_millis 1"
    proof
      assume "ttl = nat (num_milliseconds (d - now))"
      then show ?thesis using ms [of "d - now"] by simp
    qed (simp add: dur_millis_def)
    with d show thesis by (rule that)
  qed
  have "dur_millis (int ttl) \<le> dur_secs (int (max 1 ((ttl + 999) div 1000)))"
    by (simp add: dur_millis_def dur_secs_def nanos_per_sec_def max_def) linarith
  then have "d \<le> later" using ttl later by linarith
  then show ?thesis using hit_entry_new [of "Some (n', Some d)" later w] d by auto
qed

section \<open>A client's requests\<close>

fun client_requests ::
  "library \<Rightarrow> config \<Rightarrow> bool \<Rightarrow> bool \<Rightarrow> tenant \<Rightarrow> uuid \<Rightarrow> instant list \<Rightarrow> counters \<Rightarrow> bool list" where
  "client_requests lib cfg cluster same_backend tn c [] m = []"
| "client_requests lib cfg cluster same_backend tn c (t # ts) m =
     (case hit_client lib cfg False cluster same_backend t tn c m of
        (d, m1) \<Rightarrow> allowed d # client_requests lib cfg cluster same_backend tn c ts m1)"

definition client_limited :: "config \<Rightarrow> tenant \<Rightarrow> bool" where
  "client_limited cfg tn = (cf_rate_limits_enabled cfg \<and> rl_enabled (tn_rate_limits tn) \<and> 0 < rl_token_per_client (tn_rate_limits tn))"

lemma decide_one:
  "decide [w] [c] = \<lparr>de_tightest = Some (bucket_of w c),
     de_retry_after = (if wa_limit w < fst c then Some (max 1 ((snd c + 999) div 1000)) else None)\<rparr>"
  by (simp add: decide_def decide_step_def UNLIMITED_def bucket_of_def)

lemma hit_client_entry:
  assumes "client_limited cfg tn"
    and "hit_entry t (window_ms (tn_rate_limits tn)) e0 = (r, e)" "m (wa_key (client_want lib tn c)) = e0"
  shows "hit_client lib cfg False cluster same_backend t tn c m =
    (decide [client_want lib tn c] [r], m(wa_key (client_want lib tn c) \<mapsto> e))"
proof -
  have "wa_window_ms (client_want lib tn c) = window_ms (tn_rate_limits tn)" by (simp add: client_want_def)
  then show ?thesis
    using assms by (simp add: hit_client_def client_limited_def run_def count_is_count_each hit_key_def)
qed

lemma client_requests_entry:
  assumes "client_limited cfg tn"
  shows "client_requests lib cfg cluster same_backend tn c ts m =
    entry_hits (rl_token_per_client (tn_rate_limits tn)) (window_ms (tn_rate_limits tn)) ts (m (wa_key (client_want lib tn c)))"
proof (induction ts arbitrary: m)
  case (Cons t ts)
  obtain r e where h: "hit_entry t (window_ms (tn_rate_limits tn)) (m (wa_key (client_want lib tn c))) = (r, e)"
    by (cases "hit_entry t (window_ms (tn_rate_limits tn)) (m (wa_key (client_want lib tn c)))")
  have "wa_limit (client_want lib tn c) = rl_token_per_client (tn_rate_limits tn)" by (simp add: client_want_def)
  then show ?case using hit_client_entry [OF assms h, of m lib c, OF refl, where cluster = cluster and same_backend = same_backend] h Cons
    by (auto simp: decide_one allowed_def)
qed simp

section \<open>Properties\<close>


text \<open>
  The ceiling of a client: of any number of requests that arrive within one window's
  length at most twice the limit pass, and at most the limit when no window was running
  at its start.
\<close>

theorem client_ceiling:
  assumes on: "client_limited cfg tn"
    and ts: "sorted ts" "\<forall>t\<in>set ts. t0 \<le> t \<and> t < t0 + dur_millis (int (window_ms (tn_rate_limits tn)))"
    and counter: "m (wa_key (client_want lib tn c)) = Some (n, Some d)" "0 < n"
      "d \<le> t0 + dur_millis (int (window_ms (tn_rate_limits tn)))"
  shows "passed (client_requests lib cfg cluster same_backend tn c ts m) \<le> 2 * rl_token_per_client (tn_rate_limits tn)
    \<and> (d \<le> t0 \<longrightarrow> passed (client_requests lib cfg cluster same_backend tn c ts m) \<le> rl_token_per_client (tn_rate_limits tn))
    \<and> passed (client_requests lib cfg cluster same_backend tn c ts Map.empty) \<le> rl_token_per_client (tn_rate_limits tn)"
proof (intro conjI impI)
  show "passed (client_requests lib cfg cluster same_backend tn c ts m) \<le> 2 * rl_token_per_client (tn_rate_limits tn)"
    using passed_window [OF ts counter(2,3), of "rl_token_per_client (tn_rate_limits tn)"]
    unfolding client_requests_entry [OF on] counter(1) by linarith
  show "passed (client_requests lib cfg cluster same_backend tn c ts m) \<le> rl_token_per_client (tn_rate_limits tn)"
    if "d \<le> t0"
    unfolding client_requests_entry [OF on] counter(1) by (rule passed_new [OF _ ts(2)]) (use that in blast)
  show "passed (client_requests lib cfg cluster same_backend tn c ts Map.empty) \<le> rl_token_per_client (tn_rate_limits tn)"
    unfolding client_requests_entry [OF on] by (rule passed_new [OF _ ts(2)]) simp
qed

definition ex_limited :: tenant where
  "ex_limited = ex_tenant\<lparr>tn_rate_limits := default_rate_limit_policy\<lparr>rl_token_per_client := 2\<rparr>\<rparr>"

definition ex_limits :: config where
  "ex_limits = \<lparr>cf_public_url = ''https://id.example'', cf_ui_url = ''https://id.example'', cf_mtls_public_url = None,
     cf_rate_limits_enabled = True, cf_ip_per_minute = 0\<rparr>"

definition ex_counters :: counters where
  "ex_counters = [wa_key (client_want ex_library ex_limited 5) \<mapsto> (1, Some (dur_millis 10))]"

theorem client_ceiling_witness:
  "passed (client_requests ex_library ex_limits False True ex_limited 5 [0, dur_millis 1, dur_millis 10, dur_millis 20, dur_millis 30] ex_counters) \<le> 4"
proof -
  have "client_limited ex_limits ex_limited" "window_ms (tn_rate_limits ex_limited) = 60000" "rl_token_per_client (tn_rate_limits ex_limited) = 2"
    by (simp_all add: client_limited_def ex_limits_def ex_limited_def default_rate_limit_policy_def window_ms_def)
  then show ?thesis
    using client_ceiling [of ex_limits ex_limited "[0, dur_millis 1, dur_millis 10, dur_millis 20, dur_millis 30]" 0
      ex_counters ex_library 5 1 "dur_millis 10" False True]
    by (simp add: ex_counters_def dur_millis_def)
qed

text \<open>
  Waiting as long as \<open>Retry-After\<close> says is enough: a client refused with that many
  seconds, which makes no request in between, is let through once they have passed (up to
  the millisecond Valkey counts in).
\<close>

theorem retry_after_is_enough:
  assumes on: "client_limited cfg tn"
    and refused: "hit_client lib cfg False cluster same_backend now tn c m = (d, m1)" "de_retry_after d = Some r"
    and waited: "now + dur_secs (int r) + dur_millis 1 \<le> later"
  shows "allowed (fst (hit_client lib cfg False cluster same_backend later tn c m1))"
proof -
  let ?w = "window_ms (tn_rate_limits tn)" and ?k = "wa_key (client_want lib tn c)"
  obtain n ttl n' until where h: "hit_entry now ?w (m ?k) = ((n, ttl), (n', until))" by (metis surj_pair)
  note h1 = hit_client_entry [OF on h, of m lib c, OF refl, where cluster = cluster and same_backend = same_backend]
  have m1: "m1 ?k = Some (n', until)" and r: "r = max 1 ((ttl + 999) div 1000)"
    using refused h1 by (auto simp: decide_one split: if_splits)
  obtain r2 e2 where h2: "hit_entry later ?w (m1 ?k) = (r2, e2)" by (cases "hit_entry later ?w (m1 ?k)")
  have "fst r2 = 1" using hit_entry_after_reset [OF h waited [unfolded r]] h2 m1 by simp
  moreover have "1 \<le> wa_limit (client_want lib tn c)" using on by (simp add: client_limited_def client_want_def)
  ultimately show ?thesis
    using hit_client_entry [OF on h2, of m1 lib c, OF refl, where cluster = cluster and same_backend = same_backend] by (simp add: decide_one allowed_def)
qed

theorem retry_after_is_enough_witness:
  "de_retry_after (fst (hit_client ex_library ex_limits False False True 0 ex_limited 5
      [wa_key (client_want ex_library ex_limited 5) \<mapsto> (2, Some (dur_secs 7))])) = Some 7 \<and>
   allowed (fst (hit_client ex_library ex_limits False False True (dur_secs 8) ex_limited 5
      (snd (hit_client ex_library ex_limits False False True 0 ex_limited 5
        [wa_key (client_want ex_library ex_limited 5) \<mapsto> (2, Some (dur_secs 7))]))))"
proof -
  let ?m = "[wa_key (client_want ex_library ex_limited 5) \<mapsto> (2 :: nat, Some (dur_secs 7))]"
  have on: "client_limited ex_limits ex_limited" and lim: "wa_limit (client_want ex_library ex_limited 5) = 2"
    by (simp_all add: client_limited_def ex_limits_def ex_limited_def default_rate_limit_policy_def client_want_def)
  have "hit_entry 0 (window_ms (tn_rate_limits ex_limited)) (Some (2, Some (dur_secs 7)))
      = ((3, 7000), (3, Some (dur_secs 7)))"
    by (simp add: hit_entry_live num_milliseconds_def trunc_div_def dur_secs_def nanos_per_sec_def)
  note h = hit_client_entry [OF on this, of ?m ex_library 5, OF fun_upd_same, where cluster = False and same_backend = True]
  have r: "de_retry_after (fst (hit_client ex_library ex_limits False False True 0 ex_limited 5 ?m)) = Some 7"
    unfolding h by (simp add: decide_one lim)
  show ?thesis
    using retry_after_is_enough [OF on prod.collapse [symmetric] r, of "dur_secs 8"] r
    by (simp add: dur_secs_def dur_millis_def nanos_per_sec_def)
qed

end
