(* ===== verification/Mtls.thy ===== *)
theory Mtls
  imports Tokens Requests
begin

text \<open>
  Client certificates (\<open>api/src/oidc/mtls.rs\<close>, RFC 8705): reading them off a proxy's
  header, distinguished names as RFC 4514 text and back, the registered subject of a
  client, and tokens bound to a certificate. X.509 itself is the \<open>x509_parser\<close> crate: a
  certificate is the record \<open>client_cert\<close> of what the code reads off it. A character of a
  text is its UTF-8 bytes (\<open>str_chars\<close>).
\<close>

section \<open>The proxy's header\<close>

definition MAX_HEADER_BYTES :: nat where "MAX_HEADER_BYTES = 32 * 1024"
definition MAX_CHAIN :: nat where "MAX_CHAIN = 5"

definition hex_value :: "char \<Rightarrow> nat option" where
  "hex_value c =
     (if in_bytes 48 57 c then Some (byte c - 48)
      else if in_bytes 97 102 c then Some (byte c - 87)
      else if in_bytes 65 70 c then Some (byte c - 55)
      else None)"

text \<open>
  \<open>u8::from_str_radix(hex, 16)\<close> of a two byte text: it takes a leading plus sign before a
  single digit.
\<close>

definition radix_16 :: "char \<Rightarrow> char \<Rightarrow> nat option" where
  "radix_16 a b =
     (case hex_value b of
        None \<Rightarrow> None
      | Some lo \<Rightarrow>
          if a = CHR ''+'' then Some lo
          else map_option (\<lambda>hi. 16 * hi + lo) (hex_value a))"

fun percent_bytes :: "string \<Rightarrow> string option" where
  "percent_bytes [] = Some []"
| "percent_bytes (c # s) =
     (if c = CHR ''%'' then
        (case s of
           a # b # s' \<Rightarrow>
             if utf8_chars [a, b] = None then None
             else (case radix_16 a b of
                     None \<Rightarrow> None
                   | Some n \<Rightarrow> map_option ((#) (char_of n)) (percent_bytes s'))
         | _ \<Rightarrow> None)
      else map_option ((#) c) (percent_bytes s))"

definition percent_decode :: "string \<Rightarrow> string option" where
  "percent_decode s =
     (if CHR ''%'' \<notin> set s then Some s
      else case percent_bytes s of
        None \<Rightarrow> None
      | Some out \<Rightarrow> if utf8_chars out = None then None else Some out)"

definition ascii_whitespace :: "char \<Rightarrow> bool" where
  "ascii_whitespace c = (byte c \<in> {9, 10, 12, 13, 32})"

definition decode_base64 :: "library \<Rightarrow> string \<Rightarrow> string option" where
  "decode_base64 lib s =
     (let compact = filter (\<lambda>c. \<not> ascii_whitespace c) s
      in if compact = [] then None else l_b64_decode lib compact)"

text \<open>\<open>find\<close>: the text before and after the first occurrence.\<close>

fun find_str :: "string \<Rightarrow> string \<Rightarrow> (string \<times> string) option" where
  "find_str p s =
     (if starts_with s p then Some ([], drop (length p) s)
      else case s of [] \<Rightarrow> None | c # s' \<Rightarrow> map_option (\<lambda>(a, b). (c # a, b)) (find_str p s'))"

declare find_str.simps [simp del]

lemma find_str_parts: "find_str p s = Some (a, b) \<Longrightarrow> s = a @ p @ b"
proof (induction p s arbitrary: a rule: find_str.induct)
  case (1 p s)
  show ?case
  proof (cases "starts_with s p")
    case True
    then show ?thesis using "1.prems" by (auto simp: find_str.simps [of p s] starts_with_iff)
  next
    case False
    then obtain c s' where s: "s = c # s'" using "1.prems" by (cases s) (auto simp: find_str.simps [of p "[]"])
    then obtain a' where "find_str p s' = Some (a', b)" "a = c # a'"
      using "1.prems" False s by (auto simp: find_str.simps [of p "c # s'"])
    then show ?thesis using "1.IH" [OF False s] s by simp
  qed
qed

definition PEM_BEGIN :: string where "PEM_BEGIN = ''-----BEGIN CERTIFICATE-----''"
definition PEM_END :: string where "PEM_END = ''-----END CERTIFICATE-----''"

function pem_loop :: "library \<Rightarrow> string \<Rightarrow> string list \<Rightarrow> string list option" where
  "pem_loop lib rest out =
     (case find_str PEM_BEGIN rest of
        None \<Rightarrow> Some out
      | Some (_, body) \<Rightarrow>
          (case find_str PEM_END body of
             None \<Rightarrow> None
           | Some (inner, rest') \<Rightarrow>
               (case decode_base64 lib inner of
                  None \<Rightarrow> None
                | Some der \<Rightarrow>
                    if MAX_CHAIN < length (out @ [der]) then None else pem_loop lib rest' (out @ [der]))))"
  by pat_completeness auto
termination
  by (relation "measure (\<lambda>(lib, rest, out). length rest)") (auto dest!: find_str_parts simp: PEM_BEGIN_def)

declare pem_loop.simps [simp del]

definition pem_blocks :: "library \<Rightarrow> string \<Rightarrow> string list option" where
  "pem_blocks lib text = pem_loop lib text []"

definition trim_quotes :: "string \<Rightarrow> string" where
  "trim_quotes s = (let q = (\<lambda>c. c = CHR 0x22) in rev (dropWhile q (rev (dropWhile q s))))"

fun collect_some :: "'a option list \<Rightarrow> 'a list option" where
  "collect_some [] = Some []"
| "collect_some (None # xs) = None"
| "collect_some (Some x # xs) = map_option ((#) x) (collect_some xs)"

definition parse_header :: "library \<Rightarrow> string \<Rightarrow> string list option" where
  "parse_header lib value =
     (if value = [] \<or> MAX_HEADER_BYTES < length value then None
      else case percent_decode (trim value) of
        None \<Rightarrow> None
      | Some decoded \<Rightarrow>
          (case (if contains_str ''-----BEGIN'' decoded then pem_blocks lib decoded
                 else collect_some (map (\<lambda>p. decode_base64 lib (trim_quotes (trim p))) (split_on (CHR '','') decoded))) of
             None \<Rightarrow> None
           | Some ders \<Rightarrow>
               if ders \<noteq> [] \<and> length ders \<le> MAX_CHAIN \<and> list_all (\<lambda>d. d \<noteq> []) ders then Some ders else None))"

section \<open>Distinguished names\<close>

definition NAMES :: "(string \<times> string) list" where
  "NAMES = [(''CN'', ''2.5.4.3''), (''SERIALNUMBER'', ''2.5.4.5''), (''C'', ''2.5.4.6''), (''L'', ''2.5.4.7''),
     (''ST'', ''2.5.4.8''), (''STREET'', ''2.5.4.9''), (''O'', ''2.5.4.10''), (''OU'', ''2.5.4.11''),
     (''DC'', ''0.9.2342.19200300.100.1.25''), (''UID'', ''0.9.2342.19200300.100.1.1''),
     (''EMAILADDRESS'', ''1.2.840.113549.1.9.1'')]"

definition is_dotted_oid :: "string \<Rightarrow> bool" where
  "is_dotted_oid s = (s \<noteq> [] \<and> list_all (\<lambda>p. p \<noteq> [] \<and> list_all ascii_digit p) (split_on (CHR ''.'') s))"

definition oid_of :: "string \<Rightarrow> string option" where
  "oid_of name =
     (let up = upper (trim name);
          u = (case strip_prefix ''OID.'' up of Some r \<Rightarrow> r | None \<Rightarrow> up)
      in case find (\<lambda>p. fst p = u) NAMES of
           Some p \<Rightarrow> Some (snd p)
         | None \<Rightarrow>
             if u = ''E'' then Some ''1.2.840.113549.1.9.1''
             else if is_dotted_oid u then Some u else None)"

definition name_of :: "string \<Rightarrow> string" where
  "name_of oid = (case find (\<lambda>p. snd p = oid) NAMES of Some p \<Rightarrow> fst p | None \<Rightarrow> oid)"

type_synonym rdns = "(string \<times> string option) list list"

definition backslash :: char where "backslash = CHR 0x5C"

definition special :: "string \<Rightarrow> bool" where
  "special c = (c \<in> {'','', ''+'', [CHR 0x22], [backslash], ''<'', ''>'', '';'', ''=''})"

definition escape_char :: "nat \<Rightarrow> nat \<times> string \<Rightarrow> string" where
  "escape_char last_i ic =
     (let i = fst ic; c = snd ic;
          lead = (i = 0 \<and> (c = '' '' \<or> c = ''#''));
          trail = (i = last_i \<and> c = '' '')
      in if lead \<or> trail \<or> special c then backslash # c
         else if c = [CHR 0x00] then backslash # ''00''
         else c)"

definition escape_chars :: "string list \<Rightarrow> string" where
  "escape_chars cs = concat (map (escape_char (length cs - 1)) (enumerate 0 cs))"

definition escape_value :: "string \<Rightarrow> string" where
  "escape_value v = escape_chars (str_chars v)"

definition format_attribute :: "string \<times> string option \<Rightarrow> string" where
  "format_attribute a =
     (case snd a of
        Some v \<Rightarrow> name_of (fst a) @ ''='' @ escape_value v
      | None \<Rightarrow> name_of (fst a) @ ''=#'')"

definition format_dn :: "rdns \<Rightarrow> string" where
  "format_dn rs = join '','' (map (\<lambda>rdn. join ''+'' (map format_attribute rdn)) rs)"

text \<open>
  The parser. \<open>scan_value\<close> is the inner loop: the value read so far, each character marked
  when it came escaped, and the bytes of hexadecimal escapes that are pending.
\<close>

type_synonym marked = "(string \<times> bool) list"

definition flush :: "string \<Rightarrow> marked \<Rightarrow> string + marked" where
  "flush pending value =
     (if pending = [] then Inr value
      else case utf8_chars pending of
        None \<Rightarrow> Inl ''an escape that is not UTF-8''
      | Some cs \<Rightarrow> Inr (value @ map (\<lambda>c. (c, True)) cs))"

definition hex_char :: "string \<Rightarrow> bool" where
  "hex_char c = (case c of [b] \<Rightarrow> hex_value b \<noteq> None | _ \<Rightarrow> False)"

definition hex_byte :: "string \<Rightarrow> string \<Rightarrow> char" where
  "hex_byte a b = char_of (16 * the (hex_value (hd a)) + the (hex_value (hd b)))"

fun scan_value :: "string list \<Rightarrow> marked \<Rightarrow> string \<Rightarrow> string + (marked \<times> string option \<times> string list)" where
  "scan_value [] value pending = andThen (flush pending value) (\<lambda>v. Inr (v, None, []))"
| "scan_value (c # cs) value pending =
     (if c = [backslash] then
        (case cs of
           [] \<Rightarrow> Inl ''a trailing backslash''
         | n # cs' \<Rightarrow>
             if hex_char n then
               (case cs' of
                  [] \<Rightarrow> Inl (''a bad '' @ backslash # ''XX escape'')
                | lo # cs'' \<Rightarrow>
                    if hex_char lo then scan_value cs'' value (pending @ [hex_byte n lo])
                    else Inl (''a bad '' @ backslash # ''XX escape''))
             else andThen (flush pending value) (\<lambda>v. scan_value cs' (v @ [(n, True)]) []))
      else if c \<in> {'','', '';'', ''+''} then andThen (flush pending value) (\<lambda>v. Inr (v, Some c, cs))
      else andThen (flush pending value) (\<lambda>v. scan_value cs (v @ [(c, False)]) []))"

definition bare :: "string \<times> bool \<Rightarrow> bool" where
  "bare x = (\<not> snd x \<and> fst x \<in> set white_space)"

definition trim_bare :: "marked \<Rightarrow> marked" where
  "trim_bare v = rev (dropWhile bare (rev (dropWhile bare v)))"

definition take_type :: "string list \<Rightarrow> string \<times> string list" where
  "take_type cs = (concat (takeWhile (\<lambda>c. c \<noteq> ''='') cs), tl (dropWhile (\<lambda>c. c \<noteq> ''='') cs))"

lemma scan_value_shorter: "scan_value cs v p = Inr (v', Some e, rest) \<Longrightarrow> length rest < length cs"
  by (induction cs v p rule: scan_value.induct)
    (fastforce simp: andThen_Inr split: if_splits list.splits)+

lemma take_type_le: "length (snd (take_type cs)) \<le> length cs"
  using length_dropWhile_le [of "\<lambda>c. c \<noteq> ''=''" cs] by (simp add: take_type_def)

function parse_rdns :: "string list \<Rightarrow> (string \<times> string) list \<Rightarrow> (string \<times> string) list list
    \<Rightarrow> string + (string \<times> string) list list" where
  "parse_rdns cs rdn rs =
     (let (ty, rest) = take_type cs
      in case oid_of ty of
           None \<Rightarrow> Inl (''unknown attribute type `'' @ trim ty @ ''`'')
         | Some oid \<Rightarrow>
             (case scan_value rest [] [] of
                Inl e \<Rightarrow> Inl e
              | Inr (value, stop, rest') \<Rightarrow>
                  (let v = trim_bare value
                   in if v \<noteq> [] \<and> hd v = (''#'', False) then
                        Inl ''hex-encoded (#) attribute values are not supported''
                      else let rdn' = rdn @ [(oid, concat (map fst v))]
                           in case stop of
                                None \<Rightarrow> Inr (rs @ [rdn'])
                              | Some c \<Rightarrow> if c = ''+'' then parse_rdns rest' rdn' rs
                                          else parse_rdns rest' [] (rs @ [rdn']))))"
  by pat_completeness auto
termination
  by (relation "measure (\<lambda>(cs, rdn, rs). length cs)")
    (auto dest!: scan_value_shorter, (metis order_less_le_trans snd_conv take_type_le)+)

declare parse_rdns.simps [simp del]

definition parse_dn :: "string \<Rightarrow> string + (string \<times> string) list list" where
  "parse_dn dn =
     (if trim dn = [] then Inl ''the subject DN is empty'' else parse_rdns (str_chars dn) [] [])"

text \<open>\<open>split_whitespace\<close>, over the characters; \<open>lc\<close> is \<open>str::to_lowercase\<close>.\<close>

fun ws_words :: "string list \<Rightarrow> string list \<Rightarrow> string list list" where
  "ws_words [] w = (if w = [] then [] else [rev w])"
| "ws_words (c # cs) w =
     (if c \<in> set white_space then (if w = [] then ws_words cs [] else rev w # ws_words cs [])
      else ws_words cs (c # w))"

definition same_value :: "(string \<Rightarrow> string) \<Rightarrow> string \<Rightarrow> string \<Rightarrow> bool" where
  "same_value lc a b =
     (let norm = (\<lambda>s. lc (join '' '' (map concat (ws_words (str_chars s) [])))) in norm a = norm b)"

definition rdn_matches :: "(string \<Rightarrow> string) \<Rightarrow> (string \<times> string) list \<Rightarrow> (string \<times> string option) list \<Rightarrow> bool" where
  "rdn_matches lc w have_attrs =
     (length w = length have_attrs \<and>
      list_all (\<lambda>(oid, v). list_ex (\<lambda>(o1, hv). o1 = oid \<and>
        (case hv of None \<Rightarrow> False | Some h \<Rightarrow> same_value lc h v)) have_attrs) w)"

definition dn_matches :: "(string \<Rightarrow> string) \<Rightarrow> rdns \<Rightarrow> string \<Rightarrow> bool" where
  "dn_matches lc subject registered =
     (case parse_dn registered of
        Inl e \<Rightarrow> False
      | Inr wanted \<Rightarrow>
          length wanted = length subject \<and>
          list_all (\<lambda>(w, h). rdn_matches lc w h) (zip wanted subject))"

section \<open>Certificates\<close>

text \<open>What \<open>x509_parser\<close> reads off a certificate; addresses are those of \<open>std::net\<close>.\<close>

record 'ip parsed_cert =
  pc_subject :: rdns
  pc_dns :: "string list"
  pc_uris :: "string list"
  pc_emails :: "string list"
  pc_ips :: "'ip list"

record 'ip client_cert =
  cc_der :: string
  cc_chain :: "string list"
  cc_thumbprint :: string
  cc_subject :: rdns
  cc_subject_dn :: string
  cc_textual :: bool
  cc_dns :: "string list"
  cc_uris :: "string list"
  cc_ips :: "'ip list"
  cc_emails :: "string list"

definition cert_thumbprint :: "library \<Rightarrow> string \<Rightarrow> string" where
  "cert_thumbprint lib der = l_b64 lib (l_digest lib 256 der)"

text \<open>
  \<open>from_chain\<close>; \<open>parse\<close> is \<open>X509Certificate::from_der\<close> of a text with nothing after the
  certificate, with the subject's RDNs in the certificate's order and the alternative
  names by kind.
\<close>

definition from_chain ::
  "library \<Rightarrow> (string \<Rightarrow> string) \<Rightarrow> (string \<Rightarrow> 'ip parsed_cert option) \<Rightarrow> string \<Rightarrow> string list \<Rightarrow> 'ip client_cert option" where
  "from_chain lib lc parse leaf chain =
     (case parse leaf of
        None \<Rightarrow> None
      | Some pc \<Rightarrow>
          (let subject = rev (pc_subject pc); dn = format_dn subject
           in Some \<lparr>cc_der = leaf, cc_chain = chain, cc_thumbprint = cert_thumbprint lib leaf,
                cc_subject = subject, cc_subject_dn = dn,
                cc_textual = (subject \<noteq> [] \<and>
                  list_all (\<lambda>rdn. rdn \<noteq> [] \<and> list_all (\<lambda>(oid, v). v \<noteq> None \<and> is_dotted_oid oid) rdn) subject \<and>
                  dn_matches lc subject dn),
                cc_dns = map lower (pc_dns pc), cc_uris = pc_uris pc, cc_ips = pc_ips pc,
                cc_emails = map lower (pc_emails pc)\<rparr>))"

definition subject_matches :: "(string \<Rightarrow> string) \<Rightarrow> 'ip client_cert \<Rightarrow> string \<Rightarrow> bool" where
  "subject_matches lc cert registered = dn_matches lc (cc_subject cert) registered"

text \<open>\<open>parse_ip\<close> is \<open>str::parse::<IpAddr>\<close>.\<close>

definition carries_registered_subject ::
  "(string \<Rightarrow> string) \<Rightarrow> (string \<Rightarrow> 'ip option) \<Rightarrow> client \<Rightarrow> 'ip client_cert \<Rightarrow> bool" where
  "carries_registered_subject lc parse_ip c cert =
     (case cl_tls_subject_dn c of
        Some dn \<Rightarrow> subject_matches lc cert dn
      | None \<Rightarrow>
          (case cl_tls_san_dns c of
             Some dns \<Rightarrow> list_ex (\<lambda>d. eq_ignore_ascii_case d dns) (cc_dns cert)
           | None \<Rightarrow>
               (case cl_tls_san_uri c of
                  Some uri \<Rightarrow> uri \<in> set (cc_uris cert)
                | None \<Rightarrow>
                    (case cl_tls_san_ip c of
                       Some ip \<Rightarrow> (case parse_ip ip of None \<Rightarrow> False | Some a \<Rightarrow> a \<in> set (cc_ips cert))
                     | None \<Rightarrow>
                         (case cl_tls_san_email c of
                            Some email \<Rightarrow> list_ex (\<lambda>e. eq_ignore_ascii_case e email) (cc_emails cert)
                          | None \<Rightarrow> False)))))"

definition too_long :: "string \<Rightarrow> string option \<Rightarrow> nat \<Rightarrow> string + unit" where
  "too_long name value mx =
     ensure (\<not> (case value of None \<Rightarrow> False | Some v \<Rightarrow> mx < length v))
       (name @ '' is longer than '' @ show_nat mx @ '' characters'')"

definition validate_registered_subject :: "library \<Rightarrow> (string \<Rightarrow> 'ip option) \<Rightarrow> client \<Rightarrow> string + unit" where
  "validate_registered_subject lib parse_ip c =
     andThen (too_long ''tls_client_auth_subject_dn'' (cl_tls_subject_dn c) 1024) (\<lambda>_.
     andThen (too_long ''tls_client_auth_san_dns'' (cl_tls_san_dns c) 253) (\<lambda>_.
     andThen (too_long ''tls_client_auth_san_uri'' (cl_tls_san_uri c) 2048) (\<lambda>_.
     andThen (too_long ''tls_client_auth_san_ip'' (cl_tls_san_ip c) 45) (\<lambda>_.
     andThen (too_long ''tls_client_auth_san_email'' (cl_tls_san_email c) 320) (\<lambda>_.
     andThen (case cl_tls_subject_dn c of
         None \<Rightarrow> Inr ()
       | Some dn \<Rightarrow> (case parse_dn dn of Inl e \<Rightarrow> Inl (''tls_client_auth_subject_dn: '' @ e) | Inr _ \<Rightarrow> Inr ())) (\<lambda>_.
     andThen (ensure (\<not> (case cl_tls_san_ip c of None \<Rightarrow> False | Some ip \<Rightarrow> parse_ip ip = None))
       ''tls_client_auth_san_ip must be an IPv4 or IPv6 address'') (\<lambda>_.
     andThen (ensure (\<not> (case cl_tls_san_uri c of None \<Rightarrow> False | Some uri \<Rightarrow> l_url_fragment lib uri = None))
       ''tls_client_auth_san_uri must be an absolute URI'') (\<lambda>_.
     andThen (ensure (\<not> (case cl_tls_san_email c of None \<Rightarrow> False | Some email \<Rightarrow> CHR ''@'' \<notin> set email))
       ''tls_client_auth_san_email must be an email address'') (\<lambda>_.
     ensure (\<not> (case cl_tls_san_dns c of None \<Rightarrow> False | Some dns \<Rightarrow>
         dns = [] \<or> list_ex (\<lambda>ch. ch \<in> set white_space) (str_chars dns)))
       ''tls_client_auth_san_dns must be a DNS name'')))))))))"

section \<open>Tokens bound to a certificate\<close>

definition bound_x5t :: "claims \<Rightarrow> string option" where
  "bound_x5t cs =
     Option.bind (map_of cs ''cnf'') (\<lambda>cnf. Option.bind (json_get cnf ''x5t#S256'') as_str)"

definition enforce_cert_binding :: "claims \<Rightarrow> 'ip client_cert option \<Rightarrow> string + unit" where
  "enforce_cert_binding cs cert =
     (case bound_x5t cs of
        None \<Rightarrow> Inr ()
      | Some expected \<Rightarrow>
          (case cert of
             None \<Rightarrow> Inl ''this token is bound to a client certificate, and none was presented''
           | Some c \<Rightarrow>
               if cc_thumbprint c \<noteq> expected then
                 Inl ''the client certificate does not match the token's binding''
               else Inr ()))"

definition alias_base :: "config \<Rightarrow> string \<Rightarrow> string option" where
  "alias_base cfg slug =
     map_option (\<lambda>base. trim_end_slashes base @ ''/t/'' @ slug) (cf_mtls_public_url cfg)"

section \<open>Lemmas: characters\<close>

definition one_char :: "string \<Rightarrow> bool" where
  "one_char c = (next_char c = Some (c, []))"

lemma next_char_append: "next_char s = Some (c, s') \<Longrightarrow> next_char (s @ t) = Some (c, s' @ t)"
  by (cases s) (auto split: if_splits list.splits)

lemma utf8_chars_one: "one_char c \<Longrightarrow> utf8_chars (c @ s) = map_option ((#) c) (utf8_chars s)"
  using next_char_append [of c c "[]" s] next_char_Some [of c c "[]"]
  by (auto simp: one_char_def utf8_chars.simps [of "c @ s"])

lemma utf8_chars_of_concat: "list_all one_char cs \<Longrightarrow> utf8_chars (concat cs) = Some cs"
  by (induction cs) (auto simp: utf8_chars_one)

lemma utf8_chars_one_char: "utf8_chars s = Some cs \<Longrightarrow> list_all one_char cs"
proof (induction s arbitrary: cs rule: utf8_chars.induct)
  case (1 s)
  show ?case
  proof (cases "s = []")
    case False
    with "1.prems" obtain c s' cs' where n: "next_char s = Some (c, s')" and u: "utf8_chars s' = Some cs'" "cs = c # cs'"
      by (auto simp: utf8_chars.simps [of s] split: option.splits)
    have "next_char c = Some (c, [])"
      using n by (cases s) (auto split: if_splits list.splits)
    then show ?thesis using "1.IH" [OF False n refl u(1)] u(2) by (simp add: one_char_def)
  qed (use "1.prems" in simp)
qed

lemma one_char_ascii [simp]: "byte c < 128 \<Longrightarrow> one_char [c]"
  by (simp add: one_char_def)

lemma str_chars_concat: "list_all one_char cs \<Longrightarrow> str_chars (concat cs) = cs"
  by (simp add: str_chars_def utf8_chars_of_concat)

definition singles :: "string \<Rightarrow> string list" where
  "singles s = map (\<lambda>c. [c]) s"

lemma concat_singles [simp]: "concat (singles s) = s"
  by (induction s) (auto simp: singles_def)

section \<open>Lemmas: attribute values\<close>

text \<open>The escaped text of a value, by characters, and how the parser marks it.\<close>

definition esc :: "nat \<Rightarrow> nat \<times> string \<Rightarrow> string list" where
  "esc last_i ic =
     (if fst ic = 0 \<and> (snd ic = '' '' \<or> snd ic = ''#'') \<or> fst ic = last_i \<and> snd ic = '' '' \<or> special (snd ic)
      then [[backslash], snd ic]
      else if snd ic = [CHR 0x00] then [[backslash], ''0'', ''0''] else [snd ic])"

definition mark :: "nat \<Rightarrow> nat \<times> string \<Rightarrow> string \<times> bool" where
  "mark last_i ic = (snd ic, length (esc last_i ic) \<noteq> 1)"

definition esc_all :: "string list \<Rightarrow> string list" where
  "esc_all cs = concat (map (esc (length cs - 1)) (enumerate 0 cs))"

lemma escape_chars_esc: "escape_chars cs = concat (esc_all cs)"
proof -
  have "concat (esc l ic) = escape_char l ic" for l ic by (auto simp: esc_def escape_char_def Let_def)
  then have "concat (concat (map (esc l) ics)) = concat (map (escape_char l) ics)" for l ics
    by (induction ics) simp_all
  then show ?thesis by (simp add: escape_chars_def esc_all_def)
qed

lemma special_not_hex: "special c \<or> c = '' '' \<or> c = ''#'' \<Longrightarrow> \<not> hex_char c"
  by (auto simp: special_def hex_char_def hex_value_def in_bytes_def byte_def backslash_def)

lemma flush_zero: "flush (CHR 0x00 # p) v = flush p (v @ [([CHR 0x00], True)])"
  by (auto simp: flush_def byte_def split: option.split)

lemma scan_zero: "scan_value cs v (CHR 0x00 # p) = scan_value cs (v @ [([CHR 0x00], True)]) p"
proof (induction cs arbitrary: v p rule: length_induct)
  case (1 cs)
  show ?case
  proof (cases cs)
    case (Cons c cs')
    have "scan_value cs'' v (CHR 0x00 # p @ [b]) = scan_value cs'' (v @ [([CHR 0x00], True)]) (p @ [b])"
      if "cs' = n # lo # cs''" for n lo cs'' b
      using 1 that Cons by simp
    then show ?thesis unfolding Cons by (auto simp: flush_zero split: list.split)
  qed (simp add: flush_zero)
qed

lemma scan_esc: "scan_value (esc l ic @ tl1) v [] = scan_value tl1 (v @ [mark l ic]) []"
proof -
  define sp where "sp = (fst ic = 0 \<and> (snd ic = '' '' \<or> snd ic = ''#'') \<or> fst ic = l \<and> snd ic = '' '' \<or> special (snd ic))"
  have e: "esc l ic = (if sp then [[backslash], snd ic] else if snd ic = [CHR 0x00] then [[backslash], ''0'', ''0''] else [snd ic])"
    by (simp only: esc_def sp_def)
  show ?thesis
  proof (cases sp)
    case True
    then have "\<not> hex_char (snd ic)" using special_not_hex unfolding sp_def by blast
    then show ?thesis using True by (simp add: e mark_def flush_def)
  next
    case False
    then have plain: "snd ic \<noteq> [backslash]" "snd ic \<notin> {'','', '';'', ''+''}" by (auto simp: sp_def special_def)
    have zero: "hex_char ''0''" "hex_byte ''0'' ''0'' = CHR 0x00"
      by (simp_all add: hex_char_def hex_value_def in_bytes_def byte_def hex_byte_def char_of_def)
    show ?thesis
    proof (cases "snd ic = [CHR 0x00]")
      case True
      then show ?thesis using False zero scan_zero [of tl1 v "[]"] by (simp add: e mark_def)
    next
      case nonzero: False
      then show ?thesis using False plain by (simp add: e mark_def flush_def)
    qed
  qed
qed

lemma scan_esc_all:
  "scan_value (concat (map (esc l) ics) @ tl1) v [] = scan_value tl1 (v @ map (mark l) ics) []"
  by (induction ics arbitrary: v) (auto simp: scan_esc)

definition marks :: "string list \<Rightarrow> marked" where
  "marks cs = map (mark (length cs - 1)) (enumerate 0 cs)"

lemma scan_escaped:
  "scan_value (esc_all cs) [] [] = Inr (marks cs, None, [])"
  "e \<in> {'','', '';'', ''+''} \<Longrightarrow> scan_value (esc_all cs @ e # rest) [] [] = Inr (marks cs, Some e, rest)"
  using scan_esc_all [of "length cs - 1" "enumerate 0 cs" "[]" "[]"]
    scan_esc_all [of "length cs - 1" "enumerate 0 cs" "e # rest" "[]"]
  by (auto simp: esc_all_def marks_def flush_def backslash_def)

lemma fst_marks: "concat (map fst (marks cs)) = concat cs"
proof -
  have "map fst (marks cs) = map snd (enumerate 0 cs)" by (simp add: marks_def mark_def o_def)
  then show ?thesis by simp
qed

text \<open>
  A value the printed name keeps: text whose first and last characters are not white
  space, or are plain spaces.
\<close>

definition edge_ok :: "string \<Rightarrow> bool" where
  "edge_ok c = (c = '' '' \<or> c \<notin> set white_space)"

definition dn_value :: "string \<Rightarrow> bool" where
  "dn_value v = (case utf8_chars v of None \<Rightarrow> False | Some cs \<Rightarrow> cs = [] \<or> edge_ok (hd cs) \<and> edge_ok (last cs))"

lemma trim_bare_id: "v = [] \<or> \<not> bare (hd v) \<and> \<not> bare (last v) \<Longrightarrow> trim_bare v = v"
  by (cases "v = []") (simp_all add: trim_bare_def dropWhile_eq_self_iff [THEN iffD2] hd_rev)

lemma marks_edges:
  assumes "cs \<noteq> []" "edge_ok (hd cs)" "edge_ok (last cs)"
  shows "\<not> bare (hd (marks cs)) \<and> \<not> bare (last (marks cs)) \<and> hd (marks cs) \<noteq> (''#'', False)"
proof -
  have h: "hd (marks cs) = mark (length cs - 1) (0, hd cs)"
    using assms(1) by (cases cs) (auto simp: marks_def)
  have l: "last (marks cs) = mark (length cs - 1) (length cs - 1, last cs)"
  proof -
    have "enumerate 0 cs \<noteq> []" using assms(1) by (metis length_0_conv length_enumerate)
    then have "last (marks cs) = mark (length cs - 1) (enumerate 0 cs ! (length cs - 1))"
      by (simp add: marks_def last_map) (simp add: last_conv_nth)
    then show ?thesis using assms(1) by (simp add: nth_enumerate_eq last_conv_nth)
  qed
  show ?thesis unfolding h l using assms(2,3)
    by (auto simp: bare_def mark_def esc_def edge_ok_def)
qed

section \<open>Lemmas: attribute types\<close>

lemma digit_visible: "ascii_digit c \<or> c = CHR ''.'' \<Longrightarrow> visible c \<and> byte c < 128 \<and> c \<noteq> CHR ''='' \<and> to_ascii_uppercase c = c"
  by (auto simp: ascii_digit_def visible_def byte_def to_ascii_uppercase_def ascii_lower_def)

lemma split_on_set: "set s \<subseteq> insert c (\<Union> (set ` set (split_on c s)))"
proof (induction s)
  case (Cons x xs)
  show ?case
  proof (cases "split_on c xs")
    case (Cons p ps) then show ?thesis using Cons.IH by auto
  qed simp
qed simp

lemma dotted_digits: "is_dotted_oid s \<Longrightarrow> c \<in> set s \<Longrightarrow> ascii_digit c \<or> c = CHR ''.''"
  using split_on_set [of s "CHR ''.''"] by (fastforce simp: is_dotted_oid_def list_all_iff)

lemma dotted_head: "is_dotted_oid s \<Longrightarrow> s \<noteq> [] \<and> ascii_digit (hd s)"
  by (cases s) (auto simp: is_dotted_oid_def split: if_splits list.splits)

lemma dotted_trim_upper:
  assumes "is_dotted_oid s"
  shows "trim s = s" "upper s = s"
proof -
  show "trim s = s" using dotted_digits [OF assms] digit_visible by (intro trim_visible) (auto simp: list_all_iff)
  show "upper s = s" using dotted_digits [OF assms] digit_visible by (simp add: upper_def map_idI)
qed

lemma names_oids: "p \<in> set NAMES \<Longrightarrow> oid_of (fst p) = Some (snd p) \<and> list_all (\<lambda>c. byte c < 128 \<and> c \<noteq> CHR ''='') (fst p)"
proof -
  have t: "trim s = s" if "list_all visible s" for s using that by (rule trim_visible)
  show "p \<in> set NAMES \<Longrightarrow> ?thesis"
    by (auto simp: NAMES_def oid_of_def t visible_def upper_def to_ascii_uppercase_def ascii_lower_def
        strip_prefix_def starts_with_def byte_def)
qed

lemma oid_of_name_of:
  assumes "is_dotted_oid oid"
  shows "oid_of (name_of oid) = Some oid \<and> list_all (\<lambda>c. byte c < 128 \<and> c \<noteq> CHR ''='') (name_of oid)"
proof (cases "find (\<lambda>p. snd p = oid) NAMES")
  case (Some p)
  then have "p \<in> set NAMES" "snd p = oid" by (auto dest: find_SomeD)
  then show ?thesis using names_oids [of p] Some by (simp add: name_of_def)
next
  case None
  have hd: "oid \<noteq> []" "ascii_digit (hd oid)" using dotted_head [OF assms] by auto
  have "strip_prefix ''OID.'' oid = None" "oid \<noteq> ''E''"
    using hd by (auto simp: strip_prefix_def starts_with_iff ascii_digit_def)
  moreover have "\<forall>p\<in>set NAMES. \<not> ascii_digit (hd (fst p))" by (simp add: NAMES_def ascii_digit_def)
  then have "find (\<lambda>p. fst p = oid) NAMES = None" using hd(2) unfolding find_None_iff by blast
  moreover have "list_all (\<lambda>c. byte c < 128 \<and> c \<noteq> CHR ''='') oid"
    using dotted_digits [OF assms] digit_visible unfolding list_all_iff by blast
  ultimately show ?thesis using None assms dotted_trim_upper [OF assms] by (simp add: name_of_def oid_of_def)
qed

lemma take_type_name:
  "list_all (\<lambda>c. byte c < 128 \<and> c \<noteq> CHR ''='') n \<Longrightarrow> take_type (singles n @ ''='' # rest) = (n, rest)"
proof -
  assume n: "list_all (\<lambda>c. byte c < 128 \<and> c \<noteq> CHR ''='') n"
  then have "\<forall>c\<in>set (singles n). c \<noteq> ''=''" by (auto simp: singles_def list_all_iff)
  then show ?thesis by (simp add: take_type_def takeWhile_append dropWhile_append)
qed

section \<open>Lemmas: names\<close>

definition attr_chars :: "string \<times> string \<Rightarrow> string list" where
  "attr_chars a = singles (name_of (fst a)) @ ''='' # esc_all (str_chars (snd a))"

definition attr_ok :: "string \<times> string \<Rightarrow> bool" where
  "attr_ok a = (is_dotted_oid (fst a) \<and> dn_value (snd a))"

lemma dn_value_chars:
  assumes "dn_value v"
  shows "concat (str_chars v) = v" "list_all one_char (str_chars v)"
    "str_chars v = [] \<or> edge_ok (hd (str_chars v)) \<and> edge_ok (last (str_chars v))"
  using assms utf8_chars_concat utf8_chars_one_char
  by (auto simp: dn_value_def str_chars_def split: option.splits)

lemma parse_attribute:
  assumes "attr_ok a"
  shows "parse_rdns (attr_chars a) rdn rs = Inr (rs @ [rdn @ [a]])"
    "parse_rdns (attr_chars a @ ''+'' # rest) rdn rs = parse_rdns rest (rdn @ [a]) rs"
    "parse_rdns (attr_chars a @ '','' # rest) rdn rs = parse_rdns rest [] (rs @ [rdn @ [a]])"
proof -
  obtain oid v where a: "a = (oid, v)" by (cases a)
  have ok: "is_dotted_oid oid" "dn_value v" using assms a by (auto simp: attr_ok_def)
  note n = oid_of_name_of [OF ok(1)] and v = dn_value_chars [OF ok(2)]
  let ?m = "marks (str_chars v)"
  have "str_chars v \<noteq> [] \<Longrightarrow> \<not> bare (hd ?m) \<and> \<not> bare (last ?m) \<and> hd ?m \<noteq> (''#'', False)"
    using marks_edges v(3) by blast
  moreover have "?m = [] \<longleftrightarrow> str_chars v = []"
    unfolding marks_def by (metis length_0_conv length_enumerate length_map)
  ultimately have t: "trim_bare ?m = ?m" "\<not> (?m \<noteq> [] \<and> hd ?m = (''#'', False))"
    using trim_bare_id [of ?m] by auto
  have type: "take_type (attr_chars a @ x) = (name_of oid, esc_all (str_chars v) @ x)" for x
    using take_type_name [of "name_of oid"] n by (simp add: attr_chars_def a)
  note step = parse_rdns.simps [of "attr_chars a @ x" for x, unfolded type Let_def prod.case]
  show "parse_rdns (attr_chars a) rdn rs = Inr (rs @ [rdn @ [a]])"
    using step [of "[]"] n t by (simp add: scan_escaped fst_marks v(1) a)
  show "parse_rdns (attr_chars a @ ''+'' # rest) rdn rs = parse_rdns rest (rdn @ [a]) rs"
    using step [of "''+'' # rest"] n t by (simp add: scan_escaped fst_marks v(1) a)
  show "parse_rdns (attr_chars a @ '','' # rest) rdn rs = parse_rdns rest [] (rs @ [rdn @ [a]])"
    using step [of "'','' # rest"] n t by (simp add: scan_escaped fst_marks v(1) a)
qed

lemma parse_rdn:
  assumes "as \<noteq> []" "list_all attr_ok as"
  shows "parse_rdns (join [''+''] (map attr_chars as)) rdn rs = Inr (rs @ [rdn @ as])"
    "parse_rdns (join [''+''] (map attr_chars as) @ '','' # rest) rdn rs = parse_rdns rest [] (rs @ [rdn @ as])"
  using assms
proof (induction as arbitrary: rdn rule: list_nonempty_induct)
  case (single a)
  case 1 show ?case using single 1 by (simp add: parse_attribute)
  case 2 show ?case using single 2 by (simp add: parse_attribute)
next
  case (cons a as)
  have split: "join [''+''] (map attr_chars (a # as)) = attr_chars a @ ''+'' # join [''+''] (map attr_chars as)"
    using cons.hyps by (cases as) auto
  case 1 show ?case unfolding split using cons 1 by (simp add: parse_attribute)
  case 2 show ?case unfolding split using cons 2 by (simp add: parse_attribute)
qed

definition dn_chars :: "(string \<times> string) list list \<Rightarrow> string list" where
  "dn_chars rs = join ['',''] (map (\<lambda>rdn. join [''+''] (map attr_chars rdn)) rs)"

lemma parse_dn_chars:
  assumes "rs \<noteq> []" "list_all (\<lambda>rdn. rdn \<noteq> [] \<and> list_all attr_ok rdn) rs"
  shows "parse_rdns (dn_chars rs) [] acc = Inr (acc @ rs)"
  using assms
proof (induction rs arbitrary: acc rule: list_nonempty_induct)
  case (single rdn)
  then show ?case by (simp add: dn_chars_def parse_rdn)
next
  case (cons rdn rs)
  have split: "dn_chars (rdn # rs) = join [''+''] (map attr_chars rdn) @ '','' # dn_chars rs"
    using cons.hyps by (cases rs) (auto simp: dn_chars_def)
  show ?case unfolding split using cons by (simp add: parse_rdn)
qed

lemma concat_join: "concat (join [c] xss) = join c (map concat xss)"
  by (induction "[c]" xss rule: join.induct) auto

lemma one_char_join: "one_char c \<Longrightarrow> list_all (list_all one_char) xss \<Longrightarrow> list_all one_char (join [c] xss)"
  by (induction "[c]" xss rule: join.induct) auto

lemma attr_chars_text:
  assumes "attr_ok a"
  shows "concat (attr_chars a) = format_attribute (fst a, Some (snd a))" "list_all one_char (attr_chars a)"
proof -
  have ok: "is_dotted_oid (fst a)" "dn_value (snd a)" using assms by (auto simp: attr_ok_def)
  show "concat (attr_chars a) = format_attribute (fst a, Some (snd a))"
    by (simp add: attr_chars_def format_attribute_def escape_value_def escape_chars_esc)
  have sp: "byte backslash < 128" by (simp add: byte_def backslash_def)
  have "list_all one_char (esc l ic)" if "one_char (snd ic)" for l ic
    using that sp by (auto simp: esc_def byte_def)
  moreover have "one_char c" if "(i, c) \<in> set (enumerate 0 (str_chars (snd a)))" for i c
    using that dn_value_chars(2) [OF ok(2)] by (auto simp: list_all_iff in_set_enumerate_eq)
  ultimately have "list_all one_char (esc_all (str_chars (snd a)))"
    by (fastforce simp: esc_all_def list_all_iff)
  moreover have "list_all one_char (singles (name_of (fst a)))"
    using oid_of_name_of [OF ok(1)] by (auto simp: singles_def list_all_iff)
  ultimately show "list_all one_char (attr_chars a)" by (simp add: attr_chars_def byte_def)
qed

lemma format_dn_chars:
  assumes "list_all (\<lambda>rdn. rdn \<noteq> [] \<and> list_all attr_ok rdn) rs"
  shows "format_dn (map (map (\<lambda>(o1, v). (o1, Some v))) rs) = concat (dn_chars rs)" "list_all one_char (dn_chars rs)"
proof -
  have "map format_attribute (map (\<lambda>(o1, v). (o1, Some v)) rdn) = map concat (map attr_chars rdn)" if "rdn \<in> set rs" for rdn
    using that assms attr_chars_text(1) by (auto simp: list_all_iff case_prod_beta)
  then show "format_dn (map (map (\<lambda>(o1, v). (o1, Some v))) rs) = concat (dn_chars rs)"
    by (simp add: format_dn_def dn_chars_def concat_join o_def cong: map_cong)
  have "list_all (list_all one_char) (map attr_chars rdn)" if "rdn \<in> set rs" for rdn
    using that assms by (simp add: list_all_iff) (metis attr_chars_text(2) list_all_iff)
  then have "list_all one_char (join [''+''] (map attr_chars rdn))" if "rdn \<in> set rs" for rdn
    using that by (intro one_char_join) (simp_all add: byte_def)
  then have "list_all (list_all one_char) (map (\<lambda>rdn. join [''+''] (map attr_chars rdn)) rs)"
    by (simp add: list.pred_set)
  then show "list_all one_char (dn_chars rs)"
    unfolding dn_chars_def by (intro one_char_join) (simp_all add: byte_def)
qed

lemma strip_all_parts: "\<exists>p. s = p @ strip_all ws s \<and> set p \<subseteq> \<Union> (set ` set ws)"
proof (induction ws s rule: strip_all.induct)
  case (1 ws s)
  show ?case
  proof (cases "strip_one ws s")
    case (Some r)
    then obtain w where w: "w \<in> set ws" "s = w @ r"
      by (auto simp: strip_one_def starts_with_iff dest!: find_SomeD)
    obtain p where "r = p @ strip_all ws r" "set p \<subseteq> \<Union> (set ` set ws)" using "1.IH" [OF Some] by blast
    moreover have "strip_all ws s = strip_all ws r" using Some by (simp add: strip_all.simps [of ws s])
    ultimately show ?thesis using w by (intro exI [of _ "w @ p"]) auto
  qed (simp add: strip_all.simps [of ws s])
qed

lemma trim_keeps_visible: "visible c \<Longrightarrow> c \<in> set s \<Longrightarrow> c \<in> set (trim s)"
proof -
  assume c: "visible c" "c \<in> set s"
  then have no: "c \<notin> \<Union> (set ` set white_space)" using white_space_invisible by blast
  obtain p where p: "s = p @ trim_start s" "set p \<subseteq> \<Union> (set ` set white_space)"
    using strip_all_parts [of s white_space] by (auto simp: trim_start_def)
  then have 1: "c \<in> set (trim_start s)" using c(2) no by (metis UnE set_append subsetD)
  obtain q where q: "rev (trim_start s) = q @ strip_all (map rev white_space) (rev (trim_start s))"
      "set q \<subseteq> \<Union> (set ` set white_space)"
    using strip_all_parts [of "rev (trim_start s)" "map rev white_space"] by auto
  then show ?thesis using 1 no unfolding trim_def trim_end_def by (metis UnE set_append set_rev subsetD)
qed

lemma equals_in_dn: "rs \<noteq> [] \<Longrightarrow> list_all (\<lambda>rdn. rdn \<noteq> [] \<and> list_all attr_ok rdn) rs \<Longrightarrow> CHR ''='' \<in> set (concat (dn_chars rs))"
proof -
  assume rs: "rs \<noteq> []" "list_all (\<lambda>rdn. rdn \<noteq> [] \<and> list_all attr_ok rdn) rs"
  then obtain rdn rs' a as where e: "rs = rdn # rs'" "rdn = a # as" by (cases rs; cases "hd rs") auto
  have "set (attr_chars a) \<subseteq> set (dn_chars rs)"
    unfolding dn_chars_def e by (cases rs'; cases as) auto
  then have "''='' \<in> set (dn_chars rs)" by (auto simp: attr_chars_def)
  then show ?thesis by force
qed

lemma same_value_refl: "same_value lc a a"
  by (simp add: same_value_def)

section \<open>Properties\<close>

text \<open>
  A subject's printed name names it again: of every subject whose attribute types are
  dotted object identifiers and whose values do not begin or end in white space other than
  plain spaces, the printed distinguished name parses back to the same attributes, in the
  same order, whatever special characters, spaces and NULs the values hold; so a
  certificate with that subject is matched by its own printed name.
\<close>

theorem printed_name_names_subject:
  assumes "rs \<noteq> []" "list_all (\<lambda>rdn. rdn \<noteq> [] \<and> list_all attr_ok rdn) rs"
  shows "parse_dn (format_dn (map (map (\<lambda>(o1, v). (o1, Some v))) rs)) = Inr rs \<and>
    dn_matches lc (map (map (\<lambda>(o1, v). (o1, Some v))) rs) (format_dn (map (map (\<lambda>(o1, v). (o1, Some v))) rs))"
proof
  show p: "parse_dn (format_dn (map (map (\<lambda>(o1, v). (o1, Some v))) rs)) = Inr rs"
  proof -
    have "CHR ''='' \<in> set (trim (concat (dn_chars rs)))"
      by (rule trim_keeps_visible [OF _ equals_in_dn [OF assms]]) (simp add: visible_def)
    then have "trim (concat (dn_chars rs)) \<noteq> []" by auto
    then show ?thesis
      using parse_dn_chars [OF assms, of "[]"] format_dn_chars [OF assms(2)] by (simp add: parse_dn_def str_chars_concat)
  qed
  have "rdn_matches lc rdn (map (\<lambda>(o1, v). (o1, Some v)) rdn)" for rdn
    using same_value_refl by (force simp: rdn_matches_def list_all_iff list_ex_iff)
  then show "dn_matches lc (map (map (\<lambda>(o1, v). (o1, Some v))) rs) (format_dn (map (map (\<lambda>(o1, v). (o1, Some v))) rs))"
    by (auto simp: dn_matches_def p list_all_iff zip_map2 in_set_zip)
qed

definition ex_subject :: "(string \<times> string) list list" where
  "ex_subject = [[(''2.5.4.3'', ''a,b '')], [(''2.5.4.10'', ''Acme = 1''), (''1.2.3'', ''#7'')]]"

theorem printed_name_names_subject_witness:
  "parse_dn (format_dn (map (map (\<lambda>(o1, v). (o1, Some v))) ex_subject)) = Inr ex_subject"
proof -
  have "edge_ok ''a''" "edge_ok '' ''" "edge_ok ''A''" "edge_ok ''1''" "edge_ok ''#''" "edge_ok ''7''"
    by (simp_all add: edge_ok_def white_space_def upt_conv_Cons char_of_def)
  then have "list_all (\<lambda>rdn. rdn \<noteq> [] \<and> list_all attr_ok rdn) ex_subject"
    by (simp add: ex_subject_def attr_ok_def is_dotted_oid_def ascii_digit_def dn_value_def utf8_chars_all_ascii byte_def)
  moreover have "ex_subject \<noteq> []" by (simp add: ex_subject_def)
  ultimately show ?thesis using printed_name_names_subject [of ex_subject id] by blast
qed

end
