(* ===== verification/Client_Keys.thy ===== *)
theory Client_Keys
  imports Cache Cache_Keys Tokens
begin

text \<open>
  The clients of a tenant as the OAuth endpoints look them up: by public identifier
  through the cache (\<open>find_by_client_id\<close> of \<open>api/src/services/clients.rs\<close>), and their
  public keys, inline or fetched from the \<open>jwks_uri\<close> and kept in Valkey
  (\<open>api/src/services/client_keys.rs\<close>). Both are texts of one store, \<open>ca_l2\<close>.
\<close>

section \<open>Fetching a key set\<close>

text \<open>
  The HTTP client: the request failed, or a status and the body or the error of reading
  it. \<open>hn_guard\<close> is \<open>outbound::check_url\<close>, \<open>hn_status\<close> the text of a status code.
\<close>

datatype http_answer = SendFailed string | Answer nat "string + string"

record http_net =
  hn_guard :: "string \<Rightarrow> string + unit"
  hn_get :: "string \<Rightarrow> http_answer"
  hn_status :: "nat \<Rightarrow> string"

definition JWKS_CACHE_SECS :: nat where "JWKS_CACHE_SECS = 3600"
definition MAX_JWKS_BYTES :: nat where "MAX_JWKS_BYTES = 256 * 1024"
definition REFRESH_THROTTLE_SECS :: nat where "REFRESH_THROTTLE_SECS = 60"

definition fetch :: "library \<Rightarrow> http_net \<Rightarrow> string \<Rightarrow> app_error + json" where
  "fetch lib net uri =
     (case l_url_parts lib uri of
        None \<Rightarrow> Inl (BadRequest ''invalid jwks_uri'')
      | Some (uri_scheme, _) \<Rightarrow>
          if uri_scheme \<noteq> ''https'' then Inl (BadRequest ''jwks_uri must use https'')
          else case hn_guard net uri of
            Inl e \<Rightarrow> Inl (BadRequest (''jwks_uri: '' @ e))
          | Inr _ \<Rightarrow>
              (case hn_get net uri of
                 SendFailed e \<Rightarrow> Inl (Unavailable (''jwks_uri fetch failed: '' @ e))
               | Answer status body \<Rightarrow>
                   if \<not> (200 \<le> status \<and> status < 300) then
                     Inl (Unavailable (''jwks_uri returned '' @ hn_status net status))
                   else case body of
                     Inl e \<Rightarrow> Inl (Unavailable e)
                   | Inr bytes \<Rightarrow>
                       if MAX_JWKS_BYTES < length bytes then Inl (BadRequest ''jwks document too large'')
                       else or_error (l_parse_json lib bytes) (BadRequest ''jwks_uri did not return JSON'')))"

definition keys_of :: "json \<Rightarrow> json list" where
  "keys_of doc = (case as_array (json_index doc ''keys'') of None \<Rightarrow> [] | Some ks \<Rightarrow> ks)"

definition fetch_keys ::
  "library \<Rightarrow> http_net \<Rightarrow> instant \<Rightarrow> string \<Rightarrow> string \<Rightarrow> 'v cache_state \<Rightarrow> (app_error + json list) \<times> 'v cache_state" where
  "fetch_keys lib net later uri k st =
     (case fetch lib net uri of
        Inl e \<Rightarrow> (Inl e, st)
      | Inr doc \<Rightarrow> (Inr (keys_of doc), st\<lparr>ca_l2 := kv_set_ex later JWKS_CACHE_SECS k (l_to_text lib doc) (ca_l2 st)\<rparr>))"

definition jwks ::
  "library \<Rightarrow> http_net \<Rightarrow> instant \<Rightarrow> instant \<Rightarrow> client \<Rightarrow> bool \<Rightarrow> 'v cache_state \<Rightarrow> (app_error + json list) \<times> 'v cache_state" where
  "jwks lib net now later c refresh st =
     (case cl_jwks c of
        Some inline \<Rightarrow> (Inr (keys_of inline), st)
      | None \<Rightarrow>
          (case cl_jwks_uri c of
             None \<Rightarrow> (Inr [], st)
           | Some uri \<Rightarrow>
               (let k = key_client_jwks lib (cl_tenant c) (cl_id c)
                in case Option.bind (kv_get now k (ca_l2 st)) (l_parse_json lib) of
                     None \<Rightarrow> fetch_keys lib net later uri k st
                   | Some v \<Rightarrow>
                       if \<not> refresh then (Inr (keys_of v), st)
                       else (case kv_set_nx_ex now REFRESH_THROTTLE_SECS (k @ '':refreshed'') ''1'' (ca_l2 st) of
                               (ok, l2) \<Rightarrow>
                                 if \<not> ok then (Inr (keys_of v), st)
                                 else fetch_keys lib net later uri k (st\<lparr>ca_l2 := l2\<rparr>)))))"

definition forget :: "library \<Rightarrow> client \<Rightarrow> 'v cache_state \<Rightarrow> 'v cache_state" where
  "forget lib c st =
     (let k = key_client_jwks lib (cl_tenant c) (cl_id c)
      in st\<lparr>ca_l2 := kv_del (k @ '':refreshed'') (kv_del k (ca_l2 st))\<rparr>)"

section \<open>Looking a client up\<close>

text \<open>
  \<open>cd_parse\<close> and \<open>cd_text\<close> are serde's reading and writing of a \<open>CachedClient\<close>.
\<close>

record client_codec =
  cd_parse :: "string \<Rightarrow> client option"
  cd_text :: "client \<Rightarrow> string"

definition CLIENT_CACHE_TTL :: duration where "CLIENT_CACHE_TTL = dur_secs 300"

definition client_id_char :: "char \<Rightarrow> bool" where
  "client_id_char c = (ascii_alnum c \<or> c \<in> {CHR ''.'', CHR ''_'', CHR '':'', CHR ''-''})"

definition is_valid_client_id :: "string \<Rightarrow> bool" where
  "is_valid_client_id s =
     (s \<noteq> [] \<and> length s \<le> 128 \<and> ascii_alnum (hd s) \<and> list_all client_id_char s)"

definition repo_find_client :: "client list \<Rightarrow> uuid \<Rightarrow> string \<Rightarrow> client option" where
  "repo_find_client rows t cid = find (\<lambda>c. cl_tenant c = t \<and> cl_client_id c = cid) rows"

definition find_by_client_id ::
  "library \<Rightarrow> client_codec \<Rightarrow> instant \<Rightarrow> instant \<Rightarrow> int \<Rightarrow> client list \<Rightarrow> uuid \<Rightarrow> string \<Rightarrow> client cache_state
     \<Rightarrow> (app_error + client option) \<times> client cache_state" where
  "find_by_client_id lib codec now later r rows t cid st =
     (if \<not> is_valid_client_id cid then (Inr None, st)
      else get_or_load (cd_parse codec) (cd_text codec) now later r (key_client_by_client_id lib t cid) CLIENT_CACHE_TTL
        (Inr (repo_find_client rows t cid)) st)"

section \<open>Secrets\<close>

definition hash_secret :: "library \<Rightarrow> string \<Rightarrow> string" where
  "hash_secret lib s = hash_b64 lib s"

definition verify_secret :: "library \<Rightarrow> instant \<Rightarrow> client \<Rightarrow> string \<Rightarrow> bool" where
  "verify_secret lib now c presented =
     fold (\<lambda>s ok. ok \<or> cs_hash s = hash_secret lib presented) (active_secrets now c) False"

section \<open>Lemmas\<close>

lemma verify_secret_iff:
  "verify_secret lib now c p \<longleftrightarrow> (\<exists>s\<in>set (active_secrets now c). cs_hash s = hash_secret lib p)"
proof -
  have "fold (\<lambda>s ok. ok \<or> cs_hash s = h) xs b \<longleftrightarrow> b \<or> (\<exists>s\<in>set xs. cs_hash s = h)" for xs :: "client_secret list" and b h
    by (induction xs arbitrary: b) auto
  then show ?thesis by (simp add: verify_secret_def)
qed

text \<open>The key of a client's key set is the lookup key of a valid client identifier.\<close>

lemma jwks_key_is_client_key:
  "key_client_jwks lib t c = key_client_by_client_id lib t (l_show_uuid lib c @ '':jwks'')"
  by (simp add: key_client_jwks_def key_client_by_client_id_def)

lemma jwks_id_valid:
  assumes "uuid_text lib c"
  shows "is_valid_client_id (l_show_uuid lib c @ '':jwks'')"
proof -
  have u: "list_all client_id_char (l_show_uuid lib c)" "length (l_show_uuid lib c) = 36" "ascii_alnum (hd (l_show_uuid lib c))"
    using assms by (auto simp: uuid_text_def client_id_char_def list_all_iff)
  moreover have "list_all client_id_char '':jwks''" by (simp add: client_id_char_def ascii_defs)
  moreover have "hd (l_show_uuid lib c @ '':jwks'') = hd (l_show_uuid lib c)" using u(2) by (intro hd_append2) auto
  ultimately show ?thesis by (auto simp: is_valid_client_id_def)
qed

lemma get_or_load_hit:
  assumes "l1_get now k (ca_l1 st) = None" "kv_get now k (ca_l2 st) = Some raw"
    "raw \<noteq> NEGATIVE" "raw \<noteq> INVALIDATED" "parse raw = Some v"
  shows "fst (get_or_load parse text now later r k ttl loaded st) = Inr (Some v)"
  using assms by (simp add: get_or_load_def probe_def redis_get_def Let_def)

section \<open>Properties\<close>

text \<open>
  A client's key set document is served as a client. The Valkey key of a client's
  fetched key set, \<open>client:<row id>:jwks\<close>, is the key under which \<open>find_by_client_id\<close>
  looks for the public identifier \<open><row id>:jwks\<close>, and a colon is allowed in one: within
  the hour the document is kept, that identifier resolves to the client the document
  describes, whatever the tenant's table holds. Whoever serves a client's \<open>jwks_uri\<close>
  therefore chooses that client's grants, scopes and secret.
\<close>

theorem key_set_document_read_as_client:
  fixes st :: "client cache_state"
  assumes uuid: "uuid_text lib (cl_id c)"
    and fetched: "cl_jwks c = None" "cl_jwks_uri c = Some uri" "fetch lib net uri = Inr doc"
      "kv_get now (key_client_jwks lib (cl_tenant c) (cl_id c)) (ca_l2 st) = None"
    and forged: "cd_parse codec (l_to_text lib doc) = Some forged" "l_to_text lib doc \<noteq> NEGATIVE" "l_to_text lib doc \<noteq> INVALIDATED"
    and cold: "l1_get later (key_client_jwks lib (cl_tenant c) (cl_id c)) (ca_l1 st) = None"
    and hour: "later < stored + dur_secs (int JWKS_CACHE_SECS)"
  shows "fst (find_by_client_id lib codec later done_at r rows (cl_tenant c) (l_show_uuid lib (cl_id c) @ '':jwks'')
    (snd (jwks lib net now stored c False st))) = Inr (Some forged)"
proof -
  let ?k = "key_client_jwks lib (cl_tenant c) (cl_id c)"
  have st1: "snd (jwks lib net now stored c False st) = st\<lparr>ca_l2 := kv_set_ex stored JWKS_CACHE_SECS ?k (l_to_text lib doc) (ca_l2 st)\<rparr>"
    using fetched by (simp add: jwks_def fetch_keys_def)
  show ?thesis
    unfolding find_by_client_id_def st1 jwks_key_is_client_key [symmetric]
    using jwks_id_valid [OF uuid] cold hour forged
    by (simp add: get_or_load_hit kv_get_at_set_ex)
qed

definition ex_registrant :: client where
  "ex_registrant = ex_client\<lparr>cl_id := 5, cl_jwks_uri := Some ''https://keys.example''\<rparr>"

definition ex_keys_library :: library where
  "ex_keys_library = ex_uuid_library\<lparr>l_url_parts := (\<lambda>u. Some (''https'', None, [], None)),
     l_parse_json := (\<lambda>s. Some (JStr s)), l_to_text := (\<lambda>j. case j of JStr s \<Rightarrow> s | _ \<Rightarrow> [])\<rparr>"

definition ex_net :: http_net where
  "ex_net = \<lparr>hn_guard = (\<lambda>u. Inr ()), hn_get = (\<lambda>u. Answer 200 (Inr ''a client'')), hn_status = show_nat\<rparr>"

definition ex_codec :: client_codec where
  "ex_codec = \<lparr>cd_parse = (\<lambda>s. if s = ''a client'' then Some ex_client else None), cd_text = (\<lambda>c. ''a client'')\<rparr>"

definition ex_empty_cache :: "client cache_state" where
  "ex_empty_cache = \<lparr>ca_l1 = \<lparr>l1_entries = Map.empty, l1_evicted = Map.empty, l1_generation = 0, l1_cleared = 0\<rparr>,
     ca_l2 = Map.empty\<rparr>"

lemma ex_keys_uuid: "uuid_text ex_keys_library 5"
proof -
  have "uuid_text ex_uuid_library 5" by (rule ex_uuid_text) (simp add: show_nat.simps)
  then show ?thesis by (simp add: ex_keys_library_def uuid_text_def)
qed

theorem key_set_document_read_as_client_witness:
  "fst (find_by_client_id ex_keys_library ex_codec 1 2 0 [] 1 (l_show_uuid ex_keys_library 5 @ '':jwks'')
    (snd (jwks ex_keys_library ex_net 0 0 ex_registrant False ex_empty_cache))) = Inr (Some ex_client)"
proof -
  have "fetch ex_keys_library ex_net ''https://keys.example'' = Inr (JStr ''a client'')"
    by (simp add: fetch_def ex_keys_library_def ex_net_def MAX_JWKS_BYTES_def)
  moreover have "cl_id ex_registrant = 5" "cl_tenant ex_registrant = 1" "cl_jwks ex_registrant = None"
      "cl_jwks_uri ex_registrant = Some ''https://keys.example''"
    by (simp_all add: ex_registrant_def ex_client_def)
  moreover have "l_to_text ex_keys_library (JStr ''a client'') = ''a client''" by (simp add: ex_keys_library_def)
  ultimately show ?thesis
    using key_set_document_read_as_client [of ex_keys_library ex_registrant "''https://keys.example''" ex_net "JStr ''a client''"
        0 ex_empty_cache ex_codec ex_client 1 0 2 0 "[]"] ex_keys_uuid
    by (simp add: ex_empty_cache_def ex_codec_def NEGATIVE_def INVALIDATED_def l1_get_def dur_secs_def JWKS_CACHE_SECS_def nanos_per_sec_def)
qed

end
