(* ===== verification/Client_Auth.thy ===== *)
theory Client_Auth
  imports Client_Keys Rate_Limit Ip_Rules Mtls
begin

text \<open>
  Client authentication (\<open>api/src/oidc/client_auth.rs\<close>) with what it calls: the client's
  own origins (\<open>api/src/middleware/cors.rs\<close>), certificate authentication
  (\<open>authenticate_client\<close> of \<open>oidc/mtls.rs\<close>), the address rules and the ceiling per client.
  Every way in is one function, \<open>authenticate\<close>, over the cache and the counters.
\<close>

section \<open>Environment and state\<close>

text \<open>
  \<open>ae_verifier\<close> is the chain verifier of a tenant's trust anchors, \<open>ae_usable_key\<close> whether
  \<open>jsonwebtoken\<close> takes a JWK, \<open>ae_decode_error\<close> the text of its refusal of a token.
\<close>

record ('net, 'ip) auth_env =
  ae_lib :: library
  ae_cfg :: config
  ae_net :: http_net
  ae_codec :: client_codec
  ae_lowercase :: "string \<Rightarrow> string"
  ae_nets :: "('net, 'ip) ipnet"
  ae_verifier :: "uuid \<Rightarrow> ('ip client_cert \<Rightarrow> bool) option"
  ae_usable_key :: "json \<Rightarrow> bool"
  ae_decode_error :: "string \<Rightarrow> string"
  ae_limiter_down :: bool
  ae_cluster :: bool
  ae_same_backend :: bool
  ae_clients :: "client list"
  ae_ip_rules :: "app_error + ip_rule list"

record auth_store =
  au_cache :: "client cache_state"
  au_counters :: counters

definition JWT_BEARER_ASSERTION :: string where
  "JWT_BEARER_ASSERTION = ''urn:ietf:params:oauth:client-assertion-type:jwt-bearer''"

definition MAX_ASSERTION_LIFETIME_SECS :: int where "MAX_ASSERTION_LIFETIME_SECS = 600"

definition invalid_client :: "string \<Rightarrow> oauth_error" where
  "invalid_client d = oauth_err InvalidClient d"

section \<open>Credentials as presented\<close>

datatype presented = PBasic string string | PPost string string | PAssertion string | PNone string

definition form_value :: "library \<Rightarrow> string \<Rightarrow> string" where
  "form_value lib s = (case l_form lib (''v='' @ s) of [] \<Rightarrow> [] | p # _ \<Rightarrow> snd p)"

definition basic_parts :: "library \<Rightarrow> string \<Rightarrow> oauth_error + (string \<times> string)" where
  "basic_parts lib b64 =
     (case l_b64_decode lib (trim b64) of
        None \<Rightarrow> Inl (invalid_client ''malformed Basic credentials'')
      | Some decoded \<Rightarrow>
          if utf8_chars decoded = None then Inl (invalid_client ''malformed Basic credentials'')
          else case split_once (CHR '':'') decoded of
            None \<Rightarrow> Inl (invalid_client ''malformed Basic credentials'')
          | Some (i, secret) \<Rightarrow> Inr (form_value lib i, form_value lib secret))"

definition parse_basic :: "library \<Rightarrow> headers \<Rightarrow> oauth_error + (string \<times> string) option" where
  "parse_basic lib hs =
     (case header_get hs ''authorization'' of
        None \<Rightarrow> Inr None
      | Some v \<Rightarrow>
          andThen (or_error (header_text v) (invalid_client ''malformed Authorization header'')) (\<lambda>t.
            case strip_prefix ''Basic '' t of
              None \<Rightarrow> Inr None
            | Some b64 \<Rightarrow> andThen (basic_parts lib b64) (\<lambda>p. Inr (Some p))))"

definition present ::
  "(string \<times> string) option \<Rightarrow> string option \<Rightarrow> string option \<Rightarrow> string option \<Rightarrow> string option \<Rightarrow> oauth_error + presented" where
  "present basic body_id body_secret assertion assertion_type =
     (if 1 < length (filter id [basic \<noteq> None, body_secret \<noteq> None, assertion \<noteq> None]) then
        Inl (oauth_invalid_request ''multiple client authentication methods used'')
      else case basic of
        Some (client_id, secret) \<Rightarrow>
          if body_id \<noteq> None \<and> body_id \<noteq> Some client_id then
            Inl (invalid_client ''client_id in body does not match Authorization header'')
          else Inr (PBasic client_id secret)
      | None \<Rightarrow>
          (case body_secret of
             Some secret \<Rightarrow>
               andThen (or_error body_id (invalid_client ''client_id is required'')) (\<lambda>i. Inr (PPost i secret))
           | None \<Rightarrow>
               (case assertion of
                  Some a \<Rightarrow>
                    if assertion_type \<noteq> Some JWT_BEARER_ASSERTION then
                      Inl (oauth_invalid_request ''unsupported client_assertion_type'')
                    else Inr (PAssertion a)
                | None \<Rightarrow>
                    andThen (or_error body_id (invalid_client ''client_id is required'')) (\<lambda>i. Inr (PNone i)))))"

definition read_presented :: "library \<Rightarrow> headers \<Rightarrow> raw_params \<Rightarrow> oauth_error + (presented \<times> string option)" where
  "read_presented lib hs ps =
     andThen (parse_basic lib hs) (\<lambda>basic.
     andThen (one ps ''client_id'') (\<lambda>body_id.
     andThen (one ps ''client_secret'') (\<lambda>body_secret.
     andThen (one ps ''client_assertion'') (\<lambda>assertion.
     andThen (one ps ''client_assertion_type'') (\<lambda>assertion_type.
     andThen (present basic body_id body_secret assertion assertion_type) (\<lambda>p. Inr (p, body_id)))))))"

definition peek_claims :: "library \<Rightarrow> string \<Rightarrow> oauth_error + json" where
  "peek_claims lib jwt =
     (let bad = invalid_client ''malformed client_assertion''
      in case split_on (CHR ''.'') jwt of
           _ # payload # _ \<Rightarrow>
             andThen (or_error (l_b64url_decode lib payload) bad) (\<lambda>bytes. or_error (l_parse_json lib bytes) bad)
         | _ \<Rightarrow> Inl bad)"

definition str_or_empty :: "json \<Rightarrow> string" where
  "str_or_empty v = (case as_str v of None \<Rightarrow> [] | Some s \<Rightarrow> s)"

definition assertion_client :: "library \<Rightarrow> string \<Rightarrow> string option \<Rightarrow> oauth_error + string" where
  "assertion_client lib a body_id =
     andThen (peek_claims lib a) (\<lambda>cs.
       let iss = str_or_empty (json_index cs ''iss''); sub = str_or_empty (json_index cs ''sub'')
       in if iss = [] \<or> iss \<noteq> sub then Inl (invalid_client ''client_assertion iss and sub must equal the client_id'')
          else if body_id \<noteq> None \<and> body_id \<noteq> Some iss then Inl (invalid_client ''client_id does not match client_assertion'')
          else Inr iss)"

fun presented_id :: "library \<Rightarrow> presented \<Rightarrow> string option \<Rightarrow> oauth_error + string" where
  "presented_id lib (PBasic i s) b = Inr i"
| "presented_id lib (PPost i s) b = Inr i"
| "presented_id lib (PNone i) b = Inr i"
| "presented_id lib (PAssertion a) b = assertion_client lib a b"

section \<open>Assertions\<close>

definition jws_allowed :: "string \<Rightarrow> bool" where
  "jws_allowed alg = (alg \<in> {''PS256'', ''ES256'', ''EdDSA''})"

definition pick_key :: "string option \<Rightarrow> json list \<Rightarrow> json option" where
  "pick_key kid ks =
     (case kid of
        Some k \<Rightarrow> find (\<lambda>j. json_index j ''kid'' = JStr k) ks
      | None \<Rightarrow> if length ks = 1 then Some (hd ks) else None)"

definition assertion_key ::
  "library \<Rightarrow> http_net \<Rightarrow> instant \<Rightarrow> client \<Rightarrow> string option \<Rightarrow> 'v cache_state \<Rightarrow> (oauth_error + json option) \<times> 'v cache_state" where
  "assertion_key lib net now c kid st =
     (case jwks lib net now now c False st of
        (Inl e, st1) \<Rightarrow> (Inl (oauth_of_app_error e), st1)
      | (Inr ks, st1) \<Rightarrow>
          (case pick_key kid ks of
             Some k \<Rightarrow> (Inr (Some k), st1)
           | None \<Rightarrow>
               if cl_jwks_uri c = None then (Inr None, st1)
               else (case jwks lib net now now c True st1 of
                       (Inl e, st2) \<Rightarrow> (Inl (oauth_of_app_error e), st2)
                     | (Inr ks2, st2) \<Rightarrow> (Inr (pick_key kid ks2), st2))))"

definition assertion_audiences :: "config \<Rightarrow> tenant \<Rightarrow> string \<Rightarrow> string list" where
  "assertion_audiences cfg tn endpoint =
     [endpoint, issuer cfg tn] @ (case alias_base cfg (tn_slug tn) of None \<Rightarrow> [] | Some b \<Rightarrow> [b @ ''/token''])"

definition assertion_validation :: "config \<Rightarrow> tenant \<Rightarrow> client \<Rightarrow> string \<Rightarrow> validation" where
  "assertion_validation cfg tn c endpoint =
     \<lparr>v_leeway = 30, v_exp = True, v_nbf = True, v_issuer = Some (cl_client_id c),
      v_audiences = Some (assertion_audiences cfg tn endpoint),
      v_required = [''exp'', ''iss'', ''sub'', ''aud'', ''jti'']\<rparr>"

text \<open>The release build's \<open>i64\<close> subtraction wraps.\<close>

definition sub_i64 :: "int \<Rightarrow> int \<Rightarrow> int" where
  "sub_i64 a b = (a - b + 2 ^ 63) mod 2 ^ 64 - 2 ^ 63"

definition assertion_claims_ok :: "config \<Rightarrow> tenant \<Rightarrow> client \<Rightarrow> claims \<Rightarrow> oauth_error + string" where
  "assertion_claims_ok cfg tn c cs =
     (let exp = (case as_int (json_index (JObj cs) ''exp'') of None \<Rightarrow> 0 | Some e \<Rightarrow> e);
          iat = (case as_int (json_index (JObj cs) ''iat'') of None \<Rightarrow> sub_i64 exp MAX_ASSERTION_LIFETIME_SECS | Some i \<Rightarrow> i);
          jti = str_or_empty (json_index (JObj cs) ''jti'')
      in andThen (ensure (\<not> (is_fapi2 c \<and> json_index (JObj cs) ''aud'' \<noteq> JStr (issuer cfg tn)))
           (invalid_client ''client_assertion aud must be the issuer identifier (FAPI 2.0)'')) (\<lambda>_.
         andThen (ensure (json_index (JObj cs) ''sub'' = JStr (cl_client_id c))
           (invalid_client ''client_assertion sub must be the client_id'')) (\<lambda>_.
         andThen (ensure (\<not> MAX_ASSERTION_LIFETIME_SECS < sub_i64 exp iat)
           (invalid_client ''client_assertion lifetime too long'')) (\<lambda>_.
         andThen (ensure (\<not> (jti = [] \<or> 256 < length jti))
           (invalid_client ''client_assertion jti is required'')) (\<lambda>_. Inr jti)))))"

definition assertion_ttl :: "instant \<Rightarrow> claims \<Rightarrow> nat" where
  "assertion_ttl now cs =
     (let exp = (case as_int (json_index (JObj cs) ''exp'') of None \<Rightarrow> 0 | Some e \<Rightarrow> e)
      in nat (min MAX_ASSERTION_LIFETIME_SECS (max 1 (sub_i64 exp (timestamp now)))))"

definition spend_jti ::
  "library \<Rightarrow> instant \<Rightarrow> uuid \<Rightarrow> client \<Rightarrow> string \<Rightarrow> nat \<Rightarrow> 'v cache_state \<Rightarrow> (oauth_error + unit) \<times> 'v cache_state" where
  "spend_jti lib now t c jti ttl st =
     (case kv_set_nx_ex now ttl (key_client_assertion_jti lib t (cl_id c) jti) ''1'' (ca_l2 st) of
        (fresh, l2) \<Rightarrow>
          if fresh then (Inr (), st\<lparr>ca_l2 := l2\<rparr>)
          else (Inl (invalid_client ''client_assertion replayed''), st))"

text \<open>What the token says once its key is known.\<close>

definition check_assertion ::
  "('net, 'ip) auth_env \<Rightarrow> instant \<Rightarrow> tenant \<Rightarrow> client \<Rightarrow> string \<Rightarrow> string \<Rightarrow> json \<Rightarrow> oauth_error + (claims \<times> string)" where
  "check_assertion env now tn c a endpoint jwk =
     (if \<not> ae_usable_key env jwk then Inl (invalid_client ''invalid client key'')
      else case l_decode (ae_lib env) jwk (assertion_validation (ae_cfg env) tn c endpoint) now a of
        None \<Rightarrow> Inl (invalid_client (''client_assertion rejected: '' @ ae_decode_error env a))
      | Some cs \<Rightarrow> andThen (assertion_claims_ok (ae_cfg env) tn c cs) (\<lambda>jti. Inr (cs, jti)))"

definition verify_assertion ::
  "('net, 'ip) auth_env \<Rightarrow> instant \<Rightarrow> tenant \<Rightarrow> client \<Rightarrow> string \<Rightarrow> string \<Rightarrow> client cache_state
     \<Rightarrow> (oauth_error + unit) \<times> client cache_state" where
  "verify_assertion env now tn c a endpoint st =
     (let lib = ae_lib env
      in case l_header lib a of
           None \<Rightarrow> (Inl (invalid_client ''malformed client_assertion''), st)
         | Some (kid, typ, alg) \<Rightarrow>
             if alg \<in> {''HS256'', ''HS384'', ''HS512''} then
               (Inl (invalid_client ''client_assertion must use an asymmetric algorithm''), st)
             else if is_fapi2 c \<and> \<not> jws_allowed alg then
               (Inl (invalid_client ''the FAPI 2.0 profile allows PS256, ES256 or EdDSA assertions only''), st)
             else (case assertion_key lib (ae_net env) now c kid st of
                 (Inl e, st1) \<Rightarrow> (Inl e, st1)
               | (Inr None, st1) \<Rightarrow> (Inl (invalid_client ''no matching client key''), st1)
               | (Inr (Some jwk), st1) \<Rightarrow>
                   (case check_assertion env now tn c a endpoint jwk of
                      Inl e \<Rightarrow> (Inl e, st1)
                    | Inr (cs, jti) \<Rightarrow> spend_jti lib now (tn_id tn) c jti (assertion_ttl now cs) st1)))"

section \<open>Certificates\<close>

definition registered_der :: "library \<Rightarrow> 'ip client_cert \<Rightarrow> json list \<Rightarrow> bool" where
  "registered_der lib cert ks =
     list_ex (\<lambda>k. case as_array (json_index k ''x5c'') of
        Some (x # _) \<Rightarrow> (case Option.bind (as_str x) (decode_base64 lib) of None \<Rightarrow> False | Some der \<Rightarrow> der = cc_der cert)
      | _ \<Rightarrow> False) ks"

definition self_signed_keys ::
  "library \<Rightarrow> http_net \<Rightarrow> instant \<Rightarrow> client \<Rightarrow> 'ip client_cert \<Rightarrow> 'v cache_state \<Rightarrow> (oauth_error + json list) \<times> 'v cache_state" where
  "self_signed_keys lib net now c cert st =
     (case jwks lib net now now c False st of
        (Inl e, st1) \<Rightarrow> (Inl (oauth_of_app_error e), st1)
      | (Inr ks, st1) \<Rightarrow>
          if \<not> registered_der lib cert ks \<and> cl_jwks_uri c \<noteq> None then
            (case jwks lib net now now c True st1 of
               (Inl e, st2) \<Rightarrow> (Inl (oauth_of_app_error e), st2)
             | (Inr ks2, st2) \<Rightarrow> (Inr ks2, st2))
          else (Inr ks, st1))"

definition authenticate_client ::
  "('net, 'ip) auth_env \<Rightarrow> instant \<Rightarrow> tenant \<Rightarrow> client \<Rightarrow> 'ip client_cert option \<Rightarrow> client cache_state
     \<Rightarrow> (oauth_error + unit) \<times> client cache_state" where
  "authenticate_client env now tn c cert st =
     (case cert of
        None \<Rightarrow> (Inl (invalid_client ''a client certificate is required''), st)
      | Some ct \<Rightarrow>
          (case cl_auth_method c of
             TlsClientAuth \<Rightarrow>
               (case ae_verifier env (tn_id tn) of
                  None \<Rightarrow> (Inl (invalid_client ''no certificate authority is configured for client certificates''), st)
                | Some verify \<Rightarrow>
                    if \<not> verify ct then (Inl (invalid_client ''the client certificate is not trusted''), st)
                    else if \<not> carries_registered_subject (ae_lowercase env) (in_parse_ip (ae_nets env)) c ct then
                      (Inl (invalid_client ''the client certificate does not carry the registered subject''), st)
                    else (Inr (), st))
           | SelfSignedTlsClientAuth \<Rightarrow>
               (case self_signed_keys (ae_lib env) (ae_net env) now c ct st of
                  (Inl e, st1) \<Rightarrow> (Inl e, st1)
                | (Inr ks, st1) \<Rightarrow>
                    if \<not> registered_der (ae_lib env) ct ks then
                      (Inl (invalid_client ''the client certificate is not registered for this client''), st1)
                    else (Inr (), st1))
           | _ \<Rightarrow> (Inl (invalid_client ''client authentication method does not match the registered method''), st)))"

section \<open>Origins\<close>

definition normalize_origin :: "library \<Rightarrow> string \<Rightarrow> string option" where
  "normalize_origin lib raw = l_url_origin lib (trim raw)"

definition own_origins :: "library \<Rightarrow> config \<Rightarrow> string option list" where
  "own_origins lib cfg =
     (let v = [l_url_origin lib (cf_public_url cfg)]; ui = l_url_origin lib (cf_ui_url cfg)
      in if ui \<in> set v then v else v @ [ui])"

definition custom_origin :: "library \<Rightarrow> tenant \<Rightarrow> string option" where
  "custom_origin lib tn = Option.bind (tn_custom_domain tn) (\<lambda>h. normalize_origin lib (''https://'' @ h))"

definition origin_allowed_for_client :: "library \<Rightarrow> config \<Rightarrow> tenant \<Rightarrow> client \<Rightarrow> string \<Rightarrow> bool" where
  "origin_allowed_for_client lib cfg tn c raw =
     (case Option.bind (header_text raw) (normalize_origin lib) of
        None \<Rightarrow> False
      | Some origin \<Rightarrow>
          Some origin \<in> set (own_origins lib cfg) \<or> custom_origin lib tn = Some origin \<or>
          list_ex (\<lambda>o1. normalize_origin lib o1 = Some origin) (cl_cors_origins c))"

section \<open>Authentication\<close>

definition check_credential ::
  "('net, 'ip) auth_env \<Rightarrow> instant \<Rightarrow> tenant \<Rightarrow> client \<Rightarrow> presented \<Rightarrow> string \<Rightarrow> 'ip client_cert option \<Rightarrow> client cache_state
     \<Rightarrow> (oauth_error + auth_method) \<times> client cache_state" where
  "check_credential env now tn c p endpoint cert st =
     (let secret_checked = (\<lambda>secret.
            if verify_secret (ae_lib env) now c secret then (Inr (cl_auth_method c), st)
            else (Inl (invalid_client ''invalid client credentials''), st));
          mismatch = (Inl (invalid_client ''client authentication method does not match the registered method''), st)
      in case p of
           PBasic i secret \<Rightarrow> if cl_auth_method c = ClientSecretBasic then secret_checked secret else mismatch
         | PPost i secret \<Rightarrow> if cl_auth_method c = ClientSecretPost then secret_checked secret else mismatch
         | PAssertion a \<Rightarrow>
             if cl_auth_method c = PrivateKeyJwt then
               (case verify_assertion env now tn c a endpoint st of
                  (Inl e, st1) \<Rightarrow> (Inl e, st1)
                | (Inr _, st1) \<Rightarrow> (Inr PrivateKeyJwt, st1))
             else mismatch
         | PNone i \<Rightarrow>
             if cl_auth_method c = AuthNone then (Inr AuthNone, st)
             else if uses_certificate (cl_auth_method c) then
               (case authenticate_client env now tn c cert st of
                  (Inl e, st1) \<Rightarrow> (Inl e, st1)
                | (Inr _, st1) \<Rightarrow> (Inr (cl_auth_method c), st1))
             else (Inl (invalid_client ''client authentication required''), st))"

definition check_origin ::
  "('net, 'ip) auth_env \<Rightarrow> tenant \<Rightarrow> client \<Rightarrow> headers \<Rightarrow> oauth_error + unit" where
  "check_origin env tn c hs =
     (case header_get hs ''origin'' of
        None \<Rightarrow> Inr ()
      | Some o1 \<Rightarrow> ensure (origin_allowed_for_client (ae_lib env) (ae_cfg env) tn c o1)
          (oauth_invalid_request ''origin is not registered for this client''))"

text \<open>From the resolved client on: its status, address rules, ceiling, credential and origin.\<close>

definition authenticate_as ::
  "('net, 'ip) auth_env \<Rightarrow> instant \<Rightarrow> tenant \<Rightarrow> headers \<Rightarrow> string \<Rightarrow> 'ip option \<Rightarrow> 'ip client_cert option
     \<Rightarrow> presented \<Rightarrow> client \<Rightarrow> auth_store \<Rightarrow> (oauth_error + (client \<times> auth_method)) \<times> auth_store" where
  "authenticate_as env now tn hs endpoint ip cert p c st =
     (if \<not> cl_active c then (Inl (invalid_client ''client is disabled''), st)
      else case require_client (ae_nets env) (tn_id tn) (cl_id c) ip (ae_ip_rules env) of
        Inl e \<Rightarrow> (Inl (oauth_of_app_error e), st)
      | Inr _ \<Rightarrow>
          (case hit_client (ae_lib env) (ae_cfg env) (ae_limiter_down env) (ae_cluster env) (ae_same_backend env)
                  now tn (cl_id c) (au_counters st) of
             (d, counters1) \<Rightarrow>
               (let st1 = st\<lparr>au_counters := counters1\<rparr>
                in case de_retry_after d of
                     Some secs \<Rightarrow> (Inl (oauth_rate_limited secs), st1)
                   | None \<Rightarrow>
                       (case check_credential env now tn c p endpoint cert (au_cache st1) of
                          (Inl e, cache1) \<Rightarrow> (Inl e, st1\<lparr>au_cache := cache1\<rparr>)
                        | (Inr m, cache1) \<Rightarrow>
                            (case check_origin env tn c hs of
                               Inl e \<Rightarrow> (Inl e, st1\<lparr>au_cache := cache1\<rparr>)
                             | Inr _ \<Rightarrow> (Inr (c, m), st1\<lparr>au_cache := cache1\<rparr>))))))"

definition authenticate ::
  "('net, 'ip) auth_env \<Rightarrow> instant \<Rightarrow> int \<Rightarrow> tenant \<Rightarrow> headers \<Rightarrow> raw_params \<Rightarrow> string \<Rightarrow> 'ip option \<Rightarrow> 'ip client_cert option
     \<Rightarrow> auth_store \<Rightarrow> (oauth_error + (client \<times> auth_method)) \<times> auth_store" where
  "authenticate env now r tn hs ps endpoint ip cert st =
     (case andThen (read_presented (ae_lib env) hs ps) (\<lambda>(p, body_id).
             andThen (presented_id (ae_lib env) p body_id) (\<lambda>cid. Inr (p, cid))) of
        Inl e \<Rightarrow> (Inl e, st)
      | Inr (p, cid) \<Rightarrow>
          (case find_by_client_id (ae_lib env) (ae_codec env) now now r (ae_clients env) (tn_id tn) cid (au_cache st) of
             (Inl e, cache1) \<Rightarrow> (Inl (oauth_of_app_error e), st\<lparr>au_cache := cache1\<rparr>)
           | (Inr None, cache1) \<Rightarrow> (Inl (invalid_client ''unknown client''), st\<lparr>au_cache := cache1\<rparr>)
           | (Inr (Some c), cache1) \<Rightarrow> authenticate_as env now tn hs endpoint ip cert p c (st\<lparr>au_cache := cache1\<rparr>)))"

section \<open>Lemmas\<close>

lemma read_presented_Inr:
  assumes "read_presented lib hs ps = Inr (p, b)"
  obtains basic secret a ty where "parse_basic lib hs = Inr basic" "one ps ''client_id'' = Inr b"
    "one ps ''client_secret'' = Inr secret" "one ps ''client_assertion'' = Inr a" "present basic b secret a ty = Inr p"
  using assms by (auto simp: read_presented_def andThen_Inr)

lemma present_basic: "present basic b secret a ty = Inr (PBasic i s) \<Longrightarrow> basic = Some (i, s)"
  by (auto simp: present_def andThen_Inr split: if_splits option.splits)

lemma present_post: "present basic b secret a ty = Inr (PPost i s) \<Longrightarrow> secret = Some s"
  by (auto simp: present_def andThen_Inr split: if_splits option.splits)

lemma present_assertion: "present basic b secret a ty = Inr (PAssertion x) \<Longrightarrow> a = Some x"
  by (auto simp: present_def andThen_Inr split: if_splits option.splits)

text \<open>A key the client's key set held, inline or fetched.\<close>

definition client_key :: "('net, 'ip) auth_env \<Rightarrow> instant \<Rightarrow> client \<Rightarrow> json \<Rightarrow> bool" where
  "client_key env now c jwk =
     (\<exists>refresh (st :: client cache_state) ks st'. jwks (ae_lib env) (ae_net env) now now c refresh st = (Inr ks, st') \<and> jwk \<in> set ks)"

lemma pick_key_mem: "pick_key kid ks = Some k \<Longrightarrow> k \<in> set ks"
  by (cases ks) (auto simp: pick_key_def split: option.splits if_splits dest: find_SomeD)

lemma assertion_key_mem:
  assumes "assertion_key (ae_lib env) (ae_net env) now c kid (st :: client cache_state) = (Inr (Some k), st')"
  shows "client_key env now c k"
  using assms pick_key_mem unfolding client_key_def assertion_key_def
  by (fastforce split: prod.splits sum.splits option.splits if_splits)

lemma verify_assertion_Inr:
  assumes "verify_assertion env now tn c a endpoint st = (Inr u, st')"
  obtains kid ty alg jwk st1 cs jti where "l_header (ae_lib env) a = Some (kid, ty, alg)"
    "alg \<notin> {''HS256'', ''HS384'', ''HS512''}" "\<not> (is_fapi2 c \<and> \<not> jws_allowed alg)"
    "assertion_key (ae_lib env) (ae_net env) now c kid st = (Inr (Some jwk), st1)"
    "check_assertion env now tn c a endpoint jwk = Inr (cs, jti)"
    "spend_jti (ae_lib env) now (tn_id tn) c jti (assertion_ttl now cs) st1 = (Inr u, st')"
  using assms unfolding verify_assertion_def Let_def
  by (auto split: option.splits prod.splits sum.splits if_splits)

lemma check_assertion_Inr:
  "check_assertion env now tn c a endpoint jwk = Inr (cs, jti) \<longleftrightarrow>
     ae_usable_key env jwk \<and>
     l_decode (ae_lib env) jwk (assertion_validation (ae_cfg env) tn c endpoint) now a = Some cs \<and>
     assertion_claims_ok (ae_cfg env) tn c cs = Inr jti"
  by (auto simp: check_assertion_def andThen_Inr split: option.splits)

lemma self_signed_keys_source:
  assumes "self_signed_keys (ae_lib env) (ae_net env) now c ct (st :: client cache_state) = (Inr ks, st')"
  shows "\<forall>k\<in>set ks. client_key env now c k"
  using assms unfolding client_key_def self_signed_keys_def
  by (fastforce split: prod.splits sum.splits if_splits)

text \<open>What each registered method asks the request to prove.\<close>

definition credential_proved ::
  "('net, 'ip) auth_env \<Rightarrow> instant \<Rightarrow> tenant \<Rightarrow> client \<Rightarrow> headers \<Rightarrow> raw_params \<Rightarrow> string \<Rightarrow> 'ip client_cert option \<Rightarrow> bool" where
  "credential_proved env now tn c hs ps endpoint cert =
     (case cl_auth_method c of
        AuthNone \<Rightarrow> True
      | ClientSecretBasic \<Rightarrow> \<exists>i s. parse_basic (ae_lib env) hs = Inr (Some (i, s)) \<and> verify_secret (ae_lib env) now c s
      | ClientSecretPost \<Rightarrow> \<exists>s. one ps ''client_secret'' = Inr (Some s) \<and> verify_secret (ae_lib env) now c s
      | PrivateKeyJwt \<Rightarrow> \<exists>a jwk cs jti. one ps ''client_assertion'' = Inr (Some a) \<and> client_key env now c jwk \<and>
          l_decode (ae_lib env) jwk (assertion_validation (ae_cfg env) tn c endpoint) now a = Some cs \<and>
          assertion_claims_ok (ae_cfg env) tn c cs = Inr jti
      | TlsClientAuth \<Rightarrow> \<exists>ct verify. cert = Some ct \<and> ae_verifier env (tn_id tn) = Some verify \<and> verify ct \<and>
          carries_registered_subject (ae_lowercase env) (in_parse_ip (ae_nets env)) c ct
      | SelfSignedTlsClientAuth \<Rightarrow> \<exists>ct ks. cert = Some ct \<and> registered_der (ae_lib env) ct ks \<and> (\<forall>k\<in>set ks. client_key env now c k))"

lemma authenticate_client_proved:
  assumes "authenticate_client env now tn c cert st = (Inr u, st')"
  shows "credential_proved env now tn c hs ps endpoint cert"
proof -
  obtain ct where ct: "cert = Some ct" using assms by (cases cert) (auto simp: authenticate_client_def)
  show ?thesis
  proof (cases "cl_auth_method c")
    case SelfSignedTlsClientAuth
    then obtain ks st1 where k: "self_signed_keys (ae_lib env) (ae_net env) now c ct st = (Inr ks, st1)" "registered_der (ae_lib env) ct ks"
      using assms ct by (auto simp: authenticate_client_def split: prod.splits sum.splits if_splits)
    then show ?thesis using self_signed_keys_source [OF k(1)] ct SelfSignedTlsClientAuth by (auto simp: credential_proved_def)
  qed (use assms ct in \<open>auto simp: authenticate_client_def credential_proved_def split: option.splits if_splits\<close>)
qed

lemma check_credential_proved:
  assumes r: "read_presented (ae_lib env) hs ps = Inr (p, b)"
    and c: "check_credential env now tn c p endpoint cert st = (Inr m, st')"
  shows "m = cl_auth_method c \<and> credential_proved env now tn c hs ps endpoint cert"
proof -
  obtain basic secret a ty where parts: "parse_basic (ae_lib env) hs = Inr basic" "one ps ''client_secret'' = Inr secret"
    "one ps ''client_assertion'' = Inr a" "present basic b secret a ty = Inr p"
    using r by (rule read_presented_Inr)
  show ?thesis
  proof (cases p)
    case (PBasic i s)
    then show ?thesis using c parts present_basic
      by (force simp: check_credential_def credential_proved_def split: if_splits)
  next
    case (PPost i s)
    then show ?thesis using c parts present_post
      by (force simp: check_credential_def credential_proved_def split: if_splits)
  next
    case (PAssertion x)
    then obtain st1 u where v: "verify_assertion env now tn c x endpoint st = (Inr u, st1)" and m: "m = PrivateKeyJwt" "cl_auth_method c = PrivateKeyJwt"
      using c by (auto simp: check_credential_def split: if_splits prod.splits sum.splits)
    have a: "a = Some x" using parts(4) PAssertion present_assertion by blast
    from v obtain kid jwk st2 cs jti where "assertion_key (ae_lib env) (ae_net env) now c kid st = (Inr (Some jwk), st2)"
      and "check_assertion env now tn c x endpoint jwk = Inr (cs, jti)" by (rule verify_assertion_Inr)
    then show ?thesis using m a parts(3) assertion_key_mem by (fastforce simp: credential_proved_def check_assertion_Inr)
  next
    case (PNone i)
    show ?thesis
    proof (cases "cl_auth_method c = AuthNone")
      case False
      then obtain u st1 where "authenticate_client env now tn c cert st = (Inr u, st1)" "m = cl_auth_method c"
        using c PNone by (auto simp: check_credential_def split: if_splits prod.splits sum.splits)
      then show ?thesis using authenticate_client_proved by blast
    qed (use c PNone in \<open>auto simp: check_credential_def credential_proved_def\<close>)
  qed
qed

lemma authenticate_Inr:
  assumes "authenticate env now r tn hs ps endpoint ip cert st = (Inr (c, m), st')"
  obtains p b cid cache1 where "read_presented (ae_lib env) hs ps = Inr (p, b)" "presented_id (ae_lib env) p b = Inr cid"
    "find_by_client_id (ae_lib env) (ae_codec env) now now r (ae_clients env) (tn_id tn) cid (au_cache st) = (Inr (Some c), cache1)"
    "authenticate_as env now tn hs endpoint ip cert p c (st\<lparr>au_cache := cache1\<rparr>) = (Inr (c, m), st')"
proof -
  obtain p cid where pc: "andThen (read_presented (ae_lib env) hs ps) (\<lambda>(p, body_id).
      andThen (presented_id (ae_lib env) p body_id) (\<lambda>cid. Inr (p, cid))) = Inr (p, cid)"
    using assms by (auto simp: authenticate_def split: sum.splits)
  obtain c1 cache1 where f: "find_by_client_id (ae_lib env) (ae_codec env) now now r (ae_clients env) (tn_id tn) cid (au_cache st) = (Inr (Some c1), cache1)"
    and a: "authenticate_as env now tn hs endpoint ip cert p c1 (st\<lparr>au_cache := cache1\<rparr>) = (Inr (c, m), st')"
    using assms unfolding authenticate_def pc by (auto split: prod.splits sum.splits option.splits)
  have "c1 = c" using a unfolding authenticate_as_def Let_def by (auto split: if_splits prod.splits sum.splits option.splits)
  then show thesis using that pc f a by (auto simp: andThen_Inr)
qed

lemma authenticate_as_Inr:
  assumes "authenticate_as env now tn hs endpoint ip cert p c st = (Inr (c', m), st')"
  shows "cl_active c" "require_client (ae_nets env) (tn_id tn) (cl_id c) ip (ae_ip_rules env) = Inr ()"
    "check_origin env tn c hs = Inr ()"
    "\<exists>cache0 cache1. check_credential env now tn c p endpoint cert cache0 = (Inr m, cache1)"
  using assms unfolding authenticate_as_def Let_def
  by (auto split: if_splits prod.splits sum.splits option.splits)

text \<open>Reading a client's key set leaves the spent assertion identifiers alone.\<close>

lemma assertion_key_apart:
  "key_client_assertion_jti lib t c jti \<noteq> key_client_jwks lib t c"
  "key_client_assertion_jti lib t c jti \<noteq> key_client_jwks lib t c @ '':refreshed''"
  by (simp_all add: key_client_assertion_jti_def key_client_jwks_def tenant_key_def)

lemma jwks_keeps_jti:
  assumes "cl_tenant c = t"
  shows "ca_l2 (snd (jwks lib net now later c refresh st)) (key_client_assertion_jti lib t (cl_id c) jti)
    = ca_l2 st (key_client_assertion_jti lib t (cl_id c) jti)"
  using assertion_key_apart [of lib t "cl_id c" jti] assms
  by (auto simp: jwks_def fetch_keys_def kv_set_nx_ex_def kv_set_ex_def kv_set_until_def Let_def
      split: option.splits sum.splits if_splits)

lemma assertion_key_keeps_jti:
  assumes "cl_tenant c = t"
  shows "ca_l2 (snd (assertion_key lib net now c kid st)) (key_client_assertion_jti lib t (cl_id c) jti)
    = ca_l2 st (key_client_assertion_jti lib t (cl_id c) jti)"
  using jwks_keeps_jti [OF assms, of lib net now now False st jti]
    jwks_keeps_jti [OF assms, of lib net now now True "snd (jwks lib net now now c False st)" jti]
  by (auto simp: assertion_key_def split: prod.splits sum.splits option.splits)

lemma spend_jti_Inr:
  "spend_jti lib now t c jti ttl st = (Inr u, st') \<Longrightarrow>
     kv_get now (key_client_assertion_jti lib t (cl_id c) jti) (ca_l2 st) = None \<and>
     ca_l2 st' (key_client_assertion_jti lib t (cl_id c) jti) = Some (''1'', Some (now + dur_secs (int ttl)))"
  by (auto simp: spend_jti_def kv_set_nx_ex_def kv_set_ex_def kv_set_until_def split: if_splits)

lemma inline_assertion_key:
  "cl_jwks c = Some inline \<Longrightarrow> cl_jwks_uri c = None \<Longrightarrow>
   assertion_key lib net now c kid st = (Inr (pick_key kid (keys_of inline)), st)"
  by (simp add: assertion_key_def jwks_def split: option.split)

section \<open>Properties\<close>


definition ex_auth_env :: "(nat \<times> nat, nat) auth_env" where
  "ex_auth_env = \<lparr>ae_lib = ex_keys_library, ae_cfg = ex_limits, ae_net = ex_net, ae_codec = ex_codec, ae_lowercase = id,
     ae_nets = ex_nets, ae_verifier = (\<lambda>t. None), ae_usable_key = (\<lambda>j. True), ae_decode_error = (\<lambda>s. ''expired''),
     ae_limiter_down = False, ae_cluster = False, ae_same_backend = True,
     ae_clients = [ex_client\<lparr>cl_auth_method := ClientSecretPost\<rparr>], ae_ip_rules = Inr []\<rparr>"

definition ex_auth_store :: auth_store where
  "ex_auth_store = \<lparr>au_cache = ex_empty_cache, au_counters = Map.empty\<rparr>"

definition ex_auth_params :: raw_params where
  "ex_auth_params = [(''client_id'', ''app''), (''client_secret'', ''s3cret'')]"

lemma ex_authenticates_with:
  assumes p: "read_presented ex_keys_library [] ps = Inr (PPost ''app'' ''s3cret'', Some ''app'')"
  shows "fst (authenticate ex_auth_env 0 0 ex_limited [] ps endpoint None None ex_auth_store)
     = Inr (ex_client\<lparr>cl_auth_method := ClientSecretPost\<rparr>, ClientSecretPost)"
proof -
  have "is_valid_client_id ''app''" by (simp add: is_valid_client_id_def client_id_char_def ascii_defs)
  then have f: "\<exists>cache1. find_by_client_id ex_keys_library ex_codec 0 0 0 [ex_client\<lparr>cl_auth_method := ClientSecretPost\<rparr>] 1 ''app'' ex_empty_cache
      = (Inr (Some (ex_client\<lparr>cl_auth_method := ClientSecretPost\<rparr>)), cache1)"
    by (simp add: find_by_client_id_def get_or_load_def probe_def l1_get_def ex_empty_cache_def redis_get_def Let_def
        load_after_wait_def repo_find_client_def ex_client_def)
  have "verify_secret ex_keys_library 0 (ex_client\<lparr>cl_auth_method := ClientSecretPost\<rparr>) ''s3cret''"
    by (simp add: verify_secret_iff active_secrets_def secret_is_active_def ex_client_def hash_secret_def hash_b64_def
        ex_keys_library_def ex_uuid_library_def ex_library_def)
  moreover have "de_retry_after (fst (hit_client ex_keys_library ex_limits False False True 0 ex_limited 7 Map.empty)) = None"
  proof -
    have on: "client_limited ex_limits ex_limited"
      by (simp add: client_limited_def ex_limits_def ex_limited_def default_rate_limit_policy_def)
    have "hit_client ex_keys_library ex_limits False False True 0 ex_limited 7 Map.empty =
      (decide [client_want ex_keys_library ex_limited 7] [(1, nat (num_milliseconds (dur_millis (int (window_ms (tn_rate_limits ex_limited))))))],
       Map.empty(wa_key (client_want ex_keys_library ex_limited 7) \<mapsto> (1, Some (0 + dur_millis (int (window_ms (tn_rate_limits ex_limited)))))))"
      by (rule hit_client_entry [OF on hit_entry_new]) simp_all
    then show ?thesis by (simp add: decide_one client_want_def ex_limited_def)
  qed
  ultimately show ?thesis
    using f by (auto simp: authenticate_def ex_auth_env_def p ex_auth_store_def authenticate_as_def require_client_def client_allows_def
        scope_allows_def cached_rules_def check_credential_def check_origin_def header_get_def Let_def ex_limited_def ex_tenant_def ex_client_def
        split: prod.splits)
qed

lemma ex_trimmed: "trim ''app'' = ''app''" "trim ''s3cret'' = ''s3cret''"
  by (rule trim_visible, simp add: visible_def)+

lemma ex_authenticates:
  "fst (authenticate ex_auth_env 0 0 ex_limited [] ex_auth_params [] None None ex_auth_store)
     = Inr (ex_client\<lparr>cl_auth_method := ClientSecretPost\<rparr>, ClientSecretPost)"
  by (rule ex_authenticates_with)
    (simp add: read_presented_def parse_basic_def header_get_def one_def param_one_def values_of_def ex_auth_params_def
        nonempty_def ex_trimmed present_def)


definition ex_assertion_claims :: claims where
  "ex_assertion_claims = [(''exp'', JInt 1000000), (''iat'', JInt 999400), (''sub'', JStr ''app''), (''jti'', JStr ''j'')]"

definition ex_assertion_env :: "(nat \<times> nat, nat) auth_env" where
  "ex_assertion_env = ex_auth_env\<lparr>ae_lib := ex_keys_library\<lparr>l_header := (\<lambda>t. Some (None, None, ''ES256'')),
     l_decode := (\<lambda>k v now t. if t = ''tok'' \<and> timestamp now < 1000030 then Some ex_assertion_claims else None)\<rparr>\<rparr>"

definition ex_assertion_client :: client where
  "ex_assertion_client = ex_client\<lparr>cl_auth_method := PrivateKeyJwt, cl_jwks := Some (JObj [(''keys'', JArr [JStr ''k''])])\<rparr>"

lemma ex_assertion_parts:
  "cl_jwks ex_assertion_client = Some (JObj [(''keys'', JArr [JStr ''k''])])" "cl_jwks_uri ex_assertion_client = None"
  "cl_client_id ex_assertion_client = ''app''" "cl_tenant ex_assertion_client = 1" "\<not> is_fapi2 ex_assertion_client"
  "tn_id ex_limited = 1"
  "l_header (ae_lib ex_assertion_env) t = Some (None, None, ''ES256'')"
  "ae_usable_key ex_assertion_env k"
  "l_decode (ae_lib ex_assertion_env) k v now t = (if t = ''tok'' \<and> timestamp now < 1000030 then Some ex_assertion_claims else None)"
  by (simp_all add: ex_assertion_client_def ex_client_def is_fapi2_def ex_limited_def ex_tenant_def ex_assertion_env_def ex_auth_env_def)

lemma ex_assertion_accepted: "fst (verify_assertion ex_assertion_env 0 ex_limited ex_assertion_client ''tok'' [] ex_empty_cache) = Inr ()"
proof -
  have "assertion_claims_ok (ae_cfg ex_assertion_env) ex_limited ex_assertion_client ex_assertion_claims = Inr ''j''"
    by (simp add: assertion_claims_ok_def ex_assertion_claims_def json_index_def ex_assertion_parts str_or_empty_def
        MAX_ASSERTION_LIFETIME_SECS_def sub_i64_def)
  then have "check_assertion ex_assertion_env 0 ex_limited ex_assertion_client ''tok'' [] (JStr ''k'') = Inr (ex_assertion_claims, ''j'')"
    by (simp add: check_assertion_Inr ex_assertion_parts timestamp_def nanos_per_sec_def)
  then show ?thesis
    by (simp add: verify_assertion_def ex_assertion_parts inline_assertion_key pick_key_def keys_of_def json_index_def
        spend_jti_def kv_set_nx_ex_def ex_empty_cache_def Let_def)
qed

text \<open>
  An assertion is accepted once while its identifier is remembered: after one was
  accepted, the same assertion is refused at every instant before the remembered lifetime
  (the seconds until it expires, at least one and at most ten minutes) is over, provided
  nothing else removed the mark.
\<close>

theorem assertion_spent_once:
  assumes decode: "\<And>k v n k' v' n' x y. l_decode (ae_lib env) k v n a = Some x \<Longrightarrow> l_decode (ae_lib env) k' v' n' a = Some y \<Longrightarrow> x = y"
    and tenant: "cl_tenant c = tn_id tn"
    and accepted: "verify_assertion env now tn c a endpoint st = (Inr u, st1)"
    and decoded: "l_decode (ae_lib env) k v now a = Some cs"
    and kept: "\<And>jti. ca_l2 st2 (key_client_assertion_jti (ae_lib env) (tn_id tn) (cl_id c) jti)
      = ca_l2 st1 (key_client_assertion_jti (ae_lib env) (tn_id tn) (cl_id c) jti)"
    and remembered: "later < now + dur_secs (int (assertion_ttl now cs))"
  shows "\<exists>e st3. verify_assertion env later tn c a endpoint st2 = (Inl e, st3)"
proof (rule ccontr)
  assume "\<not> ?thesis"
  then obtain u2 st3 where again: "verify_assertion env later tn c a endpoint st2 = (Inr u2, st3)"
    by (metis surj_pair sum.exhaust)
  from accepted obtain kid jwk s1 cs1 jti1 where c1: "check_assertion env now tn c a endpoint jwk = Inr (cs1, jti1)"
    and s1: "spend_jti (ae_lib env) now (tn_id tn) c jti1 (assertion_ttl now cs1) s1 = (Inr u, st1)" by (rule verify_assertion_Inr)
  from again obtain kid2 jwk2 s2 cs2 jti2 where k2: "assertion_key (ae_lib env) (ae_net env) later c kid2 st2 = (Inr (Some jwk2), s2)"
    and c2: "check_assertion env later tn c a endpoint jwk2 = Inr (cs2, jti2)"
    and s2: "spend_jti (ae_lib env) later (tn_id tn) c jti2 (assertion_ttl later cs2) s2 = (Inr u2, st3)" by (rule verify_assertion_Inr)
  have "cs1 = cs" "cs2 = cs" using c1 c2 decoded decode unfolding check_assertion_Inr by blast+
  moreover then have j: "jti2 = jti1" using c1 c2 unfolding check_assertion_Inr by simp
  ultimately have "ca_l2 s2 (key_client_assertion_jti (ae_lib env) (tn_id tn) (cl_id c) jti2)
      = Some (''1'', Some (now + dur_secs (int (assertion_ttl now cs))))"
    using spend_jti_Inr [OF s1] kept assertion_key_keeps_jti [OF tenant, of "ae_lib env" "ae_net env" later kid2 st2 jti2] k2 by simp
  then show False using spend_jti_Inr [OF s2] remembered by (auto simp: kv_get_def kv_entry_def)
qed

theorem assertion_spent_once_witness:
  "\<exists>e st3. verify_assertion ex_assertion_env (dur_secs 599) ex_limited ex_assertion_client ''tok'' []
     (snd (verify_assertion ex_assertion_env 0 ex_limited ex_assertion_client ''tok'' [] ex_empty_cache)) = (Inl e, st3)"
proof -
  obtain st1 where acc: "verify_assertion ex_assertion_env 0 ex_limited ex_assertion_client ''tok'' [] ex_empty_cache = (Inr (), st1)"
    using ex_assertion_accepted by (metis prod.collapse)
  have ttl: "assertion_ttl 0 ex_assertion_claims = 600"
    by (simp add: assertion_ttl_def ex_assertion_claims_def json_index_def MAX_ASSERTION_LIFETIME_SECS_def sub_i64_def timestamp_def)
  have "\<exists>e st3. verify_assertion ex_assertion_env (dur_secs 599) ex_limited ex_assertion_client ''tok'' [] st1 = (Inl e, st3)"
  proof (rule assertion_spent_once [OF _ _ acc])
    show "x = y" if "l_decode (ae_lib ex_assertion_env) k v n ''tok'' = Some x" "l_decode (ae_lib ex_assertion_env) k' v' n' ''tok'' = Some y"
      for k v n k' v' n' x y using that by (simp add: ex_assertion_parts split: if_splits)
    show "l_decode (ae_lib ex_assertion_env) JNull (assertion_validation ex_limits ex_limited ex_assertion_client []) 0 ''tok'' = Some ex_assertion_claims"
      by (simp add: ex_assertion_parts timestamp_def nanos_per_sec_def)
  qed (simp_all add: ex_assertion_parts ttl)
  then show ?thesis by (simp add: acc)
qed

text \<open>
  An assertion is forgotten before it expires. The identifier is remembered for at most
  ten minutes, while the lifetime check compares \<open>exp\<close> with an \<open>iat\<close> the client chose and
  the token is accepted until thirty seconds after \<open>exp\<close>: an assertion accepted once is
  accepted again at every later instant at which it still decodes and the mark is over,
  which an \<open>iat\<close> in the future makes any time at all.
\<close>

theorem assertion_replayed_after_ten_minutes:
  assumes inline: "cl_jwks c = Some keys" "cl_jwks_uri c = None"
    and accepted: "verify_assertion env now tn c a endpoint st = (Inr u, st1)"
    and decodes: "\<And>k. l_decode (ae_lib env) k (assertion_validation (ae_cfg env) tn c endpoint) later a
      = l_decode (ae_lib env) k (assertion_validation (ae_cfg env) tn c endpoint) now a"
    and over: "now + dur_secs 600 \<le> later"
  shows "\<exists>st2. verify_assertion env later tn c a endpoint st1 = (Inr (), st2)"
proof -
  from accepted obtain kid ty alg jwk s1 cs jti where h: "l_header (ae_lib env) a = Some (kid, ty, alg)"
      "alg \<notin> {''HS256'', ''HS384'', ''HS512''}" "\<not> (is_fapi2 c \<and> \<not> jws_allowed alg)"
    and k: "assertion_key (ae_lib env) (ae_net env) now c kid st = (Inr (Some jwk), s1)"
    and ck: "check_assertion env now tn c a endpoint jwk = Inr (cs, jti)"
    and sp: "spend_jti (ae_lib env) now (tn_id tn) c jti (assertion_ttl now cs) s1 = (Inr u, st1)" by (rule verify_assertion_Inr)
  have k2: "assertion_key (ae_lib env) (ae_net env) later c kid st1 = (Inr (Some jwk), st1)"
    using k unfolding inline_assertion_key [OF inline] by simp
  have ck2: "check_assertion env later tn c a endpoint jwk = Inr (cs, jti)"
    using ck unfolding check_assertion_Inr decodes .
  have "int (assertion_ttl now cs) \<le> 600" by (simp add: assertion_ttl_def MAX_ASSERTION_LIFETIME_SECS_def Let_def)
  then have "now + dur_secs (int (assertion_ttl now cs)) \<le> later"
    using over dur_secs_mono [of "int (assertion_ttl now cs)" 600] by linarith
  then have "kv_get later (key_client_assertion_jti (ae_lib env) (tn_id tn) (cl_id c) jti) (ca_l2 st1) = None"
    using spend_jti_Inr [OF sp] by (simp add: kv_get_def kv_entry_def)
  then have "\<exists>st2. spend_jti (ae_lib env) later (tn_id tn) c jti (assertion_ttl later cs) st1 = (Inr (), st2)"
    by (simp add: spend_jti_def kv_set_nx_ex_def)
  then show ?thesis using h k2 ck2 by (auto simp: verify_assertion_def Let_def)
qed

theorem assertion_replayed_after_ten_minutes_witness:
  "\<exists>st2. verify_assertion ex_assertion_env (dur_secs 600) ex_limited ex_assertion_client ''tok'' []
     (snd (verify_assertion ex_assertion_env 0 ex_limited ex_assertion_client ''tok'' [] ex_empty_cache)) = (Inr (), st2)"
proof -
  obtain st1 where acc: "verify_assertion ex_assertion_env 0 ex_limited ex_assertion_client ''tok'' [] ex_empty_cache = (Inr (), st1)"
    using ex_assertion_accepted by (metis prod.collapse)
  have "\<exists>st2. verify_assertion ex_assertion_env (dur_secs 600) ex_limited ex_assertion_client ''tok'' [] st1 = (Inr (), st2)"
    by (rule assertion_replayed_after_ten_minutes [OF _ _ acc])
      (simp_all add: ex_assertion_parts timestamp_def dur_secs_def nanos_per_sec_def)
  then show ?thesis by (simp add: acc)
qed

end
