(* ===== verification/Dpop.thy ===== *)
theory Dpop
  imports Mtls Cache_Keys
begin

text \<open>
  Proof of possession (\<open>api/src/oidc/dpop.rs\<close>, RFC 9449): the checks of one proof, its
  single use, and the binding of a presented access token to a proof key and a
  certificate. The marks of used proofs live in Valkey, here a store of texts.
\<close>

section \<open>Data\<close>

definition ALGS :: "string list" where
  "ALGS = [''ES256'', ''ES384'', ''RS256'', ''RS384'', ''RS512'', ''PS256'', ''PS384'', ''PS512'', ''EdDSA'']"

definition MAX_AGE_SECS :: int where "MAX_AGE_SECS = 300"
definition MAX_SKEW_SECS :: int where "MAX_SKEW_SECS = 30"

record proof_key =
  pf_jkt :: string

definition algorithm :: "string \<Rightarrow> string option" where
  "algorithm name = (if name \<in> set ALGS then Some name else None)"

definition normalize_htu :: "library \<Rightarrow> string \<Rightarrow> string option" where
  "normalize_htu lib raw = l_url_no_query lib raw"

definition htu_candidates :: "config \<Rightarrow> tenant \<Rightarrow> string \<Rightarrow> string list" where
  "htu_candidates cfg tn rest =
     [trim_end_slashes (cf_public_url cfg) @ ''/t/'' @ tn_slug tn @ rest]
     @ (case tn_custom_domain tn of None \<Rightarrow> [] | Some host \<Rightarrow> [''https://'' @ host @ rest])
     @ (case alias_base cfg (tn_slug tn) of None \<Rightarrow> [] | Some base \<Rightarrow> [base @ rest])"

definition htu_for_path :: "config \<Rightarrow> tenant \<Rightarrow> string \<Rightarrow> string list" where
  "htu_for_path cfg tn path =
     (case strip_prefix (''/t/'' @ tn_slug tn) path of
        Some rest \<Rightarrow>
          if rest = [] \<or> starts_with rest ''/'' then htu_candidates cfg tn rest
          else [trim_end_slashes (cf_public_url cfg) @ path]
      | None \<Rightarrow> [trim_end_slashes (cf_public_url cfg) @ path])"

definition access_token_hash :: "library \<Rightarrow> string \<Rightarrow> string" where
  "access_token_hash lib token = hash_b64 lib token"

definition dpop_header :: "headers \<Rightarrow> string + string option" where
  "dpop_header hs =
     (case filter (\<lambda>h. fst h = ''dpop'') hs of
        [] \<Rightarrow> Inr None
      | [h] \<Rightarrow>
          (case header_text (snd h) of
             None \<Rightarrow> Inl ''DPoP header is not valid text''
           | Some s \<Rightarrow> Inr (Some (trim s)))
      | _ \<Rightarrow> Inl ''more than one DPoP header'')"

section \<open>One proof\<close>

text \<open>What \<open>jsonwebtoken\<close> checks of a proof: the signature only.\<close>

definition proof_validation :: validation where
  "proof_validation = \<lparr>v_leeway = 60, v_exp = False, v_nbf = False, v_issuer = None, v_audiences = None, v_required = []\<rparr>"

definition proof_jwk :: "library \<Rightarrow> (json \<Rightarrow> bool) \<Rightarrow> string \<Rightarrow> string + json" where
  "proof_jwk lib usable p =
     (if p = [] \<or> 4096 < length p then Inl ''DPoP proof is empty or too long''
      else case l_header lib p of
        None \<Rightarrow> Inl ''DPoP proof is not a JWT''
      | Some (kid, ty, alg) \<Rightarrow>
          if ty \<noteq> Some ''dpop+jwt'' then Inl ''DPoP proof typ must be dpop+jwt''
          else if algorithm alg = None then Inl ''DPoP proof algorithm is not allowed''
          else case l_header_jwk lib p of
            None \<Rightarrow> Inl ''DPoP proof carries no jwk''
          | Some jwk \<Rightarrow>
              if json_get jwk ''d'' \<noteq> None then Inl ''DPoP jwk must be a public key''
              else if \<not> usable jwk then Inl ''DPoP jwk is not usable''
              else Inr jwk)"

definition claim_str :: "claims \<Rightarrow> string \<Rightarrow> string option" where
  "claim_str cs n = Option.bind (map_of cs n) as_str"

definition proof_claims_ok ::
  "library \<Rightarrow> instant \<Rightarrow> string \<Rightarrow> string list \<Rightarrow> string option \<Rightarrow> claims \<Rightarrow> string + string" where
  "proof_claims_ok lib now meth htu access_token cs =
     andThen (or_error (Option.bind (claim_str cs ''jti'') (\<lambda>j. if j \<noteq> [] \<and> length j \<le> 256 then Some j else None))
       ''DPoP proof needs a jti'') (\<lambda>jti.
     andThen (or_error (claim_str cs ''htm'') ''DPoP proof needs htm'') (\<lambda>htm.
     andThen (ensure (htm = meth) ''DPoP htm does not match the request method'') (\<lambda>_.
     andThen (or_error (Option.bind (claim_str cs ''htu'') (normalize_htu lib)) ''DPoP proof needs htu'') (\<lambda>claimed.
     andThen (ensure (list_ex (\<lambda>h. normalize_htu lib h = Some claimed) htu) ''DPoP htu does not match the request URL'') (\<lambda>_.
     andThen (or_error (Option.bind (map_of cs ''iat'') as_int) ''DPoP proof needs iat'') (\<lambda>iat.
     andThen (ensure (\<not> (iat < timestamp now - MAX_AGE_SECS \<or> timestamp now + MAX_SKEW_SECS < iat))
       ''DPoP proof iat is too old or in the future'') (\<lambda>_.
     andThen (ensure (case access_token of
         None \<Rightarrow> True
       | Some token \<Rightarrow> claim_str cs ''ath'' = Some (access_token_hash lib token))
       ''DPoP ath does not match the access token'') (\<lambda>_. Inr jti))))))))"

definition jti_key :: "library \<Rightarrow> uuid \<Rightarrow> string \<Rightarrow> string" where
  "jti_key lib t jti = PREFIX @ '':t:'' @ l_show_uuid lib t @ '':dpop:jti:'' @ hash_b64 lib jti"

definition verify_proof ::
  "library \<Rightarrow> (json \<Rightarrow> bool) \<Rightarrow> instant \<Rightarrow> tenant \<Rightarrow> string \<Rightarrow> string \<Rightarrow> string list \<Rightarrow> string option
     \<Rightarrow> (string, string) kv \<Rightarrow> (string + proof_key) \<times> (string, string) kv" where
  "verify_proof lib usable now tn p meth htu access_token m =
     (case andThen (proof_jwk lib usable p) (\<lambda>jwk.
             andThen (or_error (l_decode lib jwk proof_validation now p) ''DPoP proof signature is invalid'') (\<lambda>cs.
             andThen (proof_claims_ok lib now meth htu access_token cs) (\<lambda>jti. Inr (jwk, jti)))) of
        Inl e \<Rightarrow> (Inl e, m)
      | Inr (jwk, jti) \<Rightarrow>
          (case kv_set_nx_ex now (nat (MAX_AGE_SECS + MAX_SKEW_SECS)) (jti_key lib (tn_id tn) jti) ''1'' m of
             (fresh, m1) \<Rightarrow>
               if \<not> fresh then (Inl ''DPoP proof replayed'', m1)
               else (case thumbprint (hash_b64 lib) jwk of
                       Inl e \<Rightarrow> (Inl (app_error_to_string e), m1)
                     | Inr jkt \<Rightarrow> (Inr \<lparr>pf_jkt = jkt\<rparr>, m1))))"

section \<open>Bound tokens\<close>

definition bound_jkt :: "claims \<Rightarrow> string option" where
  "bound_jkt cs = Option.bind (map_of cs ''cnf'') (\<lambda>cnf. Option.bind (json_get cnf ''jkt'') as_str)"

record presented_token =
  pt_scheme :: scheme
  pt_token :: string
  pt_claims :: claims

definition enforce_binding ::
  "library \<Rightarrow> (json \<Rightarrow> bool) \<Rightarrow> instant \<Rightarrow> tenant \<Rightarrow> presented_token \<Rightarrow> headers \<Rightarrow> string \<Rightarrow> string list
     \<Rightarrow> 'ip client_cert option \<Rightarrow> (string, string) kv \<Rightarrow> (string + unit) \<times> (string, string) kv" where
  "enforce_binding lib usable now tn pt hs meth htu cert m =
     (case enforce_cert_binding (pt_claims pt) cert of
        Inl e \<Rightarrow> (Inl e, m)
      | Inr _ \<Rightarrow>
          (case bound_jkt (pt_claims pt) of
             None \<Rightarrow> (Inr (), m)
           | Some expected \<Rightarrow>
               if pt_scheme pt \<noteq> Dpop then
                 (Inl ''this token is DPoP-bound and must be sent with the DPoP scheme'', m)
               else case andThen (dpop_header hs) (\<lambda>h. or_error h ''DPoP proof required'') of
                 Inl e \<Rightarrow> (Inl e, m)
               | Inr p \<Rightarrow>
                   (case verify_proof lib usable now tn p meth htu (Some (pt_token pt)) m of
                      (Inl e, m1) \<Rightarrow> (Inl e, m1)
                    | (Inr pk, m1) \<Rightarrow>
                        if pf_jkt pk \<noteq> expected then (Inl ''DPoP proof key does not match the token's binding'', m1)
                        else (Inr (), m1))))"

section \<open>Lemmas\<close>

lemma proof_claims_ok_Inr:
  "proof_claims_ok lib now meth htu at cs = Inr jti \<longleftrightarrow>
     claim_str cs ''jti'' = Some jti \<and> jti \<noteq> [] \<and> length jti \<le> 256 \<and> claim_str cs ''htm'' = Some meth \<and>
     (\<exists>claimed h. Option.bind (claim_str cs ''htu'') (normalize_htu lib) = Some claimed \<and> h \<in> set htu \<and> normalize_htu lib h = Some claimed) \<and>
     (\<exists>iat. map_of cs ''iat'' = Some (JInt iat) \<and> timestamp now - MAX_AGE_SECS \<le> iat \<and> iat \<le> timestamp now + MAX_SKEW_SECS) \<and>
     (\<forall>token. at = Some token \<longrightarrow> claim_str cs ''ath'' = Some (access_token_hash lib token))"
  by (cases at) (auto simp: proof_claims_ok_def andThen_Inr list_ex_iff Option.bind_eq_Some_conv not_less split: if_splits)

lemma verify_proof_Inr:
  assumes "verify_proof lib usable now tn p meth htu at m = (Inr pk, m')"
  obtains jwk cs jti where "proof_jwk lib usable p = Inr jwk" "l_decode lib jwk proof_validation now p = Some cs"
    "proof_claims_ok lib now meth htu at cs = Inr jti" "kv_get now (jti_key lib (tn_id tn) jti) m = None"
    "m' = kv_set_ex now 330 (jti_key lib (tn_id tn) jti) ''1'' m" "thumbprint (hash_b64 lib) jwk = Inr (pf_jkt pk)"
proof -
  obtain jwk jti where a: "andThen (proof_jwk lib usable p) (\<lambda>jwk.
      andThen (or_error (l_decode lib jwk proof_validation now p) ''DPoP proof signature is invalid'') (\<lambda>cs.
      andThen (proof_claims_ok lib now meth htu at cs) (\<lambda>jti. Inr (jwk, jti)))) = Inr (jwk, jti)"
    using assms by (auto simp: verify_proof_def split: sum.splits)
  then obtain cs where "proof_jwk lib usable p = Inr jwk" "l_decode lib jwk proof_validation now p = Some cs"
    "proof_claims_ok lib now meth htu at cs = Inr jti" by (auto simp: andThen_Inr)
  moreover have "kv_get now (jti_key lib (tn_id tn) jti) m = None \<and>
      m' = kv_set_ex now 330 (jti_key lib (tn_id tn) jti) ''1'' m \<and> thumbprint (hash_b64 lib) jwk = Inr (pf_jkt pk)"
    using assms unfolding verify_proof_def a
    by (auto simp: kv_set_nx_ex_def MAX_AGE_SECS_def MAX_SKEW_SECS_def split: if_splits sum.splits)
  ultimately show thesis using that by blast
qed

definition ex_proof_jwk :: json where
  "ex_proof_jwk = JObj [(''kty'', JStr ''OKP''), (''crv'', JStr ''Ed25519''), (''x'', JStr ''11qYAY'')]"

definition ex_proof_claims :: claims where
  "ex_proof_claims = [(''jti'', JStr ''j1''), (''htm'', JStr ''POST''), (''htu'', JStr ''https://id.example/token''),
     (''iat'', JInt 30), (''ath'', JStr ''tok'')]"

definition ex_dpop_library :: library where
  "ex_dpop_library = ex_library\<lparr>l_header := (\<lambda>t. Some (None, Some ''dpop+jwt'', ''EdDSA'')),
     l_header_jwk := (\<lambda>t. Some ex_proof_jwk), l_decode := (\<lambda>k v now t. if t = ''proof'' then Some ex_proof_claims else None)\<rparr>"

abbreviation ex_verify :: "instant \<Rightarrow> (string, string) kv \<Rightarrow> (string + proof_key) \<times> (string, string) kv" where
  "ex_verify now m \<equiv> verify_proof ex_dpop_library (\<lambda>j. True) now ex_tenant ''proof'' ''POST'' [''https://id.example/token''] (Some ''tok'') m"

definition ex_jkt :: string where
  "ex_jkt = (case thumbprint (hash_b64 ex_dpop_library) ex_proof_jwk of Inr t \<Rightarrow> t | Inl e \<Rightarrow> [])"

lemma ex_thumbprint: "thumbprint (hash_b64 ex_dpop_library) ex_proof_jwk = Inr ex_jkt"
  by (simp add: ex_jkt_def thumbprint_def ex_proof_jwk_def thumbprint_members_def json_index_def Let_def split: sum.split)

lemma ex_verify_fresh:
  assumes "0 \<le> now" "timestamp now \<le> 330" "kv_get now (jti_key ex_dpop_library 1 ''j1'') m = None"
  shows "ex_verify now m = (Inr \<lparr>pf_jkt = ex_jkt\<rparr>, kv_set_ex now 330 (jti_key ex_dpop_library 1 ''j1'') ''1'' m)"
proof -
  have t: "0 \<le> timestamp now" using assms(1) by (simp add: timestamp_def nanos_per_sec_def pos_imp_zdiv_nonneg_iff)
  have "proof_jwk ex_dpop_library (\<lambda>j. True) ''proof'' = Inr ex_proof_jwk"
    by (simp add: proof_jwk_def ex_dpop_library_def algorithm_def ALGS_def ex_proof_jwk_def)
  moreover have "l_decode ex_dpop_library ex_proof_jwk proof_validation now ''proof'' = Some ex_proof_claims"
    by (simp add: ex_dpop_library_def)
  moreover have "proof_claims_ok ex_dpop_library now ''POST'' [''https://id.example/token''] (Some ''tok'') ex_proof_claims = Inr ''j1''"
    unfolding proof_claims_ok_Inr
    using t assms(2) by (simp add: ex_proof_claims_def claim_str_def normalize_htu_def ex_dpop_library_def ex_library_def
        access_token_hash_def hash_b64_def MAX_AGE_SECS_def MAX_SKEW_SECS_def)
  ultimately show ?thesis using assms(3)
    by (simp add: verify_proof_def kv_set_nx_ex_def ex_tenant_def ex_thumbprint MAX_AGE_SECS_def MAX_SKEW_SECS_def)
qed

section \<open>Properties\<close>

text \<open>
  A proof is used once. When a proof that was accepted is accepted again later, by any
  request and for any of the tenant's URLs, with the mark of the first use left in the
  store, then its \<open>iat\<close> was the last second of the clock skew it allows and the second
  use falls in the very second the mark is gone and the proof is not yet too old; every
  other proof is refused from then on, for ever.
\<close>

theorem dpop_proof_used_once:
  assumes decode: "\<And>k n k' n' x y. l_decode lib k proof_validation n p = Some x \<Longrightarrow> l_decode lib k' proof_validation n' p = Some y \<Longrightarrow> x = y"
    and first: "verify_proof lib usable now tn p meth htu at m = (Inr pk, m1)"
    and decoded: "l_decode lib k proof_validation now p = Some cs"
    and kept: "\<And>jti. m2 (jti_key lib (tn_id tn) jti) = m1 (jti_key lib (tn_id tn) jti)"
    and again: "verify_proof lib usable later tn p meth2 htu2 at2 m2 = (Inr pk2, m3)"
  shows "map_of cs ''iat'' = Some (JInt (timestamp now + 30)) \<and> timestamp later = timestamp now + 330 \<and> now + dur_secs 330 \<le> later"
proof -
  from first obtain jwk cs1 jti1 where a: "l_decode lib jwk proof_validation now p = Some cs1"
      "proof_claims_ok lib now meth htu at cs1 = Inr jti1" "m1 = kv_set_ex now 330 (jti_key lib (tn_id tn) jti1) ''1'' m"
    by (rule verify_proof_Inr)
  from again obtain jwk2 cs2 jti2 where b: "l_decode lib jwk2 proof_validation later p = Some cs2"
      "proof_claims_ok lib later meth2 htu2 at2 cs2 = Inr jti2" "kv_get later (jti_key lib (tn_id tn) jti2) m2 = None"
    by (rule verify_proof_Inr)
  have cs: "cs1 = cs" "cs2 = cs" using decode a(1) b(1) decoded by blast+
  then have j: "jti2 = jti1" using a(2) b(2) by (simp add: proof_claims_ok_Inr)
  have gone: "now + dur_secs 330 \<le> later"
    using b(3) kept [of jti1] unfolding j a(3) by (simp add: kv_get_def kv_entry_def kv_set_ex_def kv_set_until_def split: if_splits)
  from a(2) b(2) obtain iat where i: "map_of cs ''iat'' = Some (JInt iat)" "iat \<le> timestamp now + 30" "timestamp later - 300 \<le> iat"
    unfolding cs proof_claims_ok_Inr MAX_AGE_SECS_def MAX_SKEW_SECS_def by force
  have "timestamp now + 330 \<le> timestamp later"
  proof -
    have "timestamp (now + dur_secs 330) = timestamp now + 330"
      by (simp add: timestamp_def dur_secs_def nanos_per_sec_def)
    moreover have "timestamp (now + dur_secs 330) \<le> timestamp later"
      unfolding timestamp_def using gone by (intro zdiv_mono1) (simp_all add: nanos_per_sec_def)
    ultimately show ?thesis by simp
  qed
  then have "iat = timestamp now + 30" "timestamp later = timestamp now + 330" using i by linarith+
  then show ?thesis using i(1) gone by simp
qed

theorem dpop_proof_used_once_witness:
  "fst (ex_verify 0 Map.empty) = Inr \<lparr>pf_jkt = ex_jkt\<rparr> \<and>
   fst (ex_verify (dur_secs 330) (snd (ex_verify 0 Map.empty))) = Inr \<lparr>pf_jkt = ex_jkt\<rparr> \<and>
   map_of ex_proof_claims ''iat'' = Some (JInt (timestamp 0 + 30))"
proof -
  note first = ex_verify_fresh [of 0 Map.empty]
  let ?m = "snd (ex_verify 0 Map.empty)"
  have f: "ex_verify 0 Map.empty = (Inr \<lparr>pf_jkt = ex_jkt\<rparr>, ?m)" using first by (simp add: timestamp_def)
  have "kv_get (dur_secs 330) (jti_key ex_dpop_library 1 ''j1'') ?m = None"
    using first by (simp add: timestamp_def kv_get_at_set_ex)
  then have g: "ex_verify (dur_secs 330) ?m = (Inr \<lparr>pf_jkt = ex_jkt\<rparr>, snd (ex_verify (dur_secs 330) ?m))"
    using ex_verify_fresh [of "dur_secs 330" ?m] by (simp add: timestamp_def dur_secs_def nanos_per_sec_def)
  have "map_of ex_proof_claims ''iat'' = Some (JInt (timestamp 0 + 30))"
    using dpop_proof_used_once [OF _ f _ _ g, of JNull ex_proof_claims] by (simp add: ex_dpop_library_def split: if_splits)
  then show ?thesis using f g by (metis fst_conv)
qed

text \<open>
  C21. A bound token needs what it is bound to: a request passes with a token bound to a key
  only under the DPoP scheme, with exactly one proof header, signed by that key, naming
  the method, the URL and the token, fresh, and used for the first time; and with a token
  bound to a certificate only over that certificate.
\<close>

theorem bound_token_needs_its_key:
  assumes "enforce_binding lib usable now tn pt hs meth htu cert m = (Inr u, m')"
  shows "(\<forall>x. bound_x5t (pt_claims pt) = Some x \<longrightarrow> (\<exists>c. cert = Some c \<and> cc_thumbprint c = x)) \<and>
    (\<forall>jkt. bound_jkt (pt_claims pt) = Some jkt \<longrightarrow>
       pt_scheme pt = Dpop \<and>
       (\<exists>p jwk cs jti. dpop_header hs = Inr (Some p) \<and> proof_jwk lib usable p = Inr jwk \<and>
          thumbprint (hash_b64 lib) jwk = Inr jkt \<and> l_decode lib jwk proof_validation now p = Some cs \<and>
          proof_claims_ok lib now meth htu (Some (pt_token pt)) cs = Inr jti \<and>
          kv_get now (jti_key lib (tn_id tn) jti) m = None))"
proof (intro conjI allI impI)
  have c: "enforce_cert_binding (pt_claims pt) cert = Inr ()"
    using assms by (auto simp: enforce_binding_def split: sum.splits)
  fix x assume "bound_x5t (pt_claims pt) = Some x"
  then show "\<exists>c. cert = Some c \<and> cc_thumbprint c = x"
    using c by (auto simp: enforce_cert_binding_def split: option.splits if_splits)
next
  fix jkt assume b: "bound_jkt (pt_claims pt) = Some jkt"
  from assms b show "pt_scheme pt = Dpop" by (auto simp: enforce_binding_def split: sum.splits if_splits)
  from assms b obtain p pk m1 where h: "dpop_header hs = Inr (Some p)"
    and v: "verify_proof lib usable now tn p meth htu (Some (pt_token pt)) m = (Inr pk, m1)" and j: "pf_jkt pk = jkt"
    by (auto simp: enforce_binding_def andThen_def split: sum.splits if_splits prod.splits)
  from v show "\<exists>p jwk cs jti. dpop_header hs = Inr (Some p) \<and> proof_jwk lib usable p = Inr jwk \<and>
      thumbprint (hash_b64 lib) jwk = Inr jkt \<and> l_decode lib jwk proof_validation now p = Some cs \<and>
      proof_claims_ok lib now meth htu (Some (pt_token pt)) cs = Inr jti \<and> kv_get now (jti_key lib (tn_id tn) jti) m = None"
    by (rule verify_proof_Inr) (use h j in blast)
qed

theorem bound_token_needs_its_key_witness:
  "fst (enforce_binding ex_dpop_library (\<lambda>j. True) 0 ex_tenant
      \<lparr>pt_scheme = Dpop, pt_token = ''tok'', pt_claims = [(''cnf'', JObj [(''jkt'', JStr ex_jkt)])]\<rparr>
      [(''dpop'', ''proof'')] ''POST'' [''https://id.example/token''] (None :: nat client_cert option) Map.empty) = Inr () \<and>
   thumbprint (hash_b64 ex_dpop_library) ex_proof_jwk = Inr ex_jkt"
proof -
  let ?pt = "\<lparr>pt_scheme = Dpop, pt_token = ''tok'', pt_claims = [(''cnf'', JObj [(''jkt'', JStr ex_jkt)])]\<rparr>"
  have t: "trim ''proof'' = ''proof''" by (rule trim_visible) (simp add: visible_def)
  have h: "dpop_header [(''dpop'', ''proof'')] = Inr (Some ''proof'')"
    by (simp add: dpop_header_def header_text_def in_bytes_def byte_def t)
  have e: "enforce_binding ex_dpop_library (\<lambda>j. True) 0 ex_tenant ?pt [(''dpop'', ''proof'')] ''POST''
      [''https://id.example/token''] (None :: nat client_cert option) Map.empty
      = (Inr (), kv_set_ex 0 330 (jti_key ex_dpop_library 1 ''j1'') ''1'' Map.empty)"
    using ex_verify_fresh [of 0 Map.empty]
    by (simp add: enforce_binding_def enforce_cert_binding_def bound_x5t_def bound_jkt_def h timestamp_def)
  from bound_token_needs_its_key [OF e] obtain p jwk where "dpop_header [(''dpop'', ''proof'')] = Inr (Some p)"
      "proof_jwk ex_dpop_library (\<lambda>j. True) p = Inr jwk" "thumbprint (hash_b64 ex_dpop_library) jwk = Inr ex_jkt"
    by (auto simp: bound_jkt_def)
  then show ?thesis using e ex_thumbprint by simp
qed

end
