(* ===== verification/Ciba.thy ===== *)
theory Ciba
  imports Polled_Grants Client_Auth
begin

text \<open>
  Client-initiated backchannel authentication: the requests in Valkey and their rows
  (\<open>api/src/services/ciba.rs\<close>, \<open>api/src/repos/ciba_requests.rs\<close>) and the endpoint that
  opens them (\<open>api/src/oidc/ciba.rs\<close>). The hash of an \<open>auth_req_id\<close> is \<open>hash_b64\<close>; the
  random id and the row's identifier are arguments; what the user is told and the ping
  to the client leave no state and are not modelled.
\<close>

section \<open>Data\<close>

definition DEFAULT_EXPIRY_SECS :: nat where "DEFAULT_EXPIRY_SECS = 10 * 60"
definition MIN_EXPIRY_SECS :: nat where "MIN_EXPIRY_SECS = 30"
definition MAX_EXPIRY_SECS :: nat where "MAX_EXPIRY_SECS = 30 * 60"
definition CIBA_INTERVAL_SECS :: nat where "CIBA_INTERVAL_SECS = 5"
definition CIBA_SLOW_DOWN_STEP_SECS :: nat where "CIBA_SLOW_DOWN_STEP_SECS = 5"
definition MAX_PENDING_PER_USER :: nat where "MAX_PENDING_PER_USER = 5"
definition BINDING_MESSAGE_MAX_CHARS :: nat where "BINDING_MESSAGE_MAX_CHARS = 64"
definition NOTIFICATION_TOKEN_MAX_LEN :: nat where "NOTIFICATION_TOKEN_MAX_LEN = 1024"

record ciba_approval =
  ca_user :: uuid
  ca_session :: uuid
  ca_auth_time :: instant
  ca_amr :: "string list"
  ca_acr :: "string option"
  ca_org :: "uuid option"

record ciba_record =
  cr_id :: uuid
  cr_tenant :: uuid
  cr_client :: uuid
  cr_user :: uuid
  cr_scopes :: "string list"
  cr_audiences :: "string list"
  cr_mode :: delivery_mode
  cr_auth_req_id :: "string option"
  cr_notification_token :: "string option"
  cr_interval_secs :: nat
  cr_issued_at :: instant
  cr_expires_at :: instant
  cr_status :: "ciba_approval grant_status"
  cr_last_poll_at :: "instant option"

record ciba_row =
  cw_id :: uuid
  cw_tenant :: uuid
  cw_client :: uuid
  cw_user :: uuid
  cw_hash :: string
  cw_scopes :: "string list"
  cw_binding_message :: "string option"
  cw_acr_values :: "string list"
  cw_delivery_mode :: delivery_mode
  cw_expires_at :: instant
  cw_status :: string
  cw_decided_at :: "instant option"
  cw_consumed_at :: "instant option"

record ciba_state =
  cb_kv :: "(uuid \<times> string, ciba_record) kv"
  cb_rows :: "ciba_row list"

record acknowledgement =
  ak_auth_req_id :: string
  ak_expires_in :: nat
  ak_interval :: nat

record ciba_start =
  sr_scopes :: "string list"
  sr_audiences :: "string list"
  sr_binding_message :: "string option"
  sr_acr_values :: "string list"
  sr_notification_token :: "string option"
  sr_expiry_secs :: nat

section \<open>Rows\<close>

definition row_pending :: "instant \<Rightarrow> uuid \<Rightarrow> uuid \<Rightarrow> ciba_row \<Rightarrow> bool" where
  "row_pending dbnow t u r = (cw_tenant r = t \<and> cw_user r = u \<and> cw_status r = ''pending'' \<and> dbnow < cw_expires_at r)"

definition count_pending :: "instant \<Rightarrow> uuid \<Rightarrow> uuid \<Rightarrow> ciba_row list \<Rightarrow> nat" where
  "count_pending dbnow t u rows = length (filter (row_pending dbnow t u) rows)"

definition pending_hash_for_update :: "instant \<Rightarrow> uuid \<Rightarrow> uuid \<Rightarrow> uuid \<Rightarrow> ciba_row list \<Rightarrow> string option" where
  "pending_hash_for_update dbnow t u i rows =
     map_option cw_hash (find (\<lambda>r. cw_id r = i \<and> row_pending dbnow t u r) rows)"

definition repo_decide_ciba :: "instant \<Rightarrow> uuid \<Rightarrow> uuid \<Rightarrow> string \<Rightarrow> ciba_row list \<Rightarrow> ciba_row list" where
  "repo_decide_ciba dbnow t i status rows =
     update_where (\<lambda>r. cw_tenant r = t \<and> cw_id r = i \<and> cw_status r = ''pending'')
       (\<lambda>r. r\<lparr>cw_status := status, cw_decided_at := Some dbnow\<rparr>) rows"

definition repo_consume_ciba :: "instant \<Rightarrow> uuid \<Rightarrow> uuid \<Rightarrow> ciba_row list \<Rightarrow> ciba_row list" where
  "repo_consume_ciba dbnow t i rows =
     update_where (\<lambda>r. cw_tenant r = t \<and> cw_id r = i \<and> cw_status r = ''approved'')
       (\<lambda>r. r\<lparr>cw_status := ''consumed'', cw_consumed_at := Some dbnow\<rparr>) rows"

section \<open>Operations\<close>

definition cr_is_expired :: "ciba_record \<Rightarrow> instant \<Rightarrow> bool" where
  "cr_is_expired r now = (cr_expires_at r \<le> now)"

text \<open>\<open>alnum\<close> is \<open>char::is_alphanumeric\<close>.\<close>

definition valid_binding_message :: "(string \<Rightarrow> bool) \<Rightarrow> string \<Rightarrow> bool" where
  "valid_binding_message alnum m =
     (let n = length (str_chars m)
      in 1 \<le> n \<and> n \<le> BINDING_MESSAGE_MAX_CHARS \<and> trim m = m \<and>
         list_all (\<lambda>c. alnum c \<or> c \<in> {'' '', ''-'', ''_'', ''.'', '':'', ''#''}) (str_chars m))"

definition start ::
  "library \<Rightarrow> instant \<Rightarrow> string \<Rightarrow> uuid \<Rightarrow> tenant \<Rightarrow> client \<Rightarrow> user \<Rightarrow> ciba_start \<Rightarrow> ciba_state
     \<Rightarrow> (app_error + acknowledgement) \<times> ciba_state" where
  "start lib now auth_req_id row_id tn c u req st =
     (case cl_delivery_mode c of
        None \<Rightarrow> (Inl (Internal ''CIBA client without a delivery mode''), st)
      | Some mode \<Rightarrow>
          (let h = hash_b64 lib auth_req_id;
               expires_at = now + dur_secs (int (sr_expiry_secs req));
               ping = (mode = ModePing);
               rec = \<lparr>cr_id = row_id, cr_tenant = tn_id tn, cr_client = cl_id c, cr_user = us_id u,
                      cr_scopes = sr_scopes req, cr_audiences = sr_audiences req, cr_mode = mode,
                      cr_auth_req_id = (if ping then Some auth_req_id else None),
                      cr_notification_token = (if ping then sr_notification_token req else None),
                      cr_interval_secs = CIBA_INTERVAL_SECS, cr_issued_at = now, cr_expires_at = expires_at,
                      cr_status = Pending, cr_last_poll_at = None\<rparr>;
               row = \<lparr>cw_id = row_id, cw_tenant = tn_id tn, cw_client = cl_id c, cw_user = us_id u, cw_hash = h,
                      cw_scopes = sr_scopes req, cw_binding_message = sr_binding_message req,
                      cw_acr_values = sr_acr_values req, cw_delivery_mode = mode, cw_expires_at = expires_at,
                      cw_status = ''pending'', cw_decided_at = None, cw_consumed_at = None\<rparr>
           in (Inr \<lparr>ak_auth_req_id = auth_req_id, ak_expires_in = sr_expiry_secs req, ak_interval = CIBA_INTERVAL_SECS\<rparr>,
               \<lparr>cb_kv = kv_set_ex now (sr_expiry_secs req) (tn_id tn, h) rec (cb_kv st), cb_rows = cb_rows st @ [row]\<rparr>)))"

definition decide_ciba ::
  "instant \<Rightarrow> instant \<Rightarrow> uuid \<Rightarrow> uuid \<Rightarrow> uuid \<Rightarrow> ciba_approval option \<Rightarrow> ciba_state
     \<Rightarrow> (app_error + (uuid \<times> string list) option) \<times> ciba_state" where
  "decide_ciba now dbnow t u i approval st =
     (case pending_hash_for_update dbnow t u i (cb_rows st) of
        None \<Rightarrow> (Inl (NotFound ''backchannel request''), st)
      | Some h \<Rightarrow>
          (case kv_get now (t, h) (cb_kv st) of
             None \<Rightarrow> (Inl (NotFound ''backchannel request''), st)
           | Some r \<Rightarrow>
               if \<not> (cr_user r = u \<and> cr_status r = Pending \<and> \<not> cr_is_expired r now) then
                 (Inl (NotFound ''backchannel request''), st)
               else
                 (let r' = r\<lparr>cr_status := (case approval of Some a \<Rightarrow> Approved a | None \<Rightarrow> Denied)\<rparr>
                  in (Inr (if approval \<noteq> None then Some (cr_client r, cr_scopes r) else None),
                      \<lparr>cb_kv = kv_set_keepttl now (t, h) r' (cb_kv st),
                       cb_rows = repo_decide_ciba dbnow t i (if approval \<noteq> None then ''approved'' else ''denied'') (cb_rows st)\<rparr>))))"

definition ciba_too_soon :: "instant \<Rightarrow> ciba_record \<Rightarrow> bool" where
  "ciba_too_soon now r =
     (case cr_last_poll_at r of None \<Rightarrow> False | Some l \<Rightarrow> num_seconds (now - l) < as_i64 (cr_interval_secs r))"

text \<open>As for the device grant, what follows the load is a step of its own.\<close>

definition ciba_poll_loaded ::
  "instant \<Rightarrow> instant \<Rightarrow> uuid \<Rightarrow> string \<Rightarrow> ciba_record \<Rightarrow> ciba_state
     \<Rightarrow> (ciba_record, ciba_approval) poll option \<times> ciba_state" where
  "ciba_poll_loaded now dbnow t h r st =
     (if cr_is_expired r now then (Some PollExpired, st\<lparr>cb_kv := kv_del (t, h) (cb_kv st)\<rparr>)
      else case cr_status r of
        Pending \<Rightarrow>
          (let soon = ciba_too_soon now r;
               r' = r\<lparr>cr_interval_secs := (if soon then cr_interval_secs r + CIBA_SLOW_DOWN_STEP_SECS else cr_interval_secs r),
                      cr_last_poll_at := Some now\<rparr>
           in (Some (if soon then PollSlowDown else PollPending), st\<lparr>cb_kv := kv_set_keepttl now (t, h) r' (cb_kv st)\<rparr>))
      | Denied \<Rightarrow> (Some PollDenied, st\<lparr>cb_kv := kv_del (t, h) (cb_kv st)\<rparr>)
      | Approved a \<Rightarrow>
          (let (taken, kv') = kv_getdel now (t, h) (cb_kv st)
           in if taken = None then (None, st\<lparr>cb_kv := kv'\<rparr>)
              else (Some (PollApproved r a), \<lparr>cb_kv = kv', cb_rows = repo_consume_ciba dbnow t (cr_id r) (cb_rows st)\<rparr>)))"

definition ciba_poll_load ::
  "library \<Rightarrow> instant \<Rightarrow> uuid \<Rightarrow> uuid \<Rightarrow> string \<Rightarrow> ciba_state \<Rightarrow> ciba_record option" where
  "ciba_poll_load lib now t c auth_req_id st =
     (if auth_req_id = [] \<or> 128 < length auth_req_id then None
      else case kv_get now (t, hash_b64 lib auth_req_id) (cb_kv st) of
        None \<Rightarrow> None
      | Some r \<Rightarrow> if cr_client r \<noteq> c then None else Some r)"

definition poll_ciba ::
  "library \<Rightarrow> instant \<Rightarrow> instant \<Rightarrow> uuid \<Rightarrow> uuid \<Rightarrow> string \<Rightarrow> ciba_state
     \<Rightarrow> (ciba_record, ciba_approval) poll option \<times> ciba_state" where
  "poll_ciba lib now dbnow t c auth_req_id st =
     (case ciba_poll_load lib now t c auth_req_id st of
        None \<Rightarrow> (None, st)
      | Some r \<Rightarrow> ciba_poll_loaded now dbnow t (hash_b64 lib auth_req_id) r st)"

section \<open>The endpoint\<close>

text \<open>
  The server's parts a backchannel request reaches. \<open>be_alnum\<close> is \<open>char::is_alphanumeric\<close>,
  \<open>be_users\<close> the rows of the users table.
\<close>

record ('net, 'ip) bc_env = "('net, 'ip) auth_env" +
  be_dir :: directory
  be_users :: "user list"
  be_alnum :: "string \<Rightarrow> bool"

record bc_state =
  bc_auth :: auth_store
  bc_tokens :: token_state
  bc_sessions :: auth_state
  bc_ciba :: ciba_state

definition unknown_user :: oauth_error where
  "unknown_user = oauth_err UnknownUserId ''the hint does not name a user who can be asked''"

definition find_by_identifier :: "(string \<Rightarrow> string) \<Rightarrow> user list \<Rightarrow> uuid \<Rightarrow> string \<Rightarrow> user option" where
  "find_by_identifier lc users t identifier =
     (let ident = lc (trim identifier)
      in find (\<lambda>u. us_tenant u = t \<and> (us_username u = ident \<or> us_email u = Some ident) \<and> us_deleted_at u = None) users)"

definition issued_to :: "client \<Rightarrow> json option \<Rightarrow> bool" where
  "issued_to c aud =
     (case aud of
        Some (JStr a) \<Rightarrow> a = cl_client_id c
      | Some (JArr xs) \<Rightarrow> JStr (cl_client_id c) \<in> set xs
      | _ \<Rightarrow> False)"

definition user_may_be_asked :: "instant \<Rightarrow> user \<Rightarrow> bool" where
  "user_may_be_asked now u = (us_status u = UserActive \<and> us_deleted_at u = None \<and> \<not> is_locked_now now u)"

definition hinted_user ::
  "('net, 'ip) bc_env \<Rightarrow> instant \<Rightarrow> tenant \<Rightarrow> client \<Rightarrow> string \<Rightarrow> bc_state \<Rightarrow> (oauth_error + user option) \<times> bc_state" where
  "hinted_user env now tn c hint st =
     (case verify_jwt (ae_lib env) (ae_cfg env) now tn hint
             (default_verify_options\<lparr>vo_allow_expired := True, vo_typ := Some ''JWT'', vo_check_denylist := False\<rparr>) (bc_tokens st) of
        Inl e \<Rightarrow> (Inl (oauth_invalid_request ''id_token_hint is not an ID token of this issuer''), st)
      | Inr cs \<Rightarrow>
          if \<not> issued_to c (map_of cs ''aud'') then
            (Inl (oauth_invalid_request ''id_token_hint was not issued to this client''), st)
          else (case subject_user_id (ae_lib env) now tn cs (bc_sessions st) of
                  (i, w) \<Rightarrow> (Inr (Option.bind i (dir_users (be_dir env) (tn_id tn))), st\<lparr>bc_sessions := w\<rparr>)))"

definition resolve_user ::
  "('net, 'ip) bc_env \<Rightarrow> instant \<Rightarrow> tenant \<Rightarrow> client \<Rightarrow> raw_params \<Rightarrow> bc_state \<Rightarrow> (oauth_error + user) \<times> bc_state" where
  "resolve_user env now tn c ps st =
     (case andThen (one ps ''login_hint'') (\<lambda>login_hint.
           andThen (one ps ''id_token_hint'') (\<lambda>id_token_hint.
           andThen (one ps ''login_hint_token'') (\<lambda>login_hint_token.
           andThen (ensure (length (filter (\<lambda>h. h \<noteq> None) [login_hint, id_token_hint, login_hint_token]) = 1)
             (oauth_invalid_request ''exactly one of login_hint, id_token_hint or login_hint_token is required'')) (\<lambda>_.
           andThen (ensure (login_hint_token = None)
             (oauth_invalid_request ''login_hint_token is not supported; use login_hint or id_token_hint'')) (\<lambda>_.
             Inr (login_hint, id_token_hint)))))) of
        Inl e \<Rightarrow> (Inl e, st)
      | Inr (login_hint, id_token_hint) \<Rightarrow>
          (case (case login_hint of
                   Some hint \<Rightarrow>
                     if trim hint = [] \<or> 320 < length hint then (Inl unknown_user, st)
                     else (Inr (find_by_identifier (ae_lowercase env) (be_users env) (tn_id tn) hint), st)
                 | None \<Rightarrow> hinted_user env now tn c (case id_token_hint of None \<Rightarrow> [] | Some h \<Rightarrow> h) st) of
             (Inl e, st1) \<Rightarrow> (Inl e, st1)
           | (Inr u, st1) \<Rightarrow>
               (or_error (Option.bind u (\<lambda>x. if user_may_be_asked now x then Some x else None)) unknown_user, st1)))"

text \<open>\<open>str::parse::<u64>\<close>: digits after an optional plus sign, within range.\<close>

definition parse_u64 :: "string \<Rightarrow> nat option" where
  "parse_u64 s =
     (let ds = (case s of c # r \<Rightarrow> if c = CHR ''+'' then r else s | [] \<Rightarrow> [])
      in if ds = [] \<or> \<not> list_all ascii_digit ds then None
         else let n = read_digits 0 ds in if n < 2 ^ 64 then Some n else None)"

definition requested_expiry :: "string option \<Rightarrow> oauth_error + nat" where
  "requested_expiry v =
     (case v of
        None \<Rightarrow> Inr DEFAULT_EXPIRY_SECS
      | Some s \<Rightarrow> or_error (Option.bind (parse_u64 s) (\<lambda>n. if MIN_EXPIRY_SECS \<le> n \<and> n \<le> MAX_EXPIRY_SECS then Some n else None))
          (oauth_invalid_request (''requested_expiry must be '' @ show_nat MIN_EXPIRY_SECS @ ''-'' @ show_nat MAX_EXPIRY_SECS @ '' seconds'')))"

definition check_notification_token :: "delivery_mode \<Rightarrow> string option \<Rightarrow> oauth_error + unit" where
  "check_notification_token mode token =
     (if mode \<noteq> ModePing then Inr ()
      else case token of
        None \<Rightarrow> Inl (oauth_invalid_request ''client_notification_token is required in ping mode'')
      | Some t \<Rightarrow> ensure (\<not> (t = [] \<or> NOTIFICATION_TOKEN_MAX_LEN < length t))
          (oauth_invalid_request ''client_notification_token is empty or too long''))"

text \<open>What the handler reads off the parameters once the client is known.\<close>

definition ciba_request ::
  "('net, 'ip) bc_env \<Rightarrow> tenant \<Rightarrow> client \<Rightarrow> raw_params \<Rightarrow> oauth_error + ciba_start" where
  "ciba_request env tn c ps =
     andThen (ensure (allows_grant c grant_ciba) (oauth_err UnauthorizedClient ''client may not use the CIBA grant'')) (\<lambda>_.
     andThen (one ps ''request'') (\<lambda>request.
     andThen (ensure (request = None) (oauth_invalid_request ''signed authentication requests are not supported'')) (\<lambda>_.
     andThen (one ps ''scope'') (\<lambda>sc.
     let requested = parse_scope_param (case sc of None \<Rightarrow> [] | Some s \<Rightarrow> s)
     in andThen (ensure (requested \<noteq> []) (oauth_invalid_request ''scope is required'')) (\<lambda>_.
     andThen (validate_request (be_dir env) (tn_id tn) c requested [] True) (\<lambda>checked.
     andThen (ensure (''openid'' \<in> set (rq_scopes checked)) (oauth_err InvalidScope ''scope must include openid'')) (\<lambda>_.
     andThen (one ps ''client_notification_token'') (\<lambda>ntoken.
     andThen (check_notification_token (case cl_delivery_mode c of None \<Rightarrow> ModePoll | Some m \<Rightarrow> m) ntoken) (\<lambda>_.
     andThen (one ps ''binding_message'') (\<lambda>msg.
     andThen (ensure (case msg of None \<Rightarrow> True | Some m \<Rightarrow> valid_binding_message (be_alnum env) m)
       (oauth_err InvalidBindingMessage (''binding_message must be 1-'' @ show_nat BINDING_MESSAGE_MAX_CHARS
          @ '' letters, digits, spaces or -_.:#''))) (\<lambda>_.
     andThen (one ps ''requested_expiry'') (\<lambda>ex.
     andThen (requested_expiry ex) (\<lambda>expiry.
     andThen (one ps ''acr_values'') (\<lambda>acr.
     andThen (requested_resources (ae_lib env) (be_dir env) (tn_id tn) c ps) (\<lambda>audiences.
       Inr \<lparr>sr_scopes = rq_scopes checked,
            sr_audiences = with_bound_audiences audiences (cl_allowed_audiences c) (rq_bound_audiences checked),
            sr_binding_message = msg,
            sr_acr_values = (case acr of None \<Rightarrow> [] | Some v \<Rightarrow> filter (\<lambda>s. s \<noteq> []) (split_on (CHR '' '') v)),
            sr_notification_token = ntoken, sr_expiry_secs = expiry\<rparr>)))))))))))))))"

definition token_endpoint :: "config \<Rightarrow> tenant \<Rightarrow> string" where
  "token_endpoint cfg tn = issuer cfg tn @ ''/token''"

definition handle_ciba ::
  "('net, 'ip) bc_env \<Rightarrow> instant \<Rightarrow> int \<Rightarrow> string \<Rightarrow> uuid \<Rightarrow> tenant \<Rightarrow> headers \<Rightarrow> string \<Rightarrow> 'ip option \<Rightarrow> 'ip client_cert option
     \<Rightarrow> bc_state \<Rightarrow> (oauth_error + acknowledgement) \<times> bc_state" where
  "handle_ciba env now r auth_req_id row_id tn hs body ip cert st =
     (let ps = raw_params (ae_lib env) body
      in case authenticate (auth_env.truncate env) now r tn hs ps (token_endpoint (ae_cfg env) tn) ip cert (bc_auth st) of
           (Inl e, au) \<Rightarrow> (Inl e, st\<lparr>bc_auth := au\<rparr>)
         | (Inr (c, _), au) \<Rightarrow>
             (let st1 = st\<lparr>bc_auth := au\<rparr>
              in case ciba_request env tn c ps of
                   Inl e \<Rightarrow> (Inl e, st1)
                 | Inr req \<Rightarrow>
                     (case resolve_user env now tn c ps st1 of
                        (Inl e, st2) \<Rightarrow> (Inl e, st2)
                      | (Inr u, st2) \<Rightarrow>
                          if MAX_PENDING_PER_USER \<le> count_pending now (tn_id tn) (us_id u) (cb_rows (bc_ciba st2)) then
                            (Inl (oauth_err AccessDenied ''too many requests are already waiting on this user''), st2)
                          else (case start (ae_lib env) now auth_req_id row_id tn c u req (bc_ciba st2) of
                                  (Inl e, cs) \<Rightarrow> (Inl (oauth_of_app_error e), st2\<lparr>bc_ciba := cs\<rparr>)
                                | (Inr ack, cs) \<Rightarrow> (Inr ack, st2\<lparr>bc_ciba := cs\<rparr>)))))"

section \<open>Lemmas\<close>

lemma ciba_poll_loaded_gone:
  assumes "ciba_poll_loaded now dbnow t h r st = (Some p, st')" "p \<noteq> PollPending" "p \<noteq> PollSlowDown"
  shows "cb_kv st' (t, h) = None"
  using assms
  by (auto simp: ciba_poll_loaded_def kv_getdel_def Let_def split: if_splits grant_status.splits)

lemma ciba_poll_loaded_other: "k \<noteq> (t, h) \<Longrightarrow> cb_kv (snd (ciba_poll_loaded now dbnow t h r st)) k = cb_kv st k"
  by (simp add: ciba_poll_loaded_def kv_getdel_def Let_def split: grant_status.split)

interpretation ciba: polled_grant
  "\<lambda>now rid. poll_ciba lib now now t c rid" "\<lambda>rid st. cb_kv st (t, hash_b64 lib rid) = None" for lib t c
proof
  fix rid st now
  show "cb_kv st (t, hash_b64 lib rid) = None \<Longrightarrow> poll_ciba lib now now t c rid st = (None, st)"
    by (simp add: poll_ciba_def ciba_poll_load_def)
next
  fix rid st now p st'
  show "poll_ciba lib now now t c rid st = (Some p, st') \<Longrightarrow> p \<noteq> PollPending \<Longrightarrow> p \<noteq> PollSlowDown \<Longrightarrow>
      cb_kv st' (t, hash_b64 lib rid) = None"
    by (auto simp: poll_ciba_def dest: ciba_poll_loaded_gone split: option.splits)
next
  fix rid rid' now and st :: ciba_state
  assume "rid' \<noteq> rid" "cb_kv st (t, hash_b64 lib rid') = None"
  then show "cb_kv (snd (poll_ciba lib now now t c rid st)) (t, hash_b64 lib rid') = None"
    by (cases "hash_b64 lib rid' = hash_b64 lib rid")
       (auto simp: poll_ciba_def ciba_poll_load_def ciba_poll_loaded_other split: option.split)
qed

lemma find_append_new: "find P xs = None \<Longrightarrow> P y \<Longrightarrow> find P (xs @ [y]) = Some y"
  by (induction xs) (auto split: if_splits)

text \<open>Only \<open>start\<close> adds to what waits on a user.\<close>

lemma count_pending_mono: "now \<le> later \<Longrightarrow> count_pending later t u rows \<le> count_pending now t u rows"
  by (induction rows) (auto simp: count_pending_def row_pending_def)

lemma count_pending_update:
  assumes "\<And>r. row_pending now t u (f r) \<Longrightarrow> row_pending now t u r"
  shows "count_pending now t u (update_where p f rows) \<le> count_pending now t u rows"
  using assms by (induction rows) (auto simp: count_pending_def le_SucI)

lemma count_pending_poll: "count_pending now t u (cb_rows (snd (poll_ciba lib n d t' c rid st))) \<le> count_pending now t u (cb_rows st)"
  by (auto simp: poll_ciba_def ciba_poll_loaded_def Let_def kv_getdel_def repo_consume_ciba_def
      split: option.split grant_status.split intro!: count_pending_update) (simp_all add: row_pending_def)

lemma count_pending_decide: "count_pending now t u (cb_rows (snd (decide_ciba n d t' u' i a st))) \<le> count_pending now t u (cb_rows st)"
  by (auto simp: decide_ciba_def Let_def repo_decide_ciba_def split: option.split intro!: count_pending_update)
    (simp_all add: row_pending_def split: if_splits)

lemma count_pending_start:
  "count_pending now t u (cb_rows (snd (start lib now rid i tn c us req st))) \<le>
     count_pending now t u (cb_rows st) + (if t = tn_id tn \<and> u = us_id us then 1 else 0)"
  by (auto simp: start_def Let_def count_pending_def row_pending_def split: option.split)

lemma hinted_user_ciba: "bc_ciba (snd (hinted_user env now tn c h st)) = bc_ciba st"
  by (simp add: hinted_user_def split: sum.split prod.split)

lemma resolve_user_ciba: "bc_ciba (snd (resolve_user env now tn c ps st)) = bc_ciba st"
  using hinted_user_ciba [of env now tn c _ st]
  by (auto simp: resolve_user_def split: sum.splits prod.splits option.splits) (metis snd_conv)+

lemma handle_ciba_opens:
  "bc_ciba (snd (handle_ciba env now r rid i tn hs body ip cert st)) = bc_ciba st \<or>
   (\<exists>c u req. bc_ciba (snd (handle_ciba env now r rid i tn hs body ip cert st)) = snd (start (ae_lib env) now rid i tn c u req (bc_ciba st)) \<and>
      count_pending now (tn_id tn) (us_id u) (cb_rows (bc_ciba st)) < MAX_PENDING_PER_USER)"
proof -
  let ?ps = "raw_params (ae_lib env) body"
  obtain res au where a: "authenticate (auth_env.truncate env) now r tn hs ?ps (token_endpoint (ae_cfg env) tn) ip cert (bc_auth st) = (res, au)"
    by (cases "authenticate (auth_env.truncate env) now r tn hs ?ps (token_endpoint (ae_cfg env) tn) ip cert (bc_auth st)")
  show ?thesis
  proof (cases res)
    case (Inl e)
    then show ?thesis by (simp add: handle_ciba_def a)
  next
    case res: (Inr cm)
    obtain c m where cm: "cm = (c, m)" by (cases cm)
    show ?thesis
    proof (cases "ciba_request env tn c ?ps")
      case (Inl e)
      then show ?thesis by (simp add: handle_ciba_def a res cm)
    next
      case req: (Inr req)
      obtain u st2 where u: "resolve_user env now tn c ?ps (st\<lparr>bc_auth := au\<rparr>) = (u, st2)"
        by (cases "resolve_user env now tn c ?ps (st\<lparr>bc_auth := au\<rparr>)")
      have same: "bc_ciba st2 = bc_ciba st"
        using resolve_user_ciba [of env now tn c ?ps "st\<lparr>bc_auth := au\<rparr>"] u by simp
      show ?thesis
      proof (cases u)
        case (Inl e)
        then show ?thesis using same by (simp add: handle_ciba_def a res cm req u)
      next
        case us: (Inr x)
        show ?thesis
        proof (cases "MAX_PENDING_PER_USER \<le> count_pending now (tn_id tn) (us_id x) (cb_rows (bc_ciba st2))")
          case True
          then show ?thesis using same by (simp add: handle_ciba_def a res cm req u us)
        next
          case False
          have "bc_ciba (snd (handle_ciba env now r rid i tn hs body ip cert st)) = snd (start (ae_lib env) now rid i tn c x req (bc_ciba st))"
            using False by (simp add: handle_ciba_def a res cm req u us same split: prod.split sum.split)
          then show ?thesis using False same by (metis not_le)
        qed
      qed
    qed
  qed
qed

lemma handle_ciba_pending:
  assumes "count_pending now t u (cb_rows (bc_ciba st)) \<le> MAX_PENDING_PER_USER"
  shows "count_pending now t u (cb_rows (bc_ciba (snd (handle_ciba env now r rid i tn hs body ip cert st)))) \<le> MAX_PENDING_PER_USER"
  using handle_ciba_opens [of env now r rid i tn hs body ip cert st]
proof
  assume "\<exists>c us req. bc_ciba (snd (handle_ciba env now r rid i tn hs body ip cert st)) = snd (start (ae_lib env) now rid i tn c us req (bc_ciba st)) \<and>
      count_pending now (tn_id tn) (us_id us) (cb_rows (bc_ciba st)) < MAX_PENDING_PER_USER"
  then obtain c us req where e: "bc_ciba (snd (handle_ciba env now r rid i tn hs body ip cert st)) = snd (start (ae_lib env) now rid i tn c us req (bc_ciba st))"
      "count_pending now (tn_id tn) (us_id us) (cb_rows (bc_ciba st)) < MAX_PENDING_PER_USER" by blast
  show ?thesis unfolding e(1)
    using count_pending_start [of now t u "ae_lib env" rid i tn c us req "bc_ciba st"] e(2) assms by (auto split: if_splits)
qed (use assms in simp)

text \<open>The clock and the endpoints that touch the requests, one after the other.\<close>

inductive ciba_step :: "('net, 'ip) bc_env \<Rightarrow> instant \<times> bc_state \<Rightarrow> instant \<times> bc_state \<Rightarrow> bool"
  for env :: "('net, 'ip) bc_env" where
  waits: "now \<le> later \<Longrightarrow> ciba_step env (now, st) (later, st)"
| opens: "ciba_step env (now, st) (now, snd (handle_ciba env now r rid i tn hs body ip cert st))"
| decides: "ciba_step env (now, st) (now, st\<lparr>bc_ciba := snd (decide_ciba now now t u i a (bc_ciba st))\<rparr>)"
| polls: "ciba_step env (now, st) (now, st\<lparr>bc_ciba := snd (poll_ciba lib now now t c rid (bc_ciba st))\<rparr>)"

definition pending_bounded :: "instant \<times> bc_state \<Rightarrow> bool" where
  "pending_bounded s = (\<forall>t u. count_pending (fst s) t u (cb_rows (bc_ciba (snd s))) \<le> MAX_PENDING_PER_USER)"

interpretation ciba_pending: kept_by_steps "ciba_step env" pending_bounded for env
proof
  fix s s'
  show "ciba_step env s s' \<Longrightarrow> pending_bounded s \<Longrightarrow> pending_bounded s'"
  proof (induction rule: ciba_step.induct)
    case (waits now later st)
    then show ?case using count_pending_mono [OF waits(1)] by (fastforce simp: pending_bounded_def intro: le_trans)
  next
    case (opens now st r rid i tn hs body ip cert)
    then show ?case using handle_ciba_pending unfolding pending_bounded_def fst_conv snd_conv by blast
  next
    case (decides now st t u i a)
    then show ?case using count_pending_decide by (fastforce simp: pending_bounded_def intro: le_trans)
  next
    case (polls now st lib t c rid)
    then show ?case using count_pending_poll by (fastforce simp: pending_bounded_def intro: le_trans)
  qed
qed

section \<open>Properties\<close>

text \<open>
  An approved backchannel request is handed out once, however often the client polls.
\<close>

theorem ciba_approval_handed_out_once:
  "length (filter is_poll_approved (fst (poll_all (\<lambda>now. poll_ciba lib now now t c rid) ts st))) \<le> 1"
  by (rule ciba.approved_at_most_once)

text \<open>
  Never more than five requests wait on one user: in every run of the backchannel
  endpoint, the users' answers and the clients' polls, one after the other and with the
  clock running, every user of every tenant has at most \<open>MAX_PENDING_PER_USER\<close> pending
  requests.
\<close>

theorem ciba_pending_stays_bounded:
  assumes "(ciba_step env)\<^sup>*\<^sup>* (t0, st0) (now, st)" "cb_rows (bc_ciba st0) = []"
  shows "count_pending now t u (cb_rows (bc_ciba st)) \<le> MAX_PENDING_PER_USER"
proof -
  have "pending_bounded (t0, st0)" using assms(2) by (simp add: pending_bounded_def count_pending_def)
  from ciba_pending.run_keeps [OF assms(1) this] show ?thesis by (simp add: pending_bounded_def)
qed

definition ex_bc_env :: "(nat \<times> nat, nat) bc_env" where
  "ex_bc_env = auth_env.extend ex_auth_env \<lparr>be_dir = ex_directory, be_users = [], be_alnum = (\<lambda>c. True)\<rparr>"

definition ex_ciba_state :: ciba_state where
  "ex_ciba_state = \<lparr>cb_kv = Map.empty, cb_rows = []\<rparr>"

definition ex_bc_state :: bc_state where
  "ex_bc_state = \<lparr>bc_auth = ex_auth_store, bc_tokens = ex_token_state, bc_sessions = ex_state [], bc_ciba = ex_ciba_state\<rparr>"

definition ex_bc_opened :: bc_state where
  "ex_bc_opened = snd (handle_ciba ex_bc_env 0 0 ''req-1'' 9 ex_tenant [] ''client_id=app'' None None ex_bc_state)"

theorem ciba_pending_stays_bounded_witness:
  "count_pending 5 1 3 (cb_rows (bc_ciba ex_bc_opened)) \<le> MAX_PENDING_PER_USER"
proof (rule ciba_pending_stays_bounded [of ex_bc_env 0 ex_bc_state 5 ex_bc_opened])
  have "ciba_step ex_bc_env (0, ex_bc_state) (0, ex_bc_opened)" unfolding ex_bc_opened_def by (rule ciba_step.opens)
  moreover have "ciba_step ex_bc_env (0, ex_bc_opened) (5, ex_bc_opened)" by (rule ciba_step.waits) simp
  ultimately show "(ciba_step ex_bc_env)\<^sup>*\<^sup>* (0, ex_bc_state) (5, ex_bc_opened)"
    by (meson converse_rtranclp_into_rtranclp rtranclp.rtrancl_refl)
qed (simp add: ex_bc_state_def ex_ciba_state_def)

text \<open>
  A request that is opened, answered and collected in time hands over what was asked
  for: the client that polls with the identifier it was given, before the request
  expires, is told \<open>approved\<close> with the scopes, audiences and user of its request and the
  approval the user gave.
\<close>

theorem ciba_approval_reaches_client:
  assumes opened: "start lib t0 rid i tn c u req st = (Inr ack, st1)"
    and row: "\<forall>r\<in>set (cb_rows st). cw_id r \<noteq> i"
    and rid: "rid \<noteq> []" "length rid \<le> 128"
    and times: "t0 \<le> t1" "t1 \<le> t2" "t2 < t0 + dur_secs (int (ak_expires_in ack))"
  shows "\<exists>r st2 st3. decide_ciba t1 t1 (tn_id tn) (us_id u) i (Some a) st1 = (Inr (Some (cl_id c, sr_scopes req)), st2) \<and>
    poll_ciba lib t2 t2 (tn_id tn) (cl_id c) rid st2 = (Some (PollApproved r a), st3) \<and>
    cr_scopes r = sr_scopes req \<and> cr_audiences r = sr_audiences req \<and> cr_user r = us_id u \<and> cr_client r = cl_id c"
proof -
  let ?k = "(tn_id tn, hash_b64 lib rid)" and ?e = "t0 + dur_secs (int (sr_expiry_secs req))"
  obtain rec row where st1: "st1 = \<lparr>cb_kv = kv_set_ex t0 (sr_expiry_secs req) ?k rec (cb_kv st), cb_rows = cb_rows st @ [row]\<rparr>"
    and rec: "cr_status rec = Pending" "cr_user rec = us_id u" "cr_client rec = cl_id c" "cr_scopes rec = sr_scopes req"
      "cr_audiences rec = sr_audiences req" "cr_expires_at rec = ?e"
    and r: "cw_id row = i" "cw_hash row = hash_b64 lib rid" "row_pending t1 (tn_id tn) (us_id u) row"
    and ack: "ak_expires_in ack = sr_expiry_secs req"
    using opened times by (auto simp: start_def Let_def row_pending_def split: option.splits)
  have live: "t1 < ?e" "t2 < ?e" using times ack by simp_all
  have none: "find (\<lambda>r. cw_id r = i \<and> row_pending t1 (tn_id tn) (us_id u) r) (cb_rows st) = None"
    using assms(2) by (auto simp: find_None_iff)
  have "find (\<lambda>r. cw_id r = i \<and> row_pending t1 (tn_id tn) (us_id u) r) (cb_rows st @ [row]) = Some row"
    using find_append_new [OF none] r by simp
  then have h: "pending_hash_for_update t1 (tn_id tn) (us_id u) i (cb_rows st1) = Some (hash_b64 lib rid)"
    using r st1 by (simp add: pending_hash_for_update_def)
  have g: "kv_get t1 ?k (cb_kv st1) = Some rec" using live st1 by (simp add: kv_get_at_set_ex)
  define r2 where "r2 = rec\<lparr>cr_status := Approved a\<rparr>"
  define st2 where "st2 = \<lparr>cb_kv = kv_set_keepttl t1 ?k r2 (cb_kv st1), cb_rows = repo_decide_ciba t1 (tn_id tn) i ''approved'' (cb_rows st1)\<rparr>"
  have d: "decide_ciba t1 t1 (tn_id tn) (us_id u) i (Some a) st1 = (Inr (Some (cl_id c, sr_scopes req)), st2)"
    using h g rec live by (simp add: decide_ciba_def st2_def r2_def cr_is_expired_def)
  have "kv_get t2 ?k (cb_kv st2) = Some r2"
    using live by (simp add: st2_def st1 kv_set_keepttl_def kv_entry_def kv_set_ex_def kv_set_until_def kv_get_def)
  then have "\<exists>st3. poll_ciba lib t2 t2 (tn_id tn) (cl_id c) rid st2 = (Some (PollApproved r2 a), st3)"
    using rid rec live by (simp add: poll_ciba_def ciba_poll_load_def ciba_poll_loaded_def cr_is_expired_def r2_def kv_getdel_def Let_def)
  then show ?thesis using d rec by (auto simp: r2_def)
qed

definition ex_ciba_start :: ciba_start where
  "ex_ciba_start = \<lparr>sr_scopes = [''openid''], sr_audiences = [], sr_binding_message = None, sr_acr_values = [],
     sr_notification_token = None, sr_expiry_secs = 600\<rparr>"

definition ex_ciba_approval :: ciba_approval where
  "ex_ciba_approval = \<lparr>ca_user = 3, ca_session = 4, ca_auth_time = 0, ca_amr = [''pwd''], ca_acr = None, ca_org = None\<rparr>"

theorem ciba_approval_reaches_client_witness:
  "\<exists>ack st1 r st2 st3. start ex_library 0 ''req-1'' 9 ex_tenant ex_client ex_user ex_ciba_start ex_ciba_state = (Inr ack, st1) \<and>
    decide_ciba 5 5 1 3 9 (Some ex_ciba_approval) st1 = (Inr (Some (7, [''openid''])), st2) \<and>
    poll_ciba ex_library 7 7 1 7 ''req-1'' st2 = (Some (PollApproved r ex_ciba_approval), st3)"
proof -
  obtain ack st1 where o: "start ex_library 0 ''req-1'' 9 ex_tenant ex_client ex_user ex_ciba_start ex_ciba_state = (Inr ack, st1)"
      "ak_expires_in ack = 600"
    by (simp add: start_def ex_client_def ex_ciba_start_def Let_def)
  have ids: "tn_id ex_tenant = 1" "us_id ex_user = 3" "cl_id ex_client = 7" "sr_scopes ex_ciba_start = [''openid'']"
    by (simp_all add: ex_tenant_def ex_user_def ex_client_def ex_ciba_start_def)
  have rows: "\<forall>r\<in>set (cb_rows ex_ciba_state). cw_id r \<noteq> 9" by (simp add: ex_ciba_state_def)
  have "(7 :: int) < 0 + dur_secs (int (ak_expires_in ack))" by (simp add: o(2) dur_secs_def nanos_per_sec_def)
  from ciba_approval_reaches_client [OF o(1) rows _ _ _ _ this, of 5 ex_ciba_approval] o(1) show ?thesis
    unfolding ids by auto
qed

text \<open>
  A poll acts on the copy it loaded, here too: a decision the user makes between the
  load and the write of a poll is overwritten by the pending copy. The row says decided, so
  it cannot be made again, and the client polls until the request expires.
\<close>

theorem stale_ciba_poll_loses_decision:
  assumes load: "ciba_poll_load lib now t c rid st = Some r"
    and pending: "cr_status r = Pending" "\<not> cr_is_expired r now"
    and decided: "decide_ciba now' dbnow t u i a st = (Inr x, st1)"
    and this_one: "pending_hash_for_update dbnow t u i (cb_rows st) = Some (hash_b64 lib rid)"
    and order: "now \<le> now'"
  shows "\<exists>r2. kv_get now (t, hash_b64 lib rid) (cb_kv (snd (ciba_poll_loaded now dbnow' t (hash_b64 lib rid) r st1))) = Some r2 \<and>
      cr_status r2 = Pending \<and>
    (\<forall>a' now2 dbnow2.
       fst (decide_ciba now2 dbnow2 t u i a' (snd (ciba_poll_loaded now dbnow' t (hash_b64 lib rid) r st1))) = Inl (NotFound ''backchannel request''))"
proof -
  let ?k = "(t, hash_b64 lib rid)"
  from decided this_one obtain r0 r' s where got: "kv_get now' ?k (cb_kv st) = Some r0"
    and st1: "st1 = \<lparr>cb_kv = kv_set_keepttl now' ?k r' (cb_kv st), cb_rows = repo_decide_ciba dbnow t i s (cb_rows st)\<rparr>"
    and s: "s = ''approved'' \<or> s = ''denied''"
    by (auto simp: decide_ciba_def Let_def split: option.splits if_splits)
  then have "kv_get now' ?k (cb_kv st1) = Some r'" by (simp add: kv_get_keepttl_same)
  then have "kv_get now ?k (cb_kv st1) \<noteq> None" using order kv_get_mono_time by fastforce
  then have "\<exists>r2. kv_get now ?k (cb_kv (snd (ciba_poll_loaded now dbnow' t (hash_b64 lib rid) r st1))) = Some r2 \<and> cr_status r2 = Pending"
    using pending by (simp add: ciba_poll_loaded_def kv_get_keepttl_same Let_def)
  moreover have "fst (decide_ciba now2 dbnow2 t u i a' (snd (ciba_poll_loaded now dbnow' t (hash_b64 lib rid) r st1))) = Inl (NotFound ''backchannel request'')"
    for a' now2 dbnow2
  proof -
    have "\<not> (cw_id x = i \<and> row_pending dbnow2 t u x)" if "x \<in> set (repo_decide_ciba dbnow t i s (cb_rows st))" for x
      using that [unfolded repo_decide_ciba_def] s by (cases rule: in_update_whereE) (auto simp: row_pending_def)
    then have "find (\<lambda>r. cw_id r = i \<and> row_pending dbnow2 t u r) (repo_decide_ciba dbnow t i s (cb_rows st)) = None"
      by (simp add: find_None_iff)
    then show ?thesis using pending st1
      by (simp add: decide_ciba_def pending_hash_for_update_def ciba_poll_loaded_def Let_def)
  qed
  ultimately show ?thesis by blast
qed

definition ex_ciba_record :: ciba_record where
  "ex_ciba_record = \<lparr>cr_id = 9, cr_tenant = 1, cr_client = 7, cr_user = 3, cr_scopes = [''openid''], cr_audiences = [],
     cr_mode = ModePoll, cr_auth_req_id = None, cr_notification_token = None, cr_interval_secs = 5, cr_issued_at = 0,
     cr_expires_at = dur_secs 600, cr_status = Pending, cr_last_poll_at = None\<rparr>"

definition ex_ciba_waiting :: ciba_state where
  "ex_ciba_waiting = \<lparr>cb_kv = [(1, hash_b64 ex_library ''req-1'') \<mapsto> (ex_ciba_record, Some (dur_secs 600))],
     cb_rows = [\<lparr>cw_id = 9, cw_tenant = 1, cw_client = 7, cw_user = 3, cw_hash = hash_b64 ex_library ''req-1'',
       cw_scopes = [''openid''], cw_binding_message = None, cw_acr_values = [], cw_delivery_mode = ModePoll,
       cw_expires_at = dur_secs 600, cw_status = ''pending'', cw_decided_at = None, cw_consumed_at = None\<rparr>]\<rparr>"

definition ex_ciba_decided :: ciba_state where
  "ex_ciba_decided = snd (decide_ciba 6 6 1 3 9 (Some ex_ciba_approval) ex_ciba_waiting)"

theorem stale_ciba_poll_loses_decision_witness:
  "\<exists>r2. kv_get 5 (1, hash_b64 ex_library ''req-1'')
      (cb_kv (snd (ciba_poll_loaded 5 7 1 (hash_b64 ex_library ''req-1'') ex_ciba_record ex_ciba_decided))) = Some r2 \<and>
    cr_status r2 = Pending"
proof -
  have parts: "(5 :: int) < dur_secs 600" "(6 :: int) < dur_secs 600" by (simp_all add: dur_secs_def nanos_per_sec_def)
  have hash: "pending_hash_for_update 6 1 3 9 (cb_rows ex_ciba_waiting) = Some (hash_b64 ex_library ''req-1'')"
    using parts by (simp add: pending_hash_for_update_def ex_ciba_waiting_def row_pending_def)
  have load: "ciba_poll_load ex_library 5 1 7 ''req-1'' ex_ciba_waiting = Some ex_ciba_record"
    using parts by (simp add: ciba_poll_load_def ex_ciba_waiting_def kv_get_def kv_entry_def ex_ciba_record_def)
  have decided: "decide_ciba 6 6 1 3 9 (Some ex_ciba_approval) ex_ciba_waiting = (Inr (Some (7, [''openid''])), ex_ciba_decided)"
    unfolding ex_ciba_decided_def decide_ciba_def hash using parts
    by (simp add: ex_ciba_waiting_def kv_get_def kv_entry_def ex_ciba_record_def cr_is_expired_def Let_def)
  have p: "cr_status ex_ciba_record = Pending" "\<not> cr_is_expired ex_ciba_record 5"
    using parts by (simp_all add: ex_ciba_record_def cr_is_expired_def)
  from stale_ciba_poll_loses_decision [OF load p decided hash, of 7] show ?thesis by auto
qed

end
