(* ===== verification/Token_Endpoint.thy ===== *)
theory Token_Endpoint
  imports Device_Codes Ciba Dpop
begin

text \<open>
  The token endpoint (\<open>api/src/oidc/token.rs\<close>) with every grant, and the authorization
  codes it redeems (\<open>api/src/services/auth_codes.rs\<close>). The state is that of the
  components the endpoint reaches: client authentication, proofs, tokens, sessions and
  refresh tokens, device and backchannel requests, codes and what each code produced.
  A request reads the clock once. The caches in front of mappers, resource servers and
  permissions are transparent here (their own theory is \<open>Cache\<close>), and the administrator
  that published events name (\<open>mark_acting\<close>) is not modelled.
\<close>

section \<open>Authorization codes\<close>

definition CODE_TTL_SECS :: nat where "CODE_TTL_SECS = 60"

record auth_code =
  co_tenant :: uuid
  co_client :: uuid
  co_client_public_id :: string
  co_user :: uuid
  co_session :: uuid
  co_redirect_uri :: string
  co_scopes :: "string list"
  co_audiences :: "string list"
  co_nonce :: "string option"
  co_challenge :: "string option"
  co_auth_time :: instant
  co_amr :: "string list"
  co_acr :: "string option"
  co_org :: "uuid option"
  co_acting :: "(json \<times> instant) option"
  co_claims :: "json option"
  co_issued_at :: instant

type_synonym code_store = "(uuid \<times> string, auth_code) kv"

definition issue_code :: "library \<Rightarrow> instant \<Rightarrow> string \<Rightarrow> auth_code \<Rightarrow> code_store \<Rightarrow> string \<times> code_store" where
  "issue_code lib now code r m = (code, kv_set_ex now CODE_TTL_SECS (co_tenant r, hash_b64 lib code) r m)"

definition consume_code :: "library \<Rightarrow> instant \<Rightarrow> uuid \<Rightarrow> string \<Rightarrow> code_store \<Rightarrow> auth_code option \<times> code_store" where
  "consume_code lib now t code m =
     (if code = [] \<or> 128 < length code then (None, m) else kv_getdel now (t, hash_b64 lib code) m)"

section \<open>State\<close>

record code_grant =
  cg_family :: "uuid option"
  cg_jti :: "string option"
  cg_expires_at :: instant

record te_state =
  te_auth :: auth_store
  te_proofs :: "(string, string) kv"
  te_tokens :: token_state
  te_sessions :: auth_state
  te_device :: device_state
  te_ciba :: ciba_state
  te_codes :: code_store
  te_grants :: "(uuid \<times> string, code_grant) kv"

text \<open>\<open>te_policy\<close>: the session policy of a tenant, as the refresh service reads it again.\<close>

record ('net, 'ip) te_env = "('net, 'ip) bc_env" +
  te_policy :: "uuid \<Rightarrow> session_policy option"

text \<open>Fresh inputs of one request: the access and ID token, the refresh token and its family.\<close>

record te_fresh =
  fe_token :: token_fresh
  fe_refresh :: fresh
  fe_family :: uuid

record token_response =
  rp_access_token :: string
  rp_token_type :: string
  rp_issued_token_type :: "string option"
  rp_expires_in :: int
  rp_refresh_token :: "string option"
  rp_id_token :: "string option"
  rp_scope :: "string option"

definition token_type_access :: string where "token_type_access = ''urn:ietf:params:oauth:token-type:access_token''"
definition token_type_jwt :: string where "token_type_jwt = ''urn:ietf:params:oauth:token-type:jwt''"

section \<open>Subject\<close>

record subject =
  sj_user :: user
  sj_roles :: "role list"
  sj_groups :: "group list"

definition load_subject :: "directory \<Rightarrow> uuid \<Rightarrow> uuid \<Rightarrow> uuid option \<Rightarrow> oauth_error + subject" where
  "load_subject dir t uid org =
     andThen (or_error (dir_users dir t uid) (oauth_err InvalidGrant ''user no longer exists'')) (\<lambda>u.
     andThen (ensure (us_status u = UserActive) (oauth_err InvalidGrant ''user is not active'')) (\<lambda>_.
       Inr \<lparr>sj_user = u, sj_roles = dir_roles dir t uid org, sj_groups = dir_groups dir t uid\<rparr>))"

text \<open>The subject where the grant names one.\<close>

definition load_optional :: "directory \<Rightarrow> uuid \<Rightarrow> uuid option \<Rightarrow> uuid option \<Rightarrow> oauth_error + subject option" where
  "load_optional dir t uid org =
     (case uid of None \<Rightarrow> Inr None | Some u \<Rightarrow> andThen (load_subject dir t u org) (\<lambda>s. Inr (Some s)))"

definition role_ids :: "subject option \<Rightarrow> uuid list" where
  "role_ids s = (case s of None \<Rightarrow> [] | Some x \<Rightarrow> map ro_id (sj_roles x))"

section \<open>Audience\<close>

record audience =
  ad_audiences :: "string list"
  ad_ttl_override :: "nat option"
  ad_permissions :: "string list"
  ad_resources :: "uuid list"
  ad_offline_allowed :: bool
  ad_signing_alg :: "signing_alg option"

fun agree :: "(signing_alg \<times> string) option \<Rightarrow> (string \<times> string option) list \<Rightarrow> oauth_error + (signing_alg \<times> string) option" where
  "agree agreed [] = Inr agreed"
| "agree agreed ((ident, None) # ws) = agree agreed ws"
| "agree agreed ((ident, Some name) # ws) =
     (case parse_alg name of
        None \<Rightarrow> Inl (oauth_err ServerError (''resource `'' @ ident @ ''` has an unsupported signing algorithm''))
      | Some alg \<Rightarrow>
          (case agreed of
             None \<Rightarrow> agree (Some (alg, ident)) ws
           | Some (a, first) \<Rightarrow>
               if a \<noteq> alg then
                 Inl (oauth_err InvalidTarget (''resources `'' @ first @ ''` ('' @ alg_as_str a @ '') and `'' @ ident @ ''` (''
                   @ alg_as_str alg @ '') need tokens signed with different algorithms; request them separately''))
               else agree agreed ws))"

definition agreed_signing_alg :: "(string \<times> string option) list \<Rightarrow> oauth_error + signing_alg option" where
  "agreed_signing_alg wanted = andThen (agree None wanted) (\<lambda>a. Inr (map_option fst a))"

definition no_audience :: audience where
  "no_audience = \<lparr>ad_audiences = [], ad_ttl_override = None, ad_permissions = [], ad_resources = [],
     ad_offline_allowed = True, ad_signing_alg = None\<rparr>"

definition shorter_ttl :: "int option \<Rightarrow> nat option \<Rightarrow> nat option" where
  "shorter_ttl ttl cur =
     (case ttl of None \<Rightarrow> cur
      | Some s \<Rightarrow> let n = nat (max s 1) in Some (case cur of None \<Rightarrow> n | Some t \<Rightarrow> min t n))"

definition with_resource :: "directory \<Rightarrow> uuid \<Rightarrow> uuid list \<Rightarrow> resource_server \<Rightarrow> audience \<Rightarrow> audience" where
  "with_resource dir t roles rs a =
     \<lparr>ad_audiences = ad_audiences a @ [rs_identifier rs],
      ad_ttl_override = shorter_ttl (rs_token_ttl rs) (ad_ttl_override a),
      ad_permissions = (if roles = [] then ad_permissions a
        else push_all_new (dir_permissions dir t (rs_id rs) roles) (ad_permissions a)),
      ad_resources = ad_resources a @ [rs_id rs],
      ad_offline_allowed = (ad_offline_allowed a \<and> rs_allow_offline_access rs),
      ad_signing_alg = ad_signing_alg a\<rparr>"

fun resolve_each ::
  "directory \<Rightarrow> uuid \<Rightarrow> client \<Rightarrow> uuid list \<Rightarrow> string list \<Rightarrow> audience \<times> (string \<times> string option) list
     \<Rightarrow> oauth_error + audience \<times> (string \<times> string option) list" where
  "resolve_each dir t c roles [] acc = Inr acc"
| "resolve_each dir t c roles (ident # is) (a, algs) =
     (case find_resource dir t ident of
        None \<Rightarrow> Inl (oauth_err InvalidTarget (''unknown resource `'' @ ident @ ''`''))
      | Some rs \<Rightarrow>
          if \<not> may_target c ident (rs_built_in rs) then
            Inl (oauth_err InvalidTarget (''resource `'' @ ident @ ''` is not allowed for this client''))
          else resolve_each dir t c roles is
                 (with_resource dir t roles rs a, algs @ [(rs_identifier rs, rs_signing_alg rs)]))"

definition resolve_audience ::
  "directory \<Rightarrow> uuid \<Rightarrow> client \<Rightarrow> string list \<Rightarrow> uuid list \<Rightarrow> oauth_error + audience" where
  "resolve_audience dir t c requested roles =
     (let wanted = (if requested = [] then cl_allowed_audiences c else requested)
      in if wanted = [] then Inr no_audience
         else andThen (resolve_each dir t c roles wanted (no_audience, [])) (\<lambda>(a, algs).
              andThen (agreed_signing_alg algs) (\<lambda>alg. Inr (a\<lparr>ad_signing_alg := alg\<rparr>))))"

section \<open>Issuance\<close>

record issue_spec =
  iu_tenant :: tenant
  iu_client :: client
  iu_subject :: "subject option"
  iu_scopes :: "string list"
  iu_audience :: audience
  iu_session :: "uuid option"
  iu_auth_time :: "instant option"
  iu_amr :: "string list"
  iu_acr :: "string option"
  iu_org :: "uuid option"
  iu_nonce :: "string option"
  iu_refresh :: bool
  iu_code_hash :: "string option"
  iu_proof :: sender_proof
  iu_act :: "json option"
  iu_not_after :: "instant option"

definition token_client_for :: "library \<Rightarrow> directory \<Rightarrow> issue_spec \<Rightarrow> oauth_error + token_client" where
  "token_client_for lib dir i =
     (let c = iu_client i; tn = iu_tenant i; a = iu_audience i;
          tc = token_client_of lib c tn (dir_mappers dir (tn_id tn) (cl_id c));
          with_alg = (case ad_signing_alg a of
             None \<Rightarrow> Inr tc
           | Some alg \<Rightarrow>
               if is_fapi2 c \<and> \<not> allows_signing alg then
                 Inl (oauth_err InvalidTarget (''the resource server asks for '' @ alg_as_str alg
                   @ '' tokens, which the FAPI 2.0 profile does not allow''))
               else Inr (tc\<lparr>tc_access_token_alg := Some alg\<rparr>))
      in andThen with_alg (\<lambda>tc1.
           let tc2 = (case ad_ttl_override a of None \<Rightarrow> tc1 | Some ttl \<Rightarrow> tc1\<lparr>tc_access_token_ttl := ttl\<rparr>)
           in Inr (tc2\<lparr>tc_not_after := iu_not_after i, tc_permissions := ad_permissions a\<rparr>)))"

definition granted_scopes :: "directory \<Rightarrow> issue_spec \<Rightarrow> string list" where
  "granted_scopes dir i =
     granted_for_audience dir (tn_id (iu_tenant i)) (iu_scopes i) (ad_resources (iu_audience i)) (ad_offline_allowed (iu_audience i))"

definition access_request_of :: "directory \<Rightarrow> issue_spec \<Rightarrow> token_client \<Rightarrow> access_request" where
  "access_request_of dir i tc =
     \<lparr>ar_tenant = iu_tenant i, ar_client = tc, ar_user = map_option sj_user (iu_subject i),
      ar_scopes = granted_scopes dir i, ar_audiences = ad_audiences (iu_audience i),
      ar_roles = (case iu_subject i of None \<Rightarrow> [] | Some s \<Rightarrow> sj_roles s),
      ar_groups = (case iu_subject i of None \<Rightarrow> [] | Some s \<Rightarrow> sj_groups s),
      ar_session = iu_session i, ar_auth_time = iu_auth_time i, ar_amr = iu_amr i, ar_acr = iu_acr i,
      ar_org = iu_org i, ar_cnf_jkt = sp_jkt (iu_proof i),
      ar_cnf_x5t = (if cl_certificate_bound (iu_client i) then sp_x5t (iu_proof i) else None),
      ar_act = iu_act i\<rparr>"

definition id_request_of :: "directory \<Rightarrow> instant \<Rightarrow> issue_spec \<Rightarrow> token_client \<Rightarrow> subject \<Rightarrow> string \<Rightarrow> id_request" where
  "id_request_of dir now i tc s at =
     \<lparr>iq_tenant = iu_tenant i, iq_client = tc, iq_user = sj_user s, iq_scopes = granted_scopes dir i,
      iq_roles = sj_roles s, iq_groups = sj_groups s, iq_session = iu_session i,
      iq_auth_time = (case iu_auth_time i of None \<Rightarrow> now | Some a \<Rightarrow> a), iq_org = iu_org i, iq_nonce = iu_nonce i,
      iq_amr = iu_amr i, iq_acr = iu_acr i, iq_access_token = Some at, iq_code = None, iq_act = iu_act i\<rparr>"

definition refresh_ttl :: "instant \<Rightarrow> issue_spec \<Rightarrow> duration" where
  "refresh_ttl now i =
     (let ttl = dur_secs (case cl_refresh_token_ttl (iu_client i) of
            None \<Rightarrow> as_i64 (refresh_token_ttl_secs (tn_session_policy (iu_tenant i))) | Some s \<Rightarrow> max s 1)
      in case iu_not_after i of None \<Rightarrow> ttl | Some until \<Rightarrow> max (min ttl (until - now)) (dur_secs 1))"

definition refresh_request_of :: "directory \<Rightarrow> instant \<Rightarrow> issue_spec \<Rightarrow> issue_request" where
  "refresh_request_of dir now i =
     (let c = iu_client i
      in \<lparr>ir_client = cl_client_id c, ir_user = map_option (us_id \<circ> sj_user) (iu_subject i), ir_session = iu_session i,
          ir_scopes = granted_scopes dir i, ir_audiences = ad_audiences (iu_audience i), ir_ttl = refresh_ttl now i,
          ir_dpop_jkt = (if is_public c then sp_jkt (iu_proof i) else None),
          ir_mtls_x5t = (if is_public c \<and> cl_certificate_bound c then sp_x5t (iu_proof i) else None),
          ir_auth_time = iu_auth_time i, ir_amr = iu_amr i, ir_acr = iu_acr i, ir_org = iu_org i, ir_act = iu_act i\<rparr>)"

text \<open>The ID token of a response whose scopes include \<open>openid\<close> and which has a user.\<close>

definition issue_id_of ::
  "('net, 'ip) te_env \<Rightarrow> instant \<Rightarrow> te_fresh \<Rightarrow> issue_spec \<Rightarrow> token_client \<Rightarrow> string \<Rightarrow> token_state
     \<Rightarrow> (app_error + string option) \<times> token_state" where
  "issue_id_of env now fr i tc at st =
     (case iu_subject i of
        Some s \<Rightarrow>
          if ''openid'' \<in> set (granted_scopes (be_dir env) i) then
            (case issue_id_token (ae_lib env) (ae_cfg env) (be_dir env) now now (fe_token fr)
                    (id_request_of (be_dir env) now i tc s at) st of
               (Inl e, st1) \<Rightarrow> (Inl e, st1)
             | (Inr t, st1) \<Rightarrow> (Inr (Some (it_token t)), st1))
          else (Inr None, st)
      | None \<Rightarrow> (Inr None, st))"

definition issue_refresh_of ::
  "('net, 'ip) te_env \<Rightarrow> instant \<Rightarrow> te_fresh \<Rightarrow> issue_spec \<Rightarrow> auth_state \<Rightarrow> (app_error + issued option) \<times> auth_state" where
  "issue_refresh_of env now fr i w =
     (if iu_refresh i \<and> allows_grant (iu_client i) grant_refresh_token then
        (case issue (hash_b64 (ae_lib env)) now now (fe_refresh fr) (fe_family fr) (tn_id (iu_tenant i))
                (refresh_request_of (be_dir env) now i) w of
           (Inl e, w1) \<Rightarrow> (Inl e, w1)
         | (Inr r, w1) \<Rightarrow> (Inr (Some r), w1))
      else (Inr None, w))"

definition code_grant_of :: "issued_token \<Rightarrow> issued option \<Rightarrow> code_grant" where
  "code_grant_of at refresh =
     \<lparr>cg_family = map_option (rt_family \<circ> is_record) refresh,
      cg_jti = Option.bind (map_of (it_claims at) ''jti'') as_str, cg_expires_at = it_expires_at at\<rparr>"

definition issue_tokens ::
  "('net, 'ip) te_env \<Rightarrow> instant \<Rightarrow> te_fresh \<Rightarrow> issue_spec \<Rightarrow> te_state \<Rightarrow> (oauth_error + token_response) \<times> te_state" where
  "issue_tokens env now fr i st =
     (case token_client_for (ae_lib env) (be_dir env) i of
        Inl e \<Rightarrow> (Inl e, st)
      | Inr tc \<Rightarrow>
          (case issue_access_token (ae_lib env) (ae_cfg env) (be_dir env) now now (fe_token fr)
                  (access_request_of (be_dir env) i tc) (te_tokens st) of
             (Inl e, tk) \<Rightarrow> (Inl (oauth_of_app_error e), st\<lparr>te_tokens := tk\<rparr>)
           | (Inr at, tk) \<Rightarrow>
               (case issue_id_of env now fr i tc (it_token at) tk of
                  (Inl e, tk1) \<Rightarrow> (Inl (oauth_of_app_error e), st\<lparr>te_tokens := tk1\<rparr>)
                | (Inr idt, tk1) \<Rightarrow>
                    (case issue_refresh_of env now fr i (te_sessions st) of
                       (Inl e, w) \<Rightarrow> (Inl (oauth_of_app_error e), st\<lparr>te_tokens := tk1, te_sessions := w\<rparr>)
                     | (Inr refresh, w) \<Rightarrow>
                         (Inr \<lparr>rp_access_token = it_token at,
                               rp_token_type = (if sp_jkt (iu_proof i) \<noteq> None then ''DPoP'' else ''Bearer''),
                               rp_issued_token_type = None,
                               rp_expires_in = max 1 (num_seconds (it_expires_at at - now)),
                               rp_refresh_token = map_option is_token refresh, rp_id_token = idt,
                               rp_scope = Some (join '' '' (granted_scopes (be_dir env) i))\<rparr>,
                          st\<lparr>te_tokens := tk1, te_sessions := w,
                             te_grants := (case iu_code_hash i of
                                None \<Rightarrow> te_grants st
                              | Some h \<Rightarrow> kv_set_ex now 600 (tn_id (iu_tenant i), h) (code_grant_of at refresh) (te_grants st))\<rparr>)))))"

section \<open>Grants\<close>

text \<open>The grant ends in an issuance once its subject and audience are known.\<close>

definition finish ::
  "('net, 'ip) te_env \<Rightarrow> instant \<Rightarrow> te_fresh \<Rightarrow> oauth_error + issue_spec \<Rightarrow> te_state \<Rightarrow> (oauth_error + token_response) \<times> te_state" where
  "finish env now fr spec st = (case spec of Inl e \<Rightarrow> (Inl e, st) | Inr i \<Rightarrow> issue_tokens env now fr i st)"

definition or_granted :: "string list \<Rightarrow> string list \<Rightarrow> string list" where
  "or_granted extra granted = (if extra = [] then granted else extra)"

text \<open>\<open>x as u64\<close> of an \<open>i64\<close>.\<close>

definition as_u64 :: "int \<Rightarrow> nat" where
  "as_u64 x = nat (x mod 2 ^ 64)"

definition code_checks ::
  "library \<Rightarrow> instant \<Rightarrow> uuid \<Rightarrow> client \<Rightarrow> string option \<Rightarrow> string option \<Rightarrow> auth_code \<Rightarrow> auth_state \<Rightarrow> oauth_error + unit" where
  "code_checks lib now t c redirect_uri verifier r w =
     andThen (ensure (co_client r = cl_id c) (oauth_err InvalidGrant ''code was issued to another client'')) (\<lambda>_.
     andThen (ensure (redirect_uri = Some (co_redirect_uri r)) (oauth_err InvalidGrant ''redirect_uri does not match'')) (\<lambda>_.
     andThen (case (co_challenge r, verifier) of
          (Some challenge, Some v) \<Rightarrow> ensure (verify_s256 lib v challenge) (oauth_err InvalidGrant ''code_verifier does not match'')
        | (Some _, None) \<Rightarrow> Inl (oauth_invalid_request ''code_verifier is required'')
        | (None, Some _) \<Rightarrow> Inl (oauth_invalid_request ''code_verifier without a code_challenge'')
        | (None, None) \<Rightarrow> Inr ()) (\<lambda>_.
     andThen (ensure (as_u64 (num_seconds (now - co_issued_at r)) \<le> CODE_TTL_SECS)
       (oauth_err InvalidGrant ''authorization code expired'')) (\<lambda>_.
       ensure (\<not> repo_is_revoked t (co_session r) w)
         (oauth_err InvalidGrant ''the session this code was issued in has ended'')))))"

text \<open>What the exchange of a valid code asks for.\<close>

definition code_spec ::
  "('net, 'ip) te_env \<Rightarrow> tenant \<Rightarrow> client \<Rightarrow> raw_params \<Rightarrow> sender_proof \<Rightarrow> string \<Rightarrow> auth_code \<Rightarrow> oauth_error + issue_spec" where
  "code_spec env tn c ps proof code r =
     andThen (load_subject (be_dir env) (tn_id tn) (co_user r) (co_org r)) (\<lambda>s.
     andThen (parse_resources (ae_lib env) ps) (\<lambda>extra.
     andThen (case (if co_audiences r = [] then None else find (\<lambda>x. x \<notin> set (co_audiences r)) extra) of
          None \<Rightarrow> Inr ()
        | Some x \<Rightarrow> Inl (oauth_err InvalidTarget (''resource `'' @ x @ ''` was not part of the authorization request''))) (\<lambda>_.
     andThen (resolve_audience (be_dir env) (tn_id tn) c (or_granted extra (co_audiences r)) (role_ids (Some s))) (\<lambda>a.
       Inr \<lparr>iu_tenant = tn, iu_client = c, iu_subject = Some s, iu_scopes = co_scopes r, iu_audience = a,
            iu_session = Some (co_session r), iu_auth_time = Some (co_auth_time r), iu_amr = co_amr r, iu_acr = co_acr r,
            iu_org = co_org r, iu_nonce = co_nonce r, iu_refresh = True, iu_code_hash = Some (hash_b64 (ae_lib env) code),
            iu_proof = proof, iu_act = map_option fst (co_acting r), iu_not_after = map_option snd (co_acting r)\<rparr>))))"

text \<open>A code that is not there any more: what it produced is revoked.\<close>

definition undo_grant :: "instant \<Rightarrow> uuid \<Rightarrow> code_grant \<Rightarrow> te_state \<Rightarrow> te_state" where
  "undo_grant now t g st =
     (let st1 = (case cg_family g of None \<Rightarrow> st
                 | Some f \<Rightarrow> st\<lparr>te_sessions := snd (repo_revoke_family now t f (te_sessions st))\<rparr>)
      in case cg_jti g of None \<Rightarrow> st1 | Some j \<Rightarrow> st1\<lparr>te_tokens := deny now t j (cg_expires_at g) (te_tokens st1)\<rparr>)"

definition replayed :: "library \<Rightarrow> instant \<Rightarrow> uuid \<Rightarrow> string \<Rightarrow> te_state \<Rightarrow> te_state" where
  "replayed lib now t code st =
     (case kv_getdel now (t, hash_b64 lib code) (te_grants st) of
        (g, m) \<Rightarrow> (case g of None \<Rightarrow> st\<lparr>te_grants := m\<rparr> | Some x \<Rightarrow> undo_grant now t x (st\<lparr>te_grants := m\<rparr>)))"

definition authorization_code ::
  "('net, 'ip) te_env \<Rightarrow> instant \<Rightarrow> te_fresh \<Rightarrow> tenant \<Rightarrow> client \<Rightarrow> raw_params \<Rightarrow> sender_proof \<Rightarrow> te_state
     \<Rightarrow> (oauth_error + token_response) \<times> te_state" where
  "authorization_code env now fr tn c ps proof st =
     (case andThen (required ps ''code'') (\<lambda>code.
           andThen (one ps ''redirect_uri'') (\<lambda>redirect_uri.
           andThen (one ps ''code_verifier'') (\<lambda>verifier. Inr (code, redirect_uri, verifier)))) of
        Inl e \<Rightarrow> (Inl e, st)
      | Inr (code, redirect_uri, verifier) \<Rightarrow>
          (case consume_code (ae_lib env) now (tn_id tn) code (te_codes st) of
             (None, m) \<Rightarrow>
               (Inl (oauth_err InvalidGrant ''invalid authorization code''),
                replayed (ae_lib env) now (tn_id tn) code (st\<lparr>te_codes := m\<rparr>))
           | (Some r, m) \<Rightarrow>
               finish env now fr
                 (andThen (code_checks (ae_lib env) now (tn_id tn) c redirect_uri verifier r (te_sessions st)) (\<lambda>_.
                    code_spec env tn c ps proof code r))
                 (st\<lparr>te_codes := m\<rparr>)))"

text \<open>How the answers of a poll read at the endpoint.\<close>

definition poll_answer :: "string \<Rightarrow> ('r, 'a) poll option \<Rightarrow> oauth_error + ('r \<times> 'a)" where
  "poll_answer unknown p =
     (case p of
        None \<Rightarrow> Inl (oauth_err InvalidGrant unknown)
      | Some PollPending \<Rightarrow> Inl (oauth_err_code AuthorizationPending)
      | Some PollSlowDown \<Rightarrow> Inl (oauth_err_code SlowDown)
      | Some PollDenied \<Rightarrow> Inl (oauth_err_code AccessDenied)
      | Some PollExpired \<Rightarrow> Inl (oauth_err_code ExpiredToken)
      | Some (PollApproved r a) \<Rightarrow> Inr (r, a))"

definition device_spec ::
  "('net, 'ip) te_env \<Rightarrow> tenant \<Rightarrow> client \<Rightarrow> raw_params \<Rightarrow> sender_proof \<Rightarrow> device_record \<Rightarrow> approval \<Rightarrow> oauth_error + issue_spec" where
  "device_spec env tn c ps proof r a =
     andThen (load_subject (be_dir env) (tn_id tn) (ap_user a) (ap_org a)) (\<lambda>s.
     andThen (parse_resources (ae_lib env) ps) (\<lambda>extra.
     andThen (resolve_audience (be_dir env) (tn_id tn) c (or_granted extra (dr_audiences r)) (role_ids (Some s))) (\<lambda>aud.
       Inr \<lparr>iu_tenant = tn, iu_client = c, iu_subject = Some s, iu_scopes = ap_scopes a, iu_audience = aud,
            iu_session = Some (ap_session a), iu_auth_time = Some (ap_auth_time a), iu_amr = ap_amr a, iu_acr = ap_acr a,
            iu_org = ap_org a, iu_nonce = None, iu_refresh = True, iu_code_hash = None,
            iu_proof = proof, iu_act = map_option fst (ap_acting a), iu_not_after = map_option snd (ap_acting a)\<rparr>)))"

definition device_grant ::
  "('net, 'ip) te_env \<Rightarrow> instant \<Rightarrow> te_fresh \<Rightarrow> tenant \<Rightarrow> client \<Rightarrow> raw_params \<Rightarrow> sender_proof \<Rightarrow> te_state
     \<Rightarrow> (oauth_error + token_response) \<times> te_state" where
  "device_grant env now fr tn c ps proof st =
     (case required ps ''device_code'' of
        Inl e \<Rightarrow> (Inl e, st)
      | Inr code \<Rightarrow>
          (case poll_device (hash_b64 (ae_lib env)) now now (tn_id tn) (cl_id c) code (te_device st) of
             (p, d) \<Rightarrow> finish env now fr
               (andThen (poll_answer ''invalid device code'' p) (\<lambda>(r, a). device_spec env tn c ps proof r a))
               (st\<lparr>te_device := d\<rparr>)))"

definition backchannel_spec ::
  "('net, 'ip) te_env \<Rightarrow> tenant \<Rightarrow> client \<Rightarrow> sender_proof \<Rightarrow> ciba_record \<Rightarrow> ciba_approval \<Rightarrow> oauth_error + issue_spec" where
  "backchannel_spec env tn c proof r a =
     andThen (load_subject (be_dir env) (tn_id tn) (ca_user a) (ca_org a)) (\<lambda>s.
     andThen (resolve_audience (be_dir env) (tn_id tn) c (cr_audiences r) (role_ids (Some s))) (\<lambda>aud.
       Inr \<lparr>iu_tenant = tn, iu_client = c, iu_subject = Some s, iu_scopes = cr_scopes r, iu_audience = aud,
            iu_session = Some (ca_session a), iu_auth_time = Some (ca_auth_time a), iu_amr = ca_amr a, iu_acr = ca_acr a,
            iu_org = ca_org a, iu_nonce = None, iu_refresh = True, iu_code_hash = None,
            iu_proof = proof, iu_act = None, iu_not_after = None\<rparr>))"

definition backchannel ::
  "('net, 'ip) te_env \<Rightarrow> instant \<Rightarrow> te_fresh \<Rightarrow> tenant \<Rightarrow> client \<Rightarrow> raw_params \<Rightarrow> sender_proof \<Rightarrow> te_state
     \<Rightarrow> (oauth_error + token_response) \<times> te_state" where
  "backchannel env now fr tn c ps proof st =
     (case required ps ''auth_req_id'' of
        Inl e \<Rightarrow> (Inl e, st)
      | Inr rid \<Rightarrow>
          (case poll_ciba (ae_lib env) now now (tn_id tn) (cl_id c) rid (te_ciba st) of
             (p, d) \<Rightarrow> finish env now fr
               (andThen (poll_answer ''invalid auth_req_id'' p) (\<lambda>(r, a). backchannel_spec env tn c proof r a))
               (st\<lparr>te_ciba := d\<rparr>)))"

definition refresh_spec ::
  "('net, 'ip) te_env \<Rightarrow> tenant \<Rightarrow> client \<Rightarrow> sender_proof \<Rightarrow> string list \<Rightarrow> string list option \<Rightarrow> refresh_token
     \<Rightarrow> oauth_error + issue_spec" where
  "refresh_spec env tn c proof extra requested r =
     andThen (load_optional (be_dir env) (tn_id tn) (rt_user r) (rt_org r)) (\<lambda>s.
     andThen (resolve_audience (be_dir env) (tn_id tn) c (or_granted extra (rt_audiences r)) (role_ids s)) (\<lambda>aud.
       Inr \<lparr>iu_tenant = tn, iu_client = c, iu_subject = s,
            iu_scopes = (case requested of None \<Rightarrow> rt_scopes r | Some ss \<Rightarrow> ss), iu_audience = aud,
            iu_session = rt_session r, iu_auth_time = rt_auth_time r, iu_amr = rt_amr r, iu_acr = rt_acr r,
            iu_org = rt_org r, iu_nonce = None, iu_refresh = False, iu_code_hash = None,
            iu_proof = proof, iu_act = rt_act r, iu_not_after = map_option (\<lambda>_. rt_expires_at r) (rt_act r)\<rparr>))"

definition refresh_grant ::
  "('net, 'ip) te_env \<Rightarrow> instant \<Rightarrow> te_fresh \<Rightarrow> tenant \<Rightarrow> client \<Rightarrow> raw_params \<Rightarrow> sender_proof \<Rightarrow> te_state
     \<Rightarrow> (oauth_error + token_response) \<times> te_state" where
  "refresh_grant env now fr tn c ps proof st =
     (case andThen (required ps ''refresh_token'') (\<lambda>presented.
           andThen (parse_resources (ae_lib env) ps) (\<lambda>extra.
           andThen (one ps ''scope'') (\<lambda>sc. Inr (presented, extra, map_option parse_scope_param sc)))) of
        Inl e \<Rightarrow> (Inl e, st)
      | Inr (presented, extra, requested) \<Rightarrow>
          (case redeem (hash_b64 (ae_lib env)) (te_policy env) now now now (fe_refresh fr) (tn_id tn) (cl_client_id c)
                  presented proof extra requested (\<not> is_fapi2 c) (te_sessions st) of
             (Inl e, w) \<Rightarrow> (Inl e, st\<lparr>te_sessions := w\<rparr>)
           | (Inr rotated, w) \<Rightarrow>
               (case finish env now fr (refresh_spec env tn c proof extra requested (is_record rotated)) (st\<lparr>te_sessions := w\<rparr>) of
                  (Inl e, st1) \<Rightarrow> (Inl e, st1)
                | (Inr resp, st1) \<Rightarrow> (Inr (resp\<lparr>rp_refresh_token := Some (is_token rotated)\<rparr>), st1))))"

definition client_credentials_spec ::
  "('net, 'ip) te_env \<Rightarrow> tenant \<Rightarrow> client \<Rightarrow> raw_params \<Rightarrow> sender_proof \<Rightarrow> oauth_error + issue_spec" where
  "client_credentials_spec env tn c ps proof =
     andThen (ensure (\<not> is_public c) (oauth_err UnauthorizedClient ''public clients cannot use client_credentials'')) (\<lambda>_.
     andThen (one ps ''scope'') (\<lambda>sc.
     let requested = parse_scope_param (case sc of None \<Rightarrow> [] | Some x \<Rightarrow> x)
     in andThen (ensure (\<not> list_ex (\<lambda>s. s = ''openid'' \<or> s = ''offline_access'') requested)
          (oauth_err InvalidScope ''openid/offline_access are not valid for client_credentials'')) (\<lambda>_.
     andThen (validate_request (be_dir env) (tn_id tn) c requested [''openid'', ''offline_access''] False) (\<lambda>checked.
     andThen (load_optional (be_dir env) (tn_id tn) (cl_service_account c) None) (\<lambda>s.
     andThen (parse_resources (ae_lib env) ps) (\<lambda>extra.
     andThen (resolve_audience (be_dir env) (tn_id tn) c
        (with_bound_audiences extra (cl_allowed_audiences c) (rq_bound_audiences checked)) (role_ids s)) (\<lambda>aud.
       Inr \<lparr>iu_tenant = tn, iu_client = c, iu_subject = s, iu_scopes = rq_scopes checked, iu_audience = aud,
            iu_session = None, iu_auth_time = None, iu_amr = [], iu_acr = None, iu_org = None, iu_nonce = None,
            iu_refresh = False, iu_code_hash = None, iu_proof = proof, iu_act = None, iu_not_after = None\<rparr>)))))))"

definition client_credentials ::
  "('net, 'ip) te_env \<Rightarrow> instant \<Rightarrow> te_fresh \<Rightarrow> tenant \<Rightarrow> client \<Rightarrow> raw_params \<Rightarrow> sender_proof \<Rightarrow> te_state
     \<Rightarrow> (oauth_error + token_response) \<times> te_state" where
  "client_credentials env now fr tn c ps proof st = finish env now fr (client_credentials_spec env tn c ps proof) st"

section \<open>Token exchange\<close>

definition is_access_type :: "string \<Rightarrow> bool" where
  "is_access_type t = (t = token_type_access \<or> t = token_type_jwt)"

definition typed_right :: "string \<Rightarrow> string \<Rightarrow> bool" where
  "typed_right token kind = (kind = token_type_access \<or> \<not> looks_like token)"

definition exchange_subject_token :: "client \<Rightarrow> raw_params \<Rightarrow> oauth_error + string" where
  "exchange_subject_token c ps =
     andThen (required ps ''subject_token'') (\<lambda>token.
     andThen (required ps ''subject_token_type'') (\<lambda>kind.
     andThen (ensure (is_access_type kind) (oauth_invalid_request ''subject_token_type must be an access token or jwt type'')) (\<lambda>_.
     andThen (one ps ''requested_token_type'') (\<lambda>requested.
     andThen (case requested of
          None \<Rightarrow> Inr ()
        | Some q \<Rightarrow>
            if \<not> is_access_type q then Inl (oauth_invalid_request ''requested_token_type must be an access token or jwt type'')
            else ensure (\<not> (q = token_type_jwt \<and> cl_format c = FormatOpaque))
              (oauth_invalid_request ''this client receives opaque access tokens; request urn:ietf:params:oauth:token-type:access_token'')) (\<lambda>_.
     andThen (ensure (typed_right token kind)
       (oauth_invalid_request ''subject_token is not a JWT; use urn:ietf:params:oauth:token-type:access_token'')) (\<lambda>_.
       Inr token))))))"

definition exchange_binding :: "client \<Rightarrow> sender_proof \<Rightarrow> claims \<Rightarrow> oauth_error + unit" where
  "exchange_binding c proof cs =
     (let cnf = json_index (JObj cs) ''cnf''
      in andThen (case as_str (json_index cnf ''jkt'') of
             None \<Rightarrow> Inr ()
           | Some bound \<Rightarrow> ensure (sp_jkt proof = Some bound)
               (oauth_err InvalidGrant ''subject_token is bound to a key this request did not prove'')) (\<lambda>_.
         case as_str (json_index cnf ''x5t#S256'') of
             None \<Rightarrow> Inr ()
           | Some bound \<Rightarrow> ensure (sp_x5t proof = Some bound \<and> cl_certificate_bound c)
               (oauth_err InvalidGrant (''subject_token is bound to a client certificate: exchange it over a connection ''
                 @ ''with that certificate, as a client registered for certificate-bound tokens''))))"

definition verified_token ::
  "('net, 'ip) te_env \<Rightarrow> instant \<Rightarrow> tenant \<Rightarrow> string \<Rightarrow> string \<Rightarrow> token_state \<Rightarrow> oauth_error + claims" where
  "verified_token env now tn name token tk =
     (case verify_access (ae_lib env) (ae_cfg env) now tn token default_verify_options tk of
        Inl _ \<Rightarrow> Inl (oauth_err InvalidGrant (name @ '' is invalid, expired or revoked''))
      | Inr cs \<Rightarrow> Inr cs)"

definition exchange_actor ::
  "('net, 'ip) te_env \<Rightarrow> instant \<Rightarrow> tenant \<Rightarrow> raw_params \<Rightarrow> token_state \<Rightarrow> oauth_error + claims option" where
  "exchange_actor env now tn ps tk =
     andThen (one ps ''actor_token'') (\<lambda>token.
     andThen (one ps ''actor_token_type'') (\<lambda>kind.
     case (token, kind) of
       (None, None) \<Rightarrow> Inr None
     | (Some t, Some k) \<Rightarrow>
         andThen (ensure (is_access_type k) (oauth_invalid_request ''actor_token_type must be an access token or jwt type'')) (\<lambda>_.
         andThen (ensure (typed_right t k)
           (oauth_invalid_request ''actor_token is not a JWT; use urn:ietf:params:oauth:token-type:access_token'')) (\<lambda>_.
         andThen (verified_token env now tn ''actor_token'' t tk) (\<lambda>cs. Inr (Some cs))))
     | _ \<Rightarrow> Inl (oauth_invalid_request ''actor_token and actor_token_type go together'')))"

definition exchange_scopes :: "client \<Rightarrow> raw_params \<Rightarrow> claims \<Rightarrow> oauth_error + string list" where
  "exchange_scopes c ps cs =
     (let granted = parse_scope_param (case as_str (json_index (JObj cs) ''scope'') of None \<Rightarrow> [] | Some s \<Rightarrow> s)
      in andThen (one ps ''scope'') (\<lambda>sc.
         case sc of
           None \<Rightarrow> Inr (filter (\<lambda>s. s \<in> set (cl_allowed_scopes c)) granted)
         | Some raw \<Rightarrow>
             (let requested = parse_scope_param raw
              in case find (\<lambda>s. s \<notin> set granted) requested of
                   Some extra \<Rightarrow> Inl (oauth_err InvalidScope (''scope `'' @ extra @ ''` is not held by the subject token''))
                 | None \<Rightarrow>
                     (case find (\<lambda>s. s \<notin> set (cl_allowed_scopes c)) requested of
                        Some bad \<Rightarrow> Inl (oauth_err InvalidScope (''scope `'' @ bad @ ''` is not allowed for this client''))
                      | None \<Rightarrow> Inr requested))))"

fun add_audiences :: "string list \<Rightarrow> string list \<Rightarrow> oauth_error + string list" where
  "add_audiences [] out = Inr out"
| "add_audiences (a # as) out =
     (let a' = trim a
      in if a' = [] then Inl (oauth_invalid_request ''audience must not be empty'')
         else add_audiences as (push_new a' out))"

definition exchange_audiences :: "library \<Rightarrow> client \<Rightarrow> raw_params \<Rightarrow> oauth_error + string list" where
  "exchange_audiences lib c ps =
     andThen (parse_resources lib ps) (\<lambda>rs.
     andThen (add_audiences (param_many ps ''audience'') rs) (\<lambda>wanted.
     andThen (ensure (cl_allowed_audiences c \<noteq> []) (oauth_err InvalidTarget ''this client has no audiences it may exchange for'')) (\<lambda>_.
     case find (\<lambda>a. a \<notin> set (cl_allowed_audiences c)) wanted of
       Some a \<Rightarrow> Inl (oauth_err InvalidTarget (''resource `'' @ a @ ''` is not allowed for this client''))
     | None \<Rightarrow> Inr wanted)))"

definition exchange_act :: "claims \<Rightarrow> claims option \<Rightarrow> json option" where
  "exchange_act cs actor =
     map_option (\<lambda>a. JObj (put_opt ''act'' (map_of cs ''act'')
        [(''sub'', json_index (JObj a) ''sub''), (''client_id'', json_index (JObj a) ''client_id'')])) actor"

text \<open>\<open>DateTime::from_timestamp\<close>: the instants \<open>chrono\<close> can hold.\<close>

definition from_timestamp :: "int \<Rightarrow> instant option" where
  "from_timestamp s = (if -8334601228800 \<le> s \<and> s \<le> 8210266876799 then Some (dur_secs s) else None)"

definition claim_uuid :: "library \<Rightarrow> claims \<Rightarrow> string \<Rightarrow> uuid option" where
  "claim_uuid lib cs n = Option.bind (Option.bind (map_of cs n) as_str) (l_parse_uuid lib)"

definition claim_strings :: "claims \<Rightarrow> string \<Rightarrow> string list" where
  "claim_strings cs n = (case as_array (json_index (JObj cs) n) of None \<Rightarrow> [] | Some vs \<Rightarrow> List.map_filter as_str vs)"

definition exchange_spec ::
  "('net, 'ip) te_env \<Rightarrow> instant \<Rightarrow> tenant \<Rightarrow> client \<Rightarrow> raw_params \<Rightarrow> sender_proof \<Rightarrow> claims \<Rightarrow> claims option \<Rightarrow> string list
     \<Rightarrow> uuid option \<Rightarrow> oauth_error + issue_spec" where
  "exchange_spec env now tn c ps proof cs actor scopes uid =
     andThen (load_optional (be_dir env) (tn_id tn) uid (claim_uuid (ae_lib env) cs ''org_id'')) (\<lambda>s.
     andThen (exchange_audiences (ae_lib env) c ps) (\<lambda>wanted.
     andThen (resolve_audience (be_dir env) (tn_id tn) c wanted (role_ids s)) (\<lambda>aud.
       Inr \<lparr>iu_tenant = tn, iu_client = c, iu_subject = s, iu_scopes = scopes, iu_audience = aud,
            iu_session = claim_uuid (ae_lib env) cs ''sid'', iu_auth_time = None, iu_amr = claim_strings cs ''amr'',
            iu_acr = Option.bind (map_of cs ''acr'') as_str, iu_org = claim_uuid (ae_lib env) cs ''org_id'',
            iu_nonce = None, iu_refresh = False, iu_code_hash = None, iu_proof = proof, iu_act = exchange_act cs actor,
            iu_not_after = Some (case Option.bind (Option.bind (map_of cs ''exp'') as_int) from_timestamp of
               None \<Rightarrow> now | Some e \<Rightarrow> e)\<rparr>)))"

definition token_exchange ::
  "('net, 'ip) te_env \<Rightarrow> instant \<Rightarrow> te_fresh \<Rightarrow> tenant \<Rightarrow> client \<Rightarrow> raw_params \<Rightarrow> sender_proof \<Rightarrow> te_state
     \<Rightarrow> (oauth_error + token_response) \<times> te_state" where
  "token_exchange env now fr tn c ps proof st =
     (case andThen (exchange_subject_token c ps) (\<lambda>token.
           andThen (verified_token env now tn ''subject_token'' token (te_tokens st)) (\<lambda>cs.
           andThen (exchange_binding c proof cs) (\<lambda>_.
           andThen (exchange_actor env now tn ps (te_tokens st)) (\<lambda>actor.
           andThen (exchange_scopes c ps cs) (\<lambda>scopes. Inr (cs, actor, scopes)))))) of
        Inl e \<Rightarrow> (Inl e, st)
      | Inr (cs, actor, scopes) \<Rightarrow>
          (case subject_user_id (ae_lib env) now tn cs (te_sessions st) of
             (uid, w) \<Rightarrow>
               (case finish env now fr (exchange_spec env now tn c ps proof cs actor scopes uid) (st\<lparr>te_sessions := w\<rparr>) of
                  (Inl e, st1) \<Rightarrow> (Inl e, st1)
                | (Inr resp, st1) \<Rightarrow> (Inr (resp\<lparr>rp_issued_token_type := Some token_type_access\<rparr>), st1))))"

section \<open>The endpoint\<close>

definition token_proof ::
  "('net, 'ip) te_env \<Rightarrow> instant \<Rightarrow> tenant \<Rightarrow> client \<Rightarrow> headers \<Rightarrow> (string, string) kv
     \<Rightarrow> (oauth_error + string option) \<times> (string, string) kv" where
  "token_proof env now tn c hs m =
     (case dpop_header hs of
        Inl d \<Rightarrow> (Inl (oauth_err InvalidDpopProof d), m)
      | Inr (Some p) \<Rightarrow>
          if is_fapi2 c \<and> \<not> (case l_header (ae_lib env) p of None \<Rightarrow> False | Some (_, _, alg) \<Rightarrow> jws_allowed alg) then
            (Inl (oauth_err InvalidDpopProof ''the FAPI 2.0 profile allows PS256, ES256 or EdDSA proofs only''), m)
          else (case verify_proof (ae_lib env) (ae_usable_key env) now tn p ''POST'' (htu_candidates (ae_cfg env) tn ''/token'') None m of
                  (Inl d, m1) \<Rightarrow> (Inl (oauth_err InvalidDpopProof d), m1)
                | (Inr k, m1) \<Rightarrow> (Inr (Some (pf_jkt k)), m1))
      | Inr None \<Rightarrow>
          if cl_dpop_bound c \<or> (is_fapi2 c \<and> \<not> cl_certificate_bound c) then
            (Inl (oauth_err InvalidDpopProof ''this client must present a DPoP proof''), m)
          else (Inr None, m))"

definition by_grant ::
  "('net, 'ip) te_env \<Rightarrow> instant \<Rightarrow> te_fresh \<Rightarrow> tenant \<Rightarrow> client \<Rightarrow> raw_params \<Rightarrow> sender_proof \<Rightarrow> te_state
     \<Rightarrow> (oauth_error + token_response) \<times> te_state" where
  "by_grant env now fr tn c ps proof st =
     (case required ps ''grant_type'' of
        Inl e \<Rightarrow> (Inl e, st)
      | Inr grant \<Rightarrow>
          if \<not> allows_grant c grant then
            (Inl (if grant \<in> set all_grants then oauth_err UnauthorizedClient (''client may not use grant type `'' @ grant @ ''`'')
                  else oauth_err_code UnsupportedGrantType), st)
          else if grant = grant_authorization_code then authorization_code env now fr tn c ps proof st
          else if grant = grant_refresh_token then refresh_grant env now fr tn c ps proof st
          else if grant = grant_client_credentials then client_credentials env now fr tn c ps proof st
          else if grant = grant_device_code then device_grant env now fr tn c ps proof st
          else if grant = grant_ciba then backchannel env now fr tn c ps proof st
          else if grant = grant_token_exchange then token_exchange env now fr tn c ps proof st
          else (Inl (oauth_err_code UnsupportedGrantType), st))"

definition handle_token ::
  "('net, 'ip) te_env \<Rightarrow> instant \<Rightarrow> int \<Rightarrow> te_fresh \<Rightarrow> tenant \<Rightarrow> headers \<Rightarrow> raw_params \<Rightarrow> 'ip option \<Rightarrow> 'ip client_cert option
     \<Rightarrow> te_state \<Rightarrow> (oauth_error + token_response) \<times> te_state" where
  "handle_token env now r fr tn hs ps ip cert st =
     (case authenticate (auth_env.truncate env) now r tn hs ps (token_endpoint (ae_cfg env) tn) ip cert (te_auth st) of
        (Inl e, au) \<Rightarrow> (Inl e, st\<lparr>te_auth := au\<rparr>)
      | (Inr (c, _), au) \<Rightarrow>
          (case token_proof env now tn c hs (te_proofs st) of
             (Inl e, m) \<Rightarrow> (Inl e, st\<lparr>te_auth := au, te_proofs := m\<rparr>)
           | (Inr jkt, m) \<Rightarrow>
               (let st1 = st\<lparr>te_auth := au, te_proofs := m\<rparr>; x5t = map_option cc_thumbprint cert
                in if cl_certificate_bound c \<and> x5t = None then
                     (Inl (oauth_invalid_request ''this client must present its TLS client certificate''), st1)
                   else by_grant env now fr tn c ps \<lparr>sp_jkt = jkt, sp_x5t = x5t\<rparr> st1)))"

section \<open>Lemmas\<close>

text \<open>What a successful issuance was made of.\<close>

definition issued_by ::
  "('net, 'ip) te_env \<Rightarrow> instant \<Rightarrow> te_fresh \<Rightarrow> issue_spec \<Rightarrow> token_response \<Rightarrow> issued_token \<Rightarrow> bool" where
  "issued_by env now fr i resp at =
     (\<exists>tc tk tk'. token_client_for (ae_lib env) (be_dir env) i = Inr tc \<and>
        issue_access_token (ae_lib env) (ae_cfg env) (be_dir env) now now (fe_token fr)
          (access_request_of (be_dir env) i tc) tk = (Inr at, tk') \<and>
        rp_access_token resp = it_token at \<and>
        rp_token_type resp = (if sp_jkt (iu_proof i) \<noteq> None then ''DPoP'' else ''Bearer''))"

lemma issue_tokens_Inr:
  assumes "issue_tokens env now fr i st = (Inr resp, st')"
  obtains at refresh w where "issued_by env now fr i resp at"
    "issue_refresh_of env now fr i (te_sessions st) = (Inr refresh, w)" "te_sessions st' = w"
    "te_grants st' = (case iu_code_hash i of None \<Rightarrow> te_grants st
       | Some h \<Rightarrow> kv_set_ex now 600 (tn_id (iu_tenant i), h) (code_grant_of at refresh) (te_grants st))"
    "rp_refresh_token resp = map_option is_token refresh"
proof -
  from assms obtain tc where tc: "token_client_for (ae_lib env) (be_dir env) i = Inr tc"
    by (auto simp: issue_tokens_def split: sum.splits)
  from assms tc obtain at tk where at: "issue_access_token (ae_lib env) (ae_cfg env) (be_dir env) now now (fe_token fr)
      (access_request_of (be_dir env) i tc) (te_tokens st) = (Inr at, tk)"
    by (auto simp: issue_tokens_def split: sum.splits prod.splits)
  from assms tc at obtain idt tk1 where idt: "issue_id_of env now fr i tc (it_token at) tk = (Inr idt, tk1)"
    by (auto simp: issue_tokens_def split: sum.splits prod.splits)
  from assms tc at idt obtain refresh w where w: "issue_refresh_of env now fr i (te_sessions st) = (Inr refresh, w)"
    by (auto simp: issue_tokens_def split: sum.splits prod.splits)
  have "issued_by env now fr i resp at" using assms tc at idt w by (auto simp: issue_tokens_def issued_by_def)
  then show thesis using that [of at refresh w] assms tc at idt w by (auto simp: issue_tokens_def)
qed

lemma issue_tokens_codes: "te_codes (snd (issue_tokens env now fr i st)) = te_codes st"
  by (simp add: issue_tokens_def split: sum.split prod.split)

lemma finish_codes: "te_codes (snd (finish env now fr spec st)) = te_codes st"
  by (simp add: finish_def issue_tokens_codes split: sum.split)

lemma finish_keeps_codes: "finish env now fr spec st = (r, st') \<Longrightarrow> te_codes st' = te_codes st"
  using finish_codes [of env now fr spec st] by simp

lemma finish_Inr: "finish env now fr spec st = (Inr resp, st') \<longleftrightarrow> (\<exists>i. spec = Inr i \<and> issue_tokens env now fr i st = (Inr resp, st'))"
  by (auto simp: finish_def split: sum.split)

lemma resolve_each_allowed:
  assumes "resolve_each dir t c roles wanted (a, algs) = Inr (a', algs')"
  shows "ad_audiences a' = ad_audiences a @ wanted \<and>
    (\<forall>x\<in>set wanted. \<exists>rs. find_resource dir t x = Some rs \<and> may_target c x (rs_built_in rs))"
  using assms
proof (induction dir t c roles wanted "(a, algs)" arbitrary: a algs rule: resolve_each.induct)
  case (2 dir t c roles ident idents a algs)
  from 2(2) obtain rs where rs: "find_resource dir t ident = Some rs" "may_target c ident (rs_built_in rs)"
    by (auto split: option.splits if_splits)
  moreover have "rs_identifier rs = ident" using rs(1) by (auto simp: find_resource_def find_Some_iff)
  ultimately show ?case using 2 by (auto simp: with_resource_def)
qed auto

lemma resolve_audience_allowed:
  assumes "resolve_audience dir t c requested roles = Inr a"
  shows "ad_audiences a = (if requested = [] then cl_allowed_audiences c else requested) \<and>
    (\<forall>x\<in>set (ad_audiences a). \<exists>rs. find_resource dir t x = Some rs \<and> may_target c x (rs_built_in rs))"
  using assms
  by (auto simp: resolve_audience_def Let_def andThen_Inr no_audience_def dest!: resolve_each_allowed split: if_splits)

text \<open>Every grant issues for the client that asked, with its proof, and for audiences it may target.\<close>

definition spec_for :: "('net, 'ip) te_env \<Rightarrow> tenant \<Rightarrow> client \<Rightarrow> sender_proof \<Rightarrow> issue_spec \<Rightarrow> bool" where
  "spec_for env tn c proof i =
     (iu_tenant i = tn \<and> iu_client i = c \<and> iu_proof i = proof \<and>
      (\<forall>x\<in>set (ad_audiences (iu_audience i)). \<exists>rs. find_resource (be_dir env) (tn_id tn) x = Some rs \<and> may_target c x (rs_built_in rs)))"

lemmas specs = code_spec_def device_spec_def backchannel_spec_def refresh_spec_def client_credentials_spec_def exchange_spec_def

lemma spec_for_code: "code_spec env tn c ps proof code r = Inr i \<Longrightarrow> spec_for env tn c proof i"
  by (auto simp: code_spec_def andThen_Inr spec_for_def dest!: resolve_audience_allowed)

lemma spec_for_device: "device_spec env tn c ps proof r a = Inr i \<Longrightarrow> spec_for env tn c proof i"
  by (auto simp: device_spec_def andThen_Inr spec_for_def dest!: resolve_audience_allowed)

lemma spec_for_backchannel: "backchannel_spec env tn c proof r a = Inr i \<Longrightarrow> spec_for env tn c proof i"
  by (auto simp: backchannel_spec_def andThen_Inr spec_for_def dest!: resolve_audience_allowed)

lemma spec_for_refresh: "refresh_spec env tn c proof extra requested r = Inr i \<Longrightarrow> spec_for env tn c proof i"
  by (auto simp: refresh_spec_def andThen_Inr spec_for_def dest!: resolve_audience_allowed)

lemma spec_for_client_credentials: "client_credentials_spec env tn c ps proof = Inr i \<Longrightarrow> spec_for env tn c proof i"
  by (auto simp: client_credentials_spec_def Let_def andThen_Inr spec_for_def dest!: resolve_audience_allowed)

lemma spec_for_exchange: "exchange_spec env now tn c ps proof cs actor scopes uid = Inr i \<Longrightarrow> spec_for env tn c proof i"
  by (auto simp: exchange_spec_def andThen_Inr spec_for_def dest!: resolve_audience_allowed)

lemma finish_issued:
  assumes "finish env now fr spec st = (Inr resp, st')"
  obtains i at where "spec = Inr i" "issued_by env now fr i resp at"
  using assms by (auto simp: finish_Inr elim: issue_tokens_Inr)

lemma issued_by_cong:
  "rp_access_token resp' = rp_access_token resp \<Longrightarrow> rp_token_type resp' = rp_token_type resp \<Longrightarrow>
     issued_by env now fr i resp' at = issued_by env now fr i resp at"
  by (simp add: issued_by_def)

lemma authorization_code_Inr:
  assumes "authorization_code env now fr tn c ps proof st = (Inr resp, st')"
  obtains code redirect_uri verifier r i where "one ps ''code'' = Inr (Some code)" "one ps ''redirect_uri'' = Inr redirect_uri"
    "one ps ''code_verifier'' = Inr verifier" "code \<noteq> []" "length code \<le> 128"
    "kv_get now (tn_id tn, hash_b64 (ae_lib env) code) (te_codes st) = Some r"
    "code_checks (ae_lib env) now (tn_id tn) c redirect_uri verifier r (te_sessions st) = Inr ()"
    "code_spec env tn c ps proof code r = Inr i"
    "issue_tokens env now fr i (st\<lparr>te_codes := kv_del (tn_id tn, hash_b64 (ae_lib env) code) (te_codes st)\<rparr>) = (Inr resp, st')"
proof -
  from assms obtain code redirect_uri verifier where p: "required ps ''code'' = Inr code" "one ps ''redirect_uri'' = Inr redirect_uri"
      "one ps ''code_verifier'' = Inr verifier"
    by (auto simp: authorization_code_def andThen_Inr split: sum.splits)
  from assms obtain r m where c: "consume_code (ae_lib env) now (tn_id tn) code (te_codes st) = (Some r, m)"
    and f: "finish env now fr (andThen (code_checks (ae_lib env) now (tn_id tn) c redirect_uri verifier r (te_sessions st)) (\<lambda>_.
         code_spec env tn c ps proof code r)) (st\<lparr>te_codes := m\<rparr>) = (Inr resp, st')"
    by (auto simp: authorization_code_def p split: prod.splits option.splits)
  from f show thesis using that p c
    by (auto simp: finish_Inr andThen_Inr required_Inr consume_code_def kv_getdel_def split: if_splits)
qed

lemma verified_token_Inr [simp]:
  "verified_token env now tn name token tk = Inr cs \<longleftrightarrow>
     verify_access (ae_lib env) (ae_cfg env) now tn token default_verify_options tk = Inr cs"
  by (simp add: verified_token_def split: sum.split)

lemma refresh_grant_Inr:
  assumes "refresh_grant env now fr tn c ps proof st = (Inr resp, st')"
  shows "\<exists>extra requested r st0 resp0. finish env now fr (refresh_spec env tn c proof extra requested r) st0 = (Inr resp0, st') \<and>
    rp_access_token resp = rp_access_token resp0 \<and> rp_token_type resp = rp_token_type resp0"
  using assms unfolding refresh_grant_def by (auto split: sum.splits prod.splits) fastforce

lemma token_exchange_Inr:
  assumes "token_exchange env now fr tn c ps proof st = (Inr resp, st')"
  shows "\<exists>token cs actor scopes uid st0 resp0. exchange_subject_token c ps = Inr token \<and>
    verify_access (ae_lib env) (ae_cfg env) now tn token default_verify_options (te_tokens st) = Inr cs \<and>
    exchange_binding c proof cs = Inr () \<and> exchange_actor env now tn ps (te_tokens st) = Inr actor \<and>
    exchange_scopes c ps cs = Inr scopes \<and>
    finish env now fr (exchange_spec env now tn c ps proof cs actor scopes uid) st0 = (Inr resp0, st') \<and>
    rp_access_token resp = rp_access_token resp0 \<and> rp_token_type resp = rp_token_type resp0"
proof -
  from assms obtain token cs actor scopes where p: "exchange_subject_token c ps = Inr token"
      "verify_access (ae_lib env) (ae_cfg env) now tn token default_verify_options (te_tokens st) = Inr cs"
      "exchange_binding c proof cs = Inr ()" "exchange_actor env now tn ps (te_tokens st) = Inr actor" "exchange_scopes c ps cs = Inr scopes"
    by (auto simp: token_exchange_def andThen_Inr split: sum.splits)
  have v: "verified_token env now tn ''subject_token'' token (te_tokens st) = Inr cs" using p(2) by simp
  obtain uid w where u: "subject_user_id (ae_lib env) now tn cs (te_sessions st) = (uid, w)"
    by (cases "subject_user_id (ae_lib env) now tn cs (te_sessions st)")
  have "\<exists>resp0. finish env now fr (exchange_spec env now tn c ps proof cs actor scopes uid) (st\<lparr>te_sessions := w\<rparr>) = (Inr resp0, st') \<and>
      rp_access_token resp = rp_access_token resp0 \<and> rp_token_type resp = rp_token_type resp0"
    using assms by (auto simp: token_exchange_def p v u split: sum.splits prod.splits)
  then show ?thesis using p by blast
qed

lemma by_grant_issued:
  assumes "by_grant env now fr tn c ps proof st = (Inr resp, st')"
  shows "\<exists>i at. issued_by env now fr i resp at \<and> spec_for env tn c proof i"
proof -
  let ?P = "\<lambda>resp. \<exists>i at. issued_by env now fr i resp at \<and> spec_for env tn c proof i"
  have ac: ?thesis if a: "authorization_code env now fr tn c ps proof st = (Inr resp, st')"
    using a by (rule authorization_code_Inr) (metis issue_tokens_Inr spec_for_code)
  have dg: ?thesis if "device_grant env now fr tn c ps proof st = (Inr resp, st')"
    using that unfolding device_grant_def
    by (auto simp: andThen_Inr split: sum.splits prod.splits elim!: finish_issued dest!: spec_for_device)
  have bc: ?thesis if "backchannel env now fr tn c ps proof st = (Inr resp, st')"
    using that unfolding backchannel_def
    by (auto simp: andThen_Inr split: sum.splits prod.splits elim!: finish_issued dest!: spec_for_backchannel)
  have cc: ?thesis if "client_credentials env now fr tn c ps proof st = (Inr resp, st')"
    using that unfolding client_credentials_def by (auto elim!: finish_issued dest!: spec_for_client_credentials)
  have rg: ?thesis if "refresh_grant env now fr tn c ps proof st = (Inr resp, st')"
    using refresh_grant_Inr [OF that] by (metis finish_issued spec_for_refresh issued_by_cong)
  have te: ?thesis if "token_exchange env now fr tn c ps proof st = (Inr resp, st')"
    using token_exchange_Inr [OF that] by (metis finish_issued spec_for_exchange issued_by_cong)
  show ?thesis using assms ac dg bc cc rg te unfolding by_grant_def by (auto split: sum.splits if_splits)
qed

text \<open>What the issued access token says.\<close>

lemma token_client_for_Inr:
  assumes "token_client_for lib dir i = Inr tc"
  shows "tc_client_id tc = cl_client_id (iu_client i)" "tc_not_after tc = iu_not_after i"
  using assms by (auto simp: token_client_for_def token_client_of_def Let_def andThen_Inr split: option.splits if_splits)

lemma issue_access_token_Inr:
  assumes "issue_access_token lib cfg dir now dbnow fr req st = (Inr at, st')"
  shows "it_claims at = access_token_claims lib cfg dir now (tf_jti fr) req" "it_expires_at at = access_exp now (ar_client req)"
  using assms by (auto simp: issue_access_token_def Let_def split: if_splits prod.splits sum.splits)

lemma bound_of_cnf:
  assumes "map_of cs ''cnf'' = cnf_claim jkt x5t"
  shows "bound_jkt cs = jkt" "bound_x5t cs = x5t"
  using assms by (cases jkt; cases x5t; simp add: bound_jkt_def bound_x5t_def cnf_claim_def Let_def put_opt_def)+

lemma issued_by_claims:
  assumes "issued_by env now fr i resp at"
  shows "bound_jkt (it_claims at) = sp_jkt (iu_proof i)"
    "bound_x5t (it_claims at) = (if cl_certificate_bound (iu_client i) then sp_x5t (iu_proof i) else None)"
    "map_of (it_claims at) ''act'' = iu_act i"
    "map_of (it_claims at) ''sid'' = map_option (json_uuid (ae_lib env)) (iu_session i)"
    "map_of (it_claims at) ''scope'' = Some (JStr (join '' '' (granted_scopes (be_dir env) i)))"
    "map_of (it_claims at) ''client_id'' = Some (JStr (cl_client_id (iu_client i)))"
    "map_of (it_claims at) ''jti'' = Some (json_uuid (ae_lib env) (tf_jti (fe_token fr)))"
    "map_of (it_claims at) ''exp'' = Some (JInt (timestamp (it_expires_at at)))"
    "iu_not_after i = Some limit \<Longrightarrow> it_expires_at at \<le> limit"
proof -
  from assms obtain tc tk tk' where tc: "token_client_for (ae_lib env) (be_dir env) i = Inr tc"
    and at: "issue_access_token (ae_lib env) (ae_cfg env) (be_dir env) now now (fe_token fr)
          (access_request_of (be_dir env) i tc) tk = (Inr at, tk')"
    by (auto simp: issued_by_def)
  let ?req = "access_request_of (be_dir env) i tc"
  obtain aud where eq: "it_claims at = access_claims (ae_lib env) (ae_cfg env) (be_dir env) now (access_exp now tc) (tf_jti (fe_token fr)) ?req aud
       (snd (mapped_claims (ae_lib env) (be_dir env) ?req))"
    using access_token_claims_eq [of "ae_lib env" "ae_cfg env" "be_dir env" now "tf_jti (fe_token fr)" ?req]
    unfolding issue_access_token_Inr(1) [OF at] by (auto simp: access_request_of_def)
  note claims = access_claims_always access_claims_optional mapped_claims_protected
  have cnf: "map_of (it_claims at) ''cnf'' = cnf_claim (ar_cnf_jkt ?req) (ar_cnf_x5t ?req)" unfolding eq claims by simp
  show "bound_jkt (it_claims at) = sp_jkt (iu_proof i)"
    "bound_x5t (it_claims at) = (if cl_certificate_bound (iu_client i) then sp_x5t (iu_proof i) else None)"
    using bound_of_cnf [OF cnf] by (simp_all add: access_request_of_def)
  show "map_of (it_claims at) ''act'' = iu_act i"
    "map_of (it_claims at) ''sid'' = map_option (json_uuid (ae_lib env)) (iu_session i)"
    "map_of (it_claims at) ''scope'' = Some (JStr (join '' '' (granted_scopes (be_dir env) i)))"
    "map_of (it_claims at) ''client_id'' = Some (JStr (cl_client_id (iu_client i)))"
    "map_of (it_claims at) ''jti'' = Some (json_uuid (ae_lib env) (tf_jti (fe_token fr)))"
    "map_of (it_claims at) ''exp'' = Some (JInt (timestamp (it_expires_at at)))"
    unfolding eq claims issue_access_token_Inr(2) [OF at] by (simp_all add: access_request_of_def token_client_for_Inr(1) [OF tc])
  show "iu_not_after i = Some limit \<Longrightarrow> it_expires_at at \<le> limit"
    unfolding issue_access_token_Inr(2) [OF at] using token_client_for_Inr(2) [OF tc]
    by (simp add: access_request_of_def access_exp_le)
qed

text \<open>The codes in the store only ever leave it, except when one is issued.\<close>

lemma kv_del_None: "m k = None \<Longrightarrow> kv_del k' m k = None"
  by (simp add: kv_del_def)

lemma undo_grant_codes [simp]: "te_codes (undo_grant now t g st) = te_codes st"
  by (simp add: undo_grant_def Let_def split: option.split)

lemma replayed_codes [simp]: "te_codes (replayed lib now t code st) = te_codes st"
  by (simp add: replayed_def split: prod.split option.split)

lemma authorization_code_codes:
  "te_codes st k = None \<Longrightarrow> te_codes (snd (authorization_code env now fr tn c ps proof st)) k = None"
  unfolding authorization_code_def
  by (auto simp: consume_code_def kv_getdel_def finish_codes kv_del_None split: sum.split option.split)

lemma by_grant_codes:
  assumes "te_codes st k = None"
  shows "te_codes (snd (by_grant env now fr tn c ps proof st)) k = None"
proof -
  note split = sum.split prod.split
  have "te_codes (snd (device_grant env now fr tn c ps proof st)) = te_codes st"
    by (simp add: device_grant_def finish_codes split: split)
  moreover have "te_codes (snd (backchannel env now fr tn c ps proof st)) = te_codes st"
    by (simp add: backchannel_def finish_codes split: split)
  moreover have "te_codes (snd (client_credentials env now fr tn c ps proof st)) = te_codes st"
    by (simp add: client_credentials_def finish_codes)
  moreover have "te_codes (snd (refresh_grant env now fr tn c ps proof st)) = te_codes st"
    by (auto simp: refresh_grant_def split: split dest!: finish_keeps_codes)
  moreover have "te_codes (snd (token_exchange env now fr tn c ps proof st)) = te_codes st"
    by (auto simp: token_exchange_def split: split dest!: finish_keeps_codes)
  moreover have "te_codes (snd (authorization_code env now fr tn c ps proof st)) k = None"
    using assms by (rule authorization_code_codes)
  ultimately show ?thesis using assms by (simp add: by_grant_def split: sum.split)
qed

lemma handle_token_codes:
  assumes "te_codes st k = None"
  shows "te_codes (snd (handle_token env now r fr tn hs ps ip cert st)) k = None"
proof -
  have "te_codes (snd (by_grant env now fr tn c ps pf (st\<lparr>te_auth := au, te_proofs := m\<rparr>))) k = None" for c pf au m
    by (rule by_grant_codes) (simp add: assms)
  then show ?thesis using assms by (simp add: handle_token_def Let_def split: prod.split sum.split)
qed

text \<open>
  The endpoint and the clock, one request after the other, and the codes issued meanwhile;
  \<open>k\<close> is the tenant and hash of a code that is not issued again.
\<close>

inductive te_step :: "('net, 'ip) te_env \<Rightarrow> uuid \<times> string \<Rightarrow> instant \<times> te_state \<Rightarrow> instant \<times> te_state \<Rightarrow> bool"
  for env :: "('net, 'ip) te_env" and k :: "uuid \<times> string" where
  waits: "now \<le> later \<Longrightarrow> te_step env k (now, st) (later, st)"
| request: "te_step env k (now, st) (now, snd (handle_token env now r fr tn hs ps ip cert st))"
| code: "(co_tenant rec, hash_b64 lib code) \<noteq> k \<Longrightarrow>
     te_step env k (now, st) (now, st\<lparr>te_codes := snd (issue_code lib now code rec (te_codes st))\<rparr>)"

definition code_gone :: "uuid \<times> string \<Rightarrow> instant \<times> te_state \<Rightarrow> bool" where
  "code_gone k s = (te_codes (snd s) k = None)"

interpretation code_gone: kept_by_steps "te_step env k" "code_gone k" for env k
proof
  fix s s'
  show "te_step env k s s' \<Longrightarrow> code_gone k s \<Longrightarrow> code_gone k s'"
    by (induction rule: te_step.induct)
       (auto simp: code_gone_def handle_token_codes issue_code_def kv_set_ex_def kv_set_until_def)
qed

lemma authorization_code_spent:
  assumes "one ps ''code'' = Inr (Some code)" "te_codes st (tn_id tn, hash_b64 (ae_lib env) code) = None"
  shows "\<exists>e. fst (authorization_code env now fr tn c ps proof st) = Inl e"
proof -
  have "fst (consume_code (ae_lib env) now (tn_id tn) code (te_codes st)) = None"
    using assms(2) by (simp add: consume_code_def kv_getdel_def kv_get_def kv_entry_def)
  then obtain m where "consume_code (ae_lib env) now (tn_id tn) code (te_codes st) = (None, m)" by (metis prod.collapse)
  then show ?thesis using assms(1)
    by (auto simp: authorization_code_def required_def andThen_def split: sum.split)
qed

lemma spent_by_exchange:
  assumes "authorization_code env now fr tn c ps proof st = (Inr resp, st1)" "one ps ''code'' = Inr (Some code)"
  shows "te_codes st1 (tn_id tn, hash_b64 (ae_lib env) code) = None"
  using assms(1)
proof (rule authorization_code_Inr)
  fix code' i
  assume "one ps ''code'' = Inr (Some code')"
    and i: "issue_tokens env now fr i (st\<lparr>te_codes := kv_del (tn_id tn, hash_b64 (ae_lib env) code') (te_codes st)\<rparr>) = (Inr resp, st1)"
  then have "code' = code" using assms(2) by simp
  then show ?thesis using issue_tokens_codes [of env now fr i "st\<lparr>te_codes := kv_del (tn_id tn, hash_b64 (ae_lib env) code') (te_codes st)\<rparr>"] i
    by (simp add: kv_del_def)
qed

section \<open>Properties\<close>

text \<open>
  C3. An authorization code buys one response: once it was exchanged, in every run of the
  token endpoint, whatever codes are issued meanwhile (but for one with the same hash), a
  request that presents the code again is refused.
\<close>

theorem code_exchanged_once:
  assumes "authorization_code env now fr tn c ps proof st = (Inr resp, st1)" "one ps ''code'' = Inr (Some code)"
    and "(te_step env (tn_id tn, hash_b64 (ae_lib env) code))\<^sup>*\<^sup>* (now, st1) (now', st2)"
    and "one ps' ''code'' = Inr (Some code)"
  shows "\<exists>e. fst (authorization_code env now' fr' tn c' ps' proof' st2) = Inl e"
proof -
  have "te_codes st1 (tn_id tn, hash_b64 (ae_lib env) code) = None" using assms(1,2) by (rule spent_by_exchange)
  then have "code_gone (tn_id tn, hash_b64 (ae_lib env) code) (now, st1)" by (simp add: code_gone_def)
  from code_gone.run_keeps [OF assms(3) this] have "te_codes st2 (tn_id tn, hash_b64 (ae_lib env) code) = None"
    by (simp add: code_gone_def)
  with assms(4) show ?thesis by (rule authorization_code_spent)
qed

text \<open>
  C24. What a client must have shown for a code: tokens are issued only for a code that is in
  the store, was issued to this client, at most a minute ago, with this redirect URI, in a
  session that has not been signed out, for a user who is still active; where the code has
  a challenge the verifier hashes to it; and the resources asked for are among those of
  the authorization, where it named any.
\<close>

theorem code_exchange_checked:
  assumes "authorization_code env now fr tn c ps proof st = (Inr resp, st')"
  shows "\<exists>code r u i at. one ps ''code'' = Inr (Some code) \<and>
    kv_get now (tn_id tn, hash_b64 (ae_lib env) code) (te_codes st) = Some r \<and>
    co_client r = cl_id c \<and> one ps ''redirect_uri'' = Inr (Some (co_redirect_uri r)) \<and>
    (case co_challenge r of
       None \<Rightarrow> one ps ''code_verifier'' = Inr None
     | Some ch \<Rightarrow> \<exists>v. one ps ''code_verifier'' = Inr (Some v) \<and> is_valid_verifier v \<and> challenge_for (ae_lib env) v = ch) \<and>
    as_u64 (num_seconds (now - co_issued_at r)) \<le> 60 \<and>
    \<not> repo_is_revoked (tn_id tn) (co_session r) (te_sessions st) \<and>
    dir_users (be_dir env) (tn_id tn) (co_user r) = Some u \<and> us_status u = UserActive \<and>
    issued_by env now fr i resp at \<and> iu_scopes i = co_scopes r \<and> iu_session i = Some (co_session r) \<and>
    map_option sj_user (iu_subject i) = Some u \<and>
    (co_audiences r \<noteq> [] \<longrightarrow> set (ad_audiences (iu_audience i)) \<subseteq> set (co_audiences r))"
  using assms
proof (rule authorization_code_Inr)
  fix code redirect_uri verifier r i
  assume p: "one ps ''code'' = Inr (Some code)" "one ps ''redirect_uri'' = Inr redirect_uri" "one ps ''code_verifier'' = Inr verifier"
    and r: "kv_get now (tn_id tn, hash_b64 (ae_lib env) code) (te_codes st) = Some r"
    and ch: "code_checks (ae_lib env) now (tn_id tn) c redirect_uri verifier r (te_sessions st) = Inr ()"
    and sp: "code_spec env tn c ps proof code r = Inr i"
    and iss: "issue_tokens env now fr i (st\<lparr>te_codes := kv_del (tn_id tn, hash_b64 (ae_lib env) code) (te_codes st)\<rparr>) = (Inr resp, st')"
  obtain at where at: "issued_by env now fr i resp at" using iss by (rule issue_tokens_Inr)
  from sp obtain s extra a where s: "load_subject (be_dir env) (tn_id tn) (co_user r) (co_org r) = Inr s"
    and x: "(if co_audiences r = [] then None else find (\<lambda>x. x \<notin> set (co_audiences r)) extra) = None"
    and a: "resolve_audience (be_dir env) (tn_id tn) c (or_granted extra (co_audiences r)) (role_ids (Some s)) = Inr a"
    and i: "iu_subject i = Some s" "iu_scopes i = co_scopes r" "iu_session i = Some (co_session r)" "iu_audience i = a"
    by (auto simp: code_spec_def andThen_Inr split: option.splits)
  have "set (ad_audiences a) \<subseteq> set (co_audiences r)" if "co_audiences r \<noteq> []"
  proof -
    have "set extra \<subseteq> set (co_audiences r)" using x that by (auto simp: find_None_iff)
    then show ?thesis using resolve_audience_allowed [OF a] that by (simp add: or_granted_def split: if_splits)
  qed
  moreover have "dir_users (be_dir env) (tn_id tn) (co_user r) = Some (sj_user s)" "us_status (sj_user s) = UserActive"
    using s by (auto simp: load_subject_def andThen_Inr)
  moreover have "co_client r = cl_id c" "redirect_uri = Some (co_redirect_uri r)"
      "as_u64 (num_seconds (now - co_issued_at r)) \<le> 60" "\<not> repo_is_revoked (tn_id tn) (co_session r) (te_sessions st)"
    using ch by (auto simp: code_checks_def andThen_Inr CODE_TTL_SECS_def)
  moreover have "case co_challenge r of None \<Rightarrow> verifier = None
      | Some ch \<Rightarrow> \<exists>v. verifier = Some v \<and> is_valid_verifier v \<and> challenge_for (ae_lib env) v = ch"
    using ch by (auto simp: code_checks_def andThen_Inr verify_s256_def split: option.splits)
  ultimately show ?thesis using p r at i by (fastforce split: option.splits)
qed

text \<open>
  C23. What a response may carry: whoever receives tokens authenticated as a client, and the
  access token is bound to exactly the keys the request proved. A client registered for
  bound tokens, or under the FAPI 2.0 profile, never receives an unbound one; and every
  audience is a resource server of the tenant this client may target, a built-in one only
  where the client lists it.
\<close>

theorem token_response_respects_client:
  assumes "handle_token env now r fr tn hs ps ip cert st = (Inr resp, st')"
  shows "\<exists>c m au jkt proofs i at.
    authenticate (auth_env.truncate env) now r tn hs ps (token_endpoint (ae_cfg env) tn) ip cert (te_auth st) = (Inr (c, m), au) \<and>
    token_proof env now tn c hs (te_proofs st) = (Inr jkt, proofs) \<and>
    issued_by env now fr i resp at \<and> map_of (it_claims at) ''client_id'' = Some (JStr (cl_client_id c)) \<and>
    bound_jkt (it_claims at) = jkt \<and>
    bound_x5t (it_claims at) = (if cl_certificate_bound c then map_option cc_thumbprint cert else None) \<and>
    (cl_dpop_bound c \<longrightarrow> jkt \<noteq> None) \<and> (cl_certificate_bound c \<longrightarrow> cert \<noteq> None) \<and>
    (is_fapi2 c \<longrightarrow> jkt \<noteq> None \<or> bound_x5t (it_claims at) \<noteq> None) \<and>
    (\<forall>x\<in>set (ad_audiences (iu_audience i)). \<exists>rs. find_resource (be_dir env) (tn_id tn) x = Some rs \<and>
       (x \<in> set (cl_allowed_audiences c) \<or> \<not> rs_built_in rs \<and> cl_allowed_audiences c = []))"
proof -
  from assms obtain c m au where a: "authenticate (auth_env.truncate env) now r tn hs ps (token_endpoint (ae_cfg env) tn) ip cert (te_auth st) = (Inr (c, m), au)"
    by (auto simp: handle_token_def split: prod.splits sum.splits)
  from assms a obtain jkt proofs where p: "token_proof env now tn c hs (te_proofs st) = (Inr jkt, proofs)"
    by (auto simp: handle_token_def split: prod.splits sum.splits)
  let ?x = "map_option cc_thumbprint cert" and ?st = "st\<lparr>te_auth := au, te_proofs := proofs\<rparr>"
  from assms a p have x: "cl_certificate_bound c \<longrightarrow> cert \<noteq> None"
    and b: "by_grant env now fr tn c ps \<lparr>sp_jkt = jkt, sp_x5t = ?x\<rparr> ?st = (Inr resp, st')"
    by (auto simp: handle_token_def Let_def split: if_splits)
  from by_grant_issued [OF b] obtain i at where at: "issued_by env now fr i resp at"
    and i: "spec_for env tn c \<lparr>sp_jkt = jkt, sp_x5t = ?x\<rparr> i" by blast
  have jkt: "jkt \<noteq> None" if "cl_dpop_bound c \<or> is_fapi2 c \<and> \<not> cl_certificate_bound c"
    using p that by (auto simp: token_proof_def split: sum.splits option.splits if_splits prod.splits)
  have claims: "map_of (it_claims at) ''client_id'' = Some (JStr (cl_client_id c))" "bound_jkt (it_claims at) = jkt"
      "bound_x5t (it_claims at) = (if cl_certificate_bound c then ?x else None)"
    using issued_by_claims [OF at] i by (simp_all add: spec_for_def)
  have "\<forall>y\<in>set (ad_audiences (iu_audience i)). \<exists>rs. find_resource (be_dir env) (tn_id tn) y = Some rs \<and>
       (y \<in> set (cl_allowed_audiences c) \<or> \<not> rs_built_in rs \<and> cl_allowed_audiences c = [])"
    using i by (auto simp: spec_for_def may_target_def)
  moreover have "is_fapi2 c \<longrightarrow> jkt \<noteq> None \<or> bound_x5t (it_claims at) \<noteq> None" using jkt x claims(3) by auto
  moreover have "cl_dpop_bound c \<longrightarrow> jkt \<noteq> None" using jkt by blast
  ultimately show ?thesis using a p at claims x by blast
qed

lemma exchange_scopes_narrow:
  assumes "exchange_scopes c ps cs = Inr scopes"
  shows "set scopes \<subseteq> set (parse_scope_param (case as_str (json_index (JObj cs) ''scope'') of None \<Rightarrow> [] | Some s \<Rightarrow> s)) \<inter> set (cl_allowed_scopes c)"
  using assms by (auto simp: exchange_scopes_def Let_def andThen_Inr find_None_iff split: option.splits)

lemma granted_scopes_subset: "set (granted_scopes dir i) \<subseteq> set (iu_scopes i)"
  by (auto simp: granted_scopes_def granted_for_audience_def filter_for_audience_def)

lemma exchange_audiences_allowed:
  "exchange_audiences lib c ps = Inr wanted \<Longrightarrow> set wanted \<subseteq> set (cl_allowed_audiences c)"
  by (auto simp: exchange_audiences_def andThen_Inr find_None_iff split: option.splits)

lemma exchange_binding_keeps:
  assumes "exchange_binding c proof cs = Inr ()"
  shows "bound_jkt cs = Some j \<Longrightarrow> sp_jkt proof = Some j" "bound_x5t cs = Some x \<Longrightarrow> sp_x5t proof = Some x \<and> cl_certificate_bound c"
  using assms
  by (auto simp: exchange_binding_def Let_def andThen_Inr bound_jkt_def bound_x5t_def json_index_def bind_eq_Some_conv split: option.splits)


text \<open>
  An exchange without an actor token forgets who was acting: whatever \<open>act\<close> claim the
  subject token carries, the token it is exchanged for carries none.
\<close>

theorem exchange_without_actor_drops_act:
  assumes "token_exchange env now fr tn c ps proof st = (Inr resp, st')" "one ps ''actor_token'' = Inr None"
  shows "\<exists>i at. issued_by env now fr i resp at \<and> map_of (it_claims at) ''act'' = None"
proof -
  from token_exchange_Inr [OF assms(1)] obtain cs actor scopes uid st0 resp0 where
    a: "exchange_actor env now tn ps (te_tokens st) = Inr actor"
    and f: "finish env now fr (exchange_spec env now tn c ps proof cs actor scopes uid) st0 = (Inr resp0, st')"
    and eq: "rp_access_token resp = rp_access_token resp0" "rp_token_type resp = rp_token_type resp0" by blast
  have none: "actor = None" using a assms(2) by (auto simp: exchange_actor_def andThen_Inr split: option.splits)
  from f obtain i at where i: "exchange_spec env now tn c ps proof cs actor scopes uid = Inr i" and at: "issued_by env now fr i resp0 at"
    by (rule finish_issued)
  have "iu_act i = None" using i none by (auto simp: exchange_spec_def andThen_Inr exchange_act_def)
  then have "map_of (it_claims at) ''act'' = None" using issued_by_claims(3) [OF at] by simp
  moreover have "issued_by env now fr i resp at" using at issued_by_cong [OF eq] by blast
  ultimately show ?thesis by blast
qed

lemma issue_refresh_family:
  assumes "issue_refresh_of env now fr i w = (Inr (Some r), w')"
  shows "rt_family (is_record r) = fe_family fr"
  using assms by (auto simp: issue_refresh_of_def issue_def insert_in_def repo_insert_def Let_def split: if_splits sum.splits prod.splits)

lemma undo_grant_revokes:
  assumes "cg_family g = Some f" "r \<in> set (rt_rows (te_sessions (undo_grant now t g st)))" "rt_tenant r = t" "rt_family r = f"
  shows "rt_revoked_at r \<noteq> None"
proof -
  have "te_sessions (undo_grant now t g st) = snd (repo_revoke_family now t f (te_sessions st))"
    using assms(1) by (simp add: undo_grant_def Let_def split: option.split)
  with assms(2) have "r \<in> set (update_where (\<lambda>r. (rt_tenant r = t \<and> rt_family r = f) \<and> rt_revoked_at r = None)
      (\<lambda>r. r\<lparr>rt_revoked_at := Some now\<rparr>) (rt_rows (te_sessions st)))"
    by (simp add: repo_revoke_family_def revoke_where_def Let_def)
  then show ?thesis
  proof (rule in_update_whereE)
    fix x
    assume "r = (if (rt_tenant x = t \<and> rt_family x = f) \<and> rt_revoked_at x = None then x\<lparr>rt_revoked_at := Some now\<rparr> else x)"
    then show ?thesis using assms(3,4) by (cases "rt_revoked_at x = None") (auto split: if_splits)
  qed
qed

lemma undo_grant_denies:
  assumes "cg_jti g = Some j" "now \<le> later" "later < now + dur_secs (num_seconds (cg_expires_at g - now))"
  shows "is_denied later t j (te_tokens (undo_grant now t g st))"
  using assms deny_denies by (auto simp: undo_grant_def Let_def split: option.split)

text \<open>
  C22. Replaying a code takes back what it bought (RFC 6749, section 4.1.2): when the code of a
  successful exchange is presented again within ten minutes, whatever happened meanwhile,
  the request is refused, every refresh token of the family the exchange opened is revoked,
  those rotated since included, and the exchange's access token no longer verifies.
\<close>

theorem code_replay_undoes_grant:
  assumes ex: "authorization_code env now fr tn c ps proof st = (Inr resp, st1)" "one ps ''code'' = Inr (Some code)"
    and later: "te_codes st2 (tn_id tn, hash_b64 (ae_lib env) code) = None"
      "te_grants st2 (tn_id tn, hash_b64 (ae_lib env) code) = te_grants st1 (tn_id tn, hash_b64 (ae_lib env) code)"
      "now' < now + dur_secs 600"
    and again: "one ps' ''code'' = Inr (Some code)" "one ps' ''redirect_uri'' = Inr ru" "one ps' ''code_verifier'' = Inr cv"
    and replay: "authorization_code env now' fr' tn c' ps' proof' st2 = (res, st3)"
  shows "\<exists>i at. issued_by env now fr i resp at \<and> res = Inl (oauth_err InvalidGrant ''invalid authorization code'') \<and>
    (rp_refresh_token resp \<noteq> None \<longrightarrow> (\<forall>r\<in>set (rt_rows (te_sessions st3)).
       rt_tenant r = tn_id tn \<longrightarrow> rt_family r = fe_family fr \<longrightarrow> rt_revoked_at r \<noteq> None)) \<and>
    (\<forall>t token opts cs. now' \<le> t \<longrightarrow> t < now' + dur_secs (num_seconds (it_expires_at at - now')) \<longrightarrow> vo_check_denylist opts \<longrightarrow>
       verify_access (ae_lib env) (ae_cfg env) t tn token opts (te_tokens st3) = Inr cs \<longrightarrow>
       map_of cs ''jti'' \<noteq> map_of (it_claims at) ''jti'')"
  using ex(1)
proof (rule authorization_code_Inr)
  let ?k = "(tn_id tn, hash_b64 (ae_lib env) code)"
  fix code' r i
  assume "one ps ''code'' = Inr (Some code')" and sp: "code_spec env tn c ps proof code' r = Inr i"
    and i: "issue_tokens env now fr i (st\<lparr>te_codes := kv_del (tn_id tn, hash_b64 (ae_lib env) code') (te_codes st)\<rparr>) = (Inr resp, st1)"
  then have code: "code' = code" using ex(2) by simp
  let ?s = "st\<lparr>te_codes := kv_del (tn_id tn, hash_b64 (ae_lib env) code') (te_codes st)\<rparr>"
  from i obtain at refresh w where at: "issued_by env now fr i resp at"
    and rf: "issue_refresh_of env now fr i (te_sessions ?s) = (Inr refresh, w)"
    and g: "te_grants st1 = (case iu_code_hash i of None \<Rightarrow> te_grants ?s
       | Some h \<Rightarrow> kv_set_ex now 600 (tn_id (iu_tenant i), h) (code_grant_of at refresh) (te_grants ?s))"
    and rp: "rp_refresh_token resp = map_option is_token refresh"
    by (rule issue_tokens_Inr)
  have "iu_code_hash i = Some (hash_b64 (ae_lib env) code)" "iu_tenant i = tn"
    using sp code by (auto simp: code_spec_def andThen_Inr)
  then have "te_grants st2 ?k = Some (code_grant_of at refresh, Some (now + dur_secs 600))"
    using later(2) g by (simp add: kv_set_ex_def kv_set_until_def)
  then have got: "kv_get now' ?k (te_grants st2) = Some (code_grant_of at refresh)"
    using later(3) by (simp add: kv_get_def kv_entry_def)
  have "fst (consume_code (ae_lib env) now' (tn_id tn) code (te_codes st2)) = None"
    using later(1) by (simp add: consume_code_def kv_getdel_def kv_get_def kv_entry_def)
  then obtain m where "consume_code (ae_lib env) now' (tn_id tn) code (te_codes st2) = (None, m)" by (metis prod.collapse)
  then have res: "res = Inl (oauth_err InvalidGrant ''invalid authorization code'')"
    and st3: "\<exists>st0. st3 = undo_grant now' (tn_id tn) (code_grant_of at refresh) st0"
    using replay again got
    by (auto simp: authorization_code_def required_def andThen_def replayed_def kv_getdel_def)
  then obtain st0 where st3: "st3 = undo_grant now' (tn_id tn) (code_grant_of at refresh) st0" by blast
  have jti: "map_of (it_claims at) ''jti'' = Some (json_uuid (ae_lib env) (tf_jti (fe_token fr)))" using issued_by_claims(7) [OF at] .
  let ?j = "l_show_uuid (ae_lib env) (tf_jti (fe_token fr))"
  have "cg_jti (code_grant_of at refresh) = Some ?j" "cg_expires_at (code_grant_of at refresh) = it_expires_at at"
    using jti by (simp_all add: code_grant_of_def json_uuid_def)
  then have denied: "is_denied t (tn_id tn) ?j (te_tokens st3)"
    if "now' \<le> t" "t < now' + dur_secs (num_seconds (it_expires_at at - now'))" for t
    unfolding st3 using that by (intro undo_grant_denies) simp_all
  have "rt_revoked_at x \<noteq> None" if new: "rp_refresh_token resp \<noteq> None" and "x \<in> set (rt_rows (te_sessions st3))" "rt_tenant x = tn_id tn"
      "rt_family x = fe_family fr" for x
  proof -
    obtain rr where "refresh = Some rr" using new rp by auto
    then have "cg_family (code_grant_of at refresh) = Some (fe_family fr)"
      using issue_refresh_family rf by (auto simp: code_grant_of_def)
    then show ?thesis using undo_grant_revokes that st3 by blast
  qed
  moreover have "map_of cs ''jti'' \<noteq> map_of (it_claims at) ''jti''"
    if "now' \<le> t" "t < now' + dur_secs (num_seconds (it_expires_at at - now'))" "vo_check_denylist opts"
      "verify_access (ae_lib env) (ae_cfg env) t tn token opts (te_tokens st3) = Inr cs" for t token opts cs
    using denied [OF that(1,2)] verify_access_not_denied [OF that(4,3)] jti by (auto simp: json_uuid_def)
  ultimately show ?thesis using at res by blast
qed

section \<open>Examples\<close>

text \<open>A client that receives opaque tokens is always answered, where its refresh token can be stored.\<close>

lemma opaque_client_answered:
  assumes "cl_format (iu_client i) = FormatOpaque" "ad_signing_alg (iu_audience i) = None"
    and "''openid'' \<notin> set (iu_scopes i)" "\<And>u. l_parse_uuid (ae_lib env) (l_show_uuid (ae_lib env) u) \<noteq> None"
    and "rt_rows (te_sessions st) = []"
  shows "\<exists>resp st'. issue_tokens env now fr i st = (Inr resp, st')"
proof -
  obtain tc where tc: "token_client_for (ae_lib env) (be_dir env) i = Inr tc" "tc_format tc = FormatOpaque"
    using assms(1,2) by (auto simp: token_client_for_def token_client_of_def Let_def split: option.split)
  let ?req = "access_request_of (be_dir env) i tc"
  have "map_of (access_token_claims (ae_lib env) (ae_cfg env) (be_dir env) now (tf_jti (fe_token fr)) ?req) ''tid''
      = Some (json_uuid (ae_lib env) (tn_id (iu_tenant i)))"
    using access_token_claims_eq [of "ae_lib env" "ae_cfg env" "be_dir env" now "tf_jti (fe_token fr)" ?req]
    by (auto simp: access_claims_always access_request_of_def)
  then obtain t where "tenant_of (ae_lib env) (access_token_claims (ae_lib env) (ae_cfg env) (be_dir env) now (tf_jti (fe_token fr)) ?req) = Some t"
    using assms(4) by (auto simp: tenant_of_def json_uuid_def)
  then have "\<exists>at tk'. issue_access_token (ae_lib env) (ae_cfg env) (be_dir env) now now (fe_token fr) ?req (te_tokens st) = (Inr at, tk')"
    using tc(2) by (simp add: issue_access_token_def Let_def access_request_of_def opaque_issue_def)
  moreover have "\<exists>r w'. issue_refresh_of env now fr i (te_sessions st) = (Inr r, w')"
    using assms(5) by (simp add: issue_refresh_of_def issue_def insert_in_def repo_insert_def Let_def)
  moreover have "issue_id_of env now fr i tc a tk = (Inr None, tk)" for a tk
    using assms(3) granted_scopes_subset [of "be_dir env" i] by (auto simp: issue_id_of_def split: option.split)
  ultimately show ?thesis using tc(1) by (auto simp: issue_tokens_def)
qed

definition ex_te_env :: "(nat \<times> nat, nat) te_env" where
  "ex_te_env = bc_env.extend ex_bc_env \<lparr>te_policy = (\<lambda>t. None)\<rparr>"

definition ex_te_fresh :: te_fresh where
  "ex_te_fresh = \<lparr>fe_token = ex_token_fresh, fe_refresh = ex_fresh, fe_family = 40\<rparr>"

definition ex_verifier :: string where "ex_verifier = replicate 43 (CHR ''v'')"

definition ex_code :: auth_code where
  "ex_code = \<lparr>co_tenant = 1, co_client = 7, co_client_public_id = ''app'', co_user = 3, co_session = 4,
     co_redirect_uri = ''https://app/cb'', co_scopes = [''orders''], co_audiences = [''https://api''], co_nonce = None,
     co_challenge = Some ex_verifier, co_auth_time = 0, co_amr = [''pwd''], co_acr = None, co_org = None, co_acting = None,
     co_claims = None, co_issued_at = 0\<rparr>"

definition ex_code_params :: raw_params where
  "ex_code_params = [(''code'', ''c0de''), (''redirect_uri'', ''https://app/cb''), (''code_verifier'', ex_verifier)]"

definition ex_te_state :: te_state where
  "ex_te_state = \<lparr>te_auth = ex_auth_store, te_proofs = Map.empty, te_tokens = ex_token_state, te_sessions = ex_state [],
     te_device = \<lparr>dev_kv = Map.empty, code_kv = Map.empty, guess_kv = Map.empty, dev_rows = []\<rparr>, te_ciba = ex_ciba_state,
     te_codes = snd (issue_code ex_keys_library 0 ''c0de'' ex_code Map.empty), te_grants = Map.empty\<rparr>"

definition no_proof :: sender_proof where "no_proof = \<lparr>sp_jkt = None, sp_x5t = None\<rparr>"

lemma ex_te_parts:
  "ae_lib ex_te_env = ex_keys_library" "be_dir ex_te_env = ex_directory" "tn_id ex_tenant = 1" "tn_id ex_limited = 1"
  "hash_b64 ex_keys_library s = s" "l_parse_uuid ex_keys_library s = Some (read_digits 0 s)" "l_url_fragment ex_keys_library s = Some False"
  by (simp_all add: ex_te_env_def bc_env.extend_def ex_bc_env_def auth_env.extend_def ex_auth_env_def ex_tenant_def ex_limited_def hash_b64_def
      ex_keys_library_def ex_uuid_library_def ex_library_def)

lemma ex_code_values: "one ex_code_params ''code'' = Inr (Some ''c0de'')" "one ex_code_params ''redirect_uri'' = Inr (Some ''https://app/cb'')"
  "one ex_code_params ''code_verifier'' = Inr (Some ex_verifier)" "param_many ex_code_params ''resource'' = []"
proof -
  have t: "trim ''c0de'' = ''c0de''" "trim ''https://app/cb'' = ''https://app/cb''" "trim ex_verifier = ex_verifier"
    by (rule trim_visible, simp add: visible_def ex_verifier_def list_all_iff)+
  have n: "ex_verifier \<noteq> []" by (simp add: ex_verifier_def)
  show "one ex_code_params ''code'' = Inr (Some ''c0de'')" "one ex_code_params ''redirect_uri'' = Inr (Some ''https://app/cb'')"
    "one ex_code_params ''code_verifier'' = Inr (Some ex_verifier)" "param_many ex_code_params ''resource'' = []"
    by (simp_all add: ex_code_params_def one_def param_one_def values_of_def param_many_def nonempty_def t n)
qed

lemma ex_resolved:
  "resolve_audience ex_directory 1 ex_client [''https://api''] roles =
     Inr \<lparr>ad_audiences = [''https://api''], ad_ttl_override = None, ad_permissions = [], ad_resources = [9], ad_offline_allowed = True, ad_signing_alg = None\<rparr>"
  by (simp add: resolve_audience_def find_resource_def ex_domain_defs may_target_def with_resource_def no_audience_def agreed_signing_alg_def
      shorter_ttl_def push_all_new_def)

lemma ex_code_exchanged:
  "\<exists>resp st1. authorization_code ex_te_env 5 ex_te_fresh ex_tenant ex_client ex_code_params no_proof ex_te_state = (Inr resp, st1)"
proof -
  have alive: "(5 :: int) < dur_secs 60" by (simp add: dur_secs_def nanos_per_sec_def)
  have c: "consume_code ex_keys_library 5 1 ''c0de'' (te_codes ex_te_state) = (Some ex_code, Map.empty)"
    using alive by (simp add: consume_code_def kv_getdel_def ex_te_state_def issue_code_def kv_set_ex_def kv_set_until_def kv_get_def kv_entry_def
        kv_del_def CODE_TTL_SECS_def ex_code_def)
  have "is_valid_verifier ex_verifier" by (simp add: is_valid_verifier_def is_valid_challenge_def ex_verifier_def list_all_iff unreserved_def ascii_defs)
  then have k: "code_checks ex_keys_library 5 1 ex_client (Some ''https://app/cb'') (Some ex_verifier) ex_code (te_sessions ex_te_state) = Inr ()"
    by (simp add: code_checks_def ex_code_def ex_client_def verify_s256_def challenge_for_def ex_te_parts CODE_TTL_SECS_def as_u64_def
        num_seconds_def trunc_div_def nanos_per_sec_def repo_is_revoked_def ex_te_state_def ex_state_def)
  have u: "load_subject ex_directory 1 3 None = Inr \<lparr>sj_user = ex_user, sj_roles = [], sj_groups = []\<rparr>"
    by (simp add: load_subject_def ex_directory_def ex_user_def)
  have co: "co_user ex_code = 3" "co_org ex_code = None" "co_audiences ex_code = [''https://api'']" "co_scopes ex_code = [''orders'']"
    by (simp_all add: ex_code_def)
  obtain i where i: "code_spec ex_te_env ex_tenant ex_client ex_code_params no_proof ''c0de'' ex_code = Inr i" "iu_client i = ex_client"
      "ad_signing_alg (iu_audience i) = None" "iu_scopes i = [''orders'']"
    by (simp add: code_spec_def ex_te_parts u co parse_resources_def ex_code_values or_granted_def ex_resolved del: One_nat_def)
  have "\<exists>resp st'. issue_tokens ex_te_env 5 ex_te_fresh i (ex_te_state\<lparr>te_codes := Map.empty\<rparr>) = (Inr resp, st')"
    by (rule opaque_client_answered) (use i in \<open>simp_all add: ex_client_def ex_te_parts ex_te_state_def ex_state_def\<close>)
  then show ?thesis
    by (simp add: authorization_code_def required_def ex_code_values ex_te_parts c k i(1) finish_def del: One_nat_def)
qed

theorem code_exchange_checked_witness:
  "\<exists>i at resp. issued_by ex_te_env 5 ex_te_fresh i resp at \<and> iu_scopes i = [''orders''] \<and>
     set (ad_audiences (iu_audience i)) \<subseteq> {''https://api''}"
proof -
  obtain resp st1 where ex: "authorization_code ex_te_env 5 ex_te_fresh ex_tenant ex_client ex_code_params no_proof ex_te_state = (Inr resp, st1)"
    using ex_code_exchanged by blast
  have got: "kv_get 5 (1, ''c0de'') (te_codes ex_te_state) = Some ex_code"
    by (simp add: ex_te_state_def issue_code_def kv_set_ex_def kv_set_until_def kv_get_def kv_entry_def ex_te_parts CODE_TTL_SECS_def ex_code_def
        dur_secs_def nanos_per_sec_def)
  have co: "co_scopes ex_code = [''orders'']" "co_audiences ex_code = [''https://api'']" by (simp_all add: ex_code_def)
  obtain code r i at where "one ex_code_params ''code'' = Inr (Some code)"
    "kv_get 5 (tn_id ex_tenant, hash_b64 (ae_lib ex_te_env) code) (te_codes ex_te_state) = Some r"
    "issued_by ex_te_env 5 ex_te_fresh i resp at" "iu_scopes i = co_scopes r"
    "co_audiences r \<noteq> [] \<longrightarrow> set (ad_audiences (iu_audience i)) \<subseteq> set (co_audiences r)"
    using code_exchange_checked [OF ex] by blast
  moreover from this have "r = ex_code" using got by (simp add: ex_code_values ex_te_parts del: One_nat_def)
  ultimately show ?thesis using co by auto
qed

theorem code_exchanged_once_witness:
  "\<exists>resp st1 e. authorization_code ex_te_env 5 ex_te_fresh ex_tenant ex_client ex_code_params no_proof ex_te_state = (Inr resp, st1) \<and>
     fst (authorization_code ex_te_env 6 ex_te_fresh ex_tenant ex_client ex_code_params no_proof st1) = Inl e"
proof -
  obtain resp st1 where ex: "authorization_code ex_te_env 5 ex_te_fresh ex_tenant ex_client ex_code_params no_proof ex_te_state = (Inr resp, st1)"
    using ex_code_exchanged by blast
  have run: "(te_step ex_te_env (tn_id ex_tenant, hash_b64 (ae_lib ex_te_env) ''c0de''))\<^sup>*\<^sup>* (5, st1) (6, st1)"
    by (rule r_into_rtranclp, rule te_step.waits) simp
  from code_exchanged_once [OF ex ex_code_values(1) run ex_code_values(1)] ex show ?thesis by blast
qed

theorem code_replay_undoes_grant_witness:
  "\<exists>resp st1 i at st3. authorization_code ex_te_env 5 ex_te_fresh ex_tenant ex_client ex_code_params no_proof ex_te_state = (Inr resp, st1) \<and>
     issued_by ex_te_env 5 ex_te_fresh i resp at \<and>
     authorization_code ex_te_env 6 ex_te_fresh ex_tenant ex_client ex_code_params no_proof st1
       = (Inl (oauth_err InvalidGrant ''invalid authorization code''), st3)"
proof -
  obtain resp st1 where ex: "authorization_code ex_te_env 5 ex_te_fresh ex_tenant ex_client ex_code_params no_proof ex_te_state = (Inr resp, st1)"
    using ex_code_exchanged by blast
  obtain res st3 where again: "authorization_code ex_te_env 6 ex_te_fresh ex_tenant ex_client ex_code_params no_proof st1 = (res, st3)"
    by (cases "authorization_code ex_te_env 6 ex_te_fresh ex_tenant ex_client ex_code_params no_proof st1")
  have gone: "te_codes st1 (tn_id ex_tenant, hash_b64 (ae_lib ex_te_env) ''c0de'') = None"
    using spent_by_exchange [OF ex ex_code_values(1)] .
  have t: "(6 :: int) < 5 + dur_secs 600" by (simp add: dur_secs_def nanos_per_sec_def)
  from code_replay_undoes_grant [OF ex ex_code_values(1) gone refl t ex_code_values(1-3) again] ex again show ?thesis by blast
qed

text \<open>An impersonated session's token, opaque, and its exchange.\<close>

definition ex_subject_claims :: claims where
  "ex_subject_claims = [(''exp'', JInt 900), (''tid'', JStr ''1''), (''sub'', JStr ''3''), (''scope'', JStr ''orders''),
     (''act'', JObj [(''sub'', JStr ''8'')])]"

definition ex_exchange_params :: raw_params where
  "ex_exchange_params = [(''subject_token'', ''at_x''), (''subject_token_type'', token_type_access)]"

definition ex_exchange_state :: te_state where
  "ex_exchange_state = ex_te_state\<lparr>te_tokens := ex_token_state\<lparr>tk_opaque_tenant := [''at_x'' \<mapsto> (''1'', None)],
     tk_opaque_claims := [(1, ''at_x'') \<mapsto> (ex_subject_claims, None)]\<rparr>\<rparr>"

lemma ex_exchange_values: "one ex_exchange_params ''subject_token'' = Inr (Some ''at_x'')"
  "one ex_exchange_params ''subject_token_type'' = Inr (Some token_type_access)" "one ex_exchange_params ''requested_token_type'' = Inr None"
  "one ex_exchange_params ''actor_token'' = Inr None" "one ex_exchange_params ''actor_token_type'' = Inr None"
  "one ex_exchange_params ''scope'' = Inr None" "param_many ex_exchange_params ''resource'' = []" "param_many ex_exchange_params ''audience'' = []"
proof -
  have t: "trim ''at_x'' = ''at_x''" "trim token_type_access = token_type_access"
    by (rule trim_visible, simp add: visible_def token_type_access_def)+
  have n: "token_type_access \<noteq> []" by (simp add: token_type_access_def)
  show "one ex_exchange_params ''subject_token'' = Inr (Some ''at_x'')"
    "one ex_exchange_params ''subject_token_type'' = Inr (Some token_type_access)" "one ex_exchange_params ''requested_token_type'' = Inr None"
    "one ex_exchange_params ''actor_token'' = Inr None" "one ex_exchange_params ''actor_token_type'' = Inr None"
    "one ex_exchange_params ''scope'' = Inr None" "param_many ex_exchange_params ''resource'' = []" "param_many ex_exchange_params ''audience'' = []"
    by (simp_all add: ex_exchange_params_def one_def param_one_def values_of_def param_many_def nonempty_def t n)
qed

lemma ex_subject_verified:
  "verify_access ex_keys_library cfg 5 ex_tenant ''at_x'' default_verify_options (te_tokens ex_exchange_state) = Inr ex_subject_claims"
  by (simp add: verify_access_def looks_like_def opaque_prefix_def starts_with_def opaque_lookup_def ex_te_parts ex_exchange_state_def kv_get_def kv_entry_def
      Let_def read_digits.simps tenant_of_def ex_subject_claims_def check_opaque_def default_verify_options_def jti_denied_def ex_token_state_def
      ex_te_state_def timestamp_def nanos_per_sec_def as_i64_def ascii_defs)

lemma ex_exchanged:
  "\<exists>resp st1. token_exchange ex_te_env 5 ex_te_fresh ex_tenant ex_client ex_exchange_params no_proof ex_exchange_state = (Inr resp, st1)"
proof -
  note [simp] = ex_te_parts ex_exchange_values ex_subject_verified
  have tok: "exchange_subject_token ex_client ex_exchange_params = Inr ''at_x''"
    by (simp add: exchange_subject_token_def required_def is_access_type_def typed_right_def)
  have v: "verified_token ex_te_env 5 ex_tenant ''subject_token'' ''at_x'' (te_tokens ex_exchange_state) = Inr ex_subject_claims" by simp
  have b: "exchange_binding ex_client no_proof ex_subject_claims = Inr ()"
    by (simp add: exchange_binding_def ex_subject_claims_def json_index_def)
  have a: "exchange_actor ex_te_env 5 ex_tenant ex_exchange_params (te_tokens ex_exchange_state) = Inr None"
    by (simp add: exchange_actor_def)
  have "trim ''orders'' = ''orders''" by (rule trim_visible) (simp add: visible_def)
  then have "parse_scope_param ''orders'' = [''orders'']" by (simp add: parse_scope_param_def push_all_new_def push_new_def)
  then have sc: "exchange_scopes ex_client ex_exchange_params ex_subject_claims = Inr [''orders'']"
    by (simp add: exchange_scopes_def ex_subject_claims_def json_index_def ex_client_def)
  have uid: "subject_user_id ex_keys_library 5 ex_tenant ex_subject_claims (te_sessions ex_exchange_state) = (Some 3, te_sessions ex_exchange_state)"
    by (simp add: subject_user_id_def ex_subject_claims_def ascii_defs)
  have au: "exchange_audiences ex_keys_library ex_client ex_exchange_params = Inr []"
    by (simp add: exchange_audiences_def parse_resources_def ex_client_def)
  have u: "load_optional ex_directory 1 (Some 3) (claim_uuid ex_keys_library ex_subject_claims ''org_id'') = Inr (Some \<lparr>sj_user = ex_user, sj_roles = [], sj_groups = []\<rparr>)"
    by (simp add: load_optional_def load_subject_def ex_directory_def ex_user_def)
  have res: "resolve_audience ex_directory 1 ex_client [] roles = resolve_audience ex_directory 1 ex_client [''https://api''] roles" for roles
    by (simp add: resolve_audience_def ex_client_def)
  obtain i where i: "exchange_spec ex_te_env 5 ex_tenant ex_client ex_exchange_params no_proof ex_subject_claims None [''orders''] (Some 3) = Inr i"
      "iu_client i = ex_client" "ad_signing_alg (iu_audience i) = None" "iu_scopes i = [''orders'']"
    by (simp add: exchange_spec_def u au res ex_resolved del: One_nat_def)
  have "\<exists>resp st'. issue_tokens ex_te_env 5 ex_te_fresh i ex_exchange_state = (Inr resp, st')"
    by (rule opaque_client_answered) (use i in \<open>simp_all add: ex_client_def ex_exchange_state_def ex_te_state_def ex_state_def\<close>)
  then show ?thesis
    by (auto simp: token_exchange_def tok v b a sc uid i(1) finish_def simp del: One_nat_def)
qed


theorem exchange_without_actor_drops_act_witness:
  "\<exists>i at resp. map_of ex_subject_claims ''act'' \<noteq> None \<and> issued_by ex_te_env 5 ex_te_fresh i resp at \<and> map_of (it_claims at) ''act'' = None"
proof -
  obtain resp st1 where "token_exchange ex_te_env 5 ex_te_fresh ex_tenant ex_client ex_exchange_params no_proof ex_exchange_state = (Inr resp, st1)"
    using ex_exchanged by blast
  from exchange_without_actor_drops_act [OF this ex_exchange_values(4)] show ?thesis by (auto simp: ex_subject_claims_def)
qed

definition ex_machine_params :: raw_params where
  "ex_machine_params = ex_auth_params @ [(''grant_type'', ''client_credentials'')]"

definition ex_machine :: client where "ex_machine = ex_client\<lparr>cl_auth_method := ClientSecretPost\<rparr>"

lemma ex_machine_answered: "\<exists>resp st1. handle_token ex_te_env 0 0 ex_te_fresh ex_limited [] ex_machine_params None None ex_te_state = (Inr resp, st1)"
proof -
  have g: "trim ''client_credentials'' = ''client_credentials''" by (rule trim_visible) (simp add: visible_def)
  note read = one_def param_one_def values_of_def param_many_def ex_machine_params_def ex_auth_params_def nonempty_def ex_trimmed g
  have p: "read_presented ex_keys_library [] ex_machine_params = Inr (PPost ''app'' ''s3cret'', Some ''app'')"
    by (simp add: read_presented_def parse_basic_def header_get_def read present_def)
  have "auth_env.truncate ex_te_env = ex_auth_env"
    by (simp add: ex_te_env_def bc_env.extend_def ex_bc_env_def auth_env.extend_def auth_env.truncate_def)
  with ex_authenticates_with [OF p, of "token_endpoint (ae_cfg ex_te_env) ex_limited"] obtain au where
    a: "authenticate (auth_env.truncate ex_te_env) 0 0 ex_limited [] ex_machine_params (token_endpoint (ae_cfg ex_te_env) ex_limited) None None
          (te_auth ex_te_state) = (Inr (ex_machine, ClientSecretPost), au)"
    by (auto simp: ex_te_state_def ex_machine_def) (metis prod.collapse)
  have c: "\<not> is_public ex_machine" "cl_service_account ex_machine = None" "\<not> is_fapi2 ex_machine" "\<not> cl_dpop_bound ex_machine"
      "\<not> cl_certificate_bound ex_machine" "cl_allowed_audiences ex_machine = [''https://api'']" "allows_grant ex_machine ''client_credentials''"
      "cl_format ex_machine = FormatOpaque"
    by (simp_all add: ex_machine_def ex_client_def is_public_def is_fapi2_def allows_grant_def all_grants_def grant_client_credentials_def)
  have v: "validate_request ex_directory 1 ex_machine [] [''openid'', ''offline_access''] False = Inr \<lparr>rq_scopes = [], rq_bound_audiences = []\<rparr>"
    by (simp add: validate_request_def requested_or_default_def defaults_for_def ex_directory_def ex_scope_def resolve_scopes_def Let_def)
  have res: "\<exists>aud. resolve_audience ex_directory 1 ex_machine [] [] = Inr aud \<and> ad_signing_alg aud = None"
    by (simp add: resolve_audience_def Let_def ex_machine_def find_resource_def ex_domain_defs may_target_def with_resource_def no_audience_def
        agreed_signing_alg_def shorter_ttl_def)
  have none: "parse_scope_param [] = []" using parse_join_scopes [of "[]"] by simp
  from res obtain i where i: "client_credentials_spec ex_te_env ex_limited ex_machine ex_machine_params \<lparr>sp_jkt = None, sp_x5t = None\<rparr> = Inr i"
      "iu_client i = ex_machine" "ad_signing_alg (iu_audience i) = None" "iu_scopes i = []"
    by (auto simp: client_credentials_spec_def ex_te_parts read c v none Let_def load_optional_def parse_resources_def
        with_bound_audiences_def role_ids_def simp del: One_nat_def)
  have "\<exists>resp st'. issue_tokens ex_te_env 0 ex_te_fresh i (ex_te_state\<lparr>te_auth := au, te_proofs := te_proofs ex_te_state\<rparr>) = (Inr resp, st')"
    by (rule opaque_client_answered) (use i c in \<open>simp_all add: ex_te_parts ex_te_state_def ex_state_def\<close>)
  moreover have "required ex_machine_params ''grant_type'' = Inr ''client_credentials''" by (simp add: required_def read)
  moreover have "token_proof ex_te_env 0 ex_limited ex_machine [] m = (Inr None, m)" for m by (simp add: token_proof_def dpop_header_def c)
  ultimately show ?thesis
    by (simp add: handle_token_def a by_grant_def c client_credentials_def i(1) finish_def grant_client_credentials_def grant_authorization_code_def
        grant_refresh_token_def)
qed

theorem token_response_respects_client_witness:
  "\<exists>resp i at. issued_by ex_te_env 0 ex_te_fresh i resp at \<and> bound_jkt (it_claims at) = None \<and> bound_x5t (it_claims at) = None"
proof -
  obtain resp st1 where "handle_token ex_te_env 0 0 ex_te_fresh ex_limited [] ex_machine_params None None ex_te_state = (Inr resp, st1)"
    using ex_machine_answered by blast
  from token_response_respects_client [OF this] show ?thesis by (fastforce simp: token_proof_def dpop_header_def split: if_splits)
qed

end
