(* ===== verification/Audit_Log.thy ===== *)
theory Audit_Log
  imports Domain "HOL-Library.Multiset"
begin

text \<open>
  The audit log: the hash chain (\<open>crates/ridm-core/src/audit_chain.rs\<close>), the writer, the
  verification and the retention of it (\<open>api/src/services/audit.rs\<close>, \<open>api/src/repos/audit.rs\<close>,
  \<open>api/src/repos/audit_chains.rs\<close>). A hash is its bytes. The rows of every chain are one
  table; an append reads and advances the chain's head under the chain's lock, so appends
  to a chain come one after the other. The text of an instant (RFC 3339 with microseconds)
  and of a JSON value come from outside the repository.
\<close>

section \<open>Rows and their hash\<close>

record audit_lib = library +
  al_rfc3339 :: "instant \<Rightarrow> string"

definition show_int :: "int \<Rightarrow> string" where
  "show_int i = (if i < 0 then CHR ''-'' # show_nat (nat (- i)) else show_nat (nat i))"

definition nil_uuid :: uuid where "nil_uuid = 0"

definition chain_id :: "uuid option \<Rightarrow> uuid" where
  "chain_id t = (case t of None \<Rightarrow> nil_uuid | Some u \<Rightarrow> u)"

record canonical_row =
  cn_id :: uuid
  cn_tenant :: "uuid option"
  cn_seq :: int
  cn_occurred_at :: instant
  cn_name :: string
  cn_actor_type :: string
  cn_actor :: "uuid option"
  cn_subject :: "uuid option"
  cn_impersonator :: "uuid option"
  cn_ip :: "string option"
  cn_user_agent :: "string option"
  cn_payload :: json

definition or_empty :: "string option \<Rightarrow> string" where
  "or_empty s = (case s of None \<Rightarrow> [] | Some x \<Rightarrow> x)"

definition canonical :: "audit_lib \<Rightarrow> canonical_row \<Rightarrow> string" where
  "canonical lib r =
     (let opt = (\<lambda>u. or_empty (map_option (l_show_uuid lib) u))
      in join ''|'' [l_show_uuid lib (cn_id r), l_show_uuid lib (chain_id (cn_tenant r)), show_int (cn_seq r),
           al_rfc3339 lib (cn_occurred_at r), cn_name r, cn_actor_type r, opt (cn_actor r), opt (cn_subject r),
           or_empty (cn_ip r), or_empty (cn_user_agent r), l_to_text lib (cn_payload r)]
         @ (case cn_impersonator r of None \<Rightarrow> [] | Some i \<Rightarrow> ''|impersonator:'' @ l_show_uuid lib i))"

definition chain_hash :: "audit_lib \<Rightarrow> string option \<Rightarrow> canonical_row \<Rightarrow> string" where
  "chain_hash lib prev r = l_digest lib 256 (or_empty prev @ canonical lib r)"

section \<open>The verifier\<close>

record chain_break =
  bk_seq :: int
  bk_reason :: string

record verifier =
  vr_chain :: "uuid option"
  vr_prev :: "(int \<times> string) option"
  vr_checked :: nat
  vr_first_seq :: "int option"
  vr_last_seq :: "int option"
  vr_last_hash :: "string option"

definition new_verifier :: verifier where
  "new_verifier = \<lparr>vr_chain = None, vr_prev = None, vr_checked = 0, vr_first_seq = None, vr_last_seq = None, vr_last_hash = None\<rparr>"

definition verifier_after :: "uuid \<Rightarrow> int \<Rightarrow> string \<Rightarrow> verifier" where
  "verifier_after chain seq h = new_verifier\<lparr>vr_chain := Some chain, vr_prev := Some (seq, h)\<rparr>"

definition check ::
  "audit_lib \<Rightarrow> canonical_row \<Rightarrow> string option \<Rightarrow> string \<Rightarrow> verifier \<Rightarrow> chain_break option \<times> verifier" where
  "check lib r prev_hash row_hash v =
     (let fail = (\<lambda>reason. Some \<lparr>bk_seq = cn_seq r, bk_reason = reason\<rparr>);
          chain = chain_id (cn_tenant r)
      in if vr_chain v \<noteq> None \<and> vr_chain v \<noteq> Some chain then (fail ''the row belongs to another chain'', v)
         else
           (let v1 = v\<lparr>vr_chain := Some chain\<rparr>
            in case (case vr_prev v of
                       None \<Rightarrow> None
                     | Some (seq, h) \<Rightarrow>
                         if cn_seq r \<noteq> seq + 1 then fail (''gap in chain after seq '' @ show_int seq)
                         else if prev_hash \<noteq> Some h then fail ''prev_hash does not link to the previous row''
                         else None) of
                 Some b \<Rightarrow> (Some b, v1)
               | None \<Rightarrow>
                   if chain_hash lib prev_hash r \<noteq> row_hash then (fail ''row hash does not match its contents'', v1)
                   else (None, v1\<lparr>vr_checked := vr_checked v1 + 1,
                           vr_first_seq := (case vr_first_seq v1 of None \<Rightarrow> Some (cn_seq r) | Some s \<Rightarrow> Some s),
                           vr_last_seq := Some (cn_seq r), vr_last_hash := Some row_hash,
                           vr_prev := Some (cn_seq r, row_hash)\<rparr>)))"

section \<open>The log\<close>

record audit_event =
  ae_id :: uuid
  ae_tenant :: "uuid option"
  ae_seq :: int
  ae_occurred_at :: instant
  ae_recorded_at :: instant
  ae_name :: string
  ae_actor_type :: string
  ae_actor :: "uuid option"
  ae_subject :: "uuid option"
  ae_impersonator :: "uuid option"
  ae_ip :: "string option"
  ae_user_agent :: "string option"
  ae_payload :: json
  ae_prev_hash :: "string option"
  ae_hash :: string

text \<open>\<open>At\<close> is an instant, \<open>Empty\<close> is the column's \<open>infinity\<close>, \<open>Unknown\<close> its null.\<close>

datatype oldest = Unknown | Empty | At instant

record chain_state =
  cs_tenant :: "uuid option"
  cs_head_seq :: int
  cs_head_hash :: string
  cs_oldest :: oldest
  cs_verified_seq :: "int option"
  cs_verified_hash :: "string option"
  cs_verified_at :: "instant option"
  cs_broken_at_seq :: "int option"
  cs_broken_reason :: "string option"
  cs_broken_at :: "instant option"

record audit_log =
  lg_rows :: "audit_event list"
  lg_chains :: "uuid \<rightharpoonup> chain_state"

text \<open>An event as it is published; its kind is its name and the document \<open>serde\<close> makes of it.\<close>

record domain_event =
  de_id :: uuid
  de_tenant :: "uuid option"
  de_occurred_at :: instant
  de_actor :: actor
  de_impersonator :: "uuid option"
  de_ip :: "string option"
  de_user_agent :: "string option"
  de_name :: string
  de_payload :: json

definition EXPORT_PAGE :: nat where "EXPORT_PAGE = 500"
definition PURGE_BATCH :: nat where "PURGE_BATCH = 5000"

definition SUBJECT_KEYS :: "string list" where
  "SUBJECT_KEYS = [''user_id'', ''client_id'', ''role_id'', ''group_id'', ''org_id'', ''invitation_id'', ''key_id'', ''mapper_id'',
     ''resource_server_id'', ''scope_id'', ''session_id'']"

fun actor_parts :: "actor \<Rightarrow> string \<times> uuid option" where
  "actor_parts (ActorUser i) = (''user'', Some i)"
| "actor_parts (ActorClient i) = (''client'', Some i)"
| "actor_parts (ActorAdmin i) = (''admin'', Some i)"
| "actor_parts ActorSystem = (''system'', None)"

definition subject_of :: "audit_lib \<Rightarrow> json \<Rightarrow> uuid option" where
  "subject_of lib payload =
     (case List.map_filter (\<lambda>k. Option.bind (json_get payload k) as_str) SUBJECT_KEYS of
        [] \<Rightarrow> None | s # _ \<Rightarrow> l_parse_uuid lib s)"

definition canonical_view :: "audit_event \<Rightarrow> canonical_row" where
  "canonical_view r =
     \<lparr>cn_id = ae_id r, cn_tenant = ae_tenant r, cn_seq = ae_seq r, cn_occurred_at = ae_occurred_at r, cn_name = ae_name r,
      cn_actor_type = ae_actor_type r, cn_actor = ae_actor r, cn_subject = ae_subject r, cn_impersonator = ae_impersonator r,
      cn_ip = ae_ip r, cn_user_agent = ae_user_agent r, cn_payload = ae_payload r\<rparr>"

definition hash_of :: "audit_lib \<Rightarrow> string option \<Rightarrow> audit_event \<Rightarrow> string" where
  "hash_of lib prev r = chain_hash lib prev (canonical_view r)"

definition chain_row :: "audit_lib \<Rightarrow> instant \<Rightarrow> domain_event \<Rightarrow> (int \<times> string) option \<Rightarrow> audit_event" where
  "chain_row lib now e prev =
     (let (actor_type, actor) = actor_parts (de_actor e);
          r = \<lparr>ae_id = de_id e, ae_tenant = de_tenant e, ae_seq = (case prev of Some (seq, h) \<Rightarrow> seq + 1 | None \<Rightarrow> 1),
               ae_occurred_at = de_occurred_at e, ae_recorded_at = now, ae_name = de_name e, ae_actor_type = actor_type,
               ae_actor = actor, ae_subject = subject_of lib (de_payload e), ae_impersonator = de_impersonator e,
               ae_ip = de_ip e, ae_user_agent = de_user_agent e, ae_payload = de_payload e,
               ae_prev_hash = map_option snd prev, ae_hash = []\<rparr>
      in r\<lparr>ae_hash := hash_of lib (ae_prev_hash r) r\<rparr>)"

fun chain_rows_of :: "audit_lib \<Rightarrow> instant \<Rightarrow> domain_event list \<Rightarrow> (int \<times> string) option \<Rightarrow> audit_event list" where
  "chain_rows_of lib now [] head = []"
| "chain_rows_of lib now (e # es) head =
     (let r = chain_row lib now e head in r # chain_rows_of lib now es (Some (ae_seq r, ae_hash r)))"

text \<open>Queries: the rows of a chain in order of their position.\<close>

definition in_chain :: "uuid \<Rightarrow> audit_event \<Rightarrow> bool" where
  "in_chain chain r = (chain_id (ae_tenant r) = chain)"

definition chain_rows :: "uuid \<Rightarrow> audit_event list \<Rightarrow> audit_event list" where
  "chain_rows chain rows = sort_key ae_seq (filter (in_chain chain) rows)"

definition chain_page :: "uuid \<Rightarrow> int option \<Rightarrow> nat \<Rightarrow> audit_event list \<Rightarrow> audit_event list" where
  "chain_page chain after limit rows =
     take limit (filter (\<lambda>r. case after of None \<Rightarrow> True | Some s \<Rightarrow> s < ae_seq r) (chain_rows chain rows))"

definition chain_head :: "uuid \<Rightarrow> audit_event list \<Rightarrow> (int \<times> string) option" where
  "chain_head chain rows =
     (case rev (chain_rows chain rows) of [] \<Rightarrow> None | r # _ \<Rightarrow> Some (ae_seq r, ae_hash r))"

definition chains_head :: "uuid \<Rightarrow> audit_log \<Rightarrow> (int \<times> string) option" where
  "chains_head chain lg = map_option (\<lambda>c. (cs_head_seq c, cs_head_hash c)) (lg_chains lg chain)"

definition advance_head ::
  "uuid \<Rightarrow> uuid option \<Rightarrow> int \<Rightarrow> string \<Rightarrow> instant \<Rightarrow> bool \<Rightarrow> audit_log \<Rightarrow> audit_log" where
  "advance_head chain t seq h from new_chain lg =
     (case lg_chains lg chain of
        None \<Rightarrow> lg\<lparr>lg_chains := (lg_chains lg)(chain \<mapsto>
          \<lparr>cs_tenant = t, cs_head_seq = seq, cs_head_hash = h, cs_oldest = (if new_chain then At from else Unknown),
           cs_verified_seq = None, cs_verified_hash = None, cs_verified_at = None, cs_broken_at_seq = None,
           cs_broken_reason = None, cs_broken_at = None\<rparr>)\<rparr>
      | Some c \<Rightarrow>
          if cs_head_seq c < seq then
            lg\<lparr>lg_chains := (lg_chains lg)(chain \<mapsto>
              c\<lparr>cs_head_seq := seq, cs_head_hash := h, cs_oldest := (if cs_oldest c = Empty then At from else cs_oldest c)\<rparr>)\<rparr>
          else lg)"

text \<open>The table's key is \<open>(id, occurred_at)\<close>; an insert that repeats one fails.\<close>

definition row_key :: "audit_event \<Rightarrow> uuid \<times> instant" where
  "row_key r = (ae_id r, ae_occurred_at r)"

definition insert_many :: "audit_event list \<Rightarrow> audit_event list \<Rightarrow> app_error + audit_event list" where
  "insert_many new rows =
     (if distinct (map row_key (rows @ new)) then Inr (rows @ new) else Inl (Database ''duplicate key''))"

text \<open>\<open>down\<close> is what the database answers when it cannot be used.\<close>

definition record_chain ::
  "audit_lib \<Rightarrow> instant \<Rightarrow> app_error option \<Rightarrow> uuid option \<Rightarrow> domain_event list \<Rightarrow> audit_log
     \<Rightarrow> (app_error + audit_event list) \<times> audit_log" where
  "record_chain lib now down t events lg =
     (case down of Some e \<Rightarrow> (Inl e, lg)
      | None \<Rightarrow>
        (let chain = chain_id t;
             head = (case chains_head chain lg of Some h \<Rightarrow> Some h | None \<Rightarrow> chain_head chain (lg_rows lg));
             rows = chain_rows_of lib now events head
         in case insert_many rows (lg_rows lg) of
              Inl e \<Rightarrow> (Inl e, lg)
            | Inr table \<Rightarrow>
                (Inr rows,
                 if rows = [] then lg
                 else advance_head chain (ae_tenant (last rows)) (ae_seq (last rows)) (ae_hash (last rows))
                        (ae_occurred_at (hd rows)) (head = None) (lg\<lparr>lg_rows := table\<rparr>))))"

definition record_event ::
  "audit_lib \<Rightarrow> instant \<Rightarrow> app_error option \<Rightarrow> domain_event \<Rightarrow> audit_log \<Rightarrow> (app_error + audit_event) \<times> audit_log" where
  "record_event lib now down e lg =
     (case record_chain lib now down (de_tenant e) [e] lg of
        (Inl err, lg1) \<Rightarrow> (Inl err, lg1)
      | (Inr rows, lg1) \<Rightarrow>
          (if rows = [] then Inl (Internal ''audit: nothing recorded'') else Inr (last rows), lg1))"

section \<open>Verification\<close>

fun check_rows :: "audit_lib \<Rightarrow> audit_event list \<Rightarrow> verifier \<Rightarrow> chain_break option \<times> verifier" where
  "check_rows lib [] v = (None, v)"
| "check_rows lib (r # rs) v =
     (case check lib (canonical_view r) (ae_prev_hash r) (ae_hash r) v of
        (Some b, v1) \<Rightarrow> (Some b, v1)
      | (None, v1) \<Rightarrow> check_rows lib rs v1)"

definition rows_after :: "uuid \<Rightarrow> int option \<Rightarrow> audit_event list \<Rightarrow> audit_event list" where
  "rows_after chain after rows = filter (\<lambda>r. case after of None \<Rightarrow> True | Some s \<Rightarrow> s < ae_seq r) (chain_rows chain rows)"

lemma chain_page_eq: "chain_page chain after limit rows = take limit (rows_after chain after rows)"
  by (simp add: chain_page_def rows_after_def)

text \<open>\<open>walk\<close>: page by page. A full page is followed by the rows after its last.\<close>

function walk_pages :: "audit_lib \<Rightarrow> audit_event list \<Rightarrow> uuid \<Rightarrow> int option \<Rightarrow> verifier \<Rightarrow> chain_break option \<times> verifier" where
  "walk_pages lib rows chain after v =
     (let page = chain_page chain after EXPORT_PAGE rows
      in case check_rows lib page v of
           (Some b, v1) \<Rightarrow> (Some b, v1)
         | (None, v1) \<Rightarrow>
             if length page < EXPORT_PAGE then (None, v1)
             else walk_pages lib rows chain (Some (ae_seq (last page))) v1)"
  by auto
termination
proof (relation "measure (\<lambda>(lib, rows, chain, after, v). length (rows_after chain after rows))", goal_cases)
  case (2 lib rows chain after v page ob v1)
  have page: "page \<noteq> []" using 2 by (auto simp: EXPORT_PAGE_def)
  then have l: "last page \<in> set (rows_after chain after rows)"
    by (metis 2(1) chain_page_eq in_set_takeD last_in_set)
  have sub: "rows_after chain (Some (ae_seq (last page))) rows = filter (\<lambda>r. ae_seq (last page) < ae_seq r) (rows_after chain after rows)"
    using l by (auto simp: rows_after_def intro!: filter_cong split: option.splits)
  have "length (filter (\<lambda>r. ae_seq (last page) < ae_seq r) (rows_after chain after rows)) < length (rows_after chain after rows)"
    by (rule length_filter_less [OF l]) simp
  then show ?case using sub by simp
qed simp

declare walk_pages.simps [simp del]

definition walk :: "audit_lib \<Rightarrow> audit_event list \<Rightarrow> uuid \<Rightarrow> (int \<times> string) option \<Rightarrow> chain_break option \<times> verifier" where
  "walk lib rows chain from =
     (case from of
        Some (seq, h) \<Rightarrow> walk_pages lib rows chain (Some seq) (verifier_after chain seq h)
      | None \<Rightarrow> walk_pages lib rows chain None new_verifier)"

record verification =
  vf_checked :: nat
  vf_valid :: bool
  vf_first_seq :: "int option"
  vf_last_seq :: "int option"
  vf_last_hash :: "string option"
  vf_broken_at_seq :: "int option"
  vf_reason :: "string option"
  vf_scheduled :: "(int option \<times> instant option \<times> int option \<times> string option) option"

text \<open>\<open>hex::encode\<close> is left out of \<open>last_hash\<close>: it renders the bytes.\<close>

definition verify :: "audit_lib \<Rightarrow> uuid option \<Rightarrow> audit_log \<Rightarrow> verification" where
  "verify lib t lg =
     (let chain = chain_id t; (broken, v) = walk lib (lg_rows lg) chain None
      in \<lparr>vf_checked = vr_checked v, vf_valid = (broken = None),
          vf_first_seq = (case vr_first_seq v of None \<Rightarrow> map_option bk_seq broken | Some s \<Rightarrow> Some s),
          vf_last_seq = vr_last_seq v, vf_last_hash = vr_last_hash v, vf_broken_at_seq = map_option bk_seq broken,
          vf_reason = map_option bk_reason broken,
          vf_scheduled = map_option (\<lambda>c. (cs_verified_seq c, cs_verified_at c, cs_broken_at_seq c, cs_broken_reason c)) (lg_chains lg chain)\<rparr>)"

definition checkpoint_intact ::
  "audit_lib \<Rightarrow> audit_event list \<Rightarrow> uuid \<Rightarrow> int \<Rightarrow> string \<Rightarrow> (chain_break + (int \<times> string)) option" where
  "checkpoint_intact lib rows chain seq h =
     (case chain_page chain (Some (seq - 1)) 1 rows of
        [] \<Rightarrow> None
      | r # _ \<Rightarrow>
          if ae_seq r \<noteq> seq then None
          else if ae_hash r \<noteq> h \<or> hash_of lib (ae_prev_hash r) r \<noteq> ae_hash r then
            Some (Inl \<lparr>bk_seq = seq, bk_reason = ''the last verified row has changed since it was verified''\<rparr>)
          else Some (Inr (seq, ae_hash r)))"

definition set_verified :: "instant \<Rightarrow> uuid \<Rightarrow> int \<Rightarrow> string \<Rightarrow> audit_log \<Rightarrow> audit_log" where
  "set_verified dbnow chain seq h lg =
     (case lg_chains lg chain of None \<Rightarrow> lg
      | Some c \<Rightarrow> lg\<lparr>lg_chains := (lg_chains lg)(chain \<mapsto>
          c\<lparr>cs_verified_seq := Some seq, cs_verified_hash := Some h, cs_verified_at := Some dbnow,
            cs_broken_at_seq := None, cs_broken_reason := None, cs_broken_at := None\<rparr>)\<rparr>)"

definition set_broken :: "instant \<Rightarrow> uuid \<Rightarrow> int \<Rightarrow> string \<Rightarrow> audit_log \<Rightarrow> bool \<times> audit_log" where
  "set_broken dbnow chain seq reason lg =
     (case lg_chains lg chain of None \<Rightarrow> (False, lg)
      | Some c \<Rightarrow>
          if cs_broken_at_seq c = Some seq then (False, lg)
          else (True, lg\<lparr>lg_chains := (lg_chains lg)(chain \<mapsto>
                 c\<lparr>cs_broken_at_seq := Some seq, cs_broken_reason := Some reason, cs_broken_at := Some dbnow\<rparr>)\<rparr>))"

record chain_check =
  cc_checked :: nat
  cc_broken_at_seq :: "int option"

text \<open>The scheduled check of a chain; also the break to publish as \<open>audit.chain_broken\<close>.\<close>

definition verify_one ::
  "audit_lib \<Rightarrow> instant \<Rightarrow> uuid \<Rightarrow> chain_state \<Rightarrow> audit_log \<Rightarrow> chain_check \<times> chain_break option \<times> audit_log" where
  "verify_one lib dbnow chain c lg =
     (let from = (case (cs_verified_seq c, cs_verified_hash c, cs_broken_at_seq c) of
            (Some seq, Some h, None) \<Rightarrow> checkpoint_intact lib (lg_rows lg) chain seq h
          | _ \<Rightarrow> None);
          (broken, v) = (case from of
             Some (Inl b) \<Rightarrow> (Some b, new_verifier)
           | Some (Inr start) \<Rightarrow> walk lib (lg_rows lg) chain (Some start)
           | None \<Rightarrow> walk lib (lg_rows lg) chain None)
      in case broken of
           None \<Rightarrow>
             (\<lparr>cc_checked = vr_checked v, cc_broken_at_seq = None\<rparr>, None,
              (case (vr_last_seq v, vr_last_hash v) of
                 (Some seq, Some h) \<Rightarrow> set_verified dbnow chain seq h lg | _ \<Rightarrow> lg))
         | Some b \<Rightarrow>
             (case set_broken dbnow chain (bk_seq b) (bk_reason b) lg of
                (new, lg1) \<Rightarrow> (\<lparr>cc_checked = vr_checked v, cc_broken_at_seq = Some (bk_seq b)\<rparr>, (if new then Some b else None), lg1)))"

definition verify_chain :: "audit_lib \<Rightarrow> instant \<Rightarrow> uuid option \<Rightarrow> audit_log \<Rightarrow> chain_check \<times> chain_break option \<times> audit_log" where
  "verify_chain lib dbnow t lg =
     (case lg_chains lg (chain_id t) of
        Some c \<Rightarrow> verify_one lib dbnow (chain_id t) c lg
      | None \<Rightarrow> (\<lparr>cc_checked = 0, cc_broken_at_seq = None\<rparr>, None, lg))"

section \<open>Retention\<close>

definition expired_head :: "uuid \<Rightarrow> instant \<Rightarrow> audit_event list \<Rightarrow> int option" where
  "expired_head chain cutoff rows =
     (case map ae_seq (filter (\<lambda>r. in_chain chain r \<and> ae_occurred_at r < cutoff) rows) of
        [] \<Rightarrow> None | s # ss \<Rightarrow> Some (fold max ss s))"

definition first_row_at :: "uuid \<Rightarrow> audit_event list \<Rightarrow> instant option" where
  "first_row_at chain rows = (case chain_rows chain rows of [] \<Rightarrow> None | r # _ \<Rightarrow> Some (ae_occurred_at r))"

definition set_oldest :: "uuid \<Rightarrow> instant option \<Rightarrow> audit_log \<Rightarrow> audit_log" where
  "set_oldest chain first lg =
     (case lg_chains lg chain of None \<Rightarrow> lg
      | Some c \<Rightarrow> lg\<lparr>lg_chains := (lg_chains lg)(chain \<mapsto> c\<lparr>cs_oldest := (case first of None \<Rightarrow> Empty | Some a \<Rightarrow> At a)\<rparr>)\<rparr>)"

text \<open>\<open>DELETE .. WHERE (id, occurred_at) IN (SELECT .. ORDER BY seq LIMIT batch)\<close>.\<close>

definition purge_victims :: "uuid \<Rightarrow> int \<Rightarrow> nat \<Rightarrow> audit_event list \<Rightarrow> (uuid \<times> instant) list" where
  "purge_victims chain up_to batch rows =
     map row_key (take batch (filter (\<lambda>r. ae_seq r \<le> up_to) (chain_rows chain rows)))"

definition purge_prefix :: "uuid \<Rightarrow> int \<Rightarrow> nat \<Rightarrow> audit_event list \<Rightarrow> nat \<times> audit_event list" where
  "purge_prefix chain up_to batch rows =
     (let gone = (\<lambda>r. row_key r \<in> set (purge_victims chain up_to batch rows))
      in (rows_affected gone rows, filter (\<lambda>r. \<not> gone r) rows))"

function purge_all :: "uuid \<Rightarrow> int \<Rightarrow> nat \<Rightarrow> audit_event list \<Rightarrow> nat \<times> audit_event list" where
  "purge_all chain up_to acc rows =
     (case purge_prefix chain up_to PURGE_BATCH rows of
        (n, rows1) \<Rightarrow> if n < PURGE_BATCH then (acc + n, rows1) else purge_all chain up_to (acc + n) rows1)"
  by auto
termination
proof (relation "measure (\<lambda>(chain, up_to, acc, rows). length rows)", goal_cases)
  case (2 chain up_to acc rows n rows1)
  then have "n = length (filter (\<lambda>r. row_key r \<in> set (purge_victims chain up_to PURGE_BATCH rows)) rows)"
    "rows1 = filter (\<lambda>r. \<not> row_key r \<in> set (purge_victims chain up_to PURGE_BATCH rows)) rows"
    by (auto simp: purge_prefix_def Let_def rows_affected_def)
  then have "n + length rows1 = length rows" using sum_length_filter_compl by metis
  then show ?case using 2(2) by (simp add: PURGE_BATCH_def)
qed simp

declare purge_all.simps [simp del]

definition dur_days :: "int \<Rightarrow> duration" where "dur_days d = dur_secs (d * 86400)"

definition purge :: "instant \<Rightarrow> uuid option \<Rightarrow> nat \<Rightarrow> audit_log \<Rightarrow> nat \<times> audit_log" where
  "purge now t retention_days lg =
     (if retention_days = 0 then (0, lg)
      else
        (let chain = chain_id t; cutoff = now - dur_days (int retention_days);
             (gone, rows) = (case expired_head chain cutoff (lg_rows lg) of
                None \<Rightarrow> (0, lg_rows lg) | Some up_to \<Rightarrow> purge_all chain up_to 0 (lg_rows lg))
         in (gone, set_oldest chain (first_row_at chain rows) (lg\<lparr>lg_rows := rows\<rparr>))))"

section \<open>Events waiting for their chain\<close>

text \<open>Changing the queue of one key of a list of queues.\<close>

definition at_key :: "'k \<Rightarrow> ('v \<Rightarrow> 'v) \<Rightarrow> ('k \<times> 'v) list \<Rightarrow> ('k \<times> 'v) list" where
  "at_key c f xs = map (\<lambda>(t, q). (t, if t = c then f q else q)) xs"

fun group_by_chain_from ::
  "(uuid option \<times> domain_event list) list \<Rightarrow> domain_event list \<Rightarrow> (uuid option \<times> domain_event list) list" where
  "group_by_chain_from cs [] = cs"
| "group_by_chain_from cs (e # es) =
     group_by_chain_from
       (if \<exists>c\<in>set cs. fst c = de_tenant e
        then at_key (de_tenant e) (\<lambda>l. l @ [e]) cs
        else cs @ [(de_tenant e, [e])]) es"

definition group_by_chain :: "domain_event list \<Rightarrow> (uuid option \<times> domain_event list) list" where
  "group_by_chain es = group_by_chain_from [] es"

text \<open>The map of parked chains, listed in the order it iterates.\<close>

record parked =
  pk_chains :: "(uuid option \<times> domain_event list) list"
  pk_len :: nat
  pk_limit :: nat

definition parked_new :: "nat \<Rightarrow> parked" where
  "parked_new limit = \<lparr>pk_chains = [], pk_len = 0, pk_limit = limit\<rparr>"

definition holds :: "uuid option \<Rightarrow> parked \<Rightarrow> bool" where
  "holds c p = (c \<in> fst ` set (pk_chains p))"

definition push_parked :: "uuid option \<Rightarrow> domain_event list \<Rightarrow> parked \<Rightarrow> parked" where
  "push_parked c es p =
     p\<lparr>pk_chains := (if holds c p then at_key c (\<lambda>q. q @ es) (pk_chains p)
                     else pk_chains p @ [(c, es)]),
       pk_len := pk_len p + length es\<rparr>"

text \<open>\<open>max_by_key(|q| q.len())\<close>: the last of the longest.\<close>

fun longest :: "(uuid option \<times> domain_event list) list \<Rightarrow> uuid option option" where
  "longest [] = None"
| "longest (x # xs) =
     (case longest xs of
        None \<Rightarrow> Some (fst x)
      | Some c \<Rightarrow>
          (case map_of xs c of
             None \<Rightarrow> Some c
           | Some q \<Rightarrow> if length q < length (snd x) then Some (fst x) else Some c))"

definition pop_front :: "uuid option \<Rightarrow> parked \<Rightarrow> parked" where
  "pop_front c p =
     (case map_of (pk_chains p) c of
        Some (e # q) \<Rightarrow> p\<lparr>pk_chains := at_key c (\<lambda>l. q) (pk_chains p), pk_len := pk_len p - 1\<rparr>
      | _ \<Rightarrow> p)"

text \<open>The loop that makes room. It may run forever on an inconsistent count, and does not.\<close>

partial_function (option) make_room_loop :: "parked \<Rightarrow> parked option" where
  "make_room_loop p =
     (if pk_len p \<le> pk_limit p then Some p
      else case longest (pk_chains p) of
        None \<Rightarrow> Some p
      | Some c \<Rightarrow> make_room_loop (pop_front c p))"

definition park :: "uuid option \<Rightarrow> domain_event list \<Rightarrow> parked \<Rightarrow> parked option" where
  "park c es p =
     map_option (\<lambda>q. q\<lparr>pk_chains := filter (\<lambda>x. snd x \<noteq> []) (pk_chains q)\<rparr>) (make_room_loop (push_parked c es p))"

definition take_all :: "parked \<Rightarrow> (uuid option \<times> domain_event list) list \<times> parked" where
  "take_all p = (pk_chains p, p\<lparr>pk_chains := [], pk_len := 0\<rparr>)"

section \<open>The writer\<close>

text \<open>\<open>sqlx::Error\<close>, as far as the writer tells its cases apart; what the text of a
  database error stands for is the driver's.\<close>

datatype sqlx_error = PoolTimedOut | PoolClosed | SqlxIo | SqlxTls | WorkerCrashed | SqlxDatabase "string option" | SqlxOther

fun sqlx_passing :: "sqlx_error \<Rightarrow> bool" where
  "sqlx_passing (SqlxDatabase code) =
     (case code of None \<Rightarrow> False | Some c \<Rightarrow> starts_with c ''08'' \<or> starts_with c ''57P'' \<or> starts_with c ''53'')"
| "sqlx_passing SqlxOther = False"
| "sqlx_passing _ = True"

fun transient :: "(string \<Rightarrow> sqlx_error) \<Rightarrow> app_error \<Rightarrow> bool" where
  "transient kind (Unavailable _) = True"
| "transient kind (Database e) = sqlx_passing (kind e)"
| "transient kind _ = False"

text \<open>\<open>down i\<close> is the state of the database at the \<open>i\<close>-th append of a call.\<close>

fun write_each ::
  "audit_lib \<Rightarrow> instant \<Rightarrow> (string \<Rightarrow> sqlx_error) \<Rightarrow> (nat \<Rightarrow> app_error option) \<Rightarrow> nat \<Rightarrow> domain_event list \<Rightarrow> audit_log
     \<Rightarrow> ((nat \<times> app_error) + unit) \<times> audit_log" where
  "write_each lib now kind down i [] lg = (Inr (), lg)"
| "write_each lib now kind down i (e # es) lg =
     (case record_event lib now (down (Suc i)) e lg of
        (Inr _, lg1) \<Rightarrow> write_each lib now kind down (Suc i) es lg1
      | (Inl err, lg1) \<Rightarrow>
          if transient kind err then (Inl (i, err), lg1) else write_each lib now kind down (Suc i) es lg1)"

definition write_chain ::
  "audit_lib \<Rightarrow> instant \<Rightarrow> (string \<Rightarrow> sqlx_error) \<Rightarrow> (nat \<Rightarrow> app_error option) \<Rightarrow> uuid option \<Rightarrow> domain_event list \<Rightarrow> audit_log
     \<Rightarrow> ((nat \<times> app_error) + unit) \<times> audit_log" where
  "write_chain lib now kind down t es lg =
     (case record_chain lib now (down 0) t es lg of
        (Inr rows, lg1) \<Rightarrow> (Inr (), lg1)
      | (Inl err, lg1) \<Rightarrow>
          if transient kind err then (Inl (0, err), lg1)
          else if length es > 1 then write_each lib now kind down 0 es lg1
          else (Inr (), lg1))"

text \<open>The chains of a round are written several at a time, each under its own lock: their
  appends touch different rows, and the model writes them in turn.\<close>

fun park_held ::
  "(uuid option \<times> domain_event list) list \<Rightarrow> parked \<Rightarrow> ((uuid option \<times> domain_event list) list \<times> parked) option" where
  "park_held [] p = Some ([], p)"
| "park_held ((c, es) # cs) p =
     (if holds c p then Option.bind (park c es p) (park_held cs)
      else map_option (\<lambda>(ready, p1). ((c, es) # ready, p1)) (park_held cs p))"

fun write_ready ::
  "audit_lib \<Rightarrow> instant \<Rightarrow> (string \<Rightarrow> sqlx_error) \<Rightarrow> (uuid option \<Rightarrow> nat \<Rightarrow> app_error option) \<Rightarrow> (uuid option \<times> domain_event list) list
     \<Rightarrow> audit_log \<Rightarrow> (uuid option \<times> domain_event list \<times> ((nat \<times> app_error) + unit)) list \<times> audit_log" where
  "write_ready lib now kind down [] lg = ([], lg)"
| "write_ready lib now kind down ((c, es) # cs) lg =
     (let (r, lg1) = write_chain lib now kind (down c) c es lg; (rs, lg2) = write_ready lib now kind down cs lg1
      in ((c, es, r) # rs, lg2))"

fun park_rest :: "(uuid option \<times> domain_event list \<times> ((nat \<times> app_error) + unit)) list \<Rightarrow> parked \<Rightarrow> parked option" where
  "park_rest [] p = Some p"
| "park_rest ((c, es, Inr u) # os) p = park_rest os p"
| "park_rest ((c, es, Inl (written, err)) # os) p = Option.bind (park c (drop written es) p) (park_rest os)"

definition write_chains ::
  "audit_lib \<Rightarrow> instant \<Rightarrow> (string \<Rightarrow> sqlx_error) \<Rightarrow> (uuid option \<Rightarrow> nat \<Rightarrow> app_error option) \<Rightarrow> (uuid option \<times> domain_event list) list
     \<Rightarrow> parked \<Rightarrow> audit_log \<Rightarrow> (parked \<times> audit_log) option" where
  "write_chains lib now kind down cs p lg =
     Option.bind (park_held cs p) (\<lambda>(ready, p1).
       let (outcomes, lg1) = write_ready lib now kind down ready lg
       in map_option (\<lambda>p2. (p2, lg1)) (park_rest outcomes p1))"

text \<open>A round of the writer: a batch from the bus, or the retry of what is parked.\<close>

definition write_batch ::
  "audit_lib \<Rightarrow> instant \<Rightarrow> (string \<Rightarrow> sqlx_error) \<Rightarrow> (uuid option \<Rightarrow> nat \<Rightarrow> app_error option) \<Rightarrow> domain_event list
     \<Rightarrow> parked \<times> audit_log \<Rightarrow> (parked \<times> audit_log) option" where
  "write_batch lib now kind down batch = (\<lambda>(p, lg). write_chains lib now kind down (group_by_chain batch) p lg)"

definition retry_parked ::
  "audit_lib \<Rightarrow> instant \<Rightarrow> (string \<Rightarrow> sqlx_error) \<Rightarrow> (uuid option \<Rightarrow> nat \<Rightarrow> app_error option)
     \<Rightarrow> parked \<times> audit_log \<Rightarrow> (parked \<times> audit_log) option" where
  "retry_parked lib now kind down =
     (\<lambda>(p, lg). if pk_len p > 0 then (case take_all p of (cs, p1) \<Rightarrow> write_chains lib now kind down cs p1 lg) else Some (p, lg))"

section \<open>Intact chains\<close>

definition next_of :: "audit_event \<Rightarrow> audit_event \<Rightarrow> bool" where
  "next_of r s = (ae_seq s = ae_seq r + 1 \<and> ae_prev_hash s = Some (ae_hash r))"

definition self_ok :: "audit_lib \<Rightarrow> audit_event \<Rightarrow> bool" where
  "self_ok lib r = (hash_of lib (ae_prev_hash r) r = ae_hash r)"

fun linked :: "audit_lib \<Rightarrow> audit_event list \<Rightarrow> bool" where
  "linked lib [] = True"
| "linked lib [r] = self_ok lib r"
| "linked lib (r # s # rs) = (self_ok lib r \<and> next_of r s \<and> linked lib (s # rs))"

lemma linked_Cons:
  "linked lib (r # rs) \<longleftrightarrow> self_ok lib r \<and> (rs \<noteq> [] \<longrightarrow> next_of r (hd rs)) \<and> linked lib rs"
  by (cases rs) auto

lemma linked_append:
  "linked lib (xs @ ys) \<longleftrightarrow> linked lib xs \<and> linked lib ys \<and> (xs \<noteq> [] \<longrightarrow> ys \<noteq> [] \<longrightarrow> next_of (last xs) (hd ys))"
  by (induction xs) (auto simp: linked_Cons)

lemma linked_take: "linked lib rs \<Longrightarrow> linked lib (take n rs)"
  using linked_append [of lib "take n rs" "drop n rs"] by simp

lemma linked_drop: "linked lib rs \<Longrightarrow> linked lib (drop n rs)"
  using linked_append [of lib "take n rs" "drop n rs"] by simp

lemma linked_strict: "linked lib rs \<Longrightarrow> sorted_wrt (\<lambda>r s. ae_seq r < ae_seq s) rs"
proof (induction lib rs rule: linked.induct)
  case (3 lib r s rs)
  then have "sorted_wrt (\<lambda>r s. ae_seq r < ae_seq s) (s # rs)" "ae_seq r < ae_seq s" by (simp_all add: next_of_def)
  then show ?case by auto
qed simp_all

lemma linked_sorted: "linked lib rs \<Longrightarrow> sorted (map ae_seq rs)" "linked lib rs \<Longrightarrow> distinct (map ae_seq rs)"
  using linked_strict [of lib rs] strict_sorted_iff [of "map ae_seq rs"] by (simp_all add: sorted_wrt_map)

text \<open>What a verifier finds on a list of rows that starts right for it.\<close>

definition starts_right :: "verifier \<Rightarrow> uuid \<Rightarrow> audit_event list \<Rightarrow> bool" where
  "starts_right v chain rs \<longleftrightarrow> (vr_chain v = None \<or> vr_chain v = Some chain) \<and>
     (\<forall>seq h. vr_prev v = Some (seq, h) \<longrightarrow> rs \<noteq> [] \<longrightarrow> ae_seq (hd rs) = seq + 1 \<and> ae_prev_hash (hd rs) = Some h)"

definition passed :: "verifier \<Rightarrow> uuid \<Rightarrow> audit_event list \<Rightarrow> verifier" where
  "passed v chain rs =
     (if rs = [] then v
      else \<lparr>vr_chain = Some chain, vr_prev = Some (ae_seq (last rs), ae_hash (last rs)), vr_checked = vr_checked v + length rs,
            vr_first_seq = (case vr_first_seq v of None \<Rightarrow> Some (ae_seq (hd rs)) | Some s \<Rightarrow> Some s),
            vr_last_seq = Some (ae_seq (last rs)), vr_last_hash = Some (ae_hash (last rs))\<rparr>)"

lemma check_passes_iff:
  "fst (check lib (canonical_view r) (ae_prev_hash r) (ae_hash r) v) = None
   \<longleftrightarrow> starts_right v (chain_id (ae_tenant r)) [r] \<and> self_ok lib r"
  by (auto simp: check_def Let_def starts_right_def canonical_view_def self_ok_def hash_of_def split: option.splits)

lemma check_passes:
  assumes "starts_right v (chain_id (ae_tenant r)) [r]" "self_ok lib r"
  shows "check lib (canonical_view r) (ae_prev_hash r) (ae_hash r) v = (None, passed v (chain_id (ae_tenant r)) [r])"
  using assms
  by (auto simp: check_def Let_def starts_right_def passed_def canonical_view_def self_ok_def hash_of_def split: option.splits)

lemma check_rows_None_iff:
  assumes "\<forall>r\<in>set rs. in_chain chain r"
  shows "fst (check_rows lib rs v) = None \<longleftrightarrow> rs = [] \<or> starts_right v chain rs \<and> linked lib rs"
  using assms
proof (induction rs arbitrary: v)
  case (Cons r rs)
  have c: "chain_id (ae_tenant r) = chain" using Cons.prems by (simp add: in_chain_def)
  have h: "starts_right v chain (r # rs) = starts_right v chain [r]" by (simp add: starts_right_def)
  have p: "starts_right (passed v chain [r]) chain rs \<longleftrightarrow> (rs \<noteq> [] \<longrightarrow> next_of r (hd rs))"
    by (auto simp: starts_right_def passed_def next_of_def)
  show ?case
  proof (cases "starts_right v chain [r] \<and> self_ok lib r")
    case True
    then have "check_rows lib (r # rs) v = check_rows lib rs (passed v chain [r])"
      using check_passes [of v r lib] c by simp
    moreover have "fst (check_rows lib rs (passed v chain [r])) = None
      \<longleftrightarrow> rs = [] \<or> starts_right (passed v chain [r]) chain rs \<and> linked lib rs"
      using Cons.prems by (intro Cons.IH) simp
    ultimately show ?thesis using True h p by (cases rs) (auto simp: linked_Cons)
  next
    case False
    then have "fst (check lib (canonical_view r) (ae_prev_hash r) (ae_hash r) v) \<noteq> None"
      using check_passes_iff [of lib r v] c by simp
    then have "fst (check_rows lib (r # rs) v) \<noteq> None" by (auto split: option.splits prod.splits)
    then show ?thesis using False h by (auto simp: linked_Cons)
  qed
qed simp

lemma passed_Cons: "passed (passed v chain [r]) chain rs = passed v chain (r # rs)"
  by (auto simp: passed_def split: option.splits)

lemma check_rows_passed:
  assumes "\<forall>r\<in>set rs. in_chain chain r" "starts_right v chain rs" "linked lib rs"
  shows "check_rows lib rs v = (None, passed v chain rs)"
  using assms
proof (induction rs arbitrary: v)
  case (Cons r rs)
  have c: "chain_id (ae_tenant r) = chain" using Cons.prems by (simp add: in_chain_def)
  have "starts_right v chain [r]" "self_ok lib r" "linked lib rs" "starts_right (passed v chain [r]) chain rs"
    using Cons.prems by (auto simp: linked_Cons starts_right_def passed_def next_of_def)
  then show ?case
    using Cons.prems Cons.IH [of "passed v chain [r]"] check_passes [of v r lib] c by (simp add: passed_Cons)
qed (simp add: passed_def)

lemma check_rows_append:
  "check_rows lib (xs @ ys) v =
     (case check_rows lib xs v of (Some b, v1) \<Rightarrow> (Some b, v1) | (None, v1) \<Rightarrow> check_rows lib ys v1)"
  by (induction xs arbitrary: v) (auto split: option.splits prod.splits)

section \<open>The pages of a walk\<close>

lemma sorted_chain_rows: "sorted (map ae_seq (chain_rows chain rows))"
  by (simp add: chain_rows_def)

lemma in_chain_rows: "r \<in> set (chain_rows chain rows) \<longleftrightarrow> r \<in> set rows \<and> in_chain chain r"
  by (auto simp: chain_rows_def)

lemma le_last_sorted: "sorted (map f xs) \<Longrightarrow> x \<in> set xs \<Longrightarrow> f x \<le> (f (last xs) :: int)"
  by (induction xs rule: rev_induct) (auto simp: sorted_append)

lemma filter_gt_last_take:
  fixes f :: "'a \<Rightarrow> int"
  assumes "sorted (map f xs)" "distinct (map f xs)" "0 < n" "xs \<noteq> []"
  shows "filter (\<lambda>x. f (last (take n xs)) < f x) xs = drop n xs"
proof -
  have t: "take n xs \<noteq> []" using assms by simp
  have s: "sorted_wrt (\<lambda>x y. f x < f y) (take n xs @ drop n xs)"
    using assms(1,2) strict_sorted_iff [of "map f xs"] by (simp add: sorted_wrt_map)
  have "filter (\<lambda>x. f (last (take n xs)) < f x) (take n xs) = []"
  proof (rule filter_False, rule ballI)
    fix x assume x: "x \<in> set (take n xs)"
    have "sorted (map f (take n xs))" using assms(1) by (metis sorted_wrt_take take_map)
    then have "f x \<le> f (last (take n xs))" using x by (rule le_last_sorted)
    then show "\<not> f (last (take n xs)) < f x" by simp
  qed
  moreover have "filter (\<lambda>x. f (last (take n xs)) < f x) (drop n xs) = drop n xs"
    using s [unfolded sorted_wrt_append] last_in_set [OF t] by (intro filter_True) blast
  ultimately show ?thesis by (metis append_Nil append_take_drop_id filter_append)
qed

lemma rows_after_strict:
  assumes "distinct (map ae_seq (chain_rows chain rows))"
  shows "sorted (map ae_seq (rows_after chain after rows))" "distinct (map ae_seq (rows_after chain after rows))"
  using assms sorted_chain_rows [of chain rows]
  by (simp_all add: rows_after_def sorted_filter distinct_map_filter)

lemma rows_after_last:
  assumes "r \<in> set (rows_after chain after rows)"
  shows "rows_after chain (Some (ae_seq r)) rows = filter (\<lambda>s. ae_seq r < ae_seq s) (rows_after chain after rows)"
  using assms by (auto simp: rows_after_def intro!: filter_cong split: option.splits)

lemma walk_pages_eq:
  assumes "distinct (map ae_seq (chain_rows chain rows))"
  shows "walk_pages lib rows chain after v = check_rows lib (rows_after chain after rows) v"
  using assms
proof (induction lib rows chain after v rule: walk_pages.induct)
  case (1 lib rows chain after v)
  define ra where "ra = rows_after chain after rows"
  define page where "page = take EXPORT_PAGE ra"
  have page: "chain_page chain after EXPORT_PAGE rows = page" by (simp add: page_def ra_def chain_page_eq)
  have split: "ra = page @ drop EXPORT_PAGE ra" by (simp add: page_def)
  obtain b v1 where c: "check_rows lib page v = (b, v1)" by (cases "check_rows lib page v")
  have step: "walk_pages lib rows chain after v =
      (case b of Some b \<Rightarrow> (Some b, v1)
       | None \<Rightarrow> if length page < EXPORT_PAGE then (None, v1) else walk_pages lib rows chain (Some (ae_seq (last page))) v1)"
    by (subst walk_pages.simps) (simp add: Let_def page c)
  have whole: "check_rows lib ra v = (case b of Some b \<Rightarrow> (Some b, v1) | None \<Rightarrow> check_rows lib (drop EXPORT_PAGE ra) v1)"
    by (subst split, subst check_rows_append) (simp add: c)
  show ?case
  proof (cases "b = None \<and> \<not> length page < EXPORT_PAGE")
    case False
    then show ?thesis using step whole unfolding ra_def [symmetric]
      by (auto simp: page_def split: option.splits)
  next
    case True
    then have ne: "page \<noteq> []" by (auto simp: EXPORT_PAGE_def)
    then have "last page \<in> set ra" by (metis in_set_takeD last_in_set page_def)
    then have "rows_after chain (Some (ae_seq (last page))) rows = filter (\<lambda>s. ae_seq (last page) < ae_seq s) ra"
      unfolding ra_def by (rule rows_after_last)
    also have "\<dots> = drop EXPORT_PAGE ra" unfolding page_def
      using rows_after_strict [OF 1(2), of after] ne by (intro filter_gt_last_take) (auto simp: ra_def page_def EXPORT_PAGE_def)
    finally have "rows_after chain (Some (ae_seq (last page))) rows = drop EXPORT_PAGE ra" .
    moreover have "walk_pages lib rows chain (Some (ae_seq (last page))) v1
        = check_rows lib (rows_after chain (Some (ae_seq (last page))) rows) v1"
      using 1(1) [OF refl] True c page 1(2) by simp
    ultimately show ?thesis using step whole True unfolding ra_def [symmetric] by simp
  qed
qed

section \<open>Appending\<close>

lemma chain_row_simps [simp]:
  "ae_tenant (chain_row lib now e prev) = de_tenant e"
  "ae_seq (chain_row lib now e prev) = (case prev of Some (seq, h) \<Rightarrow> seq + 1 | None \<Rightarrow> 1)"
  "ae_prev_hash (chain_row lib now e prev) = map_option snd prev"
  by (simp_all add: chain_row_def Let_def split: prod.splits)

lemma self_ok_chain_row [simp]: "self_ok lib (chain_row lib now e prev)"
  by (simp add: self_ok_def chain_row_def hash_of_def canonical_view_def Let_def split: prod.splits)

lemma chain_rows_of_Nil_iff [simp]: "chain_rows_of lib now es head = [] \<longleftrightarrow> es = []"
  by (cases es) (simp_all add: Let_def)

lemma hd_chain_rows_of: "es \<noteq> [] \<Longrightarrow> hd (chain_rows_of lib now es head) = chain_row lib now (hd es) head"
  by (cases es) (simp_all add: Let_def)

lemma chain_rows_of_linked: "linked lib (chain_rows_of lib now es head)"
  by (induction es arbitrary: head) (auto simp: Let_def linked_Cons hd_chain_rows_of next_of_def)

lemma chain_rows_of_tenant: "r \<in> set (chain_rows_of lib now es head) \<Longrightarrow> ae_tenant r \<in> de_tenant ` set es"
  by (induction es arbitrary: head) (auto simp: Let_def)

text \<open>\<open>head_ok\<close>: the recorded head is the last row, and the rows up to the checkpoint are as
  they were verified.\<close>

definition head_ok :: "chain_state option \<Rightarrow> audit_event list \<Rightarrow> bool" where
  "head_ok c rs =
     (case c of None \<Rightarrow> rs = []
      | Some c \<Rightarrow> (rs \<noteq> [] \<longrightarrow> ae_seq (last rs) = cs_head_seq c \<and> ae_hash (last rs) = cs_head_hash c) \<and>
          cs_broken_at_seq c = None \<and>
          (\<forall>s h. cs_verified_seq c = Some s \<longrightarrow> cs_verified_hash c = Some h \<longrightarrow>
             s \<le> cs_head_seq c \<and> (\<forall>r\<in>set rs. ae_seq r = s \<longrightarrow> ae_hash r = h)))"

definition log_ok :: "audit_lib \<Rightarrow> audit_log \<Rightarrow> bool" where
  "log_ok lib lg \<longleftrightarrow> distinct (map row_key (lg_rows lg)) \<and>
     (\<forall>chain. linked lib (chain_rows chain (lg_rows lg)) \<and> head_ok (lg_chains lg chain) (chain_rows chain (lg_rows lg)))"

lemma head_ok_None [simp]: "head_ok None rs \<longleftrightarrow> rs = []"
  by (simp add: head_ok_def)

lemma log_okD:
  assumes "log_ok lib lg"
  shows "distinct (map row_key (lg_rows lg))" "linked lib (chain_rows chain (lg_rows lg))"
    "head_ok (lg_chains lg chain) (chain_rows chain (lg_rows lg))"
  using assms by (auto simp: log_ok_def)

lemma chain_rows_append_other:
  "\<forall>r\<in>set new. chain_id (ae_tenant r) \<noteq> chain \<Longrightarrow> chain_rows chain (rows @ new) = chain_rows chain rows"
  by (simp add: chain_rows_def in_chain_def)

lemma chain_rows_append:
  assumes "\<forall>r\<in>set new. in_chain chain r" "sorted (map ae_seq new)"
    "\<forall>r\<in>set (chain_rows chain rows). \<forall>s\<in>set new. ae_seq r < ae_seq s"
  shows "chain_rows chain (rows @ new) = chain_rows chain rows @ new"
  using assms by (simp add: chain_rows_def sort_key_append)

definition head_of :: "uuid \<Rightarrow> audit_log \<Rightarrow> (int \<times> string) option" where
  "head_of chain lg = (case chains_head chain lg of Some h \<Rightarrow> Some h | None \<Rightarrow> chain_head chain (lg_rows lg))"

lemma head_of_ok:
  assumes "log_ok lib lg"
  shows "head_of chain lg = map_option (\<lambda>c. (cs_head_seq c, cs_head_hash c)) (lg_chains lg chain)"
proof (cases "lg_chains lg chain")
  case None
  then have "chain_rows chain (lg_rows lg) = []" using log_okD(3) [OF assms, of chain] by simp
  then show ?thesis using None by (simp add: head_of_def chains_head_def chain_head_def)
qed (simp add: head_of_def chains_head_def)

lemma seq_le_head:
  assumes "log_ok lib lg" "r \<in> set (chain_rows chain (lg_rows lg))" "lg_chains lg chain = Some c"
  shows "ae_seq r \<le> cs_head_seq c"
proof -
  have "ae_seq r \<le> ae_seq (last (chain_rows chain (lg_rows lg)))"
    using assms(2) linked_sorted(1) [OF log_okD(2) [OF assms(1)]] by (rule le_last_sorted [rotated])
  also have "\<dots> = cs_head_seq c" using log_okD(3) [OF assms(1), of chain] assms(2,3) by (auto simp: head_ok_def)
  finally show ?thesis .
qed

text \<open>The rows an append writes follow those of the chain.\<close>

lemma new_rows_follow:
  assumes ok: "log_ok lib lg" and es: "\<forall>e\<in>set es. chain_id (de_tenant e) = chain"
    and new: "new = chain_rows_of lib now es (head_of chain lg)"
  shows "chain_rows chain (lg_rows lg @ new) = chain_rows chain (lg_rows lg) @ new"
    "linked lib (chain_rows chain (lg_rows lg) @ new)"
    "\<forall>c. lg_chains lg chain = Some c \<longrightarrow> (\<forall>r\<in>set new. cs_head_seq c < ae_seq r)"
proof -
  let ?old = "chain_rows chain (lg_rows lg)"
  note lold = log_okD(2) [OF ok, of chain] and hok = log_okD(3) [OF ok, of chain]
  have lnew: "linked lib new" unfolding new by (rule chain_rows_of_linked)
  have inch: "\<forall>r\<in>set new. in_chain chain r" using es chain_rows_of_tenant unfolding new in_chain_def by fastforce
  have hd_new: "new \<noteq> [] \<Longrightarrow> hd new = chain_row lib now (hd es) (head_of chain lg)"
    unfolding new by (cases "es = []") (simp_all add: hd_chain_rows_of)
  have link: "?old \<noteq> [] \<longrightarrow> new \<noteq> [] \<longrightarrow> next_of (last ?old) (hd new)"
    using hok hd_new head_of_ok [OF ok, of chain] by (auto simp: head_ok_def next_of_def split: option.splits)
  show l: "linked lib (?old @ new)" using lold lnew link by (simp add: linked_append)
  have lt: "\<forall>r\<in>set ?old. \<forall>s\<in>set new. ae_seq r < ae_seq s"
    using linked_strict [OF l] by (simp add: sorted_wrt_append)
  show "chain_rows chain (lg_rows lg @ new) = ?old @ new"
    using inch linked_sorted(1) [OF lnew] lt by (rule chain_rows_append)
  show "\<forall>c. lg_chains lg chain = Some c \<longrightarrow> (\<forall>r\<in>set new. cs_head_seq c < ae_seq r)"
  proof (intro allI impI ballI)
    fix c r assume c: "lg_chains lg chain = Some c" and r: "r \<in> set new"
    then have ne: "new \<noteq> []" by auto
    have "ae_seq (hd new) = cs_head_seq c + 1" using hd_new [OF ne] head_of_ok [OF ok, of chain] c by simp
    moreover have "ae_seq (hd new) \<le> ae_seq r" using linked_sorted(1) [OF lnew] r by (cases new) auto
    ultimately show "cs_head_seq c < ae_seq r" by simp
  qed
qed

lemma record_chain_keeps:
  assumes ok: "log_ok lib lg" and es: "\<forall>e\<in>set es. de_tenant e = t"
  shows "log_ok lib (snd (record_chain lib now down t es lg))"
proof -
  let ?ch = "chain_id t"
  define new where "new = chain_rows_of lib now es (head_of ?ch lg)"
  have es': "\<forall>e\<in>set es. chain_id (de_tenant e) = ?ch" using es by simp
  note f = new_rows_follow [OF ok es' new_def]
  show ?thesis
  proof (cases "down = None \<and> new \<noteq> [] \<and> distinct (map row_key (lg_rows lg @ new))")
    case False
    then have "snd (record_chain lib now down t es lg) = lg"
      by (auto simp: record_chain_def Let_def insert_many_def new_def head_of_def split: option.splits)
    then show ?thesis using ok by simp
  next
    case True
    obtain c' where c': "lg_chains (snd (record_chain lib now down t es lg)) = (lg_chains lg)(?ch \<mapsto> c')"
      "cs_head_seq c' = ae_seq (last new)" "cs_head_hash c' = ae_hash (last new)"
      "cs_broken_at_seq c' = Option.bind (lg_chains lg ?ch) cs_broken_at_seq"
      "cs_verified_seq c' = Option.bind (lg_chains lg ?ch) cs_verified_seq"
      "cs_verified_hash c' = Option.bind (lg_chains lg ?ch) cs_verified_hash"
      using True f(3) last_in_set [of new]
      by (cases "lg_chains lg ?ch")
        (auto simp: record_chain_def Let_def insert_many_def new_def head_of_def advance_head_def)
    have rows: "lg_rows (snd (record_chain lib now down t es lg)) = lg_rows lg @ new"
      using True by (auto simp: record_chain_def Let_def insert_many_def new_def head_of_def advance_head_def split: option.splits)
    have "linked lib (chain_rows chain (lg_rows lg @ new)) \<and>
        head_ok (((lg_chains lg)(?ch \<mapsto> c')) chain) (chain_rows chain (lg_rows lg @ new))" for chain
    proof (cases "chain = ?ch")
      case False
      then have "chain_rows chain (lg_rows lg @ new) = chain_rows chain (lg_rows lg)"
        using es chain_rows_of_tenant unfolding new_def by (intro chain_rows_append_other) fastforce
      then show ?thesis using False log_okD(2,3) [OF ok, of chain] by simp
    next
      case same: True
      have "head_ok (Some c') (chain_rows ?ch (lg_rows lg) @ new)"
      proof (cases "lg_chains lg ?ch")
        case None
        then show ?thesis using True c' by (simp add: head_ok_def)
      next
        case (Some c)
        have lt: "\<forall>r\<in>set new. cs_head_seq c < ae_seq r" "cs_head_seq c < ae_seq (last new)" using f(3) True Some by auto
        have h: "cs_broken_at_seq c = None" "\<And>s h. cs_verified_seq c = Some s \<Longrightarrow> cs_verified_hash c = Some h \<Longrightarrow>
            s \<le> cs_head_seq c \<and> (\<forall>r\<in>set (chain_rows ?ch (lg_rows lg)). ae_seq r = s \<longrightarrow> ae_hash r = h)"
          using log_okD(3) [OF ok, of ?ch] Some by (simp_all add: head_ok_def)
        have "s \<le> cs_head_seq c' \<and> (\<forall>r\<in>set (chain_rows ?ch (lg_rows lg) @ new). ae_seq r = s \<longrightarrow> ae_hash r = h)"
          if "cs_verified_seq c' = Some s" "cs_verified_hash c' = Some h" for s h
          using h(2) [of s h] that c' Some lt by force
        then show ?thesis using True c' Some h(1) by (simp add: head_ok_def)
      qed
      then show ?thesis using same f by simp
    qed
    then show ?thesis using True c'(1) rows by (simp add: log_ok_def)
  qed
qed

section \<open>Purging\<close>

lemma chain_rows_filter: "chain_rows chain (filter P rows) = filter P (chain_rows chain rows)"
  by (simp add: chain_rows_def filter_sort filter_filter conj_commute)

lemma filter_le_prefix:
  fixes f :: "'a \<Rightarrow> int"
  assumes "sorted (map f xs)"
  shows "filter (\<lambda>x. f x \<le> k) xs = take (length (filter (\<lambda>x. f x \<le> k) xs)) xs"
  using assms
proof (induction xs)
  case (Cons x xs)
  show ?case
  proof (cases "f x \<le> k")
    case False
    then have "filter (\<lambda>x. f x \<le> k) xs = []" using Cons.prems by (auto simp: filter_empty_conv)
    then show ?thesis using False by simp
  qed (use Cons in simp)
qed simp

lemma filter_not_in_take: "distinct (map g xs) \<Longrightarrow> filter (\<lambda>x. g x \<notin> g ` set (take n xs)) xs = drop n xs"
proof -
  assume d: "distinct (map g xs)"
  have "distinct (map g (take n xs @ drop n xs))" using d by simp
  then have dis: "g ` set (take n xs) \<inter> g ` set (drop n xs) = {}" unfolding map_append distinct_append by simp
  have "filter (\<lambda>x. g x \<notin> g ` set (take n xs)) (take n xs @ drop n xs) = drop n xs"
    using dis unfolding filter_append by (auto intro!: filter_True simp: filter_empty_conv)
  then show ?thesis by simp
qed

lemma purge_prefix_drops:
  assumes d: "distinct (map row_key rows)" and l: "sorted (map ae_seq (chain_rows chain rows))"
    and r: "purge_prefix chain up_to batch rows = (n, rows1)"
  shows "\<exists>k. chain_rows chain rows1 = drop k (chain_rows chain rows)"
    "chain' \<noteq> chain \<Longrightarrow> chain_rows chain' rows1 = chain_rows chain' rows"
    "distinct (map row_key rows1)"
proof -
  let ?rs = "chain_rows chain rows"
  define k where "k = min batch (length (filter (\<lambda>r. ae_seq r \<le> up_to) ?rs))"
  have v: "set (purge_victims chain up_to batch rows) = row_key ` set (take k ?rs)"
    using filter_le_prefix [OF l, of up_to] by (metis k_def list.set_map purge_victims_def take_take)
  have rows1: "rows1 = filter (\<lambda>r. row_key r \<notin> row_key ` set (take k ?rs)) rows"
    using r by (auto simp: purge_prefix_def Let_def v)
  have dk: "distinct (map row_key ?rs)"
    using d by (auto simp: chain_rows_def distinct_map intro: inj_on_subset)
  have "chain_rows chain rows1 = drop k ?rs"
    unfolding rows1 chain_rows_filter by (rule filter_not_in_take [OF dk])
  then show "\<exists>k. chain_rows chain rows1 = drop k ?rs" ..
  show "chain_rows chain' rows1 = chain_rows chain' rows" if "chain' \<noteq> chain"
  proof -
    have "row_key r \<notin> row_key ` set (take k ?rs)" if r: "r \<in> set (chain_rows chain' rows)" for r
    proof
      assume "row_key r \<in> row_key ` set (take k ?rs)"
      then obtain s where s: "s \<in> set ?rs" "row_key r = row_key s" by (auto dest: in_set_takeD)
      then have "r = s" using d r by (auto simp: in_chain_rows distinct_map dest: inj_onD)
      then show False using s(1) r \<open>chain' \<noteq> chain\<close> by (simp add: in_chain_rows in_chain_def)
    qed
    then show ?thesis unfolding rows1 chain_rows_filter by (intro filter_True) blast
  qed
  show "distinct (map row_key rows1)" unfolding rows1 by (rule distinct_map_filter [OF d])
qed

lemma purge_all_drops:
  assumes "distinct (map row_key rows)" "sorted (map ae_seq (chain_rows chain rows))" "purge_all chain up_to acc rows = (n, rows1)"
  shows "(\<exists>k. chain_rows chain rows1 = drop k (chain_rows chain rows)) \<and>
    (\<forall>chain'. chain' \<noteq> chain \<longrightarrow> chain_rows chain' rows1 = chain_rows chain' rows) \<and> distinct (map row_key rows1)"
  using assms
proof (induction chain up_to acc rows arbitrary: n rows1 rule: purge_all.induct)
  case (1 chain up_to acc rows)
  obtain m rows2 where p: "purge_prefix chain up_to PURGE_BATCH rows = (m, rows2)" by (cases "purge_prefix chain up_to PURGE_BATCH rows")
  note f = purge_prefix_drops [OF 1(2,3) p]
  show ?case
  proof (cases "m < PURGE_BATCH")
    case True
    then have "rows1 = rows2" using 1(4) p by (simp add: purge_all.simps)
    then show ?thesis using f by blast
  next
    case False
    obtain k where k: "chain_rows chain rows2 = drop k (chain_rows chain rows)" using f(1) by blast
    have "purge_all chain up_to (acc + m) rows2 = (n, rows1)" using 1(4) p False by (simp add: purge_all.simps)
    moreover have "sorted (map ae_seq (chain_rows chain rows2))" by (rule sorted_chain_rows)
    ultimately have "(\<exists>k. chain_rows chain rows1 = drop k (chain_rows chain rows2)) \<and>
      (\<forall>chain'. chain' \<noteq> chain \<longrightarrow> chain_rows chain' rows1 = chain_rows chain' rows2) \<and> distinct (map row_key rows1)"
      using 1(1) [OF p [symmetric] False] f(3) by blast
    then show ?thesis using f(2) k by (metis drop_drop)
  qed
qed

lemma head_ok_drop:
  assumes "head_ok c rs"
  shows "head_ok c (drop k rs)"
  using assms by (auto simp: head_ok_def dest: in_set_dropD split: option.splits)

lemma head_ok_set_oldest:
  "head_ok (lg_chains (set_oldest chain first lg) ch) rs \<longleftrightarrow> head_ok (lg_chains lg ch) rs"
  by (auto simp: set_oldest_def head_ok_def split: option.splits)

lemma lg_rows_set_oldest [simp]: "lg_rows (set_oldest chain first lg) = lg_rows lg"
  by (simp add: set_oldest_def split: option.splits)

lemma purge_keeps:
  assumes ok: "log_ok lib lg"
  shows "log_ok lib (snd (purge now t days lg))"
proof (cases "days = 0")
  case False
  let ?ch = "chain_id t"
  obtain n rows where r: "(case expired_head ?ch (now - dur_days (int days)) (lg_rows lg) of
      None \<Rightarrow> (0, lg_rows lg) | Some up_to \<Rightarrow> purge_all ?ch up_to 0 (lg_rows lg)) = (n, rows)"
    by (rule prod.exhaust)
  have res: "snd (purge now t days lg) = set_oldest ?ch (first_row_at ?ch rows) (lg\<lparr>lg_rows := rows\<rparr>)"
    using False r by (simp add: purge_def Let_def)
  have "(\<exists>k. chain_rows ?ch rows = drop k (chain_rows ?ch (lg_rows lg))) \<and>
    (\<forall>ch. ch \<noteq> ?ch \<longrightarrow> chain_rows ch rows = chain_rows ch (lg_rows lg)) \<and> distinct (map row_key rows)"
  proof (cases "expired_head ?ch (now - dur_days (int days)) (lg_rows lg)")
    case None
    then have "chain_rows ?ch rows = drop 0 (chain_rows ?ch (lg_rows lg))" using r by simp
    then show ?thesis using None r log_okD(1) [OF ok] by (auto intro: exI [of _ 0])
  next
    case (Some up_to)
    then show ?thesis using r log_okD(1) [OF ok] by (intro purge_all_drops sorted_chain_rows) simp_all
  qed
  then obtain k where k: "chain_rows ?ch rows = drop k (chain_rows ?ch (lg_rows lg))"
    and o: "\<forall>ch. ch \<noteq> ?ch \<longrightarrow> chain_rows ch rows = chain_rows ch (lg_rows lg)" and d: "distinct (map row_key rows)" by blast
  have "linked lib (chain_rows ch rows) \<and> head_ok (lg_chains lg ch) (chain_rows ch rows)" for ch
    using k o log_okD(2,3) [OF ok, of ch] by (cases "ch = ?ch") (simp_all add: linked_drop head_ok_drop)
  then show ?thesis using d unfolding res by (simp add: log_ok_def head_ok_set_oldest)
qed (use ok in \<open>simp add: purge_def\<close>)

section \<open>Verifying\<close>

lemma rows_after_in_chain: "r \<in> set (rows_after chain after rows) \<Longrightarrow> in_chain chain r"
  by (simp add: rows_after_def in_chain_rows)

lemma rows_after_None [simp]: "rows_after chain None rows = chain_rows chain rows"
  by (simp add: rows_after_def)

lemma walk_intact:
  assumes "linked lib (chain_rows chain rows)"
  shows "walk lib rows chain None = (None, passed new_verifier chain (chain_rows chain rows))"
  using assms linked_sorted(2) [OF assms]
  by (simp add: walk_def walk_pages_eq)
    (intro check_rows_passed, auto simp: in_chain_rows starts_right_def new_verifier_def)

lemma filter_gt_suffix:
  assumes "sorted_wrt (\<lambda>x y. f x < (f y :: int)) (xs @ r # ys)"
  shows "filter (\<lambda>x. f r < f x) (xs @ r # ys) = ys"
  using assms by (force simp: sorted_wrt_append filter_empty_conv intro!: filter_True)

lemma walk_from_intact:
  assumes l: "linked lib (chain_rows chain rows)" and r: "r \<in> set (chain_rows chain rows)"
  shows "\<exists>rs. walk lib rows chain (Some (ae_seq r, ae_hash r)) = (None, passed (verifier_after chain (ae_seq r) (ae_hash r)) chain rs)
    \<and> set rs \<subseteq> set (chain_rows chain rows) \<and> (rs \<noteq> [] \<longrightarrow> last rs = last (chain_rows chain rows))"
proof -
  obtain xs ys where sp: "chain_rows chain rows = xs @ r # ys" using r by (auto simp: in_set_conv_decomp)
  have ys: "rows_after chain (Some (ae_seq r)) rows = ys"
    using filter_gt_suffix [of ae_seq xs r ys] linked_strict [OF l] by (simp add: rows_after_def sp)
  have "walk lib rows chain (Some (ae_seq r, ae_hash r)) = check_rows lib ys (verifier_after chain (ae_seq r) (ae_hash r))"
    by (simp add: walk_def walk_pages_eq [OF linked_sorted(2) [OF l]] ys)
  also have "\<dots> = (None, passed (verifier_after chain (ae_seq r) (ae_hash r)) chain ys)"
  proof (rule check_rows_passed)
    show "\<forall>s\<in>set ys. in_chain chain s" using rows_after_in_chain ys by blast
    show "starts_right (verifier_after chain (ae_seq r) (ae_hash r)) chain ys"
      using l sp by (auto simp: starts_right_def verifier_after_def linked_append linked_Cons next_of_def)
    show "linked lib ys" using l sp by (auto simp: linked_append linked_Cons)
  qed
  finally show ?thesis using sp by (intro exI [of _ ys]) auto
qed

lemma linked_self: "linked lib rs \<Longrightarrow> r \<in> set rs \<Longrightarrow> self_ok lib r"
  by (induction rs) (auto simp: linked_Cons)

lemma checkpoint_intact_ok:
  assumes ok: "log_ok lib lg" and c: "lg_chains lg chain = Some c" "cs_verified_seq c = Some s" "cs_verified_hash c = Some h"
  shows "checkpoint_intact lib (lg_rows lg) chain s h = None \<or>
    (\<exists>r\<in>set (chain_rows chain (lg_rows lg)). checkpoint_intact lib (lg_rows lg) chain s h = Some (Inr (ae_seq r, ae_hash r)))"
proof (cases "chain_page chain (Some (s - 1)) 1 (lg_rows lg)")
  case (Cons r rs)
  then have r: "r \<in> set (chain_rows chain (lg_rows lg))"
    by (metis chain_page_eq filter_is_subset in_set_takeD list.set_intros(1) rows_after_def subsetD)
  have "self_ok lib r" using linked_self [OF log_okD(2) [OF ok] r] .
  moreover have "ae_seq r = s \<longrightarrow> ae_hash r = h" using log_okD(3) [OF ok, of chain] c r by (simp add: head_ok_def)
  ultimately show ?thesis using r Cons by (auto simp: checkpoint_intact_def self_ok_def)
qed (simp add: checkpoint_intact_def)

lemma verify_one_ok:
  assumes ok: "log_ok lib lg" and c: "lg_chains lg chain = Some c"
  shows "\<exists>n. verify_one lib dbnow chain c lg = (\<lparr>cc_checked = n, cc_broken_at_seq = None\<rparr>, None, lg) \<or>
    chain_rows chain (lg_rows lg) \<noteq> [] \<and>
    verify_one lib dbnow chain c lg = (\<lparr>cc_checked = n, cc_broken_at_seq = None\<rparr>, None,
      set_verified dbnow chain (ae_seq (last (chain_rows chain (lg_rows lg)))) (ae_hash (last (chain_rows chain (lg_rows lg)))) lg)"
proof -
  let ?rs = "chain_rows chain (lg_rows lg)"
  have nb: "cs_broken_at_seq c = None" using log_okD(3) [OF ok, of chain] c by (simp add: head_ok_def)
  define start where "start = (case (cs_verified_seq c, cs_verified_hash c, cs_broken_at_seq c) of
            (Some seq, Some h, None) \<Rightarrow> checkpoint_intact lib (lg_rows lg) chain seq h
          | _ \<Rightarrow> None)"
  have "start = None \<or> (\<exists>r\<in>set ?rs. start = Some (Inr (ae_seq r, ae_hash r)))"
    using checkpoint_intact_ok [OF ok c] nb by (auto simp: start_def split: option.splits)
  then show ?thesis
  proof (elim disjE bexE)
    assume f: "start = None"
    have "walk lib (lg_rows lg) chain None = (None, passed new_verifier chain ?rs)" by (rule walk_intact [OF log_okD(2) [OF ok]])
    then show ?thesis using f unfolding verify_one_def start_def [symmetric] Let_def
      by (auto simp: passed_def new_verifier_def)
  next
    fix r assume r: "r \<in> set ?rs" and f: "start = Some (Inr (ae_seq r, ae_hash r))"
    obtain rs where w: "walk lib (lg_rows lg) chain (Some (ae_seq r, ae_hash r))
        = (None, passed (verifier_after chain (ae_seq r) (ae_hash r)) chain rs)" "rs \<noteq> [] \<longrightarrow> last rs = last ?rs"
      using walk_from_intact [OF log_okD(2) [OF ok] r] by blast
    have "?rs \<noteq> []" using r by auto
    then show ?thesis using f w unfolding verify_one_def start_def [symmetric] Let_def
      by (auto simp: passed_def verifier_after_def new_verifier_def)
  qed
qed

lemma set_verified_keeps:
  assumes ok: "log_ok lib lg" and ne: "chain_rows chain (lg_rows lg) \<noteq> []"
  shows "log_ok lib (set_verified dbnow chain (ae_seq (last (chain_rows chain (lg_rows lg)))) (ae_hash (last (chain_rows chain (lg_rows lg)))) lg)"
proof (cases "lg_chains lg chain")
  case (Some c)
  let ?rs = "chain_rows chain (lg_rows lg)"
  have "r = last ?rs" if "r \<in> set ?rs" "ae_seq r = ae_seq (last ?rs)" for r
    using linked_sorted(2) [OF log_okD(2) [OF ok, of chain]] that last_in_set [OF ne]
    by (auto simp: distinct_map dest: inj_onD)
  then have "head_ok (Some (c\<lparr>cs_verified_seq := Some (ae_seq (last ?rs)), cs_verified_hash := Some (ae_hash (last ?rs)),
      cs_verified_at := Some dbnow, cs_broken_at_seq := None, cs_broken_reason := None, cs_broken_at := None\<rparr>)) ?rs"
    using log_okD(3) [OF ok, of chain] Some ne by (auto simp: head_ok_def)
  then show ?thesis using log_okD [OF ok] Some by (auto simp: log_ok_def set_verified_def)
qed (use ok in \<open>simp add: set_verified_def\<close>)

lemma verify_chain_keeps:
  assumes ok: "log_ok lib lg"
  shows "log_ok lib (snd (snd (verify_chain lib dbnow t lg)))"
proof (cases "lg_chains lg (chain_id t)")
  case (Some c)
  then show ?thesis using verify_one_ok [OF ok Some, of dbnow] set_verified_keeps [OF ok, of "chain_id t" dbnow] ok
    by (auto simp: verify_chain_def)
qed (use ok in \<open>simp add: verify_chain_def\<close>)

section \<open>Runs of the log\<close>

inductive audit_step :: "audit_lib \<Rightarrow> audit_log \<Rightarrow> audit_log \<Rightarrow> bool" for lib :: audit_lib where
  step_record: "\<forall>e\<in>set es. de_tenant e = t \<Longrightarrow> audit_step lib lg (snd (record_chain lib now down t es lg))"
| step_purge: "audit_step lib lg (snd (purge now t days lg))"
| step_verify: "audit_step lib lg (snd (snd (verify_chain lib dbnow t lg)))"

interpretation audit_run: kept_by_steps "audit_step lib" "log_ok lib" for lib
  by unfold_locales (auto elim!: audit_step.cases intro: record_chain_keeps purge_keeps verify_chain_keeps)

definition empty_log :: audit_log where "empty_log = \<lparr>lg_rows = [], lg_chains = Map.empty\<rparr>"

lemma empty_log_ok: "log_ok lib empty_log"
  by (simp add: log_ok_def empty_log_def chain_rows_def)

text \<open>
  C26. Whatever is appended, purged and verified, in whatever order, a chain nobody tampered
  with verifies: the verify endpoint checks every retained row and finds no break, the last
  row it saw is the recorded head, and the scheduled check raises no alarm.
\<close>

theorem untampered_log_verifies:
  assumes "(audit_step lib)\<^sup>*\<^sup>* empty_log lg"
  shows "vf_valid (verify lib t lg) \<and> vf_checked (verify lib t lg) = length (chain_rows (chain_id t) (lg_rows lg)) \<and>
    (chain_rows (chain_id t) (lg_rows lg) \<noteq> [] \<longrightarrow>
       (\<exists>c. lg_chains lg (chain_id t) = Some c \<and> vf_last_seq (verify lib t lg) = Some (cs_head_seq c)
            \<and> vf_last_hash (verify lib t lg) = Some (cs_head_hash c))) \<and>
    fst (snd (verify_chain lib dbnow t lg)) = None"
proof -
  let ?rs = "chain_rows (chain_id t) (lg_rows lg)"
  have ok: "log_ok lib lg" by (rule audit_run.run_keeps [OF assms empty_log_ok])
  have w: "walk lib (lg_rows lg) (chain_id t) None = (None, passed new_verifier (chain_id t) ?rs)"
    by (rule walk_intact [OF log_okD(2) [OF ok]])
  have v: "vf_valid (verify lib t lg)" "vf_checked (verify lib t lg) = length ?rs"
    "vf_last_seq (verify lib t lg) = (if ?rs = [] then None else Some (ae_seq (last ?rs)))"
    "vf_last_hash (verify lib t lg) = (if ?rs = [] then None else Some (ae_hash (last ?rs)))"
    by (simp_all add: verify_def Let_def w passed_def new_verifier_def)
  have h: "?rs \<noteq> [] \<Longrightarrow> \<exists>c. lg_chains lg (chain_id t) = Some c \<and> ae_seq (last ?rs) = cs_head_seq c \<and> ae_hash (last ?rs) = cs_head_hash c"
    using log_okD(3) [OF ok, of "chain_id t"] by (auto simp: head_ok_def split: option.splits)
  have "fst (snd (verify_chain lib dbnow t lg)) = None"
    using verify_one_ok [OF ok, of "chain_id t" _ dbnow] by (fastforce simp: verify_chain_def split: option.splits)
  then show ?thesis using v h by auto
qed

text \<open>
  Reading a chain page by page and following each full page by the rows after its last
  is checking all its rows at once, from the first or from after a given row, when no
  position occurs twice: no row is skipped or checked twice at a page boundary, and the
  loop ends.
\<close>

theorem walk_checks_every_row:
  assumes "distinct (map ae_seq (chain_rows chain rows))"
  shows "walk lib rows chain start =
    (case start of
       None \<Rightarrow> check_rows lib (chain_rows chain rows) new_verifier
     | Some (seq, h) \<Rightarrow> check_rows lib (filter (\<lambda>r. seq < ae_seq r) (chain_rows chain rows)) (verifier_after chain seq h))"
  by (cases start) (auto simp: walk_def walk_pages_eq [OF assms] rows_after_def)

section \<open>What verification rules out, and what it does not\<close>

lemma valid_iff_walk: "vf_valid (verify lib t lg) \<longleftrightarrow> fst (walk lib (lg_rows lg) (chain_id t) None) = None"
  by (simp add: verify_def Let_def case_prod_unfold)

definition hashed :: "audit_lib \<Rightarrow> audit_event \<Rightarrow> string" where
  "hashed lib r = or_empty (ae_prev_hash r) @ canonical lib (canonical_view r)"

lemma self_ok_hashed: "self_ok lib r \<longleftrightarrow> l_digest lib 256 (hashed lib r) = ae_hash r"
  by (simp add: self_ok_def hash_of_def chain_hash_def hashed_def)

definition canonical_of :: "audit_lib \<Rightarrow> audit_event \<Rightarrow> string" where
  "canonical_of lib r = canonical lib (canonical_view r)"

lemma linked_same_end:
  assumes len: "\<forall>x. length (l_digest lib 256 x) = 32"
    and "linked lib rs" "linked lib rs'" "length rs = length rs'" "rs \<noteq> []" "ae_hash (last rs) = ae_hash (last rs')"
    and "\<forall>r\<in>set rs. \<forall>r'\<in>set rs'. l_digest lib 256 (hashed lib r) = l_digest lib 256 (hashed lib r') \<longrightarrow> hashed lib r = hashed lib r'"
  shows "map ae_hash rs = map ae_hash rs' \<and> hashed lib (hd rs) = hashed lib (hd rs') \<and>
    map (canonical_of lib) (tl rs) = map (canonical_of lib) (tl rs')"
  using assms(2-)
proof (induction rs arbitrary: rs' rule: rev_induct)
  case (snoc r xs)
  obtain ys r' where rs': "rs' = ys @ [r']" using snoc.prems(3) by (cases rs' rule: rev_cases) auto
  have ok: "self_ok lib r" "self_ok lib r'" "linked lib xs" "linked lib ys"
    using snoc.prems(1,2) by (auto simp: rs' linked_append linked_Cons)
  then have eq: "hashed lib r = hashed lib r'" "ae_hash r = ae_hash r'"
    using snoc.prems(5,6) by (auto simp: rs' self_ok_hashed)
  show ?case
  proof (cases "xs = []")
    case True
    then show ?thesis using eq snoc.prems(3) by (simp add: rs')
  next
    case False
    then have ys: "ys \<noteq> []" "length xs = length ys" using snoc.prems(3) by (auto simp: rs')
    have nx: "next_of (last xs) r" "next_of (last ys) r'"
      using snoc.prems(1,2) False ys by (auto simp: rs' linked_append)
    have "length (ae_hash (last xs)) = 32" "length (ae_hash (last ys)) = 32"
      using linked_self [OF ok(3) last_in_set [OF False]] linked_self [OF ok(4) last_in_set [OF ys(1)]] len
      by (metis self_ok_hashed)+
    then have h: "ae_hash (last xs) = ae_hash (last ys)" and c: "canonical_of lib r = canonical_of lib r'"
      using eq(1) nx by (auto simp: hashed_def next_of_def or_empty_def canonical_of_def)
    have "map ae_hash xs = map ae_hash ys \<and> hashed lib (hd xs) = hashed lib (hd ys) \<and>
        map (canonical_of lib) (tl xs) = map (canonical_of lib) (tl ys)"
      using snoc.prems ok False ys h by (intro snoc.IH) (auto simp: rs')
    then show ?thesis using eq c False ys by (simp add: rs')
  qed
qed simp

text \<open>
  C27. Two listings of a chain that both verify, with as many rows and the same last hash, agree
  on every hash and on the hashed text of every row after the first; the first agrees with
  the hash it follows. (The digests are 32 bytes, and no two of the texts hashed collide.)
  So whoever keeps a chain's last hash can tell that no row was rewritten since.
\<close>

theorem verified_chains_with_one_end_agree:
  assumes "\<forall>x. length (l_digest lib 256 x) = 32"
    and "\<forall>r\<in>set rs \<union> set rs'. in_chain chain r"
    and "fst (check_rows lib rs new_verifier) = None" "fst (check_rows lib rs' new_verifier) = None"
    and "length rs = length rs'" "rs \<noteq> []" "ae_hash (last rs) = ae_hash (last rs')"
    and "\<forall>r\<in>set rs. \<forall>r'\<in>set rs'. l_digest lib 256 (hashed lib r) = l_digest lib 256 (hashed lib r') \<longrightarrow> hashed lib r = hashed lib r'"
  shows "map ae_hash rs = map ae_hash rs' \<and> hashed lib (hd rs) = hashed lib (hd rs') \<and>
    map (canonical_of lib) (tl rs) = map (canonical_of lib) (tl rs')"
proof -
  have "rs' \<noteq> []" using assms(5,6) by auto
  then have "linked lib rs" "linked lib rs'"
    using assms(2-4,6) check_rows_None_iff [of rs chain lib new_verifier] check_rows_None_iff [of rs' chain lib new_verifier]
    by auto
  then show ?thesis using assms(1,5-) by (intro linked_same_end)
qed

definition ex_audit_lib :: audit_lib where
  "ex_audit_lib = library.extend (ex_library\<lparr>l_digest := (\<lambda>n x. take 32 (show_nat (length x) @ replicate 32 (CHR ''0'')))\<rparr>)
     (audit_lib.fields (\<lambda>t. ''t''))"

definition ex_event :: "uuid \<Rightarrow> domain_event" where
  "ex_event i = \<lparr>de_id = i, de_tenant = Some 1, de_occurred_at = 0, de_actor = ActorSystem, de_impersonator = None,
     de_ip = Some ''10.0.0.1'', de_user_agent = Some ''curl|8'', de_name = ''user.created'', de_payload = JObj []\<rparr>"

definition ex_rows :: "audit_event list" where
  "ex_rows = chain_rows_of ex_audit_lib 0 [ex_event 5, ex_event 6] None"

lemma ex_audit_lib_digest [simp]: "l_digest ex_audit_lib 256 x = take 32 (show_nat (length x) @ replicate 32 (CHR ''0''))"
  by (simp add: ex_audit_lib_def library.extend_def)

theorem verified_chains_with_one_end_agree_witness:
  "map ae_hash ex_rows = map ae_hash ex_rows \<and> hashed ex_audit_lib (hd ex_rows) = hashed ex_audit_lib (hd ex_rows) \<and>
    map (canonical_of ex_audit_lib) (tl ex_rows) = map (canonical_of ex_audit_lib) (tl ex_rows)"
proof (rule verified_chains_with_one_end_agree [where chain = 1])
  show "\<forall>r\<in>set ex_rows \<union> set ex_rows. in_chain 1 r" by code_simp
  show "fst (check_rows ex_audit_lib ex_rows new_verifier) = None" by code_simp
  show "fst (check_rows ex_audit_lib ex_rows new_verifier) = None" by code_simp
  show "ex_rows \<noteq> []" by code_simp
  show "\<forall>r\<in>set ex_rows. \<forall>r'\<in>set ex_rows. l_digest ex_audit_lib 256 (hashed ex_audit_lib r) = l_digest ex_audit_lib 256 (hashed ex_audit_lib r')
      \<longrightarrow> hashed ex_audit_lib r = hashed ex_audit_lib r'" by code_simp
qed (simp_all add: min_def)

text \<open>The runs of the examples.\<close>

definition ex_log :: audit_log where
  "ex_log = snd (record_chain ex_audit_lib 0 None (Some 1) [ex_event 5, ex_event 6] empty_log)"

lemma ex_log_reached: "(audit_step ex_audit_lib)\<^sup>*\<^sup>* empty_log ex_log"
  unfolding ex_log_def by (rule r_into_rtranclp) (auto intro!: step_record simp: ex_event_def)

theorem untampered_log_verifies_witness:
  "vf_valid (verify ex_audit_lib (Some 1) ex_log) \<and> vf_checked (verify ex_audit_lib (Some 1) ex_log) = 2"
proof -
  have "length (chain_rows (chain_id (Some 1)) (lg_rows ex_log)) = 2" by code_simp
  then show ?thesis using untampered_log_verifies [OF ex_log_reached, of "Some 1"] by simp
qed

theorem walk_checks_every_row_witness:
  "fst (walk ex_audit_lib ex_rows 1 None) = fst (check_rows ex_audit_lib (chain_rows 1 ex_rows) new_verifier)"
proof -
  have "distinct (map ae_seq (chain_rows 1 ex_rows))" by code_simp
  then show ?thesis using walk_checks_every_row [of 1 ex_rows ex_audit_lib None] by simp
qed

text \<open>An edit that leaves the position, the hashes and the hashed text of every row is not seen.\<close>

lemma linked_map:
  assumes "\<And>r. self_ok lib r \<Longrightarrow> self_ok lib (f r)" "\<And>r. ae_seq (f r) = ae_seq r" "\<And>r. ae_prev_hash (f r) = ae_prev_hash r"
    "\<And>r. ae_hash (f r) = ae_hash r"
  shows "linked lib rs \<Longrightarrow> linked lib (map f rs)"
  using assms by (induction lib rs rule: linked.induct) (auto simp: next_of_def)

lemma chain_rows_map:
  assumes "\<And>r. ae_seq (f r) = ae_seq r" "\<And>r. ae_tenant (f r) = ae_tenant r"
  shows "chain_rows chain (map f rows) = map f (chain_rows chain rows)"
proof -
  have "filter (in_chain chain) (map f rows) = map f (filter (in_chain chain) rows)"
    by (induction rows) (simp_all add: in_chain_def assms)
  moreover have "sort_key ae_seq (map f xs) = map f (sort_key ae_seq xs)" for xs
  proof -
    have "insort_key ae_seq (f x) (map f ys) = map f (insort_key ae_seq x ys)" for x ys
      by (induction ys) (simp_all add: assms)
    then show ?thesis by (induction xs) simp_all
  qed
  ultimately show ?thesis by (simp add: chain_rows_def)
qed

definition move_bar :: "string \<Rightarrow> string \<Rightarrow> audit_event \<Rightarrow> audit_event" where
  "move_bar a b r =
     (if ae_user_agent r = Some (a @ ''|'' @ b)
      then r\<lparr>ae_ip := Some (or_empty (ae_ip r) @ ''|'' @ a), ae_user_agent := Some b\<rparr> else r)"

lemma move_bar_simps [simp]:
  "ae_seq (move_bar a b r) = ae_seq r" "ae_tenant (move_bar a b r) = ae_tenant r"
  "ae_prev_hash (move_bar a b r) = ae_prev_hash r" "ae_hash (move_bar a b r) = ae_hash r"
  by (simp_all add: move_bar_def)

lemma move_bar_canonical: "canonical_of lib (move_bar a b r) = canonical_of lib r"
  by (simp add: move_bar_def canonical_of_def canonical_def canonical_view_def or_empty_def)

text \<open>
  The fields of a row are joined by bars that are not escaped, so the hash does not say
  where the address ends and the user agent, which the client chose, begins: in a log that
  was never tampered with, moving the part of a user agent before a bar into the address,
  in place, leaves the chain verifying.
\<close>

theorem edit_across_bar_is_not_seen:
  assumes "(audit_step lib)\<^sup>*\<^sup>* empty_log lg"
  shows "vf_valid (verify lib t (lg\<lparr>lg_rows := map (move_bar a b) (lg_rows lg)\<rparr>))"
proof -
  have ok: "log_ok lib lg" by (rule audit_run.run_keeps [OF assms empty_log_ok])
  have "self_ok lib (move_bar a b r)" if "self_ok lib r" for r
    using that move_bar_canonical [of lib a b r] by (simp add: self_ok_hashed hashed_def canonical_of_def)
  then have "linked lib (map (move_bar a b) (chain_rows (chain_id t) (lg_rows lg)))"
    using log_okD(2) [OF ok] by (intro linked_map) simp_all
  then have "fst (walk lib (map (move_bar a b) (lg_rows lg)) (chain_id t) None) = None"
    using walk_intact [of lib "chain_id t" "map (move_bar a b) (lg_rows lg)"] by (simp add: chain_rows_map)
  then show ?thesis by (simp add: valid_iff_walk)
qed

theorem edit_across_bar_is_not_seen_witness:
  "vf_valid (verify ex_audit_lib (Some 1) (ex_log\<lparr>lg_rows := map (move_bar ''curl'' ''8'') (lg_rows ex_log)\<rparr>)) \<and>
   map ae_ip (map (move_bar ''curl'' ''8'') (lg_rows ex_log)) = [Some ''10.0.0.1|curl'', Some ''10.0.0.1|curl'']"
proof -
  have "map ae_ip (map (move_bar ''curl'' ''8'') (lg_rows ex_log)) = [Some ''10.0.0.1|curl'', Some ''10.0.0.1|curl'']"
    by code_simp
  then show ?thesis using edit_across_bar_is_not_seen [OF ex_log_reached, of "Some 1" "''curl''" "''8''"] by simp
qed

text \<open>The newest rows of a chain can go without a break being found.\<close>

lemma removed_tail_verifies:
  assumes "(audit_step lib)\<^sup>*\<^sup>* empty_log lg"
  shows "vf_valid (verify lib t (lg\<lparr>lg_rows := filter (\<lambda>r. in_chain (chain_id t) r \<longrightarrow> ae_seq r \<le> k) (lg_rows lg)\<rparr>))"
proof -
  let ?rs = "chain_rows (chain_id t) (lg_rows lg)"
  have ok: "log_ok lib lg" by (rule audit_run.run_keeps [OF assms empty_log_ok])
  have "filter (\<lambda>r. in_chain (chain_id t) r \<longrightarrow> ae_seq r \<le> k) ?rs = filter (\<lambda>r. ae_seq r \<le> k) ?rs"
    by (rule filter_cong) (auto simp: in_chain_rows)
  also have "\<dots> = take (length (filter (\<lambda>r. ae_seq r \<le> k) ?rs)) ?rs" by (rule filter_le_prefix [OF sorted_chain_rows])
  finally have "linked lib (filter (\<lambda>r. in_chain (chain_id t) r \<longrightarrow> ae_seq r \<le> k) ?rs)"
    using linked_take [OF log_okD(2) [OF ok]] by metis
  then have "fst (walk lib (filter (\<lambda>r. in_chain (chain_id t) r \<longrightarrow> ae_seq r \<le> k) (lg_rows lg)) (chain_id t) None) = None"
    using walk_intact [of lib "chain_id t" "filter (\<lambda>r. in_chain (chain_id t) r \<longrightarrow> ae_seq r \<le> k) (lg_rows lg)"]
    by (simp add: chain_rows_filter)
  then show ?thesis by (simp add: valid_iff_walk)
qed

section \<open>Making room for parked events\<close>

definition parked_ok :: "parked \<Rightarrow> bool" where
  "parked_ok p \<longleftrightarrow> distinct (map fst (pk_chains p)) \<and> pk_len p = sum_list (map (length \<circ> snd) (pk_chains p))"

definition queue_of :: "parked \<Rightarrow> uuid option \<Rightarrow> domain_event list" where
  "queue_of p c = (case map_of (pk_chains p) c of None \<Rightarrow> [] | Some q \<Rightarrow> q)"

lemma map_fst_at_key [simp]: "map fst (at_key c f xs) = map fst xs"
  by (induction xs) (auto simp: at_key_def)

lemma map_of_at_key: "map_of (at_key c f xs) k = (if k = c then map_option f (map_of xs k) else map_of xs k)"
  by (induction xs) (auto simp: at_key_def)

lemma at_key_Cons [simp]: "at_key c f (x # xs) = (fst x, if fst x = c then f (snd x) else snd x) # at_key c f xs"
  by (simp add: at_key_def case_prod_unfold)

lemma at_key_Nil [simp]: "at_key c f [] = []"
  by (simp add: at_key_def)

lemma at_key_absent: "c \<notin> fst ` set xs \<Longrightarrow> at_key c f xs = xs"
  by (induction xs) auto

lemma sum_at_key:
  "distinct (map fst xs) \<Longrightarrow> map_of xs c = Some q \<Longrightarrow>
   sum_list (map (length \<circ> snd) (at_key c f xs)) + length q = sum_list (map (length \<circ> snd) xs) + length (f q)"
proof (induction xs)
  case (Cons x xs)
  then show ?case by (cases x) (auto simp: at_key_absent)
qed simp

lemma longest_maximal:
  "distinct (map fst xs) \<Longrightarrow> xs \<noteq> [] \<Longrightarrow>
   \<exists>c q. longest xs = Some c \<and> map_of xs c = Some q \<and> (\<forall>x\<in>set xs. length (snd x) \<le> length q)"
proof (induction xs)
  case (Cons x xs)
  show ?case
  proof (cases "xs = []")
    case False
    then obtain c q where c: "longest xs = Some c" "map_of xs c = Some q" "\<forall>x\<in>set xs. length (snd x) \<le> length q"
      using Cons by auto
    have "c \<noteq> fst x" using c(2) Cons.prems(1) by (auto dest: map_of_SomeD simp: rev_image_eqI)
    then show ?thesis using c by (cases x) (auto simp: not_less)
  qed (cases x, simp)
qed simp

lemma pop_front_longest:
  assumes ok: "parked_ok p" and gt: "pk_limit p < pk_len p"
  obtains c e q where "longest (pk_chains p) = Some c" "map_of (pk_chains p) c = Some (e # q)"
    "parked_ok (pop_front c p)" "pk_len (pop_front c p) = pk_len p - 1" "pk_limit (pop_front c p) = pk_limit p"
    "map fst (pk_chains (pop_front c p)) = map fst (pk_chains p)"
    "\<And>k. queue_of (pop_front c p) k = (if k = c then drop 1 (queue_of p k) else queue_of p k)"
proof -
  have d: "distinct (map fst (pk_chains p))" and n: "pk_len p = sum_list (map (length \<circ> snd) (pk_chains p))"
    using ok by (auto simp: parked_ok_def)
  have "pk_chains p \<noteq> []" using n gt by auto
  then obtain c q where c: "longest (pk_chains p) = Some c" "map_of (pk_chains p) c = Some q"
    "\<forall>x\<in>set (pk_chains p). length (snd x) \<le> length q" using longest_maximal [OF d] by blast
  have "q \<noteq> []"
  proof
    assume "q = []"
    then have "\<forall>x\<in>set (pk_chains p). (length \<circ> snd) x = 0" using c(3) by auto
    then have "pk_len p = 0" unfolding n by (simp only: sum_list_eq_0_iff set_map) auto
    then show False using gt by simp
  qed
  then obtain e q' where q: "q = e # q'" by (cases q) auto
  have pf: "pop_front c p = p\<lparr>pk_chains := at_key c (\<lambda>l. q') (pk_chains p), pk_len := pk_len p - 1\<rparr>"
    using c(2) q by (simp add: pop_front_def)
  have "sum_list (map (length \<circ> snd) (at_key c (\<lambda>l. q') (pk_chains p))) + length q = pk_len p + length q'"
    using sum_at_key [OF d c(2), of "\<lambda>l. q'"] n by simp
  then have "parked_ok (pop_front c p)" using d q unfolding pf parked_ok_def by simp
  then show thesis using that [of c e q'] c q pf by (simp add: queue_of_def map_of_at_key split: option.splits)
qed

lemma make_room:
  assumes "parked_ok p"
  shows "\<exists>q. make_room_loop p = Some q \<and> parked_ok q \<and> pk_limit q = pk_limit p \<and> pk_len q = min (pk_len p) (pk_limit p) \<and>
    (\<forall>k. \<exists>n. queue_of q k = drop n (queue_of p k))"
  using assms
proof (induction "pk_len p - pk_limit p" arbitrary: p)
  case 0
  then show ?case by (subst make_room_loop.simps) (auto simp: min_def intro!: exI [of _ "0::nat"])
next
  case (Suc d)
  then have gt: "pk_limit p < pk_len p" by simp
  obtain c e q where c: "longest (pk_chains p) = Some c" "map_of (pk_chains p) c = Some (e # q)"
    "parked_ok (pop_front c p)" "pk_len (pop_front c p) = pk_len p - 1" "pk_limit (pop_front c p) = pk_limit p"
    "map fst (pk_chains (pop_front c p)) = map fst (pk_chains p)"
    "\<And>k. queue_of (pop_front c p) k = (if k = c then drop 1 (queue_of p k) else queue_of p k)"
    using pop_front_longest [OF Suc.prems gt] by blast
  have "make_room_loop p = make_room_loop (pop_front c p)"
    using gt c(1) by (subst make_room_loop.simps) simp
  moreover have "\<exists>q. make_room_loop (pop_front c p) = Some q \<and> parked_ok q \<and> pk_limit q = pk_limit (pop_front c p) \<and>
      pk_len q = min (pk_len (pop_front c p)) (pk_limit (pop_front c p)) \<and> (\<forall>k. \<exists>n. queue_of q k = drop n (queue_of (pop_front c p) k))"
    using Suc c by (intro Suc.hyps(1)) simp_all
  ultimately obtain q' where q': "make_room_loop p = Some q'" "parked_ok q'" "pk_limit q' = pk_limit p"
    "pk_len q' = min (pk_len p - 1) (pk_limit p)" "\<forall>k. \<exists>n. queue_of q' k = drop n (queue_of (pop_front c p) k)"
    using c(4,5) by auto
  have "\<exists>n. queue_of q' k = drop n (queue_of p k)" for k using q'(5) by (metis c(7) drop_drop)
  moreover have "min (pk_len p - 1) (pk_limit p) = min (pk_len p) (pk_limit p)" using gt by simp
  ultimately show ?case using q' by auto
qed

lemma push_parked_ok:
  assumes "parked_ok p"
  shows "parked_ok (push_parked c es p)" "queue_of (push_parked c es p) k = queue_of p k @ (if k = c then es else [])"
proof -
  have d: "distinct (map fst (pk_chains p))" and n: "pk_len p = sum_list (map (length \<circ> snd) (pk_chains p))"
    using assms by (auto simp: parked_ok_def)
  have held: "\<exists>q. map_of (pk_chains p) c = Some q" if "holds c p"
    using that by (auto simp: holds_def dest: weak_map_of_SomeI)
  have free: "map_of (pk_chains p) c = None" if "\<not> holds c p"
    using that by (simp add: holds_def map_of_eq_None_iff)
  show "parked_ok (push_parked c es p)"
  proof (cases "holds c p")
    case True
    then obtain q where "map_of (pk_chains p) c = Some q" using held by blast
    then show ?thesis using sum_at_key [OF d, of c q "\<lambda>q. q @ es"] True d n by (simp add: parked_ok_def push_parked_def)
  next
    case False
    then show ?thesis using d n by (simp add: parked_ok_def push_parked_def holds_def)
  qed
  show "queue_of (push_parked c es p) k = queue_of p k @ (if k = c then es else [])"
    using held free by (auto simp: queue_of_def push_parked_def map_of_at_key map_add_def split: option.splits)
qed

lemma sum_nonempty: "sum_list (map (length \<circ> snd) (filter (\<lambda>x. snd x \<noteq> []) xs)) = sum_list (map (length \<circ> snd) xs)"
  by (induction xs) auto

lemma map_of_nonempty:
  "distinct (map fst xs) \<Longrightarrow> map_of (filter (\<lambda>x. snd x \<noteq> []) xs) k = (if map_of xs k = Some [] then None else map_of xs k)"
proof (induction xs)
  case (Cons x xs)
  have "map_of (filter (\<lambda>x. snd x \<noteq> []) xs) (fst x) = None" using Cons.prems by (auto simp: map_of_eq_None_iff)
  then show ?case using Cons by (cases x) simp
qed simp

text \<open>
  C28. Parking events always returns, whatever the number of events and the limit. Afterwards at
  most \<open>limit\<close> events are held, the count is the number of events held, no chain is held
  with nothing parked, and what is held of each chain is what was held followed by what was
  parked, less some of the oldest: order is kept and nothing is lost below the limit.
\<close>

theorem park_returns:
  assumes ok: "parked_ok p"
  shows "\<exists>q. park c es p = Some q \<and> parked_ok q \<and> pk_len q = min (pk_len p + length es) (pk_limit p) \<and> pk_limit q = pk_limit p \<and>
    (\<forall>k. holds k q \<longleftrightarrow> queue_of q k \<noteq> []) \<and>
    (\<forall>k. \<exists>n. queue_of q k = drop n (queue_of p k @ (if k = c then es else [])))"
proof -
  note push = push_parked_ok [OF ok, of c es]
  obtain r where r: "make_room_loop (push_parked c es p) = Some r" "parked_ok r" "pk_limit r = pk_limit p"
    "pk_len r = min (pk_len p + length es) (pk_limit p)"
    "\<forall>k. \<exists>n. queue_of r k = drop n (queue_of (push_parked c es p) k)"
    using make_room [OF push(1)] by (auto simp: push_parked_def)
  define q where "q = r\<lparr>pk_chains := filter (\<lambda>x. snd x \<noteq> []) (pk_chains r)\<rparr>"
  have d: "distinct (map fst (pk_chains r))" using r(2) by (simp add: parked_ok_def)
  have eq: "queue_of q k = queue_of r k" for k
    using map_of_nonempty [OF d, of k] by (auto simp: q_def queue_of_def split: option.splits)
  have "holds k q \<longleftrightarrow> map_of (pk_chains q) k \<noteq> None" for k by (simp add: holds_def map_of_eq_None_iff)
  then have h: "holds k q \<longleftrightarrow> queue_of q k \<noteq> []" for k
    using map_of_nonempty [OF d, of k] by (auto simp: q_def queue_of_def split: option.splits)
  have "parked_ok q" using r(2) by (simp add: parked_ok_def q_def sum_nonempty distinct_map_filter)
  moreover have "park c es p = Some q" by (simp add: park_def r(1) q_def)
  moreover have "pk_len q = pk_len r" "pk_limit q = pk_limit r" by (simp_all add: q_def)
  ultimately show ?thesis using r(3-5) eq h push(2) by auto
qed

theorem park_returns_witness:
  "\<exists>q. park (Some 1) [ex_event 5, ex_event 6] (parked_new 1) = Some q \<and> pk_len q = 1"
proof -
  have "parked_ok (parked_new 1)" by (simp add: parked_ok_def parked_new_def)
  from park_returns [OF this, of "Some 1" "[ex_event 5, ex_event 6]"] show ?thesis by (auto simp: parked_new_def)
qed

end
