(* ===== verification/Second_Factors.thy ===== *)
theory Second_Factors
  imports Domain Text "HOL-Library.Word"
begin

text \<open>
  The second factor (\<open>api/src/services/totp.rs\<close>, \<open>api/src/repos/credentials.rs\<close>): base32,
  time-based codes (RFC 6238), enrolment, recovery codes and their use. A credential's
  material is stored encrypted; the model keeps the plain text. HMAC-SHA-1 comes from
  outside the repository; its 20 bytes are a hypothesis where a proof needs them.
\<close>

unbundle bit_operations_syntax

section \<open>Base32\<close>

definition BASE32 :: string where "BASE32 = ''ABCDEFGHIJKLMNOPQRSTUVWXYZ234567''"

text \<open>The inner loop takes five bits at a time; the buffer is a \<open>u32\<close> whose upper bits are
  shifted out.\<close>

fun drain5 :: "32 word \<Rightarrow> nat \<Rightarrow> string \<times> nat" where
  "drain5 buffer bits =
     (if bits \<ge> 5 then
        (case drain5 buffer (bits - 5) of
           (out, rest) \<Rightarrow> (BASE32 ! unat ((drop_bit (bits - 5) buffer) AND 31) # out, rest))
      else ([], bits))"

declare drain5.simps [simp del]

fun encode32 :: "32 word \<Rightarrow> nat \<Rightarrow> string \<Rightarrow> string" where
  "encode32 buffer bits [] =
     (if bits > 0 then [BASE32 ! unat ((push_bit (5 - bits) buffer) AND 31)] else [])"
| "encode32 buffer bits (b # bs) =
     (let buffer1 = push_bit 8 buffer OR of_nat (byte b);
          (out, bits1) = drain5 buffer1 (bits + 8)
      in out @ encode32 buffer1 bits1 bs)"

definition base32_encode :: "string \<Rightarrow> string" where
  "base32_encode bs = encode32 0 0 bs"

fun index_of :: "'a \<Rightarrow> 'a list \<Rightarrow> nat option" where
  "index_of x [] = None"
| "index_of x (y # ys) = (if x = y then Some 0 else map_option Suc (index_of x ys))"

fun decode32 :: "32 word \<Rightarrow> nat \<Rightarrow> string \<Rightarrow> string option" where
  "decode32 buffer bits [] = Some []"
| "decode32 buffer bits (c # cs) =
     (case index_of (to_ascii_uppercase c) BASE32 of
        None \<Rightarrow> None
      | Some v \<Rightarrow>
          (let buffer1 = push_bit 5 buffer OR of_nat v; bits1 = bits + 5
           in if bits1 \<ge> 8
              then map_option (\<lambda>out. char_of (unat (drop_bit (bits1 - 8) buffer1) mod 256) # out) (decode32 buffer1 (bits1 - 8) cs)
              else decode32 buffer1 bits1 cs))"

definition trim_end_matches :: "char \<Rightarrow> string \<Rightarrow> string" where
  "trim_end_matches c s = rev (dropWhile (\<lambda>x. x = c) (rev s))"

definition base32_decode :: "string \<Rightarrow> string option" where
  "base32_decode s = decode32 0 0 (trim_end_matches (CHR ''='') s)"

section \<open>Time-based codes\<close>

definition DIGITS :: nat where "DIGITS = 6"
definition PERIOD_SECS :: nat where "PERIOD_SECS = 30"
definition SKEW :: nat where "SKEW = 1"
definition RECOVERY_CODE_COUNT :: nat where "RECOVERY_CODE_COUNT = 10"
definition RECOVERY_CODE_LEN :: nat where "RECOVERY_CODE_LEN = 10"
definition RECOVERY_ALPHABET :: string where "RECOVERY_ALPHABET = ''abcdefghijklmnopqrstuvwxyz234567''"
definition ENROLMENT_TTL_SECS :: nat where "ENROLMENT_TTL_SECS = 600"

definition KIND_TOTP :: string where "KIND_TOTP = ''totp''"
definition KIND_RECOVERY :: string where "KIND_RECOVERY = ''recovery_code''"
definition KIND_PASSKEY :: string where "KIND_PASSKEY = ''webauthn''"
definition KIND_EMAIL :: string where "KIND_EMAIL = ''email_otp''"
definition KIND_SMS :: string where "KIND_SMS = ''sms_otp''"

definition SECOND_FACTOR_KINDS :: "string list" where
  "SECOND_FACTOR_KINDS = [KIND_TOTP, KIND_PASSKEY, KIND_EMAIL, KIND_SMS]"

record factor_lib = library +
  fl_hmac_sha1 :: "string \<Rightarrow> string \<Rightarrow> string"

text \<open>\<open>u64::to_be_bytes\<close>.\<close>

definition be_bytes :: "nat \<Rightarrow> string" where
  "be_bytes n = map (\<lambda>i. char_of (n div 256 ^ i mod 256)) (rev [0..<8])"

definition pad_zeros :: "nat \<Rightarrow> string \<Rightarrow> string" where
  "pad_zeros width s = replicate (width - length s) (CHR ''0'') @ s"

text \<open>\<open>u32::from_be_bytes\<close> of four bytes.\<close>

definition from_be :: "string \<Rightarrow> nat" where
  "from_be bs = foldl (\<lambda>n b. n * 256 + byte b) 0 bs"

definition code_at :: "factor_lib \<Rightarrow> string \<Rightarrow> nat \<Rightarrow> string" where
  "code_at lib secret counter =
     (let mac = fl_hmac_sha1 lib secret (be_bytes counter);
          offset = byte (last mac) mod 16;
          bin = from_be (take 4 (drop offset mac)) mod 2 ^ 31
      in pad_zeros DIGITS (show_nat (bin mod 10 ^ DIGITS)))"

definition check_code :: "factor_lib \<Rightarrow> string \<Rightarrow> string \<Rightarrow> nat \<Rightarrow> nat option" where
  "check_code lib secret code now =
     (if length code \<noteq> DIGITS \<or> \<not> list_all ascii_digit code then None
      else (let origin = now div PERIOD_SECS
            in find (\<lambda>counter. code_at lib secret counter = code) [origin - SKEW..<Suc (origin + SKEW)]))"

definition unix_now :: "instant \<Rightarrow> nat" where
  "unix_now now = nat (max 0 (timestamp now))"

definition check_current :: "factor_lib \<Rightarrow> string \<Rightarrow> string \<Rightarrow> instant \<Rightarrow> nat option" where
  "check_current lib secret code now = check_code lib secret code (unix_now now)"

section \<open>Credentials\<close>

record recovery_code =
  rc_hash :: string
  rc_used_at :: "instant option"

datatype cred_data = TotpData string | RecoveryData "recovery_code list" | OtherData string

record credential =
  cd_id :: uuid
  cd_tenant :: uuid
  cd_user :: uuid
  cd_kind :: string
  cd_label :: "string option"
  cd_data :: cred_data
  cd_created_at :: instant
  cd_last_used_at :: "instant option"

text \<open>The rows are kept in the order of the queries, \<open>created_at, id\<close>.\<close>

record factor_state =
  ft_creds :: "credential list"
  ft_used :: "(uuid \<times> uuid \<times> nat, unit) kv"
  ft_enrol :: "(uuid \<times> uuid, string) kv"

definition list_for_user :: "uuid \<Rightarrow> uuid \<Rightarrow> factor_state \<Rightarrow> credential list" where
  "list_for_user t u st = filter (\<lambda>c. cd_tenant c = t \<and> cd_user c = u) (ft_creds st)"

definition list_secrets_of_type :: "uuid \<Rightarrow> uuid \<Rightarrow> string \<Rightarrow> factor_state \<Rightarrow> credential list" where
  "list_secrets_of_type t u kind st = filter (\<lambda>c. cd_tenant c = t \<and> cd_user c = u \<and> cd_kind c = kind) (ft_creds st)"

definition count_of_types :: "uuid \<Rightarrow> uuid \<Rightarrow> string list \<Rightarrow> factor_state \<Rightarrow> nat" where
  "count_of_types t u kinds st = rows_affected (\<lambda>c. cd_tenant c = t \<and> cd_user c = u \<and> cd_kind c \<in> set kinds) (ft_creds st)"

definition insert_credential :: "credential \<Rightarrow> factor_state \<Rightarrow> factor_state" where
  "insert_credential c st = st\<lparr>ft_creds := ft_creds st @ [c]\<rparr>"

definition update_data :: "instant \<Rightarrow> uuid \<Rightarrow> uuid \<Rightarrow> cred_data \<Rightarrow> factor_state \<Rightarrow> factor_state" where
  "update_data dbnow t i d st =
     st\<lparr>ft_creds := update_where (\<lambda>c. cd_tenant c = t \<and> cd_id c = i) (\<lambda>c. c\<lparr>cd_data := d, cd_last_used_at := Some dbnow\<rparr>) (ft_creds st)\<rparr>"

definition touch_last_used :: "instant \<Rightarrow> uuid \<Rightarrow> uuid \<Rightarrow> factor_state \<Rightarrow> factor_state" where
  "touch_last_used dbnow t i st =
     st\<lparr>ft_creds := update_where (\<lambda>c. cd_tenant c = t \<and> cd_id c = i) (\<lambda>c. c\<lparr>cd_last_used_at := Some dbnow\<rparr>) (ft_creds st)\<rparr>"

definition delete_of_type :: "uuid \<Rightarrow> uuid \<Rightarrow> string \<Rightarrow> factor_state \<Rightarrow> factor_state" where
  "delete_of_type t u kind st = st\<lparr>ft_creds := filter (\<lambda>c. \<not> (cd_tenant c = t \<and> cd_user c = u \<and> cd_kind c = kind)) (ft_creds st)\<rparr>"

definition delete_credential :: "uuid \<Rightarrow> uuid \<Rightarrow> uuid \<Rightarrow> factor_state \<Rightarrow> factor_state" where
  "delete_credential t u i st = st\<lparr>ft_creds := filter (\<lambda>c. \<not> (cd_tenant c = t \<and> cd_user c = u \<and> cd_id c = i)) (ft_creds st)\<rparr>"

record factors =
  fa_totp :: bool
  fa_webauthn :: bool
  fa_email_otp :: bool
  fa_sms_otp :: bool
  fa_recovery_codes :: nat

definition any_factor :: "factors \<Rightarrow> bool" where
  "any_factor f = (fa_totp f \<or> fa_webauthn f \<or> fa_email_otp f \<or> fa_sms_otp f)"

fun unused_codes :: "cred_data \<Rightarrow> nat" where
  "unused_codes (RecoveryData codes) = length (filter (\<lambda>c. rc_used_at c = None) codes)"
| "unused_codes _ = 0"

definition factors_of :: "uuid \<Rightarrow> uuid \<Rightarrow> factor_state \<Rightarrow> factors" where
  "factors_of t u st =
     (let has = (\<lambda>kind. list_ex (\<lambda>c. cd_kind c = kind) (list_for_user t u st))
      in \<lparr>fa_totp = has KIND_TOTP, fa_webauthn = has KIND_PASSKEY, fa_email_otp = has KIND_EMAIL, fa_sms_otp = has KIND_SMS,
          fa_recovery_codes = sum_list (map (unused_codes \<circ> cd_data) (list_secrets_of_type t u KIND_RECOVERY st))\<rparr>)"

definition has_second_factor :: "uuid \<Rightarrow> uuid \<Rightarrow> factor_state \<Rightarrow> bool" where
  "has_second_factor t u st = (count_of_types t u SECOND_FACTOR_KINDS st > 0)"

section \<open>Recovery codes\<close>

definition hash_code :: "factor_lib \<Rightarrow> string \<Rightarrow> string" where
  "hash_code lib code = l_b64 lib (l_digest lib 256 code)"

text \<open>Ten random bytes make a code.\<close>

definition random_code :: "nat list \<Rightarrow> string" where
  "random_code bytes =
     (let raw = map (\<lambda>b. RECOVERY_ALPHABET ! (b mod 32)) bytes in take 5 raw @ ''-'' @ drop 5 raw)"

text \<open>\<open>str::to_lowercase\<close> of a character, as far as the ASCII letters and digits in it go: two
  characters outside ASCII, the Kelvin sign and the dotted capital I, have an ASCII letter
  in their lower case.\<close>

definition lower_alnum :: "string \<Rightarrow> string" where
  "lower_alnum c =
     (if c = map char_of [226, 132, 170 :: nat] then ''k''
      else if c = map char_of [196, 176 :: nat] then ''i''
      else filter ascii_alnum (map to_ascii_lowercase c))"

definition normalise_recovery :: "string \<Rightarrow> string" where
  "normalise_recovery code = concat (map lower_alnum (str_chars (trim code)))"

definition regenerate_recovery_codes ::
  "factor_lib \<Rightarrow> instant \<Rightarrow> uuid \<Rightarrow> uuid \<Rightarrow> uuid \<Rightarrow> string list \<Rightarrow> factor_state \<Rightarrow> factor_state" where
  "regenerate_recovery_codes lib dbnow t u new_id codes st =
     insert_credential
       \<lparr>cd_id = new_id, cd_tenant = t, cd_user = u, cd_kind = KIND_RECOVERY, cd_label = Some ''Recovery codes'',
        cd_data = RecoveryData (map (\<lambda>c. \<lparr>rc_hash = hash_code lib (normalise_recovery c), rc_used_at = None\<rparr>) codes),
        cd_created_at = dbnow, cd_last_used_at = None\<rparr>
       (delete_of_type t u KIND_RECOVERY st)"

definition remove_credential ::
  "uuid \<Rightarrow> uuid \<Rightarrow> uuid \<Rightarrow> bool \<Rightarrow> factor_state \<Rightarrow> string option \<times> factor_state" where
  "remove_credential t u i second_factors_only st =
     (case find (\<lambda>c. cd_id c = i) (list_for_user t u st) of
        None \<Rightarrow> (None, st)
      | Some row \<Rightarrow>
          (let second_factor = cd_kind row \<in> set SECOND_FACTOR_KINDS
           in if second_factors_only \<and> \<not> second_factor then (None, st)
              else
                (let st1 = delete_credential t u i st;
                     others = filter (\<lambda>c. cd_id c \<noteq> i \<and> cd_kind c \<in> set SECOND_FACTOR_KINDS) (list_for_user t u st)
                 in (Some (cd_kind row),
                     if second_factor \<and> others = [] then delete_of_type t u KIND_RECOVERY st1 else st1))))"

section \<open>Using a factor\<close>

datatype verified = VerifiedTotp uuid | VerifiedRecovery nat

definition used_ttl :: nat where
  "used_ttl = PERIOD_SECS * (2 * SKEW + 1)"

definition mark_step_used :: "instant \<Rightarrow> uuid \<Rightarrow> uuid \<Rightarrow> nat \<Rightarrow> factor_state \<Rightarrow> bool \<times> factor_state" where
  "mark_step_used now t cred step st =
     (case kv_set_nx_ex now used_ttl (t, cred, step) () (ft_used st) of (claimed, m) \<Rightarrow> (claimed, st\<lparr>ft_used := m\<rparr>))"

definition build_secret :: "string \<Rightarrow> app_error + string" where
  "build_secret s =
     (case base32_decode s of
        Some b \<Rightarrow> if b \<noteq> [] then Inr b else Inl (Internal ''totp secret: not base32'')
      | None \<Rightarrow> Inl (Internal ''totp secret: not base32''))"

definition totp_secret :: "cred_data \<Rightarrow> app_error + string" where
  "totp_secret d = (case d of TotpData s \<Rightarrow> build_secret s | _ \<Rightarrow> Inl (Internal ''credential decrypt''))"

fun verify_totp_rows ::
  "factor_lib \<Rightarrow> instant \<Rightarrow> instant \<Rightarrow> uuid \<Rightarrow> string \<Rightarrow> credential list \<Rightarrow> factor_state
     \<Rightarrow> (app_error + verified option) \<times> factor_state" where
  "verify_totp_rows lib now dbnow t code [] st = (Inr None, st)"
| "verify_totp_rows lib now dbnow t code (row # rows) st =
     (case totp_secret (cd_data row) of
        Inl e \<Rightarrow> (Inl e, st)
      | Inr secret \<Rightarrow>
          (case check_current lib secret code now of
             None \<Rightarrow> verify_totp_rows lib now dbnow t code rows st
           | Some step \<Rightarrow>
               (case mark_step_used now t (cd_id row) step st of
                  (False, st1) \<Rightarrow> (Inr None, st1)
                | (True, st1) \<Rightarrow> (Inr (Some (VerifiedTotp (cd_id row))), touch_last_used dbnow t (cd_id row) st1))))"

definition verify_totp ::
  "factor_lib \<Rightarrow> instant \<Rightarrow> instant \<Rightarrow> uuid \<Rightarrow> uuid \<Rightarrow> string \<Rightarrow> factor_state \<Rightarrow> (app_error + verified option) \<times> factor_state" where
  "verify_totp lib now dbnow t u code st =
     verify_totp_rows lib now dbnow t code (list_secrets_of_type t u KIND_TOTP st) st"

text \<open>The position of the last unused code with the hash.\<close>

fun last_hit :: "string \<Rightarrow> nat \<Rightarrow> recovery_code list \<Rightarrow> nat option" where
  "last_hit wanted i [] = None"
| "last_hit wanted i (c # cs) =
     (case last_hit wanted (Suc i) cs of
        Some j \<Rightarrow> Some j
      | None \<Rightarrow> if rc_hash c = wanted \<and> rc_used_at c = None then Some i else None)"

text \<open>The rows are read in one transaction and the spent code written in another; \<open>rows\<close> is
  what was read.\<close>

fun spend_recovery ::
  "instant \<Rightarrow> instant \<Rightarrow> uuid \<Rightarrow> string \<Rightarrow> credential list \<Rightarrow> factor_state \<Rightarrow> (app_error + verified option) \<times> factor_state" where
  "spend_recovery now dbnow t wanted [] st = (Inr None, st)"
| "spend_recovery now dbnow t wanted (row # rows) st =
     (case cd_data row of
        RecoveryData codes \<Rightarrow>
          (case last_hit wanted 0 codes of
             None \<Rightarrow> spend_recovery now dbnow t wanted rows st
           | Some i \<Rightarrow>
               (let codes1 = codes[i := (codes ! i)\<lparr>rc_used_at := Some now\<rparr>]
                in (Inr (Some (VerifiedRecovery (unused_codes (RecoveryData codes1)))),
                    update_data dbnow t (cd_id row) (RecoveryData codes1) st)))
      | _ \<Rightarrow> (Inl (Internal ''credential decrypt''), st))"

definition recovery_wanted :: "factor_lib \<Rightarrow> string \<Rightarrow> string option" where
  "recovery_wanted lib code =
     (let n = normalise_recovery code in if length n \<noteq> RECOVERY_CODE_LEN then None else Some (hash_code lib n))"

definition verify_recovery ::
  "factor_lib \<Rightarrow> instant \<Rightarrow> instant \<Rightarrow> uuid \<Rightarrow> uuid \<Rightarrow> string \<Rightarrow> factor_state \<Rightarrow> (app_error + verified option) \<times> factor_state" where
  "verify_recovery lib now dbnow t u code st =
     (case recovery_wanted lib code of
        None \<Rightarrow> (Inr None, st)
      | Some wanted \<Rightarrow> spend_recovery now dbnow t wanted (list_secrets_of_type t u KIND_RECOVERY st) st)"

definition verify_factor ::
  "factor_lib \<Rightarrow> instant \<Rightarrow> instant \<Rightarrow> uuid \<Rightarrow> uuid \<Rightarrow> string \<Rightarrow> factor_state \<Rightarrow> (app_error + verified option) \<times> factor_state" where
  "verify_factor lib now dbnow t u code st =
     (let trimmed = trim code
      in if length trimmed = DIGITS \<and> list_all ascii_digit trimmed then verify_totp lib now dbnow t u trimmed st
         else verify_recovery lib now dbnow t u trimmed st)"

section \<open>Enrolment\<close>

definition label_safe :: "string \<Rightarrow> string \<Rightarrow> string" where
  "label_safe s fallback =
     (let out = map (\<lambda>c. if c = CHR '':'' then CHR '' '' else c) (trim s) in if out = [] then fallback else out)"

definition percent_encode :: "string \<Rightarrow> string" where
  "percent_encode s =
     concat (map (\<lambda>c. if ascii_alnum c \<or> c \<in> set ''-_.~'' then [c]
                      else CHR ''%'' # map (\<lambda>n. ''0123456789ABCDEF'' ! n) [byte c div 16, byte c mod 16]) s)"

definition otpauth_uri :: "string \<Rightarrow> string \<Rightarrow> string \<Rightarrow> string" where
  "otpauth_uri issuer account secret =
     ''otpauth://totp/'' @ percent_encode issuer @ '':'' @ percent_encode account @ ''?secret='' @ base32_encode secret
       @ ''&issuer='' @ percent_encode issuer"

record enrolment =
  en_secret :: string
  en_uri :: string
  en_issuer :: string
  en_account :: string

definition issuer_of :: "tenant \<Rightarrow> string" where
  "issuer_of tn = label_safe (tn_display_name tn) (tn_slug tn)"

definition account_of :: "user \<Rightarrow> string" where
  "account_of u = label_safe (case us_email u of Some e \<Rightarrow> e | None \<Rightarrow> us_username u) ''user''"

text \<open>\<open>random\<close> is the twenty random bytes of a new secret.\<close>

definition begin_enrolment ::
  "instant \<Rightarrow> string \<Rightarrow> tenant \<Rightarrow> uuid \<Rightarrow> user \<Rightarrow> factor_state \<Rightarrow> (app_error + enrolment) \<times> factor_state" where
  "begin_enrolment now random tn flow u st =
     (let fresh = base32_encode random;
          (claimed, m) = kv_set_nx_ex now ENROLMENT_TTL_SECS (tn_id tn, flow) fresh (ft_enrol st);
          st1 = st\<lparr>ft_enrol := m\<rparr>;
          secret = (if claimed then Some fresh else kv_get now (tn_id tn, flow) m)
      in case secret of
           None \<Rightarrow> (Inl (Unavailable ''enrolment slot vanished''), st1)
         | Some s \<Rightarrow>
             (case build_secret s of
                Inl e \<Rightarrow> (Inl e, st1)
              | Inr raw \<Rightarrow>
                  (Inr \<lparr>en_secret = s, en_uri = otpauth_uri (issuer_of tn) (account_of u) raw,
                        en_issuer = issuer_of tn, en_account = account_of u\<rparr>, st1)))"

definition enrolment_label :: "string option \<Rightarrow> string" where
  "enrolment_label label =
     (case label of
        Some l \<Rightarrow> (let s = trim l in if s = [] then ''Authenticator app'' else concat (take 80 (str_chars s)))
      | None \<Rightarrow> ''Authenticator app'')"

definition confirm_enrolment ::
  "factor_lib \<Rightarrow> instant \<Rightarrow> instant \<Rightarrow> uuid \<times> uuid \<Rightarrow> string list \<Rightarrow> tenant \<Rightarrow> uuid \<Rightarrow> user \<Rightarrow> string \<Rightarrow> string option \<Rightarrow> factor_state
     \<Rightarrow> (app_error + string list option) \<times> factor_state" where
  "confirm_enrolment lib now dbnow ids codes tn flow u code label st =
     (case kv_get now (tn_id tn, flow) (ft_enrol st) of
        None \<Rightarrow> (Inl (BadRequest ''no authenticator enrolment is pending''), st)
      | Some s \<Rightarrow>
          (case build_secret s of
             Inl e \<Rightarrow> (Inl e, st)
           | Inr secret \<Rightarrow>
               (case check_current lib secret (trim code) now of
                  None \<Rightarrow> (Inr None, st)
                | Some step \<Rightarrow>
                    (let st1 = insert_credential
                           \<lparr>cd_id = fst ids, cd_tenant = tn_id tn, cd_user = us_id u, cd_kind = KIND_TOTP,
                            cd_label = Some (enrolment_label label), cd_data = TotpData s, cd_created_at = dbnow,
                            cd_last_used_at = None\<rparr> st;
                         st2 = snd (mark_step_used now (tn_id tn) (fst ids) step st1);
                         st3 = st2\<lparr>ft_enrol := kv_del (tn_id tn, flow) (ft_enrol st2)\<rparr>
                     in (Inr (Some codes), regenerate_recovery_codes lib dbnow (tn_id tn) (us_id u) (snd ids) codes st3)))))"

section \<open>Base32 reads back what it writes\<close>

definition low :: "32 word \<Rightarrow> nat \<Rightarrow> nat" where
  "low w k = unat w mod 2 ^ k"

lemma low_less: "low w k < 2 ^ k"
  by (simp add: low_def)

lemma low_0 [simp]: "low w 0 = 0"
  by (simp add: low_def)

lemma low_take_bit: "low w k = take_bit k (unat w)"
  by (simp add: low_def take_bit_eq_mod)

lemma not_bit_beyond: "x < 2 ^ n \<Longrightarrow> n \<le> i \<Longrightarrow> \<not> bit (x :: nat) i"
  by (metis bit_take_bit_iff not_less take_bit_nat_eq_self)

lemma low_push:
  assumes "k + n \<le> 32" "x < 2 ^ n"
  shows "low (push_bit n w OR of_nat x) (k + n) = low w k * 2 ^ n + x"
proof -
  have "(2 :: nat) ^ n \<le> 2 ^ 32" using assms(1) by (intro power_increasing) simp_all
  then have "x < 2 ^ 32" using assms(2) by simp
  then have ux: "unat (of_nat x :: 32 word) = x" by (simp add: unsigned_of_nat take_bit_nat_eq_self)
  have "low (push_bit n w OR of_nat x) (k + n) = take_bit (k + n) (take_bit 32 (push_bit n (unat w)) OR x)"
    by (simp add: low_take_bit unsigned_or_eq unsigned_push_bit_eq ux)
  also have "\<dots> = push_bit n (take_bit k (unat w)) OR x"
    using assms not_bit_beyond [OF assms(2)]
    by (intro bit_eqI) (auto simp: bit_take_bit_iff bit_or_iff bit_push_bit_iff not_le)
  also have "\<dots> = push_bit n (take_bit k (unat w)) + x"
    using not_bit_beyond [OF assms(2)]
    by (intro disjunctive_add [symmetric]) (auto simp: bit_push_bit_iff)
  finally show ?thesis by (simp add: low_take_bit push_bit_eq_mult)
qed

lemma low_shorter: "j \<le> k \<Longrightarrow> low w j = low w k mod 2 ^ j"
  by (simp add: low_def mod_exp_eq)

lemma low_top: "unat (drop_bit j w) mod 2 ^ n = low w (j + n) div 2 ^ j"
  by (simp add: low_def unat_drop_bit_eq) (simp add: drop_bit_eq_div div_exp_mod_exp_eq)

lemma and_31: "unat ((w :: 32 word) AND 31) = low w 5"
proof -
  have "(31 :: 32 word) = mask 5" by (simp add: mask_eq_exp_minus_1)
  moreover have "unat (w AND mask 5) = take_bit 5 (unat w)" by (simp only: take_bit_eq_mask [symmetric] unsigned_take_bit_eq)
  ultimately show ?thesis by (simp add: low_take_bit)
qed

lemma sym_top: "unat (drop_bit j w AND 31) = low w (j + 5) div 2 ^ j"
  using low_top [of j w 5] by (simp add: and_31 low_def)

lemma sym_pad: "k \<le> 5 \<Longrightarrow> unat (push_bit (5 - k) w AND 31) = low w k * 2 ^ (5 - k)"
  using low_push [of k "5 - k" 0 w] by (simp add: and_31)

definition sym32 :: "nat \<Rightarrow> char" where
  "sym32 n = BASE32 ! n"

lemma sym_index: "n < 32 \<Longrightarrow> index_of (to_ascii_uppercase (sym32 n)) BASE32 = Some n"
proof -
  have "list_all (\<lambda>n. index_of (to_ascii_uppercase (sym32 n)) BASE32 = Some n) [0..<32]" by code_simp
  then show "n < 32 \<Longrightarrow> index_of (to_ascii_uppercase (sym32 n)) BASE32 = Some n" by (simp add: list_all_iff)
qed

lemma sym_not_pad: "n < 32 \<Longrightarrow> sym32 n \<noteq> CHR ''=''"
proof -
  have "list_all (\<lambda>n. sym32 n \<noteq> CHR ''='') [0..<32]" by code_simp
  then show "n < 32 \<Longrightarrow> sym32 n \<noteq> CHR ''=''" by (simp add: list_all_iff)
qed

text \<open>The loops on the value of the pending bits.\<close>

fun enc :: "nat \<Rightarrow> nat \<Rightarrow> nat list \<Rightarrow> nat list" where
  "enc v k [] = (if k > 0 then [v * 2 ^ (5 - k)] else [])"
| "enc v k (b # bs) =
     (let u = v * 256 + b; n = k + 8
      in if n < 10 then u div 2 ^ (n - 5) # enc (u mod 2 ^ (n - 5)) (n - 5) bs
         else u div 2 ^ (n - 5) # u div 2 ^ (n - 10) mod 32 # enc (u mod 2 ^ (n - 10)) (n - 10) bs)"

lemma enc_one: "k < 2 \<Longrightarrow> enc v k (b # bs) =
    (v * 256 + b) div 2 ^ (k + 3) # enc ((v * 256 + b) mod 2 ^ (k + 3)) (k + 3) bs"
  by (simp add: Let_def add.commute)

lemma enc_two:
  assumes "\<not> k < 2"
  shows "enc v k (b # bs) =
    (v * 256 + b) div 2 ^ (k + 3) # (v * 256 + b) div 2 ^ (k - 2) mod 32 # enc ((v * 256 + b) mod 2 ^ (k - 2)) (k - 2) bs"
proof -
  have "k + 8 - 10 = k - 2" "k + 8 - 5 = k + 3" using assms by simp_all
  then show ?thesis using assms by (simp only: enc.simps Let_def) simp
qed

lemmas enc_Cons = enc_one enc_two
declare enc.simps(2) [simp del]

lemma byte_less: "byte c < 256"
  using of_char_mod_256 [of c, where ?'a = nat] by (metis byte_def mod_less_divisor zero_less_numeral)

lemma drain5_eq:
  "k < 5 \<Longrightarrow> drain5 w (k + 8) =
     (if k + 8 < 10 then ([sym32 (low w (k + 8) div 2 ^ (k + 3))], k + 3)
      else ([sym32 (low w (k + 8) div 2 ^ (k + 3)), sym32 (low w (k + 3) div 2 ^ (k - 2))], k - 2))"
proof -
  assume k: "k < 5"
  have d: "j < 5 \<Longrightarrow> drain5 w j = ([], j)" for j by (simp add: drain5.simps)
  have s: "drain5 w (j + 5) = (case drain5 w j of (out, rest) \<Rightarrow> (sym32 (low w (j + 5) div 2 ^ j) # out, rest))" for j
    by (subst drain5.simps) (simp add: sym32_def sym_top)
  have e: "k + 8 = (k + 3) + 5" by simp
  show ?thesis
  proof (cases "k < 2")
    case True
    then have "drain5 w (k + 3) = ([], k + 3)" by (intro d) simp
    then show ?thesis using True s [of "k + 3"] by (simp only: e) (simp add: algebra_simps)
  next
    case False
    then have "k + 3 = (k - 2) + 5" "drain5 w (k - 2) = ([], k - 2)" using k by (simp_all add: d)
    then show ?thesis using False s [of "k + 3"] s [of "k - 2"] by (simp only: e) (simp add: algebra_simps)
  qed
qed

lemma encode32_enc:
  "k < 5 \<Longrightarrow> encode32 w k bs = map sym32 (enc (low w k) k (map byte bs))"
proof (induction bs arbitrary: w k)
  case Nil
  then show ?case by (simp add: sym_pad sym32_def)
next
  case (Cons b bs)
  define w1 where "w1 = push_bit 8 w OR of_nat (byte b)"
  have l8: "low w1 (k + 8) = low w k * 256 + byte b"
    using low_push [of k 8 "byte b" w] Cons.prems byte_less [of b] by (simp add: w1_def)
  have l3: "low w1 (k + 3) = (low w k * 256 + byte b) mod 2 ^ (k + 3)" using low_shorter [of "k + 3" "k + 8" w1] l8 by simp
  show ?case
  proof (cases "k < 2")
    case True
    then have "encode32 w k (b # bs) = sym32 (low w1 (k + 8) div 2 ^ (k + 3)) # encode32 w1 (k + 3) bs"
      by (simp add: w1_def [symmetric] drain5_eq Let_def)
    then show ?thesis using True Cons.IH [of "k + 3" w1] by (simp add: l8 l3 enc_one)
  next
    case False
    then have k2: "k - 2 + 5 = k + 3" "k - 2 < 5" using Cons.prems by simp_all
    have l2: "low w1 (k - 2) = (low w k * 256 + byte b) mod 2 ^ (k - 2)" using low_shorter [of "k - 2" "k + 8" w1] l8 by simp
    have m: "low w1 (k + 3) div 2 ^ (k - 2) = (low w k * 256 + byte b) div 2 ^ (k - 2) mod 32"
      unfolding l3 using div_exp_mod_exp_eq [of "low w k * 256 + byte b" "k - 2" 5] k2 by (simp add: add.commute)
    have "encode32 w k (b # bs) =
        sym32 (low w1 (k + 8) div 2 ^ (k + 3)) # sym32 (low w1 (k + 3) div 2 ^ (k - 2)) # encode32 w1 (k - 2) bs"
      using False Cons.prems by (simp add: w1_def [symmetric] drain5_eq Let_def)
    then show ?thesis using False Cons.IH [OF k2(2), of w1] by (simp add: l8 l2 m enc_two)
  qed
qed

fun dec :: "nat \<Rightarrow> nat \<Rightarrow> nat list \<Rightarrow> nat list" where
  "dec v m [] = []"
| "dec v m (c # cs) =
     (let u = v * 32 + c; n = m + 5
      in if n \<ge> 8 then u div 2 ^ (n - 8) # dec (u mod 2 ^ (n - 8)) (n - 8) cs else dec u n cs)"

lemma decode32_dec:
  "m < 8 \<Longrightarrow> \<forall>c\<in>set cs. c < 32 \<Longrightarrow> decode32 w m (map sym32 cs) = Some (map char_of (dec (low w m) m cs))"
proof (induction cs arbitrary: w m)
  case (Cons c cs)
  define w1 where "w1 = push_bit 5 w OR of_nat c"
  have l5: "low w1 (m + 5) = low w m * 32 + c"
    using low_push [of m 5 c w] Cons.prems by (simp add: w1_def)
  have ix: "index_of (to_ascii_uppercase (sym32 c)) BASE32 = Some c" using Cons.prems by (simp add: sym_index)
  show ?case
  proof (cases "m + 5 \<ge> 8")
    case True
    then have m3: "m - 3 + 8 = m + 5" "m - 3 < 8" "m + 5 - 8 = m - 3" using Cons.prems by simp_all
    have top: "unat (drop_bit (m - 3) w1) mod 256 = (low w m * 32 + c) div 2 ^ (m - 3)"
      using low_top [of "m - 3" w1 8] m3(1) l5 by simp
    then have out: "char_of (unat (drop_bit (m - 3) w1)) = (char_of ((low w m * 32 + c) div 2 ^ (m - 3)) :: char)"
      by (metis char_of_mod_256)
    have rest: "low w1 (m - 3) = (low w m * 32 + c) mod 2 ^ (m - 3)" using low_shorter [of "m - 3" "m + 5" w1] l5 by simp
    have "decode32 w1 (m - 3) (map sym32 cs) = Some (map char_of (dec (low w1 (m - 3)) (m - 3) cs))"
      using Cons m3 by simp
    then show ?thesis using True ix by (simp add: w1_def [symmetric] Let_def m3(3) out rest)
  next
    case False
    then have "decode32 w1 (m + 5) (map sym32 cs) = Some (map char_of (dec (low w1 (m + 5)) (m + 5) cs))"
      using Cons by simp
    then show ?thesis using False ix l5 by (simp add: w1_def [symmetric] Let_def)
  qed
qed simp

lemma enc_less: "k < 5 \<Longrightarrow> v < 2 ^ k \<Longrightarrow> \<forall>b\<in>set bs. b < 256 \<Longrightarrow> \<forall>c\<in>set (enc v k bs). c < 32"
proof (induction bs arbitrary: v k)
  case Nil
  then have "v * 2 ^ (5 - k) < 2 ^ k * 2 ^ (5 - k)" by simp
  also have "\<dots> = 32" using Nil.prems by (simp add: power_add [symmetric])
  finally show ?case by simp
next
  case (Cons b bs)
  have u: "v * 256 + b < 2 ^ (k + 8)"
  proof -
    have "v * 256 + b < (v + 1) * 256" using Cons.prems by simp
    also have "\<dots> \<le> 2 ^ k * 256" using Cons.prems by (intro mult_right_mono) simp_all
    finally show ?thesis by (simp add: power_add)
  qed
  then have t: "(v * 256 + b) div 2 ^ (k + 3) < 32" by (simp add: div_less_iff_less_mult power_add)
  show ?case
  proof (cases "k < 2")
    case True
    then show ?thesis using t Cons.prems Cons.IH [of "k + 3" "(v * 256 + b) mod 2 ^ (k + 3)"] by (simp add: enc_one)
  next
    case False
    have "\<forall>c\<in>set (enc ((v * 256 + b) mod 2 ^ (k - 2)) (k - 2) bs). c < 32" using Cons.prems by (intro Cons.IH) simp_all
    then show ?thesis using t False by (simp add: enc_two)
  qed
qed

text \<open>Five states of the encoder, each with the one of the decoder that has read what was written.\<close>

lemma dec_enc:
  assumes "k < 5" "v < 2 ^ k" "\<forall>b\<in>set bs. b < 256" "x < 2 ^ ((8 - k) mod 8)"
  shows "dec x ((8 - k) mod 8) (enc v k bs) = (if k = 0 then [] else [x * 2 ^ k + v]) @ bs"
  using assms
proof (induction bs arbitrary: v k x)
  case Nil
  then consider "k = 0" | "k = 1" | "k = 2" | "k = 3" | "k = 4" by linarith
  then show ?case using Nil by cases (simp_all add: Let_def)
next
  case (Cons b bs)
  then have b: "b < 256" and bs: "\<forall>b\<in>set bs. b < 256" by simp_all
  note IH = Cons.IH [OF _ _ bs]
  have two: "(q * d + r) div d = q" "(q * d + r) mod d = r" if "r < d" for q d r :: nat
    using that by simp_all
  consider "k = 0" | "k = 1" | "k = 2" | "k = 3" | "k = 4" using Cons.prems(1) by linarith
  then show ?case
  proof cases
    case 1
    then show ?thesis using Cons.prems IH [of 3 "b mod 8" "b div 8"] by (simp add: enc_Cons Let_def div_less_iff_less_mult)
  next
    case 2
    have u: "x * 32 + (v * 256 + b) div 16 = (x * 2 + v) * 16 + b div 16" using div_mult_self3 [of 16 "v * 16" b] by simp
    have r: "b div 16 < 16" "(v * 256 + b) mod 16 = b mod 16" using b mod_mult_self3 [of "v * 16" 16 b] by (simp_all add: mult.commute)
    have o: "(x * 32 + (v * 256 + b) div 16) div 16 = x * 2 + v" "(x * 32 + (v * 256 + b) div 16) mod 16 = b div 16"
      unfolding u using two [OF r(1)] by blast+
    show ?thesis using 2 IH [of 4 "b mod 16" "b div 16"] r by (simp add: enc_Cons Let_def o)
  next
    case 3
    have u: "x * 32 + (v * 256 + b) div 32 = (x * 4 + v) * 8 + b div 32" using div_mult_self3 [of 32 "v * 8" b] by simp
    have r: "b div 32 < 8" "(v * 256 + b) mod 32 = b mod 32" using b mod_mult_self3 [of "v * 8" 32 b] by (simp_all add: mult.commute)
    have o: "(x * 32 + (v * 256 + b) div 32) div 8 = x * 4 + v" "(x * 32 + (v * 256 + b) div 32) mod 8 = b div 32"
      unfolding u using two [OF r(1)] by blast+
    show ?thesis using 3 IH [of 0 0 0] r by (simp add: enc_Cons Let_def o)
  next
    case 4
    have u: "x * 32 + (v * 256 + b) div 64 = (x * 8 + v) * 4 + b div 64" using div_mult_self3 [of 64 "v * 4" b] by simp
    have "(v * 256 + b) div 2 = v * 128 + b div 2" using div_mult_self3 [of 2 "v * 128" b] by simp
    then have c: "(v * 256 + b) div 2 mod 32 = b div 2 mod 32" using mod_mult_self3 [of "v * 4" 32 "b div 2"] by (simp add: mult.commute)
    have d: "b div 64 * 32 + b div 2 mod 32 = b div 2" using div_mult2_eq [of b 2 32] by simp
    have r: "b div 64 < 4" "b div 2 < 128" "(v * 256 + b) mod 2 = b mod 2" using b mod_mult_self3 [of "v * 128" 2 b] by (simp_all add: mult.commute)
    have o: "(x * 32 + (v * 256 + b) div 64) div 4 = x * 8 + v" "(x * 32 + (v * 256 + b) div 64) mod 4 = b div 64"
      unfolding u using two [OF r(1)] by blast+
    show ?thesis using 4 IH [of 1 "b mod 2" "b div 2"] r d by (simp add: enc_Cons Let_def o c)
  next
    case 5
    have u: "x * 32 + (v * 256 + b) div 128 = (x * 16 + v) * 2 + b div 128" using div_mult_self3 [of 128 "v * 2" b] by simp
    have "(v * 256 + b) div 4 = v * 64 + b div 4" using div_mult_self3 [of 4 "v * 64" b] by simp
    then have c: "(v * 256 + b) div 4 mod 32 = b div 4 mod 32" using mod_mult_self3 [of "v * 2" 32 "b div 4"] by (simp add: mult.commute)
    have d: "b div 128 * 32 + b div 4 mod 32 = b div 4" using div_mult2_eq [of b 4 32] by simp
    have r: "b div 128 < 2" "b div 4 < 64" "(v * 256 + b) mod 4 = b mod 4" using b mod_mult_self3 [of "v * 64" 4 b] by (simp_all add: mult.commute)
    have o: "(x * 32 + (v * 256 + b) div 128) div 2 = x * 16 + v" "(x * 32 + (v * 256 + b) div 128) mod 2 = b div 128"
      unfolding u using two [OF r(1)] by blast+
    show ?thesis using 5 IH [of 2 "b mod 4" "b div 4"] r d by (simp add: enc_Cons Let_def o c)
  qed
qed

lemma trim_end_matches_none: "\<forall>x\<in>set s. x \<noteq> c \<Longrightarrow> trim_end_matches c s = s"
  by (cases s rule: rev_cases) (simp_all add: trim_end_matches_def)

lemma base32_decode_encode: "base32_decode (base32_encode bs) = Some bs"
proof -
  define cs where "cs = enc 0 0 (map byte bs)"
  have e: "base32_encode bs = map sym32 cs" by (simp add: base32_encode_def encode32_enc cs_def)
  have less: "\<forall>c\<in>set cs. c < 32" unfolding cs_def by (rule enc_less) (auto simp: byte_less)
  then have "trim_end_matches (CHR ''='') (map sym32 cs) = map sym32 cs"
    by (intro trim_end_matches_none) (auto simp: sym_not_pad)
  moreover have "dec 0 0 cs = map byte bs" using dec_enc [of 0 0 "map byte bs" 0] by (simp add: cs_def byte_less)
  moreover have "map char_of (map byte bs) = bs" by (simp add: byte_def comp_def)
  ultimately show ?thesis using decode32_dec [OF _ less, of 0 0] by (simp add: base32_decode_def e)
qed

text \<open>
  Decoding what \<open>base32_encode\<close> wrote gives back every byte, for texts of every length, with
  the \<open>u32\<close> buffer losing its upper bits as it is shifted.
\<close>

theorem base32_roundtrip: "base32_decode (base32_encode bs) = Some bs"
  by (rule base32_decode_encode)

section \<open>A code is accepted once per time step\<close>

inductive factor_step :: "factor_lib \<Rightarrow> factor_state \<Rightarrow> factor_state \<Rightarrow> bool" for lib :: factor_lib where
  step_verify: "factor_step lib st (snd (verify_factor lib now dbnow t u code st))"
| step_begin: "factor_step lib st (snd (begin_enrolment now random tn flow u st))"
| step_confirm: "factor_step lib st (snd (confirm_enrolment lib now dbnow ids codes tn flow u code label st))"
| step_regenerate: "factor_step lib st (regenerate_recovery_codes lib dbnow t u new_id codes st)"
| step_remove: "factor_step lib st (snd (remove_credential t u i only st))"

text \<open>A step's mark outlasts every operation, up to the end it was set with.\<close>

definition marked :: "uuid \<times> uuid \<times> nat \<Rightarrow> instant \<Rightarrow> factor_state \<Rightarrow> bool" where
  "marked k e st \<longleftrightarrow> (\<exists>d. ft_used st k = Some ((), Some d) \<and> e \<le> d)"

lemma ft_used_simps [simp]:
  "ft_used (insert_credential c st) = ft_used st" "ft_used (update_data dbnow t i d st) = ft_used st"
  "ft_used (touch_last_used dbnow t i st) = ft_used st" "ft_used (delete_of_type t u kind st) = ft_used st"
  "ft_used (delete_credential t u i st) = ft_used st"
  "ft_used (regenerate_recovery_codes lib dbnow t u new_id codes st) = ft_used st"
  by (simp_all add: insert_credential_def update_data_def touch_last_used_def delete_of_type_def delete_credential_def
      regenerate_recovery_codes_def)

lemma ft_used_remove [simp]: "ft_used (snd (remove_credential t u i only st)) = ft_used st"
  by (simp add: remove_credential_def Let_def split: option.splits)

lemma ft_used_begin [simp]: "ft_used (snd (begin_enrolment now random tn flow u st)) = ft_used st"
  by (simp add: begin_enrolment_def Let_def split: option.splits sum.splits prod.splits)

lemma ft_used_spend [simp]: "ft_used (snd (spend_recovery now dbnow t wanted rows st)) = ft_used st"
  by (induction rows) (simp_all add: Let_def split: cred_data.splits option.splits)

lemma marked_simps [simp]:
  "marked k e (insert_credential c st) = marked k e st" "marked k e (update_data dbnow t i d st) = marked k e st"
  "marked k e (touch_last_used dbnow t i st) = marked k e st" "marked k e (delete_of_type t u kind st) = marked k e st"
  "marked k e (regenerate_recovery_codes lib dbnow t u new_id codes st) = marked k e st"
  "marked k e (snd (remove_credential t u i only st)) = marked k e st"
  "marked k e (snd (begin_enrolment now random tn flow us st)) = marked k e st"
  "marked k e (snd (spend_recovery now dbnow t wanted rows st)) = marked k e st"
  "marked k e (st\<lparr>ft_enrol := m\<rparr>) = marked k e st"
  by (simp_all add: marked_def)

lemma mark_keeps: "marked k e st \<Longrightarrow> marked k e (snd (mark_step_used now t c step st))"
  by (auto simp: marked_def mark_step_used_def kv_set_nx_ex_def kv_set_ex_def kv_set_until_def kv_get_def kv_entry_def
      used_ttl_def PERIOD_SECS_def SKEW_def dur_secs_def nanos_per_sec_def split: if_splits)

lemma verify_totp_rows_keeps: "marked k e st \<Longrightarrow> marked k e (snd (verify_totp_rows lib now dbnow t code rows st))"
proof (induction rows)
  case (Cons row rows)
  have "marked k e st1" if "mark_step_used now t (cd_id row) step st = (b, st1)" for step b st1
    using mark_keeps [OF Cons.prems, of now t "cd_id row" step] that by simp
  then show ?case using Cons by (auto split: sum.splits option.splits prod.splits bool.splits)
qed simp

lemma factor_step_keeps_mark: "factor_step lib st st' \<Longrightarrow> marked k e st \<Longrightarrow> marked k e st'"
proof (induction rule: factor_step.induct)
  case (step_verify st now dbnow t u code)
  then show ?case
    by (auto simp: verify_factor_def Let_def verify_totp_def verify_recovery_def verify_totp_rows_keeps split: option.splits)
next
  case (step_confirm st now dbnow ids codes tn flow u code label)
  have "marked k e (snd (mark_step_used now (tn_id tn) c step (insert_credential cr st)))" for c step cr
    using step_confirm by (intro mark_keeps) simp
  then show ?case using step_confirm
    by (auto simp: confirm_enrolment_def Let_def split: option.splits sum.splits)
qed simp_all

interpretation factor_run: kept_by_steps "factor_step lib" "marked k e" for lib k e
  by unfold_locales (rule factor_step_keeps_mark)

lemma check_code_range: "check_code lib secret code now = Some s \<Longrightarrow> s \<le> now div 30 + 1 \<and> now div 30 \<le> s + 1"
  by (auto simp: check_code_def Let_def PERIOD_SECS_def SKEW_def split: if_splits dest!: find_SomeD)

lemma verify_totp_rows_accepts:
  assumes "verify_totp_rows lib now dbnow t code rows st = (Inr (Some (VerifiedTotp c)), st')"
  shows "\<exists>row\<in>set rows. \<exists>secret s. cd_id row = c \<and> totp_secret (cd_data row) = Inr secret \<and> check_current lib secret code now = Some s
    \<and> kv_get now (t, c, s) (ft_used st) = None \<and> marked (t, c, s) (now + dur_secs 90) st'"
  using assms
proof (induction rows)
  case (Cons row rows)
  then obtain secret where sec: "totp_secret (cd_data row) = Inr secret" by (auto split: sum.splits)
  show ?case
  proof (cases "check_current lib secret code now")
    case None
    then show ?thesis using Cons sec by auto
  next
    case (Some s)
    then have "fst (mark_step_used now t (cd_id row) s st)" "cd_id row = c"
      "st' = touch_last_used dbnow t (cd_id row) (snd (mark_step_used now t (cd_id row) s st))"
      using Cons.prems sec by (auto split: prod.splits bool.splits)
    then have "kv_get now (t, c, s) (ft_used st) = None \<and> marked (t, c, s) (now + dur_secs 90) st'"
      by (auto simp: mark_step_used_def kv_set_nx_ex_def kv_set_ex_def kv_set_until_def marked_def used_ttl_def PERIOD_SECS_def
          SKEW_def split: if_splits)
    then show ?thesis using sec Some \<open>cd_id row = c\<close> by auto
  qed
qed simp

text \<open>
  C29. A code from an authenticator is accepted once per time step: when a credential's code
  passes, and later, after whatever else happened to the user's factors, a code passes for
  the same credential, the two were accepted for different time steps. The mark of a used
  step outlives the last moment its code could pass, drift included.
\<close>

theorem totp_step_used_once:
  assumes first: "verify_totp lib now dbnow t u code st = (Inr (Some (VerifiedTotp c)), st1)"
    and run: "(factor_step lib)\<^sup>*\<^sup>* st1 st2"
    and again: "fst (verify_totp lib now' dbnow' t u' code' st2) = Inr (Some (VerifiedTotp c))"
    and time: "0 \<le> now" "now \<le> now'"
  shows "\<exists>r secret s r' secret' s'. r \<in> set (ft_creds st) \<and> r' \<in> set (ft_creds st2) \<and> cd_id r = c \<and> cd_id r' = c \<and>
    totp_secret (cd_data r) = Inr secret \<and> totp_secret (cd_data r') = Inr secret' \<and>
    check_current lib secret code now = Some s \<and> check_current lib secret' code' now' = Some s' \<and> s \<noteq> s'"
proof -
  obtain r secret s where r: "r \<in> set (list_secrets_of_type t u KIND_TOTP st)" "cd_id r = c" "totp_secret (cd_data r) = Inr secret"
    "check_current lib secret code now = Some s" "marked (t, c, s) (now + dur_secs 90) st1"
    using verify_totp_rows_accepts first unfolding verify_totp_def by metis
  obtain st3 where "verify_totp lib now' dbnow' t u' code' st2 = (Inr (Some (VerifiedTotp c)), st3)"
    using again by (metis prod.collapse)
  then obtain r' secret' s' where r': "r' \<in> set (list_secrets_of_type t u' KIND_TOTP st2)" "cd_id r' = c"
    "totp_secret (cd_data r') = Inr secret'" "check_current lib secret' code' now' = Some s'" "kv_get now' (t, c, s') (ft_used st2) = None"
    using verify_totp_rows_accepts unfolding verify_totp_def by metis
  have "marked (t, c, s) (now + dur_secs 90) st2" by (rule factor_run.run_keeps [OF run r(5)])
  then obtain d where d: "ft_used st2 (t, c, s) = Some ((), Some d)" "now + dur_secs 90 \<le> d" by (auto simp: marked_def)
  have "s \<noteq> s'"
  proof
    assume "s = s'"
    then have "now + dur_secs 90 \<le> now'" using r'(5) d by (auto simp: kv_get_def kv_entry_def split: if_splits)
    then have "unix_now now + 90 \<le> unix_now now'" using time(1)
      by (auto simp: unix_now_def timestamp_def dur_secs_def nanos_per_sec_def)
    moreover have "s \<le> unix_now now div 30 + 1" "unix_now now' div 30 \<le> s + 1"
      using check_code_range r(4) r'(4) \<open>s = s'\<close> unfolding check_current_def by blast+
    ultimately show False by linarith
  qed
  then show ?thesis using r r' by (fastforce simp: list_secrets_of_type_def)
qed

definition ex_factor_lib :: factor_lib where
  "ex_factor_lib = library.extend ex_library (factor_lib.fields (\<lambda>k m. replicate 20 (char_of (0 :: nat))))"

definition ex_factor_state :: factor_state where
  "ex_factor_state =
     \<lparr>ft_creds = [\<lparr>cd_id = 4, cd_tenant = 1, cd_user = 3, cd_kind = ''totp'', cd_label = None, cd_data = TotpData (base32_encode ''12345''),
                   cd_created_at = 0, cd_last_used_at = None\<rparr>,
                  \<lparr>cd_id = 5, cd_tenant = 1, cd_user = 3, cd_kind = ''recovery_code'', cd_label = None,
                   cd_data = RecoveryData [\<lparr>rc_hash = ''aaaaabbbbb'', rc_used_at = None\<rparr>, \<lparr>rc_hash = ''cccccddddd'', rc_used_at = None\<rparr>],
                   cd_created_at = 0, cd_last_used_at = None\<rparr>],
      ft_used = Map.empty, ft_enrol = Map.empty\<rparr>"

lemma ex_code_at: "code_at ex_factor_lib secret n = ''000000''"
proof -
  have z: "byte (char_of (0 :: nat)) = 0" by (simp add: byte_def of_char_of)
  have "fl_hmac_sha1 ex_factor_lib secret m = replicate 20 (char_of (0 :: nat))" for m
    by (simp add: ex_factor_lib_def library.extend_def factor_lib.fields_def)
  moreover have "from_be (replicate k (char_of (0 :: nat))) = 0" for k
    unfolding from_be_def by (induction k) (simp_all add: z)
  moreover have "pad_zeros 6 (show_nat 0) = ''000000''" by code_simp
  ultimately show ?thesis by (simp add: code_at_def Let_def last_replicate z take_replicate DIGITS_def)
qed

definition ex_factor_used :: factor_state where
  "ex_factor_used = ex_factor_state\<lparr>ft_used := [(1, 4, 1) \<mapsto> ((), Some (dur_secs 150))],
     ft_creds := update_where (\<lambda>c. cd_id c = 4) (\<lambda>c. c\<lparr>cd_last_used_at := Some 0\<rparr>) (ft_creds ex_factor_state)\<rparr>"

theorem totp_step_used_once_witness:
  "\<exists>r secret s r' secret' s'. r \<in> set (ft_creds ex_factor_state) \<and> r' \<in> set (ft_creds ex_factor_used) \<and> cd_id r = 4 \<and> cd_id r' = 4 \<and>
    totp_secret (cd_data r) = Inr secret \<and> totp_secret (cd_data r') = Inr secret' \<and>
    check_current ex_factor_lib secret ''000000'' (dur_secs 60) = Some s \<and>
    check_current ex_factor_lib secret' ''000000'' (dur_secs 180) = Some s' \<and> s \<noteq> s'"
proof (rule totp_step_used_once)
  show "verify_totp ex_factor_lib (dur_secs 60) 0 1 3 ''000000'' ex_factor_state = (Inr (Some (VerifiedTotp 4)), ex_factor_used)"
    by (simp add: verify_totp_def list_secrets_of_type_def ex_factor_state_def KIND_TOTP_def totp_secret_def build_secret_def
        base32_decode_encode check_current_def check_code_def DIGITS_def ascii_digit_def PERIOD_SECS_def SKEW_def unix_now_def timestamp_def
        dur_secs_def nanos_per_sec_def ex_code_at Let_def mark_step_used_def kv_set_nx_ex_def kv_set_ex_def kv_set_until_def
        ex_factor_used_def touch_last_used_def used_ttl_def upt_conv_Cons)
  show "(factor_step ex_factor_lib)\<^sup>*\<^sup>* ex_factor_used ex_factor_used" by simp
  show "fst (verify_totp ex_factor_lib (dur_secs 180) 0 1 3 ''000000'' ex_factor_used) = Inr (Some (VerifiedTotp 4))"
    by (simp add: verify_totp_def list_secrets_of_type_def ex_factor_state_def KIND_TOTP_def totp_secret_def build_secret_def
        base32_decode_encode check_current_def check_code_def DIGITS_def ascii_digit_def PERIOD_SECS_def SKEW_def unix_now_def timestamp_def
        dur_secs_def nanos_per_sec_def ex_code_at Let_def mark_step_used_def kv_set_nx_ex_def kv_set_ex_def kv_set_until_def kv_get_def
        kv_entry_def ex_factor_used_def touch_last_used_def used_ttl_def upt_conv_Cons)
qed (simp_all add: dur_secs_def nanos_per_sec_def)

section \<open>Recovery codes\<close>

fun unused_with :: "string \<Rightarrow> cred_data \<Rightarrow> nat" where
  "unused_with w (RecoveryData codes) = length (filter (\<lambda>c. rc_hash c = w \<and> rc_used_at c = None) codes)"
| "unused_with w _ = 0"

definition unused_of :: "uuid \<Rightarrow> uuid \<Rightarrow> string \<Rightarrow> factor_state \<Rightarrow> nat" where
  "unused_of t u w st = sum_list (map (unused_with w \<circ> cd_data) (list_secrets_of_type t u KIND_RECOVERY st))"

lemma last_hit_Some:
  "last_hit w k codes = Some i \<Longrightarrow> k \<le> i \<and> i - k < length codes \<and> rc_hash (codes ! (i - k)) = w \<and> rc_used_at (codes ! (i - k)) = None"
proof (induction codes arbitrary: k)
  case (Cons c cs)
  show ?case
  proof (cases "last_hit w (Suc k) cs")
    case None
    then show ?thesis using Cons.prems by (auto split: if_splits)
  next
    case (Some j)
    then have "last_hit w (Suc k) cs = Some i" using Cons.prems by simp
    note h = Cons.IH [OF this]
    then have "i - k = Suc (i - Suc k)" by linarith
    then show ?thesis using h by simp
  qed
qed simp

lemma last_hit_None_iff: "last_hit w k codes = None \<longleftrightarrow> (\<forall>c\<in>set codes. \<not> (rc_hash c = w \<and> rc_used_at c = None))"
proof (induction codes arbitrary: k)
  case (Cons c cs)
  show ?case using Cons.IH [of "Suc k"] by (cases "last_hit w (Suc k) cs") auto
qed simp

lemma length_filter_update:
  assumes "i < length xs" "P (xs ! i)" "\<not> P x"
  shows "Suc (length (filter P (xs[i := x]))) = length (filter P xs)"
proof -
  have "xs = take i xs @ xs ! i # drop (Suc i) xs" using assms(1) by (rule id_take_nth_drop)
  then have "length (filter P xs) = length (filter P (take i xs)) + Suc (length (filter P (drop (Suc i) xs)))"
    using assms(2) by (metis filter.simps(2) filter_append length_Cons length_append)
  then show ?thesis using assms by (simp add: upd_conv_take_nth_drop)
qed

lemma spend_recovery_accepts:
  assumes "spend_recovery now dbnow t w rows st = (Inr (Some v), st')"
  shows "\<exists>row\<in>set rows. \<exists>codes i. cd_data row = RecoveryData codes \<and> last_hit w 0 codes = Some i \<and>
    st' = update_data dbnow t (cd_id row) (RecoveryData (codes[i := (codes ! i)\<lparr>rc_used_at := Some now\<rparr>])) st"
  using assms
proof (induction rows)
  case (Cons row rows)
  then obtain codes where c: "cd_data row = RecoveryData codes" by (cases "cd_data row") auto
  show ?case
  proof (cases "last_hit w 0 codes")
    case None
    then show ?thesis using Cons c by simp
  next
    case (Some i)
    then show ?thesis using Cons.prems c by (auto simp: Let_def)
  qed
qed simp

lemma filter_update_where_same:
  "(\<And>x. q (f x) = q x) \<Longrightarrow> filter q (update_where p f xs) = update_where p f (filter q xs)"
  by (induction xs) auto

lemma list_secrets_update_data:
  "list_secrets_of_type t' u kind (update_data dbnow t i d st) =
     update_where (\<lambda>c. cd_tenant c = t \<and> cd_id c = i) (\<lambda>c. c\<lparr>cd_data := d, cd_last_used_at := Some dbnow\<rparr>)
       (list_secrets_of_type t' u kind st)"
  by (simp add: list_secrets_of_type_def update_data_def filter_update_where_same)

lemma sum_update_where:
  fixes g :: "'r \<Rightarrow> nat"
  assumes "row \<in> set rows" "p row" "\<forall>r\<in>set rows. p r \<longrightarrow> r = row" "distinct rows"
  shows "sum_list (map g (update_where p f rows)) + g row = sum_list (map g rows) + g (f row)"
  using assms
proof (induction rows)
  case (Cons r rows)
  show ?case
  proof (cases "r = row")
    case True
    have "\<not> p x" if "x \<in> set rows" for x
    proof
      assume "p x"
      then have "x = row" using Cons.prems(3) that by simp
      then show False using True that Cons.prems(4) by simp
    qed
    then have "update_where p f rows = rows" by (simp add: update_where_def map_idI)
    then show ?thesis using True Cons.prems(2) by simp
  next
    case False
    have mem: "row \<in> set rows" using False Cons.prems(1) by simp
    have np: "\<not> p r" using False Cons.prems(3) by (metis list.set_intros(1))
    have "sum_list (map g (update_where p f rows)) + g row = sum_list (map g rows) + g (f row)"
      by (rule Cons.IH [OF mem Cons.prems(2)]) (use Cons.prems(3,4) in simp_all)
    then show ?thesis using np by simp
  qed
qed simp

text \<open>
  A recovery code is spent by its use: when a code is accepted, one fewer unused code with its
  hash is left to the user. With codes that differ, as they are issued, the same code does
  not pass again.
\<close>

theorem recovery_code_is_spent:
  assumes v: "verify_recovery lib now dbnow t u code st = (Inr (Some r), st')"
    and w: "recovery_wanted lib code = Some w" and ids: "distinct (map cd_id (ft_creds st))"
  shows "Suc (unused_of t u w st') = unused_of t u w st"
proof -
  let ?rows = "list_secrets_of_type t u KIND_RECOVERY st"
  obtain row codes i where row: "row \<in> set ?rows" "cd_data row = RecoveryData codes" "last_hit w 0 codes = Some i"
    and st': "st' = update_data dbnow t (cd_id row) (RecoveryData (codes[i := (codes ! i)\<lparr>rc_used_at := Some now\<rparr>])) st"
    using v w spend_recovery_accepts [of now dbnow t w ?rows st r st'] by (auto simp: verify_recovery_def)
  define p where "p = (\<lambda>c :: credential. cd_tenant c = t \<and> cd_id c = cd_id row)"
  define f where "f = (\<lambda>c :: credential. c\<lparr>cd_data := RecoveryData (codes[i := (codes ! i)\<lparr>rc_used_at := Some now\<rparr>]), cd_last_used_at := Some dbnow\<rparr>)"
  have d: "distinct ?rows" "\<forall>c\<in>set ?rows. p c \<longrightarrow> c = row"
    using ids row(1) by (auto simp: list_secrets_of_type_def distinct_map p_def dest: inj_onD)
  have "list_secrets_of_type t u KIND_RECOVERY st' = update_where p f ?rows"
    unfolding st' p_def f_def by (rule list_secrets_update_data)
  then have "unused_of t u w st' + (unused_with w \<circ> cd_data) row = unused_of t u w st + (unused_with w \<circ> cd_data) (f row)"
    using sum_update_where [OF row(1) _ d(2,1), of "unused_with w \<circ> cd_data" f] row(1)
    by (simp add: unused_of_def p_def list_secrets_of_type_def)
  moreover have "Suc ((unused_with w \<circ> cd_data) (f row)) = (unused_with w \<circ> cd_data) row"
    using last_hit_Some [OF row(3)] by (simp add: f_def row(2) length_filter_update)
  ultimately show ?thesis by simp
qed

lemma ex_recovery_wanted: "recovery_wanted ex_factor_lib ''AAAAA-bbbbb'' = Some ''aaaaabbbbb''"
  by code_simp

lemmas ex_recovery_simps = ex_factor_state_def list_secrets_of_type_def KIND_RECOVERY_def Let_def update_data_def

theorem recovery_code_is_spent_witness:
  "Suc (unused_of 1 3 ''aaaaabbbbb'' (snd (verify_recovery ex_factor_lib 0 0 1 3 ''AAAAA-bbbbb'' ex_factor_state)))
     = unused_of 1 3 ''aaaaabbbbb'' ex_factor_state"
proof (rule recovery_code_is_spent)
  have "fst (verify_recovery ex_factor_lib 0 0 1 3 ''AAAAA-bbbbb'' ex_factor_state) = Inr (Some (VerifiedRecovery 1))"
    by (simp add: verify_recovery_def ex_recovery_wanted ex_recovery_simps)
  then show "verify_recovery ex_factor_lib 0 0 1 3 ''AAAAA-bbbbb'' ex_factor_state
      = (Inr (Some (VerifiedRecovery 1)), snd (verify_recovery ex_factor_lib 0 0 1 3 ''AAAAA-bbbbb'' ex_factor_state))"
    by (metis prod.collapse)
qed (simp_all add: ex_factor_state_def ex_recovery_wanted)

text \<open>Two requests that read the rows before either writes.\<close>

lemma spend_result: "fst (spend_recovery now dbnow t w rows st) = fst (spend_recovery now' dbnow' t w rows st')"
proof (induction rows)
  case (Cons row rows)
  have "unused_codes (RecoveryData (codes[i := (codes ! i)\<lparr>rc_used_at := Some a\<rparr>]))
      = unused_codes (RecoveryData (codes[i := (codes ! i)\<lparr>rc_used_at := Some b\<rparr>]))" for codes i a b
    by (cases "i < length codes") (simp_all add: upd_conv_take_nth_drop list_update_beyond)
  then show ?case using Cons by (auto simp: Let_def split: cred_data.splits option.splits)
qed simp

text \<open>
  The rows of a user's recovery codes are read in one transaction and written back in
  another. When two requests have both read them, both are accepted with the same code; and
  when the second spends another code of the set, its write takes back the first one's, which
  then passes a further time.
\<close>

theorem recovery_code_race:
  assumes rows: "list_secrets_of_type t u KIND_RECOVERY st = [row]" and data: "cd_data row = RecoveryData codes"
    and hits: "last_hit w 0 codes = Some i" "last_hit w' 0 codes = Some j" "w \<noteq> w'"
    and one: "spend_recovery now dbnow t w [row] st = (Inr (Some v), st1)"
    and two: "spend_recovery now' dbnow' t w' [row] st1 = (Inr (Some v'), st2)"
  shows "fst (spend_recovery now' dbnow' t w [row] st1) = Inr (Some v) \<and>
    (\<exists>v''. fst (spend_recovery now'' dbnow'' t w (list_secrets_of_type t u KIND_RECOVERY st2) st2) = Inr (Some v''))"
proof
  show "fst (spend_recovery now' dbnow' t w [row] st1) = Inr (Some v)"
    using spend_result [of now' dbnow' t w "[row]" st1 now dbnow st] one by simp
  define codes' where "codes' = codes[j := (codes ! j)\<lparr>rc_used_at := Some now'\<rparr>]"
  have h: "i < length codes" "rc_hash (codes ! i) = w" "rc_used_at (codes ! i) = None" "rc_hash (codes ! j) = w'"
    using last_hit_Some [OF hits(1)] last_hit_Some [OF hits(2)] by simp_all
  then have "i \<noteq> j" using hits(3) by auto
  then have "codes' ! i = codes ! i" "i < length codes'" using h by (simp_all add: codes'_def)
  then have "codes ! i \<in> set codes'" by (metis nth_mem)
  then have "last_hit w 0 codes' \<noteq> None" using h by (auto simp: last_hit_None_iff)
  then obtain k where k: "last_hit w 0 codes' = Some k" by blast
  have rt: "cd_tenant row = t" using rows by (auto simp: list_secrets_of_type_def filter_eq_Cons_iff)
  have "st2 = update_data dbnow' t (cd_id row) (RecoveryData codes') st1"
    "st1 = update_data dbnow t (cd_id row) (RecoveryData (codes[i := (codes ! i)\<lparr>rc_used_at := Some now\<rparr>])) st"
    using one two data hits(1,2) by (auto simp: Let_def codes'_def)
  then have "\<exists>r. list_secrets_of_type t u KIND_RECOVERY st2 = [r] \<and> cd_data r = RecoveryData codes'"
    using rows rt by (simp add: list_secrets_update_data)
  then show "\<exists>v''. fst (spend_recovery now'' dbnow'' t w (list_secrets_of_type t u KIND_RECOVERY st2) st2) = Inr (Some v'')"
    using k by (auto simp: Let_def)
qed

definition ex_recovery_row :: credential where
  "ex_recovery_row = ft_creds ex_factor_state ! 1"

theorem recovery_code_race_witness:
  "\<exists>st1 st2. fst (spend_recovery 0 0 1 ''aaaaabbbbb'' [ex_recovery_row] st1) = Inr (Some (VerifiedRecovery 1)) \<and>
     (\<exists>v''. fst (spend_recovery 0 0 1 ''aaaaabbbbb'' (list_secrets_of_type 1 3 KIND_RECOVERY st2) st2) = Inr (Some v''))"
proof -
  let ?one = "spend_recovery 0 0 1 ''aaaaabbbbb'' [ex_recovery_row] ex_factor_state"
  let ?two = "spend_recovery 0 0 1 ''cccccddddd'' [ex_recovery_row] (snd ?one)"
  let ?codes = "[\<lparr>rc_hash = ''aaaaabbbbb'', rc_used_at = None\<rparr>, \<lparr>rc_hash = ''cccccddddd'', rc_used_at = None\<rparr>]"
  have "fst ?one = Inr (Some (VerifiedRecovery 1))" "fst ?two = Inr (Some (VerifiedRecovery 1))"
    by (simp_all add: ex_recovery_row_def ex_recovery_simps)
  then have 1: "?one = (Inr (Some (VerifiedRecovery 1)), snd ?one)" "?two = (Inr (Some (VerifiedRecovery 1)), snd ?two)"
    by (metis prod.collapse)+
  have 2: "list_secrets_of_type 1 3 KIND_RECOVERY ex_factor_state = [ex_recovery_row]" "cd_data ex_recovery_row = RecoveryData ?codes"
    by (simp_all add: ex_recovery_row_def ex_factor_state_def list_secrets_of_type_def KIND_RECOVERY_def)
  have 3: "last_hit ''aaaaabbbbb'' 0 ?codes = Some 0" "last_hit ''cccccddddd'' 0 ?codes = Some 1" by simp_all
  show ?thesis using recovery_code_race [OF 2 3 _ 1] by fastforce
qed

section \<open>Enrolment leads to a working factor\<close>

lemma show_nat_length: "n < 10 ^ Suc k \<Longrightarrow> length (show_nat n) \<le> Suc k"
proof (induction k arbitrary: n)
  case 0
  then show ?case by (simp add: show_nat.simps)
next
  case (Suc k)
  show ?case
  proof (cases "n < 10")
    case True
    then show ?thesis by (simp add: show_nat.simps)
  next
    case False
    have "n div 10 < 10 ^ Suc k" using Suc.prems by (simp add: div_less_iff_less_mult mult.commute)
    then have "length (show_nat (n div 10)) \<le> Suc k" by (rule Suc.IH)
    then show ?thesis using False by (subst show_nat.simps) simp
  qed
qed

lemma code_at_shape: "length (code_at lib secret n) = 6 \<and> list_all ascii_digit (code_at lib secret n)"
proof -
  have "length (show_nat (m mod 1000000)) \<le> 6" for m
    using show_nat_length [of "m mod 1000000" 5] by simp
  moreover have "list_all ascii_digit (pad_zeros 6 (show_nat m))" for m
    using show_nat_digits [of m] by (auto simp: pad_zeros_def list_all_iff ascii_digit_def)
  ultimately show ?thesis by (simp add: code_at_def Let_def DIGITS_def) (simp add: pad_zeros_def)
qed

lemma trim_code_at [simp]: "trim (code_at lib secret n) = code_at lib secret n"
  using code_at_shape [of lib secret n]
  by (intro trim_visible) (auto simp: list_all_iff visible_def ascii_digit_def)

lemma check_current_code:
  "\<exists>s. check_current lib secret (code_at lib secret (unix_now now div 30)) now = Some s \<and> unix_now now div 30 \<le> s + 1 \<and> s \<le> unix_now now div 30 + 1"
proof -
  let ?o = "unix_now now div 30" and ?c = "code_at lib secret (unix_now now div 30)"
  have "check_code lib secret ?c (unix_now now) \<noteq> None"
    using code_at_shape [of lib secret ?o]
    by (simp add: check_code_def Let_def DIGITS_def PERIOD_SECS_def SKEW_def find_None_iff) (use le_add1 in force)
  then obtain s where "check_current lib secret ?c now = Some s" by (auto simp: check_current_def)
  then show ?thesis using check_code_range unfolding check_current_def by blast
qed

definition enrolled :: "factor_lib \<Rightarrow> instant \<Rightarrow> uuid \<times> uuid \<Rightarrow> string list \<Rightarrow> tenant \<Rightarrow> uuid \<Rightarrow> user \<Rightarrow> string \<Rightarrow> instant \<Rightarrow> factor_state
    \<Rightarrow> (app_error + string list option) \<times> factor_state" where
  "enrolled lib now ids codes tn flow u random now1 st =
     confirm_enrolment lib now1 now1 ids codes tn flow u (code_at lib random (unix_now now1 div 30)) None
       (snd (begin_enrolment now random tn flow u st))"

text \<open>
  C30. An enrolment ends in a working second factor: a user without an authenticator who begins one,
  and shows the code of the secret he was given within ten minutes, gets recovery codes, and
  three time steps later the authenticator's code is accepted as his second factor.
\<close>

theorem enrolled_authenticator_works:
  assumes fresh: "kv_get now (tn_id tn, flow) (ft_enrol st) = None" "\<forall>s. ft_used st (tn_id tn, fst ids, s) = None"
      "list_secrets_of_type (tn_id tn) (us_id u) KIND_TOTP st = []"
    and r: "random \<noteq> []" and t1: "now \<le> now1" "now1 < now + dur_secs 600"
    and t2: "unix_now now1 div 30 + 3 \<le> unix_now now2 div 30"
  shows "fst (enrolled lib now ids codes tn flow u random now1 st) = Inr (Some codes) \<and>
    fst (verify_factor lib now2 dbnow (tn_id tn) (us_id u) (code_at lib random (unix_now now2 div 30))
      (snd (enrolled lib now ids codes tn flow u random now1 st))) = Inr (Some (VerifiedTotp (fst ids)))"
proof -
  let ?st1 = "snd (begin_enrolment now random tn flow u st)"
  define row where "row = \<lparr>cd_id = fst ids, cd_tenant = tn_id tn, cd_user = us_id u, cd_kind = KIND_TOTP,
    cd_label = Some (enrolment_label None), cd_data = TotpData (base32_encode random), cd_created_at = now1, cd_last_used_at = None\<rparr>"
  have b: "build_secret (base32_encode random) = Inr random" using r by (simp add: build_secret_def base32_decode_encode)
  have st1: "ft_enrol ?st1 = kv_set_ex now 600 (tn_id tn, flow) (base32_encode random) (ft_enrol st)" "ft_creds ?st1 = ft_creds st"
    "ft_used ?st1 = ft_used st"
    using fresh(1) b by (simp_all add: begin_enrolment_def Let_def kv_set_nx_ex_def ENROLMENT_TTL_SECS_def)
  have pend: "kv_get now1 (tn_id tn, flow) (ft_enrol ?st1) = Some (base32_encode random)"
    using t1 by (simp add: st1 kv_get_at_set_ex)
  obtain s1 where s1: "check_current lib random (code_at lib random (unix_now now1 div 30)) now1 = Some s1" "s1 \<le> unix_now now1 div 30 + 1"
    using check_current_code by blast
  define st2 where "st2 = snd (enrolled lib now ids codes tn flow u random now1 st)"
  have e: "enrolled lib now ids codes tn flow u random now1 st = (Inr (Some codes), st2)"
    by (simp add: st2_def enrolled_def confirm_enrolment_def pend b s1 Let_def)
  obtain m where st2: "st2 = regenerate_recovery_codes lib now1 (tn_id tn) (us_id u) (snd ids) codes
      ((snd (mark_step_used now1 (tn_id tn) (fst ids) s1 (insert_credential row ?st1)))\<lparr>ft_enrol := m\<rparr>)"
    by (simp add: st2_def enrolled_def confirm_enrolment_def pend b s1 Let_def row_def)
  have creds: "ft_creds st2 = filter (\<lambda>c. \<not> (cd_tenant c = tn_id tn \<and> cd_user c = us_id u \<and> cd_kind c = KIND_RECOVERY)) (ft_creds st @ [row])
      @ [\<lparr>cd_id = snd ids, cd_tenant = tn_id tn, cd_user = us_id u, cd_kind = KIND_RECOVERY, cd_label = Some ''Recovery codes'',
        cd_data = RecoveryData (map (\<lambda>c. \<lparr>rc_hash = hash_code lib (normalise_recovery c), rc_used_at = None\<rparr>) codes),
        cd_created_at = now1, cd_last_used_at = None\<rparr>]"
    by (simp add: st2 regenerate_recovery_codes_def insert_credential_def delete_of_type_def mark_step_used_def st1 split: prod.splits)
  have "list_secrets_of_type (tn_id tn) (us_id u) KIND_TOTP st2 = [row]"
    using fresh(3) unfolding list_secrets_of_type_def creds
    by (simp add: row_def KIND_TOTP_def KIND_RECOVERY_def filter_empty_conv)
  moreover have used: "ft_used st2 (tn_id tn, fst ids, s) = None" if "s \<noteq> s1" for s
    using that fresh(2) by (simp add: st2 mark_step_used_def st1 kv_set_nx_ex_def kv_set_ex_def kv_set_until_def split: prod.splits)
  moreover obtain s2 where s2: "check_current lib random (code_at lib random (unix_now now2 div 30)) now2 = Some s2" "unix_now now2 div 30 \<le> s2 + 1"
    using check_current_code by blast
  moreover have "s2 \<noteq> s1" using s1(2) s2(2) t2 by simp
  ultimately have "fst (verify_totp lib now2 dbnow (tn_id tn) (us_id u) (code_at lib random (unix_now now2 div 30)) st2)
      = Inr (Some (VerifiedTotp (fst ids)))"
    using used [of s2]
    by (simp add: verify_totp_def row_def totp_secret_def b mark_step_used_def kv_set_nx_ex_def kv_get_def kv_entry_def)
  then show ?thesis using code_at_shape [of lib random "unix_now now2 div 30"] e
    by (simp add: verify_factor_def Let_def DIGITS_def)
qed

theorem enrolled_authenticator_works_witness:
  "fst (verify_factor ex_factor_lib (dur_secs 120) 0 1 3 (code_at ex_factor_lib ''12345'' 4)
      (snd (enrolled ex_factor_lib 0 (8, 9) [''aaaaa-bbbbb''] ex_tenant 2 ex_user ''12345'' 0 (ex_factor_state\<lparr>ft_creds := []\<rparr>))))
    = Inr (Some (VerifiedTotp 8))"
proof -
  have "unix_now (dur_secs 120) div 30 = 4" "unix_now 0 div 30 = 0"
    by (simp_all add: unix_now_def timestamp_def dur_secs_def nanos_per_sec_def)
  then show ?thesis
    using enrolled_authenticator_works [of 0 ex_tenant 2 "ex_factor_state\<lparr>ft_creds := []\<rparr>" "(8, 9)" ex_user "''12345''" 0 "dur_secs 120" ex_factor_lib "[''aaaaa-bbbbb'']" 0]
    by (simp add: ex_factor_state_def ex_tenant_def ex_user_def list_secrets_of_type_def)
qed

end
