(* ===== verification/Passwords.thy ===== *)
theory Passwords
  imports Second_Factors
begin

text \<open>
  Passwords (\<open>api/src/services/password.rs\<close>, \<open>repos/password_history.rs\<close>, the password columns
  of \<open>repos/users.rs\<close>): the hashers of the standard and of the FIPS build, the verifiers of
  imported formats, the tenant's policy with its history rule, setting a password, importing a
  hash and the transparent upgrade at sign-in. The hash functions, base64 and hexadecimal
  crates, and the Unicode tables beyond ASCII, are the record \<open>password_lib\<close>; salts and row
  identifiers are arguments. What a directory (\<open>services/ldap.rs\<close>) answers for a user is an
  argument too. A set and an upgrade read in one transaction and write in another, so each has
  a preparing and a writing step. Cache invalidation, events and mail are not modelled.
\<close>

section \<open>Libraries and hashers\<close>

datatype provider_error = PConfiguration string | PUnavailable string | PRejected string

fun provider_error_text :: "provider_error \<Rightarrow> string" where
  "provider_error_text (PConfiguration m) = ''provider configuration error: '' @ m"
| "provider_error_text (PUnavailable m) = ''provider unavailable: '' @ m"
| "provider_error_text (PRejected m) = ''provider rejected request: '' @ m"

text \<open>
  \<open>pl_argon2_params\<close> is the error of \<open>Params::new\<close>, \<open>pl_phc\<close> parses a PHC string into its
  algorithm and parameters, \<open>pl_argon2_verify\<close> is \<open>verify_password\<close> with \<open>PasswordInvalid\<close> as
  \<open>Inr False\<close>. \<open>pl_pbkdf2\<close> takes the digest, rounds, salt, password and length.
\<close>

record password_lib = library +
  pl_argon2_params :: "nat \<Rightarrow> nat \<Rightarrow> nat \<Rightarrow> string option"
  pl_argon2_hash :: "nat \<Rightarrow> nat \<Rightarrow> nat \<Rightarrow> string \<Rightarrow> string \<Rightarrow> string + string"
  pl_phc :: "string \<Rightarrow> string + string \<times> (string \<times> string) list"
  pl_argon2_verify :: "string \<Rightarrow> string \<Rightarrow> string + bool"
  pl_bcrypt :: "string \<Rightarrow> string \<Rightarrow> string + bool"
  pl_pbkdf2 :: "nat \<Rightarrow> nat \<Rightarrow> string \<Rightarrow> string \<Rightarrow> nat \<Rightarrow> string"
  pl_md5 :: "string \<Rightarrow> string"
  pl_b64_nopad :: "string \<Rightarrow> string"
  pl_b64_nopad_decode :: "string \<Rightarrow> string option"
  pl_hex_decode :: "string \<Rightarrow> string option"
  pl_upper_char :: "string \<Rightarrow> bool"
  pl_lower_char :: "string \<Rightarrow> bool"
  pl_alnum_char :: "string \<Rightarrow> bool"
  pl_lowercase :: "string \<Rightarrow> string"

record argon2_params =
  ap_m :: nat
  ap_t :: nat
  ap_p :: nat

definition default_argon2_params :: argon2_params where
  "default_argon2_params = \<lparr>ap_m = 19 * 1024, ap_t = 2, ap_p = 1\<rparr>"

datatype hasher = Argon2Hasher argon2_params | Pbkdf2Hasher nat bool

record password_verification =
  pv_valid :: bool
  pv_rehash :: bool

definition ALGO_ARGON2ID :: string where "ALGO_ARGON2ID = ''argon2id''"
definition ALGO_PBKDF2_SHA512 :: string where "ALGO_PBKDF2_SHA512 = ''pbkdf2-sha512''"

text \<open>\<open>str::parse::<u32>\<close>.\<close>

definition parse_u32 :: "string \<Rightarrow> nat option" where
  "parse_u32 s =
     (let ds = (case s of c # r \<Rightarrow> if c = CHR ''+'' then r else s | [] \<Rightarrow> [])
      in if ds = [] \<or> \<not> list_all ascii_digit ds then None
         else let n = read_digits 0 ds in if n < 2 ^ 32 then Some n else None)"

section \<open>Imported formats\<close>

definition is_bcrypt :: "string \<Rightarrow> bool" where
  "is_bcrypt s = (starts_with s ''$2a$'' \<or> starts_with s ''$2b$'' \<or> starts_with s ''$2y$'')"

definition algorithm_of :: "string \<Rightarrow> string" where
  "algorithm_of s =
     (if starts_with s ''$argon2id$'' then ALGO_ARGON2ID
      else if starts_with s ''$argon2i$'' then ''argon2i''
      else if starts_with s ''$argon2d$'' then ''argon2d''
      else if is_bcrypt s then ''bcrypt''
      else if starts_with s ''$pbkdf2-sha256$'' \<or> starts_with s ''pbkdf2_sha256$'' then ''pbkdf2-sha256''
      else if starts_with s ''$pbkdf2-sha512$'' \<or> starts_with s ''pbkdf2_sha512$'' then ''pbkdf2-sha512''
      else if starts_with s ''$sha256$'' then ''sha256''
      else if starts_with s ''$sha512$'' then ''sha512''
      else if starts_with s ''$md5$'' then ''md5''
      else ''unknown'')"

definition is_approved :: "string \<Rightarrow> bool" where
  "is_approved s = list_ex (starts_with s) [''$pbkdf2-sha256$'', ''$pbkdf2-sha512$'', ''pbkdf2_sha256$'', ''pbkdf2_sha512$'']"

definition pbkdf2_sha512_rounds :: "string \<Rightarrow> nat option" where
  "pbkdf2_sha512_rounds s =
     Option.bind (strip_prefix ''$pbkdf2-sha512$'' s) (\<lambda>rest. parse_u32 (hd (split_on (CHR ''$'') rest)))"

definition or_else :: "'a option \<Rightarrow> 'a option \<Rightarrow> 'a option" where
  "or_else a b = (case a of None \<Rightarrow> b | Some x \<Rightarrow> Some x)"

definition decode_b64 :: "password_lib \<Rightarrow> string \<Rightarrow> string option" where
  "decode_b64 lib s =
     or_else (l_b64_decode lib s)
       (or_else (pl_b64_nopad_decode lib s)
         (or_else (l_b64url_decode lib s)
           (pl_b64_nopad_decode lib (map (\<lambda>c. if c = CHR ''.'' then CHR ''+'' else c) s))))"

definition MAX_PBKDF2_ROUNDS :: nat where "MAX_PBKDF2_ROUNDS = 1000000"

definition pbkdf2_check :: "password_lib \<Rightarrow> string \<Rightarrow> string \<Rightarrow> nat \<Rightarrow> string \<Rightarrow> nat \<Rightarrow> provider_error + bool" where
  "pbkdf2_check lib pw salt rounds expected alg =
     (if rounds = 0 \<or> MAX_PBKDF2_ROUNDS < rounds \<or> expected = [] \<or> 512 < length expected
      then Inl (PRejected ''pbkdf2 parameters out of range'')
      else Inr (pl_pbkdf2 lib alg rounds salt pw (length expected) = expected))"

text \<open>\<open>splitn(3, '$')\<close>, when it has three parts.\<close>

definition three_parts :: "string \<Rightarrow> (string \<times> string \<times> string) option" where
  "three_parts s = Option.bind (split_once (CHR ''$'') s) (\<lambda>(a, r). map_option (\<lambda>(b, c). (a, b, c)) (split_once (CHR ''$'') r))"

definition pbkdf2_phc :: "password_lib \<Rightarrow> string \<Rightarrow> string \<Rightarrow> nat \<Rightarrow> provider_error + bool" where
  "pbkdf2_phc lib pw rest alg =
     (case three_parts rest of
        None \<Rightarrow> Inl (PRejected ''malformed pbkdf2 hash'')
      | Some (rounds, salt, hash) \<Rightarrow>
          andThen (or_error (parse_u32 rounds) (PRejected ''malformed pbkdf2 rounds'')) (\<lambda>r.
          andThen (or_error (decode_b64 lib salt) (PRejected ''malformed pbkdf2 salt'')) (\<lambda>sl.
          andThen (or_error (decode_b64 lib hash) (PRejected ''malformed pbkdf2 hash'')) (\<lambda>expected.
            pbkdf2_check lib pw sl r expected alg))))"

definition pbkdf2_django :: "password_lib \<Rightarrow> string \<Rightarrow> string \<Rightarrow> nat \<Rightarrow> provider_error + bool" where
  "pbkdf2_django lib pw rest alg =
     (case three_parts rest of
        None \<Rightarrow> Inl (PRejected ''malformed pbkdf2 hash'')
      | Some (rounds, salt, hash) \<Rightarrow>
          andThen (or_error (parse_u32 rounds) (PRejected ''malformed pbkdf2 rounds'')) (\<lambda>r.
          andThen (or_error (decode_b64 lib hash) (PRejected ''malformed pbkdf2 hash'')) (\<lambda>expected.
            pbkdf2_check lib pw salt r expected alg)))"

definition rsplit_once :: "char \<Rightarrow> string \<Rightarrow> (string \<times> string) option" where
  "rsplit_once c s = map_option (\<lambda>(a, b). (rev b, rev a)) (split_once c (rev s))"

definition salted_digest :: "password_lib \<Rightarrow> (string \<Rightarrow> string) \<Rightarrow> string \<Rightarrow> string \<Rightarrow> provider_error + bool" where
  "salted_digest lib digest pw rest =
     (let (salt, hex) = (case rsplit_once (CHR ''$'') rest of Some p \<Rightarrow> p | None \<Rightarrow> ([], rest))
      in andThen (or_error (pl_hex_decode lib hex) (PRejected ''malformed hex digest'')) (\<lambda>expected.
           Inr (digest (salt @ pw) = expected)))"

definition legacy_verify :: "password_lib \<Rightarrow> string \<Rightarrow> string \<Rightarrow> provider_error + bool" where
  "legacy_verify lib pw s =
     (if is_bcrypt s then (case pl_bcrypt lib pw s of Inl e \<Rightarrow> Inl (PRejected e) | Inr v \<Rightarrow> Inr v)
      else case strip_prefix ''$pbkdf2-sha256$'' s of Some rest \<Rightarrow> pbkdf2_phc lib pw rest 256
      | None \<Rightarrow> case strip_prefix ''$pbkdf2-sha512$'' s of Some rest \<Rightarrow> pbkdf2_phc lib pw rest 512
      | None \<Rightarrow> case strip_prefix ''pbkdf2_sha256$'' s of Some rest \<Rightarrow> pbkdf2_django lib pw rest 256
      | None \<Rightarrow> case strip_prefix ''pbkdf2_sha512$'' s of Some rest \<Rightarrow> pbkdf2_django lib pw rest 512
      | None \<Rightarrow> case strip_prefix ''$sha256$'' s of Some rest \<Rightarrow> salted_digest lib (l_digest lib 256) pw rest
      | None \<Rightarrow> case strip_prefix ''$sha512$'' s of Some rest \<Rightarrow> salted_digest lib (l_digest lib 512) pw rest
      | None \<Rightarrow> case strip_prefix ''$md5$'' s of Some rest \<Rightarrow> salted_digest lib (pl_md5 lib) pw rest
      | None \<Rightarrow> Inl (PRejected ''unsupported password hash format''))"

section \<open>The hashers\<close>

definition argon2_ready :: "password_lib \<Rightarrow> argon2_params \<Rightarrow> provider_error + unit" where
  "argon2_ready lib p = (case pl_argon2_params lib (ap_m p) (ap_t p) (ap_p p) of None \<Rightarrow> Inr () | Some e \<Rightarrow> Inl (PConfiguration e))"

text \<open>A stored parameter is weaker when it is missing, not a \<open>u32\<close>, or below the configured one.\<close>

definition weaker_param :: "(string \<times> string) list \<Rightarrow> string \<Rightarrow> nat \<Rightarrow> bool" where
  "weaker_param ps name wanted =
     (case Option.bind (map_of ps name) parse_u32 of None \<Rightarrow> True | Some v \<Rightarrow> v < wanted)"

definition verify_argon2 :: "password_lib \<Rightarrow> argon2_params \<Rightarrow> string \<Rightarrow> string \<Rightarrow> provider_error + password_verification" where
  "verify_argon2 lib p pw stored =
     (case pl_phc lib stored of
        Inl e \<Rightarrow> Inl (PRejected e)
      | Inr (alg, ps) \<Rightarrow>
          andThen (argon2_ready lib p) (\<lambda>_.
            case pl_argon2_verify lib pw stored of
              Inl e \<Rightarrow> Inl (PRejected e)
            | Inr valid \<Rightarrow>
                (let weaker = (alg \<noteq> ''argon2id'' \<or> weaker_param ps ''m'' (ap_m p) \<or> weaker_param ps ''t'' (ap_t p)
                                \<or> weaker_param ps ''p'' (ap_p p))
                 in Inr \<lparr>pv_valid = valid, pv_rehash = valid \<and> weaker\<rparr>)))"

fun hasher_algorithm :: "hasher \<Rightarrow> string" where
  "hasher_algorithm (Argon2Hasher p) = ALGO_ARGON2ID"
| "hasher_algorithm (Pbkdf2Hasher n tr) = ALGO_PBKDF2_SHA512"

definition HASH_LEN :: nat where "HASH_LEN = 64"

fun hash_password :: "password_lib \<Rightarrow> hasher \<Rightarrow> string \<Rightarrow> string \<Rightarrow> provider_error + string" where
  "hash_password lib (Argon2Hasher p) salt pw =
     andThen (argon2_ready lib p) (\<lambda>_.
       case pl_argon2_hash lib (ap_m p) (ap_t p) (ap_p p) salt pw of Inl e \<Rightarrow> Inl (PRejected e) | Inr h \<Rightarrow> Inr h)"
| "hash_password lib (Pbkdf2Hasher n tr) salt pw =
     (if n = 0 then Inl (PConfiguration ''PBKDF2_ITERATIONS is 0'')
      else Inr (''$pbkdf2-sha512$'' @ show_nat n @ ''$'' @ pl_b64_nopad lib salt @ ''$''
                  @ pl_b64_nopad lib (pl_pbkdf2 lib 512 n salt pw HASH_LEN)))"

definition fips_refusal :: "string \<Rightarrow> string" where
  "fips_refusal algo = ''this password hash is '' @ algo @ '', which the FIPS build verifies only with FIPS_TRANSITION=true (the user can also reset their password)''"

fun verify_hash :: "password_lib \<Rightarrow> hasher \<Rightarrow> string \<Rightarrow> string \<Rightarrow> provider_error + password_verification" where
  "verify_hash lib (Argon2Hasher p) pw stored =
     (if starts_with stored ''$argon2'' then verify_argon2 lib p pw stored
      else andThen (legacy_verify lib pw stored) (\<lambda>valid. Inr \<lparr>pv_valid = valid, pv_rehash = valid\<rparr>))"
| "verify_hash lib (Pbkdf2Hasher n tr) pw stored =
     (if is_approved stored then
        andThen (legacy_verify lib pw stored) (\<lambda>valid.
          let current = (case pbkdf2_sha512_rounds stored of None \<Rightarrow> False | Some r \<Rightarrow> n \<le> r)
          in Inr \<lparr>pv_valid = valid, pv_rehash = valid \<and> \<not> current\<rparr>)
      else if \<not> tr then Inl (PRejected (fips_refusal (algorithm_of stored)))
      else andThen (if starts_with stored ''$argon2''
                    then andThen (verify_argon2 lib default_argon2_params pw stored) (\<lambda>v. Inr (pv_valid v))
                    else legacy_verify lib pw stored) (\<lambda>valid. Inr \<lparr>pv_valid = valid, pv_rehash = valid\<rparr>))"

section \<open>Policy\<close>

record password_policy =
  pp_min_length :: nat
  pp_max_length :: nat
  pp_require_uppercase :: bool
  pp_require_lowercase :: bool
  pp_require_digit :: bool
  pp_require_symbol :: bool
  pp_history :: nat
  pp_max_age_days :: "nat option"
  pp_check_breached :: bool

definition default_password_policy :: password_policy where
  "default_password_policy = \<lparr>pp_min_length = 12, pp_max_length = 128, pp_require_uppercase = False,
     pp_require_lowercase = False, pp_require_digit = False, pp_require_symbol = False, pp_history = 5,
     pp_max_age_days = None, pp_check_breached = False\<rparr>"

record account = user +
  ac_password_hash :: "string option"
  ac_password_algo :: "string option"
  ac_must_change :: bool
  ac_password_expires_at :: "instant option"
  ac_password_changed_at :: "instant option"
  ac_last_login_at :: "instant option"
  ac_failed_attempts :: int
  ac_terms_accepted_at :: "instant option"

text \<open>The predicates of \<open>char\<close> and \<open>str::to_lowercase\<close>: written out for ASCII, the library's beyond it.\<close>

definition ascii_char :: "string \<Rightarrow> bool" where
  "ascii_char c = (length c = 1 \<and> byte (hd c) < 128)"

definition is_uppercase :: "password_lib \<Rightarrow> string \<Rightarrow> bool" where
  "is_uppercase lib c = (if ascii_char c then ascii_upper (hd c) else pl_upper_char lib c)"

definition is_lowercase :: "password_lib \<Rightarrow> string \<Rightarrow> bool" where
  "is_lowercase lib c = (if ascii_char c then ascii_lower (hd c) else pl_lower_char lib c)"

definition is_alphanumeric :: "password_lib \<Rightarrow> string \<Rightarrow> bool" where
  "is_alphanumeric lib c = (if ascii_char c then ascii_alnum (hd c) else pl_alnum_char lib c)"

definition to_lowercase :: "password_lib \<Rightarrow> string \<Rightarrow> string" where
  "to_lowercase lib s = (if list_all (\<lambda>c. byte c < 128) s then lower s else pl_lowercase lib s)"

definition check_policy :: "password_lib \<Rightarrow> password_policy \<Rightarrow> string \<Rightarrow> ('a user_scheme) option \<Rightarrow> string list" where
  "check_policy lib pol pw u =
     (let cs = str_chars pw; len = length cs mod 2 ^ 32
      in (if len < pp_min_length pol then [''must be at least '' @ show_nat (pp_min_length pol) @ '' characters''] else [])
       @ (if pp_max_length pol < len then [''must be at most '' @ show_nat (pp_max_length pol) @ '' characters''] else [])
       @ (if pp_require_uppercase pol \<and> \<not> list_ex (is_uppercase lib) cs then [''must contain an uppercase letter''] else [])
       @ (if pp_require_lowercase pol \<and> \<not> list_ex (is_lowercase lib) cs then [''must contain a lowercase letter''] else [])
       @ (if pp_require_digit pol \<and> \<not> list_ex (\<lambda>c. ascii_char c \<and> ascii_digit (hd c)) cs then [''must contain a digit''] else [])
       @ (if pp_require_symbol pol \<and> \<not> list_ex (\<lambda>c. \<not> is_alphanumeric lib c \<and> c \<notin> set white_space) cs
          then [''must contain a symbol''] else [])
       @ (case u of
            None \<Rightarrow> []
          | Some us \<Rightarrow>
              (let low = to_lowercase lib pw
               in (if contains_str (to_lowercase lib (us_username us)) low \<and> 4 \<le> length (us_username us)
                   then [''must not contain the username''] else [])
                @ (case us_email us of
                     None \<Rightarrow> []
                   | Some e \<Rightarrow>
                       (let local = hd (split_on (CHR ''@'') e)
                        in if 4 \<le> length local \<and> contains_str (to_lowercase lib local) low
                           then [''must not contain the email address''] else [])))))"

section \<open>Rows\<close>

record history_row =
  ph_id :: uuid
  ph_tenant :: uuid
  ph_user :: uuid
  ph_hash :: string
  ph_created_at :: instant

record pw_state =
  pw_users :: "account list"
  pw_history :: "history_row list"

definition user_history :: "uuid \<Rightarrow> uuid \<Rightarrow> history_row list \<Rightarrow> history_row list" where
  "user_history t u rows =
     rev (sort_key (\<lambda>r. (ph_created_at r, ph_id r)) (filter (\<lambda>r. ph_tenant r = t \<and> ph_user r = u) rows))"

definition history_recent :: "uuid \<Rightarrow> uuid \<Rightarrow> nat \<Rightarrow> pw_state \<Rightarrow> string list" where
  "history_recent t u limit st = map ph_hash (take limit (user_history t u (pw_history st)))"

definition history_insert :: "instant \<Rightarrow> uuid \<Rightarrow> uuid \<Rightarrow> uuid \<Rightarrow> string \<Rightarrow> pw_state \<Rightarrow> pw_state" where
  "history_insert dbnow new_id t u h st =
     st\<lparr>pw_history := pw_history st @ [\<lparr>ph_id = new_id, ph_tenant = t, ph_user = u, ph_hash = h, ph_created_at = dbnow\<rparr>]\<rparr>"

definition history_trim :: "uuid \<Rightarrow> uuid \<Rightarrow> nat \<Rightarrow> pw_state \<Rightarrow> pw_state" where
  "history_trim t u keep st =
     (let kept = map ph_id (take keep (user_history t u (pw_history st)))
      in st\<lparr>pw_history := filter (\<lambda>r. \<not> (ph_tenant r = t \<and> ph_user r = u \<and> ph_id r \<notin> set kept)) (pw_history st)\<rparr>)"

definition find_account :: "uuid \<Rightarrow> uuid \<Rightarrow> pw_state \<Rightarrow> account option" where
  "find_account t u st = find (\<lambda>a. us_tenant a = t \<and> us_id a = u) (pw_users st)"

definition live_account :: "uuid \<Rightarrow> uuid \<Rightarrow> pw_state \<Rightarrow> account option" where
  "live_account t u st = find (\<lambda>a. us_tenant a = t \<and> us_id a = u \<and> us_deleted_at a = None) (pw_users st)"

definition password_hash_for_update :: "uuid \<Rightarrow> uuid \<Rightarrow> pw_state \<Rightarrow> string option option" where
  "password_hash_for_update t u st = map_option ac_password_hash (live_account t u st)"

definition store_password ::
  "instant \<Rightarrow> uuid \<Rightarrow> uuid \<Rightarrow> string \<Rightarrow> string \<Rightarrow> bool \<Rightarrow> instant option \<Rightarrow> pw_state \<Rightarrow> bool \<times> pw_state" where
  "store_password dbnow t u h algo must expires st =
     (let p = (\<lambda>a. us_tenant a = t \<and> us_id a = u \<and> us_deleted_at a = None)
      in (0 < rows_affected p (pw_users st),
          st\<lparr>pw_users := update_where p (\<lambda>a. a\<lparr>ac_password_hash := Some h, ac_password_algo := Some algo,
            ac_must_change := must, ac_password_expires_at := expires, ac_password_changed_at := Some dbnow,
            ac_failed_attempts := 0, us_locked_until := None, us_updated_at := dbnow\<rparr>) (pw_users st)\<rparr>))"

section \<open>Setting a password\<close>

definition hash_blocking :: "password_lib \<Rightarrow> hasher \<Rightarrow> string \<Rightarrow> string \<Rightarrow> app_error + string" where
  "hash_blocking lib h salt pw =
     (case hash_password lib h salt pw of Inr x \<Rightarrow> Inr x | Inl e \<Rightarrow> Inl (Internal (''hashing failed: '' @ provider_error_text e)))"

definition verify_blocking :: "password_lib \<Rightarrow> hasher \<Rightarrow> string \<Rightarrow> string \<Rightarrow> app_error + password_verification" where
  "verify_blocking lib h pw stored =
     (case verify_hash lib h pw stored of
        Inr v \<Rightarrow> Inr v
      | Inl (PRejected m) \<Rightarrow> Inl Unauthorized
      | Inl e \<Rightarrow> Inl (Internal (''verification failed: '' @ provider_error_text e)))"

definition password_problem :: "string \<Rightarrow> field_error" where
  "password_problem m = \<lparr>fe_field = ''password'', fe_message = m\<rparr>"

definition password_sha1_hex :: "password_lib \<Rightarrow> string \<Rightarrow> string" where
  "password_sha1_hex lib pw =
     concat (map (\<lambda>c. map (\<lambda>n. ''0123456789ABCDEF'' ! n) [byte c div 16, byte c mod 16]) (l_digest lib 1 pw))"

definition check_breached :: "password_lib \<Rightarrow> (string \<Rightarrow> string + nat) option \<Rightarrow> string \<Rightarrow> app_error + unit" where
  "check_breached lib breach pw =
     (case breach of
        None \<Rightarrow> Inr ()
      | Some count \<Rightarrow>
          (case count (password_sha1_hex lib pw) of
             Inl e \<Rightarrow> Inr ()
           | Inr n \<Rightarrow> ensure (n = 0) (Validation [password_problem ''has appeared in a data breach; choose a different one''])))"

record set_options =
  so_must_change :: bool
  so_skip_policy :: bool
  so_by_user :: bool
  so_notify :: bool

text \<open>What the process is configured with: its hasher, the breach corpus and the build.\<close>

record pw_env =
  pe_lib :: password_lib
  pe_hasher :: hasher
  pe_breach :: "(string \<Rightarrow> string + nat) option"
  pe_fips :: bool
  pe_fips_transition :: bool

definition reused :: "pw_env \<Rightarrow> string \<Rightarrow> string list \<Rightarrow> bool" where
  "reused env pw previous =
     list_ex (\<lambda>old. case verify_blocking (pe_lib env) (pe_hasher env) pw old of Inr v \<Rightarrow> pv_valid v | Inl _ \<Rightarrow> False) previous"

definition set_checks :: "pw_env \<Rightarrow> password_policy \<Rightarrow> string \<Rightarrow> set_options \<Rightarrow> account \<Rightarrow> string list \<Rightarrow> app_error + unit" where
  "set_checks env pol pw opts user history =
     (if so_skip_policy opts then Inr ()
      else let problems = check_policy (pe_lib env) pol pw (Some user)
           in if problems \<noteq> [] then Inl (Validation (map password_problem problems))
              else andThen (if pp_check_breached pol then check_breached (pe_lib env) (pe_breach env) pw else Inr ()) (\<lambda>_.
                ensure (\<not> (0 < pp_history pol
                           \<and> reused env pw (history @ (case ac_password_hash user of None \<Rightarrow> [] | Some c \<Rightarrow> [c]))))
                  (Validation [password_problem (''must differ from the last '' @ show_nat (pp_history pol) @ '' passwords'')])))"

text \<open>
  The first transaction and the checks: the password the user had, and the new hash with its
  expiry.
\<close>

record prepared =
  pr_had :: "string option"
  pr_hash :: string
  pr_expires :: "instant option"

definition days :: "nat \<Rightarrow> duration" where
  "days n = dur_secs (int n * 86400)"

definition set_prepare ::
  "pw_env \<Rightarrow> instant \<Rightarrow> string \<Rightarrow> uuid \<Rightarrow> password_policy \<Rightarrow> uuid \<Rightarrow> string \<Rightarrow> set_options \<Rightarrow> pw_state \<Rightarrow> app_error + prepared" where
  "set_prepare env now salt t pol u pw opts st =
     (case find_account t u st of
        None \<Rightarrow> Inl (NotFound ''user'')
      | Some user \<Rightarrow>
          if us_deleted_at user \<noteq> None then Inl (NotFound ''user'')
          else
            (let history = (if \<not> so_skip_policy opts \<and> 0 < pp_history pol then history_recent t u (pp_history pol - 1) st else [])
             in andThen (set_checks env pol pw opts user history) (\<lambda>_.
                andThen (hash_blocking (pe_lib env) (pe_hasher env) salt pw) (\<lambda>h.
                  Inr \<lparr>pr_had = ac_password_hash user, pr_hash = h,
                       pr_expires = map_option (\<lambda>d. now + days d) (pp_max_age_days pol)\<rparr>))))"

definition set_commit ::
  "pw_env \<Rightarrow> instant \<Rightarrow> uuid \<Rightarrow> uuid \<Rightarrow> password_policy \<Rightarrow> uuid \<Rightarrow> set_options \<Rightarrow> prepared \<Rightarrow> pw_state \<Rightarrow> (app_error + unit) \<times> pw_state" where
  "set_commit env dbnow new_id t pol u opts p st =
     (case password_hash_for_update t u st of
        None \<Rightarrow> (Inl (NotFound ''user''), st)
      | Some current \<Rightarrow>
          if current \<noteq> pr_had p then (Inl (Conflict ''the password was changed at the same time; try again''), st)
          else
            (let st1 = (case pr_had p of
                          Some old \<Rightarrow> if 1 < pp_history pol
                                      then history_trim t u (pp_history pol - 1) (history_insert dbnow new_id t u old st)
                                      else st
                        | None \<Rightarrow> st)
             in (Inr (), snd (store_password dbnow t u (pr_hash p) (hasher_algorithm (pe_hasher env)) (so_must_change opts)
                                (pr_expires p) st1))))"

text \<open>\<open>ldap_set\<close> is what \<open>ldap::set_password\<close> answered: whether the directory took the password.\<close>

definition set_password ::
  "pw_env \<Rightarrow> (app_error + bool) \<Rightarrow> instant \<Rightarrow> instant \<Rightarrow> string \<Rightarrow> uuid \<Rightarrow> uuid \<Rightarrow> password_policy \<Rightarrow> uuid \<Rightarrow> string \<Rightarrow> set_options
     \<Rightarrow> pw_state \<Rightarrow> (app_error + unit) \<times> pw_state" where
  "set_password env ldap_set now dbnow salt new_id t pol u pw opts st =
     (case ldap_set of
        Inl e \<Rightarrow> (Inl e, st)
      | Inr True \<Rightarrow> (Inr (), st)
      | Inr False \<Rightarrow>
          (case set_prepare env now salt t pol u pw opts st of
             Inl e \<Rightarrow> (Inl e, st)
           | Inr p \<Rightarrow> set_commit env dbnow new_id t pol u opts p st))"

definition TEMP_ALPHABET :: string where
  "TEMP_ALPHABET = ''ABCDEFGHJKLMNPQRSTUVWXYZabcdefghijkmnopqrstuvwxyz23456789''"

text \<open>\<open>draws\<close> are the twenty-four numbers below the length of the alphabet.\<close>

definition temporary_password :: "nat list \<Rightarrow> string" where
  "temporary_password draws =
     (let temp = map (\<lambda>d. TEMP_ALPHABET ! d) draws
      in take 8 temp @ ''-'' @ take 8 (drop 8 temp) @ ''-'' @ drop 16 temp)"

definition set_temporary_password ::
  "pw_env \<Rightarrow> (app_error + bool) \<Rightarrow> instant \<Rightarrow> instant \<Rightarrow> string \<Rightarrow> uuid \<Rightarrow> nat list \<Rightarrow> uuid \<Rightarrow> password_policy \<Rightarrow> uuid \<Rightarrow> pw_state
     \<Rightarrow> (app_error + string) \<times> pw_state" where
  "set_temporary_password env ldap_set now dbnow salt new_id draws t pol u st =
     (let temp = temporary_password draws
      in case set_password env ldap_set now dbnow salt new_id t pol u temp
                \<lparr>so_must_change = True, so_skip_policy = True, so_by_user = False, so_notify = False\<rparr> st of
           (Inl e, st1) \<Rightarrow> (Inl e, st1)
         | (Inr _, st1) \<Rightarrow> (Inr temp, st1))"

text \<open>\<open>linked\<close> is whether \<open>ldap::directory_of_user\<close> found a directory.\<close>

definition import_hash ::
  "pw_env \<Rightarrow> (app_error + bool) \<Rightarrow> instant \<Rightarrow> uuid \<Rightarrow> uuid \<Rightarrow> string \<Rightarrow> pw_state \<Rightarrow> (app_error + unit) \<times> pw_state" where
  "import_hash env linked dbnow t u stored st =
     (let algo = algorithm_of stored
      in if algo = ''unknown'' then (Inl (BadRequest ''unsupported password hash format''), st)
         else if pe_fips env \<and> \<not> pe_fips_transition env \<and> \<not> is_approved stored
         then (Inl (BadRequest (''the FIPS build imports '' @ algo
                 @ '' password hashes only with FIPS_TRANSITION=true (PBKDF2 hashes import as they are)'')), st)
         else case linked of
                Inl e \<Rightarrow> (Inl e, st)
              | Inr True \<Rightarrow> (Inl (BadRequest ''the user's password is managed by a directory''), st)
              | Inr False \<Rightarrow>
                  (case store_password dbnow t u stored algo False None st of
                     (ok, st1) \<Rightarrow> if ok then (Inr (), st1) else (Inl (NotFound ''user''), st1)))"

section \<open>Verifying at sign-in\<close>

datatype verify_outcome = VValid bool | VInvalid

definition password_expired :: "password_policy \<Rightarrow> instant \<Rightarrow> account \<Rightarrow> bool" where
  "password_expired pol now user =
     ((case ac_password_expires_at user of None \<Rightarrow> False | Some e \<Rightarrow> e \<le> now)
      \<or> (case (pp_max_age_days pol, ac_password_changed_at user) of
           (Some d, Some c) \<Rightarrow> c + days d \<le> now
         | _ \<Rightarrow> False))"

text \<open>
  The user is the one the sign-in loaded. The answer, and the fresh hash that is to replace the
  stored one.
\<close>

definition verify_prepare ::
  "pw_env \<Rightarrow> (app_error + bool option) \<Rightarrow> instant \<Rightarrow> string \<Rightarrow> password_policy \<Rightarrow> account \<Rightarrow> string
     \<Rightarrow> app_error + verify_outcome \<times> string option" where
  "verify_prepare env ldap_verify now salt pol user pw =
     (case ac_password_hash user of
        None \<Rightarrow>
          (case ldap_verify of
             Inl e \<Rightarrow> Inl e
           | Inr (Some valid) \<Rightarrow> Inr (if valid then VValid (ac_must_change user) else VInvalid, None)
           | Inr None \<Rightarrow> Inr (VInvalid, None))
      | Some stored \<Rightarrow>
          (case verify_blocking (pe_lib env) (pe_hasher env) pw stored of
             Inl Unauthorized \<Rightarrow> Inr (VInvalid, None)
           | Inl e \<Rightarrow> Inl e
           | Inr v \<Rightarrow>
               if \<not> pv_valid v then Inr (VInvalid, None)
               else andThen (if pv_rehash v then andThen (hash_blocking (pe_lib env) (pe_hasher env) salt pw) (\<lambda>h. Inr (Some h))
                             else Inr None) (\<lambda>fresh.
                 Inr (VValid (ac_must_change user \<or> password_expired pol now user), fresh))))"

definition upgrade_write :: "pw_env \<Rightarrow> instant \<Rightarrow> uuid \<Rightarrow> uuid \<Rightarrow> string \<Rightarrow> pw_state \<Rightarrow> pw_state" where
  "upgrade_write env dbnow t u h st =
     st\<lparr>pw_users := update_where (\<lambda>a. us_tenant a = t \<and> us_id a = u)
          (\<lambda>a. a\<lparr>ac_password_hash := Some h, ac_password_algo := Some (hasher_algorithm (pe_hasher env)), us_updated_at := dbnow\<rparr>)
          (pw_users st)\<rparr>"

definition verify_and_upgrade ::
  "pw_env \<Rightarrow> (app_error + bool option) \<Rightarrow> instant \<Rightarrow> instant \<Rightarrow> string \<Rightarrow> uuid \<Rightarrow> password_policy \<Rightarrow> account \<Rightarrow> string \<Rightarrow> pw_state
     \<Rightarrow> (app_error + verify_outcome) \<times> pw_state" where
  "verify_and_upgrade env ldap_verify now dbnow salt t pol user pw st =
     (case verify_prepare env ldap_verify now salt pol user pw of
        Inl e \<Rightarrow> (Inl e, st)
      | Inr (out, None) \<Rightarrow> (Inr out, st)
      | Inr (out, Some h) \<Rightarrow> (Inr out, upgrade_write env dbnow t (us_id user) h st))"

section \<open>A hash verifies\<close>

text \<open>
  What the crates promise. The PHC string \<open>argon2\<close> writes starts with its algorithm, carries the
  parameters it was made with, and verifies; unpadded base64 decodes to what was encoded and has
  no dollar sign; PBKDF2 fills the requested length.
\<close>

definition argon2_laws :: "password_lib \<Rightarrow> bool" where
  "argon2_laws lib \<longleftrightarrow>
     (\<forall>m t p salt pw h. pl_argon2_hash lib m t p salt pw = Inr h \<longrightarrow>
        starts_with h ''$argon2id$'' \<and> pl_argon2_verify lib pw h = Inr True \<and>
        pl_phc lib h = Inr (''argon2id'', [(''m'', show_nat m), (''t'', show_nat t), (''p'', show_nat p)]))"

definition base64_laws :: "password_lib \<Rightarrow> bool" where
  "base64_laws lib \<longleftrightarrow>
     (\<forall>x. pl_b64_nopad_decode lib (pl_b64_nopad lib x) = Some x \<and> l_b64_decode lib (pl_b64_nopad lib x) \<in> {None, Some x} \<and>
          CHR ''$'' \<notin> set (pl_b64_nopad lib x))"

definition pbkdf2_laws :: "password_lib \<Rightarrow> bool" where
  "pbkdf2_laws lib \<longleftrightarrow> base64_laws lib \<and> (\<forall>alg r salt pw n. length (pl_pbkdf2 lib alg r salt pw n) = n)"

text \<open>The parameters are \<open>u32\<close>, and the configuration bounds the rounds.\<close>

fun hasher_ok :: "password_lib \<Rightarrow> hasher \<Rightarrow> bool" where
  "hasher_ok lib (Argon2Hasher p) = (argon2_laws lib \<and> ap_m p < 2 ^ 32 \<and> ap_t p < 2 ^ 32 \<and> ap_p p < 2 ^ 32)"
| "hasher_ok lib (Pbkdf2Hasher n tr) = (pbkdf2_laws lib \<and> 210000 \<le> n \<and> n \<le> MAX_PBKDF2_ROUNDS)"

lemma show_nat_nonempty: "show_nat n \<noteq> []"
  by (subst show_nat.simps) simp

lemma parse_u32_show_nat: "n < 2 ^ 32 \<Longrightarrow> parse_u32 (show_nat n) = Some n"
proof -
  assume n: "n < 2 ^ 32"
  obtain c r where cr: "show_nat n = c # r" using show_nat_nonempty by (cases "show_nat n") auto
  then have "c \<noteq> CHR ''+''" using show_nat_digits [of n] by (auto simp: ascii_digit_def)
  then have "(case show_nat n of c # r \<Rightarrow> if c = CHR ''+'' then r else show_nat n | [] \<Rightarrow> []) = show_nat n" using cr by simp
  then show ?thesis using n show_nat_digits [of n] by (simp add: parse_u32_def read_show_nat show_nat_nonempty)
qed

lemma digits_no_dollar: "list_all ascii_digit s \<Longrightarrow> CHR ''$'' \<notin> set s"
  by (auto simp: list_all_iff ascii_digit_def)

lemma decode_b64_encoded: "base64_laws lib \<Longrightarrow> decode_b64 lib (pl_b64_nopad lib x) = Some x"
  by (auto simp: base64_laws_def decode_b64_def or_else_def dest!: spec [of _ x] split: option.splits)

lemma strip_prefix_append [simp]: "strip_prefix p (p @ r) = Some r"
  by (simp add: strip_prefix_iff)

lemma strip_prefix_None: "strip_prefix p s = None \<longleftrightarrow> \<not> starts_with s p"
  by (simp add: strip_prefix_def)

lemma own_pbkdf2_parts:
  assumes "base64_laws lib"
  shows "three_parts (show_nat n @ CHR ''$'' # pl_b64_nopad lib s @ CHR ''$'' # pl_b64_nopad lib h) = Some (show_nat n, pl_b64_nopad lib s, pl_b64_nopad lib h)"
    and "hd (split_on (CHR ''$'') (show_nat n @ CHR ''$'' # pl_b64_nopad lib s @ CHR ''$'' # pl_b64_nopad lib h)) = show_nat n"
  using assms digits_no_dollar [OF show_nat_digits [of n]]
  by (simp_all add: three_parts_def split_once_append base64_laws_def split_on_append)

lemma own_pbkdf2_hash:
  assumes laws: "pbkdf2_laws lib" and n: "0 < n" "n \<le> MAX_PBKDF2_ROUNDS" and s: "hash_password lib (Pbkdf2Hasher n tr) salt pw = Inr s"
  shows "legacy_verify lib pw s = Inr True" "is_approved s" "pbkdf2_sha512_rounds s = Some n" "\<not> starts_with s ''$argon2''"
proof -
  have b: "base64_laws lib" and len: "length (pl_pbkdf2 lib 512 n salt pw HASH_LEN) = 64"
    using laws by (simp_all add: pbkdf2_laws_def HASH_LEN_def)
  let ?h = "pl_pbkdf2 lib 512 n salt pw HASH_LEN"
  have n32: "parse_u32 (show_nat n) = Some n" using n by (intro parse_u32_show_nat) (simp add: MAX_PBKDF2_ROUNDS_def)
  define rest where "rest = show_nat n @ CHR ''$'' # pl_b64_nopad lib salt @ CHR ''$'' # pl_b64_nopad lib ?h"
  have s_eq: "s = ''$pbkdf2-sha512$'' @ rest" using s n by (simp add: rest_def)
  have "?h \<noteq> []" using len by auto
  moreover have "pl_pbkdf2 lib 512 n salt pw (length ?h) = ?h" using len by (simp add: HASH_LEN_def)
  ultimately have "pbkdf2_phc lib pw rest 512 = Inr True"
    using n len by (simp add: pbkdf2_phc_def rest_def own_pbkdf2_parts [OF b] n32 decode_b64_encoded [OF b] pbkdf2_check_def)
  moreover have other: "\<not> is_bcrypt s" "strip_prefix ''$pbkdf2-sha256$'' s = None"
    by (simp_all add: s_eq is_bcrypt_def starts_with_def strip_prefix_None)
  ultimately show "legacy_verify lib pw s = Inr True" by (simp add: legacy_verify_def s_eq [symmetric]) (simp add: s_eq strip_prefix_append [of "''$pbkdf2-sha512$''", simplified])
  show "is_approved s" "\<not> starts_with s ''$argon2''" by (simp_all add: s_eq is_approved_def starts_with_def)
  show "pbkdf2_sha512_rounds s = Some n"
    using strip_prefix_append [of "''$pbkdf2-sha512$''" rest] n32 own_pbkdf2_parts(2) [OF b]
    by (simp add: pbkdf2_sha512_rounds_def s_eq rest_def)
qed

lemma own_argon2_hash:
  assumes ok: "hasher_ok lib (Argon2Hasher p)" and h: "hash_password lib (Argon2Hasher p) salt pw = Inr h"
  shows "verify_argon2 lib p pw h = Inr \<lparr>pv_valid = True, pv_rehash = False\<rparr>" "starts_with h ''$argon2''"
proof -
  have r: "argon2_ready lib p = Inr ()" "pl_argon2_hash lib (ap_m p) (ap_t p) (ap_p p) salt pw = Inr h"
    using h by (auto simp: andThen_Inr split: sum.splits)
  have s: "starts_with h ''$argon2id$''" "pl_argon2_verify lib pw h = Inr True"
    "pl_phc lib h = Inr (''argon2id'', [(''m'', show_nat (ap_m p)), (''t'', show_nat (ap_t p)), (''p'', show_nat (ap_p p))])"
    using r(2) ok by (auto simp: argon2_laws_def)
  then show "verify_argon2 lib p pw h = Inr \<lparr>pv_valid = True, pv_rehash = False\<rparr>"
    using r(1) ok by (simp add: verify_argon2_def weaker_param_def parse_u32_show_nat)
  show "starts_with h ''$argon2''" using s(1) by (auto simp: starts_with_iff)
qed

lemma own_hash_valid:
  assumes "hasher_ok lib h" "hash_password lib h salt pw = Inr s"
  shows "verify_hash lib h pw s = Inr \<lparr>pv_valid = True, pv_rehash = False\<rparr>"
proof (cases h)
  case (Argon2Hasher p)
  then show ?thesis using own_argon2_hash assms by simp
next
  case (Pbkdf2Hasher n tr)
  then show ?thesis using own_pbkdf2_hash [of lib n tr salt pw s] assms by simp
qed

text \<open>
  A hash either build makes is valid for its password and needs no upgrade in that build; the
  FIPS build's hash is also valid in the standard build, which upgrades it.
\<close>

theorem own_hash_verifies:
  assumes "hasher_ok lib h" and "hash_password lib h salt pw = Inr s"
  shows "verify_hash lib h pw s = Inr \<lparr>pv_valid = True, pv_rehash = False\<rparr> \<and>
    (\<forall>n tr p. h = Pbkdf2Hasher n tr \<longrightarrow> verify_hash lib (Argon2Hasher p) pw s = Inr \<lparr>pv_valid = True, pv_rehash = True\<rparr>)"
proof (intro conjI allI impI own_hash_valid [OF assms])
  fix n tr p
  assume h: "h = Pbkdf2Hasher n tr"
  then have "0 < n" "n \<le> MAX_PBKDF2_ROUNDS" "pbkdf2_laws lib" using assms(1) by simp_all
  then show "verify_hash lib (Argon2Hasher p) pw s = Inr \<lparr>pv_valid = True, pv_rehash = True\<rparr>"
    using own_pbkdf2_hash(1,4) [of lib n tr salt pw s] assms(2) h by simp
qed

section \<open>How much work a stored hash can ask for\<close>

lemma pbkdf2_check_cong:
  assumes "\<And>alg r salt pw n. \<lbrakk>0 < r; r \<le> 1000000; 0 < n; n \<le> 512\<rbrakk> \<Longrightarrow> f alg r salt pw n = g alg r salt pw n"
  shows "pbkdf2_check (lib\<lparr>pl_pbkdf2 := f\<rparr>) pw salt r expected alg = pbkdf2_check (lib\<lparr>pl_pbkdf2 := g\<rparr>) pw salt r expected alg"
  using assms [of r "length expected" alg salt pw] by (auto simp: pbkdf2_check_def MAX_PBKDF2_ROUNDS_def)

lemma decode_b64_update [simp]: "decode_b64 (lib\<lparr>pl_pbkdf2 := f\<rparr>) s = decode_b64 lib s"
  by (simp add: decode_b64_def)

lemma verify_argon2_update [simp]: "verify_argon2 (lib\<lparr>pl_pbkdf2 := f\<rparr>) p pw s = verify_argon2 lib p pw s"
  by (simp add: verify_argon2_def argon2_ready_def cong: sum.case_cong)

lemma salted_digest_update [simp]: "salted_digest (lib\<lparr>pl_pbkdf2 := f\<rparr>) d pw s = salted_digest lib d pw s"
  by (simp add: salted_digest_def)

lemma legacy_verify_cong:
  assumes "\<And>alg r salt pw n. \<lbrakk>0 < r; r \<le> 1000000; 0 < n; n \<le> 512\<rbrakk> \<Longrightarrow> f alg r salt pw n = g alg r salt pw n"
  shows "legacy_verify (lib\<lparr>pl_pbkdf2 := f\<rparr>) pw s = legacy_verify (lib\<lparr>pl_pbkdf2 := g\<rparr>) pw s"
  by (simp add: legacy_verify_def pbkdf2_phc_def pbkdf2_django_def pbkdf2_check_cong [OF assms] cong: option.case_cong)

text \<open>
  Whatever a stored hash says, verifying a password against it runs PBKDF2 with at most a
  million rounds and at most 512 bytes: two derivations that agree within these bounds give
  the same answer for every stored text, in either build.
\<close>

theorem pbkdf2_work_bounded:
  assumes "\<And>alg r salt pw n. \<lbrakk>0 < r; r \<le> 1000000; 0 < n; n \<le> 512\<rbrakk> \<Longrightarrow> f alg r salt pw n = g alg r salt pw n"
  shows "verify_hash (lib\<lparr>pl_pbkdf2 := f\<rparr>) h pw s = verify_hash (lib\<lparr>pl_pbkdf2 := g\<rparr>) h pw s"
  by (cases h) (simp_all add: legacy_verify_cong [OF assms])

text \<open>What the FIPS build approves is what \<open>algorithm_of\<close> names PBKDF2.\<close>

lemma starts_with_apart:
  "starts_with s p \<Longrightarrow> length q \<le> length p \<Longrightarrow> take (length q) p \<noteq> q \<Longrightarrow> \<not> starts_with s q"
  by (auto simp: starts_with_def) (metis min.absorb1 take_take)

lemma is_approved_iff: "is_approved s \<longleftrightarrow> algorithm_of s \<in> {''pbkdf2-sha256'', ''pbkdf2-sha512''}"
proof
  assume "is_approved s"
  then obtain p where p: "p \<in> {''$pbkdf2-sha256$'', ''$pbkdf2-sha512$'', ''pbkdf2_sha256$'', ''pbkdf2_sha512$''}" "starts_with s p"
    by (auto simp: is_approved_def)
  then have "\<not> starts_with s q" if "q \<in> {''$argon2id$'', ''$argon2i$'', ''$argon2d$'', ''$2a$'', ''$2b$'', ''$2y$''}" for q
    using that starts_with_apart [OF p(2), of q] by fastforce
  then have "\<not> starts_with s ''$argon2id$''" "\<not> starts_with s ''$argon2i$''" "\<not> starts_with s ''$argon2d$''" "\<not> is_bcrypt s"
    by (simp_all add: is_bcrypt_def)
  then show "algorithm_of s \<in> {''pbkdf2-sha256'', ''pbkdf2-sha512''}" using p by (auto simp: algorithm_of_def)
qed (auto simp: algorithm_of_def is_approved_def ALGO_ARGON2ID_def split: if_splits)

section \<open>The history rule\<close>

definition verifies :: "pw_env \<Rightarrow> string \<Rightarrow> string \<Rightarrow> bool" where
  "verifies env pw h = (case verify_hash (pe_lib env) (pe_hasher env) pw h of Inr v \<Rightarrow> pv_valid v | Inl _ \<Rightarrow> False)"

lemma reused_iff: "reused env pw hs \<longleftrightarrow> (\<exists>h\<in>set hs. verifies env pw h)"
proof -
  have "(case verify_blocking (pe_lib env) (pe_hasher env) pw h of Inr v \<Rightarrow> pv_valid v | Inl _ \<Rightarrow> False) = verifies env pw h" for h
    by (simp add: verify_blocking_def verifies_def split: sum.split provider_error.split)
  then show ?thesis by (simp add: reused_def list_ex_iff)
qed

definition account_key :: "account \<Rightarrow> uuid \<times> uuid" where
  "account_key a = (us_tenant a, us_id a)"

definition user_hashes :: "uuid \<Rightarrow> uuid \<Rightarrow> pw_state \<Rightarrow> string list" where
  "user_hashes t u st = map ph_hash (user_history t u (pw_history st))"

lemma history_recent_eq: "history_recent t u n st = take n (user_hashes t u st)"
  by (simp add: history_recent_def user_hashes_def take_map)

lemma user_hashes_insert:
  assumes "\<forall>r\<in>set (pw_history st). ph_tenant r = t \<and> ph_user r = u \<longrightarrow> ph_created_at r < dbnow"
  shows "user_hashes t u (history_insert dbnow i t u h st) = h # user_hashes t u st"
  using assms by (auto simp: user_hashes_def user_history_def history_insert_def sort_key_append)

lemma user_history_other:
  "(t', u') \<noteq> (t, u) \<Longrightarrow> user_history t u (pw_history (history_insert dbnow i t' u' h st)) = user_history t u (pw_history st)"
  "(t', u') \<noteq> (t, u) \<Longrightarrow> user_history t u (pw_history (history_trim t' u' n st)) = user_history t u (pw_history st)"
  by (auto simp: user_history_def history_insert_def history_trim_def Let_def intro!: arg_cong [of _ _ "sort_key _"] filter_cong)

lemma take_filter_prefix: "\<forall>x\<in>set (take n xs). P x \<Longrightarrow> take n (filter P xs) = take n xs"
proof -
  assume a: "\<forall>x\<in>set (take n xs). P x"
  have "filter P xs = take n xs @ filter P (drop n xs)"
    using a by (metis append_take_drop_id filter_True filter_append)
  then show ?thesis by (cases "n \<le> length xs") (auto simp: a)
qed

lemma user_hashes_trim: "take n (user_hashes t u (history_trim t u n st)) = take n (user_hashes t u st)"
proof -
  let ?H = "user_history t u (pw_history st)"
  let ?kept = "set (map ph_id (take n ?H))"
  have "user_history t u (pw_history (history_trim t u n st)) = filter (\<lambda>r. ph_id r \<in> ?kept) ?H"
    by (simp add: user_history_def history_trim_def Let_def rev_filter [symmetric] filter_sort conj_commute)
       (auto intro!: arg_cong [of _ _ "sort_key _"] filter_cong)
  then show ?thesis
    using take_filter_prefix [of n ?H "\<lambda>r. ph_id r \<in> ?kept"] by (simp add: user_hashes_def take_map)
qed

text \<open>
  What happens to a user's password, with the passwords known to have been theirs, newest first:
  a change prepared at any earlier time is written, a sign-in upgrades the stored hash of the
  account it loaded, other users change theirs.
\<close>

inductive pw_step :: "pw_env \<Rightarrow> uuid \<Rightarrow> uuid \<Rightarrow> nat \<Rightarrow> pw_state \<times> string list \<Rightarrow> pw_state \<times> string list \<Rightarrow> bool"
  for env t u n where
  sets: "set_prepare env now salt t pol u pw opts st0 = Inr p \<Longrightarrow> pp_history pol = n \<Longrightarrow>
    set_commit env dbnow i t pol u opts p st = (Inr (), st') \<Longrightarrow>
    \<forall>r\<in>set (pw_history st). ph_tenant r = t \<and> ph_user r = u \<longrightarrow> ph_created_at r < dbnow \<Longrightarrow>
    pw_step env t u n (st, ps) (st', pw # ps)"
| signs_in: "find_account t u st = Some user \<Longrightarrow> us_deleted_at user = None \<Longrightarrow> ac_password_hash user \<noteq> None \<Longrightarrow>
    verify_and_upgrade env ldap now dbnow salt t pol user pw st = (Inr (VValid must), st') \<Longrightarrow>
    pw_step env t u n (st, ps) (st', pw # tl ps)"
| other_sets: "(t', u') \<noteq> (t, u) \<Longrightarrow> set_commit env dbnow i t' pol u' opts p st = (r, st') \<Longrightarrow>
    pw_step env t u n (st, ps) (st', ps)"
| other_signs_in: "(t', us_id user) \<noteq> (t, u) \<Longrightarrow>
    verify_and_upgrade env ldap now dbnow salt t' pol user pw st = (r, st') \<Longrightarrow> pw_step env t u n (st, ps) (st', ps)"
| other_imports: "(t', u') \<noteq> (t, u) \<Longrightarrow> import_hash env linked dbnow t' u' stored st = (r, st') \<Longrightarrow>
    pw_step env t u n (st, ps) (st', ps)"

definition accounts_ok :: "pw_state \<Rightarrow> bool" where
  "accounts_ok st = distinct (map account_key (pw_users st))"

text \<open>The current hash is of the newest password and the history holds those before it.\<close>

definition pw_ok :: "pw_env \<Rightarrow> uuid \<Rightarrow> uuid \<Rightarrow> nat \<Rightarrow> pw_state \<times> string list \<Rightarrow> bool" where
  "pw_ok env t u n = (\<lambda>(st, ps). accounts_ok st \<and>
     (ps \<noteq> [] \<longrightarrow> (\<exists>a h. find_account t u st = Some a \<and> us_deleted_at a = None \<and> ac_password_hash a = Some h \<and> verifies env (hd ps) h)) \<and>
     (\<forall>i. Suc i < n \<and> Suc i < length ps \<longrightarrow> i < length (user_hashes t u st) \<and> verifies env (ps ! Suc i) (user_hashes t u st ! i)))"

lemma live_is_found:
  assumes "accounts_ok st" "live_account t u st = Some a"
  shows "find_account t u st = Some a" "us_deleted_at a = None"
proof -
  have a: "a \<in> set (pw_users st)" "us_tenant a = t" "us_id a = u" "us_deleted_at a = None"
    using assms(2) find_SomeD unfolding live_account_def by fastforce+
  then obtain b where b: "find_account t u st = Some b"
    by (cases "find_account t u st") (auto simp: find_account_def find_None_iff)
  then have "b \<in> set (pw_users st)" "account_key b = account_key a"
    using a find_SomeD [OF b [unfolded find_account_def]] by (auto simp: account_key_def)
  then have "b = a" using assms(1) a(1) by (auto simp: accounts_ok_def distinct_map dest: inj_onD)
  then show "find_account t u st = Some a" "us_deleted_at a = None" using a b by simp_all
qed

lemma accounts_ok_frame:
  "accounts_ok (snd (store_password dbnow t u h al m e st)) = accounts_ok st"
  "accounts_ok (upgrade_write env dbnow t u h st) = accounts_ok st"
  "accounts_ok (history_insert dbnow i t u h st) = accounts_ok st" "accounts_ok (history_trim t u k st) = accounts_ok st"
  by (simp_all add: accounts_ok_def store_password_def upgrade_write_def history_insert_def history_trim_def Let_def
      map_update_where account_key_def)

lemma user_hashes_frame:
  "user_hashes t u (snd (store_password dbnow t' u' h al m e st)) = user_hashes t u st"
  "user_hashes t u (upgrade_write env dbnow t' u' h st) = user_hashes t u st"
  by (simp_all add: user_hashes_def store_password_def upgrade_write_def Let_def)

lemma find_account_frame:
  "find_account t u (history_insert dbnow i t' u' h st) = find_account t u st"
  "find_account t u (history_trim t' u' k st) = find_account t u st"
  "(t', u') \<noteq> (t, u) \<Longrightarrow> find_account t u (snd (store_password dbnow t' u' h al m e st)) = find_account t u st"
  "(t', u') \<noteq> (t, u) \<Longrightarrow> find_account t u (upgrade_write env dbnow t' u' h st) = find_account t u st"
  by (auto simp: find_account_def history_insert_def history_trim_def store_password_def upgrade_write_def Let_def
      intro!: find_update_where_other)

lemma find_account_store:
  assumes "find_account t u st = Some a" "us_deleted_at a = None"
  shows "\<exists>b. find_account t u (snd (store_password dbnow t u h al m e st)) = Some b \<and> us_deleted_at b = None \<and> ac_password_hash b = Some h"
  using assms find_SomeD [OF assms(1) [unfolded find_account_def]]
  by (auto simp: find_account_def store_password_def Let_def find_update_where)

lemma find_account_upgrade:
  assumes "find_account t u st = Some a" "us_deleted_at a = None"
  shows "\<exists>b. find_account t u (upgrade_write env dbnow t u h st) = Some b \<and> us_deleted_at b = None \<and> ac_password_hash b = Some h"
  using assms find_SomeD [OF assms(1) [unfolded find_account_def]]
  by (auto simp: find_account_def upgrade_write_def find_update_where)

lemma set_prepare_hash:
  assumes "set_prepare env now salt t pol u pw opts st = Inr p" "hasher_ok (pe_lib env) (pe_hasher env)"
  shows "verifies env pw (pr_hash p)"
proof -
  have "hash_password (pe_lib env) (pe_hasher env) salt pw = Inr (pr_hash p)"
    using assms(1) by (auto simp: set_prepare_def hash_blocking_def Let_def andThen_Inr split: option.splits if_splits sum.splits)
  then show ?thesis using own_hash_valid [OF assms(2)] by (simp add: verifies_def)
qed

lemma set_commit_Inr:
  assumes "set_commit env dbnow i t pol u opts p st = (Inr (), st')"
  obtains a st1 where "live_account t u st = Some a" "pr_had p = ac_password_hash a"
    "st' = snd (store_password dbnow t u (pr_hash p) (hasher_algorithm (pe_hasher env)) (so_must_change opts) (pr_expires p) st1)"
    "st1 = (case ac_password_hash a of Some old \<Rightarrow> if 1 < pp_history pol
       then history_trim t u (pp_history pol - 1) (history_insert dbnow i t u old st) else st | None \<Rightarrow> st)"
  using assms by (auto simp: set_commit_def password_hash_for_update_def Let_def split: option.splits if_splits)

lemma set_commit_hashes:
  assumes "\<forall>r\<in>set (pw_history st). ph_tenant r = t \<and> ph_user r = u \<longrightarrow> ph_created_at r < dbnow"
  shows "take n (user_hashes t u (history_trim t u n (history_insert dbnow i t u old st))) = take n (old # user_hashes t u st)"
  using user_hashes_trim [of n t u "history_insert dbnow i t u old st"] by (simp add: user_hashes_insert [OF assms])

lemma take_eq_nth: "take k xs = take k ys \<Longrightarrow> j < k \<Longrightarrow> j < length ys \<Longrightarrow> j < length xs \<and> xs ! j = ys ! j"
  by (metis length_take min_less_iff_conj nth_take)

lemma pw_ok_sets:
  assumes "pw_ok env t u n (st, ps)" and h: "verifies env pw (pr_hash p)" and n: "pp_history pol = n"
    and c: "set_commit env dbnow i t pol u opts p st = (Inr (), st')"
    and later: "\<forall>r\<in>set (pw_history st). ph_tenant r = t \<and> ph_user r = u \<longrightarrow> ph_created_at r < dbnow"
  shows "pw_ok env t u n (st', pw # ps)"
proof -
  have ok: "accounts_ok st"
    and cur: "ps \<noteq> [] \<Longrightarrow> \<exists>a h. find_account t u st = Some a \<and> us_deleted_at a = None \<and> ac_password_hash a = Some h \<and> verifies env (hd ps) h"
    and old: "\<And>i. Suc i < n \<Longrightarrow> Suc i < length ps \<Longrightarrow> i < length (user_hashes t u st) \<and> verifies env (ps ! Suc i) (user_hashes t u st ! i)"
    using assms(1) by (auto simp: pw_ok_def)
  obtain a st1 where a: "live_account t u st = Some a"
    and st': "st' = snd (store_password dbnow t u (pr_hash p) (hasher_algorithm (pe_hasher env)) (so_must_change opts) (pr_expires p) st1)"
    and st1: "st1 = (case ac_password_hash a of Some old \<Rightarrow> if 1 < n then history_trim t u (n - 1) (history_insert dbnow i t u old st) else st | None \<Rightarrow> st)"
    using set_commit_Inr [OF c] n by metis
  note found = live_is_found [OF ok a]
  have "find_account t u st1 = Some a" "accounts_ok st1"
    using found ok by (auto simp: st1 find_account_frame accounts_ok_frame split: option.splits)
  then have "accounts_ok st'" "\<exists>b. find_account t u st' = Some b \<and> us_deleted_at b = None \<and> ac_password_hash b = Some (pr_hash p)"
    using find_account_store found(2) by (auto simp: st' accounts_ok_frame)
  moreover have "j < length (user_hashes t u st') \<and> verifies env ((pw # ps) ! Suc j) (user_hashes t u st' ! j)"
    if j: "Suc j < n" "Suc j < length (pw # ps)" for j
  proof -
    obtain h where h: "ac_password_hash a = Some h" "verifies env (hd ps) h" using cur found(1) j(2) by force
    have "take (n - 1) (user_hashes t u st') = take (n - 1) (h # user_hashes t u st)"
      using j h(1) set_commit_hashes [OF later] by (simp add: st' user_hashes_frame st1)
    moreover have "j < length (h # user_hashes t u st)" "verifies env (ps ! j) ((h # user_hashes t u st) ! j)"
      using h(2) old [of "j - 1"] j by (cases j; cases ps; auto)+
    ultimately show ?thesis
      using take_eq_nth [of "n - 1" "user_hashes t u st'" "h # user_hashes t u st" j] j(1) by simp
  qed
  ultimately show ?thesis using h by (auto simp: pw_ok_def)
qed

lemma verify_blocking_Inr: "verify_blocking (pe_lib env) (pe_hasher env) pw h = Inr v \<Longrightarrow> verifies env pw h = pv_valid v"
  by (auto simp: verify_blocking_def verifies_def split: sum.splits provider_error.splits)

lemma hash_blocking_valid:
  "hasher_ok (pe_lib env) (pe_hasher env) \<Longrightarrow> hash_blocking (pe_lib env) (pe_hasher env) salt pw = Inr x \<Longrightarrow> verifies env pw x"
  using own_hash_valid [of "pe_lib env" "pe_hasher env" salt pw x] by (auto simp: hash_blocking_def verifies_def split: sum.splits)

lemma verify_prepare_valid:
  assumes "verify_prepare env ldap now salt pol user pw = Inr (VValid must, fresh)" "ac_password_hash user = Some h"
  shows "verifies env pw h \<and> (\<forall>x. fresh = Some x \<longrightarrow> hash_blocking (pe_lib env) (pe_hasher env) salt pw = Inr x)"
proof (cases "verify_blocking (pe_lib env) (pe_hasher env) pw h")
  case (Inl e)
  then show ?thesis using assms by (cases e) (simp_all add: verify_prepare_def)
next
  case (Inr v)
  then show ?thesis
    using assms verify_blocking_Inr [OF Inr] by (cases "pv_rehash v") (auto simp: verify_prepare_def andThen_Inr split: if_splits)
qed

lemma verify_and_upgrade_valid:
  assumes v: "verify_and_upgrade env ldap now dbnow salt t pol user pw st = (Inr (VValid must), st')"
    and ok: "hasher_ok (pe_lib env) (pe_hasher env)" and h: "ac_password_hash user = Some h"
  shows "verifies env pw h \<and> (st' = st \<or> (\<exists>h'. st' = upgrade_write env dbnow t (us_id user) h' st \<and> verifies env pw h'))"
proof -
  obtain fresh where f: "verify_prepare env ldap now salt pol user pw = Inr (VValid must, fresh)"
    and st': "st' = (case fresh of None \<Rightarrow> st | Some x \<Rightarrow> upgrade_write env dbnow t (us_id user) x st)"
    using v unfolding verify_and_upgrade_def by (auto split: sum.splits option.splits)
  then show ?thesis
    using verify_prepare_valid [OF f h] hash_blocking_valid [OF ok] by (cases fresh) auto
qed

lemma pw_ok_other:
  assumes "pw_ok env t u n (st, ps)" "accounts_ok st' = accounts_ok st" "find_account t u st' = find_account t u st" "user_hashes t u st' = user_hashes t u st"
  shows "pw_ok env t u n (st', ps)"
  using assms by (simp add: pw_ok_def)

lemma pw_ok_signs_in:
  assumes p: "pw_ok env t u n (st, ps)" and user: "find_account t u st = Some user" "us_deleted_at user = None" "ac_password_hash user = Some h"
    and v: "verify_and_upgrade env ldap now dbnow salt t pol user pw st = (Inr (VValid must), st')"
    and ok: "hasher_ok (pe_lib env) (pe_hasher env)"
  shows "pw_ok env t u n (st', pw # tl ps)"
proof -
  have id: "us_id user = u" using find_SomeD [OF user(1) [unfolded find_account_def]] by simp
  have new: "verifies env pw h \<and> (st' = st \<or> (\<exists>h'. st' = upgrade_write env dbnow t u h' st \<and> verifies env pw h'))"
    using verify_and_upgrade_valid [OF v ok user(3)] id by simp
  then have "\<exists>a x. find_account t u st' = Some a \<and> us_deleted_at a = None \<and> ac_password_hash a = Some x \<and> verifies env pw x"
    using user find_account_upgrade [OF user(1,2)] by metis
  moreover have "accounts_ok st'" "user_hashes t u st' = user_hashes t u st"
    using new p by (auto simp: accounts_ok_frame user_hashes_frame pw_ok_def)
  ultimately show ?thesis using p by (cases ps) (auto simp: pw_ok_def)
qed

lemma set_commit_other:
  assumes "(t', u') \<noteq> (t, u)" "set_commit env dbnow i t' pol u' opts p st = (r, st')"
  shows "accounts_ok st' = accounts_ok st \<and> find_account t u st' = find_account t u st \<and> user_hashes t u st' = user_hashes t u st"
proof -
  define st1 where "st1 = (case pr_had p of Some old \<Rightarrow> if 1 < pp_history pol
     then history_trim t' u' (pp_history pol - 1) (history_insert dbnow i t' u' old st) else st | None \<Rightarrow> st)"
  have "st' = st \<or> st' = snd (store_password dbnow t' u' (pr_hash p) (hasher_algorithm (pe_hasher env)) (so_must_change opts) (pr_expires p) st1)"
    using assms(2) by (auto simp: set_commit_def st1_def Let_def split: option.splits if_splits)
  moreover have "accounts_ok st1 = accounts_ok st \<and> find_account t u st1 = find_account t u st \<and> user_hashes t u st1 = user_hashes t u st"
    using assms(1) by (auto simp: st1_def accounts_ok_frame find_account_frame user_hashes_def user_history_other split: option.splits)
  ultimately show ?thesis using assms(1) by (auto simp: accounts_ok_frame find_account_frame user_hashes_frame)
qed

lemma import_hash_other:
  assumes "(t', u') \<noteq> (t, u)" "import_hash env linked dbnow t' u' stored st = (r, st')"
  shows "accounts_ok st' = accounts_ok st \<and> find_account t u st' = find_account t u st \<and> user_hashes t u st' = user_hashes t u st"
proof -
  have "st' = st \<or> st' = snd (store_password dbnow t' u' stored (algorithm_of stored) False None st)"
    using assms(2) by (auto simp: import_hash_def Let_def split: if_splits sum.splits bool.splits prod.splits)
  then show ?thesis using assms(1) by (auto simp: accounts_ok_frame find_account_frame user_hashes_frame)
qed

lemma verify_and_upgrade_other:
  assumes "(t', us_id user) \<noteq> (t, u)" "verify_and_upgrade env ldap now dbnow salt t' pol user pw st = (r, st')"
  shows "accounts_ok st' = accounts_ok st \<and> find_account t u st' = find_account t u st \<and> user_hashes t u st' = user_hashes t u st"
proof -
  have "st' = st \<or> (\<exists>x. st' = upgrade_write env dbnow t' (us_id user) x st)"
    using assms(2) unfolding verify_and_upgrade_def by (auto split: sum.splits option.splits)
  then show ?thesis using assms(1) by (auto simp: accounts_ok_frame find_account_frame user_hashes_frame)
qed

interpretation pw_run: kept_by_steps "pw_step env t u n" "\<lambda>s. hasher_ok (pe_lib env) (pe_hasher env) \<longrightarrow> pw_ok env t u n s" for env t u n
proof (unfold_locales, intro impI)
  fix s s'
  assume st: "pw_step env t u n s s'" and inv: "hasher_ok (pe_lib env) (pe_hasher env) \<longrightarrow> pw_ok env t u n s"
    and ok: "hasher_ok (pe_lib env) (pe_hasher env)"
  have s: "pw_ok env t u n s" using inv ok by simp
  from st show "pw_ok env t u n s'"
  proof (cases rule: pw_step.cases)
    case sets
    show ?thesis unfolding sets(2) by (rule pw_ok_sets [OF s [unfolded sets(1)] set_prepare_hash [OF sets(3) ok] sets(4-6)])
  next
    case signs_in
    show ?thesis using pw_ok_signs_in [OF s [unfolded signs_in(1)] signs_in(3,4) _ signs_in(6) ok] signs_in(2,5) by auto
  next
    case other_sets
    show ?thesis using pw_ok_other [OF s [unfolded other_sets(1)]] set_commit_other [OF other_sets(3,4)] other_sets(2) by simp
  next
    case other_signs_in
    show ?thesis using pw_ok_other [OF s [unfolded other_signs_in(1)]] verify_and_upgrade_other [OF other_signs_in(3,4)] other_signs_in(2) by simp
  next
    case other_imports
    show ?thesis using pw_ok_other [OF s [unfolded other_imports(1)]] import_hash_other [OF other_imports(3,4)] other_imports(2) by simp
  qed
qed

lemma pw_ok_reused:
  assumes "pw_ok env t u n (st, ps)" "p \<in> set (take n ps)"
  shows "\<exists>a. find_account t u st = Some a \<and> us_deleted_at a = None \<and>
    reused env p (history_recent t u (n - 1) st @ (case ac_password_hash a of None \<Rightarrow> [] | Some c \<Rightarrow> [c]))"
proof -
  obtain i where i: "i < n" "i < length ps" "p = ps ! i" using assms(2) by (auto simp: in_set_conv_nth)
  then have "ps \<noteq> []" by auto
  then obtain a h where a: "find_account t u st = Some a" "us_deleted_at a = None" "ac_password_hash a = Some h" "verifies env (hd ps) h"
    using assms(1) by (auto simp: pw_ok_def)
  have "verifies env p h \<or> (\<exists>x\<in>set (history_recent t u (n - 1) st). verifies env p x)"
  proof (cases i)
    case 0
    then show ?thesis using a(4) i \<open>ps \<noteq> []\<close> by (simp add: hd_conv_nth)
  next
    case (Suc j)
    then have j: "j < length (user_hashes t u st)" "verifies env p (user_hashes t u st ! j)" "j < n - 1"
      using assms(1) i by (auto simp: pw_ok_def)
    then have "user_hashes t u st ! j \<in> set (take (n - 1) (user_hashes t u st))" by (auto simp: in_set_conv_nth intro!: exI [of _ j])
    then show ?thesis using j(2) by (auto simp: history_recent_eq)
  qed
  then show ?thesis using a by (auto simp: reused_iff)
qed


section \<open>An upgrade that overtakes a change\<close>

text \<open>
  The upgrade writes its hash without looking at the one it replaces. A sign-in that verified
  the old password against a hash to be upgraded, and writes after the user has changed their
  password, brings the old password back: it signs the user in again.
\<close>

theorem upgrade_restores_old_password:
  assumes ok: "hasher_ok (pe_lib env) (pe_hasher env)" "accounts_ok st"
    and user: "find_account t u st = Some user" "ac_password_hash user = Some h"
    and signs_in: "verify_prepare env ldap now salt pol user old = Inr (VValid must, Some fresh)"
    and change: "set_password env (Inr False) now' dbnow' salt' i t pol u new opts st = (Inr (), st1)"
  shows "\<exists>a. find_account t u (upgrade_write env dbnow t u fresh st1) = Some a \<and>
    (\<exists>must'. verify_prepare env ldap now'' salt'' pol a old = Inr (VValid must', None))"
proof -
  obtain p where p: "set_commit env dbnow' i t pol u opts p st = (Inr (), st1)"
    using change by (auto simp: set_password_def split: sum.splits)
  obtain a st0 where a: "live_account t u st = Some a"
    and st1: "st1 = snd (store_password dbnow' t u (pr_hash p) (hasher_algorithm (pe_hasher env)) (so_must_change opts) (pr_expires p) st0)"
    and st0: "st0 = (case ac_password_hash a of Some old \<Rightarrow> if 1 < pp_history pol
       then history_trim t u (pp_history pol - 1) (history_insert dbnow' i t u old st) else st | None \<Rightarrow> st)"
    using set_commit_Inr [OF p] by metis
  have "find_account t u st0 = Some a" using live_is_found [OF ok(2) a] by (auto simp: st0 find_account_frame split: option.splits)
  then obtain b where b: "find_account t u st1 = Some b" "us_deleted_at b = None"
    using find_account_store live_is_found(2) [OF ok(2) a] st1 by blast
  then obtain c where c: "find_account t u (upgrade_write env dbnow t u fresh st1) = Some c" "ac_password_hash c = Some fresh"
    using find_account_upgrade by blast
  have "hash_blocking (pe_lib env) (pe_hasher env) salt old = Inr fresh" using verify_prepare_valid [OF signs_in user(2)] by simp
  then have "verify_blocking (pe_lib env) (pe_hasher env) old fresh = Inr \<lparr>pv_valid = True, pv_rehash = False\<rparr>"
    using own_hash_valid [OF ok(1)] by (auto simp: hash_blocking_def verify_blocking_def split: sum.splits)
  then show ?thesis using c by (simp add: verify_prepare_def)
qed

section \<open>Examples\<close>

text \<open>A derivation that pads the password, and base32 in place of base64.\<close>

definition ex_derive :: "nat \<Rightarrow> nat \<Rightarrow> string \<Rightarrow> string \<Rightarrow> nat \<Rightarrow> string" where
  "ex_derive alg r salt pw n = take n (pw @ replicate n (CHR ''.''))"

definition ex_password_lib :: password_lib where
  "ex_password_lib = library.extend (ex_library\<lparr>l_b64_decode := (\<lambda>s. None), l_b64url_decode := (\<lambda>s. None)\<rparr>)
     (password_lib.fields (\<lambda>m t p. None) (\<lambda>m t p salt pw. Inl ''no'') (\<lambda>s. Inl ''no'') (\<lambda>pw s. Inl ''no'') (\<lambda>pw s. Inr (s = ''$2b$'' @ pw))
       ex_derive id base32_encode base32_decode (\<lambda>s. None) (\<lambda>c. False) (\<lambda>c. False) (\<lambda>c. False) id)"

definition ex_pw_env :: pw_env where
  "ex_pw_env = \<lparr>pe_lib = ex_password_lib, pe_hasher = Pbkdf2Hasher 210000 True, pe_breach = None, pe_fips = True, pe_fips_transition = True\<rparr>"

lemma ex_password_lib_simps [simp]:
  "pl_b64_nopad ex_password_lib = base32_encode" "pl_b64_nopad_decode ex_password_lib = base32_decode"
  "l_b64_decode ex_password_lib = (\<lambda>s. None)" "pl_pbkdf2 ex_password_lib = ex_derive"
  "pl_bcrypt ex_password_lib = (\<lambda>pw s. Inr (s = ''$2b$'' @ pw))"
  by (simp_all add: ex_password_lib_def library.defs password_lib.defs)

lemma base32_no_dollar: "CHR ''$'' \<notin> set (base32_encode x)"
proof -
  have "list_all (\<lambda>n. sym32 n \<noteq> CHR ''$'') [0..<32]" by code_simp
  moreover have "\<forall>c\<in>set (enc 0 0 (map byte x)). c < 32" by (rule enc_less) (auto simp: byte_less)
  ultimately have "CHR ''$'' \<notin> set (map sym32 (enc 0 0 (map byte x)))" by (auto simp: list_all_iff)
  then show ?thesis by (simp add: base32_encode_def encode32_enc)
qed

lemma ex_hasher_ok: "hasher_ok (pe_lib ex_pw_env) (pe_hasher ex_pw_env)"
  by (simp add: ex_pw_env_def pbkdf2_laws_def base64_laws_def base32_decode_encode base32_no_dollar ex_derive_def MAX_PBKDF2_ROUNDS_def min_def)

definition ex_hash :: "string \<Rightarrow> string" where
  "ex_hash pw = ''$pbkdf2-sha512$'' @ show_nat 210000 @ ''$'' @ base32_encode ''salt'' @ ''$'' @ base32_encode (ex_derive 512 210000 ''salt'' pw HASH_LEN)"

lemma ex_hash_password: "hash_password (pe_lib ex_pw_env) (pe_hasher ex_pw_env) ''salt'' pw = Inr (ex_hash pw)"
  by (simp add: ex_pw_env_def ex_hash_def)

theorem own_hash_verifies_witness:
  "verify_hash ex_password_lib (Pbkdf2Hasher 210000 True) ''pass'' (ex_hash ''pass'') = Inr \<lparr>pv_valid = True, pv_rehash = False\<rparr> \<and>
   verify_hash ex_password_lib (Argon2Hasher default_argon2_params) ''pass'' (ex_hash ''pass'') = Inr \<lparr>pv_valid = True, pv_rehash = True\<rparr>"
  using own_hash_verifies [OF ex_hasher_ok ex_hash_password [of "''pass''"]] by (auto simp: ex_pw_env_def simp del: verify_hash.simps)

theorem pbkdf2_work_bounded_witness:
  "verify_hash (ex_password_lib\<lparr>pl_pbkdf2 := ex_derive\<rparr>) (Pbkdf2Hasher 210000 True) ''pass'' (ex_hash ''pass'')
   = verify_hash (ex_password_lib\<lparr>pl_pbkdf2 := (\<lambda>alg r salt pw n. if r \<le> 1000000 then ex_derive alg r salt pw n else [])\<rparr>)
       (Pbkdf2Hasher 210000 True) ''pass'' (ex_hash ''pass'')"
  by (rule pbkdf2_work_bounded) simp

definition ex_account :: account where
  "ex_account = user.extend ex_user (account.fields None None False None None None 0 None)"

definition ex_pw_policy :: password_policy where
  "ex_pw_policy = default_password_policy\<lparr>pp_min_length := 1, pp_history := 2\<rparr>"

definition ex_admin_sets :: set_options where
  "ex_admin_sets = \<lparr>so_must_change = False, so_skip_policy = True, so_by_user = False, so_notify = False\<rparr>"

definition ex_pw_state :: "string option \<Rightarrow> instant option \<Rightarrow> history_row list \<Rightarrow> pw_state" where
  "ex_pw_state h changed rows = \<lparr>pw_users = [ex_account\<lparr>ac_password_hash := h, ac_password_algo := map_option (\<lambda>_. ''pbkdf2-sha512'') h,
      ac_password_changed_at := changed, us_updated_at := (case changed of None \<Rightarrow> 0 | Some c \<Rightarrow> c)\<rparr>], pw_history = rows\<rparr>"

lemma ex_account_simps [simp]:
  "us_tenant ex_account = 1" "us_id ex_account = 3" "us_deleted_at ex_account = None" "us_locked_until ex_account = None"
  "ac_failed_attempts ex_account = 0" "ac_must_change ex_account = False" "ac_password_expires_at ex_account = None"
  by (simp_all add: ex_account_def user.defs account.defs ex_user_def)

lemmas ex_pw_defs = ex_pw_state_def find_account_def live_account_def set_prepare_def set_checks_def set_commit_def
  password_hash_for_update_def store_password_def ex_admin_sets_def ex_pw_policy_def default_password_policy_def hash_blocking_def
  ex_hash_password history_trim_def history_insert_def user_history_def

lemma ex_sets:
  "set_prepare ex_pw_env 0 ''salt'' 1 ex_pw_policy 3 pw ex_admin_sets (ex_pw_state h c rows) = Inr \<lparr>pr_had = h, pr_hash = ex_hash pw, pr_expires = None\<rparr>"
  by (simp add: ex_pw_defs)

lemma ex_first: "set_commit ex_pw_env 10 7 1 ex_pw_policy 3 ex_admin_sets \<lparr>pr_had = None, pr_hash = ex_hash pw, pr_expires = None\<rparr> (ex_pw_state None None [])
  = (Inr (), ex_pw_state (Some (ex_hash pw)) (Some 10) [])"
  by (simp add: ex_pw_defs) (simp add: ex_pw_env_def ALGO_PBKDF2_SHA512_def ex_account_def user.defs account.defs ex_user_def)

definition ex_row :: "string \<Rightarrow> history_row" where
  "ex_row h = \<lparr>ph_id = 8, ph_tenant = 1, ph_user = 3, ph_hash = h, ph_created_at = 20\<rparr>"

lemma ex_second: "set_commit ex_pw_env 20 8 1 ex_pw_policy 3 ex_admin_sets \<lparr>pr_had = Some h, pr_hash = ex_hash pw, pr_expires = None\<rparr> (ex_pw_state (Some h) (Some 10) [])
  = (Inr (), ex_pw_state (Some (ex_hash pw)) (Some 20) [ex_row h])"
  by (simp add: ex_pw_defs ex_row_def) (simp add: ex_pw_env_def ALGO_PBKDF2_SHA512_def ex_account_def user.defs account.defs ex_user_def)

lemma ex_pw_run: "(pw_step ex_pw_env 1 3 2)\<^sup>*\<^sup>* (ex_pw_state None None [], []) (ex_pw_state (Some (ex_hash ''bb'')) (Some 20) [ex_row (ex_hash ''aa'')], [''bb'', ''aa''])"
proof -
  have n: "pp_history ex_pw_policy = 2" by (simp add: ex_pw_policy_def)
  have "pw_step ex_pw_env 1 3 2 (ex_pw_state None None [], []) (ex_pw_state (Some (ex_hash ''aa'')) (Some 10) [], [''aa''])"
    by (rule pw_step.sets [OF ex_sets n ex_first]) (simp add: ex_pw_state_def)
  moreover have "pw_step ex_pw_env 1 3 2 (ex_pw_state (Some (ex_hash ''aa'')) (Some 10) [], [''aa''])
    (ex_pw_state (Some (ex_hash ''bb'')) (Some 20) [ex_row (ex_hash ''aa'')], [''bb'', ''aa''])"
    by (rule pw_step.sets [OF ex_sets n ex_second]) (simp add: ex_pw_state_def)
  ultimately show ?thesis by (rule converse_rtranclp_into_rtranclp [OF _ r_into_rtranclp])
qed


text \<open>The account of an imported bcrypt hash.\<close>

lemma ex_upgrade_pending:
  "verify_prepare ex_pw_env (Inr None) 5 ''salt'' ex_pw_policy (ex_account\<lparr>ac_password_hash := Some ''$2b$aa'', ac_password_algo := Some ''pbkdf2-sha512'',
      ac_password_changed_at := Some 10, us_updated_at := 10\<rparr>) ''aa'' = Inr (VValid False, Some (ex_hash ''aa''))"
proof -
  have "verify_hash (pe_lib ex_pw_env) (pe_hasher ex_pw_env) ''aa'' ''$2b$aa'' = Inr \<lparr>pv_valid = True, pv_rehash = True\<rparr>"
    by (simp add: ex_pw_env_def is_approved_def starts_with_def legacy_verify_def is_bcrypt_def)
  then show ?thesis
    by (simp add: verify_prepare_def verify_blocking_def hash_blocking_def ex_hash_password password_expired_def ex_pw_policy_def default_password_policy_def)
qed

theorem upgrade_restores_old_password_witness:
  "\<exists>a. find_account 1 3 (upgrade_write ex_pw_env 25 1 3 (ex_hash ''aa'') (ex_pw_state (Some (ex_hash ''bb'')) (Some 20) [ex_row ''$2b$aa''])) = Some a \<and>
     (\<exists>must. verify_prepare ex_pw_env (Inr None) 30 ''salt'' ex_pw_policy a ''aa'' = Inr (VValid must, None))"
proof (rule upgrade_restores_old_password)
  show "hasher_ok (pe_lib ex_pw_env) (pe_hasher ex_pw_env)" by (rule ex_hasher_ok)
  show "accounts_ok (ex_pw_state (Some ''$2b$aa'') (Some 10) [])" by (simp add: accounts_ok_def ex_pw_state_def)
  show "find_account 1 3 (ex_pw_state (Some ''$2b$aa'') (Some 10) []) = Some (ex_account\<lparr>ac_password_hash := Some ''$2b$aa'',
    ac_password_algo := Some ''pbkdf2-sha512'', ac_password_changed_at := Some 10, us_updated_at := 10\<rparr>)"
    by (simp add: find_account_def ex_pw_state_def)
  show "set_password ex_pw_env (Inr False) 0 20 ''salt'' 8 1 ex_pw_policy 3 ''bb'' ex_admin_sets (ex_pw_state (Some ''$2b$aa'') (Some 10) [])
    = (Inr (), ex_pw_state (Some (ex_hash ''bb'')) (Some 20) [ex_row ''$2b$aa''])"
    by (simp add: set_password_def ex_sets ex_second del: One_nat_def)
  show "verify_prepare ex_pw_env (Inr None) 5 ''salt'' ex_pw_policy (ex_account\<lparr>ac_password_hash := Some ''$2b$aa'',
    ac_password_algo := Some ''pbkdf2-sha512'', ac_password_changed_at := Some 10, us_updated_at := 10\<rparr>) ''aa'' = Inr (VValid False, Some (ex_hash ''aa''))"
    by (rule ex_upgrade_pending)
qed simp

end
