(* ===== verification/Sign_In_Checks.thy ===== *)
theory Sign_In_Checks
  imports Passwords
begin

text \<open>
  What a sign-in is judged on: the attempts recorded per address
  (\<open>api/src/repos/login_attempts.rs\<close>), where the user signed in before and the risk policy over it
  (\<open>services/risk.rs\<close>, \<open>repos/user_login_locations.rs\<close>), trusted devices
  (\<open>services/trusted_devices.rs\<close>, \<open>repos/trusted_devices.rs\<close>), remembered consent
  (\<open>services/consents.rs\<close>, \<open>repos/consents.rs\<close>), and the lockout counters of \<open>repos/users.rs\<close>.
  Latitudes and longitudes are kept as they come (\<open>f64\<close>, here integers standing for their bits);
  the one computation on them, whether a distance was covered too fast, is a parameter. Events
  are not modelled.
\<close>

section \<open>Attempts\<close>

record attempt =
  la_tenant :: uuid
  la_identifier :: string
  la_ip :: "string option"
  la_success :: bool
  la_reason :: "string option"
  la_created_at :: instant

definition record_attempt :: "instant \<Rightarrow> uuid \<Rightarrow> string \<Rightarrow> string option \<Rightarrow> bool \<Rightarrow> string option \<Rightarrow> attempt list \<Rightarrow> attempt list" where
  "record_attempt dbnow t ident ip ok reason rows =
     rows @ [\<lparr>la_tenant = t, la_identifier = ident, la_ip = ip, la_success = ok, la_reason = reason, la_created_at = dbnow\<rparr>]"

definition failures_from_ip :: "uuid \<Rightarrow> string \<Rightarrow> instant \<Rightarrow> attempt list \<Rightarrow> nat" where
  "failures_from_ip t ip since rows =
     length (filter (\<lambda>r. la_tenant r = t \<and> la_ip r = Some ip \<and> \<not> la_success r \<and> since \<le> la_created_at r) rows)"

text \<open>Both windows in one read.\<close>

definition failures_from_ip_since :: "uuid \<Rightarrow> string \<Rightarrow> instant \<times> instant \<Rightarrow> attempt list \<Rightarrow> nat \<times> nat" where
  "failures_from_ip_since t ip since rows =
     (let read = filter (\<lambda>r. la_tenant r = t \<and> la_ip r = Some ip \<and> \<not> la_success r \<and> min (fst since) (snd since) \<le> la_created_at r) rows
      in (length (filter (\<lambda>r. fst since \<le> la_created_at r) read), length (filter (\<lambda>r. snd since \<le> la_created_at r) read)))"

definition minutes :: "nat \<Rightarrow> duration" where
  "minutes n = dur_secs (int n * 60)"

section \<open>The risk policy\<close>

record risk_weights =
  rw_new_device :: nat
  rw_new_country :: nat
  rw_impossible_travel :: nat
  rw_velocity :: nat

record risk_policy =
  rk_enabled :: bool
  rk_weights :: risk_weights
  rk_step_up_at :: nat
  rk_block_at :: nat
  rk_impossible_travel_kmh :: nat
  rk_velocity_max_failures :: nat
  rk_velocity_window_minutes :: nat

definition default_risk_policy :: risk_policy where
  "default_risk_policy = \<lparr>rk_enabled = False, rk_weights = \<lparr>rw_new_device = 20, rw_new_country = 50, rw_impossible_travel = 60, rw_velocity = 40\<rparr>,
     rk_step_up_at = 50, rk_block_at = 100, rk_impossible_travel_kmh = 900, rk_velocity_max_failures = 10, rk_velocity_window_minutes = 15\<rparr>"

datatype risk_signal = NewDevice | NewCountry | ImpossibleTravel | Velocity

datatype risk_action = RiskAllow | RiskStepUp | RiskBlock

record risk_assessment =
  ra_score :: nat
  ra_signals :: "risk_signal list"
  ra_action :: risk_action
  ra_country :: "string option"

definition is_blocked :: "risk_assessment \<Rightarrow> bool" where
  "is_blocked a = (ra_action a = RiskBlock)"

definition steps_up :: "risk_assessment \<Rightarrow> bool" where
  "steps_up a = (ra_action a = RiskStepUp)"

record location =
  lc_country :: string
  lc_latitude :: "int option"
  lc_longitude :: "int option"

definition coordinates :: "int option \<Rightarrow> int option \<Rightarrow> (int \<times> int) option" where
  "coordinates lat lon = (case (lat, lon) of (Some a, Some b) \<Rightarrow> Some (a, b) | _ \<Rightarrow> None)"

record login_location =
  ll_tenant :: uuid
  ll_user :: uuid
  ll_country :: string
  ll_latitude :: "int option"
  ll_longitude :: "int option"
  ll_logins :: nat
  ll_first_seen_at :: instant
  ll_last_seen_at :: instant

definition HISTORY_LIMIT :: nat where "HISTORY_LIMIT = 50"

definition locations_recent :: "uuid \<Rightarrow> uuid \<Rightarrow> nat \<Rightarrow> login_location list \<Rightarrow> login_location list" where
  "locations_recent t u limit rows =
     take limit (rev (sort_key ll_last_seen_at (filter (\<lambda>r. ll_tenant r = t \<and> ll_user r = u) rows)))"

definition location_record :: "instant \<Rightarrow> uuid \<Rightarrow> uuid \<Rightarrow> location \<Rightarrow> login_location list \<Rightarrow> login_location list" where
  "location_record dbnow t u l rows =
     (let same = (\<lambda>r. ll_tenant r = t \<and> ll_user r = u \<and> ll_country r = lc_country l)
      in if list_ex same rows
         then update_where same (\<lambda>r. r\<lparr>ll_latitude := (case lc_latitude l of None \<Rightarrow> ll_latitude r | Some x \<Rightarrow> Some x),
                ll_longitude := (case lc_longitude l of None \<Rightarrow> ll_longitude r | Some x \<Rightarrow> Some x),
                ll_logins := ll_logins r + 1, ll_last_seen_at := dbnow\<rparr>) rows
         else rows @ [\<lparr>ll_tenant = t, ll_user = u, ll_country = lc_country l, ll_latitude = lc_latitude l,
                ll_longitude = lc_longitude l, ll_logins = 1, ll_first_seen_at = dbnow, ll_last_seen_at = dbnow\<rparr>])"

text \<open>
  \<open>too_fast there here secs kmh\<close> is the floating-point part: the great-circle distance is at least
  \<open>TRAVEL_MIN_KM\<close> and, over the hours of \<open>secs\<close> with a floor of one minute, above \<open>kmh\<close>.
\<close>

type_synonym travel = "int \<times> int \<Rightarrow> int \<times> int \<Rightarrow> int \<Rightarrow> nat \<Rightarrow> bool"

definition last_seen_point :: "login_location list \<Rightarrow> (login_location \<times> int \<times> int) option" where
  "last_seen_point history =
     (case find (\<lambda>l. coordinates (ll_latitude l) (ll_longitude l) \<noteq> None) history of
        None \<Rightarrow> None
      | Some l \<Rightarrow> map_option (Pair l) (coordinates (ll_latitude l) (ll_longitude l)))"

definition travelled_impossibly :: "travel \<Rightarrow> instant \<Rightarrow> nat \<Rightarrow> login_location list \<Rightarrow> location \<Rightarrow> bool" where
  "travelled_impossibly too_fast now max_kmh history l =
     (if max_kmh = 0 then False
      else case coordinates (lc_latitude l) (lc_longitude l) of
             None \<Rightarrow> False
           | Some here \<Rightarrow>
               (case last_seen_point history of
                  None \<Rightarrow> False
                | Some (row, there) \<Rightarrow> too_fast there here (max (num_seconds (now - ll_last_seen_at row)) 0) max_kmh))"

record risk_inputs =
  ri_ip :: "string option"
  ri_location :: "location option"
  ri_new_device :: bool
  ri_ip_failures :: "nat option"

definition velocity_since :: "instant \<Rightarrow> nat \<Rightarrow> instant" where
  "velocity_since now w = now - minutes (max w 1)"

definition risk_failures :: "risk_policy \<Rightarrow> instant \<Rightarrow> uuid \<Rightarrow> risk_inputs \<Rightarrow> attempt list \<Rightarrow> nat option" where
  "risk_failures pol now t inp attempts =
     (if rk_velocity_max_failures pol = 0 then None
      else case (ri_ip inp, ri_ip_failures inp) of
             (Some ip, Some n) \<Rightarrow> Some n
           | (Some ip, None) \<Rightarrow> Some (failures_from_ip t ip (velocity_since now (rk_velocity_window_minutes pol)) attempts)
           | (None, _) \<Rightarrow> None)"

definition location_signals :: "travel \<Rightarrow> risk_policy \<Rightarrow> instant \<Rightarrow> login_location list \<Rightarrow> location \<Rightarrow> risk_signal list" where
  "location_signals too_fast pol now history l =
     (if history = [] then []
      else (if list_ex (\<lambda>r. ll_country r = lc_country l) history then [] else [NewCountry])
         @ (if travelled_impossibly too_fast now (rk_impossible_travel_kmh pol) history l then [ImpossibleTravel] else []))"

fun signal_weight :: "risk_weights \<Rightarrow> risk_signal \<Rightarrow> nat" where
  "signal_weight w NewDevice = rw_new_device w"
| "signal_weight w NewCountry = rw_new_country w"
| "signal_weight w ImpossibleTravel = rw_impossible_travel w"
| "signal_weight w Velocity = rw_velocity w"

definition risk_decide :: "risk_policy \<Rightarrow> nat \<Rightarrow> risk_action" where
  "risk_decide pol score =
     (if 0 < rk_block_at pol \<and> rk_block_at pol \<le> score then RiskBlock
      else if 0 < rk_step_up_at pol \<and> rk_step_up_at pol \<le> score then RiskStepUp
      else RiskAllow)"

definition evaluate ::
  "travel \<Rightarrow> risk_policy \<Rightarrow> instant \<Rightarrow> uuid \<Rightarrow> uuid \<Rightarrow> risk_inputs \<Rightarrow> attempt list \<Rightarrow> login_location list \<Rightarrow> risk_assessment" where
  "evaluate too_fast pol now t u inp attempts locations =
     (let country = map_option lc_country (ri_location inp)
      in if \<not> rk_enabled pol then \<lparr>ra_score = 0, ra_signals = [], ra_action = RiskAllow, ra_country = country\<rparr>
         else
           (let signals =
                  (if ri_new_device inp then [NewDevice] else [])
                  @ (case ri_location inp of
                       None \<Rightarrow> []
                     | Some l \<Rightarrow> location_signals too_fast pol now (locations_recent t u HISTORY_LIMIT locations) l)
                  @ (case risk_failures pol now t inp attempts of
                       None \<Rightarrow> []
                     | Some n \<Rightarrow> if rk_velocity_max_failures pol \<le> n then [Velocity] else []);
                score = sum_list (map (signal_weight (rk_weights pol)) signals) mod 2 ^ 32
            in \<lparr>ra_score = score, ra_signals = signals, ra_action = risk_decide pol score, ra_country = country\<rparr>))"

definition record_location ::
  "risk_policy \<Rightarrow> instant \<Rightarrow> uuid \<Rightarrow> uuid \<Rightarrow> location option \<Rightarrow> login_location list \<Rightarrow> login_location list" where
  "record_location pol dbnow t u l rows =
     (case l of Some loc \<Rightarrow> if rk_enabled pol then location_record dbnow t u loc rows else rows | None \<Rightarrow> rows)"

section \<open>Trusted devices\<close>

record trusted_device =
  td_id :: uuid
  td_tenant :: uuid
  td_user :: uuid
  td_hash :: string
  td_user_agent :: "string option"
  td_ip :: "string option"
  td_created_at :: instant
  td_last_seen_at :: instant
  td_expires_at :: instant
  td_revoked_at :: "instant option"

definition device_is_live :: "trusted_device \<Rightarrow> instant \<Rightarrow> bool" where
  "device_is_live d now = (td_revoked_at d = None \<and> now < td_expires_at d)"

definition TOUCH_EVERY :: duration where "TOUCH_EVERY = minutes 15"

definition find_device :: "library \<Rightarrow> uuid \<Rightarrow> string \<Rightarrow> trusted_device list \<Rightarrow> trusted_device option" where
  "find_device lib t secret rows = find (\<lambda>d. td_tenant d = t \<and> td_hash d = l_digest lib 256 secret) rows"

definition touch_device :: "instant \<Rightarrow> uuid \<Rightarrow> uuid \<Rightarrow> string option \<Rightarrow> trusted_device list \<Rightarrow> trusted_device list" where
  "touch_device dbnow t i ip rows =
     update_where (\<lambda>d. td_tenant d = t \<and> td_id d = i)
       (\<lambda>d. d\<lparr>td_last_seen_at := dbnow, td_ip := (case ip of None \<Rightarrow> td_ip d | Some x \<Rightarrow> Some x)\<rparr>) rows"

definition verify_device ::
  "library \<Rightarrow> instant \<Rightarrow> instant \<Rightarrow> uuid \<Rightarrow> uuid \<Rightarrow> string \<Rightarrow> string option \<Rightarrow> trusted_device list \<Rightarrow> trusted_device option \<times> trusted_device list" where
  "verify_device lib now dbnow t u secret ip rows =
     (case find_device lib t secret rows of
        None \<Rightarrow> (None, rows)
      | Some d \<Rightarrow>
          if td_user d = u \<and> device_is_live d now
          then (Some d, if TOUCH_EVERY < now - td_last_seen_at d \<or> (ip \<noteq> None \<and> ip \<noteq> td_ip d)
                        then touch_device dbnow t (td_id d) ip rows else rows)
          else (None, rows))"

definition trust_device ::
  "library \<Rightarrow> instant \<Rightarrow> instant \<Rightarrow> uuid \<Rightarrow> string \<Rightarrow> nat \<Rightarrow> uuid \<Rightarrow> uuid \<Rightarrow> string option \<Rightarrow> string option \<Rightarrow> trusted_device list
     \<Rightarrow> trusted_device \<times> trusted_device list" where
  "trust_device lib now dbnow new_id secret remember_days t u user_agent ip rows =
     (let d = \<lparr>td_id = new_id, td_tenant = t, td_user = u, td_hash = l_digest lib 256 secret, td_user_agent = user_agent, td_ip = ip,
               td_created_at = dbnow, td_last_seen_at = dbnow, td_expires_at = now + days (max remember_days 1), td_revoked_at = None\<rparr>
      in (d, rows @ [d]))"

definition revoke_device :: "instant \<Rightarrow> uuid \<Rightarrow> uuid \<Rightarrow> uuid \<Rightarrow> trusted_device list \<Rightarrow> bool \<times> trusted_device list" where
  "revoke_device dbnow t u i rows =
     (let p = (\<lambda>d. td_tenant d = t \<and> td_user d = u \<and> td_id d = i \<and> td_revoked_at d = None)
      in (0 < rows_affected p rows, update_where p (\<lambda>d. d\<lparr>td_revoked_at := Some dbnow\<rparr>) rows))"

definition revoke_all_devices :: "instant \<Rightarrow> uuid \<Rightarrow> uuid \<Rightarrow> trusted_device list \<Rightarrow> nat \<times> trusted_device list" where
  "revoke_all_devices dbnow t u rows =
     (let p = (\<lambda>d. td_tenant d = t \<and> td_user d = u \<and> td_revoked_at d = None)
      in (rows_affected p rows, update_where p (\<lambda>d. d\<lparr>td_revoked_at := Some dbnow\<rparr>) rows))"

section \<open>Consent\<close>

record consent =
  gc_tenant :: uuid
  gc_user :: uuid
  gc_client :: uuid
  gc_scopes :: "string list"
  gc_granted_at :: instant
  gc_revoked_at :: "instant option"

definition consent_of :: "uuid \<Rightarrow> uuid \<Rightarrow> uuid \<Rightarrow> consent \<Rightarrow> bool" where
  "consent_of t u c r = (gc_tenant r = t \<and> gc_user r = u \<and> gc_client r = c)"

definition missing_scopes :: "uuid \<Rightarrow> uuid \<Rightarrow> uuid \<Rightarrow> string list \<Rightarrow> consent list \<Rightarrow> string list" where
  "missing_scopes t u c requested rows =
     (let granted = (case find (consent_of t u c) rows of
                       Some r \<Rightarrow> if gc_revoked_at r = None then gc_scopes r else []
                     | None \<Rightarrow> [])
      in filter (\<lambda>s. s \<notin> set granted) requested)"

text \<open>\<open>array_agg(DISTINCT s)\<close> over the old scopes and the new ones.\<close>

definition grant_consent :: "instant \<Rightarrow> uuid \<Rightarrow> uuid \<Rightarrow> uuid \<Rightarrow> string list \<Rightarrow> consent list \<Rightarrow> consent list" where
  "grant_consent dbnow t u c scopes rows =
     (if list_ex (consent_of t u c) rows
      then update_where (consent_of t u c)
             (\<lambda>r. r\<lparr>gc_scopes := remdups (gc_scopes r @ scopes), gc_granted_at := dbnow, gc_revoked_at := None\<rparr>) rows
      else rows @ [\<lparr>gc_tenant = t, gc_user = u, gc_client = c, gc_scopes = scopes, gc_granted_at = dbnow, gc_revoked_at = None\<rparr>])"

definition revoke_consent :: "instant \<Rightarrow> uuid \<Rightarrow> uuid \<Rightarrow> uuid \<Rightarrow> consent list \<Rightarrow> bool \<times> consent list" where
  "revoke_consent dbnow t u c rows =
     (let p = (\<lambda>r. consent_of t u c r \<and> gc_revoked_at r = None)
      in (0 < rows_affected p rows, update_where p (\<lambda>r. r\<lparr>gc_revoked_at := Some dbnow\<rparr>) rows))"

section \<open>The lockout counters\<close>

definition record_login_success :: "instant \<Rightarrow> uuid \<Rightarrow> uuid \<Rightarrow> pw_state \<Rightarrow> pw_state" where
  "record_login_success dbnow t u st =
     st\<lparr>pw_users := update_where (\<lambda>a. us_tenant a = t \<and> us_id a = u)
          (\<lambda>a. a\<lparr>ac_last_login_at := Some dbnow, ac_failed_attempts := 0, us_locked_until := None\<rparr>) (pw_users st)\<rparr>"

text \<open>The new count of failures of the user's row, and the row locked once it reaches the limit.\<close>

definition record_login_failure :: "instant \<Rightarrow> uuid \<Rightarrow> uuid \<Rightarrow> int \<Rightarrow> int \<Rightarrow> pw_state \<Rightarrow> int \<times> pw_state" where
  "record_login_failure dbnow t u lock_after lock_secs st =
     (let st1 = st\<lparr>pw_users := update_where (\<lambda>a. us_tenant a = t \<and> us_id a = u)
                (\<lambda>a. a\<lparr>ac_failed_attempts := ac_failed_attempts a + 1,
                       us_locked_until := (if lock_after \<le> ac_failed_attempts a + 1 then Some (dbnow + dur_secs lock_secs) else us_locked_until a)\<rparr>)
                (pw_users st)\<rparr>
      in (case find_account t u st1 of None \<Rightarrow> 0 | Some a \<Rightarrow> ac_failed_attempts a, st1))"

definition set_terms_accepted :: "instant \<Rightarrow> uuid \<Rightarrow> uuid \<Rightarrow> pw_state \<Rightarrow> pw_state" where
  "set_terms_accepted dbnow t u st =
     st\<lparr>pw_users := update_where (\<lambda>a. us_tenant a = t \<and> us_id a = u \<and> us_deleted_at a = None)
          (\<lambda>a. a\<lparr>ac_terms_accepted_at := Some dbnow, us_updated_at := dbnow\<rparr>) (pw_users st)\<rparr>"

end
