(* ===== verification/Flows.thy ===== *)
theory Flows
  imports Sign_In_Checks Logout Device_Codes
begin

text \<open>
  Login flows (\<open>api/src/services/login_flows.rs\<close>, \<open>services/flows.rs\<close>): the state machine that takes
  a validated authorization request through sign-in, a forced password change, the second
  factor, the profile, the terms, the organization and consent. Each step checks the stage of
  the flow, acts, recomputes the stage with \<open>advance\<close> and saves the flow.

  The state is what the steps read and write: the flows and sessions in Valkey, the accounts,
  factors, attempts, locations, devices and consents in the database, and the device codes a
  flow may be approving. What other services answer is the record \<open>flow_env\<close>: roles and console
  permissions of a user, memberships, the profile schema, clients, the CAPTCHA provider. A
  directory, a passkey, a one-time code sent by mail or text message and a registration are
  judged by their own services; a step that rests on one takes its answer as an argument.
  Pages for the browser, events and mail are not modelled.
\<close>

section \<open>Flows\<close>

datatype response_mode = ModeQuery | ModeFragment | ModeFormPost | ModeQueryJwt | ModeFragmentJwt | ModeFormPostJwt

definition parse_response_mode :: "string \<Rightarrow> response_mode option" where
  "parse_response_mode s =
     (if s = ''query'' then Some ModeQuery
      else if s = ''fragment'' then Some ModeFragment
      else if s = ''form_post'' then Some ModeFormPost
      else if s = ''jwt'' \<or> s = ''query.jwt'' then Some ModeQueryJwt
      else if s = ''fragment.jwt'' then Some ModeFragmentJwt
      else if s = ''form_post.jwt'' then Some ModeFormPostJwt
      else None)"

fun mode_base :: "response_mode \<Rightarrow> response_mode" where
  "mode_base ModeQueryJwt = ModeQuery"
| "mode_base ModeFragmentJwt = ModeFragment"
| "mode_base ModeFormPostJwt = ModeFormPost"
| "mode_base m = m"

fun is_jarm :: "response_mode \<Rightarrow> bool" where
  "is_jarm ModeQueryJwt = True"
| "is_jarm ModeFragmentJwt = True"
| "is_jarm ModeFormPostJwt = True"
| "is_jarm _ = False"

record auth_request =
  aq_client :: uuid
  aq_client_public_id :: string
  aq_redirect_uri :: string
  aq_response_mode :: response_mode
  aq_scopes :: "string list"
  aq_audiences :: "string list"
  aq_state :: "string option"
  aq_nonce :: "string option"
  aq_code_challenge :: "string option"
  aq_prompt :: "string list"
  aq_max_age :: "nat option"
  aq_acr_values :: "string list"
  aq_login_hint :: "string option"
  aq_ui_locales :: "string list"
  aq_claims :: "json option"
  aq_skip_consent :: bool
  aq_device_code :: "string option"
  aq_organization :: "string option"
  aq_saml :: bool

datatype flow_stage = AtAuthenticate | AtRegister | AtVerifyEmail | AtPasswordChange | AtMfa | AtProfile
  | AtTerms | AtOrganization | AtConsent | AtDone

record login_flow =
  lf_id :: uuid
  lf_tenant :: uuid
  lf_request :: auth_request
  lf_stage :: flow_stage
  lf_session :: "uuid option"
  lf_user :: "uuid option"
  lf_pending :: "string list"
  lf_require_auth_after :: "instant option"
  lf_csrf :: string
  lf_attempts :: nat
  lf_amr :: "string list"
  lf_org :: "uuid option"
  lf_trusted :: bool
  lf_risk_step_up :: bool
  lf_remember :: bool
  lf_created_at :: instant
  lf_expires_at :: instant

type_synonym flow_store = "(uuid \<times> uuid, login_flow) kv"

definition FLOW_TTL_SECS :: nat where "FLOW_TTL_SECS = 600"

definition save_flow :: "instant \<Rightarrow> login_flow \<Rightarrow> flow_store \<Rightarrow> flow_store" where
  "save_flow now f m =
     (let ttl = num_seconds (lf_expires_at f - now)
      in if ttl \<le> 0 then m else kv_set_ex now (nat ttl) (lf_tenant f, lf_id f) f m)"

definition create_flow :: "instant \<Rightarrow> string \<Rightarrow> login_flow \<Rightarrow> flow_store \<Rightarrow> login_flow \<times> flow_store" where
  "create_flow now csrf f m =
     (let f1 = f\<lparr>lf_csrf := csrf, lf_created_at := now, lf_expires_at := now + dur_secs (int FLOW_TTL_SECS)\<rparr>
      in (f1, save_flow now f1 m))"

definition get_flow :: "instant \<Rightarrow> uuid \<Rightarrow> uuid \<Rightarrow> flow_store \<Rightarrow> login_flow option" where
  "get_flow now t i m = (case kv_get now (t, i) m of Some f \<Rightarrow> if now < lf_expires_at f then Some f else None | None \<Rightarrow> None)"

definition delete_flow :: "uuid \<Rightarrow> uuid \<Rightarrow> flow_store \<Rightarrow> flow_store" where
  "delete_flow t i m = kv_del (t, i) m"

definition load_flow :: "instant \<Rightarrow> uuid \<Rightarrow> uuid \<Rightarrow> flow_store \<Rightarrow> app_error + login_flow" where
  "load_flow now t i m = or_error (get_flow now t i m) (NotFound ''flow'')"

definition check_csrf :: "login_flow \<Rightarrow> string \<Rightarrow> app_error + unit" where
  "check_csrf f presented = ensure (\<not> (lf_csrf f = [] \<or> lf_csrf f \<noteq> presented)) (Forbidden ''invalid csrf token'')"

section \<open>Settings, surroundings and state\<close>

datatype mfa_policy = MfaOff | MfaOptional | MfaRequired | MfaRequiredForAdmins | MfaRequiredForRoles "string list"

record lockout_policy =
  lk_max_failures :: nat
  lk_lock_minutes :: nat
  lk_ip_max_failures :: nat
  lk_ip_window_minutes :: nat

record flow_tenant = tenant +
  se_password :: password_policy
  se_mfa :: mfa_policy
  se_mfa_totp :: bool
  se_risk :: risk_policy
  se_require_terms :: bool
  se_auth_password :: bool
  se_auth_passkey :: bool
  se_lockout :: lockout_policy
  se_captcha_after_failures :: nat
  se_captcha_on_registration :: bool

record attribute_rule =
  ar_name :: string
  ar_required :: bool
  ar_editable :: bool

record organization =
  og_id :: uuid
  og_slug :: string
  og_active :: bool

text \<open>
  \<open>fe_roles\<close> is \<open>roles::effective_role_names\<close>, \<open>fe_admin\<close> whether
  \<open>admin_access::permissions_of_user\<close> finds any anywhere, \<open>fe_orgs\<close> is \<open>organizations::of_user\<close> after
  \<open>ensure_auto_join\<close>, \<open>fe_captcha_verify\<close> the provider, \<open>fe_url\<close> a URL with query pairs appended.
\<close>

record flow_env =
  fe_pw :: pw_env
  fe_factor :: factor_lib
  fe_travel :: travel
  fe_roles :: "uuid \<Rightarrow> uuid \<Rightarrow> string list"
  fe_admin :: "uuid \<Rightarrow> uuid \<Rightarrow> bool"
  fe_schema :: "uuid \<Rightarrow> attribute_rule list"
  fe_orgs :: "uuid \<Rightarrow> uuid \<Rightarrow> organization list"
  fe_client :: "uuid \<Rightarrow> string \<Rightarrow> client option"
  fe_rp :: "string \<Rightarrow> rp_client option"
  fe_iss_sid :: "string \<Rightarrow> string option"
  fe_captcha_key :: "string option"
  fe_captcha_verify :: "string \<Rightarrow> string option \<Rightarrow> string + bool"
  fe_url :: "string \<Rightarrow> (string \<times> string) list \<Rightarrow> string option"
  fe_issuer :: "uuid \<Rightarrow> string"

definition fe_lib :: "flow_env \<Rightarrow> library" where
  "fe_lib env = library.truncate (pe_lib (fe_pw env))"

record denial =
  dn_client :: uuid
  dn_redirect_uri :: string
  dn_response_mode :: response_mode
  dn_description :: string
  dn_state :: "string option"

record flow_state =
  fs_flows :: flow_store
  fs_sessions :: auth_state
  fs_accounts :: pw_state
  fs_factors :: factor_state
  fs_attempts :: "attempt list"
  fs_locations :: "login_location list"
  fs_devices :: "trusted_device list"
  fs_consents :: "consent list"
  fs_device_codes :: device_state
  fs_denials :: "(uuid \<times> uuid, denial) kv"

text \<open>The instants of a request: the service's clock and the database's.\<close>

record moment =
  at_now :: instant
  at_db :: instant

section \<open>What a flow owes\<close>

definition get_user :: "uuid \<Rightarrow> uuid \<Rightarrow> pw_state \<Rightarrow> app_error + account" where
  "get_user t u st =
     (case find_account t u st of
        Some a \<Rightarrow> if us_deleted_at a = None then Inr a else Inl (NotFound ''user'')
      | None \<Rightarrow> Inl (NotFound ''user''))"

definition client_of :: "flow_env \<Rightarrow> login_flow \<Rightarrow> app_error + client" where
  "client_of env f =
     (case fe_client env (lf_tenant f) (aq_client_public_id (lf_request f)) of
        Some c \<Rightarrow> if cl_active c then Inr c else Inl (NotFound ''client'')
      | None \<Rightarrow> Inl (NotFound ''client''))"

definition ACR_MFA :: string where "ACR_MFA = ''urn:ridm:acr:mfa''"
definition ACR_SINGLE :: string where "ACR_SINGLE = ''urn:ridm:acr:single''"
definition MFA_MAX_ATTEMPTS :: nat where "MFA_MAX_ATTEMPTS = 5"

definition ends_with :: "string \<Rightarrow> string \<Rightarrow> bool" where
  "ends_with s p = starts_with (rev s) (rev p)"

definition is_mfa_acr :: "string \<Rightarrow> bool" where
  "is_mfa_acr a = ends_with a '':mfa''"

definition requested_mfa_class :: "string list \<Rightarrow> string option" where
  "requested_mfa_class values =
     (case find (\<lambda>a. is_mfa_acr a \<or> a = ACR_SINGLE) values of
        Some a \<Rightarrow> if is_mfa_acr a then Some a else None
      | None \<Rightarrow> None)"

definition requested_mfa_acr :: "login_flow \<Rightarrow> string" where
  "requested_mfa_acr f = (case requested_mfa_class (aq_acr_values (lf_request f)) of Some a \<Rightarrow> a | None \<Rightarrow> ACR_MFA)"

definition attribute_filled :: "json \<Rightarrow> bool" where
  "attribute_filled v = (v \<noteq> JNull \<and> (case as_str v of None \<Rightarrow> True | Some s \<Rightarrow> trim s \<noteq> []))"

definition missing_required :: "flow_env \<Rightarrow> uuid \<Rightarrow> 'a user_scheme \<Rightarrow> attribute_rule list" where
  "missing_required env t user =
     filter (\<lambda>a. \<not> (case json_get (us_attributes user) (ar_name a) of None \<Rightarrow> False | Some v \<Rightarrow> attribute_filled v))
       (filter (\<lambda>a. ar_required a \<and> ar_editable a) (fe_schema env t))"

fun policy_asks :: "flow_env \<Rightarrow> uuid \<Rightarrow> uuid \<Rightarrow> mfa_policy \<Rightarrow> bool" where
  "policy_asks env t u MfaOff = False"
| "policy_asks env t u MfaRequired = True"
| "policy_asks env t u MfaOptional = False"
| "policy_asks env t u (MfaRequiredForRoles roles) = list_ex (\<lambda>r. r \<in> set (fe_roles env t u)) roles"
| "policy_asks env t u MfaRequiredForAdmins = fe_admin env t u"

definition policy_requires_mfa :: "flow_env \<Rightarrow> flow_tenant \<Rightarrow> uuid \<Rightarrow> factor_state \<Rightarrow> bool" where
  "policy_requires_mfa env tn u fx =
     (if se_mfa tn = MfaOff then False
      else policy_asks env (tn_id tn) u (se_mfa tn) \<or> has_second_factor (tn_id tn) u fx)"

definition mfa_required :: "flow_env \<Rightarrow> flow_tenant \<Rightarrow> login_flow \<Rightarrow> uuid \<Rightarrow> factor_state \<Rightarrow> bool" where
  "mfa_required env tn f u fx =
     (if ''mfa'' \<in> set (lf_amr f) then False
      else if requested_mfa_class (aq_acr_values (lf_request f)) \<noteq> None \<or> lf_risk_step_up f then True
      else if lf_trusted f then False
      else policy_requires_mfa env tn u fx)"

definition selectable_organizations :: "flow_env \<Rightarrow> uuid \<Rightarrow> uuid option \<Rightarrow> organization list" where
  "selectable_organizations env t u = (case u of None \<Rightarrow> [] | Some uid \<Rightarrow> filter og_active (fe_orgs env t uid))"

definition flow_bind_organization :: "moment \<Rightarrow> flow_tenant \<Rightarrow> uuid \<Rightarrow> login_flow \<Rightarrow> flow_state \<Rightarrow> login_flow \<times> flow_state" where
  "flow_bind_organization at tn oid f st =
     (case lf_session f of
        None \<Rightarrow> (f\<lparr>lf_org := Some oid\<rparr>, st)
      | Some sid \<Rightarrow>
          (case get_session (at_now at) (tn_id tn) sid (tn_session_policy tn) (fs_sessions st) of
             (None, w) \<Rightarrow> (f\<lparr>lf_org := Some oid\<rparr>, st\<lparr>fs_sessions := w\<rparr>)
           | (Some s, w) \<Rightarrow> (f\<lparr>lf_org := Some oid\<rparr>, st\<lparr>fs_sessions := snd (bind_organization (at_now at) s oid w)\<rparr>)))"

text \<open>Whether the flow must ask, with what it settled by itself.\<close>

definition organization_pending ::
  "flow_env \<Rightarrow> moment \<Rightarrow> flow_tenant \<Rightarrow> uuid \<Rightarrow> login_flow \<Rightarrow> flow_state \<Rightarrow> bool \<times> login_flow \<times> flow_state" where
  "organization_pending env at tn u f st =
     (if lf_org f \<noteq> None then (False, f, st)
      else
        (let (acts_in, st1) =
               (case lf_session f of
                  None \<Rightarrow> (None, st)
                | Some sid \<Rightarrow>
                    (case get_session (at_now at) (tn_id tn) sid (tn_session_policy tn) (fs_sessions st) of
                       (os, w) \<Rightarrow> (Option.bind os ss_org, st\<lparr>fs_sessions := w\<rparr>)))
         in case acts_in of
              Some oid \<Rightarrow> (False, f\<lparr>lf_org := Some oid\<rparr>, st1)
            | None \<Rightarrow>
                (case selectable_organizations env (tn_id tn) (Some u) of
                   [] \<Rightarrow> (False, f, st1)
                 | [only] \<Rightarrow> (False, flow_bind_organization at tn (og_id only) f st1)
                 | orgs \<Rightarrow>
                     (case Option.bind (aq_organization (lf_request f))
                             (\<lambda>requested. find (\<lambda>og. og_slug og = trim requested \<or> l_show_uuid (fe_lib env) (og_id og) = trim requested) orgs) of
                        Some og \<Rightarrow> (False, flow_bind_organization at tn (og_id og) f st1)
                      | None \<Rightarrow> (True, f, st1)))))"

text \<open>The scopes consent is still needed for.\<close>

definition consent_pending :: "uuid \<Rightarrow> uuid \<Rightarrow> uuid \<Rightarrow> login_flow \<Rightarrow> consent list \<Rightarrow> string list" where
  "consent_pending t u c f rows =
     (let force = ''consent'' \<in> set (aq_prompt (lf_request f))
      in if aq_skip_consent (lf_request f) \<and> \<not> force then []
         else if force \<and> lf_pending f = [] \<and> lf_stage f \<noteq> AtConsent then aq_scopes (lf_request f)
         else missing_scopes t u c (aq_scopes (lf_request f)) rows)"

definition advance :: "flow_env \<Rightarrow> moment \<Rightarrow> flow_tenant \<Rightarrow> bool \<Rightarrow> login_flow \<Rightarrow> flow_state \<Rightarrow> (app_error + login_flow) \<times> flow_state" where
  "advance env at tn must_change f st =
     (case (lf_user f, lf_session f) of
        (Some u, Some _) \<Rightarrow>
          (case get_user (tn_id tn) u (fs_accounts st) of
             Inl e \<Rightarrow> (Inl e, st)
           | Inr user \<Rightarrow>
               if must_change then (Inr (f\<lparr>lf_stage := AtPasswordChange\<rparr>), st)
               else if mfa_required env tn f u (fs_factors st) then (Inr (f\<lparr>lf_stage := AtMfa\<rparr>), st)
               else if missing_required env (tn_id tn) user \<noteq> [] then (Inr (f\<lparr>lf_stage := AtProfile\<rparr>), st)
               else if se_require_terms tn \<and> ac_terms_accepted_at user = None then (Inr (f\<lparr>lf_stage := AtTerms\<rparr>), st)
               else
                 (case organization_pending env at tn u f st of
                    (True, f1, st1) \<Rightarrow> (Inr (f1\<lparr>lf_stage := AtOrganization\<rparr>), st1)
                  | (False, f1, st1) \<Rightarrow>
                      (case client_of env f1 of
                         Inl e \<Rightarrow> (Inl e, st1)
                       | Inr c \<Rightarrow>
                           (let pending = consent_pending (tn_id tn) u (cl_id c) f1 (fs_consents st1)
                            in if pending \<noteq> [] \<and> lf_stage f1 \<noteq> AtDone
                               then (Inr (f1\<lparr>lf_pending := pending, lf_stage := AtConsent\<rparr>), st1)
                               else (Inr (f1\<lparr>lf_pending := [], lf_stage := AtDone\<rparr>), st1)))))
      | _ \<Rightarrow> (Inr (f\<lparr>lf_stage := AtAuthenticate\<rparr>), st))"

definition save_in :: "moment \<Rightarrow> login_flow \<Rightarrow> flow_state \<Rightarrow> flow_state" where
  "save_in at f st = st\<lparr>fs_flows := save_flow (at_now at) f (fs_flows st)\<rparr>"

definition advance_and_save :: "flow_env \<Rightarrow> moment \<Rightarrow> flow_tenant \<Rightarrow> bool \<Rightarrow> login_flow \<Rightarrow> flow_state \<Rightarrow> (app_error + login_flow) \<times> flow_state" where
  "advance_and_save env at tn must_change f st =
     andThenS (advance env at tn must_change f st) (\<lambda>f1 st1. (Inr f1, save_in at f1 st1))"

section \<open>Leaving with an error\<close>

definition DENIAL_TTL_SECS :: nat where "DENIAL_TTL_SECS = 600"

text \<open>\<open>new_id\<close> is the identifier of the one-time URL where one is needed.\<close>

definition error_redirect ::
  "flow_env \<Rightarrow> moment \<Rightarrow> uuid \<Rightarrow> flow_tenant \<Rightarrow> login_flow \<Rightarrow> string \<Rightarrow> flow_state \<Rightarrow> (app_error + string) \<times> flow_state" where
  "error_redirect env at new_id tn f description st =
     (let req = lf_request f
      in if aq_response_mode req = ModeQuery
         then (case fe_url env (aq_redirect_uri req)
                      ([(''error'', ''access_denied''), (''error_description'', description)]
                       @ (case aq_state req of None \<Rightarrow> [] | Some s \<Rightarrow> [(''state'', s)])
                       @ [(''iss'', fe_issuer env (tn_id tn))]) of
                 Some u \<Rightarrow> (Inr u, st)
               | None \<Rightarrow> (Inl (Internal ''stored redirect uri''), st))
         else (Inr (fe_issuer env (tn_id tn) @ ''/authorize/denied/'' @ l_show_uuid (fe_lib env) new_id),
               st\<lparr>fs_denials := kv_set_ex (at_now at) DENIAL_TTL_SECS (tn_id tn, new_id)
                    \<lparr>dn_client = aq_client req, dn_redirect_uri = aq_redirect_uri req, dn_response_mode = aq_response_mode req,
                     dn_description = description, dn_state = aq_state req\<rparr> (fs_denials st)\<rparr>))"

definition take_denial :: "moment \<Rightarrow> uuid \<Rightarrow> uuid \<Rightarrow> flow_state \<Rightarrow> denial option \<times> flow_state" where
  "take_denial at t i st = (case kv_getdel (at_now at) (t, i) (fs_denials st) of (d, m) \<Rightarrow> (d, st\<lparr>fs_denials := m\<rparr>))"

text \<open>\<open>saml_url\<close> is where \<open>saml_idp\<close> sends the browser of a SAML sign-in.\<close>

definition denial_redirect ::
  "flow_env \<Rightarrow> moment \<Rightarrow> uuid \<Rightarrow> (app_error + string) \<Rightarrow> flow_tenant \<Rightarrow> login_flow \<Rightarrow> string \<Rightarrow> flow_state \<Rightarrow> (app_error + string) \<times> flow_state" where
  "denial_redirect env at new_id saml_url tn f description st =
     (if aq_saml (lf_request f) then (saml_url, st) else error_redirect env at new_id tn f description st)"

definition deny_flow_device :: "moment \<Rightarrow> login_flow \<Rightarrow> flow_state \<Rightarrow> flow_state" where
  "deny_flow_device at f st =
     (case aq_device_code (lf_request f) of
        None \<Rightarrow> st
      | Some h \<Rightarrow> st\<lparr>fs_device_codes := deny_device (at_now at) (at_db at) (lf_tenant f) h (fs_device_codes st)\<rparr>)"

definition delete_in :: "login_flow \<Rightarrow> flow_state \<Rightarrow> flow_state" where
  "delete_in f st = st\<lparr>fs_flows := delete_flow (lf_tenant f) (lf_id f) (fs_flows st)\<rparr>"

definition cancel ::
  "flow_env \<Rightarrow> moment \<Rightarrow> uuid \<Rightarrow> (app_error + string) \<Rightarrow> flow_tenant \<Rightarrow> login_flow \<Rightarrow> flow_state \<Rightarrow> (app_error + string) \<times> flow_state" where
  "cancel env at new_id saml_url tn f st =
     denial_redirect env at new_id saml_url tn f ''the user denied the request'' (delete_in f (deny_flow_device at f st))"

section \<open>The first factor\<close>

definition captcha_required :: "flow_env \<Rightarrow> flow_tenant \<Rightarrow> login_flow \<Rightarrow> bool" where
  "captcha_required env tn f =
     (((0 < se_captcha_after_failures tn \<and> se_captcha_after_failures tn \<le> lf_attempts f)
       \<or> (se_captcha_on_registration tn \<and> lf_stage f = AtRegister))
      \<and> fe_captcha_key env \<noteq> None)"

definition captcha_problem :: "string \<Rightarrow> app_error" where
  "captcha_problem m = Validation [\<lparr>fe_field = ''captcha_token'', fe_message = m\<rparr>]"

definition enforce_captcha :: "flow_env \<Rightarrow> flow_tenant \<Rightarrow> login_flow \<Rightarrow> string option \<Rightarrow> string option \<Rightarrow> app_error + unit" where
  "enforce_captcha env tn f token ip =
     (if \<not> captcha_required env tn f then Inr ()
      else case token of
             None \<Rightarrow> Inl (captcha_problem ''captcha_required'')
           | Some tok \<Rightarrow>
               if tok = [] then Inl (captcha_problem ''captcha_required'')
               else case fe_captcha_verify env tok ip of
                      Inl e \<Rightarrow> Inl (Unavailable (''captcha verification failed: '' @ e))
                    | Inr success \<Rightarrow> ensure success (captcha_problem ''captcha_failed''))"

record request_context =
  rx_ip :: "string option"
  rx_user_agent :: "string option"
  rx_existing :: "sso_session option"
  rx_device_secret :: "string option"
  rx_remember :: bool
  rx_location :: "location option"

record assessment =
  as_trusted :: "trusted_device option"
  as_new_browser :: bool
  as_risk :: risk_assessment

definition is_new_browser :: "uuid \<Rightarrow> uuid \<Rightarrow> string option \<Rightarrow> auth_state \<Rightarrow> bool" where
  "is_new_browser t u ua w =
     (case ua of
        None \<Rightarrow> False
      | Some a \<Rightarrow>
          (let mine = filter (\<lambda>r. ss_tenant (sr_session r) = t \<and> ss_user (sr_session r) = u \<and> ss_id (sr_session r) \<noteq> 0) (sess_rows w)
           in mine \<noteq> [] \<and> \<not> list_ex (\<lambda>r. ss_user_agent (sr_session r) = Some a) mine))"

definition assess ::
  "flow_env \<Rightarrow> moment \<Rightarrow> flow_tenant \<Rightarrow> uuid \<Rightarrow> request_context \<Rightarrow> nat option \<Rightarrow> flow_state \<Rightarrow> assessment \<times> flow_state" where
  "assess env at tn u ctx ip_failures st =
     (let (trusted, devices) =
            (case rx_device_secret ctx of
               Some secret \<Rightarrow> verify_device (fe_lib env) (at_now at) (at_db at) (tn_id tn) u secret (rx_ip ctx) (fs_devices st)
             | None \<Rightarrow> (None, fs_devices st));
          new_browser = (trusted = None \<and> is_new_browser (tn_id tn) u (rx_user_agent ctx) (fs_sessions st))
      in (\<lparr>as_trusted = trusted, as_new_browser = new_browser,
           as_risk = evaluate (fe_travel env) (se_risk tn) (at_now at) (tn_id tn) u
             \<lparr>ri_ip = rx_ip ctx, ri_location = rx_location ctx, ri_new_device = new_browser, ri_ip_failures = ip_failures\<rparr>
             (fs_attempts st) (fs_locations st)\<rparr>,
          st\<lparr>fs_devices := devices\<rparr>))"

datatype auth_step = Authenticated sso_session login_flow | Rejected login_flow bool | Blocked string

definition attempt_in :: "moment \<Rightarrow> uuid \<Rightarrow> string \<Rightarrow> string option \<Rightarrow> bool \<Rightarrow> string option \<Rightarrow> flow_state \<Rightarrow> flow_state" where
  "attempt_in at t ident ip ok reason st = st\<lparr>fs_attempts := record_attempt (at_db at) t ident ip ok reason (fs_attempts st)\<rparr>"

definition refuse ::
  "flow_env \<Rightarrow> moment \<Rightarrow> uuid \<Rightarrow> (app_error + string) \<Rightarrow> flow_tenant \<Rightarrow> login_flow \<Rightarrow> 'a user_scheme \<Rightarrow> request_context \<Rightarrow> flow_state
     \<Rightarrow> (app_error + auth_step) \<times> flow_state" where
  "refuse env at new_id saml_url tn f user ctx st =
     (let st1 = attempt_in at (tn_id tn) (us_username user) (rx_ip ctx) False (Some ''risk_blocked'') st
      in andThenS (denial_redirect env at new_id saml_url tn f ''the sign-in was refused'' (delete_in f (deny_flow_device at f st1)))
           (\<lambda>u st2. (Inr (Blocked u), st2)))"

text \<open>\<open>new_sid\<close> is the identifier of the session that may be opened.\<close>

definition open_session ::
  "flow_env \<Rightarrow> moment \<Rightarrow> uuid \<Rightarrow> flow_tenant \<Rightarrow> login_flow \<Rightarrow> uuid \<Rightarrow> string list \<Rightarrow> request_context \<Rightarrow> assessment \<Rightarrow> flow_state
     \<Rightarrow> (sso_session \<times> login_flow) \<times> flow_state" where
  "open_session env at new_sid tn f u amr ctx a st =
     (let acr = Some (if ''mfa'' \<in> set amr then requested_mfa_acr f else ACR_SINGLE);
          (session, w) =
            (case rx_existing ctx of
               Some s \<Rightarrow>
                 if ss_user s = u then refresh_auth (at_now at) s amr acr (fs_sessions st)
                 else create_session None (fe_rp env) (fe_iss_sid env) (at_now at) (at_db at) new_sid (tn_session_policy tn) (tn_id tn)
                        \<lparr>ns_user = u, ns_amr = amr, ns_acr = acr, ns_ip = rx_ip ctx, ns_user_agent = rx_user_agent ctx,
                         ns_device = map_option td_id (as_trusted a), ns_policy = tn_session_policy tn\<rparr> (fs_sessions st)
             | None \<Rightarrow>
                 create_session None (fe_rp env) (fe_iss_sid env) (at_now at) (at_db at) new_sid (tn_session_policy tn) (tn_id tn)
                        \<lparr>ns_user = u, ns_amr = amr, ns_acr = acr, ns_ip = rx_ip ctx, ns_user_agent = rx_user_agent ctx,
                         ns_device = map_option td_id (as_trusted a), ns_policy = tn_session_policy tn\<rparr> (fs_sessions st));
          (session1, w1) =
            (case as_trusted a of
               Some d \<Rightarrow> if ss_device session \<noteq> Some (td_id d) then bind_device (at_now at) session (td_id d) w else (session, w)
             | None \<Rightarrow> (session, w))
      in ((session1,
           f\<lparr>lf_user := Some u, lf_session := Some (ss_id session1), lf_amr := amr, lf_trusted := (as_trusted a \<noteq> None),
             lf_risk_step_up := steps_up (as_risk a), lf_remember := (rx_remember ctx \<and> as_trusted a = None)\<rparr>),
          st\<lparr>fs_sessions := w1, fs_locations := record_location (se_risk tn) (at_db at) (tn_id tn) u (rx_location ctx) (fs_locations st)\<rparr>))"

text \<open>The tail of every sign-in once the factor is accepted and scored.\<close>

definition sign_in_as ::
  "flow_env \<Rightarrow> moment \<Rightarrow> uuid \<Rightarrow> flow_tenant \<Rightarrow> string \<Rightarrow> login_flow \<Rightarrow> uuid \<Rightarrow> string list \<Rightarrow> request_context \<Rightarrow> bool \<Rightarrow> assessment \<Rightarrow> flow_state
     \<Rightarrow> (app_error + auth_step) \<times> flow_state" where
  "sign_in_as env at new_sid tn ident f u amr ctx must_change a st =
     (let st1 = attempt_in at (tn_id tn) ident (rx_ip ctx) True None
                  (st\<lparr>fs_accounts := record_login_success (at_db at) (tn_id tn) u (fs_accounts st)\<rparr>);
          ((session, f1), st2) = open_session env at new_sid tn f u amr ctx a st1
      in andThenS (advance_and_save env at tn must_change f1 st2) (\<lambda>f2 st3. (Inr (Authenticated session f2), st3)))"

definition complete_authentication ::
  "flow_env \<Rightarrow> moment \<Rightarrow> uuid \<Rightarrow> uuid \<Rightarrow> (app_error + string) \<Rightarrow> flow_tenant \<Rightarrow> login_flow \<Rightarrow> 'a user_scheme \<Rightarrow> string list \<Rightarrow> request_context \<Rightarrow> bool
     \<Rightarrow> flow_state \<Rightarrow> (app_error + auth_step) \<times> flow_state" where
  "complete_authentication env at new_sid new_id saml_url tn f user amr ctx must_change st =
     (case assess env at tn (us_id user) ctx None st of
        (a, st1) \<Rightarrow>
          if is_blocked (as_risk a) then refuse env at new_id saml_url tn f user ctx st1
          else sign_in_as env at new_sid tn (us_username user) f (us_id user) amr ctx must_change a st1)"

section \<open>The password step\<close>

record password_attempt =
  pa_identifier :: string
  pa_password :: string
  pa_captcha :: "string option"
  pa_context :: request_context

text \<open>
  The failures from the address: the throttle, and the count the risk policy is given. Both
  windows are read at once.
\<close>

definition ip_failures ::
  "moment \<Rightarrow> flow_tenant \<Rightarrow> string option \<Rightarrow> attempt list \<Rightarrow> app_error + nat option" where
  "ip_failures at tn ip rows =
     (let lk = se_lockout tn; rk = se_risk tn;
          velocity = (rk_enabled rk \<and> 0 < rk_velocity_max_failures rk)
      in case ip of
           None \<Rightarrow> Inr None
         | Some a \<Rightarrow>
             if 0 < lk_ip_max_failures lk \<or> velocity
             then (case failures_from_ip_since (tn_id tn) a
                          (at_now at - minutes (max (lk_ip_window_minutes lk) 1), velocity_since (at_now at) (rk_velocity_window_minutes rk)) rows of
                     (throttled, recent) \<Rightarrow>
                       if 0 < lk_ip_max_failures lk \<and> lk_ip_max_failures lk \<le> throttled
                       then Inl (RateLimited (lk_ip_window_minutes lk * 60))
                       else Inr (if velocity then Some recent else None))
             else Inr None)"

definition find_by_ident :: "uuid \<Rightarrow> string \<Rightarrow> pw_state \<Rightarrow> account option" where
  "find_by_ident t ident st =
     find (\<lambda>a. us_tenant a = t \<and> (us_username a = ident \<or> us_email a = Some ident) \<and> us_deleted_at a = None) (pw_users st)"

text \<open>
  What the directories answer: \<open>dk_unknown\<close> is \<open>ldap::sign_in_unknown\<close>, an imported account with
  the accounts after the import; \<open>dk_verify\<close> is \<open>ldap::verify_password\<close>.
\<close>

record directory_answer =
  dk_unknown :: "app_error + (account \<times> pw_state) option"
  dk_verify :: "app_error + bool option"

text \<open>The verdict: whether the password must be changed, or why it was refused.\<close>

definition verdict ::
  "flow_env \<Rightarrow> moment \<Rightarrow> string \<Rightarrow> directory_answer \<Rightarrow> flow_tenant \<Rightarrow> string \<Rightarrow> (account \<times> bool) option \<Rightarrow> pw_state
     \<Rightarrow> (app_error + (string + bool)) \<times> pw_state" where
  "verdict env at salt dk tn pw found st =
     (case found of
        None \<Rightarrow> (Inr (Inl ''invalid_credentials''), st)
      | Some (u, by_directory) \<Rightarrow>
          if us_status u = UserDisabled then (Inr (Inl ''disabled''), st)
          else if is_locked_now (at_now at) (user.truncate u) then (Inr (Inl ''locked''), st)
          else if by_directory then (Inr (Inr (ac_must_change u)), st)
          else case verify_and_upgrade (fe_pw env) (dk_verify dk) (at_now at) (at_db at) salt (tn_id tn) (se_password tn) u pw st of
                 (Inl e, st1) \<Rightarrow> (Inl e, st1)
               | (Inr (VValid must), st1) \<Rightarrow> (Inr (Inr must), st1)
               | (Inr VInvalid, st1) \<Rightarrow> (Inr (Inl ''invalid_credentials''), st1))"

definition as_i32 :: "nat \<Rightarrow> int" where
  "as_i32 n = (let k = n mod 2 ^ 32 in if k < 2 ^ 31 then int k else int k - 2 ^ 32)"

text \<open>A refused password: the attempt, the user's failures, the flow's.\<close>

definition reject_password ::
  "moment \<Rightarrow> flow_tenant \<Rightarrow> login_flow \<Rightarrow> string \<Rightarrow> string option \<Rightarrow> account option \<Rightarrow> string \<Rightarrow> flow_state \<Rightarrow> auth_step \<times> flow_state" where
  "reject_password at tn f ident ip found reason st =
     (let st1 = attempt_in at (tn_id tn) ident ip False (Some reason) st;
          lk = se_lockout tn;
          (locked, st2) =
            (case found of
               Some u \<Rightarrow>
                 if reason = ''invalid_credentials'' \<and> 0 < lk_max_failures lk
                 then (case record_login_failure (at_db at) (tn_id tn) (us_id u) (as_i32 (lk_max_failures lk)) (int (lk_lock_minutes lk) * 60)
                              (fs_accounts st1) of
                         (failures, accounts) \<Rightarrow> (as_i32 (lk_max_failures lk) \<le> failures, st1\<lparr>fs_accounts := accounts\<rparr>))
                 else (False, st1)
             | None \<Rightarrow> (False, st1));
          f1 = f\<lparr>lf_attempts := lf_attempts f + 1\<rparr>
      in (Rejected f1 (locked \<or> reason = ''locked''), save_in at f1 st2))"

text \<open>The user of the identifier: a local account, or one a directory imports.\<close>

definition password_user ::
  "directory_answer \<Rightarrow> uuid \<Rightarrow> string \<Rightarrow> pw_state \<Rightarrow> app_error + (account \<times> bool) option \<times> pw_state" where
  "password_user dk t ident st =
     (case find_by_ident t ident st of
        Some u \<Rightarrow> Inr (Some (u, False), st)
      | None \<Rightarrow>
          (case dk_unknown dk of
             Inl e \<Rightarrow> Inl e
           | Inr None \<Rightarrow> Inr (None, st)
           | Inr (Some (u, st1)) \<Rightarrow> Inr (Some (u, True), st1)))"

definition password_checks :: "flow_env \<Rightarrow> flow_tenant \<Rightarrow> login_flow \<Rightarrow> string \<Rightarrow> password_attempt \<Rightarrow> app_error + unit" where
  "password_checks env tn f ident pa =
     andThen (ensure (lf_stage f = AtAuthenticate) (BadRequest ''flow is not at the authenticate step'')) (\<lambda>_.
     andThen (ensure (se_auth_password tn) (BadRequest ''password login is disabled for this tenant'')) (\<lambda>_.
     andThen (ensure (ident \<noteq> [] \<and> pa_password pa \<noteq> [])
        (Validation [\<lparr>fe_field = ''identifier'', fe_message = ''identifier and password are required''\<rparr>])) (\<lambda>_.
       enforce_captcha env tn f (pa_captcha pa) (rx_ip (pa_context pa)))))"

definition password_step ::
  "flow_env \<Rightarrow> moment \<Rightarrow> string \<Rightarrow> directory_answer \<Rightarrow> uuid \<Rightarrow> uuid \<Rightarrow> (app_error + string) \<Rightarrow> flow_tenant \<Rightarrow> login_flow \<Rightarrow> password_attempt
     \<Rightarrow> flow_state \<Rightarrow> (app_error + auth_step) \<times> flow_state" where
  "password_step env at salt dk new_sid new_id saml_url tn f pa st =
     (let ident = to_lowercase (pe_lib (fe_pw env)) (trim (pa_identifier pa)); ctx = pa_context pa
      in case andThen (password_checks env tn f ident pa) (\<lambda>_. ip_failures at tn (rx_ip ctx) (fs_attempts st)) of
           Inl e \<Rightarrow> (Inl e, st)
         | Inr counted \<Rightarrow>
             (case password_user dk (tn_id tn) ident (fs_accounts st) of
                Inl e \<Rightarrow> (Inl e, st)
              | Inr (found, accounts) \<Rightarrow>
                  (case verdict env at salt dk tn (pa_password pa) found accounts of
                     (Inl e, accounts1) \<Rightarrow> (Inl e, st\<lparr>fs_accounts := accounts1\<rparr>)
                   | (Inr (Inl reason), accounts1) \<Rightarrow>
                       (case reject_password at tn f ident (rx_ip ctx) (map_option fst found) reason (st\<lparr>fs_accounts := accounts1\<rparr>) of
                          (r, st1) \<Rightarrow> (Inr r, st1))
                   | (Inr (Inr must), accounts1) \<Rightarrow>
                       (case found of
                          None \<Rightarrow> (Inl (Internal ''password accepted without a user''), st\<lparr>fs_accounts := accounts1\<rparr>)
                        | Some (user, _) \<Rightarrow>
                            (case assess env at tn (us_id user) ctx counted (st\<lparr>fs_accounts := accounts1\<rparr>) of
                               (a, st1) \<Rightarrow>
                                 if is_blocked (as_risk a) then refuse env at new_id saml_url tn f user ctx st1
                                 else sign_in_as env at new_sid tn ident f (us_id user) [''pwd''] ctx must a st1)))))"

section \<open>Other first factors\<close>

text \<open>
  A rejected passkey, link or one-time code: the failure counts on the flow. \<open>verified\<close> is the
  answer of the passkey or passwordless service, with the user it names.
\<close>

definition reject_factor :: "moment \<Rightarrow> login_flow \<Rightarrow> flow_state \<Rightarrow> auth_step \<times> flow_state" where
  "reject_factor at f st = (let f1 = f\<lparr>lf_attempts := lf_attempts f + 1\<rparr> in (Rejected f1 False, save_in at f1 st))"

definition active_user :: "uuid \<Rightarrow> uuid \<Rightarrow> pw_state \<Rightarrow> app_error + account" where
  "active_user t u st =
     andThen (get_user t u st) (\<lambda>a.
       if us_status a \<noteq> UserActive \<and> us_status a \<noteq> UserPending then Inl (Forbidden ''account is not active'') else Inr a)"

definition passkey_finish ::
  "flow_env \<Rightarrow> moment \<Rightarrow> uuid \<Rightarrow> uuid \<Rightarrow> (app_error + string) \<Rightarrow> (app_error + (uuid \<times> bool) option) \<Rightarrow> flow_tenant \<Rightarrow> login_flow \<Rightarrow> request_context
     \<Rightarrow> flow_state \<Rightarrow> (app_error + auth_step) \<times> flow_state" where
  "passkey_finish env at new_sid new_id saml_url verified tn f ctx st =
     (if lf_stage f \<noteq> AtAuthenticate then (Inl (BadRequest ''flow is not at the authenticate step''), st)
      else if \<not> se_auth_passkey tn then (Inl (BadRequest ''passkeys are disabled for this tenant''), st)
      else case verified of
             Inl e \<Rightarrow> (Inl e, st)
           | Inr None \<Rightarrow> (case reject_factor at f st of (r, st1) \<Rightarrow> (Inr r, st1))
           | Inr (Some (u, user_verified)) \<Rightarrow>
               (case active_user (tn_id tn) u (fs_accounts st) of
                  Inl e \<Rightarrow> (Inl e, st)
                | Inr user \<Rightarrow>
                    complete_authentication env at new_sid new_id saml_url tn f user
                      (''hwk'' # (if user_verified then [''user'', ''mfa''] else [])) ctx
                      (ac_must_change user \<and> se_auth_password tn) st))"

datatype passwordless_method = MagicLink | EmailOtp | SmsOtp

fun passwordless_amr :: "passwordless_method \<Rightarrow> string list" where
  "passwordless_amr SmsOtp = [''otp'', ''sms'']"
| "passwordless_amr _ = [''otp'']"

text \<open>\<open>contact_marked\<close> is what \<open>passwordless::mark_contact_verified\<close> leaves of the accounts.\<close>

definition passwordless_verify_step ::
  "flow_env \<Rightarrow> moment \<Rightarrow> uuid \<Rightarrow> uuid \<Rightarrow> (app_error + string) \<Rightarrow> (app_error + uuid option) \<Rightarrow> (app_error + pw_state) \<Rightarrow> flow_tenant \<Rightarrow> login_flow
     \<Rightarrow> passwordless_method \<Rightarrow> request_context \<Rightarrow> flow_state \<Rightarrow> (app_error + auth_step) \<times> flow_state" where
  "passwordless_verify_step env at new_sid new_id saml_url verified contact_marked tn f m ctx st =
     (if lf_stage f \<noteq> AtAuthenticate then (Inl (BadRequest ''flow is not at the authenticate step''), st)
      else case verified of
             Inl e \<Rightarrow> (Inl e, st)
           | Inr None \<Rightarrow> (case reject_factor at f st of (r, st1) \<Rightarrow> (Inr r, st1))
           | Inr (Some u) \<Rightarrow>
               (case active_user (tn_id tn) u (fs_accounts st) of
                  Inl e \<Rightarrow> (Inl e, st)
                | Inr user \<Rightarrow>
                    (case contact_marked of
                       Inl e \<Rightarrow> (Inl e, st)
                     | Inr accounts \<Rightarrow>
                         complete_authentication env at new_sid new_id saml_url tn f user (passwordless_amr m) ctx
                           (ac_must_change user \<and> se_auth_password tn) (st\<lparr>fs_accounts := accounts\<rparr>))))"

text \<open>\<open>registered\<close> is the answer of \<open>registration::register\<close>: the user, whether their address waits to be
  verified, and the accounts.\<close>

definition register_step ::
  "flow_env \<Rightarrow> moment \<Rightarrow> uuid \<Rightarrow> uuid \<Rightarrow> (app_error + string) \<Rightarrow> (app_error + account \<times> bool \<times> pw_state) \<Rightarrow> flow_tenant \<Rightarrow> login_flow
     \<Rightarrow> string option \<Rightarrow> request_context \<Rightarrow> flow_state \<Rightarrow> (app_error + auth_step) \<times> flow_state" where
  "register_step env at new_sid new_id saml_url registered tn f captcha ctx st =
     (if lf_stage f \<noteq> AtAuthenticate \<and> lf_stage f \<noteq> AtRegister
      then (Inl (BadRequest ''flow does not accept registration at this step''), st)
      else case (if se_captcha_on_registration tn then enforce_captcha env tn (f\<lparr>lf_stage := AtRegister\<rparr>) captcha (rx_ip ctx) else Inr ()) of
             Inl e \<Rightarrow> (Inl e, st)
           | Inr _ \<Rightarrow>
               (case registered of
                  Inl e \<Rightarrow> (Inl e, st)
                | Inr (user, pending, accounts) \<Rightarrow>
                    (let st1 = st\<lparr>fs_accounts := accounts\<rparr>
                     in if pending
                        then (let f1 = f\<lparr>lf_user := Some (us_id user), lf_stage := AtVerifyEmail\<rparr> in (Inr (Rejected f1 False), save_in at f1 st1))
                        else complete_authentication env at new_sid new_id saml_url tn f user [''pwd''] ctx False st1)))"

definition resume_after_verification ::
  "flow_env \<Rightarrow> moment \<Rightarrow> uuid \<Rightarrow> uuid \<Rightarrow> (app_error + string) \<Rightarrow> flow_tenant \<Rightarrow> uuid \<Rightarrow> account \<Rightarrow> request_context \<Rightarrow> flow_state
     \<Rightarrow> (app_error + auth_step option) \<times> flow_state" where
  "resume_after_verification env at new_sid new_id saml_url tn flow_id user ctx st =
     (case get_flow (at_now at) (tn_id tn) flow_id (fs_flows st) of
        None \<Rightarrow> (Inr None, st)
      | Some f \<Rightarrow>
          if lf_stage f \<noteq> AtVerifyEmail \<or> lf_user f \<noteq> Some (us_id user) then (Inr None, st)
          else andThenS (complete_authentication env at new_sid new_id saml_url tn f user [''otp''] ctx False st) (\<lambda>r st1. (Inr (Some r), st1)))"

section \<open>The steps after sign-in\<close>

definition flow_user :: "login_flow \<Rightarrow> app_error + uuid" where
  "flow_user f = or_error (lf_user f) Unauthorized"

definition by_user_options :: set_options where
  "by_user_options = \<lparr>so_must_change = False, so_skip_policy = False, so_by_user = True, so_notify = True\<rparr>"

definition password_change_step ::
  "flow_env \<Rightarrow> moment \<Rightarrow> string \<Rightarrow> uuid \<Rightarrow> (app_error + bool) \<Rightarrow> flow_tenant \<Rightarrow> login_flow \<Rightarrow> string \<Rightarrow> flow_state \<Rightarrow> (app_error + login_flow) \<times> flow_state" where
  "password_change_step env at salt row_id ldap_set tn f new_password st =
     (if lf_stage f \<noteq> AtPasswordChange then (Inl (BadRequest ''flow is not at the password change step''), st)
      else case flow_user f of
             Inl e \<Rightarrow> (Inl e, st)
           | Inr u \<Rightarrow>
               (case set_password (fe_pw env) ldap_set (at_now at) (at_db at) salt row_id (tn_id tn) (se_password tn) u new_password
                       by_user_options (fs_accounts st) of
                  (Inl e, accounts) \<Rightarrow> (Inl e, st\<lparr>fs_accounts := accounts\<rparr>)
                | (Inr _, accounts) \<Rightarrow> advance_and_save env at tn False f (st\<lparr>fs_accounts := accounts\<rparr>)))"

text \<open>\<open>updated\<close> is what \<open>users::update\<close> leaves of the accounts.\<close>

definition profile_step ::
  "flow_env \<Rightarrow> moment \<Rightarrow> (app_error + pw_state) \<Rightarrow> flow_tenant \<Rightarrow> login_flow \<Rightarrow> flow_state \<Rightarrow> (app_error + login_flow) \<times> flow_state" where
  "profile_step env at updated tn f st =
     (if lf_stage f \<noteq> AtProfile then (Inl (BadRequest ''flow is not at the profile step''), st)
      else case andThen (flow_user f) (\<lambda>_. updated) of
             Inl e \<Rightarrow> (Inl e, st)
           | Inr accounts \<Rightarrow> advance_and_save env at tn False f (st\<lparr>fs_accounts := accounts\<rparr>))"

definition terms_step ::
  "flow_env \<Rightarrow> moment \<Rightarrow> flow_tenant \<Rightarrow> login_flow \<Rightarrow> bool \<Rightarrow> flow_state \<Rightarrow> (app_error + login_flow) \<times> flow_state" where
  "terms_step env at tn f accepted st =
     (if lf_stage f \<noteq> AtTerms then (Inl (BadRequest ''flow is not at the terms step''), st)
      else if \<not> accepted then (Inl (Forbidden ''terms must be accepted to continue''), st)
      else case flow_user f of
             Inl e \<Rightarrow> (Inl e, st)
           | Inr u \<Rightarrow> advance_and_save env at tn False f (st\<lparr>fs_accounts := set_terms_accepted (at_db at) (tn_id tn) u (fs_accounts st)\<rparr>))"

definition organization_step ::
  "flow_env \<Rightarrow> moment \<Rightarrow> flow_tenant \<Rightarrow> login_flow \<Rightarrow> uuid \<Rightarrow> flow_state \<Rightarrow> (app_error + login_flow) \<times> flow_state" where
  "organization_step env at tn f org st =
     (if lf_stage f \<noteq> AtOrganization then (Inl (BadRequest ''flow is not at the organization step''), st)
      else case flow_user f of
             Inl e \<Rightarrow> (Inl e, st)
           | Inr u \<Rightarrow>
               if \<not> list_ex (\<lambda>og. og_id og = org) (selectable_organizations env (tn_id tn) (Some u))
               then (Inl (BadRequest ''not a member of that organization''), st)
               else (case flow_bind_organization at tn org f st of (f1, st1) \<Rightarrow> advance_and_save env at tn False f1 st1))"

datatype consent_outcome = Granted login_flow | DeniedTo string

text \<open>\<open>Vec::dedup\<close>: adjacent repetitions go.\<close>

definition effective_scopes :: "login_flow \<Rightarrow> string list option \<Rightarrow> string list" where
  "effective_scopes f granted =
     (let g = (case granted of None \<Rightarrow> lf_pending f | Some xs \<Rightarrow> xs)
      in remdups_adj (filter (\<lambda>s. s = ''openid'' \<or> s \<in> set g \<or> s \<notin> set (lf_pending f)) (aq_scopes (lf_request f))))"

definition consent_step ::
  "flow_env \<Rightarrow> moment \<Rightarrow> uuid \<Rightarrow> (app_error + string) \<Rightarrow> flow_tenant \<Rightarrow> login_flow \<Rightarrow> bool \<Rightarrow> string list option \<Rightarrow> flow_state
     \<Rightarrow> (app_error + consent_outcome) \<times> flow_state" where
  "consent_step env at new_id saml_url tn f approve granted st =
     (if lf_stage f \<noteq> AtConsent then (Inl (BadRequest ''flow is not at the consent step''), st)
      else case flow_user f of
             Inl e \<Rightarrow> (Inl e, st)
           | Inr u \<Rightarrow>
               if \<not> approve
               then andThenS (denial_redirect env at new_id saml_url tn f ''the user denied the request'' (deny_flow_device at f st))
                      (\<lambda>url st1. (Inr (DeniedTo url), st1))
               else
                 (let (session, w) = (case lf_session f of
                        None \<Rightarrow> (None, fs_sessions st)
                      | Some sid \<Rightarrow> get_session (at_now at) (tn_id tn) sid (tn_session_policy tn) (fs_sessions st));
                      st1 = st\<lparr>fs_sessions := w\<rparr>
                  in if (case session of None \<Rightarrow> False | Some s \<Rightarrow> ss_impersonator s \<noteq> None) then (Inl ImpersonationForbidden, st1)
                     else case client_of env f of
                            Inl e \<Rightarrow> (Inl e, st1)
                          | Inr c \<Rightarrow>
                              (let scopes = effective_scopes f granted;
                                   st2 = st1\<lparr>fs_consents := grant_consent (at_db at) (tn_id tn) u (cl_id c) scopes (fs_consents st1)\<rparr>;
                                   f1 = f\<lparr>lf_request := (lf_request f)\<lparr>aq_scopes := scopes\<rparr>, lf_pending := [], lf_stage := AtDone\<rparr>
                               in andThenS (advance_and_save env at tn False f1 st2) (\<lambda>f2 st3. (Inr (Granted f2), st3)))))"

section \<open>The second factor\<close>

datatype mfa_step = MfaPassed login_flow "string list option" | MfaRejected login_flow

definition mfa_user :: "flow_tenant \<Rightarrow> login_flow \<Rightarrow> pw_state \<Rightarrow> app_error + account" where
  "mfa_user tn f st =
     (if lf_stage f \<noteq> AtMfa then Inl (BadRequest ''flow is not at the second-factor step'')
      else andThen (flow_user f) (\<lambda>u. active_user (tn_id tn) u st))"

definition mfa_reject :: "moment \<Rightarrow> flow_tenant \<Rightarrow> login_flow \<Rightarrow> flow_state \<Rightarrow> mfa_step \<times> flow_state" where
  "mfa_reject at tn f st =
     (let f1 = f\<lparr>lf_attempts := lf_attempts f + 1\<rparr>
      in (MfaRejected f1,
          if MFA_MAX_ATTEMPTS \<le> lf_attempts f1
          then st\<lparr>fs_flows := delete_flow (tn_id tn) (lf_id f1) (fs_flows st)\<rparr>
          else save_in at f1 st))"

definition pass_second_factor ::
  "flow_env \<Rightarrow> moment \<Rightarrow> flow_tenant \<Rightarrow> login_flow \<Rightarrow> uuid \<Rightarrow> string list \<Rightarrow> bool \<Rightarrow> flow_state \<Rightarrow> (app_error + login_flow) \<times> flow_state" where
  "pass_second_factor env at tn f u methods remember st =
     (case lf_session f of
        None \<Rightarrow> (Inl Unauthorized, st)
      | Some sid \<Rightarrow>
          (case get_session (at_now at) (tn_id tn) sid (tn_session_policy tn) (fs_sessions st) of
             (None, w) \<Rightarrow> (Inl Unauthorized, st\<lparr>fs_sessions := w\<rparr>)
           | (Some s, w) \<Rightarrow>
               if ss_user s \<noteq> u then (Inl Unauthorized, st\<lparr>fs_sessions := w\<rparr>)
               else
                 (let amr = push_all_new (methods @ [''mfa'']) (lf_amr f)
                  in advance_and_save env at tn False
                       (f\<lparr>lf_amr := amr, lf_remember := ((lf_remember f \<or> remember) \<and> \<not> lf_trusted f), lf_attempts := 0\<rparr>)
                       (st\<lparr>fs_sessions := snd (refresh_auth (at_now at) s amr (Some (requested_mfa_acr f)) w)\<rparr>))))"

definition mfa_passed ::
  "flow_env \<Rightarrow> moment \<Rightarrow> flow_tenant \<Rightarrow> login_flow \<Rightarrow> uuid \<Rightarrow> string list \<Rightarrow> bool \<Rightarrow> string list option \<Rightarrow> flow_state
     \<Rightarrow> (app_error + mfa_step) \<times> flow_state" where
  "mfa_passed env at tn f u methods remember codes st =
     andThenS (pass_second_factor env at tn f u methods remember st) (\<lambda>f1 st1. (Inr (MfaPassed f1 codes), st1))"

definition mfa_rejected :: "moment \<Rightarrow> flow_tenant \<Rightarrow> login_flow \<Rightarrow> flow_state \<Rightarrow> (app_error + mfa_step) \<times> flow_state" where
  "mfa_rejected at tn f st = (case mfa_reject at tn f st of (r, st1) \<Rightarrow> (Inr r, st1))"

definition mfa_enrol_begin ::
  "moment \<Rightarrow> string \<Rightarrow> flow_tenant \<Rightarrow> login_flow \<Rightarrow> flow_state \<Rightarrow> (app_error + enrolment) \<times> flow_state" where
  "mfa_enrol_begin at random tn f st =
     (case mfa_user tn f (fs_accounts st) of
        Inl e \<Rightarrow> (Inl e, st)
      | Inr user \<Rightarrow>
          if \<not> se_mfa_totp tn then (Inl (BadRequest ''authenticator apps are disabled for this tenant''), st)
          else if fa_totp (factors_of (tn_id tn) (us_id user) (fs_factors st))
          then (Inl (BadRequest ''an authenticator app is already enrolled''), st)
          else (case begin_enrolment (at_now at) random (tenant.truncate tn) (lf_id f) (user.truncate user) (fs_factors st) of
                  (r, fx) \<Rightarrow> (r, st\<lparr>fs_factors := fx\<rparr>)))"

definition mfa_enrol_confirm ::
  "flow_env \<Rightarrow> moment \<Rightarrow> uuid \<times> uuid \<Rightarrow> string list \<Rightarrow> flow_tenant \<Rightarrow> login_flow \<Rightarrow> string \<Rightarrow> string option \<Rightarrow> bool \<Rightarrow> flow_state
     \<Rightarrow> (app_error + mfa_step) \<times> flow_state" where
  "mfa_enrol_confirm env at ids codes tn f code label remember st =
     (case mfa_user tn f (fs_accounts st) of
        Inl e \<Rightarrow> (Inl e, st)
      | Inr user \<Rightarrow>
          (case confirm_enrolment (fe_factor env) (at_now at) (at_db at) ids codes (tenant.truncate tn) (lf_id f) (user.truncate user) code label
                  (fs_factors st) of
             (Inl e, fx) \<Rightarrow> (Inl e, st\<lparr>fs_factors := fx\<rparr>)
           | (Inr (Some cs), fx) \<Rightarrow> mfa_passed env at tn f (us_id user) [''otp''] remember (Some cs) (st\<lparr>fs_factors := fx\<rparr>)
           | (Inr None, fx) \<Rightarrow> mfa_rejected at tn f (st\<lparr>fs_factors := fx\<rparr>)))"

definition mfa_verify_step ::
  "flow_env \<Rightarrow> moment \<Rightarrow> flow_tenant \<Rightarrow> login_flow \<Rightarrow> string \<Rightarrow> bool \<Rightarrow> flow_state \<Rightarrow> (app_error + mfa_step) \<times> flow_state" where
  "mfa_verify_step env at tn f code remember st =
     (case mfa_user tn f (fs_accounts st) of
        Inl e \<Rightarrow> (Inl e, st)
      | Inr user \<Rightarrow>
          (case verify_factor (fe_factor env) (at_now at) (at_db at) (tn_id tn) (us_id user) code (fs_factors st) of
             (Inl e, fx) \<Rightarrow> (Inl e, st\<lparr>fs_factors := fx\<rparr>)
           | (Inr (Some (VerifiedTotp _)), fx) \<Rightarrow> mfa_passed env at tn f (us_id user) [''otp''] remember None (st\<lparr>fs_factors := fx\<rparr>)
           | (Inr (Some (VerifiedRecovery _)), fx) \<Rightarrow> mfa_passed env at tn f (us_id user) [] remember None (st\<lparr>fs_factors := fx\<rparr>)
           | (Inr None, fx) \<Rightarrow> mfa_rejected at tn f (st\<lparr>fs_factors := fx\<rparr>)))"

text \<open>A first second factor of another kind comes with recovery codes.\<close>

definition first_recovery_codes ::
  "flow_env \<Rightarrow> moment \<Rightarrow> uuid \<Rightarrow> string list \<Rightarrow> flow_tenant \<Rightarrow> uuid \<Rightarrow> factor_state \<Rightarrow> string list option \<times> factor_state" where
  "first_recovery_codes env at new_id codes tn u fx =
     (if fa_recovery_codes (factors_of (tn_id tn) u fx) = 0
      then (Some codes, regenerate_recovery_codes (fe_factor env) (at_db at) (tn_id tn) u new_id codes fx)
      else (None, fx))"

text \<open>
  A passkey or a code sent by mail or text message: \<open>answer\<close> is what its service says and leaves of
  the factors, with the methods it stands for; \<open>enrols\<close> is whether it was just added.
\<close>

definition mfa_other_step ::
  "flow_env \<Rightarrow> moment \<Rightarrow> uuid \<Rightarrow> string list \<Rightarrow> bool \<Rightarrow> (app_error + string list option) \<times> factor_state \<Rightarrow> flow_tenant \<Rightarrow> login_flow \<Rightarrow> bool \<Rightarrow> flow_state
     \<Rightarrow> (app_error + mfa_step) \<times> flow_state" where
  "mfa_other_step env at new_id codes enrols answer tn f remember st =
     (case mfa_user tn f (fs_accounts st) of
        Inl e \<Rightarrow> (Inl e, st)
      | Inr user \<Rightarrow>
          (case answer of
             (Inl e, fx) \<Rightarrow> (Inl e, st\<lparr>fs_factors := fx\<rparr>)
           | (Inr None, fx) \<Rightarrow> mfa_rejected at tn f (st\<lparr>fs_factors := fx\<rparr>)
           | (Inr (Some methods), fx) \<Rightarrow>
               (case (if enrols then first_recovery_codes env at new_id codes tn (us_id user) fx else (None, fx)) of
                  (shown, fx1) \<Rightarrow> mfa_passed env at tn f (us_id user) methods remember shown (st\<lparr>fs_factors := fx1\<rparr>))))"

section \<open>What a live session still owes\<close>

datatype owed = OwesNothing | OwesStep flow_stage | OwedBlocked

fun owed_step :: "owed \<Rightarrow> flow_stage option" where
  "owed_step (OwesStep s) = Some s"
| "owed_step _ = None"

text \<open>\<open>secret\<close> is the device cookie.\<close>

definition unfinished_stage ::
  "flow_env \<Rightarrow> moment \<Rightarrow> flow_tenant \<Rightarrow> sso_session \<Rightarrow> string option \<Rightarrow> string option \<Rightarrow> location option \<Rightarrow> flow_state \<Rightarrow> owed \<times> flow_state" where
  "unfinished_stage env at tn s secret ip loc st =
     (case get_user (tn_id tn) (ss_user s) (fs_accounts st) of
        Inl e \<Rightarrow> (OwesStep AtAuthenticate, st)
      | Inr user \<Rightarrow>
          if us_status user \<noteq> UserActive \<and> us_status user \<noteq> UserPending then (OwesStep AtAuthenticate, st)
          else if ss_impersonator s \<noteq> None then (OwesNothing, st)
          else if ac_must_change user \<and> se_auth_password tn then (OwesStep AtPasswordChange, st)
          else
            (let risk = evaluate (fe_travel env) (se_risk tn) (at_now at) (tn_id tn) (us_id user)
                   \<lparr>ri_ip = ip, ri_location = loc, ri_new_device = False, ri_ip_failures = None\<rparr> (fs_attempts st) (fs_locations st);
                 stepped_up = (''mfa'' \<in> set (ss_amr s))
             in if is_blocked risk then (OwedBlocked, st)
                else if steps_up risk \<and> \<not> stepped_up then (OwesStep AtMfa, st)
                else if stepped_up \<or> \<not> policy_requires_mfa env tn (us_id user) (fs_factors st) then (OwesNothing, st)
                else case secret of
                       None \<Rightarrow> (OwesStep AtMfa, st)
                     | Some sec \<Rightarrow>
                         (case verify_device (fe_lib env) (at_now at) (at_db at) (tn_id tn) (us_id user) sec None (fs_devices st) of
                            (d, devices) \<Rightarrow> (if d = None then OwesStep AtMfa else OwesNothing, st\<lparr>fs_devices := devices\<rparr>))))"

end
