(* ===== verification/Flow_Rules.thy ===== *)
theory Flow_Rules
  imports Flows
begin

text \<open>
  What the login flows of \<open>Flows\<close> guarantee: the order of the steps a flow owes, what a finished
  flow has been through, what a refused or failing step leaves behind, how many wrong codes a
  flow survives, and what consent records. The requests on flows are one step relation,
  \<open>flow_step\<close>, whose runs carry the invariant of the stored flows.
\<close>

section \<open>What the steps leave alone\<close>

lemma save_in_frame [simp]:
  "fs_sessions (save_in at f st) = fs_sessions st" "fs_consents (save_in at f st) = fs_consents st"
  "fs_accounts (save_in at f st) = fs_accounts st" "fs_attempts (save_in at f st) = fs_attempts st"
  by (simp_all add: save_in_def)

text \<open>\<open>advance\<close> touches the sessions only.\<close>

definition only_sessions :: "flow_state \<Rightarrow> flow_state \<Rightarrow> bool" where
  "only_sessions st st1 = (st1 = st\<lparr>fs_sessions := fs_sessions st1\<rparr>)"

lemma only_sessions_refl [simp]: "only_sessions st st"
  by (simp add: only_sessions_def)

lemma only_sessions_upd [simp]: "only_sessions st (st\<lparr>fs_sessions := w\<rparr>)"
  by (simp add: only_sessions_def)

lemma only_sessions_trans: "only_sessions st st1 \<Longrightarrow> only_sessions st1 st2 \<Longrightarrow> only_sessions st st2"
  by (auto simp: only_sessions_def) (metis flow_state.surjective flow_state.update_convs(2))

lemma only_sessions_frame:
  assumes "only_sessions st st1"
  shows "fs_flows st1 = fs_flows st" "fs_consents st1 = fs_consents st" "fs_accounts st1 = fs_accounts st"
    "fs_factors st1 = fs_factors st" "fs_attempts st1 = fs_attempts st"
  by (subst assms [unfolded only_sessions_def], simp)+

text \<open>\<open>org_apart\<close>: the flows agree up to the organization.\<close>

definition org_apart :: "login_flow \<Rightarrow> login_flow \<Rightarrow> bool" where
  "org_apart f f1 = (f1 = f\<lparr>lf_org := lf_org f1\<rparr>)"

lemma org_apart_refl [simp]: "org_apart f f" and org_apart_upd [simp]: "org_apart f (f\<lparr>lf_org := x\<rparr>)"
  by (simp_all add: org_apart_def)

lemma flow_bind_organization_frame:
  assumes "flow_bind_organization at tn oid f st = (f1, st1)"
  shows "org_apart f f1 \<and> only_sessions st st1"
  using assms by (auto simp: flow_bind_organization_def split: option.splits prod.splits)

lemma organization_pending_frame:
  assumes "organization_pending env at tn u f st = (ask, f1, st1)"
  shows "org_apart f f1 \<and> only_sessions st st1"
  using assms
  by (auto simp: organization_pending_def Let_def dest!: flow_bind_organization_frame
      intro: only_sessions_trans only_sessions_upd split: if_splits option.splits prod.splits list.splits)

lemma advance_frame:
  assumes "advance env at tn must f st = (r, st1)"
  shows "only_sessions st st1"
  using assms
  by (auto simp: advance_def Let_def dest!: organization_pending_frame split: if_splits option.splits prod.splits sum.splits bool.splits)

text \<open>What \<open>advance\<close> changes of the flow itself.\<close>

definition stage_apart :: "login_flow \<Rightarrow> login_flow \<Rightarrow> bool" where
  "stage_apart f f1 = (f1 = f\<lparr>lf_org := lf_org f1, lf_pending := lf_pending f1, lf_stage := lf_stage f1\<rparr>)"

lemma org_apart_stage:
  assumes "org_apart f f1"
  shows "stage_apart f (f1\<lparr>lf_pending := p, lf_stage := s\<rparr>)" "stage_apart f (f1\<lparr>lf_stage := s\<rparr>)"
proof -
  obtain x where "f1 = f\<lparr>lf_org := x\<rparr>" using assms by (auto simp: org_apart_def)
  then show "stage_apart f (f1\<lparr>lf_pending := p, lf_stage := s\<rparr>)" "stage_apart f (f1\<lparr>lf_stage := s\<rparr>)"
    by (simp_all add: stage_apart_def)
qed

lemma advance_flow:
  assumes "advance env at tn must f st = (Inr f1, st1)"
  shows "stage_apart f f1"
  using assms
  by (auto simp: advance_def Let_def org_apart_stage dest!: organization_pending_frame
      split: if_splits option.splits prod.splits sum.splits bool.splits)

lemma stage_apart_fields:
  assumes "stage_apart f f1"
  shows "lf_id f1 = lf_id f" "lf_tenant f1 = lf_tenant f" "lf_request f1 = lf_request f" "lf_user f1 = lf_user f"
    "lf_session f1 = lf_session f" "lf_amr f1 = lf_amr f" "lf_risk_step_up f1 = lf_risk_step_up f"
    "lf_attempts f1 = lf_attempts f" "lf_expires_at f1 = lf_expires_at f"
  by (subst assms [unfolded stage_apart_def], simp)+

section \<open>The order of the obligations\<close>

text \<open>
  What a signed-in flow may owe, each in its own terms, and the order they are asked in. The
  organization is owed when nothing settles it: neither the flow nor its session acts in one, the
  user belongs to several, and the request names none of them.
\<close>

definition consented :: "uuid \<Rightarrow> uuid \<Rightarrow> uuid \<Rightarrow> consent list \<Rightarrow> string \<Rightarrow> bool" where
  "consented t u c rows s = (case find (consent_of t u c) rows of Some r \<Rightarrow> gc_revoked_at r = None \<and> s \<in> set (gc_scopes r) | None \<Rightarrow> False)"

definition acting_org :: "moment \<Rightarrow> flow_tenant \<Rightarrow> login_flow \<Rightarrow> flow_state \<Rightarrow> uuid option" where
  "acting_org at tn f st =
     (case lf_org f of
        Some o' \<Rightarrow> Some o'
      | None \<Rightarrow> Option.bind (lf_session f) (\<lambda>sid. Option.bind (fst (get_session (at_now at) (tn_id tn) sid (tn_session_policy tn) (fs_sessions st))) ss_org))"

definition names_org :: "flow_env \<Rightarrow> string option \<Rightarrow> organization \<Rightarrow> bool" where
  "names_org env requested og = (\<exists>r. requested = Some r \<and> (og_slug og = trim r \<or> l_show_uuid (fe_lib env) (og_id og) = trim r))"

fun owes :: "flow_env \<Rightarrow> moment \<Rightarrow> flow_tenant \<Rightarrow> bool \<Rightarrow> login_flow \<Rightarrow> account \<Rightarrow> uuid \<Rightarrow> flow_state \<Rightarrow> flow_stage \<Rightarrow> bool" where
  "owes env at tn must f user u st AtPasswordChange = must"
| "owes env at tn must f user u st AtMfa = mfa_required env tn f u (fs_factors st)"
| "owes env at tn must f user u st AtProfile = (missing_required env (tn_id tn) user \<noteq> [])"
| "owes env at tn must f user u st AtTerms = (se_require_terms tn \<and> ac_terms_accepted_at user = None)"
| "owes env at tn must f user u st AtOrganization =
     (let orgs = selectable_organizations env (tn_id tn) (Some u)
      in acting_org at tn f st = None \<and> 1 < length orgs \<and> \<not> (\<exists>og\<in>set orgs. names_org env (aq_organization (lf_request f)) og))"
| "owes env at tn must f user u st _ = False"

definition owes_consent :: "flow_tenant \<Rightarrow> login_flow \<Rightarrow> uuid \<Rightarrow> uuid \<Rightarrow> consent list \<Rightarrow> bool" where
  "owes_consent tn f u c rows =
     (let req = lf_request f; force = (''consent'' \<in> set (aq_prompt req))
      in lf_stage f \<noteq> AtDone \<and> (force \<or> \<not> aq_skip_consent req)
         \<and> (if force \<and> lf_pending f = [] \<and> lf_stage f \<noteq> AtConsent then aq_scopes req \<noteq> []
            else \<exists>s\<in>set (aq_scopes req). \<not> consented (tn_id tn) u c rows s))"

definition next_stage :: "flow_env \<Rightarrow> moment \<Rightarrow> flow_tenant \<Rightarrow> bool \<Rightarrow> login_flow \<Rightarrow> flow_state \<Rightarrow> app_error + flow_stage" where
  "next_stage env at tn must f st =
     (case (lf_user f, lf_session f) of
        (Some u, Some _) \<Rightarrow>
          andThen (get_user (tn_id tn) u (fs_accounts st)) (\<lambda>user.
            case find (owes env at tn must f user u st) [AtPasswordChange, AtMfa, AtProfile, AtTerms, AtOrganization] of
              Some s \<Rightarrow> Inr s
            | None \<Rightarrow> andThen (client_of env f) (\<lambda>c.
                Inr (if owes_consent tn f u (cl_id c) (fs_consents st) then AtConsent else AtDone)))
      | _ \<Rightarrow> Inr AtAuthenticate)"

lemma organization_pending_iff:
  "fst (organization_pending env at tn u f st) = owes env at tn must f user u st AtOrganization"
proof -
  have named: "(Option.bind (aq_organization (lf_request f)) (\<lambda>r. find (\<lambda>og. og_slug og = trim r \<or> l_show_uuid (fe_lib env) (og_id og) = trim r) orgs) = None)
      = (\<not> (\<exists>og\<in>set orgs. names_org env (aq_organization (lf_request f)) og))" for orgs
    by (cases "aq_organization (lf_request f)") (auto simp: names_org_def find_None_iff)
  show ?thesis
    unfolding organization_pending_def owes.simps acting_org_def Let_def named [symmetric]
    by (auto split: option.splits prod.splits list.splits)
qed

lemma consent_pending_iff:
  "(consent_pending (tn_id tn) u c f rows \<noteq> [] \<and> lf_stage f \<noteq> AtDone) = owes_consent tn f u c rows"
proof -
  have missing: "missing_scopes t u c ss rows \<noteq> [] \<longleftrightarrow> (\<exists>s\<in>set ss. \<not> consented t u c rows s)" for t ss
    by (cases "find (consent_of t u c) rows") (auto simp: missing_scopes_def consented_def filter_empty_conv Let_def dest: hd_in_set)
  show ?thesis by (auto simp: consent_pending_def owes_consent_def Let_def missing)
qed

text \<open>
  C5. Advancing a flow refines the obligations: from any flow and state, the stage it moves to, or the error
  it ends in, is that of the abstract rule. A flow without user and session is asked to sign in;
  otherwise the first obligation that is owed, in the order password change, second factor,
  profile, terms, organization, consent, is the one asked for, and a flow that owes nothing is done.
\<close>

theorem advance_asks_first_obligation:
  "map_sum id lf_stage (fst (advance env at tn must f st)) = next_stage env at tn must f st"
proof (cases "lf_user f = None \<or> lf_session f = None")
  case True
  then show ?thesis by (auto simp: advance_def next_stage_def split: option.splits)
next
  case False
  then obtain u s where us: "lf_user f = Some u" "lf_session f = Some s" by auto
  show ?thesis
  proof (cases "get_user (tn_id tn) u (fs_accounts st)")
    case (Inl e)
    then show ?thesis using us by (simp add: advance_def next_stage_def)
  next
    case (Inr user)
    obtain ask f1 st1 where op: "organization_pending env at tn u f st = (ask, f1, st1)" by (cases "organization_pending env at tn u f st")
    have ask: "ask = owes env at tn must f user u st AtOrganization"
      using organization_pending_iff [of env at tn u f st must user] op by simp
    obtain x where f1: "f1 = f\<lparr>lf_org := x\<rparr>" and frame: "only_sessions st st1"
      using organization_pending_frame [OF op] by (auto simp: org_apart_def)
    have client: "client_of env f1 = client_of env f" by (simp add: client_of_def f1)
    have pending: "(consent_pending (tn_id tn) u c f1 (fs_consents st1) \<noteq> [] \<and> lf_stage f1 \<noteq> AtDone) = owes_consent tn f u c (fs_consents st)" for c
      by (simp add: consent_pending_iff [symmetric] only_sessions_frame [OF frame] f1 consent_pending_def Let_def)
    show ?thesis
      using us Inr op ask client pending
      by (auto simp: advance_def next_stage_def Let_def simp del: owes.simps(5) split: sum.splits)
  qed
qed

section \<open>Requests on flows\<close>

definition error_of :: "app_error + 'a \<Rightarrow> app_error option" where
  "error_of r = (case r of Inl e \<Rightarrow> Some e | Inr _ \<Rightarrow> None)"

lemma error_of_simps [simp]: "error_of (Inl e) = Some e" "error_of (Inr a) = None"
  by (simp_all add: error_of_def)

lemma error_of_andThenS: "error_of (fst (andThenS m (\<lambda>a s. (Inr (g a), s)))) = error_of (fst m)"
  by (cases m; cases "fst m") (auto simp: andThenS_def)

text \<open>
  One request on a flow that was loaded: the error it ends in, if any, and the state after. What other
  services answer is arbitrary. \<open>complete\<close> is the sign-in of a federated identity, a ticket or an
  invitation.
\<close>

inductive flow_call :: "flow_env \<Rightarrow> moment \<Rightarrow> flow_tenant \<Rightarrow> login_flow \<Rightarrow> flow_state \<Rightarrow> app_error option \<Rightarrow> flow_state \<Rightarrow> bool"
  for env at tn f st where
  password: "password_step env at salt dk new_sid new_id url tn f pa st = (r, st') \<Longrightarrow> flow_call env at tn f st (error_of r) st'"
| passkey: "passkey_finish env at new_sid new_id url verified tn f ctx st = (r, st') \<Longrightarrow> flow_call env at tn f st (error_of r) st'"
| passwordless: "passwordless_verify_step env at new_sid new_id url answer contact_marked tn f m ctx st = (r, st')
    \<Longrightarrow> flow_call env at tn f st (error_of r) st'"
| register: "register_step env at new_sid new_id url registered tn f captcha ctx st = (r, st') \<Longrightarrow> flow_call env at tn f st (error_of r) st'"
| complete: "complete_authentication env at new_sid new_id url tn f (user :: account) amr ctx must st = (r, st')
    \<Longrightarrow> lf_stage f = AtAuthenticate \<or> lf_stage f = AtRegister \<Longrightarrow> flow_call env at tn f st (error_of r) st'"
| password_change: "password_change_step env at salt row_id ldap_set tn f new_password st = (r1, st') \<Longrightarrow> flow_call env at tn f st (error_of r1) st'"
| profile: "profile_step env at updated tn f st = (r1, st') \<Longrightarrow> flow_call env at tn f st (error_of r1) st'"
| terms: "terms_step env at tn f accepted st = (r1, st') \<Longrightarrow> flow_call env at tn f st (error_of r1) st'"
| organization: "organization_step env at tn f org st = (r1, st') \<Longrightarrow> flow_call env at tn f st (error_of r1) st'"
| consent: "consent_step env at new_id url tn f approve granted st = (r2, st') \<Longrightarrow> flow_call env at tn f st (error_of r2) st'"
| enrol_begin: "mfa_enrol_begin at random tn f st = (r4, st') \<Longrightarrow> flow_call env at tn f st (error_of r4) st'"
| enrol_confirm: "mfa_enrol_confirm env at ids codes tn f code label remember st = (r3, st') \<Longrightarrow> flow_call env at tn f st (error_of r3) st'"
| mfa_verify: "mfa_verify_step env at tn f code remember st = (r3, st') \<Longrightarrow> flow_call env at tn f st (error_of r3) st'"
| mfa_other: "mfa_other_step env at new_id codes enrols other tn f remember st = (r3, st') \<Longrightarrow> flow_call env at tn f st (error_of r3) st'"
| cancel: "cancel env at new_id url tn f st = (r5, st') \<Longrightarrow> flow_call env at tn f st (error_of r5) st'"

text \<open>
  A flow that may be stored: past sign-in it has a user and a session, and once done it has
  been through a second factor wherever the client asked for one or the risk policy stepped it up.
\<close>

definition signed_in :: "login_flow \<Rightarrow> bool" where
  "signed_in f = (lf_user f \<noteq> None \<and> lf_session f \<noteq> None)"

definition settled :: "login_flow \<Rightarrow> bool" where
  "settled f =
     ((lf_stage f \<in> {AtAuthenticate, AtRegister, AtVerifyEmail} \<or> signed_in f)
      \<and> (lf_stage f = AtDone \<longrightarrow>
           ''mfa'' \<in> set (lf_amr f) \<or> requested_mfa_class (aq_acr_values (lf_request f)) = None \<and> \<not> lf_risk_step_up f))"

text \<open>What a request may do to the stored flows: keep, drop, or save one that is settled.\<close>

definition stores :: "flow_state \<Rightarrow> app_error option \<Rightarrow> flow_state \<Rightarrow> bool" where
  "stores st err st' =
     (\<forall>k g t. fs_flows st' k = Some (g, t) \<longrightarrow> fs_flows st k = Some (g, t) \<or> err = None \<and> settled g)"

lemma stores_same: "fs_flows st' = fs_flows st \<Longrightarrow> stores st err st'"
  by (simp add: stores_def)

lemma stores_from: "stores st1 err st' \<Longrightarrow> fs_flows st1 = fs_flows st \<Longrightarrow> stores st err st'"
  by (simp add: stores_def)

lemma stores_save: "settled f \<Longrightarrow> stores st None (save_in at f st)"
  by (auto simp: stores_def save_in_def save_flow_def kv_set_ex_def kv_set_until_def Let_def)

lemma stores_delete: "stores st err (st\<lparr>fs_flows := delete_flow t i (fs_flows st)\<rparr>)"
  by (simp add: stores_def delete_flow_def kv_del_def)

lemma advance_settles:
  assumes "advance env at tn must f st = (Inr f1, st1)"
  shows "settled f1"
proof (cases "lf_user f = None \<or> lf_session f = None")
  case True
  then have "lf_stage f1 = AtAuthenticate" using assms by (auto simp: advance_def split: option.splits)
  then show ?thesis by (simp add: settled_def)
next
  case False
  note fields = stage_apart_fields [OF advance_flow [OF assms]]
  have "signed_in f1" using False fields by (simp add: signed_in_def)
  moreover have "\<not> mfa_required env tn f u (fs_factors st)" if "lf_stage f1 = AtDone" "lf_user f = Some u" for u
    using assms that False
    by (auto simp: advance_def Let_def dest!: organization_pending_frame split: if_splits option.splits prod.splits sum.splits bool.splits)
  ultimately show ?thesis
    using False fields by (auto simp: settled_def mfa_required_def split: if_splits)
qed

lemma advance_and_save_stores:
  assumes "advance_and_save env at tn must f st = (r, st')"
  shows "stores st (error_of r) st'"
proof -
  obtain r1 st1 where a: "advance env at tn must f st = (r1, st1)" by (cases "advance env at tn must f st")
  note same = only_sessions_frame(1) [OF advance_frame [OF a]]
  show ?thesis
  proof (cases r1)
    case (Inl e)
    then show ?thesis using assms a same by (auto simp: advance_and_save_def intro: stores_same)
  next
    case (Inr f1)
    then have "stores st1 None (save_in at f1 st1)" using a advance_settles by (auto intro: stores_save)
    then show ?thesis using assms a Inr same by (auto simp: advance_and_save_def intro: stores_from)
  qed
qed

lemma andThenS_stores:
  assumes "stores st (error_of (fst m)) (snd m)"
  shows "stores st (error_of (fst (andThenS m (\<lambda>a s. (Inr (g a), s))))) (snd (andThenS m (\<lambda>a s. (Inr (g a), s))))"
  using assms by (cases m; cases "fst m") (auto simp: andThenS_def)

lemmas andThenS_storesI = andThenS_stores [where m = "(r1, st1)" for r1 st1, simplified]

lemma denial_redirect_flows [simp]:
  "fs_flows (snd (denial_redirect env at new_id url tn f d st)) = fs_flows st"
  "fs_sessions (snd (denial_redirect env at new_id url tn f d st)) = fs_sessions st"
  "fs_attempts (snd (denial_redirect env at new_id url tn f d st)) = fs_attempts st"
  by (simp_all add: denial_redirect_def error_redirect_def Let_def split: option.splits)

lemma deny_flow_device_flows [simp]:
  "fs_flows (deny_flow_device at f st) = fs_flows st" "fs_sessions (deny_flow_device at f st) = fs_sessions st"
  "fs_attempts (deny_flow_device at f st) = fs_attempts st"
  by (simp_all add: deny_flow_device_def split: option.splits)

lemma attempt_in_frame [simp]:
  "fs_flows (attempt_in at t i ip ok reason st) = fs_flows st" "fs_sessions (attempt_in at t i ip ok reason st) = fs_sessions st"
  "fs_accounts (attempt_in at t i ip ok reason st) = fs_accounts st"
  by (simp_all add: attempt_in_def)

lemma delete_in_stores: "fs_flows st1 = fs_flows st \<Longrightarrow> fs_flows st' = fs_flows (delete_in f st1) \<Longrightarrow> stores st err st'"
  by (simp add: stores_def delete_in_def delete_flow_def kv_del_def)

lemma refuse_stores: "stores st (error_of (fst (refuse env at new_id url tn f user ctx st))) (snd (refuse env at new_id url tn f user ctx st))"
  unfolding refuse_def Let_def
  by (rule andThenS_stores, rule delete_in_stores [where f = f and ?st1.0 = "deny_flow_device at f (attempt_in at (tn_id tn) (us_username user) (rx_ip ctx) False (Some ''risk_blocked'') st)"])
    simp_all

lemma cancel_stores: "stores st (error_of (fst (cancel env at new_id url tn f st))) (snd (cancel env at new_id url tn f st))"
  unfolding cancel_def
  by (rule delete_in_stores [where f = f and ?st1.0 = "deny_flow_device at f st"]) simp_all

lemma open_session_flows [simp]: "fs_flows (snd (open_session env at new_sid tn f u amr ctx a st)) = fs_flows st"
  by (simp add: open_session_def Let_def split: prod.splits)

lemma sign_in_as_stores:
  "stores st (error_of (fst (sign_in_as env at new_sid tn ident f u amr ctx must a st)))
     (snd (sign_in_as env at new_sid tn ident f u amr ctx must a st))"
proof -
  define st1 where "st1 = attempt_in at (tn_id tn) ident (rx_ip ctx) True None
                  (st\<lparr>fs_accounts := record_login_success (at_db at) (tn_id tn) u (fs_accounts st)\<rparr>)"
  obtain session f1 st2 where o': "open_session env at new_sid tn f u amr ctx a st1 = ((session, f1), st2)"
    by (metis surj_pair)
  have same: "fs_flows st2 = fs_flows st"
    using arg_cong [OF o', of "\<lambda>p. fs_flows (snd p)"] by (simp add: st1_def)
  have "stores st2 (error_of (fst (advance_and_save env at tn must f1 st2))) (snd (advance_and_save env at tn must f1 st2))"
    by (rule advance_and_save_stores) simp
  then have "stores st (error_of (fst (advance_and_save env at tn must f1 st2))) (snd (advance_and_save env at tn must f1 st2))"
    using same by (rule stores_from)
  then show ?thesis
    unfolding sign_in_as_def Let_def st1_def [symmetric] o' by (simp add: andThenS_stores)
qed

lemma assess_flows:
  "assess env at tn u ctx n st = (a, st1) \<Longrightarrow> fs_flows st1 = fs_flows st \<and> fs_sessions st1 = fs_sessions st \<and> fs_attempts st1 = fs_attempts st"
  by (auto simp: assess_def Let_def split: prod.splits option.splits)

lemma complete_authentication_stores:
  assumes "complete_authentication env at new_sid new_id url tn f user amr ctx must st = (r, st')"
  shows "stores st (error_of r) st'"
proof -
  obtain a st1 where a: "assess env at tn (us_id user) ctx None st = (a, st1)" by (cases "assess env at tn (us_id user) ctx None st")
  have "stores st1 (error_of r) st'"
    using assms a refuse_stores [of st1 env at new_id url tn f user ctx]
      sign_in_as_stores [of st1 env at new_sid tn "us_username user" f "us_id user" amr ctx must a]
    by (simp add: complete_authentication_def split: if_splits)
  then show ?thesis using assess_flows [OF a] by (auto intro: stores_from)
qed

lemma settled_attempts [simp]: "settled (f\<lparr>lf_attempts := n\<rparr>) = settled f"
  by (simp add: settled_def signed_in_def)

lemma reject_password_stores:
  assumes "reject_password at tn f ident ip found reason st = (r, st')" "settled f"
  shows "stores st None st'"
proof -
  have "\<exists>st2. st' = save_in at (f\<lparr>lf_attempts := lf_attempts f + 1\<rparr>) st2 \<and> fs_flows st2 = fs_flows st"
    using assms(1) by (auto simp: reject_password_def Let_def split: option.splits if_splits prod.splits)
  then show ?thesis using assms(2) stores_save [of "f\<lparr>lf_attempts := lf_attempts f + 1\<rparr>"] by (auto intro: stores_from)
qed

lemma reject_factor_stores:
  assumes "reject_factor at f st = (r, st')" "settled f"
  shows "stores st None st'"
  using assms stores_save [of "f\<lparr>lf_attempts := lf_attempts f + 1\<rparr>"] by (auto simp: reject_factor_def Let_def)

lemma mfa_rejected_stores:
  assumes "mfa_rejected at tn f st = (r, st')" "settled f"
  shows "stores st (error_of r) st'"
  using assms stores_save [of "f\<lparr>lf_attempts := lf_attempts f + 1\<rparr>"]
  by (auto simp: mfa_rejected_def mfa_reject_def Let_def stores_delete split: if_splits)

lemma pass_second_factor_stores:
  "stores st (error_of (fst (pass_second_factor env at tn f u ms rm st))) (snd (pass_second_factor env at tn f u ms rm st))"
  by (auto simp: pass_second_factor_def Let_def intro: stores_same split: option.splits prod.splits
      intro!: stores_from [OF advance_and_save_stores [OF surjective_pairing]])

lemma mfa_passed_stores:
  assumes "mfa_passed env at tn f u ms rm codes st = (r, st')"
  shows "stores st (error_of r) st'"
  using andThenS_stores [OF pass_second_factor_stores, of st env at tn f u ms rm "\<lambda>f1. MfaPassed f1 codes"] assms
  by (simp add: mfa_passed_def)

text \<open>Every request keeps the flows settled, and one that ends in an error saves none.\<close>

lemma password_step_stores:
  assumes "password_step env at salt dk new_sid new_id url tn f pa st = (r, st')" "settled f"
  shows "stores st (error_of r) st'"
proof -
  have tail: "stores st (error_of r) st'"
    if "assess env at tn (us_id user) ctx n (st\<lparr>fs_accounts := acc\<rparr>) = (a, st1)"
      and "(if is_blocked (as_risk a) then refuse env at new_id url tn f user ctx st1
            else sign_in_as env at new_sid tn ident f (us_id user) [''pwd''] ctx must a st1) = (r, st')"
    for user :: account and ctx n acc a st1 ident must
    using that(2) assess_flows [OF that(1)] refuse_stores [of st1 env at new_id url tn f user ctx]
      sign_in_as_stores [of st1 env at new_sid tn ident f "us_id user" "[''pwd'']" ctx must a]
    by (auto split: if_splits intro: stores_from)
  have reject: "stores st None st'"
    if "reject_password at tn f ident ip found reason (st\<lparr>fs_accounts := acc\<rparr>) = (r1, st')" for ident ip found reason acc r1
    using reject_password_stores [OF that assms(2)] by (auto intro: stores_from)
  show ?thesis
    using assms(1) unfolding password_step_def Let_def
    by (auto split: sum.splits prod.splits option.splits intro: stores_same reject dest: tail simp del: split_paired_All)
qed

lemma consent_step_stores:
  assumes "consent_step env at new_id url tn f approve granted st = (r, st')"
  shows "stores st (error_of r) st'"
proof -
  have deny: "stores st (error_of r) st'"
    if "andThenS (denial_redirect env at new_id url tn f d (deny_flow_device at f st)) (\<lambda>u s. (Inr (DeniedTo u), s)) = (r, st')" for d
    using andThenS_stores [of st "denial_redirect env at new_id url tn f d (deny_flow_device at f st)" DeniedTo] that
    by (simp add: stores_same)
  have grant: "stores st (error_of r) st'"
    if "andThenS (advance_and_save env at tn False f1 st2) (\<lambda>f2 s. (Inr (Granted f2), s)) = (r, st')" "fs_flows st2 = fs_flows st" for f1 st2
    using andThenS_stores [OF stores_from [OF advance_and_save_stores [OF surjective_pairing] that(2)], of env at tn False f1 Granted] that(1)
    by simp
  show ?thesis
    using assms unfolding consent_step_def Let_def
    by (auto split: if_splits sum.splits option.splits prod.splits intro: stores_same deny dest: grant)
qed

lemma flow_call_stores:
  assumes "flow_call env at tn f st err st'" "settled f"
  shows "stores st err st'"
  using assms(1)
proof cases
  case password
  then show ?thesis using assms(2) by (auto intro: password_step_stores)
next
  case passkey
  then show ?thesis using assms(2)
    by (auto simp: passkey_finish_def split: if_splits sum.splits option.splits prod.splits
        intro: stores_same complete_authentication_stores reject_factor_stores)
next
  case passwordless
  then show ?thesis using assms(2)
    by (auto simp: passwordless_verify_step_def split: if_splits sum.splits option.splits prod.splits
        intro: stores_same reject_factor_stores dest: complete_authentication_stores intro: stores_from)
next
  case register
  then show ?thesis
    by (auto simp: register_step_def Let_def settled_def split: if_splits sum.splits option.splits prod.splits
        intro: stores_same dest: complete_authentication_stores intro: stores_from intro!: stores_from [OF stores_save])
next
  case complete
  then show ?thesis by (auto intro: complete_authentication_stores)
next
  case password_change
  then show ?thesis
    by (auto simp: password_change_step_def split: if_splits sum.splits option.splits prod.splits
        intro: stores_same dest: advance_and_save_stores intro: stores_from)
next
  case profile
  then show ?thesis
    by (auto simp: profile_step_def split: if_splits sum.splits option.splits prod.splits
        intro: stores_same dest: advance_and_save_stores intro: stores_from)
next
  case terms
  then show ?thesis
    by (auto simp: terms_step_def split: if_splits sum.splits option.splits prod.splits
        intro: stores_same dest: advance_and_save_stores intro: stores_from)
next
  case organization
  then show ?thesis
    by (auto simp: organization_step_def split: if_splits sum.splits option.splits prod.splits
        intro: stores_same dest!: flow_bind_organization_frame advance_and_save_stores dest: only_sessions_frame(1) intro: stores_from)
next
  case consent
  then show ?thesis by (auto intro: consent_step_stores)
next
  case enrol_begin
  then show ?thesis by (auto simp: mfa_enrol_begin_def split: if_splits sum.splits option.splits prod.splits intro: stores_same)
next
  case enrol_confirm
  then show ?thesis using assms(2)
    by (auto simp: mfa_enrol_confirm_def split: if_splits sum.splits option.splits prod.splits
        intro: stores_same dest: mfa_passed_stores mfa_rejected_stores intro: stores_from)
next
  case mfa_verify
  then show ?thesis using assms(2)
    by (auto simp: mfa_verify_step_def split: if_splits sum.splits option.splits prod.splits verified.splits
        intro: stores_same dest: mfa_passed_stores mfa_rejected_stores intro: stores_from)
next
  case mfa_other
  then show ?thesis using assms(2)
    by (auto simp: mfa_other_step_def split: if_splits sum.splits option.splits prod.splits
        intro: stores_same dest: mfa_passed_stores mfa_rejected_stores intro: stores_from)
next
  case cancel
  then show ?thesis using cancel_stores by (metis fst_conv snd_conv)
qed

section \<open>Runs\<close>

text \<open>
  The stored flows and the flows that requests in progress have loaded: between a load and the
  step that uses it anything else may happen. Flows start at sign-in, at registration or, for a
  session that is already there, at a step it owes; \<open>elsewhere\<close> is whatever changes no flow.
\<close>

inductive flow_step :: "flow_state \<times> login_flow set \<Rightarrow> flow_state \<times> login_flow set \<Rightarrow> bool" where
  started: "lf_stage f \<in> {AtAuthenticate, AtRegister} \<or> lf_stage f \<in> {AtPasswordChange, AtMfa, AtConsent} \<and> signed_in f
    \<Longrightarrow> create_flow now csrf f (fs_flows st) = (f1, m) \<Longrightarrow> flow_step (st, loaded) (st\<lparr>fs_flows := m\<rparr>, loaded)"
| load: "load_flow now t i (fs_flows st) = Inr f \<Longrightarrow> flow_step (st, loaded) (st, insert f loaded)"
| called: "f \<in> loaded \<Longrightarrow> flow_call env at tn f st err st' \<Longrightarrow> flow_step (st, loaded) (st', loaded)"
| resumed: "resume_after_verification env at new_sid new_id url tn i user ctx st = (r, st') \<Longrightarrow> flow_step (st, loaded) (st', loaded)"
| deleted: "flow_step (st, loaded) (st\<lparr>fs_flows := delete_flow t i (fs_flows st)\<rparr>, loaded)"
| elsewhere: "fs_flows st' = fs_flows st \<Longrightarrow> flow_step (st, loaded) (st', loaded)"

fun all_settled :: "flow_state \<times> login_flow set \<Rightarrow> bool" where
  "all_settled (st, loaded) = ((\<forall>k f t. fs_flows st k = Some (f, t) \<longrightarrow> settled f) \<and> (\<forall>f\<in>loaded. settled f))"

lemma stores_settled: "stores st err st' \<Longrightarrow> all_settled (st, loaded) \<Longrightarrow> all_settled (st', loaded)"
  by (auto simp: stores_def) blast

lemma flow_step_keeps_settled:
  assumes "flow_step s s'" "all_settled s"
  shows "all_settled s'"
  using assms
proof (induction rule: flow_step.induct)
  case (started f now csrf st f1 m loaded)
  then have "settled f" by (auto simp: settled_def)
  then have "settled f1" using started(2) by (auto simp: create_flow_def Let_def settled_def signed_in_def)
  then have "all_settled (save_in \<lparr>at_now = now, at_db = now\<rparr> f1 st, loaded)"
    using started(3) by (rule stores_settled [OF stores_save])
  moreover have "save_in \<lparr>at_now = now, at_db = now\<rparr> f1 st = st\<lparr>fs_flows := m\<rparr>"
    using started(2) by (auto simp: create_flow_def Let_def save_in_def)
  ultimately show ?case by simp
next
  case (load now t i st f loaded)
  then show ?case by (auto simp: load_flow_def get_flow_def or_error_def kv_get_def kv_entry_def split: option.splits if_splits) blast+
next
  case (called f loaded env at tn st err st')
  then show ?case using flow_call_stores stores_settled by (metis all_settled.simps)
next
  case (resumed env at new_sid new_id url tn i user ctx st r st' loaded)
  have "st' = st \<or> (\<exists>f r1. complete_authentication env at new_sid new_id url tn f user [''otp''] ctx False st = (r1, st'))"
    using resumed(1) by (auto simp: resume_after_verification_def andThenS_def split: option.splits if_splits prod.splits sum.splits)
  then show ?case using resumed(2) complete_authentication_stores stores_settled by blast
next
  case (deleted st loaded t i)
  then show ?case by (auto simp: delete_flow_def kv_del_def)
next
  case (elsewhere st' st loaded)
  then show ?case by simp
qed

interpretation fl: kept_by_steps flow_step all_settled
  by unfold_locales (rule flow_step_keeps_settled)

text \<open>
  C9. However requests interleave, a stored flow that is done carries a user and a session, and it has been
  through a second factor wherever the client demanded such a class or the risk policy stepped
  the sign-in up; a trusted device does not stand in for it.
\<close>

theorem done_flow_has_signed_in:
  assumes "flow_step\<^sup>*\<^sup>* (st, {}) (st', loaded)" and "fs_flows st = Map.empty"
    and "fs_flows st' k = Some (f, t)" and "lf_stage f = AtDone"
  shows "lf_user f \<noteq> None \<and> lf_session f \<noteq> None \<and>
    (requested_mfa_class (aq_acr_values (lf_request f)) \<noteq> None \<or> lf_risk_step_up f \<longrightarrow> ''mfa'' \<in> set (lf_amr f))"
proof -
  have "all_settled (st', loaded)" using fl.run_keeps [OF assms(1)] assms(2) by simp
  then have "settled f" using assms(3) by (cases k) auto
  then show ?thesis using assms(4) by (auto simp: settled_def signed_in_def)
qed

text \<open>
  C32. A request that fails makes no progress: whatever step of a flow ends in an error, every flow
  stored afterwards was stored before, unchanged.
\<close>

theorem failed_step_saves_no_flow:
  assumes "flow_call env at tn f st (Some e) st'" and "settled f"
  shows "fs_flows st' \<subseteq>\<^sub>m fs_flows st"
proof -
  have "stores st (Some e) st'" using assms by (rule flow_call_stores)
  then show ?thesis by (auto simp: stores_def map_le_def dom_def)
qed

section \<open>Signing in\<close>

lemma open_session_user:
  assumes "open_session env at new_sid tn f u amr ctx a st = ((session, f1), st1)"
  shows "ss_user session = u \<and> lf_user f1 = Some u \<and> lf_session f1 = Some (ss_id session)"
  using assms
  by (auto simp: open_session_def Let_def refresh_auth_def create_session_def bind_device_def split: option.splits prod.splits if_splits)

lemma sign_in_as_user:
  assumes "sign_in_as env at new_sid tn ident f u amr ctx must a st = (Inr (Authenticated session f1), st1)"
  shows "ss_user session = u"
  using assms by (auto simp: sign_in_as_def Let_def andThenS_Inr dest: open_session_user split: prod.splits)

lemma refuse_not_authenticated: "fst (refuse env at new_id url tn f user ctx st) \<noteq> Inr (Authenticated session f1)"
  by (auto simp: refuse_def Let_def andThenS_def split: prod.splits sum.splits)

lemma sign_in_as_not_blocked: "fst (sign_in_as env at new_sid tn ident f u amr ctx must a st) \<noteq> Inr (Blocked url)"
  by (auto simp: sign_in_as_def Let_def andThenS_def split: prod.splits sum.splits)

lemma reject_password_rejects:
  "\<exists>f1 l. fst (reject_password at tn f ident ip found reason st) = Rejected f1 l"
  by (simp add: reject_password_def Let_def split: prod.splits)

text \<open>The branches of a password step that signs in or is refused by the risk policy.\<close>

lemma password_step_accepted:
  assumes "password_step env at salt dk new_sid new_id url tn f pa st = (Inr step, st')" and "\<nexists>f1 l. step = Rejected f1 l"
  obtains ident counted user by_directory acc acc1 must a st1 where
    "ident = to_lowercase (pe_lib (fe_pw env)) (trim (pa_identifier pa))"
    "password_checks env tn f ident pa = Inr ()" "ip_failures at tn (rx_ip (pa_context pa)) (fs_attempts st) = Inr counted"
    "password_user dk (tn_id tn) ident (fs_accounts st) = Inr (Some (user, by_directory), acc)"
    "verdict env at salt dk tn (pa_password pa) (Some (user, by_directory)) acc = (Inr (Inr must), acc1)"
    "assess env at tn (us_id user) (pa_context pa) counted (st\<lparr>fs_accounts := acc1\<rparr>) = (a, st1)"
    "(if is_blocked (as_risk a) then refuse env at new_id url tn f user (pa_context pa) st1
      else sign_in_as env at new_sid tn ident f (us_id user) [''pwd''] (pa_context pa) must a st1) = (Inr step, st')"
proof -
  define ident where "ident = to_lowercase (pe_lib (fe_pw env)) (trim (pa_identifier pa))"
  obtain counted found acc r acc1 where
    checks: "password_checks env tn f ident pa = Inr ()" "ip_failures at tn (rx_ip (pa_context pa)) (fs_attempts st) = Inr counted"
    and found: "password_user dk (tn_id tn) ident (fs_accounts st) = Inr (found, acc)"
    and v: "verdict env at salt dk tn (pa_password pa) found acc = (Inr r, acc1)"
    and rest: "(case r of
        Inl reason \<Rightarrow> (case reject_password at tn f ident (rx_ip (pa_context pa)) (map_option fst found) reason (st\<lparr>fs_accounts := acc1\<rparr>) of
                          (r, st1) \<Rightarrow> (Inr r, st1))
      | Inr must \<Rightarrow>
                       (case found of
                          None \<Rightarrow> (Inl (Internal ''password accepted without a user''), st\<lparr>fs_accounts := acc1\<rparr>)
                        | Some (user, _) \<Rightarrow>
                            (case assess env at tn (us_id user) (pa_context pa) counted (st\<lparr>fs_accounts := acc1\<rparr>) of
                               (a, st1) \<Rightarrow>
                                 if is_blocked (as_risk a) then refuse env at new_id url tn f user (pa_context pa) st1
                                 else sign_in_as env at new_sid tn ident f (us_id user) [''pwd''] (pa_context pa) must a st1))) = (Inr step, st')"
    using assms(1) unfolding password_step_def Let_def ident_def [symmetric]
    by (auto simp: andThen_def split: sum.splits prod.splits)
  show thesis
  proof (cases r)
    case (Inl reason)
    then show ?thesis
      using rest assms(2) reject_password_rejects [of at tn f ident "rx_ip (pa_context pa)" "map_option fst found" reason "st\<lparr>fs_accounts := acc1\<rparr>"]
      by (auto split: prod.splits)
  next
    case (Inr must)
    then obtain user d a st1 where "found = Some (user, d)" "assess env at tn (us_id user) (pa_context pa) counted (st\<lparr>fs_accounts := acc1\<rparr>) = (a, st1)"
      using rest by (auto split: option.splits prod.splits)
    then show ?thesis using that checks found v rest Inr ident_def by simp
  qed
qed

lemma failures_from_ip_since_windows:
  "failures_from_ip_since t ip (a, b) rows = (failures_from_ip t ip a rows, failures_from_ip t ip b rows)"
proof -
  have "filter (\<lambda>r. x \<le> la_created_at r) (filter (\<lambda>r. la_tenant r = t \<and> la_ip r = Some ip \<and> \<not> la_success r \<and> min a b \<le> la_created_at r) rows)
      = filter (\<lambda>r. la_tenant r = t \<and> la_ip r = Some ip \<and> \<not> la_success r \<and> x \<le> la_created_at r) rows" if "min a b \<le> x" for x
    unfolding filter_filter using that by (intro filter_cong) auto
  then show ?thesis by (simp add: failures_from_ip_since_def failures_from_ip_def Let_def)
qed

lemma ip_failures_below:
  assumes "ip_failures at tn (Some ip) rows = Inr counted" "0 < lk_ip_max_failures (se_lockout tn)"
  shows "failures_from_ip (tn_id tn) ip (at_now at - minutes (max (lk_ip_window_minutes (se_lockout tn)) 1)) rows < lk_ip_max_failures (se_lockout tn)"
  using assms by (auto simp: ip_failures_def Let_def failures_from_ip_since_windows not_le split: if_splits)

lemma password_checks_ok:
  "password_checks env tn f ident pa = Inr () \<Longrightarrow> lf_stage f = AtAuthenticate \<and> se_auth_password tn"
  by (auto simp: password_checks_def andThen_def ensure_def split: if_splits)

text \<open>
  C12. A password signs in only who it belongs to. When the step authenticates an identifier with a local
  account that has a password, the flow was at sign-in, passwords are enabled, the account is
  neither disabled nor locked, the stored hash verifies the password, the address has failed less
  often than the throttle allows, and the session is that user's.
\<close>

theorem password_sign_in_is_earned:
  assumes "password_step env at salt dk new_sid new_id url tn f pa st = (Inr (Authenticated session f'), st')"
    and "find_by_ident (tn_id tn) (to_lowercase (pe_lib (fe_pw env)) (trim (pa_identifier pa))) (fs_accounts st) = Some user"
    and "ac_password_hash user = Some h"
  shows "lf_stage f = AtAuthenticate \<and> se_auth_password tn \<and> us_status user \<noteq> UserDisabled \<and>
    \<not> is_locked_now (at_now at) (user.truncate user) \<and> verifies (fe_pw env) (pa_password pa) h \<and> ss_user session = us_id user \<and>
    (\<forall>ip. rx_ip (pa_context pa) = Some ip \<and> 0 < lk_ip_max_failures (se_lockout tn) \<longrightarrow>
       failures_from_ip (tn_id tn) ip (at_now at - minutes (max (lk_ip_window_minutes (se_lockout tn)) 1)) (fs_attempts st)
         < lk_ip_max_failures (se_lockout tn))"
proof -
  have "\<nexists>f1 l. Authenticated session f' = Rejected f1 l" by simp
  from password_step_accepted [OF assms(1) this] obtain counted user1 d acc acc1 must a st1 where
    checks: "password_checks env tn f (to_lowercase (pe_lib (fe_pw env)) (trim (pa_identifier pa))) pa = Inr ()"
      "ip_failures at tn (rx_ip (pa_context pa)) (fs_attempts st) = Inr counted"
    and found: "password_user dk (tn_id tn) (to_lowercase (pe_lib (fe_pw env)) (trim (pa_identifier pa))) (fs_accounts st) = Inr (Some (user1, d), acc)"
    and v: "verdict env at salt dk tn (pa_password pa) (Some (user1, d)) acc = (Inr (Inr must), acc1)"
    and r: "(if is_blocked (as_risk a) then refuse env at new_id url tn f user1 (pa_context pa) st1
      else sign_in_as env at new_sid tn (to_lowercase (pe_lib (fe_pw env)) (trim (pa_identifier pa))) f (us_id user1) [''pwd''] (pa_context pa) must a st1)
        = (Inr (Authenticated session f'), st')"
    by metis
  have "user1 = user" "\<not> d" using found assms(2) by (auto simp: password_user_def)
  moreover have "ss_user session = us_id user1"
    using r refuse_not_authenticated sign_in_as_user by (metis fst_conv)
  moreover have "us_status user \<noteq> UserDisabled \<and> \<not> is_locked_now (at_now at) (user.truncate user) \<and> verifies (fe_pw env) (pa_password pa) h"
    using v \<open>user1 = user\<close> \<open>\<not> d\<close> assms(3)
    by (auto simp: verdict_def verify_and_upgrade_def split: if_splits prod.splits sum.splits verify_outcome.splits option.splits
        dest: verify_prepare_valid)
  ultimately show ?thesis using password_checks_ok [OF checks(1)] checks(2) ip_failures_below by auto
qed

lemma refuse_leaves:
  assumes "refuse env at new_id url tn f user ctx st = (Inr r, st')"
  shows "fs_sessions st' = fs_sessions st \<and> fs_flows st' = delete_flow (lf_tenant f) (lf_id f) (fs_flows st) \<and>
    fs_attempts st' = record_attempt (at_db at) (tn_id tn) (us_username user) (rx_ip ctx) False (Some ''risk_blocked'') (fs_attempts st)"
proof -
  let ?st = "delete_in f (deny_flow_device at f (attempt_in at (tn_id tn) (us_username user) (rx_ip ctx) False (Some ''risk_blocked'') st))"
  have "st' = snd (denial_redirect env at new_id url tn f ''the sign-in was refused'' ?st)"
    using assms by (auto simp: refuse_def Let_def andThenS_Inr)
  moreover have "fs_attempts ?st = record_attempt (at_db at) (tn_id tn) (us_username user) (rx_ip ctx) False (Some ''risk_blocked'') (fs_attempts st)"
    by (simp add: delete_in_def) (simp add: attempt_in_def)
  ultimately show ?thesis by (simp add: delete_in_def)
qed

text \<open>
  A sign-in the risk policy refuses leaves no trace but the failed attempt: no session was opened,
  changed or ended, the flow is gone, and the one attempt recorded is a failure.
\<close>

theorem refused_sign_in_opens_nothing:
  assumes "password_step env at salt dk new_sid new_id url tn f pa st = (Inr (Blocked redirect), st')"
  shows "fs_sessions st' = fs_sessions st \<and> get_flow now (lf_tenant f) (lf_id f) (fs_flows st') = None \<and>
    (\<exists>a. fs_attempts st' = fs_attempts st @ [a] \<and> \<not> la_success a \<and> la_reason a = Some ''risk_blocked'')"
proof -
  have accepted: "\<nexists>f1 l. Blocked redirect = Rejected f1 l" by simp
  show ?thesis
  proof (rule password_step_accepted [OF assms accepted])
    fix ident counted user1 acc1 must a st1
    assume a: "assess env at tn (us_id user1) (pa_context pa) counted (st\<lparr>fs_accounts := acc1\<rparr>) = (a, st1)"
    and r: "(if is_blocked (as_risk a) then refuse env at new_id url tn f user1 (pa_context pa) st1
      else sign_in_as env at new_sid tn ident f (us_id user1) [''pwd''] (pa_context pa) must a st1) = (Inr (Blocked redirect), st')"
    have "refuse env at new_id url tn f user1 (pa_context pa) st1 = (Inr (Blocked redirect), st')"
      using r sign_in_as_not_blocked [of env at new_sid tn ident f "us_id user1" "[''pwd'']" "pa_context pa" must a st1 redirect]
      by (simp split: if_splits)
    from refuse_leaves [OF this] assess_flows [OF a] show ?thesis
      by (simp add: get_flow_def delete_flow_def kv_get_del record_attempt_def)
  qed
qed

text \<open>
  C33. A locked or disabled account gives nothing away: whatever two passwords are tried on it, right or
  wrong, the step answers the same and leaves the same state.
\<close>

theorem locked_account_gives_nothing_away:
  assumes "find_by_ident (tn_id tn) (to_lowercase (pe_lib (fe_pw env)) (trim (pa_identifier pa))) (fs_accounts st) = Some user"
    and "us_status user = UserDisabled \<or> is_locked_now (at_now at) (user.truncate user)"
    and "pa_password pa \<noteq> []" and "pw \<noteq> []"
  shows "password_step env at salt dk new_sid new_id url tn f (pa\<lparr>pa_password := pw\<rparr>) st
    = password_step env at salt dk new_sid new_id url tn f pa st"
proof -
  have "verdict env at salt dk tn pw (Some (user, False)) acc = verdict env at salt dk tn (pa_password pa) (Some (user, False)) acc" for acc
    using assms(2) by (auto simp: verdict_def)
  moreover have "password_checks env tn f ident (pa\<lparr>pa_password := pw\<rparr>) = password_checks env tn f ident pa" for ident
    using assms(3,4) by (simp add: password_checks_def)
  moreover have "password_user dk (tn_id tn) (to_lowercase (pe_lib (fe_pw env)) (trim (pa_identifier pa))) (fs_accounts st) = Inr (Some (user, False), fs_accounts st)"
    using assms(1) by (simp add: password_user_def)
  ultimately show ?thesis
    by (cases "andThen (password_checks env tn f (to_lowercase (pe_lib (fe_pw env)) (trim (pa_identifier pa))) pa)
        (\<lambda>_. ip_failures at tn (rx_ip (pa_context pa)) (fs_attempts st))") (simp_all add: password_step_def Let_def)
qed

section \<open>Wrong codes\<close>

text \<open>A run of codes on one flow, each on the flow as it is then stored, every one of them rejected.\<close>

fun all_rejected :: "flow_env \<Rightarrow> flow_tenant \<Rightarrow> uuid \<Rightarrow> (moment \<times> string \<times> bool) list \<Rightarrow> flow_state \<Rightarrow> bool" where
  "all_rejected env tn i [] st = True"
| "all_rejected env tn i ((at, code, remember) # tries) st =
     (case load_flow (at_now at) (tn_id tn) i (fs_flows st) of
        Inl _ \<Rightarrow> False
      | Inr f \<Rightarrow>
          (case mfa_verify_step env at tn f code remember st of
             (Inr (MfaRejected _), st1) \<Rightarrow> all_rejected env tn i tries st1
           | _ \<Rightarrow> False))"

lemma mfa_passed_not_rejected: "fst (mfa_passed env at tn f u ms rm codes st) \<noteq> Inr (MfaRejected f1)"
  by (auto simp: mfa_passed_def andThenS_def split: prod.splits sum.splits)

lemma mfa_verify_step_rejected:
  assumes "mfa_verify_step env at tn f code remember st = (Inr (MfaRejected f1), st1)"
  shows "fs_flows st1 = (if MFA_MAX_ATTEMPTS \<le> lf_attempts f + 1 then delete_flow (tn_id tn) (lf_id f) (fs_flows st)
                         else save_flow (at_now at) (f\<lparr>lf_attempts := lf_attempts f + 1\<rparr>) (fs_flows st))"
proof -
  have not: "mfa_passed env at tn f u ms rm codes st2 \<noteq> (Inr (MfaRejected f1), st1)" for u ms rm codes st2
    using mfa_passed_not_rejected [of env at tn f u ms rm codes st2 f1] by (metis fst_conv)
  obtain fx where "mfa_rejected at tn f (st\<lparr>fs_factors := fx\<rparr>) = (Inr (MfaRejected f1), st1)"
    using assms not by (auto simp: mfa_verify_step_def split: prod.splits sum.splits option.splits verified.splits)
  then show ?thesis by (auto simp: mfa_rejected_def mfa_reject_def Let_def save_in_def split: if_splits)
qed

lemma load_flow_Inr:
  "load_flow now t i m = Inr f \<longleftrightarrow> get_flow now t i m = Some f"
  by (auto simp: load_flow_def or_error_def split: option.splits)

lemma get_flow_stored: "get_flow now t i m = Some f \<Longrightarrow> m (t, i) = Some (f', d) \<Longrightarrow> f' = f"
  by (auto simp: get_flow_def kv_get_def kv_entry_def split: option.splits if_splits)

lemma all_rejected_Cons:
  "all_rejected env tn i ((at, code, remember) # tries) st \<longleftrightarrow>
     (\<exists>f f1 st1. get_flow (at_now at) (tn_id tn) i (fs_flows st) = Some f \<and>
        mfa_verify_step env at tn f code remember st = (Inr (MfaRejected f1), st1) \<and> all_rejected env tn i tries st1)"
proof (cases "get_flow (at_now at) (tn_id tn) i (fs_flows st)")
  case None
  then show ?thesis by (simp add: load_flow_def or_error_def)
next
  case (Some f)
  then show ?thesis
    by (cases "mfa_verify_step env at tn f code remember st")
      (auto simp: load_flow_def or_error_def split: sum.splits mfa_step.splits)
qed

text \<open>
  C34. A flow survives few wrong codes: of the codes tried on it one after another, with at least a second of its life left,
  only as many can be rejected as its failures leave of five, and one when they leave none. The
  failures of the first factor count, so the flow of somebody who mistyped the password four times is
  discarded by the first wrong code.
\<close>

theorem wrong_codes_bounded:
  assumes "all_rejected env tn i tries st" and "fs_flows st (tn_id tn, i) = Some (f, d)"
    and "lf_tenant f = tn_id tn" and "lf_id f = i" and "\<forall>(at, code, remember)\<in>set tries. at_now at + dur_secs 1 \<le> lf_expires_at f"
  shows "length tries \<le> max 1 (MFA_MAX_ATTEMPTS - lf_attempts f)"
  using assms
proof (induction tries arbitrary: st f d)
  case Nil
  then show ?case by simp
next
  case (Cons attempt tries)
  obtain at code remember where at: "attempt = (at, code, remember)" by (cases attempt)
  obtain f1 st1 where l: "get_flow (at_now at) (tn_id tn) i (fs_flows st) = Some f"
    and r: "mfa_verify_step env at tn f code remember st = (Inr (MfaRejected f1), st1)"
    and rest: "all_rejected env tn i tries st1"
    using Cons.prems(1) get_flow_stored [where m = "fs_flows st" and t = "tn_id tn" and i = i and f' = f and d = d] Cons.prems(2) unfolding at all_rejected_Cons by blast
  note st1 = mfa_verify_step_rejected [OF r]
  show ?case
  proof (cases "MFA_MAX_ATTEMPTS \<le> lf_attempts f + 1")
    case True
    then have "get_flow now (tn_id tn) i (fs_flows st1) = None" for now
      using st1 Cons.prems(4) by (simp add: get_flow_def delete_flow_def kv_get_del)
    then have "tries = []"
      using rest by (cases tries) (auto simp: load_flow_def or_error_def)
    then show ?thesis by simp
  next
    case False
    let ?g = "f\<lparr>lf_attempts := lf_attempts f + 1\<rparr>"
    have "1 \<le> num_seconds (lf_expires_at f - at_now at)"
      using Cons.prems(5) by (subst num_seconds_ge_iff) (auto simp: at)
    then have "\<exists>d. fs_flows st1 (tn_id tn, i) = Some (?g, d)"
      using st1 False Cons.prems(3,4) by (auto simp: save_flow_def Let_def kv_set_ex_def kv_set_until_def)
    then obtain d' where "fs_flows st1 (tn_id tn, i) = Some (?g, d')" by blast
    with Cons.IH [OF rest this] Cons.prems(3-5) have "length tries \<le> max 1 (MFA_MAX_ATTEMPTS - (lf_attempts f + 1))" by simp
    then show ?thesis using False by (simp add: max_def split: if_splits; arith)
  qed
qed

section \<open>Consent\<close>

lemma grant_consent_missing: "missing_scopes t u c scopes (grant_consent dbnow t u c scopes rows) = []"
proof (cases "find (consent_of t u c) rows")
  case None
  then have "\<not> list_ex (consent_of t u c) rows" by (auto simp: find_None_iff list_ex_iff)
  moreover from this have "find (consent_of t u c) (rows @ [r]) = (if consent_of t u c r then Some r else None)" for r
    by (induction rows) auto
  ultimately show ?thesis by (simp add: missing_scopes_def grant_consent_def consent_of_def)
next
  case (Some r)
  have "find (consent_of t u c) (update_where (consent_of t u c) g rows) = Some (g r)" if "\<And>x. consent_of t u c (g x) = consent_of t u c x" for g
    using Some by (induction rows) (auto simp: that split: if_splits)
  moreover have "list_ex (consent_of t u c) rows" using Some by (auto simp: find_Some_iff list_ex_iff)
  ultimately have "find (consent_of t u c) (grant_consent dbnow t u c scopes rows)
      = Some (r\<lparr>gc_scopes := remdups (gc_scopes r @ scopes), gc_granted_at := dbnow, gc_revoked_at := None\<rparr>)"
    by (simp add: grant_consent_def consent_of_def)
  then show ?thesis by (simp add: missing_scopes_def filter_empty_conv Let_def)
qed

text \<open>What an approval goes through.\<close>

lemma consent_step_granted:
  assumes "consent_step env at new_id url tn f True granted st = (Inr (Granted f'), st')" "lf_user f = Some u"
  obtains session w c st2 where
    "(session, w) = (case lf_session f of
        None \<Rightarrow> (None, fs_sessions st)
      | Some sid \<Rightarrow> get_session (at_now at) (tn_id tn) sid (tn_session_policy tn) (fs_sessions st))"
    "\<not> (case session of None \<Rightarrow> False | Some s \<Rightarrow> ss_impersonator s \<noteq> None)" "client_of env f = Inr c"
    "advance env at tn False (f\<lparr>lf_request := (lf_request f)\<lparr>aq_scopes := effective_scopes f granted\<rparr>, lf_pending := [], lf_stage := AtDone\<rparr>)
        (st\<lparr>fs_sessions := w, fs_consents := grant_consent (at_db at) (tn_id tn) u (cl_id c) (effective_scopes f granted) (fs_consents st)\<rparr>) = (Inr f', st2)"
    "st' = save_in at f' st2"
proof -
  define f1 where "f1 = f\<lparr>lf_request := (lf_request f)\<lparr>aq_scopes := effective_scopes f granted\<rparr>, lf_pending := [], lf_stage := AtDone\<rparr>"
  obtain session w c where s: "(session, w) = (case lf_session f of
        None \<Rightarrow> (None, fs_sessions st)
      | Some sid \<Rightarrow> get_session (at_now at) (tn_id tn) sid (tn_session_policy tn) (fs_sessions st))"
    and i: "\<not> (case session of None \<Rightarrow> False | Some s \<Rightarrow> ss_impersonator s \<noteq> None)" and c: "client_of env f = Inr c"
    and a: "andThenS (advance_and_save env at tn False f1
        (st\<lparr>fs_sessions := w, fs_consents := grant_consent (at_db at) (tn_id tn) u (cl_id c) (effective_scopes f granted) (fs_consents st)\<rparr>))
        (\<lambda>f2 st3. (Inr (Granted f2), st3)) = (Inr (Granted f'), st')"
    using assms unfolding consent_step_def Let_def f1_def [symmetric]
    by (auto simp: flow_user_def or_error_def split: if_splits sum.splits prod.splits)
  from a have "advance_and_save env at tn False f1
        (st\<lparr>fs_sessions := w, fs_consents := grant_consent (at_db at) (tn_id tn) u (cl_id c) (effective_scopes f granted) (fs_consents st)\<rparr>) = (Inr f', st')"
    by (auto simp: andThenS_Inr)
  then show thesis using that [OF s i c] unfolding f1_def by (auto simp: advance_and_save_def andThenS_Inr)
qed

text \<open>
  C35. Approving never widens a request. Of the scopes asked for, those the user did not tick are gone, \<open>openid\<close> and what was
  granted before stay, and the recorded consent covers all that is left, so that it is not asked again;
  an impersonated session cannot approve.
\<close>

theorem consent_never_widens:
  assumes "consent_step env at new_id url tn f True granted st = (Inr (Granted f'), st')" and "lf_user f = Some u"
  shows "set (aq_scopes (lf_request f'))
      = {s \<in> set (aq_scopes (lf_request f)). s = ''openid'' \<or> s \<notin> set (lf_pending f) \<or> granted = None \<or> s \<in> set (the granted)} \<and>
    (\<exists>c. client_of env f = Inr c \<and> missing_scopes (tn_id tn) u (cl_id c) (aq_scopes (lf_request f')) (fs_consents st') = []) \<and>
    (\<forall>sid s w. lf_session f = Some sid \<and> get_session (at_now at) (tn_id tn) sid (tn_session_policy tn) (fs_sessions st) = (Some s, w)
       \<longrightarrow> ss_impersonator s = None)"
proof (rule consent_step_granted [OF assms])
  fix session w c st2
  assume s: "(session, w) = (case lf_session f of
        None \<Rightarrow> (None, fs_sessions st)
      | Some sid \<Rightarrow> get_session (at_now at) (tn_id tn) sid (tn_session_policy tn) (fs_sessions st))"
    "\<not> (case session of None \<Rightarrow> False | Some s \<Rightarrow> ss_impersonator s \<noteq> None)" "client_of env f = Inr c"
    and adv: "advance env at tn False (f\<lparr>lf_request := (lf_request f)\<lparr>aq_scopes := effective_scopes f granted\<rparr>, lf_pending := [], lf_stage := AtDone\<rparr>)
        (st\<lparr>fs_sessions := w, fs_consents := grant_consent (at_db at) (tn_id tn) u (cl_id c) (effective_scopes f granted) (fs_consents st)\<rparr>) = (Inr f', st2)"
    and st': "st' = save_in at f' st2"
  have "aq_scopes (lf_request f') = effective_scopes f granted" using stage_apart_fields(3) [OF advance_flow [OF adv]] by simp
  moreover have "fs_consents st' = grant_consent (at_db at) (tn_id tn) u (cl_id c) (effective_scopes f granted) (fs_consents st)"
    using only_sessions_frame(2) [OF advance_frame [OF adv]] st' by simp
  moreover have "set (effective_scopes f granted)
      = {s \<in> set (aq_scopes (lf_request f)). s = ''openid'' \<or> s \<notin> set (lf_pending f) \<or> granted = None \<or> s \<in> set (the granted)}"
    by (auto simp: effective_scopes_def Let_def split: option.splits)
  ultimately show ?thesis using s by (auto simp: grant_consent_missing)
qed

section \<open>Examples\<close>

definition ex_flow_env :: flow_env where
  "ex_flow_env = \<lparr>fe_pw = ex_pw_env, fe_factor = ex_factor_lib, fe_travel = (\<lambda>a b s k. False), fe_roles = (\<lambda>t u. []),
     fe_admin = (\<lambda>t u. False), fe_schema = (\<lambda>t. []), fe_orgs = (\<lambda>t u. []),
     fe_client = (\<lambda>t c. if c = ''app'' then Some ex_client else None), fe_rp = (\<lambda>c. None), fe_iss_sid = (\<lambda>u. None),
     fe_captcha_key = None, fe_captcha_verify = (\<lambda>tok ip. Inr True), fe_url = (\<lambda>u q. Some u), fe_issuer = (\<lambda>t. ''https://id'')\<rparr>"

definition ex_lockout :: lockout_policy where
  "ex_lockout = \<lparr>lk_max_failures = 5, lk_lock_minutes = 15, lk_ip_max_failures = 20, lk_ip_window_minutes = 15\<rparr>"

definition ex_risk :: "nat \<Rightarrow> risk_policy" where
  "ex_risk block_at = default_risk_policy\<lparr>rk_enabled := True, rk_block_at := block_at, rk_velocity_max_failures := 1\<rparr>"

definition ex_flow_tenant :: "risk_policy \<Rightarrow> flow_tenant" where
  "ex_flow_tenant risk = tenant.extend ex_tenant
     (flow_tenant.fields ex_pw_policy MfaOptional True risk False True True ex_lockout 0 False)"

definition ex_request :: auth_request where
  "ex_request = \<lparr>aq_client = 7, aq_client_public_id = ''app'', aq_redirect_uri = ''https://app/cb'', aq_response_mode = ModeQuery,
     aq_scopes = [''openid'', ''orders''], aq_audiences = [], aq_state = None, aq_nonce = None, aq_code_challenge = None, aq_prompt = [],
     aq_max_age = None, aq_acr_values = [], aq_login_hint = None, aq_ui_locales = [], aq_claims = None, aq_skip_consent = False,
     aq_device_code = None, aq_organization = None, aq_saml = False\<rparr>"

definition ex_flow :: "flow_stage \<Rightarrow> login_flow" where
  "ex_flow stage = \<lparr>lf_id = 5, lf_tenant = 1, lf_request = ex_request, lf_stage = stage,
     lf_session = (if stage = AtAuthenticate then None else Some 50), lf_user = (if stage = AtAuthenticate then None else Some 3),
     lf_pending = [''orders''], lf_require_auth_after = None, lf_csrf = ''csrf'', lf_attempts = 0, lf_amr = [''pwd''], lf_org = None,
     lf_trusted = False, lf_risk_step_up = False, lf_remember = False, lf_created_at = 0, lf_expires_at = dur_secs 600\<rparr>"

definition ex_flow_state :: flow_state where
  "ex_flow_state = \<lparr>fs_flows = Map.empty, fs_sessions = ex_state [], fs_accounts = ex_pw_state (Some ''$2b$pass'') None [],
     fs_factors = \<lparr>ft_creds = [], ft_used = Map.empty, ft_enrol = Map.empty\<rparr>,
     fs_attempts = [\<lparr>la_tenant = 1, la_identifier = ''bob'', la_ip = Some ''10.0.0.1'', la_success = False, la_reason = None, la_created_at = 0\<rparr>],
     fs_locations = [], fs_devices = [], fs_consents = [], fs_device_codes = ex_device_state, fs_denials = Map.empty\<rparr>"

definition ex_at :: moment where "ex_at = \<lparr>at_now = 0, at_db = 0\<rparr>"

definition ex_with_flow :: "flow_stage \<Rightarrow> flow_state" where
  "ex_with_flow stage = ex_flow_state\<lparr>fs_flows := [(1, 5) \<mapsto> (ex_flow stage, Some (dur_secs 600))]\<rparr>"

definition ex_attempt :: password_attempt where
  "ex_attempt = \<lparr>pa_identifier = ''ada'', pa_password = ''pass'', pa_captcha = None,
     pa_context = \<lparr>rx_ip = Some ''10.0.0.1'', rx_user_agent = None, rx_existing = None, rx_device_secret = None, rx_remember = False,
       rx_location = None\<rparr>\<rparr>"

definition ex_consent :: "(app_error + consent_outcome) \<times> flow_state" where
  "ex_consent = consent_step ex_flow_env ex_at 9 (Inr []) (ex_flow_tenant default_risk_policy) (ex_flow AtConsent) True None (ex_with_flow AtConsent)"

definition ex_sign_in :: "risk_policy \<Rightarrow> (app_error + auth_step) \<times> flow_state" where
  "ex_sign_in risk = password_step ex_flow_env ex_at ''salt'' \<lparr>dk_unknown = Inr None, dk_verify = Inr None\<rparr> 60 9 (Inr [])
     (ex_flow_tenant risk) (ex_flow AtAuthenticate) ex_attempt (ex_with_flow AtAuthenticate)"

lemma ex_flow_tenant_simps [simp]:
  "tn_id (ex_flow_tenant r) = 1" "tn_session_policy (ex_flow_tenant r) = default_session_policy" "se_password (ex_flow_tenant r) = ex_pw_policy"
  "se_mfa (ex_flow_tenant r) = MfaOptional" "se_risk (ex_flow_tenant r) = r" "\<not> se_require_terms (ex_flow_tenant r)"
  "se_auth_password (ex_flow_tenant r)" "se_lockout (ex_flow_tenant r) = ex_lockout" "se_captcha_after_failures (ex_flow_tenant r) = 0"
  "\<not> se_captcha_on_registration (ex_flow_tenant r)"
  by (simp_all add: ex_flow_tenant_def ex_tenant_def tenant.defs flow_tenant.defs)

lemma ex_flow_state_simps [simp]:
  "fs_flows ex_flow_state = Map.empty" "fs_sessions ex_flow_state = ex_state []" "fs_accounts ex_flow_state = ex_pw_state (Some ''$2b$pass'') None []"
  "fs_consents ex_flow_state = []" "fs_devices ex_flow_state = []" "fs_locations ex_flow_state = []"
  "fs_factors ex_flow_state = \<lparr>ft_creds = [], ft_used = Map.empty, ft_enrol = Map.empty\<rparr>"
  by (simp_all add: ex_flow_state_def)

lemma ex_flow_simps [simp]:
  "lf_request (ex_flow s) = ex_request" "lf_stage (ex_flow s) = s" "lf_tenant (ex_flow s) = 1" "lf_id (ex_flow s) = 5"
  "lf_session (ex_flow s) = (if s = AtAuthenticate then None else Some 50)" "lf_user (ex_flow s) = (if s = AtAuthenticate then None else Some 3)"
  "lf_org (ex_flow s) = None" "\<not> lf_risk_step_up (ex_flow s)" "lf_expires_at (ex_flow s) = dur_secs 600" "lf_pending (ex_flow s) = [''orders'']"
  "lf_attempts (ex_flow s) = 0"
  by (simp_all add: ex_flow_def)

lemma ex_request_simps [simp]:
  "aq_acr_values ex_request = []" "aq_organization ex_request = None" "aq_client_public_id ex_request = ''app''" "aq_scopes ex_request = [''openid'', ''orders'']"
  by (simp_all add: ex_request_def)

lemma ex_at_simps [simp]: "at_now ex_at = 0" "at_db ex_at = 0"
  by (simp_all add: ex_at_def)

lemma ex_no_session [simp]: "get_session now t i p (ex_state []) = (None, ex_state [])"
  by (simp add: get_session_def ex_state_def)

lemma ex_get_user: "get_user 1 3 (ex_pw_state h c rows) = Inr (ex_account\<lparr>ac_password_hash := h, ac_password_algo := map_option (\<lambda>_. ''pbkdf2-sha512'') h,
      ac_password_changed_at := c, us_updated_at := (case c of None \<Rightarrow> 0 | Some c \<Rightarrow> c)\<rparr>)"
  by (simp add: get_user_def find_account_def ex_pw_state_def)

lemma ex_no_factor [simp]: "has_second_factor t u \<lparr>ft_creds = [], ft_used = m, ft_enrol = e\<rparr> = False"
  by (simp add: has_second_factor_def count_of_types_def rows_affected_def)

lemma ex_client_of [simp]: "lf_request f = ex_request \<Longrightarrow> client_of ex_flow_env f = Inr ex_client"
  by (simp add: client_of_def ex_flow_env_def ex_client_def)

text \<open>A flow of the example advances to its end, by way of consent.\<close>

lemma ex_advance:
  assumes "aq_acr_values (lf_request f) = []" "aq_organization (lf_request f) = None" "aq_client_public_id (lf_request f) = ''app''"
    "lf_user f = Some 3" "lf_session f = Some sid" "\<not> lf_risk_step_up f" "lf_org f = None"
    "fs_accounts st = \<lparr>pw_users = [a], pw_history = []\<rparr>" "us_tenant a = 1" "us_id a = 3" "us_deleted_at a = None" "fs_factors st = fs_factors ex_flow_state"
  shows "\<exists>f1 st1. advance ex_flow_env at (ex_flow_tenant r) False f st = (Inr f1, st1) \<and> (lf_stage f = AtDone \<longrightarrow> lf_stage f1 = AtDone)"
proof -
  obtain ask f1 st1 where op: "organization_pending ex_flow_env at (ex_flow_tenant r) 3 f st = (ask, f1, st1)"
    by (cases "organization_pending ex_flow_env at (ex_flow_tenant r) 3 f st")
  have "\<not> ask" using organization_pending_iff [of ex_flow_env at "ex_flow_tenant r" 3 f st False a] op
    by (simp add: selectable_organizations_def ex_flow_env_def)
  moreover obtain x where "f1 = f\<lparr>lf_org := x\<rparr>" using organization_pending_frame [OF op] by (auto simp: org_apart_def)
  moreover have "get_user 1 3 (fs_accounts st) = Inr a" using assms by (simp add: get_user_def find_account_def)
  moreover have "\<not> mfa_required ex_flow_env (ex_flow_tenant r) f 3 (fs_factors st)"
    using assms by (simp add: mfa_required_def requested_mfa_class_def policy_requires_mfa_def)
  moreover have "missing_required ex_flow_env 1 a = []" by (simp add: missing_required_def ex_flow_env_def)
  moreover have "client_of ex_flow_env g = Inr ex_client" if "lf_request g = lf_request f" for g
    using assms that by (simp add: client_of_def ex_flow_env_def ex_client_def)
  ultimately show ?thesis using assms(4,5) op by (simp add: advance_def Let_def del: One_nat_def)
qed

lemma ex_consent_done:
  obtains f st where "ex_consent = (Inr (Granted f), st)" "lf_stage f = AtDone" "fs_flows st (1, 5) = Some (f, Some (dur_secs 600))"
proof -
  let ?f = "(ex_flow AtConsent)\<lparr>lf_request := ex_request\<lparr>aq_scopes := [''openid'', ''orders'']\<rparr>, lf_pending := [], lf_stage := AtDone\<rparr>"
  let ?st = "(ex_with_flow AtConsent)\<lparr>fs_sessions := ex_state [], fs_consents := grant_consent 0 1 3 7 [''openid'', ''orders''] []\<rparr>"
  have scopes: "effective_scopes (ex_flow AtConsent) None = [''openid'', ''orders'']" by (simp add: effective_scopes_def)
  obtain f1 st1 where adv: "advance ex_flow_env ex_at (ex_flow_tenant default_risk_policy) False ?f ?st = (Inr f1, st1)" and d: "lf_stage f1 = AtDone"
    using ex_advance [of ?f 50 ?st "hd (pw_users (fs_accounts ex_flow_state))" ex_at default_risk_policy]
    by (auto simp: ex_with_flow_def ex_pw_state_def simp del: One_nat_def)
  have "ex_consent = (Inr (Granted f1), save_in ex_at f1 st1)"
    using adv scopes
    by (simp add: ex_consent_def consent_step_def flow_user_def or_error_def advance_and_save_def ex_with_flow_def ex_client_def del: One_nat_def)
  moreover have "lf_expires_at f1 = dur_secs 600" "lf_tenant f1 = 1" "lf_id f1 = 5"
    using stage_apart_fields [OF advance_flow [OF adv]] by simp_all
  then have "fs_flows (save_in ex_at f1 st1) (1, 5) = Some (f1, Some (dur_secs 600))"
    by (simp add: save_in_def save_flow_def kv_set_ex_def kv_set_until_def)
  ultimately show thesis using that d by blast
qed

definition ex_row_of :: account where
  "ex_row_of = ex_account\<lparr>ac_password_hash := Some ''$2b$pass'', ac_password_algo := Some ''pbkdf2-sha512'',
      ac_password_changed_at := None, us_updated_at := 0\<rparr>"

lemma ex_row_of_simps [simp]:
  "us_tenant ex_row_of = 1" "us_id ex_row_of = 3" "us_deleted_at ex_row_of = None" "us_locked_until ex_row_of = None"
  "us_status ex_row_of = UserActive" "us_username ex_row_of = ''ada''" "ac_password_hash ex_row_of = Some ''$2b$pass''"
  by (simp_all add: ex_row_of_def ex_account_def user.defs account.defs ex_user_def)

lemma ex_accounts: "ex_pw_state (Some ''$2b$pass'') None [] = \<lparr>pw_users = [ex_row_of], pw_history = []\<rparr>"
  by (simp add: ex_pw_state_def ex_row_of_def)

lemma ex_ident [simp]: "to_lowercase (pe_lib (fe_pw ex_flow_env)) (trim ''ada'') = ''ada''"
proof -
  have "trim ''ada'' = ''ada''" by (rule trim_visible) (simp add: visible_def)
  then show ?thesis by (simp add: to_lowercase_def byte_def lower_def to_ascii_lowercase_def ascii_upper_def)
qed

lemma ex_found: "find_by_ident 1 ''ada'' \<lparr>pw_users = [ex_row_of], pw_history = []\<rparr> = Some ex_row_of"
  by (simp add: find_by_ident_def)

lemma ex_verdict:
  "\<exists>a. verdict ex_flow_env ex_at ''salt'' dk (ex_flow_tenant r) ''pass'' (Some (ex_row_of, False)) \<lparr>pw_users = [ex_row_of], pw_history = []\<rparr>
     = (Inr (Inr False), \<lparr>pw_users = [a], pw_history = []\<rparr>) \<and> us_tenant a = 1 \<and> us_id a = 3 \<and> us_deleted_at a = None"
proof -
  have "verify_hash (pe_lib ex_pw_env) (pe_hasher ex_pw_env) ''pass'' ''$2b$pass'' = Inr \<lparr>pv_valid = True, pv_rehash = True\<rparr>"
    by (simp add: ex_pw_env_def is_approved_def starts_with_def legacy_verify_def is_bcrypt_def)
  then have "verify_prepare ex_pw_env x 0 ''salt'' ex_pw_policy ex_row_of ''pass'' = Inr (VValid False, Some (ex_hash ''pass''))" for x
    by (simp add: verify_prepare_def verify_blocking_def hash_blocking_def ex_hash_password password_expired_def ex_pw_policy_def default_password_policy_def
        ex_row_of_def)
  moreover have "fe_pw ex_flow_env = ex_pw_env" by (simp add: ex_flow_env_def)
  moreover have "\<not> is_locked_now 0 (user.truncate ex_row_of)" by (simp add: is_locked_now_def user.truncate_def)
  ultimately show ?thesis by (simp add: verdict_def verify_and_upgrade_def upgrade_write_def)
qed

lemma ex_checks: "password_checks ex_flow_env (ex_flow_tenant r) (ex_flow AtAuthenticate) ''ada'' ex_attempt = Inr ()"
  by (simp add: password_checks_def ex_attempt_def enforce_captcha_def captcha_required_def ex_flow_env_def)

lemma ex_counted: "ip_failures ex_at (ex_flow_tenant r) (Some ''10.0.0.1'') (fs_attempts ex_flow_state)
  = Inr (if rk_enabled r \<and> 0 < rk_velocity_max_failures r then Some 1 else None)"
  by (simp add: ip_failures_def failures_from_ip_since_windows failures_from_ip_def ex_flow_state_def ex_lockout_def velocity_since_def
      minutes_def dur_secs_def nanos_per_sec_def)

text \<open>What the password step of the example comes to, for any risk policy.\<close>

lemma ex_password_step:
  obtains acc a st1 where "fs_sessions st1 = ex_state []" "fs_accounts st1 = \<lparr>pw_users = [acc], pw_history = []\<rparr>"
    "us_tenant acc = 1" "us_id acc = 3" "us_deleted_at acc = None" "fs_factors st1 = fs_factors ex_flow_state"
    "as_trusted a = None" "as_risk a = evaluate (\<lambda>a b s k. False) r 0 1 3
       \<lparr>ri_ip = Some ''10.0.0.1'', ri_location = None, ri_new_device = False, ri_ip_failures = (if rk_enabled r \<and> 0 < rk_velocity_max_failures r then Some 1 else None)\<rparr>
       (fs_attempts ex_flow_state) []"
    "ex_sign_in r = (if is_blocked (as_risk a) then refuse ex_flow_env ex_at 9 (Inr []) (ex_flow_tenant r) (ex_flow AtAuthenticate) ex_row_of (pa_context ex_attempt) st1
      else sign_in_as ex_flow_env ex_at 60 (ex_flow_tenant r) ''ada'' (ex_flow AtAuthenticate) 3 [''pwd''] (pa_context ex_attempt) False a st1)"
proof -
  let ?dk = "\<lparr>dk_unknown = Inr None, dk_verify = Inr None\<rparr>" and ?st = "ex_with_flow AtAuthenticate"
  obtain acc where v: "verdict ex_flow_env ex_at ''salt'' ?dk (ex_flow_tenant r) ''pass'' (Some (ex_row_of, False)) \<lparr>pw_users = [ex_row_of], pw_history = []\<rparr>
     = (Inr (Inr False), \<lparr>pw_users = [acc], pw_history = []\<rparr>)" and acc: "us_tenant acc = 1" "us_id acc = 3" "us_deleted_at acc = None"
    using ex_verdict by blast
  let ?n = "if rk_enabled r \<and> 0 < rk_velocity_max_failures r then Some (1 :: nat) else None"
  let ?st1 = "?st\<lparr>fs_accounts := \<lparr>pw_users = [acc], pw_history = []\<rparr>\<rparr>"
  define p where "p = assess ex_flow_env ex_at (ex_flow_tenant r) 3 (pa_context ex_attempt) ?n ?st1"
  have fields: "rx_ip (pa_context ex_attempt) = Some ''10.0.0.1''" "pa_identifier ex_attempt = ''ada''" "pa_password ex_attempt = ''pass''"
    "fs_accounts ?st = \<lparr>pw_users = [ex_row_of], pw_history = []\<rparr>" "fs_attempts ?st = fs_attempts ex_flow_state"
    by (simp_all add: ex_attempt_def ex_with_flow_def ex_accounts)
  have user: "password_user ?dk 1 ''ada'' \<lparr>pw_users = [ex_row_of], pw_history = []\<rparr> = Inr (Some (ex_row_of, False), \<lparr>pw_users = [ex_row_of], pw_history = []\<rparr>)"
    by (simp add: password_user_def ex_found del: One_nat_def)
  have "ex_sign_in r = (case p of (a, st1) \<Rightarrow> if is_blocked (as_risk a) then refuse ex_flow_env ex_at 9 (Inr []) (ex_flow_tenant r) (ex_flow AtAuthenticate) ex_row_of (pa_context ex_attempt) st1
      else sign_in_as ex_flow_env ex_at 60 (ex_flow_tenant r) ''ada'' (ex_flow AtAuthenticate) 3 [''pwd''] (pa_context ex_attempt) False a st1)"
    unfolding ex_sign_in_def password_step_def Let_def fields ex_ident ex_checks andThen_simps ex_counted ex_flow_tenant_simps user p_def by (simp add: v case_prod_beta del: One_nat_def)
  moreover have "fst p = \<lparr>as_trusted = None, as_new_browser = False, as_risk = evaluate (\<lambda>a b s k. False) r 0 1 3
       \<lparr>ri_ip = Some ''10.0.0.1'', ri_location = None, ri_new_device = False, ri_ip_failures = ?n\<rparr> (fs_attempts ex_flow_state) []\<rparr>"
    by (simp add: p_def assess_def ex_attempt_def is_new_browser_def ex_with_flow_def ex_flow_env_def)
  moreover have "snd p = ?st1" by (simp add: p_def assess_def ex_attempt_def ex_with_flow_def Let_def)
  moreover have "fs_sessions ?st1 = ex_state []" "fs_factors ?st1 = fs_factors ex_flow_state" by (simp_all add: ex_with_flow_def)
  ultimately show thesis using that [of ?st1 acc "fst p"] acc by (simp add: case_prod_beta)
qed

lemma ex_signs_in: "\<exists>session f st. ex_sign_in default_risk_policy = (Inr (Authenticated session f), st)"
proof (rule ex_password_step [of default_risk_policy])
  fix acc a and st1 :: flow_state
  assume st1: "fs_sessions st1 = ex_state []" "fs_accounts st1 = \<lparr>pw_users = [acc], pw_history = []\<rparr>"
    "us_tenant acc = 1" "us_id acc = 3" "us_deleted_at acc = None" "fs_factors st1 = fs_factors ex_flow_state" "as_trusted a = None"
    and risk: "as_risk a = evaluate (\<lambda>a b s k. False) default_risk_policy 0 1 3
       \<lparr>ri_ip = Some ''10.0.0.1'', ri_location = None, ri_new_device = False,
        ri_ip_failures = (if rk_enabled default_risk_policy \<and> 0 < rk_velocity_max_failures default_risk_policy then Some 1 else None)\<rparr> (fs_attempts ex_flow_state) []"
    and step: "ex_sign_in default_risk_policy = (if is_blocked (as_risk a) then refuse ex_flow_env ex_at 9 (Inr []) (ex_flow_tenant default_risk_policy) (ex_flow AtAuthenticate) ex_row_of (pa_context ex_attempt) st1
      else sign_in_as ex_flow_env ex_at 60 (ex_flow_tenant default_risk_policy) ''ada'' (ex_flow AtAuthenticate) 3 [''pwd''] (pa_context ex_attempt) False a st1)"
  have allowed: "ra_action (as_risk a) = RiskAllow" by (simp add: risk evaluate_def default_risk_policy_def)
  let ?st = "attempt_in ex_at 1 ''ada'' (Some ''10.0.0.1'') True None (st1\<lparr>fs_accounts := record_login_success 0 1 3 (fs_accounts st1)\<rparr>)"
  obtain session f st2 where o': "open_session ex_flow_env ex_at 60 (ex_flow_tenant default_risk_policy) (ex_flow AtAuthenticate) 3 [''pwd''] (pa_context ex_attempt) a ?st = ((session, f), st2)"
    by (metis surj_pair)
  have f: "lf_request f = ex_request" "\<not> lf_risk_step_up f" "lf_org f = None" "fs_accounts st2 = fs_accounts ?st" "fs_factors st2 = fs_factors ?st"
    using o' allowed by (auto simp: open_session_def Let_def steps_up_def split: prod.splits)
  let ?a = "acc\<lparr>ac_last_login_at := Some 0, ac_failed_attempts := 0, us_locked_until := None\<rparr>"
  have "\<exists>f1 st3. advance ex_flow_env ex_at (ex_flow_tenant default_risk_policy) False f st2 = (Inr f1, st3) \<and> (lf_stage f = AtDone \<longrightarrow> lf_stage f1 = AtDone)"
    using open_session_user [OF o'] f st1
    by (intro ex_advance [where a = ?a and sid = "ss_id session"]) (simp_all add: record_login_success_def attempt_in_def del: One_nat_def)
  moreover have "rx_ip (pa_context ex_attempt) = Some ''10.0.0.1''" by (simp add: ex_attempt_def)
  ultimately show ?thesis
    using o' step allowed by (auto simp: sign_in_as_def is_blocked_def advance_and_save_def simp del: One_nat_def)
qed

lemma ex_is_blocked: "\<exists>url st. ex_sign_in (ex_risk 40) = (Inr (Blocked url), st)"
proof (rule ex_password_step [of "ex_risk 40"])
  fix acc a and st1 :: flow_state
  assume risk: "as_risk a = evaluate (\<lambda>a b s k. False) (ex_risk 40) 0 1 3
       \<lparr>ri_ip = Some ''10.0.0.1'', ri_location = None, ri_new_device = False,
        ri_ip_failures = (if rk_enabled (ex_risk 40) \<and> 0 < rk_velocity_max_failures (ex_risk 40) then Some 1 else None)\<rparr> (fs_attempts ex_flow_state) []"
    and step: "ex_sign_in (ex_risk 40) = (if is_blocked (as_risk a) then refuse ex_flow_env ex_at 9 (Inr []) (ex_flow_tenant (ex_risk 40)) (ex_flow AtAuthenticate) ex_row_of (pa_context ex_attempt) st1
      else sign_in_as ex_flow_env ex_at 60 (ex_flow_tenant (ex_risk 40)) ''ada'' (ex_flow AtAuthenticate) 3 [''pwd''] (pa_context ex_attempt) False a st1)"
  have "is_blocked (as_risk a)"
    by (simp add: risk is_blocked_def evaluate_def ex_risk_def default_risk_policy_def risk_failures_def risk_decide_def)
  moreover have "aq_saml ex_request = False" "aq_response_mode ex_request = ModeQuery" "fe_url ex_flow_env u q = Some u" for u q
    by (simp_all add: ex_request_def ex_flow_env_def)
  ultimately show ?thesis using step by (simp add: refuse_def denial_redirect_def error_redirect_def)
qed

lemma ex_wrong_code: "all_rejected ex_flow_env (ex_flow_tenant r) 5 [(ex_at, ''wrong'', False)] (ex_with_flow AtMfa)"
proof -
  let ?st = "ex_with_flow AtMfa"
  have loaded: "get_flow 0 1 5 (fs_flows ?st) = Some (ex_flow AtMfa)" by (simp add: get_flow_def kv_get_def kv_entry_def ex_with_flow_def not_le)
  have user: "mfa_user (ex_flow_tenant r) (ex_flow AtMfa) (fs_accounts ?st) = Inr ex_row_of"
    by (simp add: mfa_user_def flow_user_def or_error_def active_user_def get_user_def find_account_def ex_with_flow_def ex_accounts)
  have wrong: "trim ''wrong'' = ''wrong''" by (rule trim_visible) (simp add: visible_def)
  have "verify_factor (fe_factor ex_flow_env) 0 0 1 3 ''wrong'' (fs_factors ?st) = (Inr None, fs_factors ?st)"
    by (cases "recovery_wanted (fe_factor ex_flow_env) ''wrong''")
      (simp_all add: verify_factor_def wrong DIGITS_def verify_recovery_def list_secrets_of_type_def ex_with_flow_def Let_def)
  then have "\<exists>f1 st1. mfa_verify_step ex_flow_env ex_at (ex_flow_tenant r) (ex_flow AtMfa) ''wrong'' False ?st = (Inr (MfaRejected f1), st1)"
    using user by (simp add: mfa_verify_step_def mfa_rejected_def mfa_reject_def Let_def del: One_nat_def)
  then show ?thesis using loaded unfolding all_rejected_Cons by (auto simp del: One_nat_def)
qed

lemma ex_done_run:
  obtains f st where "flow_step\<^sup>*\<^sup>* (ex_flow_state, {}) (st, {ex_flow AtConsent})" "fs_flows st (1, 5) = Some (f, Some (dur_secs 600))" "lf_stage f = AtDone"
    "ex_consent = (Inr (Granted f), st)"
proof (rule ex_consent_done)
  fix f st
  assume c: "ex_consent = (Inr (Granted f), st)" and d: "lf_stage f = AtDone" and s: "fs_flows st (1, 5) = Some (f, Some (dur_secs 600))"
  let ?f = "ex_flow AtConsent"
  have create: "create_flow 0 ''csrf'' ?f (fs_flows ex_flow_state) = (?f, [(1, 5) \<mapsto> (?f, Some (dur_secs 600))])"
    by (simp add: create_flow_def save_flow_def FLOW_TTL_SECS_def kv_set_ex_def kv_set_until_def ex_flow_def Let_def)
  have "flow_step (ex_flow_state, {}) (ex_with_flow AtConsent, {})"
    unfolding ex_with_flow_def by (rule started [OF _ create]) (simp add: signed_in_def)
  moreover have "load_flow 0 1 5 (fs_flows (ex_with_flow AtConsent)) = Inr ?f"
    by (simp add: load_flow_Inr get_flow_def kv_get_def kv_entry_def ex_with_flow_def not_le)
  then have "flow_step (ex_with_flow AtConsent, {}) (ex_with_flow AtConsent, insert ?f {})" by (rule load)
  moreover have "flow_call ex_flow_env ex_at (ex_flow_tenant default_risk_policy) ?f (ex_with_flow AtConsent) (error_of (Inr (Granted f))) st"
    by (rule consent [OF c [unfolded ex_consent_def]])
  then have "flow_step (ex_with_flow AtConsent, {?f}) (st, {?f})" by (intro called) simp_all
  ultimately have "flow_step\<^sup>*\<^sup>* (ex_flow_state, {}) (st, {?f})" by simp
  then show thesis using that s d c by blast
qed

theorem done_flow_has_signed_in_witness:
  "\<exists>st' loaded f t. flow_step\<^sup>*\<^sup>* (ex_flow_state, {}) (st', loaded) \<and> fs_flows st' (1, 5) = Some (f, t) \<and> lf_stage f = AtDone \<and>
     lf_user f \<noteq> None \<and> lf_session f \<noteq> None"
proof (rule ex_done_run)
  fix f st
  assume run: "flow_step\<^sup>*\<^sup>* (ex_flow_state, {}) (st, {ex_flow AtConsent})" and s: "fs_flows st (1, 5) = Some (f, Some (dur_secs 600))" and d: "lf_stage f = AtDone"
  from run done_flow_has_signed_in [OF run _ s d] s d show ?thesis by fastforce
qed

theorem failed_step_saves_no_flow_witness:
  "fs_flows (ex_with_flow AtTerms) \<subseteq>\<^sub>m fs_flows (ex_with_flow AtTerms)"
proof (rule failed_step_saves_no_flow)
  have "terms_step ex_flow_env ex_at (ex_flow_tenant default_risk_policy) (ex_flow AtTerms) False (ex_with_flow AtTerms)
      = (Inl (Forbidden ''terms must be accepted to continue'') :: app_error + login_flow, ex_with_flow AtTerms)"
    by (simp add: terms_step_def)
  from terms [OF this] show "flow_call ex_flow_env ex_at (ex_flow_tenant default_risk_policy) (ex_flow AtTerms) (ex_with_flow AtTerms)
    (Some (Forbidden ''terms must be accepted to continue'')) (ex_with_flow AtTerms)" by simp
  show "settled (ex_flow AtTerms)" by (simp add: settled_def signed_in_def)
qed

theorem password_sign_in_is_earned_witness:
  "\<exists>session f st. ex_sign_in default_risk_policy = (Inr (Authenticated session f), st) \<and> verifies ex_pw_env ''pass'' ''$2b$pass'' \<and> ss_user session = 3"
proof -
  obtain session f st where s: "ex_sign_in default_risk_policy = (Inr (Authenticated session f), st)" using ex_signs_in by blast
  have "find_by_ident (tn_id (ex_flow_tenant default_risk_policy)) (to_lowercase (pe_lib (fe_pw ex_flow_env)) (trim (pa_identifier ex_attempt)))
      (fs_accounts (ex_with_flow AtAuthenticate)) = Some ex_row_of"
    by (simp add: ex_attempt_def ex_with_flow_def ex_accounts ex_found del: One_nat_def)
  from password_sign_in_is_earned [OF s [unfolded ex_sign_in_def] this ex_row_of_simps(7)] s show ?thesis
    by (auto simp: ex_attempt_def ex_flow_env_def)
qed

theorem refused_sign_in_opens_nothing_witness:
  "\<exists>url st. ex_sign_in (ex_risk 40) = (Inr (Blocked url), st) \<and> fs_sessions st = ex_state [] \<and> get_flow 0 1 5 (fs_flows st) = None"
proof -
  obtain url st where s: "ex_sign_in (ex_risk 40) = (Inr (Blocked url), st)" using ex_is_blocked by blast
  from refused_sign_in_opens_nothing [OF s [unfolded ex_sign_in_def], of 0] s show ?thesis
    by (auto simp: ex_with_flow_def)
qed

theorem locked_account_gives_nothing_away_witness:
  "password_step ex_flow_env ex_at ''salt'' \<lparr>dk_unknown = Inr None, dk_verify = Inr None\<rparr> 60 9 (Inr []) (ex_flow_tenant default_risk_policy)
     (ex_flow AtAuthenticate) (ex_attempt\<lparr>pa_password := ''guess''\<rparr>)
     (ex_flow_state\<lparr>fs_accounts := \<lparr>pw_users = [ex_row_of\<lparr>us_locked_until := Some 100\<rparr>], pw_history = []\<rparr>\<rparr>)
   = password_step ex_flow_env ex_at ''salt'' \<lparr>dk_unknown = Inr None, dk_verify = Inr None\<rparr> 60 9 (Inr []) (ex_flow_tenant default_risk_policy)
     (ex_flow AtAuthenticate) ex_attempt
     (ex_flow_state\<lparr>fs_accounts := \<lparr>pw_users = [ex_row_of\<lparr>us_locked_until := Some 100\<rparr>], pw_history = []\<rparr>\<rparr>)"
  by (rule locked_account_gives_nothing_away [where user = "ex_row_of\<lparr>us_locked_until := Some 100\<rparr>"])
    (simp_all add: ex_attempt_def find_by_ident_def is_locked_now_def user.truncate_def)

theorem wrong_codes_bounded_witness:
  "length [(ex_at, ''wrong'', False)] \<le> max 1 (MFA_MAX_ATTEMPTS - lf_attempts (ex_flow AtMfa))"
  by (rule wrong_codes_bounded [OF ex_wrong_code [of default_risk_policy]]) (simp_all add: ex_with_flow_def)

theorem consent_never_widens_witness:
  "\<exists>f st. ex_consent = (Inr (Granted f), st) \<and> set (aq_scopes (lf_request f)) = {''openid'', ''orders''}"
proof (rule ex_consent_done)
  fix f st
  assume c: "ex_consent = (Inr (Granted f), st)"
  from consent_never_widens [OF c [unfolded ex_consent_def]] c show ?thesis by (auto split: if_splits)
qed

end
