(* ===== verification/Authorize.thy ===== *)
theory Authorize
  imports Flow_Rules Token_Endpoint
begin

text \<open>
  The authorization endpoint (\<open>api/src/oidc/authorize.rs\<close>), pushed requests (\<open>oidc/par.rs\<close>), request
  objects (\<open>oidc/jar.rs\<close>), parked form posts (\<open>oidc/park.rs\<close>) and the last step of a login flow
  (\<open>routes/flows.rs\<close>: \<open>finish\<close>), which issues the code.

  The state is that of the flows, the authorization codes, the pushed and the parked requests and
  the client authentication. Clients are looked up as the flows do. The signature of a JARM
  answer (the tenant's key and \<open>tokens::sign\<close>) and a SAML answer are arguments; the
  \<open>AuthorizationGranted\<close> event is not modelled.
\<close>

section \<open>State and answers\<close>

record ('net, 'ip) az_env =
  az_flow :: flow_env
  az_auth :: "('net, 'ip) auth_env"
  az_directory :: directory
  az_tenant_issuer :: "uuid \<Rightarrow> string option"
  az_ui_page :: "uuid \<Rightarrow> string \<Rightarrow> (string \<times> string) list \<Rightarrow> string"
  az_fragment :: "string \<Rightarrow> (string \<times> string) list \<Rightarrow> string option"
  az_jarm :: "claims \<Rightarrow> app_error + string"

record az_state =
  az_flows :: flow_state
  az_codes :: code_store
  az_pushed :: "(uuid \<times> string, uuid \<times> auth_request) kv"
  az_parked :: "(uuid \<times> string \<times> uuid, string) kv"
  az_auths :: auth_store

datatype browser_answer = RedirectTo string | Html nat string | ProblemPage app_error | SamlAnswer

datatype failure = Page string string | FailRedirect oauth_error | FailInternal app_error

definition az_lib :: "('net, 'ip) az_env \<Rightarrow> library" where
  "az_lib env = ae_lib (az_auth env)"

definition az_issuer :: "('net, 'ip) az_env \<Rightarrow> flow_tenant \<Rightarrow> string" where
  "az_issuer env tn = issuer (ae_cfg (az_auth env)) (tenant.truncate tn)"

definition find_client :: "('net, 'ip) az_env \<Rightarrow> uuid \<Rightarrow> string \<Rightarrow> client option" where
  "find_client env t cid = fe_client (az_flow env) t cid"

section \<open>Delivering an answer\<close>

definition html_escape :: "string \<Rightarrow> string" where
  "html_escape s = concat (map (\<lambda>c. if c = CHR ''&'' then ''&amp;'' else if c = CHR ''<'' then ''&lt;'' else if c = CHR ''>'' then ''&gt;''
     else if c = CHR 0x22 then ''&quot;'' else if c = CHR 0x27 then ''&#39;'' else [c]) s)"

definition error_page :: "nat \<Rightarrow> string \<Rightarrow> string \<Rightarrow> browser_answer" where
  "error_page status code description =
     Html status (''<!DOCTYPE html><html><head><meta charset=\"utf-8\"><title>Authorization error</title>''
       @ ''<style>body{font-family:system-ui,sans-serif;margin:4rem auto;max-width:36rem;padding:0 1rem}code{color:#b00}</style>''
       @ ''</head><body><h1>Authorization request rejected</h1><p><code>'' @ html_escape code @ ''</code></p><p>'' @ html_escape description @ ''</p>''
       @ ''<p>Contact the application'' @ [CHR 0x27] @ ''s administrator; this request cannot be completed.</p></body></html>'')"

definition form_input :: "string \<times> string \<Rightarrow> string" where
  "form_input p = ''<input type=\"hidden\" name=\"'' @ html_escape (fst p) @ ''\" value=\"'' @ html_escape (snd p) @ ''\"/>''"

definition form_post_page :: "string \<Rightarrow> (string \<times> string) list \<Rightarrow> string" where
  "form_post_page redirect params =
     ''<!DOCTYPE html><html><head><meta charset=\"utf-8\"><title>Continue</title></head>''
       @ ''<body onload=\"document.forms[0].submit()\">'' @ ''<form method=\"post\" action=\"'' @ html_escape redirect @ ''\">''
       @ concat (map form_input params) @ ''<noscript><button type=\"submit\">Continue</button></noscript></form>'' @ ''</body></html>''"

definition deliver :: "('net, 'ip) az_env \<Rightarrow> string \<Rightarrow> response_mode \<Rightarrow> (string \<times> string) list \<Rightarrow> browser_answer" where
  "deliver env redirect mode params =
     (let unparsable = error_page 500 ''server_error'' ''the redirect URI cannot be parsed''
      in case mode_base mode of
           ModeQuery \<Rightarrow> (case fe_url (az_flow env) redirect params of Some u \<Rightarrow> RedirectTo u | None \<Rightarrow> unparsable)
         | ModeFragment \<Rightarrow> (case az_fragment env redirect params of Some u \<Rightarrow> RedirectTo u | None \<Rightarrow> unparsable)
         | _ \<Rightarrow> Html 200 (form_post_page redirect params))"

definition jarm_claims :: "instant \<Rightarrow> string \<Rightarrow> client \<Rightarrow> (string \<times> string) list \<Rightarrow> claims" where
  "jarm_claims now iss c params =
     fold (\<lambda>(k, v) m. if k \<noteq> ''iss'' then set_member k (JStr v) m else m) params
       (set_member ''exp'' (JInt (timestamp now + 600)) (set_member ''aud'' (JStr (cl_client_id c)) (set_member ''iss'' (JStr iss) [])))"

definition deliver_to_client ::
  "('net, 'ip) az_env \<Rightarrow> instant \<Rightarrow> flow_tenant \<Rightarrow> client \<Rightarrow> string \<Rightarrow> response_mode \<Rightarrow> (string \<times> string) list \<Rightarrow> app_error + browser_answer" where
  "deliver_to_client env now tn c redirect mode params =
     (if \<not> is_jarm mode then Inr (deliver env redirect mode params)
      else andThen (az_jarm env (jarm_claims now (az_issuer env tn) c params))
             (\<lambda>jwt. Inr (deliver env redirect (mode_base mode) [(''response'', jwt)])))"

definition error_params :: "string \<Rightarrow> oauth_error \<Rightarrow> (string \<times> string) list" where
  "error_params iss e =
     [(''error'', oauth_code_as_str (oe_error e))]
     @ (case oe_description e of None \<Rightarrow> [] | Some d \<Rightarrow> [(''error_description'', d)])
     @ (case oe_state e of None \<Rightarrow> [] | Some s \<Rightarrow> [(''state'', s)])
     @ [(''iss'', iss)]"

definition redirect_error ::
  "('net, 'ip) az_env \<Rightarrow> instant \<Rightarrow> flow_tenant \<Rightarrow> client \<Rightarrow> string \<Rightarrow> response_mode \<Rightarrow> oauth_error \<Rightarrow> browser_answer" where
  "redirect_error env now tn c redirect mode e =
     (case deliver_to_client env now tn c redirect mode (error_params (az_issuer env tn) e) of Inr a \<Rightarrow> a | Inl err \<Rightarrow> ProblemPage err)"

definition with_state :: "oauth_error \<Rightarrow> string option \<Rightarrow> oauth_error" where
  "with_state e s = e\<lparr>oe_state := s\<rparr>"

text \<open>\<open>GET /authorize/denied/{id}\<close>: a denial of the sign-in page, delivered once. \<open>by_id\<close> is
  \<open>clients::get\<close>.\<close>

definition denied ::
  "('net, 'ip) az_env \<Rightarrow> moment \<Rightarrow> (uuid \<Rightarrow> app_error + client) \<Rightarrow> flow_tenant \<Rightarrow> uuid \<Rightarrow> az_state \<Rightarrow> browser_answer \<times> az_state" where
  "denied env at by_id tn i st =
     (case take_denial at (tn_id tn) i (az_flows st) of
        (None, fs) \<Rightarrow> (error_page 404 ''invalid_request'' ''this answer was already delivered or has expired'', st\<lparr>az_flows := fs\<rparr>)
      | (Some d, fs) \<Rightarrow>
          (case by_id (dn_client d) of
             Inl e \<Rightarrow> (ProblemPage e, st\<lparr>az_flows := fs\<rparr>)
           | Inr c \<Rightarrow>
               (redirect_error env (at_now at) tn c (dn_redirect_uri d) (dn_response_mode d)
                  (with_state (oauth_err AccessDenied (dn_description d)) (dn_state d)), st\<lparr>az_flows := fs\<rparr>)))"

section \<open>Request objects\<close>

definition bad_object :: "string \<Rightarrow> failure" where
  "bad_object d = Page ''invalid_request_object'' d"

text \<open>The key the object is signed with; a key set fetched before is fetched again where it lacks one.\<close>

definition object_key ::
  "('net, 'ip) az_env \<Rightarrow> instant \<Rightarrow> client \<Rightarrow> string option \<Rightarrow> client cache_state \<Rightarrow> (failure + json) \<times> client cache_state" where
  "object_key env now c kid st =
     (case jwks (az_lib env) (ae_net (az_auth env)) now now c False st of
        (Inl e, st1) \<Rightarrow> (Inl (FailInternal e), st1)
      | (Inr ks, st1) \<Rightarrow>
          (let missing = bad_object ''no matching client key for the request object''
           in case pick_key kid ks of
                Some k \<Rightarrow> (Inr k, st1)
              | None \<Rightarrow>
                  if cl_jwks_uri c = None then (Inl missing, st1)
                  else (case jwks (az_lib env) (ae_net (az_auth env)) now now c True st1 of
                          (Inl e, st2) \<Rightarrow> (Inl (FailInternal e), st2)
                        | (Inr ks2, st2) \<Rightarrow> (or_error (pick_key kid ks2) missing, st2))))"

definition object_validation :: "('net, 'ip) az_env \<Rightarrow> flow_tenant \<Rightarrow> client \<Rightarrow> validation" where
  "object_validation env tn c =
     \<lparr>v_leeway = 30, v_exp = True, v_nbf = True, v_issuer = Some (cl_client_id c), v_audiences = Some [az_issuer env tn],
      v_required = [''iss'', ''aud'', ''exp'']\<rparr>"

definition object_str :: "claims \<Rightarrow> string \<Rightarrow> string option" where
  "object_str obj k = Option.bind (map_of obj k) as_str"

definition differs :: "raw_params \<Rightarrow> claims \<Rightarrow> string \<Rightarrow> bool" where
  "differs ps obj k = (case (param_one ps k, object_str obj k) of (Inr (Some outside), Some inside) \<Rightarrow> outside \<noteq> inside | _ \<Rightarrow> False)"

definition object_checks :: "client \<Rightarrow> raw_params \<Rightarrow> claims \<Rightarrow> failure + unit" where
  "object_checks c ps obj =
     andThen (ensure (\<not> differs ps obj ''client_id'') (bad_object ''client_id differs between the request and the request object'')) (\<lambda>_.
     andThen (ensure (\<not> differs ps obj ''response_type'') (bad_object ''response_type differs between the request and the request object'')) (\<lambda>_.
     andThen (ensure (object_str obj ''client_id'' = Some (cl_client_id c)) (bad_object ''request object client_id must equal the client_id'')) (\<lambda>_.
       ensure (map_of obj ''request'' = None \<and> map_of obj ''request_uri'' = None) (bad_object ''request objects cannot nest''))))"

fun member_texts :: "library \<Rightarrow> json \<Rightarrow> string list" where
  "member_texts lib (JStr s) = [s]"
| "member_texts lib (JInt n) = [l_to_text lib (JInt n)]"
| "member_texts lib (JFloat x) = [l_to_text lib (JFloat x)]"
| "member_texts lib (JBool b) = [if b then ''true'' else ''false'']"
| "member_texts lib (JArr items) = concat (map (\<lambda>i. case as_str i of Some s \<Rightarrow> [s] | None \<Rightarrow> []) items)"
| "member_texts lib (JObj ms) = [l_to_text lib (JObj ms)]"
| "member_texts lib JNull = []"

definition REGISTERED_CLAIMS :: "string list" where
  "REGISTERED_CLAIMS = [''iss'', ''aud'', ''exp'', ''iat'', ''nbf'', ''jti'']"

definition merge_params :: "library \<Rightarrow> raw_params \<Rightarrow> claims \<Rightarrow> raw_params" where
  "merge_params lib ps obj =
     filter (\<lambda>(k, v). k \<noteq> ''request'' \<and> map_of obj k = None) ps
     @ concat (map (\<lambda>(k, v). if k \<in> set REGISTERED_CLAIMS then [] else map (Pair k) (member_texts lib v)) obj)"

definition merge ::
  "('net, 'ip) az_env \<Rightarrow> instant \<Rightarrow> flow_tenant \<Rightarrow> client \<Rightarrow> raw_params \<Rightarrow> string \<Rightarrow> client cache_state \<Rightarrow> (failure + raw_params) \<times> client cache_state" where
  "merge env now tn c ps jwt st =
     (if 16 * 1024 < length jwt then (Inl (bad_object ''request object too large''), st)
      else case l_header (az_lib env) jwt of
             None \<Rightarrow> (Inl (bad_object ''malformed request object''), st)
           | Some (kid, typ, alg) \<Rightarrow>
               if alg \<in> {''HS256'', ''HS384'', ''HS512''}
               then (Inl (bad_object ''request objects must be signed with an asymmetric key''), st)
               else if is_fapi2 c \<and> \<not> jws_allowed alg
               then (Inl (bad_object ''the FAPI 2.0 profile allows PS256, ES256 or EdDSA request objects only''), st)
               else
                 (case object_key env now c kid st of
                    (Inl e, st1) \<Rightarrow> (Inl e, st1)
                  | (Inr jwk, st1) \<Rightarrow>
                      if \<not> ae_usable_key (az_auth env) jwk then (Inl (bad_object ''invalid client key''), st1)
                      else (case l_decode (az_lib env) jwk (object_validation env tn c) now jwt of
                              None \<Rightarrow> (Inl (bad_object (''request object rejected: '' @ ae_decode_error (az_auth env) jwt)), st1)
                            | Some obj \<Rightarrow> (andThen (object_checks c ps obj) (\<lambda>_. Inr (merge_params (az_lib env) ps obj)), st1))))"

fun as_oauth :: "failure \<Rightarrow> oauth_error" where
  "as_oauth (Page code d) = oauth_err InvalidRequestObject d"
| "as_oauth (FailRedirect e) = e"
| "as_oauth (FailInternal e) = oauth_err_code ServerError"

section \<open>Validating a request\<close>

definition page :: "string \<Rightarrow> failure" where
  "page d = Page ''invalid_request'' d"

definition page_one :: "raw_params \<Rightarrow> string \<Rightarrow> failure + string option" where
  "page_one ps n = (case param_one ps n of Inl d \<Rightarrow> Inl (page d) | Inr v \<Rightarrow> Inr v)"

definition resolve_client_and_merge ::
  "('net, 'ip) az_env \<Rightarrow> instant \<Rightarrow> flow_tenant \<Rightarrow> raw_params \<Rightarrow> client cache_state \<Rightarrow> (failure + (client \<times> raw_params)) \<times> client cache_state" where
  "resolve_client_and_merge env now tn ps st =
     (case andThen (page_one ps ''client_id'') (\<lambda>v.
             andThen (or_error v (page ''client_id is required'')) (\<lambda>cid.
             andThen (or_error (find_client env (tn_id tn) cid) (Page ''unauthorized_client'' ''unknown client'')) (\<lambda>c.
             andThen (ensure (cl_active c) (Page ''unauthorized_client'' ''client is disabled'')) (\<lambda>_.
             andThen (page_one ps ''request'') (\<lambda>r. Inr (c, r)))))) of
        Inl e \<Rightarrow> (Inl e, st)
      | Inr (c, None) \<Rightarrow> (Inr (c, ps), st)
      | Inr (c, Some jwt) \<Rightarrow>
          (case merge env now tn c ps jwt st of (Inl e, st1) \<Rightarrow> (Inl e, st1) | (Inr merged, st1) \<Rightarrow> (Inr (c, merged), st1)))"

definition resolve_redirect :: "library \<Rightarrow> client \<Rightarrow> raw_params \<Rightarrow> failure + (string \<times> response_mode \<times> string option)" where
  "resolve_redirect lib c ps =
     andThen (page_one ps ''redirect_uri'') (\<lambda>r.
     andThen (or_error r (page ''redirect_uri is required'')) (\<lambda>redirect.
     andThen (ensure (redirect_matches lib (cl_redirect_uris c) redirect (cl_type c)) (page ''redirect_uri is not registered for this client'')) (\<lambda>_.
     andThen (page_one ps ''response_mode'') (\<lambda>m.
     andThen (page_one ps ''state'') (\<lambda>state.
     andThen (ensure (case state of None \<Rightarrow> True | Some s \<Rightarrow> length s \<le> 1024) (page ''state is too long'')) (\<lambda>_.
       Inr (redirect, case Option.bind m parse_response_mode of None \<Rightarrow> ModeQuery | Some x \<Rightarrow> x, state)))))))"

definition invalid :: "string \<Rightarrow> failure" where
  "invalid d = FailRedirect (oauth_invalid_request d)"

definition fail_one :: "raw_params \<Rightarrow> string \<Rightarrow> failure + string option" where
  "fail_one ps n = (case one ps n of Inl e \<Rightarrow> Inl (FailRedirect e) | Inr v \<Rightarrow> Inr v)"

definition redirecting :: "oauth_error + 'a \<Rightarrow> failure + 'a" where
  "redirecting r = (case r of Inl e \<Rightarrow> Inl (FailRedirect e) | Inr a \<Rightarrow> Inr a)"

definition check_pkce :: "client \<Rightarrow> string option \<Rightarrow> string option \<Rightarrow> failure + unit" where
  "check_pkce c challenge m =
     (case (challenge, m) of
        (Some ch, Some mt) \<Rightarrow>
          if mt = ''S256'' then ensure (is_valid_challenge ch) (invalid ''code_challenge is malformed'')
          else if mt = ''plain'' then Inl (invalid ''code_challenge_method plain is not allowed; use S256'')
          else Inl (invalid (''unsupported code_challenge_method `'' @ mt @ ''`''))
      | (Some _, None) \<Rightarrow> Inl (invalid ''code_challenge_method S256 is required'')
      | (None, Some _) \<Rightarrow> Inl (invalid ''code_challenge is required with code_challenge_method'')
      | (None, None) \<Rightarrow> ensure (\<not> (cl_require_pkce c \<or> is_public c \<or> is_fapi2 c)) (invalid ''code_challenge is required (PKCE)''))"

definition words_of :: "string option \<Rightarrow> string list" where
  "words_of v = (case v of None \<Rightarrow> [] | Some s \<Rightarrow> filter (\<lambda>w. w \<noteq> []) (split_on (CHR '' '') s))"

definition PROMPTS :: "string list" where
  "PROMPTS = [''none'', ''login'', ''consent'', ''select_account'', ''create'']"

definition check_prompt :: "string list \<Rightarrow> failure + unit" where
  "check_prompt ps =
     (case find (\<lambda>p. p \<notin> set PROMPTS) ps of
        Some p \<Rightarrow> Inl (invalid (''unsupported prompt value `'' @ p @ ''`''))
      | None \<Rightarrow> ensure (\<not> (''none'' \<in> set ps \<and> 1 < length ps)) (invalid ''prompt=none cannot be combined with other values''))"

definition parse_max_age :: "string option \<Rightarrow> failure + nat option" where
  "parse_max_age v =
     (case v of
        None \<Rightarrow> Inr None
      | Some s \<Rightarrow> (case parse_u64 s of Some n \<Rightarrow> Inr (Some n) | None \<Rightarrow> Inl (invalid ''max_age must be a non-negative integer'')))"

definition parse_claims :: "library \<Rightarrow> bool \<Rightarrow> string option \<Rightarrow> failure + json option" where
  "parse_claims lib is_oidc v =
     (case v of
        None \<Rightarrow> Inr None
      | Some raw \<Rightarrow>
          if \<not> is_oidc then Inl (invalid ''claims requires the openid scope'')
          else (case l_parse_json lib raw of
                  Some (JObj ms) \<Rightarrow>
                    (case find (\<lambda>k. k \<noteq> ''userinfo'' \<and> k \<noteq> ''id_token'') (map fst ms) of
                       Some k \<Rightarrow> Inl (invalid (''claims: unknown member `'' @ k @ ''`''))
                     | None \<Rightarrow> Inr (Some (JObj ms)))
                | _ \<Rightarrow> Inl (invalid ''claims must be a JSON object'')))"

definition check_response_type :: "client \<Rightarrow> raw_params \<Rightarrow> failure + unit" where
  "check_response_type c ps =
     andThen (fail_one ps ''request'') (\<lambda>r.
     andThen (ensure (r = None) (FailRedirect (oauth_err_code RequestNotSupported))) (\<lambda>_.
     andThen (fail_one ps ''request_uri'') (\<lambda>u.
     andThen (ensure (u = None) (FailRedirect (oauth_err_code RequestUriNotSupported))) (\<lambda>_.
     andThen (fail_one ps ''response_mode'') (\<lambda>m.
     andThen (case m of None \<Rightarrow> Inr () | Some mode \<Rightarrow>
         ensure (parse_response_mode mode \<noteq> None) (invalid (''unsupported response_mode `'' @ mode @ ''`''))) (\<lambda>_.
     andThen (fail_one ps ''response_type'') (\<lambda>t.
     andThen (case t of None \<Rightarrow> Inl (invalid ''response_type is required'') | Some rt \<Rightarrow>
         ensure (rt = ''code'') (FailRedirect (oauth_err_code UnsupportedResponseType))) (\<lambda>_.
       ensure (allows_grant c grant_authorization_code)
         (FailRedirect (oauth_err UnauthorizedClient ''client may not use the authorization code grant''))))))))))"

definition validate ::
  "('net, 'ip) az_env \<Rightarrow> flow_tenant \<Rightarrow> client \<Rightarrow> raw_params \<Rightarrow> string \<Rightarrow> response_mode \<Rightarrow> string option \<Rightarrow> failure + auth_request" where
  "validate env tn c ps redirect mode state =
     andThen (check_response_type c ps) (\<lambda>_.
     andThen (fail_one ps ''scope'') (\<lambda>sc.
     andThen (redirecting (validate_request (az_directory env) (tn_id tn) c (parse_scope_param (case sc of None \<Rightarrow> [] | Some s \<Rightarrow> s)) [] True)) (\<lambda>checked.
     andThen (fail_one ps ''code_challenge'') (\<lambda>challenge.
     andThen (fail_one ps ''code_challenge_method'') (\<lambda>m.
     andThen (check_pkce c challenge m) (\<lambda>_.
     andThen (fail_one ps ''nonce'') (\<lambda>nonce.
     andThen (ensure (case nonce of None \<Rightarrow> True | Some n \<Rightarrow> length n \<le> 512) (invalid ''nonce is too long'')) (\<lambda>_.
     andThen (fail_one ps ''prompt'') (\<lambda>p.
     andThen (check_prompt (words_of p)) (\<lambda>_.
     andThen (fail_one ps ''max_age'') (\<lambda>ma.
     andThen (parse_max_age ma) (\<lambda>max_age.
     andThen (fail_one ps ''acr_values'') (\<lambda>acr.
     andThen (fail_one ps ''ui_locales'') (\<lambda>locales.
     andThen (fail_one ps ''login_hint'') (\<lambda>hint.
     andThen (fail_one ps ''organization'') (\<lambda>org.
     andThen (fail_one ps ''claims'') (\<lambda>cl.
     andThen (parse_claims (az_lib env) (''openid'' \<in> set (rq_scopes checked)) cl) (\<lambda>claims.
     andThen (redirecting (requested_resources (az_lib env) (az_directory env) (tn_id tn) c ps)) (\<lambda>audiences.
       Inr \<lparr>aq_client = cl_id c, aq_client_public_id = cl_client_id c, aq_redirect_uri = redirect, aq_response_mode = mode,
            aq_scopes = rq_scopes checked,
            aq_audiences = with_bound_audiences audiences (cl_allowed_audiences c) (rq_bound_audiences checked),
            aq_state = state, aq_nonce = nonce, aq_code_challenge = challenge, aq_prompt = words_of p, aq_max_age = max_age,
            aq_acr_values = words_of acr, aq_login_hint = hint, aq_ui_locales = words_of locales, aq_claims = claims,
            aq_skip_consent = (\<not> cl_require_consent c), aq_device_code = None, aq_organization = org, aq_saml = False\<rparr>)))))))))))))))))))"

section \<open>The code\<close>

definition acting :: "('net, 'ip) az_env \<Rightarrow> sso_session \<Rightarrow> app_error + (json \<times> instant) option" where
  "acting env s =
     (case ss_impersonator s of
        None \<Rightarrow> Inr None
      | Some imp \<Rightarrow>
          (case az_tenant_issuer env (imp_tenant imp) of
             None \<Rightarrow> Inl (NotFound ''tenant'')
           | Some iss \<Rightarrow> Inr (Some (JObj [(''sub'', JStr (l_show_uuid (az_lib env) (imp_user imp))), (''iss'', JStr iss)], ss_expires_at s))))"

definition code_of :: "instant \<Rightarrow> flow_tenant \<Rightarrow> client \<Rightarrow> auth_request \<Rightarrow> sso_session \<Rightarrow> (json \<times> instant) option \<Rightarrow> auth_code" where
  "code_of now tn c req s act =
     \<lparr>co_tenant = tn_id tn, co_client = cl_id c, co_client_public_id = cl_client_id c, co_user = ss_user s, co_session = ss_id s,
      co_redirect_uri = aq_redirect_uri req, co_scopes = aq_scopes req, co_audiences = aq_audiences req, co_nonce = aq_nonce req,
      co_challenge = aq_code_challenge req, co_auth_time = ss_auth_time s, co_amr = ss_amr s, co_acr = ss_acr s, co_org = ss_org s,
      co_acting = act, co_claims = aq_claims req, co_issued_at = now\<rparr>"

text \<open>\<open>code\<close> is the fresh secret, \<open>saml\<close> what \<open>saml_idp::respond\<close> answers.\<close>

definition grant_code ::
  "('net, 'ip) az_env \<Rightarrow> moment \<Rightarrow> string \<Rightarrow> (app_error + unit) \<Rightarrow> flow_tenant \<Rightarrow> client \<Rightarrow> auth_request \<Rightarrow> sso_session \<Rightarrow> az_state
     \<Rightarrow> (app_error + browser_answer) \<times> az_state" where
  "grant_code env at code saml tn c req s st =
     (if aq_saml req then (andThen saml (\<lambda>_. Inr SamlAnswer), st)
      else case acting env s of
             Inl e \<Rightarrow> (Inl e, st)
           | Inr act \<Rightarrow>
               (let codes = snd (issue_code (az_lib env) (at_now at) code (code_of (at_now at) tn c req s act) (az_codes st));
                    fs = az_flows st;
                    st1 = st\<lparr>az_codes := codes, az_flows := fs\<lparr>fs_sessions := add_client (at_now at) s (cl_client_id c) (fs_sessions fs)\<rparr>\<rparr>
                in (deliver_to_client env (at_now at) tn c (aq_redirect_uri req) (aq_response_mode req)
                      ([(''code'', code), (''iss'', az_issuer env tn)] @ (case aq_state req of None \<Rightarrow> [] | Some x \<Rightarrow> [(''state'', x)])), st1)))"

section \<open>Deciding\<close>

definition browser_session :: "moment \<Rightarrow> flow_tenant \<Rightarrow> uuid option \<Rightarrow> flow_state \<Rightarrow> sso_session option \<times> flow_state" where
  "browser_session at tn cookie fs =
     (case cookie of
        None \<Rightarrow> (None, fs)
      | Some sid \<Rightarrow>
          (case get_session (at_now at) (tn_id tn) sid (tn_session_policy tn) (fs_sessions fs) of (s, w) \<Rightarrow> (s, fs\<lparr>fs_sessions := w\<rparr>)))"

definition fresh_enough :: "instant \<Rightarrow> auth_request \<Rightarrow> sso_session \<Rightarrow> bool" where
  "fresh_enough now req s =
     (case aq_max_age req of
        None \<Rightarrow> True
      | Some m \<Rightarrow> if m = 0 then False else nat (max (num_seconds (now - ss_auth_time s)) 0) \<le> m)"

definition acr_ok :: "auth_request \<Rightarrow> sso_session \<Rightarrow> bool" where
  "acr_ok req s =
     (requested_mfa_class (aq_acr_values req) = None \<or> (case ss_acr s of None \<Rightarrow> False | Some a \<Rightarrow> a \<in> set (aq_acr_values req)))"

fun page_for :: "flow_stage \<Rightarrow> string" where
  "page_for AtMfa = ''mfa''"
| "page_for AtConsent = ''consent''"
| "page_for AtRegister = ''register''"
| "page_for AtVerifyEmail = ''register''"
| "page_for _ = ''login''"

definition new_flow :: "instant \<Rightarrow> uuid \<Rightarrow> flow_tenant \<Rightarrow> auth_request \<Rightarrow> flow_stage \<Rightarrow> login_flow" where
  "new_flow now i tn req stage =
     \<lparr>lf_id = i, lf_tenant = tn_id tn, lf_request = req, lf_stage = stage, lf_session = None, lf_user = None, lf_pending = [],
      lf_require_auth_after = None, lf_csrf = [], lf_attempts = 0, lf_amr = [], lf_org = None, lf_trusted = False,
      lf_risk_step_up = False, lf_remember = False, lf_created_at = now, lf_expires_at = now\<rparr>"

text \<open>A new flow and the page of the UI that hosts it.\<close>

definition start_flow ::
  "('net, 'ip) az_env \<Rightarrow> moment \<Rightarrow> string \<Rightarrow> flow_tenant \<Rightarrow> string \<Rightarrow> login_flow \<Rightarrow> az_state \<Rightarrow> browser_answer \<times> az_state" where
  "start_flow env at csrf tn ui_page f st =
     (case create_flow (at_now at) csrf f (fs_flows (az_flows st)) of
        (f1, m) \<Rightarrow>
          (RedirectTo (az_ui_page env (tn_id tn) ui_page [(''tenant'', tn_slug tn), (''flow'', l_show_uuid (az_lib env) (lf_id f1))]),
           st\<lparr>az_flows := (az_flows st)\<lparr>fs_flows := m\<rparr>\<rparr>))"

record fresh_ids =
  fi_flow :: uuid
  fi_csrf :: string
  fi_code :: string

text \<open>The rest of a decision once the session may be used: consent, then the code.\<close>

definition decide_consent ::
  "('net, 'ip) az_env \<Rightarrow> moment \<Rightarrow> fresh_ids \<Rightarrow> (app_error + unit) \<Rightarrow> flow_tenant \<Rightarrow> client \<Rightarrow> auth_request \<Rightarrow> sso_session \<Rightarrow> az_state
     \<Rightarrow> (failure + browser_answer) \<times> az_state" where
  "decide_consent env at ids saml tn c req s st =
     (let force = (''consent'' \<in> set (aq_prompt req));
          pending = (if aq_skip_consent req \<and> \<not> force then []
                     else if force then aq_scopes req
                     else missing_scopes (tn_id tn) (ss_user s) (cl_id c) (aq_scopes req) (fs_consents (az_flows st)))
      in if pending \<noteq> []
         then if ''none'' \<in> set (aq_prompt req) then (Inl (FailRedirect (oauth_err_code ConsentRequired)), st)
              else if ss_impersonator s \<noteq> None
              then (Inl (FailRedirect (oauth_err AccessDenied
                     ''the user has not consented to this client, and consent cannot be given while impersonating them'')), st)
              else (case start_flow env at (fi_csrf ids) tn ''consent''
                           ((new_flow (at_now at) (fi_flow ids) tn req AtConsent)\<lparr>lf_session := Some (ss_id s), lf_user := Some (ss_user s),
                              lf_pending := pending, lf_org := ss_org s\<rparr>) st of
                      (a, st1) \<Rightarrow> (Inr a, st1))
         else (case grant_code env at (fi_code ids) saml tn c req s st of
                 (Inl e, st1) \<Rightarrow> (Inl (FailInternal e), st1)
               | (Inr a, st1) \<Rightarrow> (Inr a, st1)))"

text \<open>\<open>cookie\<close> and \<open>secret\<close> are the browser's session and device cookies, \<open>ip\<close> and \<open>loc\<close> where it is.\<close>

definition decide ::
  "('net, 'ip) az_env \<Rightarrow> moment \<Rightarrow> fresh_ids \<Rightarrow> (app_error + unit) \<Rightarrow> flow_tenant \<Rightarrow> uuid option \<Rightarrow> string option \<Rightarrow> string option \<Rightarrow> location option
     \<Rightarrow> client \<Rightarrow> auth_request \<Rightarrow> az_state \<Rightarrow> (failure + browser_answer) \<times> az_state" where
  "decide env at ids saml tn cookie secret ip loc c req st =
     (let prompt_none = (''none'' \<in> set (aq_prompt req));
          force_login = (''login'' \<in> set (aq_prompt req) \<or> ''select_account'' \<in> set (aq_prompt req));
          creates = (''create'' \<in> set (aq_prompt req));
          (session, fs) = browser_session at tn cookie (az_flows st);
          stale = (creates \<or> force_login \<or> (case session of None \<Rightarrow> True | Some s \<Rightarrow> \<not> fresh_enough (at_now at) req s));
          (owed, fs1) = (case session of
             Some s \<Rightarrow> if stale then (OwesNothing, fs) else unfinished_stage (az_flow env) at tn s secret ip loc fs
           | None \<Rightarrow> (OwesNothing, fs));
          st1 = st\<lparr>az_flows := fs1\<rparr>;
          login_required = (Inl (FailRedirect (oauth_err_code LoginRequired)), st1);
          needs_auth = (stale \<or> owed_step owed = Some AtAuthenticate);
          resume = (case owed_step owed of
             Some s \<Rightarrow> if s \<noteq> AtAuthenticate then Some s else (case session of Some x \<Rightarrow> if acr_ok req x then None else Some AtMfa | None \<Rightarrow> None)
           | None \<Rightarrow> (case session of Some x \<Rightarrow> if acr_ok req x then None else Some AtMfa | None \<Rightarrow> None))
      in if owed = OwedBlocked then (Inl (FailRedirect (oauth_err_code AccessDenied)), st1)
         else if needs_auth
         then if prompt_none then login_required
              else (case start_flow env at (fi_csrf ids) tn (if creates then ''register'' else ''login'')
                           ((new_flow (at_now at) (fi_flow ids) tn req (if creates then AtRegister else AtAuthenticate))
                              \<lparr>lf_require_auth_after := Some (at_now at)\<rparr>) st1 of
                      (a, st2) \<Rightarrow> (Inr a, st2))
         else (case session of
                 None \<Rightarrow> (Inl (FailInternal (Internal ''authorization decided without a session'')), st1)
               | Some s \<Rightarrow>
                   (case resume of
                      Some stage \<Rightarrow>
                        if prompt_none then login_required
                        else (case start_flow env at (fi_csrf ids) tn (page_for stage)
                                     ((new_flow (at_now at) (fi_flow ids) tn req stage)\<lparr>lf_session := Some (ss_id s), lf_user := Some (ss_user s),
                                        lf_amr := ss_amr s, lf_org := ss_org s, lf_risk_step_up := (stage = AtMfa)\<rparr>) st1 of
                                (a, st2) \<Rightarrow> (Inr a, st2))
                    | None \<Rightarrow> decide_consent env at ids saml tn c req s st1)))"

section \<open>Pushed requests\<close>

definition URN_PREFIX :: string where "URN_PREFIX = ''urn:ietf:params:oauth:request_uri:''"
definition PAR_TTL_SECS :: nat where "PAR_TTL_SECS = 60"

fun par_error :: "failure \<Rightarrow> oauth_error" where
  "par_error (Page code d) = oauth_invalid_request d"
| "par_error (FailRedirect e) = e"
| "par_error (FailInternal e) = oauth_err_code ServerError"

definition or_fail :: "(failure \<Rightarrow> oauth_error) \<Rightarrow> failure + 'a \<Rightarrow> oauth_error + 'a" where
  "or_fail f r = (case r of Inl e \<Rightarrow> Inl (f e) | Inr a \<Rightarrow> Inr a)"

text \<open>What a pushed request comes to once its client is authenticated and its parameters are merged.\<close>

definition pushed_request :: "('net, 'ip) az_env \<Rightarrow> flow_tenant \<Rightarrow> client \<Rightarrow> raw_params \<Rightarrow> oauth_error + auth_request" where
  "pushed_request env tn c merged =
     andThen (or_fail par_error (resolve_redirect (az_lib env) c merged)) (\<lambda>(redirect, mode, state).
       or_fail par_error (validate env tn c merged redirect mode state))"

definition handle_par ::
  "('net, 'ip) az_env \<Rightarrow> instant \<Rightarrow> int \<Rightarrow> string \<Rightarrow> flow_tenant \<Rightarrow> headers \<Rightarrow> raw_params \<Rightarrow> 'ip option \<Rightarrow> 'ip client_cert option \<Rightarrow> az_state
     \<Rightarrow> (oauth_error + (string \<times> nat)) \<times> az_state" where
  "handle_par env now r random tn hs ps ip cert st =
     (case authenticate (az_auth env) now r (tenant.truncate tn) hs ps (token_endpoint (ae_cfg (az_auth env)) (tenant.truncate tn)) ip cert (az_auths st) of
        (Inl e, au) \<Rightarrow> (Inl e, st\<lparr>az_auths := au\<rparr>)
      | (Inr (c, _), au) \<Rightarrow>
          (let st1 = st\<lparr>az_auths := au\<rparr>
           in if (case param_one ps ''request_uri'' of Inr (Some _) \<Rightarrow> True | _ \<Rightarrow> False)
              then (Inl (oauth_invalid_request ''request_uri is not allowed in a pushed request''), st1)
              else (case param_one ps ''request'' of
                      Inl d \<Rightarrow> (Inl (oauth_invalid_request d), st1)
                    | Inr jwt \<Rightarrow>
                        (case (case jwt of
                                 None \<Rightarrow> (Inr ps, au_cache au)
                               | Some j \<Rightarrow> (case merge env now tn c ps j (au_cache au) of (m, cache) \<Rightarrow> (or_fail as_oauth m, cache))) of
                           (merged, cache) \<Rightarrow>
                             (let st2 = st1\<lparr>az_auths := au\<lparr>au_cache := cache\<rparr>\<rparr>
                              in case andThen merged (pushed_request env tn c) of
                                   Inl e \<Rightarrow> (Inl e, st2)
                                 | Inr req \<Rightarrow>
                                     (Inr (URN_PREFIX @ random, PAR_TTL_SECS),
                                      st2\<lparr>az_pushed := kv_set_ex now PAR_TTL_SECS (tn_id tn, random) (cl_id c, req) (az_pushed st2)\<rparr>))))))"

definition take_pushed ::
  "('net, 'ip) az_env \<Rightarrow> instant \<Rightarrow> flow_tenant \<Rightarrow> raw_params \<Rightarrow> string \<Rightarrow> az_state \<Rightarrow> (failure + (client \<times> auth_request)) \<times> az_state" where
  "take_pushed env now tn ps uri st =
     (let i = (if starts_with uri URN_PREFIX then drop (length URN_PREFIX) uri else [])
      in case andThen (page_one ps ''client_id'') (\<lambda>v.
                andThen (or_error v (page ''client_id is required'')) (\<lambda>cid.
                andThen (ensure (\<not> (i = [] \<or> 64 < length i)) (page ''invalid request_uri'')) (\<lambda>_. Inr cid))) of
           Inl e \<Rightarrow> (Inl e, st)
         | Inr cid \<Rightarrow>
             (case kv_getdel now (tn_id tn, i) (az_pushed st) of
                (None, m) \<Rightarrow> (Inl (FailRedirect (oauth_err InvalidRequestUri ''request_uri is unknown, expired, or already used'')), st\<lparr>az_pushed := m\<rparr>)
              | (Some (owner, req), m) \<Rightarrow>
                  (let st1 = st\<lparr>az_pushed := m\<rparr>
                   in case find_client env (tn_id tn) cid of
                        None \<Rightarrow> (Inl (page ''client_id does not match the pushed request''), st1)
                      | Some c \<Rightarrow>
                          if cl_id c \<noteq> owner then (Inl (page ''client_id does not match the pushed request''), st1)
                          else if \<not> cl_active c then (Inl (Page ''unauthorized_client'' ''client is disabled''), st1)
                          else (Inr (c, req), st1))))"

section \<open>Parked posts\<close>

definition PARKED_TTL_SECS :: nat where "PARKED_TTL_SECS = 300"

definition park_form :: "library \<Rightarrow> instant \<Rightarrow> uuid \<Rightarrow> uuid \<Rightarrow> string \<Rightarrow> string \<Rightarrow> az_state \<Rightarrow> browser_answer \<times> az_state" where
  "park_form lib now new_id t endpoint form st =
     (RedirectTo (''?parked='' @ l_show_uuid lib new_id),
      st\<lparr>az_parked := kv_set_ex now PARKED_TTL_SECS (t, endpoint, new_id) form (az_parked st)\<rparr>)"

definition parked_id :: "library \<Rightarrow> raw_params \<Rightarrow> uuid option option" where
  "parked_id lib ps = (case ps of [(k, v)] \<Rightarrow> if k = ''parked'' then Some (l_parse_uuid lib v) else None | _ \<Rightarrow> None)"

definition unpark :: "instant \<Rightarrow> uuid \<Rightarrow> string \<Rightarrow> uuid \<Rightarrow> az_state \<Rightarrow> string option \<times> az_state" where
  "unpark now t endpoint i st = (case kv_getdel now (t, endpoint, i) (az_parked st) of (f, m) \<Rightarrow> (f, st\<lparr>az_parked := m\<rparr>))"

section \<open>The endpoint\<close>

text \<open>What the browser brings along.\<close>

record 'ip browser =
  br_cookie :: "uuid option"
  br_device :: "string option"
  br_ip :: "'ip option"
  br_ip_text :: "string option"
  br_user_agent :: "string option"
  br_location :: "location option"

fun failure_page :: "failure \<Rightarrow> browser_answer" where
  "failure_page (Page code d) = error_page 400 code d"
| "failure_page (FailInternal e) = ProblemPage e"
| "failure_page (FailRedirect e) = error_page 400 (oauth_code_as_str (oe_error e)) (case oe_description e of None \<Rightarrow> [] | Some d \<Rightarrow> d)"

fun failure_redirect ::
  "('net, 'ip) az_env \<Rightarrow> instant \<Rightarrow> flow_tenant \<Rightarrow> client \<Rightarrow> string \<Rightarrow> response_mode \<Rightarrow> string option \<Rightarrow> failure \<Rightarrow> browser_answer" where
  "failure_redirect env now tn c redirect mode state (FailRedirect e) = redirect_error env now tn c redirect mode (with_state e state)"
| "failure_redirect env now tn c redirect mode state (Page code d) = error_page 400 code d"
| "failure_redirect env now tn c redirect mode state (FailInternal e) =
     redirect_error env now tn c redirect mode (with_state (oauth_err_code ServerError) state)"

definition finish_decision ::
  "('net, 'ip) az_env \<Rightarrow> moment \<Rightarrow> fresh_ids \<Rightarrow> (app_error + unit) \<Rightarrow> flow_tenant \<Rightarrow> 'ip browser \<Rightarrow> client \<Rightarrow> auth_request \<Rightarrow> az_state
     \<Rightarrow> browser_answer \<times> az_state" where
  "finish_decision env at ids saml tn br c req st =
     (case require_client (ae_nets (az_auth env)) (tn_id tn) (cl_id c) (br_ip br) (ae_ip_rules (az_auth env)) of
        Inl e \<Rightarrow> (error_page (app_error_status e) ''access_denied'' (app_error_to_string e), st)
      | Inr _ \<Rightarrow>
          (case decide env at ids saml tn (br_cookie br) (br_device br) (br_ip_text br) (br_location br) c req st of
             (Inr a, st1) \<Rightarrow> (a, st1)
           | (Inl e, st1) \<Rightarrow> (failure_redirect env (at_now at) tn c (aq_redirect_uri req) (aq_response_mode req) (aq_state req) e, st1)))"

definition handle_authorize ::
  "('net, 'ip) az_env \<Rightarrow> moment \<Rightarrow> fresh_ids \<Rightarrow> (app_error + unit) \<Rightarrow> flow_tenant \<Rightarrow> 'ip browser \<Rightarrow> raw_params \<Rightarrow> az_state
     \<Rightarrow> browser_answer \<times> az_state" where
  "handle_authorize env at ids saml tn br ps st =
     (case (case param_one ps ''request_uri'' of Inr (Some uri) \<Rightarrow> if starts_with uri URN_PREFIX then Some uri else None | _ \<Rightarrow> None) of
        Some uri \<Rightarrow>
          (case take_pushed env (at_now at) tn ps uri st of
             (Inr (c, req), st1) \<Rightarrow> finish_decision env at ids saml tn br c req st1
           | (Inl e, st1) \<Rightarrow> (failure_page e, st1))
      | None \<Rightarrow>
          (case resolve_client_and_merge env (at_now at) tn ps (au_cache (az_auths st)) of
             (Inl e, cache) \<Rightarrow> (failure_page e, st\<lparr>az_auths := (az_auths st)\<lparr>au_cache := cache\<rparr>\<rparr>)
           | (Inr (c, merged), cache) \<Rightarrow>
               (let st1 = st\<lparr>az_auths := (az_auths st)\<lparr>au_cache := cache\<rparr>\<rparr>
                in case resolve_redirect (az_lib env) c merged of
                     Inl e \<Rightarrow> (failure_page e, st1)
                   | Inr (redirect, mode, state) \<Rightarrow>
                       if requires_par c
                       then (redirect_error env (at_now at) tn c redirect mode
                               (with_state (oauth_invalid_request ''this client must use pushed authorization requests'') state), st1)
                       else (case validate env tn c merged redirect mode state of
                               Inr req \<Rightarrow> finish_decision env at ids saml tn br c req st1
                             | Inl e \<Rightarrow> (failure_redirect env (at_now at) tn c redirect mode state e, st1)))))"

definition authorize_get ::
  "('net, 'ip) az_env \<Rightarrow> moment \<Rightarrow> fresh_ids \<Rightarrow> (app_error + unit) \<Rightarrow> flow_tenant \<Rightarrow> 'ip browser \<Rightarrow> string \<Rightarrow> az_state \<Rightarrow> browser_answer \<times> az_state" where
  "authorize_get env at ids saml tn br query st =
     (let ps = raw_params (az_lib env) query;
          gone = error_page 400 ''invalid_request'' ''This sign-in request has expired or was already used; start again from the application.''
      in case parked_id (az_lib env) ps of
           None \<Rightarrow> handle_authorize env at ids saml tn br ps st
         | Some None \<Rightarrow> (gone, st)
         | Some (Some i) \<Rightarrow>
             (case unpark (at_now at) (tn_id tn) ''authorize'' i st of
                (None, st1) \<Rightarrow> (gone, st1)
              | (Some form, st1) \<Rightarrow> handle_authorize env at ids saml tn br (raw_params (az_lib env) form) st1))"

definition authorize_post ::
  "('net, 'ip) az_env \<Rightarrow> instant \<Rightarrow> uuid \<Rightarrow> flow_tenant \<Rightarrow> headers \<Rightarrow> string \<Rightarrow> az_state \<Rightarrow> browser_answer \<times> az_state" where
  "authorize_post env now new_id tn hs body st =
     (if (case Option.bind (header_get hs ''content-type'') header_text of
            None \<Rightarrow> False | Some ct \<Rightarrow> starts_with ct ''application/x-www-form-urlencoded'')
      then park_form (az_lib env) now new_id (tn_id tn) ''authorize'' body st
      else (error_page 415 ''invalid_request'' ''POST requires application/x-www-form-urlencoded'', st))"

section \<open>The end of a flow\<close>

text \<open>
  \<open>dev\<close> is the identifier and the secret of the device that may be remembered. The client is looked
  up after that and the flow deleted before the code is issued.
\<close>

definition remember_device ::
  "('net, 'ip) az_env \<Rightarrow> moment \<Rightarrow> uuid \<times> string \<Rightarrow> flow_tenant \<Rightarrow> 'ip browser \<Rightarrow> login_flow \<Rightarrow> sso_session \<Rightarrow> flow_state \<Rightarrow> sso_session \<times> flow_state" where
  "remember_device env at dev tn br f s fs =
     (if lf_remember f \<and> \<not> lf_trusted f
      then (let (d, devices) = trust_device (az_lib env) (at_now at) (at_db at) (fst dev) (snd dev) (remember_device_days (tn_session_policy tn)) (tn_id tn)
                  (ss_user s) (map_option (take 512) (br_user_agent br)) (br_ip_text br) (fs_devices fs);
                (s1, w) = bind_device (at_now at) s (td_id d) (fs_sessions fs)
            in (s1, fs\<lparr>fs_devices := devices, fs_sessions := w\<rparr>))
      else (s, fs))"

definition approve_from_flow ::
  "('net, 'ip) az_env \<Rightarrow> moment \<Rightarrow> flow_tenant \<Rightarrow> client \<Rightarrow> login_flow \<Rightarrow> sso_session \<Rightarrow> string \<Rightarrow> az_state \<Rightarrow> browser_answer \<times> az_state" where
  "approve_from_flow env at tn c f s h st =
     (case acting env s of
        Inl e \<Rightarrow> (ProblemPage e, st)
      | Inr act \<Rightarrow>
          (case approve_device (at_now at) (at_db at) (tn_id tn) h s act (aq_scopes (lf_request f)) (fs_device_codes (az_flows st)) of
             (Inl e, codes) \<Rightarrow> (ProblemPage e, st\<lparr>az_flows := (az_flows st)\<lparr>fs_device_codes := codes\<rparr>\<rparr>)
           | (Inr _, codes) \<Rightarrow>
               (case fe_url (az_flow env) (aq_redirect_uri (lf_request f)) [(''done'', ''1'')] of
                  None \<Rightarrow> (ProblemPage (Internal ''device page url''), st\<lparr>az_flows := (az_flows st)\<lparr>fs_device_codes := codes,
                     fs_sessions := add_client (at_now at) s (cl_client_id c) (fs_sessions (az_flows st))\<rparr>\<rparr>)
                | Some u \<Rightarrow> (RedirectTo u, st\<lparr>az_flows := (az_flows st)\<lparr>fs_device_codes := codes,
                     fs_sessions := add_client (at_now at) s (cl_client_id c) (fs_sessions (az_flows st))\<rparr>\<rparr>))))"

definition finish ::
  "('net, 'ip) az_env \<Rightarrow> moment \<Rightarrow> string \<Rightarrow> uuid \<times> string \<Rightarrow> (app_error + unit) \<Rightarrow> flow_tenant \<Rightarrow> 'ip browser \<Rightarrow> uuid \<Rightarrow> az_state
     \<Rightarrow> browser_answer \<times> az_state" where
  "finish env at code dev saml tn br i st =
     (case load_flow (at_now at) (tn_id tn) i (fs_flows (az_flows st)) of
        Inl e \<Rightarrow> (ProblemPage e, st)
      | Inr f \<Rightarrow>
          if lf_stage f \<noteq> AtDone then (ProblemPage (BadRequest ''flow is not complete''), st)
          else
            (case browser_session at tn (br_cookie br) (az_flows st) of
               (None, fs) \<Rightarrow> (ProblemPage Unauthorized, st\<lparr>az_flows := fs\<rparr>)
             | (Some s, fs) \<Rightarrow>
                 if \<not> (lf_session f = Some (ss_id s) \<and> lf_user f = Some (ss_user s)) then (ProblemPage Unauthorized, st\<lparr>az_flows := fs\<rparr>)
                 else
                   (let (s1, fs1) = remember_device env at dev tn br f s fs
                    in case find_client env (tn_id tn) (aq_client_public_id (lf_request f)) of
                         None \<Rightarrow> (ProblemPage (NotFound ''client''), st\<lparr>az_flows := fs1\<rparr>)
                       | Some c \<Rightarrow>
                           if \<not> cl_active c then (ProblemPage (NotFound ''client''), st\<lparr>az_flows := fs1\<rparr>)
                           else
                             (let st1 = st\<lparr>az_flows := fs1\<lparr>fs_flows := delete_flow (tn_id tn) i (fs_flows fs1)\<rparr>\<rparr>
                              in case aq_device_code (lf_request f) of
                                   Some h \<Rightarrow> approve_from_flow env at tn c f s1 h st1
                                 | None \<Rightarrow>
                                     (case grant_code env at code saml tn c (lf_request f) s1 st1 of
                                        (Inl e, st2) \<Rightarrow> (ProblemPage e, st2)
                                      | (Inr a, st2) \<Rightarrow> (a, st2))))))"

section \<open>What a validated request has been through\<close>

lemma fail_one_Inr: "fail_one ps n = Inr v \<longleftrightarrow> one ps n = Inr v"
  by (auto simp: fail_one_def split: sum.splits)

lemma redirecting_Inr: "redirecting r = Inr a \<longleftrightarrow> r = Inr a"
  by (auto simp: redirecting_def split: sum.splits)

lemma check_pkce_Inr:
  assumes "check_pkce c challenge m = Inr u"
  shows "(\<forall>ch. challenge = Some ch \<longrightarrow> is_valid_challenge ch \<and> m = Some ''S256'') \<and>
    (cl_require_pkce c \<or> is_public c \<or> is_fapi2 c \<longrightarrow> challenge \<noteq> None)"
  using assms by (auto simp: check_pkce_def ensure_def split: option.splits if_splits)

lemma check_prompt_Inr:
  assumes "check_prompt ps = Inr u"
  shows "set ps \<subseteq> set PROMPTS \<and> (''none'' \<in> set ps \<longrightarrow> ps = [''none''])"
proof -
  have "\<not> (''none'' \<in> set ps \<and> 1 < length ps)" "\<forall>p\<in>set ps. p \<in> set PROMPTS"
    using assms by (auto simp: check_prompt_def ensure_def find_None_iff split: option.splits if_splits)
  moreover from this have "ps = [''none'']" if "''none'' \<in> set ps" using that by (cases ps; cases "tl ps") auto
  ultimately show ?thesis by blast
qed

lemma audiences_allowed:
  assumes "requested_resources lib dir t c ps = Inr audiences" "validate_request dir t c req ex True = Inr checked"
    and "a \<in> set (with_bound_audiences audiences (cl_allowed_audiences c) (rq_bound_audiences checked))"
  shows "cl_allowed_audiences c = [] \<or> a \<in> set (cl_allowed_audiences c)"
proof -
  have "a \<in> set audiences \<or> a \<in> set (cl_allowed_audiences c) \<or> a \<in> set (rq_bound_audiences checked)"
    using assms(3) by (auto simp: with_bound_audiences_def split: if_splits)
  moreover have "cl_allowed_audiences c = [] \<or> a \<in> set (cl_allowed_audiences c)" if "a \<in> set (rq_bound_audiences checked)"
    by (rule validate_request_Inr [OF assms(2)])
      (use that bound_audiences_targetable [of dir t c _ "[]"] in \<open>fastforce simp: may_target_def\<close>)
  ultimately show ?thesis using requested_resources_allowed [OF assms(1)] by blast
qed

text \<open>
  C11. A request that passes validation is one the client registered for: it may use the code grant, the redirect URI matches
  a registered one, the scopes and audiences are within what the client is allowed, a code
  challenge is well formed and uses S256, it is there whenever the client requires PKCE, is
  public or follows FAPI 2.0, and \<open>prompt=none\<close> stands alone.
\<close>

theorem validated_request_is_registered:
  assumes "resolve_redirect (az_lib env) c ps = Inr (redirect, mode, state)" and "validate env tn c ps redirect mode state = Inr req"
  shows "allows_grant c grant_authorization_code \<and> aq_client req = cl_id c \<and> aq_redirect_uri req = redirect \<and>
    redirect_matches (az_lib env) (cl_redirect_uris c) redirect (cl_type c) \<and>
    set (aq_scopes req) \<subseteq> set (cl_allowed_scopes c) \<and> aq_scopes req \<noteq> [] \<and>
    (\<forall>a\<in>set (aq_audiences req). cl_allowed_audiences c = [] \<or> a \<in> set (cl_allowed_audiences c)) \<and>
    (\<forall>ch. aq_code_challenge req = Some ch \<longrightarrow> is_valid_challenge ch \<and> one ps ''code_challenge_method'' = Inr (Some ''S256'')) \<and>
    (cl_require_pkce c \<or> is_public c \<or> is_fapi2 c \<longrightarrow> aq_code_challenge req \<noteq> None) \<and>
    (''none'' \<in> set (aq_prompt req) \<longrightarrow> aq_prompt req = [''none'']) \<and> (aq_skip_consent req \<longleftrightarrow> \<not> cl_require_consent c)"
proof -
  have redirect: "redirect_matches (az_lib env) (cl_redirect_uris c) redirect (cl_type c)"
    using assms(1) by (auto simp: resolve_redirect_def andThen_Inr)
  obtain sc checked challenge m p audiences u u1 u2 where
    grant: "check_response_type c ps = Inr u"
    and scopes: "validate_request (az_directory env) (tn_id tn) c (parse_scope_param (case sc of None \<Rightarrow> [] | Some s \<Rightarrow> s)) [] True = Inr checked"
    and m: "one ps ''code_challenge_method'' = Inr m" and pkce: "check_pkce c challenge m = Inr u1" and prompt: "check_prompt (words_of p) = Inr u2"
    and audiences: "requested_resources (az_lib env) (az_directory env) (tn_id tn) c ps = Inr audiences"
    and req: "aq_client req = cl_id c" "aq_redirect_uri req = redirect" "aq_scopes req = rq_scopes checked"
      "aq_audiences req = with_bound_audiences audiences (cl_allowed_audiences c) (rq_bound_audiences checked)"
      "aq_code_challenge req = challenge" "aq_prompt req = words_of p" "aq_skip_consent req = (\<not> cl_require_consent c)"
    using assms(2) unfolding validate_def
    by (auto simp only: andThen_Inr fail_one_Inr redirecting_Inr sum.inject auth_request.simps)
  have "allows_grant c grant_authorization_code" using grant by (auto simp: check_response_type_def andThen_Inr)
  moreover have "set (rq_scopes checked) \<subseteq> set (cl_allowed_scopes c)" "rq_scopes checked \<noteq> []"
    by (rule validate_request_Inr [OF scopes]; simp)+
  ultimately show ?thesis
    using redirect req m check_pkce_Inr [OF pkce] check_prompt_Inr [OF prompt] audiences_allowed [OF audiences scopes] by auto
qed

section \<open>When a code is issued\<close>

lemma browser_session_frame:
  "browser_session at tn cookie fs = (s, fs1) \<Longrightarrow> only_sessions fs fs1"
  by (auto simp: browser_session_def split: option.splits prod.splits)

lemma unfinished_stage_frame:
  assumes "unfinished_stage env at tn s secret ip loc fs = (owed, fs1)"
  shows "fs_flows fs1 = fs_flows fs" "fs_consents fs1 = fs_consents fs" "fs_sessions fs1 = fs_sessions fs"
  using assms by (auto simp: unfinished_stage_def Let_def split: sum.splits if_splits option.splits prod.splits)

lemma start_flow_codes: "start_flow env at csrf tn p f st = (a, st1) \<Longrightarrow> az_codes st1 = az_codes st"
  by (auto simp: start_flow_def split: prod.splits)

definition code_issued ::
  "('net, 'ip) az_env \<Rightarrow> moment \<Rightarrow> string \<Rightarrow> flow_tenant \<Rightarrow> client \<Rightarrow> auth_request \<Rightarrow> sso_session \<Rightarrow> az_state \<Rightarrow> az_state \<Rightarrow> bool" where
  "code_issued env at code tn c req s st st' =
     (\<exists>act. acting env s = Inr act \<and>
        az_codes st' = snd (issue_code (az_lib env) (at_now at) code (code_of (at_now at) tn c req s act) (az_codes st)))"

lemma grant_code_issues:
  assumes "grant_code env at code saml tn c req s st = (r, st')" "az_codes st' \<noteq> az_codes st"
  shows "code_issued env at code tn c req s st st' \<and> fs_flows (az_flows st') = fs_flows (az_flows st)"
  using assms by (auto simp: grant_code_def code_issued_def Let_def split: if_splits sum.splits)

lemma grant_code_flows:
  assumes "grant_code env at code saml tn c req s st = (r, st')"
  shows "fs_flows (az_flows st') = fs_flows (az_flows st)"
  using assms by (auto simp: grant_code_def Let_def split: if_splits sum.splits)

lemma decide_consent_issues:
  assumes "decide_consent env at ids saml tn c req s st = (r, st')" "az_codes st' \<noteq> az_codes st"
  shows "code_issued env at (fi_code ids) tn c req s st st' \<and> (aq_skip_consent req \<or> missing_scopes (tn_id tn) (ss_user s) (cl_id c) (aq_scopes req) (fs_consents (az_flows st)) = []
      \<or> ''consent'' \<in> set (aq_prompt req)) \<and> (''consent'' \<in> set (aq_prompt req) \<longrightarrow> aq_scopes req = [])"
  using assms
  by (auto simp: decide_consent_def Let_def dest: start_flow_codes grant_code_issues split: if_splits prod.splits sum.splits)

text \<open>
  C8. The endpoint issues a code without asking only on a session that may be used as it stands: the browser's own, not re-asked
  for by the prompt, no older than \<open>max_age\<close>, owing no step, of the class the request demands, and
  for scopes the user consented to or the client needs no consent for. The code is bound to
  that user, session and request.
\<close>

theorem code_without_asking_is_owed_nothing:
  assumes "decide env at ids saml tn cookie secret ip loc c req st = (r, st')" and "az_codes st' \<noteq> az_codes st"
  shows "\<exists>s fs fs1. browser_session at tn cookie (az_flows st) = (Some s, fs) \<and> set (aq_prompt req) \<inter> {''login'', ''select_account'', ''create''} = {} \<and>
    fresh_enough (at_now at) req s \<and> unfinished_stage (az_flow env) at tn s secret ip loc fs = (OwesNothing, fs1) \<and> acr_ok req s \<and>
    (aq_skip_consent req \<or> ''consent'' \<in> set (aq_prompt req) \<and> aq_scopes req = []
      \<or> missing_scopes (tn_id tn) (ss_user s) (cl_id c) (aq_scopes req) (fs_consents (az_flows st)) = []) \<and>
    code_issued env at (fi_code ids) tn c req s st st'"
proof -
  obtain session fs where b: "browser_session at tn cookie (az_flows st) = (session, fs)" by (cases "browser_session at tn cookie (az_flows st)")
  let ?stale = "''create'' \<in> set (aq_prompt req) \<or> (''login'' \<in> set (aq_prompt req) \<or> ''select_account'' \<in> set (aq_prompt req))
      \<or> (case session of None \<Rightarrow> True | Some s \<Rightarrow> \<not> fresh_enough (at_now at) req s)"
  obtain owed fs1 where o': "(case session of
             Some s \<Rightarrow> if ?stale then (OwesNothing, fs) else unfinished_stage (az_flow env) at tn s secret ip loc fs
           | None \<Rightarrow> (OwesNothing, fs)) = (owed, fs1)" by (metis surj_pair)
  have stale: "\<not> ?stale" "owed_step owed \<noteq> Some AtAuthenticate" "owed \<noteq> OwedBlocked"
    using assms unfolding decide_def Let_def b prod.case o'
    by (auto split: if_splits prod.splits dest: start_flow_codes)
  then obtain s where s: "session = Some s" by (cases session) auto
  have u: "unfinished_stage (az_flow env) at tn s secret ip loc fs = (owed, fs1)" using o' stale(1) s by simp
  have resume: "owed_step owed = None" "acr_ok req s" and d: "decide_consent env at ids saml tn c req s (st\<lparr>az_flows := fs1\<rparr>) = (r, st')"
    using assms stale u unfolding decide_def Let_def b prod.case o' s
    by (auto split: if_splits prod.splits option.splits dest: start_flow_codes)
  have "owed = OwesNothing" using resume(1) stale(3) by (cases owed) auto
  moreover have "fs_consents fs1 = fs_consents (az_flows st)"
    using unfinished_stage_frame(2) [OF u] only_sessions_frame(2) [OF browser_session_frame [OF b]] by simp
  moreover have "az_codes st' \<noteq> az_codes (st\<lparr>az_flows := fs1\<rparr>)" using assms(2) by simp
  note decide_consent_issues [OF d this]
  moreover have "set (aq_prompt req) \<inter> {''login'', ''select_account'', ''create''} = {}" "fresh_enough (at_now at) req s"
    using stale(1) s by auto
  ultimately show ?thesis using b s u resume(2) by (auto simp: code_issued_def)
qed

section \<open>The endpoint runs the flows\<close>

text \<open>What the endpoint does to the flows is a run of their steps, whatever requests have loaded.\<close>

definition runs :: "flow_state \<Rightarrow> flow_state \<Rightarrow> bool" where
  "runs fs fs' = (\<forall>loaded. flow_step\<^sup>*\<^sup>* (fs, loaded) (fs', loaded))"

lemma runs_same: "fs_flows fs' = fs_flows fs \<Longrightarrow> runs fs fs'"
  by (auto simp: runs_def intro: r_into_rtranclp elsewhere)

lemma runs_trans: "runs fs fs1 \<Longrightarrow> runs fs1 fs2 \<Longrightarrow> runs fs fs2"
  by (auto simp: runs_def intro: rtranclp_trans)

lemma start_flow_runs:
  assumes "start_flow env at csrf tn p f st = (a, st1)"
    and "lf_stage f \<in> {AtAuthenticate, AtRegister} \<or> lf_stage f \<in> {AtPasswordChange, AtMfa, AtConsent} \<and> signed_in f"
  shows "runs (az_flows st) (az_flows st1)"
  using assms by (auto simp: start_flow_def runs_def intro!: r_into_rtranclp started split: prod.splits)

lemma unfinished_stage_stages:
  "unfinished_stage env at tn s secret ip loc fs = (OwesStep stage, fs1) \<Longrightarrow> stage \<in> {AtAuthenticate, AtPasswordChange, AtMfa}"
  by (auto simp: unfinished_stage_def Let_def split: sum.splits if_splits option.splits prod.splits)

lemma decide_consent_runs:
  assumes "decide_consent env at ids saml tn c req s st = (r, st1)"
  shows "runs (az_flows st) (az_flows st1)"
  using assms
  by (auto simp: decide_consent_def Let_def new_flow_def signed_in_def split: if_splits prod.splits sum.splits
      dest!: grant_code_flows start_flow_runs intro: runs_same)

lemma decide_runs:
  assumes "decide env at ids saml tn cookie secret ip loc c req st = (r, st1)"
  shows "runs (az_flows st) (az_flows st1)"
proof -
  obtain session fs where b: "browser_session at tn cookie (az_flows st) = (session, fs)" by (cases "browser_session at tn cookie (az_flows st)")
  let ?stale = "''create'' \<in> set (aq_prompt req) \<or> (''login'' \<in> set (aq_prompt req) \<or> ''select_account'' \<in> set (aq_prompt req))
      \<or> (case session of None \<Rightarrow> True | Some s \<Rightarrow> \<not> fresh_enough (at_now at) req s)"
  obtain owed fs1 where o': "(case session of
             Some s \<Rightarrow> if ?stale then (OwesNothing, fs) else unfinished_stage (az_flow env) at tn s secret ip loc fs
           | None \<Rightarrow> (OwesNothing, fs)) = (owed, fs1)" by (metis surj_pair)
  have same: "fs_flows fs1 = fs_flows (az_flows st)"
    using o' only_sessions_frame(1) [OF browser_session_frame [OF b]] by (auto dest: unfinished_stage_frame(1) split: option.splits if_splits)
  have stage: "stage \<in> {AtAuthenticate, AtPasswordChange, AtMfa}" if "owed_step owed = Some stage" for stage
    using that o' by (cases owed) (auto dest: unfinished_stage_stages split: option.splits if_splits)
  have "runs fs1 (az_flows st1)"
    using assms stage unfolding decide_def Let_def b prod.case o'
    by (auto simp: new_flow_def signed_in_def split: if_splits prod.splits option.splits
        dest!: start_flow_runs decide_consent_runs intro: runs_same)
  then show ?thesis using runs_same [OF same] runs_trans by blast
qed

lemma finish_decision_runs:
  "finish_decision env at ids saml tn br c req st = (a, st1) \<Longrightarrow> runs (az_flows st) (az_flows st1)"
  by (auto simp: finish_decision_def split: sum.splits prod.splits dest: decide_runs intro: runs_same)

lemma take_pushed_flows: "take_pushed env now tn ps uri st = (r, st1) \<Longrightarrow> az_flows st1 = az_flows st"
  by (auto simp: take_pushed_def Let_def split: sum.splits prod.splits option.splits if_splits)

lemma handle_authorize_runs:
  "handle_authorize env at ids saml tn br ps st = (a, st1) \<Longrightarrow> runs (az_flows st) (az_flows st1)"
  by (auto simp: handle_authorize_def Let_def split: sum.splits prod.splits option.splits if_splits
      dest!: finish_decision_runs take_pushed_flows intro: runs_same)

lemma unpark_flows: "unpark now t e i st = (f, st1) \<Longrightarrow> az_flows st1 = az_flows st"
  by (auto simp: unpark_def split: prod.splits)

lemma authorize_get_runs:
  "authorize_get env at ids saml tn br query st = (a, st1) \<Longrightarrow> runs (az_flows st) (az_flows st1)"
  by (auto simp: authorize_get_def Let_def split: option.splits prod.splits dest!: handle_authorize_runs unpark_flows intro: runs_same)

lemma remember_device_frame:
  assumes "remember_device env at dev tn br f s fs = (s1, fs1)"
  shows "fs_flows fs1 = fs_flows fs" "ss_id s1 = ss_id s" "ss_user s1 = ss_user s"
  using assms by (auto simp: remember_device_def bind_device_def Let_def split: prod.splits if_splits)

lemma approve_from_flow_flows:
  "approve_from_flow env at tn c f s h st = (a, st1) \<Longrightarrow> fs_flows (az_flows st1) = fs_flows (az_flows st) \<and> az_codes st1 = az_codes st"
  by (auto simp: approve_from_flow_def split: sum.splits prod.splits option.splits)

lemma runs_delete: "fs_flows fs' = delete_flow t i (fs_flows fs) \<Longrightarrow> runs fs fs'"
proof -
  assume "fs_flows fs' = delete_flow t i (fs_flows fs)"
  then have "runs (fs\<lparr>fs_flows := delete_flow t i (fs_flows fs)\<rparr>) fs'" by (intro runs_same) simp
  moreover have "runs fs (fs\<lparr>fs_flows := delete_flow t i (fs_flows fs)\<rparr>)" by (auto simp: runs_def intro: r_into_rtranclp deleted)
  ultimately show ?thesis using runs_trans by blast
qed

lemma remembered_flows:
  "remember_device env at dev tn br f s fs = (s1, fs1) \<Longrightarrow> browser_session at tn cookie fs0 = (x, fs) \<Longrightarrow> fs_flows fs1 = fs_flows fs0"
  using remember_device_frame(1) only_sessions_frame(1) [OF browser_session_frame] by metis

lemma finish_runs:
  assumes "finish env at code dev saml tn br i st = (a, st1)"
  shows "runs (az_flows st) (az_flows st1)"
proof -
  have "fs_flows (az_flows st1) = fs_flows (az_flows st) \<or> fs_flows (az_flows st1) = delete_flow (tn_id tn) i (fs_flows (az_flows st))"
    using assms
    by (auto simp: finish_def Let_def split: sum.splits if_splits prod.splits option.splits
        dest!: approve_from_flow_flows grant_code_flows dest: remembered_flows only_sessions_frame(1) [OF browser_session_frame])
  then show ?thesis using runs_same runs_delete by metis
qed

text \<open>What a code from \<open>finish\<close> rests on.\<close>

lemma finish_issues:
  assumes "finish env at code dev saml tn br i st = (a, st1)" "az_codes st1 \<noteq> az_codes st"
  obtains f s fs s1 fs1 c where "load_flow (at_now at) (tn_id tn) i (fs_flows (az_flows st)) = Inr f" "lf_stage f = AtDone"
    "browser_session at tn (br_cookie br) (az_flows st) = (Some s, fs)" "lf_session f = Some (ss_id s)" "lf_user f = Some (ss_user s)"
    "remember_device env at dev tn br f s fs = (s1, fs1)" "find_client env (tn_id tn) (aq_client_public_id (lf_request f)) = Some c" "cl_active c"
    "code_issued env at code tn c (lf_request f) s1 st st1" "fs_flows (az_flows st1) = delete_flow (tn_id tn) i (fs_flows (az_flows st))"
proof -
  obtain f where f: "load_flow (at_now at) (tn_id tn) i (fs_flows (az_flows st)) = Inr f" "lf_stage f = AtDone"
    using assms by (auto simp: finish_def split: sum.splits if_splits)
  obtain s fs where s: "browser_session at tn (br_cookie br) (az_flows st) = (Some s, fs)" "lf_session f = Some (ss_id s)" "lf_user f = Some (ss_user s)"
    using assms f by (auto simp: finish_def split: prod.splits option.splits if_splits)
  obtain s1 fs1 where r: "remember_device env at dev tn br f s fs = (s1, fs1)" by (metis surj_pair)
  obtain c where c: "find_client env (tn_id tn) (aq_client_public_id (lf_request f)) = Some c" "cl_active c"
    using assms f s r by (auto simp: finish_def split: option.splits if_splits)
  let ?st = "st\<lparr>az_flows := fs1\<lparr>fs_flows := delete_flow (tn_id tn) i (fs_flows fs1)\<rparr>\<rparr>"
  have d: "aq_device_code (lf_request f) = None"
    using assms f s r c by (auto simp: finish_def Let_def split: option.splits dest: approve_from_flow_flows)
  obtain r1 where g: "grant_code env at code saml tn c (lf_request f) s1 ?st = (r1, st1)"
    using assms f s r c d by (auto simp: finish_def Let_def split: prod.splits sum.splits)
  have "code_issued env at code tn c (lf_request f) s1 ?st st1 \<and> fs_flows (az_flows st1) = fs_flows (az_flows ?st)"
    using grant_code_issues [OF g] assms(2) by simp
  moreover have "fs_flows fs1 = fs_flows (az_flows st)"
    using remember_device_frame(1) [OF r] only_sessions_frame(1) [OF browser_session_frame [OF s(1)]] by simp
  ultimately show thesis using that f s r c by (simp add: code_issued_def)
qed

text \<open>
  Requests on the tenant's endpoints, interleaved with the steps of the flows; \<open>otherwise\<close> is
  whatever leaves the flows alone, like the token endpoint taking a code.
\<close>

inductive az_step :: "('net, 'ip) az_env \<Rightarrow> az_state \<times> login_flow set \<Rightarrow> az_state \<times> login_flow set \<Rightarrow> bool" for env where
  authorizes: "authorize_get env at ids saml tn br query st = (a, st') \<Longrightarrow> az_step env (st, loaded) (st', loaded)"
| finishes: "finish env at code dev saml tn br i st = (a, st') \<Longrightarrow> az_step env (st, loaded) (st', loaded)"
| flows: "flow_step (az_flows st, loaded) (fs, loaded') \<Longrightarrow> az_step env (st, loaded) (st\<lparr>az_flows := fs\<rparr>, loaded')"
| otherwise: "fs_flows (az_flows st') = fs_flows (az_flows st) \<Longrightarrow> az_step env (st, loaded) (st', loaded)"

definition az_settled :: "az_state \<times> login_flow set \<Rightarrow> bool" where
  "az_settled p = all_settled (az_flows (fst p), snd p)"

lemma runs_settled: "runs fs fs' \<Longrightarrow> all_settled (fs, loaded) \<Longrightarrow> all_settled (fs', loaded)"
  unfolding runs_def using fl.run_keeps by blast

interpretation az: kept_by_steps "az_step env" az_settled for env :: "('net, 'ip) az_env"
proof
  fix p p' :: "az_state \<times> login_flow set"
  assume "az_step env p p'" "az_settled p"
  then show "az_settled p'"
    by (induction rule: az_step.induct)
      (auto simp: az_settled_def simp del: all_settled.simps dest: authorize_get_runs finish_runs runs_settled flow_step_keeps_settled
        intro: runs_settled [OF runs_same])
qed


section \<open>Request objects and pushed requests\<close>

lemma or_fail_Inr: "or_fail f r = Inr x \<longleftrightarrow> r = Inr x"
  by (auto simp: or_fail_def split: sum.splits)

lemma pushed_request_Inr:
  "pushed_request env tn c ps = Inr req \<longleftrightarrow>
     (\<exists>redirect mode state. resolve_redirect (az_lib env) c ps = Inr (redirect, mode, state) \<and> validate env tn c ps redirect mode state = Inr req)"
  by (auto simp: pushed_request_def andThen_Inr or_fail_Inr)

lemma values_of_append: "values_of (xs @ ys) k = values_of xs k @ values_of ys k"
  by (simp add: values_of_def)

lemma values_of_members:
  assumes "distinct (map fst obj)"
  shows "values_of (concat (map (\<lambda>(k, v). if k \<in> R then [] else map (Pair k) (g v)) obj)) k
    = (case map_of obj k of None \<Rightarrow> [] | Some v \<Rightarrow> if k \<in> R then [] else g v)"
  using assms
proof (induction obj)
  case Nil
  then show ?case by (simp add: values_of_def)
next
  case (Cons m obj)
  obtain n v where m: "m = (n, v)" by (cases m)
  have own: "values_of (map (Pair n) (g v)) k = (if k = n then g v else [])"
    by (auto simp: values_of_def o_def filter_map)
  have "map_of obj n = None" using Cons.prems m by (simp add: map_of_eq_None_iff)
  then show ?case using Cons m own by (auto simp: values_of_append) (auto simp: values_of_def)
qed

lemma merge_params_values:
  assumes "distinct (map fst obj)"
  shows "values_of (merge_params lib ps obj) k =
    (case map_of obj k of
       Some v \<Rightarrow> if k \<in> set REGISTERED_CLAIMS then [] else member_texts lib v
     | None \<Rightarrow> if k = ''request'' then [] else values_of ps k)"
proof -
  have "values_of (filter (\<lambda>(k, v). k \<noteq> ''request'' \<and> map_of obj k = None) ps) k
      = (if k \<noteq> ''request'' \<and> map_of obj k = None then values_of ps k else [])"
    by (induction ps) (auto simp: values_of_def)
  then show ?thesis
    unfolding merge_params_def values_of_append values_of_members [OF assms] by (auto split: option.splits)
qed

lemma object_key_mem:
  assumes "object_key env now c kid st = (Inr jwk, st')"
  shows "client_key (az_auth env) now c jwk"
  using assms
  by (auto simp: object_key_def client_key_def az_lib_def Let_def split: prod.splits sum.splits option.splits if_splits dest: pick_key_mem)



section \<open>Consent after single sign-on\<close>

text \<open>
  Consent asked of a signed-in user forgets how they signed in: the flow the endpoint starts for it carries no authentication
  methods and no trusted device, so after approving it the user is sent to the second factor
  wherever the policy requires one, even when the session has passed it or the device is trusted.
\<close>

theorem consent_repeats_second_factor:
  assumes "decide_consent env at ids saml tn c req s st = (Inr a, st1)"
    and "fs_flows (az_flows st) (tn_id tn, fi_flow ids) = None" and "fs_flows (az_flows st1) (tn_id tn, fi_flow ids) = Some (f, d)"
    and "consent_step (az_flow env) at' new_id url tn f True granted fs = (Inr (Granted f2), fs2)"
    and "policy_requires_mfa (az_flow env) tn (ss_user s) (fs_factors fs)"
  shows "lf_stage f2 = AtMfa"
proof -
  have f: "lf_amr f = []" "\<not> lf_trusted f" "lf_user f = Some (ss_user s)" "lf_session f = Some (ss_id s)"
    using assms(1-3)
    by (auto simp: decide_consent_def Let_def start_flow_def create_flow_def save_flow_def new_flow_def kv_set_ex_def kv_set_until_def
        dest: grant_code_flows split: if_splits prod.splits sum.splits)
  show ?thesis
  proof (rule consent_step_granted [OF assms(4) f(3)])
    fix w c' st2
    assume adv: "advance (az_flow env) at' tn False (f\<lparr>lf_request := (lf_request f)\<lparr>aq_scopes := effective_scopes f granted\<rparr>, lf_pending := [], lf_stage := AtDone\<rparr>)
        (fs\<lparr>fs_sessions := w, fs_consents := grant_consent (at_db at') (tn_id tn) (ss_user s) (cl_id c') (effective_scopes f granted) (fs_consents fs)\<rparr>) = (Inr f2, st2)"
    have "mfa_required (az_flow env) tn (f\<lparr>lf_request := (lf_request f)\<lparr>aq_scopes := effective_scopes f granted\<rparr>, lf_pending := [], lf_stage := AtDone\<rparr>)
        (ss_user s) (fs_factors fs)"
      using f assms(5) by (simp add: mfa_required_def)
    then show ?thesis using adv f by (auto simp: advance_def split: sum.splits)
  qed
qed

section \<open>Examples\<close>

definition ex_az_env :: "(nat \<times> nat, nat) az_env" where
  "ex_az_env = \<lparr>az_flow = ex_flow_env, az_auth = ex_auth_env, az_directory = ex_directory, az_tenant_issuer = (\<lambda>t. None),
     az_ui_page = (\<lambda>t p q. p), az_fragment = (\<lambda>u q. Some u), az_jarm = (\<lambda>c. Inr ''jwt'')\<rparr>"

definition ex_az_tenant :: flow_tenant where
  "ex_az_tenant = tenant.extend ex_limited (flow_tenant.fields ex_pw_policy MfaRequired True default_risk_policy False True True ex_lockout 0 False)"

definition ex_challenge :: string where "ex_challenge = replicate 43 (CHR ''a'')"

definition ex_pushed :: raw_params where
  "ex_pushed = [(''client_id'', ''app''), (''client_secret'', ''s3cret''), (''redirect_uri'', ''https://app/cb''), (''response_type'', ''code''),
     (''scope'', ''openid''), (''code_challenge'', ex_challenge), (''code_challenge_method'', ''S256'')]"

definition ex_pusher :: client where "ex_pusher = ex_client\<lparr>cl_auth_method := ClientSecretPost\<rparr>"

lemma ex_az_trims:
  "trim ''https://app/cb'' = ''https://app/cb''" "trim ''code'' = ''code''" "trim ''openid'' = ''openid''" "trim ex_challenge = ex_challenge"
  "trim ''S256'' = ''S256''"
  by (rule trim_visible, simp add: visible_def ex_challenge_def list_all_iff)+

lemma ex_challenge_not_Nil: "ex_challenge \<noteq> []"
  by (simp add: ex_challenge_def)

lemma ex_param_one:
  "param_one ex_pushed n = Inr (if n = ''client_id'' then Some ''app'' else if n = ''client_secret'' then Some ''s3cret''
     else if n = ''redirect_uri'' then Some ''https://app/cb'' else if n = ''response_type'' then Some ''code'' else if n = ''scope'' then Some ''openid''
     else if n = ''code_challenge'' then Some ex_challenge else if n = ''code_challenge_method'' then Some ''S256'' else None)"
  by (auto simp: param_one_def values_of_def ex_pushed_def ex_az_trims ex_trimmed nonempty_def ex_challenge_not_Nil)

lemma ex_pushed_validates: "\<exists>req. pushed_request ex_az_env ex_az_tenant ex_pusher ex_pushed = Inr req"
proof -
  have one: "one ex_pushed n = Inr (if n = ''client_id'' then Some ''app'' else if n = ''client_secret'' then Some ''s3cret''
     else if n = ''redirect_uri'' then Some ''https://app/cb'' else if n = ''response_type'' then Some ''code'' else if n = ''scope'' then Some ''openid''
     else if n = ''code_challenge'' then Some ex_challenge else if n = ''code_challenge_method'' then Some ''S256'' else None)" for n
    by (simp add: one_def ex_param_one)
  have scope: "parse_scope_param ''openid'' = [''openid'']"
    by (simp add: parse_scope_param_def ex_az_trims push_new_def)
  have checked: "validate_request ex_directory 1 ex_pusher [''openid''] [] True = Inr \<lparr>rq_scopes = [''openid''], rq_bound_audiences = []\<rparr>"
    by (simp add: validate_request_def requested_or_default_def resolve_scopes_def find_scope_def ex_domain_defs List.map_filter_simps Let_def ex_pusher_def)
  have pkce: "check_pkce ex_pusher (Some ex_challenge) (Some ''S256'') = Inr ()"
    by (simp add: check_pkce_def is_valid_challenge_def ex_challenge_def unreserved_def ascii_defs list_all_iff)
  have resources: "requested_resources lib dir t c ex_pushed = Inr []" for lib dir t c
    by (simp add: requested_resources_def param_many_def values_of_def ex_pushed_def)
  have fields: "az_directory ex_az_env = ex_directory" "tn_id ex_az_tenant = 1" "cl_redirect_uris ex_pusher = [''https://app/cb'']"
    "allows_grant ex_pusher grant_authorization_code"
    by (simp_all add: ex_az_env_def ex_az_tenant_def ex_limited_def ex_tenant_def tenant.defs flow_tenant.defs ex_pusher_def ex_client_def allows_grant_def all_grants_def)
  have "resolve_redirect (az_lib ex_az_env) ex_pusher ex_pushed = Inr (''https://app/cb'', ModeQuery, None)"
    by (simp add: resolve_redirect_def page_one_def ex_param_one redirect_matches_def fields)
  moreover have "\<exists>req. validate ex_az_env ex_az_tenant ex_pusher ex_pushed ''https://app/cb'' ModeQuery None = Inr req"
    by (simp add: validate_def fail_one_def one check_response_type_def scope redirecting_def fields checked pkce check_prompt_def words_of_def
        parse_max_age_def parse_claims_def resources del: One_nat_def)
  ultimately show ?thesis by (auto simp: pushed_request_Inr)
qed

lemma ex_az_tenant_simps [simp]:
  "tn_id ex_az_tenant = 1" "tenant.truncate ex_az_tenant = ex_limited" "tn_session_policy ex_az_tenant = default_session_policy"
  "se_mfa ex_az_tenant = MfaRequired" "se_risk ex_az_tenant = default_risk_policy" "se_auth_password ex_az_tenant"
  by (simp_all add: ex_az_tenant_def ex_limited_def ex_tenant_def tenant.defs flow_tenant.defs)

theorem validated_request_is_registered_witness:
  "\<exists>req. pushed_request ex_az_env ex_az_tenant ex_pusher ex_pushed = Inr req \<and> aq_code_challenge req \<noteq> None \<and> set (aq_scopes req) \<subseteq> {''openid'', ''orders''}"
proof -
  obtain req redirect mode state where req: "pushed_request ex_az_env ex_az_tenant ex_pusher ex_pushed = Inr req"
    and r: "resolve_redirect (az_lib ex_az_env) ex_pusher ex_pushed = Inr (redirect, mode, state)"
    and v: "validate ex_az_env ex_az_tenant ex_pusher ex_pushed redirect mode state = Inr req"
    using ex_pushed_validates by (auto simp: pushed_request_Inr)
  from validated_request_is_registered [OF r v] req show ?thesis by (simp add: ex_pusher_def ex_client_def)
qed

definition ex_az_state :: "flow_state \<Rightarrow> az_state" where
  "ex_az_state fs = \<lparr>az_flows = fs, az_codes = Map.empty, az_pushed = Map.empty, az_parked = Map.empty, az_auths = ex_auth_store\<rparr>"


definition ex_object_env :: "(nat \<times> nat, nat) az_env" where
  "ex_object_env = ex_az_env\<lparr>az_auth := ex_auth_env\<lparr>ae_lib := ex_keys_library\<lparr>l_header := (\<lambda>t. Some (None, None, ''ES256'')),
     l_decode := (\<lambda>k v now t. Some [(''client_id'', JStr ''app''), (''scope'', JStr ''openid'')])\<rparr>\<rparr>\<rparr>"


text \<open>A session that has passed a second factor, in the store.\<close>

definition ex_mfa_session :: sso_session where
  "ex_mfa_session = ex_sso\<lparr>ss_amr := [''pwd'', ''otp'', ''mfa''], ss_acr := Some ACR_MFA\<rparr>"

definition ex_sessions :: auth_state where
  "ex_sessions = (ex_state [])\<lparr>sess_kv := [(1, 50) \<mapsto> (ex_mfa_session, Some 100)]\<rparr>"

lemma ex_mfa_session_simps [simp]:
  "ss_id ex_mfa_session = 50" "ss_user ex_mfa_session = 3" "ss_impersonator ex_mfa_session = None" "ss_amr ex_mfa_session = [''pwd'', ''otp'', ''mfa'']"
  by (simp_all add: ex_mfa_session_def ex_sso_def)

lemma ex_get_session: "get_session 0 1 50 default_session_policy ex_sessions = (Some ex_mfa_session, ex_sessions)"
  by (simp add: get_session_def ex_sessions_def kv_get_def kv_entry_def is_live_def num_seconds_def trunc_div_def)
    (simp add: ex_mfa_session_def ex_sso_def nanos_per_sec_def)

lemma ex_browser_session:
  "fs_sessions fs = ex_sessions \<Longrightarrow> browser_session ex_at ex_az_tenant (Some 50) fs = (Some ex_mfa_session, fs\<lparr>fs_sessions := ex_sessions\<rparr>)"
  by (simp add: browser_session_def ex_get_session del: One_nat_def)

definition ex_signed_state :: az_state where
  "ex_signed_state = ex_az_state (ex_flow_state\<lparr>fs_sessions := ex_sessions\<rparr>)"

definition ex_ids :: fresh_ids where "ex_ids = \<lparr>fi_flow = 6, fi_csrf = ''x'', fi_code = ''c0de''\<rparr>"

lemma ex_owes_nothing:
  "unfinished_stage ex_flow_env ex_at ex_az_tenant ex_mfa_session None None None (ex_flow_state\<lparr>fs_sessions := w\<rparr>)
     = (OwesNothing, ex_flow_state\<lparr>fs_sessions := w\<rparr>)"
proof -
  have "\<not> ac_must_change ex_row_of" by (simp add: ex_row_of_def)
  then show ?thesis
    by (simp add: unfinished_stage_def get_user_def find_account_def ex_accounts evaluate_def default_risk_policy_def is_blocked_def steps_up_def Let_def)
qed

theorem code_without_asking_is_owed_nothing_witness:
  "\<exists>r st'. decide ex_az_env ex_at ex_ids (Inr ()) ex_az_tenant (Some 50) None None None ex_client (ex_request\<lparr>aq_skip_consent := True\<rparr>) ex_signed_state = (r, st') \<and>
     az_codes st' \<noteq> Map.empty \<and> acr_ok (ex_request\<lparr>aq_skip_consent := True\<rparr>) ex_mfa_session"
proof -
  let ?req = "ex_request\<lparr>aq_skip_consent := True\<rparr>"
  obtain r st' where d: "decide ex_az_env ex_at ex_ids (Inr ()) ex_az_tenant (Some 50) None None None ex_client ?req ex_signed_state = (r, st')"
    by (metis surj_pair)
  have fs: "az_flows ex_signed_state = ex_flow_state\<lparr>fs_sessions := ex_sessions\<rparr>" "az_codes ex_signed_state = Map.empty" "az_flow ex_az_env = ex_flow_env"
    by (simp_all add: ex_signed_state_def ex_az_state_def ex_az_env_def)
  have req: "aq_prompt ?req = []" "aq_max_age ?req = None" "\<not> aq_saml ?req" by (simp_all add: ex_request_def)
  have "az_codes st' (1, hash_b64 (az_lib ex_az_env) ''c0de'') \<noteq> None"
    using d unfolding decide_def Let_def fs
    by (auto simp: ex_browser_session req fresh_enough_def ex_owes_nothing acr_ok_def requested_mfa_class_def decide_consent_def
        grant_code_def acting_def issue_code_def code_of_def kv_set_ex_def kv_set_until_def ex_ids_def split: prod.splits sum.splits)
  then have "az_codes st' \<noteq> az_codes ex_signed_state" by (auto simp: fs)
  from code_without_asking_is_owed_nothing [OF d this] this d show ?thesis
    by (auto simp: fs ex_browser_session simp del: One_nat_def)
qed

lemma az_flows_run:
  "flow_step\<^sup>*\<^sup>* p p' \<Longrightarrow> (az_step env)\<^sup>*\<^sup>* (st\<lparr>az_flows := fst p\<rparr>, snd p) (st\<lparr>az_flows := fst p'\<rparr>, snd p')"
proof (induction rule: rtranclp_induct)
  case (step q q')
  then have "az_step env (st\<lparr>az_flows := fst q\<rparr>, snd q) ((st\<lparr>az_flows := fst q\<rparr>)\<lparr>az_flows := fst q'\<rparr>, snd q')"
    by (intro az_step.flows) simp
  then show ?case using step(3) by (auto intro: rtranclp.rtrancl_into_rtrancl)
qed simp


lemma consent_step_owing_mfa:
  assumes "lf_stage f = AtConsent" "lf_user f = Some u" "lf_session f = Some sid"
    and "get_session (at_now at) (tn_id tn) sid (tn_session_policy tn) (fs_sessions st) = (Some s, w)" "ss_impersonator s = None"
    and "client_of env f = Inr c" "get_user (tn_id tn) u (fs_accounts st) = Inr row"
    and "\<And>g fx. lf_amr g = lf_amr f \<Longrightarrow> lf_trusted g = lf_trusted f \<Longrightarrow> mfa_required env tn g u fx"
  obtains f2 fs2 where "consent_step env at new_id url tn f True granted st = (Inr (Granted f2), fs2)"
proof -
  have "\<exists>f2 fs2. consent_step env at new_id url tn f True granted st = (Inr (Granted f2), fs2)"
    using assms by (simp add: consent_step_def flow_user_def or_error_def advance_and_save_def advance_def Let_def)
  then show thesis using that by blast
qed

theorem consent_repeats_second_factor_witness:
  "\<exists>a st1 f d f2 fs2. decide_consent ex_az_env ex_at ex_ids (Inr ()) ex_az_tenant ex_client ex_request ex_mfa_session ex_signed_state = (Inr a, st1) \<and>
     ''mfa'' \<in> set (ss_amr ex_mfa_session) \<and> fs_flows (az_flows st1) (1, 6) = Some (f, d) \<and>
     consent_step ex_flow_env ex_at 9 (Inr []) ex_az_tenant f True None (az_flows st1) = (Inr (Granted f2), fs2) \<and> lf_stage f2 = AtMfa"
proof -
  let ?f = "(new_flow 0 6 ex_az_tenant ex_request AtConsent)\<lparr>lf_session := Some 50, lf_user := Some 3, lf_pending := [''openid'', ''orders''], lf_org := None,
     lf_csrf := ''x'', lf_expires_at := dur_secs 600\<rparr>"
  let ?st = "ex_signed_state\<lparr>az_flows := ex_flow_state\<lparr>fs_sessions := ex_sessions, fs_flows := [(1, 6) \<mapsto> (?f, Some (dur_secs 600))]\<rparr>\<rparr>"
  have signed: "az_flows ex_signed_state = ex_flow_state\<lparr>fs_sessions := ex_sessions\<rparr>" by (simp add: ex_signed_state_def ex_az_state_def)
  have s: "ss_org ex_mfa_session = None" by (simp add: ex_mfa_session_def ex_sso_def)
  have prompt: "aq_prompt ex_request = []" "\<not> aq_skip_consent ex_request" by (simp_all add: ex_request_def)
  have d: "\<exists>a. decide_consent ex_az_env ex_at ex_ids (Inr ()) ex_az_tenant ex_client ex_request ex_mfa_session ex_signed_state = (Inr a, ?st)"
    by (simp add: decide_consent_def prompt signed missing_scopes_def start_flow_def create_flow_def save_flow_def FLOW_TTL_SECS_def ex_ids_def s
        new_flow_def kv_set_ex_def kv_set_until_def Let_def)
  have user: "get_user 1 3 (fs_accounts ex_flow_state) = Inr ex_row_of" by (simp add: get_user_def find_account_def ex_accounts)
  have mfa: "policy_requires_mfa ex_flow_env ex_az_tenant 3 fx" for fx by (simp add: policy_requires_mfa_def)
  have client: "client_of ex_flow_env ?f = Inr ex_client" by (simp add: client_of_def new_flow_def ex_flow_env_def ex_client_def)
  have f: "lf_stage ?f = AtConsent" "lf_user ?f = Some 3" "lf_session ?f = Some 50" "lf_amr ?f = []" "\<not> lf_trusted ?f" by (simp_all add: new_flow_def)
  obtain f2 fs2 where c: "consent_step ex_flow_env ex_at 9 (Inr []) ex_az_tenant ?f True None (az_flows ?st) = (Inr (Granted f2), fs2)"
  proof (rule consent_step_owing_mfa [OF f(1-3) _ _ client])
    show "get_session (at_now ex_at) (tn_id ex_az_tenant) 50 (tn_session_policy ex_az_tenant) (fs_sessions (az_flows ?st)) = (Some ex_mfa_session, ex_sessions)"
      using ex_get_session by simp
    show "get_user (tn_id ex_az_tenant) 3 (fs_accounts (az_flows ?st)) = Inr ex_row_of" using user by simp
    show "mfa_required ex_flow_env ex_az_tenant g 3 fx" if "lf_amr g = lf_amr ?f" "lf_trusted g = lf_trusted ?f" for g fx
      using that f mfa by (simp add: mfa_required_def)
  qed simp_all
  obtain a where a: "decide_consent ex_az_env ex_at ex_ids (Inr ()) ex_az_tenant ex_client ex_request ex_mfa_session ex_signed_state = (Inr a, ?st)"
    using d by blast
  have env: "az_flow ex_az_env = ex_flow_env" by (simp add: ex_az_env_def)
  have "lf_stage f2 = AtMfa"
    by (rule consent_repeats_second_factor [OF a _ _ c [folded env]]) (simp_all add: ex_ids_def signed mfa env)
  then show ?thesis using a c by fastforce
qed

end
