(* ===== verification/Access.thy ===== *)
theory Access
  imports Domain
begin

text \<open>
  Who may administer what: roles, composites, groups and their hierarchy, role
  assignments (tenant-wide and within an organization), the permission catalogue and its
  grants to roles (\<open>services/roles.rs\<close>, \<open>groups.rs\<close>, \<open>resource_servers.rs\<close>, \<open>organizations.rs\<close>,
  \<open>admin_access.rs\<close> with their repositories), the checks an administrator's request passes
  (\<open>middleware/admin.rs\<close>) and the admin routes that change any of it.

  The tables are lists of rows in insertion order. Every query runs in a transaction bound
  to one tenant, so it reads \<open>tab_x t\<close>, the rows of tenant \<open>t\<close>. A recursive query
  (\<open>WITH RECURSIVE \<dots> UNION \<dots> depth < 64\<close>) is \<open>levels\<close>. The order of the rows a query
  returns is the collation's and carries no behaviour here: a permission set is sorted.
  Row timestamps and assignment ids are left out.

  Effective roles, groups and permissions are cached under a key that holds two version
  tokens, the tenant's and the user's. A token is drawn fresh (a new UUID), here from the
  counter \<open>ax_last_token\<close>, so that no token is drawn twice; a token that is absent is
  created on first use, so the versions are total functions.
\<close>

section \<open>Rows and state\<close>

record role_row = role +
  ro_tenant :: uuid
  ro_description :: "string option"
  ro_built_in :: bool

record group_row = group +
  gr_tenant :: uuid
  gr_description :: "string option"
  gr_attributes :: json

record role_assignment =
  ra_tenant :: uuid
  ra_role :: uuid
  ra_user :: "uuid option"
  ra_group :: "uuid option"
  ra_org :: "uuid option"

record resource_row = resource_server +
  rs_tenant :: uuid

record permission =
  pm_id :: uuid
  pm_tenant :: uuid
  pm_resource_server :: uuid
  pm_name :: string
  pm_description :: "string option"

datatype principal = PUser uuid | PGroup uuid

fun principal_ids :: "principal \<Rightarrow> uuid option \<times> uuid option" where
  "principal_ids (PUser i) = (Some i, None)"
| "principal_ids (PGroup i) = (None, Some i)"

datatype org_scope = TenantWide | InOrg uuid | Anywhere

datatype access_event =
    RoleCreated uuid | RoleUpdated uuid | RoleDeleted uuid
  | RoleAssigned uuid "uuid option" "uuid option" | RoleUnassigned uuid "uuid option" "uuid option"
  | RoleCompositeAdded uuid uuid | RoleCompositeRemoved uuid uuid
  | GroupCreated uuid | GroupUpdated uuid | GroupDeleted uuid
  | GroupMemberAdded uuid uuid | GroupMemberRemoved uuid uuid
  | ResourceServerDeleted uuid | PermissionCreated uuid uuid | PermissionDeleted uuid uuid
  | PermissionGranted uuid uuid | PermissionRevoked uuid uuid
  | OrganizationDeleted uuid | OrganizationMemberAdded uuid uuid | OrganizationMemberRemoved uuid uuid

text \<open>A cache key: the tenant, the two version tokens, the user, and what was asked.\<close>

type_synonym 'a access_key = "uuid \<times> (nat \<times> nat) \<times> uuid \<times> 'a"

record access_state =
  ax_tenants :: "uuid list"
  ax_clients :: "(uuid \<times> uuid) list"
  ax_users :: "user list"
  ax_orgs :: "(uuid \<times> uuid) list"
  ax_org_members :: "(uuid \<times> uuid \<times> uuid) list"
  ax_groups :: "group_row list"
  ax_members :: "(uuid \<times> uuid \<times> uuid) list"
  ax_roles :: "role_row list"
  ax_assignments :: "role_assignment list"
  ax_composites :: "(uuid \<times> uuid \<times> uuid) list"
  ax_resources :: "resource_row list"
  ax_permissions :: "permission list"
  ax_grants :: "(uuid \<times> uuid \<times> uuid) list"
  ax_tenant_version :: "uuid \<Rightarrow> nat"
  ax_user_version :: "uuid \<Rightarrow> uuid \<Rightarrow> nat"
  ax_last_token :: nat
  ax_role_cache :: "org_scope access_key \<Rightarrow> role_row list option"
  ax_permission_cache :: "org_scope access_key \<Rightarrow> string list option"
  ax_group_cache :: "bool access_key \<Rightarrow> group_row list option"
  ax_events :: "(uuid \<times> uuid \<times> access_event) list"

text \<open>What a transaction bound to tenant \<open>t\<close> sees of each table.\<close>

definition tab_groups :: "uuid \<Rightarrow> access_state \<Rightarrow> group_row list" where
  "tab_groups t st = filter (\<lambda>g. gr_tenant g = t) (ax_groups st)"

definition tab_members :: "uuid \<Rightarrow> access_state \<Rightarrow> (uuid \<times> uuid \<times> uuid) list" where
  "tab_members t st = filter (\<lambda>m. fst m = t) (ax_members st)"

definition tab_roles :: "uuid \<Rightarrow> access_state \<Rightarrow> role_row list" where
  "tab_roles t st = filter (\<lambda>r. ro_tenant r = t) (ax_roles st)"

definition tab_assignments :: "uuid \<Rightarrow> access_state \<Rightarrow> role_assignment list" where
  "tab_assignments t st = filter (\<lambda>a. ra_tenant a = t) (ax_assignments st)"

definition tab_composites :: "uuid \<Rightarrow> access_state \<Rightarrow> (uuid \<times> uuid \<times> uuid) list" where
  "tab_composites t st = filter (\<lambda>c. fst c = t) (ax_composites st)"

definition tab_resources :: "uuid \<Rightarrow> access_state \<Rightarrow> resource_row list" where
  "tab_resources t st = filter (\<lambda>r. rs_tenant r = t) (ax_resources st)"

definition tab_permissions :: "uuid \<Rightarrow> access_state \<Rightarrow> permission list" where
  "tab_permissions t st = filter (\<lambda>p. pm_tenant p = t) (ax_permissions st)"

definition tab_grants :: "uuid \<Rightarrow> access_state \<Rightarrow> (uuid \<times> uuid \<times> uuid) list" where
  "tab_grants t st = filter (\<lambda>g. fst g = t) (ax_grants st)"

lemmas tab_defs = tab_groups_def tab_members_def tab_roles_def tab_assignments_def
  tab_composites_def tab_resources_def tab_permissions_def tab_grants_def

section \<open>Queries\<close>

text \<open>
  The rows of a recursive query: those of the base query at depth 0, and for \<open>n\<close> further
  depths those reached from the depth before.
\<close>

fun levels :: "('a \<Rightarrow> 'a list) \<Rightarrow> nat \<Rightarrow> 'a list \<Rightarrow> 'a list" where
  "levels nx 0 xs = xs"
| "levels nx (Suc n) xs = xs @ levels nx n (remdups (concat (map nx xs)))"

definition find_role :: "uuid \<Rightarrow> uuid \<Rightarrow> access_state \<Rightarrow> role_row option" where
  "find_role t i st = find (\<lambda>r. ro_id r = i) (tab_roles t st)"

definition find_group :: "uuid \<Rightarrow> uuid \<Rightarrow> access_state \<Rightarrow> group_row option" where
  "find_group t i st = find (\<lambda>g. gr_id g = i) (tab_groups t st)"

text \<open>\<open>repos::users::find_by_id\<close> less the soft-deleted, as every caller here filters it.\<close>

definition find_live_user :: "uuid \<Rightarrow> uuid \<Rightarrow> access_state \<Rightarrow> user option" where
  "find_live_user t i st =
     (case find (\<lambda>u. us_tenant u = t \<and> us_id u = i) (ax_users st) of
        Some u \<Rightarrow> if us_deleted_at u = None then Some u else None
      | None \<Rightarrow> None)"

definition find_resource :: "uuid \<Rightarrow> uuid \<Rightarrow> access_state \<Rightarrow> resource_row option" where
  "find_resource t i st = find (\<lambda>r. rs_id r = i) (tab_resources t st)"

definition find_by_identifier :: "uuid \<Rightarrow> string \<Rightarrow> access_state \<Rightarrow> resource_row option" where
  "find_by_identifier t ident st = find (\<lambda>r. rs_identifier r = ident) (tab_resources t st)"

definition find_permission :: "uuid \<Rightarrow> uuid \<Rightarrow> access_state \<Rightarrow> permission option" where
  "find_permission t i st = find (\<lambda>p. pm_id p = i) (tab_permissions t st)"

text \<open>A group in a recursive query is the pair the query selects: its id and its parent.\<close>

definition parent_groups :: "uuid \<Rightarrow> access_state \<Rightarrow> uuid \<times> uuid option \<Rightarrow> (uuid \<times> uuid option) list" where
  "parent_groups t st g = [(gr_id p, gr_parent p). p \<leftarrow> tab_groups t st, snd g = Some (gr_id p)]"

definition child_roles :: "uuid \<Rightarrow> access_state \<Rightarrow> uuid \<Rightarrow> uuid list" where
  "child_roles t st r = [snd (snd c). c \<leftarrow> tab_composites t st, fst (snd c) = r]"

definition ancestor_ids :: "uuid \<Rightarrow> uuid \<Rightarrow> access_state \<Rightarrow> uuid list" where
  "ancestor_ids t i st =
     map fst (levels (parent_groups t st) 64
       [(gr_id g, gr_parent g). g \<leftarrow> tab_groups t st, gr_id g = i])"

definition user_group_pairs :: "uuid \<Rightarrow> uuid \<Rightarrow> access_state \<Rightarrow> (uuid \<times> uuid option) list" where
  "user_group_pairs t u st =
     levels (parent_groups t st) 64
       [(gr_id g, gr_parent g). m \<leftarrow> tab_members t st, snd (snd m) = u,
                                g \<leftarrow> tab_groups t st, gr_id g = fst (snd m)]"

definition direct_groups_of_user :: "uuid \<Rightarrow> uuid \<Rightarrow> access_state \<Rightarrow> group_row list" where
  "direct_groups_of_user t u st =
     [g. m \<leftarrow> tab_members t st, snd (snd m) = u, g \<leftarrow> tab_groups t st, gr_id g = fst (snd m)]"

definition effective_groups_of_user :: "uuid \<Rightarrow> uuid \<Rightarrow> access_state \<Rightarrow> group_row list" where
  "effective_groups_of_user t u st =
     filter (\<lambda>g. gr_id g \<in> set (map fst (user_group_pairs t u st))) (tab_groups t st)"

fun scope_counts :: "org_scope \<Rightarrow> uuid option \<Rightarrow> bool" where
  "scope_counts TenantWide scoped = (scoped = None)"
| "scope_counts (InOrg org) scoped = (scoped = None \<or> scoped = Some org)"
| "scope_counts Anywhere scoped = True"

definition direct_role_ids :: "uuid \<Rightarrow> uuid \<Rightarrow> org_scope \<Rightarrow> access_state \<Rightarrow> uuid list" where
  "direct_role_ids t u scope st =
     remdups
       ([ra_role a. a \<leftarrow> tab_assignments t st, ra_user a = Some u, scope_counts scope (ra_org a)] @
        [ra_role a. a \<leftarrow> tab_assignments t st, g \<leftarrow> user_group_pairs t u st,
                    ra_group a = Some (fst g), scope_counts scope (ra_org a)])"

definition effective_role_ids :: "uuid \<Rightarrow> uuid \<Rightarrow> org_scope \<Rightarrow> access_state \<Rightarrow> uuid list" where
  "effective_role_ids t u scope st = levels (child_roles t st) 64 (direct_role_ids t u scope st)"

definition effective_roles_of_user :: "uuid \<Rightarrow> uuid \<Rightarrow> org_scope \<Rightarrow> access_state \<Rightarrow> role_row list" where
  "effective_roles_of_user t u scope st =
     filter (\<lambda>r. ro_id r \<in> set (effective_role_ids t u scope st)) (tab_roles t st)"

definition expand_composites :: "uuid \<Rightarrow> uuid list \<Rightarrow> access_state \<Rightarrow> uuid list" where
  "expand_composites t ids st =
     remdups (levels (child_roles t st) 64 [ro_id r. r \<leftarrow> tab_roles t st, ro_id r \<in> set ids])"

definition role_ids_of_group_lineage :: "uuid \<Rightarrow> uuid \<Rightarrow> access_state \<Rightarrow> uuid list" where
  "role_ids_of_group_lineage t i st =
     remdups [ra_role a. a \<leftarrow> tab_assignments t st,
       g \<leftarrow> levels (parent_groups t st) 64 [(gr_id g, gr_parent g). g \<leftarrow> tab_groups t st, gr_id g = i],
       ra_group a = Some (fst g)]"

definition composite_would_cycle :: "uuid \<Rightarrow> uuid \<Rightarrow> uuid \<Rightarrow> access_state \<Rightarrow> bool" where
  "composite_would_cycle t parent child st =
     (parent \<in> set (levels (child_roles t st) 64 (child_roles t st child)))"

definition composites_of :: "uuid \<Rightarrow> uuid \<Rightarrow> access_state \<Rightarrow> role_row list" where
  "composites_of t parent st =
     [r. c \<leftarrow> tab_composites t st, fst (snd c) = parent, r \<leftarrow> tab_roles t st, ro_id r = snd (snd c)]"

definition permissions_for_roles :: "uuid \<Rightarrow> uuid \<Rightarrow> uuid list \<Rightarrow> access_state \<Rightarrow> string list" where
  "permissions_for_roles t rs ids st =
     remdups [pm_name p. g \<leftarrow> tab_grants t st, fst (snd g) \<in> set ids,
       p \<leftarrow> tab_permissions t st, pm_id p = snd (snd g) \<and> pm_resource_server p = rs]"

definition permissions_of_role :: "uuid \<Rightarrow> uuid \<Rightarrow> access_state \<Rightarrow> permission list" where
  "permissions_of_role t r st =
     [p. g \<leftarrow> tab_grants t st, fst (snd g) = r, p \<leftarrow> tab_permissions t st, pm_id p = snd (snd g)]"

section \<open>The permission catalogue\<close>

definition ADMIN_AUDIENCE :: string where "ADMIN_AUDIENCE = ''urn:ridm:admin''"

definition OWNER_ROLE :: string where "OWNER_ROLE = ''ridm:owner''"
definition ADMIN_ROLE :: string where "ADMIN_ROLE = ''ridm:admin''"
definition USER_MANAGER_ROLE :: string where "USER_MANAGER_ROLE = ''ridm:user-manager''"
definition CLIENT_MANAGER_ROLE :: string where "CLIENT_MANAGER_ROLE = ''ridm:client-manager''"
definition ORG_ADMIN_ROLE :: string where "ORG_ADMIN_ROLE = ''ridm:org-admin''"
definition VIEWER_ROLE :: string where "VIEWER_ROLE = ''ridm:viewer''"

definition CATALOGUE :: "string list" where
  "CATALOGUE = [''ridm:tenants:read'', ''ridm:tenants:write'', ''ridm:tenants:create'',
     ''ridm:tenants:delete'', ''ridm:tenants:export'', ''ridm:tenants:import'', ''ridm:users:read'',
     ''ridm:users:write'', ''ridm:users:impersonate'', ''ridm:invitations:read'',
     ''ridm:invitations:write'', ''ridm:groups:read'', ''ridm:groups:write'', ''ridm:orgs:read'',
     ''ridm:orgs:write'', ''ridm:roles:read'', ''ridm:roles:write'', ''ridm:clients:read'',
     ''ridm:clients:write'', ''ridm:scopes:read'', ''ridm:scopes:write'', ''ridm:mappers:read'',
     ''ridm:mappers:write'', ''ridm:resource-servers:read'', ''ridm:resource-servers:write'',
     ''ridm:idps:read'', ''ridm:idps:write'', ''ridm:keys:read'', ''ridm:keys:write'',
     ''ridm:messaging:read'', ''ridm:messaging:write'', ''ridm:audit:read'', ''ridm:webhooks:read'',
     ''ridm:webhooks:write'', ''ridm:scim:read'', ''ridm:scim:write'']"

datatype grants = GrantAll | GrantAllExcept "string list" | GrantOnly "string list" | GrantReadOnly

definition name_ends_with :: "string \<Rightarrow> string \<Rightarrow> bool" where
  "name_ends_with s p = starts_with (rev s) (rev p)"

fun grants_name :: "grants \<Rightarrow> string \<Rightarrow> bool" where
  "grants_name GrantAll n = True"
| "grants_name (GrantAllExcept excluded) n = (n \<notin> set excluded)"
| "grants_name (GrantOnly included) n = (n \<in> set included)"
| "grants_name GrantReadOnly n = name_ends_with n '':read''"

definition built_in_permissions :: "grants \<Rightarrow> string list" where
  "built_in_permissions g = filter (grants_name g) CATALOGUE"

definition BUILT_IN_ROLES :: "(string \<times> grants) list" where
  "BUILT_IN_ROLES =
     [(OWNER_ROLE, GrantAll),
      (ADMIN_ROLE, GrantAllExcept [''ridm:tenants:create'', ''ridm:tenants:delete'',
         ''ridm:tenants:import'', ''ridm:users:impersonate'']),
      (USER_MANAGER_ROLE, GrantOnly [''ridm:tenants:read'', ''ridm:users:read'', ''ridm:users:write'',
         ''ridm:invitations:read'', ''ridm:invitations:write'', ''ridm:groups:read'',
         ''ridm:groups:write'', ''ridm:orgs:read'', ''ridm:orgs:write'', ''ridm:roles:read'',
         ''ridm:audit:read'', ''ridm:scim:read'', ''ridm:scim:write'']),
      (CLIENT_MANAGER_ROLE, GrantOnly [''ridm:tenants:read'', ''ridm:clients:read'',
         ''ridm:clients:write'', ''ridm:scopes:read'', ''ridm:scopes:write'', ''ridm:mappers:read'',
         ''ridm:mappers:write'', ''ridm:resource-servers:read'', ''ridm:resource-servers:write'',
         ''ridm:roles:read'', ''ridm:audit:read'']),
      (ORG_ADMIN_ROLE, GrantOnly [''ridm:orgs:read'', ''ridm:orgs:write'', ''ridm:invitations:read'',
         ''ridm:invitations:write'', ''ridm:roles:read'']),
      (VIEWER_ROLE, GrantReadOnly)]"

definition built_in_role :: "string \<Rightarrow> grants option" where
  "built_in_role n = map_of BUILT_IN_ROLES n"

definition is_known :: "string \<Rightarrow> bool" where
  "is_known p = (p \<in> set CATALOGUE)"

definition strip_suffix :: "string \<Rightarrow> string \<Rightarrow> string option" where
  "strip_suffix p s = (if name_ends_with s p then Some (take (length s - length p) s) else None)"

definition perm_matches :: "string \<Rightarrow> string \<Rightarrow> bool" where
  "perm_matches granted required =
     (if CHR ''*'' \<in> set required then False
      else if granted = required then True
      else (case strip_suffix '':*'' granted of
              Some prefix \<Rightarrow>
                starts_with required prefix \<and>
                (let rest = drop (length prefix) required in
                   1 < length rest \<and> starts_with rest '':'' \<and> CHR ''*'' \<notin> set rest)
            | None \<Rightarrow> False))"

definition permission_set :: "string list \<Rightarrow> string list" where
  "permission_set names = sort (remdups names)"

definition allows :: "string list \<Rightarrow> string \<Rightarrow> bool" where
  "allows names required = list_ex (\<lambda>g. perm_matches g required) names"

definition covers :: "string list \<Rightarrow> string list \<Rightarrow> bool" where
  "covers names required = list_all (allows names) required"

section \<open>What a user may do\<close>

definition access_version :: "uuid \<Rightarrow> uuid \<Rightarrow> access_state \<Rightarrow> nat \<times> nat" where
  "access_version t u st = (ax_tenant_version st t, ax_user_version st t u)"

definition bump_roles_version :: "uuid \<Rightarrow> access_state \<Rightarrow> access_state" where
  "bump_roles_version t st =
     st\<lparr>ax_tenant_version := (ax_tenant_version st)(t := Suc (ax_last_token st)),
        ax_last_token := Suc (ax_last_token st)\<rparr>"

definition bump_one_user :: "uuid \<Rightarrow> uuid \<Rightarrow> access_state \<Rightarrow> access_state" where
  "bump_one_user t u st =
     st\<lparr>ax_user_version := (ax_user_version st)(t := (ax_user_version st t)(u := Suc (ax_last_token st))),
        ax_last_token := Suc (ax_last_token st)\<rparr>"

definition bump_user_access :: "uuid \<Rightarrow> uuid list \<Rightarrow> access_state \<Rightarrow> access_state" where
  "bump_user_access t us st = fold (bump_one_user t) us st"

fun bump_for :: "uuid \<Rightarrow> principal \<Rightarrow> access_state \<Rightarrow> access_state" where
  "bump_for t (PUser u) st = bump_user_access t [u] st"
| "bump_for t (PGroup g) st = bump_roles_version t st"

definition emit_event :: "uuid \<Rightarrow> uuid \<Rightarrow> access_event \<Rightarrow> access_state \<Rightarrow> access_state" where
  "emit_event t actor ev st = st\<lparr>ax_events := ax_events st @ [(t, actor, ev)]\<rparr>"

text \<open>\<open>effective_roles\<close> and \<open>effective_roles_anywhere\<close>: the cached resolution.\<close>

definition effective_roles :: "uuid \<Rightarrow> uuid \<Rightarrow> org_scope \<Rightarrow> access_state \<Rightarrow> role_row list \<times> access_state" where
  "effective_roles t u scope st =
     (let key = (t, access_version t u st, u, scope) in
      case ax_role_cache st key of
        Some rows \<Rightarrow> (rows, st)
      | None \<Rightarrow>
          (let rows = effective_roles_of_user t u scope st in
           (rows, st\<lparr>ax_role_cache := (ax_role_cache st)(key := Some rows)\<rparr>)))"

definition groups_of_user :: "uuid \<Rightarrow> uuid \<Rightarrow> bool \<Rightarrow> access_state \<Rightarrow> group_row list \<times> access_state" where
  "groups_of_user t u effective st =
     (let key = (t, access_version t u st, u, effective) in
      case ax_group_cache st key of
        Some rows \<Rightarrow> (rows, st)
      | None \<Rightarrow>
          (let rows = (if effective then effective_groups_of_user t u st else direct_groups_of_user t u st) in
           (rows, st\<lparr>ax_group_cache := (ax_group_cache st)(key := Some rows)\<rparr>)))"

text \<open>The message also prints the tenant's id, which is left out here.\<close>

definition no_admin_server :: app_error where
  "no_admin_server = Internal (''tenant has no `'' @ ADMIN_AUDIENCE @ ''` resource server'')"

definition permissions_of_user ::
  "uuid \<Rightarrow> uuid \<Rightarrow> org_scope \<Rightarrow> access_state \<Rightarrow> (app_error + string list) \<times> access_state" where
  "permissions_of_user t u scope st =
     (let key = (t, access_version t u st, u, scope) in
      case ax_permission_cache st key of
        Some names \<Rightarrow> (Inr names, st)
      | None \<Rightarrow>
          (case effective_roles t u scope st of
             (effective, st1) \<Rightarrow>
               if effective = []
               then (Inr [], st1\<lparr>ax_permission_cache := (ax_permission_cache st1)(key := Some [])\<rparr>)
               else (case find_by_identifier t ADMIN_AUDIENCE st1 of
                       None \<Rightarrow> (Inl no_admin_server, st1)
                     | Some rs \<Rightarrow>
                         (let names = permission_set
                                (permissions_for_roles t (rs_id rs) (map ro_id effective) st1) in
                          (Inr names,
                           st1\<lparr>ax_permission_cache := (ax_permission_cache st1)(key := Some names)\<rparr>)))))"

datatype grant_kind = GrantRole uuid | GrantGroup uuid

definition permissions_of_grant :: "uuid \<Rightarrow> grant_kind \<Rightarrow> access_state \<Rightarrow> string list" where
  "permissions_of_grant t g st =
     (let direct = (case g of GrantRole i \<Rightarrow> [i] | GrantGroup i \<Rightarrow> role_ids_of_group_lineage t i st) in
      if direct = [] then []
      else (let all = expand_composites t direct st in
            case find_by_identifier t ADMIN_AUDIENCE st of
              None \<Rightarrow> []
            | Some rs \<Rightarrow> permissions_for_roles t (rs_id rs) all st))"

section \<open>The administrator\<close>

definition MASTER_TENANT_ID :: uuid where "MASTER_TENANT_ID = 0x70008000000000000001"

definition is_master_tenant :: "uuid \<Rightarrow> bool" where "is_master_tenant t = (t = MASTER_TENANT_ID)"

text \<open>Evaluation compares the two as integers, in binary.\<close>

lemma is_master_tenant_code [code]: "is_master_tenant t = (int t = 0x70008000000000000001)"
  by (simp add: is_master_tenant_def MASTER_TENANT_ID_def)

record admin_ctx =
  ad_user :: uuid
  ad_tenant :: uuid
  ad_global :: bool
  ad_permissions :: "string list"
  ad_org :: "uuid option"
  ad_org_permissions :: "string list"

definition reaches :: "admin_ctx \<Rightarrow> uuid \<Rightarrow> bool" where
  "reaches ad t = (ad_global ad \<or> ad_tenant ad = t)"

definition missing_permission :: "string \<Rightarrow> app_error" where
  "missing_permission p = Forbidden (''missing permission `'' @ p @ ''`'')"

definition other_tenant :: app_error where
  "other_tenant = Forbidden ''this token is scoped to another tenant''"

definition require_permission :: "admin_ctx \<Rightarrow> string \<Rightarrow> app_error + unit" where
  "require_permission ad p = (if allows (ad_permissions ad) p then Inr () else Inl (missing_permission p))"

definition require :: "admin_ctx \<Rightarrow> uuid \<Rightarrow> string \<Rightarrow> app_error + unit" where
  "require ad t p = (if \<not> reaches ad t then Inl other_tenant else require_permission ad p)"

definition has_in_org :: "admin_ctx \<Rightarrow> uuid \<Rightarrow> uuid \<Rightarrow> string \<Rightarrow> bool" where
  "has_in_org ad t org p =
     (reaches ad t \<and> (allows (ad_permissions ad) p \<or> (ad_org ad = Some org \<and> allows (ad_org_permissions ad) p)))"

definition require_org :: "admin_ctx \<Rightarrow> uuid \<Rightarrow> uuid \<Rightarrow> string \<Rightarrow> app_error + unit" where
  "require_org ad t org p =
     (if \<not> reaches ad t then Inl other_tenant
      else if has_in_org ad t org p then Inr () else Inl (missing_permission p))"

definition confined_to_org :: "admin_ctx \<Rightarrow> string \<Rightarrow> uuid option" where
  "confined_to_org ad p =
     (if allows (ad_permissions ad) p then None
      else (case ad_org ad of
              Some org \<Rightarrow> if allows (ad_org_permissions ad) p then Some org else None
            | None \<Rightarrow> None))"

definition require_global :: "admin_ctx \<Rightarrow> string \<Rightarrow> app_error + unit" where
  "require_global ad p =
     (if \<not> ad_global ad then Inl (Forbidden ''this operation requires a global administrator'')
      else require_permission ad p)"

definition can_grant :: "admin_ctx \<Rightarrow> uuid option \<Rightarrow> string list \<Rightarrow> app_error + unit" where
  "can_grant ad org names =
     (let in_org = (org \<noteq> None \<and> org = ad_org ad);
          missing = filter (\<lambda>p. \<not> allows (ad_permissions ad) p
                              \<and> \<not> (in_org \<and> allows (ad_org_permissions ad) p)) names in
      if missing = [] then Inr ()
      else Inl (Forbidden (''cannot grant permissions you do not hold: '' @ join '', '' missing)))"

definition require_can_grant :: "admin_ctx \<Rightarrow> string list \<Rightarrow> app_error + unit" where
  "require_can_grant ad names = can_grant ad None names"

definition require_can_grant_in_org :: "admin_ctx \<Rightarrow> uuid \<Rightarrow> string list \<Rightarrow> app_error + unit" where
  "require_can_grant_in_org ad org names = can_grant ad (Some org) names"

text \<open>
  The last part of the extractor: the subject of a verified admin token of tenant \<open>t\<close>, with the
  organization its \<open>org_id\<close> claim names, becomes an administrator.
\<close>

definition admin_context ::
  "instant \<Rightarrow> uuid \<Rightarrow> uuid \<Rightarrow> uuid option \<Rightarrow> access_state \<Rightarrow> (app_error + admin_ctx) \<times> access_state" where
  "admin_context now t u org st =
     (case find_live_user t u st of
        None \<Rightarrow> (Inl Unauthorized, st)
      | Some user \<Rightarrow>
          if us_status user \<noteq> UserActive \<or> is_locked_now now user
          then (Inl (Forbidden ''user account is not active''), st)
          else
            andThenS (permissions_of_user t u TenantWide st) (\<lambda>permissions st1.
            andThenS (case org of
                        Some og \<Rightarrow> permissions_of_user t u (InOrg og) st1
                      | None \<Rightarrow> (Inr [], st1)) (\<lambda>org_permissions st2.
            if permissions = [] \<and> org_permissions = []
            then (Inl (Forbidden ''no admin permissions''), st2)
            else (Inr \<lparr>ad_user = u, ad_tenant = t, ad_global = is_master_tenant t,
                       ad_permissions = permissions, ad_org = org,
                       ad_org_permissions = org_permissions\<rparr>,
                  snd (effective_roles t u (case org of Some og \<Rightarrow> InOrg og | None \<Rightarrow> TenantWide) st2)))))"

end
