(* ===== verification/Access_Admin.thy ===== *)
theory Access_Admin
  imports Access Text
begin

text \<open>
  The operations of the access model, each as the service performs it (a transaction that
  either commits or leaves the tables alone, then the version bump and the event), and the
  admin routes in front of them with their permission checks
  (\<open>routes/admin/{roles,groups,users,organizations,resource_servers}.rs\<close>). A new row's UUID is an
  argument. \<open>admin_call\<close> is one request of an administrator: the context of the caller is
  resolved first, then the route of the operation runs with it.
\<close>

section \<open>Roles\<close>

definition validate_name :: "string \<Rightarrow> app_error + string" where
  "validate_name s =
     (let n = trim s in
      if n = [] \<or> 255 < length n then Inl (BadRequest ''name must be 1-255 characters'') else Inr n)"

definition ROLES_MAX :: int where "ROLES_MAX = 5000"
definition GROUPS_MAX :: int where "GROUPS_MAX = 10000"

definition ensure_room :: "nat \<Rightarrow> int \<Rightarrow> string \<Rightarrow> app_error + unit" where
  "ensure_room count most what =
     (if most \<le> int count
      then Inl (BadRequest (''a tenant can have at most '' @ show_nat (nat most) @ '' '' @ what)) else Inr ())"

text \<open>\<open>COALESCE(x, nil)\<close> in the unique indexes.\<close>

definition or_nil :: "uuid option \<Rightarrow> uuid" where
  "or_nil x = (case x of Some i \<Rightarrow> i | None \<Rightarrow> 0)"

definition role_name_taken :: "uuid \<Rightarrow> uuid option \<Rightarrow> string \<Rightarrow> uuid option \<Rightarrow> access_state \<Rightarrow> bool" where
  "role_name_taken t client n except st =
     list_ex (\<lambda>r. or_nil (ro_client r) = or_nil client \<and> ro_name r = n \<and> Some (ro_id r) \<noteq> except) (tab_roles t st)"

definition role_name_conflict :: app_error where
  "role_name_conflict = Conflict ''a role with this name already exists''"

definition missing_reference :: app_error where
  "missing_reference = BadRequest ''referenced object does not exist''"

record new_role =
  nr_name :: string
  nr_client :: "uuid option"
  nr_description :: "string option"

record role_update =
  rp_name :: "string option"
  rp_description :: "string option option"

definition roles_create ::
  "uuid \<Rightarrow> uuid \<Rightarrow> uuid \<Rightarrow> new_role \<Rightarrow> access_state \<Rightarrow> (app_error + role_row) \<times> access_state" where
  "roles_create t actor i input st =
     (case validate_name (nr_name input) of
        Inl e \<Rightarrow> (Inl e, st)
      | Inr n \<Rightarrow>
          (case ensure_room (length (tab_roles t st)) ROLES_MAX ''roles'' of
             Inl e \<Rightarrow> (Inl e, st)
           | Inr _ \<Rightarrow>
               if role_name_taken t (nr_client input) n None st then (Inl role_name_conflict, st)
               else if (case nr_client input of Some c \<Rightarrow> (t, c) \<notin> set (ax_clients st) | None \<Rightarrow> False)
               then (Inl missing_reference, st)
               else (let r = \<lparr>ro_id = i, ro_client = nr_client input, ro_name = n, ro_tenant = t,
                              ro_description = nr_description input, ro_built_in = False\<rparr> in
                     (Inr r, emit_event t actor (RoleCreated i) (st\<lparr>ax_roles := ax_roles st @ [r]\<rparr>)))))"

definition roles_get :: "uuid \<Rightarrow> uuid \<Rightarrow> access_state \<Rightarrow> app_error + role_row" where
  "roles_get t i st = (case find_role t i st of Some r \<Rightarrow> Inr r | None \<Rightarrow> Inl (NotFound ''role''))"

definition ensure_not_built_in :: "uuid \<Rightarrow> uuid \<Rightarrow> access_state \<Rightarrow> app_error + unit" where
  "ensure_not_built_in t i st =
     (case find_role t i st of
        Some r \<Rightarrow> if ro_built_in r then Inl (Forbidden ''built-in roles cannot be renamed or deleted'') else Inr ()
      | None \<Rightarrow> Inl (NotFound ''role''))"

definition patch_role :: "role_update \<Rightarrow> role_row \<Rightarrow> role_row" where
  "patch_role patch r =
     r\<lparr>ro_name := (case rp_name patch of Some n \<Rightarrow> n | None \<Rightarrow> ro_name r),
       ro_description := (case rp_description patch of Some d \<Rightarrow> d | None \<Rightarrow> ro_description r)\<rparr>"

definition roles_update ::
  "uuid \<Rightarrow> uuid \<Rightarrow> uuid \<Rightarrow> role_update \<Rightarrow> access_state \<Rightarrow> (app_error + role_row) \<times> access_state" where
  "roles_update t actor i patch st =
     (if rp_name patch = None \<and> rp_description patch = None then (roles_get t i st, st)
      else (case (case rp_name patch of
                    None \<Rightarrow> Inr patch
                  | Some s \<Rightarrow> (case validate_name s of Inl e \<Rightarrow> Inl e | Inr n \<Rightarrow> Inr (patch\<lparr>rp_name := Some n\<rparr>))) of
              Inl e \<Rightarrow> (Inl e, st)
            | Inr patch' \<Rightarrow>
                (case ensure_not_built_in t i st of
                   Inl e \<Rightarrow> (Inl e, st)
                 | Inr _ \<Rightarrow>
                     (case find_role t i st of
                        None \<Rightarrow> (Inl (NotFound ''role''), st)
                      | Some r \<Rightarrow>
                          let r' = patch_role patch' r in
                          if role_name_taken t (ro_client r') (ro_name r') (Some i) st
                          then (Inl role_name_conflict, st)
                          else (Inr r',
                                emit_event t actor (RoleUpdated i)
                                  (bump_roles_version t
                                    (st\<lparr>ax_roles := map (\<lambda>x. if ro_tenant x = t \<and> ro_id x = i
                                                             then patch_role patch' x else x) (ax_roles st)\<rparr>))))))) "

text \<open>Deleting a role cascades to its assignments, composites and permission grants.\<close>

definition drop_role :: "uuid \<Rightarrow> uuid \<Rightarrow> access_state \<Rightarrow> access_state" where
  "drop_role t i st =
     st\<lparr>ax_roles := filter (\<lambda>r. \<not> (ro_tenant r = t \<and> ro_id r = i)) (ax_roles st),
        ax_assignments := filter (\<lambda>a. \<not> (ra_tenant a = t \<and> ra_role a = i)) (ax_assignments st),
        ax_composites := filter (\<lambda>c. \<not> (fst c = t \<and> (fst (snd c) = i \<or> snd (snd c) = i))) (ax_composites st),
        ax_grants := filter (\<lambda>g. \<not> (fst g = t \<and> fst (snd g) = i)) (ax_grants st)\<rparr>"

definition roles_delete :: "uuid \<Rightarrow> uuid \<Rightarrow> uuid \<Rightarrow> access_state \<Rightarrow> (app_error + unit) \<times> access_state" where
  "roles_delete t actor i st =
     (case ensure_not_built_in t i st of
        Inl e \<Rightarrow> (Inl e, st)
      | Inr _ \<Rightarrow> (Inr (), emit_event t actor (RoleDeleted i) (bump_roles_version t (drop_role t i st))))"

definition assignment_of :: "uuid \<Rightarrow> uuid \<Rightarrow> principal \<Rightarrow> uuid option \<Rightarrow> role_assignment" where
  "assignment_of t r p org =
     \<lparr>ra_tenant = t, ra_role = r, ra_user = fst (principal_ids p), ra_group = snd (principal_ids p), ra_org = org\<rparr>"

text \<open>\<open>repos::roles::assign\<close> and \<open>unassign\<close>: whether a row was written or removed, and the tables.\<close>

definition repo_assign :: "uuid \<Rightarrow> uuid \<Rightarrow> principal \<Rightarrow> uuid option \<Rightarrow> access_state \<Rightarrow> bool \<times> access_state" where
  "repo_assign t r p org st =
     (if assignment_of t r p org \<in> set (ax_assignments st) then (False, st)
      else (True, st\<lparr>ax_assignments := ax_assignments st @ [assignment_of t r p org]\<rparr>))"

definition repo_unassign :: "uuid \<Rightarrow> uuid \<Rightarrow> principal \<Rightarrow> uuid option \<Rightarrow> access_state \<Rightarrow> bool \<times> access_state" where
  "repo_unassign t r p org st =
     (assignment_of t r p org \<in> set (ax_assignments st),
      st\<lparr>ax_assignments := filter (\<lambda>a. a \<noteq> assignment_of t r p org) (ax_assignments st)\<rparr>)"

definition after_assign :: "uuid \<Rightarrow> uuid \<Rightarrow> uuid \<Rightarrow> principal \<Rightarrow> bool \<times> access_state \<Rightarrow> access_state" where
  "after_assign t actor r p res =
     (if fst res
      then emit_event t actor (RoleAssigned r (fst (principal_ids p)) (snd (principal_ids p))) (bump_for t p (snd res))
      else snd res)"

definition after_unassign :: "uuid \<Rightarrow> uuid \<Rightarrow> uuid \<Rightarrow> principal \<Rightarrow> bool \<times> access_state \<Rightarrow> access_state" where
  "after_unassign t actor r p res =
     (if fst res
      then emit_event t actor (RoleUnassigned r (fst (principal_ids p)) (snd (principal_ids p))) (bump_for t p (snd res))
      else snd res)"

definition principal_missing :: "uuid \<Rightarrow> principal \<Rightarrow> access_state \<Rightarrow> app_error option" where
  "principal_missing t p st =
     (case p of
        PUser i \<Rightarrow> if find_live_user t i st = None then Some (NotFound ''user'') else None
      | PGroup i \<Rightarrow> if find_group t i st = None then Some (NotFound ''group'') else None)"

definition roles_assign ::
  "uuid \<Rightarrow> uuid \<Rightarrow> uuid \<Rightarrow> principal \<Rightarrow> access_state \<Rightarrow> (app_error + unit) \<times> access_state" where
  "roles_assign t actor r p st =
     (if find_role t r st = None then (Inl (NotFound ''role''), st)
      else (case principal_missing t p st of
              Some e \<Rightarrow> (Inl e, st)
            | None \<Rightarrow> (Inr (), after_assign t actor r p (repo_assign t r p None st))))"

definition roles_unassign ::
  "uuid \<Rightarrow> uuid \<Rightarrow> uuid \<Rightarrow> principal \<Rightarrow> access_state \<Rightarrow> (app_error + unit) \<times> access_state" where
  "roles_unassign t actor r p st =
     (Inr (), after_unassign t actor r p (repo_unassign t r p None st))"

definition add_composite ::
  "uuid \<Rightarrow> uuid \<Rightarrow> uuid \<Rightarrow> uuid \<Rightarrow> access_state \<Rightarrow> (app_error + unit) \<times> access_state" where
  "add_composite t actor parent child st =
     (if parent = child then (Inl (BadRequest ''a role cannot contain itself''), st)
      else if find_role t parent st = None \<or> find_role t child st = None then (Inl (NotFound ''role''), st)
      else if composite_would_cycle t parent child st
      then (Inl (BadRequest ''adding this composite would create a cycle''), st)
      else if (t, parent, child) \<in> set (ax_composites st) then (Inr (), st)
      else (Inr (),
            emit_event t actor (RoleCompositeAdded parent child)
              (bump_roles_version t (st\<lparr>ax_composites := ax_composites st @ [(t, parent, child)]\<rparr>))))"

definition remove_composite ::
  "uuid \<Rightarrow> uuid \<Rightarrow> uuid \<Rightarrow> uuid \<Rightarrow> access_state \<Rightarrow> (app_error + unit) \<times> access_state" where
  "remove_composite t actor parent child st =
     (if (t, parent, child) \<in> set (ax_composites st)
      then (Inr (),
            emit_event t actor (RoleCompositeRemoved parent child)
              (bump_roles_version t (st\<lparr>ax_composites := filter (\<lambda>c. c \<noteq> (t, parent, child)) (ax_composites st)\<rparr>)))
      else (Inr (), st))"

section \<open>Groups\<close>

record new_group =
  ng_name :: string
  ng_parent :: "uuid option"
  ng_description :: "string option"
  ng_attributes :: "json option"

record group_update =
  gp_name :: "string option"
  gp_parent :: "uuid option option"
  gp_description :: "string option option"
  gp_attributes :: "json option"

definition is_object :: "json \<Rightarrow> bool" where
  "is_object j = (case j of JObj _ \<Rightarrow> True | _ \<Rightarrow> False)"

definition sibling_taken :: "uuid \<Rightarrow> uuid option \<Rightarrow> string \<Rightarrow> uuid option \<Rightarrow> access_state \<Rightarrow> bool" where
  "sibling_taken t parent n except st =
     list_ex (\<lambda>g. or_nil (gr_parent g) = or_nil parent \<and> gr_name g = n \<and> Some (gr_id g) \<noteq> except) (tab_groups t st)"

definition sibling_conflict :: app_error where
  "sibling_conflict = Conflict ''a sibling group with this name already exists''"

definition groups_create ::
  "uuid \<Rightarrow> uuid \<Rightarrow> uuid \<Rightarrow> new_group \<Rightarrow> access_state \<Rightarrow> (app_error + group_row) \<times> access_state" where
  "groups_create t actor i input st =
     (case validate_name (ng_name input) of
        Inl e \<Rightarrow> (Inl e, st)
      | Inr n \<Rightarrow>
          if (case ng_attributes input of Some a \<Rightarrow> \<not> is_object a | None \<Rightarrow> False)
          then (Inl (BadRequest ''attributes must be a JSON object''), st)
          else if (case ng_parent input of Some p \<Rightarrow> find_group t p st = None | None \<Rightarrow> False)
          then (Inl (BadRequest ''parent group does not exist''), st)
          else (case ensure_room (length (tab_groups t st)) GROUPS_MAX ''groups'' of
                  Inl e \<Rightarrow> (Inl e, st)
                | Inr _ \<Rightarrow>
                    if sibling_taken t (ng_parent input) n None st then (Inl sibling_conflict, st)
                    else (let g = \<lparr>gr_id = i, gr_parent = ng_parent input, gr_name = n, gr_tenant = t,
                                   gr_description = ng_description input,
                                   gr_attributes = (case ng_attributes input of Some a \<Rightarrow> a | None \<Rightarrow> JObj [])\<rparr> in
                          (Inr g, emit_event t actor (GroupCreated i) (st\<lparr>ax_groups := ax_groups st @ [g]\<rparr>)))))"

definition groups_get :: "uuid \<Rightarrow> uuid \<Rightarrow> access_state \<Rightarrow> app_error + group_row" where
  "groups_get t i st = (case find_group t i st of Some g \<Rightarrow> Inr g | None \<Rightarrow> Inl (NotFound ''group''))"

definition patch_group :: "group_update \<Rightarrow> group_row \<Rightarrow> group_row" where
  "patch_group patch g =
     g\<lparr>gr_name := (case gp_name patch of Some n \<Rightarrow> n | None \<Rightarrow> gr_name g),
       gr_parent := (case gp_parent patch of Some p \<Rightarrow> p | None \<Rightarrow> gr_parent g),
       gr_description := (case gp_description patch of Some d \<Rightarrow> d | None \<Rightarrow> gr_description g),
       gr_attributes := (case gp_attributes patch of Some a \<Rightarrow> a | None \<Rightarrow> gr_attributes g)\<rparr>"

definition patch_groups :: "uuid \<Rightarrow> uuid \<Rightarrow> group_update \<Rightarrow> access_state \<Rightarrow> access_state" where
  "patch_groups t i patch st =
     st\<lparr>ax_groups := map (\<lambda>g. if gr_tenant g = t \<and> gr_id g = i then patch_group patch g else g) (ax_groups st)\<rparr>"

text \<open>The move is checked before the row is touched.\<close>

definition check_move :: "uuid \<Rightarrow> uuid \<Rightarrow> group_update \<Rightarrow> access_state \<Rightarrow> app_error + unit" where
  "check_move t i patch st =
     (case gp_parent patch of
        Some (Some p) \<Rightarrow>
          if p = i then Inl (BadRequest ''a group cannot be its own parent'')
          else if ancestor_ids t p st = [] then Inl (BadRequest ''parent group does not exist'')
          else if i \<in> set (ancestor_ids t p st)
          then Inl (BadRequest ''cannot move a group under one of its descendants'')
          else Inr ()
      | _ \<Rightarrow> Inr ())"

definition groups_update ::
  "uuid \<Rightarrow> uuid \<Rightarrow> uuid \<Rightarrow> group_update \<Rightarrow> access_state \<Rightarrow> (app_error + group_row) \<times> access_state" where
  "groups_update t actor i patch st =
     (if gp_name patch = None \<and> gp_parent patch = None \<and> gp_description patch = None \<and> gp_attributes patch = None
      then (groups_get t i st, st)
      else (case (case gp_name patch of
                    None \<Rightarrow> Inr patch
                  | Some s \<Rightarrow> (case validate_name s of Inl e \<Rightarrow> Inl e | Inr n \<Rightarrow> Inr (patch\<lparr>gp_name := Some n\<rparr>))) of
              Inl e \<Rightarrow> (Inl e, st)
            | Inr patch' \<Rightarrow>
                (case check_move t i patch' st of
                   Inl e \<Rightarrow> (Inl e, st)
                 | Inr _ \<Rightarrow>
                     (case find_group t i st of
                        None \<Rightarrow> (Inl (NotFound ''group''), st)
                      | Some g \<Rightarrow>
                          let g' = patch_group patch' g in
                          if sibling_taken t (gr_parent g') (gr_name g') (Some i) st then (Inl sibling_conflict, st)
                          else (Inr g',
                                emit_event t actor (GroupUpdated i)
                                  (if gp_parent patch' \<noteq> None
                                   then bump_roles_version t (patch_groups t i patch' st)
                                   else patch_groups t i patch' st))))))"

text \<open>
  Deleting a group cascades to its subgroups, their memberships and their assignments; as
  many levels as there are groups reach every descendant.
\<close>

definition child_groups :: "uuid \<Rightarrow> access_state \<Rightarrow> uuid \<Rightarrow> uuid list" where
  "child_groups t st g = [gr_id c. c \<leftarrow> tab_groups t st, gr_parent c = Some g]"

definition doomed_groups :: "uuid \<Rightarrow> uuid \<Rightarrow> access_state \<Rightarrow> uuid list" where
  "doomed_groups t i st = levels (child_groups t st) (length (tab_groups t st)) [i]"

definition drop_groups :: "uuid \<Rightarrow> uuid list \<Rightarrow> access_state \<Rightarrow> access_state" where
  "drop_groups t gone st =
     st\<lparr>ax_groups := filter (\<lambda>g. \<not> (gr_tenant g = t \<and> gr_id g \<in> set gone)) (ax_groups st),
        ax_members := filter (\<lambda>m. \<not> (fst m = t \<and> fst (snd m) \<in> set gone)) (ax_members st),
        ax_assignments := filter (\<lambda>a. \<not> (ra_tenant a = t \<and> ra_group a \<in> Some ` set gone)) (ax_assignments st)\<rparr>"

definition groups_delete :: "uuid \<Rightarrow> uuid \<Rightarrow> uuid \<Rightarrow> access_state \<Rightarrow> (app_error + unit) \<times> access_state" where
  "groups_delete t actor i st =
     (if find_group t i st = None then (Inl (NotFound ''group''), st)
      else (Inr (), emit_event t actor (GroupDeleted i)
                      (bump_roles_version t (drop_groups t (doomed_groups t i st) st))))"

definition groups_add_member ::
  "uuid \<Rightarrow> uuid \<Rightarrow> uuid \<Rightarrow> uuid \<Rightarrow> access_state \<Rightarrow> (app_error + unit) \<times> access_state" where
  "groups_add_member t actor g u st =
     (if find_group t g st = None then (Inl (NotFound ''group''), st)
      else if find_live_user t u st = None then (Inl (NotFound ''user''), st)
      else if (t, g, u) \<in> set (ax_members st) then (Inr (), st)
      else (Inr (), emit_event t actor (GroupMemberAdded g u)
                      (bump_user_access t [u] (st\<lparr>ax_members := ax_members st @ [(t, g, u)]\<rparr>))))"

definition groups_remove_member ::
  "uuid \<Rightarrow> uuid \<Rightarrow> uuid \<Rightarrow> uuid \<Rightarrow> access_state \<Rightarrow> (app_error + unit) \<times> access_state" where
  "groups_remove_member t actor g u st =
     (if (t, g, u) \<in> set (ax_members st)
      then (Inr (), emit_event t actor (GroupMemberRemoved g u)
                      (bump_user_access t [u] (st\<lparr>ax_members := filter (\<lambda>m. m \<noteq> (t, g, u)) (ax_members st)\<rparr>)))
      else (Inr (), st))"

section \<open>Resource servers and permissions\<close>

definition resources_get :: "uuid \<Rightarrow> uuid \<Rightarrow> access_state \<Rightarrow> app_error + resource_row" where
  "resources_get t i st = (case find_resource t i st of Some r \<Rightarrow> Inr r | None \<Rightarrow> Inl (NotFound ''resource server''))"

definition get_permission :: "uuid \<Rightarrow> uuid \<Rightarrow> access_state \<Rightarrow> app_error + permission" where
  "get_permission t i st = (case find_permission t i st of Some p \<Rightarrow> Inr p | None \<Rightarrow> Inl (NotFound ''permission''))"

definition drop_permissions :: "uuid \<Rightarrow> (permission \<Rightarrow> bool) \<Rightarrow> access_state \<Rightarrow> access_state" where
  "drop_permissions t gone st =
     st\<lparr>ax_permissions := filter (\<lambda>p. \<not> (pm_tenant p = t \<and> gone p)) (ax_permissions st),
        ax_grants := filter (\<lambda>g. \<not> (fst g = t \<and> list_ex (\<lambda>p. gone p \<and> pm_id p = snd (snd g)) (tab_permissions t st)))
                       (ax_grants st)\<rparr>"

text \<open>The scopes bound to the server go with it in the database; they are no part of this state.\<close>

definition resources_delete :: "uuid \<Rightarrow> uuid \<Rightarrow> uuid \<Rightarrow> access_state \<Rightarrow> (app_error + unit) \<times> access_state" where
  "resources_delete t actor i st =
     (case resources_get t i st of
        Inl e \<Rightarrow> (Inl e, st)
      | Inr current \<Rightarrow>
          if rs_built_in current then (Inl (Forbidden ''built-in resource servers cannot be deleted''), st)
          else (let st1 = drop_permissions t (\<lambda>p. pm_resource_server p = i) st in
                (Inr (),
                 emit_event t actor (ResourceServerDeleted i)
                   (bump_roles_version t
                      (st1\<lparr>ax_resources := filter (\<lambda>r. \<not> (rs_tenant r = t \<and> rs_id r = i)) (ax_resources st1)\<rparr>)))))"

definition validate_permission_name :: "string \<Rightarrow> app_error + string" where
  "validate_permission_name s =
     (let n = trim s in
      if n = [] \<or> 255 < length n \<or> list_ex (\<lambda>c. c \<in> set white_space) (str_chars n)
      then Inl (BadRequest ''permission name must be 1-255 characters without whitespace'') else Inr n)"

definition create_permission ::
  "uuid \<Rightarrow> uuid \<Rightarrow> uuid \<Rightarrow> uuid \<Rightarrow> string \<Rightarrow> string option \<Rightarrow> access_state \<Rightarrow> (app_error + permission) \<times> access_state" where
  "create_permission t actor i rs name descr st =
     (case validate_permission_name name of
        Inl e \<Rightarrow> (Inl e, st)
      | Inr n \<Rightarrow>
          (case resources_get t rs st of
             Inl e \<Rightarrow> (Inl e, st)
           | Inr server \<Rightarrow>
               if rs_built_in server
               then (Inl (Forbidden ''the built-in permission catalogue cannot be extended''), st)
               else if list_ex (\<lambda>p. pm_resource_server p = rs \<and> pm_name p = n) (tab_permissions t st)
               then (Inl (Conflict ''permission already exists''), st)
               else (let p = \<lparr>pm_id = i, pm_tenant = t, pm_resource_server = rs, pm_name = n, pm_description = descr\<rparr> in
                     (Inr p, emit_event t actor (PermissionCreated rs i) (st\<lparr>ax_permissions := ax_permissions st @ [p]\<rparr>)))))"

definition delete_permission ::
  "uuid \<Rightarrow> uuid \<Rightarrow> uuid \<Rightarrow> uuid \<Rightarrow> access_state \<Rightarrow> (app_error + unit) \<times> access_state" where
  "delete_permission t actor rs i st =
     (case resources_get t rs st of
        Inl e \<Rightarrow> (Inl e, st)
      | Inr server \<Rightarrow>
          if rs_built_in server then (Inl (Forbidden ''built-in permissions cannot be deleted''), st)
          else (case get_permission t i st of
                  Inl e \<Rightarrow> (Inl e, st)
                | Inr p \<Rightarrow>
                    if pm_resource_server p \<noteq> rs then (Inl (NotFound ''permission''), st)
                    else (Inr (),
                          emit_event t actor (PermissionDeleted rs i)
                            (bump_roles_version t (drop_permissions t (\<lambda>p. pm_id p = i) st)))))"

definition built_in_unchanged :: app_error where
  "built_in_unchanged = Forbidden ''built-in roles cannot be changed''"

definition grant_permission ::
  "uuid \<Rightarrow> uuid \<Rightarrow> uuid \<Rightarrow> uuid \<Rightarrow> access_state \<Rightarrow> (app_error + unit) \<times> access_state" where
  "grant_permission t actor r p st =
     (case roles_get t r st of
        Inl e \<Rightarrow> (Inl e, st)
      | Inr role \<Rightarrow>
          if ro_built_in role then (Inl built_in_unchanged, st)
          else (case get_permission t p st of
                  Inl e \<Rightarrow> (Inl e, st)
                | Inr _ \<Rightarrow>
                    if (t, r, p) \<in> set (ax_grants st) then (Inr (), st)
                    else (Inr (),
                          emit_event t actor (PermissionGranted r p)
                            (bump_roles_version t (st\<lparr>ax_grants := ax_grants st @ [(t, r, p)]\<rparr>)))))"

definition revoke_permission ::
  "uuid \<Rightarrow> uuid \<Rightarrow> uuid \<Rightarrow> uuid \<Rightarrow> access_state \<Rightarrow> (app_error + unit) \<times> access_state" where
  "revoke_permission t actor r p st =
     (case roles_get t r st of
        Inl e \<Rightarrow> (Inl e, st)
      | Inr role \<Rightarrow>
          if ro_built_in role then (Inl built_in_unchanged, st)
          else if (t, r, p) \<notin> set (ax_grants st) then (Inl (NotFound ''permission grant''), st)
          else (Inr (),
                emit_event t actor (PermissionRevoked r p)
                  (bump_roles_version t (st\<lparr>ax_grants := filter (\<lambda>g. g \<noteq> (t, r, p)) (ax_grants st)\<rparr>))))"

section \<open>Organizations\<close>

definition PRIMARY_ORG_BATCH :: nat where "PRIMARY_ORG_BATCH = 1000"

definition has_primary :: "uuid \<Rightarrow> uuid \<Rightarrow> user \<Rightarrow> bool" where
  "has_primary t org u = (us_tenant u = t \<and> us_org u = Some org)"

fun clear_primary_org_batch :: "nat \<Rightarrow> uuid \<Rightarrow> uuid \<Rightarrow> user list \<Rightarrow> user list" where
  "clear_primary_org_batch n t org [] = []"
| "clear_primary_org_batch 0 t org us = us"
| "clear_primary_org_batch (Suc n) t org (u # us) =
     (if has_primary t org u then u\<lparr>us_org := None\<rparr> # clear_primary_org_batch n t org us
      else u # clear_primary_org_batch (Suc n) t org us)"

lemma clear_batch_shrinks:
  "list_ex (has_primary t org) us \<Longrightarrow>
   length (filter (has_primary t org) (clear_primary_org_batch (Suc n) t org us)) < length (filter (has_primary t org) us)"
proof (induction "Suc n" t org us arbitrary: n rule: clear_primary_org_batch.induct)
  case (3 n t org u us)
  have le: "length (filter (has_primary t org) (clear_primary_org_batch m t org us)) \<le> length (filter (has_primary t org) us)" for m
    by (induction m t org us rule: clear_primary_org_batch.induct) (auto simp: has_primary_def)
  show ?case using 3(2) 3(3) le [of n] by (cases "has_primary t org u") (auto simp: has_primary_def less_Suc_eq_le)
qed simp

function clear_primary_org :: "uuid \<Rightarrow> uuid \<Rightarrow> user list \<Rightarrow> user list" where
  "clear_primary_org t org us =
     (if list_ex (has_primary t org) us
      then clear_primary_org t org (clear_primary_org_batch PRIMARY_ORG_BATCH t org us) else us)"
  by pat_completeness auto
termination
  by (relation "measure (\<lambda>(t, org, us). length (filter (has_primary t org) us))")
    (auto simp: PRIMARY_ORG_BATCH_def numeral_eq_Suc intro!: clear_batch_shrinks simp del: clear_primary_org_batch.simps)

declare clear_primary_org.simps [simp del]

text \<open>Memberships, domains and org-scoped grants cascade; the foreign key clears the primary.\<close>

definition orgs_delete :: "uuid \<Rightarrow> uuid \<Rightarrow> uuid \<Rightarrow> access_state \<Rightarrow> (app_error + unit) \<times> access_state" where
  "orgs_delete t actor org st =
     (let st1 = st\<lparr>ax_users := clear_primary_org t org (ax_users st)\<rparr> in
      if (t, org) \<notin> set (ax_orgs st1) then (Inl (NotFound ''organization''), st1)
      else (Inr (),
            emit_event t actor (OrganizationDeleted org)
              (bump_roles_version t
                 (st1\<lparr>ax_orgs := filter (\<lambda>og. og \<noteq> (t, org)) (ax_orgs st1),
                      ax_org_members := filter (\<lambda>m. \<not> (fst m = t \<and> fst (snd m) = org)) (ax_org_members st1),
                      ax_assignments := filter (\<lambda>a. \<not> (ra_tenant a = t \<and> ra_org a = Some org)) (ax_assignments st1)\<rparr>))))"

definition orgs_add_member ::
  "uuid \<Rightarrow> uuid \<Rightarrow> uuid \<Rightarrow> uuid \<Rightarrow> access_state \<Rightarrow> (app_error + unit) \<times> access_state" where
  "orgs_add_member t actor org u st =
     (if (t, org) \<notin> set (ax_orgs st) then (Inl (NotFound ''organization''), st)
      else if find_live_user t u st = None then (Inl (NotFound ''user''), st)
      else if (t, org, u) \<in> set (ax_org_members st) then (Inr (), st)
      else (Inr (),
            emit_event t actor (OrganizationMemberAdded org u)
              (bump_user_access t [u]
                 (st\<lparr>ax_org_members := ax_org_members st @ [(t, org, u)],
                     ax_users := map (\<lambda>x. if us_tenant x = t \<and> us_id x = u \<and> us_org x = None
                                          then x\<lparr>us_org := Some org\<rparr> else x) (ax_users st)\<rparr>))))"

definition orgs_remove_member ::
  "uuid \<Rightarrow> uuid \<Rightarrow> uuid \<Rightarrow> uuid \<Rightarrow> access_state \<Rightarrow> (app_error + unit) \<times> access_state" where
  "orgs_remove_member t actor org u st =
     (if (t, org, u) \<in> set (ax_org_members st)
      then (Inr (),
            emit_event t actor (OrganizationMemberRemoved org u)
              (bump_user_access t [u]
                 (st\<lparr>ax_org_members := filter (\<lambda>m. m \<noteq> (t, org, u)) (ax_org_members st)\<rparr>)))
      else (Inr (), st))"

definition orgs_assign_role ::
  "uuid \<Rightarrow> uuid \<Rightarrow> uuid \<Rightarrow> uuid \<Rightarrow> principal \<Rightarrow> access_state \<Rightarrow> (app_error + unit) \<times> access_state" where
  "orgs_assign_role t actor org r p st =
     (if (t, org) \<notin> set (ax_orgs st) then (Inl (NotFound ''organization''), st)
      else if find_role t r st = None then (Inl (NotFound ''role''), st)
      else (case (case p of
                    PUser i \<Rightarrow> if (t, org, i) \<notin> set (ax_org_members st)
                               then Some (BadRequest ''the user is not a member of this organization'') else None
                  | PGroup i \<Rightarrow> if find_group t i st = None then Some (NotFound ''group'') else None) of
              Some e \<Rightarrow> (Inl e, st)
            | None \<Rightarrow> (Inr (), after_assign t actor r p (repo_assign t r p (Some org) st))))"

definition orgs_unassign_role ::
  "uuid \<Rightarrow> uuid \<Rightarrow> uuid \<Rightarrow> uuid \<Rightarrow> principal \<Rightarrow> access_state \<Rightarrow> (app_error + unit) \<times> access_state" where
  "orgs_unassign_role t actor org r p st =
     (Inr (), after_unassign t actor r p (repo_unassign t r p (Some org) st))"

section \<open>Routes\<close>

definition guard :: "app_error + 'a \<Rightarrow> ('a \<Rightarrow> 's \<Rightarrow> (app_error + 'b) \<times> 's) \<Rightarrow> 's \<Rightarrow> (app_error + 'b) \<times> 's" where
  "guard r k st = (case r of Inl e \<Rightarrow> (Inl e, st) | Inr a \<Rightarrow> k a st)"

text \<open>The body of a response is left out: a request is answered with an error or without one.\<close>

definition no_body :: "('e + 'a) \<times> 's \<Rightarrow> ('e + unit) \<times> 's" where
  "no_body res = (map_sum id (\<lambda>_. ()) (fst res), snd res)"

definition users_load :: "uuid \<Rightarrow> uuid \<Rightarrow> access_state \<Rightarrow> app_error + user" where
  "users_load t u st = (case find_live_user t u st of Some x \<Rightarrow> Inr x | None \<Rightarrow> Inl (NotFound ''user''))"

definition route_create_role :: "admin_ctx \<Rightarrow> uuid \<Rightarrow> uuid \<Rightarrow> new_role \<Rightarrow> access_state \<Rightarrow> (app_error + unit) \<times> access_state" where
  "route_create_role ad t i body =
     guard (require ad t ''ridm:roles:write'') (\<lambda>_ st. no_body (roles_create t (ad_user ad) i body st))"

definition route_update_role :: "admin_ctx \<Rightarrow> uuid \<Rightarrow> uuid \<Rightarrow> role_update \<Rightarrow> access_state \<Rightarrow> (app_error + unit) \<times> access_state" where
  "route_update_role ad t r body =
     guard (require ad t ''ridm:roles:write'') (\<lambda>_ st. no_body (roles_update t (ad_user ad) r body st))"

definition route_delete_role :: "admin_ctx \<Rightarrow> uuid \<Rightarrow> uuid \<Rightarrow> access_state \<Rightarrow> (app_error + unit) \<times> access_state" where
  "route_delete_role ad t r = guard (require ad t ''ridm:roles:write'') (\<lambda>_. roles_delete t (ad_user ad) r)"

definition route_add_composite :: "admin_ctx \<Rightarrow> uuid \<Rightarrow> uuid \<Rightarrow> uuid \<Rightarrow> access_state \<Rightarrow> (app_error + unit) \<times> access_state" where
  "route_add_composite ad t r child st =
     guard (require ad t ''ridm:roles:write'') (\<lambda>_.
     guard (roles_get t r st) (\<lambda>parent.
     guard (if ro_built_in parent then Inl built_in_unchanged else Inr ()) (\<lambda>_.
     guard (roles_get t child st) (\<lambda>_.
     guard (require_can_grant ad (permissions_of_grant t (GrantRole child) st)) (\<lambda>_.
     add_composite t (ad_user ad) r child))))) st"

definition route_remove_composite :: "admin_ctx \<Rightarrow> uuid \<Rightarrow> uuid \<Rightarrow> uuid \<Rightarrow> access_state \<Rightarrow> (app_error + unit) \<times> access_state" where
  "route_remove_composite ad t r child st =
     guard (require ad t ''ridm:roles:write'') (\<lambda>_.
     guard (roles_get t r st) (\<lambda>parent.
     guard (if ro_built_in parent then Inl built_in_unchanged else Inr ()) (\<lambda>_.
     remove_composite t (ad_user ad) r child))) st"

definition route_grant_permission :: "admin_ctx \<Rightarrow> uuid \<Rightarrow> uuid \<Rightarrow> uuid \<Rightarrow> access_state \<Rightarrow> (app_error + unit) \<times> access_state" where
  "route_grant_permission ad t r pid st =
     guard (require ad t ''ridm:resource-servers:write'') (\<lambda>_.
     guard (get_permission t pid st) (\<lambda>p.
     guard (resources_get t (pm_resource_server p) st) (\<lambda>rs.
     guard (if rs_built_in rs then require_can_grant ad [pm_name p] else Inr ()) (\<lambda>_.
     grant_permission t (ad_user ad) r pid)))) st"

definition route_revoke_permission :: "admin_ctx \<Rightarrow> uuid \<Rightarrow> uuid \<Rightarrow> uuid \<Rightarrow> access_state \<Rightarrow> (app_error + unit) \<times> access_state" where
  "route_revoke_permission ad t r pid =
     guard (require ad t ''ridm:resource-servers:write'') (\<lambda>_. revoke_permission t (ad_user ad) r pid)"

definition route_create_group :: "admin_ctx \<Rightarrow> uuid \<Rightarrow> uuid \<Rightarrow> new_group \<Rightarrow> access_state \<Rightarrow> (app_error + unit) \<times> access_state" where
  "route_create_group ad t i body =
     guard (require ad t ''ridm:groups:write'') (\<lambda>_ st. no_body (groups_create t (ad_user ad) i body st))"

definition route_update_group :: "admin_ctx \<Rightarrow> uuid \<Rightarrow> uuid \<Rightarrow> group_update \<Rightarrow> access_state \<Rightarrow> (app_error + unit) \<times> access_state" where
  "route_update_group ad t g body =
     guard (require ad t ''ridm:groups:write'') (\<lambda>_ st. no_body (groups_update t (ad_user ad) g body st))"

definition route_delete_group :: "admin_ctx \<Rightarrow> uuid \<Rightarrow> uuid \<Rightarrow> access_state \<Rightarrow> (app_error + unit) \<times> access_state" where
  "route_delete_group ad t g = guard (require ad t ''ridm:groups:write'') (\<lambda>_. groups_delete t (ad_user ad) g)"

definition route_add_member :: "admin_ctx \<Rightarrow> uuid \<Rightarrow> uuid \<Rightarrow> uuid \<Rightarrow> access_state \<Rightarrow> (app_error + unit) \<times> access_state" where
  "route_add_member ad t g u st =
     guard (require ad t ''ridm:groups:write'') (\<lambda>_.
     guard (users_load t u st) (\<lambda>_.
     guard (groups_get t g st) (\<lambda>_.
     guard (require_can_grant ad (permissions_of_grant t (GrantGroup g) st)) (\<lambda>_.
     groups_add_member t (ad_user ad) g u)))) st"

definition route_remove_member :: "admin_ctx \<Rightarrow> uuid \<Rightarrow> uuid \<Rightarrow> uuid \<Rightarrow> access_state \<Rightarrow> (app_error + unit) \<times> access_state" where
  "route_remove_member ad t g u =
     guard (require ad t ''ridm:groups:write'') (\<lambda>_. groups_remove_member t (ad_user ad) g u)"

definition route_group_assign :: "admin_ctx \<Rightarrow> uuid \<Rightarrow> uuid \<Rightarrow> uuid \<Rightarrow> access_state \<Rightarrow> (app_error + unit) \<times> access_state" where
  "route_group_assign ad t g r st =
     guard (require ad t ''ridm:groups:write'') (\<lambda>_.
     guard (groups_get t g st) (\<lambda>_.
     guard (roles_get t r st) (\<lambda>_.
     guard (require_can_grant ad (permissions_of_grant t (GrantRole r) st)) (\<lambda>_.
     roles_assign t (ad_user ad) r (PGroup g))))) st"

definition route_group_unassign :: "admin_ctx \<Rightarrow> uuid \<Rightarrow> uuid \<Rightarrow> uuid \<Rightarrow> access_state \<Rightarrow> (app_error + unit) \<times> access_state" where
  "route_group_unassign ad t g r =
     guard (require ad t ''ridm:groups:write'') (\<lambda>_. roles_unassign t (ad_user ad) r (PGroup g))"

definition route_user_assign :: "admin_ctx \<Rightarrow> uuid \<Rightarrow> uuid \<Rightarrow> uuid \<Rightarrow> access_state \<Rightarrow> (app_error + unit) \<times> access_state" where
  "route_user_assign ad t u r st =
     andThenS
       (guard (require ad t ''ridm:users:write'') (\<lambda>_.
        guard (users_load t u st) (\<lambda>_.
        guard (roles_get t r st) (\<lambda>_.
        guard (require_can_grant ad (permissions_of_grant t (GrantRole r) st)) (\<lambda>_.
        roles_assign t (ad_user ad) r (PUser u))))) st)
       (\<lambda>_ st1. (Inr (), snd (effective_roles t u TenantWide st1)))"

definition route_user_unassign :: "admin_ctx \<Rightarrow> uuid \<Rightarrow> uuid \<Rightarrow> uuid \<Rightarrow> access_state \<Rightarrow> (app_error + unit) \<times> access_state" where
  "route_user_unassign ad t u r st =
     guard (require ad t ''ridm:users:write'') (\<lambda>_.
     guard (users_load t u st) (\<lambda>_.
     roles_unassign t (ad_user ad) r (PUser u))) st"

definition route_join_group :: "admin_ctx \<Rightarrow> uuid \<Rightarrow> uuid \<Rightarrow> uuid \<Rightarrow> access_state \<Rightarrow> (app_error + unit) \<times> access_state" where
  "route_join_group ad t u g st =
     andThenS
       (guard (require ad t ''ridm:users:write'') (\<lambda>_.
        guard (users_load t u st) (\<lambda>_.
        guard (groups_get t g st) (\<lambda>_.
        guard (require_can_grant ad (permissions_of_grant t (GrantGroup g) st)) (\<lambda>_.
        groups_add_member t (ad_user ad) g u)))) st)
       (\<lambda>_ st1. (Inr (), snd (groups_of_user t u True (snd (groups_of_user t u False st1)))))"

definition route_leave_group :: "admin_ctx \<Rightarrow> uuid \<Rightarrow> uuid \<Rightarrow> uuid \<Rightarrow> access_state \<Rightarrow> (app_error + unit) \<times> access_state" where
  "route_leave_group ad t u g st =
     guard (require ad t ''ridm:users:write'') (\<lambda>_.
     guard (users_load t u st) (\<lambda>_.
     groups_remove_member t (ad_user ad) g u)) st"

definition route_delete_resource :: "admin_ctx \<Rightarrow> uuid \<Rightarrow> uuid \<Rightarrow> access_state \<Rightarrow> (app_error + unit) \<times> access_state" where
  "route_delete_resource ad t rs =
     guard (require ad t ''ridm:resource-servers:write'') (\<lambda>_. resources_delete t (ad_user ad) rs)"

definition route_create_permission ::
  "admin_ctx \<Rightarrow> uuid \<Rightarrow> uuid \<Rightarrow> uuid \<Rightarrow> string \<Rightarrow> string option \<Rightarrow> access_state \<Rightarrow> (app_error + unit) \<times> access_state" where
  "route_create_permission ad t i rs name descr =
     guard (require ad t ''ridm:resource-servers:write'')
       (\<lambda>_ st. no_body (create_permission t (ad_user ad) i rs name descr st))"

definition route_delete_permission :: "admin_ctx \<Rightarrow> uuid \<Rightarrow> uuid \<Rightarrow> uuid \<Rightarrow> access_state \<Rightarrow> (app_error + unit) \<times> access_state" where
  "route_delete_permission ad t rs p =
     guard (require ad t ''ridm:resource-servers:write'') (\<lambda>_. delete_permission t (ad_user ad) rs p)"

definition route_delete_org :: "admin_ctx \<Rightarrow> uuid \<Rightarrow> uuid \<Rightarrow> access_state \<Rightarrow> (app_error + unit) \<times> access_state" where
  "route_delete_org ad t org = guard (require ad t ''ridm:orgs:write'') (\<lambda>_. orgs_delete t (ad_user ad) org)"

definition route_org_add_member :: "admin_ctx \<Rightarrow> uuid \<Rightarrow> uuid \<Rightarrow> uuid \<Rightarrow> access_state \<Rightarrow> (app_error + unit) \<times> access_state" where
  "route_org_add_member ad t org u st =
     guard (require_org ad t org ''ridm:orgs:write'') (\<lambda>_.
     guard (if confined_to_org ad ''ridm:orgs:write'' \<noteq> None
            then Inl (Forbidden ''an organization's own administrator adds members by invitation'') else Inr ()) (\<lambda>_.
     guard (users_load t u st) (\<lambda>_.
     orgs_add_member t (ad_user ad) org u))) st"

definition route_org_remove_member :: "admin_ctx \<Rightarrow> uuid \<Rightarrow> uuid \<Rightarrow> uuid \<Rightarrow> access_state \<Rightarrow> (app_error + unit) \<times> access_state" where
  "route_org_remove_member ad t org u =
     guard (require_org ad t org ''ridm:orgs:write'') (\<lambda>_. orgs_remove_member t (ad_user ad) org u)"

definition route_org_assign :: "admin_ctx \<Rightarrow> uuid \<Rightarrow> uuid \<Rightarrow> principal \<Rightarrow> uuid \<Rightarrow> access_state \<Rightarrow> (app_error + unit) \<times> access_state" where
  "route_org_assign ad t org p r st =
     guard (require_org ad t org ''ridm:orgs:write'') (\<lambda>_.
     guard (roles_get t r st) (\<lambda>_.
     guard (require_can_grant_in_org ad org (permissions_of_grant t (GrantRole r) st)) (\<lambda>_.
     orgs_assign_role t (ad_user ad) org r p))) st"

definition route_org_unassign :: "admin_ctx \<Rightarrow> uuid \<Rightarrow> uuid \<Rightarrow> principal \<Rightarrow> uuid \<Rightarrow> access_state \<Rightarrow> (app_error + unit) \<times> access_state" where
  "route_org_unassign ad t org p r =
     guard (require_org ad t org ''ridm:orgs:write'') (\<lambda>_. orgs_unassign_role t (ad_user ad) org r p)"

section \<open>Requests and steps\<close>

datatype admin_op =
    CreateRole uuid new_role | UpdateRole uuid role_update | DeleteRole uuid
  | AddComposite uuid uuid | RemoveComposite uuid uuid
  | GrantPermission uuid uuid | RevokePermission uuid uuid
  | CreateGroup uuid new_group | UpdateGroup uuid group_update | DeleteGroup uuid
  | AddMember uuid uuid | RemoveMember uuid uuid | GroupAssign uuid uuid | GroupUnassign uuid uuid
  | UserAssign uuid uuid | UserUnassign uuid uuid | JoinGroup uuid uuid | LeaveGroup uuid uuid
  | DeleteResource uuid | CreatePermission uuid uuid string "string option" | DeletePermission uuid uuid
  | DeleteOrg uuid | OrgAddMember uuid uuid | OrgRemoveMember uuid uuid
  | OrgAssign uuid principal uuid | OrgUnassign uuid principal uuid

fun route :: "admin_ctx \<Rightarrow> uuid \<Rightarrow> admin_op \<Rightarrow> access_state \<Rightarrow> (app_error + unit) \<times> access_state" where
  "route ad t (CreateRole i b) = route_create_role ad t i b"
| "route ad t (UpdateRole r b) = route_update_role ad t r b"
| "route ad t (DeleteRole r) = route_delete_role ad t r"
| "route ad t (AddComposite r c) = route_add_composite ad t r c"
| "route ad t (RemoveComposite r c) = route_remove_composite ad t r c"
| "route ad t (GrantPermission r p) = route_grant_permission ad t r p"
| "route ad t (RevokePermission r p) = route_revoke_permission ad t r p"
| "route ad t (CreateGroup i b) = route_create_group ad t i b"
| "route ad t (UpdateGroup g b) = route_update_group ad t g b"
| "route ad t (DeleteGroup g) = route_delete_group ad t g"
| "route ad t (AddMember g u) = route_add_member ad t g u"
| "route ad t (RemoveMember g u) = route_remove_member ad t g u"
| "route ad t (GroupAssign g r) = route_group_assign ad t g r"
| "route ad t (GroupUnassign g r) = route_group_unassign ad t g r"
| "route ad t (UserAssign u r) = route_user_assign ad t u r"
| "route ad t (UserUnassign u r) = route_user_unassign ad t u r"
| "route ad t (JoinGroup u g) = route_join_group ad t u g"
| "route ad t (LeaveGroup u g) = route_leave_group ad t u g"
| "route ad t (DeleteResource rs) = route_delete_resource ad t rs"
| "route ad t (CreatePermission i rs n d) = route_create_permission ad t i rs n d"
| "route ad t (DeletePermission rs p) = route_delete_permission ad t rs p"
| "route ad t (DeleteOrg org) = route_delete_org ad t org"
| "route ad t (OrgAddMember org u) = route_org_add_member ad t org u"
| "route ad t (OrgRemoveMember org u) = route_org_remove_member ad t org u"
| "route ad t (OrgAssign org p r) = route_org_assign ad t org p r"
| "route ad t (OrgUnassign org p r) = route_org_unassign ad t org p r"

text \<open>The \<open>{slug}\<close> of an admin route names the tenant the request acts on.\<close>

definition admin_call ::
  "instant \<Rightarrow> uuid \<Rightarrow> uuid \<Rightarrow> uuid option \<Rightarrow> uuid \<Rightarrow> admin_op \<Rightarrow> access_state \<Rightarrow> (app_error + unit) \<times> access_state" where
  "admin_call now home u org t op st =
     andThenS (admin_context now home u org st) (\<lambda>ad st1.
       if t \<notin> set (ax_tenants st1) then (Inl (NotFound ''tenant''), st1) else route ad t op st1)"

end
