(* ===== verification/Access_Graph.thy ===== *)
theory Access_Graph
  imports Access_Admin
begin

text \<open>
  What the access model promises. The tables of a tenant are abstracted to the graph of its
  groups, memberships, assignments, composites and permission grants, in which what a user
  may do is a bounded reachability; each admin request is shown to keep every user within
  what they could do before and what the administrator may do, to keep the cached resolution
  equal to the tables, and to stay within the organization of an administrator who holds
  nothing tenant-wide.
\<close>

section \<open>Bounded reachability\<close>

fun within :: "nat \<Rightarrow> ('a \<times> 'a) set \<Rightarrow> 'a set \<Rightarrow> 'a set" where
  "within 0 R X = X"
| "within (Suc n) R X = X \<union> within n R (R `` X)"

lemma levels_within: "set (levels nx n xs) = within n {(x, y). y \<in> set (nx x)} (set xs)"
proof (induction nx n xs rule: levels.induct)
  case (2 nx n xs)
  have "{(x, y). y \<in> set (nx x)} `` set xs = (\<Union>x\<in>set xs. set (nx x))" by auto
  with 2 show ?case by simp
qed simp

lemma within_mono: "R \<subseteq> S \<Longrightarrow> X \<subseteq> Y \<Longrightarrow> within n R X \<subseteq> within n S Y"
proof (induction n arbitrary: X Y)
  case (Suc n)
  have "R `` X \<subseteq> S `` Y" using Suc.prems by auto
  from Suc.IH [OF Suc.prems(1) this] show ?case using Suc.prems by auto
qed simp

lemma within_Un: "within n R (X \<union> Y) = within n R X \<union> within n R Y"
  by (induction n arbitrary: X Y) (auto simp: Image_Un)

lemma within_empty [simp]: "within n R {} = {}"
  by (induction n) auto

lemma within_base: "X \<subseteq> within n R X"
  by (cases n) auto

lemma within_step: "within n R X \<subseteq> within (Suc n) R X"
proof (induction n arbitrary: X)
  case (Suc n)
  have "within n R (R `` X) \<subseteq> within (Suc n) R (R `` X)" by (rule Suc.IH)
  then show ?case by auto
qed auto

text \<open>A path through a new edge ends with a path of old edges from the edge's end.\<close>

lemma within_insert_edge: "within n (insert (p, c) R) X \<subseteq> within n R X \<union> within n R {c}"
proof (induction n arbitrary: X)
  case (Suc n)
  have "insert (p, c) R `` X \<subseteq> R `` X \<union> {c}" by auto
  then have "within n (insert (p, c) R) (insert (p, c) R `` X) \<subseteq> within n (insert (p, c) R) (R `` X \<union> {c})"
    by (rule within_mono [OF subset_refl])
  also have "\<dots> \<subseteq> within n R (R `` X \<union> {c}) \<union> within n R {c}" by (rule Suc.IH)
  also have "\<dots> = within n R (R `` X) \<union> within n R {c}" by (simp only: within_Un Un_assoc Un_absorb)
  finally show ?case using within_step [of n R "{c}"] by auto
qed auto

lemma levels_cong:
  "(\<And>x. x \<in> set (levels nx n xs) \<Longrightarrow> nx' x = nx x) \<Longrightarrow> levels nx' n xs = levels nx n xs"
proof (induction nx n xs rule: levels.induct)
  case (2 nx n xs)
  then have "map nx' xs = map nx xs" by auto
  with 2 show ?case by (simp del: map_eq_conv)
qed simp

section \<open>The graph of a tenant\<close>

text \<open>
  What the resolution of permissions reads of a tenant's tables, less the organization an
  assignment is scoped to: groups with their parents, memberships, assignments, composites,
  the roles there are and the admin permission names each is granted.
\<close>

record access_graph =
  ag_groups :: "(uuid \<times> uuid option) set"
  ag_members :: "(uuid \<times> uuid) set"
  ag_assigned :: "(uuid \<times> uuid option \<times> uuid option) set"
  ag_composites :: "(uuid \<times> uuid) set"
  ag_roles :: "uuid set"
  ag_granted :: "(uuid \<times> string) set"

definition graph :: "uuid \<Rightarrow> access_state \<Rightarrow> access_graph" where
  "graph t st =
     \<lparr>ag_groups = (\<lambda>g. (gr_id g, gr_parent g)) ` set (tab_groups t st),
      ag_members = snd ` set (tab_members t st),
      ag_assigned = (\<lambda>a. (ra_role a, ra_user a, ra_group a)) ` set (tab_assignments t st),
      ag_composites = snd ` set (tab_composites t st),
      ag_roles = ro_id ` set (tab_roles t st),
      ag_granted = {(r, n). \<exists>rs g p. find_by_identifier t ADMIN_AUDIENCE st = Some rs
                      \<and> g \<in> set (tab_grants t st) \<and> p \<in> set (tab_permissions t st)
                      \<and> fst (snd g) = r \<and> pm_id p = snd (snd g) \<and> pm_resource_server p = rs_id rs \<and> pm_name p = n}\<rparr>"

definition parent_rel :: "access_graph \<Rightarrow> ((uuid \<times> uuid option) \<times> (uuid \<times> uuid option)) set" where
  "parent_rel gr = {(x, y). y \<in> ag_groups gr \<and> snd x = Some (fst y)}"

definition lineage :: "access_graph \<Rightarrow> (uuid \<times> uuid option) set \<Rightarrow> uuid set" where
  "lineage gr X = fst ` within 64 (parent_rel gr) X"

definition own_groups :: "access_graph \<Rightarrow> uuid \<Rightarrow> (uuid \<times> uuid option) set" where
  "own_groups gr u = {x \<in> ag_groups gr. (fst x, u) \<in> ag_members gr}"

definition roles_of_groups :: "access_graph \<Rightarrow> uuid set \<Rightarrow> uuid set" where
  "roles_of_groups gr gs = {r. \<exists>u g. (r, u, Some g) \<in> ag_assigned gr \<and> g \<in> gs}"

definition own_roles :: "access_graph \<Rightarrow> uuid \<Rightarrow> uuid set" where
  "own_roles gr u = {r. \<exists>g. (r, Some u, g) \<in> ag_assigned gr} \<union> roles_of_groups gr (lineage gr (own_groups gr u))"

text \<open>The permission names that roles \<open>X\<close> carry once composites are expanded.\<close>

definition carried :: "access_graph \<Rightarrow> uuid set \<Rightarrow> string set" where
  "carried gr X = {n. \<exists>r \<in> within 64 (ag_composites gr) X. r \<in> ag_roles gr \<and> (r, n) \<in> ag_granted gr}"

definition powers :: "access_graph \<Rightarrow> uuid \<Rightarrow> string set" where
  "powers gr u = carried gr (own_roles gr u)"

lemma child_roles_rel: "{(x, y). y \<in> set (child_roles t st x)} = ag_composites (graph t st)"
  by (force simp: child_roles_def graph_def)

lemma parent_groups_rel: "{(x, y). y \<in> set (parent_groups t st x)} = parent_rel (graph t st)"
  by (force simp: parent_groups_def graph_def parent_rel_def)

lemma user_group_pairs_within:
  "set (user_group_pairs t u st) = within 64 (parent_rel (graph t st)) (own_groups (graph t st) u)"
proof -
  have "set [(gr_id g, gr_parent g). m \<leftarrow> tab_members t st, snd (snd m) = u,
               g \<leftarrow> tab_groups t st, gr_id g = fst (snd m)] = own_groups (graph t st) u"
    by (force simp: own_groups_def graph_def)
  then show ?thesis by (simp add: user_group_pairs_def levels_within parent_groups_rel)
qed

lemma direct_roles_own: "set (direct_role_ids t u scope st) \<subseteq> own_roles (graph t st) u"
  by (auto simp: direct_role_ids_def own_roles_def roles_of_groups_def lineage_def user_group_pairs_within)
    (force simp: graph_def)+

lemma direct_roles_anywhere: "set (direct_role_ids t u Anywhere st) = own_roles (graph t st) u"
proof
  show "own_roles (graph t st) u \<subseteq> set (direct_role_ids t u Anywhere st)"
    by (auto simp: direct_role_ids_def own_roles_def roles_of_groups_def lineage_def user_group_pairs_within)
      (force simp: graph_def)+
qed (rule direct_roles_own)

lemma permissions_for_roles_graph:
  "find_by_identifier t ADMIN_AUDIENCE st = Some rs \<Longrightarrow>
   set (permissions_for_roles t (rs_id rs) ids st) = {n. \<exists>r\<in>set ids. (r, n) \<in> ag_granted (graph t st)}"
  unfolding permissions_for_roles_def graph_def by (auto split: if_splits) force+

lemma expand_composites_within:
  "set (expand_composites t ids st) = within 64 (ag_composites (graph t st)) (set ids \<inter> ag_roles (graph t st))"
proof -
  have "set [ro_id r. r \<leftarrow> tab_roles t st, ro_id r \<in> set ids] = set ids \<inter> ag_roles (graph t st)"
    by (auto simp: graph_def)
  then show ?thesis by (simp add: expand_composites_def levels_within child_roles_rel)
qed

text \<open>What the tables answer: the loader of \<open>permissions_of_user\<close> with no cache in between.\<close>

definition resolve_permissions :: "uuid \<Rightarrow> uuid \<Rightarrow> org_scope \<Rightarrow> access_state \<Rightarrow> app_error + string list" where
  "resolve_permissions t u scope st =
     (let effective = effective_roles_of_user t u scope st in
      if effective = [] then Inr []
      else (case find_by_identifier t ADMIN_AUDIENCE st of
              None \<Rightarrow> Inl no_admin_server
            | Some rs \<Rightarrow> Inr (permission_set (permissions_for_roles t (rs_id rs) (map ro_id effective) st))))"

lemma set_permission_set [simp]: "set (permission_set ns) = set ns"
  by (simp add: permission_set_def)

lemma effective_role_ids_within:
  "set (effective_role_ids t u scope st) = within 64 (ag_composites (graph t st)) (set (direct_role_ids t u scope st))"
  by (simp add: effective_role_ids_def levels_within child_roles_rel)

lemma effective_roles_graph:
  "ro_id ` set (effective_roles_of_user t u scope st)
   = within 64 (ag_composites (graph t st)) (set (direct_role_ids t u scope st)) \<inter> ag_roles (graph t st)"
  by (auto simp: effective_roles_of_user_def effective_role_ids_within graph_def)

lemma resolve_names:
  assumes "resolve_permissions t u scope st = Inr names"
  shows "set names = carried (graph t st) (set (direct_role_ids t u scope st))"
proof (cases "effective_roles_of_user t u scope st = []")
  case True
  then have "within 64 (ag_composites (graph t st)) (set (direct_role_ids t u scope st)) \<inter> ag_roles (graph t st) = {}"
    using effective_roles_graph [of t u scope st] by simp
  then show ?thesis using assms True by (auto simp: resolve_permissions_def carried_def)
next
  case False
  then obtain rs where rs: "find_by_identifier t ADMIN_AUDIENCE st = Some rs"
      "names = permission_set (permissions_for_roles t (rs_id rs) (map ro_id (effective_roles_of_user t u scope st)) st)"
    using assms by (auto simp: resolve_permissions_def Let_def split: option.splits)
  have "set names = {n. \<exists>r \<in> ro_id ` set (effective_roles_of_user t u scope st). (r, n) \<in> ag_granted (graph t st)}"
    by (simp add: rs permissions_for_roles_graph)
  then show ?thesis unfolding effective_roles_graph by (auto simp: carried_def)
qed

lemma carried_mono: "X \<subseteq> Y \<Longrightarrow> carried gr X \<subseteq> carried gr Y"
  using within_mono [OF subset_refl, of X Y] by (fastforce simp: carried_def)

lemma carried_Un: "carried gr (X \<union> Y) = carried gr X \<union> carried gr Y"
  by (auto simp: carried_def within_Un)

lemma resolve_within_powers: "resolve_permissions t u scope st = Inr names \<Longrightarrow> set names \<subseteq> powers (graph t st) u"
  using carried_mono [OF direct_roles_own] by (simp add: resolve_names powers_def)

lemma resolve_anywhere: "resolve_permissions t u Anywhere st = Inr names \<Longrightarrow> set names = powers (graph t st) u"
  by (simp add: resolve_names powers_def direct_roles_anywhere)

lemma granted_needs_server: "find_by_identifier t ADMIN_AUDIENCE st = None \<Longrightarrow> ag_granted (graph t st) = {}"
  by (auto simp: graph_def)

lemma grant_covers:
  assumes "X \<subseteq> ag_roles (graph t st)"
    and "X = set (case g of GrantRole i \<Rightarrow> [i] | GrantGroup i \<Rightarrow> role_ids_of_group_lineage t i st)"
  shows "carried (graph t st) X \<subseteq> set (permissions_of_grant t g st)"
proof (cases "find_by_identifier t ADMIN_AUDIENCE st")
  case None
  then show ?thesis by (auto simp: carried_def granted_needs_server)
next
  case (Some rs)
  define direct where "direct = (case g of GrantRole i \<Rightarrow> [i] | GrantGroup i \<Rightarrow> role_ids_of_group_lineage t i st)"
  have "carried (graph t st) X \<subseteq> {n. \<exists>r\<in>set (expand_composites t direct st). (r, n) \<in> ag_granted (graph t st)}"
    using assms by (auto simp: carried_def expand_composites_within direct_def Int_absorb2)
  moreover have "direct = [] \<Longrightarrow> carried (graph t st) X = {}"
    using assms(2) by (simp add: carried_def direct_def [symmetric])
  ultimately show ?thesis
    by (auto simp: permissions_of_grant_def direct_def [symmetric] Some permissions_for_roles_graph)
qed

lemma lineage_roles:
  "set (role_ids_of_group_lineage t i st)
   = roles_of_groups (graph t st) (lineage (graph t st) {x \<in> ag_groups (graph t st). fst x = i})"
proof -
  have "set [(gr_id g, gr_parent g). g \<leftarrow> tab_groups t st, gr_id g = i] = {x \<in> ag_groups (graph t st). fst x = i}"
    by (force simp: graph_def)
  then have "set (levels (parent_groups t st) 64 [(gr_id g, gr_parent g). g \<leftarrow> tab_groups t st, gr_id g = i])
      = within 64 (parent_rel (graph t st)) {x \<in> ag_groups (graph t st). fst x = i}"
    by (simp add: levels_within parent_groups_rel)
  then show ?thesis
    by (auto simp: role_ids_of_group_lineage_def roles_of_groups_def lineage_def simp del: set_concat)
      (force simp: graph_def)+
qed

section \<open>How powers grow\<close>

definition graph_le :: "access_graph \<Rightarrow> access_graph \<Rightarrow> bool" where
  "graph_le a b = (ag_groups a \<subseteq> ag_groups b \<and> ag_members a \<subseteq> ag_members b \<and> ag_assigned a \<subseteq> ag_assigned b
     \<and> ag_composites a \<subseteq> ag_composites b \<and> ag_roles a \<subseteq> ag_roles b \<and> ag_granted a \<subseteq> ag_granted b)"

lemma graph_le_refl [simp]: "graph_le a a"
  by (simp add: graph_le_def)

lemma lineage_mono: "ag_groups a \<subseteq> ag_groups b \<Longrightarrow> X \<subseteq> Y \<Longrightarrow> lineage a X \<subseteq> lineage b Y"
  using within_mono [of "parent_rel a" "parent_rel b" X Y 64] by (auto simp: lineage_def parent_rel_def)

lemma carried_le: "graph_le a b \<Longrightarrow> X \<subseteq> Y \<Longrightarrow> carried a X \<subseteq> carried b Y"
  using within_mono [of "ag_composites a" "ag_composites b" X Y 64] by (fastforce simp: carried_def graph_le_def)

lemma powers_le:
  assumes "graph_le a b" shows "powers a u \<subseteq> powers b u"
proof -
  have "own_groups a u \<subseteq> own_groups b u" using assms by (auto simp: graph_le_def own_groups_def)
  then have "lineage a (own_groups a u) \<subseteq> lineage b (own_groups b u)"
    using assms by (intro lineage_mono) (auto simp: graph_le_def)
  then have "own_roles a u \<subseteq> own_roles b u"
    using assms by (fastforce simp: graph_le_def own_roles_def roles_of_groups_def)
  then show ?thesis using assms unfolding powers_def by (rule carried_le [rotated])
qed

text \<open>The ways a request makes the graph larger, each with what the new piece carries.\<close>

lemma powers_assign:
  "powers (gr\<lparr>ag_assigned := insert (r, u', g') (ag_assigned gr)\<rparr>) u \<subseteq> powers gr u \<union> carried gr {r}"
proof -
  let ?gr = "gr\<lparr>ag_assigned := insert (r, u', g') (ag_assigned gr)\<rparr>"
  have "own_groups ?gr = own_groups gr" "lineage ?gr = lineage gr"
    by (auto simp: own_groups_def lineage_def parent_rel_def fun_eq_iff)
  then have "own_roles ?gr u \<subseteq> own_roles gr u \<union> {r}"
    by (auto simp: own_roles_def roles_of_groups_def)
  moreover have "carried ?gr = carried gr" by (simp add: carried_def fun_eq_iff)
  ultimately show ?thesis
    using carried_mono [of "own_roles ?gr u" "own_roles gr u \<union> {r}" gr] by (simp add: powers_def carried_Un [symmetric])
qed

lemma powers_member:
  "powers (gr\<lparr>ag_members := insert (g, u') (ag_members gr)\<rparr>) u
   \<subseteq> powers gr u \<union> carried gr (roles_of_groups gr (lineage gr {x \<in> ag_groups gr. fst x = g}))"
proof -
  let ?gr = "gr\<lparr>ag_members := insert (g, u') (ag_members gr)\<rparr>"
  let ?new = "{x \<in> ag_groups gr. fst x = g}"
  have "own_groups ?gr u \<subseteq> own_groups gr u \<union> ?new" by (auto simp: own_groups_def)
  then have "lineage ?gr (own_groups ?gr u) \<subseteq> lineage gr (own_groups gr u \<union> ?new)"
    by (intro lineage_mono) auto
  also have "\<dots> = lineage gr (own_groups gr u) \<union> lineage gr ?new"
    by (simp only: lineage_def within_Un image_Un)
  finally have "own_roles ?gr u \<subseteq> own_roles gr u \<union> roles_of_groups gr (lineage gr ?new)"
    by (fastforce simp: own_roles_def roles_of_groups_def)
  moreover have "carried ?gr = carried gr" by (simp add: carried_def fun_eq_iff)
  ultimately show ?thesis
    using carried_mono [of "own_roles ?gr u" _ gr] by (simp add: powers_def carried_Un [symmetric])
qed

lemma powers_composite:
  "powers (gr\<lparr>ag_composites := insert (p, c) (ag_composites gr)\<rparr>) u \<subseteq> powers gr u \<union> carried gr {c}"
proof -
  let ?gr = "gr\<lparr>ag_composites := insert (p, c) (ag_composites gr)\<rparr>"
  have "own_roles ?gr = own_roles gr"
    by (auto simp: own_roles_def roles_of_groups_def own_groups_def lineage_def parent_rel_def fun_eq_iff)
  then show ?thesis
    using within_insert_edge [of 64 p c "ag_composites gr" "own_roles gr u"] by (auto simp: powers_def carried_def)
qed

lemma powers_grant:
  "powers (gr\<lparr>ag_granted := ag_granted gr \<union> {r} \<times> N\<rparr>) u \<subseteq> powers gr u \<union> N"
  by (auto simp: powers_def carried_def own_roles_def roles_of_groups_def own_groups_def lineage_def parent_rel_def)

lemma powers_new_role:
  "(\<And>n. (i, n) \<notin> ag_granted gr) \<Longrightarrow> powers (gr\<lparr>ag_roles := insert i (ag_roles gr)\<rparr>) u = powers gr u"
  by (auto simp: powers_def carried_def own_roles_def roles_of_groups_def own_groups_def lineage_def parent_rel_def)

lemma within_closed:
  assumes "X \<subseteq> S" "\<And>x. x \<in> S \<Longrightarrow> R `` {x} \<subseteq> S" "\<And>x. x \<in> S \<Longrightarrow> R' `` {x} = R `` {x}"
  shows "within n R' X = within n R X"
  using assms(1)
proof (induction n arbitrary: X)
  case (Suc n)
  have "R' `` X = R `` X" using Suc.prems assms(3) by blast
  moreover have "R `` X \<subseteq> S" using Suc.prems assms(2) by blast
  ultimately show ?case using Suc.IH by simp
qed simp

lemma powers_new_group:
  assumes "\<And>u. (i, u) \<notin> ag_members gr" "\<And>x. x \<in> ag_groups gr \<Longrightarrow> snd x \<noteq> Some i" "p \<noteq> Some i"
  shows "powers (gr\<lparr>ag_groups := insert (i, p) (ag_groups gr)\<rparr>) u = powers gr u"
proof -
  let ?gr = "gr\<lparr>ag_groups := insert (i, p) (ag_groups gr)\<rparr>"
  have own: "own_groups ?gr u = own_groups gr u" using assms(1) by (auto simp: own_groups_def)
  have "within 64 (parent_rel ?gr) (own_groups gr u) = within 64 (parent_rel gr) (own_groups gr u)"
    by (rule within_closed [of _ "ag_groups gr"]) (use assms(2) in \<open>auto simp: own_groups_def parent_rel_def\<close>)
  then have "own_roles ?gr u = own_roles gr u"
    by (simp add: own_roles_def own lineage_def roles_of_groups_def)
  then show ?thesis by (simp add: powers_def carried_def)
qed

section \<open>What a request does to the tables\<close>

record tenant_tables =
  tt_groups :: "group_row list"
  tt_members :: "(uuid \<times> uuid \<times> uuid) list"
  tt_roles :: "role_row list"
  tt_assignments :: "role_assignment list"
  tt_composites :: "(uuid \<times> uuid \<times> uuid) list"
  tt_resources :: "resource_row list"
  tt_permissions :: "permission list"
  tt_grants :: "(uuid \<times> uuid \<times> uuid) list"

definition tables :: "uuid \<Rightarrow> access_state \<Rightarrow> tenant_tables" where
  "tables t st = \<lparr>tt_groups = tab_groups t st, tt_members = tab_members t st, tt_roles = tab_roles t st,
     tt_assignments = tab_assignments t st, tt_composites = tab_composites t st,
     tt_resources = tab_resources t st, tt_permissions = tab_permissions t st, tt_grants = tab_grants t st\<rparr>"

lemma tables_sel [simp]:
  "tt_groups (tables t st) = tab_groups t st" "tt_members (tables t st) = tab_members t st"
  "tt_roles (tables t st) = tab_roles t st" "tt_assignments (tables t st) = tab_assignments t st"
  "tt_composites (tables t st) = tab_composites t st" "tt_resources (tables t st) = tab_resources t st"
  "tt_permissions (tables t st) = tab_permissions t st" "tt_grants (tables t st) = tab_grants t st"
  by (simp_all add: tables_def)

lemma tables_eqD:
  assumes "tables t st' = T"
  shows "tab_groups t st' = tt_groups T" "tab_members t st' = tt_members T" "tab_roles t st' = tt_roles T"
    "tab_assignments t st' = tt_assignments T" "tab_composites t st' = tt_composites T"
    "tab_resources t st' = tt_resources T" "tab_permissions t st' = tt_permissions T" "tab_grants t st' = tt_grants T"
  using assms by auto

lemmas query_defs = effective_roles_of_user_def effective_role_ids_def direct_role_ids_def
  user_group_pairs_def parent_groups_def [abs_def] child_roles_def [abs_def] permissions_for_roles_def
  find_by_identifier_def

lemma effective_roles_cong:
  assumes "tables t st' = tables t st"
  shows "effective_roles_of_user t u scope st' = effective_roles_of_user t u scope st"
  unfolding query_defs tables_eqD [OF assms, simplified] ..

lemma resolve_cong:
  assumes "tables t st' = tables t st"
  shows "resolve_permissions t u scope st' = resolve_permissions t u scope st"
  unfolding resolve_permissions_def query_defs tables_eqD [OF assms, simplified] ..

lemma graph_cong:
  assumes "tables t st' = tables t st" shows "graph t st' = graph t st"
  unfolding graph_def find_by_identifier_def tables_eqD [OF assms, simplified] ..

text \<open>Foreign keys, unique ids, and the admin resource server being built in.\<close>

definition wf_tables :: "tenant_tables \<Rightarrow> bool" where
  "wf_tables T = ((\<forall>a\<in>set (tt_assignments T). ra_role a \<in> ro_id ` set (tt_roles T))
     \<and> (\<forall>p\<in>set (tt_permissions T). \<forall>q\<in>set (tt_permissions T). pm_id p = pm_id q \<longrightarrow> p = q)
     \<and> (\<forall>r\<in>set (tt_resources T). \<forall>s\<in>set (tt_resources T). rs_id r = rs_id s \<longrightarrow> r = s)
     \<and> (\<forall>r\<in>set (tt_resources T). rs_identifier r = ADMIN_AUDIENCE \<longrightarrow> rs_built_in r))"

definition wf_access :: "access_state \<Rightarrow> bool" where
  "wf_access st = (\<forall>t. wf_tables (tables t st))"

text \<open>A UUID drawn for a new row occurs nowhere.\<close>

definition fresh_id :: "uuid \<Rightarrow> access_state \<Rightarrow> bool" where
  "fresh_id i st =
     ((\<forall>g\<in>set (ax_groups st). gr_id g \<noteq> i \<and> gr_parent g \<noteq> Some i)
      \<and> (\<forall>m\<in>set (ax_members st). fst (snd m) \<noteq> i)
      \<and> (\<forall>r\<in>set (ax_roles st). ro_id r \<noteq> i)
      \<and> (\<forall>a\<in>set (ax_assignments st). ra_role a \<noteq> i \<and> ra_group a \<noteq> Some i)
      \<and> (\<forall>c\<in>set (ax_composites st). fst (snd c) \<noteq> i \<and> snd (snd c) \<noteq> i)
      \<and> (\<forall>p\<in>set (ax_permissions st). pm_id p \<noteq> i)
      \<and> (\<forall>g\<in>set (ax_grants st). fst (snd g) \<noteq> i \<and> snd (snd g) \<noteq> i))"

datatype bump = NoBump | BumpTenant | BumpUser uuid

definition frame :: "uuid \<Rightarrow> bump \<Rightarrow> access_state \<Rightarrow> access_state \<Rightarrow> bool" where
  "frame t b st st' =
     ((\<forall>t'. t' \<noteq> t \<longrightarrow> tables t' st' = tables t' st \<and> ax_tenant_version st' t' = ax_tenant_version st t'
         \<and> ax_user_version st' t' = ax_user_version st t')
      \<and> ax_role_cache st' = ax_role_cache st \<and> ax_permission_cache st' = ax_permission_cache st
      \<and> ax_tenants st' = ax_tenants st \<and> ax_last_token st \<le> ax_last_token st'
      \<and> (case b of
           NoBump \<Rightarrow> ax_tenant_version st' t = ax_tenant_version st t \<and> ax_user_version st' t = ax_user_version st t
         | BumpTenant \<Rightarrow> ax_last_token st < ax_tenant_version st' t \<and> ax_tenant_version st' t \<le> ax_last_token st'
             \<and> ax_user_version st' t = ax_user_version st t
         | BumpUser u \<Rightarrow> ax_tenant_version st' t = ax_tenant_version st t
             \<and> ax_last_token st < ax_user_version st' t u \<and> ax_user_version st' t u \<le> ax_last_token st'
             \<and> (\<forall>u'. u' \<noteq> u \<longrightarrow> ax_user_version st' t u' = ax_user_version st t u')))"

definition put :: "uuid \<Rightarrow> bump \<Rightarrow> (tenant_tables \<Rightarrow> tenant_tables) \<Rightarrow> access_state \<Rightarrow> access_state \<Rightarrow> bool" where
  "put t b f st st' = (frame t b st st' \<and> tables t st' = f (tables t st))"

definition may_hand_out :: "admin_ctx \<Rightarrow> string \<Rightarrow> bool" where
  "may_hand_out ad n = (allows (ad_permissions ad) n \<or> allows (ad_org_permissions ad) n)"

definition tables_le :: "tenant_tables \<Rightarrow> tenant_tables \<Rightarrow> bool" where
  "tables_le S T = (set (tt_groups S) \<subseteq> set (tt_groups T) \<and> set (tt_members S) \<subseteq> set (tt_members T)
     \<and> set (tt_roles S) \<subseteq> set (tt_roles T) \<and> set (tt_assignments S) \<subseteq> set (tt_assignments T)
     \<and> set (tt_composites S) \<subseteq> set (tt_composites T) \<and> set (tt_resources S) \<subseteq> set (tt_resources T)
     \<and> set (tt_permissions S) \<subseteq> set (tt_permissions T) \<and> set (tt_grants S) \<subseteq> set (tt_grants T))"

inductive effect :: "admin_ctx \<Rightarrow> uuid \<Rightarrow> bool \<Rightarrow> access_state \<Rightarrow> access_state \<Rightarrow> bool" for ad t mv where
  unchanged: "put t b id st st' \<Longrightarrow> effect ad t mv st st'"
| new_role:
    "put t NoBump (\<lambda>T. T\<lparr>tt_roles := tt_roles T @ [r]\<rparr>) st st' \<Longrightarrow> fresh_id (ro_id r) st \<Longrightarrow> effect ad t mv st st'"
| new_group:
    "put t NoBump (\<lambda>T. T\<lparr>tt_groups := tt_groups T @ [g]\<rparr>) st st' \<Longrightarrow> fresh_id (gr_id g) st
     \<Longrightarrow> gr_parent g \<noteq> Some (gr_id g) \<Longrightarrow> effect ad t mv st st'"
| new_permission:
    "put t NoBump (\<lambda>T. T\<lparr>tt_permissions := tt_permissions T @ [p]\<rparr>) st st' \<Longrightarrow> fresh_id (pm_id p) st
     \<Longrightarrow> (\<And>rs. find_by_identifier t ADMIN_AUDIENCE st = Some rs \<Longrightarrow> rs_id rs \<noteq> pm_resource_server p)
     \<Longrightarrow> effect ad t mv st st'"
| rename_group:
    "put t b (\<lambda>T. T\<lparr>tt_groups := map f (tt_groups T)\<rparr>) st st'
     \<Longrightarrow> (\<And>g. gr_id (f g) = gr_id g \<and> gr_parent (f g) = gr_parent g) \<Longrightarrow> effect ad t mv st st'"
| move_group:
    "put t BumpTenant (\<lambda>T. T\<lparr>tt_groups := map f (tt_groups T)\<rparr>) st st'
     \<Longrightarrow> (\<And>g. gr_id (f g) = gr_id g \<and> (gr_parent (f g) = gr_parent g \<or> gr_parent (f g) = None \<or> mv))
     \<Longrightarrow> effect ad t mv st st'"
| rename_role:
    "put t BumpTenant (\<lambda>T. T\<lparr>tt_roles := map f (tt_roles T)\<rparr>) st st' \<Longrightarrow> (\<And>r. ro_id (f r) = ro_id r)
     \<Longrightarrow> effect ad t mv st st'"
| shrink:
    "frame t BumpTenant st st' \<Longrightarrow> tables_le (tables t st') (tables t st)
     \<Longrightarrow> find_by_identifier t ADMIN_AUDIENCE st' = find_by_identifier t ADMIN_AUDIENCE st
     \<Longrightarrow> (\<And>a. a \<in> set (tab_assignments t st') \<Longrightarrow> ra_role a \<in> ro_id ` set (tab_roles t st))
     \<Longrightarrow> (\<And>a r. a \<in> set (tab_assignments t st') \<Longrightarrow> r \<in> set (tab_roles t st) \<Longrightarrow> ro_id r = ra_role a
          \<Longrightarrow> r \<in> set (tab_roles t st')) \<Longrightarrow> effect ad t mv st st'"
| unassign_user:
    "put t (BumpUser u) (\<lambda>T. T\<lparr>tt_assignments := filter (\<lambda>x. x \<noteq> a) (tt_assignments T)\<rparr>) st st'
     \<Longrightarrow> ra_user a = Some u \<Longrightarrow> ra_group a = None \<Longrightarrow> effect ad t mv st st'"
| cut_member:
    "put t (BumpUser u) (\<lambda>T. T\<lparr>tt_members := filter (\<lambda>x. x \<noteq> (t, g, u)) (tt_members T)\<rparr>) st st' \<Longrightarrow> effect ad t mv st st'"
| assign:
    "put t b (\<lambda>T. T\<lparr>tt_assignments := tt_assignments T @ [a]\<rparr>) st st'
     \<Longrightarrow> b = BumpTenant \<or> (\<exists>u. b = BumpUser u \<and> ra_user a = Some u \<and> ra_group a = None)
     \<Longrightarrow> ra_role a \<in> ro_id ` set (tab_roles t st)
     \<Longrightarrow> (\<And>n. n \<in> set (permissions_of_grant t (GrantRole (ra_role a)) st) \<Longrightarrow> may_hand_out ad n)
     \<Longrightarrow> effect ad t mv st st'"
| put_member:
    "put t (BumpUser u) (\<lambda>T. T\<lparr>tt_members := tt_members T @ [(t, g, u)]\<rparr>) st st'
     \<Longrightarrow> (\<And>n. n \<in> set (permissions_of_grant t (GrantGroup g) st) \<Longrightarrow> may_hand_out ad n)
     \<Longrightarrow> effect ad t mv st st'"
| put_composite:
    "put t BumpTenant (\<lambda>T. T\<lparr>tt_composites := tt_composites T @ [(t, p, c)]\<rparr>) st st'
     \<Longrightarrow> c \<in> ro_id ` set (tab_roles t st)
     \<Longrightarrow> (\<And>n. n \<in> set (permissions_of_grant t (GrantRole c) st) \<Longrightarrow> may_hand_out ad n)
     \<Longrightarrow> effect ad t mv st st'"
| put_grant:
    "put t BumpTenant (\<lambda>T. T\<lparr>tt_grants := tt_grants T @ [(t, r, i)]\<rparr>) st st'
     \<Longrightarrow> (\<And>rs p. find_by_identifier t ADMIN_AUDIENCE st = Some rs \<Longrightarrow> p \<in> set (tab_permissions t st)
          \<Longrightarrow> pm_id p = i \<Longrightarrow> pm_resource_server p = rs_id rs \<Longrightarrow> may_hand_out ad (pm_name p))
     \<Longrightarrow> effect ad t mv st st'"

lemma fresh_tables:
  assumes "fresh_id i st"
  shows "g \<in> set (tab_groups t st) \<Longrightarrow> gr_id g \<noteq> i \<and> gr_parent g \<noteq> Some i"
    "m \<in> set (tab_members t st) \<Longrightarrow> fst (snd m) \<noteq> i"
    "r \<in> set (tab_roles t st) \<Longrightarrow> ro_id r \<noteq> i"
    "a \<in> set (tab_assignments t st) \<Longrightarrow> ra_role a \<noteq> i \<and> ra_group a \<noteq> Some i"
    "c \<in> set (tab_composites t st) \<Longrightarrow> fst (snd c) \<noteq> i \<and> snd (snd c) \<noteq> i"
    "p \<in> set (tab_permissions t st) \<Longrightarrow> pm_id p \<noteq> i"
    "gt \<in> set (tab_grants t st) \<Longrightarrow> fst (snd gt) \<noteq> i \<and> snd (snd gt) \<noteq> i"
  using assms by (auto simp: fresh_id_def tab_defs)

lemma effect_elsewhere: "effect ad t mv st st' \<Longrightarrow> t' \<noteq> t \<Longrightarrow> tables t' st' = tables t' st"
  by (auto simp: put_def frame_def elim!: effect.cases)

text \<open>The graph after a request, in the ways the tables can change.\<close>

lemma graph_new_role:
  assumes "tables t st' = (tables t st)\<lparr>tt_roles := tab_roles t st @ [r]\<rparr>"
  shows "graph t st' = (graph t st)\<lparr>ag_roles := insert (ro_id r) (ag_roles (graph t st))\<rparr>"
  by (simp add: graph_def find_by_identifier_def tables_eqD [OF assms])

lemma graph_new_group:
  assumes "tables t st' = (tables t st)\<lparr>tt_groups := tab_groups t st @ [g]\<rparr>"
  shows "graph t st' = (graph t st)\<lparr>ag_groups := insert (gr_id g, gr_parent g) (ag_groups (graph t st))\<rparr>"
  by (simp add: graph_def find_by_identifier_def tables_eqD [OF assms])

lemma graph_assign:
  assumes "tables t st' = (tables t st)\<lparr>tt_assignments := tab_assignments t st @ [a]\<rparr>"
  shows "graph t st' = (graph t st)\<lparr>ag_assigned := insert (ra_role a, ra_user a, ra_group a) (ag_assigned (graph t st))\<rparr>"
  by (simp add: graph_def find_by_identifier_def tables_eqD [OF assms])

lemma graph_member:
  assumes "tables t st' = (tables t st)\<lparr>tt_members := tab_members t st @ [(t, g, u)]\<rparr>"
  shows "graph t st' = (graph t st)\<lparr>ag_members := insert (g, u) (ag_members (graph t st))\<rparr>"
  by (simp add: graph_def find_by_identifier_def tables_eqD [OF assms])

lemma graph_composite:
  assumes "tables t st' = (tables t st)\<lparr>tt_composites := tab_composites t st @ [(t, p, c)]\<rparr>"
  shows "graph t st' = (graph t st)\<lparr>ag_composites := insert (p, c) (ag_composites (graph t st))\<rparr>"
  by (simp add: graph_def find_by_identifier_def tables_eqD [OF assms])

lemma graph_grant:
  assumes "tables t st' = (tables t st)\<lparr>tt_grants := tab_grants t st @ [(t, r, i)]\<rparr>"
  shows "graph t st' = (graph t st)\<lparr>ag_granted := ag_granted (graph t st) \<union> {r} \<times>
     {pm_name p | p rs. find_by_identifier t ADMIN_AUDIENCE st = Some rs \<and> p \<in> set (tab_permissions t st)
        \<and> pm_id p = i \<and> pm_resource_server p = rs_id rs}\<rparr>"
proof -
  have "find_by_identifier t ADMIN_AUDIENCE st' = find_by_identifier t ADMIN_AUDIENCE st"
    by (simp add: find_by_identifier_def tables_eqD [OF assms])
  then show ?thesis by (auto simp: graph_def tables_eqD [OF assms]) metis+
qed

lemma graph_rename:
  assumes "tables t st' = (tables t st)\<lparr>tt_roles := map f (tab_roles t st)\<rparr>" "\<And>r. ro_id (f r) = ro_id r"
  shows "graph t st' = graph t st"
  using assms(2) by (simp add: graph_def find_by_identifier_def tables_eqD [OF assms(1)] image_image)

lemma graph_shrink:
  assumes "tables_le (tables t st') (tables t st)"
    and "find_by_identifier t ADMIN_AUDIENCE st' = find_by_identifier t ADMIN_AUDIENCE st"
  shows "graph_le (graph t st') (graph t st)"
  unfolding graph_le_def graph_def using assms by (simp add: tables_le_def image_mono) blast

lemma graph_new_permission:
  assumes "tables t st' = (tables t st)\<lparr>tt_permissions := tab_permissions t st @ [p]\<rparr>"
    and "\<And>rs. find_by_identifier t ADMIN_AUDIENCE st = Some rs \<Longrightarrow> rs_id rs \<noteq> pm_resource_server p"
  shows "graph t st' = graph t st"
proof -
  have "find_by_identifier t ADMIN_AUDIENCE st' = find_by_identifier t ADMIN_AUDIENCE st"
    by (simp add: find_by_identifier_def tables_eqD [OF assms(1)])
  then show ?thesis using assms(2) by (auto simp: graph_def tables_eqD [OF assms(1)]) metis+
qed

text \<open>Moving groups to the top level only takes from their members.\<close>

definition below :: "(uuid \<times> uuid option) set \<Rightarrow> (uuid \<times> uuid option) set \<Rightarrow> bool" where
  "below X Y = (\<forall>x\<in>X. \<exists>y\<in>Y. fst y = fst x \<and> (snd x = snd y \<or> snd x = None))"

lemma below_within:
  assumes "below (ag_groups a) (ag_groups b)" "below X Y"
  shows "below (within n (parent_rel a) X) (within n (parent_rel b) Y)"
  using assms(2)
proof (induction n arbitrary: X Y)
  case (Suc n)
  have "below (parent_rel a `` X) (parent_rel b `` Y)"
    using assms(1) Suc.prems by (fastforce simp: below_def parent_rel_def Image_def)
  from Suc.IH [OF this] Suc.prems show ?case by (fastforce simp: below_def)
qed simp

lemma below_lineage:
  assumes "below (ag_groups a) (ag_groups b)" "below X Y"
  shows "lineage a X \<subseteq> lineage b Y"
proof
  fix i assume "i \<in> lineage a X"
  then obtain x where x: "x \<in> within 64 (parent_rel a) X" "i = fst x" by (auto simp: lineage_def)
  then obtain y where "y \<in> within 64 (parent_rel b) Y" "fst y = fst x"
    using below_within [OF assms, of 64] unfolding below_def by blast
  then show "i \<in> lineage b Y" unfolding lineage_def x(2) by (metis imageI)
qed

lemma powers_to_top:
  assumes "tables t st' = (tables t st)\<lparr>tt_groups := map f (tab_groups t st)\<rparr>"
    and f: "\<And>g. gr_id (f g) = gr_id g \<and> (gr_parent (f g) = gr_parent g \<or> gr_parent (f g) = None)"
  shows "powers (graph t st') u \<subseteq> powers (graph t st) u"
proof -
  let ?a = "graph t st'" and ?b = "graph t st"
  have gr: "?a = ?b\<lparr>ag_groups := (\<lambda>g. (gr_id (f g), gr_parent (f g))) ` set (tab_groups t st)\<rparr>"
    by (simp add: graph_def find_by_identifier_def tables_eqD [OF assms(1)] image_image)
  have ab: "below (ag_groups ?a) (ag_groups ?b)"
    unfolding below_def gr by (simp add: graph_def) (metis f)
  then have "below (own_groups ?a u) (own_groups ?b u)"
    by (fastforce simp: below_def own_groups_def gr)
  then have "lineage ?a (own_groups ?a u) \<subseteq> lineage ?b (own_groups ?b u)"
    by (intro below_lineage [OF ab])
  then have "own_roles ?a u \<subseteq> own_roles ?b u"
    by (fastforce simp: own_roles_def roles_of_groups_def gr)
  moreover have "carried ?a = carried ?b" by (simp add: carried_def gr fun_eq_iff)
  ultimately show ?thesis by (simp add: powers_def carried_mono)
qed

theorem effect_bounds:
  assumes "effect ad t False st st'" "wf_access st" "n \<in> powers (graph t' st') u"
  shows "n \<in> powers (graph t' st) u \<or> t' = t \<and> may_hand_out ad n"
proof (cases "t' = t")
  case False
  then show ?thesis using assms(3) graph_cong [OF effect_elsewhere [OF assms(1)]] by simp
next
  case True
  have fk: "ra_role ` set (tab_assignments t st) \<subseteq> ag_roles (graph t st)"
    using assms(2) by (auto simp: wf_access_def wf_tables_def graph_def dest: spec [of _ t])
  let ?gr = "graph t st"
  have "powers (graph t st') u \<subseteq> powers ?gr u \<union> {n. may_hand_out ad n}"
    using assms(1)
  proof cases
    case (unchanged b)
    then have "graph t st' = ?gr" by (intro graph_cong) (simp add: put_def)
    then show ?thesis by simp
  next
    case (new_role r)
    have "(ro_id r, n) \<notin> ag_granted ?gr" for n using fresh_tables(7) [OF new_role(2)] by (auto simp: graph_def) blast
    then show ?thesis
      using new_role(1) powers_new_role [of "ro_id r" ?gr u] graph_new_role [of t st' st r] by (simp add: put_def)
  next
    case (new_group g)
    then have "graph t st' = ?gr\<lparr>ag_groups := insert (gr_id g, gr_parent g) (ag_groups ?gr)\<rparr>"
      by (intro graph_new_group) (simp add: put_def)
    moreover have "powers (?gr\<lparr>ag_groups := insert (gr_id g, gr_parent g) (ag_groups ?gr)\<rparr>) u = powers ?gr u"
      using fresh_tables(1,2) [OF new_group(2)] new_group(3)
      by (intro powers_new_group) (auto simp: graph_def dest!: fresh_tables(1,2) [OF new_group(2)])
    ultimately show ?thesis by simp
  next
    case (new_permission p)
    then have "graph t st' = ?gr" by (intro graph_new_permission) (auto simp: put_def)
    then show ?thesis by simp
  next
    case (rename_group b f)
    then have "powers (graph t st') u \<subseteq> powers ?gr u" by (intro powers_to_top [where f = f]) (auto simp: put_def)
    then show ?thesis by auto
  next
    case (move_group f)
    have "tables t st' = (tables t st)\<lparr>tt_groups := map f (tab_groups t st)\<rparr>" using move_group(1) by (simp add: put_def)
    then have "powers (graph t st') u \<subseteq> powers ?gr u" using move_group(2) by (intro powers_to_top [where f = f]) simp_all
    then show ?thesis by auto
  next
    case (rename_role f)
    then have "graph t st' = ?gr" by (intro graph_rename [where f = f]) (auto simp: put_def)
    then show ?thesis by simp
  next
    case shrink
    then show ?thesis using powers_le [OF graph_shrink] by blast
  next
    case (unassign_user u' a)
    then have eq: "tables t st' = (tables t st)\<lparr>tt_assignments := filter (\<lambda>x. x \<noteq> a) (tab_assignments t st)\<rparr>" by (simp add: put_def)
    have "graph_le (graph t st') ?gr"
      by (intro graph_shrink) (auto simp: tables_le_def find_by_identifier_def tables_eqD [OF eq])
    then show ?thesis using powers_le by blast
  next
    case (cut_member u' g)
    then have eq: "tables t st' = (tables t st)\<lparr>tt_members := filter (\<lambda>x. x \<noteq> (t, g, u')) (tab_members t st)\<rparr>" by (simp add: put_def)
    have "graph_le (graph t st') ?gr"
      by (intro graph_shrink) (auto simp: tables_le_def find_by_identifier_def tables_eqD [OF eq])
    then show ?thesis using powers_le by blast
  next
    case (assign b a)
    have "{ra_role a} \<subseteq> ag_roles ?gr" using assign(3) by (simp add: graph_def)
    then have "carried ?gr {ra_role a} \<subseteq> set (permissions_of_grant t (GrantRole (ra_role a)) st)"
      by (rule grant_covers) simp
    then have "carried ?gr {ra_role a} \<subseteq> {n. may_hand_out ad n}" using assign(4) by blast
    moreover have "graph t st' = ?gr\<lparr>ag_assigned := insert (ra_role a, ra_user a, ra_group a) (ag_assigned ?gr)\<rparr>"
      using assign(1) by (intro graph_assign) (simp add: put_def)
    ultimately show ?thesis using powers_assign [of "ra_role a" "ra_user a" "ra_group a" ?gr u] by (metis Un_mono order_refl order_trans)
  next
    case (put_member u' g)
    have "set (role_ids_of_group_lineage t g st) \<subseteq> ag_roles ?gr"
      using fk by (auto simp: role_ids_of_group_lineage_def)
    then have "carried ?gr (set (role_ids_of_group_lineage t g st)) \<subseteq> set (permissions_of_grant t (GrantGroup g) st)"
      by (rule grant_covers) simp
    then have "carried ?gr (set (role_ids_of_group_lineage t g st)) \<subseteq> {n. may_hand_out ad n}"
      using put_member(2) by blast
    moreover have "graph t st' = ?gr\<lparr>ag_members := insert (g, u') (ag_members ?gr)\<rparr>"
      using put_member(1) by (intro graph_member) (simp add: put_def)
    ultimately show ?thesis using powers_member [of g u' ?gr u] by (metis Un_mono lineage_roles order_refl order_trans)
  next
    case (put_composite p c)
    have "{c} \<subseteq> ag_roles ?gr" using put_composite(2) by (simp add: graph_def)
    then have "carried ?gr {c} \<subseteq> set (permissions_of_grant t (GrantRole c) st)"
      by (rule grant_covers) simp
    then have "carried ?gr {c} \<subseteq> {n. may_hand_out ad n}" using put_composite(3) by blast
    moreover have "graph t st' = ?gr\<lparr>ag_composites := insert (p, c) (ag_composites ?gr)\<rparr>"
      using put_composite(1) by (intro graph_composite) (simp add: put_def)
    ultimately show ?thesis using powers_composite [of p c ?gr u] by (metis Un_mono order_refl order_trans)
  next
    case (put_grant r i)
    let ?N = "{pm_name p | p rs. find_by_identifier t ADMIN_AUDIENCE st = Some rs \<and> p \<in> set (tab_permissions t st)
        \<and> pm_id p = i \<and> pm_resource_server p = rs_id rs}"
    have "graph t st' = ?gr\<lparr>ag_granted := ag_granted ?gr \<union> {r} \<times> ?N\<rparr>"
      using put_grant(1) by (intro graph_grant) (simp add: put_def)
    moreover have "?N \<subseteq> {n. may_hand_out ad n}" using put_grant(2) by auto
    ultimately show ?thesis using powers_grant [of ?gr r ?N u] by (metis (no_types, lifting) Un_mono order_refl order_trans)
  qed
  then show ?thesis using assms(3) True by auto
qed

lemma effect_wf:
  assumes "effect ad t mv st st'" "wf_access st"
  shows "wf_access st'"
  unfolding wf_access_def
proof
  fix t'
  have wf: "wf_tables (tables t st)" using assms(2) by (simp add: wf_access_def)
  show "wf_tables (tables t' st')"
  proof (cases "t' = t")
    case False
    then show ?thesis using assms(2) effect_elsewhere [OF assms(1)] by (simp add: wf_access_def)
  next
    case True
    from assms(1) have "wf_tables (tables t st')"
    proof cases
      case (new_permission p)
      then show ?thesis using wf fresh_tables(6) [OF new_permission(2), of _ t]
        by (fastforce simp: put_def wf_tables_def)
    next
      case (rename_role f)
      then show ?thesis using wf by (simp add: put_def wf_tables_def image_image)
    next
      case shrink
      have "ra_role a \<in> ro_id ` set (tab_roles t st')" if "a \<in> set (tab_assignments t st')" for a
        using shrink(4) [OF that] shrink(5) [OF that] by auto
      then show ?thesis using wf shrink(2) unfolding wf_tables_def tables_le_def by (simp add: subset_iff)
    qed (use wf in \<open>auto simp: put_def wf_tables_def\<close>)
    with True show ?thesis by simp
  qed
qed

section \<open>The cached resolution\<close>

definition tokens_ok :: "access_state \<Rightarrow> bool" where
  "tokens_ok st =
     ((\<forall>t. ax_tenant_version st t \<le> ax_last_token st) \<and> (\<forall>t u. ax_user_version st t u \<le> ax_last_token st)
      \<and> (\<forall>t v u sc. ax_role_cache st (t, v, u, sc) \<noteq> None \<or> ax_permission_cache st (t, v, u, sc) \<noteq> None
           \<longrightarrow> fst v \<le> ax_last_token st \<and> snd v \<le> ax_last_token st))"

definition answers_ok :: "access_state \<Rightarrow> bool" where
  "answers_ok st =
     (\<forall>t u sc. ax_role_cache st (t, access_version t u st, u, sc) \<in> {None, Some (effective_roles_of_user t u sc st)}
        \<and> (\<forall>names. ax_permission_cache st (t, access_version t u st, u, sc) = Some names
             \<longrightarrow> resolve_permissions t u sc st = Inr names))"

definition coherent :: "access_state \<Rightarrow> bool" where
  "coherent st = (tokens_ok st \<and> answers_ok st)"

definition same_answers :: "uuid \<Rightarrow> uuid \<Rightarrow> access_state \<Rightarrow> access_state \<Rightarrow> bool" where
  "same_answers t u st st' = (\<forall>sc. effective_roles_of_user t u sc st' = effective_roles_of_user t u sc st
     \<and> resolve_permissions t u sc st' = resolve_permissions t u sc st)"

lemma same_answers_tables: "tables t st' = tables t st \<Longrightarrow> same_answers t u st st'"
  unfolding same_answers_def using effective_roles_cong resolve_cong by blast

fun bumps :: "bump \<Rightarrow> uuid \<Rightarrow> bool" where
  "bumps NoBump u = False"
| "bumps BumpTenant u = True"
| "bumps (BumpUser u') u = (u' = u)"

lemma frame_same_version:
  "frame t b st st' \<Longrightarrow> t' \<noteq> t \<or> \<not> bumps b u \<Longrightarrow> access_version t' u st' = access_version t' u st"
  by (cases "t' = t"; cases b) (auto simp: frame_def access_version_def)

lemma frame_new_version:
  "frame t b st st' \<Longrightarrow> bumps b u \<Longrightarrow>
   ax_last_token st < fst (access_version t u st') \<or> ax_last_token st < snd (access_version t u st')"
  by (cases b) (auto simp: frame_def access_version_def)

lemma frame_tokens:
  assumes fr: "frame t b st st'" and ok: "tokens_ok st"
  shows "tokens_ok st'"
proof -
  have last: "ax_last_token st \<le> ax_last_token st'" using fr by (simp add: frame_def)
  have old: "ax_tenant_version st t' \<le> ax_last_token st'" "ax_user_version st t' u \<le> ax_last_token st'" for t' u
    using ok last order_trans unfolding tokens_ok_def by blast+
  have "ax_tenant_version st' t' \<le> ax_last_token st'" for t'
    using fr old(1) [of t'] by (cases "t' = t"; cases b) (auto simp: frame_def)
  moreover have "ax_user_version st' t' u \<le> ax_last_token st'" for t' u
  proof (cases "t' = t")
    case True
    then show ?thesis using fr old(2) [of t u] by (cases b) (auto simp: frame_def, metis)
  qed (use fr old(2) [of t' u] in \<open>auto simp: frame_def\<close>)
  moreover have "fst v \<le> ax_last_token st' \<and> snd v \<le> ax_last_token st'"
    if "ax_role_cache st' (t', v, u, sc) \<noteq> None \<or> ax_permission_cache st' (t', v, u, sc) \<noteq> None" for t' v u sc
    using that fr ok last unfolding tokens_ok_def frame_def by (metis order_trans)
  ultimately show ?thesis by (simp add: tokens_ok_def)
qed

lemma coherent_frame:
  assumes co: "coherent st" and fr: "frame t b st st'"
    and same: "\<And>u. \<not> bumps b u \<Longrightarrow> same_answers t u st st'"
  shows "coherent st'"
proof -
  have ok: "tokens_ok st" "answers_ok st" using co by (auto simp: coherent_def)
  have caches: "ax_role_cache st' = ax_role_cache st" "ax_permission_cache st' = ax_permission_cache st"
    using fr by (auto simp: frame_def)
  have "ax_role_cache st (t', access_version t' u st', u, sc) \<in> {None, Some (effective_roles_of_user t' u sc st')}
      \<and> (\<forall>names. ax_permission_cache st (t', access_version t' u st', u, sc) = Some names
           \<longrightarrow> resolve_permissions t' u sc st' = Inr names)" for t' u sc
  proof (cases "t' = t \<and> bumps b u")
    case True
    then have "ax_role_cache st (t', access_version t' u st', u, sc) = None"
        "ax_permission_cache st (t', access_version t' u st', u, sc) = None"
      using frame_new_version [OF fr, of u] ok(1) unfolding tokens_ok_def by (meson leD)+
    then show ?thesis by simp
  next
    case False
    then have "same_answers t' u st st'"
      using same fr by (cases "t' = t") (auto simp: frame_def intro: same_answers_tables)
    moreover have "access_version t' u st' = access_version t' u st"
      using False by (intro frame_same_version [OF fr]) blast
    ultimately show ?thesis using ok(2) by (simp add: answers_ok_def same_answers_def)
  qed
  then show ?thesis using frame_tokens [OF fr ok(1)] by (simp add: coherent_def answers_ok_def caches)
qed

text \<open>
  A change leaves a user's answers alone when it leaves alone the roles the user holds
  directly, the composites, the roles reached and the grants of the admin permissions.
\<close>

lemma same_answersI:
  assumes direct: "\<And>sc. direct_role_ids t u sc st' = direct_role_ids t u sc st"
    and comps: "tab_composites t st' = tab_composites t st"
    and roles: "\<And>sc. filter (\<lambda>r. ro_id r \<in> set (effective_role_ids t u sc st)) (tab_roles t st')
                  = filter (\<lambda>r. ro_id r \<in> set (effective_role_ids t u sc st)) (tab_roles t st)"
    and ident: "find_by_identifier t ADMIN_AUDIENCE st' = find_by_identifier t ADMIN_AUDIENCE st"
    and perms: "\<And>rs ids. find_by_identifier t ADMIN_AUDIENCE st = Some rs \<Longrightarrow>
                  permissions_for_roles t (rs_id rs) ids st' = permissions_for_roles t (rs_id rs) ids st"
  shows "same_answers t u st st'"
proof -
  have "child_roles t st' = child_roles t st" by (simp add: child_roles_def fun_eq_iff comps)
  then have "effective_role_ids t u sc st' = effective_role_ids t u sc st" for sc
    by (simp add: effective_role_ids_def direct)
  then have "effective_roles_of_user t u sc st' = effective_roles_of_user t u sc st" for sc
    by (simp add: effective_roles_of_user_def roles)
  then show ?thesis
    by (cases "find_by_identifier t ADMIN_AUDIENCE st")
      (auto simp: same_answers_def resolve_permissions_def ident perms Let_def)
qed

lemma direct_role_ids_cong:
  "tab_assignments t st' = tab_assignments t st \<Longrightarrow> user_group_pairs t u st' = user_group_pairs t u st \<Longrightarrow>
   direct_role_ids t u sc st' = direct_role_ids t u sc st"
  unfolding direct_role_ids_def by simp

lemma permissions_for_roles_cong:
  "tab_grants t st' = tab_grants t st \<Longrightarrow> tab_permissions t st' = tab_permissions t st \<Longrightarrow>
   permissions_for_roles t rs ids st' = permissions_for_roles t rs ids st"
  unfolding permissions_for_roles_def by (simp only:)

lemma user_group_pairs_cong:
  "tab_groups t st' = tab_groups t st \<Longrightarrow> tab_members t st' = tab_members t st \<Longrightarrow>
   user_group_pairs t u st' = user_group_pairs t u st"
  unfolding user_group_pairs_def parent_groups_def [abs_def] by (simp only:)

lemma within_Range: "within n R X \<subseteq> X \<union> Range R"
proof (induction n arbitrary: X)
  case (Suc n)
  have "within n R (R `` X) \<subseteq> R `` X \<union> Range R" by (rule Suc.IH)
  then show ?case by auto
qed simp

lemma new_role_same:
  assumes eq: "tables t st' = (tables t st)\<lparr>tt_roles := tab_roles t st @ [r]\<rparr>" and fresh: "fresh_id (ro_id r) st"
  shows "same_answers t u st st'"
proof (rule same_answersI)
  note eqs = tables_eqD [OF eq, simplified]
  fix sc
  have "ro_id r \<notin> set (direct_role_ids t u sc st)"
    by (auto simp: direct_role_ids_def dest: fresh_tables(4) [OF fresh])
  moreover have "ro_id r \<notin> Range (ag_composites (graph t st))"
    by (auto simp: graph_def dest: fresh_tables(5) [OF fresh])
  ultimately have "ro_id r \<notin> set (effective_role_ids t u sc st)"
    using within_Range [of 64 "ag_composites (graph t st)"] by (auto simp: effective_role_ids_within)
  then show "filter (\<lambda>r. ro_id r \<in> set (effective_role_ids t u sc st)) (tab_roles t st')
      = filter (\<lambda>r. ro_id r \<in> set (effective_role_ids t u sc st)) (tab_roles t st)"
    by (simp add: eqs)
  show "direct_role_ids t u sc st' = direct_role_ids t u sc st"
    by (intro direct_role_ids_cong user_group_pairs_cong) (simp_all add: eqs)
qed (auto simp: tables_eqD [OF eq] find_by_identifier_def intro!: permissions_for_roles_cong)

lemma same_answers_groups:
  assumes "tables t st' = (tables t st)\<lparr>tt_groups := gs\<rparr>"
    and "user_group_pairs t u st' = user_group_pairs t u st"
  shows "same_answers t u st st'"
proof (rule same_answersI)
  fix sc
  show "direct_role_ids t u sc st' = direct_role_ids t u sc st"
    using assms by (intro direct_role_ids_cong) (simp_all add: tables_eqD [OF assms(1)])
qed (auto simp: tables_eqD [OF assms(1)] find_by_identifier_def intro!: permissions_for_roles_cong)

lemma new_group_same:
  assumes eq: "tables t st' = (tables t st)\<lparr>tt_groups := tab_groups t st @ [g]\<rparr>" and fresh: "fresh_id (gr_id g) st"
  shows "same_answers t u st st'"
proof (rule same_answers_groups [OF eq])
  note eqs = tables_eqD [OF eq, simplified]
  let ?base = "[(gr_id g, gr_parent g). m \<leftarrow> tab_members t st, snd (snd m) = u,
                  g \<leftarrow> tab_groups t st, gr_id g = fst (snd m)]"
  have base: "[(gr_id g, gr_parent g). m \<leftarrow> tab_members t st', snd (snd m) = u,
                  g \<leftarrow> tab_groups t st', gr_id g = fst (snd m)] = ?base"
    unfolding eqs using fresh_tables(2) [OF fresh] by (intro arg_cong [where f = concat] map_cong) (auto dest: fresh_tables(2) [OF fresh])
  have "parent_groups t st' x = parent_groups t st x" if "x \<in> set (levels (parent_groups t st) 64 ?base)" for x
  proof -
    have "x \<in> ag_groups (graph t st)"
      using that within_Range [of 64 "parent_rel (graph t st)" "own_groups (graph t st) u"]
        user_group_pairs_within [of t u st] by (auto simp: user_group_pairs_def own_groups_def parent_rel_def)
    then have "snd x \<noteq> Some (gr_id g)" using fresh_tables(1) [OF fresh] by (auto simp: graph_def)
    then show ?thesis by (simp add: parent_groups_def eqs)
  qed
  then have "levels (parent_groups t st') 64 ?base = levels (parent_groups t st) 64 ?base" by (rule levels_cong)
  then show "user_group_pairs t u st' = user_group_pairs t u st" by (simp add: user_group_pairs_def base)
qed

lemma rename_group_same:
  assumes eq: "tables t st' = (tables t st)\<lparr>tt_groups := map f (tab_groups t st)\<rparr>"
    and f: "\<And>g. gr_id (f g) = gr_id g \<and> gr_parent (f g) = gr_parent g"
  shows "same_answers t u st st'"
proof (rule same_answers_groups [OF eq])
  have "parent_groups t st' = parent_groups t st"
    using f by (simp add: parent_groups_def fun_eq_iff tables_eqD [OF eq] comp_def cong: if_cong)
  moreover have "[(gr_id g, gr_parent g). g \<leftarrow> tab_groups t st', gr_id g = i]
      = [(gr_id g, gr_parent g). g \<leftarrow> tab_groups t st, gr_id g = i]" for i
    using f by (simp add: tables_eqD [OF eq] comp_def cong: if_cong)
  ultimately show "user_group_pairs t u st' = user_group_pairs t u st"
    unfolding user_group_pairs_def by (simp add: tables_eqD(2) [OF eq] cong: if_cong)
qed

lemma new_permission_same:
  assumes eq: "tables t st' = (tables t st)\<lparr>tt_permissions := tab_permissions t st @ [p]\<rparr>"
    and other: "\<And>rs. find_by_identifier t ADMIN_AUDIENCE st = Some rs \<Longrightarrow> rs_id rs \<noteq> pm_resource_server p"
  shows "same_answers t u st st'"
proof (rule same_answersI)
  fix rs ids
  assume "find_by_identifier t ADMIN_AUDIENCE st = Some rs"
  from other [OF this] show "permissions_for_roles t (rs_id rs) ids st' = permissions_for_roles t (rs_id rs) ids st"
    by (simp add: permissions_for_roles_def tables_eqD [OF eq] cong: if_cong)
next
  fix sc
  show "direct_role_ids t u sc st' = direct_role_ids t u sc st"
    by (intro direct_role_ids_cong user_group_pairs_cong) (simp_all add: tables_eqD [OF eq])
qed (simp_all add: tables_eqD [OF eq] find_by_identifier_def)

lemma assignments_same:
  assumes eq: "tables t st' = (tables t st)\<lparr>tt_assignments := as\<rparr>"
    and direct: "\<And>sc. direct_role_ids t u sc st' = direct_role_ids t u sc st"
  shows "same_answers t u st st'"
  by (rule same_answersI [OF direct])
    (auto simp: tables_eqD [OF eq] find_by_identifier_def intro!: permissions_for_roles_cong)

lemma members_same:
  assumes eq: "tables t st' = (tables t st)\<lparr>tt_members := ms\<rparr>"
    and mine: "filter (\<lambda>m. snd (snd m) = u) ms = filter (\<lambda>m. snd (snd m) = u) (tab_members t st)"
  shows "same_answers t u st st'"
proof -
  have own: "concat (map (\<lambda>m. if snd (snd m) = u then h m else []) xs) = concat (map h (filter (\<lambda>m. snd (snd m) = u) xs))"
    for h :: "uuid \<times> uuid \<times> uuid \<Rightarrow> 'a list" and xs by (induction xs) auto
  have "parent_groups t st' = parent_groups t st"
    by (simp add: parent_groups_def fun_eq_iff tables_eqD [OF eq])
  then have "user_group_pairs t u st' = user_group_pairs t u st"
    by (simp add: user_group_pairs_def own mine tables_eqD [OF eq])
  then have "direct_role_ids t u sc st' = direct_role_ids t u sc st" for sc
    by (intro direct_role_ids_cong) (simp_all add: tables_eqD [OF eq])
  then show ?thesis
    by (rule same_answersI) (auto simp: tables_eqD [OF eq] find_by_identifier_def intro!: permissions_for_roles_cong)
qed

lemma concat_map_filter_nil: "(\<And>x. x \<in> set xs \<Longrightarrow> \<not> P x \<Longrightarrow> h x = []) \<Longrightarrow> concat (map h (filter P xs)) = concat (map h xs)"
  by (induction xs) auto

lemma direct_other_user:
  assumes eq: "tables t st' = (tables t st)\<lparr>tt_assignments := as\<rparr>"
    and mine: "\<And>h :: role_assignment \<Rightarrow> uuid list. h a = [] \<Longrightarrow> concat (map h as) = concat (map h (tab_assignments t st))"
    and a: "ra_user a = Some u'" "ra_group a = None" "u' \<noteq> u"
  shows "direct_role_ids t u sc st' = direct_role_ids t u sc (st::access_state)"
proof -
  have "user_group_pairs t u st' = user_group_pairs t u st"
    by (rule user_group_pairs_cong) (simp_all add: tables_eqD [OF eq])
  moreover have "concat (map (\<lambda>x. if ra_user x = Some u then if scope_counts sc (ra_org x) then [ra_role x] else [] else []) as)
      = concat (map (\<lambda>x. if ra_user x = Some u then if scope_counts sc (ra_org x) then [ra_role x] else [] else []) (tab_assignments t st))"
    by (rule mine) (use a in simp)
  moreover have "concat (map (\<lambda>x. concat (map (\<lambda>g. if ra_group x = Some (fst g) then if scope_counts sc (ra_org x) then [ra_role x] else [] else [])
        (user_group_pairs t u st))) as)
      = concat (map (\<lambda>x. concat (map (\<lambda>g. if ra_group x = Some (fst g) then if scope_counts sc (ra_org x) then [ra_role x] else [] else [])
        (user_group_pairs t u st))) (tab_assignments t st))"
    by (rule mine) (use a in simp)
  ultimately show ?thesis by (simp add: direct_role_ids_def tables_eqD [OF eq])
qed

lemma put_coherent:
  assumes "coherent st" "put t b f st st'"
    and "\<And>u. \<not> bumps b u \<Longrightarrow> tables t st' = f (tables t st) \<Longrightarrow> same_answers t u st st'"
  shows "coherent st'"
proof -
  from assms(2) have fr: "frame t b st st'" and eq: "tables t st' = f (tables t st)" by (simp_all add: put_def)
  show ?thesis by (rule coherent_frame [OF assms(1) fr]) (rule assms(3) [OF _ eq])
qed

lemma effect_coherent:
  assumes "effect ad t mv st st'" and co: "coherent st"
  shows "coherent st'"
  using assms(1)
proof cases
  case (unchanged b)
  show ?thesis by (rule put_coherent [OF co unchanged]) (rule same_answers_tables, simp)
next
  case (new_role r)
  show ?thesis by (rule put_coherent [OF co new_role(1)]) (rule new_role_same [OF _ new_role(2)], simp)
next
  case (new_group g)
  show ?thesis by (rule put_coherent [OF co new_group(1)]) (rule new_group_same [OF _ new_group(2)], simp)
next
  case (new_permission p)
  show ?thesis by (rule put_coherent [OF co new_permission(1)]) (rule new_permission_same [OF _ new_permission(3)], simp)
next
  case (rename_group b f)
  show ?thesis by (rule put_coherent [OF co rename_group(1)]) (rule rename_group_same [OF _ rename_group(2)], simp)
next
  case (move_group f)
  show ?thesis by (rule put_coherent [OF co move_group(1)]) simp
next
  case (rename_role f)
  show ?thesis by (rule put_coherent [OF co rename_role(1)]) simp
next
  case shrink
  show ?thesis by (rule coherent_frame [OF co shrink(1)]) simp
next
  case (unassign_user u a)
  have "same_answers t u' st st'"
    if "u \<noteq> u'" and eq: "tables t st' = (tables t st)\<lparr>tt_assignments := filter (\<lambda>x. x \<noteq> a) (tab_assignments t st)\<rparr>" for u'
    by (rule assignments_same [OF eq], rule direct_other_user [OF eq _ unassign_user(2,3) that(1)])
      (rule concat_map_filter_nil, simp)
  then show ?thesis by (intro put_coherent [OF co unassign_user(1)]) simp
next
  case (cut_member u g)
  have "same_answers t u' st st'"
    if "u \<noteq> u'" and eq: "tables t st' = (tables t st)\<lparr>tt_members := filter (\<lambda>x. x \<noteq> (t, g, u)) (tab_members t st)\<rparr>" for u'
    by (rule members_same [OF eq]) (use that(1) in \<open>auto intro!: filter_cong\<close>)
  then show ?thesis by (intro put_coherent [OF co cut_member]) simp
next
  case (put_member u g)
  have "same_answers t u' st st'"
    if "u \<noteq> u'" and eq: "tables t st' = (tables t st)\<lparr>tt_members := tab_members t st @ [(t, g, u)]\<rparr>" for u'
    by (rule members_same [OF eq]) (use that(1) in simp)
  then show ?thesis by (intro put_coherent [OF co put_member(1)]) simp
next
  case (assign b a)
  have "same_answers t u' st st'"
    if no: "\<not> bumps b u'" and eq: "tables t st' = (tables t st)\<lparr>tt_assignments := tab_assignments t st @ [a]\<rparr>" for u'
  proof -
    obtain u where u: "ra_user a = Some u" "ra_group a = None" "u \<noteq> u'" using assign(2) no by auto
    show ?thesis by (rule assignments_same [OF eq], rule direct_other_user [OF eq _ u]) simp
  qed
  then show ?thesis by (intro put_coherent [OF co assign(1)]) simp
next
  case (put_composite p c)
  show ?thesis by (rule put_coherent [OF co put_composite(1)]) simp
next
  case (put_grant r i)
  show ?thesis by (rule put_coherent [OF co put_grant(1)]) simp
qed

end
