(* ===== verification/Access_Rules.thy ===== *)
theory Access_Rules
  imports Access_Graph
begin

text \<open>
  Every admin request is one of the effects of \<open>Access_Graph\<close>, so that what holds of them holds of
  any run of requests, cached lookups, lost cache entries and expired version tokens: no
  permission appears that no administrator held, the cached permissions are those of the
  tables, an administrator of one organization changes nothing outside it. The places where
  the code does otherwise are theorems too: moving a group, renaming a group, leaving an
  organization.
\<close>

section \<open>Services\<close>

lemma filter_tenant_drop:
  "t' \<noteq> t \<Longrightarrow> filter (\<lambda>x. (k x = t \<longrightarrow> P x) \<and> k x = t') xs = filter (\<lambda>x. k x = t') xs"
  by (induction xs) auto

lemma filter_tenant_other:
  "k y \<noteq> t' \<Longrightarrow> filter (\<lambda>x. x \<noteq> y \<and> k x = t') xs = filter (\<lambda>x. k x = t') xs"
  by (induction xs) auto

lemma filter_tenant_other':
  "k y \<noteq> t' \<Longrightarrow> filter (\<lambda>x. k x = t' \<and> x \<noteq> y) xs = filter (\<lambda>x. k x = t') xs"
  by (induction xs) auto

lemma filter_absent: "y \<notin> set xs \<Longrightarrow> filter (\<lambda>x. x \<noteq> y) xs = xs"
  by (induction xs) auto

lemma filter_tenant_map:
  "t' \<noteq> t \<Longrightarrow> (\<And>x. k (f x) = k x) \<Longrightarrow>
   filter (\<lambda>x. k x = t') (map (\<lambda>x. if k x = t \<and> P x then f x else x) xs) = filter (\<lambda>x. k x = t') xs"
  by (induction xs) auto

lemma filter_tenant_mapped:
  "(\<And>x. k (f x) = k x) \<Longrightarrow>
   filter (\<lambda>x. k x = t) (map (\<lambda>x. if k x = t \<and> P x then f x else x) xs)
   = map (\<lambda>x. if P x then f x else x) (filter (\<lambda>x. k x = t) xs)"
  by (induction xs) auto

lemmas version_defs = emit_event_def bump_roles_version_def bump_user_access_def bump_one_user_def
lemmas put_defs = put_def frame_def tables_def tab_defs version_defs
lemmas tenant_filters = filter_tenant_drop filter_tenant_other filter_tenant_map filter_tenant_mapped

lemma roles_create_effect:
  assumes "roles_create t a i b st = (r, st')" "fresh_id i st"
  shows "effect ad t mv st st'"
proof (cases "st' = st")
  case True
  then show ?thesis by (auto intro!: effect.unchanged [of t NoBump] simp: put_defs)
next
  case False
  let ?row = "\<lambda>n. \<lparr>ro_id = i, ro_client = nr_client b, ro_name = n, ro_tenant = t,
                    ro_description = nr_description b, ro_built_in = False\<rparr>"
  obtain n where "st' = emit_event t a (RoleCreated i) (st\<lparr>ax_roles := ax_roles st @ [?row n]\<rparr>)"
    using assms(1) False by (auto simp: roles_create_def Let_def split: sum.splits if_splits)
  then show ?thesis using assms(2) by (intro effect.new_role [of t "?row n"]) (auto simp: put_defs)
qed

lemma roles_update_effect:
  assumes "roles_update t a i b st = (r, st')"
  shows "effect ad t mv st st'"
proof (cases "st' = st")
  case True
  then show ?thesis by (auto intro!: effect.unchanged [of t NoBump] simp: put_defs)
next
  case False
  then obtain patch where "st' = emit_event t a (RoleUpdated i) (bump_roles_version t
      (st\<lparr>ax_roles := map (\<lambda>x. if ro_tenant x = t \<and> ro_id x = i then patch_role patch x else x) (ax_roles st)\<rparr>))"
    using assms by (auto simp: roles_update_def Let_def split: sum.splits if_splits option.splits)
  then show ?thesis
    by (intro effect.rename_role [of t "\<lambda>x. if ro_id x = i then patch_role patch x else x"])
      (auto simp: put_defs filter_tenant_map filter_tenant_mapped patch_role_def)
qed

lemma roles_delete_effect:
  assumes "roles_delete t a i st = (r, st')" "wf_access st"
  shows "effect ad t mv st st'"
proof (cases "st' = st")
  case True
  then show ?thesis by (auto intro!: effect.unchanged [of t NoBump] simp: put_defs)
next
  case False
  then have st': "st' = emit_event t a (RoleDeleted i) (bump_roles_version t (drop_role t i st))"
    using assms by (auto simp: roles_delete_def split: sum.splits)
  have fk: "x \<in> set (tab_assignments t st) \<Longrightarrow> ra_role x \<in> ro_id ` set (tab_roles t st)" for x
    using assms(2) by (auto simp: wf_access_def wf_tables_def)
  show ?thesis
  proof (rule effect.shrink)
    show "frame t BumpTenant st st'"
      by (auto simp: st' frame_def tables_def tab_defs version_defs drop_role_def filter_tenant_drop)
  qed (use fk in \<open>auto simp: st' tables_le_def tab_defs version_defs drop_role_def find_by_identifier_def\<close>)
qed

lemma no_change: "effect ad t mv st st"
  by (auto intro!: effect.unchanged [of t NoBump] simp: put_defs)

lemma assignment_fields [simp]:
  "ra_tenant (assignment_of t r p org) = t" "ra_role (assignment_of t r p org) = r"
  "ra_user (assignment_of t r p org) = fst (principal_ids p)" "ra_group (assignment_of t r p org) = snd (principal_ids p)"
  "ra_org (assignment_of t r p org) = org"
  by (simp_all add: assignment_of_def)

lemma assign_effect:
  assumes "find_role t r st \<noteq> None"
    and "\<And>n. n \<in> set (permissions_of_grant t (GrantRole r) st) \<Longrightarrow> may_hand_out ad n"
  shows "effect ad t mv st (after_assign t a r p (repo_assign t r p org st))"
proof (cases "assignment_of t r p org \<in> set (ax_assignments st)")
  case True
  then show ?thesis by (simp add: after_assign_def repo_assign_def no_change)
next
  case False
  have "r \<in> ro_id ` set (tab_roles t st)"
    using assms(1) by (auto simp: find_role_def find_None_iff)
  with False assms(2) show ?thesis
    by (cases p; intro effect.assign [of t "case p of PUser u \<Rightarrow> BumpUser u | PGroup g \<Rightarrow> BumpTenant" "assignment_of t r p org"])
      (auto simp: after_assign_def repo_assign_def put_defs)
qed

lemma unassign_effect:
  assumes "wf_access st"
  shows "effect ad t mv st (after_unassign t a r p (repo_unassign t r p org st))"
proof (cases "assignment_of t r p org \<in> set (ax_assignments st)")
  case False
  then show ?thesis by (simp add: after_unassign_def repo_unassign_def no_change filter_absent)
next
  case True
  have fk: "x \<in> set (tab_assignments t st) \<Longrightarrow> ra_role x \<in> ro_id ` set (tab_roles t st)" for x
    using assms by (auto simp: wf_access_def wf_tables_def)
  show ?thesis
  proof (cases p)
    case (PUser u)
    with True show ?thesis
      by (intro effect.unassign_user [of t u "assignment_of t r p org"])
        (auto simp: after_unassign_def repo_unassign_def put_defs filter_tenant_other filter_tenant_other' conj_commute)
  next
    case (PGroup g)
    with True show ?thesis using fk
      by (intro effect.shrink)
        (auto simp: after_unassign_def repo_unassign_def frame_def tables_def tab_defs version_defs
          filter_tenant_other tables_le_def find_by_identifier_def)
  qed
qed

lemma roles_assign_effect:
  assumes "roles_assign t a r p st = (res, st')"
    and "\<And>n. n \<in> set (permissions_of_grant t (GrantRole r) st) \<Longrightarrow> may_hand_out ad n"
  shows "effect ad t mv st st'"
  using assms by (auto simp: roles_assign_def no_change intro!: assign_effect split: if_splits option.splits)

lemma roles_unassign_effect:
  "roles_unassign t a r p st = (res, st') \<Longrightarrow> wf_access st \<Longrightarrow> effect ad t mv st st'"
  by (auto simp: roles_unassign_def intro!: unassign_effect)

lemma orgs_assign_effect:
  assumes "orgs_assign_role t a org r p st = (res, st')"
    and "\<And>n. n \<in> set (permissions_of_grant t (GrantRole r) st) \<Longrightarrow> may_hand_out ad n"
  shows "effect ad t mv st st'"
  using assms by (auto simp: orgs_assign_role_def no_change intro!: assign_effect split: if_splits option.splits)

lemma orgs_unassign_effect:
  "orgs_unassign_role t a org r p st = (res, st') \<Longrightarrow> wf_access st \<Longrightarrow> effect ad t mv st st'"
  by (auto simp: orgs_unassign_role_def intro!: unassign_effect)

lemma add_composite_effect:
  assumes "add_composite t a p c st = (r, st')"
    and "\<And>n. n \<in> set (permissions_of_grant t (GrantRole c) st) \<Longrightarrow> may_hand_out ad n"
  shows "effect ad t mv st st'"
proof (cases "st' = st")
  case True
  then show ?thesis by (simp add: no_change)
next
  case False
  then have "find_role t c st \<noteq> None" and st': "st' = emit_event t a (RoleCompositeAdded p c)
      (bump_roles_version t (st\<lparr>ax_composites := ax_composites st @ [(t, p, c)]\<rparr>))"
    using assms(1) by (auto simp: add_composite_def split: if_splits)
  then have "c \<in> ro_id ` set (tab_roles t st)" by (auto simp: find_role_def find_None_iff)
  then show ?thesis using assms(2) by (intro effect.put_composite [of t p c]) (auto simp: st' put_defs)
qed

text \<open>A change that only takes rows away, with the version bump behind it.\<close>

lemma shrink_effect:
  assumes "frame t BumpTenant st st'" "tables_le (tables t st') (tables t st)" "wf_access st"
    and "tab_resources t st' = tab_resources t st" "tab_roles t st' = tab_roles t st"
  shows "effect ad t mv st st'"
proof (rule effect.shrink [OF assms(1,2)])
  show "find_by_identifier t ADMIN_AUDIENCE st' = find_by_identifier t ADMIN_AUDIENCE st"
    by (simp add: find_by_identifier_def assms(4))
  fix a assume "a \<in> set (tab_assignments t st')"
  then have "a \<in> set (tab_assignments t st)" using assms(2) by (auto simp: tables_le_def)
  then show "ra_role a \<in> ro_id ` set (tab_roles t st)"
    using assms(3) by (auto simp: wf_access_def wf_tables_def)
qed (simp add: assms(5))

lemma remove_composite_effect:
  assumes "remove_composite t a p c st = (r, st')" "wf_access st"
  shows "effect ad t mv st st'"
proof (cases "st' = st")
  case False
  then have "st' = emit_event t a (RoleCompositeRemoved p c)
      (bump_roles_version t (st\<lparr>ax_composites := filter (\<lambda>x. x \<noteq> (t, p, c)) (ax_composites st)\<rparr>))"
    using assms(1) by (auto simp: remove_composite_def split: if_splits)
  then show ?thesis using assms(2)
    by (intro shrink_effect) (auto simp: frame_def tables_def tab_defs version_defs filter_tenant_other tables_le_def)
qed (simp add: no_change)

lemma groups_create_effect:
  assumes "groups_create t a i b st = (r, st')" "fresh_id i st"
  shows "effect ad t mv st st'"
proof (cases "st' = st")
  case False
  let ?row = "\<lambda>n. \<lparr>gr_id = i, gr_parent = ng_parent b, gr_name = n, gr_tenant = t,
                gr_description = ng_description b,
                gr_attributes = (case ng_attributes b of Some a \<Rightarrow> a | None \<Rightarrow> JObj [])\<rparr>"
  obtain n where "st' = emit_event t a (GroupCreated i) (st\<lparr>ax_groups := ax_groups st @ [?row n]\<rparr>)"
      "case ng_parent b of Some p \<Rightarrow> find_group t p st \<noteq> None | None \<Rightarrow> True"
    using assms(1) False by (auto simp: groups_create_def Let_def split: sum.splits if_splits option.splits)
  moreover from this(2) have "ng_parent b \<noteq> Some i"
    by (auto simp: find_group_def dest!: find_SomeD fresh_tables(1) [OF assms(2)])
  ultimately show ?thesis using assms(2) by (intro effect.new_group [of t "?row n"]) (auto simp: put_defs)
qed (simp add: no_change)

definition moves :: "group_update \<Rightarrow> bool" where
  "moves patch = (case gp_parent patch of Some (Some _) \<Rightarrow> True | _ \<Rightarrow> False)"

lemma groups_update_effect:
  assumes "groups_update t a i b st = (r, st')"
  shows "effect ad t (moves b) st st'"
proof (cases "st' = st")
  case False
  then obtain patch where st': "st' = emit_event t a (GroupUpdated i)
      (if gp_parent b \<noteq> None then bump_roles_version t (patch_groups t i patch st) else patch_groups t i patch st)"
    and same: "gp_parent patch = gp_parent b"
    using assms by (auto simp: groups_update_def Let_def split: sum.splits if_splits option.splits)
  let ?f = "\<lambda>g. if gr_id g = i then patch_group patch g else g"
  have [simp]: "gr_tenant (patch_group patch g) = gr_tenant g" "gr_id (patch_group patch g) = gr_id g" for g
    by (simp_all add: patch_group_def)
  show ?thesis
  proof (cases "gp_parent b")
    case None
    then show ?thesis
      by (intro effect.rename_group [of t NoBump ?f])
        (auto simp: st' same put_defs patch_groups_def filter_tenant_map filter_tenant_mapped, simp add: patch_group_def same)
  next
    case (Some p)
    then show ?thesis
      by (intro effect.move_group [of t ?f])
        (auto simp: st' same put_defs patch_groups_def filter_tenant_map filter_tenant_mapped,
          auto simp: patch_group_def same moves_def split: option.splits)
  qed
qed (simp add: no_change)

lemma groups_delete_effect:
  assumes "groups_delete t a i st = (r, st')" "wf_access st"
  shows "effect ad t mv st st'"
proof (cases "st' = st")
  case False
  then have "st' = emit_event t a (GroupDeleted i) (bump_roles_version t (drop_groups t (doomed_groups t i st) st))"
    using assms(1) by (auto simp: groups_delete_def split: if_splits)
  then show ?thesis using assms(2)
    by (intro shrink_effect)
      (auto simp: frame_def tables_def tab_defs version_defs drop_groups_def filter_tenant_drop tables_le_def)
qed (simp add: no_change)

lemma groups_add_member_effect:
  assumes "groups_add_member t a g u st = (r, st')"
    and "\<And>n. n \<in> set (permissions_of_grant t (GrantGroup g) st) \<Longrightarrow> may_hand_out ad n"
  shows "effect ad t mv st st'"
proof (cases "st' = st")
  case False
  then have "st' = emit_event t a (GroupMemberAdded g u) (bump_user_access t [u] (st\<lparr>ax_members := ax_members st @ [(t, g, u)]\<rparr>))"
    using assms(1) by (auto simp: groups_add_member_def split: if_splits)
  then show ?thesis using assms(2) by (intro effect.put_member [of t u g]) (auto simp: put_defs)
qed (simp add: no_change)

lemma groups_remove_member_effect:
  assumes "groups_remove_member t a g u st = (r, st')"
  shows "effect ad t mv st st'"
proof (cases "st' = st")
  case False
  then have "st' = emit_event t a (GroupMemberRemoved g u)
      (bump_user_access t [u] (st\<lparr>ax_members := filter (\<lambda>m. m \<noteq> (t, g, u)) (ax_members st)\<rparr>))"
    using assms(1) by (auto simp: groups_remove_member_def split: if_splits)
  then show ?thesis
    by (intro effect.cut_member [of t u g]) (auto simp: put_defs filter_tenant_other filter_tenant_other' conj_commute)
qed (simp add: no_change)

lemma delete_permission_effect:
  assumes "delete_permission t a rs i st = (r, st')" "wf_access st"
  shows "effect ad t mv st st'"
proof (cases "st' = st")
  case False
  then have "st' = emit_event t a (PermissionDeleted rs i) (bump_roles_version t (drop_permissions t (\<lambda>p. pm_id p = i) st))"
    using assms(1) by (auto simp: delete_permission_def split: if_splits sum.splits)
  then show ?thesis using assms(2)
    by (intro shrink_effect)
      (auto simp: frame_def tables_def tab_defs version_defs drop_permissions_def filter_tenant_drop tables_le_def)
qed (simp add: no_change)

text \<open>Deleting a server that is not built in leaves the admin server where the queries find it.\<close>

lemma resources_delete_effect:
  assumes "resources_delete t a i st = (r, st')" "wf_access st"
  shows "effect ad t mv st st'"
proof (cases "st' = st")
  case False
  obtain cur where cur: "find_resource t i st = Some cur" "\<not> rs_built_in cur"
    and st': "st' = emit_event t a (ResourceServerDeleted i) (bump_roles_version t
      ((drop_permissions t (\<lambda>p. pm_resource_server p = i) st)\<lparr>ax_resources := filter (\<lambda>r. \<not> (rs_tenant r = t \<and> rs_id r = i)) (ax_resources st)\<rparr>))"
    using assms(1) False
    by (auto simp: resources_delete_def resources_get_def Let_def drop_permissions_def split: if_splits sum.splits option.splits)
  have wf: "wf_tables (tables t st)" using assms(2) by (simp add: wf_access_def)
  have cur_in: "cur \<in> set (tab_resources t st)" "rs_id cur = i"
    using find_SomeD [of _ _ cur] cur(1) by (auto simp: find_resource_def)
  have rows: "tab_resources t st' = filter (\<lambda>r. rs_id r \<noteq> i) (tab_resources t st)"
    by (auto simp: st' tab_defs version_defs drop_permissions_def intro!: filter_cong)
  have gone: "rs_identifier x \<noteq> ADMIN_AUDIENCE" if "x \<in> set (tab_resources t st)" "rs_id x = i" for x
    using that wf cur(2) cur_in unfolding wf_tables_def by (metis tables_sel(6))
  have "find (\<lambda>x. rs_identifier x = ADMIN_AUDIENCE) (filter (\<lambda>r. rs_id r \<noteq> i) xs) = find (\<lambda>x. rs_identifier x = ADMIN_AUDIENCE) xs"
    if "set xs \<subseteq> set (tab_resources t st)" for xs
    using that gone by (induction xs) auto
  then have "find_by_identifier t ADMIN_AUDIENCE st' = find_by_identifier t ADMIN_AUDIENCE st"
    by (simp add: find_by_identifier_def rows)
  then show ?thesis using wf
    by (intro effect.shrink)
      (auto simp: st' frame_def tables_def tab_defs version_defs drop_permissions_def filter_tenant_drop tables_le_def wf_tables_def)
qed (simp add: no_change)

lemma create_permission_effect:
  assumes "create_permission t a i rs name d st = (r, st')" "fresh_id i st" "wf_access st"
  shows "effect ad t mv st st'"
proof (cases "st' = st")
  case False
  let ?row = "\<lambda>n. \<lparr>pm_id = i, pm_tenant = t, pm_resource_server = rs, pm_name = n, pm_description = d\<rparr>"
  obtain n server where st': "st' = emit_event t a (PermissionCreated rs i) (st\<lparr>ax_permissions := ax_permissions st @ [?row n]\<rparr>)"
    and server: "find_resource t rs st = Some server" "\<not> rs_built_in server"
    using assms(1) False by (auto simp: create_permission_def resources_get_def Let_def split: sum.splits if_splits option.splits)
  have wf: "wf_tables (tables t st)" using assms(3) by (simp add: wf_access_def)
  have "rs_id admin \<noteq> rs" if "find_by_identifier t ADMIN_AUDIENCE st = Some admin" for admin
  proof
    assume "rs_id admin = rs"
    moreover have "admin \<in> set (tab_resources t st)" "rs_identifier admin = ADMIN_AUDIENCE"
      "server \<in> set (tab_resources t st)" "rs_id server = rs"
      using that server(1) by (auto simp: find_by_identifier_def find_resource_def dest: find_SomeD)
    ultimately show False using wf server(2) unfolding wf_tables_def by (metis tables_sel(6))
  qed
  then show ?thesis using assms(2) by (intro effect.new_permission [of t "?row n"]) (auto simp: st' put_defs)
qed (simp add: no_change)

lemma revoke_permission_effect:
  assumes "revoke_permission t a r i st = (res, st')" "wf_access st"
  shows "effect ad t mv st st'"
proof (cases "st' = st")
  case False
  then have "st' = emit_event t a (PermissionRevoked r i)
      (bump_roles_version t (st\<lparr>ax_grants := filter (\<lambda>g. g \<noteq> (t, r, i)) (ax_grants st)\<rparr>))"
    using assms(1) by (auto simp: revoke_permission_def split: if_splits sum.splits)
  then show ?thesis using assms(2)
    by (intro shrink_effect) (auto simp: frame_def tables_def tab_defs version_defs filter_tenant_other tables_le_def)
qed (simp add: no_change)

lemma grant_permission_effect:
  assumes "grant_permission t a r i st = (res, st')"
    and "\<And>rs p. find_by_identifier t ADMIN_AUDIENCE st = Some rs \<Longrightarrow> p \<in> set (tab_permissions t st)
          \<Longrightarrow> pm_id p = i \<Longrightarrow> pm_resource_server p = rs_id rs \<Longrightarrow> may_hand_out ad (pm_name p)"
  shows "effect ad t mv st st'"
proof (cases "st' = st")
  case False
  then have "st' = emit_event t a (PermissionGranted r i) (bump_roles_version t (st\<lparr>ax_grants := ax_grants st @ [(t, r, i)]\<rparr>))"
    using assms(1) by (auto simp: grant_permission_def split: if_splits sum.splits)
  then show ?thesis using assms(2) by (intro effect.put_grant [of t r i]) (auto simp: put_defs)
qed (simp add: no_change)

lemma orgs_delete_effect:
  assumes "orgs_delete t a org st = (r, st')" "wf_access st"
  shows "effect ad t mv st st'"
proof (cases "(t, org) \<in> set (ax_orgs st)")
  case False
  then have "st' = st\<lparr>ax_users := clear_primary_org t org (ax_users st)\<rparr>"
    using assms(1) by (auto simp: orgs_delete_def Let_def)
  then show ?thesis by (intro effect.unchanged [of t NoBump]) (auto simp: put_defs)
next
  case True
  then have "st' = emit_event t a (OrganizationDeleted org) (bump_roles_version t
      (st\<lparr>ax_users := clear_primary_org t org (ax_users st), ax_orgs := filter (\<lambda>og. og \<noteq> (t, org)) (ax_orgs st),
          ax_org_members := filter (\<lambda>m. \<not> (fst m = t \<and> fst (snd m) = org)) (ax_org_members st),
          ax_assignments := filter (\<lambda>a. \<not> (ra_tenant a = t \<and> ra_org a = Some org)) (ax_assignments st)\<rparr>))"
    using assms(1) by (auto simp: orgs_delete_def Let_def)
  then show ?thesis using assms(2)
    by (intro shrink_effect) (auto simp: frame_def tables_def tab_defs version_defs filter_tenant_drop tables_le_def)
qed

lemma org_members_effect:
  "orgs_add_member t a org u st = (r, st') \<Longrightarrow> effect ad t mv st st'"
  "orgs_remove_member t a org u st = (r, st') \<Longrightarrow> effect ad t mv st st'"
  by (auto simp: orgs_add_member_def orgs_remove_member_def no_change intro!: effect.unchanged [of t "BumpUser u"]
      simp: put_defs split: if_splits)

section \<open>Requests\<close>

fun op_fresh :: "admin_op \<Rightarrow> access_state \<Rightarrow> bool" where
  "op_fresh (CreateRole i b) st = fresh_id i st"
| "op_fresh (CreateGroup i b) st = fresh_id i st"
| "op_fresh (CreatePermission i rs n d) st = fresh_id i st"
| "op_fresh op st = True"

fun op_moves :: "admin_op \<Rightarrow> bool" where
  "op_moves (UpdateGroup g b) = moves b"
| "op_moves op = False"

lemma can_grant_ok: "can_grant ad org names = Inr () \<Longrightarrow> n \<in> set names \<Longrightarrow> may_hand_out ad n"
  by (auto simp: can_grant_def Let_def may_hand_out_def filter_empty_conv split: if_splits)

lemma guard_result: "guard c k st = (r, st') \<longleftrightarrow> (\<exists>e. c = Inl e \<and> r = Inl e \<and> st' = st) \<or> (\<exists>a. c = Inr a \<and> k a st = (r, st'))"
  by (cases c) (auto simp: guard_def)

lemma no_body_result: "no_body res = (r, st') \<Longrightarrow> \<exists>x. res = (x, st')"
  by (cases res) (auto simp: no_body_def)

lemmas route_simps = guard_result require_can_grant_def require_can_grant_in_org_def

lemma route_grant_permission_effect:
  assumes "route_grant_permission ad t r i st = (res, st')" "wf_access st"
  shows "effect ad t mv st st'"
proof (cases "st' = st")
  case False
  obtain p rs where p: "find_permission t i st = Some p" and rs: "find_resource t (pm_resource_server p) st = Some rs"
      "rs_built_in rs \<Longrightarrow> can_grant ad None [pm_name p] = Inr ()"
    and call: "grant_permission t (ad_user ad) r i st = (res, st')"
    using assms(1) False
    by (auto simp: route_grant_permission_def route_simps get_permission_def resources_get_def
        split: option.splits if_splits)
  have wf: "wf_tables (tables t st)" using assms(2) by (simp add: wf_access_def)
  show ?thesis
  proof (rule grant_permission_effect [OF call])
    fix admin q
    assume a: "find_by_identifier t ADMIN_AUDIENCE st = Some admin" "q \<in> set (tab_permissions t st)"
      "pm_id q = i" "pm_resource_server q = rs_id admin"
    have "p \<in> set (tab_permissions t st)" "pm_id p = i"
      using p by (auto simp: find_permission_def dest: find_SomeD)
    then have "q = p" using wf a unfolding wf_tables_def by (metis tables_sel(7))
    have "admin \<in> set (tab_resources t st)" "rs_identifier admin = ADMIN_AUDIENCE"
      using a(1) by (auto simp: find_by_identifier_def dest: find_SomeD)
    moreover have "rs \<in> set (tab_resources t st)" "rs_id rs = rs_id admin"
      using rs(1) a(4) \<open>q = p\<close> by (auto simp: find_resource_def dest: find_SomeD)
    ultimately have "rs_built_in rs" using wf unfolding wf_tables_def by (metis tables_sel(6))
    then show "may_hand_out ad (pm_name q)" using can_grant_ok [OF rs(2)] \<open>q = p\<close> by simp
  qed
qed (simp add: no_change)

text \<open>A lookup writes to the caches only, and keeps them coherent.\<close>

definition fills :: "access_state \<Rightarrow> access_state \<Rightarrow> bool" where
  "fills st st' = ((\<forall>t. tables t st' = tables t st) \<and> ax_tenants st' = ax_tenants st \<and> (coherent st \<longrightarrow> coherent st'))"

lemma fills_refl [simp]: "fills st st"
  by (simp add: fills_def)

lemma fills_trans: "fills a b \<Longrightarrow> fills b c \<Longrightarrow> fills a c"
  by (simp add: fills_def)

lemma fills_I:
  assumes "\<And>t. tables t st' = tables t st" "ax_tenants st' = ax_tenants st"
    and "ax_tenant_version st' = ax_tenant_version st" "ax_user_version st' = ax_user_version st"
    and "ax_last_token st' = ax_last_token st"
    and roles: "\<And>t v u sc. ax_role_cache st' (t, v, u, sc) = ax_role_cache st (t, v, u, sc)
       \<or> (v = access_version t u st \<and> ax_role_cache st' (t, v, u, sc) = Some (effective_roles_of_user t u sc st))"
    and perms: "\<And>t v u sc. ax_permission_cache st' (t, v, u, sc) = ax_permission_cache st (t, v, u, sc)
       \<or> (v = access_version t u st \<and> (\<exists>ns. ax_permission_cache st' (t, v, u, sc) = Some ns \<and> resolve_permissions t u sc st = Inr ns))"
  shows "fills st st'"
proof -
  have "coherent st'" if co: "coherent st"
  proof -
    have v: "access_version t u st' = access_version t u st" for t u by (simp add: access_version_def assms)
    have "tokens_ok st" "answers_ok st" using co by (auto simp: coherent_def)
    then have "fst (access_version t u st) \<le> ax_last_token st \<and> snd (access_version t u st) \<le> ax_last_token st" for t u
      by (simp add: tokens_ok_def access_version_def)
    then have "tokens_ok st'"
      using \<open>tokens_ok st\<close> roles perms unfolding tokens_ok_def assms(3-5) by metis
    moreover have "answers_ok st'"
      unfolding answers_ok_def v effective_roles_cong [OF assms(1)] resolve_cong [OF assms(1)]
    proof (intro allI conjI impI)
      fix t u sc
      show "ax_role_cache st' (t, access_version t u st, u, sc) \<in> {None, Some (effective_roles_of_user t u sc st)}"
        using roles [of t "access_version t u st" u sc] \<open>answers_ok st\<close> unfolding answers_ok_def by (metis insertCI)
      fix names
      assume "ax_permission_cache st' (t, access_version t u st, u, sc) = Some names"
      then show "resolve_permissions t u sc st = Inr names"
        using perms [of t "access_version t u st" u sc] \<open>answers_ok st\<close> by (auto simp: answers_ok_def)
    qed
    ultimately show ?thesis by (simp add: coherent_def)
  qed
  then show ?thesis using assms(1,2) by (simp add: fills_def)
qed

lemma fills_groups: "fills st (snd (groups_of_user t u b st))"
  by (rule fills_I) (auto simp: groups_of_user_def Let_def tables_def tab_defs split: option.splits)

lemma fills_roles: "fills st (snd (effective_roles t u sc st))"
  by (rule fills_I) (auto simp: effective_roles_def Let_def tables_def tab_defs split: option.splits)

text \<open>A coherent cache answers what the tables answer.\<close>

lemma effective_roles_answer:
  "coherent st \<Longrightarrow> fst (effective_roles t u sc st) = effective_roles_of_user t u sc st"
proof -
  assume "coherent st"
  then have "ax_role_cache st (t, access_version t u st, u, sc) \<in> {None, Some (effective_roles_of_user t u sc st)}"
    unfolding coherent_def answers_ok_def by blast
  then show ?thesis by (auto simp: effective_roles_def Let_def)
qed

lemma permissions_answer:
  assumes "coherent st"
  shows "fst (permissions_of_user t u sc st) = resolve_permissions t u sc st"
proof (cases "ax_permission_cache st (t, access_version t u st, u, sc)")
  case (Some names)
  then show ?thesis using assms by (simp add: permissions_of_user_def Let_def coherent_def answers_ok_def)
next
  case None
  obtain rows st1 where er: "effective_roles t u sc st = (rows, st1)" by fastforce
  have rows: "rows = effective_roles_of_user t u sc st" using effective_roles_answer [OF assms, of t u sc] er by simp
  have "tables t st1 = tables t st" using fills_roles [of st t u sc] er by (simp add: fills_def)
  note eqs = tables_eqD [OF this, simplified]
  have "find_by_identifier t ADMIN_AUDIENCE st1 = find_by_identifier t ADMIN_AUDIENCE st"
    "\<And>rs ids. permissions_for_roles t rs ids st1 = permissions_for_roles t rs ids st"
    by (simp_all add: find_by_identifier_def permissions_for_roles_def eqs cong: if_cong)
  then show ?thesis using None er rows
    by (auto simp: permissions_of_user_def resolve_permissions_def Let_def split: option.splits)
qed

lemma permission_cache_fill:
  assumes "resolve_permissions t u sc st = Inr ns"
  shows "fills st (st\<lparr>ax_permission_cache := (ax_permission_cache st)((t, access_version t u st, u, sc) := Some ns)\<rparr>)"
  by (rule fills_I) (use assms in \<open>auto simp: tables_def tab_defs\<close>)

lemma fills_permissions:
  assumes "coherent st"
  shows "fills st (snd (permissions_of_user t u sc st))"
proof (cases "ax_permission_cache st (t, access_version t u st, u, sc)")
  case (Some names)
  then show ?thesis by (simp add: permissions_of_user_def Let_def)
next
  case None
  obtain rows st1 where er: "effective_roles t u sc st = (rows, st1)" by fastforce
  have rows: "rows = effective_roles_of_user t u sc st" using effective_roles_answer [OF assms, of t u sc] er by simp
  have f1: "fills st st1" using fills_roles [of st t u sc] er by simp
  then have tabs: "tables t st1 = tables t st" by (simp add: fills_def)
  note eqs = tables_eqD [OF tabs, simplified]
  have rp: "find_by_identifier t ADMIN_AUDIENCE st1 = find_by_identifier t ADMIN_AUDIENCE st"
    "\<And>rs ids. permissions_for_roles t rs ids st1 = permissions_for_roles t rs ids st"
    by (simp_all add: find_by_identifier_def permissions_for_roles_def eqs cong: if_cong)
  have av: "access_version t u st1 = access_version t u st"
    using er by (auto simp: effective_roles_def access_version_def Let_def split: option.splits)
  let ?put = "\<lambda>ns. st1\<lparr>ax_permission_cache := (ax_permission_cache st1)((t, access_version t u st1, u, sc) := Some ns)\<rparr>"
  have "snd (permissions_of_user t u sc st) = (case resolve_permissions t u sc st of Inl e \<Rightarrow> st1 | Inr ns \<Rightarrow> ?put ns)"
    unfolding permissions_of_user_def resolve_permissions_def Let_def None er rp av rows
    by (cases "effective_roles_of_user t u sc st = []"; cases "find_by_identifier t ADMIN_AUDIENCE st") (simp_all add: rp)
  moreover have "fills st1 (?put ns)" if "resolve_permissions t u sc st = Inr ns" for ns
    using permission_cache_fill [of t u sc st1 ns] that resolve_cong [OF tabs] by simp
  ultimately have "fills st1 (snd (permissions_of_user t u sc st))"
    by (cases "resolve_permissions t u sc st") simp_all
  with f1 show ?thesis by (rule fills_trans)
qed

definition outcome :: "admin_ctx \<Rightarrow> uuid \<Rightarrow> bool \<Rightarrow> access_state \<Rightarrow> access_state \<Rightarrow> bool" where
  "outcome ad t mv st st' = (\<exists>st1. effect ad t mv st st1 \<and> fills st1 st')"

lemma outcome_effect: "effect ad t mv st st' \<Longrightarrow> outcome ad t mv st st'"
  by (auto simp: outcome_def)

lemma outcome_same: "outcome ad t mv st st"
  by (intro outcome_effect no_change)

lemma route_roles_outcome:
  assumes "wf_access st"
  shows "route_create_role ad t i b st = (r, st') \<Longrightarrow> fresh_id i st \<Longrightarrow> outcome ad t mv st st'"
    and "route_update_role ad t i b' st = (r, st') \<Longrightarrow> outcome ad t mv st st'"
    and "route_delete_role ad t i st = (r, st') \<Longrightarrow> outcome ad t mv st st'"
    and "route_remove_composite ad t i c st = (r, st') \<Longrightarrow> outcome ad t mv st st'"
    and "route_revoke_permission ad t i c st = (r, st') \<Longrightarrow> outcome ad t mv st st'"
    and "route_grant_permission ad t i c st = (r, st') \<Longrightarrow> outcome ad t mv st st'"
  using assms
  by (auto simp: route_create_role_def route_update_role_def route_delete_role_def route_remove_composite_def
      route_revoke_permission_def guard_result outcome_same
      dest!: no_body_result
      intro: outcome_effect roles_create_effect roles_update_effect roles_delete_effect remove_composite_effect
        revoke_permission_effect route_grant_permission_effect)

lemma route_add_composite_outcome:
  assumes "route_add_composite ad t i c st = (r, st')"
  shows "outcome ad t mv st st'"
proof -
  have "st' = st \<or> add_composite t (ad_user ad) i c st = (r, st')
      \<and> can_grant ad None (permissions_of_grant t (GrantRole c) st) = Inr ()"
    using assms by (auto simp: route_add_composite_def route_simps)
  then show ?thesis using outcome_same can_grant_ok by (blast intro: outcome_effect add_composite_effect)
qed

lemma route_groups_outcome:
  assumes "wf_access st"
  shows "route_create_group ad t i b st = (r, st') \<Longrightarrow> fresh_id i st \<Longrightarrow> outcome ad t mv st st'"
    and "route_update_group ad t i b' st = (r, st') \<Longrightarrow> outcome ad t (moves b') st st'"
    and "route_delete_group ad t i st = (r, st') \<Longrightarrow> outcome ad t mv st st'"
    and "route_remove_member ad t i u st = (r, st') \<Longrightarrow> outcome ad t mv st st'"
    and "route_leave_group ad t u i st = (r, st') \<Longrightarrow> outcome ad t mv st st'"
    and "route_group_unassign ad t i u st = (r, st') \<Longrightarrow> outcome ad t mv st st'"
    and "route_user_unassign ad t u i st = (r, st') \<Longrightarrow> outcome ad t mv st st'"
  using assms
  by (auto simp: route_create_group_def route_update_group_def route_delete_group_def route_remove_member_def
      route_leave_group_def route_group_unassign_def route_user_unassign_def guard_result outcome_same
      dest!: no_body_result
      intro: outcome_effect groups_create_effect groups_update_effect groups_delete_effect
        groups_remove_member_effect roles_unassign_effect)

lemma route_add_member_outcome:
  assumes "route_add_member ad t g u st = (r, st')"
  shows "outcome ad t mv st st'"
proof -
  have "st' = st \<or> groups_add_member t (ad_user ad) g u st = (r, st')
      \<and> can_grant ad None (permissions_of_grant t (GrantGroup g) st) = Inr ()"
    using assms by (auto simp: route_add_member_def route_simps)
  then show ?thesis using outcome_same can_grant_ok by (blast intro: outcome_effect groups_add_member_effect)
qed

lemma route_group_assign_outcome:
  assumes "route_group_assign ad t g i st = (r, st')"
  shows "outcome ad t mv st st'"
proof -
  have "st' = st \<or> roles_assign t (ad_user ad) i (PGroup g) st = (r, st')
      \<and> can_grant ad None (permissions_of_grant t (GrantRole i) st) = Inr ()"
    using assms by (auto simp: route_group_assign_def route_simps)
  then show ?thesis using outcome_same can_grant_ok by (blast intro: outcome_effect roles_assign_effect)
qed

lemma route_user_assign_outcome:
  assumes "route_user_assign ad t u i st = (r, st')"
  shows "outcome ad t mv st st'"
proof -
  define core where "core = guard (require ad t ''ridm:users:write'') (\<lambda>_. guard (users_load t u st) (\<lambda>_.
      guard (roles_get t i st) (\<lambda>_. guard (require_can_grant ad (permissions_of_grant t (GrantRole i) st)) (\<lambda>_.
      roles_assign t (ad_user ad) i (PUser u))))) st"
  obtain x st1 where c: "core = (x, st1)" by fastforce
  have "st1 = st \<or> roles_assign t (ad_user ad) i (PUser u) st = (x, st1)
      \<and> can_grant ad None (permissions_of_grant t (GrantRole i) st) = Inr ()"
    using c unfolding core_def by (auto simp: route_simps)
  then have "effect ad t mv st st1" using no_change can_grant_ok by (blast intro: roles_assign_effect)
  moreover have "fills st1 st'"
    using assms c unfolding route_user_assign_def core_def [symmetric]
    by (cases x) (auto intro: fills_roles)
  ultimately show ?thesis unfolding outcome_def by blast
qed

lemma route_join_group_outcome:
  assumes "route_join_group ad t u g st = (r, st')"
  shows "outcome ad t mv st st'"
proof -
  define core where "core = guard (require ad t ''ridm:users:write'') (\<lambda>_. guard (users_load t u st) (\<lambda>_.
      guard (groups_get t g st) (\<lambda>_. guard (require_can_grant ad (permissions_of_grant t (GrantGroup g) st)) (\<lambda>_.
      groups_add_member t (ad_user ad) g u)))) st"
  obtain x st1 where c: "core = (x, st1)" by fastforce
  have "st1 = st \<or> groups_add_member t (ad_user ad) g u st = (x, st1)
      \<and> can_grant ad None (permissions_of_grant t (GrantGroup g) st) = Inr ()"
    using c unfolding core_def by (auto simp: route_simps)
  then have "effect ad t mv st st1" using no_change can_grant_ok by (blast intro: groups_add_member_effect)
  moreover have "fills st1 st'"
    using assms c unfolding route_join_group_def core_def [symmetric]
    by (cases x) (auto intro: fills_groups fills_trans)
  ultimately show ?thesis unfolding outcome_def by blast
qed

lemma route_resources_outcome:
  assumes "wf_access st"
  shows "route_delete_resource ad t i st = (r, st') \<Longrightarrow> outcome ad t mv st st'"
    and "route_create_permission ad t i rs n d st = (r, st') \<Longrightarrow> fresh_id i st \<Longrightarrow> outcome ad t mv st st'"
    and "route_delete_permission ad t rs i st = (r, st') \<Longrightarrow> outcome ad t mv st st'"
    and "route_delete_org ad t i st = (r, st') \<Longrightarrow> outcome ad t mv st st'"
    and "route_org_add_member ad t i u st = (r, st') \<Longrightarrow> outcome ad t mv st st'"
    and "route_org_remove_member ad t i u st = (r, st') \<Longrightarrow> outcome ad t mv st st'"
    and "route_org_unassign ad t i p u st = (r, st') \<Longrightarrow> outcome ad t mv st st'"
  using assms
  by (auto simp: route_delete_resource_def route_create_permission_def route_delete_permission_def
      route_delete_org_def route_org_add_member_def route_org_remove_member_def route_org_unassign_def
      guard_result outcome_same
      dest!: no_body_result
      intro: outcome_effect resources_delete_effect create_permission_effect delete_permission_effect
        orgs_delete_effect org_members_effect orgs_unassign_effect)

lemma route_org_assign_outcome:
  assumes "route_org_assign ad t org p i st = (r, st')"
  shows "outcome ad t mv st st'"
proof -
  have "st' = st \<or> orgs_assign_role t (ad_user ad) org i p st = (r, st')
      \<and> can_grant ad (Some org) (permissions_of_grant t (GrantRole i) st) = Inr ()"
    using assms by (auto simp: route_org_assign_def route_simps)
  then show ?thesis using outcome_same can_grant_ok by (blast intro: outcome_effect orgs_assign_effect)
qed

lemma route_outcome:
  assumes "route ad t op st = (r, st')" "op_fresh op st" "wf_access st"
  shows "outcome ad t (op_moves op) st st'"
  using assms(1,2)
  by (cases op)
    (auto intro: route_roles_outcome [OF assms(3)] route_add_composite_outcome route_groups_outcome [OF assms(3)]
      route_add_member_outcome route_group_assign_outcome route_user_assign_outcome route_join_group_outcome
      route_resources_outcome [OF assms(3)] route_org_assign_outcome)

end
