(* ===== verification/Access_Runs.thy ===== *)
theory Access_Runs
  imports Access_Rules
begin

text \<open>
  Runs of the access model: requests of administrators, lookups, cache entries that are lost
  and version tokens that run out, in any order, and what holds of every run.
\<close>

section \<open>Runs\<close>

inductive access_run :: "(admin_op \<Rightarrow> bool) \<Rightarrow> access_state \<Rightarrow> access_state \<Rightarrow> bool" for allowed where
  start: "access_run allowed st st"
| request: "access_run allowed st0 st \<Longrightarrow> allowed op \<Longrightarrow> op_fresh op st
    \<Longrightarrow> admin_call now home u org t op st = (r, st') \<Longrightarrow> access_run allowed st0 st'"
| permissions_read: "access_run allowed st0 st \<Longrightarrow> access_run allowed st0 (snd (permissions_of_user t u sc st))"
| roles_read: "access_run allowed st0 st \<Longrightarrow> access_run allowed st0 (snd (effective_roles t u sc st))"
| groups_read: "access_run allowed st0 st \<Longrightarrow> access_run allowed st0 (snd (groups_of_user t u b st))"
| entries_lost: "access_run allowed st0 st \<Longrightarrow> (\<And>k. rc k \<in> {None, ax_role_cache st k})
    \<Longrightarrow> (\<And>k. pc k \<in> {None, ax_permission_cache st k}) \<Longrightarrow> (\<And>k. gc k \<in> {None, ax_group_cache st k})
    \<Longrightarrow> access_run allowed st0 (st\<lparr>ax_role_cache := rc, ax_permission_cache := pc, ax_group_cache := gc\<rparr>)"
| tenant_version_lost: "access_run allowed st0 st \<Longrightarrow> access_run allowed st0 (bump_roles_version t st)"
| user_version_lost: "access_run allowed st0 st \<Longrightarrow> access_run allowed st0 (bump_one_user t u st)"

text \<open>Nothing cached yet, and no version token in use that was not drawn.\<close>

definition cold :: "access_state \<Rightarrow> bool" where
  "cold st = (ax_role_cache st = (\<lambda>_. None) \<and> ax_permission_cache st = (\<lambda>_. None)
     \<and> (\<forall>t. ax_tenant_version st t \<le> ax_last_token st) \<and> (\<forall>t u. ax_user_version st t u \<le> ax_last_token st))"

lemma cold_coherent: "cold st \<Longrightarrow> coherent st"
  by (auto simp: cold_def coherent_def tokens_ok_def answers_ok_def)

lemma set_by_key:
  assumes "\<And>t. filter (\<lambda>x. k x = t) xs = filter (\<lambda>x. k x = t) ys" shows "set xs = set ys"
proof (rule set_eqI)
  fix x
  have "x \<in> set xs \<longleftrightarrow> x \<in> set (filter (\<lambda>y. k y = k x) xs)" by simp
  also have "\<dots> \<longleftrightarrow> x \<in> set (filter (\<lambda>y. k y = k x) ys)" by (simp only: assms)
  finally show "x \<in> set xs \<longleftrightarrow> x \<in> set ys" by simp
qed

lemma fresh_id_tables:
  assumes "\<And>t. tables t st' = tables t st"
  shows "fresh_id i st' = fresh_id i st"
proof -
  note eq = tables_eqD [OF assms, simplified tables_sel tab_defs]
  note sets = set_by_key [OF eq(1)] set_by_key [OF eq(2)] set_by_key [OF eq(3)] set_by_key [OF eq(4)]
    set_by_key [OF eq(5)] set_by_key [OF eq(7)] set_by_key [OF eq(8)]
  show ?thesis unfolding fresh_id_def sets ..
qed

lemma op_fresh_tables:
  assumes "\<And>t. tables t st' = tables t st" shows "op_fresh op st' = op_fresh op st"
proof -
  have "fresh_id i st' = fresh_id i st" for i using assms by (rule fresh_id_tables)
  then show ?thesis by (cases op) simp_all
qed

lemmas route_defs = route_create_role_def route_update_role_def route_delete_role_def route_add_composite_def
  route_remove_composite_def route_grant_permission_def route_revoke_permission_def route_create_group_def
  route_update_group_def route_delete_group_def route_add_member_def route_remove_member_def route_group_assign_def
  route_group_unassign_def route_user_assign_def route_user_unassign_def route_join_group_def route_leave_group_def
  route_delete_resource_def route_create_permission_def route_delete_permission_def route_delete_org_def
  route_org_add_member_def route_org_remove_member_def route_org_assign_def route_org_unassign_def

lemma unreached_refused: "\<not> reaches ad t \<Longrightarrow> route ad t op st = (Inl other_tenant, st)"
  by (cases op) (simp_all add: route_defs guard_def require_def require_org_def)

text \<open>The administrator a request acts as holds what the tables say the user holds.\<close>

definition admin_of :: "uuid \<Rightarrow> uuid \<Rightarrow> access_state \<Rightarrow> admin_ctx \<Rightarrow> bool" where
  "admin_of home u st ad =
     (ad_tenant ad = home \<and> ad_user ad = u \<and> ad_global ad = (home = MASTER_TENANT_ID)
      \<and> set (ad_permissions ad) \<subseteq> powers (graph home st) u \<and> set (ad_org_permissions ad) \<subseteq> powers (graph home st) u)"

lemma read_permissions:
  assumes "coherent st" "permissions_of_user t u sc st = (r, st')"
  shows "fills st st'" "coherent st'" "r = Inr names \<Longrightarrow> set names \<subseteq> powers (graph t st) u"
proof -
  show f: "fills st st'" using fills_permissions [OF assms(1), of t u sc] assms(2) by simp
  then show "coherent st'" using assms(1) by (simp add: fills_def)
  show "set names \<subseteq> powers (graph t st) u" if "r = Inr names"
    using permissions_answer [OF assms(1), of t u sc] assms(2) that by (intro resolve_within_powers) simp
qed

lemma fills_graph: "fills st st' \<Longrightarrow> graph t st' = graph t st"
  by (intro graph_cong) (simp add: fills_def)

lemma admin_context_fills:
  assumes co: "coherent st" and call: "admin_context now home u org st = (r, st')"
  shows "fills st st' \<and> (\<forall>ad. r = Inr ad \<longrightarrow> admin_of home u st ad)"
proof (cases "st' = st \<and> (\<exists>e. r = Inl e)")
  case True
  then show ?thesis by auto
next
  case False
  obtain x st1 where p1: "permissions_of_user home u TenantWide st = (x, st1)" by fastforce
  obtain y st2 where p2: "(case org of Some og \<Rightarrow> permissions_of_user home u (InOrg og) st1 | None \<Rightarrow> (Inr [], st1)) = (y, st2)"
    by fastforce
  note r1 = read_permissions [OF co p1]
  have f2: "fills st1 st2" using p2 read_permissions(1) [OF r1(2)] by (auto split: option.splits)
  have y: "set names \<subseteq> powers (graph home st) u" if "y = Inr names" for names
    using p2 that read_permissions(3) [OF r1(2)] fills_graph [OF r1(1)] by (fastforce split: option.splits)
  have f3: "fills st2 (snd (effective_roles home u sc st2))" for sc by (rule fills_roles)
  have f: "fills st st2" using r1(1) f2 by (rule fills_trans)
  show ?thesis
    using call False p1 p2 r1(1) r1(3) y f fills_trans [OF f f3]
    by (cases x; cases y) (auto simp: admin_context_def admin_of_def is_master_tenant_def split: option.splits if_splits)
qed

lemma effect_tenants: "effect ad t mv st st' \<Longrightarrow> ax_tenants st' = ax_tenants st"
  by (auto simp: put_def frame_def elim!: effect.cases)

lemma admin_call_step:
  assumes co: "coherent st" and wf: "wf_access st" and fresh: "op_fresh op st"
    and call: "admin_call now home u org t op st = (r, st')"
  shows "fills st st' \<or> (\<exists>ad st1. fills st st1 \<and> admin_of home u st ad \<and> reaches ad t \<and> outcome ad t (op_moves op) st1 st')"
proof -
  obtain x st1 where ctx: "admin_context now home u org st = (x, st1)" by fastforce
  note f = admin_context_fills [OF co ctx]
  show ?thesis
  proof (cases x)
    case (Inl e)
    then show ?thesis using call ctx f by (simp add: admin_call_def)
  next
    case (Inr ad)
    have tabs: "tables t' st1 = tables t' st" for t' using f by (simp add: fills_def)
    have wf1: "wf_access st1" using wf by (simp add: wf_access_def tabs)
    have fr1: "op_fresh op st1" using fresh op_fresh_tables [OF tabs] by simp
    show ?thesis
    proof (cases "t \<in> set (ax_tenants st1) \<and> st' \<noteq> st1")
      case False
      then have "st' = st1" using call ctx Inr by (auto simp: admin_call_def)
      then show ?thesis using f by simp
    next
      case True
      then have rt: "route ad t op st1 = (r, st')" using call ctx Inr by (simp add: admin_call_def)
      have "reaches ad t" using rt True unreached_refused [of ad t op st1] by fastforce
      then show ?thesis using f Inr route_outcome [OF rt fr1 wf1] by blast
    qed
  qed
qed

lemma fills_keep: "fills st st' \<Longrightarrow> wf_access st \<Longrightarrow> coherent st \<Longrightarrow> wf_access st' \<and> coherent st'"
  by (simp add: fills_def wf_access_def)

lemma outcome_keep: "outcome ad t mv st st' \<Longrightarrow> wf_access st \<Longrightarrow> coherent st \<Longrightarrow> wf_access st' \<and> coherent st'"
  unfolding outcome_def using effect_wf effect_coherent fills_keep by blast

lemma entries_lost_fills:
  assumes "\<And>k. rc k \<in> {None, ax_role_cache st k}" "\<And>k. pc k \<in> {None, ax_permission_cache st k}"
  shows "fills st (st\<lparr>ax_role_cache := rc, ax_permission_cache := pc, ax_group_cache := gc\<rparr>)"
proof -
  let ?st = "st\<lparr>ax_role_cache := rc, ax_permission_cache := pc, ax_group_cache := gc\<rparr>"
  have tabs: "tables t ?st = tables t st" for t by (simp add: tables_def tab_defs)
  have v: "access_version t u ?st = access_version t u st" for t u by (simp add: access_version_def)
  have sub: "rc k \<noteq> None \<Longrightarrow> ax_role_cache st k = rc k" "pc k \<noteq> None \<Longrightarrow> ax_permission_cache st k = pc k" for k
    using assms [of k] by auto
  have "coherent ?st" if "coherent st"
  proof -
    have "tokens_ok st" "answers_ok st" using that by (auto simp: coherent_def)
    have "tokens_ok ?st" using \<open>tokens_ok st\<close> sub unfolding tokens_ok_def by simp metis
    moreover have "answers_ok ?st"
      unfolding answers_ok_def v effective_roles_cong [OF tabs] resolve_cong [OF tabs]
    proof (intro allI conjI impI)
      fix t u sc
      show "ax_role_cache ?st (t, access_version t u st, u, sc) \<in> {None, Some (effective_roles_of_user t u sc st)}"
        using assms(1) [of "(t, access_version t u st, u, sc)"] \<open>answers_ok st\<close> unfolding answers_ok_def
        by (simp, metis insert_iff singletonD)
      fix names
      assume "ax_permission_cache ?st (t, access_version t u st, u, sc) = Some names"
      then show "resolve_permissions t u sc st = Inr names"
        using sub(2) [of "(t, access_version t u st, u, sc)"] \<open>answers_ok st\<close> unfolding answers_ok_def by simp
    qed
    ultimately show ?thesis by (simp add: coherent_def)
  qed
  then show ?thesis using tabs by (simp add: fills_def)
qed

lemma version_lost_fills: "fills st (bump_roles_version t st)" "fills st (bump_one_user t u st)"
proof -
  have tabs: "tables t' (bump_roles_version t st) = tables t' st" "tables t' (bump_one_user t u st) = tables t' st" for t'
    by (simp_all add: version_defs tables_def tab_defs)
  have fr: "frame t BumpTenant st (bump_roles_version t st)" "frame t (BumpUser u) st (bump_one_user t u st)"
    by (simp_all add: frame_def tabs) (simp_all add: version_defs)
  have "coherent (bump_roles_version t st)" "coherent (bump_one_user t u st)" if "coherent st"
    using coherent_frame [OF that fr(1)] coherent_frame [OF that fr(2)] same_answers_tables tabs by blast+
  then show "fills st (bump_roles_version t st)" "fills st (bump_one_user t u st)"
    by (simp_all add: fills_def tabs) (simp_all add: version_defs)
qed

lemma access_run_keeps:
  assumes "access_run allowed st0 st" "wf_access st0" "coherent st0"
  shows "wf_access st \<and> coherent st"
  using assms
proof (induction rule: access_run.induct)
  case (request st0 st op now home u org t r st')
  then have ok: "wf_access st" "coherent st" by simp_all
  from admin_call_step [OF ok(2,1) request.hyps(3,4)] show ?case
    using fills_keep [OF _ ok] outcome_keep by blast
next
  case (permissions_read st0 st t u sc)
  then show ?case using fills_keep [OF fills_permissions] by blast
next
  case (roles_read st0 st t u sc)
  then show ?case using fills_keep [OF fills_roles] by blast
next
  case (groups_read st0 st t u b)
  then show ?case using fills_keep [OF fills_groups] by blast
next
  case (entries_lost st0 st rc pc gc)
  then show ?case using fills_keep [OF entries_lost_fills [OF entries_lost.hyps(2,3)]] by blast
next
  case (tenant_version_lost st0 st t)
  then show ?case using fills_keep [OF version_lost_fills(1)] by blast
next
  case (user_version_lost st0 st t u)
  then show ?case using fills_keep [OF version_lost_fills(2)] by blast
qed simp

section \<open>Nobody gains what nobody held\<close>

definition held :: "uuid \<Rightarrow> string \<Rightarrow> access_state \<Rightarrow> bool" where
  "held t p st = (\<exists>u. \<exists>n \<in> powers (graph t st) u. perm_matches n p)"

lemma star_needed: "perm_matches n p \<Longrightarrow> CHR ''*'' \<notin> set n \<Longrightarrow> n = p"
proof -
  assume m: "perm_matches n p" and no: "CHR ''*'' \<notin> set n"
  have "\<not> name_ends_with n '':*''"
    using no by (auto simp: name_ends_with_def starts_with_iff)
  then show "n = p" using m by (auto simp: perm_matches_def strip_suffix_def split: if_splits)
qed

lemma allows_no_star: "allows names n \<Longrightarrow> CHR ''*'' \<notin> set n"
  by (auto simp: allows_def list_ex_iff perm_matches_def split: if_splits)

lemma hand_out_held:
  assumes "admin_of home u st ad" "may_hand_out ad n" "perm_matches n p"
  shows "held home p st"
proof -
  have "n = p" using assms(2,3) star_needed allows_no_star by (auto simp: may_hand_out_def)
  then show ?thesis using assms(1,2)
    by (auto simp: may_hand_out_def allows_def list_ex_iff held_def admin_of_def)
qed

lemma fills_held: "fills st st' \<Longrightarrow> held t p st' = held t p st"
  by (simp add: held_def fills_graph)

lemma admin_call_held:
  assumes "coherent st" "wf_access st" "op_fresh op st" "\<not> op_moves op"
    and "admin_call now home u org t op st = (r, st')" "held t' p st'"
  shows "held t' p st \<or> (t' = t \<and> held home p st \<and> (home = t \<or> home = MASTER_TENANT_ID))"
  using admin_call_step [OF assms(1-3,5)]
proof
  assume "fills st st'"
  then show ?thesis using assms(6) by (simp add: fills_held)
next
  assume "\<exists>ad st1. fills st st1 \<and> admin_of home u st ad \<and> reaches ad t \<and> outcome ad t (op_moves op) st1 st'"
  then obtain ad st1 st2 where f: "fills st st1" and ad: "admin_of home u st ad" "reaches ad t"
    and eff: "effect ad t False st1 st2" and f2: "fills st2 st'" using assms(4) by (auto simp: outcome_def)
  obtain v n where n: "n \<in> powers (graph t' st2) v" "perm_matches n p"
    using assms(6) fills_held [OF f2] by (auto simp: held_def)
  have "wf_access st1" using fills_keep [OF f assms(2,1)] by simp
  from effect_bounds [OF eff this n(1)] show ?thesis
  proof
    assume "n \<in> powers (graph t' st1) v"
    then show ?thesis using n(2) fills_graph [OF f] by (auto simp: held_def)
  next
    assume "t' = t \<and> may_hand_out ad n"
    then show ?thesis using hand_out_held [OF ad(1) _ n(2)] ad by (auto simp: reaches_def admin_of_def)
  qed
qed

lemma run_held:
  assumes "access_run (\<lambda>op. \<not> op_moves op) st0 st" "wf_access st0" "coherent st0"
    and "\<not> held t p st0" "\<not> held MASTER_TENANT_ID p st0"
  shows "\<not> held t p st \<and> \<not> held MASTER_TENANT_ID p st"
  using assms
proof (induction rule: access_run.induct)
  case (request st0 st op now home u org t' r st')
  have ok: "wf_access st" "coherent st" using access_run_keeps [OF request.hyps(1)] request.prems by simp_all
  show ?case using admin_call_held [OF ok(2,1) request.hyps(3,2,4)] request.IH request.prems by blast
next
  case (permissions_read st0 st t u sc)
  have "coherent st" using access_run_keeps [OF permissions_read.hyps(1)] permissions_read.prems by simp
  then show ?case using permissions_read fills_held [OF fills_permissions] by blast
next
  case (roles_read st0 st t u sc)
  then show ?case using fills_held [OF fills_roles] by blast
next
  case (groups_read st0 st t u b)
  then show ?case using fills_held [OF fills_groups] by blast
next
  case (entries_lost st0 st rc pc gc)
  then show ?case using fills_held [OF entries_lost_fills [OF entries_lost.hyps(2,3)]] by blast
next
  case (tenant_version_lost st0 st t)
  then show ?case using fills_held [OF version_lost_fills(1)] by blast
next
  case (user_version_lost st0 st t u)
  then show ?case using fills_held [OF version_lost_fills(2)] by blast
qed simp

section \<open>Permissions\<close>

lemma powers_empty: "find_by_identifier t ADMIN_AUDIENCE st = None \<Longrightarrow> powers (graph t st) u = {}"
  by (simp add: powers_def carried_def granted_needs_server)

definition user_holds :: "uuid \<Rightarrow> uuid \<Rightarrow> string \<Rightarrow> access_state \<Rightarrow> bool" where
  "user_holds t u p st =
     (case resolve_permissions t u Anywhere st of Inr names \<Rightarrow> allows names p | Inl _ \<Rightarrow> False)"

lemma held_holds: "held t p st \<longleftrightarrow> (\<exists>u. user_holds t u p st)"
proof -
  have "(\<exists>n\<in>powers (graph t st) u. perm_matches n p) \<longleftrightarrow> user_holds t u p st" for u
  proof (cases "resolve_permissions t u Anywhere st")
    case (Inl e)
    then have "find_by_identifier t ADMIN_AUDIENCE st = None"
      by (auto simp: resolve_permissions_def Let_def split: if_splits option.splits)
    then show ?thesis using Inl by (simp add: user_holds_def powers_empty)
  next
    case (Inr names)
    then show ?thesis using resolve_anywhere [OF Inr] by (simp add: user_holds_def allows_def list_ex_iff)
  qed
  then show ?thesis by (simp add: held_def)
qed

text \<open>
  C4. No admin permission comes from nowhere. If nobody in a tenant and nobody in the master
  tenant holds a permission, tenant-wide or in any organization, then however many admin
  requests follow (creating, renaming and deleting roles and groups, assigning roles to users
  and groups, adding members and composites, granting permissions, all of it within
  organizations too), and whatever is cached, lost or expired in between, nobody in that
  tenant is ever answered with it, as long as no request moves a group under another one.
\<close>

theorem permission_cannot_be_conjured:
  assumes "wf_access st0" "cold st0" "access_run (\<lambda>op. \<not> op_moves op) st0 st"
    and "\<And>v. \<not> user_holds t v p st0" "\<And>v. \<not> user_holds MASTER_TENANT_ID v p st0"
    and "fst (permissions_of_user t u scope st) = Inr names"
  shows "\<not> allows names p"
proof -
  have "coherent st0" using assms(2) by (rule cold_coherent)
  then have "coherent st" and no: "\<not> held t p st"
    using access_run_keeps [OF assms(3,1)] run_held [OF assms(3,1)] assms(4,5) held_holds by auto
  then have "resolve_permissions t u scope st = Inr names"
    using permissions_answer assms(6) by simp
  then have "set names \<subseteq> powers (graph t st) u" by (rule resolve_within_powers)
  then show ?thesis using no by (auto simp: held_def allows_def list_ex_iff)
qed


lemma direct_out_of_scope:
  assumes eq: "tables t st' = (tables t st)\<lparr>tt_assignments := as\<rparr>"
    and out: "filter (\<lambda>a. scope_counts sc (ra_org a)) as = filter (\<lambda>a. scope_counts sc (ra_org a)) (tab_assignments t st)"
  shows "direct_role_ids t u sc st' = direct_role_ids t u sc st"
proof -
  have swap: "concat (map (\<lambda>a. if A a then if scope_counts sc (ra_org a) then [ra_role a] else [] else []) xs)
      = concat (map (\<lambda>a. if A a then [ra_role a] else []) (filter (\<lambda>a. scope_counts sc (ra_org a)) xs))" for A xs
    by (induction xs) auto
  have swap2: "concat (map (\<lambda>a. concat (map (\<lambda>g. if B a g then if scope_counts sc (ra_org a) then [ra_role a] else [] else []) gs)) xs)
      = concat (map (\<lambda>a. concat (map (\<lambda>g. if B a g then [ra_role a] else []) gs)) (filter (\<lambda>a. scope_counts sc (ra_org a)) xs))"
    for B :: "role_assignment \<Rightarrow> uuid \<times> uuid option \<Rightarrow> bool" and gs xs
  proof (induction xs)
    case (Cons a xs)
    have "concat (map (\<lambda>g. if B a g then [] else []) gs) = ([] :: uuid list)" by (induction gs) auto
    with Cons show ?case by auto
  qed simp
  have "user_group_pairs t u st' = user_group_pairs t u st"
    by (rule user_group_pairs_cong) (simp_all add: tables_eqD [OF eq])
  then show ?thesis by (simp add: direct_role_ids_def swap swap2 out tables_eqD [OF eq])
qed

lemma resolve_out_of_scope:
  assumes eq: "tables t st' = (tables t st)\<lparr>tt_assignments := as\<rparr>"
    and out: "filter (\<lambda>a. scope_counts sc (ra_org a)) as = filter (\<lambda>a. scope_counts sc (ra_org a)) (tab_assignments t st)"
  shows "resolve_permissions t u sc st' = resolve_permissions t u sc st"
proof -
  note eqs = tables_eqD [OF eq, simplified]
  have "child_roles t st' = child_roles t st" by (simp add: child_roles_def fun_eq_iff eqs)
  then have "effective_roles_of_user t u sc st' = effective_roles_of_user t u sc st"
    by (simp add: effective_roles_of_user_def effective_role_ids_def direct_out_of_scope [OF eq out] eqs)
  moreover have "find_by_identifier t ADMIN_AUDIENCE st' = find_by_identifier t ADMIN_AUDIENCE st"
    "permissions_for_roles t rs ids st' = permissions_for_roles t rs ids st" for rs ids
    by (simp add: find_by_identifier_def eqs) (rule permissions_for_roles_cong; simp add: eqs)
  ultimately show ?thesis by (simp add: resolve_permissions_def Let_def split: option.splits)
qed

lemma org_assign_scoped:
  assumes "\<not> scope_counts sc (Some org)"
  shows "resolve_permissions t' u sc (after_assign t a r p (repo_assign t r p (Some org) st)) = resolve_permissions t' u sc st"
proof -
  let ?st = "after_assign t a r p (repo_assign t r p (Some org) st)"
  have "t' \<noteq> t \<Longrightarrow> tables t' ?st = tables t' st"
    by (cases p) (auto simp: after_assign_def repo_assign_def tables_def tab_defs version_defs)
  moreover have "tables t ?st = (tables t st)\<lparr>tt_assignments :=
      if assignment_of t r p (Some org) \<in> set (ax_assignments st) then tab_assignments t st
      else tab_assignments t st @ [assignment_of t r p (Some org)]\<rparr>"
    by (cases p) (auto simp: after_assign_def repo_assign_def tables_def tab_defs version_defs)
  ultimately show ?thesis
    using assms by (cases "t' = t") (auto intro: resolve_cong intro!: resolve_out_of_scope)
qed

lemma org_unassign_scoped:
  assumes "\<not> scope_counts sc (Some org)"
  shows "resolve_permissions t' u sc (after_unassign t a r p (repo_unassign t r p (Some org) st)) = resolve_permissions t' u sc st"
proof -
  let ?st = "after_unassign t a r p (repo_unassign t r p (Some org) st)" and ?x = "assignment_of t r p (Some org)"
  have "t' \<noteq> t \<Longrightarrow> tables t' ?st = tables t' st"
    by (cases p) (auto simp: after_unassign_def repo_unassign_def tables_def tab_defs version_defs filter_tenant_other)
  moreover have "tables t ?st = (tables t st)\<lparr>tt_assignments := filter (\<lambda>x. x \<noteq> ?x) (tab_assignments t st)\<rparr>"
    by (cases p) (auto simp: after_unassign_def repo_unassign_def tables_def tab_defs version_defs conj_commute)
  moreover have "filter (\<lambda>a. scope_counts sc (ra_org a)) (filter (\<lambda>x. x \<noteq> ?x) xs) = filter (\<lambda>a. scope_counts sc (ra_org a)) xs" for xs
    using assms by (induction xs) auto
  ultimately show ?thesis
    using assms by (cases "t' = t") (auto intro: resolve_cong intro!: resolve_out_of_scope)
qed

lemma org_members_tables:
  "tables t' (snd (orgs_remove_member t a org u st)) = tables t' st"
  by (auto simp: orgs_remove_member_def tables_def tab_defs version_defs)

text \<open>An administrator who holds nothing tenant-wide gets past the checks of three routes at most.\<close>

lemma confined_route:
  assumes no: "\<And>p. \<not> allows (ad_permissions ad) p" and call: "route ad t op st = (r, st')"
  shows "st' = st \<or> (\<exists>org. ad_org ad = Some org \<and>
     ((\<exists>u. op = OrgRemoveMember org u \<and> st' = snd (orgs_remove_member t (ad_user ad) org u st))
      \<or> (\<exists>p i. op = OrgAssign org p i \<and> st' = after_assign t (ad_user ad) i p (repo_assign t i p (Some org) st))
      \<or> (\<exists>p i. op = OrgUnassign org p i \<and> st' = after_unassign t (ad_user ad) i p (repo_unassign t i p (Some org) st))))"
proof -
  have req: "require ad t p = Inl (if reaches ad t then missing_permission p else other_tenant)" for p
    using no by (simp add: require_def require_permission_def)
  have org: "require_org ad t o' p = Inr () \<Longrightarrow> ad_org ad = Some o' \<and> confined_to_org ad p \<noteq> None" for o' p
    using no by (auto simp: require_org_def has_in_org_def confined_to_org_def split: if_splits)
  show ?thesis
  proof (cases op)
    case (OrgAddMember o' u)
    then show ?thesis using call org [of o' "''ridm:orgs:write''"] by (auto simp: route_org_add_member_def guard_result)
  next
    case (OrgRemoveMember o' u)
    then show ?thesis using call org [of o' "''ridm:orgs:write''"] by (auto simp: route_org_remove_member_def guard_result)
  next
    case (OrgAssign o' p i)
    then show ?thesis using call org [of o' "''ridm:orgs:write''"]
      by (auto simp: route_org_assign_def guard_result orgs_assign_role_def split: if_splits option.splits)
  next
    case (OrgUnassign o' p i)
    then show ?thesis using call org [of o' "''ridm:orgs:write''"]
      by (auto simp: route_org_unassign_def guard_result orgs_unassign_role_def)
  qed (use call in \<open>simp_all add: route_defs guard_def req\<close>)
qed

text \<open>
  C38. An organization's own administrator stays inside it. A request by someone whose
  permissions all come from grants scoped to their organization leaves what every user may do
  tenant-wide, in any other organization, and in every other tenant as it was.
\<close>

theorem org_admin_confined:
  assumes "\<And>p. \<not> allows (ad_permissions ad) p" "route ad t op st = (r, st')"
    and "scope \<noteq> Anywhere" "\<And>org. scope = InOrg org \<Longrightarrow> ad_org ad \<noteq> Some org"
  shows "resolve_permissions t' u scope st' = resolve_permissions t' u scope st"
proof -
  have out: "\<not> scope_counts scope (Some org)" if "ad_org ad = Some org" for org
    using that assms(3,4) by (cases scope) auto
  from confined_route [OF assms(1,2)] show ?thesis
    using out org_assign_scoped org_unassign_scoped resolve_cong [OF org_members_tables] by auto
qed

section \<open>A small tenant\<close>

definition ex_permission :: "uuid \<Rightarrow> string \<Rightarrow> permission" where
  "ex_permission i n = \<lparr>pm_id = i, pm_tenant = 1, pm_resource_server = 9, pm_name = n, pm_description = None\<rparr>"

definition ex_role :: "uuid \<Rightarrow> string \<Rightarrow> role_row" where
  "ex_role i n = \<lparr>ro_id = i, ro_client = None, ro_name = n, ro_tenant = 1, ro_description = None, ro_built_in = True\<rparr>"

definition ex_group :: "uuid \<Rightarrow> string \<Rightarrow> group_row" where
  "ex_group i n = \<lparr>gr_id = i, gr_parent = None, gr_name = n, gr_tenant = 1, gr_description = None, gr_attributes = JObj []\<rparr>"

text \<open>
  Tenant 1: the group 41 carries \<open>ridm:owner\<close>, the group 42 carries nothing, nobody is in
  either, user 3 is a user manager, and also administers organization 8 through the role 33
  granted there.
\<close>

definition ex_access :: access_state where
  "ex_access =
     \<lparr>ax_tenants = [1], ax_clients = [], ax_users = [ex_user], ax_orgs = [(1, 8)], ax_org_members = [(1, 8, 3)],
      ax_groups = [ex_group 41 ''owners'', ex_group 42 ''mine''],
      ax_members = [], ax_roles = [ex_role 31 OWNER_ROLE, ex_role 32 USER_MANAGER_ROLE, ex_role 33 ORG_ADMIN_ROLE],
      ax_assignments = [assignment_of 1 31 (PGroup 41) None, assignment_of 1 32 (PUser 3) None,
                        assignment_of 1 33 (PUser 3) (Some 8)],
      ax_composites = [],
      ax_resources = [\<lparr>rs_id = 9, rs_identifier = ADMIN_AUDIENCE, rs_token_ttl = None, rs_signing_alg = None,
                        rs_allow_offline_access = False, rs_built_in = True, rs_tenant = 1\<rparr>],
      ax_permissions = [ex_permission 21 ''ridm:groups:write'', ex_permission 22 ''ridm:tenants:delete'',
                        ex_permission 23 ''ridm:orgs:write''],
      ax_grants = [(1, 31, 21), (1, 31, 22), (1, 32, 21), (1, 33, 23)],
      ax_tenant_version = (\<lambda>_. 0), ax_user_version = (\<lambda>_ _. 0), ax_last_token = 0,
      ax_role_cache = (\<lambda>_. None), ax_permission_cache = (\<lambda>_. None), ax_group_cache = (\<lambda>_. None),
      ax_events = []\<rparr>"

definition ex_group_patch :: "string option \<Rightarrow> uuid option option \<Rightarrow> admin_op" where
  "ex_group_patch n p = UpdateGroup 42 \<lparr>gp_name = n, gp_parent = p, gp_description = None, gp_attributes = None\<rparr>"

text \<open>User 3 asks for \<open>op\<close> on tenant 1.\<close>

definition ex_call :: "admin_op \<Rightarrow> access_state \<Rightarrow> access_state" where
  "ex_call op st = snd (admin_call 0 1 3 None 1 op st)"

lemma ex_wf: "wf_access ex_access"
proof -
  have "wf_tables (tables 1 ex_access)" by code_simp
  moreover have "wf_tables (tables t ex_access)" if "t \<noteq> 1" for t
    using that by (simp add: wf_tables_def tab_defs ex_access_def assignment_of_def ex_permission_def ex_role_def)
  ultimately show ?thesis unfolding wf_access_def by metis
qed

lemma ex_cold: "cold ex_access"
  by (simp add: cold_def ex_access_def)

lemma ex_run: "allowed (AddMember 42 3) \<Longrightarrow> access_run allowed ex_access (ex_call (AddMember 42 3) ex_access)"
  unfolding ex_call_def by (rule access_run.request [OF access_run.start _ _ prod.collapse [symmetric]]) simp_all

lemma levels_nil [simp]: "levels nx n [] = []"
  by (induction n) simp_all

lemma ex_unheld: "\<not> user_holds t v ''ridm:tenants:delete'' ex_access"
proof (cases "t = 1 \<and> v = 3")
  case True
  have "\<not> user_holds 1 3 ''ridm:tenants:delete'' ex_access" by code_simp
  then show ?thesis using True by simp
next
  case False
  then have "direct_role_ids t v Anywhere ex_access = []"
    by (auto simp: direct_role_ids_def user_group_pairs_def tab_defs ex_access_def assignment_of_def)
  then have "effective_roles_of_user t v Anywhere ex_access = []"
    by (simp add: effective_roles_of_user_def effective_role_ids_def)
  then show ?thesis by (simp add: user_holds_def resolve_permissions_def allows_def)
qed


theorem permission_cannot_be_conjured_witness:
  "wf_access ex_access \<and> cold ex_access
   \<and> access_run (\<lambda>op. \<not> op_moves op) ex_access (ex_call (AddMember 42 3) ex_access)
   \<and> (3::uuid, 42::uuid) \<in> (\<lambda>m. (snd (snd m), fst (snd m))) ` set (ax_members (ex_call (AddMember 42 3) ex_access))
   \<and> \<not> allows [''ridm:groups:write'', ''ridm:orgs:write''] ''ridm:tenants:delete''"
proof -
  have run: "access_run (\<lambda>op. \<not> op_moves op) ex_access (ex_call (AddMember 42 3) ex_access)" by (rule ex_run) simp
  have "fst (permissions_of_user 1 3 Anywhere (ex_call (AddMember 42 3) ex_access))
      = Inr [''ridm:groups:write'', ''ridm:orgs:write'']" by code_simp
  moreover have "(3, 42) \<in> (\<lambda>m. (snd (snd m), fst (snd m))) ` set (ax_members (ex_call (AddMember 42 3) ex_access))"
    by code_simp
  ultimately show ?thesis
    using permission_cannot_be_conjured [OF ex_wf ex_cold run ex_unheld ex_unheld] run ex_wf ex_cold by blast
qed


text \<open>User 3 with a token of organization 8, in which alone it may do anything.\<close>

definition ex_org_admin :: admin_ctx where
  "ex_org_admin = \<lparr>ad_user = 3, ad_tenant = 1, ad_global = False, ad_permissions = [], ad_org = Some 8,
                   ad_org_permissions = [''ridm:orgs:write'']\<rparr>"

theorem org_admin_confined_witness:
  "ax_assignments (snd (route ex_org_admin 1 (OrgUnassign 8 (PUser 3) 33) ex_access)) \<noteq> ax_assignments ex_access
   \<and> resolve_permissions 1 3 TenantWide (snd (route ex_org_admin 1 (OrgUnassign 8 (PUser 3) 33) ex_access))
       = resolve_permissions 1 3 TenantWide ex_access"
proof
  show "ax_assignments (snd (route ex_org_admin 1 (OrgUnassign 8 (PUser 3) 33) ex_access)) \<noteq> ax_assignments ex_access"
    by code_simp
  have "\<not> allows (ad_permissions ex_org_admin) p" for p by (simp add: ex_org_admin_def allows_def)
  then show "resolve_permissions 1 3 TenantWide (snd (route ex_org_admin 1 (OrgUnassign 8 (PUser 3) 33) ex_access))
       = resolve_permissions 1 3 TenantWide ex_access"
    by (rule org_admin_confined [OF _ prod.collapse [symmetric]]) simp_all
qed


text \<open>
  A renamed group is served under its old name. Once a user's groups have been looked up,
  an update of any group that does not move it leaves the answer for that user as it was,
  whatever the update wrote to the table.
\<close>

theorem group_rename_served_stale:
  assumes "gp_parent patch = None"
  shows "fst (groups_of_user t u eff (snd (groups_update t a i patch (snd (groups_of_user t u eff st)))))
      = fst (groups_of_user t u eff st)"
proof -
  let ?st = "snd (groups_of_user t u eff st)" and ?key = "(t, access_version t u st, u, eff)"
  have hit: "ax_group_cache ?st ?key = Some (fst (groups_of_user t u eff st))" "access_version t u ?st = access_version t u st"
    by (auto simp: groups_of_user_def Let_def access_version_def split: option.splits)
  have "ax_group_cache (snd (groups_update t a i patch ?st)) = ax_group_cache ?st
      \<and> access_version t u (snd (groups_update t a i patch ?st)) = access_version t u ?st"
    using assms
    by (auto simp: groups_update_def Let_def access_version_def patch_groups_def emit_event_def
        split: option.splits sum.splits if_splits)
  then show ?thesis using hit by (simp add: groups_of_user_def Let_def)
qed

definition ex_rename :: group_update where
  "ex_rename = \<lparr>gp_name = Some ''b'', gp_parent = None, gp_description = None, gp_attributes = None\<rparr>"

theorem group_rename_served_stale_witness:
  "(let st = snd (groups_of_user 1 3 False (ex_call (AddMember 42 3) ex_access));
        st' = snd (groups_update 1 3 42 ex_rename st) in
     map gr_name (direct_groups_of_user 1 3 st') = [''b''] \<and> map gr_name (fst (groups_of_user 1 3 False st')) = [''mine''])"
proof -
  have "map gr_name (fst (groups_of_user 1 3 False (ex_call (AddMember 42 3) ex_access))) = [''mine'']" by code_simp
  moreover have "map gr_name (direct_groups_of_user 1 3 (snd (groups_update 1 3 42 ex_rename
      (snd (groups_of_user 1 3 False (ex_call (AddMember 42 3) ex_access)))))) = [''b'']" by code_simp
  ultimately show ?thesis
    using group_rename_served_stale [of ex_rename 1 3 False 3 42 "ex_call (AddMember 42 3) ex_access"]
    by (simp add: ex_rename_def Let_def)
qed

end
