(* ===== verification/Spec2Isabelle.thy ===== *)
theory Spec2Isabelle
  imports Logout Device_Codes Tokens Requests Cache_Keys Cache Outbound Ip_Rules Rate_Limit Mtls Client_Keys Client_Auth Dpop Ciba Token_Endpoint Audit_Log Authorize Access_Runs
begin

text \<open>
  rIDM is a multi-tenant identity provider: an HTTP service (\<open>src/api\<close>) over a PostgreSQL
  database and a Valkey store, which signs users in, keeps their sessions, and issues and
  verifies OAuth 2 and OpenID Connect tokens. This development models its core: signing in, the
  authorization endpoint, sessions and tokens, with the parts these rest on, and proves what
  makes it correct. An authorization request is validated (\<open>Authorize\<close>), walks a login flow
  (\<open>Flows\<close>) over the factors and the checks of a sign-in (\<open>Passwords\<close>, \<open>Second_Factors\<close>,
  \<open>Sign_In_Checks\<close>), ends in a code bound to the session, and the code is exchanged once for
  tokens (\<open>Token_Endpoint\<close>) by a client that proves who it is (\<open>Client_Auth\<close>). Who may
  administer the tenant that all this belongs to is decided by roles, groups and permissions
  (\<open>Access\<close>).

  \<^bold>\<open>How the program is modelled.\<close> Every operation is a function with the state it reads and
  writes passed explicitly. A database table is the list of its rows, and \<open>UPDATE .. WHERE\<close> is
  \<open>update_where\<close>; Valkey is a map from keys to values with an optional end (\<open>kv\<close> of \<open>Prelude\<close>),
  read at an instant; instants and durations are integers of nanoseconds, as \<open>chrono\<close> has
  them. The clock is an argument: \<open>now\<close> is the service's clock and \<open>dbnow\<close> the database's;
  random values and generated identifiers are arguments. A failing operation returns
  \<open>Inl\<close> of the code's own error (\<open>app_error\<close>, \<open>oauth_error\<close>), with the text the code gives
  it. Machine integers are kept at their width where a value can reach it (\<open>as_i64\<close>,
  \<open>as_u64\<close>, words in \<open>Outbound\<close>), and are \<open>nat\<close> or \<open>int\<close> where the code bounds them.
  Code outside the repository is the record \<open>library\<close> of \<open>Domain\<close> (digests, base64, JWT
  signatures, URL and UUID parsing, JSON text) and a few arguments of the same kind; what a
  proof needs of it is a named hypothesis (\<open>jwt_ok\<close>, \<open>uuid_ok\<close>, \<open>uuid_text\<close>), satisfied in a
  witness by a concrete library. Every definition is executable, and no loop of the model
  needs fuel: each is structural, ends by a measure, or (the writer's parking loop of \<open>Audit_Log\<close>)
  is a \<open>partial_function\<close> proved to return.

  \<^bold>\<open>Theories, in the order of their imports.\<close>
  \<^item> \<open>Prelude\<close>: instants, the key-value store, tables, the error monad, and the locale
    \<open>kept_by_steps\<close> (an invariant kept by the steps of a relation is kept by its runs).
  \<^item> \<open>Errors\<close> (\<open>error.rs\<close>): service and OAuth errors with their status and documents.
  \<^item> \<open>Json\<close>, \<open>Text\<close>: JSON values and the string functions of the Rust library in use.
  \<^item> \<open>Session_Store\<close> (\<open>services/sessions.rs\<close>, \<open>repos/sessions.rs\<close>): SSO sessions in Valkey and
    their rows, with the sliding idle end.
  \<^item> \<open>Refresh_Tokens\<close> (\<open>services/refresh_tokens.rs\<close>, \<open>repos/refresh_tokens.rs\<close>): families of
    refresh tokens: issue, redeem with rotation and reuse detection, revocation. In every
    reachable table a family carries one grant and at most one live token, a spent token
    stays spent, and a replayed one ends its family for good.
  \<^item> \<open>Logout\<close> (\<open>services/logout.rs\<close>): the cap on sessions and signing out, which ends the
    tokens of the session.
  \<^item> \<open>Polled_Grants\<close>, \<open>Device_Codes\<close> (\<open>services/device_codes.rs\<close>): what polling promises, as a
    locale interpreted here and in \<open>Ciba\<close>, and the device grant.
  \<^item> \<open>Signing_Keys\<close> (\<open>services/keys.rs\<close>): keys per tenant and algorithm: rotation, overlap,
    revocation, publication.
  \<^item> \<open>Domain\<close> (\<open>models\<close>), \<open>Scopes\<close> (\<open>services/scopes.rs\<close>), \<open>Claims\<close> (\<open>services/claims.rs\<close>).
  \<^item> \<open>Tokens\<close> (\<open>services/tokens.rs\<close>, \<open>opaque_tokens.rs\<close>, \<open>denylist.rs\<close>): access and ID tokens,
    JWT and opaque, and their verification; issued tokens verify to their claims.
  \<^item> \<open>Requests\<close> (\<open>oidc/authorize.rs\<close>, \<open>bearer.rs\<close>, \<open>pkce.rs\<close>, \<open>redirect_uri.rs\<close>): parameters.
  \<^item> \<open>Cache_Keys\<close>, \<open>Cache\<close> (\<open>cache/keys.rs\<close>, \<open>l1.rs\<close>, \<open>layer.rs\<close>): keys of the kinds listed
    there never collide across kinds and tenants (\<open>Client_Keys\<close> shows the one collision outside
    them), and a stale load is not cached over an invalidation.
  \<^item> \<open>Rate_Limit\<close>, \<open>Ip_Rules\<close>, \<open>Outbound\<close> (\<open>services/rate_limit.rs\<close>, \<open>ip_rules.rs\<close>,
    \<open>util/outbound.rs\<close>): the gates in front of the service and of its own requests.
  \<^item> \<open>Mtls\<close>, \<open>Client_Keys\<close>, \<open>Client_Auth\<close>, \<open>Dpop\<close> (\<open>oidc/mtls.rs\<close>, \<open>services/client_keys.rs\<close>,
    \<open>oidc/client_auth.rs\<close>, \<open>oidc/dpop.rs\<close>): how a client proves who it is and which keys it
    holds.
  \<^item> \<open>Ciba\<close> (\<open>services/ciba.rs\<close>, \<open>oidc/ciba.rs\<close>): backchannel authentication requests.
  \<^item> \<open>Token_Endpoint\<close> (\<open>oidc/token.rs\<close>, \<open>services/auth_codes.rs\<close>): every grant over the state of
    all of the above.
  \<^item> \<open>Audit_Log\<close> (\<open>ridm-core/src/audit_chain.rs\<close>, \<open>services/audit.rs\<close>, \<open>repos/audit.rs\<close>,
    \<open>repos/audit_chains.rs\<close>): the hash chain of the audit log: appending, parking what the
    database refuses, paging through a chain to verify it, retention. An untampered log always
    verifies, and two verified listings with one end say the same.
  \<^item> \<open>Second_Factors\<close> (\<open>services/totp.rs\<close>, \<open>repos/credentials.rs\<close>): authenticator codes, recovery
    codes and enrolment; a time step is accepted once, and an enrolled authenticator works.
  \<^item> \<open>Passwords\<close> (\<open>services/password.rs\<close>, \<open>repos/password_history.rs\<close>): hashing, imported formats,
    policy and history, and the upgrade of a hash at sign-in. The history rule holds through
    every interleaving of changes; verifying a stored hash takes bounded work.
  \<^item> \<open>Sign_In_Checks\<close> (\<open>services/risk.rs\<close>, \<open>trusted_devices.rs\<close>, \<open>consents.rs\<close> and their repositories):
    attempts per address, the risk policy, trusted devices, consents, lockout counters.
  \<^item> \<open>Flows\<close> (\<open>services/flows.rs\<close>, \<open>login_flows.rs\<close>): the login flow as a state machine over the stores
    of all of the above: every step that authenticates, continues, consents or cancels, the rule
    \<open>advance\<close> that picks the next stage, and what a live session still owes.
  \<^item> \<open>Flow_Rules\<close>: what the flows guarantee. \<open>advance\<close> refines an abstract list of obligations; over
    the step relation \<open>flow_step\<close>, in which a flow is loaded and saved in separate steps so that
    requests interleave, a flow is done only with a user, a session and the second factor that was
    demanded; a password sign-in is earned, a refused one leaves no session, wrong codes are bounded.
  \<^item> \<open>Authorize\<close> (\<open>oidc/authorize.rs\<close>, \<open>par.rs\<close>, \<open>jar.rs\<close>, \<open>park.rs\<close>, and \<open>finish\<close> of \<open>routes/flows.rs\<close>):
    the authorization endpoint, pushed requests, request objects, and the end of a flow. A code is
    issued without asking only on a session that owes nothing, and at the end of a flow once, to
    the session that completed it; these rest on the invariant of \<open>Flow_Rules\<close> over \<open>az_step\<close>.
  \<^item> \<open>Access\<close> (\<open>services/roles.rs\<close>, \<open>groups.rs\<close>, \<open>admin_access.rs\<close>, \<open>middleware/admin.rs\<close>): the tables
    of roles, composites, groups, assignments and permissions, their recursive queries, the
    permission catalogue, cached resolution under version tokens, and an administrator's checks.
  \<^item> \<open>Access_Admin\<close> (\<open>services/resource_servers.rs\<close>, \<open>organizations.rs\<close>, \<open>routes/admin\<close>): every operation on
    those tables, the admin routes in front of them, and one request of an administrator.
  \<^item> \<open>Access_Graph\<close>, \<open>Access_Rules\<close>: the tables as a graph of who holds what; the few ways a request may
    change it (\<open>effect\<close>), each bounded by what the administrator holds; that every route is one of
    them (\<open>route_outcome\<close>); and \<open>coherent\<close>, that the caches agree with the tables, which they keep.
  \<^item> \<open>Access_Runs\<close>: runs of requests, lookups, lost cache entries and expired versions. No permission
    comes from nowhere unless a group is moved, which is shown to escalate; permission checks are
    never answered from a stale cache; an organization's administrator stays inside it.

  \<^bold>\<open>Interfaces.\<close> \<open>kept_by_steps\<close> (\<open>Prelude\<close>) is interpreted for every step relation of the
  development (refresh tokens, keys, the token endpoint, the audit log, login flows, the
  authorization endpoint), and \<open>polled_grant\<close> (\<open>Polled_Grants\<close>) for device codes and backchannel
  requests; the properties of reachable states rest on the facts of these interpretations.

  \<^bold>\<open>What is not modelled.\<close> HTTP routing and serialisation of responses; the text of SQL beyond
  what each query selects and updates; transactions between concurrent requests, except where
  a load and a write of one request are separate steps (polls, cache loads, login flows, password
  changes and upgrades); events, metrics, logs and notifications; cryptography. Passkey ceremonies, one-time codes by
  email and SMS, directories, registration and SAML answers are arguments of the steps that ask for
  their verdict. Of access, the creation and update of resource servers and organizations, their
  domains and invitations, and listings are left out, and a lookup and the write that invalidates it do not
  overlap. Administration of tenants, users and clients, identity
  brokering, SAML, LDAP, SCIM, import and export, webhooks and the command line are outside this
  development: they are interfaces to other systems, or row-by-row administration of what the
  core reads as an argument. The components list of the manifest names them.
\<close>

end
